(* ===== verification/Prelude.thy ===== *)
theory Prelude
  imports Main "HOL-Library.Word" "HOL-Library.Monad_Syntax"
begin

text \<open>
  What every component shares: the machine types of the C code, the conventions for
  effects, and generic lemmas.

  A C function that may reach \<open>DLM_ASSERT\<close> (\<open>panic\<close>), dereference a freed object or
  read a table out of range returns an \<open>option\<close>; \<open>None\<close> is that crash. State is passed
  explicitly, in the \<open>do\<close> notation of the option monad. A C error code is an \<open>int\<close>.
\<close>

unbundle bit_operations_syntax

named_theorems dlm_defs "definitions of the small accessors and predicates of the model"
named_theorems frame "what an operation leaves unchanged"

type_synonym u8 = "8 word"
type_synonym u16 = "16 word"
type_synonym u32 = "32 word"
type_synonym u64 = "64 word"

section \<open>Conversions between C integer types\<close>

text \<open>\<open>int32_t\<close> and \<open>int8_t\<close> values read from and written to a 32-bit wire field.\<close>

definition s32 :: "u32 \<Rightarrow> int" where
  "s32 w = sint w"

definition s8 :: "u32 \<Rightarrow> int" where
  "s8 w = sint (ucast w :: u8)"

definition to32 :: "int \<Rightarrow> u32" where
  "to32 i = word_of_int i"

text \<open>The test \<open>flags & FLAG\<close> as a truth value.\<close>

definition has_flag :: "u32 \<Rightarrow> u32 \<Rightarrow> bool" where
  "has_flag w f \<longleftrightarrow> w AND f \<noteq> 0"

lemma has_flag_or: "has_flag (a OR b) f \<longleftrightarrow> has_flag a f \<or> has_flag b f"
  by (simp add: has_flag_def bit.conj_disj_distrib2 or_eq_0_iff)

text \<open>The kernel's \<open>time_after_eq(a, b)\<close> and \<open>time_after(a, b)\<close> on \<open>unsigned long\<close>.\<close>

definition time_after_eq :: "u64 \<Rightarrow> u64 \<Rightarrow> bool" where
  "time_after_eq a b \<longleftrightarrow> 0 \<le> sint (a - b)"

definition time_after :: "u64 \<Rightarrow> u64 \<Rightarrow> bool" where
  "time_after a b \<longleftrightarrow> sint (b - a) < 0"

text \<open>\<open>memcpy(dst, src, n)\<close> on byte lists.\<close>

definition memcpy :: "'a list \<Rightarrow> 'a list \<Rightarrow> nat \<Rightarrow> 'a list" where
  "memcpy dst src n = take n src @ drop n dst"

lemma length_memcpy [simp]:
  "n \<le> length src \<Longrightarrow> n \<le> length dst \<Longrightarrow> length (memcpy dst src n) = length dst"
  by (simp add: memcpy_def)

lemma take_memcpy [simp]: "n \<le> length src \<Longrightarrow> take n (memcpy dst src n) = take n src"
  by (simp add: memcpy_def)

section \<open>Assertions\<close>

definition dlm_assert :: "bool \<Rightarrow> unit option" where
  "dlm_assert b = (if b then Some () else None)"

lemma dlm_assert_simps [simp]:
  "dlm_assert True = Some ()" "dlm_assert False = None"
  by (simp_all add: dlm_assert_def)

lemma dlm_assert_Some_iff [simp]: "dlm_assert b = Some u \<longleftrightarrow> b"
  by (simp add: dlm_assert_def)

section \<open>Loops that start over\<close>

text \<open>
  A \<open>goto retry\<close> loop: one pass either finishes with a result or leaves a state from which
  the next pass starts. \<open>retry\<close> is the loop itself, \<open>None\<close> when a pass crashes or the
  loop never ends; \<open>retry_n\<close> runs at most \<open>n\<close> passes and tells the three apart.
\<close>

datatype ('s, 'a) pass = Retry 's | Done 'a

partial_function (option) retry :: "('s \<Rightarrow> ('s, 'a) pass option) \<Rightarrow> 's \<Rightarrow> 'a option" where
  "retry f s = do {
     p \<leftarrow> f s;
     (case p of Retry s' \<Rightarrow> retry f s' | Done a \<Rightarrow> Some a)
   }"

declare retry.simps [code]

fun retry_n :: "nat \<Rightarrow> ('s \<Rightarrow> ('s, 'a) pass option) \<Rightarrow> 's \<Rightarrow> ('s, 'a) pass option" where
  "retry_n 0 f s = Some (Retry s)"
| "retry_n (Suc n) f s = do {
     p \<leftarrow> f s;
     (case p of Retry s' \<Rightarrow> retry_n n f s' | Done a \<Rightarrow> Some (Done a))
   }"

lemma retry_Done: "f s = Some (Done a) \<Longrightarrow> retry f s = Some a"
  by (subst retry.simps) simp

lemma retry_Retry: "f s = Some (Retry s') \<Longrightarrow> retry f s = retry f s'"
  by (subst retry.simps) simp

lemma retry_n_Done: "retry_n n f s = Some (Done a) \<Longrightarrow> retry f s = Some a"
proof (induction n arbitrary: s)
  case 0
  then show ?case by simp
next
  case (Suc n)
  then show ?case
    by (cases "f s") (auto simp: retry_Done retry_Retry split: pass.splits)
qed

lemma retry_n_more:
  "retry_n n f s = Some (Done a) \<Longrightarrow> n \<le> m \<Longrightarrow> retry_n m f s = Some (Done a)"
proof (induction n arbitrary: s m)
  case 0
  then show ?case by simp
next
  case (Suc n)
  then obtain m' where m: "m = Suc m'" "n \<le> m'" by (cases m) auto
  obtain p where p: "f s = Some p" using Suc.prems(1) by (cases "f s") auto
  then show ?case using Suc m by (cases p) auto
qed

text \<open>If every pass from a state in \<open>P\<close> starts over in a state of \<open>P\<close>, no number of
  passes finishes.\<close>

lemma retry_n_livelock:
  assumes "\<And>s. P s \<Longrightarrow> \<exists>s'. f s = Some (Retry s') \<and> P s'" and "P s"
  shows "\<exists>s'. retry_n n f s = Some (Retry s') \<and> P s'"
  using assms(2)
proof (induction n arbitrary: s)
  case 0
  then show ?case by simp
next
  case (Suc n)
  from assms(1) [OF Suc.prems] obtain s1 where "f s = Some (Retry s1)" "P s1" by blast
  with Suc.IH [of s1] show ?case by simp
qed

text \<open>What holds of every state the loop passes through holds of its result.\<close>

lemma retry_invariant:
  assumes step: "\<And>s p. I s \<Longrightarrow> f s = Some p \<Longrightarrow> (case p of Retry s' \<Rightarrow> I s' | Done a \<Rightarrow> Q a)"
    and "I s" and "retry f s = Some a"
  shows "Q a"
proof -
  have "(\<forall>s p. I s \<longrightarrow> f s = Some p \<longrightarrow> case_pass I Q p) \<longrightarrow> I s \<longrightarrow> Q a"
  proof (rule retry.raw_induct [OF _ assms(3)], intro impI)
    fix g h s y
    assume IH: "\<And>s b y. g s b = Some y \<Longrightarrow>
        (\<forall>t p. I t \<longrightarrow> s t = Some p \<longrightarrow> case_pass I Q p) \<longrightarrow> I b \<longrightarrow> Q y"
      and eq: "h s \<bind> (\<lambda>p. case p of Retry s' \<Rightarrow> g h s' | Done a \<Rightarrow> Some a) = Some y"
      and h: "\<forall>t p. I t \<longrightarrow> h t = Some p \<longrightarrow> case_pass I Q p" and i: "I s"
    from eq obtain p where p: "h s = Some p"
      "(case p of Retry s' \<Rightarrow> g h s' | Done a \<Rightarrow> Some a) = Some y"
      by (auto simp: Option.bind_eq_Some_conv)
    with h i have "case_pass I Q p" by blast
    with p(2) IH h show "Q y" by (cases p) auto
  qed
  with assms show ?thesis by blast
qed

section \<open>Lists without repetition, and pairwise relations\<close>

lemma distinct_remove1 [simp]: "distinct xs \<Longrightarrow> distinct (remove1 x xs)"
  by (induction xs) auto

lemma set_remove1_distinct [simp]: "distinct xs \<Longrightarrow> set (remove1 x xs) = set xs - {x}"
  by (rule set_remove1_eq)

lemma mem_remove1_other: "y \<noteq> x \<Longrightarrow> y \<in> set (remove1 x xs) \<longleftrightarrow> y \<in> set xs"
  by (rule in_set_remove1)

definition pairwise_on :: "'a set \<Rightarrow> ('a \<Rightarrow> 'a \<Rightarrow> bool) \<Rightarrow> bool" where
  "pairwise_on A R \<longleftrightarrow> (\<forall>x\<in>A. \<forall>y\<in>A. x \<noteq> y \<longrightarrow> R x y)"

lemma pairwise_on_empty [simp]: "pairwise_on {} R"
  by (simp add: pairwise_on_def)

lemma pairwise_on_subset: "pairwise_on A R \<Longrightarrow> B \<subseteq> A \<Longrightarrow> pairwise_on B R"
  by (auto simp: pairwise_on_def)

lemma pairwise_on_cong:
  "(\<And>x y. x \<in> A \<Longrightarrow> y \<in> A \<Longrightarrow> x \<noteq> y \<Longrightarrow> R x y \<longleftrightarrow> S x y) \<Longrightarrow> pairwise_on A R \<longleftrightarrow> pairwise_on A S"
  by (auto simp: pairwise_on_def)

lemma pairwise_on_insert:
  "pairwise_on (insert a A) R \<longleftrightarrow>
     pairwise_on A R \<and> (\<forall>x\<in>A. x \<noteq> a \<longrightarrow> R x a \<and> R a x)"
  by (auto simp: pairwise_on_def)

end
