(* ===== verification/Dlm_Types.thy ===== *)
theory Dlm_Types
  imports Prelude "HOL-Library.Tree"
begin

text \<open>
  The data of \<open>fs/dlm\<close>: the constants of \<open>dlmconstants.h\<close> and \<open>dlm_internal.h\<close>, the lock
  block \<open>dlm_lkb\<close>, the resource \<open>dlm_rsb\<close>, the wire message, the lockspace \<open>dlm_ls\<close>, and
  the record \<open>dlm_env\<close> of the functions that \<open>fs/dlm/lock.c\<close> calls but that are not part of
  this repository. Locks and resources are reached through the lockspace: a lock by its id
  (\<open>ls_lkbidr\<close>), a resource by its address (\<open>ls_rsbs\<close>).
\<close>

section \<open>Constants\<close>

abbreviation (input) DLM_LOCK_IV :: int where "DLM_LOCK_IV \<equiv> -1"
abbreviation (input) DLM_LOCK_NL :: int where "DLM_LOCK_NL \<equiv> 0"
abbreviation (input) DLM_LOCK_CR :: int where "DLM_LOCK_CR \<equiv> 1"
abbreviation (input) DLM_LOCK_CW :: int where "DLM_LOCK_CW \<equiv> 2"
abbreviation (input) DLM_LOCK_PR :: int where "DLM_LOCK_PR \<equiv> 3"
abbreviation (input) DLM_LOCK_PW :: int where "DLM_LOCK_PW \<equiv> 4"
abbreviation (input) DLM_LOCK_EX :: int where "DLM_LOCK_EX \<equiv> 5"

abbreviation (input) DLM_RESNAME_MAXLEN :: nat where "DLM_RESNAME_MAXLEN \<equiv> 64"

abbreviation (input) DLM_LKF_NOQUEUE :: u32 where "DLM_LKF_NOQUEUE \<equiv> 0x1"
abbreviation (input) DLM_LKF_CANCEL :: u32 where "DLM_LKF_CANCEL \<equiv> 0x2"
abbreviation (input) DLM_LKF_CONVERT :: u32 where "DLM_LKF_CONVERT \<equiv> 0x4"
abbreviation (input) DLM_LKF_VALBLK :: u32 where "DLM_LKF_VALBLK \<equiv> 0x8"
abbreviation (input) DLM_LKF_QUECVT :: u32 where "DLM_LKF_QUECVT \<equiv> 0x10"
abbreviation (input) DLM_LKF_IVVALBLK :: u32 where "DLM_LKF_IVVALBLK \<equiv> 0x20"
abbreviation (input) DLM_LKF_CONVDEADLK :: u32 where "DLM_LKF_CONVDEADLK \<equiv> 0x40"
abbreviation (input) DLM_LKF_PERSISTENT :: u32 where "DLM_LKF_PERSISTENT \<equiv> 0x80"
abbreviation (input) DLM_LKF_NODLCKWT :: u32 where "DLM_LKF_NODLCKWT \<equiv> 0x100"
abbreviation (input) DLM_LKF_EXPEDITE :: u32 where "DLM_LKF_EXPEDITE \<equiv> 0x400"
abbreviation (input) DLM_LKF_NOQUEUEBAST :: u32 where "DLM_LKF_NOQUEUEBAST \<equiv> 0x800"
abbreviation (input) DLM_LKF_HEADQUE :: u32 where "DLM_LKF_HEADQUE \<equiv> 0x1000"
abbreviation (input) DLM_LKF_NOORDER :: u32 where "DLM_LKF_NOORDER \<equiv> 0x2000"
abbreviation (input) DLM_LKF_ORPHAN :: u32 where "DLM_LKF_ORPHAN \<equiv> 0x4000"
abbreviation (input) DLM_LKF_ALTPR :: u32 where "DLM_LKF_ALTPR \<equiv> 0x8000"
abbreviation (input) DLM_LKF_ALTCW :: u32 where "DLM_LKF_ALTCW \<equiv> 0x10000"
abbreviation (input) DLM_LKF_FORCEUNLOCK :: u32 where "DLM_LKF_FORCEUNLOCK \<equiv> 0x20000"
abbreviation (input) DLM_LKF_NOTIFY :: u32 where "DLM_LKF_NOTIFY \<equiv> 0x80000"

abbreviation (input) DLM_ECANCEL :: int where "DLM_ECANCEL \<equiv> 0x10001"
abbreviation (input) DLM_EUNLOCK :: int where "DLM_EUNLOCK \<equiv> 0x10002"
abbreviation (input) EPERM :: int where "EPERM \<equiv> 1"
abbreviation (input) ENOENT :: int where "ENOENT \<equiv> 2"
abbreviation (input) EINTR :: int where "EINTR \<equiv> 4"
abbreviation (input) EIO :: int where "EIO \<equiv> 5"
abbreviation (input) EAGAIN :: int where "EAGAIN \<equiv> 11"
abbreviation (input) ENOMEM :: int where "ENOMEM \<equiv> 12"
abbreviation (input) EACCES :: int where "EACCES \<equiv> 13"
abbreviation (input) ENOTBLK :: int where "ENOTBLK \<equiv> 15"
abbreviation (input) EBUSY :: int where "EBUSY \<equiv> 16"
abbreviation (input) EEXIST :: int where "EEXIST \<equiv> 17"
abbreviation (input) EINVAL :: int where "EINVAL \<equiv> 22"
abbreviation (input) EROFS :: int where "EROFS \<equiv> 30"
abbreviation (input) EDEADLK :: int where "EDEADLK \<equiv> 35"
abbreviation (input) EBADR :: int where "EBADR \<equiv> 53"
abbreviation (input) EPROTO :: int where "EPROTO \<equiv> 71"
abbreviation (input) ERESTART :: int where "ERESTART \<equiv> 85"
abbreviation (input) EOPNOTSUPP :: int where "EOPNOTSUPP \<equiv> 95"
abbreviation (input) ENOBUFS :: int where "ENOBUFS \<equiv> 105"
abbreviation (input) ENOTCONN :: int where "ENOTCONN \<equiv> 107"
abbreviation (input) ETIMEDOUT :: int where "ETIMEDOUT \<equiv> 110"
abbreviation (input) EINPROGRESS :: int where "EINPROGRESS \<equiv> 115"
abbreviation (input) ESTALE :: int where "ESTALE \<equiv> 116"
abbreviation (input) ERESTARTSYS :: int where "ERESTARTSYS \<equiv> 512"

abbreviation (input) DLM_LKSTS_WAITING :: int where "DLM_LKSTS_WAITING \<equiv> 1"
abbreviation (input) DLM_LKSTS_GRANTED :: int where "DLM_LKSTS_GRANTED \<equiv> 2"
abbreviation (input) DLM_LKSTS_CONVERT :: int where "DLM_LKSTS_CONVERT \<equiv> 3"

abbreviation (input) DLM_IFL_MSTCPY_BIT :: nat where "DLM_IFL_MSTCPY_BIT \<equiv> 16"
abbreviation (input) DLM_IFL_RESEND_BIT :: nat where "DLM_IFL_RESEND_BIT \<equiv> 17"
abbreviation (input) DLM_IFL_DEAD_BIT :: nat where "DLM_IFL_DEAD_BIT \<equiv> 18"
abbreviation (input) DLM_IFL_OVERLAP_UNLOCK_BIT :: nat where "DLM_IFL_OVERLAP_UNLOCK_BIT \<equiv> 19"
abbreviation (input) DLM_IFL_OVERLAP_CANCEL_BIT :: nat where "DLM_IFL_OVERLAP_CANCEL_BIT \<equiv> 20"
abbreviation (input) DLM_IFL_ENDOFLIFE_BIT :: nat where "DLM_IFL_ENDOFLIFE_BIT \<equiv> 21"
abbreviation (input) DLM_IFL_DEADLOCK_CANCEL_BIT :: nat where "DLM_IFL_DEADLOCK_CANCEL_BIT \<equiv> 24"
abbreviation (input) DLM_DFL_USER_BIT :: nat where "DLM_DFL_USER_BIT \<equiv> 0"
abbreviation (input) DLM_DFL_ORPHAN_BIT :: nat where "DLM_DFL_ORPHAN_BIT \<equiv> 1"
abbreviation (input) DLM_SBF_DEMOTED_BIT :: nat where "DLM_SBF_DEMOTED_BIT \<equiv> 0"
abbreviation (input) DLM_SBF_VALNOTVALID_BIT :: nat where "DLM_SBF_VALNOTVALID_BIT \<equiv> 1"
abbreviation (input) DLM_SBF_ALTMODE_BIT :: nat where "DLM_SBF_ALTMODE_BIT \<equiv> 2"

abbreviation (input) DLM_CB_CAST :: u32 where "DLM_CB_CAST \<equiv> 1"
abbreviation (input) DLM_CB_BAST :: u32 where "DLM_CB_BAST \<equiv> 2"

abbreviation (input) R_REQUEST :: u32 where "R_REQUEST \<equiv> 0x1"
abbreviation (input) R_RECEIVE_REQUEST :: u32 where "R_RECEIVE_REQUEST \<equiv> 0x2"
abbreviation (input) R_RECEIVE_RECOVER :: u32 where "R_RECEIVE_RECOVER \<equiv> 0x4"
abbreviation (input) R_NOTIFY :: u32 where "R_NOTIFY \<equiv> 0x8"
abbreviation (input) DLM_LU_RECOVER_DIR :: u32 where "DLM_LU_RECOVER_DIR \<equiv> 1"
abbreviation (input) DLM_LU_RECOVER_MASTER :: u32 where "DLM_LU_RECOVER_MASTER \<equiv> 2"
abbreviation (input) DLM_LU_MATCH :: int where "DLM_LU_MATCH \<equiv> 1"
abbreviation (input) DLM_LU_ADD :: int where "DLM_LU_ADD \<equiv> 2"

abbreviation (input) RSB_MASTER_UNCERTAIN :: nat where "RSB_MASTER_UNCERTAIN \<equiv> 0"
abbreviation (input) RSB_VALNOTVALID :: nat where "RSB_VALNOTVALID \<equiv> 1"
abbreviation (input) RSB_NEW_MASTER :: nat where "RSB_NEW_MASTER \<equiv> 3"
abbreviation (input) RSB_RECOVER_CONVERT :: nat where "RSB_RECOVER_CONVERT \<equiv> 5"
abbreviation (input) RSB_RECOVER_GRANT :: nat where "RSB_RECOVER_GRANT \<equiv> 6"
abbreviation (input) RSB_RECOVER_LVB_INVAL :: nat where "RSB_RECOVER_LVB_INVAL \<equiv> 7"

abbreviation (input) DLM_MSG_REQUEST :: int where "DLM_MSG_REQUEST \<equiv> 1"
abbreviation (input) DLM_MSG_CONVERT :: int where "DLM_MSG_CONVERT \<equiv> 2"
abbreviation (input) DLM_MSG_UNLOCK :: int where "DLM_MSG_UNLOCK \<equiv> 3"
abbreviation (input) DLM_MSG_CANCEL :: int where "DLM_MSG_CANCEL \<equiv> 4"
abbreviation (input) DLM_MSG_REQUEST_REPLY :: int where "DLM_MSG_REQUEST_REPLY \<equiv> 5"
abbreviation (input) DLM_MSG_CONVERT_REPLY :: int where "DLM_MSG_CONVERT_REPLY \<equiv> 6"
abbreviation (input) DLM_MSG_UNLOCK_REPLY :: int where "DLM_MSG_UNLOCK_REPLY \<equiv> 7"
abbreviation (input) DLM_MSG_CANCEL_REPLY :: int where "DLM_MSG_CANCEL_REPLY \<equiv> 8"
abbreviation (input) DLM_MSG_GRANT :: int where "DLM_MSG_GRANT \<equiv> 9"
abbreviation (input) DLM_MSG_BAST :: int where "DLM_MSG_BAST \<equiv> 10"
abbreviation (input) DLM_MSG_LOOKUP :: int where "DLM_MSG_LOOKUP \<equiv> 11"
abbreviation (input) DLM_MSG_REMOVE :: int where "DLM_MSG_REMOVE \<equiv> 12"
abbreviation (input) DLM_MSG_LOOKUP_REPLY :: int where "DLM_MSG_LOOKUP_REPLY \<equiv> 13"
abbreviation (input) DLM_MSG_PURGE :: int where "DLM_MSG_PURGE \<equiv> 14"
abbreviation (input) DLM_MSG_NOTIFY :: int where "DLM_MSG_NOTIFY \<equiv> 15"
abbreviation (input) DLM_MSG_NOTIFY_REPLY :: int where "DLM_MSG_NOTIFY_REPLY \<equiv> 16"

abbreviation (input) DLM_RTF_SHRINK_BIT :: nat where "DLM_RTF_SHRINK_BIT \<equiv> 0"
abbreviation (input) DLM_REMOVE_NAMES_MAX :: nat where "DLM_REMOVE_NAMES_MAX \<equiv> 8"
abbreviation (input) NOTIFY_TIMEOUT_SECS :: u64 where "NOTIFY_TIMEOUT_SECS \<equiv> 1"
abbreviation (input) LSFL_RUNNING :: nat where "LSFL_RUNNING \<equiv> 4"
abbreviation (input) LSFL_NODIR :: nat where "LSFL_NODIR \<equiv> 10"

text \<open>\<open>sizeof(struct dlm_message)\<close>: the 16-byte header and 18 32-bit fields.\<close>

abbreviation (input) sizeof_dlm_message :: nat where "sizeof_dlm_message \<equiv> 88"
abbreviation (input) DLM_MSG_cmd :: u8 where "DLM_MSG_cmd \<equiv> 1"
abbreviation (input) DLM_RCOM_cmd :: u8 where "DLM_RCOM_cmd \<equiv> 2"
abbreviation (input) DLM_HEADER_VERSION :: u32 where "DLM_HEADER_VERSION \<equiv> 0x30002"

section \<open>Lock blocks and resources\<close>

type_synonym lkid = u32
type_synonym rsbp = nat    \<comment> \<open>the address of a \<open>struct dlm_rsb\<close>\<close>
type_synonym fnptr = nat   \<comment> \<open>the address of a callback function\<close>
type_synonym bufp = nat    \<comment> \<open>the address of a lock value block\<close>
type_synonym lksbp = nat   \<comment> \<open>the address of a \<open>struct dlm_lksb\<close>\<close>
type_synonym uap = nat     \<comment> \<open>the address of a \<open>struct dlm_user_args\<close>\<close>
type_synonym procp = nat   \<comment> \<open>the address of a \<open>struct dlm_user_proc\<close>\<close>

text \<open>A \<open>list_head\<close> embedded in an object: on no list (pointing at itself), on a list, or
  removed with \<open>list_del\<close>, which poisons it: a second \<open>list_del\<close> then faults.\<close>

datatype list_link = Unlinked | Linked | Poisoned

record dlm_lkb =
  lkb_resource :: "rsbp option"
  lkb_ref :: nat
  lkb_nodeid :: int
  lkb_ownpid :: int
  lkb_id :: u32
  lkb_remid :: u32
  lkb_exflags :: u32
  lkb_sbflags :: u64
  lkb_dflags :: u64
  lkb_iflags :: u64
  lkb_lvbseq :: u32
  lkb_status :: int
  lkb_rqmode :: int
  lkb_grmode :: int
  lkb_highbast :: int
  lkb_wait_type :: int
  lkb_wait_count :: int
  lkb_wait_nodeid :: int
  lkb_timestamp :: u64
  lkb_recover_seq :: u64
  lkb_lvbptr :: "bufp option"
  lkb_lksb :: "lksbp option"
  lkb_astfn :: "fnptr option"
  lkb_bastfn :: "fnptr option"
  lkb_astparam :: nat
  lkb_wait_timestamp :: u64
  lkb_parent_lkid :: u32
  lkb_parent_link :: list_link
  lkb_total_children :: int
  lkb_child_waiters :: "u32 list"

record dlm_rsb =
  res_ref :: nat
  res_flags :: u64
  res_length :: nat
  res_nodeid :: int
  res_master_nodeid :: int
  res_dir_nodeid :: int
  res_lvbseq :: u32
  res_hash :: u32
  res_bucket :: u32
  res_toss_time :: u64
  res_first_lkid :: u32
  res_lookup :: "lkid list"
  res_grantqueue :: "lkid list"
  res_convertqueue :: "lkid list"
  res_waitqueue :: "lkid list"
  res_recover_locks_count :: int
  res_lvbptr :: "bufp option"
  res_name :: "u8 list"

text \<open>One bucket of the resource table: its two red-black trees, whose nodes are embedded in
  the resources, and the bucket flags.\<close>

record dlm_rsbtable =
  keep :: "rsbp tree"
  toss :: "rsbp tree"
  rt_flags :: u64

text \<open>The caller's lock status block. Its status and flags are written by the callback code
  (\<open>ast.c\<close>, not part of this repository) before it calls the caller's completion function.\<close>

record dlm_lksb =
  sb_status :: int
  sb_lkid :: u32
  sb_flags :: u32
  sb_lvbptr :: "bufp option"

record dlm_args =
  arg_flags :: u32
  arg_astfn :: "fnptr option"
  arg_astparam :: nat
  arg_bastfn :: "fnptr option"
  arg_mode :: int
  arg_lksb :: "lksbp option"

text \<open>The arguments of a process's lock, whose status block is at \<open>ua_lksb\<close>, and the process: the
  locks it holds, those being unlocked, and those with callbacks to deliver.\<close>

record dlm_user_args =
  ua_proc :: procp
  ua_lksb :: lksbp
  ua_user_lksb :: nat
  ua_castparam :: nat
  ua_castaddr :: nat
  ua_bastparam :: nat
  ua_bastaddr :: nat
  ua_xid :: u64

record dlm_user_proc =
  proc_asts :: "lkid list"
  proc_locks :: "lkid list"
  proc_unlocking :: "lkid list"

text \<open>A recovery message about a lock: the header fields the code reads, and \<open>rc_buf\<close>, a
  \<open>struct rcom_lock\<close>.\<close>

record rcom_lock =
  rl_ownpid :: u32
  rl_lkid :: u32
  rl_remid :: u32
  rl_parent_lkid :: u32
  rl_parent_remid :: u32
  rl_exflags :: u32
  rl_flags :: u32
  rl_lvbseq :: u32
  rl_result :: u32
  rl_rqmode :: u8
  rl_grmode :: u8
  rl_status :: u8
  rl_asts :: u8
  rl_wait_type :: u16
  rl_namelen :: u16
  rl_name :: "u8 list"
  rl_lvb :: "u8 list"

record dlm_rcom =
  rc_h_nodeid :: u32
  rc_h_length :: u16
  rc_buf :: rcom_lock

text \<open>A message with its header, in host byte order.\<close>

record dlm_message =
  h_version :: u32
  h_lockspace :: u32
  h_nodeid :: u32
  h_length :: u16
  h_cmd :: u8
  m_type :: int
  m_nodeid :: u32
  m_pid :: u32
  m_lkid :: u32
  m_remid :: u32
  m_exflags :: u32
  m_sbflags :: u32
  m_flags :: u32
  m_lvbseq :: u32
  m_hash :: u32
  m_status :: u32
  m_grmode :: u32
  m_rqmode :: u32
  m_bastmode :: u32
  m_asts :: u32
  m_result :: u32
  m_extra :: "u8 list"

text \<open>One call \<open>dlm_add_cb(lkb, flags, mode, status, sbflags)\<close>.\<close>

record dlm_callback =
  cb_lkb :: lkid
  cb_flags :: u32
  cb_mode :: int
  cb_status :: int
  cb_sbflags :: u32

section \<open>The lockspace and its environment\<close>

text \<open>
  \<open>ls_sent\<close> and \<open>ls_cbs\<close> are the messages committed to the transport (with their
  destination) and the calls of \<open>dlm_add_cb\<close>, oldest first. \<open>ls_lvbs\<close> and \<open>ls_lksbs\<close> are
  the memory holding lock value blocks and callers' status blocks, \<open>ls_uas\<close> and \<open>ls_procs\<close>
  the memory of the processes that hold locks. \<open>ls_tick\<close> counts the calls
  of external functions whose answer may differ from call to call (allocators, transport).
\<close>

record dlm_ls =
  ls_global_id :: u32
  ls_generation :: u32
  ls_lvblen :: nat
  ls_flags :: u64
  ls_lkbidr :: "lkid \<Rightarrow> dlm_lkb option"
  ls_rsbs :: "rsbp \<Rightarrow> dlm_rsb option"
  ls_rsbtbl :: "u32 \<Rightarrow> dlm_rsbtable"
  ls_rsbtbl_size :: u32
  ls_waiters :: "lkid list"
  ls_orphans :: "lkid list"
  ls_new_rsb_count :: int
  ls_new_rsb :: "rsbp list"
  ls_root_list :: "rsbp list"
  ls_recover_list :: "rsbp list"
  ls_recover_seq :: u64
  ls_local_rsb :: dlm_rsb
  ls_local_lkb :: dlm_lkb
  ls_local_ms :: dlm_message
  ls_lvbs :: "bufp \<Rightarrow> u8 list"
  ls_lksbs :: "lksbp \<Rightarrow> dlm_lksb"
  ls_sent :: "(int \<times> dlm_message) list"
  ls_cbs :: "dlm_callback list"
  ls_requestqueue :: "(int \<times> dlm_message) list"
  ls_nodes_gone :: "int list"
  ls_recover_locks_in :: u32
  ls_uas :: "uap \<Rightarrow> dlm_user_args option"
  ls_procs :: "procp \<Rightarrow> dlm_user_proc option"
  ls_tick :: nat

text \<open>
  The code this repository calls but does not hold. Allocators answer with an address or
  \<open>None\<close> (out of memory); they are told which addresses are in use and on which call they are.
\<close>

record dlm_env =
  dlm_our_nodeid :: int                                \<comment> \<open>\<open>dlm_our_nodeid()\<close>\<close>
  jhash :: "u8 list \<Rightarrow> u32"                       \<comment> \<open>\<open>jhash(name, len, 0)\<close>\<close>
  dlm_hash2nodeid :: "u32 \<Rightarrow> int"                     \<comment> \<open>\<open>dlm_hash2nodeid(ls, hash)\<close>\<close>
  dlm_dir_nodeid :: "dlm_rsb \<Rightarrow> int"                  \<comment> \<open>\<open>dlm_dir_nodeid(r)\<close>\<close>
  is_master :: "dlm_rsb \<Rightarrow> bool"                  \<comment> \<open>\<open>is_master(r)\<close> of \<open>lock.h\<close>\<close>
  dlm_is_removed :: "int \<Rightarrow> bool"                     \<comment> \<open>\<open>dlm_is_removed(ls, nodeid)\<close>\<close>
  dlm_is_member :: "int \<Rightarrow> bool"                      \<comment> \<open>\<open>dlm_is_member(ls, nodeid)\<close>\<close>
  allocate_rsb :: "(rsbp \<Rightarrow> bool) \<Rightarrow> nat \<Rightarrow> rsbp option"
  allocate_lkb :: "nat \<Rightarrow> bool"
  allocate_lvb :: "nat \<Rightarrow> bufp option"
  idr_alloc :: "(lkid \<Rightarrow> bool) \<Rightarrow> int \<Rightarrow> int \<Rightarrow> nat \<Rightarrow> int"
  rb_insert_color :: "rsbp tree \<Rightarrow> rsbp tree"        \<comment> \<open>rebalances after \<open>rb_link_node\<close>\<close>
  rb_erase :: "rsbp \<Rightarrow> rsbp tree \<Rightarrow> rsbp tree"
  get_mhandle :: "nat \<Rightarrow> bool"                    \<comment> \<open>\<open>dlm_midcomms_get_mhandle\<close> succeeds\<close>
  to_dlm_errno :: "int \<Rightarrow> int"
  from_dlm_errno :: "int \<Rightarrow> int"
  ci_new_rsb_count :: int
  ci_toss_secs :: u64
  hz :: u64
  jiffies :: u64
  ktime :: u64
  current_pid :: int
  signal_pending :: bool                           \<comment> \<open>a signal interrupts the sleeping task\<close>
  uninit_int :: int                                \<comment> \<open>what an uninitialised C variable holds\<close>
  fake_astfn :: fnptr
  fake_bastfn :: fnptr
  dlm_receive_rcom :: "dlm_message \<Rightarrow> int \<Rightarrow> dlm_ls \<Rightarrow> dlm_ls option"
  kmalloc :: "nat \<Rightarrow> nat option"                     \<comment> \<open>an address, for any other object\<close>
  dlm_send_rcom_lock :: "rsbp \<Rightarrow> lkid \<Rightarrow> u64 \<Rightarrow> dlm_ls \<Rightarrow> dlm_ls option"
  dlm_recovered_lock :: "rsbp \<Rightarrow> dlm_ls \<Rightarrow> dlm_ls option"

text \<open>A zero-filled resource and message, as the allocators deliver them.\<close>

definition zero_rsb :: dlm_rsb where
  "zero_rsb = \<lparr>res_ref = 0, res_flags = 0, res_length = 0, res_nodeid = 0,
     res_master_nodeid = 0, res_dir_nodeid = 0, res_lvbseq = 0, res_hash = 0, res_bucket = 0,
     res_toss_time = 0, res_first_lkid = 0, res_lookup = [], res_grantqueue = [],
     res_convertqueue = [], res_waitqueue = [], res_recover_locks_count = 0,
     res_lvbptr = None, res_name = replicate 65 0\<rparr>"

definition zero_lkb :: dlm_lkb where
  "zero_lkb = \<lparr>lkb_resource = None, lkb_ref = 0, lkb_nodeid = 0, lkb_ownpid = 0, lkb_id = 0,
     lkb_remid = 0, lkb_exflags = 0, lkb_sbflags = 0, lkb_dflags = 0, lkb_iflags = 0,
     lkb_lvbseq = 0, lkb_status = 0, lkb_rqmode = 0, lkb_grmode = 0, lkb_highbast = 0,
     lkb_wait_type = 0, lkb_wait_count = 0, lkb_wait_nodeid = 0, lkb_timestamp = 0,
     lkb_recover_seq = 0, lkb_lvbptr = None, lkb_lksb = None, lkb_astfn = None,
     lkb_bastfn = None, lkb_astparam = 0, lkb_wait_timestamp = 0, lkb_parent_lkid = 0,
     lkb_parent_link = Unlinked, lkb_total_children = 0, lkb_child_waiters = []\<rparr>"

definition zero_message :: "nat \<Rightarrow> dlm_message" where
  "zero_message n = \<lparr>h_version = 0, h_lockspace = 0, h_nodeid = 0, h_length = 0, h_cmd = 0,
     m_type = 0, m_nodeid = 0, m_pid = 0, m_lkid = 0, m_remid = 0, m_exflags = 0,
     m_sbflags = 0, m_flags = 0, m_lvbseq = 0, m_hash = 0, m_status = 0, m_grmode = 0,
     m_rqmode = 0, m_bastmode = 0, m_asts = 0, m_result = 0, m_extra = replicate n 0\<rparr>"

end
