(* ===== verification/Objects.thy ===== *)
theory Objects
  imports Dlm_Types
begin

text \<open>
  Access to the two kinds of reference-counted objects of a lockspace. Reading or writing
  through a pointer to an object that no longer exists is \<open>None\<close>. The laws of such a store
  are the locale \<open>object_store\<close>, those of its reference counts \<open>counted_store\<close>; both kinds
  of objects interpret them.
\<close>

section \<open>Pointer access\<close>

definition upd_lkb :: "lkid \<Rightarrow> (dlm_lkb \<Rightarrow> dlm_lkb) \<Rightarrow> dlm_ls \<Rightarrow> dlm_ls option" where
  "upd_lkb k f s = (case ls_lkbidr s k of
       None \<Rightarrow> None
     | Some l \<Rightarrow> Some (s\<lparr>ls_lkbidr := (ls_lkbidr s)(k \<mapsto> f l)\<rparr>))"

definition upd_rsb :: "rsbp \<Rightarrow> (dlm_rsb \<Rightarrow> dlm_rsb) \<Rightarrow> dlm_ls \<Rightarrow> dlm_ls option" where
  "upd_rsb r f s = (case ls_rsbs s r of
       None \<Rightarrow> None
     | Some x \<Rightarrow> Some (s\<lparr>ls_rsbs := (ls_rsbs s)(r \<mapsto> f x)\<rparr>))"

lemma upd_lkb_Some [simp]:
  "ls_lkbidr s k = Some l \<Longrightarrow> upd_lkb k f s = Some (s\<lparr>ls_lkbidr := (ls_lkbidr s)(k \<mapsto> f l)\<rparr>)"
  by (simp add: upd_lkb_def)

lemma upd_lkb_None [simp]: "ls_lkbidr s k = None \<Longrightarrow> upd_lkb k f s = None"
  by (simp add: upd_lkb_def)

lemma upd_rsb_Some [simp]:
  "ls_rsbs s r = Some x \<Longrightarrow> upd_rsb r f s = Some (s\<lparr>ls_rsbs := (ls_rsbs s)(r \<mapsto> f x)\<rparr>)"
  by (simp add: upd_rsb_def)

lemma upd_rsb_None [simp]: "ls_rsbs s r = None \<Longrightarrow> upd_rsb r f s = None"
  by (simp add: upd_rsb_def)

lemma upd_lkb_eq_Some_iff:
  "upd_lkb k f s = Some s' \<longleftrightarrow>
     (\<exists>l. ls_lkbidr s k = Some l \<and> s' = s\<lparr>ls_lkbidr := (ls_lkbidr s)(k \<mapsto> f l)\<rparr>)"
  by (auto simp: upd_lkb_def split: option.splits)

lemma upd_rsb_eq_Some_iff:
  "upd_rsb r f s = Some s' \<longleftrightarrow>
     (\<exists>x. ls_rsbs s r = Some x \<and> s' = s\<lparr>ls_rsbs := (ls_rsbs s)(r \<mapsto> f x)\<rparr>)"
  by (auto simp: upd_rsb_def split: option.splits)

section \<open>Reference counts\<close>

text \<open>\<open>kref_get\<close>, \<open>kref_init\<close>, and \<open>kref_put\<close>, which tells whether the count dropped to
  zero. Putting a reference nobody holds is \<open>None\<close>.\<close>

definition kref_get_lkb :: "lkid \<Rightarrow> dlm_ls \<Rightarrow> dlm_ls option" where
  "kref_get_lkb k s = upd_lkb k (\<lambda>l. l\<lparr>lkb_ref := lkb_ref l + 1\<rparr>) s"

definition kref_put_lkb :: "lkid \<Rightarrow> dlm_ls \<Rightarrow> (bool \<times> dlm_ls) option" where
  "kref_put_lkb k s = do {
     l \<leftarrow> ls_lkbidr s k;
     _ \<leftarrow> dlm_assert (0 < lkb_ref l);
     s \<leftarrow> upd_lkb k (\<lambda>l. l\<lparr>lkb_ref := lkb_ref l - 1\<rparr>) s;
     Some (lkb_ref l = 1, s)
   }"

definition kref_get_rsb :: "rsbp \<Rightarrow> dlm_ls \<Rightarrow> dlm_ls option" where
  "kref_get_rsb r s = upd_rsb r (\<lambda>x. x\<lparr>res_ref := res_ref x + 1\<rparr>) s"

definition kref_put_rsb :: "rsbp \<Rightarrow> dlm_ls \<Rightarrow> (bool \<times> dlm_ls) option" where
  "kref_put_rsb r s = do {
     x \<leftarrow> ls_rsbs s r;
     _ \<leftarrow> dlm_assert (0 < res_ref x);
     s \<leftarrow> upd_rsb r (\<lambda>x. x\<lparr>res_ref := res_ref x - 1\<rparr>) s;
     Some (res_ref x = 1, s)
   }"

section \<open>The laws of an object store\<close>

locale object_store =
  fixes get :: "'s \<Rightarrow> 'k \<Rightarrow> 'o option"
    and upd :: "'k \<Rightarrow> ('o \<Rightarrow> 'o) \<Rightarrow> 's \<Rightarrow> 's option"
  assumes upd_dangling: "get s k = None \<Longrightarrow> upd k f s = None"
    and upd_live: "get s k = Some x \<Longrightarrow> \<exists>s'. upd k f s = Some s' \<and> get s' = (get s)(k \<mapsto> f x)"
begin

lemma upd_SomeD:
  assumes "upd k f s = Some s'"
  shows "\<exists>x. get s k = Some x \<and> get s' = (get s)(k \<mapsto> f x)"
proof (cases "get s k")
  case None
  with upd_dangling [of s k f] assms show ?thesis by simp
next
  case (Some x)
  with upd_live [OF Some, of f] assms show ?thesis by auto
qed

lemma upd_other: "upd k f s = Some s' \<Longrightarrow> k' \<noteq> k \<Longrightarrow> get s' k' = get s k'"
  by (auto dest: upd_SomeD)

lemma upd_live_iff: "(\<exists>s'. upd k f s = Some s') \<longleftrightarrow> get s k \<noteq> None"
proof (cases "get s k")
  case None
  then show ?thesis by (simp add: upd_dangling)
next
  case (Some x)
  with upd_live [OF Some, of f] show ?thesis by auto
qed

lemma upd_keeps_live: "upd k f s = Some s' \<Longrightarrow> get s' k' \<noteq> None \<longleftrightarrow> get s k' \<noteq> None"
  by (cases "k' = k") (auto dest: upd_SomeD upd_other)

end

locale counted_store = object_store get upd
  for get :: "'s \<Rightarrow> 'k \<Rightarrow> 'o option" and upd :: "'k \<Rightarrow> ('o \<Rightarrow> 'o) \<Rightarrow> 's \<Rightarrow> 's option" +
  fixes refs :: "'o \<Rightarrow> nat"
    and hold :: "'k \<Rightarrow> 's \<Rightarrow> 's option"
    and drop_ref :: "'k \<Rightarrow> 's \<Rightarrow> (bool \<times> 's) option"
  assumes hold_eq: "\<exists>f. (\<forall>s. hold k s = upd k f s) \<and> (\<forall>x. refs (f x) = Suc (refs x))"
    and drop_live: "get s k = Some x \<Longrightarrow> 0 < refs x \<Longrightarrow>
      \<exists>s' y. drop_ref k s = Some (refs x = 1, s') \<and> get s' = (get s)(k \<mapsto> y) \<and> refs y = refs x - 1"
    and drop_dead: "get s k = None \<or> (\<exists>x. get s k = Some x \<and> refs x = 0) \<Longrightarrow> drop_ref k s = None"
begin

lemma hold_live:
  assumes "get s k = Some x"
  shows "\<exists>s' y. hold k s = Some s' \<and> get s' = (get s)(k \<mapsto> y) \<and> refs y = Suc (refs x)"
proof -
  from hold_eq [of k] obtain f
    where f: "\<And>s. hold k s = upd k f s" "\<And>x. refs (f x) = Suc (refs x)" by auto
  from upd_live [OF assms, of f] f show ?thesis by auto
qed

text \<open>A reference that was taken can be given back: the count returns to what it was, and
  only a count that was zero before reports the last reference.\<close>

lemma hold_drop:
  assumes "get s k = Some x"
  shows "\<exists>s1 s2 y. hold k s = Some s1 \<and> drop_ref k s1 = Some (refs x = 0, s2) \<and>
     get s2 k = Some y \<and> refs y = refs x"
proof -
  from hold_live [OF assms] obtain s1 y where
    s1: "hold k s = Some s1" "get s1 = (get s)(k \<mapsto> y)" "refs y = Suc (refs x)" by blast
  then have "get s1 k = Some y" "0 < refs y" by simp_all
  from drop_live [OF this] s1 show ?thesis by auto
qed

lemma drop_refD:
  assumes "drop_ref k s = Some (z, s')"
  shows "\<exists>x y. get s k = Some x \<and> 0 < refs x \<and> z = (refs x = 1) \<and>
     get s' = (get s)(k \<mapsto> y) \<and> refs y = refs x - 1"
proof (cases "get s k")
  case None
  with drop_dead [of s k] assms show ?thesis by simp
next
  case (Some x)
  show ?thesis
  proof (cases "refs x = 0")
    case True
    with Some drop_dead [of s k] assms show ?thesis by simp
  next
    case False
    with drop_live [OF Some] assms Some show ?thesis by auto
  qed
qed

end

interpretation lkbs: counted_store ls_lkbidr upd_lkb lkb_ref kref_get_lkb kref_put_lkb
proof (unfold_locales, goal_cases)
  case (1 s k f)
  then show ?case by simp
next
  case (2 s k x f)
  then show ?case by simp
next
  case (3 k)
  show ?case
    by (rule exI [of _ "\<lambda>l. l\<lparr>lkb_ref := lkb_ref l + 1\<rparr>"]) (simp add: kref_get_lkb_def)
next
  case (4 s k x)
  then show ?case
    by (simp add: kref_put_lkb_def) (rule exI, rule conjI, rule refl, simp)
next
  case (5 s k)
  then show ?case by (auto simp: kref_put_lkb_def)
qed

interpretation rsbs: counted_store ls_rsbs upd_rsb res_ref kref_get_rsb kref_put_rsb
proof (unfold_locales, goal_cases)
  case (1 s k f)
  then show ?case by simp
next
  case (2 s k x f)
  then show ?case by simp
next
  case (3 k)
  show ?case
    by (rule exI [of _ "\<lambda>x. x\<lparr>res_ref := res_ref x + 1\<rparr>"]) (simp add: kref_get_rsb_def)
next
  case (4 s k x)
  then show ?case
    by (simp add: kref_put_rsb_def) (rule exI, rule conjI, rule refl, simp)
next
  case (5 s k)
  then show ?case by (auto simp: kref_put_rsb_def)
qed

section \<open>Flag words\<close>

text \<open>\<open>dlm_flags_val\<close> collects the bits \<open>min..max\<close> of a flag word, \<open>dlm_set_flags_val\<close>
  writes them back.\<close>

definition dlm_flags_val :: "u64 \<Rightarrow> nat \<Rightarrow> nat \<Rightarrow> u32" where
  "dlm_flags_val addr mn mx =
     fold (\<lambda>b v. if bit addr b then v OR push_bit b 1 else v) [mn..<mx + 1] 0"

definition dlm_iflags_val :: "dlm_lkb \<Rightarrow> u32" where
  "dlm_iflags_val lkb = dlm_flags_val (lkb_iflags lkb) 16 25"

definition dlm_dflags_val :: "dlm_lkb \<Rightarrow> u32" where
  "dlm_dflags_val lkb = dlm_flags_val (lkb_dflags lkb) 0 1"

definition dlm_sbflags_val :: "dlm_lkb \<Rightarrow> u32" where
  "dlm_sbflags_val lkb = dlm_flags_val (lkb_sbflags lkb) 0 2"

definition dlm_set_flags_val :: "u64 \<Rightarrow> u32 \<Rightarrow> nat \<Rightarrow> nat \<Rightarrow> u64" where
  "dlm_set_flags_val addr val mn mx =
     fold (\<lambda>b a. if bit val b then set_bit b a else unset_bit b a) [mn..<mx + 1] addr"

definition dlm_set_dflags_val :: "u32 \<Rightarrow> dlm_lkb \<Rightarrow> dlm_lkb" where
  "dlm_set_dflags_val val lkb =
     lkb\<lparr>lkb_dflags := dlm_set_flags_val (lkb_dflags lkb) val 0 1\<rparr>"

definition dlm_set_sbflags_val :: "u32 \<Rightarrow> dlm_lkb \<Rightarrow> dlm_lkb" where
  "dlm_set_sbflags_val val lkb =
     lkb\<lparr>lkb_sbflags := dlm_set_flags_val (lkb_sbflags lkb) val 0 2\<rparr>"

definition rsb_set_flag :: "nat \<Rightarrow> dlm_rsb \<Rightarrow> dlm_rsb" where
  "rsb_set_flag flag r = r\<lparr>res_flags := set_bit flag (res_flags r)\<rparr>"

definition rsb_clear_flag :: "nat \<Rightarrow> dlm_rsb \<Rightarrow> dlm_rsb" where
  "rsb_clear_flag flag r = r\<lparr>res_flags := unset_bit flag (res_flags r)\<rparr>"

definition rsb_flag :: "dlm_rsb \<Rightarrow> nat \<Rightarrow> bool" where
  "rsb_flag r flag = bit (res_flags r) flag"

definition dlm_locking_stopped :: "dlm_ls \<Rightarrow> bool" where
  "dlm_locking_stopped s = (\<not> bit (ls_flags s) LSFL_RUNNING)"

definition dlm_no_directory :: "dlm_ls \<Rightarrow> bool" where
  "dlm_no_directory s = bit (ls_flags s) LSFL_NODIR"

definition set_iflag :: "nat \<Rightarrow> dlm_lkb \<Rightarrow> dlm_lkb" where
  "set_iflag n l = l\<lparr>lkb_iflags := set_bit n (lkb_iflags l)\<rparr>"

definition clear_iflag :: "nat \<Rightarrow> dlm_lkb \<Rightarrow> dlm_lkb" where
  "clear_iflag n l = l\<lparr>lkb_iflags := unset_bit n (lkb_iflags l)\<rparr>"

definition iflag :: "dlm_lkb \<Rightarrow> nat \<Rightarrow> bool" where
  "iflag l n = bit (lkb_iflags l) n"

lemmas flag_defs [dlm_defs] =
  rsb_set_flag_def rsb_clear_flag_def rsb_flag_def set_iflag_def clear_iflag_def iflag_def

lemma iflag_set [simp]: "n < 64 \<Longrightarrow> iflag (set_iflag n l) m \<longleftrightarrow> m = n \<or> iflag l m"
  by (auto simp: iflag_def set_iflag_def bit_set_bit_iff)

lemma iflag_clear [simp]: "iflag (clear_iflag n l) m \<longleftrightarrow> m \<noteq> n \<and> iflag l m"
  by (auto simp: iflag_def clear_iflag_def bit_unset_bit_iff)

lemma clear_iflag_idem: "\<not> iflag l n \<Longrightarrow> clear_iflag n l = l"
proof -
  assume "\<not> iflag l n"
  then have "unset_bit n (lkb_iflags l) = lkb_iflags l"
    by (intro bit_word_eqI) (auto simp: bit_unset_bit_iff iflag_def)
  then show "clear_iflag n l = l" by (simp add: clear_iflag_def)
qed

lemma rsb_flag_set [simp]: "n < 64 \<Longrightarrow> rsb_flag (rsb_set_flag n r) m \<longleftrightarrow> m = n \<or> rsb_flag r m"
  by (auto simp: rsb_flag_def rsb_set_flag_def bit_set_bit_iff)

lemma rsb_flag_clear [simp]: "rsb_flag (rsb_clear_flag n r) m \<longleftrightarrow> m \<noteq> n \<and> rsb_flag r m"
  by (auto simp: rsb_flag_def rsb_clear_flag_def bit_unset_bit_iff)

lemma bit_fold_flags_val:
  "\<forall>b\<in>set bs. b < 32 \<Longrightarrow>
   bit (fold (\<lambda>b v. if bit addr b then v OR push_bit b 1 else v) bs (v0 :: u32)) n \<longleftrightarrow>
     bit v0 n \<or> n \<in> set bs \<and> bit (addr :: u64) n"
  by (induction bs arbitrary: v0) (auto simp: bit_or_iff bit_exp_iff)

lemma bit_dlm_flags_val:
  "mx \<le> 31 \<Longrightarrow> bit (dlm_flags_val addr mn mx) n \<longleftrightarrow> mn \<le> n \<and> n \<le> mx \<and> bit addr n"
  by (subst dlm_flags_val_def, subst bit_fold_flags_val) auto

lemma bit_fold_set_flags:
  "\<forall>b\<in>set bs. b < 64 \<Longrightarrow>
   bit (fold (\<lambda>b a. if bit val b then set_bit b a else unset_bit b a) bs (a :: u64)) n \<longleftrightarrow>
     (if n \<in> set bs then bit (val :: u32) n else bit a n)"
  by (induction bs arbitrary: a) (auto simp: bit_set_bit_iff bit_unset_bit_iff)

lemma bit_dlm_set_flags_val:
  "mx \<le> 31 \<Longrightarrow> bit (dlm_set_flags_val addr val mn mx) n \<longleftrightarrow>
     (if mn \<le> n \<and> n \<le> mx then bit val n else bit addr n)"
  by (subst dlm_set_flags_val_def, subst bit_fold_set_flags) auto

end
