(* ===== verification/Modes.thy ===== *)
theory Modes
  imports Objects
begin

text \<open>
  Lock modes and the predicates on locks and resources at the head of \<open>lock.c\<close>: the
  compatibility matrices, the classification of a conversion, and the kind of a lock copy.
  The matrices are C arrays, so a lookup outside their eight rows and columns is \<open>None\<close>.
  The compatibility matrix is compared with its meaning: what a mode accesses, and what it
  lets others access.
\<close>

section \<open>The matrices\<close>

definition dlm_compat_matrix :: "int list list" where
  "dlm_compat_matrix =
    [[1, 1, 1, 1, 1, 1, 1, 0],
     [1, 1, 1, 1, 1, 1, 1, 0],
     [1, 1, 1, 1, 1, 1, 0, 0],
     [1, 1, 1, 1, 0, 0, 0, 0],
     [1, 1, 1, 0, 1, 0, 0, 0],
     [1, 1, 1, 0, 0, 0, 0, 0],
     [1, 1, 0, 0, 0, 0, 0, 0],
     [0, 0, 0, 0, 0, 0, 0, 0]]"

definition dlm_lvb_operations :: "int list list" where
  "dlm_lvb_operations =
    [[-1,  1,  1,  1,  1,  1,  1, -1],
     [-1,  1,  1,  1,  1,  1,  1,  0],
     [-1, -1,  1,  1,  1,  1,  1,  0],
     [-1, -1, -1,  1,  1,  1,  1,  0],
     [-1, -1, -1, -1,  1,  1,  1,  0],
     [-1,  0,  0,  0,  0,  0,  1,  0],
     [-1,  0,  0,  0,  0,  0,  0,  0],
     [-1,  0,  0,  0,  0,  0,  0,  0]]"

definition quecvt_compat_matrix :: "int list list" where
  "quecvt_compat_matrix =
    [[0, 0, 0, 0, 0, 0, 0, 0],
     [0, 0, 1, 1, 1, 1, 1, 0],
     [0, 0, 0, 1, 1, 1, 1, 0],
     [0, 0, 0, 0, 1, 1, 1, 0],
     [0, 0, 0, 1, 0, 1, 1, 0],
     [0, 0, 0, 0, 0, 0, 1, 0],
     [0, 0, 0, 0, 0, 0, 0, 0],
     [0, 0, 0, 0, 0, 0, 0, 0]]"

definition matrix_at :: "int list list \<Rightarrow> int \<Rightarrow> int \<Rightarrow> int option" where
  "matrix_at m i j =
     (if 0 \<le> i \<and> i < 8 \<and> 0 \<le> j \<and> j < 8 then Some (m ! nat i ! nat j) else None)"

definition dlm_modes_compat :: "int \<Rightarrow> int \<Rightarrow> bool option" where
  "dlm_modes_compat mode1 mode2 =
     map_option (\<lambda>b. b \<noteq> 0) (matrix_at dlm_compat_matrix (mode1 + 1) (mode2 + 1))"

definition modes_compat :: "dlm_lkb \<Rightarrow> dlm_lkb \<Rightarrow> bool option" where
  "modes_compat gr rq = dlm_modes_compat (lkb_grmode gr) (lkb_rqmode rq)"

definition lvb_operation :: "int \<Rightarrow> int \<Rightarrow> int option" where
  "lvb_operation gr rq = matrix_at dlm_lvb_operations (gr + 1) (rq + 1)"

definition quecvt_compat :: "int \<Rightarrow> int \<Rightarrow> bool option" where
  "quecvt_compat gr mode =
     map_option (\<lambda>b. b \<noteq> 0) (matrix_at quecvt_compat_matrix (gr + 1) (mode + 1))"

section \<open>Predicates on locks and resources\<close>

definition can_be_queued :: "dlm_lkb \<Rightarrow> bool" where
  "can_be_queued lkb = (\<not> has_flag (lkb_exflags lkb) DLM_LKF_NOQUEUE)"

definition force_blocking_asts :: "dlm_lkb \<Rightarrow> bool" where
  "force_blocking_asts lkb = has_flag (lkb_exflags lkb) DLM_LKF_NOQUEUEBAST"

definition is_demoted :: "dlm_lkb \<Rightarrow> bool" where
  "is_demoted lkb = bit (lkb_sbflags lkb) DLM_SBF_DEMOTED_BIT"

definition is_altmode :: "dlm_lkb \<Rightarrow> bool" where
  "is_altmode lkb = bit (lkb_sbflags lkb) DLM_SBF_ALTMODE_BIT"

definition is_granted :: "dlm_lkb \<Rightarrow> bool" where
  "is_granted lkb = (lkb_status lkb = DLM_LKSTS_GRANTED)"

definition is_remote :: "dlm_rsb \<Rightarrow> bool option" where
  "is_remote r = do { _ \<leftarrow> dlm_assert (0 \<le> res_nodeid r); Some (res_nodeid r \<noteq> 0) }"

definition is_process_copy :: "dlm_lkb \<Rightarrow> bool" where
  "is_process_copy lkb = (lkb_nodeid lkb \<noteq> 0 \<and> \<not> iflag lkb DLM_IFL_MSTCPY_BIT)"

definition is_master_copy :: "dlm_lkb \<Rightarrow> bool" where
  "is_master_copy lkb = iflag lkb DLM_IFL_MSTCPY_BIT"

definition middle_conversion :: "dlm_lkb \<Rightarrow> bool" where
  "middle_conversion lkb \<longleftrightarrow>
     lkb_grmode lkb = DLM_LOCK_PR \<and> lkb_rqmode lkb = DLM_LOCK_CW \<or>
     lkb_rqmode lkb = DLM_LOCK_PR \<and> lkb_grmode lkb = DLM_LOCK_CW"

definition down_conversion :: "dlm_lkb \<Rightarrow> bool" where
  "down_conversion lkb \<longleftrightarrow> \<not> middle_conversion lkb \<and> lkb_rqmode lkb < lkb_grmode lkb"

definition is_overlap_unlock :: "dlm_lkb \<Rightarrow> bool" where
  "is_overlap_unlock lkb = iflag lkb DLM_IFL_OVERLAP_UNLOCK_BIT"

definition is_overlap_cancel :: "dlm_lkb \<Rightarrow> bool" where
  "is_overlap_cancel lkb = iflag lkb DLM_IFL_OVERLAP_CANCEL_BIT"

definition is_overlap :: "dlm_lkb \<Rightarrow> bool" where
  "is_overlap lkb \<longleftrightarrow> iflag lkb DLM_IFL_OVERLAP_UNLOCK_BIT \<or> iflag lkb DLM_IFL_OVERLAP_CANCEL_BIT"

section \<open>The meaning of the modes\<close>

definition valid_mode :: "int \<Rightarrow> bool" where
  "valid_mode m \<longleftrightarrow> DLM_LOCK_IV \<le> m \<and> m \<le> DLM_LOCK_EX"

lemma valid_modeE:
  assumes "valid_mode m"
  obtains "m = -1" | "m = 0" | "m = 1" | "m = 2" | "m = 3" | "m = 4" | "m = 5"
  using assms unfolding valid_mode_def by linarith

lemma valid_mode_simps [simp]:
  "valid_mode (-1)" "valid_mode 0" "valid_mode 1" "valid_mode 2" "valid_mode 3" "valid_mode 4"
  "valid_mode 5"
  by (simp_all add: valid_mode_def)

datatype access = Read | Write

text \<open>What the holder of a mode does to the resource, and what it lets the others do. An
  invalid mode (no lock) behaves as \<open>NL\<close>.\<close>

definition mode_access :: "int \<Rightarrow> access set" where
  "mode_access m =
     (if m = DLM_LOCK_CR \<or> m = DLM_LOCK_PR then {Read}
      else if m = DLM_LOCK_CW \<or> m = DLM_LOCK_PW \<or> m = DLM_LOCK_EX then {Read, Write}
      else {})"

definition mode_shares :: "int \<Rightarrow> access set" where
  "mode_shares m =
     (if m = DLM_LOCK_PR \<or> m = DLM_LOCK_PW then {Read}
      else if m = DLM_LOCK_EX then {}
      else {Read, Write})"

definition compat :: "int \<Rightarrow> int \<Rightarrow> bool" where
  "compat m1 m2 \<longleftrightarrow> dlm_modes_compat m1 m2 = Some True"

lemmas matrix_simps = compat_def dlm_modes_compat_def matrix_at_def dlm_compat_matrix_def

lemma dlm_modes_compat_valid:
  "valid_mode m1 \<Longrightarrow> valid_mode m2 \<Longrightarrow> dlm_modes_compat m1 m2 = Some (compat m1 m2)"
  by (elim valid_modeE; simp add: matrix_simps)

lemma compat_access:
  "valid_mode m1 \<Longrightarrow> valid_mode m2 \<Longrightarrow>
   compat m1 m2 \<longleftrightarrow> mode_access m1 \<subseteq> mode_shares m2 \<and> mode_access m2 \<subseteq> mode_shares m1"
  by (elim valid_modeE; simp add: matrix_simps mode_access_def mode_shares_def)

section \<open>Compatibility relations\<close>

text \<open>What the queues rely on: compatibility is symmetric, and a lock without a mode, or at
  \<open>NL\<close>, is compatible with every lock.\<close>

locale compat_relation =
  fixes valid :: "'m \<Rightarrow> bool" and comp :: "'m \<Rightarrow> 'm \<Rightarrow> bool" and none null :: 'm
  assumes comp_sym: "valid a \<Longrightarrow> valid b \<Longrightarrow> comp a b \<Longrightarrow> comp b a"
    and valid_none: "valid none" and valid_null: "valid null"
    and comp_none: "valid a \<Longrightarrow> comp a none"
    and comp_null: "valid a \<Longrightarrow> comp a null"
begin

text \<open>A set of holders is consistent when their modes are valid and pairwise compatible.\<close>

definition consistent :: "('k \<Rightarrow> 'm) \<Rightarrow> 'k set \<Rightarrow> bool" where
  "consistent mode A \<longleftrightarrow> (\<forall>x\<in>A. valid (mode x)) \<and> pairwise_on A (\<lambda>x y. comp (mode x) (mode y))"

lemma consistent_empty: "consistent mode {}"
  by (simp add: consistent_def)

lemma consistent_subset: "consistent mode A \<Longrightarrow> B \<subseteq> A \<Longrightarrow> consistent mode B"
  by (auto simp: consistent_def intro: pairwise_on_subset)

lemma consistent_cong:
  "(\<And>x. x \<in> A \<Longrightarrow> mode x = mode' x) \<Longrightarrow> consistent mode A \<longleftrightarrow> consistent mode' A"
  by (auto simp: consistent_def pairwise_on_def)

lemma consistentD: "consistent mode A \<Longrightarrow> x \<in> A \<Longrightarrow> y \<in> A \<Longrightarrow> x \<noteq> y \<Longrightarrow> comp (mode x) (mode y)"
  by (auto simp: consistent_def pairwise_on_def)

text \<open>Granting: a holder whose new mode every other holder is compatible with may be added,
  or may change its mode.\<close>

lemma consistent_grant:
  assumes "consistent mode A" and "valid m"
    and "\<And>x. x \<in> A \<Longrightarrow> x \<noteq> k \<Longrightarrow> comp (mode x) m"
  shows "consistent (mode(k := m)) (insert k A)"
  using assms comp_sym by (auto simp: consistent_def pairwise_on_def)

text \<open>Demoting to \<open>NL\<close>, or to no lock, is always possible.\<close>

lemma consistent_demote:
  assumes "consistent mode A" and "m = none \<or> m = null"
  shows "consistent (mode(k := m)) (insert k A)"
  using assms comp_none comp_null valid_none valid_null
  by (intro consistent_grant) (auto simp: consistent_def)

end

interpretation modes: compat_relation valid_mode compat DLM_LOCK_IV DLM_LOCK_NL
proof (unfold_locales, goal_cases)
  case (1 a b)
  then show ?case by (auto simp: compat_access)
next
  case (4 a)
  then show ?case by (simp add: compat_access mode_access_def mode_shares_def)
next
  case (5 a)
  then show ?case by (simp add: compat_access mode_access_def mode_shares_def)
qed simp_all

text \<open>Two locks are compatible, by the matrix the code reads, exactly when each lets the
  other do what its mode does.\<close>

theorem modes_compat_access:
  assumes "valid_mode (lkb_grmode gr)" and "valid_mode (lkb_rqmode rq)"
  shows "modes_compat gr rq =
    Some (mode_access (lkb_grmode gr) \<subseteq> mode_shares (lkb_rqmode rq) \<and>
          mode_access (lkb_rqmode rq) \<subseteq> mode_shares (lkb_grmode gr))"
  by (simp add: modes_compat_def dlm_modes_compat_valid assms compat_access)

theorem modes_compat_access_witness:
  "modes_compat (zero_lkb\<lparr>lkb_grmode := 4\<rparr>) (zero_lkb\<lparr>lkb_rqmode := 1\<rparr>) =
    Some (mode_access 4 \<subseteq> mode_shares 1 \<and> mode_access 1 \<subseteq> mode_shares 4)"
  using modes_compat_access [of "zero_lkb\<lparr>lkb_grmode := 4\<rparr>" "zero_lkb\<lparr>lkb_rqmode := 1\<rparr>"]
  by simp

end
