(* ===== verification/Rsb_Tree.thy ===== *)
theory Rsb_Tree
  imports Modes
begin

text \<open>
  The name-ordered red-black trees of a resource table bucket: \<open>rsb_cmp\<close>,
  \<open>dlm_search_rsb_tree\<close> and \<open>rsb_insert\<close>. Descending the tree and linking a new leaf is the
  code's; rebalancing and erasing are the kernel's \<open>lib/rbtree.c\<close>, parameters that keep the
  in-order sequence of the nodes. The laws a table relies on are the locale \<open>name_index\<close>.
\<close>

section \<open>Comparing names\<close>

fun memcmp :: "u8 list \<Rightarrow> u8 list \<Rightarrow> int" where
  "memcmp (x # xs) (y # ys) = (if x < y then -1 else if y < x then 1 else memcmp xs ys)"
| "memcmp _ _ = 0"

definition maxname :: "u8 list \<Rightarrow> nat \<Rightarrow> u8 list" where
  "maxname name nlen = memcpy (replicate DLM_RESNAME_MAXLEN 0) name nlen"

definition rsb_cmp :: "dlm_rsb \<Rightarrow> u8 list \<Rightarrow> nat \<Rightarrow> int" where
  "rsb_cmp r name nlen = memcmp (take DLM_RESNAME_MAXLEN (res_name r)) (maxname name nlen)"

lemma memcmp_eq_0: "length xs = length ys \<Longrightarrow> memcmp xs ys = 0 \<longleftrightarrow> xs = ys"
  by (induction xs ys rule: memcmp.induct) auto

lemma memcmp_refl [simp]: "memcmp xs xs = 0"
  by (simp add: memcmp_eq_0)

lemma memcmp_swap: "memcmp ys xs = - memcmp xs ys"
  by (induction xs ys rule: memcmp.induct) auto

lemma memcmp_less_trans:
  "length xs = length ys \<Longrightarrow> length ys = length zs \<Longrightarrow> memcmp xs ys < 0 \<Longrightarrow> memcmp ys zs < 0 \<Longrightarrow>
   memcmp xs zs < 0"
proof (induction xs arbitrary: ys zs)
  case Nil
  then show ?case by simp
next
  case (Cons x xs)
  from Cons.prems(1) obtain y ys' where ys: "ys = y # ys'" by (cases ys) auto
  from Cons.prems(2) ys obtain z zs' where zs: "zs = z # zs'" by (cases zs) auto
  show ?case
    using Cons.prems Cons.IH [of ys' zs'] by (auto simp: ys zs split: if_splits)
qed

section \<open>Descending a tree\<close>

text \<open>\<open>cmp\<close> compares the resource at a node with the wanted name: negative goes left.\<close>

fun search_tree :: "(rsbp \<Rightarrow> int option) \<Rightarrow> rsbp tree \<Rightarrow> rsbp option option" where
  "search_tree cmp Leaf = Some None"
| "search_tree cmp (Node l r rr) = do {
     rc \<leftarrow> cmp r;
     if rc < 0 then search_tree cmp l
     else if rc > 0 then search_tree cmp rr
     else Some (Some r)
   }"

fun insert_tree :: "(rsbp \<Rightarrow> int option) \<Rightarrow> rsbp \<Rightarrow> rsbp tree \<Rightarrow> rsbp tree option option" where
  "insert_tree cmp rsb Leaf = Some (Some (Node Leaf rsb Leaf))"
| "insert_tree cmp rsb (Node l cur rr) = do {
     rc \<leftarrow> cmp cur;
     if rc < 0 then map_option (map_option (\<lambda>l'. Node l' cur rr)) (insert_tree cmp rsb l)
     else if rc > 0 then map_option (map_option (\<lambda>rr'. Node l cur rr')) (insert_tree cmp rsb rr)
     else Some None
   }"

definition cmp_node :: "dlm_ls \<Rightarrow> u8 list \<Rightarrow> nat \<Rightarrow> rsbp \<Rightarrow> int option" where
  "cmp_node s name len r = map_option (\<lambda>x. rsb_cmp x name len) (ls_rsbs s r)"

text \<open>The result \<open>None\<close> of the search is the code's \<open>-EBADR\<close>, that of the insertion its
  \<open>-EEXIST\<close>.\<close>

definition dlm_search_rsb_tree :: "dlm_ls \<Rightarrow> rsbp tree \<Rightarrow> u8 list \<Rightarrow> nat \<Rightarrow> rsbp option option" where
  "dlm_search_rsb_tree s tree name len = search_tree (cmp_node s name len) tree"

definition rsb_insert :: "dlm_env \<Rightarrow> dlm_ls \<Rightarrow> rsbp \<Rightarrow> rsbp tree \<Rightarrow> rsbp tree option option" where
  "rsb_insert env s rsb tree = do {
     x \<leftarrow> ls_rsbs s rsb;
     t \<leftarrow> insert_tree (cmp_node s (res_name x) (res_length x)) rsb tree;
     Some (map_option (rb_insert_color env) t)
   }"

section \<open>The laws of a name index\<close>

locale name_index =
  fixes good :: "'e \<Rightarrow> bool"
    and nodes :: "'t \<Rightarrow> 'x set"
    and ok :: "'s \<Rightarrow> 't \<Rightarrow> bool"
    and key :: "'s \<Rightarrow> 'x \<Rightarrow> 'k option"
    and search :: "'s \<Rightarrow> 't \<Rightarrow> 'k \<Rightarrow> 'x option option"
    and ins :: "'e \<Rightarrow> 's \<Rightarrow> 'x \<Rightarrow> 't \<Rightarrow> 't option option"
    and del :: "'e \<Rightarrow> 'x \<Rightarrow> 't \<Rightarrow> 't"
  assumes search_hit: "ok s t \<Longrightarrow> x \<in> nodes t \<Longrightarrow> key s x = Some k \<Longrightarrow> search s t k = Some (Some x)"
    and search_miss: "ok s t \<Longrightarrow> key s y = Some k \<Longrightarrow> \<forall>x\<in>nodes t. key s x \<noteq> Some k \<Longrightarrow>
      search s t k = Some None"
    and ins_new: "good e \<Longrightarrow> ok s t \<Longrightarrow> key s x = Some k \<Longrightarrow> \<forall>y\<in>nodes t. key s y \<noteq> Some k \<Longrightarrow>
      \<exists>t'. ins e s x t = Some (Some t') \<and> ok s t' \<and> nodes t' = insert x (nodes t)"
    and ins_dup: "ok s t \<Longrightarrow> key s x = Some k \<Longrightarrow> y \<in> nodes t \<Longrightarrow> key s y = Some k \<Longrightarrow>
      ins e s x t = Some None"
    and del_ok: "good e \<Longrightarrow> ok s t \<Longrightarrow> ok s (del e x t) \<and> nodes (del e x t) = nodes t - {x}"
begin

text \<open>Two nodes of an index never have the same key.\<close>

lemma key_inj: "ok s t \<Longrightarrow> x \<in> nodes t \<Longrightarrow> y \<in> nodes t \<Longrightarrow> key s x = Some k \<Longrightarrow> key s y = Some k \<Longrightarrow>
  x = y"
  using search_hit [of s t x k] search_hit [of s t y k] by simp

lemma search_ins:
  assumes "good e" "ok s t" "key s x = Some k" "\<forall>y\<in>nodes t. key s y \<noteq> Some k"
    "ins e s x t = Some (Some t')"
  shows "search s t' k = Some (Some x)"
  using ins_new [OF assms(1-4)] assms(3,5) by (auto intro: search_hit)

lemma search_ins_other:
  assumes "good e" "ok s t" "key s x = Some k" "\<forall>y\<in>nodes t. key s y \<noteq> Some k"
    "ins e s x t = Some (Some t')" "key s y = Some k'" "k' \<noteq> k"
  shows "search s t' k' = search s t k'"
proof -
  from ins_new [OF assms(1-4)] assms(5) have t': "ok s t'" "nodes t' = insert x (nodes t)" by auto
  show ?thesis
  proof (cases "\<exists>z\<in>nodes t. key s z = Some k'")
    case True
    then obtain z where "z \<in> nodes t" "key s z = Some k'" by blast
    with t' assms(2) show ?thesis by (simp add: search_hit)
  next
    case False
    then have "\<forall>z\<in>nodes t'. key s z \<noteq> Some k'" using t' assms(3,7) by auto
    with False t' assms(2,6) show ?thesis by (simp add: search_miss)
  qed
qed

lemma search_del:
  assumes "good e" "ok s t" "x \<in> nodes t" "key s x = Some k"
  shows "search s (del e x t) k = Some None"
proof (rule search_miss)
  show "ok s (del e x t)" using del_ok [OF assms(1,2)] by simp
  show "key s x = Some k" by (rule assms(4))
  show "\<forall>y\<in>nodes (del e x t). key s y \<noteq> Some k"
    using del_ok [OF assms(1,2)] key_inj [OF assms(2) _ assms(3) _ assms(4)] by auto
qed

end

section \<open>The trees are such an index\<close>

definition tree_env_ok :: "dlm_env \<Rightarrow> bool" where
  "tree_env_ok env \<longleftrightarrow> (\<forall>t. inorder (rb_insert_color env t) = inorder t) \<and>
     (\<forall>r t. inorder (rb_erase env r t) = remove1 r (inorder t))"

text \<open>The 64 bytes a resource is found by: its name, padded with zeros.\<close>

definition name_key :: "u8 list \<Rightarrow> nat \<Rightarrow> u8 list option" where
  "name_key name len = (if len \<le> length name \<and> len \<le> 64 then Some (maxname name len) else None)"

definition rsb_key :: "dlm_ls \<Rightarrow> rsbp \<Rightarrow> u8 list option" where
  "rsb_key s r = (case ls_rsbs s r of
       None \<Rightarrow> None
     | Some x \<Rightarrow> (if length (res_name x) = 65 \<and> res_length x \<le> 64 \<and>
                   take 64 (res_name x) = maxname (res_name x) (res_length x)
                 then Some (take 64 (res_name x)) else None))"

definition node_gt :: "dlm_ls \<Rightarrow> rsbp \<Rightarrow> rsbp \<Rightarrow> bool" where
  "node_gt s a b \<longleftrightarrow>
     (\<exists>x y. rsb_key s a = Some x \<and> rsb_key s b = Some y \<and> memcmp y x < 0)"

definition tree_ok :: "dlm_ls \<Rightarrow> rsbp tree \<Rightarrow> bool" where
  "tree_ok s t \<longleftrightarrow> sorted_wrt (node_gt s) (inorder t) \<and> (\<forall>r\<in>set_tree t. rsb_key s r \<noteq> None)"

definition search_key :: "dlm_ls \<Rightarrow> rsbp tree \<Rightarrow> u8 list \<Rightarrow> rsbp option option" where
  "search_key s t k = dlm_search_rsb_tree s t k 64"

lemma maxname_64: "length k = 64 \<Longrightarrow> maxname k 64 = k"
  by (simp add: maxname_def memcpy_def)

lemma length_maxname: "n \<le> length name \<Longrightarrow> n \<le> 64 \<Longrightarrow> length (maxname name n) = 64"
  by (simp add: maxname_def)

lemma rsb_keyD:
  "rsb_key s r = Some k \<Longrightarrow> \<exists>x. ls_rsbs s r = Some x \<and> length k = 64 \<and> take 64 (res_name x) = k \<and>
     maxname (res_name x) (res_length x) = k \<and> res_length x \<le> 64 \<and> length (res_name x) = 65"
  by (auto simp: rsb_key_def split: option.splits if_splits)

lemma cmp_node_key:
  "rsb_key s r = Some k \<Longrightarrow> cmp_node s name len r = Some (memcmp k (maxname name len))"
  by (auto dest!: rsb_keyD simp: cmp_node_def rsb_cmp_def)

lemma tree_ok_Node:
  "tree_ok s (Node l r rr) \<longleftrightarrow> tree_ok s l \<and> tree_ok s rr \<and> rsb_key s r \<noteq> None \<and>
     (\<forall>a\<in>set_tree l. node_gt s a r) \<and> (\<forall>a\<in>set_tree rr. node_gt s r a) \<and>
     (\<forall>a\<in>set_tree l. \<forall>b\<in>set_tree rr. node_gt s a b)"
  by (auto simp: tree_ok_def sorted_wrt_append)

lemma node_gt_irrefl: "\<not> node_gt s a a"
  by (auto simp: node_gt_def)

lemma node_gt_trans:
  assumes "node_gt s a b" and "node_gt s b c"
  shows "node_gt s a c"
proof -
  from assms obtain x y z where k: "rsb_key s a = Some x" "rsb_key s b = Some y" "rsb_key s c = Some z"
    "memcmp y x < 0" "memcmp z y < 0" by (auto simp: node_gt_def)
  then have "length x = 64" "length y = 64" "length z = 64" by (auto dest: rsb_keyD)
  with k have "memcmp z x < 0" by (intro memcmp_less_trans [of z y x]) simp_all
  with k show ?thesis by (auto simp: node_gt_def)
qed

lemma sorted_wrt_irrefl_distinct:
  "sorted_wrt P xs \<Longrightarrow> (\<And>a. \<not> P a a) \<Longrightarrow> distinct xs"
  by (induction xs) auto

lemma tree_ok_distinct: "tree_ok s t \<Longrightarrow> distinct (inorder t)"
  using sorted_wrt_irrefl_distinct [of "node_gt s"] node_gt_irrefl by (auto simp: tree_ok_def)

lemma node_gt_cmp:
  "rsb_key s a = Some x \<Longrightarrow> rsb_key s b = Some y \<Longrightarrow> node_gt s a b \<longleftrightarrow> memcmp x y > 0"
  using memcmp_swap [of x y] by (auto simp: node_gt_def)

lemma key_trichotomy:
  "length x = 64 \<Longrightarrow> length y = 64 \<Longrightarrow> memcmp x y < 0 \<or> x = y \<or> memcmp x y > 0"
  using memcmp_eq_0 [of x y] by linarith

lemma search_tree_hit:
  "tree_ok s t \<Longrightarrow> r \<in> set_tree t \<Longrightarrow> rsb_key s r = Some (maxname name len) \<Longrightarrow>
   search_tree (cmp_node s name len) t = Some (Some r)"
proof (induction t)
  case Leaf
  then show ?case by simp
next
  case (Node l x rr)
  from Node.prems(1) obtain k where k: "rsb_key s x = Some k" by (auto simp: tree_ok_Node)
  note c = cmp_node_key [OF k, of name len]
  consider "r = x" | "r \<in> set_tree l" | "r \<in> set_tree rr" using Node.prems(2) by auto
  then show ?case
  proof cases
    case 1
    with k Node.prems(3) show ?thesis by (simp add: c memcmp_eq_0)
  next
    case 2
    with Node.prems have "node_gt s r x" by (auto simp: tree_ok_Node)
    with node_gt_cmp [OF Node.prems(3) k] memcmp_swap [of k "maxname name len"]
    have "memcmp k (maxname name len) < 0" by simp
    with 2 Node show ?thesis by (simp add: c tree_ok_Node)
  next
    case 3
    with Node.prems have "node_gt s x r" by (auto simp: tree_ok_Node)
    with node_gt_cmp [OF k Node.prems(3)] have "memcmp k (maxname name len) > 0" by simp
    with 3 Node show ?thesis by (simp add: c tree_ok_Node)
  qed
qed

lemma search_tree_miss:
  "tree_ok s t \<Longrightarrow> length (maxname name len) = 64 \<Longrightarrow>
   \<forall>r\<in>set_tree t. rsb_key s r \<noteq> Some (maxname name len) \<Longrightarrow>
   search_tree (cmp_node s name len) t = Some None"
proof (induction t)
  case Leaf
  then show ?case by simp
next
  case (Node l x rr)
  from Node.prems(1) obtain k where k: "rsb_key s x = Some k" by (auto simp: tree_ok_Node)
  with Node.prems have "memcmp k (maxname name len) \<noteq> 0"
    by (auto dest: rsb_keyD simp: memcmp_eq_0)
  with Node show ?case by (auto simp: cmp_node_key [OF k] tree_ok_Node)
qed

text \<open>Insertion: a new key ends up at its place in the in-order sequence, an existing one is
  refused.\<close>

lemma insert_tree_new:
  "tree_ok s t \<Longrightarrow> rsb_key s r = Some (maxname name len) \<Longrightarrow>
   \<forall>a\<in>set_tree t. rsb_key s a \<noteq> Some (maxname name len) \<Longrightarrow>
   \<exists>t'. insert_tree (cmp_node s name len) r t = Some (Some t') \<and> tree_ok s t' \<and>
     set_tree t' = insert r (set_tree t)"
proof (induction t)
  case Leaf
  then show ?case by (simp add: tree_ok_def)
next
  case (Node l x rr)
  from Node.prems(1) obtain k where k: "rsb_key s x = Some k" by (auto simp: tree_ok_Node)
  let ?m = "maxname name len"
  note c = cmp_node_key [OF k, of name len]
  have len: "length k = 64" "length ?m = 64"
    using k Node.prems(2) by (auto dest: rsb_keyD)
  from k Node.prems have ne: "k \<noteq> ?m" by auto
  have gt: "memcmp k ?m < 0 \<Longrightarrow> node_gt s r x" "memcmp k ?m > 0 \<Longrightarrow> node_gt s x r"
    using node_gt_cmp [OF Node.prems(2) k] node_gt_cmp [OF k Node.prems(2)] memcmp_swap [of k ?m]
    by simp_all
  from key_trichotomy [OF len] ne consider "memcmp k ?m < 0" | "memcmp k ?m > 0" by auto
  then show ?case
  proof cases
    case 1
    from Node.prems Node.IH(1) obtain l' where
      "insert_tree (cmp_node s name len) r l = Some (Some l')" "tree_ok s l'"
      "set_tree l' = insert r (set_tree l)" by (auto simp: tree_ok_Node)
    with 1 gt(1) Node.prems show ?thesis
      by (auto simp: c tree_ok_Node intro: node_gt_trans)
  next
    case 2
    from Node.prems Node.IH(2) obtain rr' where
      "insert_tree (cmp_node s name len) r rr = Some (Some rr')" "tree_ok s rr'"
      "set_tree rr' = insert r (set_tree rr)" by (auto simp: tree_ok_Node)
    with 2 gt(2) Node.prems show ?thesis
      by (auto simp: c tree_ok_Node intro: node_gt_trans)
  qed
qed

lemma insert_tree_dup:
  "tree_ok s t \<Longrightarrow> search_tree (cmp_node s name len) t = Some (Some r) \<Longrightarrow>
   insert_tree (cmp_node s name len) x t = Some None"
  by (induction t) (auto simp: tree_ok_Node split: if_splits Option.bind_splits)

lemma tree_ok_inorder: "inorder t' = inorder t \<Longrightarrow> tree_ok s t' = tree_ok s t"
  by (simp add: tree_ok_def flip: set_inorder)

lemma sorted_wrt_remove1: "sorted_wrt P xs \<Longrightarrow> sorted_wrt P (remove1 x xs)"
  by (induction xs) (simp_all, metis notin_set_remove1)

interpretation index: name_index tree_env_ok set_tree tree_ok rsb_key search_key rsb_insert rb_erase
proof (unfold_locales, goal_cases)
  case (1 s t x k)
  then have "maxname k 64 = k" by (auto dest!: rsb_keyD intro: maxname_64)
  with 1 show ?case by (simp add: search_key_def dlm_search_rsb_tree_def search_tree_hit)
next
  case (2 s t y k)
  then have "length k = 64" by (auto dest: rsb_keyD)
  with 2 show ?case
    by (simp add: search_key_def dlm_search_rsb_tree_def search_tree_miss maxname_64)
next
  case (3 e s t x k)
  then obtain z where z: "ls_rsbs s x = Some z" "maxname (res_name z) (res_length z) = k"
    by (auto dest!: rsb_keyD)
  with insert_tree_new [of s t x "res_name z" "res_length z"] 3 obtain t' where t':
    "insert_tree (cmp_node s (res_name z) (res_length z)) x t = Some (Some t')" "tree_ok s t'"
    "set_tree t' = insert x (set_tree t)" by auto
  have "inorder (rb_insert_color e t') = inorder t'" using 3 by (simp add: tree_env_ok_def)
  then have "tree_ok s (rb_insert_color e t')" "set_tree (rb_insert_color e t') = set_tree t'"
    using t'(2) tree_ok_inorder by (blast, metis set_inorder)
  with t' z show ?case by (simp add: rsb_insert_def)
next
  case (4 s t x k y e)
  then obtain z where z: "ls_rsbs s x = Some z" "maxname (res_name z) (res_length z) = k"
    by (auto dest!: rsb_keyD)
  with 4 search_tree_hit [of s t y "res_name z" "res_length z"]
  have "search_tree (cmp_node s (res_name z) (res_length z)) t = Some (Some y)" by simp
  with 4 z show ?case by (simp add: rsb_insert_def insert_tree_dup)
next
  case (5 e s t x)
  then have eq: "inorder (rb_erase e x t) = remove1 x (inorder t)" by (simp add: tree_env_ok_def)
  have d: "distinct (inorder t)" using 5(2) by (rule tree_ok_distinct)
  have set: "set_tree (rb_erase e x t) = set_tree t - {x}"
    using d set_remove1_distinct [OF d, of x] by (metis eq set_inorder)
  with 5 show ?case by (auto simp: tree_ok_def eq intro: sorted_wrt_remove1)
qed

end
