(* ===== verification/Rsb_Table.thy ===== *)
theory Rsb_Table
  imports Rsb_Tree
begin

text \<open>
  The resource table: allocation of resources, finding or creating the resource of a name
  (\<open>find_rsb\<close> and its directory and no-directory variants), its reference count and its moves
  between the \<open>keep\<close> and \<open>toss\<close> trees, and the directory node's answers to a lookup
  (\<open>dlm_master_lookup\<close>) and to a self-owner notification (\<open>dlm_master_notify\<close>).

  The spinlocks and the resource mutex make each of these operations atomic; the operations
  themselves are what is modelled. A function that returns an error code and sets \<open>*r_ret\<close>
  returns both, with the new state.
\<close>

section \<open>Allocation\<close>

definition dlm_allocate_rsb :: "dlm_env \<Rightarrow> dlm_ls \<Rightarrow> rsbp option \<times> dlm_ls" where
  "dlm_allocate_rsb env s =
     (case allocate_rsb env (\<lambda>r. ls_rsbs s r \<noteq> None) (ls_tick s) of
        None \<Rightarrow> (None, s\<lparr>ls_tick := ls_tick s + 1\<rparr>)
      | Some r \<Rightarrow> (Some r, s\<lparr>ls_rsbs := (ls_rsbs s)(r \<mapsto> zero_rsb), ls_tick := ls_tick s + 1\<rparr>))"

definition dlm_free_rsb :: "rsbp \<Rightarrow> dlm_ls \<Rightarrow> dlm_ls" where
  "dlm_free_rsb r s = s\<lparr>ls_rsbs := (ls_rsbs s)(r := None)\<rparr>"

definition new_rsb_add :: "rsbp option \<Rightarrow> dlm_ls \<Rightarrow> dlm_ls" where
  "new_rsb_add r s = (case r of
       None \<Rightarrow> s
     | Some r \<Rightarrow> s\<lparr>ls_new_rsb := r # ls_new_rsb s, ls_new_rsb_count := ls_new_rsb_count s + 1\<rparr>)"

definition pre_rsb_struct :: "dlm_env \<Rightarrow> dlm_ls \<Rightarrow> int \<times> dlm_ls" where
  "pre_rsb_struct env s =
     (if ls_new_rsb_count s > ci_new_rsb_count env div 2 then (0, s)
      else
        let (r1, s) = dlm_allocate_rsb env s;
            (r2, s) = dlm_allocate_rsb env s;
            s = new_rsb_add r1 s;
            s = new_rsb_add r2 s
        in if ls_new_rsb_count s = 0 then (-ENOMEM, s) else (0, s))"

definition get_rsb_struct ::
  "u8 list \<Rightarrow> nat \<Rightarrow> dlm_ls \<Rightarrow> (int \<times> rsbp option \<times> dlm_ls) option" where
  "get_rsb_struct name len s = (case ls_new_rsb s of
       [] \<Rightarrow> Some (-EAGAIN, None, s)
     | r # rs \<Rightarrow> do {
         let s = s\<lparr>ls_new_rsb := rs, ls_new_rsb_count := ls_new_rsb_count s - 1\<rparr>;
         s \<leftarrow> upd_rsb r (\<lambda>x. x\<lparr>res_length := len, res_name := memcpy (res_name x) name len,
                res_lookup := [], res_grantqueue := [], res_convertqueue := [],
                res_waitqueue := []\<rparr>) s;
         Some (0, Some r, s)
       })"

section \<open>The buckets\<close>

definition upd_bucket :: "u32 \<Rightarrow> (dlm_rsbtable \<Rightarrow> dlm_rsbtable) \<Rightarrow> dlm_ls \<Rightarrow> dlm_ls" where
  "upd_bucket b f s = s\<lparr>ls_rsbtbl := (ls_rsbtbl s)(b := f (ls_rsbtbl s b))\<rparr>"

definition bucket_of :: "dlm_ls \<Rightarrow> u32 \<Rightarrow> u32" where
  "bucket_of s hash = hash AND (ls_rsbtbl_size s - 1)"

text \<open>\<open>rsb_insert(r, &keep)\<close> and \<open>rsb_insert(r, &toss)\<close> with the error code.\<close>

definition insert_keep :: "dlm_env \<Rightarrow> u32 \<Rightarrow> rsbp \<Rightarrow> dlm_ls \<Rightarrow> (int \<times> dlm_ls) option" where
  "insert_keep env b r s = do {
     t \<leftarrow> rsb_insert env s r (keep (ls_rsbtbl s b));
     (case t of None \<Rightarrow> Some (-EEXIST, s)
      | Some t \<Rightarrow> Some (0, upd_bucket b (\<lambda>x. x\<lparr>keep := t\<rparr>) s))
   }"

definition insert_toss :: "dlm_env \<Rightarrow> u32 \<Rightarrow> rsbp \<Rightarrow> dlm_ls \<Rightarrow> (int \<times> dlm_ls) option" where
  "insert_toss env b r s = do {
     t \<leftarrow> rsb_insert env s r (toss (ls_rsbtbl s b));
     (case t of None \<Rightarrow> Some (-EEXIST, s)
      | Some t \<Rightarrow> Some (0, upd_bucket b (\<lambda>x. x\<lparr>toss := t\<rparr>) s))
   }"

definition erase_keep :: "dlm_env \<Rightarrow> u32 \<Rightarrow> rsbp \<Rightarrow> dlm_ls \<Rightarrow> dlm_ls" where
  "erase_keep env b r = upd_bucket b (\<lambda>x. x\<lparr>keep := rb_erase env r (keep x)\<rparr>)"

definition erase_toss :: "dlm_env \<Rightarrow> u32 \<Rightarrow> rsbp \<Rightarrow> dlm_ls \<Rightarrow> dlm_ls" where
  "erase_toss env b r = upd_bucket b (\<lambda>x. x\<lparr>toss := rb_erase env r (toss x)\<rparr>)"

section \<open>Finding or creating a resource\<close>

text \<open>The label \<open>do_toss\<close> of \<open>find_rsb_dir\<close>: the resource was found on the toss tree.\<close>

definition find_rsb_dir_toss ::
  "dlm_env \<Rightarrow> u32 \<Rightarrow> int \<Rightarrow> bool \<Rightarrow> bool \<Rightarrow> bool \<Rightarrow> rsbp \<Rightarrow> dlm_ls \<Rightarrow> (int \<times> rsbp option \<times> dlm_ls) option"
where
  "find_rsb_dir_toss env b from_nodeid from_local from_other from_dir r s = do {
     x \<leftarrow> ls_rsbs s r;
     if res_master_nodeid x \<noteq> dlm_our_nodeid env \<and> from_other then Some (-ENOTBLK, Some r, s)
     else do {
       s \<leftarrow> (if res_master_nodeid x \<noteq> dlm_our_nodeid env \<and> from_dir
            then upd_rsb r (\<lambda>x. rsb_clear_flag RSB_MASTER_UNCERTAIN
                   (x\<lparr>res_master_nodeid := dlm_our_nodeid env, res_nodeid := 0, res_first_lkid := 0\<rparr>)) s
            else Some s);
       x \<leftarrow> ls_rsbs s r;
       s \<leftarrow> (if from_local \<and> res_master_nodeid x \<noteq> dlm_our_nodeid env
            then upd_rsb r (\<lambda>x. rsb_set_flag RSB_MASTER_UNCERTAIN (x\<lparr>res_first_lkid := 0\<rparr>)) s
            else Some s);
       let s = erase_toss env b r s;
       (error, s) \<leftarrow> insert_keep env b r s;
       Some (error, Some r, s)
     }
   }"

text \<open>The label \<open>do_new\<close> after \<open>get_rsb_struct\<close> succeeded.\<close>

definition find_rsb_dir_new ::
  "dlm_env \<Rightarrow> u32 \<Rightarrow> u32 \<Rightarrow> int \<Rightarrow> u32 \<Rightarrow> bool \<Rightarrow> bool \<Rightarrow> rsbp \<Rightarrow> dlm_ls \<Rightarrow>
   (int \<times> rsbp option \<times> dlm_ls) option"
where
  "find_rsb_dir_new env hash b dir_nodeid flags from_other from_dir r s = do {
     s \<leftarrow> upd_rsb r (\<lambda>x. x\<lparr>res_hash := hash, res_bucket := b, res_dir_nodeid := dir_nodeid,
            res_ref := 1\<rparr>) s;
     if from_dir then do {
       s \<leftarrow> upd_rsb r (\<lambda>x. x\<lparr>res_master_nodeid := dlm_our_nodeid env, res_nodeid := 0\<rparr>) s;
       (error, s) \<leftarrow> insert_keep env b r s;
       Some (error, Some r, s)
     }
     else if from_other \<and> dir_nodeid \<noteq> dlm_our_nodeid env then
       Some (-ENOTBLK, None, dlm_free_rsb r s)
     else do {
       s \<leftarrow> (if dir_nodeid = dlm_our_nodeid env
            then upd_rsb r (\<lambda>x. x\<lparr>res_master_nodeid := dlm_our_nodeid env, res_nodeid := 0\<rparr>) s
            else do {
              s \<leftarrow> upd_rsb r (\<lambda>x. x\<lparr>res_master_nodeid := 0, res_nodeid := -1\<rparr>) s;
              if has_flag flags R_NOTIFY
              then upd_rsb r (\<lambda>x. x\<lparr>res_master_nodeid := dlm_our_nodeid env, res_nodeid := -1\<rparr>) s
              else Some s
            });
       (error, s) \<leftarrow> insert_keep env b r s;
       Some (error, Some r, s)
     }
   }"

definition find_rsb_dir_pass ::
  "dlm_env \<Rightarrow> u8 list \<Rightarrow> nat \<Rightarrow> u32 \<Rightarrow> u32 \<Rightarrow> int \<Rightarrow> int \<Rightarrow> u32 \<Rightarrow> dlm_ls \<Rightarrow>
   (dlm_ls, int \<times> rsbp option \<times> dlm_ls) pass option"
where
  "find_rsb_dir_pass env name len hash b dir_nodeid from_nodeid flags s = (
     let recv = has_flag flags R_RECEIVE_REQUEST;
         from_dir = (recv \<and> from_nodeid = dir_nodeid);
         from_other = (recv \<and> from_nodeid \<noteq> dir_nodeid);
         from_local = (\<not> recv \<and> has_flag flags R_REQUEST);
         create = (from_local \<or> from_dir \<or> (from_other \<and> dir_nodeid = dlm_our_nodeid env));
         (error, s) = (if create then pre_rsb_struct env s else (0, s))
     in if error < 0 then Some (Done (error, None, s))
     else do {
       k \<leftarrow> dlm_search_rsb_tree s (keep (ls_rsbtbl s b)) name len;
       (case k of
          Some r \<Rightarrow> do { s \<leftarrow> kref_get_rsb r s; Some (Done (0, Some r, s)) }
        | None \<Rightarrow> do {
            t \<leftarrow> dlm_search_rsb_tree s (toss (ls_rsbtbl s b)) name len;
            (case t of
               Some r \<Rightarrow> map_option Done
                 (find_rsb_dir_toss env b from_nodeid from_local from_other from_dir r s)
             | None \<Rightarrow>
                 if \<not> create then Some (Done (-EBADR, None, s))
                 else do {
                   (error, r, s) \<leftarrow> get_rsb_struct name len s;
                   (case r of
                      None \<Rightarrow> if error = -EAGAIN then Some (Retry s) else Some (Done (error, None, s))
                    | Some r \<Rightarrow> map_option Done
                        (find_rsb_dir_new env hash b dir_nodeid flags from_other from_dir r s))
                 })
          })
     })"

definition find_rsb_dir ::
  "dlm_env \<Rightarrow> u8 list \<Rightarrow> nat \<Rightarrow> u32 \<Rightarrow> u32 \<Rightarrow> int \<Rightarrow> int \<Rightarrow> u32 \<Rightarrow> dlm_ls \<Rightarrow>
   (int \<times> rsbp option \<times> dlm_ls) option"
where
  "find_rsb_dir env name len hash b dir_nodeid from_nodeid flags =
     retry (find_rsb_dir_pass env name len hash b dir_nodeid from_nodeid flags)"

definition find_rsb_nodir_toss ::
  "dlm_env \<Rightarrow> u32 \<Rightarrow> int \<Rightarrow> int \<Rightarrow> bool \<Rightarrow> rsbp \<Rightarrow> dlm_ls \<Rightarrow> (int \<times> rsbp option \<times> dlm_ls) option"
where
  "find_rsb_nodir_toss env b dir_nodeid from_nodeid recover r s = do {
     x \<leftarrow> ls_rsbs s r;
     if \<not> recover \<and> res_master_nodeid x \<noteq> dlm_our_nodeid env \<and> from_nodeid \<noteq> 0
     then Some (-ENOTBLK, Some r, s)
     else do {
       s \<leftarrow> (if \<not> recover \<and> res_master_nodeid x \<noteq> dlm_our_nodeid env \<and> dir_nodeid = dlm_our_nodeid env
            then upd_rsb r (\<lambda>x. x\<lparr>res_master_nodeid := dlm_our_nodeid env, res_nodeid := 0\<rparr>) s
            else Some s);
       let s = erase_toss env b r s;
       (error, s) \<leftarrow> insert_keep env b r s;
       Some (error, Some r, s)
     }
   }"

definition find_rsb_nodir_pass ::
  "dlm_env \<Rightarrow> u8 list \<Rightarrow> nat \<Rightarrow> u32 \<Rightarrow> u32 \<Rightarrow> int \<Rightarrow> int \<Rightarrow> u32 \<Rightarrow> dlm_ls \<Rightarrow>
   (dlm_ls, int \<times> rsbp option \<times> dlm_ls) pass option"
where
  "find_rsb_nodir_pass env name len hash b dir_nodeid from_nodeid flags s = (
     let recover = has_flag flags R_RECEIVE_RECOVER;
         (error, s) = pre_rsb_struct env s
     in if error < 0 then Some (Done (error, None, s))
     else do {
       k \<leftarrow> dlm_search_rsb_tree s (keep (ls_rsbtbl s b)) name len;
       (case k of
          Some r \<Rightarrow> do { s \<leftarrow> kref_get_rsb r s; Some (Done (0, Some r, s)) }
        | None \<Rightarrow> do {
            t \<leftarrow> dlm_search_rsb_tree s (toss (ls_rsbtbl s b)) name len;
            (case t of
               Some r \<Rightarrow> map_option Done (find_rsb_nodir_toss env b dir_nodeid from_nodeid recover r s)
             | None \<Rightarrow> do {
                 (error, r, s) \<leftarrow> get_rsb_struct name len s;
                 (case r of
                    None \<Rightarrow> if error = -EAGAIN then Some (Retry s) else Some (Done (error, None, s))
                  | Some r \<Rightarrow> do {
                      s \<leftarrow> upd_rsb r (\<lambda>x. x\<lparr>res_hash := hash, res_bucket := b,
                             res_dir_nodeid := dir_nodeid, res_master_nodeid := dir_nodeid,
                             res_nodeid := (if dir_nodeid = dlm_our_nodeid env then 0 else dir_nodeid),
                             res_ref := 1\<rparr>) s;
                      (error, s) \<leftarrow> insert_keep env b r s;
                      Some (Done (error, Some r, s))
                    })
               })
          })
     })"

definition find_rsb_nodir ::
  "dlm_env \<Rightarrow> u8 list \<Rightarrow> nat \<Rightarrow> u32 \<Rightarrow> u32 \<Rightarrow> int \<Rightarrow> int \<Rightarrow> u32 \<Rightarrow> dlm_ls \<Rightarrow>
   (int \<times> rsbp option \<times> dlm_ls) option"
where
  "find_rsb_nodir env name len hash b dir_nodeid from_nodeid flags =
     retry (find_rsb_nodir_pass env name len hash b dir_nodeid from_nodeid flags)"

definition find_rsb ::
  "dlm_env \<Rightarrow> u8 list \<Rightarrow> nat \<Rightarrow> int \<Rightarrow> u32 \<Rightarrow> dlm_ls \<Rightarrow> (int \<times> rsbp option \<times> dlm_ls) option" where
  "find_rsb env name len from_nodeid flags s =
     (if len > DLM_RESNAME_MAXLEN then Some (-EINVAL, None, s)
      else
        let hash = jhash env (take len name);
            b = bucket_of s hash;
            dir_nodeid = dlm_hash2nodeid env hash
        in if dlm_no_directory s
           then find_rsb_nodir env name len hash b dir_nodeid from_nodeid flags s
           else find_rsb_dir env name len hash b dir_nodeid from_nodeid flags s)"

section \<open>The master of a resource\<close>

definition validate_master_nodeid ::
  "dlm_env \<Rightarrow> rsbp \<Rightarrow> int \<Rightarrow> dlm_ls \<Rightarrow> (int \<times> dlm_ls) option" where
  "validate_master_nodeid env r from_nodeid s =
     (if dlm_no_directory s then Some (-ENOTBLK, s)
      else do {
        x \<leftarrow> ls_rsbs s r;
        if from_nodeid \<noteq> res_dir_nodeid x then Some (-ENOTBLK, s)
        else do {
          s \<leftarrow> upd_rsb r (\<lambda>x. x\<lparr>res_master_nodeid := dlm_our_nodeid env, res_nodeid := 0\<rparr>) s;
          Some (0, s)
        }
      })"

text \<open>\<open>__dlm_master_lookup\<close> on the resource it may rewrite; the answer is the resource's
  master after it.\<close>

definition us_dlm_master_lookup :: "dlm_env \<Rightarrow> int \<Rightarrow> u32 \<Rightarrow> dlm_rsb \<Rightarrow> dlm_rsb" where
  "us_dlm_master_lookup env from_nodeid flags r = (
     let fix_master = has_flag flags DLM_LU_RECOVER_MASTER;
         from_master = has_flag flags DLM_LU_RECOVER_DIR;
         r = (if res_dir_nodeid r \<noteq> dlm_our_nodeid env then r\<lparr>res_dir_nodeid := dlm_our_nodeid env\<rparr> else r);
         r = (if fix_master \<and> dlm_is_removed env (res_master_nodeid r)
              then rsb_set_flag RSB_NEW_MASTER
                     (r\<lparr>res_master_nodeid := from_nodeid, res_nodeid := from_nodeid\<rparr>)
              else r)
     in if from_master \<and> res_master_nodeid r \<noteq> from_nodeid \<and> res_master_nodeid r = dlm_our_nodeid env
        then r
        else
          let r = (if from_master \<and> res_master_nodeid r \<noteq> from_nodeid
                   then rsb_set_flag RSB_NEW_MASTER
                          (r\<lparr>res_master_nodeid := from_nodeid, res_nodeid := from_nodeid\<rparr>)
                   else r)
          in if res_master_nodeid r = 0
             then r\<lparr>res_master_nodeid := from_nodeid, res_nodeid := from_nodeid\<rparr> else r)"

section \<open>Tossing and releasing\<close>

definition toss_rsb :: "dlm_env \<Rightarrow> rsbp \<Rightarrow> dlm_ls \<Rightarrow> dlm_ls option" where
  "toss_rsb env r s = do {
     x \<leftarrow> ls_rsbs s r;
     _ \<leftarrow> dlm_assert (r \<notin> set (ls_root_list s));
     s \<leftarrow> upd_rsb r (\<lambda>x. x\<lparr>res_ref := 1\<rparr>) s;
     let s = erase_keep env (res_bucket x) r s;
     (_, s) \<leftarrow> insert_toss env (res_bucket x) r s;
     s \<leftarrow> upd_rsb r (\<lambda>x. x\<lparr>res_toss_time := jiffies env\<rparr>) s;
     let s = upd_bucket (res_bucket x)
       (\<lambda>t. t\<lparr>rt_flags := set_bit DLM_RTF_SHRINK_BIT (rt_flags t)\<rparr>) s;
     upd_rsb r (\<lambda>x. x\<lparr>res_lvbptr := None\<rparr>) s
   }"

definition hold_rsb :: "rsbp \<Rightarrow> dlm_ls \<Rightarrow> dlm_ls option" where
  "hold_rsb = kref_get_rsb"

definition put_rsb :: "dlm_env \<Rightarrow> rsbp \<Rightarrow> dlm_ls \<Rightarrow> dlm_ls option" where
  "put_rsb env r s = do {
     (last, s) \<leftarrow> kref_put_rsb r s;
     if last then toss_rsb env r s else Some s
   }"

definition unhold_rsb :: "dlm_env \<Rightarrow> rsbp \<Rightarrow> dlm_ls \<Rightarrow> dlm_ls option" where
  "unhold_rsb env r s = do {
     (last, s) \<leftarrow> kref_put_rsb r s;
     _ \<leftarrow> dlm_assert (\<not> last);
     Some s
   }"

definition kill_rsb :: "rsbp \<Rightarrow> dlm_ls \<Rightarrow> unit option" where
  "kill_rsb r s = do {
     x \<leftarrow> ls_rsbs s r;
     _ \<leftarrow> dlm_assert (res_lookup x = []);
     _ \<leftarrow> dlm_assert (res_grantqueue x = []);
     _ \<leftarrow> dlm_assert (res_convertqueue x = []);
     _ \<leftarrow> dlm_assert (res_waitqueue x = []);
     _ \<leftarrow> dlm_assert (r \<notin> set (ls_root_list s));
     dlm_assert (r \<notin> set (ls_recover_list s))
   }"

definition attach_lkb :: "rsbp \<Rightarrow> lkid \<Rightarrow> dlm_ls \<Rightarrow> dlm_ls option" where
  "attach_lkb r lkb s = do {
     s \<leftarrow> hold_rsb r s;
     upd_lkb lkb (\<lambda>l. l\<lparr>lkb_resource := Some r\<rparr>) s
   }"

section \<open>The directory node\<close>

definition dlm_master_lookup_pass ::
  "dlm_env \<Rightarrow> int \<Rightarrow> u8 list \<Rightarrow> nat \<Rightarrow> u32 \<Rightarrow> u32 \<Rightarrow> u32 \<Rightarrow> dlm_ls \<Rightarrow>
   (dlm_ls, int \<times> int option \<times> int option \<times> dlm_ls) pass option"
where
  "dlm_master_lookup_pass env from_nodeid name len flags hash b s = (
     let (error, s) = pre_rsb_struct env s
     in if error < 0 then Some (Done (error, None, None, s))
     else do {
       k \<leftarrow> dlm_search_rsb_tree s (keep (ls_rsbtbl s b)) name len;
       (case k of
          Some r \<Rightarrow> do {
            s \<leftarrow> hold_rsb r s;
            s \<leftarrow> upd_rsb r (us_dlm_master_lookup env from_nodeid flags) s;
            x \<leftarrow> ls_rsbs s r;
            s \<leftarrow> put_rsb env r s;
            Some (Done (0, Some (res_master_nodeid x), Some DLM_LU_MATCH, s))
          }
        | None \<Rightarrow> do {
            t \<leftarrow> dlm_search_rsb_tree s (toss (ls_rsbtbl s b)) name len;
            (case t of
               Some r \<Rightarrow> do {
                 s \<leftarrow> upd_rsb r (us_dlm_master_lookup env from_nodeid flags) s;
                 x \<leftarrow> ls_rsbs s r;
                 s \<leftarrow> upd_rsb r (\<lambda>x. x\<lparr>res_toss_time := jiffies env\<rparr>) s;
                 Some (Done (0, Some (res_master_nodeid x), Some DLM_LU_MATCH, s))
               }
             | None \<Rightarrow> do {
                 (error, r, s) \<leftarrow> get_rsb_struct name len s;
                 (case r of
                    None \<Rightarrow> if error = -EAGAIN then Some (Retry s)
                            else Some (Done (error, None, None, s))
                  | Some r \<Rightarrow> do {
                      s \<leftarrow> upd_rsb r (\<lambda>x. x\<lparr>res_hash := hash, res_bucket := b,
                             res_dir_nodeid := dlm_our_nodeid env, res_master_nodeid := from_nodeid,
                             res_nodeid := from_nodeid, res_ref := 1,
                             res_toss_time := jiffies env\<rparr>) s;
                      (error, s) \<leftarrow> insert_toss env b r s;
                      if error \<noteq> 0 then Some (Retry (dlm_free_rsb r s))
                      else Some (Done (0, Some from_nodeid, Some DLM_LU_ADD, s))
                    })
               })
          })
     })"

text \<open>The results: the error, \<open>*r_nodeid\<close> and \<open>*result\<close> (\<open>None\<close> where the code leaves the
  caller's variable alone), and the state.\<close>

definition dlm_master_lookup ::
  "dlm_env \<Rightarrow> int \<Rightarrow> u8 list \<Rightarrow> nat \<Rightarrow> u32 \<Rightarrow> dlm_ls \<Rightarrow> (int \<times> int option \<times> int option \<times> dlm_ls) option"
where
  "dlm_master_lookup env from_nodeid name len flags s =
     (if len > DLM_RESNAME_MAXLEN then Some (-EINVAL, None, None, s)
      else if from_nodeid = dlm_our_nodeid env then Some (-EINVAL, None, None, s)
      else
        let hash = jhash env (take len name);
            b = bucket_of s hash;
            dir_nodeid = dlm_hash2nodeid env hash
        in if dir_nodeid \<noteq> dlm_our_nodeid env then Some (-EINVAL, Some (-1), None, s)
           else retry (dlm_master_lookup_pass env from_nodeid name len flags hash b) s)"

definition dlm_master_notify_pass ::
  "dlm_env \<Rightarrow> int \<Rightarrow> u8 list \<Rightarrow> nat \<Rightarrow> u32 \<Rightarrow> u32 \<Rightarrow> dlm_ls \<Rightarrow>
   (dlm_ls, int \<times> int option \<times> dlm_ls) pass option"
where
  "dlm_master_notify_pass env from_nodeid name len hash b s = (
     let (error, s) = pre_rsb_struct env s
     in if error < 0 then Some (Done (error, None, s))
     else do {
       (error, r, s) \<leftarrow> get_rsb_struct name len s;
       (case r of
          None \<Rightarrow> if error = -EAGAIN then Some (Retry s) else Some (Done (error, None, s))
        | Some r \<Rightarrow> do {
            s \<leftarrow> upd_rsb r (\<lambda>x. x\<lparr>res_hash := hash, res_bucket := b,
                   res_dir_nodeid := dlm_our_nodeid env, res_master_nodeid := from_nodeid,
                   res_nodeid := from_nodeid, res_ref := 1, res_toss_time := jiffies env\<rparr>) s;
            (error, s) \<leftarrow> insert_toss env b r s;
            if error \<noteq> 0 then Some (Retry (dlm_free_rsb r s))
            else Some (Done (0, Some from_nodeid, s))
          })
     })"

definition dlm_master_notify ::
  "dlm_env \<Rightarrow> int \<Rightarrow> u8 list \<Rightarrow> nat \<Rightarrow> dlm_ls \<Rightarrow> (int \<times> int option \<times> dlm_ls) option" where
  "dlm_master_notify env from_nodeid name len s =
     (if len > DLM_RESNAME_MAXLEN then Some (-EINVAL, None, s)
      else if from_nodeid = dlm_our_nodeid env then Some (-EINVAL, None, s)
      else
        let hash = jhash env (take len name);
            b = bucket_of s hash;
            dir_nodeid = dlm_hash2nodeid env hash
        in if dir_nodeid \<noteq> dlm_our_nodeid env then Some (-EINVAL, Some (-1), s)
           else retry (dlm_master_notify_pass env from_nodeid name len hash b) s)"

end
