(* ===== verification/Lkb.thy ===== *)
theory Lkb
  imports Rsb_Table
begin

text \<open>
  Lock blocks: creation, lookup by id, reference counts, the grant, convert and wait queues
  of a resource (\<open>add_lkb\<close>, \<open>del_lkb\<close>, \<open>move_lkb\<close>), and the lockspace's list of locks that
  wait for a reply (\<open>add_to_waiters\<close>, \<open>_remove_from_waiters\<close>).
\<close>

section \<open>Creation, lookup, release\<close>

text \<open>The error, \<open>*lkb_ret\<close>, and the state.\<close>

definition us_create_lkb ::
  "dlm_env \<Rightarrow> int \<Rightarrow> int \<Rightarrow> dlm_ls \<Rightarrow> int \<times> lkid option \<times> dlm_ls" where
  "us_create_lkb env start end' s = (
     let ok = allocate_lkb env (ls_tick s);
         rv = idr_alloc env (\<lambda>k. ls_lkbidr s k \<noteq> None) start end' (ls_tick s);
         s = s\<lparr>ls_tick := ls_tick s + 1\<rparr>
     in if \<not> ok then (-ENOMEM, None, s)
        else if rv < 0 then (rv, None, s)
        else
          let k = to32 rv;
              lkb = zero_lkb\<lparr>lkb_nodeid := -1, lkb_grmode := DLM_LOCK_IV, lkb_ref := 1,
                      lkb_id := k\<rparr>
          in (0, Some k, s\<lparr>ls_lkbidr := (ls_lkbidr s)(k \<mapsto> lkb)\<rparr>))"

definition create_lkb :: "dlm_env \<Rightarrow> dlm_ls \<Rightarrow> int \<times> lkid option \<times> dlm_ls" where
  "create_lkb env s = us_create_lkb env 1 0 s"

text \<open>\<open>find_lkb\<close>: \<open>None\<close> is \<open>-ENOENT\<close>; otherwise a reference is taken.\<close>

definition find_lkb :: "lkid \<Rightarrow> dlm_ls \<Rightarrow> dlm_ls option" where
  "find_lkb k s = (case ls_lkbidr s k of None \<Rightarrow> None | Some _ \<Rightarrow> kref_get_lkb k s)"

definition hold_lkb :: "lkid \<Rightarrow> dlm_ls \<Rightarrow> dlm_ls option" where
  "hold_lkb = kref_get_lkb"

definition unhold_lkb :: "lkid \<Rightarrow> dlm_ls \<Rightarrow> dlm_ls option" where
  "unhold_lkb k s = do {
     (last, s) \<leftarrow> kref_put_lkb k s;
     _ \<leftarrow> dlm_assert (\<not> last);
     Some s
   }"

definition kill_lkb :: "dlm_lkb \<Rightarrow> unit option" where
  "kill_lkb lkb = dlm_assert (lkb_status lkb = 0)"

definition detach_lkb :: "dlm_env \<Rightarrow> dlm_lkb \<Rightarrow> dlm_ls \<Rightarrow> dlm_ls option" where
  "detach_lkb env lkb s = (case lkb_resource lkb of None \<Rightarrow> Some s | Some r \<Rightarrow> put_rsb env r s)"

definition us_put_lkb :: "dlm_env \<Rightarrow> lkid \<Rightarrow> dlm_ls \<Rightarrow> (bool \<times> dlm_ls) option" where
  "us_put_lkb env k s = do {
     (last, s) \<leftarrow> kref_put_lkb k s;
     if last then do {
       l \<leftarrow> ls_lkbidr s k;
       _ \<leftarrow> kill_lkb l;
       let s = s\<lparr>ls_lkbidr := (ls_lkbidr s)(k := None)\<rparr>;
       s \<leftarrow> detach_lkb env l s;
       Some (True, s)
     } else Some (False, s)
   }"

definition dlm_put_lkb :: "dlm_env \<Rightarrow> lkid \<Rightarrow> dlm_ls \<Rightarrow> (bool \<times> dlm_ls) option" where
  "dlm_put_lkb env k s = do {
     l \<leftarrow> ls_lkbidr s k;
     _ \<leftarrow> dlm_assert (lkb_resource l \<noteq> None);
     us_put_lkb env k s
   }"

section \<open>The queues of a resource\<close>

fun lkb_add_ordered :: "dlm_ls \<Rightarrow> lkid \<Rightarrow> lkid list \<Rightarrow> int \<Rightarrow> lkid list option" where
  "lkb_add_ordered s new [] mode = Some [new]"
| "lkb_add_ordered s new (iter # q) mode = do {
     i \<leftarrow> ls_lkbidr s iter;
     if lkb_rqmode i < mode then Some (new # iter # q)
     else map_option ((#) iter) (lkb_add_ordered s new q mode)
   }"

definition add_lkb :: "dlm_env \<Rightarrow> rsbp \<Rightarrow> lkid \<Rightarrow> int \<Rightarrow> dlm_ls \<Rightarrow> dlm_ls option" where
  "add_lkb env r lkb status s = do {
     s \<leftarrow> kref_get_lkb lkb s;
     l \<leftarrow> ls_lkbidr s lkb;
     _ \<leftarrow> dlm_assert (lkb_status l = 0);
     s \<leftarrow> upd_lkb lkb (\<lambda>l. l\<lparr>lkb_timestamp := ktime env, lkb_status := status\<rparr>) s;
     x \<leftarrow> ls_rsbs s r;
     if status = DLM_LKSTS_WAITING then
       upd_rsb r (\<lambda>x. x\<lparr>res_waitqueue :=
         (if has_flag (lkb_exflags l) DLM_LKF_HEADQUE then lkb # res_waitqueue x
          else res_waitqueue x @ [lkb])\<rparr>) s
     else if status = DLM_LKSTS_GRANTED then do {
       q \<leftarrow> lkb_add_ordered s lkb (res_grantqueue x) (lkb_grmode l);
       upd_rsb r (\<lambda>x. x\<lparr>res_grantqueue := q\<rparr>) s
     }
     else if status = DLM_LKSTS_CONVERT then
       upd_rsb r (\<lambda>x. x\<lparr>res_convertqueue :=
         (if has_flag (lkb_exflags l) DLM_LKF_HEADQUE then lkb # res_convertqueue x
          else res_convertqueue x @ [lkb])\<rparr>) s
     else None
   }"

text \<open>\<open>list_del(&lkb->lkb_statequeue)\<close>: faults on a lock that is on no queue.\<close>

definition unqueue :: "lkid \<Rightarrow> dlm_rsb \<Rightarrow> dlm_rsb" where
  "unqueue lkb x = x\<lparr>res_grantqueue := remove1 lkb (res_grantqueue x),
     res_convertqueue := remove1 lkb (res_convertqueue x),
     res_waitqueue := remove1 lkb (res_waitqueue x)\<rparr>"

definition rsb_queues :: "dlm_rsb \<Rightarrow> lkid list" where
  "rsb_queues x = res_grantqueue x @ res_convertqueue x @ res_waitqueue x"

definition del_lkb :: "rsbp \<Rightarrow> lkid \<Rightarrow> dlm_ls \<Rightarrow> dlm_ls option" where
  "del_lkb r lkb s = do {
     s \<leftarrow> upd_lkb lkb (\<lambda>l. l\<lparr>lkb_status := 0\<rparr>) s;
     x \<leftarrow> ls_rsbs s r;
     _ \<leftarrow> dlm_assert (lkb \<in> set (rsb_queues x));
     s \<leftarrow> upd_rsb r (unqueue lkb) s;
     unhold_lkb lkb s
   }"

definition move_lkb :: "dlm_env \<Rightarrow> rsbp \<Rightarrow> lkid \<Rightarrow> int \<Rightarrow> dlm_ls \<Rightarrow> dlm_ls option" where
  "move_lkb env r lkb sts s = do {
     s \<leftarrow> hold_lkb lkb s;
     s \<leftarrow> del_lkb r lkb s;
     s \<leftarrow> add_lkb env r lkb sts s;
     unhold_lkb lkb s
   }"

section \<open>Waiting for a reply\<close>

definition msg_reply_type :: "int \<Rightarrow> int" where
  "msg_reply_type mstype =
     (if mstype = DLM_MSG_REQUEST then DLM_MSG_REQUEST_REPLY
      else if mstype = DLM_MSG_CONVERT then DLM_MSG_CONVERT_REPLY
      else if mstype = DLM_MSG_UNLOCK then DLM_MSG_UNLOCK_REPLY
      else if mstype = DLM_MSG_CANCEL then DLM_MSG_CANCEL_REPLY
      else if mstype = DLM_MSG_LOOKUP then DLM_MSG_LOOKUP_REPLY
      else if mstype = DLM_MSG_NOTIFY then DLM_MSG_NOTIFY_REPLY
      else -1)"

definition add_to_waiters :: "dlm_env \<Rightarrow> lkid \<Rightarrow> int \<Rightarrow> int \<Rightarrow> dlm_ls \<Rightarrow> (int \<times> dlm_ls) option" where
  "add_to_waiters env lkb mstype to_nodeid s = do {
     l \<leftarrow> ls_lkbidr s lkb;
     if is_overlap_unlock l \<or> (is_overlap_cancel l \<and> mstype = DLM_MSG_CANCEL)
     then Some (-EINVAL, s)
     else if lkb_wait_type l \<noteq> 0 \<or> is_overlap_cancel l then (
       if mstype = DLM_MSG_UNLOCK \<or> mstype = DLM_MSG_CANCEL then do {
         s \<leftarrow> upd_lkb lkb (set_iflag (if mstype = DLM_MSG_UNLOCK then DLM_IFL_OVERLAP_UNLOCK_BIT
                                    else DLM_IFL_OVERLAP_CANCEL_BIT)) s;
         s \<leftarrow> upd_lkb lkb (\<lambda>l. l\<lparr>lkb_wait_count := lkb_wait_count l + 1\<rparr>) s;
         s \<leftarrow> hold_lkb lkb s;
         Some (0, s)
       } else Some (-EBUSY, s))
     else do {
       s \<leftarrow> (if mstype = DLM_MSG_NOTIFY
            then upd_lkb lkb (\<lambda>l. l\<lparr>lkb_wait_timestamp := jiffies env\<rparr>) s else Some s);
       _ \<leftarrow> dlm_assert (lkb_wait_count l = 0);
       s \<leftarrow> upd_lkb lkb (\<lambda>l. l\<lparr>lkb_wait_count := lkb_wait_count l + 1, lkb_wait_type := mstype,
              lkb_wait_nodeid := to_nodeid\<rparr>) s;
       s \<leftarrow> hold_lkb lkb s;
       Some (0, s\<lparr>ls_waiters := lkb # ls_waiters s\<rparr>)
     }
   }"

text \<open>The label \<open>out_del\<close> of \<open>_remove_from_waiters\<close>.\<close>

definition remove_from_waiters_del :: "lkid \<Rightarrow> bool \<Rightarrow> dlm_ls \<Rightarrow> (int \<times> dlm_ls) option" where
  "remove_from_waiters_del lkb overlap_done s = do {
     l \<leftarrow> ls_lkbidr s lkb;
     s \<leftarrow> (if overlap_done \<and> lkb_wait_type l \<noteq> 0 then do {
            s \<leftarrow> upd_lkb lkb (\<lambda>l. l\<lparr>lkb_wait_count := lkb_wait_count l - 1\<rparr>) s;
            s \<leftarrow> unhold_lkb lkb s;
            upd_lkb lkb (\<lambda>l. l\<lparr>lkb_wait_type := 0\<rparr>) s
          } else Some s);
     l \<leftarrow> ls_lkbidr s lkb;
     _ \<leftarrow> dlm_assert (lkb_wait_count l \<noteq> 0);
     s \<leftarrow> upd_lkb lkb (clear_iflag DLM_IFL_RESEND_BIT) s;
     s \<leftarrow> upd_lkb lkb (\<lambda>l. l\<lparr>lkb_wait_count := lkb_wait_count l - 1\<rparr>) s;
     let s = (if lkb_wait_count l = 1 then s\<lparr>ls_waiters := remove1 lkb (ls_waiters s)\<rparr> else s);
     s \<leftarrow> unhold_lkb lkb s;
     Some (0, s)
   }"

definition us_remove_from_waiters ::
  "lkid \<Rightarrow> int \<Rightarrow> dlm_message option \<Rightarrow> dlm_ls \<Rightarrow> (int \<times> dlm_ls) option" where
  "us_remove_from_waiters lkb mstype ms s = do {
     l \<leftarrow> ls_lkbidr s lkb;
     if mstype = DLM_MSG_UNLOCK_REPLY \<and> is_overlap_unlock l then do {
       s \<leftarrow> upd_lkb lkb (clear_iflag DLM_IFL_OVERLAP_UNLOCK_BIT) s;
       remove_from_waiters_del lkb True s
     }
     else if mstype = DLM_MSG_CANCEL_REPLY \<and> is_overlap_cancel l then do {
       s \<leftarrow> upd_lkb lkb (clear_iflag DLM_IFL_OVERLAP_CANCEL_BIT) s;
       remove_from_waiters_del lkb True s
     }
     else if mstype = DLM_MSG_CANCEL_REPLY \<and> lkb_wait_type l \<noteq> DLM_MSG_CANCEL then Some (-1, s)
     else if mstype = DLM_MSG_CONVERT_REPLY \<and> lkb_wait_type l = DLM_MSG_CONVERT \<and>
             (case ms of None \<Rightarrow> False | Some m \<Rightarrow> m_result m = 0) \<and> is_overlap_cancel l then do {
       s \<leftarrow> upd_lkb lkb (clear_iflag DLM_IFL_OVERLAP_CANCEL_BIT) s;
       s \<leftarrow> upd_lkb lkb (\<lambda>l. l\<lparr>lkb_wait_type := 0, lkb_wait_count := lkb_wait_count l - 1\<rparr>) s;
       s \<leftarrow> unhold_lkb lkb s;
       remove_from_waiters_del lkb False s
     }
     else if lkb_wait_type l \<noteq> 0 \<or> mstype = DLM_MSG_NOTIFY_REPLY then do {
       s \<leftarrow> upd_lkb lkb (\<lambda>l. l\<lparr>lkb_wait_type := 0\<rparr>) s;
       remove_from_waiters_del lkb False s
     }
     else Some (-1, s)
   }"

definition remove_from_waiters :: "lkid \<Rightarrow> int \<Rightarrow> dlm_ls \<Rightarrow> (int \<times> dlm_ls) option" where
  "remove_from_waiters lkb mstype s = us_remove_from_waiters lkb mstype None s"

definition remove_from_waiters_ms :: "lkid \<Rightarrow> dlm_message \<Rightarrow> dlm_ls \<Rightarrow> (int \<times> dlm_ls) option" where
  "remove_from_waiters_ms lkb ms s = us_remove_from_waiters lkb (m_type ms) (Some ms) s"

end
