(* ===== verification/Messages.thy ===== *)
theory Messages
  imports Lkb Modes
begin

text \<open>
  Building and sending messages (\<open>create_message\<close>, \<open>send_args\<close>, the \<open>send_*\<close> family) and the
  completion and blocking callbacks (\<open>queue_cast\<close>, \<open>queue_bast\<close>). A message is sent by
  appending it, with its destination, to \<open>ls_sent\<close>. The replies take the resource and the lock
  as values, because the code also sends them from the static \<open>ls_local_rsb\<close> and
  \<open>ls_local_lkb\<close> when it found no lock.
\<close>

section \<open>Messages\<close>

text \<open>\<open>_create_message\<close>: no message is \<open>-ENOBUFS\<close>.\<close>

definition us_create_message ::
  "dlm_env \<Rightarrow> nat \<Rightarrow> int \<Rightarrow> dlm_ls \<Rightarrow> dlm_message option \<times> dlm_ls" where
  "us_create_message env mb_len mstype s = (
     let ok = get_mhandle env (ls_tick s); s = s\<lparr>ls_tick := ls_tick s + 1\<rparr>
     in if \<not> ok then (None, s)
        else (Some ((zero_message (mb_len - sizeof_dlm_message))
               \<lparr>h_version := DLM_HEADER_VERSION, h_lockspace := ls_global_id s,
                h_nodeid := to32 (dlm_our_nodeid env), h_length := word_of_nat mb_len,
                h_cmd := DLM_MSG_cmd, m_type := mstype\<rparr>), s))"

definition create_message ::
  "dlm_env \<Rightarrow> dlm_rsb \<Rightarrow> dlm_lkb option \<Rightarrow> int \<Rightarrow> dlm_ls \<Rightarrow> dlm_message option \<times> dlm_ls" where
  "create_message env r lkb mstype s =
     us_create_message env (sizeof_dlm_message +
       (if mstype \<in> {DLM_MSG_REQUEST, DLM_MSG_LOOKUP, DLM_MSG_REMOVE, DLM_MSG_NOTIFY}
        then res_length r
        else if mstype \<in> {DLM_MSG_CONVERT, DLM_MSG_UNLOCK, DLM_MSG_REQUEST_REPLY,
                          DLM_MSG_CONVERT_REPLY, DLM_MSG_GRANT}
        then (case lkb of None \<Rightarrow> 0
              | Some l \<Rightarrow> if lkb_lvbptr l \<noteq> None \<and> has_flag (lkb_exflags l) DLM_LKF_VALBLK
                          then ls_lvblen s else 0)
        else 0)) mstype s"

definition send_message :: "int \<Rightarrow> dlm_message \<Rightarrow> dlm_ls \<Rightarrow> dlm_ls" where
  "send_message to_nodeid ms s = s\<lparr>ls_sent := ls_sent s @ [(to_nodeid, ms)]\<rparr>"

definition send_args :: "dlm_ls \<Rightarrow> dlm_rsb \<Rightarrow> dlm_lkb \<Rightarrow> dlm_message \<Rightarrow> dlm_message" where
  "send_args s r lkb ms = (
     let ms = ms\<lparr>m_nodeid := to32 (lkb_nodeid lkb), m_pid := to32 (lkb_ownpid lkb),
                 m_lkid := lkb_id lkb, m_remid := lkb_remid lkb,
                 m_exflags := lkb_exflags lkb, m_sbflags := dlm_sbflags_val lkb,
                 m_flags := dlm_dflags_val lkb, m_lvbseq := lkb_lvbseq lkb,
                 m_status := to32 (lkb_status lkb), m_grmode := to32 (lkb_grmode lkb),
                 m_rqmode := to32 (lkb_rqmode lkb), m_hash := res_hash r\<rparr>;
         ms = (if lkb_bastfn lkb \<noteq> None then ms\<lparr>m_asts := m_asts ms OR DLM_CB_BAST\<rparr> else ms);
         ms = (if lkb_astfn lkb \<noteq> None then ms\<lparr>m_asts := m_asts ms OR DLM_CB_CAST\<rparr> else ms)
     in if m_type ms \<in> {DLM_MSG_REQUEST, DLM_MSG_LOOKUP, DLM_MSG_NOTIFY}
        then ms\<lparr>m_extra := memcpy (m_extra ms) (res_name r) (res_length r)\<rparr>
        else if m_type ms \<in> {DLM_MSG_CONVERT, DLM_MSG_UNLOCK, DLM_MSG_REQUEST_REPLY,
                             DLM_MSG_CONVERT_REPLY, DLM_MSG_GRANT}
        then (case lkb_lvbptr lkb of None \<Rightarrow> ms
              | Some p \<Rightarrow> if \<not> has_flag (lkb_exflags lkb) DLM_LKF_VALBLK then ms
                  else ms\<lparr>m_extra := memcpy (m_extra ms) (ls_lvbs s p) (ls_lvblen s)\<rparr>)
        else ms)"

definition receive_extralen :: "dlm_message \<Rightarrow> int" where
  "receive_extralen ms = uint (h_length ms) - int sizeof_dlm_message"

section \<open>Requests to the master or the directory node\<close>

text \<open>The common tail of \<open>send_common\<close>, \<open>send_notify\<close> and \<open>send_lookup\<close>: wait for the reply,
  build the message, send it; without a message, stop waiting.\<close>

definition send_waiting ::
  "dlm_env \<Rightarrow> rsbp \<Rightarrow> lkid \<Rightarrow> bool \<Rightarrow> int \<Rightarrow> int \<Rightarrow> int \<Rightarrow> dlm_ls \<Rightarrow> (int \<times> dlm_ls) option" where
  "send_waiting env r lkb pass_lkb to_nodeid mstype reply_type s = do {
     (error, s) \<leftarrow> add_to_waiters env lkb mstype to_nodeid s;
     if error \<noteq> 0 then Some (error, s)
     else do {
       x \<leftarrow> ls_rsbs s r;
       l \<leftarrow> ls_lkbidr s lkb;
       let (ms, s) = create_message env x (if pass_lkb then Some l else None) mstype s;
       (case ms of
          None \<Rightarrow> do { (_, s) \<leftarrow> remove_from_waiters lkb reply_type s; Some (-ENOBUFS, s) }
        | Some ms \<Rightarrow> Some (0, send_message to_nodeid (send_args s x l ms) s))
     }
   }"

definition send_common :: "dlm_env \<Rightarrow> rsbp \<Rightarrow> lkid \<Rightarrow> int \<Rightarrow> dlm_ls \<Rightarrow> (int \<times> dlm_ls) option" where
  "send_common env r lkb mstype s = do {
     x \<leftarrow> ls_rsbs s r;
     send_waiting env r lkb True (res_nodeid x) mstype (msg_reply_type mstype) s
   }"

definition send_request :: "dlm_env \<Rightarrow> rsbp \<Rightarrow> lkid \<Rightarrow> dlm_ls \<Rightarrow> (int \<times> dlm_ls) option" where
  "send_request env r lkb = send_common env r lkb DLM_MSG_REQUEST"

definition send_unlock :: "dlm_env \<Rightarrow> rsbp \<Rightarrow> lkid \<Rightarrow> dlm_ls \<Rightarrow> (int \<times> dlm_ls) option" where
  "send_unlock env r lkb = send_common env r lkb DLM_MSG_UNLOCK"

definition send_cancel :: "dlm_env \<Rightarrow> rsbp \<Rightarrow> lkid \<Rightarrow> dlm_ls \<Rightarrow> (int \<times> dlm_ls) option" where
  "send_cancel env r lkb = send_common env r lkb DLM_MSG_CANCEL"

definition send_lookup :: "dlm_env \<Rightarrow> rsbp \<Rightarrow> lkid \<Rightarrow> dlm_ls \<Rightarrow> (int \<times> dlm_ls) option" where
  "send_lookup env r lkb s = do {
     x \<leftarrow> ls_rsbs s r;
     send_waiting env r lkb False (dlm_dir_nodeid env x) DLM_MSG_LOOKUP DLM_MSG_LOOKUP_REPLY s
   }"

definition send_notify :: "dlm_env \<Rightarrow> rsbp \<Rightarrow> lkid \<Rightarrow> dlm_ls \<Rightarrow> (int \<times> dlm_ls) option" where
  "send_notify env r lkb s = do {
     l \<leftarrow> ls_lkbidr s lkb;
     let parent = lkb_parent_lkid l;
     if parent \<noteq> 0 \<and> ls_lkbidr s parent = None then Some (-ENOENT, s)
     else do {
       s \<leftarrow> (if parent \<noteq> 0 then do {
              s \<leftarrow> find_lkb parent s;
              s \<leftarrow> upd_lkb lkb (\<lambda>l. l\<lparr>lkb_parent_link := Linked\<rparr>) s;
              s \<leftarrow> upd_lkb parent (\<lambda>p. p\<lparr>lkb_child_waiters := lkb_child_waiters p @ [lkb],
                     lkb_total_children := lkb_total_children p + 1\<rparr>) s;
              (_, s) \<leftarrow> dlm_put_lkb env parent s;
              Some s
            } else Some s);
       x \<leftarrow> ls_rsbs s r;
       send_waiting env r lkb False (dlm_dir_nodeid env x) DLM_MSG_NOTIFY DLM_MSG_NOTIFY_REPLY s
     }
   }"

section \<open>Messages nobody waits for\<close>

text \<open>The common tail of \<open>send_grant\<close>, \<open>send_bast\<close>, \<open>resend_notify\<close> and the replies, which
  differ in the field \<open>fin\<close> sets after \<open>send_args\<close>.\<close>

definition send_plain ::
  "dlm_env \<Rightarrow> dlm_rsb \<Rightarrow> dlm_lkb \<Rightarrow> bool \<Rightarrow> int \<Rightarrow> int \<Rightarrow> (dlm_message \<Rightarrow> dlm_message) \<Rightarrow> dlm_ls \<Rightarrow>
   int \<times> dlm_ls" where
  "send_plain env x l pass_lkb to_nodeid mstype fin s = (
     case create_message env x (if pass_lkb then Some l else None) mstype s of
       (None, s) \<Rightarrow> (-ENOBUFS, s)
     | (Some ms, s) \<Rightarrow> (0, send_message to_nodeid (fin (send_args s x l ms)) s))"

definition send_grant :: "dlm_env \<Rightarrow> rsbp \<Rightarrow> lkid \<Rightarrow> dlm_ls \<Rightarrow> (int \<times> dlm_ls) option" where
  "send_grant env r lkb s = do {
     x \<leftarrow> ls_rsbs s r;
     l \<leftarrow> ls_lkbidr s lkb;
     Some (send_plain env x l True (lkb_nodeid l) DLM_MSG_GRANT (\<lambda>ms. ms\<lparr>m_result := 0\<rparr>) s)
   }"

definition send_bast :: "dlm_env \<Rightarrow> rsbp \<Rightarrow> lkid \<Rightarrow> int \<Rightarrow> dlm_ls \<Rightarrow> (int \<times> dlm_ls) option" where
  "send_bast env r lkb mode s = do {
     x \<leftarrow> ls_rsbs s r;
     l \<leftarrow> ls_lkbidr s lkb;
     Some (send_plain env x l False (lkb_nodeid l) DLM_MSG_BAST
             (\<lambda>ms. ms\<lparr>m_bastmode := to32 mode\<rparr>) s)
   }"

definition resend_notify :: "dlm_env \<Rightarrow> lkid \<Rightarrow> dlm_ls \<Rightarrow> (int \<times> dlm_ls) option" where
  "resend_notify env lkb s = do {
     l \<leftarrow> ls_lkbidr s lkb;
     r \<leftarrow> lkb_resource l;
     x \<leftarrow> ls_rsbs s r;
     Some (send_plain env x l False (dlm_dir_nodeid env x) DLM_MSG_NOTIFY (\<lambda>ms. ms) s)
   }"

definition send_remove :: "dlm_env \<Rightarrow> rsbp \<Rightarrow> dlm_ls \<Rightarrow> (int \<times> dlm_ls) option" where
  "send_remove env r s = do {
     x \<leftarrow> ls_rsbs s r;
     Some (case create_message env x None DLM_MSG_REMOVE s of
             (None, s) \<Rightarrow> (-ENOBUFS, s)
           | (Some ms, s) \<Rightarrow> (0, send_message (dlm_dir_nodeid env x)
               (ms\<lparr>m_extra := memcpy (m_extra ms) (res_name x) (res_length x),
                   m_hash := res_hash x\<rparr>) s))
   }"

section \<open>Replies\<close>

definition send_common_reply ::
  "dlm_env \<Rightarrow> dlm_rsb \<Rightarrow> dlm_lkb \<Rightarrow> int \<Rightarrow> int \<Rightarrow> dlm_ls \<Rightarrow> int \<times> dlm_ls" where
  "send_common_reply env x l mstype rv s =
     send_plain env x l True (lkb_nodeid l) mstype
       (\<lambda>ms. ms\<lparr>m_result := to32 (to_dlm_errno env rv)\<rparr>) s"

text \<open>A reply about a lock of the lockspace.\<close>

definition reply_lkb :: "dlm_env \<Rightarrow> rsbp \<Rightarrow> lkid \<Rightarrow> int \<Rightarrow> int \<Rightarrow> dlm_ls \<Rightarrow> dlm_ls option" where
  "reply_lkb env r lkb mstype rv s = do {
     x \<leftarrow> ls_rsbs s r;
     l \<leftarrow> ls_lkbidr s lkb;
     Some (snd (send_common_reply env x l mstype rv s))
   }"

definition send_request_reply :: "dlm_env \<Rightarrow> rsbp \<Rightarrow> lkid \<Rightarrow> int \<Rightarrow> dlm_ls \<Rightarrow> dlm_ls option" where
  "send_request_reply env r lkb rv = reply_lkb env r lkb DLM_MSG_REQUEST_REPLY rv"

definition send_convert_reply :: "dlm_env \<Rightarrow> rsbp \<Rightarrow> lkid \<Rightarrow> int \<Rightarrow> dlm_ls \<Rightarrow> dlm_ls option" where
  "send_convert_reply env r lkb rv = reply_lkb env r lkb DLM_MSG_CONVERT_REPLY rv"

definition send_unlock_reply :: "dlm_env \<Rightarrow> rsbp \<Rightarrow> lkid \<Rightarrow> int \<Rightarrow> dlm_ls \<Rightarrow> dlm_ls option" where
  "send_unlock_reply env r lkb rv = reply_lkb env r lkb DLM_MSG_UNLOCK_REPLY rv"

definition send_cancel_reply :: "dlm_env \<Rightarrow> rsbp \<Rightarrow> lkid \<Rightarrow> int \<Rightarrow> dlm_ls \<Rightarrow> dlm_ls option" where
  "send_cancel_reply env r lkb rv = reply_lkb env r lkb DLM_MSG_CANCEL_REPLY rv"

text \<open>\<open>send_lookup_reply\<close> and \<open>send_notify_reply\<close> answer the sender of a message. The extra
  bytes they hand to the transport with the message are for its tracing only.\<close>

definition send_dir_reply ::
  "dlm_env \<Rightarrow> dlm_message \<Rightarrow> int \<Rightarrow> int \<Rightarrow> int \<Rightarrow> dlm_ls \<Rightarrow> int \<times> dlm_ls" where
  "send_dir_reply env ms_in mstype ret_nodeid rv s = (
     case create_message env (ls_local_rsb s) None mstype s of
       (None, s) \<Rightarrow> (-ENOBUFS, s)
     | (Some ms, s) \<Rightarrow> (0, send_message (s32 (h_nodeid ms_in))
         (ms\<lparr>m_lkid := m_lkid ms_in, m_result := to32 (to_dlm_errno env rv),
             m_nodeid := to32 ret_nodeid\<rparr>) s))"

definition send_lookup_reply ::
  "dlm_env \<Rightarrow> dlm_message \<Rightarrow> int \<Rightarrow> int \<Rightarrow> dlm_ls \<Rightarrow> int \<times> dlm_ls" where
  "send_lookup_reply env ms_in = send_dir_reply env ms_in DLM_MSG_LOOKUP_REPLY"

definition send_notify_reply ::
  "dlm_env \<Rightarrow> dlm_message \<Rightarrow> int \<Rightarrow> int \<Rightarrow> dlm_ls \<Rightarrow> int \<times> dlm_ls" where
  "send_notify_reply env ms_in = send_dir_reply env ms_in DLM_MSG_NOTIFY_REPLY"

section \<open>Callbacks\<close>

definition dlm_add_cb :: "lkid \<Rightarrow> u32 \<Rightarrow> int \<Rightarrow> int \<Rightarrow> u32 \<Rightarrow> dlm_ls \<Rightarrow> dlm_ls" where
  "dlm_add_cb lkb flags mode status sbflags s = s\<lparr>ls_cbs := ls_cbs s @
     [\<lparr>cb_lkb = lkb, cb_flags = flags, cb_mode = mode, cb_status = status, cb_sbflags = sbflags\<rparr>]\<rparr>"

definition queue_cast :: "lkid \<Rightarrow> int \<Rightarrow> dlm_ls \<Rightarrow> dlm_ls option" where
  "queue_cast lkb rv s = do {
     l \<leftarrow> ls_lkbidr s lkb;
     if is_master_copy l then Some s
     else do {
       _ \<leftarrow> dlm_assert (lkb_lksb l \<noteq> None);
       let deadlk = (rv = -DLM_ECANCEL \<and> iflag l DLM_IFL_DEADLOCK_CANCEL_BIT);
       s \<leftarrow> (if deadlk then upd_lkb lkb (clear_iflag DLM_IFL_DEADLOCK_CANCEL_BIT) s else Some s);
       Some (dlm_add_cb lkb DLM_CB_CAST (lkb_grmode l) (if deadlk then -EDEADLK else rv)
               (dlm_sbflags_val l) s)
     }
   }"

definition queue_cast_overlap :: "lkid \<Rightarrow> dlm_ls \<Rightarrow> dlm_ls option" where
  "queue_cast_overlap lkb s = do {
     l \<leftarrow> ls_lkbidr s lkb;
     queue_cast lkb (if is_overlap_unlock l then -DLM_EUNLOCK else -DLM_ECANCEL) s
   }"

definition queue_bast :: "dlm_env \<Rightarrow> rsbp \<Rightarrow> lkid \<Rightarrow> int \<Rightarrow> dlm_ls \<Rightarrow> dlm_ls option" where
  "queue_bast env r lkb rqmode s = do {
     l \<leftarrow> ls_lkbidr s lkb;
     if is_master_copy l then map_option snd (send_bast env r lkb rqmode s)
     else Some (dlm_add_cb lkb DLM_CB_BAST rqmode 0 0 s)
   }"

section \<open>Freeing tossed resources\<close>

text \<open>The first loop of \<open>shrink_bucket\<close>, over the tossed resources in the order of their
  names; it returns \<open>need_shrink\<close> and the names to remove at their directory node.\<close>

fun shrink_scan ::
  "dlm_env \<Rightarrow> u32 \<Rightarrow> rsbp list \<Rightarrow> (u8 list \<times> nat) list \<Rightarrow> bool \<Rightarrow> dlm_ls \<Rightarrow>
   (bool \<times> (u8 list \<times> nat) list \<times> dlm_ls) option"
where
  "shrink_scan env b [] rem need s = Some (need, rem, s)"
| "shrink_scan env b (r # rs) rem need s = do {
     x \<leftarrow> ls_rsbs s r;
     if \<not> dlm_no_directory s \<and> res_master_nodeid x \<noteq> dlm_our_nodeid env
        \<and> dlm_dir_nodeid env x = dlm_our_nodeid env
     then shrink_scan env b rs rem need s
     else if \<not> time_after_eq (jiffies env) (res_toss_time x + ci_toss_secs env * hz env)
     then shrink_scan env b rs rem True s
     else if \<not> dlm_no_directory s \<and> res_master_nodeid x = dlm_our_nodeid env
        \<and> dlm_dir_nodeid env x \<noteq> dlm_our_nodeid env
     then (let rem = rem @ [(take DLM_RESNAME_MAXLEN (res_name x), res_length x)]
           in if length rem \<ge> DLM_REMOVE_NAMES_MAX then Some (True, rem, s)
              else shrink_scan env b rs rem True s)
     else do {
       (last, s) \<leftarrow> kref_put_rsb r s;
       if \<not> last then shrink_scan env b rs rem True s
       else do {
         _ \<leftarrow> kill_rsb r s;
         shrink_scan env b rs rem True (dlm_free_rsb r (erase_toss env b r s))
       }
     }
   }"

text \<open>The second loop: remove each name that is still tossed, ours, and old enough.\<close>

fun shrink_remove ::
  "dlm_env \<Rightarrow> u32 \<Rightarrow> (u8 list \<times> nat) list \<Rightarrow> dlm_ls \<Rightarrow> dlm_ls option"
where
  "shrink_remove env b [] s = Some s"
| "shrink_remove env b ((name, len) # rest) s = do {
     t \<leftarrow> dlm_search_rsb_tree s (toss (ls_rsbtbl s b)) name len;
     (case t of
        None \<Rightarrow> shrink_remove env b rest s
      | Some r \<Rightarrow> do {
          x \<leftarrow> ls_rsbs s r;
          if res_master_nodeid x \<noteq> dlm_our_nodeid env \<or> res_dir_nodeid x = dlm_our_nodeid env
             \<or> \<not> time_after_eq (jiffies env) (res_toss_time x + ci_toss_secs env * hz env)
          then shrink_remove env b rest s
          else do {
            (last, s) \<leftarrow> kref_put_rsb r s;
            if \<not> last then shrink_remove env b rest s
            else do {
              _ \<leftarrow> kill_rsb r s;
              (_, s) \<leftarrow> send_remove env r (erase_toss env b r s);
              shrink_remove env b rest (dlm_free_rsb r s)
            }
          }
        })
   }"

definition shrink_bucket :: "dlm_env \<Rightarrow> u32 \<Rightarrow> dlm_ls \<Rightarrow> dlm_ls option" where
  "shrink_bucket env b s =
     (if \<not> bit (rt_flags (ls_rsbtbl s b)) DLM_RTF_SHRINK_BIT then Some s
      else do {
        (need, rem, s) \<leftarrow> shrink_scan env b (inorder (toss (ls_rsbtbl s b))) [] False s;
        let s = upd_bucket b (\<lambda>t. t\<lparr>rt_flags :=
          (if need then set_bit DLM_RTF_SHRINK_BIT (rt_flags t)
           else unset_bit DLM_RTF_SHRINK_BIT (rt_flags t))\<rparr>) s;
        shrink_remove env b rem s
      })"

fun shrink_all :: "dlm_env \<Rightarrow> u32 list \<Rightarrow> dlm_ls \<Rightarrow> dlm_ls option" where
  "shrink_all env [] s = Some s"
| "shrink_all env (b # bs) s = do {
     s \<leftarrow> shrink_bucket env b s;
     if dlm_locking_stopped s then Some s else shrink_all env bs s
   }"

definition dlm_scan_rsbs :: "dlm_env \<Rightarrow> dlm_ls \<Rightarrow> dlm_ls option" where
  "dlm_scan_rsbs env s = shrink_all env (map word_of_nat [0..<unat (ls_rsbtbl_size s)]) s"

end
