(* ===== verification/Lvb.thy ===== *)
theory Lvb
  imports Messages
begin

text \<open>
  Lock value blocks: what granting and releasing a lock copies between the block of the
  caller and the block of the resource (\<open>set_lvb_lock\<close>, \<open>set_lvb_unlock\<close>), and what a grant
  from the master copies on a process copy (\<open>set_lvb_lock_pc\<close>).
\<close>

definition dlm_allocate_lvb :: "dlm_env \<Rightarrow> dlm_ls \<Rightarrow> bufp option \<times> dlm_ls" where
  "dlm_allocate_lvb env s = (
     let p = allocate_lvb env (ls_tick s); s = s\<lparr>ls_tick := ls_tick s + 1\<rparr>
     in (p, (case p of None \<Rightarrow> s
             | Some p \<Rightarrow> s\<lparr>ls_lvbs := (ls_lvbs s)(p := replicate (ls_lvblen s) 0)\<rparr>)))"

text \<open>\<open>memcpy(dst, src, len)\<close> between two blocks.\<close>

definition copy_lvb :: "bufp \<Rightarrow> u8 list \<Rightarrow> nat \<Rightarrow> dlm_ls \<Rightarrow> dlm_ls" where
  "copy_lvb dst src len s =
     s\<lparr>ls_lvbs := (ls_lvbs s)(dst := memcpy (ls_lvbs s dst) src len)\<rparr>"

text \<open>The resource's block, allocated when it has none; still no block is out of memory.\<close>

definition rsb_lvb :: "dlm_env \<Rightarrow> rsbp \<Rightarrow> dlm_ls \<Rightarrow> (bufp option \<times> dlm_ls) option" where
  "rsb_lvb env r s = do {
     x \<leftarrow> ls_rsbs s r;
     (case res_lvbptr x of
        Some p \<Rightarrow> Some (Some p, s)
      | None \<Rightarrow> do {
          let (p, s) = dlm_allocate_lvb env s;
          s \<leftarrow> upd_rsb r (\<lambda>x. x\<lparr>res_lvbptr := p\<rparr>) s;
          Some (p, s)
        })
   }"

text \<open>The end of \<open>set_lvb_lock\<close>.\<close>

definition set_lvb_notvalid :: "rsbp \<Rightarrow> lkid \<Rightarrow> dlm_ls \<Rightarrow> dlm_ls option" where
  "set_lvb_notvalid r lkb s = do {
     x \<leftarrow> ls_rsbs s r;
     if rsb_flag x RSB_VALNOTVALID
     then upd_lkb lkb (\<lambda>l. l\<lparr>lkb_sbflags := set_bit DLM_SBF_VALNOTVALID_BIT (lkb_sbflags l)\<rparr>) s
     else Some s
   }"

definition set_lvb_lock :: "dlm_env \<Rightarrow> rsbp \<Rightarrow> lkid \<Rightarrow> dlm_ls \<Rightarrow> dlm_ls option" where
  "set_lvb_lock env r lkb s = do {
     l \<leftarrow> ls_lkbidr s lkb;
     x \<leftarrow> ls_rsbs s r;
     b \<leftarrow> lvb_operation (lkb_grmode l) (lkb_rqmode l);
     if b = 1 then
       (case (lkb_lvbptr l, res_lvbptr x) of
          (Some p, Some q) \<Rightarrow>
            if \<not> has_flag (lkb_exflags l) DLM_LKF_VALBLK then Some s
            else do {
              let s = copy_lvb p (ls_lvbs s q) (ls_lvblen s) s;
              s \<leftarrow> upd_lkb lkb (\<lambda>l. l\<lparr>lkb_lvbseq := res_lvbseq x\<rparr>) s;
              set_lvb_notvalid r lkb s
            }
        | _ \<Rightarrow> Some s)
     else if b = 0 then (
       if has_flag (lkb_exflags l) DLM_LKF_IVVALBLK then upd_rsb r (rsb_set_flag RSB_VALNOTVALID) s
       else (case lkb_lvbptr l of
          None \<Rightarrow> Some s
        | Some p \<Rightarrow>
            if \<not> has_flag (lkb_exflags l) DLM_LKF_VALBLK then Some s
            else do {
              (q, s) \<leftarrow> rsb_lvb env r s;
              (case q of
                 None \<Rightarrow> Some s
               | Some q \<Rightarrow> do {
                   let s = copy_lvb q (ls_lvbs s p) (ls_lvblen s) s;
                   s \<leftarrow> upd_rsb r (\<lambda>x. rsb_clear_flag RSB_VALNOTVALID
                          (x\<lparr>res_lvbseq := res_lvbseq x + 1\<rparr>)) s;
                   x \<leftarrow> ls_rsbs s r;
                   s \<leftarrow> upd_lkb lkb (\<lambda>l. l\<lparr>lkb_lvbseq := res_lvbseq x\<rparr>) s;
                   set_lvb_notvalid r lkb s
                 })
            }))
     else set_lvb_notvalid r lkb s
   }"

definition set_lvb_unlock :: "dlm_env \<Rightarrow> rsbp \<Rightarrow> lkid \<Rightarrow> dlm_ls \<Rightarrow> dlm_ls option" where
  "set_lvb_unlock env r lkb s = do {
     l \<leftarrow> ls_lkbidr s lkb;
     if lkb_grmode l < DLM_LOCK_PW then Some s
     else if has_flag (lkb_exflags l) DLM_LKF_IVVALBLK
     then upd_rsb r (rsb_set_flag RSB_VALNOTVALID) s
     else (case lkb_lvbptr l of
        None \<Rightarrow> Some s
      | Some p \<Rightarrow>
          if \<not> has_flag (lkb_exflags l) DLM_LKF_VALBLK then Some s
          else do {
            (q, s) \<leftarrow> rsb_lvb env r s;
            (case q of
               None \<Rightarrow> Some s
             | Some q \<Rightarrow>
                 upd_rsb r (\<lambda>x. rsb_clear_flag RSB_VALNOTVALID
                   (x\<lparr>res_lvbseq := res_lvbseq x + 1\<rparr>))
                   (copy_lvb q (ls_lvbs s p) (ls_lvblen s) s))
          })
   }"

text \<open>A negative length turned into a \<open>size_t\<close> makes \<open>memcpy\<close> run out of bounds: \<open>None\<close>.\<close>

definition set_lvb_lock_pc :: "rsbp \<Rightarrow> lkid \<Rightarrow> dlm_message \<Rightarrow> dlm_ls \<Rightarrow> dlm_ls option" where
  "set_lvb_lock_pc r lkb ms s = do {
     l \<leftarrow> ls_lkbidr s lkb;
     (case lkb_lvbptr l of
        None \<Rightarrow> Some s
      | Some p \<Rightarrow>
          if \<not> has_flag (lkb_exflags l) DLM_LKF_VALBLK then Some s
          else do {
            b \<leftarrow> lvb_operation (lkb_grmode l) (lkb_rqmode l);
            if b = 1 then do {
              let len = min (receive_extralen ms) (int (ls_lvblen s));
              _ \<leftarrow> dlm_assert (0 \<le> len);
              upd_lkb lkb (\<lambda>l. l\<lparr>lkb_lvbseq := m_lvbseq ms\<rparr>) (copy_lvb p (m_extra ms) (nat len) s)
            } else Some s
          })
   }"

end
