(* ===== verification/Grant.thy ===== *)
theory Grant
  imports Lvb
begin

text \<open>
  Granting: moving a lock to the granted queue, off it, or back (\<open>grant_lock\<close>,
  \<open>remove_lock\<close>, \<open>revert_lock\<close>), deciding whether a lock can be granted
  (\<open>can_be_granted\<close>, with its conversion-deadlock and alternate-mode handling), granting what
  a release lets through (\<open>grant_pending_locks\<close>), and telling holders that they block
  (\<open>send_blocking_asts\<close>).
\<close>

section \<open>Removing, reverting, granting\<close>

definition us_remove_lock :: "rsbp \<Rightarrow> lkid \<Rightarrow> dlm_ls \<Rightarrow> dlm_ls option" where
  "us_remove_lock r lkb s = do {
     s \<leftarrow> del_lkb r lkb s;
     s \<leftarrow> upd_lkb lkb (\<lambda>l. l\<lparr>lkb_grmode := DLM_LOCK_IV\<rparr>) s;
     unhold_lkb lkb s
   }"

definition remove_lock :: "dlm_env \<Rightarrow> rsbp \<Rightarrow> lkid \<Rightarrow> dlm_ls \<Rightarrow> dlm_ls option" where
  "remove_lock env r lkb s = do {
     s \<leftarrow> set_lvb_unlock env r lkb s;
     us_remove_lock r lkb s
   }"

definition remove_lock_pc :: "rsbp \<Rightarrow> lkid \<Rightarrow> dlm_ls \<Rightarrow> dlm_ls option" where
  "remove_lock_pc r lkb s = us_remove_lock r lkb s"

definition revert_lock :: "dlm_env \<Rightarrow> rsbp \<Rightarrow> lkid \<Rightarrow> dlm_ls \<Rightarrow> (int \<times> dlm_ls) option" where
  "revert_lock env r lkb s = do {
     s \<leftarrow> upd_lkb lkb (\<lambda>l. l\<lparr>lkb_rqmode := DLM_LOCK_IV\<rparr>) s;
     l \<leftarrow> ls_lkbidr s lkb;
     if lkb_status l = DLM_LKSTS_GRANTED then Some (0, s)
     else if lkb_status l = DLM_LKSTS_CONVERT then do {
       s \<leftarrow> move_lkb env r lkb DLM_LKSTS_GRANTED s;
       Some (1, s)
     }
     else if lkb_status l = DLM_LKSTS_WAITING then do {
       s \<leftarrow> us_remove_lock r lkb s;
       Some (-1, s)
     }
     else Some (0, s)
   }"

definition revert_lock_pc :: "dlm_env \<Rightarrow> rsbp \<Rightarrow> lkid \<Rightarrow> dlm_ls \<Rightarrow> (int \<times> dlm_ls) option" where
  "revert_lock_pc env r lkb s = revert_lock env r lkb s"

definition us_grant_lock :: "dlm_env \<Rightarrow> rsbp \<Rightarrow> lkid \<Rightarrow> dlm_ls \<Rightarrow> dlm_ls option" where
  "us_grant_lock env r lkb s = do {
     l \<leftarrow> ls_lkbidr s lkb;
     s \<leftarrow> (if lkb_grmode l \<noteq> lkb_rqmode l then do {
            s \<leftarrow> upd_lkb lkb (\<lambda>l. l\<lparr>lkb_grmode := lkb_rqmode l\<rparr>) s;
            if lkb_status l \<noteq> 0 then move_lkb env r lkb DLM_LKSTS_GRANTED s
            else add_lkb env r lkb DLM_LKSTS_GRANTED s
          } else Some s);
     upd_lkb lkb (\<lambda>l. l\<lparr>lkb_rqmode := DLM_LOCK_IV, lkb_highbast := 0\<rparr>) s
   }"

definition grant_lock :: "dlm_env \<Rightarrow> rsbp \<Rightarrow> lkid \<Rightarrow> dlm_ls \<Rightarrow> dlm_ls option" where
  "grant_lock env r lkb s = do {
     s \<leftarrow> set_lvb_lock env r lkb s;
     us_grant_lock env r lkb s
   }"

definition grant_lock_pc ::
  "dlm_env \<Rightarrow> rsbp \<Rightarrow> lkid \<Rightarrow> dlm_message \<Rightarrow> dlm_ls \<Rightarrow> dlm_ls option" where
  "grant_lock_pc env r lkb ms s = do {
     s \<leftarrow> set_lvb_lock_pc r lkb ms s;
     us_grant_lock env r lkb s
   }"

definition grant_lock_pending :: "dlm_env \<Rightarrow> rsbp \<Rightarrow> lkid \<Rightarrow> dlm_ls \<Rightarrow> dlm_ls option" where
  "grant_lock_pending env r lkb s = do {
     s \<leftarrow> grant_lock env r lkb s;
     l \<leftarrow> ls_lkbidr s lkb;
     if is_master_copy l then map_option snd (send_grant env r lkb s)
     else queue_cast lkb 0 s
   }"

definition munge_demoted :: "dlm_lkb \<Rightarrow> dlm_lkb" where
  "munge_demoted lkb =
     (if lkb_rqmode lkb = DLM_LOCK_IV \<or> lkb_grmode lkb = DLM_LOCK_IV then lkb
      else lkb\<lparr>lkb_grmode := DLM_LOCK_NL\<rparr>)"

definition munge_altmode :: "dlm_message \<Rightarrow> dlm_lkb \<Rightarrow> dlm_lkb" where
  "munge_altmode ms lkb =
     (if m_type ms \<noteq> DLM_MSG_REQUEST_REPLY \<and> m_type ms \<noteq> DLM_MSG_GRANT then lkb
      else if has_flag (lkb_exflags lkb) DLM_LKF_ALTPR then lkb\<lparr>lkb_rqmode := DLM_LOCK_PR\<rparr>
      else if has_flag (lkb_exflags lkb) DLM_LKF_ALTCW then lkb\<lparr>lkb_rqmode := DLM_LOCK_CW\<rparr>
      else lkb)"

section \<open>Can a lock be granted?\<close>

text \<open>On an empty list \<open>head->next\<close> is the head itself, which is no lock.\<close>

definition first_in_list :: "lkid \<Rightarrow> lkid list \<Rightarrow> bool option" where
  "first_in_list lkb q = (case q of [] \<Rightarrow> None | k # _ \<Rightarrow> Some (k = lkb))"

fun queue_conflict :: "dlm_ls \<Rightarrow> lkid list \<Rightarrow> lkid \<Rightarrow> bool option" where
  "queue_conflict s [] lkb = Some False"
| "queue_conflict s (this # q) lkb =
     (if this = lkb then queue_conflict s q lkb
      else do {
        t \<leftarrow> ls_lkbidr s this;
        l \<leftarrow> ls_lkbidr s lkb;
        c \<leftarrow> modes_compat t l;
        if \<not> c then Some True else queue_conflict s q lkb
      })"

fun deadlock_scan :: "dlm_ls \<Rightarrow> lkid list \<Rightarrow> lkid \<Rightarrow> bool \<Rightarrow> bool option" where
  "deadlock_scan s [] lkb2 ahead = Some False"
| "deadlock_scan s (lkb1 # q) lkb2 ahead =
     (if lkb1 = lkb2 then deadlock_scan s q lkb2 True
      else do {
        l1 \<leftarrow> ls_lkbidr s lkb1;
        l2 \<leftarrow> ls_lkbidr s lkb2;
        c \<leftarrow> modes_compat l2 l1;
        if \<not> ahead then (if \<not> c then Some True else deadlock_scan s q lkb2 ahead)
        else if c then deadlock_scan s q lkb2 ahead
        else do {
          c' \<leftarrow> modes_compat l1 l2;
          if \<not> c' then Some True else deadlock_scan s q lkb2 ahead
        }
      })"

definition conversion_deadlock_detect :: "rsbp \<Rightarrow> lkid \<Rightarrow> dlm_ls \<Rightarrow> bool option" where
  "conversion_deadlock_detect r lkb2 s = do {
     x \<leftarrow> ls_rsbs s r;
     deadlock_scan s (res_convertqueue x) lkb2 False
   }"

definition us_can_be_granted :: "rsbp \<Rightarrow> lkid \<Rightarrow> bool \<Rightarrow> bool \<Rightarrow> dlm_ls \<Rightarrow> bool option" where
  "us_can_be_granted r lkb now recover s = do {
     l \<leftarrow> ls_lkbidr s lkb;
     x \<leftarrow> ls_rsbs s r;
     let conv = (lkb_grmode l \<noteq> DLM_LOCK_IV);
     if has_flag (lkb_exflags l) DLM_LKF_EXPEDITE then Some True
     else do {
       g \<leftarrow> queue_conflict s (res_grantqueue x) lkb;
       if g then Some False
       else do {
         c \<leftarrow> queue_conflict s (res_convertqueue x) lkb;
         if c then Some False
         else if conv \<and> recover then Some True
         else if now \<and> conv \<and> \<not> has_flag (lkb_exflags l) DLM_LKF_QUECVT then Some True
         else if now \<and> conv \<and> has_flag (lkb_exflags l) DLM_LKF_QUECVT
         then Some (res_convertqueue x = [])
         else if has_flag (lkb_exflags l) DLM_LKF_NOORDER then Some True
         else do {
           f \<leftarrow> (if \<not> now \<and> conv then first_in_list lkb (res_convertqueue x) else Some False);
           if f then Some True
           else if now \<and> \<not> conv \<and> res_convertqueue x = [] \<and> res_waitqueue x = [] then Some True
           else if \<not> now \<and> \<not> conv \<and> res_convertqueue x = []
           then first_in_list lkb (res_waitqueue x)
           else Some False
         }
       }
     }
   }"

text \<open>\<open>can_be_granted\<close> returns the answer and \<open>*err\<close>; \<open>want_err\<close> tells whether the caller
  passes a pointer for it.\<close>

definition alt_mode :: "dlm_lkb \<Rightarrow> int" where
  "alt_mode l =
     (if lkb_rqmode l \<noteq> DLM_LOCK_PR \<and> has_flag (lkb_exflags l) DLM_LKF_ALTPR then DLM_LOCK_PR
      else if lkb_rqmode l \<noteq> DLM_LOCK_CW \<and> has_flag (lkb_exflags l) DLM_LKF_ALTCW then DLM_LOCK_CW
      else 0)"

definition try_alt_mode :: "rsbp \<Rightarrow> lkid \<Rightarrow> bool \<Rightarrow> dlm_ls \<Rightarrow> (bool \<times> dlm_ls) option" where
  "try_alt_mode r lkb now s = do {
     l \<leftarrow> ls_lkbidr s lkb;
     if alt_mode l = 0 then Some (False, s)
     else do {
       s \<leftarrow> upd_lkb lkb (\<lambda>l. l\<lparr>lkb_rqmode := alt_mode l\<rparr>) s;
       rv \<leftarrow> us_can_be_granted r lkb now False s;
       s \<leftarrow> upd_lkb lkb (if rv
              then (\<lambda>l. l\<lparr>lkb_sbflags := set_bit DLM_SBF_ALTMODE_BIT (lkb_sbflags l)\<rparr>)
              else (\<lambda>l'. l'\<lparr>lkb_rqmode := lkb_rqmode l\<rparr>)) s;
       Some (rv, s)
     }
   }"

definition can_be_granted ::
  "rsbp \<Rightarrow> lkid \<Rightarrow> bool \<Rightarrow> bool \<Rightarrow> bool \<Rightarrow> dlm_ls \<Rightarrow> (bool \<times> int \<times> dlm_ls) option" where
  "can_be_granted r lkb now recover want_err s = do {
     l \<leftarrow> ls_lkbidr s lkb;
     rv \<leftarrow> us_can_be_granted r lkb now recover s;
     if rv then Some (True, 0, s)
     else do {
       d \<leftarrow> (if lkb_grmode l \<noteq> DLM_LOCK_IV \<and> can_be_queued l
            then conversion_deadlock_detect r lkb s else Some False);
       if d then (
         if has_flag (lkb_exflags l) DLM_LKF_CONVDEADLK then do {
           s \<leftarrow> upd_lkb lkb (\<lambda>l. l\<lparr>lkb_grmode := DLM_LOCK_NL,
                  lkb_sbflags := set_bit DLM_SBF_DEMOTED_BIT (lkb_sbflags l)\<rparr>) s;
           Some (False, 0, s)
         }
         else Some (False, if want_err then -EDEADLK else 0, s))
       else do {
         (rv, s) \<leftarrow> try_alt_mode r lkb now s;
         Some (rv, 0, s)
       }
     }
   }"

section \<open>Granting what waits\<close>

text \<open>The locals of one pass of \<open>grant_pending_convert\<close>, with \<open>*cw\<close> and \<open>*count\<close>.\<close>

record grant_pass =
  grant_restart :: bool
  demote_restart :: bool
  gp_hi :: int
  gp_cw :: bool
  gp_count :: nat

fun grant_convert_pass ::
  "dlm_env \<Rightarrow> rsbp \<Rightarrow> bool \<Rightarrow> lkid list \<Rightarrow> grant_pass \<Rightarrow> dlm_ls \<Rightarrow> (grant_pass \<times> dlm_ls) option"
where
  "grant_convert_pass env r recover [] g s = Some (g, s)"
| "grant_convert_pass env r recover (lkb # q) g s = do {
     l0 \<leftarrow> ls_lkbidr s lkb;
     (rv, deadlk, s) \<leftarrow> can_be_granted r lkb False recover True s;
     l \<leftarrow> ls_lkbidr s lkb;
     if rv then do {
       s \<leftarrow> grant_lock_pending env r lkb s;
       grant_convert_pass env r recover q
         (g\<lparr>grant_restart := True, gp_count := gp_count g + 1\<rparr>) s
     }
     else if \<not> is_demoted l0 \<and> is_demoted l
     then grant_convert_pass env r recover q (g\<lparr>demote_restart := True\<rparr>) s
     else if deadlk \<noteq> 0 then do {
       s \<leftarrow> (if has_flag (lkb_exflags l) DLM_LKF_NODLCKWT \<and> lkb_highbast l < lkb_rqmode l
            then do {
              s \<leftarrow> queue_bast env r lkb (lkb_rqmode l) s;
              upd_lkb lkb (\<lambda>l. l\<lparr>lkb_highbast := lkb_rqmode l\<rparr>) s
            } else Some s);
       grant_convert_pass env r recover q g s
     }
     else grant_convert_pass env r recover q
       (g\<lparr>gp_hi := max (lkb_rqmode l) (gp_hi g),
          gp_cw := (gp_cw g \<or> lkb_rqmode l = DLM_LOCK_CW)\<rparr>) s
   }"

text \<open>The loop from the label \<open>restart\<close>: its state is \<open>quit\<close>, \<open>*cw\<close>, \<open>*count\<close> and the
  lockspace; its result the highest blocked mode, \<open>*cw\<close>, \<open>*count\<close> and the lockspace.\<close>

definition grant_convert_restart ::
  "dlm_env \<Rightarrow> rsbp \<Rightarrow> bool \<Rightarrow> bool \<times> bool \<times> nat \<times> dlm_ls \<Rightarrow>
   (bool \<times> bool \<times> nat \<times> dlm_ls, int \<times> bool \<times> nat \<times> dlm_ls) pass option"
where
  "grant_convert_restart env r recover = (\<lambda>(quit, cw, count, s). do {
     x \<leftarrow> ls_rsbs s r;
     (g, s) \<leftarrow> grant_convert_pass env r recover (res_convertqueue x)
       \<lparr>grant_restart = False, demote_restart = False, gp_hi = DLM_LOCK_IV, gp_cw = cw,
        gp_count = count\<rparr> s;
     if grant_restart g then Some (Retry (quit, gp_cw g, gp_count g, s))
     else if demote_restart g \<and> \<not> quit then Some (Retry (True, gp_cw g, gp_count g, s))
     else Some (Done (gp_hi g, gp_cw g, gp_count g, s))
   })"

definition grant_pending_convert ::
  "dlm_env \<Rightarrow> rsbp \<Rightarrow> int \<Rightarrow> bool \<Rightarrow> nat \<Rightarrow> dlm_ls \<Rightarrow> (int \<times> bool \<times> nat \<times> dlm_ls) option" where
  "grant_pending_convert env r high cw count s = do {
     x \<leftarrow> ls_rsbs s r;
     (hi, cw, count, s) \<leftarrow> retry (grant_convert_restart env r (rsb_flag x RSB_RECOVER_GRANT))
                             (False, cw, count, s);
     Some (max high hi, cw, count, s)
   }"

fun grant_wait_pass ::
  "dlm_env \<Rightarrow> rsbp \<Rightarrow> lkid list \<Rightarrow> int \<Rightarrow> bool \<Rightarrow> nat \<Rightarrow> dlm_ls \<Rightarrow>
   (int \<times> bool \<times> nat \<times> dlm_ls) option"
where
  "grant_wait_pass env r [] high cw count s = Some (high, cw, count, s)"
| "grant_wait_pass env r (lkb # q) high cw count s = do {
     (rv, _, s) \<leftarrow> can_be_granted r lkb False False False s;
     if rv then do {
       s \<leftarrow> grant_lock_pending env r lkb s;
       grant_wait_pass env r q high cw (count + 1) s
     }
     else do {
       l \<leftarrow> ls_lkbidr s lkb;
       grant_wait_pass env r q (max (lkb_rqmode l) high) (cw \<or> lkb_rqmode l = DLM_LOCK_CW) count s
     }
   }"

definition grant_pending_wait ::
  "dlm_env \<Rightarrow> rsbp \<Rightarrow> int \<Rightarrow> bool \<Rightarrow> nat \<Rightarrow> dlm_ls \<Rightarrow> (int \<times> bool \<times> nat \<times> dlm_ls) option" where
  "grant_pending_wait env r high cw count s = do {
     x \<leftarrow> ls_rsbs s r;
     grant_wait_pass env r (res_waitqueue x) high cw count s
   }"

section \<open>Blocking callbacks\<close>

definition lock_requires_bast :: "dlm_lkb \<Rightarrow> int \<Rightarrow> bool \<Rightarrow> bool option" where
  "lock_requires_bast gr high cw =
     (if lkb_grmode gr = DLM_LOCK_PR \<and> cw then Some (lkb_highbast gr < DLM_LOCK_EX)
      else if lkb_highbast gr < high
      then map_option Not (dlm_modes_compat (lkb_grmode gr) high)
      else Some False)"

fun bast_granted :: "dlm_env \<Rightarrow> rsbp \<Rightarrow> lkid list \<Rightarrow> int \<Rightarrow> bool \<Rightarrow> dlm_ls \<Rightarrow> dlm_ls option" where
  "bast_granted env r [] high cw s = Some s"
| "bast_granted env r (lkb # q) high cw s = do {
     l \<leftarrow> ls_lkbidr s lkb;
     b \<leftarrow> (if lkb_bastfn l \<noteq> None then lock_requires_bast l high cw else Some False);
     s \<leftarrow> (if b then do {
            s \<leftarrow> queue_bast env r lkb
                   (if cw \<and> high = DLM_LOCK_PR \<and> lkb_grmode l = DLM_LOCK_PR
                    then DLM_LOCK_CW else high) s;
            upd_lkb lkb (\<lambda>l. l\<lparr>lkb_highbast := high\<rparr>) s
          } else Some s);
     bast_granted env r q high cw s
   }"

text \<open>Returns \<open>*count\<close>.\<close>

definition grant_pending_locks ::
  "dlm_env \<Rightarrow> rsbp \<Rightarrow> nat \<Rightarrow> dlm_ls \<Rightarrow> (nat \<times> dlm_ls) option" where
  "grant_pending_locks env r count s = do {
     x \<leftarrow> ls_rsbs s r;
     if \<not> is_master env x then Some (count, s)
     else do {
       (high, cw, count, s) \<leftarrow> grant_pending_convert env r DLM_LOCK_IV False count s;
       (high, cw, count, s) \<leftarrow> grant_pending_wait env r high cw count s;
       if high = DLM_LOCK_IV then Some (count, s)
       else do {
         x \<leftarrow> ls_rsbs s r;
         s \<leftarrow> bast_granted env r (res_grantqueue x) high cw s;
         Some (count, s)
       }
     }
   }"

definition modes_require_bast :: "dlm_lkb \<Rightarrow> dlm_lkb \<Rightarrow> bool option" where
  "modes_require_bast gr rq =
     (if lkb_grmode gr = DLM_LOCK_PR \<and> lkb_rqmode rq = DLM_LOCK_CW
         \<or> lkb_grmode gr = DLM_LOCK_CW \<and> lkb_rqmode rq = DLM_LOCK_PR
      then Some (lkb_highbast gr < DLM_LOCK_EX)
      else if lkb_highbast gr < lkb_rqmode rq then map_option Not (modes_compat gr rq)
      else Some False)"

fun send_bast_queue :: "dlm_env \<Rightarrow> rsbp \<Rightarrow> lkid list \<Rightarrow> lkid \<Rightarrow> dlm_ls \<Rightarrow> dlm_ls option" where
  "send_bast_queue env r [] lkb s = Some s"
| "send_bast_queue env r (gr # q) lkb s =
     (if gr = lkb then send_bast_queue env r q lkb s
      else do {
        g \<leftarrow> ls_lkbidr s gr;
        l \<leftarrow> ls_lkbidr s lkb;
        b \<leftarrow> (if lkb_bastfn g \<noteq> None then modes_require_bast g l else Some False);
        s \<leftarrow> (if b then do {
               s \<leftarrow> queue_bast env r gr (lkb_rqmode l) s;
               upd_lkb gr (\<lambda>g. g\<lparr>lkb_highbast := lkb_rqmode l\<rparr>) s
             } else Some s);
        send_bast_queue env r q lkb s
      })"

definition send_blocking_asts :: "dlm_env \<Rightarrow> rsbp \<Rightarrow> lkid \<Rightarrow> dlm_ls \<Rightarrow> dlm_ls option" where
  "send_blocking_asts env r lkb s = do {
     x \<leftarrow> ls_rsbs s r;
     send_bast_queue env r (res_grantqueue x) lkb s
   }"

definition send_blocking_asts_all :: "dlm_env \<Rightarrow> rsbp \<Rightarrow> lkid \<Rightarrow> dlm_ls \<Rightarrow> dlm_ls option" where
  "send_blocking_asts_all env r lkb s = do {
     x \<leftarrow> ls_rsbs s r;
     s \<leftarrow> send_bast_queue env r (res_grantqueue x) lkb s;
     x \<leftarrow> ls_rsbs s r;
     send_bast_queue env r (res_convertqueue x) lkb s
   }"

end
