(* ===== verification/Requests.thy ===== *)
theory Requests
  imports Grant
begin

text \<open>
  The locking calls: \<open>dlm_lock\<close> and \<open>dlm_unlock\<close> (stage 1), \<open>request_lock\<close> and its three
  siblings (stage 2), \<open>_request_lock\<close> and its siblings, which work here or send to the master
  (stage 3), and \<open>do_request\<close> and its siblings, which the master runs (stage 4); the
  validation of arguments, and the resolution of a resource's master (\<open>set_master\<close>,
  \<open>confirm_master\<close>).
\<close>

section \<open>Stage 4: on the master\<close>

definition do_request :: "dlm_env \<Rightarrow> rsbp \<Rightarrow> lkid \<Rightarrow> dlm_ls \<Rightarrow> (int \<times> dlm_ls) option" where
  "do_request env r lkb s = do {
     (rv, _, s) \<leftarrow> can_be_granted r lkb True False False s;
     if rv then do {
       s \<leftarrow> grant_lock env r lkb s;
       s \<leftarrow> queue_cast lkb 0 s;
       Some (0, s)
     }
     else do {
       l \<leftarrow> ls_lkbidr s lkb;
       if can_be_queued l then do {
         s \<leftarrow> add_lkb env r lkb DLM_LKSTS_WAITING s;
         Some (-EINPROGRESS, s)
       }
       else do {
         s \<leftarrow> queue_cast lkb (-EAGAIN) s;
         Some (-EAGAIN, s)
       }
     }
   }"

definition do_request_effects :: "dlm_env \<Rightarrow> rsbp \<Rightarrow> lkid \<Rightarrow> int \<Rightarrow> dlm_ls \<Rightarrow> dlm_ls option" where
  "do_request_effects env r lkb error s =
     (if error = -EAGAIN then do {
        l \<leftarrow> ls_lkbidr s lkb;
        if force_blocking_asts l then send_blocking_asts_all env r lkb s else Some s
      }
      else if error = -EINPROGRESS then send_blocking_asts env r lkb s
      else Some s)"

definition do_convert :: "dlm_env \<Rightarrow> rsbp \<Rightarrow> lkid \<Rightarrow> dlm_ls \<Rightarrow> (int \<times> dlm_ls) option" where
  "do_convert env r lkb s = do {
     (rv, deadlk, s) \<leftarrow> can_be_granted r lkb True False True s;
     l \<leftarrow> ls_lkbidr s lkb;
     if rv then do {
       s \<leftarrow> grant_lock env r lkb s;
       s \<leftarrow> queue_cast lkb 0 s;
       Some (0, s)
     }
     else if deadlk \<noteq> 0 \<and> \<not> has_flag (lkb_exflags l) DLM_LKF_NODLCKWT then do {
       (_, s) \<leftarrow> revert_lock env r lkb s;
       s \<leftarrow> queue_cast lkb (-EDEADLK) s;
       Some (-EDEADLK, s)
     }
     else do {
       (again, s) \<leftarrow> (if is_demoted l then do {
            (_, _, _, s) \<leftarrow> grant_pending_convert env r DLM_LOCK_IV False 0 s;
            again \<leftarrow> us_can_be_granted r lkb True False s;
            Some (again, s)
          } else Some (False, s));
       l \<leftarrow> ls_lkbidr s lkb;
       if again then do {
         s \<leftarrow> grant_lock env r lkb s;
         s \<leftarrow> queue_cast lkb 0 s;
         Some (0, s)
       }
       else if can_be_queued l then do {
         s \<leftarrow> del_lkb r lkb s;
         s \<leftarrow> add_lkb env r lkb DLM_LKSTS_CONVERT s;
         Some (-EINPROGRESS, s)
       }
       else do {
         s \<leftarrow> queue_cast lkb (-EAGAIN) s;
         Some (-EAGAIN, s)
       }
     }
   }"

definition do_convert_effects :: "dlm_env \<Rightarrow> rsbp \<Rightarrow> lkid \<Rightarrow> int \<Rightarrow> dlm_ls \<Rightarrow> dlm_ls option" where
  "do_convert_effects env r lkb error s =
     (if error = 0 then map_option snd (grant_pending_locks env r 0 s)
      else if error = -EAGAIN then do {
        l \<leftarrow> ls_lkbidr s lkb;
        if force_blocking_asts l then send_blocking_asts_all env r lkb s else Some s
      }
      else if error = -EINPROGRESS then send_blocking_asts env r lkb s
      else Some s)"

definition do_unlock :: "dlm_env \<Rightarrow> rsbp \<Rightarrow> lkid \<Rightarrow> dlm_ls \<Rightarrow> (int \<times> dlm_ls) option" where
  "do_unlock env r lkb s = do {
     s \<leftarrow> remove_lock env r lkb s;
     s \<leftarrow> queue_cast lkb (-DLM_EUNLOCK) s;
     Some (-DLM_EUNLOCK, s)
   }"

definition do_unlock_effects :: "dlm_env \<Rightarrow> rsbp \<Rightarrow> lkid \<Rightarrow> int \<Rightarrow> dlm_ls \<Rightarrow> dlm_ls option" where
  "do_unlock_effects env r lkb error s = map_option snd (grant_pending_locks env r 0 s)"

definition do_cancel :: "dlm_env \<Rightarrow> rsbp \<Rightarrow> lkid \<Rightarrow> dlm_ls \<Rightarrow> (int \<times> dlm_ls) option" where
  "do_cancel env r lkb s = do {
     (error, s) \<leftarrow> revert_lock env r lkb s;
     if error \<noteq> 0 then do {
       s \<leftarrow> queue_cast lkb (-DLM_ECANCEL) s;
       Some (-DLM_ECANCEL, s)
     } else Some (0, s)
   }"

definition do_cancel_effects :: "dlm_env \<Rightarrow> rsbp \<Rightarrow> lkid \<Rightarrow> int \<Rightarrow> dlm_ls \<Rightarrow> dlm_ls option" where
  "do_cancel_effects env r lkb error s =
     (if error \<noteq> 0 then map_option snd (grant_pending_locks env r 0 s) else Some s)"

section \<open>The master of a resource\<close>

definition set_master :: "dlm_env \<Rightarrow> rsbp \<Rightarrow> lkid \<Rightarrow> dlm_ls \<Rightarrow> (int \<times> dlm_ls) option" where
  "set_master env r lkb s = do {
     x \<leftarrow> ls_rsbs s r;
     l \<leftarrow> ls_lkbidr s lkb;
     if rsb_flag x RSB_MASTER_UNCERTAIN then do {
       s \<leftarrow> upd_rsb r (\<lambda>x. rsb_clear_flag RSB_MASTER_UNCERTAIN (x\<lparr>res_first_lkid := lkb_id l\<rparr>)) s;
       s \<leftarrow> upd_lkb lkb (\<lambda>l. l\<lparr>lkb_nodeid := res_nodeid x\<rparr>) s;
       Some (0, s)
     }
     else if res_first_lkid x \<noteq> 0 \<and> res_first_lkid x \<noteq> lkb_id l then do {
       s \<leftarrow> upd_rsb r (\<lambda>x. x\<lparr>res_lookup := res_lookup x @ [lkb]\<rparr>) s;
       Some (1, s)
     }
     else if res_master_nodeid x = dlm_our_nodeid env \<and> res_nodeid x = -1 then do {
       s \<leftarrow> upd_rsb r (\<lambda>x. x\<lparr>res_nodeid := 0\<rparr>) s;
       s \<leftarrow> upd_lkb lkb (\<lambda>l. l\<lparr>lkb_nodeid := 0\<rparr>) s;
       (_, s) \<leftarrow> send_notify env r lkb s;
       Some (0, s)
     }
     else if res_master_nodeid x = dlm_our_nodeid env then do {
       s \<leftarrow> upd_lkb lkb (\<lambda>l. l\<lparr>lkb_nodeid := 0\<rparr>) s;
       Some (0, s)
     }
     else if res_master_nodeid x \<noteq> 0 then do {
       s \<leftarrow> upd_lkb lkb (\<lambda>l. l\<lparr>lkb_nodeid := res_master_nodeid x\<rparr>) s;
       Some (0, s)
     }
     else if dlm_dir_nodeid env x = dlm_our_nodeid env then do {
       s \<leftarrow> upd_rsb r (\<lambda>x. x\<lparr>res_master_nodeid := dlm_our_nodeid env, res_nodeid := 0\<rparr>) s;
       s \<leftarrow> upd_lkb lkb (\<lambda>l. l\<lparr>lkb_nodeid := 0\<rparr>) s;
       Some (0, s)
     }
     else do {
       s \<leftarrow> upd_rsb r (\<lambda>x. x\<lparr>res_first_lkid := lkb_id l\<rparr>) s;
       (_, s) \<leftarrow> send_lookup env r lkb s;
       Some (1, s)
     }
   }"

section \<open>Stage 3: here, or on the master\<close>

definition us_request_lock :: "dlm_env \<Rightarrow> rsbp \<Rightarrow> lkid \<Rightarrow> dlm_ls \<Rightarrow> (int \<times> dlm_ls) option" where
  "us_request_lock env r lkb s = do {
     (error, s) \<leftarrow> set_master env r lkb s;
     if error < 0 then Some (error, s)
     else if error \<noteq> 0 then Some (0, s)
     else do {
       x \<leftarrow> ls_rsbs s r;
       remote \<leftarrow> is_remote x;
       if remote then send_request env r lkb s
       else do {
         (error, s) \<leftarrow> do_request env r lkb s;
         s \<leftarrow> do_request_effects env r lkb error s;
         Some (error, s)
       }
     }
   }"

definition receive_flags_reply :: "dlm_message \<Rightarrow> bool \<Rightarrow> dlm_lkb \<Rightarrow> dlm_lkb" where
  "receive_flags_reply ms local lkb =
     (if local then lkb
      else dlm_set_dflags_val (m_flags ms) (dlm_set_sbflags_val (m_sbflags ms) lkb))"

definition demote_if :: "dlm_lkb \<Rightarrow> dlm_lkb" where
  "demote_if l = (if is_demoted l then munge_demoted l else l)"

definition us_us_receive_convert_reply ::
  "dlm_env \<Rightarrow> rsbp \<Rightarrow> lkid \<Rightarrow> dlm_message \<Rightarrow> bool \<Rightarrow> dlm_ls \<Rightarrow> dlm_ls option" where
  "us_us_receive_convert_reply env r lkb ms local s = (
     let result = from_dlm_errno env (s32 (m_result ms))
     in if result = -EAGAIN then queue_cast lkb (-EAGAIN) s
        else if result = -EDEADLK then do {
          s \<leftarrow> upd_lkb lkb (receive_flags_reply ms local) s;
          (_, s) \<leftarrow> revert_lock_pc env r lkb s;
          queue_cast lkb (-EDEADLK) s
        }
        else if result = -EINPROGRESS then do {
          s \<leftarrow> upd_lkb lkb (receive_flags_reply ms local) s;
          s \<leftarrow> upd_lkb lkb demote_if s;
          s \<leftarrow> del_lkb r lkb s;
          add_lkb env r lkb DLM_LKSTS_CONVERT s
        }
        else if result = 0 then do {
          s \<leftarrow> upd_lkb lkb (receive_flags_reply ms local) s;
          s \<leftarrow> upd_lkb lkb demote_if s;
          s \<leftarrow> grant_lock_pc env r lkb ms s;
          queue_cast lkb 0 s
        }
        else Some s)"

definition send_convert :: "dlm_env \<Rightarrow> rsbp \<Rightarrow> lkid \<Rightarrow> dlm_ls \<Rightarrow> (int \<times> dlm_ls) option" where
  "send_convert env r lkb s = do {
     (error, s) \<leftarrow> send_common env r lkb DLM_MSG_CONVERT s;
     l \<leftarrow> ls_lkbidr s lkb;
     if error = 0 \<and> down_conversion l then do {
       (_, s) \<leftarrow> remove_from_waiters lkb DLM_MSG_CONVERT_REPLY s;
       let ms = (ls_local_ms s)\<lparr>m_type := DLM_MSG_CONVERT_REPLY, m_result := 0\<rparr>;
       let s = s\<lparr>ls_local_ms := ms\<rparr>;
       s \<leftarrow> us_us_receive_convert_reply env r lkb ms True s;
       Some (error, s)
     } else Some (error, s)
   }"

definition us_convert_lock :: "dlm_env \<Rightarrow> rsbp \<Rightarrow> lkid \<Rightarrow> dlm_ls \<Rightarrow> (int \<times> dlm_ls) option" where
  "us_convert_lock env r lkb s = do {
     x \<leftarrow> ls_rsbs s r;
     remote \<leftarrow> is_remote x;
     if remote then send_convert env r lkb s
     else do {
       (error, s) \<leftarrow> do_convert env r lkb s;
       s \<leftarrow> do_convert_effects env r lkb error s;
       Some (error, s)
     }
   }"

definition us_unlock_lock :: "dlm_env \<Rightarrow> rsbp \<Rightarrow> lkid \<Rightarrow> dlm_ls \<Rightarrow> (int \<times> dlm_ls) option" where
  "us_unlock_lock env r lkb s = do {
     x \<leftarrow> ls_rsbs s r;
     remote \<leftarrow> is_remote x;
     if remote then send_unlock env r lkb s
     else do {
       (error, s) \<leftarrow> do_unlock env r lkb s;
       s \<leftarrow> do_unlock_effects env r lkb error s;
       Some (error, s)
     }
   }"

definition us_cancel_lock :: "dlm_env \<Rightarrow> rsbp \<Rightarrow> lkid \<Rightarrow> dlm_ls \<Rightarrow> (int \<times> dlm_ls) option" where
  "us_cancel_lock env r lkb s = do {
     x \<leftarrow> ls_rsbs s r;
     remote \<leftarrow> is_remote x;
     if remote then send_cancel env r lkb s
     else do {
       (error, s) \<leftarrow> do_cancel env r lkb s;
       s \<leftarrow> do_cancel_effects env r lkb error s;
       Some (error, s)
     }
   }"

section \<open>Confirming the master\<close>

text \<open>\<open>next\<close> of a list entry: \<open>None\<close> is the list head; an entry taken off the list with
  \<open>list_del_init\<close> points at itself.\<close>

fun list_next :: "'a \<Rightarrow> 'a list \<Rightarrow> 'a option" where
  "list_next k [] = Some k"
| "list_next k (x # xs) =
     (if x = k then (case xs of [] \<Rightarrow> None | y # _ \<Rightarrow> Some y) else list_next k xs)"

text \<open>\<open>list_for_each_entry_safe\<close> over \<open>res_lookup\<close>: the body takes the current entry off the
  list, and \<open>_request_lock\<close> may put it back at the tail. The loop's state is the current
  entry, the saved next one, and the lockspace.\<close>

definition process_lookup_step ::
  "dlm_env \<Rightarrow> rsbp \<Rightarrow> lkid option \<times> lkid option \<times> dlm_ls \<Rightarrow>
   (lkid option \<times> lkid option \<times> dlm_ls, dlm_ls) pass option"
where
  "process_lookup_step env r = (\<lambda>(pos, n, s).
     (case pos of
        None \<Rightarrow> Some (Done s)
      | Some lkb \<Rightarrow> do {
          s \<leftarrow> upd_rsb r (\<lambda>x. x\<lparr>res_lookup := remove1 lkb (res_lookup x)\<rparr>) s;
          (_, s) \<leftarrow> us_request_lock env r lkb s;
          x \<leftarrow> ls_rsbs s r;
          Some (Retry (n, (case n of None \<Rightarrow> None | Some k \<Rightarrow> list_next k (res_lookup x)), s))
        }))"

definition process_lookup_list :: "dlm_env \<Rightarrow> rsbp \<Rightarrow> dlm_ls \<Rightarrow> dlm_ls option" where
  "process_lookup_list env r s = do {
     x \<leftarrow> ls_rsbs s r;
     (case res_lookup x of
        [] \<Rightarrow> Some s
      | k # q \<Rightarrow> retry (process_lookup_step env r) (Some k, list_next k (k # q), s))
   }"

definition confirm_master :: "dlm_env \<Rightarrow> rsbp \<Rightarrow> int \<Rightarrow> dlm_ls \<Rightarrow> dlm_ls option" where
  "confirm_master env r error s = do {
     x \<leftarrow> ls_rsbs s r;
     if res_first_lkid x = 0 then Some s
     else if error = 0 \<or> error = -EINPROGRESS then do {
       s \<leftarrow> upd_rsb r (\<lambda>x. x\<lparr>res_first_lkid := 0\<rparr>) s;
       process_lookup_list env r s
     }
     else if error = -EAGAIN \<or> error = -EBADR \<or> error = -ENOTBLK then do {
       s \<leftarrow> upd_rsb r (\<lambda>x. x\<lparr>res_first_lkid := 0\<rparr>) s;
       (case res_lookup x of
          [] \<Rightarrow> Some s
        | lkb # q \<Rightarrow> do {
            l \<leftarrow> ls_lkbidr s lkb;
            s \<leftarrow> upd_rsb r (\<lambda>x. x\<lparr>res_lookup := q, res_first_lkid := lkb_id l\<rparr>) s;
            (_, s) \<leftarrow> us_request_lock env r lkb s;
            Some s
          })
     }
     else Some s
   }"

section \<open>Arguments\<close>

definition zero_args :: dlm_args where
  "zero_args = \<lparr>arg_flags = 0, arg_astfn = None, arg_astparam = 0, arg_bastfn = None,
     arg_mode = 0, arg_lksb = None\<rparr>"

text \<open>The error and \<open>*args\<close>.\<close>

definition set_lock_args ::
  "int \<Rightarrow> lksbp option \<Rightarrow> u32 \<Rightarrow> nat \<Rightarrow> fnptr option \<Rightarrow> nat \<Rightarrow> fnptr option \<Rightarrow> dlm_ls \<Rightarrow>
   int \<times> dlm_args"
where
  "set_lock_args mode lksb flags namelen ast astparam bast s =
     (if mode < 0 \<or> mode > DLM_LOCK_EX then (-EINVAL, zero_args)
      else if \<not> has_flag flags DLM_LKF_CONVERT \<and> namelen > DLM_RESNAME_MAXLEN then (-EINVAL, zero_args)
      else if has_flag flags DLM_LKF_CANCEL then (-EINVAL, zero_args)
      else if has_flag flags DLM_LKF_QUECVT \<and> \<not> has_flag flags DLM_LKF_CONVERT then (-EINVAL, zero_args)
      else if has_flag flags DLM_LKF_CONVDEADLK \<and> \<not> has_flag flags DLM_LKF_CONVERT then (-EINVAL, zero_args)
      else if has_flag flags DLM_LKF_CONVDEADLK \<and> has_flag flags DLM_LKF_NOQUEUE then (-EINVAL, zero_args)
      else if has_flag flags DLM_LKF_EXPEDITE \<and> has_flag flags DLM_LKF_CONVERT then (-EINVAL, zero_args)
      else if has_flag flags DLM_LKF_EXPEDITE \<and> has_flag flags DLM_LKF_QUECVT then (-EINVAL, zero_args)
      else if has_flag flags DLM_LKF_EXPEDITE \<and> has_flag flags DLM_LKF_NOQUEUE then (-EINVAL, zero_args)
      else if has_flag flags DLM_LKF_EXPEDITE \<and> mode \<noteq> DLM_LOCK_NL then (-EINVAL, zero_args)
      else (case (ast, lksb) of
         (Some _, Some p) \<Rightarrow>
           if has_flag flags DLM_LKF_VALBLK \<and> sb_lvbptr (ls_lksbs s p) = None then (-EINVAL, zero_args)
           else if has_flag flags DLM_LKF_CONVERT \<and> sb_lkid (ls_lksbs s p) = 0 then (-EINVAL, zero_args)
           else (0, \<lparr>arg_flags = flags, arg_astfn = ast, arg_astparam = astparam,
                     arg_bastfn = bast, arg_mode = mode, arg_lksb = lksb\<rparr>)
       | _ \<Rightarrow> (-EINVAL, zero_args)))"

definition set_unlock_args :: "u32 \<Rightarrow> nat \<Rightarrow> int \<times> dlm_args" where
  "set_unlock_args flags astarg =
     (if flags AND NOT (DLM_LKF_CANCEL OR DLM_LKF_VALBLK OR DLM_LKF_IVVALBLK OR
                        DLM_LKF_FORCEUNLOCK) \<noteq> 0 then (-EINVAL, zero_args)
      else if has_flag flags DLM_LKF_CANCEL \<and> has_flag flags DLM_LKF_FORCEUNLOCK
      then (-EINVAL, zero_args)
      else (0, zero_args\<lparr>arg_flags := flags, arg_astparam := astarg\<rparr>))"

definition validate_lock_args ::
  "dlm_env \<Rightarrow> lkid \<Rightarrow> dlm_args \<Rightarrow> dlm_ls \<Rightarrow> (int \<times> dlm_ls) option" where
  "validate_lock_args env lkb args s = do {
     l \<leftarrow> ls_lkbidr s lkb;
     let convert = has_flag (arg_flags args) DLM_LKF_CONVERT;
     if lkb_wait_type l = DLM_MSG_NOTIFY then Some (0, s)
     else if convert \<and> lkb_status l \<noteq> DLM_LKSTS_GRANTED then Some (-EBUSY, s)
     else if convert \<and> (lkb_wait_type l \<noteq> 0 \<or> lkb_wait_count l \<noteq> 0) then Some (-EBUSY, s)
     else if convert \<and> is_overlap l then Some (-EBUSY, s)
     else if convert \<and> iflag l DLM_IFL_MSTCPY_BIT then Some (-EINVAL, s)
     else do {
       q \<leftarrow> (if convert \<and> has_flag (arg_flags args) DLM_LKF_QUECVT
            then quecvt_compat (lkb_grmode l) (arg_mode args) else Some True);
       if \<not> q then Some (-EINVAL, s)
       else do {
         p \<leftarrow> arg_lksb args;
         s \<leftarrow> upd_lkb lkb (\<lambda>l. (dlm_set_sbflags_val 0 (l\<lparr>lkb_exflags := arg_flags args\<rparr>))
                \<lparr>lkb_astfn := arg_astfn args, lkb_astparam := arg_astparam args,
                 lkb_bastfn := arg_bastfn args, lkb_rqmode := arg_mode args,
                 lkb_lksb := Some p, lkb_lvbptr := sb_lvbptr (ls_lksbs s p),
                 lkb_ownpid := current_pid env\<rparr>) s;
         Some (0, s)
       }
     }
   }"

text \<open>The label \<open>out_ok\<close> of \<open>validate_unlock_args\<close>.\<close>

definition unlock_args_ok :: "lkid \<Rightarrow> dlm_args \<Rightarrow> dlm_ls \<Rightarrow> (int \<times> dlm_ls) option" where
  "unlock_args_ok lkb args s = do {
     s \<leftarrow> upd_lkb lkb (\<lambda>l. (dlm_set_sbflags_val 0
            (l\<lparr>lkb_exflags := lkb_exflags l OR arg_flags args\<rparr>))
            \<lparr>lkb_astparam := arg_astparam args\<rparr>) s;
     Some (0, s)
   }"

definition validate_unlock_args :: "lkid \<Rightarrow> dlm_args \<Rightarrow> dlm_ls \<Rightarrow> (int \<times> dlm_ls) option" where
  "validate_unlock_args lkb args s = do {
     l \<leftarrow> ls_lkbidr s lkb;
     r \<leftarrow> lkb_resource l;
     x \<leftarrow> ls_rsbs s r;
     let cancel = has_flag (arg_flags args) DLM_LKF_CANCEL;
     let forceunlock = has_flag (arg_flags args) DLM_LKF_FORCEUNLOCK;
     if lkb_wait_type l = DLM_MSG_NOTIFY then Some (0, s)
     else if \<not> (cancel \<or> forceunlock) \<and> (lkb_wait_type l \<noteq> 0 \<or> lkb_wait_count l \<noteq> 0)
     then Some (-EBUSY, s)
     else if lkb \<in> set (res_lookup x) then (
       if cancel \<or> forceunlock then do {
         s \<leftarrow> upd_rsb r (\<lambda>x. x\<lparr>res_lookup := remove1 lkb (res_lookup x)\<rparr>) s;
         s \<leftarrow> queue_cast lkb (if cancel then -DLM_ECANCEL else -DLM_EUNLOCK) s;
         s \<leftarrow> unhold_lkb lkb s;
         Some (-EBUSY, s)
       } else Some (-EBUSY, s))
     else if iflag l DLM_IFL_MSTCPY_BIT then Some (-EINVAL, s)
     else if iflag l DLM_IFL_ENDOFLIFE_BIT then Some (-ENOENT, s)
     else if cancel then (
       if has_flag (lkb_exflags l) DLM_LKF_CANCEL then Some (-EINVAL, s)
       else if is_overlap l then Some (-EINVAL, s)
       else if iflag l DLM_IFL_RESEND_BIT then do {
         s \<leftarrow> upd_lkb lkb (set_iflag DLM_IFL_OVERLAP_CANCEL_BIT) s;
         Some (-EBUSY, s)
       }
       else if lkb_status l = DLM_LKSTS_GRANTED \<and> lkb_wait_type l = 0 then Some (-EBUSY, s)
       else if lkb_wait_type l = DLM_MSG_LOOKUP \<or> lkb_wait_type l = DLM_MSG_REQUEST then do {
         s \<leftarrow> upd_lkb lkb (set_iflag DLM_IFL_OVERLAP_CANCEL_BIT) s;
         Some (-EBUSY, s)
       }
       else if lkb_wait_type l = DLM_MSG_UNLOCK \<or> lkb_wait_type l = DLM_MSG_CANCEL
       then Some (-EINVAL, s)
       else unlock_args_ok lkb args s)
     else if forceunlock then (
       if has_flag (lkb_exflags l) DLM_LKF_FORCEUNLOCK then Some (-EINVAL, s)
       else if is_overlap_unlock l then Some (-EINVAL, s)
       else if iflag l DLM_IFL_RESEND_BIT then do {
         s \<leftarrow> upd_lkb lkb (set_iflag DLM_IFL_OVERLAP_UNLOCK_BIT) s;
         Some (-EBUSY, s)
       }
       else if lkb_wait_type l = DLM_MSG_LOOKUP \<or> lkb_wait_type l = DLM_MSG_REQUEST then do {
         s \<leftarrow> upd_lkb lkb (set_iflag DLM_IFL_OVERLAP_UNLOCK_BIT) s;
         Some (-EBUSY, s)
       }
       else if lkb_wait_type l = DLM_MSG_UNLOCK then Some (-EINVAL, s)
       else unlock_args_ok lkb args s)
     else unlock_args_ok lkb args s
   }"

section \<open>Stage 2\<close>

definition request_lock ::
  "dlm_env \<Rightarrow> lkid \<Rightarrow> u8 list \<Rightarrow> nat \<Rightarrow> dlm_args \<Rightarrow> dlm_ls \<Rightarrow> (int \<times> dlm_ls) option" where
  "request_lock env lkb name len args s = do {
     (error, s) \<leftarrow> validate_lock_args env lkb args s;
     if error \<noteq> 0 then Some (error, s)
     else do {
       (error, r, s) \<leftarrow> find_rsb env name len 0
         (if has_flag (arg_flags args) DLM_LKF_NOTIFY then R_REQUEST OR R_NOTIFY else R_REQUEST) s;
       if error \<noteq> 0 then Some (error, s)
       else do {
         r \<leftarrow> r;
         s \<leftarrow> attach_lkb r lkb s;
         l \<leftarrow> ls_lkbidr s lkb;
         p \<leftarrow> lkb_lksb l;
         let s = s\<lparr>ls_lksbs := (ls_lksbs s)(p := (ls_lksbs s p)\<lparr>sb_lkid := lkb_id l\<rparr>)\<rparr>;
         (error, s) \<leftarrow> us_request_lock env r lkb s;
         s \<leftarrow> put_rsb env r s;
         Some (error, s)
       }
     }
   }"

definition convert_lock ::
  "dlm_env \<Rightarrow> lkid \<Rightarrow> dlm_args \<Rightarrow> dlm_ls \<Rightarrow> (int \<times> dlm_ls) option" where
  "convert_lock env lkb args s = do {
     l \<leftarrow> ls_lkbidr s lkb;
     r \<leftarrow> lkb_resource l;
     s \<leftarrow> hold_rsb r s;
     (error, s) \<leftarrow> validate_lock_args env lkb args s;
     (error, s) \<leftarrow> (if error \<noteq> 0 then Some (error, s) else us_convert_lock env r lkb s);
     s \<leftarrow> put_rsb env r s;
     Some (error, s)
   }"

text \<open>\<open>unlock_lock\<close> first sleeps until the lock has no child waiting for a notify reply. With
  children left, the sleep ends here only by a signal; otherwise the call does not return
  (\<open>None\<close>), until a reply, another step, has removed the child.\<close>

definition wait_children :: "dlm_env \<Rightarrow> dlm_lkb \<Rightarrow> int option" where
  "wait_children env l =
     (if lkb_total_children l = 0 then Some 0
      else if signal_pending env then Some (-ERESTARTSYS) else None)"

definition unlock_lock ::
  "dlm_env \<Rightarrow> lkid \<Rightarrow> dlm_args \<Rightarrow> dlm_ls \<Rightarrow> (int \<times> dlm_ls) option" where
  "unlock_lock env lkb args s = do {
     l \<leftarrow> ls_lkbidr s lkb;
     error \<leftarrow> wait_children env l;
     if error \<noteq> 0 then Some (error, s)
     else do {
       r \<leftarrow> lkb_resource l;
       s \<leftarrow> hold_rsb r s;
       (error, s) \<leftarrow> validate_unlock_args lkb args s;
       (error, s) \<leftarrow> (if error \<noteq> 0 then Some (error, s) else us_unlock_lock env r lkb s);
       s \<leftarrow> put_rsb env r s;
       Some (error, s)
     }
   }"

definition cancel_lock ::
  "dlm_env \<Rightarrow> lkid \<Rightarrow> dlm_args \<Rightarrow> dlm_ls \<Rightarrow> (int \<times> dlm_ls) option" where
  "cancel_lock env lkb args s = do {
     l \<leftarrow> ls_lkbidr s lkb;
     r \<leftarrow> lkb_resource l;
     s \<leftarrow> hold_rsb r s;
     (error, s) \<leftarrow> validate_unlock_args lkb args s;
     (error, s) \<leftarrow> (if error \<noteq> 0 then Some (error, s) else us_cancel_lock env r lkb s);
     s \<leftarrow> put_rsb env r s;
     Some (error, s)
   }"

section \<open>Stage 1\<close>

text \<open>\<open>dlm_lock\<close> and \<open>dlm_unlock\<close> on the lockspace the handle names.\<close>

definition dlm_lock ::
  "dlm_env \<Rightarrow> int \<Rightarrow> lksbp option \<Rightarrow> u32 \<Rightarrow> u8 list \<Rightarrow> nat \<Rightarrow> u32 \<Rightarrow> fnptr option \<Rightarrow> nat \<Rightarrow>
   fnptr option \<Rightarrow> dlm_ls \<Rightarrow> (int \<times> dlm_ls) option"
where
  "dlm_lock env mode lksb flags name namelen parent_lkid ast astarg bast s = do {
     let convert = has_flag flags DLM_LKF_CONVERT;
     (error, lkb, s) \<leftarrow> (if convert then do {
          p \<leftarrow> lksb;
          let k = sb_lkid (ls_lksbs s p);
          Some (case find_lkb k s of None \<Rightarrow> (-ENOENT, None, s) | Some s \<Rightarrow> (0, Some k, s))
        } else Some (create_lkb env s));
     if error \<noteq> 0 then Some (error, s)
     else do {
       lkb \<leftarrow> lkb;
       let (error, args) = set_lock_args mode lksb flags namelen ast astarg bast s;
       (error, s) \<leftarrow> (if error \<noteq> 0 then Some (error, s)
          else do {
            s \<leftarrow> (if has_flag flags DLM_LKF_NOTIFY
                 then upd_lkb lkb (\<lambda>l. l\<lparr>lkb_parent_lkid := parent_lkid\<rparr>) s else Some s);
            (error, s) \<leftarrow> (if convert then convert_lock env lkb args s
                          else request_lock env lkb name namelen args s);
            Some (if error = -EINPROGRESS then 0 else error, s)
          });
       s \<leftarrow> (if convert \<or> error \<noteq> 0 then map_option snd (us_put_lkb env lkb s) else Some s);
       Some (if error = -EAGAIN \<or> error = -EDEADLK then 0 else error, s)
     }
   }"

definition dlm_unlock ::
  "dlm_env \<Rightarrow> lkid \<Rightarrow> u32 \<Rightarrow> nat \<Rightarrow> dlm_ls \<Rightarrow> (int \<times> dlm_ls) option" where
  "dlm_unlock env lkid flags astarg s =
     (case find_lkb lkid s of
        None \<Rightarrow> Some (-ENOENT, s)
      | Some s \<Rightarrow> do {
          let (error, args) = set_unlock_args flags astarg;
          (error, s) \<leftarrow> (if error \<noteq> 0 then Some (error, s)
             else do {
               (error, s) \<leftarrow> (if has_flag flags DLM_LKF_CANCEL then cancel_lock env lkid args s
                             else unlock_lock env lkid args s);
               let error = (if error = -DLM_EUNLOCK \<or> error = -DLM_ECANCEL then 0 else error);
               let error = (if error = -EBUSY \<and>
                  (has_flag flags DLM_LKF_CANCEL \<or> has_flag flags DLM_LKF_FORCEUNLOCK)
                  then 0 else error);
               Some (error, s)
             });
          (_, s) \<leftarrow> dlm_put_lkb env lkid s;
          Some (error, s)
        })"

end
