(* ===== verification/Gfs2_Types.thy ===== *)
theory Gfs2_Types
  imports Requests
begin

text \<open>
  The data of the GFS2 glock layer (\<open>fs/gfs2/incore.h\<close>, \<open>fs/gfs2/glock.h\<close>), a client of the lock
  manager: a glock caches one lock of the lock manager for all the processes of this node, its
  holders are the requests of those processes. Glocks and holders are reached by address through
  the state \<open>gfs2\<close> of the mounted file system, which contains the lockspace it uses. \<open>gfs2_env\<close>
  holds what \<open>glock.c\<close> and \<open>lock_dlm.c\<close> call but this repository does not hold.
\<close>

section \<open>Constants\<close>

text \<open>The states of a glock, \<open>LM_ST_UNLOCKED\<close> to \<open>LM_ST_SHARED\<close>: the glock keeps them in fields of two
  bits, whose four values they are.\<close>

datatype lm_state = LM_ST_UNLOCKED | LM_ST_EXCLUSIVE | LM_ST_DEFERRED | LM_ST_SHARED

definition lm_code :: "lm_state \<Rightarrow> u32" where
  "lm_code st = (case st of LM_ST_UNLOCKED \<Rightarrow> 0 | LM_ST_EXCLUSIVE \<Rightarrow> 1 | LM_ST_DEFERRED \<Rightarrow> 2 | LM_ST_SHARED \<Rightarrow> 3)"

text \<open>\<open>ret & LM_OUT_ST_MASK\<close>.\<close>

definition lm_out_state :: "u32 \<Rightarrow> lm_state" where
  "lm_out_state ret = (let w = ret AND 3 in
     if w = 0 then LM_ST_UNLOCKED else if w = 1 then LM_ST_EXCLUSIVE
     else if w = 2 then LM_ST_DEFERRED else LM_ST_SHARED)"

abbreviation (input) LM_FLAG_TRY :: u32 where "LM_FLAG_TRY \<equiv> 0x1"
abbreviation (input) LM_FLAG_TRY_1CB :: u32 where "LM_FLAG_TRY_1CB \<equiv> 0x2"
abbreviation (input) LM_FLAG_NOEXP :: u32 where "LM_FLAG_NOEXP \<equiv> 0x4"
abbreviation (input) LM_FLAG_ANY :: u32 where "LM_FLAG_ANY \<equiv> 0x8"
abbreviation (input) LM_FLAG_NOTIFY :: u32 where "LM_FLAG_NOTIFY \<equiv> 0x10"
abbreviation (input) LM_FLAG_NODE_SCOPE :: u32 where "LM_FLAG_NODE_SCOPE \<equiv> 0x20"
abbreviation (input) GL_ASYNC :: u32 where "GL_ASYNC \<equiv> 0x40"
abbreviation (input) GL_EXACT :: u32 where "GL_EXACT \<equiv> 0x80"
abbreviation (input) GL_SKIP :: u32 where "GL_SKIP \<equiv> 0x100"
abbreviation (input) GL_NOPID :: u32 where "GL_NOPID \<equiv> 0x200"
abbreviation (input) GL_NOCACHE :: u32 where "GL_NOCACHE \<equiv> 0x400"

abbreviation (input) LM_OUT_CANCELED :: u32 where "LM_OUT_CANCELED \<equiv> 0x8"
abbreviation (input) LM_OUT_ERROR :: u32 where "LM_OUT_ERROR \<equiv> 0x4"
abbreviation (input) LM_RD_GAVEUP :: u32 where "LM_RD_GAVEUP \<equiv> 308"
abbreviation (input) LM_RD_SUCCESS :: u32 where "LM_RD_SUCCESS \<equiv> 309"
abbreviation (input) GLR_TRYFAILED :: int where "GLR_TRYFAILED \<equiv> 13"

abbreviation (input) LM_TYPE_NONDISK :: u32 where "LM_TYPE_NONDISK \<equiv> 1"
abbreviation (input) LM_TYPE_INODE :: u32 where "LM_TYPE_INODE \<equiv> 2"
abbreviation (input) LM_TYPE_IOPEN :: u32 where "LM_TYPE_IOPEN \<equiv> 5"
abbreviation (input) LM_TYPE_FLOCK :: u32 where "LM_TYPE_FLOCK \<equiv> 6"

abbreviation (input) GLOF_LVB :: u32 where "GLOF_LVB \<equiv> 2"
abbreviation (input) GLOF_LRU :: u32 where "GLOF_LRU \<equiv> 4"
abbreviation (input) GLOF_NONDISK :: u32 where "GLOF_NONDISK \<equiv> 8"

abbreviation (input) GLF_LOCK :: nat where "GLF_LOCK \<equiv> 1"
abbreviation (input) GLF_INSTANTIATE_NEEDED :: nat where "GLF_INSTANTIATE_NEEDED \<equiv> 2"
abbreviation (input) GLF_DEMOTE :: nat where "GLF_DEMOTE \<equiv> 3"
abbreviation (input) GLF_PENDING_DEMOTE :: nat where "GLF_PENDING_DEMOTE \<equiv> 4"
abbreviation (input) GLF_DEMOTE_IN_PROGRESS :: nat where "GLF_DEMOTE_IN_PROGRESS \<equiv> 5"
abbreviation (input) GLF_LFLUSH :: nat where "GLF_LFLUSH \<equiv> 7"
abbreviation (input) GLF_INVALIDATE_IN_PROGRESS :: nat where "GLF_INVALIDATE_IN_PROGRESS \<equiv> 8"
abbreviation (input) GLF_REPLY_PENDING :: nat where "GLF_REPLY_PENDING \<equiv> 9"
abbreviation (input) GLF_INITIAL :: nat where "GLF_INITIAL \<equiv> 10"
abbreviation (input) GLF_FROZEN :: nat where "GLF_FROZEN \<equiv> 11"
abbreviation (input) GLF_INSTANTIATE_IN_PROG :: nat where "GLF_INSTANTIATE_IN_PROG \<equiv> 12"
abbreviation (input) GLF_LRU :: nat where "GLF_LRU \<equiv> 13"
abbreviation (input) GLF_BLOCKING :: nat where "GLF_BLOCKING \<equiv> 15"
abbreviation (input) GLF_TRY_TO_EVICT :: nat where "GLF_TRY_TO_EVICT \<equiv> 17"
abbreviation (input) GLF_VERIFY_EVICT :: nat where "GLF_VERIFY_EVICT \<equiv> 18"

abbreviation (input) HIF_HOLDER :: nat where "HIF_HOLDER \<equiv> 6"
abbreviation (input) HIF_WAIT :: nat where "HIF_WAIT \<equiv> 10"

abbreviation (input) DFL_BLOCK_LOCKS :: nat where "DFL_BLOCK_LOCKS \<equiv> 0"
abbreviation (input) DFL_NO_DLM_OPS :: nat where "DFL_NO_DLM_OPS \<equiv> 1"
abbreviation (input) DFL_FIRST_MOUNT :: nat where "DFL_FIRST_MOUNT \<equiv> 2"
abbreviation (input) DFL_FIRST_MOUNT_DONE :: nat where "DFL_FIRST_MOUNT_DONE \<equiv> 3"
abbreviation (input) DFL_MOUNT_DONE :: nat where "DFL_MOUNT_DONE \<equiv> 4"
abbreviation (input) DFL_UNMOUNT :: nat where "DFL_UNMOUNT \<equiv> 5"
abbreviation (input) DFL_DLM_RECOVERY :: nat where "DFL_DLM_RECOVERY \<equiv> 6"

abbreviation (input) SDF_NOJOURNALID :: nat where "SDF_NOJOURNALID \<equiv> 6"
abbreviation (input) SDF_SKIP_DLM_UNLOCK :: nat where "SDF_SKIP_DLM_UNLOCK \<equiv> 8"
abbreviation (input) SDF_REMOTE_WITHDRAW :: nat where "SDF_REMOTE_WITHDRAW \<equiv> 13"
abbreviation (input) SDF_WITHDRAW_RECOVERY :: nat where "SDF_WITHDRAW_RECOVERY \<equiv> 14"

abbreviation (input) GFS2_LKS_SRTT :: nat where "GFS2_LKS_SRTT \<equiv> 0"
abbreviation (input) GFS2_LKS_SRTTB :: nat where "GFS2_LKS_SRTTB \<equiv> 2"
abbreviation (input) GFS2_LKS_SIRT :: nat where "GFS2_LKS_SIRT \<equiv> 4"
abbreviation (input) GFS2_LKS_DCOUNT :: nat where "GFS2_LKS_DCOUNT \<equiv> 6"
abbreviation (input) GFS2_LKS_QCOUNT :: nat where "GFS2_LKS_QCOUNT \<equiv> 7"

abbreviation (input) GDLM_STRNAME_BYTES :: nat where "GDLM_STRNAME_BYTES \<equiv> 25"
abbreviation (input) GDLM_LVB_SIZE :: nat where "GDLM_LVB_SIZE \<equiv> 32"

section \<open>Glocks and holders\<close>

type_synonym glp = nat     \<comment> \<open>the address of a \<open>struct gfs2_glock\<close>\<close>
type_synonym ghp = nat     \<comment> \<open>the address of a \<open>struct gfs2_holder\<close>\<close>

text \<open>The operations of a type of glock live in \<open>glops.c\<close>, outside this repository: whether they
  exist and what they answer on which call. \<open>go_callback\<close> and \<open>go_free\<close>, which may change the
  glock, are in the environment.\<close>

record gfs2_glock_operations =
  go_sync :: "(nat \<Rightarrow> int) option"
  go_xmote_bh :: "(nat \<Rightarrow> int) option"
  go_inval :: bool
  go_demote_ok :: "(nat \<Rightarrow> bool) option"
  go_instantiate :: "(nat \<Rightarrow> int) option"
  go_held :: "(nat \<Rightarrow> int) option"
  go_type :: u32
  go_flags :: u32

text \<open>\<open>gl_count\<close> and \<open>gl_dead\<close> are the two parts of \<open>gl_lockref\<close>, \<open>gl_stats\<close> the eight counters.\<close>

record gfs2_glock =
  gl_flags :: u64
  gl_ln_number :: u64
  gl_ln_type :: u32
  gl_count :: int
  gl_dead :: bool
  gl_state :: lm_state
  gl_target :: lm_state
  gl_demote_state :: lm_state
  gl_req :: lm_state
  gl_reply :: u8
  gl_demote_time :: u64
  gl_hold_time :: int
  gl_holders :: "ghp list"
  gl_ops :: gfs2_glock_operations
  gl_dstamp :: u64
  gl_stats :: "u64 list"
  gl_lksb :: lksbp
  gl_tchange :: u64
  gl_object :: "nat option"
  gl_ail_count :: int
  gl_revokes :: int
  gl_parent_lkid :: u32

text \<open>\<open>gh_flags\<close> has 16 bits in the code; its flags are tested in words of 32.\<close>

record gfs2_holder =
  gh_gl :: "glp option"
  gh_owner_pid :: "nat option"
  gh_flags :: u32
  gh_state :: lm_state
  gh_error :: int
  gh_iflags :: u64

section \<open>The file system\<close>

text \<open>The part of the superblock \<open>lock_dlm.c\<close> owns. \<open>ls_dlm_set\<close> tells whether \<open>ls_dlm\<close> is set, \<open>ls_ops_dlm\<close>
  whether the operations in use are \<open>gfs2_dlm_ops\<close> (else the file system is mounted without a
  cluster and has neither \<open>lm_lock\<close> nor \<open>lm_cancel\<close>). The status blocks and the value block inside the
  structure are its addresses in the lockspace, which writes them. \<open>ls_recover_size\<close> is the length
  of the two arrays.\<close>

record lm_lockstruct =
  ls_jid :: int
  ls_first :: bool
  ls_ops_dlm :: bool
  ls_dlm_set :: bool
  ls_mounted_lksb :: lksbp
  ls_control_lksb :: lksbp
  ls_control_lvb :: bufp
  ls_lvb_bits :: "u8 list option"
  ls_recover_flags :: u64
  ls_recover_mount :: u32
  ls_recover_start :: u32
  ls_recover_block :: u32
  ls_recover_submit :: "u32 list"
  ls_recover_result :: "u32 list"

text \<open>\<open>gs_work\<close> is the delay with which the work of a glock is queued, \<open>gs_tick\<close> counts the calls of
  external functions, \<open>sd_jdesc\<close> is the address of this node's journal on disk, \<open>sd_jindex\<close> the ids of
  all journals. \<open>gs_control_work\<close> is the delay with which \<open>sd_control_work\<close> is queued,
  \<open>gs_recover_set\<close> the journals whose recovery has been asked for, last first.\<close>

record gfs2 =
  gs_glocks :: "glp \<Rightarrow> gfs2_glock option"
  gs_holders :: "ghp \<Rightarrow> gfs2_holder option"
  gs_work :: "glp \<Rightarrow> u64 option"
  gs_delete_work :: "glp \<Rightarrow> bool"
  gl_hash_table :: "glp list"
  lru_list :: "glp list"
  lru_count :: int
  sd_flags :: u64
  sd_log_error :: int
  sd_glock_disposal :: int
  sd_glock_dqs_held :: nat
  sd_jdesc :: "u64 option"
  sd_jinode_gl :: "glp option"
  sd_statfs_gl :: "glp option"
  sd_lkstats :: "u32 \<Rightarrow> u64 list"
  sd_lockstruct :: lm_lockstruct
  sd_spectator :: bool
  sd_jindex :: "int list"
  gs_control_work :: "u64 option"
  gs_recover_set :: "nat list"
  gs_dlm :: dlm_ls
  gs_tick :: nat

record gfs2_env =
  g_dlm :: dlm_env
  gfs2_withdrawn :: "u64 \<Rightarrow> bool"             \<comment> \<open>\<open>gfs2_withdrawn(sdp)\<close>, a test of \<open>sd_flags\<close>\<close>
  gdlm_ast_fn :: fnptr
  gdlm_bast_fn :: fnptr
  ktime_get_real :: "nat \<Rightarrow> u64"
  g_jiffies :: "nat \<Rightarrow> u64"                  \<comment> \<open>\<open>jiffies\<close> at a tick\<close>
  msleep :: "nat \<Rightarrow> dlm_ls \<Rightarrow> dlm_ls"       \<comment> \<open>what happens to the lockspace meanwhile\<close>
  go_callback :: "glp \<Rightarrow> bool \<Rightarrow> gfs2 \<Rightarrow> gfs2 option"
  go_free :: "glp \<Rightarrow> gfs2 \<Rightarrow> gfs2 option"
  g_current :: nat                            \<comment> \<open>\<open>task_pid(current)\<close>\<close>
  alloc_glock :: "(glp \<Rightarrow> bool) \<Rightarrow> nat \<Rightarrow> glp option"
  alloc_lksb :: "nat \<Rightarrow> lksbp"                \<comment> \<open>where in the new glock its status block is\<close>
  alloc_gl_lvb :: "nat \<Rightarrow> bufp option"
  rhashtable_insert :: "nat \<Rightarrow> int"          \<comment> \<open>0, or the error of the hash table\<close>
  gfs2_withdraw_delayed :: "u64 \<Rightarrow> u64"     \<comment> \<open>its effect on \<open>sd_flags\<close>\<close>
  nolock_put_lock :: "glp \<Rightarrow> gfs2 \<Rightarrow> gfs2 option"  \<comment> \<open>\<open>lm_put_lock\<close> without a cluster\<close>
  spin_trylock :: "nat \<Rightarrow> bool"
  mounted_lock_num :: u32                     \<comment> \<open>\<open>GFS2_MOUNTED_LOCK\<close>\<close>
  control_lock_num :: u32                     \<comment> \<open>\<open>GFS2_CONTROL_LOCK\<close>\<close>
  sync_wait_fn :: fnptr                       \<comment> \<open>\<open>sync_wait_cb\<close>\<close>
  ls_arg :: nat                               \<comment> \<open>the address of the \<open>lm_lockstruct\<close>\<close>
  wait_sync :: "nat \<Rightarrow> gfs2 \<Rightarrow> gfs2"          \<comment> \<open>what happens while a caller waits for a reply,\<close>
  wait_recovery :: "nat \<Rightarrow> gfs2 \<Rightarrow> gfs2"      \<comment> \<open>for the end of a recovery,\<close>
  wait_msleep :: "nat \<Rightarrow> gfs2 \<Rightarrow> gfs2"        \<comment> \<open>or sleeps\<close>
  gfs2_recover_journal :: "nat \<Rightarrow> int"
  alloc_mem :: "nat \<Rightarrow> bool"                  \<comment> \<open>whether memory is found\<close>
  join_lockspace :: "u8 list \<Rightarrow> u8 list \<Rightarrow> gfs2 \<Rightarrow> int \<times> int \<times> gfs2"  \<comment> \<open>\<open>dlm_new_lockspace\<close>\<close>
  leave_lockspace :: "gfs2 \<Rightarrow> gfs2"           \<comment> \<open>\<open>dlm_release_lockspace\<close>\<close>

section \<open>Pointer access\<close>

definition upd_gl :: "glp \<Rightarrow> (gfs2_glock \<Rightarrow> gfs2_glock) \<Rightarrow> gfs2 \<Rightarrow> gfs2 option" where
  "upd_gl g f s = (case gs_glocks s g of
       None \<Rightarrow> None
     | Some x \<Rightarrow> Some (s\<lparr>gs_glocks := (gs_glocks s)(g \<mapsto> f x)\<rparr>))"

definition upd_gh :: "ghp \<Rightarrow> (gfs2_holder \<Rightarrow> gfs2_holder) \<Rightarrow> gfs2 \<Rightarrow> gfs2 option" where
  "upd_gh h f s = (case gs_holders s h of
       None \<Rightarrow> None
     | Some x \<Rightarrow> Some (s\<lparr>gs_holders := (gs_holders s)(h \<mapsto> f x)\<rparr>))"

text \<open>\<open>set_bit\<close> and \<open>clear_bit\<close> on \<open>gl_flags\<close>, \<open>test_bit\<close>.\<close>

definition gl_set :: "nat \<Rightarrow> glp \<Rightarrow> gfs2 \<Rightarrow> gfs2 option" where
  "gl_set n g s = upd_gl g (\<lambda>x. x\<lparr>gl_flags := set_bit n (gl_flags x)\<rparr>) s"

definition gl_clear :: "nat \<Rightarrow> glp \<Rightarrow> gfs2 \<Rightarrow> gfs2 option" where
  "gl_clear n g s = upd_gl g (\<lambda>x. x\<lparr>gl_flags := unset_bit n (gl_flags x)\<rparr>) s"

definition gl_test :: "nat \<Rightarrow> gfs2_glock \<Rightarrow> bool" where
  "gl_test n x = bit (gl_flags x) n"

definition gh_test :: "nat \<Rightarrow> gfs2_holder \<Rightarrow> bool" where
  "gh_test n h = bit (gh_iflags h) n"

lemma upd_gl_Some [simp]:
  "gs_glocks s g = Some x \<Longrightarrow> upd_gl g f s = Some (s\<lparr>gs_glocks := (gs_glocks s)(g \<mapsto> f x)\<rparr>)"
  by (simp add: upd_gl_def)

lemma upd_gh_Some [simp]:
  "gs_holders s h = Some x \<Longrightarrow> upd_gh h f s = Some (s\<lparr>gs_holders := (gs_holders s)(h \<mapsto> f x)\<rparr>)"
  by (simp add: upd_gh_def)

lemma upd_gl_eq_Some_iff:
  "upd_gl g f s = Some s' \<longleftrightarrow>
     (\<exists>x. gs_glocks s g = Some x \<and> s' = s\<lparr>gs_glocks := (gs_glocks s)(g \<mapsto> f x)\<rparr>)"
  by (auto simp: upd_gl_def split: option.splits)

lemma upd_gh_eq_Some_iff:
  "upd_gh h f s = Some s' \<longleftrightarrow>
     (\<exists>x. gs_holders s h = Some x \<and> s' = s\<lparr>gs_holders := (gs_holders s)(h \<mapsto> f x)\<rparr>)"
  by (auto simp: upd_gh_def split: option.splits)

lemma lm_out_state_code [simp]: "lm_out_state (lm_code st) = st"
  by (cases st) (simp_all add: lm_out_state_def lm_code_def)

end
