(* ===== verification/Gfs2_Base.thy ===== *)
theory Gfs2_Base
  imports Gfs2_Types
begin

text \<open>
  The part of \<open>glock.c\<close> that \<open>lock_dlm.c\<close> calls: references to glocks, the list of unused
  glocks, the work queue, demote requests from other nodes (\<open>gfs2_glock_cb\<close>), replies of the
  lock manager (\<open>gfs2_glock_complete\<close>), which are held back (frozen) while recovery blocks
  locks, and their release (\<open>gfs2_glock_thaw\<close>). Spin locks are not modelled: an operation
  runs as one step. \<open>GLOCK_BUG_ON\<close> is \<open>None\<close>.
\<close>

section \<open>References\<close>

definition gfs2_glock_hold :: "glp \<Rightarrow> gfs2 \<Rightarrow> gfs2 option" where
  "gfs2_glock_hold g s = do {
     x \<leftarrow> gs_glocks s g;
     _ \<leftarrow> dlm_assert (\<not> gl_dead x);
     upd_gl g (\<lambda>x. x\<lparr>gl_count := gl_count x + 1\<rparr>) s
   }"

text \<open>\<open>lockref_get_not_dead\<close>: whether it took a reference.\<close>

definition lockref_get_not_dead :: "glp \<Rightarrow> gfs2 \<Rightarrow> (bool \<times> gfs2) option" where
  "lockref_get_not_dead g s = do {
     x \<leftarrow> gs_glocks s g;
     if gl_dead x then Some (False, s)
     else do { s \<leftarrow> upd_gl g (\<lambda>x. x\<lparr>gl_count := gl_count x + 1\<rparr>) s; Some (True, s) }
   }"

definition gl_ref_add :: "int \<Rightarrow> glp \<Rightarrow> gfs2 \<Rightarrow> gfs2 option" where
  "gl_ref_add n g s = upd_gl g (\<lambda>x. x\<lparr>gl_count := gl_count x + n\<rparr>) s"

definition gfs2_glock_add_to_lru :: "glp \<Rightarrow> gfs2 \<Rightarrow> gfs2 option" where
  "gfs2_glock_add_to_lru g s = do {
     x \<leftarrow> gs_glocks s g;
     if \<not> has_flag (go_flags (gl_ops x)) GLOF_LRU then Some s
     else do {
       let s = s\<lparr>lru_list := remove1 g (lru_list s) @ [g]\<rparr>;
       if gl_test GLF_LRU x then Some s
       else do {
         s \<leftarrow> gl_set GLF_LRU g s;
         Some (s\<lparr>lru_count := lru_count s + 1\<rparr>)
       }
     }
   }"

definition gfs2_glock_remove_from_lru :: "glp \<Rightarrow> gfs2 \<Rightarrow> gfs2 option" where
  "gfs2_glock_remove_from_lru g s = do {
     x \<leftarrow> gs_glocks s g;
     if \<not> has_flag (go_flags (gl_ops x)) GLOF_LRU then Some s
     else if gl_test GLF_LRU x then
       gl_clear GLF_LRU g (s\<lparr>lru_list := remove1 g (lru_list s), lru_count := lru_count s - 1\<rparr>)
     else Some s
   }"

text \<open>\<open>queue_delayed_work(glock_workqueue, &gl->gl_work, delay)\<close>: whether the work was not yet
  queued. The queued work owns a reference; when it was queued already, the reference the caller
  passed on is dropped.\<close>

definition queue_delayed_work :: "glp \<Rightarrow> u64 \<Rightarrow> gfs2 \<Rightarrow> bool \<times> gfs2" where
  "queue_delayed_work g delay s = (case gs_work s g of
       Some _ \<Rightarrow> (False, s)
     | None \<Rightarrow> (True, s\<lparr>gs_work := (gs_work s)(g \<mapsto> delay)\<rparr>))"

definition us_us_gfs2_glock_queue_work :: "glp \<Rightarrow> u64 \<Rightarrow> gfs2 \<Rightarrow> gfs2 option" where
  "us_us_gfs2_glock_queue_work g delay s = do {
     let (queued, s) = queue_delayed_work g delay s;
     if queued then Some s
     else do {
       x \<leftarrow> gs_glocks s g;
       _ \<leftarrow> dlm_assert (\<not> gl_count x < 2);
       gl_ref_add (-1) g s
     }
   }"

definition gfs2_glock_queue_work :: "glp \<Rightarrow> u64 \<Rightarrow> gfs2 \<Rightarrow> gfs2 option" where
  "gfs2_glock_queue_work g delay s = us_us_gfs2_glock_queue_work g delay s"

definition gfs2_glock_queue_put :: "glp \<Rightarrow> gfs2 \<Rightarrow> gfs2 option" where
  "gfs2_glock_queue_put g s = gfs2_glock_queue_work g 0 s"

text \<open>Freeing a glock. The grace period of \<open>call_rcu\<close> is not modelled: the memory goes at once.\<close>

definition gfs2_glock_dealloc :: "glp \<Rightarrow> gfs2 \<Rightarrow> gfs2" where
  "gfs2_glock_dealloc g s = s\<lparr>gs_glocks := (gs_glocks s)(g := None)\<rparr>"

definition gfs2_glock_free :: "glp \<Rightarrow> gfs2 \<Rightarrow> gfs2 option" where
  "gfs2_glock_free g s = do {
     _ \<leftarrow> gs_glocks s g;
     let s = s\<lparr>gl_hash_table := remove1 g (gl_hash_table s)\<rparr>;
     let s = gfs2_glock_dealloc g s;
     Some (s\<lparr>sd_glock_disposal := sd_glock_disposal s - 1\<rparr>)
   }"

section \<open>Demote requests\<close>

definition gfs2_set_demote :: "glp \<Rightarrow> gfs2 \<Rightarrow> gfs2 option" where
  "gfs2_set_demote g s = gl_set GLF_DEMOTE g s"

definition gfs2_demote_wake :: "glp \<Rightarrow> gfs2 \<Rightarrow> gfs2 option" where
  "gfs2_demote_wake g s = do {
     s \<leftarrow> upd_gl g (\<lambda>x. x\<lparr>gl_demote_state := LM_ST_EXCLUSIVE\<rparr>) s;
     gl_clear GLF_DEMOTE g s
   }"

definition handle_callback :: "gfs2_env \<Rightarrow> glp \<Rightarrow> lm_state \<Rightarrow> u64 \<Rightarrow> bool \<Rightarrow> gfs2 \<Rightarrow> gfs2 option" where
  "handle_callback env g st delay remote s = do {
     s \<leftarrow> (if delay \<noteq> 0 then gl_set GLF_PENDING_DEMOTE g s else gfs2_set_demote g s);
     x \<leftarrow> gs_glocks s g;
     s \<leftarrow> (if gl_demote_state x = LM_ST_EXCLUSIVE
          then upd_gl g (\<lambda>x. x\<lparr>gl_demote_state := st, gl_demote_time := g_jiffies env (gs_tick s)\<rparr>) s
          else if gl_demote_state x \<noteq> LM_ST_UNLOCKED \<and> gl_demote_state x \<noteq> st
          then upd_gl g (\<lambda>x. x\<lparr>gl_demote_state := LM_ST_UNLOCKED\<rparr>) s
          else Some s);
     go_callback env g remote s
   }"

text \<open>\<open>time_before(a, b)\<close>.\<close>

definition time_before :: "u64 \<Rightarrow> u64 \<Rightarrow> bool" where
  "time_before a b = time_after b a"

definition gfs2_glock_cb :: "gfs2_env \<Rightarrow> glp \<Rightarrow> lm_state \<Rightarrow> gfs2 \<Rightarrow> gfs2 option" where
  "gfs2_glock_cb env g st s = do {
     let now = g_jiffies env (gs_tick s);
     s \<leftarrow> gfs2_glock_hold g s;
     x \<leftarrow> gs_glocks s g;
     let holdtime = gl_tchange x + word_of_int (gl_hold_time x);
     let delay = (if gl_holders x \<noteq> [] \<and> gl_ln_type x = LM_TYPE_INODE
        then (if gl_test GLF_REPLY_PENDING x then word_of_int (gl_hold_time x)
              else if time_before now holdtime then holdtime - now else 0)
        else 0);
     s \<leftarrow> handle_callback env g st delay True s;
     us_us_gfs2_glock_queue_work g delay s
   }"

section \<open>Replies\<close>

text \<open>Whether a waiting holder is exempt from recovery's blocking of locks.\<close>

fun noexp_waiter :: "gfs2 \<Rightarrow> ghp list \<Rightarrow> bool option" where
  "noexp_waiter s [] = Some False"
| "noexp_waiter s (h # hs) = do {
     y \<leftarrow> gs_holders s h;
     if gh_test HIF_HOLDER y then noexp_waiter s hs
     else if has_flag (gh_flags y) LM_FLAG_NOEXP then Some True
     else noexp_waiter s hs
   }"

definition gfs2_should_freeze :: "gfs2_glock \<Rightarrow> gfs2 \<Rightarrow> bool option" where
  "gfs2_should_freeze x s =
     (if (ucast (gl_reply x) :: u32) AND NOT 3 \<noteq> 0 then Some False
      else if gl_target x = LM_ST_UNLOCKED then Some False
      else map_option Not (noexp_waiter s (gl_holders x)))"

definition gfs2_glock_complete :: "glp \<Rightarrow> u32 \<Rightarrow> gfs2 \<Rightarrow> gfs2 option" where
  "gfs2_glock_complete g ret s = do {
     s \<leftarrow> upd_gl g (\<lambda>x. x\<lparr>gl_reply := ucast ret\<rparr>) s;
     x \<leftarrow> gs_glocks s g;
     freeze \<leftarrow> (if bit (ls_recover_flags (sd_lockstruct s)) DFL_BLOCK_LOCKS
                then gfs2_should_freeze x s else Some False);
     if freeze then gl_set GLF_FROZEN g s
     else do {
       s \<leftarrow> gl_ref_add 1 g s;
       s \<leftarrow> gl_set GLF_REPLY_PENDING g s;
       us_us_gfs2_glock_queue_work g 0 s
     }
   }"

definition thaw_glock :: "glp \<Rightarrow> gfs2 \<Rightarrow> gfs2 option" where
  "thaw_glock g s = do {
     x \<leftarrow> gs_glocks s g;
     if \<not> gl_test GLF_FROZEN x then Some s
     else do {
       s \<leftarrow> gl_clear GLF_FROZEN g s;
       (got, s) \<leftarrow> lockref_get_not_dead g s;
       if \<not> got then Some s
       else do {
         s \<leftarrow> gl_set GLF_REPLY_PENDING g s;
         gfs2_glock_queue_work g 0 s
       }
     }
   }"

text \<open>Calling a function for every glock of the file system.\<close>

fun glock_hash_walk :: "(glp \<Rightarrow> gfs2 \<Rightarrow> gfs2 option) \<Rightarrow> glp list \<Rightarrow> gfs2 \<Rightarrow> gfs2 option" where
  "glock_hash_walk examiner [] s = Some s"
| "glock_hash_walk examiner (g # gs) s = do { s \<leftarrow> examiner g s; glock_hash_walk examiner gs s }"

definition gfs2_glock_thaw :: "gfs2 \<Rightarrow> gfs2 option" where
  "gfs2_glock_thaw s = glock_hash_walk thaw_glock (gl_hash_table s) s"

end
