(* ===== verification/Gfs2_Dlm.thy ===== *)
theory Gfs2_Dlm
  imports Gfs2_Base
begin

text \<open>
  The lock module of GFS2 (\<open>lock_dlm.c\<close>, first part): how a glock uses the lock manager. A
  request of the glock layer becomes one call of \<open>dlm_lock\<close> (\<open>gdlm_lock\<close>), its reply arrives in
  \<open>gdlm_ast\<close>, a blocking callback in \<open>gdlm_bast\<close>; \<open>gdlm_put_lock\<close> and \<open>gdlm_cancel\<close> unlock and
  cancel. Round trip statistics are kept as the code does.
\<close>

section \<open>Statistics\<close>

text \<open>\<open>s64\<close> values are 64-bit words; \<open>>>\<close> is the arithmetic shift.\<close>

definition abs64 :: "u64 \<Rightarrow> u64" where
  "abs64 w = (if sint w < 0 then - w else w)"

definition gfs2_update_stats :: "nat \<Rightarrow> u64 \<Rightarrow> u64 list \<Rightarrow> u64 list" where
  "gfs2_update_stats index sample stats =
     (let delta = sample - stats ! index;
          stats = stats[index := stats ! index + signed_drop_bit 3 delta];
          index = index + 1
      in stats[index := stats ! index + signed_drop_bit 2 (abs64 delta - stats ! index)])"

text \<open>Both the statistics of the glock and those of its type.\<close>

definition update_both :: "nat \<Rightarrow> u64 \<Rightarrow> glp \<Rightarrow> gfs2 \<Rightarrow> gfs2 option" where
  "update_both index sample g s = do {
     x \<leftarrow> gs_glocks s g;
     s \<leftarrow> upd_gl g (\<lambda>x. x\<lparr>gl_stats := gfs2_update_stats index sample (gl_stats x)\<rparr>) s;
     Some (s\<lparr>sd_lkstats := (sd_lkstats s)(gl_ln_type x :=
             gfs2_update_stats index sample (sd_lkstats s (gl_ln_type x)))\<rparr>)
   }"

definition gfs2_stats_inc :: "nat \<Rightarrow> glp \<Rightarrow> gfs2 \<Rightarrow> gfs2 option" where
  "gfs2_stats_inc which g s = do {
     x \<leftarrow> gs_glocks s g;
     s \<leftarrow> upd_gl g (\<lambda>x. x\<lparr>gl_stats := (gl_stats x)[which := gl_stats x ! which + 1]\<rparr>) s;
     let st = sd_lkstats s (gl_ln_type x);
     Some (s\<lparr>sd_lkstats := (sd_lkstats s)(gl_ln_type x := st[which := st ! which + 1])\<rparr>)
   }"

definition gfs2_update_reply_times :: "gfs2_env \<Rightarrow> glp \<Rightarrow> gfs2 \<Rightarrow> gfs2 option" where
  "gfs2_update_reply_times env g s = do {
     x \<leftarrow> gs_glocks s g;
     let index = (if gl_test GLF_BLOCKING x then GFS2_LKS_SRTTB else GFS2_LKS_SRTT);
     let rtt = ktime_get_real env (gs_tick s) - gl_dstamp x;
     update_both index rtt g (s\<lparr>gs_tick := gs_tick s + 1\<rparr>)
   }"

definition gfs2_update_request_times :: "gfs2_env \<Rightarrow> glp \<Rightarrow> gfs2 \<Rightarrow> gfs2 option" where
  "gfs2_update_request_times env g s = do {
     x \<leftarrow> gs_glocks s g;
     let dstamp = gl_dstamp x;
     let now = ktime_get_real env (gs_tick s);
     s \<leftarrow> upd_gl g (\<lambda>x. x\<lparr>gl_dstamp := now\<rparr>) s;
     update_both GFS2_LKS_SIRT (now - dstamp) g (s\<lparr>gs_tick := gs_tick s + 1\<rparr>)
   }"

section \<open>Callbacks of the lock manager\<close>

definition glock_lksb :: "gfs2_glock \<Rightarrow> gfs2 \<Rightarrow> dlm_lksb" where
  "glock_lksb x s = ls_lksbs (gs_dlm s) (gl_lksb x)"

abbreviation (input) DLM_SBF_DEMOTED :: u32 where "DLM_SBF_DEMOTED \<equiv> 1"
abbreviation (input) DLM_SBF_VALNOTVALID :: u32 where "DLM_SBF_VALNOTVALID \<equiv> 2"
abbreviation (input) DLM_SBF_ALTMODE :: u32 where "DLM_SBF_ALTMODE \<equiv> 4"

definition clear_lvb :: "bufp \<Rightarrow> gfs2 \<Rightarrow> gfs2" where
  "clear_lvb p s = (let d = gs_dlm s in
     s\<lparr>gs_dlm := d\<lparr>ls_lvbs := (ls_lvbs d)(p := memcpy (ls_lvbs d p) (replicate GDLM_LVB_SIZE 0) GDLM_LVB_SIZE)\<rparr>\<rparr>)"

text \<open>The label \<open>out\<close> of \<open>gdlm_ast\<close>: a lock that was never granted has no id any more.\<close>

definition gdlm_ast_out :: "glp \<Rightarrow> u32 \<Rightarrow> gfs2 \<Rightarrow> gfs2 option" where
  "gdlm_ast_out g ret s = do {
     x \<leftarrow> gs_glocks s g;
     let d = gs_dlm s;
     let s = (if gl_test GLF_INITIAL x then s
        else s\<lparr>gs_dlm := d\<lparr>ls_lksbs := (ls_lksbs d)(gl_lksb x := (glock_lksb x s)\<lparr>sb_lkid := 0\<rparr>)\<rparr>\<rparr>);
     gfs2_glock_complete g ret s
   }"

definition gdlm_ast :: "gfs2_env \<Rightarrow> glp \<Rightarrow> gfs2 \<Rightarrow> gfs2 option" where
  "gdlm_ast env g s = do {
     x \<leftarrow> gs_glocks s g;
     let ret = lm_code (gl_state x);
     s \<leftarrow> gfs2_update_reply_times env g s;
     let lksb = glock_lksb x s;
     _ \<leftarrow> dlm_assert (\<not> has_flag (sb_flags lksb) DLM_SBF_DEMOTED);
     let s = (case sb_lvbptr lksb of
         Some p \<Rightarrow> if has_flag (sb_flags lksb) DLM_SBF_VALNOTVALID then clear_lvb p s else s
       | None \<Rightarrow> s);
     if sb_status lksb = -DLM_EUNLOCK then do {
       s \<leftarrow> go_free env g s;
       gfs2_glock_free g s
     }
     else if sb_status lksb = -DLM_ECANCEL then gdlm_ast_out g (ret OR LM_OUT_CANCELED) s
     else if sb_status lksb = -EAGAIN \<or> sb_status lksb = -EDEADLK then gdlm_ast_out g ret s
     else if sb_status lksb = -ETIMEDOUT then gdlm_ast_out g (ret OR LM_OUT_ERROR) s
     else do {
       _ \<leftarrow> dlm_assert (sb_status lksb = 0);
       ret \<leftarrow> (if has_flag (sb_flags lksb) DLM_SBF_ALTMODE then
              (case gl_req x of
                 LM_ST_SHARED \<Rightarrow> Some (lm_code LM_ST_DEFERRED)
               | LM_ST_DEFERRED \<Rightarrow> Some (lm_code LM_ST_SHARED)
               | _ \<Rightarrow> None)
            else Some (lm_code (gl_req x)));
       s \<leftarrow> gl_set GLF_INITIAL g s;
       gfs2_glock_complete g ret s
     }
   }"

definition gdlm_bast :: "gfs2_env \<Rightarrow> glp \<Rightarrow> int \<Rightarrow> gfs2 \<Rightarrow> gfs2 option" where
  "gdlm_bast env g mode s =
     (if mode = DLM_LOCK_EX then gfs2_glock_cb env g LM_ST_UNLOCKED s
      else if mode = DLM_LOCK_CW then gfs2_glock_cb env g LM_ST_DEFERRED s
      else if mode = DLM_LOCK_PR then gfs2_glock_cb env g LM_ST_SHARED s
      else None)"

section \<open>Requests\<close>

definition make_mode :: "lm_state \<Rightarrow> int" where
  "make_mode lmstate = (case lmstate of
       LM_ST_UNLOCKED \<Rightarrow> DLM_LOCK_NL
     | LM_ST_EXCLUSIVE \<Rightarrow> DLM_LOCK_EX
     | LM_ST_DEFERRED \<Rightarrow> DLM_LOCK_CW
     | LM_ST_SHARED \<Rightarrow> DLM_LOCK_PR)"

definition make_flags :: "gfs2_glock \<Rightarrow> dlm_lksb \<Rightarrow> u32 \<Rightarrow> int \<Rightarrow> u32 option" where
  "make_flags x lksb gfs_flags req = do {
     let lkf = (if sb_lvbptr lksb \<noteq> None then DLM_LKF_VALBLK else 0);
     let lkf = (if has_flag gfs_flags LM_FLAG_TRY then lkf OR DLM_LKF_NOQUEUE else lkf);
     let lkf = (if has_flag gfs_flags LM_FLAG_TRY_1CB
                then lkf OR DLM_LKF_NOQUEUE OR DLM_LKF_NOQUEUEBAST else lkf);
     lkf \<leftarrow> (if has_flag gfs_flags LM_FLAG_ANY
            then (if req = DLM_LOCK_PR then Some (lkf OR DLM_LKF_ALTCW)
                  else if req = DLM_LOCK_CW then Some (lkf OR DLM_LKF_ALTPR)
                  else None)
            else Some lkf);
     let lkf = (if sb_lkid lksb \<noteq> 0
                then (let lkf = lkf OR DLM_LKF_CONVERT in
                      if gl_test GLF_BLOCKING x then lkf OR DLM_LKF_QUECVT else lkf)
                else lkf);
     Some (if has_flag gfs_flags LM_FLAG_NOTIFY then lkf OR DLM_LKF_NOTIFY else lkf)
   }"

definition hex_asc :: "u8 list" where
  "hex_asc = [48, 49, 50, 51, 52, 53, 54, 55, 56, 57, 97, 98, 99, 100, 101, 102]"

text \<open>The digits are written backwards, at positions below \<open>n\<close>; writing in front of the buffer
  is \<open>None\<close>.\<close>

function reverse_hex_digits :: "u8 list \<Rightarrow> nat \<Rightarrow> u64 \<Rightarrow> u8 list option" where
  "reverse_hex_digits cs n v =
     (if v = 0 then Some cs
      else if n = 0 then None
      else reverse_hex_digits (cs[n - 1 := hex_asc ! unat (v AND 0xf)]) (n - 1) (drop_bit 4 v))"
  by pat_completeness auto
termination
  by (relation "measure (\<lambda>(cs, n, v). n)") auto

definition gfs2_reverse_hex :: "u8 list \<Rightarrow> nat \<Rightarrow> u64 \<Rightarrow> u8 list option" where
  "gfs2_reverse_hex cs c v = reverse_hex_digits (cs[c := 48]) (c + 1) v"

text \<open>The name of the resource of a glock: its type in 8 and its number in 16 hexadecimal digits,
  padded with blanks.\<close>

definition gdlm_strname :: "u32 \<Rightarrow> u64 \<Rightarrow> u8 list option" where
  "gdlm_strname ln_type ln_number = do {
     let strname = replicate (GDLM_STRNAME_BYTES - 1) 32 @ [0];
     strname \<leftarrow> gfs2_reverse_hex strname 7 (ucast ln_type);
     gfs2_reverse_hex strname 23 ln_number
   }"

text \<open>The loop around \<open>dlm_lock\<close>: a lock with an operation in progress is tried again after a pause.\<close>

definition gdlm_lock_pass ::
  "gfs2_env \<Rightarrow> gfs2_glock \<Rightarrow> glp \<Rightarrow> int \<Rightarrow> u32 \<Rightarrow> u8 list \<Rightarrow> gfs2 \<Rightarrow> (gfs2, int \<times> gfs2) pass option"
where
  "gdlm_lock_pass env x g req lkf strname s = do {
     (error, d) \<leftarrow> dlm_lock (g_dlm env) req (Some (gl_lksb x)) lkf strname (GDLM_STRNAME_BYTES - 1)
        (gl_parent_lkid x) (Some (gdlm_ast_fn env)) g (Some (gdlm_bast_fn env)) (gs_dlm s);
     let s = s\<lparr>gs_dlm := d\<rparr>;
     Some (if error = -EBUSY
           then Retry (s\<lparr>gs_dlm := msleep env (gs_tick s) d, gs_tick := gs_tick s + 1\<rparr>)
           else Done (error, s))
   }"

text \<open>The name of the resource for a new lock; a conversion needs none.\<close>

definition gdlm_lock_name :: "gfs2_env \<Rightarrow> gfs2_glock \<Rightarrow> glp \<Rightarrow> gfs2 \<Rightarrow> (u8 list \<times> gfs2) option" where
  "gdlm_lock_name env x g s =
     (if sb_lkid (glock_lksb x s) \<noteq> 0 then do {
        s \<leftarrow> gfs2_update_request_times env g s;
        Some (replicate GDLM_STRNAME_BYTES 0, s)
      } else do {
        strname \<leftarrow> gdlm_strname (gl_ln_type x) (gl_ln_number x);
        s \<leftarrow> upd_gl g (\<lambda>x. x\<lparr>gl_dstamp := ktime_get_real env (gs_tick s)\<rparr>) s;
        Some (strname, s\<lparr>gs_tick := gs_tick s + 1\<rparr>)
      })"

definition gdlm_lock :: "gfs2_env \<Rightarrow> glp \<Rightarrow> lm_state \<Rightarrow> u32 \<Rightarrow> gfs2 \<Rightarrow> (int \<times> gfs2) option" where
  "gdlm_lock env g req_state flags s = do {
     x \<leftarrow> gs_glocks s g;
     let req = make_mode req_state;
     lkf \<leftarrow> make_flags x (glock_lksb x s) flags req;
     s \<leftarrow> gfs2_stats_inc GFS2_LKS_DCOUNT g s;
     (strname, s) \<leftarrow> gdlm_lock_name env x g s;
     retry (gdlm_lock_pass env x g req lkf strname) s
   }"

definition gdlm_unlock_pass ::
  "gfs2_env \<Rightarrow> gfs2_glock \<Rightarrow> glp \<Rightarrow> gfs2 \<Rightarrow> (gfs2, int \<times> gfs2) pass option" where
  "gdlm_unlock_pass env x g s = do {
     (error, d) \<leftarrow> dlm_unlock (g_dlm env) (sb_lkid (glock_lksb x s)) DLM_LKF_VALBLK g (gs_dlm s);
     let s = s\<lparr>gs_dlm := d\<rparr>;
     Some (if error = -EBUSY
           then Retry (s\<lparr>gs_dlm := msleep env (gs_tick s) d, gs_tick := gs_tick s + 1\<rparr>)
           else Done (error, s))
   }"

definition gdlm_put_lock :: "gfs2_env \<Rightarrow> glp \<Rightarrow> gfs2 \<Rightarrow> gfs2 option" where
  "gdlm_put_lock env g s = do {
     x \<leftarrow> gs_glocks s g;
     if sb_lkid (glock_lksb x s) = 0 then gfs2_glock_free g s
     else do {
       s \<leftarrow> gl_clear GLF_BLOCKING g s;
       s \<leftarrow> gfs2_stats_inc GFS2_LKS_DCOUNT g s;
       s \<leftarrow> gfs2_update_request_times env g s;
       if bit (ls_recover_flags (sd_lockstruct s)) DFL_UNMOUNT then gfs2_glock_free g s
       else if bit (sd_flags s) SDF_SKIP_DLM_UNLOCK \<and> sb_lvbptr (glock_lksb x s) = None
       then gfs2_glock_free g s
       else map_option snd (retry (gdlm_unlock_pass env x g) s)
     }
   }"

definition gdlm_cancel :: "gfs2_env \<Rightarrow> glp \<Rightarrow> gfs2 \<Rightarrow> gfs2 option" where
  "gdlm_cancel env g s = do {
     x \<leftarrow> gs_glocks s g;
     (_, d) \<leftarrow> dlm_unlock (g_dlm env) (sb_lkid (glock_lksb x s)) DLM_LKF_CANCEL g (gs_dlm s);
     Some (s\<lparr>gs_dlm := d\<rparr>)
   }"

end
