(* ===== verification/Gfs2_Glock.thy ===== *)
theory Gfs2_Glock
  imports Gfs2_Dlm
begin

text \<open>
  The glock state machine (\<open>glock.c\<close>). Holders queue up on a glock (\<open>gfs2_glock_nq\<close>); those the
  state of the glock allows are granted (\<open>do_promote\<close>); for the first one it does not allow, or
  for another node that waits, the lock manager is asked for another state (\<open>do_xmote\<close>), whose
  reply changes the state (\<open>finish_xmote\<close>, from the work queue). \<open>GLF_LOCK\<close> is set while such a
  change is under way. Operations that sleep in the middle are split there: the first part tells
  that it sleeps, the second is its own operation.
\<close>

section \<open>Holders\<close>

definition glock_blocked_by_withdraw :: "gfs2_env \<Rightarrow> gfs2_glock \<Rightarrow> gfs2 \<Rightarrow> bool" where
  "glock_blocked_by_withdraw env x s =
     (if \<not> gfs2_withdrawn env (sd_flags s) then False
      else if has_flag (go_flags (gl_ops x)) GLOF_NONDISK then False
      else case sd_jdesc s of None \<Rightarrow> False | Some jd \<Rightarrow> gl_ln_number x \<noteq> jd)"

text \<open>\<open>demote_ok\<close>; the answer of \<open>go_demote_ok\<close> is that of the current tick.\<close>

definition demote_ok :: "gfs2_glock \<Rightarrow> gfs2 \<Rightarrow> bool" where
  "demote_ok x s =
     (if gl_state x = LM_ST_UNLOCKED then False
      else if gl_holders x \<noteq> [] then False
      else case go_demote_ok (gl_ops x) of Some f \<Rightarrow> f (gs_tick s) | None \<Rightarrow> True)"

definition may_grant :: "gfs2_glock \<Rightarrow> gfs2_holder option \<Rightarrow> gfs2_holder \<Rightarrow> bool option" where
  "may_grant x current_gh y = (case current_gh of
       Some c \<Rightarrow> do {
         _ \<leftarrow> dlm_assert (gh_test HIF_HOLDER c);
         Some (case gh_state c of
             LM_ST_EXCLUSIVE \<Rightarrow> gh_state y = LM_ST_EXCLUSIVE \<and>
               has_flag (gh_flags c) LM_FLAG_NODE_SCOPE \<and> has_flag (gh_flags y) LM_FLAG_NODE_SCOPE
           | LM_ST_SHARED \<Rightarrow> gh_state y = gh_state c
           | LM_ST_DEFERRED \<Rightarrow> gh_state y = gh_state c
           | LM_ST_UNLOCKED \<Rightarrow> False)
       }
     | None \<Rightarrow> Some (
         if gl_state x = gh_state y then True
         else if has_flag (gh_flags y) GL_EXACT then False
         else if gl_state x = LM_ST_EXCLUSIVE
         then gh_state y = LM_ST_SHARED \<or> gh_state y = LM_ST_DEFERRED
         else if has_flag (gh_flags y) LM_FLAG_ANY then gl_state x \<noteq> LM_ST_UNLOCKED
         else False))"

definition gfs2_holder_wake :: "ghp \<Rightarrow> gfs2 \<Rightarrow> gfs2 option" where
  "gfs2_holder_wake h s = upd_gh h (\<lambda>y. y\<lparr>gh_iflags := unset_bit HIF_WAIT (gh_iflags y)\<rparr>) s"

text \<open>One waiter of \<open>do_error\<close>: it fails with an error and leaves the queue, or stays.\<close>

definition fail_waiter :: "glp \<Rightarrow> u32 \<Rightarrow> ghp \<Rightarrow> gfs2 \<Rightarrow> gfs2 option" where
  "fail_waiter g ret h s = do {
     y \<leftarrow> gs_holders s h;
     if gh_test HIF_HOLDER y then Some s
     else if \<not> has_flag ret LM_OUT_ERROR \<and> \<not> has_flag (gh_flags y) (LM_FLAG_TRY OR LM_FLAG_TRY_1CB)
     then Some s
     else do {
       s \<leftarrow> upd_gh h (\<lambda>y. y\<lparr>gh_error := (if has_flag ret LM_OUT_ERROR then -EIO else GLR_TRYFAILED)\<rparr>) s;
       s \<leftarrow> upd_gl g (\<lambda>x. x\<lparr>gl_holders := remove1 h (gl_holders x)\<rparr>) s;
       gfs2_holder_wake h s
     }
   }"

fun do_error_list :: "glp \<Rightarrow> u32 \<Rightarrow> ghp list \<Rightarrow> gfs2 \<Rightarrow> gfs2 option" where
  "do_error_list g ret [] s = Some s"
| "do_error_list g ret (h # hs) s = do { s \<leftarrow> fail_waiter g ret h s; do_error_list g ret hs s }"

definition do_error :: "glp \<Rightarrow> u32 \<Rightarrow> gfs2 \<Rightarrow> gfs2 option" where
  "do_error g ret s = do { x \<leftarrow> gs_glocks s g; do_error_list g ret (gl_holders x) s }"

definition find_first_holder :: "gfs2_glock \<Rightarrow> gfs2 \<Rightarrow> ghp option option" where
  "find_first_holder x s = (case gl_holders x of
       [] \<Rightarrow> Some None
     | h # _ \<Rightarrow> do { y \<leftarrow> gs_holders s h; Some (if gh_test HIF_HOLDER y then Some h else None) })"

fun first_waiter :: "gfs2 \<Rightarrow> ghp list \<Rightarrow> ghp option option" where
  "first_waiter s [] = Some None"
| "first_waiter s (h # hs) = do {
     y \<leftarrow> gs_holders s h;
     if \<not> gh_test HIF_HOLDER y then Some (Some h) else first_waiter s hs
   }"

definition find_first_waiter :: "gfs2_glock \<Rightarrow> gfs2 \<Rightarrow> ghp option option" where
  "find_first_waiter x s = first_waiter s (gl_holders x)"

text \<open>The holder a pointer that may be \<open>NULL\<close> points to.\<close>

definition get_gh :: "ghp option \<Rightarrow> gfs2 \<Rightarrow> gfs2_holder option option" where
  "get_gh p s = (case p of None \<Rightarrow> Some None | Some h \<Rightarrow> map_option Some (gs_holders s h))"

fun do_promote_list :: "glp \<Rightarrow> ghp option \<Rightarrow> ghp list \<Rightarrow> gfs2 \<Rightarrow> (bool \<times> gfs2) option" where
  "do_promote_list g cur [] s = Some (True, s)"
| "do_promote_list g cur (h # hs) s = do {
     y \<leftarrow> gs_holders s h;
     if gh_test HIF_HOLDER y then do_promote_list g cur hs s
     else do {
       x \<leftarrow> gs_glocks s g;
       c \<leftarrow> get_gh cur s;
       ok \<leftarrow> may_grant x c y;
       if \<not> ok then
         (if hd (gl_holders x) = h then Some (False, s)
          else do { s \<leftarrow> do_error g 0 s; Some (True, s) })
       else do {
         s \<leftarrow> upd_gh h (\<lambda>y. y\<lparr>gh_iflags := set_bit HIF_HOLDER (gh_iflags y)\<rparr>) s;
         s \<leftarrow> gfs2_holder_wake h s;
         do_promote_list g (if cur = None then Some h else cur) hs s
       }
     }
   }"

definition do_promote :: "glp \<Rightarrow> gfs2 \<Rightarrow> (bool \<times> gfs2) option" where
  "do_promote g s = do {
     x \<leftarrow> gs_glocks s g;
     current_gh \<leftarrow> find_first_holder x s;
     do_promote_list g current_gh (gl_holders x) s
   }"

section \<open>Changing the state\<close>

definition GL_GLOCK_HOLD :: "gfs2_env \<Rightarrow> int \<Rightarrow> int" where
  "GL_GLOCK_HOLD env n = int (unat (hz (g_dlm env))) div n"

abbreviation (input) GL_GLOCK_MIN_HOLD :: int where "GL_GLOCK_MIN_HOLD \<equiv> 10"

definition enter_state :: "gfs2_env \<Rightarrow> lm_state \<Rightarrow> u64 \<Rightarrow> gfs2_glock \<Rightarrow> gfs2_glock" where
  "enter_state env new_state now x = x\<lparr>
     gl_hold_time := (if new_state \<noteq> gl_target x
        then max (gl_hold_time x - GL_GLOCK_HOLD env 40) GL_GLOCK_MIN_HOLD else gl_hold_time x),
     gl_state := new_state, gl_tchange := now\<rparr>"

definition state_change :: "gfs2_env \<Rightarrow> glp \<Rightarrow> lm_state \<Rightarrow> gfs2 \<Rightarrow> gfs2 option" where
  "state_change env g new_state s = do {
     x \<leftarrow> gs_glocks s g;
     let held1 = (gl_state x \<noteq> LM_ST_UNLOCKED);
     let held2 = (new_state \<noteq> LM_ST_UNLOCKED);
     s \<leftarrow> (if held1 \<noteq> held2 then do {
            _ \<leftarrow> dlm_assert (\<not> gl_dead x);
            gl_ref_add (if held2 then 1 else -1) g s
          } else Some s);
     upd_gl g (enter_state env new_state (g_jiffies env (gs_tick s))) s
   }"

definition is_system_glock :: "glp \<Rightarrow> gfs2 \<Rightarrow> bool" where
  "is_system_glock g s \<longleftrightarrow> sd_statfs_gl s = Some g"

definition xmote_flags :: u32 where
  "xmote_flags = LM_FLAG_TRY OR LM_FLAG_TRY_1CB OR LM_FLAG_NOEXP OR LM_FLAG_NOTIFY"

text \<open>\<open>do_xmote\<close> before the label \<open>skip_inval\<close>: the invalidation is announced and queued try locks
  fail; the request is noted; what the lock protects is synced and invalidated.\<close>

definition xmote_announce :: "glp \<Rightarrow> bool \<Rightarrow> gfs2 \<Rightarrow> gfs2 option" where
  "xmote_announce g inval s =
     (if inval then do { s \<leftarrow> gl_set GLF_INVALIDATE_IN_PROGRESS g s; do_error g 0 s } else Some s)"

definition note_request :: "lm_state \<Rightarrow> u32 \<Rightarrow> gfs2_glock \<Rightarrow> gfs2_glock" where
  "note_request target lck_flags x = (let x = x\<lparr>gl_req := target\<rparr> in
     x\<lparr>gl_flags := (if target = LM_ST_UNLOCKED \<or> gl_state x = LM_ST_EXCLUSIVE \<or>
            has_flag lck_flags (LM_FLAG_TRY OR LM_FLAG_TRY_1CB)
        then unset_bit GLF_BLOCKING (gl_flags x) else set_bit GLF_BLOCKING (gl_flags x))\<rparr>)"

text \<open>\<open>cmpxchg(&sdp->sd_log_error, 0, err)\<close>.\<close>

definition note_log_error :: "int \<Rightarrow> gfs2 \<Rightarrow> gfs2" where
  "note_log_error err s = (if sd_log_error s = 0 then s\<lparr>sd_log_error := err\<rparr> else s)"

definition xmote_invalidate :: "glp \<Rightarrow> gfs2 \<Rightarrow> gfs2 option" where
  "xmote_invalidate g s = do {
     x \<leftarrow> gs_glocks s g;
     if gl_test GLF_INVALIDATE_IN_PROGRESS x
     then gl_clear GLF_INVALIDATE_IN_PROGRESS g (if gl_ail_count x \<noteq> 0 then note_log_error (-EIO) s else s)
     else Some s
   }"

definition xmote_flush :: "glp \<Rightarrow> gfs2 \<Rightarrow> gfs2 option" where
  "xmote_flush g s = do {
     x \<leftarrow> gs_glocks s g;
     (case go_sync (gl_ops x) of
        None \<Rightarrow> xmote_invalidate g s
      | Some f \<Rightarrow> (let ret = f (gs_tick s); s = s\<lparr>gs_tick := gs_tick s + 1\<rparr> in
          if ret \<noteq> 0 then Some (note_log_error ret s) else xmote_invalidate g s))
   }"

definition xmote_prepare :: "glp \<Rightarrow> lm_state \<Rightarrow> bool \<Rightarrow> u32 \<Rightarrow> gfs2 \<Rightarrow> gfs2 option" where
  "xmote_prepare g target inval lck_flags s = do {
     s \<leftarrow> xmote_announce g inval s;
     s \<leftarrow> upd_gl g (note_request target lck_flags) s;
     xmote_flush g s
   }"

text \<open>The flags of the request, or \<open>None\<close>: another invalidation is under way, and \<open>do_xmote\<close>
  returns at once.\<close>

definition xmote_sync ::
  "gfs2_env \<Rightarrow> glp \<Rightarrow> gfs2_holder option \<Rightarrow> lm_state \<Rightarrow> gfs2 \<Rightarrow> (u32 option \<times> gfs2) option"
where
  "xmote_sync env g gh target s = do {
     x \<leftarrow> gs_glocks s g;
     let lck_flags = (case gh of Some y \<Rightarrow> gh_flags y | None \<Rightarrow> 0);
     if target \<noteq> LM_ST_UNLOCKED \<and> glock_blocked_by_withdraw env x s \<and> gh \<noteq> None \<and>
        \<not> has_flag lck_flags LM_FLAG_NOEXP
     then Some (Some lck_flags, s)
     else do {
       let lck_flags = lck_flags AND xmote_flags;
       _ \<leftarrow> dlm_assert (gl_state x \<noteq> target);
       _ \<leftarrow> dlm_assert (gl_state x \<noteq> gl_target x);
       let inval = ((target = LM_ST_UNLOCKED \<or> target = LM_ST_DEFERRED) \<and> go_inval (gl_ops x));
       if inval \<and> gl_test GLF_INVALIDATE_IN_PROGRESS x then Some (None, s)
       else do {
         s \<leftarrow> xmote_prepare g target inval lck_flags s;
         Some (Some lck_flags, s)
       }
     }
   }"

text \<open>The rest of \<open>do_xmote\<close>: the request to the lock manager, or none when the file system has been
  withdrawn. \<open>finish\<close> is \<open>finish_xmote\<close>, which the code calls when there is no lock manager to reply.\<close>

definition xmote_withdrawn :: "gfs2_env \<Rightarrow> glp \<Rightarrow> gfs2 \<Rightarrow> gfs2 option" where
  "xmote_withdrawn env g s = do {
     s \<leftarrow> handle_callback env g LM_ST_UNLOCKED 0 False s;
     s \<leftarrow> state_change env g LM_ST_UNLOCKED s;
     s \<leftarrow> gl_clear GLF_LOCK g s;
     s \<leftarrow> gl_clear GLF_DEMOTE_IN_PROGRESS g s;
     gfs2_glock_queue_work g (word_of_int (GL_GLOCK_HOLD env 5)) s
   }"

definition xmote_request ::
  "(glp \<Rightarrow> u32 \<Rightarrow> gfs2 \<Rightarrow> gfs2 option) \<Rightarrow> gfs2_env \<Rightarrow> glp \<Rightarrow> lm_state \<Rightarrow> u32 \<Rightarrow> gfs2 \<Rightarrow> gfs2 option"
where
  "xmote_request finish env g target lck_flags s =
     (if ls_ops_dlm (sd_lockstruct s) then do {
        (ret, s) \<leftarrow> gdlm_lock env g target lck_flags s;
        x \<leftarrow> gs_glocks s g;
        if ret = -EINVAL \<and> gl_target x = LM_ST_UNLOCKED \<and> target = LM_ST_UNLOCKED \<and>
           bit (sd_flags s) SDF_SKIP_DLM_UNLOCK
        then do { s \<leftarrow> finish g (lm_code target) s; gfs2_glock_queue_work g 0 s }
        else if ret \<noteq> 0 then do { _ \<leftarrow> dlm_assert (gfs2_withdrawn env (sd_flags s)); Some s }
        else Some s
      } else do { s \<leftarrow> finish g (lm_code target) s; gfs2_glock_queue_work g 0 s })"

text \<open>After an error of the log: the withdrawal is started.\<close>

definition check_log_error :: "gfs2_env \<Rightarrow> gfs2 \<Rightarrow> gfs2" where
  "check_log_error env s = (if sd_log_error s \<noteq> 0 \<and> \<not> gfs2_withdrawn env (sd_flags s)
     then s\<lparr>sd_flags := gfs2_withdraw_delayed env (sd_flags s)\<rparr> else s)"

definition xmote_send ::
  "(glp \<Rightarrow> u32 \<Rightarrow> gfs2 \<Rightarrow> gfs2 option) \<Rightarrow> gfs2_env \<Rightarrow> glp \<Rightarrow> lm_state \<Rightarrow> u32 \<Rightarrow> gfs2 \<Rightarrow> gfs2 option"
where
  "xmote_send finish env g target lck_flags s = do {
     x \<leftarrow> gs_glocks s g;
     if glock_blocked_by_withdraw env x s \<and>
        (target \<noteq> LM_ST_UNLOCKED \<or> bit (sd_flags s) SDF_WITHDRAW_RECOVERY)
     then (if \<not> is_system_glock g s then xmote_withdrawn env g s
           else do {
             s \<leftarrow> gl_clear GLF_INVALIDATE_IN_PROGRESS g s;
             xmote_request finish env g target lck_flags s
           })
     else xmote_request finish env g target lck_flags s
   }"

definition do_xmote_step ::
  "(glp \<Rightarrow> u32 \<Rightarrow> gfs2 \<Rightarrow> gfs2 option) \<Rightarrow> gfs2_env \<Rightarrow> glp \<Rightarrow> ghp option \<Rightarrow> lm_state \<Rightarrow> gfs2 \<Rightarrow> gfs2 option"
where
  "do_xmote_step finish env g gh target s = do {
     y \<leftarrow> get_gh gh s;
     (lck_flags, s) \<leftarrow> xmote_sync env g y target s;
     (case lck_flags of
        None \<Rightarrow> Some s
      | Some lck_flags \<Rightarrow> do {
          s \<leftarrow> gfs2_glock_hold g s;
          xmote_send finish env g target lck_flags (check_log_error env s)
        })
   }"

text \<open>The switch of \<open>finish_xmote\<close> on a state that is not the wanted one: ask again, or unlock first.\<close>

definition xmote_again ::
  "(glp \<Rightarrow> ghp option \<Rightarrow> lm_state \<Rightarrow> gfs2 \<Rightarrow> gfs2 option) \<Rightarrow> glp \<Rightarrow> ghp option \<Rightarrow> lm_state \<Rightarrow> gfs2 \<Rightarrow> gfs2 option"
where
  "xmote_again xmote g gh st s = do {
     x \<leftarrow> gs_glocks s g;
     (case st of
        LM_ST_UNLOCKED \<Rightarrow> xmote g gh (gl_target x) s
      | LM_ST_SHARED \<Rightarrow> xmote g gh LM_ST_UNLOCKED s
      | LM_ST_DEFERRED \<Rightarrow> xmote g gh LM_ST_UNLOCKED s
      | LM_ST_EXCLUSIVE \<Rightarrow> None)
   }"

text \<open>A cancelled request goes to the back of the queue, and the next one is tried.\<close>

definition xmote_cancelled ::
  "(glp \<Rightarrow> ghp option \<Rightarrow> lm_state \<Rightarrow> gfs2 \<Rightarrow> gfs2 option) \<Rightarrow> glp \<Rightarrow> ghp \<Rightarrow> gfs2 \<Rightarrow> gfs2 option"
where
  "xmote_cancelled xmote g h s = do {
     s \<leftarrow> upd_gl g (\<lambda>x. x\<lparr>gl_holders := remove1 h (gl_holders x) @ [h]\<rparr>) s;
     x \<leftarrow> gs_glocks s g;
     gh \<leftarrow> find_first_waiter x s;
     h \<leftarrow> gh;
     y \<leftarrow> gs_holders s h;
     s \<leftarrow> upd_gl g (\<lambda>x. x\<lparr>gl_target := gh_state y\<rparr>) s;
     (ok, s) \<leftarrow> do_promote g s;
     if ok then gl_clear GLF_LOCK g s
     else do { x \<leftarrow> gs_glocks s g; xmote g (Some h) (gl_target x) s }
   }"

definition finish_unwanted ::
  "(glp \<Rightarrow> ghp option \<Rightarrow> lm_state \<Rightarrow> gfs2 \<Rightarrow> gfs2 option) \<Rightarrow> glp \<Rightarrow> u32 \<Rightarrow> ghp option \<Rightarrow> lm_state \<Rightarrow> gfs2 \<Rightarrow>
   gfs2 option"
where
  "finish_unwanted xmote g ret gh st s = (case gh of
       None \<Rightarrow> xmote_again xmote g gh st s
     | Some h \<Rightarrow> do {
         s \<leftarrow> (if has_flag ret LM_OUT_CANCELED then gfs2_holder_wake h s else Some s);
         x \<leftarrow> gs_glocks s g;
         y \<leftarrow> gs_holders s h;
         if gl_test GLF_DEMOTE_IN_PROGRESS x then xmote_again xmote g gh st s
         else if has_flag ret LM_OUT_CANCELED then xmote_cancelled xmote g h s
         else if has_flag ret LM_OUT_ERROR \<or> has_flag (gh_flags y) (LM_FLAG_TRY OR LM_FLAG_TRY_1CB)
         then do {
           s \<leftarrow> upd_gl g (\<lambda>x. x\<lparr>gl_target := gl_state x\<rparr>) s;
           s \<leftarrow> do_error g ret s;
           gl_clear GLF_LOCK g s
         }
         else xmote_again xmote g gh st s
       })"

definition xmote_bh :: "gfs2_glock \<Rightarrow> gfs2 \<Rightarrow> int \<times> gfs2" where
  "xmote_bh x s = (case go_xmote_bh (gl_ops x) of
       Some f \<Rightarrow> (f (gs_tick s), s\<lparr>gs_tick := gs_tick s + 1\<rparr>)
     | None \<Rightarrow> (0, s))"

definition finish_wanted :: "glp \<Rightarrow> lm_state \<Rightarrow> gfs2 \<Rightarrow> gfs2 option" where
  "finish_wanted g st s = do {
     x \<leftarrow> gs_glocks s g;
     s \<leftarrow> (if gl_test GLF_DEMOTE_IN_PROGRESS x
          then do { s \<leftarrow> gl_clear GLF_DEMOTE_IN_PROGRESS g s; gfs2_demote_wake g s } else Some s);
     if st = LM_ST_UNLOCKED then gl_clear GLF_LOCK g s
     else do {
       let (rv, s) = xmote_bh x s;
       s \<leftarrow> (if rv \<noteq> 0 then do_error g (to32 rv) s else map_option snd (do_promote g s));
       gl_clear GLF_LOCK g s
     }
   }"

definition finish_xmote_step ::
  "(glp \<Rightarrow> ghp option \<Rightarrow> lm_state \<Rightarrow> gfs2 \<Rightarrow> gfs2 option) \<Rightarrow> gfs2_env \<Rightarrow> glp \<Rightarrow> u32 \<Rightarrow> gfs2 \<Rightarrow> gfs2 option"
where
  "finish_xmote_step xmote env g ret s = do {
     let st = lm_out_state ret;
     s \<leftarrow> state_change env g st s;
     x \<leftarrow> gs_glocks s g;
     gh \<leftarrow> find_first_waiter x s;
     s \<leftarrow> (if gl_test GLF_DEMOTE_IN_PROGRESS x \<and> st \<noteq> LM_ST_UNLOCKED \<and> gl_demote_state x = LM_ST_UNLOCKED
          then upd_gl g (\<lambda>x. x\<lparr>gl_target := LM_ST_UNLOCKED\<rparr>) s else Some s);
     x \<leftarrow> gs_glocks s g;
     if st \<noteq> gl_target x then finish_unwanted xmote g ret gh st s else finish_wanted g st s
   }"

text \<open>\<open>do_xmote\<close> and \<open>finish_xmote\<close> call each other. \<open>finish_xmote_n\<close> allows \<open>n\<close> nested calls.\<close>

fun finish_xmote_n :: "nat \<Rightarrow> gfs2_env \<Rightarrow> glp \<Rightarrow> u32 \<Rightarrow> gfs2 \<Rightarrow> gfs2 option" where
  "finish_xmote_n 0 env g ret s = None"
| "finish_xmote_n (Suc n) env g ret s =
     finish_xmote_step (do_xmote_step (finish_xmote_n n env) env) env g ret s"

definition finish_xmote :: "gfs2_env \<Rightarrow> glp \<Rightarrow> u32 \<Rightarrow> gfs2 \<Rightarrow> gfs2 option" where
  "finish_xmote env = finish_xmote_n 4 env"

definition do_xmote :: "gfs2_env \<Rightarrow> glp \<Rightarrow> ghp option \<Rightarrow> lm_state \<Rightarrow> gfs2 \<Rightarrow> gfs2 option" where
  "do_xmote env = do_xmote_step (finish_xmote env) env"

section \<open>Running the queue\<close>

definition run_queue :: "gfs2_env \<Rightarrow> glp \<Rightarrow> bool \<Rightarrow> gfs2 \<Rightarrow> gfs2 option" where
  "run_queue env g nonblock s = do {
     x \<leftarrow> gs_glocks s g;
     if gl_test GLF_LOCK x then Some s
     else do {
       s \<leftarrow> gl_set GLF_LOCK g s;
       _ \<leftarrow> dlm_assert (\<not> gl_test GLF_DEMOTE_IN_PROGRESS x);
       if gl_test GLF_DEMOTE x \<and> gl_demote_state x \<noteq> gl_state x then do {
         h \<leftarrow> find_first_holder x s;
         if h \<noteq> None then gl_clear GLF_LOCK g s
         else if nonblock then do {
           s \<leftarrow> gl_clear GLF_LOCK g s;
           s \<leftarrow> gl_ref_add 1 g s;
           us_us_gfs2_glock_queue_work g 0 s
         }
         else do {
           s \<leftarrow> gl_set GLF_DEMOTE_IN_PROGRESS g s;
           _ \<leftarrow> dlm_assert (gl_demote_state x \<noteq> LM_ST_EXCLUSIVE);
           s \<leftarrow> upd_gl g (\<lambda>x. x\<lparr>gl_target := gl_demote_state x\<rparr>) s;
           do_xmote env g None (gl_demote_state x) s
         }
       }
       else do {
         s \<leftarrow> (if gl_test GLF_DEMOTE x then gfs2_demote_wake g s else Some s);
         (ok, s) \<leftarrow> do_promote g s;
         if ok then gl_clear GLF_LOCK g s
         else do {
           x \<leftarrow> gs_glocks s g;
           gh \<leftarrow> find_first_waiter x s;
           h \<leftarrow> gh;
           y \<leftarrow> gs_holders s h;
           s \<leftarrow> upd_gl g (\<lambda>x. x\<lparr>gl_target := gh_state y\<rparr>) s;
           s \<leftarrow> (if \<not> has_flag (gh_flags y) (LM_FLAG_TRY OR LM_FLAG_TRY_1CB) then do_error g 0 s
                else Some s);
           do_xmote env g (Some h) (gh_state y) s
         }
       }
     }
   }"

section \<open>References and work\<close>

definition us_us_gfs2_glock_put :: "gfs2_env \<Rightarrow> glp \<Rightarrow> gfs2 \<Rightarrow> gfs2 option" where
  "us_us_gfs2_glock_put env g s = do {
     s \<leftarrow> upd_gl g (\<lambda>x. x\<lparr>gl_dead := True\<rparr>) s;
     s \<leftarrow> gfs2_glock_remove_from_lru g s;
     x \<leftarrow> gs_glocks s g;
     _ \<leftarrow> dlm_assert (gl_holders x = []);
     if ls_ops_dlm (sd_lockstruct s) then gdlm_put_lock env g s else nolock_put_lock env g s
   }"

definition gfs2_glock_put :: "gfs2_env \<Rightarrow> glp \<Rightarrow> gfs2 \<Rightarrow> gfs2 option" where
  "gfs2_glock_put env g s = do {
     x \<leftarrow> gs_glocks s g;
     if 1 < gl_count x then gl_ref_add (-1) g s
     else us_us_gfs2_glock_put env g s
   }"

text \<open>The work of a glock; its reference to the glock is dropped at the end, and that of a reply.\<close>

definition demote_delay :: "gfs2_env \<Rightarrow> gfs2_glock \<Rightarrow> gfs2 \<Rightarrow> u64" where
  "demote_delay env x s =
     (let now = g_jiffies env (gs_tick s);
          holdtime = gl_tchange x + word_of_int (gl_hold_time x)
      in if time_before now holdtime then holdtime - now else 0)"

definition glock_work_func :: "gfs2_env \<Rightarrow> glp \<Rightarrow> gfs2 \<Rightarrow> gfs2 option" where
  "glock_work_func env g s = do {
     x \<leftarrow> gs_glocks s g;
     (drop_refs, s) \<leftarrow> (if gl_test GLF_REPLY_PENDING x then do {
          s \<leftarrow> gl_clear GLF_REPLY_PENDING g s;
          s \<leftarrow> finish_xmote env g (ucast (gl_reply x)) s;
          Some (2, s)
        } else Some (1, s));
     x \<leftarrow> gs_glocks s g;
     let pending = (gl_test GLF_PENDING_DEMOTE x \<and> gl_state x \<noteq> LM_ST_UNLOCKED \<and>
        gl_demote_state x \<noteq> LM_ST_EXCLUSIVE);
     let delay = (if pending then demote_delay env x s else 0);
     s \<leftarrow> (if pending \<and> delay = 0
          then do { s \<leftarrow> gl_clear GLF_PENDING_DEMOTE g s; gfs2_set_demote g s } else Some s);
     s \<leftarrow> run_queue env g False s;
     (drop_refs, s) \<leftarrow> (if delay \<noteq> 0 then do {
          let delay = (if gl_ln_type x \<noteq> LM_TYPE_INODE then 0 else delay);
          s \<leftarrow> us_us_gfs2_glock_queue_work g delay s;
          Some (drop_refs - 1, s)
        } else Some (drop_refs, s));
     s \<leftarrow> gl_ref_add (- drop_refs) g s;
     x \<leftarrow> gs_glocks s g;
     if gl_count x = 0 then us_us_gfs2_glock_put env g s else Some s
   }"

end
