(* ===== verification/Gfs2_Queue.thy ===== *)
theory Gfs2_Queue
  imports Gfs2_Glock
begin

text \<open>
  The calls of the glock layer (\<open>glock.c\<close>): finding or creating a glock, holders, enqueueing and
  dequeueing them, waiting, and the list of unused glocks a shrinker demotes. A call that sleeps
  until a holder is no longer waiting is two operations: \<open>gfs2_glock_nq\<close> and \<open>gfs2_glock_wait\<close>,
  \<open>gfs2_glock_dq\<close> and \<open>gfs2_glock_dq_resume\<close>.
\<close>

section \<open>Glocks\<close>

definition find_glock :: "u64 \<Rightarrow> u32 \<Rightarrow> gfs2 \<Rightarrow> glp option" where
  "find_glock number ty s = List.find (\<lambda>g. case gs_glocks s g of
       Some x \<Rightarrow> gl_ln_number x = number \<and> gl_ln_type x = ty | None \<Rightarrow> False) (gl_hash_table s)"

text \<open>\<open>find_insert_glock\<close>: the glock of the name, with a reference, or the new one inserted. It
  sleeps (\<open>None\<close>) while the glock of that name is being freed. The first component is the error.\<close>

definition find_insert_glock ::
  "gfs2_env \<Rightarrow> u64 \<Rightarrow> u32 \<Rightarrow> glp option \<Rightarrow> gfs2 \<Rightarrow> (int \<times> glp option \<times> gfs2) option" where
  "find_insert_glock env number ty new s = do {
     let found = find_glock number ty s;
     (case found of
        Some g \<Rightarrow> do {
          (got, s) \<leftarrow> lockref_get_not_dead g s;
          _ \<leftarrow> dlm_assert got;
          Some (0, Some g, s)
        }
      | None \<Rightarrow> (case new of
          None \<Rightarrow> Some (0, None, s)
        | Some g \<Rightarrow> (let err = rhashtable_insert env (gs_tick s); s = s\<lparr>gs_tick := gs_tick s + 1\<rparr> in
            if err \<noteq> 0 then Some (err, None, s)
            else Some (0, None, s\<lparr>gl_hash_table := g # gl_hash_table s\<rparr>))))
   }"

definition new_glock :: "gfs2_env \<Rightarrow> u64 \<Rightarrow> gfs2_glock_operations \<Rightarrow> lksbp \<Rightarrow> gfs2 \<Rightarrow> gfs2_glock" where
  "new_glock env number glops lksb s = \<lparr>
     gl_flags = (if go_instantiate glops \<noteq> None then push_bit GLF_INSTANTIATE_NEEDED 1 else 0),
     gl_ln_number = number, gl_ln_type = go_type glops, gl_count = 1, gl_dead = False,
     gl_state = LM_ST_UNLOCKED, gl_target = LM_ST_UNLOCKED, gl_demote_state = LM_ST_EXCLUSIVE,
     gl_req = LM_ST_UNLOCKED, gl_reply = 0, gl_demote_time = 0,
     gl_hold_time = GL_GLOCK_HOLD env 5, gl_holders = [], gl_ops = glops, gl_dstamp = 0,
     gl_stats = (sd_lkstats s (go_type glops))[GFS2_LKS_DCOUNT := 0, GFS2_LKS_QCOUNT := 0],
     gl_lksb = lksb, gl_tchange = g_jiffies env (gs_tick s), gl_object = None, gl_ail_count = 0,
     gl_revokes = 0, gl_parent_lkid = 0\<rparr>"

text \<open>\<open>gl_lksb\<close> zeroed, with a value block if the type of glock has one: its address, or \<open>None\<close>
  when there is no memory for it.\<close>

definition init_lksb :: "gfs2_env \<Rightarrow> gfs2_glock_operations \<Rightarrow> lksbp \<Rightarrow> gfs2 \<Rightarrow> gfs2 option" where
  "init_lksb env glops p s = (let d = gs_dlm s;
       put = (\<lambda>b. s\<lparr>gs_dlm := d\<lparr>ls_lksbs := (ls_lksbs d)(p :=
          \<lparr>sb_status = 0, sb_lkid = 0, sb_flags = 0, sb_lvbptr = b\<rparr>)\<rparr>, gs_tick := gs_tick s + 1\<rparr>)
     in if has_flag (go_flags glops) GLOF_LVB
        then (case alloc_gl_lvb env (gs_tick s) of
            None \<Rightarrow> None
          | Some b \<Rightarrow> (let s = put (Some b); d = gs_dlm s in
              Some (s\<lparr>gs_dlm := d\<lparr>ls_lvbs := (ls_lvbs d)(b := replicate GDLM_LVB_SIZE 0)\<rparr>\<rparr>)))
        else Some (put None))"

definition gfs2_glock_get ::
  "gfs2_env \<Rightarrow> u64 \<Rightarrow> gfs2_glock_operations \<Rightarrow> bool \<Rightarrow> gfs2 \<Rightarrow> (int \<times> glp option \<times> gfs2) option" where
  "gfs2_glock_get env number glops create s = do {
     (_, gl, s) \<leftarrow> find_insert_glock env number (go_type glops) None s;
     if gl \<noteq> None then Some (0, gl, s)
     else if \<not> create then Some (-ENOENT, None, s)
     else (case alloc_glock env (\<lambda>g. gs_glocks s g \<noteq> None) (gs_tick s) of
         None \<Rightarrow> Some (-ENOMEM, None, s)
       | Some g \<Rightarrow> (case init_lksb env glops (alloc_lksb env g) s of
           None \<Rightarrow> Some (-ENOMEM, None, s)
         | Some s \<Rightarrow> do {
             let s = s\<lparr>sd_glock_disposal := sd_glock_disposal s + 1,
                gs_glocks := (gs_glocks s)(g \<mapsto> new_glock env number glops (alloc_lksb env g) s)\<rparr>;
             (err, tmp, s) \<leftarrow> find_insert_glock env number (go_type glops) (Some g) s;
             if err = 0 \<and> tmp = None then Some (0, Some g, s)
             else (let s = gfs2_glock_dealloc g s in
               Some (err, tmp, s\<lparr>sd_glock_disposal := sd_glock_disposal s - 1\<rparr>))
           }))
   }"

definition glock_set_object :: "glp \<Rightarrow> nat \<Rightarrow> gfs2 \<Rightarrow> gfs2 option" where
  "glock_set_object g ob s = upd_gl g (\<lambda>x. x\<lparr>gl_object := Some ob\<rparr>) s"

definition glock_clear_object :: "glp \<Rightarrow> gfs2 \<Rightarrow> gfs2 option" where
  "glock_clear_object g s = upd_gl g (\<lambda>x. x\<lparr>gl_object := None\<rparr>) s"

section \<open>Holders\<close>

definition us_us_gfs2_holder_init ::
  "gfs2_env \<Rightarrow> glp \<Rightarrow> lm_state \<Rightarrow> u32 \<Rightarrow> ghp \<Rightarrow> gfs2 \<Rightarrow> gfs2 option" where
  "us_us_gfs2_holder_init env g st flags h s = do {
     s \<leftarrow> gfs2_glock_hold g s;
     let err = (case gs_holders s h of Some y \<Rightarrow> gh_error y | None \<Rightarrow> uninit_int (g_dlm env));
     Some (s\<lparr>gs_holders := (gs_holders s)(h \<mapsto> \<lparr>gh_gl = Some g, gh_owner_pid = Some (g_current env),
        gh_flags = flags, gh_state = st, gh_error = err, gh_iflags = 0\<rparr>)\<rparr>)
   }"

definition gfs2_holder_reinit :: "gfs2_env \<Rightarrow> lm_state \<Rightarrow> u32 \<Rightarrow> ghp \<Rightarrow> gfs2 \<Rightarrow> gfs2 option" where
  "gfs2_holder_reinit env st flags h s = upd_gh h (\<lambda>y. y\<lparr>gh_state := st, gh_flags := flags,
     gh_iflags := 0, gh_owner_pid := Some (g_current env)\<rparr>) s"

definition gfs2_holder_uninit :: "gfs2_env \<Rightarrow> ghp \<Rightarrow> gfs2 \<Rightarrow> gfs2 option" where
  "gfs2_holder_uninit env h s = do {
     y \<leftarrow> gs_holders s h;
     g \<leftarrow> gh_gl y;
     s \<leftarrow> gfs2_glock_put env g s;
     upd_gh h (\<lambda>y. y\<lparr>gh_gl := None\<rparr>) s
   }"

definition pid_is_meaningful :: "gfs2_holder \<Rightarrow> bool" where
  "pid_is_meaningful y \<longleftrightarrow> \<not> has_flag (gh_flags y) GL_NOPID \<or> gh_state y = LM_ST_UNLOCKED"

text \<open>The recursion check of \<open>add_to_queue\<close>: the owner must not be on the queue already.\<close>

fun recursive_holder :: "gfs2 \<Rightarrow> gfs2_glock \<Rightarrow> gfs2_holder \<Rightarrow> ghp list \<Rightarrow> bool option" where
  "recursive_holder s x y [] = Some False"
| "recursive_holder s x y (h2 # hs) = do {
     y2 \<leftarrow> gs_holders s h2;
     if gh_owner_pid y2 \<noteq> gh_owner_pid y then recursive_holder s x y hs
     else if go_type (gl_ops x) = LM_TYPE_FLOCK then recursive_holder s x y hs
     else if \<not> pid_is_meaningful y2 then recursive_holder s x y hs
     else Some True
   }"

text \<open>Whether some holder on the queue is not a try lock.\<close>

fun non_try_holder :: "gfs2 \<Rightarrow> ghp list \<Rightarrow> bool option" where
  "non_try_holder s [] = Some False"
| "non_try_holder s (h2 # hs) = do {
     y2 \<leftarrow> gs_holders s h2;
     if \<not> has_flag (gh_flags y2) (LM_FLAG_TRY OR LM_FLAG_TRY_1CB) then Some True
     else non_try_holder s hs
   }"

definition fail_try :: "ghp \<Rightarrow> gfs2 \<Rightarrow> gfs2 option" where
  "fail_try h s = do {
     s \<leftarrow> upd_gh h (\<lambda>y. y\<lparr>gh_error := GLR_TRYFAILED\<rparr>) s;
     gfs2_holder_wake h s
   }"

text \<open>Whether a try lock fails at once: the glock is being invalidated, or what it waits for is not
  going to come. The owner must not be on the queue already.\<close>

definition add_fails :: "gfs2_holder \<Rightarrow> gfs2_glock \<Rightarrow> gfs2 \<Rightarrow> bool option" where
  "add_fails y x s = do {
     let try = has_flag (gh_flags y) (LM_FLAG_TRY OR LM_FLAG_TRY_1CB);
     try_futile \<leftarrow> (if try \<and> gl_test GLF_LOCK x then do {
          cur \<leftarrow> find_first_holder x s;
          c \<leftarrow> get_gh cur s;
          map_option Not (may_grant x c y)
        } else Some False);
     if try \<and> gl_test GLF_INVALIDATE_IN_PROGRESS x then Some True
     else do {
       recursive \<leftarrow> recursive_holder s x y (gl_holders x);
       _ \<leftarrow> dlm_assert (\<not> recursive);
       if try_futile then non_try_holder s (gl_holders x) else Some False
     }
   }"

definition enqueued :: "ghp \<Rightarrow> gfs2_glock \<Rightarrow> gfs2_glock" where
  "enqueued h x = x\<lparr>gl_holders := gl_holders x @ [h]\<rparr>"

definition enqueue_holder :: "ghp \<Rightarrow> glp \<Rightarrow> gfs2 \<Rightarrow> gfs2 option" where
  "enqueue_holder h g s = do {
     s \<leftarrow> gfs2_stats_inc GFS2_LKS_QCOUNT g s;
     upd_gl g (enqueued h) s
   }"

text \<open>\<open>insert_pt\<close> of \<open>add_to_queue\<close> is never set, so a holder always goes to the end.\<close>

definition add_to_queue :: "ghp \<Rightarrow> gfs2 \<Rightarrow> gfs2 option" where
  "add_to_queue h s = do {
     y \<leftarrow> gs_holders s h;
     g \<leftarrow> gh_gl y;
     x \<leftarrow> gs_glocks s g;
     _ \<leftarrow> dlm_assert (gh_owner_pid y \<noteq> None);
     _ \<leftarrow> dlm_assert (\<not> gh_test HIF_WAIT y);
     s \<leftarrow> upd_gh h (\<lambda>y. y\<lparr>gh_iflags := set_bit HIF_WAIT (gh_iflags y)\<rparr>) s;
     fails \<leftarrow> add_fails y x s;
     if fails then fail_try h s else enqueue_holder h g s
   }"

section \<open>Dequeueing\<close>

definition needs_demote :: "gfs2_glock \<Rightarrow> bool" where
  "needs_demote x \<longleftrightarrow> gl_test GLF_DEMOTE x \<or> gl_test GLF_PENDING_DEMOTE x"

definition dequeue_holder :: "ghp \<Rightarrow> glp \<Rightarrow> gfs2 \<Rightarrow> gfs2 option" where
  "dequeue_holder h g s = do {
     s \<leftarrow> upd_gl g (\<lambda>x. x\<lparr>gl_holders := remove1 h (gl_holders x)\<rparr>) s;
     upd_gh h (\<lambda>y. y\<lparr>gh_iflags := unset_bit HIF_HOLDER (gh_iflags y)\<rparr>) s
   }"

text \<open>What remains to do with the glock: put it on the list of unused glocks, run its work.\<close>

definition dq_schedule :: "glp \<Rightarrow> gfs2 \<Rightarrow> gfs2 option" where
  "dq_schedule g s = do {
     x \<leftarrow> gs_glocks s g;
     s \<leftarrow> (if \<not> gl_test GLF_LFLUSH x \<and> demote_ok x s then gfs2_glock_add_to_lru g s else Some s);
     if \<not> needs_demote x \<and> gl_holders x = [] then Some s
     else do {
       s \<leftarrow> gl_ref_add 1 g s;
       let delay = (if gl_test GLF_PENDING_DEMOTE x \<and> \<not> gl_test GLF_DEMOTE x \<and>
            gl_ln_type x = LM_TYPE_INODE then word_of_int (gl_hold_time x) else 0);
       us_us_gfs2_glock_queue_work g (ucast (delay :: u32)) s
     }
   }"

definition us_us_gfs2_glock_dq :: "gfs2_env \<Rightarrow> ghp \<Rightarrow> gfs2 \<Rightarrow> gfs2 option" where
  "us_us_gfs2_glock_dq env h s = do {
     y \<leftarrow> gs_holders s h;
     g \<leftarrow> gh_gl y;
     s \<leftarrow> (if has_flag (gh_flags y) GL_NOCACHE then handle_callback env g LM_ST_UNLOCKED 0 False s
          else Some s);
     s \<leftarrow> dequeue_holder h g s;
     dq_schedule g s
   }"

text \<open>\<open>gfs2_glock_dq\<close> from the place where it sleeps while a cancelled holder still waits: called when
  \<open>HIF_WAIT\<close> is clear. It sleeps for good (\<open>None\<close>) while the journal of a withdrawn file system is
  being recovered.\<close>

definition gfs2_glock_dq_resume :: "gfs2_env \<Rightarrow> ghp \<Rightarrow> gfs2 \<Rightarrow> gfs2 option" where
  "gfs2_glock_dq_resume env h s = do {
     y \<leftarrow> gs_holders s h;
     g \<leftarrow> gh_gl y;
     x \<leftarrow> gs_glocks s g;
     _ \<leftarrow> dlm_assert (\<not> gh_test HIF_WAIT y);
     if bit (sd_flags s) SDF_WITHDRAW_RECOVERY \<and> glock_blocked_by_withdraw env x s \<and>
        sd_jinode_gl s \<noteq> Some g
     then None
     else us_us_gfs2_glock_dq env h s
   }"

text \<open>The result tells whether the holder is dequeued, or the caller sleeps.\<close>

definition gfs2_glock_dq :: "gfs2_env \<Rightarrow> ghp \<Rightarrow> gfs2 \<Rightarrow> (bool \<times> gfs2) option" where
  "gfs2_glock_dq env h s = do {
     y \<leftarrow> gs_holders s h;
     g \<leftarrow> gh_gl y;
     x \<leftarrow> gs_glocks s g;
     if h \<notin> set (gl_holders x) then Some (True, s)
     else if hd (gl_holders x) = h \<and> \<not> gh_test HIF_HOLDER y then do {
       _ \<leftarrow> dlm_assert (ls_ops_dlm (sd_lockstruct s));
       s \<leftarrow> gdlm_cancel env g s;
       if gh_test HIF_WAIT y then Some (False, s)
       else do { s \<leftarrow> gfs2_glock_dq_resume env h s; Some (True, s) }
     }
     else do {
       s \<leftarrow> (if bit (sd_flags s) SDF_WITHDRAW_RECOVERY \<and> glock_blocked_by_withdraw env x s \<and>
               sd_jinode_gl s \<noteq> Some g
            then None else us_us_gfs2_glock_dq env h s);
       Some (True, s)
     }
   }"

section \<open>Acquiring\<close>

definition gfs2_glock_update_hold_time :: "gfs2_env \<Rightarrow> glp \<Rightarrow> u64 \<Rightarrow> gfs2 \<Rightarrow> gfs2 option" where
  "gfs2_glock_update_hold_time env g start_time s =
     (if time_after (g_jiffies env (gs_tick s)) (start_time + hz (g_dlm env))
      then upd_gl g (\<lambda>x. x\<lparr>gl_hold_time := min (gl_hold_time x + GL_GLOCK_HOLD env 20) (GL_GLOCK_HOLD env 5)\<rparr>) s
      else Some s)"

text \<open>It sleeps (\<open>None\<close>) while another process runs \<open>go_instantiate\<close>.\<close>

definition run_instantiate :: "glp \<Rightarrow> gfs2 \<Rightarrow> (int \<times> gfs2) option" where
  "run_instantiate g s = do {
     x \<leftarrow> gs_glocks s g;
     if \<not> gl_test GLF_INSTANTIATE_NEEDED x then Some (0, s)
     else do {
       _ \<leftarrow> dlm_assert (\<not> gl_test GLF_INSTANTIATE_IN_PROG x);
       f \<leftarrow> go_instantiate (gl_ops x);
       let ret = f (gs_tick s);
       let s = s\<lparr>gs_tick := gs_tick s + 1\<rparr>;
       s \<leftarrow> (if ret = 0 then gl_clear GLF_INSTANTIATE_NEEDED g s else Some s);
       Some (ret, s)
     }
   }"

definition gfs2_instantiate :: "gfs2_env \<Rightarrow> ghp \<Rightarrow> gfs2 \<Rightarrow> (int \<times> gfs2) option" where
  "gfs2_instantiate env h s = do {
     y \<leftarrow> gs_holders s h;
     g \<leftarrow> gh_gl y;
     x \<leftarrow> gs_glocks s g;
     (ret, s) \<leftarrow> run_instantiate g s;
     if ret \<noteq> 0 then Some (ret, s)
     else (case go_held (gl_ops x) of
         Some f \<Rightarrow> Some (f (gs_tick s), s\<lparr>gs_tick := gs_tick s + 1\<rparr>)
       | None \<Rightarrow> Some (0, s))
   }"

text \<open>A granted holder that cannot be used is dequeued; it does not sleep for that.\<close>

definition gfs2_glock_holder_ready :: "gfs2_env \<Rightarrow> ghp \<Rightarrow> gfs2 \<Rightarrow> (int \<times> gfs2) option" where
  "gfs2_glock_holder_ready env h s = do {
     y \<leftarrow> gs_holders s h;
     if gh_error y \<noteq> 0 \<or> has_flag (gh_flags y) GL_SKIP then Some (gh_error y, s)
     else do {
       (err, s) \<leftarrow> gfs2_instantiate env h s;
       s \<leftarrow> upd_gh h (\<lambda>y. y\<lparr>gh_error := err\<rparr>) s;
       if err \<noteq> 0 then do {
         (done, s) \<leftarrow> gfs2_glock_dq env h s;
         _ \<leftarrow> dlm_assert done;
         Some (err, s)
       } else Some (err, s)
     }
   }"

text \<open>\<open>gfs2_glock_wait\<close> once \<open>HIF_WAIT\<close> is clear; before that it sleeps (\<open>None\<close>).\<close>

definition gfs2_glock_wait :: "gfs2_env \<Rightarrow> ghp \<Rightarrow> u64 \<Rightarrow> gfs2 \<Rightarrow> (int \<times> gfs2) option" where
  "gfs2_glock_wait env h start_time s = do {
     y \<leftarrow> gs_holders s h;
     g \<leftarrow> gh_gl y;
     _ \<leftarrow> dlm_assert (\<not> gh_test HIF_WAIT y);
     s \<leftarrow> gfs2_glock_update_hold_time env g start_time s;
     gfs2_glock_holder_ready env h s
   }"

definition gfs2_glock_poll :: "gfs2_holder \<Rightarrow> bool" where
  "gfs2_glock_poll y \<longleftrightarrow> \<not> gh_test HIF_WAIT y"

text \<open>Enqueueing. The first component is the error, or \<open>None\<close> when the caller now sleeps in
  \<open>gfs2_glock_wait\<close>.\<close>

definition thaw_noexp :: "glp \<Rightarrow> u32 \<Rightarrow> gfs2 \<Rightarrow> gfs2 option" where
  "thaw_noexp g flags s = do {
     x \<leftarrow> gs_glocks s g;
     if has_flag flags LM_FLAG_NOEXP \<and> gl_test GLF_FROZEN x then do {
       s \<leftarrow> gl_clear GLF_FROZEN g s;
       s \<leftarrow> gl_set GLF_REPLY_PENDING g s;
       s \<leftarrow> gl_ref_add 1 g s;
       us_us_gfs2_glock_queue_work g 0 s
     } else Some s
   }"

definition gfs2_glock_nq :: "gfs2_env \<Rightarrow> ghp \<Rightarrow> gfs2 \<Rightarrow> (int option \<times> gfs2) option" where
  "gfs2_glock_nq env h s = do {
     y \<leftarrow> gs_holders s h;
     g \<leftarrow> gh_gl y;
     x \<leftarrow> gs_glocks s g;
     if glock_blocked_by_withdraw env x s \<and> \<not> has_flag (gh_flags y) LM_FLAG_NOEXP
     then Some (Some (-EIO), s)
     else do {
       s \<leftarrow> (if gl_test GLF_LRU x then gfs2_glock_remove_from_lru g s else Some s);
       s \<leftarrow> upd_gh h (\<lambda>y. y\<lparr>gh_error := 0\<rparr>) s;
       s \<leftarrow> add_to_queue h s;
       s \<leftarrow> thaw_noexp g (gh_flags y) s;
       s \<leftarrow> run_queue env g True s;
       if has_flag (gh_flags y) GL_ASYNC then Some (Some 0, s)
       else do {
         y \<leftarrow> gs_holders s h;
         if gh_test HIF_WAIT y then Some (None, s)
         else do {
           (error, s) \<leftarrow> gfs2_glock_wait env h (g_jiffies env (gs_tick s)) s;
           Some (Some error, s)
         }
       }
     }
   }"

section \<open>Multiple glocks\<close>

text \<open>The order in which \<open>nq_m_sync\<close> takes several glocks: by lock number. Two glocks of the same
  number must be of different types.\<close>

definition holder_glock :: "gfs2 \<Rightarrow> ghp \<Rightarrow> gfs2_glock option" where
  "holder_glock s h = do { y \<leftarrow> gs_holders s h; g \<leftarrow> gh_gl y; gs_glocks s g }"

definition glock_compare :: "gfs2_glock \<Rightarrow> gfs2_glock \<Rightarrow> int option" where
  "glock_compare a b =
     (if gl_ln_number b < gl_ln_number a then Some 1
      else if gl_ln_number a < gl_ln_number b then Some (-1)
      else do { _ \<leftarrow> dlm_assert (go_type (gl_ops a) \<noteq> go_type (gl_ops b)); Some 0 })"

section \<open>Unused glocks\<close>

text \<open>\<open>gfs2_dispose_glock_lru\<close> on one glock, after the list has been sorted by \<open>glock_cmp\<close>; a glock
  that is locked or in use goes back to the list.\<close>

definition add_back_to_lru :: "glp \<Rightarrow> gfs2 \<Rightarrow> gfs2 option" where
  "add_back_to_lru g s = gl_set GLF_LRU g (s\<lparr>lru_list := g # lru_list s, lru_count := lru_count s + 1\<rparr>)"

definition dispose_glock :: "gfs2_env \<Rightarrow> glp \<Rightarrow> gfs2 \<Rightarrow> gfs2 option" where
  "dispose_glock env g s = do {
     s \<leftarrow> gl_clear GLF_LRU g s;
     let lock = spin_trylock env (gs_tick s);
     let s = s\<lparr>gs_tick := gs_tick s + 1\<rparr>;
     x \<leftarrow> gs_glocks s g;
     if \<not> lock then add_back_to_lru g s
     else if gl_test GLF_LOCK x then add_back_to_lru g s
     else do {
       s \<leftarrow> gl_set GLF_LOCK g s;
       s \<leftarrow> gl_ref_add 1 g s;
       s \<leftarrow> (if demote_ok x s then handle_callback env g LM_ST_UNLOCKED 0 False s else Some s);
       s \<leftarrow> gl_clear GLF_LOCK g s;
       us_us_gfs2_glock_queue_work g 0 s
     }
   }"

fun dispose_list :: "gfs2_env \<Rightarrow> glp list \<Rightarrow> gfs2 \<Rightarrow> gfs2 option" where
  "dispose_list env [] s = Some s"
| "dispose_list env (g # gs) s = do { s \<leftarrow> dispose_glock env g s; dispose_list env gs s }"

definition gfs2_dispose_glock_lru :: "gfs2_env \<Rightarrow> glp list \<Rightarrow> gfs2 \<Rightarrow> gfs2 option" where
  "gfs2_dispose_glock_lru env gs s =
     dispose_list env (sort_key (\<lambda>g. case gs_glocks s g of Some x \<Rightarrow> gl_ln_number x | None \<Rightarrow> 0) gs) s"

text \<open>The scan takes up to \<open>nr\<close> glocks off the list, those that are unused and unlocked or may be
  demoted. Each goes to the front of the list to dispose of.\<close>

fun scan_lru :: "gfs2_env \<Rightarrow> nat \<Rightarrow> glp list \<Rightarrow> glp list \<Rightarrow> gfs2 \<Rightarrow> (glp list \<times> gfs2) option" where
  "scan_lru env nr [] dispose s = Some (dispose, s)"
| "scan_lru env nr (g # gs) dispose s =
     (if nr = 0 then Some (dispose, s)
      else do {
        x \<leftarrow> gs_glocks s g;
        if gl_test GLF_LOCK x then scan_lru env (nr - 1) gs dispose s
        else if \<not> spin_trylock env (gs_tick s) then scan_lru env (nr - 1) gs dispose (s\<lparr>gs_tick := gs_tick s + 1\<rparr>)
        else (let s = s\<lparr>gs_tick := gs_tick s + 1\<rparr> in
          if gl_count x \<le> 1 \<and> (gl_state x = LM_ST_UNLOCKED \<or> demote_ok x s)
          then scan_lru env (nr - 1) gs (g # dispose)
             (s\<lparr>lru_list := remove1 g (lru_list s), lru_count := lru_count s - 1\<rparr>)
          else scan_lru env (nr - 1) gs dispose s)
      })"

definition gfs2_scan_glock_lru :: "gfs2_env \<Rightarrow> nat \<Rightarrow> gfs2 \<Rightarrow> (nat \<times> gfs2) option" where
  "gfs2_scan_glock_lru env nr s = do {
     (dispose, s) \<leftarrow> scan_lru env nr (lru_list s) [] s;
     s \<leftarrow> gfs2_dispose_glock_lru env dispose s;
     Some (length dispose, s)
   }"

section \<open>Unmounting and withdrawing\<close>

definition clear_glock :: "gfs2_env \<Rightarrow> glp \<Rightarrow> gfs2 \<Rightarrow> gfs2 option" where
  "clear_glock env g s = do {
     s \<leftarrow> gfs2_glock_remove_from_lru g s;
     x \<leftarrow> gs_glocks s g;
     if gl_dead x then Some s
     else do {
       s \<leftarrow> gl_ref_add 1 g s;
       s \<leftarrow> (if gl_state x \<noteq> LM_ST_UNLOCKED then handle_callback env g LM_ST_UNLOCKED 0 False s else Some s);
       us_us_gfs2_glock_queue_work g 0 s
     }
   }"

definition withdraw_dq :: "gfs2_env \<Rightarrow> glp \<Rightarrow> gfs2 \<Rightarrow> gfs2 option" where
  "withdraw_dq env g s = do {
     x \<leftarrow> gs_glocks s g;
     if \<not> gl_dead x \<and> glock_blocked_by_withdraw env x s then do_error g LM_OUT_ERROR s else Some s
   }"

definition gfs2_gl_dq_holders :: "gfs2_env \<Rightarrow> gfs2 \<Rightarrow> gfs2 option" where
  "gfs2_gl_dq_holders env s = glock_hash_walk (withdraw_dq env) (gl_hash_table s) s"

text \<open>The work that evicts the inode of a glock is only queued here.\<close>

definition queue_delete_work :: "nat \<Rightarrow> glp \<Rightarrow> gfs2 \<Rightarrow> (bool \<times> gfs2) option" where
  "queue_delete_work flag g s = do {
     x \<leftarrow> gs_glocks s g;
     if gl_test flag x then Some (False, s)
     else do {
       s \<leftarrow> gl_set flag g s;
       Some (\<not> gs_delete_work s g, s\<lparr>gs_delete_work := (gs_delete_work s)(g := True)\<rparr>)
     }
   }"

definition gfs2_queue_try_to_evict :: "glp \<Rightarrow> gfs2 \<Rightarrow> (bool \<times> gfs2) option" where
  "gfs2_queue_try_to_evict g s = queue_delete_work GLF_TRY_TO_EVICT g s"

definition gfs2_queue_verify_evict :: "glp \<Rightarrow> gfs2 \<Rightarrow> (bool \<times> gfs2) option" where
  "gfs2_queue_verify_evict g s = queue_delete_work GLF_VERIFY_EVICT g s"

definition gfs2_cancel_delete_work :: "gfs2_env \<Rightarrow> glp \<Rightarrow> gfs2 \<Rightarrow> gfs2 option" where
  "gfs2_cancel_delete_work env g s = do {
     s \<leftarrow> gl_clear GLF_TRY_TO_EVICT g s;
     s \<leftarrow> gl_clear GLF_VERIFY_EVICT g s;
     if gs_delete_work s g
     then gfs2_glock_put env g (s\<lparr>gs_delete_work := (gs_delete_work s)(g := False)\<rparr>)
     else Some s
   }"

end
