(* ===== verification/Gfs2_Inv.thy ===== *)
theory Gfs2_Inv
  imports Gfs2_Queue
begin

text \<open>
  The invariant of the glock layer. Of every glock: its queue holds distinct holders of this
  glock, the granted ones first; two granted holders may share the glock, the state of the glock
  covers each of them, and while the lock manager is asked for another state (\<open>GLF_LOCK\<close>) nobody
  is granted. The lemmas say for each operation what it changes of that.
\<close>

section \<open>The invariant\<close>

definition holder :: "gfs2 \<Rightarrow> ghp \<Rightarrow> gfs2_holder" where
  "holder s h = the (gs_holders s h)"

definition held :: "gfs2 \<Rightarrow> ghp \<Rightarrow> bool" where
  "held s h \<longleftrightarrow> (\<exists>y. gs_holders s h = Some y \<and> gh_test HIF_HOLDER y)"

definition may_share :: "gfs2_holder \<Rightarrow> gfs2_holder \<Rightarrow> bool" where
  "may_share y z \<longleftrightarrow> gh_state y = gh_state z \<and>
     (gh_state y = LM_ST_SHARED \<or> gh_state y = LM_ST_DEFERRED \<or>
      gh_state y = LM_ST_EXCLUSIVE \<and> has_flag (gh_flags y) LM_FLAG_NODE_SCOPE \<and>
      has_flag (gh_flags z) LM_FLAG_NODE_SCOPE)"

text \<open>A granted holder has the state of the glock, or is a reader (shared or deferred) of a glock that
  is not unlocked.\<close>

definition reader :: "gfs2_holder \<Rightarrow> bool" where
  "reader y \<longleftrightarrow> gh_state y = LM_ST_SHARED \<or> gh_state y = LM_ST_DEFERRED"

definition covers :: "lm_state \<Rightarrow> gfs2_holder \<Rightarrow> bool" where
  "covers st y \<longleftrightarrow> gh_state y = st \<or> reader y \<and> st \<noteq> LM_ST_UNLOCKED"

text \<open>\<open>LM_FLAG_ANY\<close> is for readers (\<open>glock.h\<close>).\<close>

definition any_ok :: "gfs2_holder \<Rightarrow> bool" where
  "any_ok y \<longleftrightarrow> has_flag (gh_flags y) LM_FLAG_ANY \<longrightarrow> reader y"

definition queue_ok :: "gfs2 \<Rightarrow> glp \<Rightarrow> ghp list \<Rightarrow> bool" where
  "queue_ok s g hs \<longleftrightarrow> distinct hs \<and>
     (\<forall>h\<in>set hs. gs_holders s h \<noteq> None \<and> gh_gl (holder s h) = Some g \<and> any_ok (holder s h)) \<and>
     sorted_wrt (\<lambda>a b. held s b \<longrightarrow> held s a) hs \<and>
     (\<forall>a\<in>set hs. \<forall>b\<in>set hs. a \<noteq> b \<and> held s a \<and> held s b \<longrightarrow> may_share (holder s a) (holder s b))"

definition glock_ok :: "gfs2 \<Rightarrow> glp \<Rightarrow> gfs2_glock \<Rightarrow> bool" where
  "glock_ok s g x \<longleftrightarrow> queue_ok s g (gl_holders x) \<and>
     (\<forall>h\<in>set (gl_holders x). held s h \<longrightarrow> covers (gl_state x) (holder s h)) \<and>
     (gl_dead x \<longrightarrow> gl_holders x = [])"

definition lock_ok :: "gfs2 \<Rightarrow> gfs2_glock \<Rightarrow> bool" where
  "lock_ok s x \<longleftrightarrow> (gl_test GLF_LOCK x \<longrightarrow> (\<forall>h\<in>set (gl_holders x). \<not> held s h)) \<and>
     (gl_test GLF_REPLY_PENDING x \<or> gl_test GLF_FROZEN x \<longrightarrow> gl_test GLF_LOCK x) \<and>
     \<not> (gl_test GLF_REPLY_PENDING x \<and> gl_test GLF_FROZEN x)"

definition gfs2_inv :: "gfs2 \<Rightarrow> bool" where
  "gfs2_inv s \<longleftrightarrow> (\<forall>g x. gs_glocks s g = Some x \<longrightarrow> glock_ok s g x \<and> lock_ok s x) \<and>
     (\<forall>h. held s h \<longrightarrow> (\<exists>g x. gs_glocks s g = Some x \<and> gh_gl (holder s h) = Some g \<and> h \<in> set (gl_holders x)))"

section \<open>What the invariant depends on\<close>

definition gl_core :: "gfs2_glock \<Rightarrow> lm_state \<times> ghp list \<times> bool \<times> bool \<times> bool \<times> bool" where
  "gl_core x = (gl_state x, gl_holders x, gl_test GLF_LOCK x, gl_test GLF_REPLY_PENDING x,
     gl_test GLF_FROZEN x, gl_dead x)"

definition gh_core :: "gfs2_holder \<Rightarrow> glp option \<times> lm_state \<times> u32 \<times> bool" where
  "gh_core y = (gh_gl y, gh_state y, gh_flags y, gh_test HIF_HOLDER y)"

definition gsame :: "gfs2 \<Rightarrow> gfs2 \<Rightarrow> bool" where
  "gsame s s' \<longleftrightarrow> (\<forall>g. map_option gl_core (gs_glocks s' g) = map_option gl_core (gs_glocks s g)) \<and>
     (\<forall>h. map_option gh_core (gs_holders s' h) = map_option gh_core (gs_holders s h))"

lemma gsame_refl [simp]: "gsame s s"
  by (simp add: gsame_def)

lemma gsame_trans: "gsame s t \<Longrightarrow> gsame t u \<Longrightarrow> gsame s u"
  by (simp add: gsame_def)

lemma gl_core_eqD:
  "map_option gl_core o' = Some (gl_core x) \<Longrightarrow> \<exists>x'. o' = Some x' \<and> gl_state x' = gl_state x \<and>
     gl_holders x' = gl_holders x \<and> gl_dead x' = gl_dead x \<and> gl_test GLF_LOCK x' = gl_test GLF_LOCK x \<and>
     gl_test GLF_REPLY_PENDING x' = gl_test GLF_REPLY_PENDING x \<and> gl_test GLF_FROZEN x' = gl_test GLF_FROZEN x"
  by (cases o') (simp_all add: gl_core_def)

lemma sameD:
  assumes "gsame s s'" and "gs_glocks s g = Some x"
  shows "\<exists>x'. gs_glocks s' g = Some x' \<and> gl_core x' = gl_core x"
proof -
  have "map_option gl_core (gs_glocks s' g) = Some (gl_core x)" using assms by (simp add: gsame_def)
  then show ?thesis by (cases "gs_glocks s' g") simp_all
qed

lemma gsame_sym: "gsame s s' \<Longrightarrow> gsame s' s"
  by (simp add: gsame_def)

lemma same_held: "gsame s s' \<Longrightarrow> held s' h = held s h"
proof -
  assume "gsame s s'"
  then have "map_option gh_core (gs_holders s' h) = map_option gh_core (gs_holders s h)"
    by (simp add: gsame_def)
  then show ?thesis
    by (cases "gs_holders s' h"; cases "gs_holders s h") (simp_all add: held_def gh_core_def)
qed

text \<open>An operation on glock \<open>g\<close> leaves the other glocks and their holders alone, and changes of the
  holders of \<open>g\<close> only whether they are granted.\<close>

definition gh_fix :: "gfs2_holder \<Rightarrow> glp option \<times> lm_state \<times> u32" where
  "gh_fix y = (gh_gl y, gh_state y, gh_flags y)"

definition off :: "glp \<Rightarrow> gfs2 \<Rightarrow> gfs2 \<Rightarrow> bool" where
  "off g s s' \<longleftrightarrow> (\<forall>g'. g' \<noteq> g \<longrightarrow> map_option gl_core (gs_glocks s' g') = map_option gl_core (gs_glocks s g')) \<and>
     (\<forall>h. map_option gh_fix (gs_holders s' h) = map_option gh_fix (gs_holders s h)) \<and>
     (\<forall>h. gh_gl (holder s h) \<noteq> Some g \<longrightarrow> held s' h = held s h)"

lemma off_refl [simp]: "off g s s"
  by (simp add: off_def)

lemma fix_gl: "map_option gh_fix a = map_option gh_fix b \<Longrightarrow>
    a = None \<and> b = None \<or> (\<exists>y z. a = Some y \<and> b = Some z \<and> gh_gl y = gh_gl z \<and> gh_state y = gh_state z \<and> gh_flags y = gh_flags z)"
  by (cases a; cases b) (simp_all add: gh_fix_def)

lemma off_fix:
  assumes "off g s s'"
  shows "(gs_holders s' h = None) = (gs_holders s h = None)" "gh_gl (holder s' h) = gh_gl (holder s h)"
    "may_share (holder s' h) (holder s' k) = may_share (holder s h) (holder s k)"
    "covers st (holder s' h) = covers st (holder s h)" "any_ok (holder s' h) = any_ok (holder s h)"
proof -
  have f: "map_option gh_fix (gs_holders s' h) = map_option gh_fix (gs_holders s h)" for h
    using assms by (simp add: off_def)
  have e: "gh_gl (holder s' h) = gh_gl (holder s h) \<and> gh_state (holder s' h) = gh_state (holder s h) \<and>
      gh_flags (holder s' h) = gh_flags (holder s h)" for h
    using fix_gl [OF f [of h]] by (auto simp: holder_def)
  show "(gs_holders s' h = None) = (gs_holders s h = None)" using fix_gl [OF f [of h]] by auto
  show "gh_gl (holder s' h) = gh_gl (holder s h)" using e by simp
  show "may_share (holder s' h) (holder s' k) = may_share (holder s h) (holder s k)"
    using e by (simp add: may_share_def)
  show "covers st (holder s' h) = covers st (holder s h)" using e by (simp add: covers_def reader_def)
  show "any_ok (holder s' h) = any_ok (holder s h)" using e by (simp add: any_ok_def reader_def)
qed

lemma off_trans: "off g s t \<Longrightarrow> off g t u \<Longrightarrow> off g s u"
proof -
  assume 1: "off g s t" and 2: "off g t u"
  have h: "held u h = held s h" if "gh_gl (holder s h) \<noteq> Some g" for h
  proof -
    have "gh_gl (holder t h) \<noteq> Some g" using off_fix(2) [OF 1, of h] that by argo
    then have "held u h = held t h" using 2 unfolding off_def by blast
    moreover have "held t h = held s h" using 1 that unfolding off_def by blast
    ultimately show ?thesis by (rule trans)
  qed
  have c: "map_option gl_core (gs_glocks u g') = map_option gl_core (gs_glocks s g')" if "g' \<noteq> g" for g'
  proof -
    have "map_option gl_core (gs_glocks u g') = map_option gl_core (gs_glocks t g')"
      using 2 that unfolding off_def by blast
    also have "\<dots> = map_option gl_core (gs_glocks s g')" using 1 that unfolding off_def by blast
    finally show ?thesis .
  qed
  have f: "map_option gh_fix (gs_holders u h) = map_option gh_fix (gs_holders s h)" for h
  proof -
    have "map_option gh_fix (gs_holders u h) = map_option gh_fix (gs_holders t h)"
      using 2 unfolding off_def by blast
    also have "\<dots> = map_option gh_fix (gs_holders s h)" using 1 unfolding off_def by blast
    finally show ?thesis .
  qed
  show ?thesis unfolding off_def using h c f by blast
qed

lemma gh_core_fix: "map_option gh_core a = map_option gh_core b \<Longrightarrow> map_option gh_fix a = map_option gh_fix b"
  by (cases a; cases b) (simp_all add: gh_core_def gh_fix_def)

lemma same_off:
  assumes "gsame s s'"
  shows "off g s s'"
proof -
  have f: "map_option gh_fix (gs_holders s' h) = map_option gh_fix (gs_holders s h)" for h
    by (rule gh_core_fix) (use assms in \<open>simp add: gsame_def\<close>)
  have c: "map_option gl_core (gs_glocks s' g') = map_option gl_core (gs_glocks s g')" for g'
    using assms unfolding gsame_def by blast
  show ?thesis unfolding off_def using f c same_held [OF assms] by blast
qed

section \<open>One glock\<close>

definition loc :: "glp \<Rightarrow> gfs2 \<Rightarrow> bool" where
  "loc g s \<longleftrightarrow> (\<exists>x. gs_glocks s g = Some x \<and> glock_ok s g x \<and>
     (\<forall>h. held s h \<and> gh_gl (holder s h) = Some g \<longrightarrow> h \<in> set (gl_holders x)))"

lemma glock_ok_cong:
  assumes "off g s s'" and "\<And>h. h \<in> set (gl_holders x) \<Longrightarrow> held s' h = held s h"
    and "gl_state x' = gl_state x" "gl_holders x' = gl_holders x" "gl_dead x' = gl_dead x"
  shows "glock_ok s' g' x' = glock_ok s g' x"
proof -
  have sw: "sorted_wrt (\<lambda>a b. held s' b \<longrightarrow> held s' a) (gl_holders x) =
      sorted_wrt (\<lambda>a b. held s b \<longrightarrow> held s a) (gl_holders x)"
    using assms(2) by (auto intro: sorted_wrt_mono_rel [rotated])
  show ?thesis
    unfolding glock_ok_def queue_ok_def assms(3-5) sw off_fix [OF assms(1)]
    using assms(2) by (simp cong: conj_cong)
qed

lemma off_other:
  assumes "off g s s'" and "g' \<noteq> g" and "gs_glocks s' g' = Some x'"
  shows "\<exists>x. gs_glocks s g' = Some x \<and> gl_core x' = gl_core x"
proof -
  have "map_option gl_core (gs_glocks s' g') = map_option gl_core (gs_glocks s g')"
    using assms(1,2) unfolding off_def by blast
  with assms(3) show ?thesis by (cases "gs_glocks s g'") simp_all
qed

lemma lock_ok_cong:
  "gl_core x' = gl_core x \<Longrightarrow> (\<And>h. h \<in> set (gl_holders x) \<Longrightarrow> held s' h = held s h) \<Longrightarrow>
   lock_ok s' x' = lock_ok s x"
  by (simp add: lock_ok_def gl_core_def)

lemma same_loc:
  assumes "gsame s s'"
  shows "loc g s' = loc g s"
proof -
  have imp: "loc g u'" if st: "gsame u u'" and l: "loc g u" for u u'
  proof -
    note off = same_off [OF st, of g]
    obtain x where x: "gs_glocks u g = Some x" "glock_ok u g x"
      "\<forall>h. held u h \<and> gh_gl (holder u h) = Some g \<longrightarrow> h \<in> set (gl_holders x)"
      using l by (auto simp: loc_def)
    obtain x' where x': "gs_glocks u' g = Some x'" "gl_core x' = gl_core x"
      using sameD [OF st x(1)] by blast
    then have e: "gl_state x' = gl_state x" "gl_holders x' = gl_holders x" "gl_dead x' = gl_dead x"
      by (simp_all add: gl_core_def)
    have "glock_ok u' g x'"
      using x(2) glock_ok_cong [OF off same_held [OF st] e, of g] by simp
    then show ?thesis
      using x'(1) x(3) e(2) by (auto simp: loc_def same_held [OF st] off_fix(2) [OF off])
  qed
  show ?thesis using imp [OF assms] imp [OF gsame_sym [OF assms]] by blast
qed

lemma inv_glock: "gfs2_inv s \<Longrightarrow> gs_glocks s g = Some x \<Longrightarrow> glock_ok s g x \<and> lock_ok s x"
  unfolding gfs2_inv_def by blast

lemma inv_held:
  "gfs2_inv s \<Longrightarrow> held s h \<Longrightarrow> \<exists>g x. gs_glocks s g = Some x \<and> gh_gl (holder s h) = Some g \<and> h \<in> set (gl_holders x)"
  unfolding gfs2_inv_def by blast

lemma inv_loc:
  assumes "gfs2_inv s" and "gs_glocks s g = Some x"
  shows "loc g s"
  unfolding loc_def
  using inv_glock [OF assms] inv_held [OF assms(1)] assms(2)
  by (metis option.inject)

text \<open>An operation on one glock keeps the invariant if it does so for that glock.\<close>

lemma off_others:
  assumes inv: "gfs2_inv s" and off: "off g s s'" and g': "g' \<noteq> g" "gs_glocks s' g' = Some x'"
  shows "glock_ok s' g' x' \<and> lock_ok s' x'"
proof -
  obtain x where x: "gs_glocks s g' = Some x" "gl_core x' = gl_core x"
    using off_other [OF off g'] by blast
  then have e: "gl_state x' = gl_state x" "gl_holders x' = gl_holders x" "gl_dead x' = gl_dead x"
    by (simp_all add: gl_core_def)
  note ok = inv_glock [OF inv x(1)]
  have h: "held s' h = held s h" if "h \<in> set (gl_holders x)" for h
  proof -
    have "gh_gl (holder s h) = Some g'" using ok that by (simp add: glock_ok_def queue_ok_def)
    with g'(1) off show ?thesis unfolding off_def by simp
  qed
  show ?thesis using ok glock_ok_cong [OF off h e] lock_ok_cong [OF x(2) h] by simp
qed

lemma off_held:
  assumes inv: "gfs2_inv s" and off: "off g s s'" and h: "held s' h" "gh_gl (holder s' h) \<noteq> Some g"
  shows "\<exists>g x. gs_glocks s' g = Some x \<and> gh_gl (holder s' h) = Some g \<and> h \<in> set (gl_holders x)"
proof -
  have n: "gh_gl (holder s h) \<noteq> Some g" using h(2) off_fix(2) [OF off] by simp
  then have "held s h" using h(1) off unfolding off_def by blast
  with inv_held [OF inv] obtain g' x where
    x: "gs_glocks s g' = Some x" "gh_gl (holder s h) = Some g'" "h \<in> set (gl_holders x)" by blast
  have "map_option gl_core (gs_glocks s' g') = Some (gl_core x)"
    using off n x unfolding off_def by force
  then obtain x' where "gs_glocks s' g' = Some x'" "gl_core x' = gl_core x"
    by (cases "gs_glocks s' g'") simp_all
  with x off_fix(2) [OF off, of h] show ?thesis by (auto simp: gl_core_def)
qed

lemma loc_inv:
  assumes inv: "gfs2_inv s" and off: "off g s s'" and loc: "loc g s'"
    and lock: "\<And>x'. gs_glocks s' g = Some x' \<Longrightarrow> lock_ok s' x'"
  shows "gfs2_inv s'"
  unfolding gfs2_inv_def
proof (intro conjI allI impI)
  fix g' x' assume x': "gs_glocks s' g' = Some x'"
  show "glock_ok s' g' x'" "lock_ok s' x'"
    using off_others [OF inv off _ x'] loc lock x' by (cases "g' = g"; force simp: loc_def)+
next
  fix h assume "held s' h"
  then show "\<exists>g x. gs_glocks s' g = Some x \<and> gh_gl (holder s' h) = Some g \<and> h \<in> set (gl_holders x)"
    using off_held [OF inv off] loc by (cases "gh_gl (holder s' h) = Some g") (auto simp: loc_def)
qed

lemma freed_inv:
  assumes inv: "gfs2_inv s" and off: "off g s s'" and free: "gs_glocks s' g = None"
    and none: "\<And>h. held s' h \<Longrightarrow> gh_gl (holder s' h) \<noteq> Some g"
  shows "gfs2_inv s'"
  unfolding gfs2_inv_def
proof (intro conjI allI impI)
  fix g' x' assume x': "gs_glocks s' g' = Some x'"
  with free have "g' \<noteq> g" by auto
  then show "glock_ok s' g' x'" "lock_ok s' x'"
    using off_others [OF inv off _ x'] by simp_all
next
  fix h assume "held s' h"
  then show "\<exists>g x. gs_glocks s' g = Some x \<and> gh_gl (holder s' h) = Some g \<and> h \<in> set (gl_holders x)"
    using off_held [OF inv off] none by blast
qed

lemma same_inv:
  assumes "gfs2_inv s" and "gsame s s'"
  shows "gfs2_inv s'"
  unfolding gfs2_inv_def
proof (intro conjI allI impI)
  fix g x' assume x': "gs_glocks s' g = Some x'"
  obtain x where x: "gs_glocks s g = Some x" "gl_core x = gl_core x'"
    using sameD [OF gsame_sym [OF assms(2)] x'] by blast
  then have e: "gl_state x' = gl_state x" "gl_holders x' = gl_holders x" "gl_dead x' = gl_dead x"
    by (simp_all add: gl_core_def)
  show "glock_ok s' g x'" "lock_ok s' x'"
    using inv_glock [OF assms(1) x(1)] glock_ok_cong [OF same_off [OF assms(2)] same_held [OF assms(2)] e]
      lock_ok_cong [OF x(2) [symmetric] same_held [OF assms(2)]] by simp_all
next
  fix h assume "held s' h"
  then have "held s h" by (simp add: same_held [OF assms(2)])
  with inv_held [OF assms(1)] obtain g x where
    x: "gs_glocks s g = Some x" "gh_gl (holder s h) = Some g" "h \<in> set (gl_holders x)" by blast
  with sameD [OF assms(2) x(1)] off_fix(2) [OF same_off [OF assms(2)], of h]
  show "\<exists>g x. gs_glocks s' g = Some x \<and> gh_gl (holder s' h) = Some g \<and> h \<in> set (gl_holders x)"
    by (auto simp: gl_core_def)
qed

end
