(* ===== verification/Gfs2_Same.thy ===== *)
theory Gfs2_Same
  imports Gfs2_Inv
begin

text \<open>
  The operations that change nothing the invariant of the glock layer depends on: references,
  statistics, demote requests, the work queue, the list of unused glocks, the calls of the lock
  manager. What the external operations of a glock may change is the hypothesis \<open>gfs2_env_ok\<close>.
\<close>

text \<open>\<open>go_callback\<close> and \<open>go_free\<close> leave queues, states and holders alone; the lock module that is
  used without a cluster frees the glock it is given.\<close>

definition gfs2_env_ok :: "gfs2_env \<Rightarrow> bool" where
  "gfs2_env_ok env \<longleftrightarrow> (\<forall>g r s s'. go_callback env g r s = Some s' \<longrightarrow> gsame s s') \<and>
     (\<forall>g s s'. go_free env g s = Some s' \<longrightarrow> gsame s s') \<and>
     (\<forall>g s s'. nolock_put_lock env g s = Some s' \<longrightarrow> gsame (gfs2_glock_dealloc g s) s')"

lemma callback_same: "gfs2_env_ok env \<Longrightarrow> go_callback env g r s = Some s' \<Longrightarrow> gsame s s'"
  unfolding gfs2_env_ok_def by blast

section \<open>Flags\<close>

lemma gl_test_set [simp]:
  "gl_test n (x\<lparr>gl_flags := set_bit m (gl_flags x)\<rparr>) \<longleftrightarrow> n = m \<and> m < 64 \<or> gl_test n x"
  by (auto simp: gl_test_def bit_set_bit_iff)

lemma gl_test_unset [simp]:
  "gl_test n (x\<lparr>gl_flags := unset_bit m (gl_flags x)\<rparr>) \<longleftrightarrow> n \<noteq> m \<and> gl_test n x"
  by (auto simp: gl_test_def bit_unset_bit_iff)

lemma gh_test_set [simp]:
  "gh_test n (y\<lparr>gh_iflags := set_bit m (gh_iflags y)\<rparr>) \<longleftrightarrow> n = m \<and> m < 64 \<or> gh_test n y"
  by (auto simp: gh_test_def bit_set_bit_iff)

lemma gh_test_unset [simp]:
  "gh_test n (y\<lparr>gh_iflags := unset_bit m (gh_iflags y)\<rparr>) \<longleftrightarrow> n \<noteq> m \<and> gh_test n y"
  by (auto simp: gh_test_def bit_unset_bit_iff)

definition plain_flag :: "nat \<Rightarrow> bool" where
  "plain_flag n \<longleftrightarrow> n \<noteq> GLF_LOCK \<and> n \<noteq> GLF_REPLY_PENDING \<and> n \<noteq> GLF_FROZEN"

lemma gl_core_flags [simp]:
  "plain_flag m \<Longrightarrow> gl_core (x\<lparr>gl_flags := set_bit m (gl_flags x)\<rparr>) = gl_core x"
  "plain_flag m \<Longrightarrow> gl_core (x\<lparr>gl_flags := unset_bit m (gl_flags x)\<rparr>) = gl_core x"
  by (auto simp: gl_core_def plain_flag_def)

section \<open>Updates\<close>

lemma gsame_cong: "gs_glocks s' = gs_glocks s \<Longrightarrow> gs_holders s' = gs_holders s \<Longrightarrow> gsame s s'"
  by (simp add: gsame_def)

lemma gsame_fields [simp]:
  "gsame (s\<lparr>gs_tick := t\<rparr>) s' = gsame s s'" "gsame (s\<lparr>sd_log_error := e\<rparr>) s' = gsame s s'"
  "gsame (s\<lparr>sd_flags := w\<rparr>) s' = gsame s s'" "gsame s (s'\<lparr>gs_tick := t\<rparr>) = gsame s s'"
  "gsame s (s'\<lparr>sd_log_error := e\<rparr>) = gsame s s'" "gsame s (s'\<lparr>sd_flags := w\<rparr>) = gsame s s'"
  by (simp_all add: gsame_def)

lemma upd_gl_same: "upd_gl g f s = Some s' \<Longrightarrow> (\<And>x. gl_core (f x) = gl_core x) \<Longrightarrow> gsame s s'"
  by (auto simp: gsame_def upd_gl_eq_Some_iff)

lemma upd_gh_same: "upd_gh h f s = Some s' \<Longrightarrow> (\<And>y. gh_core (f y) = gh_core y) \<Longrightarrow> gsame s s'"
  by (auto simp: gsame_def upd_gh_eq_Some_iff)

lemma gl_set_same: "gl_set n g s = Some s' \<Longrightarrow> plain_flag n \<Longrightarrow> gsame s s'"
  unfolding gl_set_def by (erule upd_gl_same) simp

lemma gl_clear_same: "gl_clear n g s = Some s' \<Longrightarrow> plain_flag n \<Longrightarrow> gsame s s'"
  unfolding gl_clear_def by (erule upd_gl_same) simp

lemma gl_ref_add_same: "gl_ref_add n g s = Some s' \<Longrightarrow> gsame s s'"
  unfolding gl_ref_add_def by (erule upd_gl_same) (simp add: gl_core_def gl_test_def)

lemma gfs2_glock_hold_same: "gfs2_glock_hold g s = Some s' \<Longrightarrow> gsame s s'"
  by (auto simp: gfs2_glock_hold_def bind_eq_Some_conv gsame_def upd_gl_eq_Some_iff gl_core_def gl_test_def)

lemma lockref_get_not_dead_same: "lockref_get_not_dead g s = Some (b, s') \<Longrightarrow> gsame s s'"
  by (auto simp: lockref_get_not_dead_def bind_eq_Some_conv gsame_def upd_gl_eq_Some_iff gl_core_def gl_test_def
      split: if_splits)

lemma gfs2_holder_wake_same: "gfs2_holder_wake h s = Some s' \<Longrightarrow> gsame s s'"
  unfolding gfs2_holder_wake_def by (erule upd_gh_same) (simp add: gh_core_def)

lemma queue_work_same: "us_us_gfs2_glock_queue_work g d s = Some s' \<Longrightarrow> gsame s s'"
  by (auto simp: us_us_gfs2_glock_queue_work_def queue_delayed_work_def bind_eq_Some_conv gsame_cong
      dest: gl_ref_add_same split: option.splits)

lemma handle_callback_same:
  assumes "gfs2_env_ok env" and "handle_callback env g st d r s = Some s'"
  shows "gsame s s'"
proof -
  from assms(2) obtain s1 x s2 where
    1: "(if d \<noteq> 0 then gl_set GLF_PENDING_DEMOTE g s else gfs2_set_demote g s) = Some s1"
    and 2: "gs_glocks s1 g = Some x"
    and 3: "(if gl_demote_state x = LM_ST_EXCLUSIVE
          then upd_gl g (\<lambda>x. x\<lparr>gl_demote_state := st, gl_demote_time := g_jiffies env (gs_tick s1)\<rparr>) s1
          else if gl_demote_state x \<noteq> LM_ST_UNLOCKED \<and> gl_demote_state x \<noteq> st
          then upd_gl g (\<lambda>x. x\<lparr>gl_demote_state := LM_ST_UNLOCKED\<rparr>) s1 else Some s1) = Some s2"
    and 4: "go_callback env g r s2 = Some s'"
    by (auto simp: handle_callback_def bind_eq_Some_conv)
  have "gsame s s1" using 1 by (auto simp: gfs2_set_demote_def plain_flag_def split: if_splits dest!: gl_set_same)
  moreover have "gsame s1 s2"
    using 3 by (auto split: if_splits dest!: upd_gl_same simp: gl_core_def gl_test_def)
  moreover have "gsame s2 s'" by (rule callback_same [OF assms(1) 4])
  ultimately show ?thesis by (blast intro: gsame_trans)
qed

lemma demote_wake_same: "gfs2_demote_wake g s = Some s' \<Longrightarrow> gsame s s'"
  unfolding gfs2_demote_wake_def bind_eq_Some_conv
  by (auto simp: gsame_def gl_clear_def upd_gl_eq_Some_iff gl_core_def gl_test_def bit_unset_bit_iff)

lemma add_to_lru_same: "gfs2_glock_add_to_lru g s = Some s' \<Longrightarrow> gsame s s'"
  by (auto simp: gfs2_glock_add_to_lru_def Let_def bind_eq_Some_conv gsame_def gl_set_def upd_gl_eq_Some_iff plain_flag_def
      split: if_splits)

lemma remove_from_lru_same: "gfs2_glock_remove_from_lru g s = Some s' \<Longrightarrow> gsame s s'"
  by (auto simp: gfs2_glock_remove_from_lru_def bind_eq_Some_conv gsame_def gl_clear_def upd_gl_eq_Some_iff
      plain_flag_def split: if_splits)

section \<open>Statistics and the lock manager\<close>

lemma update_both_same: "update_both i v g s = Some s' \<Longrightarrow> gsame s s'"
  by (auto simp: update_both_def bind_eq_Some_conv gsame_def upd_gl_eq_Some_iff gl_core_def gl_test_def)

lemma stats_inc_same: "gfs2_stats_inc w g s = Some s' \<Longrightarrow> gsame s s'"
  by (auto simp: gfs2_stats_inc_def bind_eq_Some_conv gsame_def upd_gl_eq_Some_iff gl_core_def gl_test_def Let_def)

lemma reply_times_same: "gfs2_update_reply_times env g s = Some s' \<Longrightarrow> gsame s s'"
  unfolding gfs2_update_reply_times_def bind_eq_Some_conv Let_def
  by (elim exE conjE) (rule gsame_trans [OF gsame_cong update_both_same], auto)

lemma request_times_same:
  assumes "gfs2_update_request_times env g s = Some s'"
  shows "gsame s s'"
proof -
  obtain s1 v where 1: "upd_gl g (\<lambda>x. x\<lparr>gl_dstamp := ktime_get_real env (gs_tick s)\<rparr>) s = Some s1"
    and 2: "update_both GFS2_LKS_SIRT v g (s1\<lparr>gs_tick := gs_tick s1 + 1\<rparr>) = Some s'"
    using assms by (auto simp: gfs2_update_request_times_def bind_eq_Some_conv Let_def)
  have "gsame s s1" by (rule upd_gl_same [OF 1]) (simp add: gl_core_def gl_test_def)
  moreover have "gsame s1 (s1\<lparr>gs_tick := gs_tick s1 + 1\<rparr>)" by (rule gsame_cong) simp_all
  ultimately show ?thesis using update_both_same [OF 2] by (blast intro: gsame_trans)
qed

lemma retry_same:
  assumes pass: "\<And>s p. f s = Some p \<Longrightarrow> (case p of Retry s' \<Rightarrow> gsame s s' | Done (e, s') \<Rightarrow> gsame s s')"
    and "retry f s = Some (e, s')"
  shows "gsame s s'"
proof -
  have "(\<lambda>(e, s'). gsame s s') (e, s')"
  proof (rule retry_invariant [of "gsame s" f "\<lambda>(e, s'). gsame s s'" s])
    fix t p assume "gsame s t" "f t = Some p"
    with pass [OF this(2)] show "case p of Retry s' \<Rightarrow> gsame s s' | Done a \<Rightarrow> (case a of (e, s') \<Rightarrow> gsame s s')"
      by (auto split: pass.splits prod.splits intro: gsame_trans)
  qed (use assms(2) in simp_all)
  then show ?thesis by simp
qed

lemma gdlm_lock_name_same: "gdlm_lock_name env x g s = Some (nm, s') \<Longrightarrow> gsame s s'"
  by (auto simp: gdlm_lock_name_def bind_eq_Some_conv request_times_same gsame_def upd_gl_eq_Some_iff gl_core_def
      gl_test_def split: if_splits dest!: request_times_same)

lemma gdlm_lock_pass_same:
  "gdlm_lock_pass env x g req lkf nm s = Some p \<Longrightarrow>
   (case p of Retry s' \<Rightarrow> gsame s s' | Done (e, s') \<Rightarrow> gsame s s')"
  by (auto simp: gdlm_lock_pass_def Let_def bind_eq_Some_conv gsame_def split: if_splits)

lemma gdlm_lock_retry_same: "retry (gdlm_lock_pass env x g req lkf nm) s = Some (e, s') \<Longrightarrow> gsame s s'"
  by (rule retry_same) (auto dest: gdlm_lock_pass_same)

lemma gdlm_lock_same: "gdlm_lock env g st fl s = Some (e, s') \<Longrightarrow> gsame s s'"
  unfolding gdlm_lock_def Let_def bind_eq_Some_conv
  by (auto dest!: stats_inc_same gdlm_lock_name_same gdlm_lock_retry_same intro: gsame_trans)

lemma gdlm_cancel_same: "gdlm_cancel env g s = Some s' \<Longrightarrow> gsame s s'"
  by (auto simp: gdlm_cancel_def bind_eq_Some_conv gsame_def)

lemma gdlm_unlock_same: "retry (gdlm_unlock_pass env x g) s = Some (e, s') \<Longrightarrow> gsame s s'"
  by (rule retry_same) (auto simp: gdlm_unlock_pass_def Let_def bind_eq_Some_conv gsame_def split: if_splits)

lemma hold_time_same: "gfs2_glock_update_hold_time env g t s = Some s' \<Longrightarrow> gsame s s'"
  by (auto simp: gfs2_glock_update_hold_time_def gl_core_def gl_test_def split: if_splits dest!: upd_gl_same)

lemma run_instantiate_same: "run_instantiate g s = Some (e, s') \<Longrightarrow> gsame s s'"
  by (auto simp: run_instantiate_def bind_eq_Some_conv gsame_def gl_clear_def upd_gl_eq_Some_iff plain_flag_def
      Let_def split: if_splits)

lemma instantiate_same: "gfs2_instantiate env h s = Some (e, s') \<Longrightarrow> gsame s s'"
  by (auto simp: gfs2_instantiate_def bind_eq_Some_conv split: if_splits option.splits
      dest!: run_instantiate_same intro: gsame_trans [OF _ gsame_cong])

lemma find_insert_same: "find_insert_glock env n ty new s = Some (e, gl, s') \<Longrightarrow> gsame s s'"
  by (auto simp: find_insert_glock_def bind_eq_Some_conv Let_def gsame_cong lockref_get_not_dead_same
      split: option.splits if_splits)

end
