(* ===== verification/Gfs2_Holders.thy ===== *)
theory Gfs2_Holders
  imports Gfs2_Same
begin

text \<open>
  The operations on the queue of one glock: failing waiters (\<open>do_error\<close>), granting
  (\<open>do_promote\<close>), adding, moving and removing a holder. Each keeps the glock's part of the
  invariant.
\<close>

section \<open>Removing waiters\<close>

definition gl_rest :: "gfs2_glock \<Rightarrow> lm_state \<times> bool \<times> bool \<times> bool \<times> bool" where
  "gl_rest x = (gl_state x, gl_test GLF_LOCK x, gl_test GLF_REPLY_PENDING x, gl_test GLF_FROZEN x, gl_dead x)"

lemma gl_core_rest: "gl_core x' = gl_core x \<longleftrightarrow> gl_rest x' = gl_rest x \<and> gl_holders x' = gl_holders x"
  by (auto simp: gl_core_def gl_rest_def)

text \<open>\<open>gkeeps g s s'\<close>: an operation on the queue of \<open>g\<close>, which may drop holders, grant some, and
  otherwise changes nothing.\<close>

definition gkeeps :: "glp \<Rightarrow> gfs2 \<Rightarrow> gfs2 \<Rightarrow> bool" where
  "gkeeps g s s' \<longleftrightarrow> off g s s' \<and> loc g s' \<and>
     (\<exists>x x'. gs_glocks s g = Some x \<and> gs_glocks s' g = Some x' \<and> gl_rest x' = gl_rest x \<and>
        set (gl_holders x') \<subseteq> set (gl_holders x))"

lemma keeps_trans: "gkeeps g s t \<Longrightarrow> gkeeps g t u \<Longrightarrow> gkeeps g s u"
  unfolding gkeeps_def using off_trans by (metis (no_types, lifting) option.inject subset_trans)

lemma keepsD: "gkeeps g s s' \<Longrightarrow> off g s s'" "gkeeps g s s' \<Longrightarrow> loc g s'"
  by (simp_all add: gkeeps_def)

lemma same_keeps:
  assumes "loc g s" and "gsame s s'"
  shows "gkeeps g s s'"
proof -
  obtain x where "gs_glocks s g = Some x" using assms(1) by (auto simp: loc_def)
  moreover obtain x' where "gs_glocks s' g = Some x'" "gl_core x' = gl_core x"
    using sameD [OF assms(2) calculation] by blast
  ultimately show ?thesis
    using assms same_loc [OF assms(2)] same_off [OF assms(2)] by (auto simp: gkeeps_def gl_core_rest)
qed

text \<open>Dropping a holder that is not granted, or moving it to the end.\<close>

lemma queue_filter:
  assumes ok: "queue_ok s g hs"
  shows "queue_ok s g (filter P hs)"
  using ok unfolding queue_ok_def by (auto simp: sorted_wrt_filter)

lemma remove_keeps:
  assumes loc: "loc g s" and x: "gs_glocks s g = Some x" and h: "\<not> held s h"
    and s': "gs_glocks s' = (gs_glocks s)(g \<mapsto> x')" "gs_holders s' = gs_holders s"
    and x': "gl_rest x' = gl_rest x" "gl_holders x' = remove1 h (gl_holders x)"
  shows "gkeeps g s s'"
proof -
  have e: "held s' k = held s k" "holder s' k = holder s k" for k
    by (simp_all add: held_def holder_def s')
  have off: "off g s s'" by (simp add: off_def s' e)
  have ok: "glock_ok s g x" and all: "\<forall>k. held s k \<and> gh_gl (holder s k) = Some g \<longrightarrow> k \<in> set (gl_holders x)"
    using loc x by (auto simp: loc_def)
  have d: "distinct (gl_holders x)" using ok by (simp add: glock_ok_def queue_ok_def)
  then have f: "gl_holders x' = filter (\<lambda>k. k \<noteq> h) (gl_holders x)"
    using x'(2) by (simp add: distinct_remove1_removeAll removeAll_filter_not_eq eq_commute [of _ h])
  have q: "queue_ok s g (gl_holders x')" unfolding f by (rule queue_filter) (use ok in \<open>simp add: glock_ok_def\<close>)
  have "glock_ok s g x'"
    using ok q x'(1) f by (auto simp: glock_ok_def gl_rest_def)
  moreover have "glock_ok s' g x' = glock_ok s g x'" by (rule glock_ok_cong [OF off]) (simp_all add: e)
  ultimately have "glock_ok s' g x'" by simp
  then have "loc g s'" using all h f by (auto simp: loc_def s'(1) e)
  then show ?thesis using off x x'(1) f by (auto simp: gkeeps_def s'(1))
qed

lemma fail_waiter_keeps:
  assumes loc: "loc g s" and f: "fail_waiter g ret h s = Some s'"
  shows "gkeeps g s s' \<and> (\<forall>k. held s' k = held s k)"
proof -
  obtain y where y: "gs_holders s h = Some y" using f by (auto simp: fail_waiter_def bind_eq_Some_conv)
  show ?thesis
  proof (cases "s' = s")
    case True
    with loc show ?thesis by (simp add: same_keeps)
  next
    case False
    with f y obtain s1 s2 where n: "\<not> gh_test HIF_HOLDER y"
      and 1: "upd_gh h (\<lambda>y. y\<lparr>gh_error := (if has_flag ret LM_OUT_ERROR then -EIO else GLR_TRYFAILED)\<rparr>) s = Some s1"
      and 2: "upd_gl g (\<lambda>x. x\<lparr>gl_holders := remove1 h (gl_holders x)\<rparr>) s1 = Some s2"
      and 3: "gfs2_holder_wake h s2 = Some s'"
      by (auto simp: fail_waiter_def bind_eq_Some_conv split: if_splits)
    have a: "gsame s s1" by (rule upd_gh_same [OF 1]) (simp add: gh_core_def gh_test_def)
    have nh: "\<not> held s1 h" using same_held [OF a] n y by (simp add: held_def)
    obtain x where x: "gs_glocks s1 g = Some x" "s2 = s1\<lparr>gs_glocks := (gs_glocks s1)(g \<mapsto> x\<lparr>gl_holders := remove1 h (gl_holders x)\<rparr>)\<rparr>"
      using 2 by (auto simp: upd_gl_eq_Some_iff)
    have b: "gkeeps g s1 s2"
      by (rule remove_keeps [OF _ x(1) nh, where x' = "x\<lparr>gl_holders := remove1 h (gl_holders x)\<rparr>"])
        (use loc same_loc [OF a] x(2) in \<open>simp_all add: gl_rest_def gl_test_def\<close>)
    have c: "gsame s2 s'" by (rule gfs2_holder_wake_same [OF 3])
    have "held s' k = held s k" for k
      using same_held [OF c, of k] same_held [OF a, of k] x(2) by (simp add: held_def)
    then show ?thesis
      using keeps_trans [OF same_keeps [OF loc a] keeps_trans [OF b same_keeps [OF keepsD(2) [OF b] c]]] by blast
  qed
qed

lemma do_error_list_keeps:
  "loc g s \<Longrightarrow> do_error_list g ret hs s = Some s' \<Longrightarrow> gkeeps g s s' \<and> (\<forall>k. held s' k = held s k)"
proof (induction hs arbitrary: s)
  case Nil
  then show ?case by (simp add: same_keeps)
next
  case (Cons h hs)
  then obtain s1 where s1: "fail_waiter g ret h s = Some s1" "do_error_list g ret hs s1 = Some s'"
    by (auto simp: bind_eq_Some_conv)
  note a = fail_waiter_keeps [OF Cons.prems(1) s1(1)]
  then have "gkeeps g s1 s' \<and> (\<forall>k. held s' k = held s1 k)" using Cons.IH s1(2) keepsD(2) by blast
  with a show ?case using keeps_trans by blast
qed

lemma do_error_keeps:
  "loc g s \<Longrightarrow> do_error g ret s = Some s' \<Longrightarrow> gkeeps g s s' \<and> (\<forall>k. held s' k = held s k)"
  by (auto simp: do_error_def bind_eq_Some_conv dest: do_error_list_keeps)

end
