(* ===== verification/Gfs2_Promote.thy ===== *)
theory Gfs2_Promote
  imports Gfs2_Holders
begin

text \<open>
  Granting holders (\<open>do_promote\<close>): it keeps the invariant of the glock, nobody granted loses the
  glock, and it leaves the queue empty, or with a granted holder in front, or it says that the
  first holder has to wait for another state of the glock.
\<close>

lemma locD:
  assumes "loc g s" and "gs_glocks s g = Some x"
  shows "glock_ok s g x" "held s h \<Longrightarrow> gh_gl (holder s h) = Some g \<Longrightarrow> h \<in> set (gl_holders x)"
    "distinct (gl_holders x)" "h \<in> set (gl_holders x) \<Longrightarrow> gs_holders s h \<noteq> None"
    "h \<in> set (gl_holders x) \<Longrightarrow> gh_gl (holder s h) = Some g"
    "h \<in> set (gl_holders x) \<Longrightarrow> any_ok (holder s h)"
    "h \<in> set (gl_holders x) \<Longrightarrow> held s h \<Longrightarrow> covers (gl_state x) (holder s h)"
    "sorted_wrt (\<lambda>a b. held s b \<longrightarrow> held s a) (gl_holders x)"
  using assms by (auto simp: loc_def glock_ok_def queue_ok_def)

lemma loc_share:
  "loc g s \<Longrightarrow> gs_glocks s g = Some x \<Longrightarrow> a \<in> set (gl_holders x) \<Longrightarrow> b \<in> set (gl_holders x) \<Longrightarrow> a \<noteq> b \<Longrightarrow>
   held s a \<Longrightarrow> held s b \<Longrightarrow> may_share (holder s a) (holder s b)"
  by (auto simp: loc_def glock_ok_def queue_ok_def)

text \<open>Somebody on the queue is granted only if the first one is.\<close>

lemma hd_held:
  assumes "loc g s" and "gs_glocks s g = Some x" and "k \<in> set (gl_holders x)" and "held s k"
  shows "held s (hd (gl_holders x))"
  using locD(8) [OF assms(1,2)] assms(3,4) by (cases "gl_holders x") auto

lemma none_held:
  "loc g s \<Longrightarrow> gs_glocks s g = Some x \<Longrightarrow> \<not> held s (hd (gl_holders x)) \<Longrightarrow> k \<in> set (gl_holders x) \<Longrightarrow> \<not> held s k"
  using hd_held by blast

lemma share_trans:
  "may_share c k \<Longrightarrow> may_share c y \<Longrightarrow> may_share k y \<and> may_share y k"
  by (auto simp: may_share_def)

text \<open>What the test \<open>may_grant\<close> means.\<close>

lemma may_grant_share:
  "may_grant x (Some c) y = Some True \<Longrightarrow> may_share c y"
  by (auto simp: may_grant_def may_share_def bind_eq_Some_conv split: lm_state.splits)

lemma may_grant_covers:
  "may_grant x None y = Some True \<Longrightarrow> any_ok y \<Longrightarrow> covers (gl_state x) y"
  by (auto simp: may_grant_def covers_def reader_def any_ok_def split: if_splits)

lemma share_covers: "covers st c \<Longrightarrow> may_share c y \<Longrightarrow> covers st y"
  by (auto simp: covers_def may_share_def reader_def)

lemma holders_first:
  "\<forall>a\<in>set as. Q a \<Longrightarrow> \<forall>b\<in>set bs. \<not> Q b \<Longrightarrow> sorted_wrt (\<lambda>a b. Q b \<longrightarrow> Q a) (as @ bs)"
proof (induction as)
  case Nil
  then show ?case by (induction bs) auto
qed auto

section \<open>Granting one holder\<close>

definition ggranted :: "ghp \<Rightarrow> gfs2 \<Rightarrow> gfs2" where
  "ggranted h s = s\<lparr>gs_holders := (gs_holders s)(h \<mapsto> (holder s h)\<lparr>gh_iflags := set_bit HIF_HOLDER (gh_iflags (holder s h))\<rparr>)\<rparr>"

lemma granted_off:
  assumes "gs_holders s h \<noteq> None" and "gh_gl (holder s h) = Some g"
  shows "off g s (ggranted h s)" "held (ggranted h s) k \<longleftrightarrow> k = h \<or> held s k"
  using assms by (auto simp: off_def ggranted_def held_def holder_def gh_fix_def)

lemma granted_loc:
  assumes loc: "loc g s" and x: "gs_glocks s g = Some x" "gl_holders x = ds @ h # rest"
    and ds: "\<forall>d\<in>set ds. held s d" and nh: "\<not> held s h"
    and ok: "covers (gl_state x) (holder s h)"
      "\<forall>d\<in>set ds. may_share (holder s d) (holder s h) \<and> may_share (holder s h) (holder s d)"
  shows "loc g (ggranted h s)"
proof -
  have h: "gs_holders s h \<noteq> None" "gh_gl (holder s h) = Some g" using locD(4,5) [OF loc x(1)] x(2) by simp_all
  note off = granted_off(1) [OF h] and held = granted_off(2) [OF h]
  have rest: "\<not> held s r" if "r \<in> set rest" for r
    using locD(8) [OF loc x(1)] nh that by (auto simp: x(2) sorted_wrt_append)
  have d: "distinct (ds @ h # rest)" using locD(3) [OF loc x(1)] x(2) by simp
  have gl: "gs_glocks (ggranted h s) g = Some x" using x(1) by (simp add: ggranted_def)
  have gq: "a \<in> set ds \<or> a = h" if "a \<in> set (gl_holders x)" "held (ggranted h s) a" for a
    using that rest by (auto simp: x(2) held)
  have sh: "may_share (holder s a) (holder s b)"
    if ab: "a \<in> set (gl_holders x)" "b \<in> set (gl_holders x)" "a \<noteq> b" "held (ggranted h s) a" "held (ggranted h s) b" for a b
  proof -
    have "a \<in> set ds \<or> a = h" "b \<in> set ds \<or> b = h" using gq ab by auto
    with ab(3) ok(2) ds loc_share [OF loc x(1) ab(1,2,3)] show ?thesis by auto
  qed
  have "glock_ok (ggranted h s) g x"
    unfolding glock_ok_def queue_ok_def off_fix [OF off]
  proof (intro conjI ballI impI)
    show "distinct (gl_holders x)" by (rule locD(3) [OF loc x(1)])
    show "gs_holders s a \<noteq> None" "gh_gl (holder s a) = Some g" "any_ok (holder s a)" if "a \<in> set (gl_holders x)" for a
      using locD(4-6) [OF loc x(1) that] by simp_all
    show "sorted_wrt (\<lambda>a b. held (ggranted h s) b \<longrightarrow> held (ggranted h s) a) (gl_holders x)"
      using holders_first [of "ds @ [h]" "held (ggranted h s)" rest] ds rest d by (auto simp: x(2) held)
    show "may_share (holder s a) (holder s b)"
      if "a \<in> set (gl_holders x)" "b \<in> set (gl_holders x)" "a \<noteq> b \<and> held (ggranted h s) a \<and> held (ggranted h s) b" for a b
      using sh that by blast
    show "covers (gl_state x) (holder s a)" if "a \<in> set (gl_holders x)" "held (ggranted h s) a" for a
      using locD(7) [OF loc x(1) that(1)] that(2) ok(1) by (auto simp: held)
    show "gl_holders x = []" if "gl_dead x" using locD(1) [OF loc x(1)] that by (simp add: glock_ok_def)
  qed
  moreover have "k \<in> set (gl_holders x)" if "held (ggranted h s) k" "gh_gl (holder (ggranted h s) k) = Some g" for k
    using that locD(2) [OF loc x(1), of k] off_fix(2) [OF off, of k] by (auto simp: held x(2))
  ultimately show ?thesis using gl by (auto simp: loc_def)
qed

section \<open>The loop\<close>

definition cur_ok :: "glp \<Rightarrow> gfs2 \<Rightarrow> ghp option \<Rightarrow> bool" where
  "cur_ok g s cur \<longleftrightarrow> (\<exists>x. gs_glocks s g = Some x \<and> (case cur of
       None \<Rightarrow> \<forall>k\<in>set (gl_holders x). \<not> held s k
     | Some c \<Rightarrow> c \<in> set (gl_holders x) \<and> held s c))"

lemma heldI: "gs_holders s h = Some y \<Longrightarrow> held s h = gh_test HIF_HOLDER y"
  by (simp add: held_def)

lemma holderI: "gs_holders s h = Some y \<Longrightarrow> holder s h = y"
  by (simp add: holder_def)

lemma grant_test:
  assumes loc: "loc g s" and x: "gs_glocks s g = Some x" "gl_holders x = ds @ h # rest"
    and ds: "\<forall>d\<in>set ds. held s d" and nh: "\<not> held s h" and cur: "cur_ok g s cur"
    and c: "get_gh cur s = Some c" "may_grant x c (holder s h) = Some True"
  shows "loc g (ggranted h s)"
proof (rule granted_loc [OF loc x ds nh])
  have h: "h \<in> set (gl_holders x)" using x(2) by simp
  have "covers (gl_state x) (holder s h) \<and>
     (\<forall>d\<in>set ds. may_share (holder s d) (holder s h) \<and> may_share (holder s h) (holder s d))"
  proof (cases cur)
    case None
    then have "ds = []" using cur ds x by (cases ds) (auto simp: cur_ok_def)
    with None c show ?thesis
      using may_grant_covers [of x "holder s h"] locD(6) [OF loc x(1) h] by (simp add: get_gh_def)
  next
    case (Some k)
    then have k: "k \<in> set (gl_holders x)" "held s k" using cur x(1) by (auto simp: cur_ok_def)
    then obtain yk where yk: "gs_holders s k = Some yk" by (auto simp: held_def)
    then have "c = Some yk" using c(1) Some by (simp add: get_gh_def)
    with c(2) have "may_share yk (holder s h)" using may_grant_share by simp
    with yk have sh: "may_share (holder s k) (holder s h)" by (simp add: holder_def [of s k])
    have "may_share (holder s d) (holder s h) \<and> may_share (holder s h) (holder s d)" if d: "d \<in> set ds" for d
    proof (cases "d = k")
      case True
      with sh show ?thesis using share_trans [OF sh sh] by (auto simp: may_share_def)
    next
      case False
      have "d \<in> set (gl_holders x)" "held s d" using d ds x(2) by simp_all
      then have "may_share (holder s k) (holder s d)" using loc_share [OF loc x(1) k(1)] k(2) False by blast
      then show ?thesis using share_trans sh by blast
    qed
    with share_covers [OF locD(7) [OF loc x(1) k] sh] show ?thesis by blast
  qed
  then show "covers (gl_state x) (holder s h)"
    "\<forall>d\<in>set ds. may_share (holder s d) (holder s h) \<and> may_share (holder s h) (holder s d)" by simp_all
qed

text \<open>The loop, with \<open>ds\<close> the holders it has passed, all granted.\<close>

definition promoted :: "glp \<Rightarrow> bool \<Rightarrow> gfs2 \<Rightarrow> gfs2 \<Rightarrow> bool" where
  "promoted g ok s s' \<longleftrightarrow> gkeeps g s s' \<and> (\<forall>k. held s k \<longrightarrow> held s' k) \<and>
     (\<exists>x. gs_glocks s' g = Some x \<and>
        (if ok then gl_holders x = [] \<or> held s' (hd (gl_holders x))
         else gl_holders x \<noteq> [] \<and> \<not> held s' (hd (gl_holders x))))"

lemma do_promote_list_promoted:
  assumes "do_promote_list g cur rest s = Some (ok, s')" and "loc g s" and "gs_glocks s g = Some x"
    and "gl_holders x = ds @ rest" and "\<forall>d\<in>set ds. held s d" and "cur_ok g s cur"
  shows "promoted g ok s s'"
  using assms
proof (induction rest arbitrary: cur ds s)
  case Nil
  then show ?case by (cases ds) (auto simp: promoted_def same_keeps)
next
  case (Cons h rest)
  note loc = Cons.prems(2) and x = Cons.prems(3,4) and ds = Cons.prems(5) and cur = Cons.prems(6)
  have hq: "h \<in> set (gl_holders x)" using x(2) by simp
  then obtain y where y: "gs_holders s h = Some y" using locD(4) [OF loc x(1)] by blast
  show ?case
  proof (cases "gh_test HIF_HOLDER y")
    case True
    then have held: "held s h" using y by (simp add: held_def)
    show ?thesis
      by (rule Cons.IH [OF _ loc x(1) _ _ cur, of "ds @ [h]"])
        (use Cons.prems(1) y True held ds x(2) in simp_all)
  next
    case False
    then have nh: "\<not> held s h" using y by (simp add: held_def)
    obtain c b where c: "get_gh cur s = Some c" and b: "may_grant x c y = Some b"
      and k: "(if \<not> b then
         (if hd (gl_holders x) = h then Some (False, s)
          else do { s \<leftarrow> do_error g 0 s; Some (True, s) })
       else do {
         s \<leftarrow> upd_gh h (\<lambda>y. y\<lparr>gh_iflags := set_bit HIF_HOLDER (gh_iflags y)\<rparr>) s;
         s \<leftarrow> gfs2_holder_wake h s;
         do_promote_list g (if cur = None then Some h else cur) rest s
       }) = Some (ok, s')"
      using Cons.prems(1) y False x(1) by (auto simp: bind_eq_Some_conv)
    have hy: "holder s h = y" using y by (simp add: holder_def)
    consider "b" | "\<not> b" "hd (gl_holders x) = h" | "\<not> b" "hd (gl_holders x) \<noteq> h" by blast
    then show ?thesis
    proof cases
      case 1
      have loc1: "loc g (ggranted h s)"
        by (rule grant_test [OF loc x ds nh cur c]) (use b 1 hy in simp)
      note gl = locD(4,5) [OF loc x(1) hq]
      note off1 = granted_off(1) [OF gl] and held1 = granted_off(2) [OF gl]
      have "upd_gh h (\<lambda>y. y\<lparr>gh_iflags := set_bit HIF_HOLDER (gh_iflags y)\<rparr>) s = Some (ggranted h s)"
        using y by (simp add: ggranted_def hy)
      then obtain s2 where s2: "gfs2_holder_wake h (ggranted h s) = Some s2"
        "do_promote_list g (if cur = None then Some h else cur) rest s2 = Some (ok, s')"
        using k 1 by (auto simp: bind_eq_Some_conv)
      note sm = gfs2_holder_wake_same [OF s2(1)]
      have gl1: "gs_glocks s2 g = Some x"
        using s2(1) x(1) by (auto simp: gfs2_holder_wake_def upd_gh_eq_Some_iff ggranted_def)
      have "cur_ok g s2 (if cur = None then Some h else cur)"
        using cur x(1) hq by (auto simp: cur_ok_def gl1 same_held [OF sm] held1 split: option.splits)
      then have p: "promoted g ok s2 s'"
        by (intro Cons.IH [OF s2(2) _ gl1, of "ds @ [h]"])
          (use loc1 same_loc [OF sm] x(2) ds in \<open>auto simp: same_held [OF sm] held1\<close>)
      have "gkeeps g s (ggranted h s)"
        using off1 loc1 x(1) by (auto simp: gkeeps_def ggranted_def)
      then have "gkeeps g s s2" using same_keeps [OF loc1 sm] keeps_trans by blast
      then show ?thesis
        using p keeps_trans by (auto simp: promoted_def same_held [OF sm] held1)
    next
      case 2
      then show ?thesis using k loc x nh by (auto simp: promoted_def same_keeps)
    next
      case 3
      then obtain s1 where s1: "do_error g 0 s = Some s1" "ok" "s' = s1" using k by (auto simp: bind_eq_Some_conv)
      note e = do_error_keeps [OF loc s1(1)]
      obtain d where d: "d \<in> set ds" using 3 x(2) by (cases ds) auto
      obtain x1 where x1: "gs_glocks s1 g = Some x1" using e by (auto simp: gkeeps_def)
      have "held s1 d" "gh_gl (holder s1 d) = Some g"
        using d ds e off_fix(2) [OF keepsD(1), of g s s1 d] locD(5) [OF loc x(1), of d] x(2) by auto
      then have "d \<in> set (gl_holders x1)" using locD(2) [OF keepsD(2) x1] e by blast
      then have "held s1 (hd (gl_holders x1))"
        using hd_held [OF keepsD(2) x1] e \<open>held s1 d\<close> by blast
      then show ?thesis using e s1 x1 by (auto simp: promoted_def)
    qed
  qed
qed

lemma find_first_holder_cur:
  assumes "loc g s" and "gs_glocks s g = Some x" and "find_first_holder x s = Some cur"
  shows "cur_ok g s cur"
proof (cases "gl_holders x")
  case Nil
  then show ?thesis using assms by (auto simp: find_first_holder_def cur_ok_def)
next
  case (Cons h hs)
  then obtain y where y: "gs_holders s h = Some y" "cur = (if gh_test HIF_HOLDER y then Some h else None)"
    using assms(3) by (auto simp: find_first_holder_def bind_eq_Some_conv)
  have "held s h = gh_test HIF_HOLDER y" using y(1) by (simp add: held_def)
  then show ?thesis
    using none_held [OF assms(1,2)] Cons y(2) assms(2) by (auto simp: cur_ok_def)
qed

lemma do_promote_promoted:
  assumes "loc g s" and "do_promote g s = Some (ok, s')"
  shows "promoted g ok s s'"
proof -
  obtain x cur where x: "gs_glocks s g = Some x" "find_first_holder x s = Some cur"
    "do_promote_list g cur (gl_holders x) s = Some (ok, s')"
    using assms(2) by (auto simp: do_promote_def bind_eq_Some_conv)
  show ?thesis
    by (rule do_promote_list_promoted [OF x(3) assms(1) x(1), of "[]"])
      (use find_first_holder_cur [OF assms(1) x(1,2)] in simp_all)
qed

end
