(* ===== verification/Gfs2_Xmote.thy ===== *)
theory Gfs2_Xmote
  imports Gfs2_Promote
begin

text \<open>
  Changing the state of a glock. While \<open>GLF_LOCK\<close> is set nobody is granted (\<open>busy\<close>); \<open>do_xmote\<close> and
  \<open>finish_xmote\<close> run in that situation and end either with \<open>GLF_LOCK\<close> still set, the lock manager
  having been asked, or with the flag clear (\<open>settled\<close>).
\<close>

definition nobody :: "glp \<Rightarrow> gfs2 \<Rightarrow> bool" where
  "nobody g s \<longleftrightarrow> (\<exists>x. gs_glocks s g = Some x \<and> (\<forall>h\<in>set (gl_holders x). \<not> held s h))"

definition flags_are :: "glp \<Rightarrow> bool \<Rightarrow> bool \<Rightarrow> gfs2 \<Rightarrow> bool" where
  "flags_are g lock reply s \<longleftrightarrow> (\<exists>x. gs_glocks s g = Some x \<and> gl_test GLF_LOCK x = lock \<and>
     (gl_test GLF_REPLY_PENDING x \<or> gl_test GLF_FROZEN x) = reply)"

definition busy :: "glp \<Rightarrow> gfs2 \<Rightarrow> bool" where
  "busy g s \<longleftrightarrow> loc g s \<and> nobody g s \<and> flags_are g True False s"

definition gsettled :: "glp \<Rightarrow> gfs2 \<Rightarrow> gfs2 \<Rightarrow> bool" where
  "gsettled g s s' \<longleftrightarrow> off g s s' \<and> loc g s' \<and> (\<exists>x'. gs_glocks s' g = Some x' \<and> lock_ok s' x' \<and>
     \<not> gl_test GLF_REPLY_PENDING x' \<and> \<not> gl_test GLF_FROZEN x')"

lemma busy_settled: "busy g t \<Longrightarrow> off g s t \<Longrightarrow> gsettled g s t"
  by (auto simp: busy_def gsettled_def nobody_def flags_are_def lock_ok_def)

lemma same_nobody:
  assumes "gsame s s'" and "nobody g s"
  shows "nobody g s'"
proof -
  obtain x where x: "gs_glocks s g = Some x" "\<forall>h\<in>set (gl_holders x). \<not> held s h"
    using assms(2) by (auto simp: nobody_def)
  with sameD [OF assms(1) x(1)] show ?thesis
    by (auto simp: nobody_def gl_core_def same_held [OF assms(1)])
qed

lemma same_flags:
  assumes "gsame s s'" and "flags_are g l r s"
  shows "flags_are g l r s'"
proof -
  obtain x where x: "gs_glocks s g = Some x" "gl_test GLF_LOCK x = l"
     "(gl_test GLF_REPLY_PENDING x \<or> gl_test GLF_FROZEN x) = r"
    using assms(2) by (auto simp: flags_are_def)
  with sameD [OF assms(1) x(1)] show ?thesis by (auto simp: flags_are_def gl_core_def)
qed

lemma same_busy: "gsame s s' \<Longrightarrow> busy g s \<Longrightarrow> busy g s'"
  using same_nobody [of s s' g] same_flags [of s s' g] same_loc [of s s' g] by (auto simp: busy_def)

lemma same_settled:
  assumes "gsettled g s t" and "gsame t u"
  shows "gsettled g s u"
proof -
  obtain x where x: "gs_glocks t g = Some x" "lock_ok t x" "\<not> gl_test GLF_REPLY_PENDING x" "\<not> gl_test GLF_FROZEN x"
    using assms(1) by (auto simp: gsettled_def)
  obtain x' where x': "gs_glocks u g = Some x'" "gl_core x' = gl_core x" using sameD [OF assms(2) x(1)] by blast
  have "lock_ok u x' = lock_ok t x" by (rule lock_ok_cong [OF x'(2) same_held [OF assms(2)]])
  with x x' assms off_trans [of g s t u] show ?thesis
    by (auto simp: gsettled_def same_loc [OF assms(2)] same_off gl_core_def)
qed

lemma settled_from: "off g s t \<Longrightarrow> gsettled g t u \<Longrightarrow> gsettled g s u"
  using off_trans by (auto simp: gsettled_def)

lemma keeps_busy:
  assumes "gkeeps g s s'" and "busy g s" and "\<And>k. held s' k \<Longrightarrow> held s k"
  shows "busy g s'"
proof -
  obtain x x' where x: "gs_glocks s g = Some x" "gs_glocks s' g = Some x'" "gl_rest x' = gl_rest x"
    "set (gl_holders x') \<subseteq> set (gl_holders x)" using assms(1) by (auto simp: gkeeps_def)
  then show ?thesis
    using assms by (auto simp: busy_def gkeeps_def nobody_def flags_are_def gl_rest_def)
qed

lemma do_error_busy: "busy g s \<Longrightarrow> do_error g ret s = Some s' \<Longrightarrow> busy g s' \<and> off g s s'"
  using do_error_keeps [of g s ret s'] keeps_busy [of g s s'] by (auto simp: busy_def gkeeps_def)

section \<open>State and flags\<close>

text \<open>Updating the glock without touching its queue.\<close>

lemma upd_loc:
  assumes loc: "loc g s" and up: "upd_gl g f s = Some s'" and x: "gs_glocks s g = Some x"
    and f: "gl_holders (f x) = gl_holders x" "gl_dead (f x) = gl_dead x"
      "gl_state (f x) = gl_state x \<or> nobody g s"
  shows "off g s s' \<and> loc g s' \<and> gs_glocks s' g = Some (f x) \<and> (\<forall>h. held s' h = held s h)"
proof -
  have s': "s' = s\<lparr>gs_glocks := (gs_glocks s)(g \<mapsto> f x)\<rparr>" using up x by (simp add: upd_gl_eq_Some_iff)
  have e: "held s' k = held s k" "holder s' k = holder s k" "gs_holders s' k = gs_holders s k" for k
    by (simp_all add: held_def holder_def s')
  have "glock_ok s g x" "\<forall>h. held s h \<and> gh_gl (holder s h) = Some g \<longrightarrow> h \<in> set (gl_holders x)"
    using loc x by (auto simp: loc_def)
  moreover have "\<forall>h\<in>set (gl_holders x). held s h \<longrightarrow> covers (gl_state (f x)) (holder s h)"
    using f(3) x calculation(1) by (auto simp: nobody_def glock_ok_def)
  ultimately have "loc g s'"
    using f by (auto simp: loc_def s' glock_ok_def queue_ok_def e [unfolded s'])
  then show ?thesis by (auto simp: off_def s' e [unfolded s'])
qed

lemma state_change_busy:
  assumes b: "busy g s" and c: "state_change env g st s = Some s'"
  shows "busy g s' \<and> off g s s'"
proof -
  obtain s1 t where s1: "gsame s s1" and s': "upd_gl g (enter_state env st t) s1 = Some s'"
  proof -
    obtain x :: gfs2_glock and s1 where
      1: "(if (gl_state x \<noteq> LM_ST_UNLOCKED) \<noteq> (st \<noteq> LM_ST_UNLOCKED) then do {
            _ \<leftarrow> dlm_assert (\<not> gl_dead x);
            gl_ref_add (if st \<noteq> LM_ST_UNLOCKED then 1 else -1) g s
          } else Some s) = Some s1"
      and 2: "upd_gl g (enter_state env st (g_jiffies env (gs_tick s1))) s1 = Some s'"
      using c unfolding state_change_def bind_eq_Some_conv Let_def by blast
    have "gsame s s1" using 1 by (auto simp: bind_eq_Some_conv split: if_splits dest: gl_ref_add_same)
    with 2 that show thesis by blast
  qed
  then obtain x where x: "gs_glocks s1 g = Some x" by (auto simp: upd_gl_eq_Some_iff)
  note b1 = same_busy [OF s1 b]
  have loc1: "loc g s1" and n1: "nobody g s1" using b1 by (simp_all add: busy_def)
  have u: "off g s1 s' \<and> loc g s' \<and> gs_glocks s' g = Some (enter_state env st t x) \<and> (\<forall>h. held s' h = held s1 h)"
    by (rule upd_loc [OF loc1 s' x]) (use n1 in \<open>simp_all add: enter_state_def\<close>)
  then show ?thesis
    using b1 x off_trans [OF same_off [OF s1], of g s']
    by (auto simp: busy_def nobody_def flags_are_def gl_test_def enter_state_def)
qed

lemma clear_lock_settled:
  assumes loc: "loc g s" and fl: "flags_are g l False s" and c: "gl_clear GLF_LOCK g s = Some s'"
  shows "gsettled g s s'"
proof -
  obtain x where x: "gs_glocks s g = Some x" "\<not> gl_test GLF_REPLY_PENDING x" "\<not> gl_test GLF_FROZEN x"
    using fl by (auto simp: flags_are_def)
  have "off g s s' \<and> loc g s' \<and> gs_glocks s' g = Some (x\<lparr>gl_flags := unset_bit GLF_LOCK (gl_flags x)\<rparr>) \<and>
      (\<forall>h. held s' h = held s h)"
    by (rule upd_loc [OF loc c [unfolded gl_clear_def] x(1)]) simp_all
  then show ?thesis using x by (auto simp: gsettled_def lock_ok_def)
qed

lemma busy_flags: "busy g s \<Longrightarrow> loc g s" "busy g s \<Longrightarrow> flags_are g True False s"
  by (simp_all add: busy_def)

lemma promoted_flags: "promoted g ok s s' \<Longrightarrow> flags_are g l r s \<Longrightarrow> flags_are g l r s'"
  by (auto simp: promoted_def gkeeps_def flags_are_def gl_rest_def)

lemma promoted_loc: "promoted g ok s s' \<Longrightarrow> loc g s' \<and> off g s s'"
  by (auto simp: promoted_def gkeeps_def)

lemma not_promoted_busy:
  assumes "promoted g False s s'" and "flags_are g True False s"
  shows "busy g s'"
proof -
  obtain x where "gs_glocks s' g = Some x" "\<not> held s' (hd (gl_holders x))"
    using assms(1) by (auto simp: promoted_def)
  then show ?thesis
    using promoted_loc [OF assms(1)] none_held [of g s' x] promoted_flags [OF assms]
    by (auto simp: busy_def nobody_def)
qed

section \<open>The request\<close>

text \<open>A step between two busy states.\<close>

definition bz :: "glp \<Rightarrow> gfs2 \<Rightarrow> gfs2 \<Rightarrow> bool" where
  "bz g s s' \<longleftrightarrow> (busy g s \<longrightarrow> busy g s' \<and> off g s s')"

lemma bz_trans: "bz g s t \<Longrightarrow> bz g t u \<Longrightarrow> bz g s u"
  using off_trans by (auto simp: bz_def)

lemma same_bz: "gsame s s' \<Longrightarrow> bz g s s'"
  by (simp add: bz_def same_busy same_off)

lemma bz_settled: "busy g s \<Longrightarrow> bz g s t \<Longrightarrow> gsettled g t u \<Longrightarrow> gsettled g s u"
  using settled_from by (auto simp: bz_def)

lemma do_error_bz: "do_error g ret s = Some s' \<Longrightarrow> bz g s s'"
  using do_error_busy by (simp add: bz_def)

lemma announce_bz:
  assumes "xmote_announce g inval s = Some s'"
  shows "bz g s s'"
proof (cases inval)
  case True
  then obtain s1 where 1: "gl_set GLF_INVALIDATE_IN_PROGRESS g s = Some s1" "do_error g 0 s1 = Some s'"
    using assms by (auto simp: xmote_announce_def bind_eq_Some_conv)
  have "gsame s s1" using gl_set_same [OF 1(1)] by (simp add: plain_flag_def)
  then show ?thesis using do_error_bz [OF 1(2)] by (blast intro: bz_trans same_bz)
next
  case False
  with assms show ?thesis by (simp add: xmote_announce_def same_bz)
qed

lemma note_request_core: "gl_core (note_request target fl x) = gl_core x"
  by (simp add: note_request_def Let_def gl_core_def) (simp add: gl_test_def bit_set_bit_iff bit_unset_bit_iff)

lemma note_log_error_same [simp]: "gsame s (note_log_error e s)"
  by (simp add: note_log_error_def)

lemma invalidate_same:
  assumes "xmote_invalidate g s = Some s'"
  shows "gsame s s'"
proof -
  have c: "gsame s s'" if "gsame s t" "gl_clear GLF_INVALIDATE_IN_PROGRESS g t = Some s'" for t
    using that(1) gl_clear_same [OF that(2)] by (auto simp: plain_flag_def intro: gsame_trans)
  show ?thesis
    using assms c [of s] c [of "note_log_error (-EIO) s"]
    by (cases "gs_glocks s g") (auto simp: xmote_invalidate_def split: if_splits)
qed

lemma flush_same:
  assumes "xmote_flush g s = Some s'"
  shows "gsame s s'"
proof -
  obtain t where "gsame s t" "s' = t \<or> xmote_invalidate g t = Some s'"
  proof (cases "gs_glocks s g")
    case None
    with assms show ?thesis by (simp add: xmote_flush_def)
  next
    case (Some x)
    then show ?thesis
      using assms that [of s] that [of "s\<lparr>gs_tick := gs_tick s + 1\<rparr>"]
        that [of "note_log_error _ (s\<lparr>gs_tick := gs_tick s + 1\<rparr>)"]
      by (cases "go_sync (gl_ops x)") (auto simp: xmote_flush_def Let_def note_log_error_def split: if_splits)
  qed
  then show ?thesis using invalidate_same gsame_trans by blast
qed

lemma prepare_bz:
  assumes "xmote_prepare g target inval fl s = Some s'"
  shows "bz g s s'"
proof -
  obtain s1 s2 where 1: "xmote_announce g inval s = Some s1" "upd_gl g (note_request target fl) s1 = Some s2"
     "xmote_flush g s2 = Some s'"
    using assms unfolding xmote_prepare_def bind_eq_Some_conv by blast
  have "gsame s1 s2" by (rule upd_gl_same [OF 1(2)]) (rule note_request_core)
  with announce_bz [OF 1(1)] flush_same [OF 1(3)] show ?thesis
    by (blast intro: bz_trans same_bz)
qed

lemma xmote_sync_bz: "xmote_sync env g gh target s = Some (fl, s') \<Longrightarrow> bz g s s'"
  unfolding xmote_sync_def Let_def bind_eq_Some_conv
  by (auto split: if_splits simp: bind_eq_Some_conv same_bz prepare_bz)

lemma clear_lock_busy: "busy g s \<Longrightarrow> gl_clear GLF_LOCK g s = Some s' \<Longrightarrow> gsettled g s s'"
  using clear_lock_settled [of g s True s'] by (auto simp: busy_def)

lemma withdrawn_settled:
  assumes env: "gfs2_env_ok env" and b: "busy g s" and w: "xmote_withdrawn env g s = Some s'"
  shows "gsettled g s s' \<and> gs_work s' g \<noteq> None"
proof -
  obtain s1 s2 s3 s4 d where 1: "handle_callback env g LM_ST_UNLOCKED 0 False s = Some s1"
    "state_change env g LM_ST_UNLOCKED s1 = Some s2" "gl_clear GLF_LOCK g s2 = Some s3"
    "gl_clear GLF_DEMOTE_IN_PROGRESS g s3 = Some s4" "us_us_gfs2_glock_queue_work g d s4 = Some s'"
    using w by (auto simp: xmote_withdrawn_def bind_eq_Some_conv gfs2_glock_queue_work_def)
  note b1 = same_busy [OF handle_callback_same [OF env 1(1)] b]
  note b2 = state_change_busy [OF b1 1(2)]
  have "gsettled g s2 s3" using clear_lock_busy 1(3) b2 by blast
  moreover have "gsame s3 s4" using gl_clear_same [OF 1(4)] by (simp add: plain_flag_def)
  moreover have "gsame s4 s'" by (rule queue_work_same [OF 1(5)])
  ultimately have "gsettled g s2 s'" using same_settled by blast
  then have "gsettled g s s'"
    using b2 same_off [OF handle_callback_same [OF env 1(1)]] settled_from off_trans by blast
  moreover have "gs_work s' g \<noteq> None" using 1(5)
    by (auto simp: us_us_gfs2_glock_queue_work_def queue_delayed_work_def bind_eq_Some_conv gl_ref_add_def
        upd_gl_eq_Some_iff split: option.splits)
  ultimately show ?thesis ..
qed

lemma queue_work_work: "us_us_gfs2_glock_queue_work g d s = Some s' \<Longrightarrow> gs_work s' g \<noteq> None"
  by (auto simp: us_us_gfs2_glock_queue_work_def queue_delayed_work_def bind_eq_Some_conv gl_ref_add_def
      upd_gl_eq_Some_iff split: option.splits)

text \<open>A request under way or work queued: the glock is not forgotten.\<close>

definition pending :: "glp \<Rightarrow> gfs2 \<Rightarrow> bool" where
  "pending g s \<longleftrightarrow> (\<exists>x. gs_glocks s g = Some x \<and> gl_test GLF_LOCK x) \<or> gs_work s g \<noteq> None"

lemma busy_pending: "busy g s \<Longrightarrow> pending g s"
  by (auto simp: busy_def flags_are_def pending_def)

definition good_finish :: "glp \<Rightarrow> (glp \<Rightarrow> u32 \<Rightarrow> gfs2 \<Rightarrow> gfs2 option) \<Rightarrow> bool" where
  "good_finish g fin \<longleftrightarrow> (\<forall>ret s s'. busy g s \<longrightarrow> fin g ret s = Some s' \<longrightarrow> gsettled g s s')"

lemma good_finishD: "good_finish g fin \<Longrightarrow> busy g s \<Longrightarrow> fin g ret s = Some s' \<Longrightarrow> gsettled g s s'"
  by (auto simp: good_finish_def)

lemma request_settled:
  assumes fin: "good_finish g fin"
    and b: "busy g s" and r: "xmote_request fin env g target fl s = Some s'"
  shows "gsettled g s s' \<and> pending g s'"
proof -
  have finish: "gsettled g t s' \<and> pending g s'"
    if t: "busy g t" "fin g (lm_code target) t = Some u" "gfs2_glock_queue_work g 0 u = Some s'" for t u
    using good_finishD [OF fin t(1,2)] same_settled queue_work_same queue_work_work t(3)
    by (auto simp: gfs2_glock_queue_work_def pending_def)
  show ?thesis
  proof (cases "ls_ops_dlm (sd_lockstruct s)")
    case False
    with r obtain u where "fin g (lm_code target) s = Some u" "gfs2_glock_queue_work g 0 u = Some s'"
      by (auto simp: xmote_request_def bind_eq_Some_conv)
    with finish [OF b] show ?thesis by blast
  next
    case True
    with r obtain ret s1 x where 1: "gdlm_lock env g target fl s = Some (ret, s1)" "gs_glocks s1 g = Some x"
      and k: "(if ret = -EINVAL \<and> gl_target x = LM_ST_UNLOCKED \<and> target = LM_ST_UNLOCKED \<and>
           bit (sd_flags s1) SDF_SKIP_DLM_UNLOCK
        then do { s \<leftarrow> fin g (lm_code target) s1; gfs2_glock_queue_work g 0 s }
        else if ret \<noteq> 0 then do { _ \<leftarrow> dlm_assert (gfs2_withdrawn env (sd_flags s1)); Some s1 }
        else Some s1) = Some s'"
      by (auto simp: xmote_request_def bind_eq_Some_conv)
    note sm = gdlm_lock_same [OF 1(1)]
    note b1 = same_busy [OF sm b]
    have "gsettled g s1 s' \<and> pending g s'"
      using k b1 finish [OF b1] busy_settled [of g s1 s1] busy_pending [OF b1]
      by (auto simp: bind_eq_Some_conv split: if_splits)
    then show ?thesis using settled_from [OF same_off [OF sm]] by blast
  qed
qed

lemma send_settled:
  assumes env: "gfs2_env_ok env"
    and fin: "good_finish g fin"
    and b: "busy g s" and r: "xmote_send fin env g target fl s = Some s'"
  shows "gsettled g s s' \<and> pending g s'"
proof -
  have inv: "gsettled g s s' \<and> pending g s'"
    if t: "gl_clear GLF_INVALIDATE_IN_PROGRESS g s = Some t" "xmote_request fin env g target fl t = Some s'" for t
  proof -
    have st: "gsame s t" using gl_clear_same [OF t(1)] by (simp add: plain_flag_def)
    have "gsettled g t s' \<and> pending g s'" by (rule request_settled [OF fin same_busy [OF st b] t(2)])
    then show ?thesis using settled_from [OF same_off [OF st]] by blast
  qed
  have req: "gsettled g s s' \<and> pending g s'" if "xmote_request fin env g target fl s = Some s'"
    by (rule request_settled [OF fin b that])
  have wd: "gsettled g s s' \<and> pending g s'" if "xmote_withdrawn env g s = Some s'"
    using withdrawn_settled [OF env b that] by (simp add: pending_def)
  from r show ?thesis
    unfolding xmote_send_def bind_eq_Some_conv using inv req wd by (auto simp: bind_eq_Some_conv split: if_splits)
qed

lemma do_xmote_step_settled:
  assumes env: "gfs2_env_ok env"
    and fin: "good_finish g fin"
    and b: "busy g s" and r: "do_xmote_step fin env g gh target s = Some s'"
  shows "gsettled g s s' \<and> pending g s'"
proof -
  obtain y fl s1 where 1: "xmote_sync env g y target s = Some (fl, s1)"
    and k: "(case fl of None \<Rightarrow> Some s1 | Some lck_flags \<Rightarrow> do {
       s \<leftarrow> gfs2_glock_hold g s1;
       xmote_send fin env g target lck_flags (check_log_error env s)
     }) = Some s'"
    using r unfolding do_xmote_step_def bind_eq_Some_conv by auto
  have b1: "busy g s1" and bz1: "bz g s s1" using xmote_sync_bz [OF 1] b by (simp_all add: bz_def)
  have "gsettled g s1 s' \<and> pending g s'"
  proof (cases fl)
    case None
    with k b1 show ?thesis using busy_settled [of g s1 s1] busy_pending by auto
  next
    case (Some f)
    with k obtain s2 where 2: "gfs2_glock_hold g s1 = Some s2"
      "xmote_send fin env g target f (check_log_error env s2) = Some s'"
      by (auto simp: bind_eq_Some_conv)
    have sm: "gsame s1 (check_log_error env s2)"
      by (rule gsame_trans [OF gfs2_glock_hold_same [OF 2(1)]]) (simp add: check_log_error_def gsame_cong)
    then show ?thesis
      using send_settled [OF env fin same_busy [OF sm b1] 2(2)] settled_from [OF same_off [OF sm]] by blast
  qed
  then show ?thesis using bz_settled [OF b bz1] by blast
qed

end
