(* ===== verification/Gfs2_Finish.thy ===== *)
theory Gfs2_Finish
  imports Gfs2_Xmote
begin

text \<open>
  The reply of the lock manager (\<open>finish_xmote\<close>) and the run of the queue (\<open>run_queue\<close>): they keep
  the invariant of the glock, and leave nobody waiting unless a request is under way, work is
  queued or the first holder is granted.
\<close>

section \<open>Replies\<close>

definition good_xmote :: "glp \<Rightarrow> (glp \<Rightarrow> ghp option \<Rightarrow> lm_state \<Rightarrow> gfs2 \<Rightarrow> gfs2 option) \<Rightarrow> bool" where
  "good_xmote g xm \<longleftrightarrow> (\<forall>gh st s s'. busy g s \<longrightarrow> xm g gh st s = Some s' \<longrightarrow> gsettled g s s')"

lemma good_xmoteD: "good_xmote g xm \<Longrightarrow> busy g s \<Longrightarrow> xm g gh st s = Some s' \<Longrightarrow> gsettled g s s'"
  by (auto simp: good_xmote_def)

lemma again_settled:
  assumes "good_xmote g xm" and "busy g s" and "xmote_again xm g gh st s = Some s'"
  shows "gsettled g s s'"
  using assms(3) good_xmoteD [OF assms(1,2)]
  by (cases st) (auto simp: xmote_again_def bind_eq_Some_conv)

text \<open>The target of a glock is not part of the invariant.\<close>

lemma target_same:
  "upd_gl g (\<lambda>x. x\<lparr>gl_target := f x\<rparr>) s = Some s' \<Longrightarrow> gsame s s'"
  by (erule upd_gl_same) (simp add: gl_core_def gl_test_def)

lemma move_tail_busy:
  assumes b: "busy g s" and x: "gs_glocks s g = Some x" and h: "h \<in> set (gl_holders x)"
    and m: "upd_gl g (\<lambda>x. x\<lparr>gl_holders := remove1 h (gl_holders x) @ [h]\<rparr>) s = Some s'"
  shows "busy g s' \<and> off g s s'"
proof -
  define x' where "x' = x\<lparr>gl_holders := remove1 h (gl_holders x) @ [h]\<rparr>"
  have s': "s' = s\<lparr>gs_glocks := (gs_glocks s)(g \<mapsto> x')\<rparr>" using m x by (simp add: upd_gl_eq_Some_iff x'_def)
  have e: "held s' k = held s k" "holder s' k = holder s k" "gs_holders s' k = gs_holders s k" for k
    by (simp_all add: held_def holder_def s')
  have loc: "loc g s" and n: "\<forall>k\<in>set (gl_holders x). \<not> held s k" using b x by (auto simp: busy_def nobody_def)
  have d: "distinct (gl_holders x)" by (rule locD(3) [OF loc x])
  then have set: "set (gl_holders x') = set (gl_holders x)" and d': "distinct (gl_holders x')"
    using h by (auto simp: x'_def)
  have sw: "sorted_wrt (\<lambda>a b. held s b \<longrightarrow> held s a) (gl_holders x')"
    using n set holders_first [of "[]" "held s" "gl_holders x'"] by simp
  have "glock_ok s' g x'"
    using locD(1) [OF loc x] n sw d' h
    by (simp add: glock_ok_def queue_ok_def e set) (auto simp: x'_def)
  moreover have "k \<in> set (gl_holders x')" if "held s' k" "gh_gl (holder s' k) = Some g" for k
    using locD(2) [OF loc x] that by (simp add: e set)
  ultimately have "loc g s'" by (auto simp: loc_def s')
  moreover have "off g s s'" by (auto simp: off_def s' e [unfolded s'])
  moreover have "flags_are g True False s'"
    using b x by (auto simp: busy_def flags_are_def s' x'_def gl_test_def)
  ultimately show ?thesis using n by (auto simp: busy_def nobody_def s' set e [unfolded s'])
qed

lemma promote_clear_settled:
  assumes "loc g s" and "flags_are g l False s" and "do_promote g s = Some (ok, s1)"
    and "gl_clear GLF_LOCK g s1 = Some s'"
  shows "gsettled g s s'"
proof -
  note p = do_promote_promoted [OF assms(1,3)]
  have "gsettled g s1 s'"
    by (rule clear_lock_settled [OF _ promoted_flags [OF p assms(2)] assms(4)]) (use promoted_loc [OF p] in simp)
  then show ?thesis using settled_from promoted_loc [OF p] by blast
qed

lemma first_waiter_mem: "first_waiter s hs = Some (Some h) \<Longrightarrow> h \<in> set hs"
  by (induction hs) (auto simp: bind_eq_Some_conv split: if_splits)

lemma cancelled_settled:
  assumes xm: "good_xmote g xm" and b: "busy g s" and x: "gs_glocks s g = Some x" and h: "h \<in> set (gl_holders x)"
    and c: "xmote_cancelled xm g h s = Some s'"
  shows "gsettled g s s'"
proof -
  obtain s1 s2 s3 ok k and y :: gfs2_holder where 1: "upd_gl g (\<lambda>x. x\<lparr>gl_holders := remove1 h (gl_holders x) @ [h]\<rparr>) s = Some s1"
    and 2: "upd_gl g (\<lambda>x. x\<lparr>gl_target := gh_state y\<rparr>) s1 = Some s2"
    and 3: "do_promote g s2 = Some (ok, s3)"
    and 4: "(if ok then gl_clear GLF_LOCK g s3
        else do { x \<leftarrow> gs_glocks s3 g; xm g (Some k) (gl_target x) s3 }) = Some s'"
    using c unfolding xmote_cancelled_def bind_eq_Some_conv by auto
  note b1 = move_tail_busy [OF b x h 1]
  have sm: "gsame s1 s2" by (rule target_same [OF 2])
  have b2: "busy g s2" and o2: "off g s s2"
    using same_busy [OF sm] same_off [OF sm] b1 off_trans by blast+
  note p = do_promote_promoted [OF busy_flags(1) [OF b2] 3]
  have "gsettled g s2 s'"
  proof (cases ok)
    case True
    with 4 promote_clear_settled [OF busy_flags [OF b2] 3] show ?thesis by simp
  next
    case False
    with p have "busy g s3" using not_promoted_busy [of g s2 s3] busy_flags(2) [OF b2] by simp
    with 4 False have "gsettled g s3 s'" using good_xmoteD [OF xm] by (auto simp: bind_eq_Some_conv)
    then show ?thesis using settled_from promoted_loc [OF p] by blast
  qed
  then show ?thesis using settled_from [OF o2] by blast
qed

lemma unwanted_settled:
  assumes xm: "good_xmote g xm" and b: "busy g s"
    and gh: "\<And>h x. gh = Some h \<Longrightarrow> gs_glocks s g = Some x \<Longrightarrow> h \<in> set (gl_holders x)"
    and f: "finish_unwanted xm g ret gh st s = Some s'"
  shows "gsettled g s s'"
proof (cases gh)
  case None
  with f again_settled [OF xm b] show ?thesis by (auto simp: finish_unwanted_def)
next
  case (Some h)
  with f obtain s1 x and y :: gfs2_holder where 1: "(if has_flag ret LM_OUT_CANCELED then gfs2_holder_wake h s else Some s) = Some s1"
    and x: "gs_glocks s1 g = Some x"
    and k: "(if gl_test GLF_DEMOTE_IN_PROGRESS x then xmote_again xm g (Some h) st s1
         else if has_flag ret LM_OUT_CANCELED then xmote_cancelled xm g h s1
         else if has_flag ret LM_OUT_ERROR \<or> has_flag (gh_flags y) (LM_FLAG_TRY OR LM_FLAG_TRY_1CB)
         then do {
           s \<leftarrow> upd_gl g (\<lambda>x. x\<lparr>gl_target := gl_state x\<rparr>) s1;
           s \<leftarrow> do_error g ret s;
           gl_clear GLF_LOCK g s
         }
         else xmote_again xm g (Some h) st s1) = Some s'"
    by (auto simp: finish_unwanted_def bind_eq_Some_conv)
  have sm: "gsame s s1" using 1 by (auto split: if_splits dest: gfs2_holder_wake_same)
  note b1 = same_busy [OF sm b]
  obtain x0 where x0: "gs_glocks s g = Some x0" "gl_core x0 = gl_core x"
    using sameD [OF gsame_sym [OF sm] x] by blast
  then have h: "h \<in> set (gl_holders x)" using gh [OF Some x0(1)] by (simp add: gl_core_def)
  have err: "gsettled g s1 s'" if t: "upd_gl g (\<lambda>x. x\<lparr>gl_target := gl_state x\<rparr>) s1 = Some t"
    "do_error g ret t = Some u" "gl_clear GLF_LOCK g u = Some s'" for t u
  proof -
    note st = target_same [OF t(1)]
    have "busy g u \<and> off g t u" by (rule do_error_busy [OF same_busy [OF st b1] t(2)])
    then show ?thesis using clear_lock_busy [OF _ t(3)] settled_from same_off [OF st] by blast
  qed
  have "gsettled g s1 s'"
    using k again_settled [OF xm b1] cancelled_settled [OF xm b1 x h] err
    by (auto simp: bind_eq_Some_conv split: if_splits)
  then show ?thesis using settled_from [OF same_off [OF sm]] by blast
qed

lemma wanted_settled:
  assumes b: "busy g s" and f: "finish_wanted g st s = Some s'"
  shows "gsettled g s s'"
proof -
  obtain x s1 where x: "gs_glocks s g = Some x"
    and 1: "(if gl_test GLF_DEMOTE_IN_PROGRESS x
          then do { s \<leftarrow> gl_clear GLF_DEMOTE_IN_PROGRESS g s; gfs2_demote_wake g s } else Some s) = Some s1"
    and k: "(if st = LM_ST_UNLOCKED then gl_clear GLF_LOCK g s1
     else do {
       let (rv, s) = xmote_bh x s1;
       s \<leftarrow> (if rv \<noteq> 0 then do_error g (to32 rv) s else map_option snd (do_promote g s));
       gl_clear GLF_LOCK g s
     }) = Some s'"
    using f unfolding finish_wanted_def bind_eq_Some_conv by auto
  have sm: "gsame s s1"
    using 1 by (auto simp: bind_eq_Some_conv plain_flag_def split: if_splits
        dest!: gl_clear_same demote_wake_same intro: gsame_trans)
  note b1 = same_busy [OF sm b]
  have "gsettled g s1 s'"
  proof (cases "st = LM_ST_UNLOCKED")
    case True
    with k clear_lock_busy [OF b1] show ?thesis by simp
  next
    case False
    obtain rv s2 where bh: "xmote_bh x s1 = (rv, s2)" by (cases "xmote_bh x s1")
    then have s2: "gsame s1 s2" by (auto simp: xmote_bh_def split: option.splits)
    obtain s3 where s3: "(if rv \<noteq> 0 then do_error g (to32 rv) s2 else map_option snd (do_promote g s2)) = Some s3"
      and c: "gl_clear GLF_LOCK g s3 = Some s'"
      using k False bh by (auto simp: bind_eq_Some_conv)
    note b2 = same_busy [OF s2 b1]
    have "gsettled g s2 s'"
    proof (cases "rv = 0")
      case True
      with s3 obtain ok where "do_promote g s2 = Some (ok, s3)" by auto
      then show ?thesis using promote_clear_settled [OF busy_flags [OF b2] _ c] by blast
    next
      case False
      with s3 have "busy g s3 \<and> off g s2 s3" using do_error_busy [OF b2] by auto
      then show ?thesis using clear_lock_busy [OF _ c] settled_from by blast
    qed
    then show ?thesis using settled_from [OF same_off [OF s2]] by blast
  qed
  then show ?thesis using settled_from [OF same_off [OF sm]] by blast
qed

lemma finish_step_settled:
  assumes xm: "good_xmote g xm" and b: "busy g s" and f: "finish_xmote_step xm env g ret s = Some s'"
  shows "gsettled g s s'"
proof -
  obtain s1 x gh s2 x2 where 1: "state_change env g (lm_out_state ret) s = Some s1"
    and x: "gs_glocks s1 g = Some x" and gh: "find_first_waiter x s1 = Some gh"
    and 2: "(if gl_test GLF_DEMOTE_IN_PROGRESS x \<and> lm_out_state ret \<noteq> LM_ST_UNLOCKED \<and> gl_demote_state x = LM_ST_UNLOCKED
          then upd_gl g (\<lambda>x. x\<lparr>gl_target := LM_ST_UNLOCKED\<rparr>) s1 else Some s1) = Some s2"
    and x2: "gs_glocks s2 g = Some x2"
    and k: "(if lm_out_state ret \<noteq> gl_target x2 then finish_unwanted xm g ret gh (lm_out_state ret) s2
        else finish_wanted g (lm_out_state ret) s2) = Some s'"
    using f unfolding finish_xmote_step_def Let_def bind_eq_Some_conv by auto
  note b1 = state_change_busy [OF b 1]
  have sm: "gsame s1 s2" using 2 by (auto split: if_splits dest: target_same)
  have b2: "busy g s2" using same_busy [OF sm] b1 by blast
  have h: "h \<in> set (gl_holders x')" if g: "gh = Some h" "gs_glocks s2 g = Some x'" for h x'
  proof -
    have "gl_holders x' = gl_holders x"
      using sameD [OF sm x] g(2) by (auto simp: gl_core_def)
    then show ?thesis using gh g(1) first_waiter_mem by (simp add: find_first_waiter_def)
  qed
  have "gsettled g s2 s'"
    using k unwanted_settled [OF xm b2 h] wanted_settled [OF b2] by (auto split: if_splits)
  then show ?thesis
    using b1 same_off [OF sm] settled_from off_trans by blast
qed

lemma finish_n_good: "gfs2_env_ok env \<Longrightarrow> good_finish g (finish_xmote_n n env)"
proof (induction n)
  case 0
  then show ?case by (simp add: good_finish_def)
next
  case (Suc n)
  have "good_xmote g (do_xmote_step (finish_xmote_n n env) env)"
    using do_xmote_step_settled [OF Suc.prems Suc.IH [OF Suc.prems]] by (auto simp: good_xmote_def)
  then show ?case using finish_step_settled by (auto simp: good_finish_def)
qed

lemma finish_xmote_settled:
  "gfs2_env_ok env \<Longrightarrow> busy g s \<Longrightarrow> finish_xmote env g ret s = Some s' \<Longrightarrow> gsettled g s s'"
  unfolding finish_xmote_def by (rule good_finishD [OF finish_n_good])

lemma do_xmote_settled:
  "gfs2_env_ok env \<Longrightarrow> busy g s \<Longrightarrow> do_xmote env g gh st s = Some s' \<Longrightarrow> gsettled g s s' \<and> pending g s'"
  unfolding do_xmote_def finish_xmote_def using do_xmote_step_settled finish_n_good by blast

end
