(* ===== verification/Gfs2_Calls.thy ===== *)
theory Gfs2_Calls
  imports Gfs2_Finish
begin

text \<open>
  The calls of the glock layer keep the invariant: running the queue, enqueueing and dequeueing a
  holder, the work of a glock, replies and callbacks, dropping and creating glocks, unused glocks.
\<close>

section \<open>Running the queue\<close>

definition good :: "glp \<Rightarrow> gfs2 \<Rightarrow> bool" where
  "good g s \<longleftrightarrow> loc g s \<and> (\<exists>x. gs_glocks s g = Some x \<and> lock_ok s x)"

definition att :: "glp \<Rightarrow> gfs2 \<Rightarrow> bool" where
  "att g s \<longleftrightarrow> (\<exists>x. gs_glocks s g = Some x \<and> (gl_holders x = [] \<or> held s (hd (gl_holders x))))"

text \<open>Nobody waits in vain: the first holder is granted, a request is under way or work queued.\<close>

definition attended :: "glp \<Rightarrow> gfs2 \<Rightarrow> bool" where
  "attended g s \<longleftrightarrow> pending g s \<or> att g s"

definition og :: "glp \<Rightarrow> gfs2 \<Rightarrow> gfs2 \<Rightarrow> bool" where
  "og g s s' \<longleftrightarrow> off g s s' \<and> good g s'"

lemma settled_og: "gsettled g s s' \<Longrightarrow> og g s s'"
  by (auto simp: gsettled_def og_def good_def)

lemma same_good:
  assumes "gsame s s'" and "good g s"
  shows "good g s'"
proof -
  obtain x where x: "gs_glocks s g = Some x" "lock_ok s x" using assms(2) by (auto simp: good_def)
  obtain x' where x': "gs_glocks s' g = Some x'" "gl_core x' = gl_core x" using sameD [OF assms(1) x(1)] by blast
  have "lock_ok s' x' = lock_ok s x" by (rule lock_ok_cong [OF x'(2) same_held [OF assms(1)]])
  with x x' assms(2) show ?thesis by (auto simp: good_def same_loc [OF assms(1)])
qed

lemma same_og: "gsame s s' \<Longrightarrow> good g s \<Longrightarrow> og g s s'"
  by (simp add: og_def same_good same_off)

lemma og_trans: "og g s t \<Longrightarrow> og g t u \<Longrightarrow> og g s u"
  using off_trans by (auto simp: og_def)

lemma og_good: "og g s s' \<Longrightarrow> good g s'"
  by (simp add: og_def)

lemma good_inv: "gfs2_inv s \<Longrightarrow> gs_glocks s g = Some x \<Longrightarrow> good g s"
  using inv_loc inv_glock by (auto simp: good_def)

lemma og_inv: "gfs2_inv s \<Longrightarrow> og g s s' \<Longrightarrow> gfs2_inv s'"
  by (rule loc_inv) (auto simp: og_def good_def)

text \<open>Updating the flags of the glock.\<close>

lemma flags_og:
  assumes g: "good g s" and x: "gs_glocks s g = Some x" and u: "upd_gl g f s = Some s'"
    and f: "gl_holders (f x) = gl_holders x" "gl_dead (f x) = gl_dead x" "gl_state (f x) = gl_state x"
    and l: "lock_ok s (f x)"
  shows "og g s s' \<and> gs_glocks s' g = Some (f x) \<and> (\<forall>h. held s' h = held s h)"
proof -
  have "off g s s' \<and> loc g s' \<and> gs_glocks s' g = Some (f x) \<and> (\<forall>h. held s' h = held s h)"
    by (rule upd_loc [OF _ u x]) (use g f in \<open>simp_all add: good_def\<close>)
  then show ?thesis using l by (auto simp: og_def good_def lock_ok_def)
qed

lemma set_lock:
  assumes g: "good g s" and x: "gs_glocks s g = Some x" "\<not> gl_test GLF_LOCK x" and u: "gl_set GLF_LOCK g s = Some s'"
  shows "off g s s' \<and> loc g s' \<and> flags_are g True False s' \<and> (\<forall>h. held s' h = held s h)"
    and "gs_glocks s' g = Some (x\<lparr>gl_flags := set_bit GLF_LOCK (gl_flags x)\<rparr>)"
proof -
  have l: "lock_ok s x" using g x by (auto simp: good_def)
  have "off g s s' \<and> loc g s' \<and> gs_glocks s' g = Some (x\<lparr>gl_flags := set_bit GLF_LOCK (gl_flags x)\<rparr>) \<and>
      (\<forall>h. held s' h = held s h)"
    by (rule upd_loc [OF _ u [unfolded gl_set_def] x(1)]) (use g in \<open>simp_all add: good_def\<close>)
  then show "off g s s' \<and> loc g s' \<and> flags_are g True False s' \<and> (\<forall>h. held s' h = held s h)"
    "gs_glocks s' g = Some (x\<lparr>gl_flags := set_bit GLF_LOCK (gl_flags x)\<rparr>)"
    using l x(2) by (auto simp: flags_are_def lock_ok_def)
qed

lemma clear_lock_att:
  assumes "gl_clear GLF_LOCK g s = Some s'" and "att g s"
  shows "att g s'"
  using assms by (auto simp: att_def gl_clear_def upd_gl_eq_Some_iff held_def)

lemma find_first_None:
  assumes "loc g s" and "gs_glocks s g = Some x" and "find_first_holder x s = Some cur"
  shows "cur = None \<Longrightarrow> nobody g s" "cur \<noteq> None \<Longrightarrow> att g s"
  using find_first_holder_cur [OF assms] assms hd_held [OF assms(1,2)]
  by (auto simp: cur_ok_def nobody_def att_def split: option.splits)

lemma promoted_att: "promoted g True s s' \<Longrightarrow> att g s'"
  by (auto simp: promoted_def att_def)

text \<open>The two branches of \<open>run_queue\<close>, after \<open>GLF_LOCK\<close> has been set.\<close>

lemma demote_branch:
  assumes env: "gfs2_env_ok env" and loc: "loc g s" and fl: "flags_are g True False s"
    and x: "gs_glocks s g = Some x" and h: "find_first_holder x s = Some h"
    and k: "(if h \<noteq> None then gl_clear GLF_LOCK g s
         else if nonblock then do {
           s \<leftarrow> gl_clear GLF_LOCK g s;
           s \<leftarrow> gl_ref_add 1 g s;
           us_us_gfs2_glock_queue_work g 0 s
         }
         else do {
           s \<leftarrow> gl_set GLF_DEMOTE_IN_PROGRESS g s;
           _ \<leftarrow> dlm_assert (ds \<noteq> LM_ST_EXCLUSIVE);
           s \<leftarrow> upd_gl g (\<lambda>x. x\<lparr>gl_target := gl_demote_state x\<rparr>) s;
           do_xmote env g None ds s
         }) = Some s'"
  shows "gsettled g s s' \<and> attended g s'"
proof -
  consider "h \<noteq> None" | "h = None" "nonblock" | "h = None" "\<not> nonblock" by blast
  then show ?thesis
  proof cases
    case 1
    with k have c: "gl_clear GLF_LOCK g s = Some s'" by simp
    then show ?thesis
      using clear_lock_settled [OF loc fl c] clear_lock_att [OF c] find_first_None(2) [OF loc x h 1]
      by (simp add: attended_def)
  next
    case 2
    with k obtain s1 s2 where 1: "gl_clear GLF_LOCK g s = Some s1" "gl_ref_add 1 g s1 = Some s2"
      "us_us_gfs2_glock_queue_work g 0 s2 = Some s'" by (auto simp: bind_eq_Some_conv)
    have "gsame s1 s'" using gl_ref_add_same [OF 1(2)] queue_work_same [OF 1(3)] by (rule gsame_trans)
    then show ?thesis
      using same_settled [OF clear_lock_settled [OF loc fl 1(1)]] queue_work_work [OF 1(3)]
      by (simp add: attended_def pending_def)
  next
    case 3
    with k obtain s1 s2 where 1: "gl_set GLF_DEMOTE_IN_PROGRESS g s = Some s1"
      "upd_gl g (\<lambda>x. x\<lparr>gl_target := gl_demote_state x\<rparr>) s1 = Some s2" "do_xmote env g None ds s2 = Some s'"
      by (auto simp: bind_eq_Some_conv split: if_splits)
    have b: "busy g s" using loc fl find_first_None(1) [OF loc x h 3(1)] by (simp add: busy_def)
    have sm: "gsame s s2"
      using gl_set_same [OF 1(1)] target_same [OF 1(2)] by (auto simp: plain_flag_def intro: gsame_trans)
    have "gsettled g s2 s' \<and> pending g s'" by (rule do_xmote_settled [OF env same_busy [OF sm b] 1(3)])
    then show ?thesis using settled_from [OF same_off [OF sm]] by (simp add: attended_def)
  qed
qed

lemma promote_branch:
  assumes env: "gfs2_env_ok env" and loc: "loc g s" and fl: "flags_are g True False s"
    and p: "do_promote g s = Some (ok, s1)"
    and k: "(if ok then gl_clear GLF_LOCK g s1
         else do {
           x \<leftarrow> gs_glocks s1 g;
           gh \<leftarrow> find_first_waiter x s1;
           h \<leftarrow> gh;
           y \<leftarrow> gs_holders s1 h;
           s \<leftarrow> upd_gl g (\<lambda>x. x\<lparr>gl_target := gh_state y\<rparr>) s1;
           s \<leftarrow> (if \<not> has_flag (gh_flags y) (LM_FLAG_TRY OR LM_FLAG_TRY_1CB) then do_error g 0 s
                else Some s);
           do_xmote env g (Some h) (gh_state y) s
         }) = Some s'"
  shows "gsettled g s s' \<and> attended g s'"
proof (cases ok)
  case True
  with k have c: "gl_clear GLF_LOCK g s1 = Some s'" by simp
  note pr = do_promote_promoted [OF loc p]
  show ?thesis
    using promote_clear_settled [OF loc fl p c] clear_lock_att [OF c] promoted_att pr True
    by (simp add: attended_def)
next
  case False
  note pr = do_promote_promoted [OF loc p]
  have b1: "busy g s1" and o1: "off g s s1"
    using pr False not_promoted_busy [of g s s1] fl promoted_loc [of g ok s s1] by simp_all
  from k False obtain s2 s3 h and y :: gfs2_holder where
    1: "upd_gl g (\<lambda>x. x\<lparr>gl_target := gh_state y\<rparr>) s1 = Some s2"
    and 2: "(if \<not> has_flag (gh_flags y) (LM_FLAG_TRY OR LM_FLAG_TRY_1CB) then do_error g 0 s2 else Some s2) = Some s3"
    and 3: "do_xmote env g (Some h) (gh_state y) s3 = Some s'"
    by (auto simp: bind_eq_Some_conv simp del: upd_gl_Some)
  note sm = target_same [OF 1]
  have "busy g s3 \<and> off g s2 s3"
    using 2 do_error_busy [OF same_busy [OF sm b1]] same_busy [OF sm b1] by (auto split: if_splits)
  then have "gsettled g s2 s' \<and> pending g s'"
    using do_xmote_settled [OF env _ 3] settled_from by blast
  then show ?thesis
    using settled_from [OF o1] settled_from [OF same_off [OF sm]] by (simp add: attended_def)
qed

lemma run_queue_og:
  assumes env: "gfs2_env_ok env" and g: "good g s" and r: "run_queue env g nonblock s = Some s'"
  shows "og g s s' \<and> attended g s'"
proof -
  obtain x where x: "gs_glocks s g = Some x" using g by (auto simp: good_def)
  show ?thesis
  proof (cases "gl_test GLF_LOCK x")
    case True
    with r x have "s' = s" by (simp add: run_queue_def)
    with True x g show ?thesis by (auto simp: og_def attended_def pending_def)
  next
    case False
    with r x obtain s1 where 1: "gl_set GLF_LOCK g s = Some s1"
      and k: "(if gl_test GLF_DEMOTE x \<and> gl_demote_state x \<noteq> gl_state x then do {
         h \<leftarrow> find_first_holder x s1;
         if h \<noteq> None then gl_clear GLF_LOCK g s1
         else if nonblock then do {
           s \<leftarrow> gl_clear GLF_LOCK g s1;
           s \<leftarrow> gl_ref_add 1 g s;
           us_us_gfs2_glock_queue_work g 0 s
         }
         else do {
           s \<leftarrow> gl_set GLF_DEMOTE_IN_PROGRESS g s1;
           _ \<leftarrow> dlm_assert (gl_demote_state x \<noteq> LM_ST_EXCLUSIVE);
           s \<leftarrow> upd_gl g (\<lambda>x. x\<lparr>gl_target := gl_demote_state x\<rparr>) s;
           do_xmote env g None (gl_demote_state x) s
         }
       }
       else do {
         s \<leftarrow> (if gl_test GLF_DEMOTE x then gfs2_demote_wake g s1 else Some s1);
         (ok, s) \<leftarrow> do_promote g s;
         if ok then gl_clear GLF_LOCK g s
         else do {
           x \<leftarrow> gs_glocks s g;
           gh \<leftarrow> find_first_waiter x s;
           h \<leftarrow> gh;
           y \<leftarrow> gs_holders s h;
           s \<leftarrow> upd_gl g (\<lambda>x. x\<lparr>gl_target := gh_state y\<rparr>) s;
           s \<leftarrow> (if \<not> has_flag (gh_flags y) (LM_FLAG_TRY OR LM_FLAG_TRY_1CB) then do_error g 0 s
                else Some s);
           do_xmote env g (Some h) (gh_state y) s
         }
       }) = Some s'"
      unfolding run_queue_def by (auto simp: bind_eq_Some_conv)
    note l = set_lock [OF g x False 1]
    have loc1: "loc g s1" and fl1: "flags_are g True False s1" and o1: "off g s s1" using l(1) by simp_all
    define x1 where "x1 = x\<lparr>gl_flags := set_bit GLF_LOCK (gl_flags x)\<rparr>"
    have x1: "gs_glocks s1 g = Some x1" "find_first_holder x s1 = find_first_holder x1 s1"
      using l(2) by (simp_all add: x1_def find_first_holder_def)
    have "gsettled g s1 s' \<and> attended g s'"
    proof (cases "gl_test GLF_DEMOTE x \<and> gl_demote_state x \<noteq> gl_state x")
      case True
      with k obtain h where h: "find_first_holder x1 s1 = Some h"
        using x1(2) by (auto simp: bind_eq_Some_conv)
      show ?thesis
        by (rule demote_branch [OF env loc1 fl1 x1(1) h, where nonblock = nonblock and ds = "gl_demote_state x"])
          (use k True h x1(2) in simp)
    next
      case False
      with k obtain s2 ok s3 where 2: "(if gl_test GLF_DEMOTE x then gfs2_demote_wake g s1 else Some s1) = Some s2"
        and 3: "do_promote g s2 = Some (ok, s3)"
        by (auto simp: bind_eq_Some_conv)
      have sm: "gsame s1 s2" using 2 by (auto split: if_splits dest: demote_wake_same)
      have "gsettled g s2 s' \<and> attended g s'"
        by (rule promote_branch [OF env _ same_flags [OF sm fl1] 3])
          (use k False 2 3 loc1 same_loc [OF sm] in simp_all)
      then show ?thesis using settled_from [OF same_off [OF sm]] by blast
    qed
    then show ?thesis using settled_og settled_from [OF o1] by blast
  qed
qed

end
