(* ===== verification/Gfs2_Steps.thy ===== *)
theory Gfs2_Steps
  imports Gfs2_Calls
begin

text \<open>
  Enqueueing, dequeueing, replies, work and the life of a glock keep the invariant.
\<close>

section \<open>Enqueueing\<close>

lemma enqueue_og:
  assumes g: "good g s" and x: "gs_glocks s g = Some x" "\<not> gl_dead x" "h \<notin> set (gl_holders x)"
    and h: "gs_holders s h \<noteq> None" "gh_gl (holder s h) = Some g" "any_ok (holder s h)"
    and u: "upd_gl g (enqueued h) s = Some s'"
  shows "og g s s'"
proof -
  have s': "s' = s\<lparr>gs_glocks := (gs_glocks s)(g \<mapsto> enqueued h x)\<rparr>" using u x by (simp add: upd_gl_eq_Some_iff)
  have e: "held s' k = held s k" "holder s' k = holder s k" "gs_holders s' k = gs_holders s k" for k
    by (simp_all add: held_def holder_def s')
  have loc: "loc g s" and l: "lock_ok s x" using g x(1) by (auto simp: good_def)
  have nh: "\<not> held s h" using locD(2) [OF loc x(1)] h(2) x(3) by blast
  have "sorted_wrt (\<lambda>a b. held s b \<longrightarrow> held s a) (gl_holders x @ [h])"
    using locD(8) [OF loc x(1)] nh by (simp add: sorted_wrt_append)
  then have "glock_ok s' g (enqueued h x)"
    using locD(1) [OF loc x(1)] h x nh by (auto simp: glock_ok_def queue_ok_def enqueued_def e)
  moreover have "k \<in> set (gl_holders (enqueued h x))" if "held s' k" "gh_gl (holder s' k) = Some g" for k
    using that locD(2) [OF loc x(1)] by (auto simp: e enqueued_def)
  ultimately have "loc g s'" by (auto simp: loc_def s')
  moreover have "lock_ok s' (enqueued h x)"
    using l nh by (auto simp: lock_ok_def enqueued_def e gl_test_def)
  ultimately show ?thesis by (auto simp: og_def good_def off_def s' e [unfolded s'])
qed

text \<open>\<open>fits s h g\<close>: the holder \<open>h\<close>, initialised for the glock \<open>g\<close> and on no queue, may be enqueued.
  It keeps a reference to the glock, which therefore is not dead.\<close>

definition fits :: "gfs2 \<Rightarrow> ghp \<Rightarrow> glp \<Rightarrow> bool" where
  "fits s h g \<longleftrightarrow> (\<exists>y x. gs_holders s h = Some y \<and> gh_gl y = Some g \<and> any_ok y \<and>
     gs_glocks s g = Some x \<and> \<not> gl_dead x \<and> h \<notin> set (gl_holders x))"

lemma same_fits:
  assumes "gsame s s'" and "fits s h g"
  shows "fits s' h g"
proof -
  obtain y x where yx: "gs_holders s h = Some y" "gh_gl y = Some g" "any_ok y" "gs_glocks s g = Some x"
    "\<not> gl_dead x" "h \<notin> set (gl_holders x)" using assms(2) by (auto simp: fits_def)
  obtain x' where "gs_glocks s' g = Some x'" "gl_core x' = gl_core x" using sameD [OF assms(1) yx(4)] by blast
  moreover have "map_option gh_core (gs_holders s' h) = Some (gh_core y)" using assms(1) yx(1) by (simp add: gsame_def)
  then obtain y' where "gs_holders s' h = Some y'" "gh_core y' = gh_core y" by (cases "gs_holders s' h") auto
  ultimately show ?thesis
    using yx by (auto simp: fits_def gl_core_def gh_core_def any_ok_def reader_def)
qed

lemma iflags_same:
  "upd_gh h (\<lambda>y. y\<lparr>gh_iflags := set_bit HIF_WAIT (gh_iflags y)\<rparr>) s = Some s' \<Longrightarrow> gsame s s'"
  by (erule upd_gh_same) (simp add: gh_core_def)

lemma fail_try_same: "fail_try h s = Some s' \<Longrightarrow> gsame s s'"
  unfolding fail_try_def bind_eq_Some_conv
  by (auto simp: gh_core_def gh_test_def dest!: upd_gh_same gfs2_holder_wake_same intro: gsame_trans)

lemma add_to_queue_og:
  assumes g: "good g s" and f: "fits s h g" and a: "add_to_queue h s = Some s'"
  shows "og g s s'"
proof -
  obtain y x where yx: "gs_holders s h = Some y" "gh_gl y = Some g" "gs_glocks s g = Some x"
    using f by (auto simp: fits_def)
  obtain s1 fails where 1: "upd_gh h (\<lambda>y. y\<lparr>gh_iflags := set_bit HIF_WAIT (gh_iflags y)\<rparr>) s = Some s1"
    and k: "(if fails then fail_try h s1 else enqueue_holder h g s1) = Some s'"
    using a yx unfolding add_to_queue_def by (auto simp: bind_eq_Some_conv simp del: upd_gh_Some)
  have sm: "gsame s s1" by (rule iflags_same [OF 1])
  have "og g s1 s'"
  proof (cases fails)
    case True
    with k show ?thesis using same_og [OF fail_try_same] same_good [OF sm g] by simp
  next
    case False
    with k obtain s2 where 2: "gfs2_stats_inc GFS2_LKS_QCOUNT g s1 = Some s2"
      "upd_gl g (enqueued h) s2 = Some s'" by (auto simp: enqueue_holder_def bind_eq_Some_conv)
    have sm2: "gsame s1 s2" by (rule stats_inc_same [OF 2(1)])
    obtain y2 x2 where f2: "gs_holders s2 h = Some y2" "gh_gl y2 = Some g" "any_ok y2" "gs_glocks s2 g = Some x2"
      "\<not> gl_dead x2" "h \<notin> set (gl_holders x2)"
      using same_fits [OF sm2 same_fits [OF sm f]] by (auto simp: fits_def)
    have "og g s2 s'"
      by (rule enqueue_og [OF same_good [OF sm2 same_good [OF sm g]] f2(4-6) _ _ _ 2(2)])
        (simp_all add: f2 holder_def)
    then show ?thesis using same_og [OF sm2 same_good [OF sm g]] og_trans by blast
  qed
  then show ?thesis using same_og [OF sm g] og_trans by blast
qed

text \<open>A reply that recovery has held back is released.\<close>

definition thawed :: "gfs2_glock \<Rightarrow> gfs2_glock" where
  "thawed x = x\<lparr>gl_flags := set_bit GLF_REPLY_PENDING (unset_bit GLF_FROZEN (gl_flags x))\<rparr>"

lemma thawed_lock_ok: "lock_ok s x \<Longrightarrow> gl_test GLF_FROZEN x \<Longrightarrow> lock_ok s (thawed x)"
  by (auto simp: lock_ok_def thawed_def gl_test_def bit_set_bit_iff bit_unset_bit_iff)

lemma thaw_flags_og:
  assumes g: "good g s" and x: "gs_glocks s g = Some x" "gl_test GLF_FROZEN x"
    and c: "gl_clear GLF_FROZEN g s = Some s1" and st: "gl_set GLF_REPLY_PENDING g s1 = Some s2"
  shows "og g s s2"
proof -
  have u: "upd_gl g thawed s = Some s2"
    using c st x by (auto simp: gl_clear_def gl_set_def upd_gl_eq_Some_iff thawed_def)
  have "lock_ok s (thawed x)" using g x thawed_lock_ok by (auto simp: good_def)
  then show ?thesis using flags_og [OF g x(1) u] by (simp add: thawed_def)
qed

lemma thaw_noexp_og:
  assumes "good g s" and "thaw_noexp g fl s = Some s'"
  shows "og g s s'"
proof -
  obtain x where x: "gs_glocks s g = Some x" using assms(1) by (auto simp: good_def)
  show ?thesis
  proof (cases "has_flag fl LM_FLAG_NOEXP \<and> gl_test GLF_FROZEN x")
    case True
    with assms(2) x obtain s1 s2 s3 where 1: "gl_clear GLF_FROZEN g s = Some s1"
      "gl_set GLF_REPLY_PENDING g s1 = Some s2" "gl_ref_add 1 g s2 = Some s3"
      "us_us_gfs2_glock_queue_work g 0 s3 = Some s'"
      by (auto simp: thaw_noexp_def bind_eq_Some_conv)
    have a: "og g s s2" using thaw_flags_og [OF assms(1) x _ 1(1,2)] True by blast
    have b: "gsame s2 s'" using gl_ref_add_same [OF 1(3)] queue_work_same [OF 1(4)] by (rule gsame_trans)
    show ?thesis using a same_og [OF b og_good [OF a]] og_trans by blast
  next
    case False
    with assms x have "s' = s" by (auto simp: thaw_noexp_def)
    then show ?thesis using assms(1) by (simp add: og_def)
  qed
qed

section \<open>Dequeueing\<close>

lemma dequeued_og:
  assumes g: "good g s" and h: "gh_gl (holder s h) = Some g" and d: "dequeue_holder h g s = Some s'"
  shows "og g s s'"
proof -
  obtain x y where x: "gs_glocks s g = Some x" and y: "gs_holders s h = Some y"
    and s': "s' = s\<lparr>gs_glocks := (gs_glocks s)(g \<mapsto> x\<lparr>gl_holders := remove1 h (gl_holders x)\<rparr>),
       gs_holders := (gs_holders s)(h \<mapsto> y\<lparr>gh_iflags := unset_bit HIF_HOLDER (gh_iflags y)\<rparr>)\<rparr>"
    using d by (auto simp: dequeue_holder_def bind_eq_Some_conv upd_gl_eq_Some_iff upd_gh_eq_Some_iff)
  have loc: "loc g s" and l: "lock_ok s x" using g x by (auto simp: good_def)
  have held: "held s' k \<longleftrightarrow> k \<noteq> h \<and> held s k" for k by (auto simp: held_def s' y)
  have off: "off g s s'" using h y by (auto simp: off_def s' gh_fix_def held [unfolded s'])
  define x' where "x' = x\<lparr>gl_holders := remove1 h (gl_holders x)\<rparr>"
  have x': "gs_glocks s' g = Some x'" by (simp add: s' x'_def)
  have f: "gl_holders x' = filter (\<lambda>k. k \<noteq> h) (gl_holders x)"
    using locD(3) [OF loc x]
    by (simp add: x'_def distinct_remove1_removeAll removeAll_filter_not_eq eq_commute [of _ h])
  have "queue_ok s g (gl_holders x')"
    unfolding f by (rule queue_filter) (use locD(1) [OF loc x] in \<open>simp add: glock_ok_def\<close>)
  then have "glock_ok s g x'" using locD(1) [OF loc x] f by (auto simp: glock_ok_def x'_def)
  moreover have "glock_ok s' g x' = glock_ok s g x'"
    by (rule glock_ok_cong [OF off]) (simp_all add: held f)
  ultimately have "loc g s'"
    using x' locD(2) [OF loc x] by (auto simp: loc_def held f off_fix(2) [OF off])
  moreover have "lock_ok s' x'" using l f by (auto simp: lock_ok_def held x'_def gl_test_def)
  ultimately show ?thesis using off x' by (auto simp: og_def good_def)
qed

lemma holder_gl_same: "gsame s s' \<Longrightarrow> gh_gl (holder s' h) = gh_gl (holder s h)"
  by (rule off_fix(2) [OF same_off])

lemma dq_schedule_same:
  assumes "dq_schedule g s = Some s'"
  shows "gsame s s'"
proof -
  obtain x s1 where 1: "(if \<not> gl_test GLF_LFLUSH x \<and> demote_ok x s then gfs2_glock_add_to_lru g s else Some s) = Some s1"
    and 2: "s' = s1 \<or> (\<exists>t d. gl_ref_add 1 g s1 = Some t \<and> us_us_gfs2_glock_queue_work g d t = Some s')"
  proof (cases "gs_glocks s g")
    case None
    with assms show ?thesis by (simp add: dq_schedule_def)
  next
    case (Some x)
    with assms obtain s1 where 1: "(if \<not> gl_test GLF_LFLUSH x \<and> demote_ok x s then gfs2_glock_add_to_lru g s else Some s) = Some s1"
      and 2: "(if \<not> needs_demote x \<and> gl_holders x = [] then Some s1
     else do {
       s \<leftarrow> gl_ref_add 1 g s1;
       let delay = (if gl_test GLF_PENDING_DEMOTE x \<and> \<not> gl_test GLF_DEMOTE x \<and>
            gl_ln_type x = LM_TYPE_INODE then word_of_int (gl_hold_time x) else 0);
       us_us_gfs2_glock_queue_work g (ucast (delay :: u32)) s
     }) = Some s'"
      unfolding dq_schedule_def bind_eq_Some_conv by auto
    have "s' = s1 \<or> (\<exists>t d. gl_ref_add 1 g s1 = Some t \<and> us_us_gfs2_glock_queue_work g d t = Some s')"
      using 2 unfolding Let_def by (auto simp: bind_eq_Some_conv split: if_split_asm)
    with 1 that show ?thesis by blast
  qed
  have "gsame s s1" using 1 by (auto split: if_splits dest: add_to_lru_same)
  moreover have "gsame s1 s'" using 2 by (auto dest!: gl_ref_add_same queue_work_same intro: gsame_trans)
  ultimately show ?thesis by (rule gsame_trans)
qed

lemma dq_og:
  assumes env: "gfs2_env_ok env" and g: "good g s" and h: "gh_gl (holder s h) = Some g"
    and d: "us_us_gfs2_glock_dq env h s = Some s'"
  shows "og g s s'"
proof -
  obtain y where y: "gs_holders s h = Some y" using d by (auto simp: us_us_gfs2_glock_dq_def bind_eq_Some_conv)
  have yg: "gh_gl y = Some g" using h y by (simp add: holder_def)
  obtain s1 s2 where
    1: "(if has_flag (gh_flags y) GL_NOCACHE then handle_callback env g LM_ST_UNLOCKED 0 False s else Some s) = Some s1"
    and 2: "dequeue_holder h g s1 = Some s2" and 3: "dq_schedule g s2 = Some s'"
    using d y yg unfolding us_us_gfs2_glock_dq_def by (auto simp: bind_eq_Some_conv)
  have sm2: "gsame s2 s'" by (rule dq_schedule_same [OF 3])
  have sm1: "gsame s s1" using 1 by (auto split: if_splits dest: handle_callback_same [OF env])
  have "og g s1 s2"
    by (rule dequeued_og [OF same_good [OF sm1 g] _ 2]) (simp add: holder_gl_same [OF sm1] h)
  then show ?thesis using same_og [OF sm1 g] same_og [OF sm2] og_good og_trans by blast
qed

lemma dq_resume_og:
  assumes env: "gfs2_env_ok env" and g: "good g s" and h: "gh_gl (holder s h) = Some g"
    and d: "gfs2_glock_dq_resume env h s = Some s'"
  shows "og g s s'"
  using d dq_og [OF env g h] unfolding gfs2_glock_dq_resume_def
  by (auto simp: bind_eq_Some_conv split: if_splits)

lemma glock_dq_og:
  assumes env: "gfs2_env_ok env" and g: "good g s" and h: "gh_gl (holder s h) = Some g"
    and d: "gfs2_glock_dq env h s = Some (b, s')"
  shows "og g s s'"
proof -
  obtain y x where y: "gs_holders s h = Some y" "gh_gl y = Some g" and x: "gs_glocks s g = Some x"
    using d h by (auto simp: gfs2_glock_dq_def bind_eq_Some_conv holder_def)
  have cancel: "og g s s'" if c: "gdlm_cancel env g s = Some s1" "s' = s1 \<or> gfs2_glock_dq_resume env h s1 = Some s'" for s1
  proof -
    have sm: "gsame s s1" by (rule gdlm_cancel_same [OF c(1)])
    have "og g s1 s'"
      using c(2) dq_resume_og [OF env same_good [OF sm g]] h same_good [OF sm g]
      by (auto simp: holder_gl_same [OF sm] og_def)
    then show ?thesis using same_og [OF sm g] og_trans by blast
  qed
  show ?thesis
    using d y x dq_og [OF env g h] cancel g unfolding gfs2_glock_dq_def
    by (auto simp: bind_eq_Some_conv og_def split: if_splits)
qed

section \<open>Waiting\<close>

lemma ready_og:
  assumes env: "gfs2_env_ok env" and g: "good g s" and h: "gh_gl (holder s h) = Some g"
    and r: "gfs2_glock_holder_ready env h s = Some (e, s')"
  shows "og g s s'"
proof -
  obtain y where y: "gs_holders s h = Some y" using r by (auto simp: gfs2_glock_holder_ready_def bind_eq_Some_conv)
  have inst: "og g s s'" if i: "gfs2_instantiate env h s = Some (err, s1)"
    "upd_gh h (\<lambda>y. y\<lparr>gh_error := err\<rparr>) s1 = Some s2" "s' = s2 \<or> (\<exists>b. gfs2_glock_dq env h s2 = Some (b, s'))" for err s1 s2
  proof -
    have sm: "gsame s s2"
      using instantiate_same [OF i(1)] upd_gh_same [OF i(2)] by (auto simp: gh_core_def gh_test_def intro: gsame_trans)
    have "og g s2 s'"
      using i(3) glock_dq_og [OF env same_good [OF sm g]] h same_good [OF sm g]
      by (auto simp: holder_gl_same [OF sm] og_def)
    then show ?thesis using same_og [OF sm g] og_trans by blast
  qed
  show ?thesis
    using r y inst g unfolding gfs2_glock_holder_ready_def
    by (auto simp: bind_eq_Some_conv og_def simp del: upd_gh_Some split: if_splits)
qed

lemma wait_og:
  assumes env: "gfs2_env_ok env" and g: "good g s" and h: "gh_gl (holder s h) = Some g"
    and r: "gfs2_glock_wait env h t s = Some (e, s')"
  shows "og g s s'"
proof -
  obtain s1 where 1: "gfs2_glock_update_hold_time env g t s = Some s1" "gfs2_glock_holder_ready env h s1 = Some (e, s')"
    using r h by (auto simp: gfs2_glock_wait_def bind_eq_Some_conv holder_def)
  have sm: "gsame s s1" by (rule hold_time_same [OF 1(1)])
  show ?thesis
    using ready_og [OF env same_good [OF sm g] _ 1(2)] h same_og [OF sm g] og_trans holder_gl_same [OF sm, of h]
    by metis
qed

end
