(* ===== verification/Gfs2_Life.thy ===== *)
theory Gfs2_Life
  imports Gfs2_Steps
begin

text \<open>
  Enqueueing as a whole, the replies and callbacks of the lock manager, the work of a glock,
  releasing, creating and disposing of glocks keep the invariant.
\<close>

section \<open>Enqueueing\<close>

lemma fits_gl: "fits s h g \<Longrightarrow> gh_gl (holder s h) = Some g"
  by (auto simp: fits_def holder_def)

lemma og_gl: "og g s s' \<Longrightarrow> gh_gl (holder s' h) = gh_gl (holder s h)"
  unfolding og_def using off_fix(2) by blast

lemma nq_og:
  assumes env: "gfs2_env_ok env" and g: "good g s" and f: "fits s h g"
    and n: "gfs2_glock_nq env h s = Some (e, s')"
  shows "og g s s'"
proof -
  obtain y x where yx: "gs_holders s h = Some y" "gh_gl y = Some g" "gs_glocks s g = Some x"
    using f by (auto simp: fits_def)
  show ?thesis
  proof (cases "glock_blocked_by_withdraw env x s \<and> \<not> has_flag (gh_flags y) LM_FLAG_NOEXP")
    case True
    with n yx g show ?thesis by (auto simp: gfs2_glock_nq_def og_def)
  next
    case False
    with n yx obtain s1 s2 s3 s4 s5 where
      1: "(if gl_test GLF_LRU x then gfs2_glock_remove_from_lru g s else Some s) = Some s1"
      and 2: "upd_gh h (\<lambda>y. y\<lparr>gh_error := 0\<rparr>) s1 = Some s2"
      and 3: "add_to_queue h s2 = Some s3" and 4: "thaw_noexp g (gh_flags y) s3 = Some s4"
      and 5: "run_queue env g True s4 = Some s5"
      and 6: "(if has_flag (gh_flags y) GL_ASYNC then Some (Some 0, s5)
       else do {
         y \<leftarrow> gs_holders s5 h;
         if gh_test HIF_WAIT y then Some (None, s5)
         else do {
           (error, s) \<leftarrow> gfs2_glock_wait env h (g_jiffies env (gs_tick s5)) s5;
           Some (Some error, s)
         }
       }) = Some (e, s')"
      unfolding gfs2_glock_nq_def by (auto simp: bind_eq_Some_conv simp del: upd_gh_Some)
    have sm: "gsame s s2"
      using 1 upd_gh_same [OF 2] by (auto simp: gh_core_def gh_test_def split: if_splits
          dest: remove_from_lru_same intro: gsame_trans)
    have o3: "og g s s3"
      using add_to_queue_og [OF same_good [OF sm g] same_fits [OF sm f] 3] same_og [OF sm g] og_trans by blast
    have o4: "og g s s4" using thaw_noexp_og [OF og_good [OF o3] 4] o3 og_trans by blast
    have o5: "og g s s5" using run_queue_og [OF env og_good [OF o4] 5] o4 og_trans by blast
    have h5: "gh_gl (holder s5 h) = Some g" using og_gl [OF o5] fits_gl [OF f] by simp
    have "og g s5 s'"
      using 6 wait_og [OF env og_good [OF o5] h5] og_good [OF o5]
      by (auto simp: bind_eq_Some_conv og_def split: if_splits)
    with o5 show ?thesis by (rule og_trans)
  qed
qed

section \<open>Replies and callbacks\<close>

text \<open>The glock waits for a reply of the lock manager.\<close>

definition awaited :: "gfs2_glock \<Rightarrow> bool" where
  "awaited x \<longleftrightarrow> gl_test GLF_LOCK x \<and> \<not> gl_test GLF_REPLY_PENDING x \<and> \<not> gl_test GLF_FROZEN x"

definition replied :: "nat \<Rightarrow> gfs2_glock \<Rightarrow> gfs2_glock" where
  "replied n x = x\<lparr>gl_flags := set_bit n (gl_flags x)\<rparr>"

lemma replied_lock_ok:
  "lock_ok s x \<Longrightarrow> awaited x \<Longrightarrow> n = GLF_REPLY_PENDING \<or> n = GLF_FROZEN \<Longrightarrow> lock_ok s (replied n x)"
  by (auto simp: lock_ok_def awaited_def replied_def)

lemma set_reply_og:
  assumes g: "good g s" and x: "gs_glocks s g = Some x" "awaited x"
    and n: "n = GLF_REPLY_PENDING \<or> n = GLF_FROZEN" and u: "gl_set n g s = Some s'"
  shows "og g s s'"
proof -
  have "lock_ok s (replied n x)" using g x n by (auto simp: good_def intro: replied_lock_ok)
  then show ?thesis
    using flags_og [OF g x(1) u [unfolded gl_set_def]] by (simp add: replied_def)
qed

lemma same_awaited:
  assumes "gsame s s'" and "gs_glocks s g = Some x" and "awaited x"
  shows "\<exists>x'. gs_glocks s' g = Some x' \<and> awaited x'"
  using sameD [OF assms(1,2)] assms(3) by (auto simp: gl_core_def awaited_def)

lemma complete_og:
  assumes g: "good g s" and x: "gs_glocks s g = Some x" "awaited x"
    and c: "gfs2_glock_complete g ret s = Some s'"
  shows "og g s s'"
proof -
  obtain s1 freeze where 1: "upd_gl g (\<lambda>x. x\<lparr>gl_reply := ucast ret\<rparr>) s = Some s1"
    and k: "(if freeze then gl_set GLF_FROZEN g s1
     else do {
       s \<leftarrow> gl_ref_add 1 g s1;
       s \<leftarrow> gl_set GLF_REPLY_PENDING g s;
       us_us_gfs2_glock_queue_work g 0 s
     }) = Some s'"
    using c unfolding gfs2_glock_complete_def bind_eq_Some_conv by blast
  have sm: "gsame s s1" by (rule upd_gl_same [OF 1]) (simp add: gl_core_def gl_test_def)
  note g1 = same_good [OF sm g]
  obtain x1 where x1: "gs_glocks s1 g = Some x1" "awaited x1" using same_awaited [OF sm x] by blast
  have "og g s1 s'"
  proof (cases freeze)
    case True
    with k have "gl_set GLF_FROZEN g s1 = Some s'" by simp
    then show ?thesis by (rule set_reply_og [OF g1 x1, rotated]) simp
  next
    case False
    with k obtain s2 s3 where 2: "gl_ref_add 1 g s1 = Some s2" "gl_set GLF_REPLY_PENDING g s2 = Some s3"
      "us_us_gfs2_glock_queue_work g 0 s3 = Some s'" by (auto simp: bind_eq_Some_conv)
    have sm2: "gsame s1 s2" by (rule gl_ref_add_same [OF 2(1)])
    obtain x2 where x2: "gs_glocks s2 g = Some x2" "awaited x2" using same_awaited [OF sm2 x1] by blast
    have o: "og g s2 s3" by (rule set_reply_og [OF same_good [OF sm2 g1] x2 _ 2(2)]) simp
    show ?thesis
      using same_og [OF sm2 g1] o same_og [OF queue_work_same [OF 2(3)] og_good [OF o]] og_trans by blast
  qed
  then show ?thesis using same_og [OF sm g] og_trans by blast
qed

lemma dlm_same: "gsame (s\<lparr>gs_dlm := d\<rparr>) s' = gsame s s'" "gsame s (s'\<lparr>gs_dlm := d\<rparr>) = gsame s s'"
  by (simp_all add: gsame_def)

lemma ast_out_og:
  assumes g: "good g s" and x: "gs_glocks s g = Some x" "awaited x"
    and a: "gdlm_ast_out g ret s = Some s'"
  shows "og g s s'"
proof -
  obtain s1 where sm: "gsame s s1" and c: "gfs2_glock_complete g ret s1 = Some s'"
  proof -
    define d where "d = gs_dlm s"
    define s1 where "s1 = (if gl_test GLF_INITIAL x then s
        else s\<lparr>gs_dlm := d\<lparr>ls_lksbs := (ls_lksbs d)(gl_lksb x := (glock_lksb x s)\<lparr>sb_lkid := 0\<rparr>)\<rparr>\<rparr>)"
    have "gfs2_glock_complete g ret s1 = Some s'"
      using a x(1) unfolding gdlm_ast_out_def s1_def d_def Let_def by (simp only: bind.bind_lunit)
    moreover have "gsame s s1" by (simp add: s1_def dlm_same)
    ultimately show ?thesis by (rule that [rotated])
  qed
  obtain x1 where "gs_glocks s1 g = Some x1" "awaited x1" using same_awaited [OF sm x] by blast
  then show ?thesis using complete_og [OF same_good [OF sm g] _ _ c] same_og [OF sm g] og_trans by blast
qed

text \<open>Letting a glock go: it is freed, or stays until the lock manager has unlocked it.\<close>

definition let_go :: "glp \<Rightarrow> gfs2 \<Rightarrow> gfs2 \<Rightarrow> bool" where
  "let_go g s s' \<longleftrightarrow> gsame s s' \<or> gsame (gfs2_glock_dealloc g s) s'"

lemma dealloc_same: "gsame s t \<Longrightarrow> gsame (gfs2_glock_dealloc g s) (gfs2_glock_dealloc g t)"
  by (simp add: gsame_def gfs2_glock_dealloc_def)

lemma same_let_go: "gsame s t \<Longrightarrow> let_go g t u \<Longrightarrow> let_go g s u"
  unfolding let_go_def using gsame_trans dealloc_same by blast

lemma free_let_go: "gfs2_glock_free g s = Some s' \<Longrightarrow> let_go g s s'"
  by (auto simp: gfs2_glock_free_def let_go_def gfs2_glock_dealloc_def gsame_def bind_eq_Some_conv)

lemma put_lock_let_go:
  assumes "gdlm_put_lock env g s = Some s'"
  shows "let_go g s s'"
proof -
  obtain x where x: "gs_glocks s g = Some x" using assms by (auto simp: gdlm_put_lock_def bind_eq_Some_conv)
  show ?thesis
  proof (cases "sb_lkid (glock_lksb x s) = 0")
    case True
    with assms x show ?thesis by (auto simp: gdlm_put_lock_def free_let_go)
  next
    case False
    with assms x obtain s1 s2 s3 where 1: "gl_clear GLF_BLOCKING g s = Some s1"
      "gfs2_stats_inc GFS2_LKS_DCOUNT g s1 = Some s2" "gfs2_update_request_times env g s2 = Some s3"
      and k: "gfs2_glock_free g s3 = Some s' \<or> (\<exists>e. retry (gdlm_unlock_pass env x g) s3 = Some (e, s'))"
      unfolding gdlm_put_lock_def by (auto simp: bind_eq_Some_conv split: if_splits)
    have sm: "gsame s s3"
      using gl_clear_same [OF 1(1)] stats_inc_same [OF 1(2)] request_times_same [OF 1(3)]
      by (auto simp: plain_flag_def intro: gsame_trans)
    have "let_go g s3 s'" using k free_let_go gdlm_unlock_same by (auto simp: let_go_def)
    with sm show ?thesis by (rule same_let_go)
  qed
qed

text \<open>The queue of the glock is empty, and it may be gone.\<close>

definition emptied :: "glp \<Rightarrow> gfs2 \<Rightarrow> gfs2 \<Rightarrow> bool" where
  "emptied g s s' \<longleftrightarrow> off g s s' \<and> (\<forall>h. held s' h = held s h) \<and>
     (\<exists>x. gs_glocks s g = Some x \<and> gl_holders x = []) \<and>
     (\<forall>x'. gs_glocks s' g = Some x' \<longrightarrow> gl_holders x' = [] \<and> lock_ok s' x')"

lemma emptied_inv:
  assumes inv: "gfs2_inv s" and e: "emptied g s s'"
  shows "gfs2_inv s'"
proof -
  have off: "off g s s'" using e by (simp add: emptied_def)
  obtain x where x: "gs_glocks s g = Some x" "gl_holders x = []" using e by (auto simp: emptied_def)
  have none: "gh_gl (holder s' h) \<noteq> Some g" if "held s' h" for h
    using inv_held [OF inv, of h] that e x off_fix(2) [OF off, of h] by (auto simp: emptied_def)
  show ?thesis
  proof (cases "gs_glocks s' g")
    case None
    then show ?thesis using freed_inv [OF inv off] none by blast
  next
    case (Some x')
    then have "gl_holders x' = []" "lock_ok s' x'" using e by (auto simp: emptied_def)
    then show ?thesis
      using Some none by (intro loc_inv [OF inv off]) (auto simp: loc_def glock_ok_def queue_ok_def)
  qed
qed

lemma let_go_emptied:
  assumes x: "gs_glocks s g = Some x" "gl_holders x = []" "lock_ok s x" and l: "let_go g s s'"
  shows "emptied g s s'"
proof -
  have "emptied g s s'" if sm: "gsame s s'"
  proof -
    obtain x' where x': "gs_glocks s' g = Some x'" "gl_core x' = gl_core x" using sameD [OF sm x(1)] by blast
    have "lock_ok s' x' = lock_ok s x" by (rule lock_ok_cong [OF x'(2) same_held [OF sm]])
    with x x' show ?thesis
      by (simp add: emptied_def same_off [OF sm] same_held [OF sm]) (simp add: gl_core_def)
  qed
  moreover have "emptied g s s'" if sm: "gsame (gfs2_glock_dealloc g s) s'"
  proof -
    have o: "off g s (gfs2_glock_dealloc g s)" "held (gfs2_glock_dealloc g s) h = held s h" for h
      by (simp_all add: off_def held_def gfs2_glock_dealloc_def)
    have "map_option gl_core (gs_glocks s' g) = None"
      using sm by (simp add: gsame_def gfs2_glock_dealloc_def)
    then show ?thesis
      using x off_trans [OF o(1) same_off [OF sm]] by (simp add: emptied_def same_held [OF sm] o(2))
  qed
  ultimately show ?thesis using l unfolding let_go_def by blast
qed

lemma put_emptied:
  assumes env: "gfs2_env_ok env" and g: "good g s" and p: "us_us_gfs2_glock_put env g s = Some s'"
  shows "emptied g s s'"
proof -
  obtain s1 s2 x2 where 1: "upd_gl g (\<lambda>x. x\<lparr>gl_dead := True\<rparr>) s = Some s1"
    and 2: "gfs2_glock_remove_from_lru g s1 = Some s2" and x2: "gs_glocks s2 g = Some x2" "gl_holders x2 = []"
    and k: "gdlm_put_lock env g s2 = Some s' \<or> nolock_put_lock env g s2 = Some s'"
    using p by (auto simp: us_us_gfs2_glock_put_def bind_eq_Some_conv split: if_splits)
  have sm: "gsame s1 s2" by (rule remove_from_lru_same [OF 2])
  obtain x where x: "gs_glocks s g = Some x" "lock_ok s x" using g by (auto simp: good_def)
  have s1: "s1 = s\<lparr>gs_glocks := (gs_glocks s)(g \<mapsto> x\<lparr>gl_dead := True\<rparr>)\<rparr>"
    using 1 x(1) by (simp add: upd_gl_eq_Some_iff)
  have e: "held s1 h = held s h" for h by (simp add: held_def s1)
  obtain x1 where "gs_glocks s1 g = Some x1" "gl_core x1 = gl_core x2"
    using sameD [OF gsame_sym [OF sm] x2(1)] by blast
  then have x1: "gs_glocks s1 g = Some (x\<lparr>gl_dead := True\<rparr>)" "gl_holders x = []"
    using x2(2) by (auto simp: s1 gl_core_def)
  have l1: "lock_ok s1 (x\<lparr>gl_dead := True\<rparr>)" using x(2) x1(2) by (simp add: lock_ok_def gl_test_def)
  have "let_go g s2 s'" using k put_lock_let_go env by (auto simp: let_go_def gfs2_env_ok_def)
  then have e1: "emptied g s1 s'"
    by (intro let_go_emptied [OF x1(1) _ l1]) (use x1(2) same_let_go [OF sm] in simp_all)
  moreover have "off g s s1" by (simp add: off_def s1 held_def)
  ultimately show ?thesis
    using x x1(2) off_trans by (auto simp: emptied_def e)
qed

text \<open>Dropping a reference.\<close>

definition dropped :: "glp \<Rightarrow> gfs2 \<Rightarrow> gfs2 \<Rightarrow> bool" where
  "dropped g s s' \<longleftrightarrow> gsame s s' \<or> emptied g s s'"

lemma dropped_inv: "gfs2_inv s \<Longrightarrow> dropped g s s' \<Longrightarrow> gfs2_inv s'"
  unfolding dropped_def using same_inv emptied_inv by blast

lemma glock_put_dropped:
  assumes "gfs2_env_ok env" and "good g s" and "gfs2_glock_put env g s = Some s'"
  shows "dropped g s s'"
  using assms put_emptied gl_ref_add_same
  by (auto simp: gfs2_glock_put_def bind_eq_Some_conv dropped_def split: if_splits)


section \<open>The lock manager's callbacks\<close>

lemma clear_lvb_same: "gsame s (clear_lvb p s)"
  by (simp add: clear_lvb_def Let_def dlm_same)

lemma reply_times_dlm: "gfs2_update_reply_times env g s = Some s' \<Longrightarrow> gs_dlm s' = gs_dlm s"
  unfolding gfs2_update_reply_times_def update_both_def bind_eq_Some_conv Let_def
  by (auto simp: upd_gl_eq_Some_iff)

lemma assert_bindD: "(dlm_assert c \<bind> (\<lambda>_. m)) = Some y \<Longrightarrow> m = Some y"
  by (auto simp: bind_eq_Some_conv)

text \<open>What \<open>gdlm_ast\<close> does once it has looked at the value block.\<close>

definition unlocked_sb :: "gfs2_glock \<Rightarrow> gfs2 \<Rightarrow> bool" where
  "unlocked_sb x s \<longleftrightarrow> sb_status (glock_lksb x s) = -DLM_EUNLOCK"

lemma gdlm_ast_cases:
  assumes x: "gs_glocks s g = Some x" and a: "gdlm_ast env g s = Some s'"
  obtains (unlock) s1 s2 where "unlocked_sb x s" "gsame s s1" "go_free env g s1 = Some s2" "gfs2_glock_free g s2 = Some s'"
  | (out) s1 ret where "\<not> unlocked_sb x s" "gsame s s1" "gdlm_ast_out g ret s1 = Some s'"
  | (granted) s1 s2 ret where "\<not> unlocked_sb x s" "gsame s s1" "gl_set GLF_INITIAL g s1 = Some s2"
      "gfs2_glock_complete g ret s2 = Some s'"
proof -
  obtain s0 where 0: "gfs2_update_reply_times env g s = Some s0" using a unfolding gdlm_ast_def bind_eq_Some_conv Let_def by blast
  define lksb where "lksb = glock_lksb x s0"
  define s1 where "s1 = (case sb_lvbptr lksb of
         Some p \<Rightarrow> if has_flag (sb_flags lksb) DLM_SBF_VALNOTVALID then clear_lvb p s0 else s0
       | None \<Rightarrow> s0)"
  have sm: "gsame s s1"
    using reply_times_same [OF 0] clear_lvb_same gsame_trans by (auto simp: s1_def split: option.splits)
  have u: "unlocked_sb x s \<longleftrightarrow> sb_status lksb = -DLM_EUNLOCK"
    by (simp add: unlocked_sb_def lksb_def glock_lksb_def reply_times_dlm [OF 0])
  have k: "(if sb_status lksb = -DLM_EUNLOCK then do {
       s \<leftarrow> go_free env g s1;
       gfs2_glock_free g s
     }
     else if sb_status lksb = -DLM_ECANCEL then gdlm_ast_out g (lm_code (gl_state x) OR LM_OUT_CANCELED) s1
     else if sb_status lksb = -EAGAIN \<or> sb_status lksb = -EDEADLK then gdlm_ast_out g (lm_code (gl_state x)) s1
     else if sb_status lksb = -ETIMEDOUT then gdlm_ast_out g (lm_code (gl_state x) OR LM_OUT_ERROR) s1
     else do {
       _ \<leftarrow> dlm_assert (sb_status lksb = 0);
       ret \<leftarrow> (if has_flag (sb_flags lksb) DLM_SBF_ALTMODE then
              (case gl_req x of
                 LM_ST_SHARED \<Rightarrow> Some (lm_code LM_ST_DEFERRED)
               | LM_ST_DEFERRED \<Rightarrow> Some (lm_code LM_ST_SHARED)
               | _ \<Rightarrow> None)
            else Some (lm_code (gl_req x)));
       s \<leftarrow> gl_set GLF_INITIAL g s1;
       gfs2_glock_complete g ret s
     }) = Some s'"
    using a unfolding gdlm_ast_def Let_def s1_def lksb_def
    by (simp only: x 0 bind.bind_lunit) (erule assert_bindD)
  show ?thesis
  proof (cases "unlocked_sb x s")
    case True
    with k u sm show ?thesis by (auto simp: bind_eq_Some_conv intro: unlock)
  next
    case False
    with k u have "(\<exists>ret. gdlm_ast_out g ret s1 = Some s') \<or>
        (\<exists>s2 ret. gl_set GLF_INITIAL g s1 = Some s2 \<and> gfs2_glock_complete g ret s2 = Some s')"
      by (auto simp: bind_eq_Some_conv split: if_split_asm)
    with False sm show ?thesis by (auto intro: out granted)
  qed
qed

lemma ast_out_case:
  assumes g: "good g s" and x: "gs_glocks s g = Some x" "awaited x" and sm: "gsame s s1"
    and k: "gdlm_ast_out g ret s1 = Some s' \<or> gfs2_glock_complete g ret s1 = Some s'"
  shows "og g s s'"
proof -
  obtain x1 where "gs_glocks s1 g = Some x1" "awaited x1" using same_awaited [OF sm x] by blast
  then have "og g s1 s'" using k ast_out_og complete_og same_good [OF sm g] by blast
  then show ?thesis using same_og [OF sm g] og_trans by blast
qed

text \<open>A callback: the lock has been unlocked, or the request of a glock that waits for it is done.\<close>

definition answers :: "glp \<Rightarrow> gfs2 \<Rightarrow> bool" where
  "answers g s \<longleftrightarrow> (\<exists>x. gs_glocks s g = Some x \<and> (if unlocked_sb x s then gl_dead x else awaited x))"

lemma ast_inv:
  assumes env: "gfs2_env_ok env" and inv: "gfs2_inv s" and w: "answers g s" and a: "gdlm_ast env g s = Some s'"
  shows "gfs2_inv s'"
proof -
  obtain x where x: "gs_glocks s g = Some x" and w: "if unlocked_sb x s then gl_dead x else awaited x"
    using w by (auto simp: answers_def)
  note g = good_inv [OF inv x] and ok = inv_glock [OF inv x]
  show ?thesis
    using x a
  proof (cases rule: gdlm_ast_cases)
    case (unlock s1 s2)
    have "gsame s s2" using unlock(2,3) env gsame_trans unfolding gfs2_env_ok_def by blast
    then have "let_go g s s'" using free_let_go [OF unlock(4)] by (rule same_let_go)
    moreover have "gl_holders x = []" using ok unlock(1) w by (simp add: glock_ok_def)
    ultimately show ?thesis using emptied_inv [OF inv let_go_emptied [OF x]] ok by blast
  next
    case (out s1 ret)
    then show ?thesis using og_inv [OF inv ast_out_case [OF g x]] w by auto
  next
    case (granted s1 s2 ret)
    have "gsame s s2" using granted(2) gl_set_same [OF granted(3)] by (auto simp: plain_flag_def intro: gsame_trans)
    then show ?thesis using og_inv [OF inv ast_out_case [OF g x]] w granted(1,4) by auto
  qed
qed

lemma bast_same:
  assumes env: "gfs2_env_ok env" and b: "gdlm_bast env g m s = Some s'"
  shows "gsame s s'"
proof -
  have cb: "gsame s s'" if c: "gfs2_glock_cb env g st s = Some s'" for st
  proof -
    obtain s1 s2 d where 1: "gfs2_glock_hold g s = Some s1" "handle_callback env g st d True s1 = Some s2"
      "us_us_gfs2_glock_queue_work g d s2 = Some s'"
      using c unfolding gfs2_glock_cb_def Let_def bind_eq_Some_conv by blast
    show ?thesis
      using gfs2_glock_hold_same [OF 1(1)] handle_callback_same [OF env 1(2)] queue_work_same [OF 1(3)]
      by (blast intro: gsame_trans)
  qed
  show ?thesis using b cb by (auto simp: gdlm_bast_def split: if_splits)
qed

text \<open>The replies that recovery has held back.\<close>

lemma thaw_glock_og:
  assumes g: "good g s" and t: "thaw_glock g s = Some s'"
  shows "og g s s'"
proof -
  obtain x where x: "gs_glocks s g = Some x" using g by (auto simp: good_def)
  show ?thesis
  proof (cases "gl_test GLF_FROZEN x")
    case False
    with t x g show ?thesis by (auto simp: thaw_glock_def og_def)
  next
    case True
    with t x obtain s1 got s2 where 1: "gl_clear GLF_FROZEN g s = Some s1" "lockref_get_not_dead g s1 = Some (got, s2)"
      and k: "(if \<not> got then Some s2 else do { s \<leftarrow> gl_set GLF_REPLY_PENDING g s2; gfs2_glock_queue_work g 0 s }) = Some s'"
      by (auto simp: thaw_glock_def bind_eq_Some_conv)
    have l: "lock_ok s x" using g x by (auto simp: good_def)
    define x1 where "x1 = x\<lparr>gl_flags := unset_bit GLF_FROZEN (gl_flags x)\<rparr>"
    have o1: "og g s s1" and x1: "gs_glocks s1 g = Some x1"
      using flags_og [OF g x 1(1) [unfolded gl_clear_def]] l by (auto simp: x1_def lock_ok_def)
    have "awaited x1" using l True by (auto simp: awaited_def lock_ok_def x1_def)
    note g1 = og_good [OF o1] and sm = lockref_get_not_dead_same [OF 1(2)]
    obtain x2 where x2: "gs_glocks s2 g = Some x2" "awaited x2" using same_awaited [OF sm x1 \<open>awaited x1\<close>] by blast
    have g2: "good g s2" by (rule same_good [OF sm g1])
    have "og g s2 s'"
    proof (cases got)
      case False
      with k g2 show ?thesis by (simp add: og_def)
    next
      case True
      with k obtain s3 where 3: "gl_set GLF_REPLY_PENDING g s2 = Some s3" "us_us_gfs2_glock_queue_work g 0 s3 = Some s'"
        by (auto simp: bind_eq_Some_conv gfs2_glock_queue_work_def)
      have o: "og g s2 s3" by (rule set_reply_og [OF g2 x2 _ 3(1)]) simp
      show ?thesis using o same_og [OF queue_work_same [OF 3(2)] og_good [OF o]] og_trans by blast
    qed
    then show ?thesis using o1 same_og [OF sm g1] og_trans by blast
  qed
qed

lemma hash_walk_inv:
  assumes keep: "\<And>g s s'. gfs2_inv s \<Longrightarrow> f g s = Some s' \<Longrightarrow> gfs2_inv s'"
  shows "gfs2_inv s \<Longrightarrow> glock_hash_walk f gs s = Some s' \<Longrightarrow> gfs2_inv s'"
proof (induction gs arbitrary: s)
  case (Cons g gs)
  from Cons.prems(2) obtain s1 where "f g s = Some s1" "glock_hash_walk f gs s1 = Some s'"
    by (auto simp: bind_eq_Some_conv)
  then show ?case using Cons keep by blast
qed simp

lemma thaw_glock_inv: "gfs2_inv s \<Longrightarrow> thaw_glock g s = Some s' \<Longrightarrow> gfs2_inv s'"
  using og_inv thaw_glock_og good_inv by (metis (no_types, lifting) bind_eq_Some_conv thaw_glock_def)

lemma thaw_inv: "gfs2_inv s \<Longrightarrow> gfs2_glock_thaw s = Some s' \<Longrightarrow> gfs2_inv s'"
  unfolding gfs2_glock_thaw_def by (rule hash_walk_inv) (rule thaw_glock_inv)

section \<open>The work of a glock\<close>

lemma clear_reply_busy:
  assumes g: "good g s" and x: "gs_glocks s g = Some x" "gl_test GLF_REPLY_PENDING x"
    and c: "gl_clear GLF_REPLY_PENDING g s = Some s'"
  shows "busy g s' \<and> off g s s'"
proof -
  have l: "lock_ok s x" using g x by (auto simp: good_def)
  have "off g s s' \<and> loc g s' \<and> gs_glocks s' g = Some (x\<lparr>gl_flags := unset_bit GLF_REPLY_PENDING (gl_flags x)\<rparr>) \<and>
      (\<forall>h. held s' h = held s h)"
    by (rule upd_loc [OF _ c [unfolded gl_clear_def] x(1)]) (use g in \<open>simp_all add: good_def\<close>)
  then show ?thesis using l x(2) by (auto simp: busy_def nobody_def flags_are_def lock_ok_def)
qed

lemma reply_og:
  assumes env: "gfs2_env_ok env" and g: "good g s" and x: "gs_glocks s g = Some x" "gl_test GLF_REPLY_PENDING x"
    and c: "gl_clear GLF_REPLY_PENDING g s = Some s1" and f: "finish_xmote env g ret s1 = Some s'"
  shows "og g s s'"
  using clear_reply_busy [OF g x c] finish_xmote_settled [OF env _ f] settled_og og_def off_trans by metis

lemma bind_pairE:
  assumes "(m \<bind> (\<lambda>(a, b). f a b)) = Some y"
  obtains a b where "m = Some (a, b)" "f a b = Some y"
  using assms by (auto simp: bind_eq_Some_conv)

text \<open>The three parts of the work: the reply, the demotion that was put off, the queue.\<close>

lemma work_cases:
  assumes x: "gs_glocks s g = Some x" and w: "glock_work_func env g s = Some s'"
  obtains s1 s2 s3 s4 s5 n where
    "s1 = s \<and> \<not> gl_test GLF_REPLY_PENDING x \<or> (\<exists>t ret. gl_test GLF_REPLY_PENDING x \<and>
       gl_clear GLF_REPLY_PENDING g s = Some t \<and> finish_xmote env g ret t = Some s1)"
    "s2 = s1 \<or> (\<exists>t. gl_clear GLF_PENDING_DEMOTE g s1 = Some t \<and> gfs2_set_demote g t = Some s2)"
    "run_queue env g False s2 = Some s3"
    "s4 = s3 \<or> (\<exists>d. us_us_gfs2_glock_queue_work g d s3 = Some s4)"
    "gl_ref_add n g s4 = Some s5"
    "s' = s5 \<or> us_us_gfs2_glock_put env g s5 = Some s'"
proof -
  obtain r s1 where 1: "(if gl_test GLF_REPLY_PENDING x then do {
          s \<leftarrow> gl_clear GLF_REPLY_PENDING g s;
          s \<leftarrow> finish_xmote env g (ucast (gl_reply x)) s;
          Some (2 :: int, s)
        } else Some (1, s)) = Some (r, s1)"
    and w1: "(do {
     x \<leftarrow> gs_glocks s1 g;
     let pending = (gl_test GLF_PENDING_DEMOTE x \<and> gl_state x \<noteq> LM_ST_UNLOCKED \<and>
        gl_demote_state x \<noteq> LM_ST_EXCLUSIVE);
     let delay = (if pending then demote_delay env x s1 else 0);
     s \<leftarrow> (if pending \<and> delay = 0
          then do { s \<leftarrow> gl_clear GLF_PENDING_DEMOTE g s1; gfs2_set_demote g s } else Some s1);
     s \<leftarrow> run_queue env g False s;
     (drop_refs, s) \<leftarrow> (if delay \<noteq> 0 then do {
          let delay = (if gl_ln_type x \<noteq> LM_TYPE_INODE then 0 else delay);
          s \<leftarrow> us_us_gfs2_glock_queue_work g delay s;
          Some (r - 1, s)
        } else Some (r, s));
     s \<leftarrow> gl_ref_add (- drop_refs) g s;
     x \<leftarrow> gs_glocks s g;
     if gl_count x = 0 then us_us_gfs2_glock_put env g s else Some s
   }) = Some s'"
    using w x unfolding glock_work_func_def
    by (simp only: bind.bind_lunit) (erule bind_pairE, rule that)
  obtain P d and x1 :: gfs2_glock and s2 s3 where
    2: "(if P then do { s \<leftarrow> gl_clear GLF_PENDING_DEMOTE g s1; gfs2_set_demote g s } else Some s1) = Some s2"
    and 3: "run_queue env g False s2 = Some s3"
    and w3: "(do {
     (drop_refs, s) \<leftarrow> (if d \<noteq> 0 then do {
          let delay = (if gl_ln_type x1 \<noteq> LM_TYPE_INODE then 0 else d);
          s \<leftarrow> us_us_gfs2_glock_queue_work g delay s3;
          Some (r - 1, s)
        } else Some (r, s3));
     s \<leftarrow> gl_ref_add (- drop_refs) g s;
     x \<leftarrow> gs_glocks s g;
     if gl_count x = 0 then us_us_gfs2_glock_put env g s else Some s
   }) = Some s'"
    using w1 unfolding bind_eq_Some_conv Let_def by blast
  obtain n s4 s5 where 4: "s4 = s3 \<or> (\<exists>d. us_us_gfs2_glock_queue_work g d s3 = Some s4)"
    "gl_ref_add n g s4 = Some s5" "s' = s5 \<or> us_us_gfs2_glock_put env g s5 = Some s'"
    using w3 by (auto simp: bind_eq_Some_conv split: if_split_asm)
  show ?thesis
  proof (rule that [OF _ _ 3 4])
    show "s1 = s \<and> \<not> gl_test GLF_REPLY_PENDING x \<or> (\<exists>t ret. gl_test GLF_REPLY_PENDING x \<and>
       gl_clear GLF_REPLY_PENDING g s = Some t \<and> finish_xmote env g ret t = Some s1)"
      using 1 by (auto simp: bind_eq_Some_conv split: if_split_asm)
    show "s2 = s1 \<or> (\<exists>t. gl_clear GLF_PENDING_DEMOTE g s1 = Some t \<and> gfs2_set_demote g t = Some s2)"
      using 2 by (auto simp: bind_eq_Some_conv split: if_split_asm)
  qed
qed

lemma work_inv:
  assumes env: "gfs2_env_ok env" and inv: "gfs2_inv s" and w: "glock_work_func env g s = Some s'"
  shows "gfs2_inv s'"
proof -
  obtain x where x: "gs_glocks s g = Some x" using w by (auto simp: glock_work_func_def bind_eq_Some_conv)
  note g = good_inv [OF inv x]
  obtain s1 s2 s3 s4 s5 n where
    1: "s1 = s \<and> \<not> gl_test GLF_REPLY_PENDING x \<or> (\<exists>t ret. gl_test GLF_REPLY_PENDING x \<and>
       gl_clear GLF_REPLY_PENDING g s = Some t \<and> finish_xmote env g ret t = Some s1)"
    and 2: "s2 = s1 \<or> (\<exists>t. gl_clear GLF_PENDING_DEMOTE g s1 = Some t \<and> gfs2_set_demote g t = Some s2)"
    and 3: "run_queue env g False s2 = Some s3"
    and 4: "s4 = s3 \<or> (\<exists>d. us_us_gfs2_glock_queue_work g d s3 = Some s4)" "gl_ref_add n g s4 = Some s5"
    and 5: "s' = s5 \<or> us_us_gfs2_glock_put env g s5 = Some s'"
    by (rule work_cases [OF x w])
  have o1: "og g s s1" using 1 reply_og [OF env g x] g by (auto simp: og_def)
  have sm2: "gsame s1 s2"
    using 2 by (auto simp: gfs2_set_demote_def plain_flag_def dest!: gl_clear_same gl_set_same intro: gsame_trans)
  have o2: "og g s s2" using o1 same_og [OF sm2 og_good [OF o1]] og_trans by blast
  have o3: "og g s s3" using o2 run_queue_og [OF env og_good [OF o2] 3] og_trans by blast
  have "gsame s3 s5" using 4 by (auto dest!: queue_work_same gl_ref_add_same intro: gsame_trans)
  then have o5: "og g s s5" using o3 same_og og_good og_trans by blast
  have "gfs2_inv s5" by (rule og_inv [OF inv o5])
  then show ?thesis using 5 put_emptied [OF env og_good [OF o5]] emptied_inv by blast
qed

end
