(* ===== verification/Frame.thy ===== *)
theory Frame
  imports Grant
begin

text \<open>
  What the queues of a resource depend on, and what leaves it alone. The core of a lock or of
  a resource is the part of it that decides what is granted; callbacks, messages and value
  blocks change other fields only. Each lemma states that an operation does not crash on live
  objects with valid modes and keeps every core.
\<close>

section \<open>Cores\<close>

definition lkb_core :: "dlm_lkb \<Rightarrow>
  rsbp option \<times> nat \<times> int \<times> int \<times> int \<times> u32 \<times> bool \<times> lksbp option \<times> u32 \<times> int" where
  "lkb_core l = (lkb_resource l, lkb_ref l, lkb_status l, lkb_rqmode l, lkb_grmode l,
     lkb_exflags l, is_master_copy l, lkb_lksb l, lkb_id l, lkb_nodeid l)"

definition rsb_core :: "dlm_rsb \<Rightarrow>
  lkid list \<times> lkid list \<times> lkid list \<times> nat \<times> int \<times> int \<times> bool \<times> lkid list \<times>
  u8 list \<times> nat \<times> u32" where
  "rsb_core x = (res_grantqueue x, res_convertqueue x, res_waitqueue x, res_ref x,
     res_nodeid x, res_master_nodeid x, rsb_flag x RSB_RECOVER_GRANT, res_lookup x,
     res_name x, res_length x, res_bucket x)"

lemma lkb_coreD:
  assumes "lkb_core l' = lkb_core l"
  shows "lkb_resource l' = lkb_resource l" "lkb_ref l' = lkb_ref l" "lkb_status l' = lkb_status l"
    "lkb_rqmode l' = lkb_rqmode l" "lkb_grmode l' = lkb_grmode l" "lkb_exflags l' = lkb_exflags l"
    "is_master_copy l' = is_master_copy l" "lkb_lksb l' = lkb_lksb l" "lkb_id l' = lkb_id l"
    "lkb_nodeid l' = lkb_nodeid l"
  using assms by (simp_all add: lkb_core_def)

lemma rsb_coreD:
  assumes "rsb_core x' = rsb_core x"
  shows "res_grantqueue x' = res_grantqueue x" "res_convertqueue x' = res_convertqueue x"
    "res_waitqueue x' = res_waitqueue x" "res_ref x' = res_ref x" "res_nodeid x' = res_nodeid x"
    "res_master_nodeid x' = res_master_nodeid x"
    "rsb_flag x' RSB_RECOVER_GRANT = rsb_flag x RSB_RECOVER_GRANT" "res_lookup x' = res_lookup x"
    "res_name x' = res_name x" "res_length x' = res_length x" "res_bucket x' = res_bucket x"
  using assms by (simp_all add: rsb_core_def)

section \<open>Stores seen through a core\<close>

locale viewed_store = object_store get upd
  for get :: "'s \<Rightarrow> 'k \<Rightarrow> 'o option" and upd :: "'k \<Rightarrow> ('o \<Rightarrow> 'o) \<Rightarrow> 's \<Rightarrow> 's option" +
  fixes core :: "'o \<Rightarrow> 'c"
begin

definition view :: "'s \<Rightarrow> 'k \<Rightarrow> 'c option" where
  "view s k = map_option core (get s k)"

lemma view_upd: "upd k f s = Some s' \<Longrightarrow> (\<And>x. core (f x) = core x) \<Longrightarrow> view s' = view s"
  by (rule ext) (auto simp: view_def dest!: upd_SomeD)

lemma view_live: "view s' = view s \<Longrightarrow> get s k = Some x \<Longrightarrow> \<exists>x'. get s' k = Some x' \<and> core x' = core x"
  by (drule fun_cong [of _ _ k]) (simp add: view_def)

end

interpretation lkbv: viewed_store ls_lkbidr upd_lkb lkb_core
  by unfold_locales

interpretation rsbv: viewed_store ls_rsbs upd_rsb rsb_core
  by unfold_locales

text \<open>The lists and trees that hold resources.\<close>

definition tables ::
  "dlm_ls \<Rightarrow> (u32 \<Rightarrow> dlm_rsbtable) \<times> rsbp list \<times> rsbp list" where
  "tables s = (ls_rsbtbl s, ls_new_rsb s, ls_root_list s)"

lemma tables_updates [simp]:
  "tables (s\<lparr>ls_lkbidr := a\<rparr>) = tables s" "tables (s\<lparr>ls_rsbs := b\<rparr>) = tables s"
  "tables (s\<lparr>ls_cbs := c\<rparr>) = tables s" "tables (s\<lparr>ls_sent := d\<rparr>) = tables s"
  "tables (s\<lparr>ls_lvbs := e\<rparr>) = tables s" "tables (s\<lparr>ls_tick := n\<rparr>) = tables s"
  "tables (s\<lparr>ls_lksbs := f\<rparr>) = tables s" "tables (s\<lparr>ls_waiters := g\<rparr>) = tables s"
  by (simp_all add: tables_def)

text \<open>Two lockspaces with the same cores.\<close>

definition same :: "dlm_ls \<Rightarrow> dlm_ls \<Rightarrow> bool" where
  "same s s' \<longleftrightarrow> lkbv.view s' = lkbv.view s \<and> rsbv.view s' = rsbv.view s \<and> tables s' = tables s"

lemma same_refl [simp]: "same s s"
  by (simp add: same_def)

lemma same_trans [trans]: "same s1 s2 \<Longrightarrow> same s2 s3 \<Longrightarrow> same s1 s3"
  by (simp add: same_def)

lemma same_sym: "same s s' \<Longrightarrow> same s' s"
  by (simp add: same_def)

lemma same_lkb: "same s s' \<Longrightarrow> ls_lkbidr s k = Some l \<Longrightarrow> \<exists>l'. ls_lkbidr s' k = Some l' \<and> lkb_core l' = lkb_core l"
  by (simp add: same_def lkbv.view_live)

lemma same_rsb: "same s s' \<Longrightarrow> ls_rsbs s r = Some x \<Longrightarrow> \<exists>x'. ls_rsbs s' r = Some x' \<and> rsb_core x' = rsb_core x"
  by (simp add: same_def rsbv.view_live)

lemma same_cong:
  "ls_lkbidr s' = ls_lkbidr s \<Longrightarrow> ls_rsbs s' = ls_rsbs s \<Longrightarrow> tables s' = tables s \<Longrightarrow> same s s'"
  by (simp add: same_def fun_eq_iff lkbv.view_def rsbv.view_def)

lemma same_upd_lkb:
  assumes "ls_lkbidr s k = Some l" and "lkb_core l' = lkb_core l"
  shows "same s (s\<lparr>ls_lkbidr := (ls_lkbidr s)(k \<mapsto> l')\<rparr>)"
  using assms by (auto simp: same_def fun_eq_iff lkbv.view_def rsbv.view_def)

lemma same_upd_rsb:
  assumes "ls_rsbs s r = Some x" and "rsb_core x' = rsb_core x"
  shows "same s (s\<lparr>ls_rsbs := (ls_rsbs s)(r \<mapsto> x')\<rparr>)"
  using assms by (auto simp: same_def fun_eq_iff lkbv.view_def rsbv.view_def)

text \<open>An operation that succeeds and keeps every core.\<close>

definition keeps :: "dlm_ls \<Rightarrow> dlm_ls option \<Rightarrow> bool" where
  "keeps s res \<longleftrightarrow> (\<exists>s'. res = Some s' \<and> same s s')"

lemma keepsE:
  assumes "keeps s res"
  obtains s' where "res = Some s'" "same s s'"
  using assms by (auto simp: keeps_def)

lemma keeps_Some [simp]: "keeps s (Some s') \<longleftrightarrow> same s s'"
  by (simp add: keeps_def)

lemma keeps_same: "same s s1 \<Longrightarrow> keeps s1 res \<Longrightarrow> keeps s res"
  by (auto simp: keeps_def intro: same_trans)

lemma keeps_bind:
  assumes "keeps s res" and "\<And>s'. same s s' \<Longrightarrow> keeps s' (f s')"
  shows "keeps s (Option.bind res f)"
proof -
  from assms(1) obtain s1 where s1: "res = Some s1" "same s s1" by (rule keepsE)
  from assms(2) [OF s1(2)] obtain s2 where "f s1 = Some s2" "same s1 s2" by (rule keepsE)
  with s1 same_trans show ?thesis by (auto simp: keeps_def)
qed

lemma keeps_upd_lkb:
  assumes "ls_lkbidr s k = Some l" and "lkb_core (f l) = lkb_core l"
  shows "keeps s (upd_lkb k f s)"
  using assms by (simp add: same_upd_lkb)

lemma keeps_upd_rsb:
  assumes "ls_rsbs s r = Some x" and "rsb_core (f x) = rsb_core x"
  shows "keeps s (upd_rsb r f s)"
  using assms by (simp add: same_upd_rsb)

section \<open>Callbacks and messages\<close>

lemma queue_cast_keeps:
  assumes "ls_lkbidr s k = Some l" and "is_master_copy l \<or> lkb_lksb l \<noteq> None"
  shows "keeps s (queue_cast k rv s)"
proof -
  have core: "lkb_core (clear_iflag DLM_IFL_DEADLOCK_CANCEL_BIT l) = lkb_core l"
    by (simp add: lkb_core_def is_master_copy_def) (simp add: clear_iflag_def)
  have same: "same s (s\<lparr>ls_lkbidr := (ls_lkbidr s)(k \<mapsto> clear_iflag DLM_IFL_DEADLOCK_CANCEL_BIT l), ls_cbs := c\<rparr>)" for c
    using same_trans [OF same_upd_lkb [OF assms(1) core] same_cong] by simp
  have "same s (s\<lparr>ls_cbs := c\<rparr>)" for c
    by (rule same_cong) simp_all
  with same show ?thesis
    using assms by (auto simp: queue_cast_def dlm_add_cb_def Let_def)
qed

lemma us_create_message_state:
  "snd (us_create_message env len t s) = s\<lparr>ls_tick := ls_tick s + 1\<rparr>"
  by (simp add: us_create_message_def Let_def)

lemma create_message_state [simp]:
  "snd (create_message env x l t s) = s\<lparr>ls_tick := ls_tick s + 1\<rparr>"
  by (simp add: create_message_def us_create_message_state)

lemma send_plain_same: "same s (snd (send_plain env x l b to t fin s))"
proof -
  obtain m s1 where c: "create_message env x (if b then Some l else None) t s = (m, s1)"
    by fastforce
  then have "s1 = s\<lparr>ls_tick := ls_tick s + 1\<rparr>"
    using create_message_state [of env x "if b then Some l else None" t s] by simp
  with c show ?thesis
    by (cases m) (auto simp: send_plain_def send_message_def intro!: same_cong)
qed

lemma send_grant_keeps:
  assumes "ls_rsbs s r = Some x" and "ls_lkbidr s k = Some l"
  shows "keeps s (map_option snd (send_grant env r k s))"
  using assms send_plain_same by (simp add: send_grant_def)

lemma send_bast_keeps:
  assumes "ls_rsbs s r = Some x" and "ls_lkbidr s k = Some l"
  shows "keeps s (map_option snd (send_bast env r k mode s))"
  using assms send_plain_same by (simp add: send_bast_def)

lemma queue_bast_keeps:
  assumes "ls_rsbs s r = Some x" and "ls_lkbidr s k = Some l"
  shows "keeps s (queue_bast env r k mode s)"
  using assms send_bast_keeps [OF assms]
  by (auto simp: queue_bast_def dlm_add_cb_def intro!: same_cong)

lemma reply_lkb_keeps:
  assumes "ls_rsbs s r = Some x" and "ls_lkbidr s k = Some l"
  shows "keeps s (reply_lkb env r k t rv s)"
  using assms by (simp add: reply_lkb_def send_common_reply_def send_plain_same)

section \<open>Lock value blocks\<close>

lemma lvb_operation_valid:
  assumes "valid_mode g" and "valid_mode q"
  shows "\<exists>b. lvb_operation g q = Some b"
  using assms by (simp add: lvb_operation_def matrix_at_def valid_mode_def)

lemma same_copy_lvb [simp]: "same s (copy_lvb p src n s)"
  by (rule same_cong) (simp_all add: copy_lvb_def)

lemma copy_lvb_objects [simp]:
  "ls_rsbs (copy_lvb p src n s) = ls_rsbs s" "ls_lkbidr (copy_lvb p src n s) = ls_lkbidr s"
  by (simp_all add: copy_lvb_def)

lemma rsb_core_flag [simp]:
  "n \<noteq> RSB_RECOVER_GRANT \<Longrightarrow> n < 64 \<Longrightarrow> rsb_core (rsb_set_flag n x) = rsb_core x"
  "n \<noteq> RSB_RECOVER_GRANT \<Longrightarrow> rsb_core (rsb_clear_flag n x) = rsb_core x"
  by (simp_all add: rsb_core_def) (simp_all add: rsb_set_flag_def rsb_clear_flag_def)

lemma rsb_core_lvb [simp]:
  "rsb_core (x\<lparr>res_lvbptr := p\<rparr>) = rsb_core x" "rsb_core (x\<lparr>res_lvbseq := n\<rparr>) = rsb_core x"
  by (simp_all add: rsb_core_def rsb_flag_def)

lemma lkb_core_other [simp]:
  "lkb_core (l\<lparr>lkb_lvbseq := n\<rparr>) = lkb_core l" "lkb_core (l\<lparr>lkb_sbflags := f\<rparr>) = lkb_core l"
  "lkb_core (l\<lparr>lkb_highbast := m\<rparr>) = lkb_core l" "lkb_core (l\<lparr>lkb_timestamp := t\<rparr>) = lkb_core l"
  by (simp_all add: lkb_core_def is_master_copy_def iflag_def)

lemma set_lvb_notvalid_keeps:
  assumes "ls_rsbs s r = Some x" and "ls_lkbidr s k = Some l"
  shows "keeps s (set_lvb_notvalid r k s)"
  using assms by (simp add: set_lvb_notvalid_def same_upd_lkb)

lemma set_lvb_seq_keeps:
  assumes "same s s1" and "ls_rsbs s r = Some x" and "ls_lkbidr s k = Some l"
  shows "keeps s (do { s' \<leftarrow> upd_lkb k (\<lambda>l. l\<lparr>lkb_lvbseq := n\<rparr>) s1; set_lvb_notvalid r k s' })"
proof -
  obtain x1 l1 where 1: "ls_rsbs s1 r = Some x1" "ls_lkbidr s1 k = Some l1"
    using same_rsb [OF assms(1,2)] same_lkb [OF assms(1,3)] by blast
  let ?s2 = "s1\<lparr>ls_lkbidr := (ls_lkbidr s1)(k \<mapsto> l1\<lparr>lkb_lvbseq := n\<rparr>)\<rparr>"
  have 2: "same s ?s2" using assms(1) same_upd_lkb [OF 1(2)] by (rule same_trans) simp
  have "keeps ?s2 (set_lvb_notvalid r k ?s2)"
    by (rule set_lvb_notvalid_keeps [where x = x1]) (simp_all add: 1)
  with 1 2 show ?thesis by (auto simp: keeps_def intro: same_trans)
qed

lemma rsb_lvb_keeps:
  assumes "ls_rsbs s r = Some x"
  shows "\<exists>q s'. rsb_lvb env r s = Some (q, s') \<and> same s s'"
proof (cases "res_lvbptr x")
  case (Some p)
  with assms show ?thesis by (simp add: rsb_lvb_def)
next
  case None
  obtain p s1 where a: "dlm_allocate_lvb env s = (p, s1)" by fastforce
  have s1: "ls_rsbs s1 = ls_rsbs s" "ls_lkbidr s1 = ls_lkbidr s" "tables s1 = tables s"
    using a by (auto simp: dlm_allocate_lvb_def Let_def split: option.splits)
  have "same s1 (s1\<lparr>ls_rsbs := (ls_rsbs s1)(r \<mapsto> x\<lparr>res_lvbptr := p\<rparr>)\<rparr>)"
    using assms by (intro same_upd_rsb [where x = x]) (simp_all add: s1)
  with same_cong [OF s1(2,1,3)] have "same s (s1\<lparr>ls_rsbs := (ls_rsbs s1)(r \<mapsto> x\<lparr>res_lvbptr := p\<rparr>)\<rparr>)"
    by (rule same_trans)
  with None assms a s1 show ?thesis by (simp add: rsb_lvb_def)
qed

lemma rsb_lvb_write_keeps:
  assumes "same s s1" and "ls_rsbs s r = Some x"
  shows "keeps s (upd_rsb r (\<lambda>x. rsb_clear_flag RSB_VALNOTVALID (x\<lparr>res_lvbseq := res_lvbseq x + 1\<rparr>))
           (copy_lvb q src m s1))"
proof -
  obtain x1 where x1: "ls_rsbs s1 r = Some x1" using same_rsb [OF assms] by blast
  let ?x2 = "rsb_clear_flag RSB_VALNOTVALID (x1\<lparr>res_lvbseq := res_lvbseq x1 + 1\<rparr>)"
  have "same s (copy_lvb q src m s1)" using assms(1) same_copy_lvb by (rule same_trans)
  also have "same (copy_lvb q src m s1)
      ((copy_lvb q src m s1)\<lparr>ls_rsbs := (ls_rsbs (copy_lvb q src m s1))(r \<mapsto> ?x2)\<rparr>)"
    by (rule same_upd_rsb [where x = x1]) (simp_all add: x1)
  finally show ?thesis by (simp add: x1)
qed

lemma set_lvb_lock_keeps:
  assumes "ls_rsbs s r = Some x" and "ls_lkbidr s k = Some l"
    and "valid_mode (lkb_grmode l)" and "valid_mode (lkb_rqmode l)"
  shows "keeps s (set_lvb_lock env r k s)"
proof -
  obtain b where b: "lvb_operation (lkb_grmode l) (lkb_rqmode l) = Some b"
    using lvb_operation_valid assms(3,4) by blast
  have notvalid: "keeps s' (set_lvb_notvalid r k s')" if "same s s'" for s'
    using set_lvb_notvalid_keeps same_rsb [OF that assms(1)] same_lkb [OF that assms(2)] by blast
  have read: "keeps s (do {
      s' \<leftarrow> upd_lkb k (\<lambda>l. l\<lparr>lkb_lvbseq := n\<rparr>) (copy_lvb p src m s);
      set_lvb_notvalid r k s'
    })" for n p src m
    by (rule set_lvb_seq_keeps [OF same_copy_lvb assms(1,2)])
  have wr: "keeps s1 (do {
      s2 \<leftarrow> upd_rsb r (\<lambda>x. rsb_clear_flag RSB_VALNOTVALID (x\<lparr>res_lvbseq := res_lvbseq x + 1\<rparr>))
             (copy_lvb q (ls_lvbs s1 p) (ls_lvblen s1) s1);
      x \<leftarrow> ls_rsbs s2 r;
      s3 \<leftarrow> upd_lkb k (\<lambda>l. l\<lparr>lkb_lvbseq := res_lvbseq x\<rparr>) s2;
      set_lvb_notvalid r k s3
    })" if s1: "same s s1" for s1 p q
  proof (rule keeps_bind)
    obtain x1 where "ls_rsbs s1 r = Some x1" using same_rsb [OF s1 assms(1)] by blast
    then show "keeps s1 (upd_rsb r (\<lambda>x. rsb_clear_flag RSB_VALNOTVALID (x\<lparr>res_lvbseq := res_lvbseq x + 1\<rparr>))
             (copy_lvb q (ls_lvbs s1 p) (ls_lvblen s1) s1))"
      by (rule rsb_lvb_write_keeps [OF same_refl])
  next
    fix s2 assume "same s1 s2"
    with s1 have s2: "same s s2" by (rule same_trans)
    obtain x2 l2 where "ls_rsbs s2 r = Some x2" "ls_lkbidr s2 k = Some l2"
      using same_rsb [OF s2 assms(1)] same_lkb [OF s2 assms(2)] by blast
    then show "keeps s2 (do {
        x \<leftarrow> ls_rsbs s2 r;
        s3 \<leftarrow> upd_lkb k (\<lambda>l. l\<lparr>lkb_lvbseq := res_lvbseq x\<rparr>) s2;
        set_lvb_notvalid r k s3
      })"
      using set_lvb_seq_keeps [OF same_refl, of s2 r x2 k] by simp
  qed
  obtain q s1 where lvb: "rsb_lvb env r s = Some (q, s1)" "same s s1"
    using rsb_lvb_keeps [OF assms(1)] by blast
  note wr1 = keeps_same [OF lvb(2) wr [OF lvb(2)]]
  show ?thesis
    using assms(1,2) b lvb read wr1 notvalid [OF same_refl]
    by (auto simp: set_lvb_lock_def same_upd_rsb split: option.splits)
qed

lemma set_lvb_unlock_keeps:
  assumes "ls_rsbs s r = Some x" and "ls_lkbidr s k = Some l"
  shows "keeps s (set_lvb_unlock env r k s)"
proof -
  obtain q s1 where "rsb_lvb env r s = Some (q, s1)" "same s s1"
    using rsb_lvb_keeps [OF assms(1)] by blast
  with assms rsb_lvb_write_keeps [of s s1 r x] show ?thesis
    by (auto simp: set_lvb_unlock_def same_upd_rsb split: option.splits)
qed

end
