(* ===== verification/Queues.thy ===== *)
theory Queues
  imports Frame
begin

text \<open>
  The invariant of a resource on its master. Its locks are each on the queue their status
  names, once; their modes fit that queue; and the granted modes of the granted and the
  converting locks, which all hold the resource, are pairwise compatible. The lemmas say what
  \<open>add_lkb\<close>, \<open>del_lkb\<close> and \<open>move_lkb\<close> do to the queues, and when a change of one lock and its
  place keeps the invariant.
\<close>

section \<open>The invariant\<close>

definition lkb_wf :: "dlm_lkb \<Rightarrow> bool" where
  "lkb_wf l \<longleftrightarrow> valid_mode (lkb_grmode l) \<and> valid_mode (lkb_rqmode l) \<and>
     (has_flag (lkb_exflags l) DLM_LKF_EXPEDITE \<longrightarrow> lkb_rqmode l \<le> DLM_LOCK_NL) \<and>
     (is_master_copy l \<or> lkb_lksb l \<noteq> None)"

text \<open>No alternate mode of the lock is the mode it holds.\<close>

definition alt_safe :: "dlm_lkb \<Rightarrow> bool" where
  "alt_safe l \<longleftrightarrow>
     \<not> (has_flag (lkb_exflags l) DLM_LKF_ALTPR \<and> lkb_grmode l = DLM_LOCK_PR) \<and>
     \<not> (has_flag (lkb_exflags l) DLM_LKF_ALTCW \<and> lkb_grmode l = DLM_LOCK_CW)"

text \<open>The modes a lock has on the wait, grant and convert queue.\<close>

definition modes_ok :: "int \<Rightarrow> dlm_lkb \<Rightarrow> bool" where
  "modes_ok st l \<longleftrightarrow>
     (st = DLM_LKSTS_WAITING \<longrightarrow> lkb_grmode l = DLM_LOCK_IV \<and> lkb_rqmode l \<noteq> DLM_LOCK_IV) \<and>
     (st = DLM_LKSTS_GRANTED \<longrightarrow> lkb_grmode l \<noteq> DLM_LOCK_IV) \<and>
     (st = DLM_LKSTS_CONVERT \<longrightarrow> lkb_grmode l \<noteq> DLM_LOCK_IV \<and> DLM_LOCK_NL < lkb_rqmode l \<and>
        lkb_rqmode l \<noteq> lkb_grmode l \<and> alt_safe l)"

definition queued_ok :: "rsbp \<Rightarrow> int \<Rightarrow> dlm_lkb \<Rightarrow> bool" where
  "queued_ok r st l \<longleftrightarrow> lkb_resource l = Some r \<and> lkb_status l = st \<and> 2 \<le> lkb_ref l \<and>
     lkb_wf l \<and> modes_ok st l"

definition on_queue :: "dlm_ls \<Rightarrow> rsbp \<Rightarrow> int \<Rightarrow> lkid list \<Rightarrow> bool" where
  "on_queue s r st q \<longleftrightarrow> (\<forall>k\<in>set q. \<exists>l. ls_lkbidr s k = Some l \<and> queued_ok r st l)"

definition holders :: "dlm_rsb \<Rightarrow> lkid set" where
  "holders x = set (res_grantqueue x) \<union> set (res_convertqueue x)"

definition gr_mode :: "dlm_ls \<Rightarrow> lkid \<Rightarrow> int" where
  "gr_mode s k = (case ls_lkbidr s k of None \<Rightarrow> DLM_LOCK_IV | Some l \<Rightarrow> lkb_grmode l)"

definition queues_ok :: "dlm_ls \<Rightarrow> rsbp \<Rightarrow> dlm_rsb \<Rightarrow> bool" where
  "queues_ok s r x \<longleftrightarrow> distinct (rsb_queues x) \<and>
     on_queue s r DLM_LKSTS_GRANTED (res_grantqueue x) \<and>
     on_queue s r DLM_LKSTS_CONVERT (res_convertqueue x) \<and>
     on_queue s r DLM_LKSTS_WAITING (res_waitqueue x) \<and>
     (\<forall>k l. ls_lkbidr s k = Some l \<and> lkb_resource l = Some r \<and> lkb_status l \<noteq> 0 \<longrightarrow>
        k \<in> set (rsb_queues x))"

definition master_ok :: "dlm_ls \<Rightarrow> rsbp \<Rightarrow> bool" where
  "master_ok s r \<longleftrightarrow> (\<exists>x. ls_rsbs s r = Some x \<and> queues_ok s r x \<and>
     modes.consistent (gr_mode s) (holders x))"

section \<open>The invariant depends on the cores only\<close>

lemma lkb_wf_core:
  assumes "lkb_core l' = lkb_core l"
  shows "lkb_wf l' = lkb_wf l"
  by (simp add: lkb_wf_def lkb_coreD [OF assms])

lemma queued_ok_core:
  assumes "lkb_core l' = lkb_core l"
  shows "queued_ok r st l' = queued_ok r st l"
  by (simp add: queued_ok_def modes_ok_def alt_safe_def lkb_wf_core [OF assms] lkb_coreD [OF assms])

lemma on_queue_same:
  assumes "same s s'" and "on_queue s r st q"
  shows "on_queue s' r st q"
  unfolding on_queue_def
proof
  fix k assume "k \<in> set q"
  then obtain l where l: "ls_lkbidr s k = Some l" "queued_ok r st l"
    using assms(2) by (auto simp: on_queue_def)
  obtain l' where "ls_lkbidr s' k = Some l'" "lkb_core l' = lkb_core l"
    using same_lkb [OF assms(1) l(1)] by blast
  with l(2) queued_ok_core show "\<exists>l. ls_lkbidr s' k = Some l \<and> queued_ok r st l" by blast
qed

lemma gr_mode_same:
  assumes "same s s'"
  shows "gr_mode s' = gr_mode s"
proof (rule ext)
  fix k show "gr_mode s' k = gr_mode s k"
  proof (cases "ls_lkbidr s k")
    case None
    then have "ls_lkbidr s' k = None"
      using same_lkb [OF same_sym [OF assms], of k] by (cases "ls_lkbidr s' k") auto
    with None show ?thesis by (simp add: gr_mode_def)
  next
    case (Some l)
    then obtain l' where l': "ls_lkbidr s' k = Some l'" "lkb_core l' = lkb_core l"
      using same_lkb [OF assms] by blast
    with Some show ?thesis by (simp add: gr_mode_def lkb_coreD(5) [OF l'(2)])
  qed
qed

lemma rsb_queues_core:
  assumes "rsb_core x' = rsb_core x"
  shows "rsb_queues x' = rsb_queues x"
  by (simp add: rsb_queues_def rsb_coreD [OF assms])

lemma queues_ok_same:
  assumes "same s s'" and "rsb_core x' = rsb_core x" and "queues_ok s r x"
  shows "queues_ok s' r x'"
proof -
  have "k \<in> set (rsb_queues x)"
    if l: "ls_lkbidr s' k = Some l" "lkb_resource l = Some r" "lkb_status l \<noteq> 0" for k l
  proof -
    obtain l0 where l0: "ls_lkbidr s k = Some l0" "lkb_core l0 = lkb_core l"
      using same_lkb [OF same_sym [OF assms(1)] l(1)] by blast
    with l(2,3) have "lkb_resource l0 = Some r" "lkb_status l0 \<noteq> 0"
      by (simp_all add: lkb_coreD [OF l0(2)])
    with l0(1) assms(3) show ?thesis by (auto simp: queues_ok_def)
  qed
  with assms(3) on_queue_same [OF assms(1)] show ?thesis
    by (auto simp: queues_ok_def rsb_queues_core [OF assms(2)] rsb_coreD [OF assms(2)])
qed

lemma holders_core:
  assumes "rsb_core x' = rsb_core x"
  shows "holders x' = holders x"
  by (simp add: holders_def rsb_coreD [OF assms])

lemma master_ok_same:
  assumes "same s s'" and "master_ok s r"
  shows "master_ok s' r"
proof -
  obtain x where x: "ls_rsbs s r = Some x" "queues_ok s r x" "modes.consistent (gr_mode s) (holders x)"
    using assms(2) by (auto simp: master_ok_def)
  obtain x' where x': "ls_rsbs s' r = Some x'" "rsb_core x' = rsb_core x"
    using same_rsb [OF assms(1) x(1)] by blast
  have "queues_ok s' r x'" by (rule queues_ok_same [OF assms(1) x'(2) x(2)])
  with x(3) x'(1) show ?thesis
    by (simp add: master_ok_def gr_mode_same [OF assms(1)] holders_core [OF x'(2)])
qed

section \<open>Moving a lock\<close>

text \<open>\<open>placed k st x x'\<close>: the queues of \<open>x'\<close> are those of \<open>x\<close> with \<open>k\<close> on the queue of
  status \<open>st\<close>, on none for status 0.\<close>

definition placed :: "lkid \<Rightarrow> int \<Rightarrow> dlm_rsb \<Rightarrow> dlm_rsb \<Rightarrow> bool" where
  "placed k st x x' \<longleftrightarrow> distinct (rsb_queues x') \<and>
     set (res_grantqueue x') = set (res_grantqueue x) - {k} \<union> (if st = DLM_LKSTS_GRANTED then {k} else {}) \<and>
     set (res_convertqueue x') = set (res_convertqueue x) - {k} \<union> (if st = DLM_LKSTS_CONVERT then {k} else {}) \<and>
     set (res_waitqueue x') = set (res_waitqueue x) - {k} \<union> (if st = DLM_LKSTS_WAITING then {k} else {}) \<and>
     res_nodeid x' = res_nodeid x \<and> res_ref x' = res_ref x \<and> res_flags x' = res_flags x \<and>
     res_master_nodeid x' = res_master_nodeid x \<and>
     res_name x' = res_name x \<and> res_length x' = res_length x \<and> res_bucket x' = res_bucket x"

lemma on_queueD: "on_queue s r st q \<Longrightarrow> k \<in> set q \<Longrightarrow> \<exists>l. ls_lkbidr s k = Some l \<and> queued_ok r st l"
  by (simp add: on_queue_def)

lemma queue_status:
  assumes ok: "queues_ok s r x" and l: "ls_lkbidr s k = Some l"
  shows "k \<in> set (res_grantqueue x) \<longleftrightarrow> lkb_resource l = Some r \<and> lkb_status l = DLM_LKSTS_GRANTED"
    and "k \<in> set (res_convertqueue x) \<longleftrightarrow> lkb_resource l = Some r \<and> lkb_status l = DLM_LKSTS_CONVERT"
    and "k \<in> set (res_waitqueue x) \<longleftrightarrow> lkb_resource l = Some r \<and> lkb_status l = DLM_LKSTS_WAITING"
proof -
  have g: "k \<in> set (res_grantqueue x) \<Longrightarrow> lkb_resource l = Some r \<and> lkb_status l = DLM_LKSTS_GRANTED"
    and c: "k \<in> set (res_convertqueue x) \<Longrightarrow> lkb_resource l = Some r \<and> lkb_status l = DLM_LKSTS_CONVERT"
    and w: "k \<in> set (res_waitqueue x) \<Longrightarrow> lkb_resource l = Some r \<and> lkb_status l = DLM_LKSTS_WAITING"
    using ok l by (auto simp: queues_ok_def queued_ok_def dest: on_queueD)
  have all: "lkb_resource l = Some r \<Longrightarrow> lkb_status l \<noteq> 0 \<Longrightarrow> k \<in> set (rsb_queues x)"
    using ok l by (auto simp: queues_ok_def)
  show "k \<in> set (res_grantqueue x) \<longleftrightarrow> lkb_resource l = Some r \<and> lkb_status l = DLM_LKSTS_GRANTED"
    "k \<in> set (res_convertqueue x) \<longleftrightarrow> lkb_resource l = Some r \<and> lkb_status l = DLM_LKSTS_CONVERT"
    "k \<in> set (res_waitqueue x) \<longleftrightarrow> lkb_resource l = Some r \<and> lkb_status l = DLM_LKSTS_WAITING"
    using g c w all by (auto simp: rsb_queues_def)
qed

lemma queued_lkb:
  assumes "queues_ok s r x" and l: "ls_lkbidr s k = Some l" and "lkb_resource l = Some r" "lkb_status l \<noteq> 0"
  shows "queued_ok r (lkb_status l) l \<and>
    lkb_status l \<in> {DLM_LKSTS_WAITING, DLM_LKSTS_GRANTED, DLM_LKSTS_CONVERT}"
proof -
  have "k \<in> set (rsb_queues x)" using assms by (auto simp: queues_ok_def)
  then consider "k \<in> set (res_grantqueue x)" | "k \<in> set (res_convertqueue x)" | "k \<in> set (res_waitqueue x)"
    by (auto simp: rsb_queues_def)
  then show ?thesis
    using assms(1) l by cases (auto simp: queues_ok_def queued_ok_def dest: on_queueD)
qed

lemma placed_here:
  assumes "queues_ok s r x" and "ls_lkbidr s k = Some l" and "lkb_resource l = Some r"
  shows "placed k (lkb_status l) x x"
proof -
  have "distinct (rsb_queues x)" using assms(1) by (simp add: queues_ok_def)
  with queue_status [OF assms(1,2)] assms(3) show ?thesis
    by (auto simp: placed_def)
qed

lemma queues_ok_placed:
  assumes ok: "queues_ok s r x"
    and lkbs: "ls_lkbidr s' = (ls_lkbidr s)(k \<mapsto> l')"
    and p: "placed k st x x'"
    and l': "st \<in> {DLM_LKSTS_WAITING, DLM_LKSTS_GRANTED, DLM_LKSTS_CONVERT} \<and> queued_ok r st l' \<or>
             st = 0 \<and> lkb_status l' = 0"
  shows "queues_ok s' r x'"
proof -
  have q: "on_queue s' r st' q'"
    if "on_queue s r st' q" "set q' = set q - {k} \<union> (if st = st' then {k} else {})"
      "st' \<noteq> 0" for st' q q'
    using that l' by (auto simp: on_queue_def lkbs split: if_splits)
  have "on_queue s' r DLM_LKSTS_GRANTED (res_grantqueue x')"
    "on_queue s' r DLM_LKSTS_CONVERT (res_convertqueue x')"
    "on_queue s' r DLM_LKSTS_WAITING (res_waitqueue x')"
    using ok p q by (auto simp: queues_ok_def placed_def)
  moreover have "j \<in> set (rsb_queues x')"
    if "ls_lkbidr s' j = Some m" "lkb_resource m = Some r" "lkb_status m \<noteq> 0" for j m
    using that ok p l' by (auto simp: queues_ok_def placed_def lkbs rsb_queues_def split: if_splits)
  ultimately show ?thesis
    using p by (auto simp: queues_ok_def placed_def)
qed

lemma consistent_placed:
  assumes con: "modes.consistent (gr_mode s) (holders x)"
    and lkbs: "ls_lkbidr s' = (ls_lkbidr s)(k \<mapsto> l')"
    and p: "placed k st x x'"
    and compat: "st \<in> {DLM_LKSTS_GRANTED, DLM_LKSTS_CONVERT} \<Longrightarrow> valid_mode (lkb_grmode l') \<and>
       (\<forall>j\<in>holders x - {k}. compat (gr_mode s j) (lkb_grmode l'))"
  shows "modes.consistent (gr_mode s') (holders x')"
proof -
  have gr: "gr_mode s' = (gr_mode s)(k := lkb_grmode l')"
    by (auto simp: gr_mode_def lkbs)
  show ?thesis
  proof (cases "st \<in> {DLM_LKSTS_GRANTED, DLM_LKSTS_CONVERT}")
    case True
    then have "holders x' = insert k (holders x - {k})"
      using p by (auto simp: placed_def holders_def)
    moreover have "modes.consistent ((gr_mode s)(k := lkb_grmode l')) (insert k (holders x - {k}))"
      using compat [OF True] con by (intro modes.consistent_grant) (auto intro: modes.consistent_subset)
    ultimately show ?thesis by (simp add: gr)
  next
    case False
    then have "holders x' = holders x - {k}"
      using p by (auto simp: placed_def holders_def)
    moreover have "modes.consistent ((gr_mode s)(k := lkb_grmode l')) (holders x - {k})"
      using con by (subst modes.consistent_cong [where mode' = "gr_mode s"])
        (auto intro: modes.consistent_subset)
    ultimately show ?thesis by (simp add: gr)
  qed
qed

text \<open>One lock \<open>k\<close> changed and was placed according to its new status: the invariant holds
  again when every other holder is compatible with the new mode.\<close>

lemma master_ok_placed:
  assumes "master_ok s r" and "ls_rsbs s r = Some x"
    and "ls_lkbidr s' = (ls_lkbidr s)(k \<mapsto> l')" and "ls_rsbs s' r = Some x'"
    and "placed k st x x'"
    and "st \<in> {DLM_LKSTS_WAITING, DLM_LKSTS_GRANTED, DLM_LKSTS_CONVERT} \<and> queued_ok r st l' \<or>
         st = 0 \<and> lkb_status l' = 0"
    and "st \<in> {DLM_LKSTS_GRANTED, DLM_LKSTS_CONVERT} \<Longrightarrow>
       \<forall>j\<in>holders x - {k}. compat (gr_mode s j) (lkb_grmode l')"
  shows "master_ok s' r"
proof -
  have ok: "queues_ok s r x" "modes.consistent (gr_mode s) (holders x)"
    using assms(1,2) by (auto simp: master_ok_def)
  have "valid_mode (lkb_grmode l')" if "st \<in> {DLM_LKSTS_GRANTED, DLM_LKSTS_CONVERT}"
    using that assms(6) by (auto simp: queued_ok_def lkb_wf_def)
  then have "modes.consistent (gr_mode s') (holders x')"
    using assms(7) by (intro consistent_placed [OF ok(2) assms(3,5)]) auto
  with queues_ok_placed [OF ok(1) assms(3,5,6)] assms(4) show ?thesis
    by (auto simp: master_ok_def)
qed

section \<open>Local changes\<close>

text \<open>\<open>only r A s s'\<close>: of the cores, only those of resource \<open>r\<close> and of its locks in \<open>A\<close>
  changed; no object appeared or vanished and no lock changed its resource.\<close>

definition only :: "rsbp \<Rightarrow> lkid set \<Rightarrow> dlm_ls \<Rightarrow> dlm_ls \<Rightarrow> bool" where
  "only r A s s' \<longleftrightarrow>
     (\<forall>j. ls_lkbidr s j = None \<longrightarrow> ls_lkbidr s' j = None) \<and>
     (\<forall>j l. ls_lkbidr s j = Some l \<longrightarrow> (\<exists>l'. ls_lkbidr s' j = Some l' \<and>
        lkb_resource l' = lkb_resource l \<and>
        (lkb_core l' = lkb_core l \<or> j \<in> A \<and> lkb_resource l = Some r))) \<and>
     (\<forall>r'. r' \<noteq> r \<longrightarrow> rsbv.view s' r' = rsbv.view s r') \<and>
     (\<forall>x. ls_rsbs s r = Some x \<longrightarrow> (\<exists>x'. ls_rsbs s' r = Some x' \<and>
        res_nodeid x' = res_nodeid x \<and> res_ref x' = res_ref x \<and>
        res_master_nodeid x' = res_master_nodeid x \<and>
        res_name x' = res_name x \<and> res_length x' = res_length x \<and> res_bucket x' = res_bucket x)) \<and>
     tables s' = tables s"

lemma only_lkb:
  assumes "only r A s s'" and "ls_lkbidr s j = Some l"
  obtains l' where "ls_lkbidr s' j = Some l'" "lkb_resource l' = lkb_resource l"
    "lkb_core l' = lkb_core l \<or> j \<in> A \<and> lkb_resource l = Some r"
  using assms unfolding only_def by blast

lemma only_rsb:
  assumes "only r A s s'" and "ls_rsbs s r = Some x"
  obtains x' where "ls_rsbs s' r = Some x'" "res_nodeid x' = res_nodeid x" "res_ref x' = res_ref x"
    "res_master_nodeid x' = res_master_nodeid x"
    "res_name x' = res_name x" "res_length x' = res_length x" "res_bucket x' = res_bucket x"
  using assms unfolding only_def by blast

lemma only_tables: "only r A s s' \<Longrightarrow> tables s' = tables s"
  by (simp add: only_def)

lemma only_same:
  assumes "same s s'"
  shows "only r A s s'"
proof -
  have "ls_lkbidr s' j = None" if "ls_lkbidr s j = None" for j
    using same_lkb [OF same_sym [OF assms], of j] that by (cases "ls_lkbidr s' j") auto
  moreover have "\<exists>l'. ls_lkbidr s' j = Some l' \<and> lkb_resource l' = lkb_resource l \<and> lkb_core l' = lkb_core l"
    if "ls_lkbidr s j = Some l" for j l
    using same_lkb [OF assms that] lkb_coreD(1) by blast
  moreover have "\<exists>x'. ls_rsbs s' r = Some x' \<and> res_nodeid x' = res_nodeid x \<and> res_ref x' = res_ref x \<and>
      res_master_nodeid x' = res_master_nodeid x \<and>
      res_name x' = res_name x \<and> res_length x' = res_length x \<and> res_bucket x' = res_bucket x"
    if "ls_rsbs s r = Some x" for x
    using same_rsb [OF assms that] rsb_coreD(4,5,6,9,10,11) by blast
  ultimately have "\<forall>j l. ls_lkbidr s j = Some l \<longrightarrow> (\<exists>l'. ls_lkbidr s' j = Some l' \<and>
        lkb_resource l' = lkb_resource l \<and> (lkb_core l' = lkb_core l \<or> j \<in> A \<and> lkb_resource l = Some r))"
    "\<forall>j. ls_lkbidr s j = None \<longrightarrow> ls_lkbidr s' j = None"
    "\<forall>x. ls_rsbs s r = Some x \<longrightarrow> (\<exists>x'. ls_rsbs s' r = Some x' \<and>
        res_nodeid x' = res_nodeid x \<and> res_ref x' = res_ref x \<and>
        res_master_nodeid x' = res_master_nodeid x \<and>
        res_name x' = res_name x \<and> res_length x' = res_length x \<and> res_bucket x' = res_bucket x)" by blast+
  with assms show ?thesis by (simp add: only_def same_def)
qed

lemma only_refl [simp]: "only r A s s"
  by (rule only_same) simp

lemma only_trans:
  assumes "only r A s s1" and "only r A s1 s2"
  shows "only r A s s2"
proof -
  have "\<exists>l2. ls_lkbidr s2 j = Some l2 \<and> lkb_resource l2 = lkb_resource l \<and>
      (lkb_core l2 = lkb_core l \<or> j \<in> A \<and> lkb_resource l = Some r)" if l: "ls_lkbidr s j = Some l" for j l
  proof -
    obtain l1 where l1: "ls_lkbidr s1 j = Some l1" "lkb_resource l1 = lkb_resource l"
      "lkb_core l1 = lkb_core l \<or> j \<in> A \<and> lkb_resource l = Some r"
      by (rule only_lkb [OF assms(1) l])
    obtain l2 where "ls_lkbidr s2 j = Some l2" "lkb_resource l2 = lkb_resource l1"
      "lkb_core l2 = lkb_core l1 \<or> j \<in> A \<and> lkb_resource l1 = Some r"
      by (rule only_lkb [OF assms(2) l1(1)])
    with l1 show ?thesis by auto
  qed
  moreover have "\<exists>x2. ls_rsbs s2 r = Some x2 \<and> res_nodeid x2 = res_nodeid x \<and> res_ref x2 = res_ref x \<and>
      res_master_nodeid x2 = res_master_nodeid x \<and>
      res_name x2 = res_name x \<and> res_length x2 = res_length x \<and> res_bucket x2 = res_bucket x"
    if x: "ls_rsbs s r = Some x" for x
  proof -
    obtain x1 where x1: "ls_rsbs s1 r = Some x1" "res_nodeid x1 = res_nodeid x" "res_ref x1 = res_ref x"
      "res_master_nodeid x1 = res_master_nodeid x"
      "res_name x1 = res_name x" "res_length x1 = res_length x" "res_bucket x1 = res_bucket x"
      by (rule only_rsb [OF assms(1) x])
    show ?thesis by (rule only_rsb [OF assms(2) x1(1)]) (use x1 in auto)
  qed
  ultimately show ?thesis
    using assms by (auto simp: only_def)
qed

lemma only_mono: "only r A s s' \<Longrightarrow> A \<subseteq> B \<Longrightarrow> only r B s s'"
  unfolding only_def by blast

lemma only_update:
  assumes "ls_lkbidr s k = Some l" and "lkb_resource l = Some r" and "k \<in> A"
    and "ls_rsbs s r = Some x"
    and "ls_lkbidr s' = (ls_lkbidr s)(k \<mapsto> l')" and "lkb_resource l' = Some r"
    and "ls_rsbs s' = (ls_rsbs s)(r \<mapsto> x')" and "placed k st x x'" and "tables s' = tables s"
  shows "only r A s s'"
  using assms by (auto simp: only_def rsbv.view_def placed_def)

text \<open>Other resources do not notice.\<close>

lemma master_ok_only:
  assumes "only r A s s'" and "r2 \<noteq> r" and "master_ok s r2"
  shows "master_ok s' r2"
proof -
  obtain x where x: "ls_rsbs s r2 = Some x" "queues_ok s r2 x" "modes.consistent (gr_mode s) (holders x)"
    using assms(3) by (auto simp: master_ok_def)
  have "rsbv.view s' r2 = rsbv.view s r2" using assms(1,2) by (simp add: only_def)
  with x(1) obtain x' where x': "ls_rsbs s' r2 = Some x'" "rsb_core x' = rsb_core x"
    by (auto simp: rsbv.view_def)
  have mine: "\<exists>l'. ls_lkbidr s' j = Some l' \<and> lkb_core l' = lkb_core l"
    if j: "ls_lkbidr s j = Some l" "lkb_resource l = Some r2" for j l
    by (rule only_lkb [OF assms(1) j(1)]) (use j assms(2) in auto)
  have q: "on_queue s' r2 st q" if "on_queue s r2 st q" for st q
    using that mine queued_ok_core unfolding on_queue_def queued_ok_def by metis
  have "k \<in> set (rsb_queues x)"
    if h: "ls_lkbidr s' k = Some l'" "lkb_resource l' = Some r2" "lkb_status l' \<noteq> 0" for k l'
  proof (cases "ls_lkbidr s k")
    case None
    with h(1) assms(1) show ?thesis by (simp add: only_def)
  next
    case (Some l)
    obtain l1 where l1: "ls_lkbidr s' k = Some l1" "lkb_resource l1 = lkb_resource l"
      "lkb_core l1 = lkb_core l \<or> k \<in> A \<and> lkb_resource l = Some r"
      by (rule only_lkb [OF assms(1) Some])
    with h assms(2) have "lkb_resource l = Some r2" "lkb_core l' = lkb_core l" by auto
    with h(3) have "lkb_status l \<noteq> 0" using lkb_coreD(3) by metis
    with x(2) Some \<open>lkb_resource l = Some r2\<close> show ?thesis by (auto simp: queues_ok_def)
  qed
  with x(2) q have "queues_ok s' r2 x'"
    by (auto simp: queues_ok_def rsb_queues_core [OF x'(2)] rsb_coreD [OF x'(2)])
  moreover have "modes.consistent (gr_mode s') (holders x)"
  proof (rule iffD1 [OF modes.consistent_cong x(3)])
    fix j assume "j \<in> holders x"
    then obtain l where l: "ls_lkbidr s j = Some l" "lkb_resource l = Some r2"
      using x(2) by (auto simp: holders_def queues_ok_def on_queue_def queued_ok_def)
    obtain l' where l': "ls_lkbidr s' j = Some l'" "lkb_core l' = lkb_core l"
      using mine [OF l] by blast
    with l show "gr_mode s j = gr_mode s' j" by (simp add: gr_mode_def lkb_coreD(5) [OF l'(2)])
  qed
  ultimately show ?thesis using x'(1) by (auto simp: master_ok_def holders_core [OF x'(2)])
qed

section \<open>The queue operations\<close>

lemma lkb_add_ordered_spec:
  assumes "\<forall>j\<in>set q. ls_lkbidr s j \<noteq> None"
  shows "\<exists>n \<le> length q. lkb_add_ordered s k q m = Some (take n q @ k # drop n q)"
  using assms
proof (induction q)
  case Nil
  then show ?case by simp
next
  case (Cons i q)
  then obtain n li where n: "n \<le> length q" "lkb_add_ordered s k q m = Some (take n q @ k # drop n q)"
    and li: "ls_lkbidr s i = Some li" by auto
  show ?case
  proof (cases "lkb_rqmode li < m")
    case True
    with li show ?thesis by (intro exI [of _ 0]) simp
  next
    case False
    with li n show ?thesis by (intro exI [of _ "Suc n"]) simp
  qed
qed

lemma set_take_drop_insert: "n \<le> length q \<Longrightarrow> set (take n q @ k # drop n q) = insert k (set q)"
  by (metis Un_insert_right append_take_drop_id list.simps(15) set_append)

lemma distinct_take_drop_insert:
  assumes "distinct q" and "k \<notin> set q"
  shows "distinct (take n q @ k # drop n q)"
  using assms set_take_disj_set_drop_if_distinct [OF assms(1), of n n]
  by (auto dest: in_set_takeD in_set_dropD)

lemma placedI:
  assumes "distinct (rsb_queues x)" and "k \<notin> set (rsb_queues x)"
    and "set q = insert k (set q0)" "distinct q"
    and "st = DLM_LKSTS_GRANTED \<and> q0 = res_grantqueue x \<and> x' = x\<lparr>res_grantqueue := q\<rparr> \<or>
         st = DLM_LKSTS_CONVERT \<and> q0 = res_convertqueue x \<and> x' = x\<lparr>res_convertqueue := q\<rparr> \<or>
         st = DLM_LKSTS_WAITING \<and> q0 = res_waitqueue x \<and> x' = x\<lparr>res_waitqueue := q\<rparr>"
  shows "placed k st x x'"
  using assms by (elim disjE) (auto simp: placed_def rsb_queues_def)

lemma add_lkb_spec:
  assumes "ls_lkbidr s k = Some l" and "lkb_status l = 0" and "ls_rsbs s r = Some x"
    and "distinct (rsb_queues x)" and "k \<notin> set (rsb_queues x)"
    and "\<forall>j\<in>set (res_grantqueue x). ls_lkbidr s j \<noteq> None"
    and "st \<in> {DLM_LKSTS_WAITING, DLM_LKSTS_GRANTED, DLM_LKSTS_CONVERT}"
  shows "\<exists>s' x'. add_lkb env r k st s = Some s' \<and>
     ls_lkbidr s' = (ls_lkbidr s)(k \<mapsto> l\<lparr>lkb_ref := lkb_ref l + 1, lkb_timestamp := ktime env, lkb_status := st\<rparr>) \<and>
     ls_rsbs s' = (ls_rsbs s)(r \<mapsto> x') \<and> placed k st x x' \<and> tables s' = tables s"
proof -
  let ?l = "l\<lparr>lkb_ref := lkb_ref l + 1, lkb_timestamp := ktime env, lkb_status := st\<rparr>"
  let ?s = "s\<lparr>ls_lkbidr := (ls_lkbidr s)(k \<mapsto> ?l)\<rparr>"
  have k: "k \<notin> set (res_grantqueue x)" "k \<notin> set (res_convertqueue x)" "k \<notin> set (res_waitqueue x)"
    and d: "distinct (res_grantqueue x)" "distinct (res_convertqueue x)" "distinct (res_waitqueue x)"
    using assms(4,5) by (auto simp: rsb_queues_def)
  consider "st = DLM_LKSTS_GRANTED" | "st = DLM_LKSTS_WAITING" | "st = DLM_LKSTS_CONVERT"
    using assms(7) by auto
  then show ?thesis
  proof cases
    case 1
    have "\<forall>j\<in>set (res_grantqueue x). ls_lkbidr ?s j \<noteq> None" using assms(6) by simp
    from lkb_add_ordered_spec [OF this, of k "lkb_grmode l"]
    obtain n where n: "n \<le> length (res_grantqueue x)"
      "lkb_add_ordered ?s k (res_grantqueue x) (lkb_grmode l) =
         Some (take n (res_grantqueue x) @ k # drop n (res_grantqueue x))" by blast
    have "placed k st x (x\<lparr>res_grantqueue := take n (res_grantqueue x) @ k # drop n (res_grantqueue x)\<rparr>)"
      by (rule placedI [OF assms(4,5) set_take_drop_insert [OF n(1)]
            distinct_take_drop_insert [OF d(1) k(1)]]) (simp add: 1)
    with 1 n assms(1,2,3) show ?thesis
      by (simp add: add_lkb_def kref_get_lkb_def) (intro exI conjI, rule refl, simp_all)
  next
    case 2
    have "placed k st x (x\<lparr>res_waitqueue := q\<rparr>)"
      if "q = k # res_waitqueue x \<or> q = res_waitqueue x @ [k]" for q
      by (rule placedI [OF assms(4,5), of q "res_waitqueue x"]) (use that k d 2 in auto)
    with 2 assms(1,2,3) show ?thesis
      by (auto simp: add_lkb_def kref_get_lkb_def intro!: exI)
  next
    case 3
    have "placed k st x (x\<lparr>res_convertqueue := q\<rparr>)"
      if "q = k # res_convertqueue x \<or> q = res_convertqueue x @ [k]" for q
      by (rule placedI [OF assms(4,5), of q "res_convertqueue x"]) (use that k d 3 in auto)
    with 3 assms(1,2,3) show ?thesis
      by (auto simp: add_lkb_def kref_get_lkb_def intro!: exI)
  qed
qed

lemma placed_unqueue: "distinct (rsb_queues x) \<Longrightarrow> placed k 0 x (unqueue k x)"
  by (auto simp: placed_def unqueue_def rsb_queues_def)

lemma del_lkb_spec:
  assumes "ls_lkbidr s k = Some l" and "2 \<le> lkb_ref l" and "ls_rsbs s r = Some x"
    and "k \<in> set (rsb_queues x)"
  shows "\<exists>s'. del_lkb r k s = Some s' \<and>
     ls_lkbidr s' = (ls_lkbidr s)(k \<mapsto> l\<lparr>lkb_ref := lkb_ref l - 1, lkb_status := 0\<rparr>) \<and>
     ls_rsbs s' = (ls_rsbs s)(r \<mapsto> unqueue k x) \<and> tables s' = tables s"
  using assms by (auto simp: del_lkb_def unhold_lkb_def kref_put_lkb_def)

lemma placed_trans:
  assumes "placed k st x x1" and "placed k st' x1 x2"
  shows "placed k st' x x2"
  using assms by (auto simp: placed_def)

lemma move_lkb_spec:
  assumes "ls_lkbidr s k = Some l" and "2 \<le> lkb_ref l" and "ls_rsbs s r = Some x"
    and "distinct (rsb_queues x)" and "k \<in> set (rsb_queues x)"
    and "\<forall>j\<in>set (res_grantqueue x). ls_lkbidr s j \<noteq> None"
    and "st \<in> {DLM_LKSTS_WAITING, DLM_LKSTS_GRANTED, DLM_LKSTS_CONVERT}"
  shows "\<exists>s' x'. move_lkb env r k st s = Some s' \<and>
     ls_lkbidr s' = (ls_lkbidr s)(k \<mapsto> l\<lparr>lkb_timestamp := ktime env, lkb_status := st\<rparr>) \<and>
     ls_rsbs s' = (ls_rsbs s)(r \<mapsto> x') \<and> placed k st x x' \<and> tables s' = tables s"
proof -
  let ?s1 = "s\<lparr>ls_lkbidr := (ls_lkbidr s)(k \<mapsto> l\<lparr>lkb_ref := lkb_ref l + 1\<rparr>)\<rparr>"
  have h: "hold_lkb k s = Some ?s1"
    using assms(1) by (simp add: hold_lkb_def kref_get_lkb_def)
  obtain s2 where s2: "del_lkb r k ?s1 = Some s2"
    "ls_lkbidr s2 = (ls_lkbidr s)(k \<mapsto> l\<lparr>lkb_status := 0\<rparr>)"
    "ls_rsbs s2 = (ls_rsbs s)(r \<mapsto> unqueue k x)" "tables s2 = tables s"
    using del_lkb_spec [of ?s1 k _ r x] assms(2,3,5) by auto
  have p0: "placed k 0 x (unqueue k x)" using assms(4) by (rule placed_unqueue)
  then have u: "distinct (rsb_queues (unqueue k x))" "k \<notin> set (rsb_queues (unqueue k x))"
    "\<forall>j\<in>set (res_grantqueue (unqueue k x)). ls_lkbidr s2 j \<noteq> None"
    using assms(6) by (auto simp: placed_def rsb_queues_def s2(2))
  have "ls_lkbidr s2 k = Some (l\<lparr>lkb_status := 0\<rparr>)" "ls_rsbs s2 r = Some (unqueue k x)"
    by (simp_all add: s2)
  from add_lkb_spec [OF this(1) _ this(2) u assms(7), of env]
  obtain s3 x3 where s3: "add_lkb env r k st s2 = Some s3"
    "ls_lkbidr s3 = (ls_lkbidr s)(k \<mapsto> l\<lparr>lkb_ref := lkb_ref l + 1, lkb_timestamp := ktime env, lkb_status := st\<rparr>)"
    "ls_rsbs s3 = (ls_rsbs s)(r \<mapsto> x3)" "placed k st (unqueue k x) x3" "tables s3 = tables s"
    by (auto simp: s2(2,3,4))
  have "placed k st x x3" using p0 s3(4) by (rule placed_trans)
  with h s2 s3 assms(2) show ?thesis
    by (auto simp: move_lkb_def unhold_lkb_def kref_put_lkb_def intro!: exI [of _ x3])
qed

end
