(* ===== verification/Granting.thy ===== *)
theory Granting
  imports Queues
begin

text \<open>
  When a lock is granted, and that granting keeps the invariant. \<open>grant_rule\<close> states the rule
  of \<open>_can_be_granted\<close> declaratively: a lock is granted when no other holder is
  incompatible with its requested mode and the order of the queues allows it.
\<close>

section \<open>The grant rule\<close>

definition conflict :: "dlm_ls \<Rightarrow> lkid list \<Rightarrow> lkid \<Rightarrow> int \<Rightarrow> bool" where
  "conflict s q k m \<longleftrightarrow> (\<exists>j\<in>set q. j \<noteq> k \<and> \<not> compat (gr_mode s j) m)"

definition live_mode :: "dlm_ls \<Rightarrow> lkid \<Rightarrow> bool" where
  "live_mode s j \<longleftrightarrow> (\<exists>l. ls_lkbidr s j = Some l \<and> valid_mode (lkb_grmode l) \<and> valid_mode (lkb_rqmode l))"

lemma live_mode_same: "same s s' \<Longrightarrow> live_mode s j \<Longrightarrow> live_mode s' j"
  unfolding live_mode_def using same_lkb lkb_coreD(4,5) by metis

lemma queue_conflict_spec:
  assumes "\<forall>j\<in>set q. live_mode s j" and "ls_lkbidr s k = Some l" and "valid_mode (lkb_rqmode l)"
  shows "queue_conflict s q k = Some (conflict s q k (lkb_rqmode l))"
  using assms(1)
proof (induction q)
  case Nil
  then show ?case by (simp add: conflict_def)
next
  case (Cons j q)
  show ?case
  proof (cases "j = k")
    case True
    with Cons show ?thesis by (auto simp: conflict_def)
  next
    case False
    obtain t where t: "ls_lkbidr s j = Some t" "valid_mode (lkb_grmode t)"
      using Cons.prems by (auto simp: live_mode_def)
    then have "modes_compat t l = Some (compat (gr_mode s j) (lkb_rqmode l))"
      using assms(3) by (simp add: modes_compat_def dlm_modes_compat_valid gr_mode_def)
    with False t Cons assms(2) show ?thesis by (auto simp: conflict_def)
  qed
qed

text \<open>The rule of \<open>_can_be_granted\<close>, for a lock \<open>l\<close> of id \<open>k\<close> on resource \<open>x\<close>.\<close>

definition order_ok :: "dlm_rsb \<Rightarrow> lkid \<Rightarrow> dlm_lkb \<Rightarrow> bool \<Rightarrow> bool \<Rightarrow> bool" where
  "order_ok x k l now recover \<longleftrightarrow>
     (if lkb_grmode l \<noteq> DLM_LOCK_IV then
        recover \<or>
        (if now then has_flag (lkb_exflags l) DLM_LKF_QUECVT \<longrightarrow> res_convertqueue x = []
         else has_flag (lkb_exflags l) DLM_LKF_NOORDER \<or> k = hd (res_convertqueue x))
      else
        has_flag (lkb_exflags l) DLM_LKF_NOORDER \<or>
        res_convertqueue x = [] \<and> (if now then res_waitqueue x = [] else k = hd (res_waitqueue x)))"

definition grant_rule :: "dlm_ls \<Rightarrow> dlm_rsb \<Rightarrow> lkid \<Rightarrow> dlm_lkb \<Rightarrow> bool \<Rightarrow> bool \<Rightarrow> bool" where
  "grant_rule s x k l now recover \<longleftrightarrow>
     has_flag (lkb_exflags l) DLM_LKF_EXPEDITE \<or>
     (\<forall>j\<in>holders x - {k}. compat (gr_mode s j) (lkb_rqmode l)) \<and> order_ok x k l now recover"

lemma conflict_holders:
  "(\<not> conflict s (res_grantqueue x) k m \<and> \<not> conflict s (res_convertqueue x) k m) \<longleftrightarrow>
     (\<forall>j\<in>holders x - {k}. compat (gr_mode s j) m)"
  by (auto simp: conflict_def holders_def)

lemma queues_ok_live:
  assumes "queues_ok s r x" and "j \<in> set (rsb_queues x)"
  shows "live_mode s j"
  using assms by (auto simp: queues_ok_def rsb_queues_def on_queue_def queued_ok_def lkb_wf_def live_mode_def)

text \<open>Where a caller asks again about a lock that waits, the lock is on the queue it asks
  about.\<close>

definition asks_ok :: "dlm_rsb \<Rightarrow> lkid \<Rightarrow> dlm_lkb \<Rightarrow> bool \<Rightarrow> bool" where
  "asks_ok x k l now \<longleftrightarrow> now \<or>
     (if lkb_grmode l \<noteq> DLM_LOCK_IV then k \<in> set (res_convertqueue x) else k \<in> set (res_waitqueue x))"

lemma us_can_be_granted_rule:
  assumes live: "\<forall>j\<in>set (rsb_queues x). live_mode s j" and x: "ls_rsbs s r = Some x"
    and l: "ls_lkbidr s k = Some l" and "valid_mode (lkb_rqmode l)" and ask: "asks_ok x k l now"
  shows "us_can_be_granted r k now recover s = Some (grant_rule s x k l now recover)"
proof -
  have g: "queue_conflict s (res_grantqueue x) k = Some (conflict s (res_grantqueue x) k (lkb_rqmode l))"
    and c: "queue_conflict s (res_convertqueue x) k = Some (conflict s (res_convertqueue x) k (lkb_rqmode l))"
    using live by (intro queue_conflict_spec [OF _ l assms(4)]; simp add: rsb_queues_def)+
  have fc: "first_in_list k (res_convertqueue x) = Some (k = hd (res_convertqueue x))"
    if "res_convertqueue x \<noteq> []"
    using that by (cases "res_convertqueue x") (auto simp: first_in_list_def)
  have fw: "first_in_list k (res_waitqueue x) = Some (k = hd (res_waitqueue x))"
    if "res_waitqueue x \<noteq> []"
    using that by (cases "res_waitqueue x") (auto simp: first_in_list_def)
  have ne: "\<not> now \<Longrightarrow> lkb_grmode l \<noteq> DLM_LOCK_IV \<Longrightarrow> res_convertqueue x \<noteq> []"
    "\<not> now \<Longrightarrow> lkb_grmode l = DLM_LOCK_IV \<Longrightarrow> res_waitqueue x \<noteq> []"
    using ask by (auto simp: asks_ok_def)
  show ?thesis
    unfolding grant_rule_def conflict_holders [symmetric] order_ok_def us_can_be_granted_def
    using g c fc fw ne by (auto simp: l x Let_def)
qed

section \<open>Granting with conversion deadlocks and alternate modes\<close>

lemma deadlock_scan_defined:
  assumes "\<forall>j\<in>set q. live_mode s j" and "live_mode s k"
  shows "deadlock_scan s q k ahead \<noteq> None"
  using assms(1)
proof (induction q arbitrary: ahead)
  case Nil
  then show ?case by simp
next
  case (Cons j q)
  obtain l where l: "ls_lkbidr s k = Some l" "valid_mode (lkb_grmode l)" "valid_mode (lkb_rqmode l)"
    using assms(2) by (auto simp: live_mode_def)
  obtain t where t: "ls_lkbidr s j = Some t" "valid_mode (lkb_grmode t)" "valid_mode (lkb_rqmode t)"
    using Cons.prems by (auto simp: live_mode_def)
  from Cons l t show ?case
    by (auto simp: modes_compat_def dlm_modes_compat_valid)
qed

text \<open>What one lock may become while it is decided whether it is granted: demoted, or asking
  for its alternate mode. The lock's place does not change.\<close>

definition retuned :: "dlm_lkb \<Rightarrow> dlm_lkb \<Rightarrow> bool" where
  "retuned l l' \<longleftrightarrow>
     lkb_core l' = lkb_core (l\<lparr>lkb_grmode := lkb_grmode l', lkb_rqmode := lkb_rqmode l'\<rparr>) \<and>
     (lkb_grmode l' = lkb_grmode l \<or>
        lkb_grmode l \<noteq> DLM_LOCK_IV \<and> lkb_grmode l' = DLM_LOCK_NL \<and> lkb_rqmode l' = lkb_rqmode l) \<and>
     (lkb_rqmode l' = lkb_rqmode l \<or> \<not> has_flag (lkb_exflags l) DLM_LKF_EXPEDITE \<and>
       (has_flag (lkb_exflags l) DLM_LKF_ALTPR \<and> lkb_rqmode l' = DLM_LOCK_PR \<or>
        has_flag (lkb_exflags l) DLM_LKF_ALTCW \<and> lkb_rqmode l' = DLM_LOCK_CW))"

lemma retuned_same: "lkb_core l' = lkb_core l \<Longrightarrow> retuned l l'"
  by (simp add: retuned_def lkb_core_def is_master_copy_def iflag_def)

lemma retunedD:
  assumes "retuned l l'"
  shows "lkb_resource l' = lkb_resource l" "lkb_ref l' = lkb_ref l" "lkb_status l' = lkb_status l"
    "lkb_exflags l' = lkb_exflags l" "is_master_copy l' = is_master_copy l" "lkb_lksb l' = lkb_lksb l"
  using assms by (simp_all add: retuned_def lkb_core_def is_master_copy_def iflag_def)

text \<open>What \<open>can_be_granted\<close> promises its callers about lock \<open>k\<close>.\<close>

definition decided :: "dlm_ls \<Rightarrow> dlm_rsb \<Rightarrow> lkid \<Rightarrow> dlm_lkb \<Rightarrow> bool \<times> int \<times> dlm_ls \<Rightarrow> bool" where
  "decided s x k l res \<longleftrightarrow> (case res of (rv, err, s') \<Rightarrow>
     (\<exists>l'. s' = s\<lparr>ls_lkbidr := (ls_lkbidr s)(k \<mapsto> l')\<rparr> \<and> retuned l l' \<and>
        (rv \<longrightarrow> lkb_grmode l' = lkb_grmode l \<and>
           (has_flag (lkb_exflags l) DLM_LKF_EXPEDITE \<and> lkb_rqmode l' = lkb_rqmode l \<or>
            (\<forall>j\<in>holders x - {k}. compat (gr_mode s j) (lkb_rqmode l')))) \<and>
        (\<not> rv \<longrightarrow> lkb_rqmode l' = lkb_rqmode l) \<and>
        (err \<noteq> 0 \<longrightarrow> \<not> rv \<and> lkb_grmode l' = lkb_grmode l)))"

lemma compat_lkb_updates [simp]:
  "lkb_core (l\<lparr>lkb_rqmode := m, lkb_sbflags := f\<rparr>) = lkb_core (l\<lparr>lkb_rqmode := m\<rparr>)"
  "lkb_core (l\<lparr>lkb_grmode := m, lkb_sbflags := f\<rparr>) = lkb_core (l\<lparr>lkb_grmode := m\<rparr>)"
  by (simp_all add: lkb_core_def is_master_copy_def iflag_def)

lemma gr_mode_other: "j \<noteq> k \<Longrightarrow> gr_mode (s\<lparr>ls_lkbidr := (ls_lkbidr s)(k \<mapsto> l')\<rparr>) j = gr_mode s j"
  by (simp add: gr_mode_def)

lemma live_mode_upd:
  assumes "live_mode s j" and "ls_lkbidr s k = Some l"
    and "j = k \<Longrightarrow> valid_mode (lkb_grmode l') \<and> valid_mode (lkb_rqmode l')"
  shows "live_mode (s\<lparr>ls_lkbidr := (ls_lkbidr s)(k \<mapsto> l')\<rparr>) j"
  using assms by (auto simp: live_mode_def)

lemma alt_mode_cases:
  "alt_mode l = 0 \<or>
   has_flag (lkb_exflags l) DLM_LKF_ALTPR \<and> alt_mode l = DLM_LOCK_PR \<or>
   has_flag (lkb_exflags l) DLM_LKF_ALTCW \<and> alt_mode l = DLM_LOCK_CW"
  by (auto simp: alt_mode_def)

lemma try_alt_mode_decides:
  assumes live: "\<forall>j\<in>set (rsb_queues x). live_mode s j" and x: "ls_rsbs s r = Some x"
    and l: "ls_lkbidr s k = Some l" and wf: "lkb_wf l" and ask: "asks_ok x k l now"
    and ex: "\<not> has_flag (lkb_exflags l) DLM_LKF_EXPEDITE"
  shows "\<exists>rv s'. try_alt_mode r k now s = Some (rv, s') \<and> decided s x k l (rv, 0, s')"
proof (cases "alt_mode l = 0")
  case True
  have "s\<lparr>ls_lkbidr := (ls_lkbidr s)(k \<mapsto> l)\<rparr> = s" using l by (simp add: fun_upd_idem)
  then have "decided s x k l (False, 0, s)"
    by (auto simp: decided_def retuned_same intro!: exI [of _ l])
  moreover have "try_alt_mode r k now s = Some (False, s)" using True l by (simp add: try_alt_mode_def)
  ultimately show ?thesis by blast
next
  case False
  let ?l1 = "l\<lparr>lkb_rqmode := alt_mode l\<rparr>"
  let ?s1 = "s\<lparr>ls_lkbidr := (ls_lkbidr s)(k \<mapsto> ?l1)\<rparr>"
  have alt: "valid_mode (alt_mode l)" using alt_mode_cases [of l] by auto
  have live1: "\<forall>j\<in>set (rsb_queues x). live_mode ?s1 j"
    using live l wf alt by (auto intro!: live_mode_upd simp: lkb_wf_def)
  have rule: "us_can_be_granted r k now False ?s1 = Some (grant_rule ?s1 x k ?l1 now False)"
    by (rule us_can_be_granted_rule [OF live1]) (use x alt ask in \<open>simp_all add: asks_ok_def\<close>)
  have gr: "grant_rule ?s1 x k ?l1 now False \<Longrightarrow>
      \<forall>j\<in>holders x - {k}. compat (gr_mode s j) (alt_mode l)"
    using ex by (auto simp: grant_rule_def gr_mode_other)
  let ?l2 = "if grant_rule ?s1 x k ?l1 now False
    then ?l1\<lparr>lkb_sbflags := set_bit DLM_SBF_ALTMODE_BIT (lkb_sbflags l)\<rparr> else l"
  have res: "try_alt_mode r k now s = Some (grant_rule ?s1 x k ?l1 now False,
      s\<lparr>ls_lkbidr := (ls_lkbidr s)(k \<mapsto> ?l2)\<rparr>)"
    using False l rule by (simp add: try_alt_mode_def)
  have "retuned l ?l2"
    using alt_mode_cases [of l] False ex by (auto simp: retuned_def)
  then have "decided s x k l (grant_rule ?s1 x k ?l1 now False,
      0, s\<lparr>ls_lkbidr := (ls_lkbidr s)(k \<mapsto> ?l2)\<rparr>)"
    using gr by (auto simp: decided_def intro!: exI [of _ ?l2])
  with res show ?thesis by blast
qed

lemma can_be_granted_decides:
  assumes ok: "queues_ok s r x" and x: "ls_rsbs s r = Some x"
    and l: "ls_lkbidr s k = Some l" and wf: "lkb_wf l" and ask: "asks_ok x k l now"
  shows "\<exists>res. can_be_granted r k now recover want_err s = Some res \<and> decided s x k l res"
proof -
  have live: "\<forall>j\<in>set (rsb_queues x). live_mode s j" using queues_ok_live [OF ok] by blast
  have lk: "live_mode s k" using l wf by (auto simp: live_mode_def lkb_wf_def)
  have rule: "us_can_be_granted r k now recover s = Some (grant_rule s x k l now recover)"
    by (rule us_can_be_granted_rule [OF live x l _ ask]) (use wf in \<open>simp add: lkb_wf_def\<close>)
  have id: "s\<lparr>ls_lkbidr := (ls_lkbidr s)(k \<mapsto> l)\<rparr> = s" using l by (simp add: fun_upd_idem)
  show ?thesis
  proof (cases "grant_rule s x k l now recover")
    case True
    then have "decided s x k l (True, 0, s)"
      by (auto simp: decided_def retuned_same grant_rule_def id intro!: exI [of _ l])
    with True l rule show ?thesis by (simp add: can_be_granted_def)
  next
    case False
    then have ex: "\<not> has_flag (lkb_exflags l) DLM_LKF_EXPEDITE" by (simp add: grant_rule_def)
    obtain d where d: "(if lkb_grmode l \<noteq> DLM_LOCK_IV \<and> can_be_queued l
        then conversion_deadlock_detect r k s else Some False) = Some d"
      "d \<Longrightarrow> lkb_grmode l \<noteq> DLM_LOCK_IV"
    proof (cases "lkb_grmode l \<noteq> DLM_LOCK_IV \<and> can_be_queued l")
      case True
      have "conversion_deadlock_detect r k s \<noteq> None"
        unfolding conversion_deadlock_detect_def using x live lk
        by (simp add: deadlock_scan_defined rsb_queues_def)
      with True that show ?thesis by auto
    next
      case False
      then show ?thesis by (intro that [of False]) auto
    qed
    obtain rv s' where alt: "try_alt_mode r k now s = Some (rv, s')" "decided s x k l (rv, 0, s')"
      using try_alt_mode_decides [OF live x l wf ask ex] by blast
    let ?l1 = "l\<lparr>lkb_grmode := DLM_LOCK_NL, lkb_sbflags := set_bit DLM_SBF_DEMOTED_BIT (lkb_sbflags l)\<rparr>"
    have dem: "decided s x k l (False, 0, s\<lparr>ls_lkbidr := (ls_lkbidr s)(k \<mapsto> ?l1)\<rparr>)" if d
      using d(2) [OF that] by (auto simp: decided_def retuned_def intro!: exI [of _ ?l1])
    have err: "decided s x k l (False, e, s)" for e
      by (auto simp: decided_def retuned_same id intro!: exI [of _ l])
    show ?thesis
      using False d(1) alt dem err l rule
      by (cases d) (auto simp: can_be_granted_def)
  qed
qed

lemma can_be_granted_refused:
  assumes ok: "queues_ok s r x" and x: "ls_rsbs s r = Some x"
    and l: "ls_lkbidr s k = Some l" and wf: "lkb_wf l" and ask: "asks_ok x k l now"
    and no: "can_be_granted r k now recover want_err s = Some (False, err, s')"
  shows "\<not> grant_rule s x k l now recover"
proof
  assume g: "grant_rule s x k l now recover"
  have live: "\<forall>j\<in>set (rsb_queues x). live_mode s j" using queues_ok_live [OF ok] by blast
  have "us_can_be_granted r k now recover s = Some (grant_rule s x k l now recover)"
    by (rule us_can_be_granted_rule [OF live x l _ ask]) (use wf in \<open>simp add: lkb_wf_def\<close>)
  with g l no show False by (simp add: can_be_granted_def)
qed

section \<open>Deciding keeps the invariant\<close>

text \<open>Lock \<open>k\<close> of resource \<open>r\<close>, queued or about to be.\<close>

definition member :: "dlm_ls \<Rightarrow> rsbp \<Rightarrow> lkid \<Rightarrow> dlm_lkb \<Rightarrow> bool" where
  "member s r k l \<longleftrightarrow> ls_lkbidr s k = Some l \<and> lkb_resource l = Some r \<and> lkb_wf l \<and> 1 \<le> lkb_ref l \<and>
     (lkb_status l = 0 \<longrightarrow> lkb_grmode l = DLM_LOCK_IV)"

lemma member_queued:
  assumes "master_ok s r" and "member s r k l" and "lkb_status l \<noteq> 0"
  shows "queued_ok r (lkb_status l) l \<and>
    lkb_status l \<in> {DLM_LKSTS_WAITING, DLM_LKSTS_GRANTED, DLM_LKSTS_CONVERT}"
proof -
  obtain x where "queues_ok s r x" using assms(1) by (auto simp: master_ok_def)
  with assms(2,3) show ?thesis unfolding member_def by (intro queued_lkb) auto
qed

lemma compat_null: "valid_mode m \<Longrightarrow> compat m DLM_LOCK_NL"
  by (rule modes.comp_null)

lemma holders_valid:
  assumes "modes.consistent (gr_mode s) (holders x)" and "j \<in> holders x"
  shows "valid_mode (gr_mode s j)"
  using assms by (simp add: modes.consistent_def)

lemma retuned_modes:
  assumes "retuned l l'"
  shows "lkb_grmode l' = lkb_grmode l \<or>
      lkb_grmode l \<noteq> DLM_LOCK_IV \<and> lkb_grmode l' = DLM_LOCK_NL \<and> lkb_rqmode l' = lkb_rqmode l"
    and "lkb_rqmode l' = lkb_rqmode l \<or> \<not> has_flag (lkb_exflags l) DLM_LKF_EXPEDITE \<and>
       (has_flag (lkb_exflags l) DLM_LKF_ALTPR \<and> lkb_rqmode l' = DLM_LOCK_PR \<or>
        has_flag (lkb_exflags l) DLM_LKF_ALTCW \<and> lkb_rqmode l' = DLM_LOCK_CW)"
  using assms unfolding retuned_def by blast+

lemma retuned_wf:
  assumes "retuned l l'" and "lkb_wf l"
  shows "lkb_wf l'"
  using retuned_modes [OF assms(1)] assms(2)
  by (elim disjE) (auto simp: lkb_wf_def retunedD [OF assms(1)])

lemma retuned_queued:
  assumes q: "queued_ok r st l" and re: "retuned l l'"
  shows "queued_ok r st l'"
proof -
  have "lkb_wf l'" using q retuned_wf [OF re] by (simp add: queued_ok_def)
  moreover have "modes_ok st l'"
    using q retuned_modes [OF re]
    by (elim disjE) (auto simp: queued_ok_def modes_ok_def alt_safe_def retunedD [OF re])
  ultimately show ?thesis using q by (simp add: queued_ok_def retunedD [OF re])
qed

lemma decided_keeps:
  assumes ok: "master_ok s r" and x: "ls_rsbs s r = Some x" and m: "member s r k l"
    and d: "decided s x k l (rv, err, s')"
  shows "master_ok s' r \<and> only r {k} s s' \<and> ls_rsbs s' r = Some x \<and>
    (\<exists>l'. member s' r k l' \<and> retuned l l' \<and> lkb_status l' = lkb_status l \<and>
       (\<forall>j. j \<noteq> k \<longrightarrow> gr_mode s' j = gr_mode s j \<and> ls_lkbidr s' j = ls_lkbidr s j) \<and>
       (rv \<longrightarrow> lkb_grmode l' = lkb_grmode l \<and> (\<forall>j\<in>holders x - {k}. compat (gr_mode s j) (lkb_rqmode l'))))"
proof -
  have qs: "queues_ok s r x" and con: "modes.consistent (gr_mode s) (holders x)"
    using ok x by (auto simp: master_ok_def)
  have l: "ls_lkbidr s k = Some l" "lkb_resource l = Some r" "lkb_wf l"
    using m by (auto simp: member_def)
  obtain l' where s': "s' = s\<lparr>ls_lkbidr := (ls_lkbidr s)(k \<mapsto> l')\<rparr>" and re: "retuned l l'"
    and yes: "rv \<Longrightarrow> lkb_grmode l' = lkb_grmode l \<and>
      (has_flag (lkb_exflags l) DLM_LKF_EXPEDITE \<and> lkb_rqmode l' = lkb_rqmode l \<or>
       (\<forall>j\<in>holders x - {k}. compat (gr_mode s j) (lkb_rqmode l')))"
    using d by (auto simp: decided_def)
  note same_fields = retunedD [OF re]
  have here: "placed k (lkb_status l) x x" by (rule placed_here [OF qs l(1,2)])
  have lkbs: "ls_lkbidr s' = (ls_lkbidr s)(k \<mapsto> l')" and rsbs: "ls_rsbs s' = ls_rsbs s"
    by (simp_all add: s')
  have valid: "\<forall>j\<in>holders x. valid_mode (gr_mode s j)" using holders_valid [OF con] by blast
  have gr: "\<forall>j\<in>holders x - {k}. compat (gr_mode s j) (lkb_grmode l')"
    if "lkb_status l \<in> {DLM_LKSTS_GRANTED, DLM_LKSTS_CONVERT}"
  proof -
    have "k \<in> holders x" using that queue_status [OF qs l(1)] l(2) by (auto simp: holders_def)
    then have cg: "\<forall>j\<in>holders x - {k}. compat (gr_mode s j) (lkb_grmode l)"
      using modes.consistentD [OF con, of _ k] l(1) by (auto simp: gr_mode_def [of s k])
    from retuned_modes(1) [OF re] consider "lkb_grmode l' = lkb_grmode l" | "lkb_grmode l' = DLM_LOCK_NL"
      by blast
    then show ?thesis
      using cg valid compat_null by cases auto
  qed
  have q': "lkb_status l \<in> {DLM_LKSTS_WAITING, DLM_LKSTS_GRANTED, DLM_LKSTS_CONVERT} \<and>
      queued_ok r (lkb_status l) l' \<or> lkb_status l = 0 \<and> lkb_status l' = 0"
    using member_queued [OF ok m] retuned_queued [OF _ re] by (auto simp: same_fields)
  have "master_ok s' r"
    by (rule master_ok_placed [OF ok x lkbs _ here q']) (use gr x rsbs in auto)
  moreover have "only r {k} s s'"
    by (rule only_update [where k = k and l = l and l' = l' and x = x and x' = x and st = "lkb_status l"])
      (use l x lkbs rsbs here in \<open>simp_all add: fun_upd_idem same_fields s'\<close>)
  moreover have "member s' r k l'"
    using m retuned_wf [OF re] retuned_modes(1) [OF re] by (auto simp: member_def lkbs same_fields)
  moreover have "\<forall>j\<in>holders x - {k}. compat (gr_mode s j) (lkb_rqmode l')" if rv
  proof (cases "has_flag (lkb_exflags l) DLM_LKF_EXPEDITE \<and> lkb_rqmode l' = lkb_rqmode l")
    case True
    with l(3) have "lkb_rqmode l' = DLM_LOCK_IV \<or> lkb_rqmode l' = DLM_LOCK_NL"
      by (auto simp: lkb_wf_def valid_mode_def)
    with valid show ?thesis using compat_null modes.comp_none by auto
  next
    case False
    with yes [OF that] show ?thesis by auto
  qed
  ultimately show ?thesis
    using re yes x rsbs by (auto simp: s' gr_mode_other same_fields intro!: exI [of _ l'])
qed

section \<open>Granting keeps the invariant\<close>

definition granted :: "rsbp \<Rightarrow> lkid \<Rightarrow> dlm_lkb \<Rightarrow> dlm_rsb \<Rightarrow> dlm_ls \<Rightarrow> dlm_ls \<Rightarrow> bool" where
  "granted r k l x s s' \<longleftrightarrow> master_ok s' r \<and> only r {k} s s' \<and>
     (\<exists>l'. member s' r k l' \<and> lkb_status l' = DLM_LKSTS_GRANTED \<and>
        lkb_grmode l' = lkb_rqmode l \<and> lkb_rqmode l' = DLM_LOCK_IV \<and>
        lkb_ref l' = lkb_ref l + (if lkb_status l = 0 then 1 else 0) \<and>
        lkb_exflags l' = lkb_exflags l \<and> is_master_copy l' = is_master_copy l) \<and>
     (\<exists>x'. ls_rsbs s' r = Some x' \<and>
        set (res_grantqueue x') = insert k (set (res_grantqueue x)) \<and>
        set (res_convertqueue x') = set (res_convertqueue x) - {k} \<and>
        set (res_waitqueue x') = set (res_waitqueue x) - {k})"

lemma member_core:
  assumes "member s r k l" and "ls_lkbidr s' k = Some l'" and "lkb_core l' = lkb_core l"
  shows "member s' r k l'"
  using assms(1,2) lkb_wf_core [OF assms(3)] lkb_coreD [OF assms(3)] by (simp add: member_def)

lemma granted_same:
  assumes g: "granted r k l x s s1" and same: "same s1 s2"
  shows "granted r k l x s s2"
proof -
  obtain l1 where l1: "member s1 r k l1" "lkb_status l1 = DLM_LKSTS_GRANTED"
    "lkb_grmode l1 = lkb_rqmode l" "lkb_rqmode l1 = DLM_LOCK_IV"
    "lkb_ref l1 = lkb_ref l + (if lkb_status l = 0 then 1 else 0)"
    "lkb_exflags l1 = lkb_exflags l" "is_master_copy l1 = is_master_copy l"
    using g by (auto simp: granted_def)
  obtain x1 where x1: "ls_rsbs s1 r = Some x1"
    "set (res_grantqueue x1) = insert k (set (res_grantqueue x))"
    "set (res_convertqueue x1) = set (res_convertqueue x) - {k}"
    "set (res_waitqueue x1) = set (res_waitqueue x) - {k}"
    using g by (auto simp: granted_def)
  have "ls_lkbidr s1 k = Some l1" using l1(1) by (simp add: member_def)
  then obtain l2 where l2: "ls_lkbidr s2 k = Some l2" "lkb_core l2 = lkb_core l1"
    using same_lkb [OF same] by blast
  obtain x2 where x2: "ls_rsbs s2 r = Some x2" "rsb_core x2 = rsb_core x1"
    using same_rsb [OF same x1(1)] by blast
  have m: "master_ok s1 r" "only r {k} s s1" using g by (auto simp: granted_def)
  have "member s2 r k l2" by (rule member_core [OF l1(1) l2])
  then have "\<exists>l'. member s2 r k l' \<and> lkb_status l' = DLM_LKSTS_GRANTED \<and>
      lkb_grmode l' = lkb_rqmode l \<and> lkb_rqmode l' = DLM_LOCK_IV \<and>
      lkb_ref l' = lkb_ref l + (if lkb_status l = 0 then 1 else 0) \<and>
      lkb_exflags l' = lkb_exflags l \<and> is_master_copy l' = is_master_copy l"
    using l1 lkb_coreD [OF l2(2)] by auto
  moreover have "\<exists>x'. ls_rsbs s2 r = Some x' \<and>
      set (res_grantqueue x') = insert k (set (res_grantqueue x)) \<and>
      set (res_convertqueue x') = set (res_convertqueue x) - {k} \<and>
      set (res_waitqueue x') = set (res_waitqueue x) - {k}"
    using x1 x2(1) rsb_coreD [OF x2(2)] by auto
  moreover have "only r {k} s s2" using only_trans [OF m(2) only_same [OF same]] .
  ultimately show ?thesis
    using master_ok_same [OF same m(1)] unfolding granted_def by blast
qed

lemma us_grant_lock_grants:
  assumes ok: "master_ok s r" and x: "ls_rsbs s r = Some x" and m: "member s r k l"
    and rq: "lkb_rqmode l \<noteq> DLM_LOCK_IV"
    and compat: "\<forall>j\<in>holders x - {k}. compat (gr_mode s j) (lkb_rqmode l)"
  shows "\<exists>s'. us_grant_lock env r k s = Some s' \<and> granted r k l x s s'"
proof -
  have qs: "queues_ok s r x" using ok x by (auto simp: master_ok_def)
  have l: "ls_lkbidr s k = Some l" "lkb_resource l = Some r" "lkb_wf l" "1 \<le> lkb_ref l"
    using m by (auto simp: member_def)
  define l1 where "l1 = (if lkb_grmode l \<noteq> lkb_rqmode l then l\<lparr>lkb_grmode := lkb_rqmode l\<rparr> else l)"
  have here: "placed k (lkb_status l) x x" by (rule placed_here [OF qs l(1,2)])
  have dist: "distinct (rsb_queues x)" using qs by (simp add: queues_ok_def)
  have live: "\<forall>j\<in>set (res_grantqueue x). ls_lkbidr s j \<noteq> None"
    using qs by (auto simp: queues_ok_def on_queue_def)
  have pos: "lkb_status l = 0 \<and> k \<notin> set (rsb_queues x) \<and> lkb_grmode l \<noteq> lkb_rqmode l \<or>
      lkb_status l \<noteq> 0 \<and> k \<in> set (rsb_queues x) \<and> 2 \<le> lkb_ref l \<and>
      (lkb_grmode l = lkb_rqmode l \<longrightarrow> lkb_status l = DLM_LKSTS_GRANTED)"
  proof (cases "lkb_status l = 0")
    case True
    with m rq queue_status [OF qs l(1)] show ?thesis by (auto simp: member_def rsb_queues_def)
  next
    case False
    with member_queued [OF ok m False] queue_status [OF qs l(1)] rq l(2) show ?thesis
      by (auto simp: queued_ok_def modes_ok_def rsb_queues_def)
  qed
  define lf where "lf = (\<lambda>ref t. l\<lparr>lkb_grmode := lkb_rqmode l, lkb_ref := ref, lkb_timestamp := t,
    lkb_status := DLM_LKSTS_GRANTED, lkb_rqmode := DLM_LOCK_IV, lkb_highbast := 0\<rparr>)"
  have "\<exists>s' x' t. us_grant_lock env r k s = Some s' \<and>
     ls_lkbidr s' = (ls_lkbidr s)(k \<mapsto> lf (lkb_ref l + (if lkb_status l = 0 then 1 else 0)) t) \<and>
     ls_rsbs s' = (ls_rsbs s)(r \<mapsto> x') \<and> placed k DLM_LKSTS_GRANTED x x' \<and> tables s' = tables s"
  proof (cases "lkb_grmode l = lkb_rqmode l")
    case True
    with pos have st: "lkb_status l = DLM_LKSTS_GRANTED" by auto
    have "us_grant_lock env r k s =
      Some (s\<lparr>ls_lkbidr := (ls_lkbidr s)(k \<mapsto> l\<lparr>lkb_rqmode := DLM_LOCK_IV, lkb_highbast := 0\<rparr>)\<rparr>)"
      using True l(1) by (simp add: us_grant_lock_def)
    moreover have "l\<lparr>lkb_rqmode := DLM_LOCK_IV, lkb_highbast := 0\<rparr> =
        lf (lkb_ref l + (if lkb_status l = 0 then 1 else 0)) (lkb_timestamp l)"
      using True st by (simp add: lf_def)
    moreover have "(ls_rsbs s)(r \<mapsto> x) = ls_rsbs s" using x by (simp add: fun_upd_idem)
    ultimately show ?thesis
      using here st by (intro exI [of _ x] exI [of _ "lkb_timestamp l"] exI) auto
  next
    case False
    let ?s1 = "s\<lparr>ls_lkbidr := (ls_lkbidr s)(k \<mapsto> l\<lparr>lkb_grmode := lkb_rqmode l\<rparr>)\<rparr>"
    have live1: "\<forall>j\<in>set (res_grantqueue x). ls_lkbidr ?s1 j \<noteq> None" using live by simp
    show ?thesis
    proof (cases "lkb_status l = 0")
      case True
      with pos have "k \<notin> set (rsb_queues x)" by auto
      from add_lkb_spec [of ?s1 k "l\<lparr>lkb_grmode := lkb_rqmode l\<rparr>" r x DLM_LKSTS_GRANTED env]
        True x dist this live1 False l(1) show ?thesis
        by (auto simp: us_grant_lock_def lf_def intro!: exI [of _ "ktime env"])
    next
      case nz: False
      with pos have "k \<in> set (rsb_queues x)" "2 \<le> lkb_ref l" by auto
      from move_lkb_spec [of ?s1 k "l\<lparr>lkb_grmode := lkb_rqmode l\<rparr>" r x DLM_LKSTS_GRANTED env]
        nz x dist this live1 False l(1) show ?thesis
        by (auto simp: us_grant_lock_def lf_def intro!: exI [of _ "ktime env"])
    qed
  qed
  then obtain s' x' t where s': "us_grant_lock env r k s = Some s'"
    "ls_lkbidr s' = (ls_lkbidr s)(k \<mapsto> lf (lkb_ref l + (if lkb_status l = 0 then 1 else 0)) t)"
    "ls_rsbs s' = (ls_rsbs s)(r \<mapsto> x')" "placed k DLM_LKSTS_GRANTED x x'" "tables s' = tables s" by blast
  let ?l' = "lf (lkb_ref l + (if lkb_status l = 0 then 1 else 0)) t"
  have ref: "2 \<le> lkb_ref ?l'" using pos l(4) by (auto simp: lf_def)
  have wf: "lkb_wf ?l'" using l(3) by (auto simp: lkb_wf_def lf_def is_master_copy_def iflag_def)
  have q': "queued_ok r DLM_LKSTS_GRANTED ?l'"
    using ref wf l(2) rq by (auto simp: queued_ok_def modes_ok_def) (auto simp: lf_def)
  have "master_ok s' r"
    by (rule master_ok_placed [OF ok x s'(2) _ s'(4)]) (use q' compat s'(3) in \<open>auto simp: lf_def\<close>)
  moreover have "only r {k} s s'"
    by (rule only_update [OF l(1,2) _ x s'(2) _ s'(3,4,5)]) (use l(2) in \<open>auto simp: lf_def\<close>)
  moreover have "member s' r k ?l'"
    using q' s'(2) ref by (auto simp: member_def queued_ok_def)
  moreover have "is_master_copy ?l' = is_master_copy l" by (simp add: lf_def is_master_copy_def iflag_def)
  ultimately have "granted r k l x s s'"
    using s'(3,4) unfolding granted_def placed_def
    by (intro conjI exI [of _ ?l'] exI [of _ x']) (auto simp: lf_def)
  with s'(1) show ?thesis by blast
qed

end
