(* ===== verification/Pending.thy ===== *)
theory Pending
  imports Granting
begin

text \<open>
  Granting what waits. One pass over the convert or the wait queue keeps the invariant and
  does not crash; the restart loop of \<open>grant_pending_convert\<close> ends, because every restart but
  one follows a grant, which takes a lock off the convert queue.
\<close>

section \<open>Granting one lock\<close>

lemma member_same:
  assumes "same s s'" and "member s r k l"
  obtains l' where "member s' r k l'" "lkb_core l' = lkb_core l"
proof -
  have "ls_lkbidr s k = Some l" using assms(2) by (simp add: member_def)
  then obtain l' where "ls_lkbidr s' k = Some l'" "lkb_core l' = lkb_core l"
    using same_lkb [OF assms(1)] by blast
  with member_core [OF assms(2)] show ?thesis by (auto intro: that)
qed

lemma granted_from_same:
  assumes same: "same s s1" and l1: "lkb_core l1 = lkb_core l" and x1: "rsb_core x1 = rsb_core x"
    and g: "granted r k l1 x1 s1 s'"
  shows "granted r k l x s s'"
proof -
  have "only r {k} s s'"
    using g only_trans [OF only_same [OF same]] by (auto simp: granted_def)
  with g show ?thesis
    by (simp add: granted_def lkb_coreD [OF l1] rsb_coreD [OF x1])
qed

lemma grant_lock_grants:
  assumes ok: "master_ok s r" and x: "ls_rsbs s r = Some x" and m: "member s r k l"
    and rq: "lkb_rqmode l \<noteq> DLM_LOCK_IV"
    and compat: "\<forall>j\<in>holders x - {k}. compat (gr_mode s j) (lkb_rqmode l)"
  shows "\<exists>s'. grant_lock env r k s = Some s' \<and> granted r k l x s s'"
proof -
  have "keeps s (set_lvb_lock env r k s)"
    by (rule set_lvb_lock_keeps [OF x]) (use m in \<open>auto simp: member_def lkb_wf_def\<close>)
  then obtain s1 where s1: "set_lvb_lock env r k s = Some s1" "same s s1" by (rule keepsE)
  obtain l1 where l1: "member s1 r k l1" "lkb_core l1 = lkb_core l" by (rule member_same [OF s1(2) m])
  obtain x1 where x1: "ls_rsbs s1 r = Some x1" "rsb_core x1 = rsb_core x"
    using same_rsb [OF s1(2) x] by blast
  have "\<exists>s'. us_grant_lock env r k s1 = Some s' \<and> granted r k l1 x1 s1 s'"
    by (rule us_grant_lock_grants [OF master_ok_same [OF s1(2) ok] x1(1) l1(1)])
      (use rq compat in \<open>simp_all add: lkb_coreD [OF l1(2)] holders_core [OF x1(2)] gr_mode_same [OF s1(2)]\<close>)
  then obtain s' where "us_grant_lock env r k s1 = Some s'" "granted r k l1 x1 s1 s'" by blast
  with s1 granted_from_same [OF s1(2) l1(2) x1(2)] show ?thesis
    by (auto simp: grant_lock_def)
qed

lemma grantedE:
  assumes "granted r k l x s s'"
  obtains l' x' where "master_ok s' r" "only r {k} s s'" "member s' r k l'"
    "lkb_status l' = DLM_LKSTS_GRANTED" "lkb_grmode l' = lkb_rqmode l" "lkb_rqmode l' = DLM_LOCK_IV"
    "lkb_ref l' = lkb_ref l + (if lkb_status l = 0 then 1 else 0)" "lkb_exflags l' = lkb_exflags l"
    "is_master_copy l' = is_master_copy l" "ls_rsbs s' r = Some x'"
    "set (res_grantqueue x') = insert k (set (res_grantqueue x))"
    "set (res_convertqueue x') = set (res_convertqueue x) - {k}"
    "set (res_waitqueue x') = set (res_waitqueue x) - {k}"
  using assms unfolding granted_def by blast

lemma member_cast:
  assumes "member s r k l"
  shows "keeps s (queue_cast k rv s)"
  by (rule queue_cast_keeps) (use assms in \<open>auto simp: member_def lkb_wf_def\<close>)

lemma grant_lock_pending_grants:
  assumes ok: "master_ok s r" and x: "ls_rsbs s r = Some x" and m: "member s r k l"
    and rq: "lkb_rqmode l \<noteq> DLM_LOCK_IV"
    and compat: "\<forall>j\<in>holders x - {k}. compat (gr_mode s j) (lkb_rqmode l)"
  shows "\<exists>s'. grant_lock_pending env r k s = Some s' \<and> granted r k l x s s'"
proof -
  obtain s1 where s1: "grant_lock env r k s = Some s1" "granted r k l x s s1"
    using grant_lock_grants [OF assms] by blast
  obtain l1 x1 where l1: "member s1 r k l1" and x1: "ls_rsbs s1 r = Some x1"
    using s1(2) by (rule grantedE)
  have l1': "ls_lkbidr s1 k = Some l1" using l1 by (simp add: member_def)
  have "keeps s1 (if is_master_copy l1 then map_option snd (send_grant env r k s1)
      else queue_cast k 0 s1)"
    using send_grant_keeps [OF x1 l1'] member_cast [OF l1] by simp
  then obtain s2 where "(if is_master_copy l1 then map_option snd (send_grant env r k s1)
      else queue_cast k 0 s1) = Some s2" "same s1 s2" by (rule keepsE)
  with s1 l1' granted_same [OF s1(2)] show ?thesis
    by (auto simp: grant_lock_pending_def)
qed

section \<open>One pass over the convert queue\<close>

lemma queue_member:
  assumes ok: "master_ok s r" and x: "ls_rsbs s r = Some x"
    and "k \<in> set (res_grantqueue x) \<and> st = DLM_LKSTS_GRANTED \<or>
         k \<in> set (res_convertqueue x) \<and> st = DLM_LKSTS_CONVERT \<or>
         k \<in> set (res_waitqueue x) \<and> st = DLM_LKSTS_WAITING"
  obtains l where "member s r k l" "queued_ok r st l"
proof -
  have qs: "queues_ok s r x" using ok x by (auto simp: master_ok_def)
  then obtain l where "ls_lkbidr s k = Some l" "queued_ok r st l" "st \<noteq> 0"
    using assms(3) by (auto simp: queues_ok_def dest: on_queueD)
  then have "member s r k l" by (auto simp: member_def queued_ok_def)
  then show ?thesis using \<open>queued_ok r st l\<close> by (rule that)
qed

text \<open>The state after (part of) a pass, compared with the state before.\<close>

definition pass_ok :: "rsbp \<Rightarrow> dlm_rsb \<Rightarrow> dlm_ls \<Rightarrow> dlm_ls \<Rightarrow> bool \<Rightarrow> bool" where
  "pass_ok r x s s' progress \<longleftrightarrow> master_ok s' r \<and>
     only r (set (res_convertqueue x) \<union> set (res_waitqueue x)) s s' \<and>
     (\<exists>x'. ls_rsbs s' r = Some x' \<and> set (res_convertqueue x') \<subseteq> set (res_convertqueue x) \<and>
        set (res_waitqueue x') \<subseteq> set (res_waitqueue x) \<and>
        set (res_grantqueue x) \<subseteq> set (res_grantqueue x') \<and>
        (progress \<longrightarrow> set (res_convertqueue x') \<subset> set (res_convertqueue x)))"

lemma pass_okE:
  assumes "pass_ok r x s s' progress"
  obtains x' where "master_ok s' r" "only r (set (res_convertqueue x) \<union> set (res_waitqueue x)) s s'"
    "ls_rsbs s' r = Some x'" "set (res_convertqueue x') \<subseteq> set (res_convertqueue x)"
    "set (res_waitqueue x') \<subseteq> set (res_waitqueue x)" "set (res_grantqueue x) \<subseteq> set (res_grantqueue x')"
    "progress \<longrightarrow> set (res_convertqueue x') \<subset> set (res_convertqueue x)"
  using assms unfolding pass_ok_def by blast

lemma pass_ok_refl: "master_ok s r \<Longrightarrow> ls_rsbs s r = Some x \<Longrightarrow> pass_ok r x s s False"
  by (simp add: pass_ok_def)

lemma pass_ok_same:
  assumes "master_ok s r" and "ls_rsbs s r = Some x" and "same s s'"
  shows "pass_ok r x s s' False"
proof -
  obtain x' where "ls_rsbs s' r = Some x'" "rsb_core x' = rsb_core x"
    using same_rsb [OF assms(3,2)] by blast
  then show ?thesis
    using master_ok_same [OF assms(3,1)] only_same [OF assms(3)] rsb_coreD [of x' x]
    by (auto simp: pass_ok_def)
qed

lemma pass_ok_trans:
  assumes "pass_ok r x s s1 p1" and "ls_rsbs s1 r = Some x1" and "pass_ok r x1 s1 s2 p2"
  shows "pass_ok r x s s2 (p1 \<or> p2)"
proof -
  have 1: "only r (set (res_convertqueue x) \<union> set (res_waitqueue x)) s s1"
    "set (res_convertqueue x1) \<subseteq> set (res_convertqueue x)" "set (res_waitqueue x1) \<subseteq> set (res_waitqueue x)"
    "set (res_grantqueue x) \<subseteq> set (res_grantqueue x1)"
    "p1 \<longrightarrow> set (res_convertqueue x1) \<subset> set (res_convertqueue x)"
    using assms(1,2) by (auto elim!: pass_okE)
  obtain x2 where 2: "master_ok s2 r" "only r (set (res_convertqueue x1) \<union> set (res_waitqueue x1)) s1 s2"
    "ls_rsbs s2 r = Some x2" "set (res_convertqueue x2) \<subseteq> set (res_convertqueue x1)"
    "set (res_waitqueue x2) \<subseteq> set (res_waitqueue x1)" "set (res_grantqueue x1) \<subseteq> set (res_grantqueue x2)"
    "p2 \<longrightarrow> set (res_convertqueue x2) \<subset> set (res_convertqueue x1)"
    by (rule pass_okE [OF assms(3)])
  have "only r (set (res_convertqueue x) \<union> set (res_waitqueue x)) s1 s2"
    by (rule only_mono [OF 2(2)]) (use 1 in blast)
  with 1 2 show ?thesis
    unfolding pass_ok_def by (intro conjI exI [of _ x2]) (auto intro: only_trans)
qed

lemma pass_ok_weaken: "pass_ok r x s s' p \<Longrightarrow> (q \<Longrightarrow> p) \<Longrightarrow> pass_ok r x s s' q"
  unfolding pass_ok_def by blast

lemma granted_pass_ok:
  assumes "granted r k l x s s'" and "k \<in> set (res_convertqueue x) \<union> set (res_waitqueue x)"
  shows "pass_ok r x s s' (k \<in> set (res_convertqueue x))"
  using assms(1)
proof (rule grantedE)
  fix l' x'
  assume "master_ok s' r" "only r {k} s s'" "ls_rsbs s' r = Some x'"
    "set (res_grantqueue x') = insert k (set (res_grantqueue x))"
    "set (res_convertqueue x') = set (res_convertqueue x) - {k}"
    "set (res_waitqueue x') = set (res_waitqueue x) - {k}"
  then show ?thesis
    using assms(2) unfolding pass_ok_def by (auto elim!: only_mono)
qed

lemma decided_pass_ok:
  assumes ok: "master_ok s r" and x: "ls_rsbs s r = Some x" and m: "member s r k l"
    and d: "decided s x k l (rv, err, s')" and "k \<in> set (res_convertqueue x) \<union> set (res_waitqueue x)"
  shows "pass_ok r x s s' False"
  using decided_keeps [OF ok x m d] assms(5) by (auto simp: pass_ok_def elim!: only_mono)

lemma grant_convert_pass_keeps:
  assumes "master_ok s r" and "ls_rsbs s r = Some x" and "set q \<subseteq> set (res_convertqueue x)"
    and "distinct q"
  shows "\<exists>g' s'. grant_convert_pass env r recover q g s = Some (g', s') \<and>
    pass_ok r x s s' (grant_restart g' \<and> \<not> grant_restart g) \<and>
    (valid_mode (gp_hi g) \<longrightarrow> valid_mode (gp_hi g'))"
  using assms
proof (induction q arbitrary: g s x)
  case Nil
  then show ?case by (simp add: pass_ok_refl)
next
  case (Cons k q)
  note ok = Cons.prems(1) and x = Cons.prems(2)
  have kq: "k \<in> set (res_convertqueue x)" and q: "set q \<subseteq> set (res_convertqueue x) - {k}" "distinct q"
    using Cons.prems(3,4) by auto
  obtain l where m: "member s r k l" and qk: "queued_ok r DLM_LKSTS_CONVERT l"
    by (rule queue_member [OF ok x, of k DLM_LKSTS_CONVERT]) (use kq in auto)
  have l: "ls_lkbidr s k = Some l" "lkb_wf l" using m by (auto simp: member_def)
  have "asks_ok x k l False" using kq qk by (simp add: asks_ok_def queued_ok_def modes_ok_def)
  moreover have "queues_ok s r x" using ok x by (auto simp: master_ok_def)
  ultimately obtain rv err s1 where d: "can_be_granted r k False recover True s = Some (rv, err, s1)"
    "decided s x k l (rv, err, s1)"
    using can_be_granted_decides [OF _ x l] by fast
  have p1: "pass_ok r x s s1 False" by (rule decided_pass_ok [OF ok x m d(2)]) (use kq in simp)
  obtain l1 where k1: "master_ok s1 r" "ls_rsbs s1 r = Some x" "member s1 r k l1" "lkb_status l1 = lkb_status l"
    and yes: "rv \<longrightarrow> (\<forall>j\<in>holders x - {k}. compat (gr_mode s1 j) (lkb_rqmode l1))"
    using decided_keeps [OF ok x m d(2)] by fastforce
  have l1: "ls_lkbidr s1 k = Some l1" using k1(3) by (simp add: member_def)
  text \<open>The rest of the pass, from any state that keeps the rest of the queue.\<close>
  have rest: "\<exists>g' s'. grant_convert_pass env r recover q g2 s2 = Some (g', s') \<and>
      pass_ok r x s s' (p \<or> grant_restart g' \<and> \<not> grant_restart g2) \<and>
      (valid_mode (gp_hi g2) \<longrightarrow> valid_mode (gp_hi g'))"
    if s2: "pass_ok r x s s2 p" "ls_rsbs s2 r = Some x2" "set q \<subseteq> set (res_convertqueue x2)" for s2 x2 g2 p
  proof -
    have "master_ok s2 r" using s2(1) by (auto elim: pass_okE)
    from Cons.IH [OF this s2(2,3) q(2), of g2] pass_ok_trans [OF s2(1,2)] show ?thesis by blast
  qed
  have stay: "\<exists>g' s'. grant_convert_pass env r recover q g2 s2 = Some (g', s') \<and>
      pass_ok r x s s' (grant_restart g' \<and> \<not> grant_restart g) \<and>
      (valid_mode (gp_hi g) \<longrightarrow> valid_mode (gp_hi g'))"
    if same: "same s1 s2" and g2: "grant_restart g2 = grant_restart g"
      "valid_mode (gp_hi g) \<longrightarrow> valid_mode (gp_hi g2)" for g2 s2
  proof -
    obtain x2 where x2: "ls_rsbs s2 r = Some x2" "rsb_core x2 = rsb_core x"
      using same_rsb [OF same k1(2)] by blast
    have "pass_ok r x s s2 (False \<or> False)"
      by (rule pass_ok_trans [OF p1 k1(2) pass_ok_same [OF k1(1,2) same]])
    from rest [OF this x2(1), of g2] q(1) g2(2) show ?thesis
      by (auto simp: rsb_coreD [OF x2(2)] g2(1))
  qed
  show ?case
  proof (cases rv)
    case True
    have "lkb_rqmode l1 \<noteq> DLM_LOCK_IV"
      using member_queued [OF k1(1,3)] k1(4) qk by (auto simp: queued_ok_def modes_ok_def)
    then obtain s2 where s2: "grant_lock_pending env r k s1 = Some s2" "granted r k l1 x s1 s2"
      using grant_lock_pending_grants [OF k1(1,2,3)] yes True by blast
    obtain x2 where x2: "ls_rsbs s2 r = Some x2" "set (res_convertqueue x2) = set (res_convertqueue x) - {k}"
      using s2(2) by (rule grantedE)
    have "pass_ok r x s s2 (False \<or> True)"
      using pass_ok_trans [OF p1 k1(2) granted_pass_ok [OF s2(2)]] kq by simp
    then have p2: "pass_ok r x s s2 True" by simp
    obtain g' s' where "grant_convert_pass env r recover q
        (g\<lparr>grant_restart := True, gp_count := gp_count g + 1\<rparr>) s2 = Some (g', s')"
      "pass_ok r x s s' (True \<or> grant_restart g' \<and> \<not> grant_restart (g\<lparr>grant_restart := True, gp_count := gp_count g + 1\<rparr>))"
      "valid_mode (gp_hi (g\<lparr>grant_restart := True, gp_count := gp_count g + 1\<rparr>)) \<longrightarrow> valid_mode (gp_hi g')"
      using rest [OF p2 x2(1)] x2(2) q(1) by blast
    moreover from this(2) have "pass_ok r x s s' (grant_restart g' \<and> \<not> grant_restart g)"
      by (rule pass_ok_weaken) simp
    ultimately show ?thesis
      using l(1) d(1) l1 True s2(1) by simp
  next
    case False
    have hi: "valid_mode (max (lkb_rqmode l1) (gp_hi g))" if "valid_mode (gp_hi g)"
      using k1(3) that by (auto simp: member_def lkb_wf_def max_def)
    have bast: "keeps s1 (do {
        s \<leftarrow> queue_bast env r k (lkb_rqmode l1) s1;
        upd_lkb k (\<lambda>l. l\<lparr>lkb_highbast := lkb_rqmode l\<rparr>) s })"
    proof (rule keeps_bind [OF queue_bast_keeps [OF k1(2) l1]])
      fix s2 assume "same s1 s2"
      then obtain l2 where "ls_lkbidr s2 k = Some l2" using same_lkb l1 by blast
      then show "keeps s2 (upd_lkb k (\<lambda>l. l\<lparr>lkb_highbast := lkb_rqmode l\<rparr>) s2)"
        by (rule keeps_upd_lkb) simp
    qed
    then obtain s2 where s2: "(do {
        s \<leftarrow> queue_bast env r k (lkb_rqmode l1) s1;
        upd_lkb k (\<lambda>l. l\<lparr>lkb_highbast := lkb_rqmode l\<rparr>) s }) = Some s2" "same s1 s2"
      by (rule keepsE)
    show ?thesis
      using False l(1) d(1) l1 s2(1) by (auto intro!: stay [OF same_refl] stay [OF s2(2)] hi)
  qed
qed

section \<open>The restart loop\<close>

lemma grant_convert_restart_step:
  assumes ok: "master_ok s r" and x: "ls_rsbs s r = Some x"
  shows "\<exists>s' cw' count'. pass_ok r x s s' False \<and>
    ((\<exists>hi. valid_mode hi \<and>
        grant_convert_restart env r recover (quit, cw, count, s) = Some (Done (hi, cw', count', s'))) \<or>
     pass_ok r x s s' True \<and>
       grant_convert_restart env r recover (quit, cw, count, s) = Some (Retry (quit, cw', count', s')) \<or>
     \<not> quit \<and> grant_convert_restart env r recover (quit, cw, count, s) = Some (Retry (True, cw', count', s')))"
proof -
  let ?g = "\<lparr>grant_restart = False, demote_restart = False, gp_hi = DLM_LOCK_IV, gp_cw = cw, gp_count = count\<rparr>"
  have "distinct (res_convertqueue x)"
    using ok x by (auto simp: master_ok_def queues_ok_def rsb_queues_def)
  then obtain g' s' where p: "grant_convert_pass env r recover (res_convertqueue x) ?g s = Some (g', s')"
    "pass_ok r x s s' (grant_restart g' \<and> \<not> grant_restart ?g)"
    "valid_mode (gp_hi ?g) \<longrightarrow> valid_mode (gp_hi g')"
    using grant_convert_pass_keeps [OF ok x, of "res_convertqueue x" env recover ?g] by blast
  have "pass_ok r x s s' False" using p(2) by (rule pass_ok_weaken) simp
  moreover have "pass_ok r x s s' True" if "grant_restart g'" using p(2) that by simp
  ultimately show ?thesis
    using p(1,3) x by (cases "grant_restart g'"; cases "demote_restart g' \<and> \<not> quit")
      (auto simp: grant_convert_restart_def)
qed

text \<open>Each pass that starts over took a lock off the convert queue, or was the one that follows
  a demotion.\<close>

definition restart_measure :: "dlm_rsb \<Rightarrow> bool \<Rightarrow> nat" where
  "restart_measure x quit = 2 * card (set (res_convertqueue x)) + (if quit then 0 else 1)"

lemma grant_convert_restart_ends:
  assumes "master_ok s r" and "ls_rsbs s r = Some x"
  shows "\<exists>hi cw' count' s'. retry_n (restart_measure x quit + 1) (grant_convert_restart env r recover) (quit, cw, count, s) =
    Some (Done (hi, cw', count', s')) \<and> valid_mode hi \<and> pass_ok r x s s' False"
  using assms
proof (induction "restart_measure x quit" arbitrary: s x quit cw count rule: less_induct)
  case less
  obtain s1 cw1 count1 where 1: "pass_ok r x s s1 False"
    and step: "(\<exists>hi. valid_mode hi \<and> grant_convert_restart env r recover (quit, cw, count, s) = Some (Done (hi, cw1, count1, s1))) \<or>
      pass_ok r x s s1 True \<and>
        grant_convert_restart env r recover (quit, cw, count, s) = Some (Retry (quit, cw1, count1, s1)) \<or>
      \<not> quit \<and> grant_convert_restart env r recover (quit, cw, count, s) = Some (Retry (True, cw1, count1, s1))"
    using grant_convert_restart_step [OF less.prems] by blast
  obtain x1 where x1: "master_ok s1 r" "ls_rsbs s1 r = Some x1"
    "set (res_convertqueue x1) \<subseteq> set (res_convertqueue x)"
    using 1 by (rule pass_okE)
  have again: "\<exists>hi cw' count' s'. retry_n (restart_measure x quit) (grant_convert_restart env r recover)
      (quit', cw1, count1, s1) = Some (Done (hi, cw', count', s')) \<and> valid_mode hi \<and> pass_ok r x s s' False"
    if less: "restart_measure x1 quit' < restart_measure x quit" for quit'
  proof -
    obtain hi cw' count' s' where a: "retry_n (restart_measure x1 quit' + 1) (grant_convert_restart env r recover)
        (quit', cw1, count1, s1) = Some (Done (hi, cw', count', s'))" "valid_mode hi" "pass_ok r x1 s1 s' False"
      using less.hyps [OF less x1(1,2)] by blast
    have "pass_ok r x s s' False" using pass_ok_trans [OF 1 x1(2) a(3)] by simp
    moreover have "restart_measure x1 quit' + 1 \<le> restart_measure x quit" using less by simp
    note retry_n_more [OF a(1) this]
    ultimately show ?thesis using a(2) by blast
  qed
  from step show ?case
  proof (elim disjE conjE exE)
    fix hi
    assume "valid_mode hi" "grant_convert_restart env r recover (quit, cw, count, s) = Some (Done (hi, cw1, count1, s1))"
    with 1 show ?thesis by auto
  next
    assume "pass_ok r x s s1 True"
      and g: "grant_convert_restart env r recover (quit, cw, count, s) = Some (Retry (quit, cw1, count1, s1))"
    then have "set (res_convertqueue x1) \<subset> set (res_convertqueue x)"
      using x1(2) unfolding pass_ok_def by auto
    then have "restart_measure x1 quit < restart_measure x quit"
      by (simp add: restart_measure_def psubset_card_mono)
    with again g show ?thesis by simp
  next
    assume q: "\<not> quit"
      and g: "grant_convert_restart env r recover (quit, cw, count, s) = Some (Retry (True, cw1, count1, s1))"
    have "card (set (res_convertqueue x1)) \<le> card (set (res_convertqueue x))"
      using x1(3) by (simp add: card_mono)
    with q have "restart_measure x1 True < restart_measure x quit" by (simp add: restart_measure_def)
    with again g show ?thesis by simp
  qed
qed

lemma grant_pending_convert_keeps:
  assumes "master_ok s r" and "ls_rsbs s r = Some x"
  shows "\<exists>high' cw' count' s'. grant_pending_convert env r high cw count s = Some (high', cw', count', s') \<and>
    pass_ok r x s s' False \<and> (valid_mode high \<longrightarrow> valid_mode high')"
proof -
  obtain hi cw' count' s' where a: "retry_n (restart_measure x False + 1)
      (grant_convert_restart env r (rsb_flag x RSB_RECOVER_GRANT)) (False, cw, count, s) =
      Some (Done (hi, cw', count', s'))" "valid_mode hi" "pass_ok r x s s' False"
    using grant_convert_restart_ends [OF assms] by blast
  with retry_n_Done [OF a(1)] assms(2) show ?thesis by (simp add: grant_pending_convert_def max_def)
qed

section \<open>The wait queue\<close>

lemma grant_wait_pass_keeps:
  assumes "master_ok s r" and "ls_rsbs s r = Some x" and "set q \<subseteq> set (res_waitqueue x)"
    and "distinct q"
  shows "\<exists>high' cw' count' s'. grant_wait_pass env r q high cw count s = Some (high', cw', count', s') \<and>
    pass_ok r x s s' False \<and> (valid_mode high \<longrightarrow> valid_mode high')"
  using assms
proof (induction q arbitrary: high cw count s x)
  case Nil
  then show ?case by (simp add: pass_ok_refl)
next
  case (Cons k q)
  note ok = Cons.prems(1) and x = Cons.prems(2)
  have kq: "k \<in> set (res_waitqueue x)" and q: "set q \<subseteq> set (res_waitqueue x) - {k}" "distinct q"
    using Cons.prems(3,4) by auto
  obtain l where m: "member s r k l" and qk: "queued_ok r DLM_LKSTS_WAITING l"
    by (rule queue_member [OF ok x, of k DLM_LKSTS_WAITING]) (use kq in auto)
  have l: "ls_lkbidr s k = Some l" "lkb_wf l" using m by (auto simp: member_def)
  have "asks_ok x k l False" using kq qk by (simp add: asks_ok_def queued_ok_def modes_ok_def)
  moreover have "queues_ok s r x" using ok x by (auto simp: master_ok_def)
  ultimately obtain rv err s1 where d: "can_be_granted r k False False False s = Some (rv, err, s1)"
    "decided s x k l (rv, err, s1)"
    using can_be_granted_decides [OF _ x l] by fast
  have p1: "pass_ok r x s s1 False" by (rule decided_pass_ok [OF ok x m d(2)]) (use kq in simp)
  obtain l1 where k1: "master_ok s1 r" "ls_rsbs s1 r = Some x" "member s1 r k l1" "lkb_status l1 = lkb_status l"
    and yes: "rv \<longrightarrow> (\<forall>j\<in>holders x - {k}. compat (gr_mode s1 j) (lkb_rqmode l1))"
    using decided_keeps [OF ok x m d(2)] by fastforce
  have l1: "ls_lkbidr s1 k = Some l1" using k1(3) by (simp add: member_def)
  have rest: "\<exists>high' cw' count' s'. grant_wait_pass env r q h c n s2 = Some (high', cw', count', s') \<and>
      pass_ok r x s s' False \<and> (valid_mode h \<longrightarrow> valid_mode high')"
    if s2: "pass_ok r x s s2 False" "ls_rsbs s2 r = Some x2" "set q \<subseteq> set (res_waitqueue x2)" for s2 x2 h c n
  proof -
    have "master_ok s2 r" using s2(1) by (auto elim: pass_okE)
    from Cons.IH [OF this s2(2,3) q(2), of h c n] pass_ok_trans [OF s2(1,2)] show ?thesis by fastforce
  qed
  show ?case
  proof (cases rv)
    case True
    have "lkb_rqmode l1 \<noteq> DLM_LOCK_IV"
      using member_queued [OF k1(1,3)] k1(4) qk by (auto simp: queued_ok_def modes_ok_def)
    then obtain s2 where s2: "grant_lock_pending env r k s1 = Some s2" "granted r k l1 x s1 s2"
      using grant_lock_pending_grants [OF k1(1,2,3)] yes True by blast
    obtain x2 where x2: "ls_rsbs s2 r = Some x2" "set (res_waitqueue x2) = set (res_waitqueue x) - {k}"
      using s2(2) by (rule grantedE)
    have "pass_ok r x s s2 (False \<or> k \<in> set (res_convertqueue x))"
      using pass_ok_trans [OF p1 k1(2) granted_pass_ok [OF s2(2)]] kq by simp
    then have "pass_ok r x s s2 False" by (rule pass_ok_weaken) simp
    from rest [OF this x2(1)] x2(2) q(1) True d(1) s2(1) show ?thesis by simp
  next
    case False
    have "set q \<subseteq> set (res_waitqueue x)" using q(1) by auto
    moreover have "valid_mode (max (lkb_rqmode l1) high)" if "valid_mode high"
      using k1(3) that by (auto simp: member_def lkb_wf_def max_def)
    ultimately show ?thesis
      using rest [OF p1 k1(2)] False d(1) l1 by fastforce
  qed
qed

lemma grant_pending_wait_keeps:
  assumes "master_ok s r" and "ls_rsbs s r = Some x"
  shows "\<exists>high' cw' count' s'. grant_pending_wait env r high cw count s = Some (high', cw', count', s') \<and>
    pass_ok r x s s' False \<and> (valid_mode high \<longrightarrow> valid_mode high')"
proof -
  have "distinct (res_waitqueue x)"
    using assms by (auto simp: master_ok_def queues_ok_def rsb_queues_def)
  with grant_wait_pass_keeps [OF assms, of "res_waitqueue x"] assms(2) show ?thesis
    by (simp add: grant_pending_wait_def)
qed

section \<open>Blocking callbacks\<close>

lemma bast_keeps:
  assumes "ls_rsbs s r = Some x" and "ls_lkbidr s k = Some l"
  shows "keeps s (do {
    s \<leftarrow> queue_bast env r k m s;
    upd_lkb k (\<lambda>l. l\<lparr>lkb_highbast := h\<rparr>) s })"
proof (rule keeps_bind [OF queue_bast_keeps [OF assms]])
  fix s2 assume "same s s2"
  then obtain l2 where "ls_lkbidr s2 k = Some l2" using same_lkb assms(2) by blast
  then show "keeps s2 (upd_lkb k (\<lambda>l. l\<lparr>lkb_highbast := h\<rparr>) s2)"
    by (rule keeps_upd_lkb) simp
qed

lemma bast_if_keeps:
  assumes "ls_rsbs s r = Some x" and "ls_lkbidr s k = Some l"
  shows "keeps s (if b then do {
    s \<leftarrow> queue_bast env r k m s;
    upd_lkb k (\<lambda>l. l\<lparr>lkb_highbast := h\<rparr>) s } else Some s)"
  using bast_keeps [OF assms] by simp

lemma bast_granted_keeps:
  assumes "ls_rsbs s r = Some x" and "\<forall>j\<in>set q. live_mode s j" and "valid_mode high"
  shows "keeps s (bast_granted env r q high cw s)"
  using assms(1,2)
proof (induction q arbitrary: s x)
  case Nil
  then show ?case by simp
next
  case (Cons k q)
  obtain l where l: "ls_lkbidr s k = Some l" "valid_mode (lkb_grmode l)"
    using Cons.prems(2) by (auto simp: live_mode_def)
  have "(if lkb_bastfn l \<noteq> None then lock_requires_bast l high cw else Some False) \<noteq> None"
    using dlm_modes_compat_valid [OF l(2) assms(3)] by (auto simp: lock_requires_bast_def)
  from iffD1 [OF not_None_eq this] obtain b
    where b: "(if lkb_bastfn l \<noteq> None then lock_requires_bast l high cw else Some False) = Some b" by blast
  show ?case
    unfolding bast_granted.simps l(1) Option.bind.bind_lunit b
  proof (rule keeps_bind [OF bast_if_keeps [OF Cons.prems(1) l(1)]])
    fix s2 assume same: "same s s2"
    then obtain x2 where "ls_rsbs s2 r = Some x2" using same_rsb Cons.prems(1) by blast
    then show "keeps s2 (bast_granted env r q high cw s2)"
      by (rule Cons.IH) (use Cons.prems(2) live_mode_same [OF same] in auto)
  qed
qed

lemma send_bast_queue_keeps:
  assumes "ls_rsbs s r = Some x" and "\<forall>j\<in>set q. live_mode s j" and "live_mode s k"
  shows "keeps s (send_bast_queue env r q k s)"
  using assms
proof (induction q arbitrary: s x)
  case Nil
  then show ?case by simp
next
  case (Cons j q)
  obtain g where g: "ls_lkbidr s j = Some g" "valid_mode (lkb_grmode g)"
    using Cons.prems(2) by (auto simp: live_mode_def)
  obtain l where l: "ls_lkbidr s k = Some l" "valid_mode (lkb_rqmode l)"
    using Cons.prems(3) by (auto simp: live_mode_def)
  have "(if lkb_bastfn g \<noteq> None then modes_require_bast g l else Some False) \<noteq> None"
    using dlm_modes_compat_valid [OF g(2) l(2)] by (auto simp: modes_require_bast_def modes_compat_def)
  from iffD1 [OF not_None_eq this] obtain b
    where b: "(if lkb_bastfn g \<noteq> None then modes_require_bast g l else Some False) = Some b" by blast
  have "keeps s (do {
      s \<leftarrow> (if b then do {
        s \<leftarrow> queue_bast env r j (lkb_rqmode l) s;
        upd_lkb j (\<lambda>g. g\<lparr>lkb_highbast := lkb_rqmode l\<rparr>) s } else Some s);
      send_bast_queue env r q k s })"
  proof (rule keeps_bind [OF bast_if_keeps [OF Cons.prems(1) g(1)]])
    fix s2 assume same: "same s s2"
    then obtain x2 where "ls_rsbs s2 r = Some x2" using same_rsb Cons.prems(1) by blast
    then show "keeps s2 (send_bast_queue env r q k s2)"
      by (rule Cons.IH) (use Cons.prems(2,3) live_mode_same [OF same] in auto)
  qed
  moreover have "keeps s (send_bast_queue env r q k s)"
    by (rule Cons.IH [OF Cons.prems(1)]) (use Cons.prems in auto)
  ultimately show ?case
    unfolding send_bast_queue.simps g(1) l(1) Option.bind.bind_lunit b by simp
qed

lemma master_ok_live:
  assumes "master_ok s r" and "ls_rsbs s r = Some x" and "j \<in> set (rsb_queues x)"
  shows "live_mode s j"
  using assms queues_ok_live by (auto simp: master_ok_def)

lemma send_blocking_asts_keeps:
  assumes ok: "master_ok s r" and x: "ls_rsbs s r = Some x" and k: "live_mode s k"
  shows "keeps s (send_blocking_asts env r k s)"
  using send_bast_queue_keeps [OF x _ k, of "res_grantqueue x" env] master_ok_live [OF ok x] x
  by (simp add: send_blocking_asts_def rsb_queues_def)

lemma send_blocking_asts_all_keeps:
  assumes ok: "master_ok s r" and x: "ls_rsbs s r = Some x" and k: "live_mode s k"
  shows "keeps s (send_blocking_asts_all env r k s)"
proof -
  have "keeps s (do {
      s1 \<leftarrow> send_bast_queue env r (res_grantqueue x) k s;
      x \<leftarrow> ls_rsbs s1 r;
      send_bast_queue env r (res_convertqueue x) k s1 })"
  proof (rule keeps_bind)
    show "keeps s (send_bast_queue env r (res_grantqueue x) k s)"
      by (rule send_bast_queue_keeps [OF x _ k]) (use master_ok_live [OF ok x] in \<open>simp add: rsb_queues_def\<close>)
  next
    fix s1 assume same: "same s s1"
    then obtain x1 where x1: "ls_rsbs s1 r = Some x1" using same_rsb x by blast
    have "keeps s1 (send_bast_queue env r (res_convertqueue x1) k s1)"
      by (rule send_bast_queue_keeps [OF x1 _ live_mode_same [OF same k]])
        (use master_ok_live [OF master_ok_same [OF same ok] x1] in \<open>simp add: rsb_queues_def\<close>)
    with x1 show "keeps s1 (do { x \<leftarrow> ls_rsbs s1 r; send_bast_queue env r (res_convertqueue x) k s1 })"
      by simp
  qed
  with x show ?thesis by (simp add: send_blocking_asts_all_def)
qed

section \<open>Granting all that waits\<close>

lemma grant_pending_locks_keeps:
  assumes ok: "master_ok s r" and x: "ls_rsbs s r = Some x"
  shows "\<exists>count' s'. grant_pending_locks env r count s = Some (count', s') \<and> pass_ok r x s s' False"
proof (cases "is_master env x")
  case False
  with x pass_ok_refl [OF ok x] show ?thesis by (simp add: grant_pending_locks_def)
next
  case True
  obtain h1 c1 n1 s1 where 1: "grant_pending_convert env r DLM_LOCK_IV False count s = Some (h1, c1, n1, s1)"
    "pass_ok r x s s1 False" "valid_mode h1"
    using grant_pending_convert_keeps [OF ok x, of env DLM_LOCK_IV False count] by auto
  obtain x1 where x1: "master_ok s1 r" "ls_rsbs s1 r = Some x1" using 1(2) by (rule pass_okE)
  obtain h2 c2 n2 s2 where 2: "grant_pending_wait env r h1 c1 n1 s1 = Some (h2, c2, n2, s2)"
    "pass_ok r x1 s1 s2 False" "valid_mode h2"
    using grant_pending_wait_keeps [OF x1, of env h1 c1 n1] 1(3) by auto
  obtain x2 where x2: "master_ok s2 r" "ls_rsbs s2 r = Some x2" using 2(2) by (rule pass_okE)
  have p2: "pass_ok r x s s2 False" using pass_ok_trans [OF 1(2) x1(2) 2(2)] by simp
  have "keeps s2 (bast_granted env r (res_grantqueue x2) h2 c2 s2)"
    by (rule bast_granted_keeps [OF x2(2) _ 2(3)])
      (use master_ok_live [OF x2] in \<open>simp add: rsb_queues_def\<close>)
  then obtain s3 where s3: "bast_granted env r (res_grantqueue x2) h2 c2 s2 = Some s3" "same s2 s3"
    by (rule keepsE)
  have "pass_ok r x s s3 False"
    using pass_ok_trans [OF p2 x2(2) pass_ok_same [OF x2 s3(2)]] by simp
  with True x 1(1) 2(1) x2(2) s3(1) p2 show ?thesis
    by (auto simp: grant_pending_locks_def)
qed

end
