(* ===== verification/Master.thy ===== *)
theory Master
  imports Pending Requests
begin

text \<open>
  The four operations of a master, \<open>do_request\<close>, \<open>do_convert\<close>, \<open>do_unlock\<close> and
  \<open>do_cancel\<close>, each with its effects: on a resource that satisfies the invariant they do not
  crash, return one of their documented results, and establish the invariant again. The
  invariant is mutual exclusion: no two locks that hold the resource have incompatible modes.
\<close>

section \<open>Results of an operation\<close>

text \<open>The outcome for lock \<open>k\<close> after an operation: the invariant holds, only the resource and
  its locks in \<open>A\<close> changed, and the lock satisfies \<open>P\<close>.\<close>

definition outcome ::
  "rsbp \<Rightarrow> lkid set \<Rightarrow> lkid \<Rightarrow> dlm_lkb \<Rightarrow> dlm_ls \<Rightarrow> dlm_ls \<Rightarrow> (dlm_lkb \<Rightarrow> bool) \<Rightarrow> bool" where
  "outcome r A k l s s' P \<longleftrightarrow> master_ok s' r \<and> only r A s s' \<and>
     (\<exists>l'. ls_lkbidr s' k = Some l' \<and> lkb_resource l' = Some r \<and> lkb_wf l' \<and>
        lkb_exflags l' = lkb_exflags l \<and> P l')"

lemma outcomeE:
  assumes "outcome r A k l s s' P"
  obtains l' where "master_ok s' r" "only r A s s'" "ls_lkbidr s' k = Some l'"
    "lkb_resource l' = Some r" "lkb_wf l'" "lkb_exflags l' = lkb_exflags l" "P l'"
  using assms unfolding outcome_def by blast

definition core_pred :: "(dlm_lkb \<Rightarrow> bool) \<Rightarrow> bool" where
  "core_pred P \<longleftrightarrow> (\<forall>l l'. lkb_core l' = lkb_core l \<longrightarrow> P l \<longrightarrow> P l')"

lemma outcome_same:
  assumes o: "outcome r A k l s s1 P" and same: "same s1 s2" and P: "core_pred P"
  shows "outcome r A k l s s2 P"
  using o
proof (rule outcomeE)
  fix l1
  assume l1: "master_ok s1 r" "only r A s s1" "ls_lkbidr s1 k = Some l1" "lkb_resource l1 = Some r"
    "lkb_wf l1" "lkb_exflags l1 = lkb_exflags l" "P l1"
  obtain l2 where l2: "ls_lkbidr s2 k = Some l2" "lkb_core l2 = lkb_core l1"
    using same_lkb [OF same l1(3)] by blast
  have "only r A s s2" using only_trans [OF l1(2) only_same [OF same]] .
  moreover have "P l2" using P l1(7) l2(2) unfolding core_pred_def by blast
  ultimately show ?thesis
    using master_ok_same [OF same l1(1)] l1(4,5,6) l2(1) lkb_wf_core [OF l2(2)]
    by (simp add: outcome_def lkb_coreD [OF l2(2)])
qed

lemma outcome_cast:
  assumes o: "outcome r A k l s s1 P" and P: "core_pred P"
  shows "\<exists>s2. queue_cast k rv s1 = Some s2 \<and> outcome r A k l s s2 P"
proof -
  obtain l1 where l1: "ls_lkbidr s1 k = Some l1" "lkb_wf l1" using o by (rule outcomeE)
  have "keeps s1 (queue_cast k rv s1)"
    by (rule queue_cast_keeps [OF l1(1)]) (use l1(2) in \<open>simp add: lkb_wf_def\<close>)
  with outcome_same [OF o _ P] show ?thesis by (auto elim!: keepsE)
qed

lemma outcome_trans:
  assumes "only r A s s1" and "outcome r A k l1 s1 s2 P" and "lkb_exflags l1 = lkb_exflags l"
  shows "outcome r A k l s s2 P"
  using assms only_trans [OF assms(1)] by (auto simp: outcome_def)

lemma outcome_weaken: "outcome r A k l s s' P \<Longrightarrow> (\<And>l'. P l' \<Longrightarrow> Q l') \<Longrightarrow> outcome r A k l s s' Q"
  unfolding outcome_def by blast

text \<open>An operation that updated \<open>k\<close> and placed it.\<close>

lemma outcome_placed:
  assumes ok: "master_ok s r" and x: "ls_rsbs s r = Some x"
    and l: "ls_lkbidr s k = Some l" "lkb_resource l = Some r"
    and lkbs: "ls_lkbidr s' = (ls_lkbidr s)(k \<mapsto> l')" and rsbs: "ls_rsbs s' = (ls_rsbs s)(r \<mapsto> x')"
    and p: "placed k st x x'"
    and q: "st \<in> {DLM_LKSTS_WAITING, DLM_LKSTS_GRANTED, DLM_LKSTS_CONVERT} \<and> queued_ok r st l' \<or>
            st = 0 \<and> lkb_status l' = 0"
    and c: "st \<in> {DLM_LKSTS_GRANTED, DLM_LKSTS_CONVERT} \<Longrightarrow>
       \<forall>j\<in>holders x - {k}. compat (gr_mode s j) (lkb_grmode l')"
    and l': "lkb_resource l' = Some r" "lkb_wf l'" "lkb_exflags l' = lkb_exflags l" "P l'"
    and t: "tables s' = tables s"
  shows "outcome r {k} k l s s' P"
proof -
  have "master_ok s' r" by (rule master_ok_placed [OF ok x lkbs _ p q c]) (simp_all add: rsbs)
  moreover have "only r {k} s s'"
    by (rule only_update [OF l _ x lkbs l'(1) rsbs p t]) simp
  ultimately show ?thesis using l' by (simp add: outcome_def lkbs)
qed

lemma own_mode_compat:
  assumes ok: "master_ok s r" and x: "ls_rsbs s r = Some x" and l: "ls_lkbidr s k = Some l"
    and k: "k \<in> holders x"
  shows "\<forall>j\<in>holders x - {k}. compat (gr_mode s j) (lkb_grmode l)"
proof -
  have "modes.consistent (gr_mode s) (holders x)" using ok x by (auto simp: master_ok_def)
  then show ?thesis using modes.consistentD [of "gr_mode s" "holders x" _ k] k l
    by (auto simp: gr_mode_def [of s k])
qed

lemma holders_member:
  assumes ok: "master_ok s r" and x: "ls_rsbs s r = Some x" and m: "member s r k l"
  shows "k \<in> holders x \<longleftrightarrow> lkb_status l = DLM_LKSTS_GRANTED \<or> lkb_status l = DLM_LKSTS_CONVERT"
proof -
  have qs: "queues_ok s r x" using ok x by (auto simp: master_ok_def)
  show ?thesis using queue_status [OF qs, of k l] m by (auto simp: member_def holders_def)
qed

section \<open>A new request\<close>

lemma granted_outcome:
  assumes "granted r k l x s s'"
  shows "outcome r {k} k l s s' (\<lambda>l'. lkb_status l' = DLM_LKSTS_GRANTED \<and> lkb_grmode l' = lkb_rqmode l \<and>
    lkb_rqmode l' = DLM_LOCK_IV \<and> lkb_ref l' = lkb_ref l + (if lkb_status l = 0 then 1 else 0))"
  using assms by (auto simp: granted_def outcome_def member_def)

definition request_mode :: "dlm_lkb \<Rightarrow> int \<Rightarrow> bool" where
  "request_mode l m \<longleftrightarrow> m = lkb_rqmode l \<or>
     has_flag (lkb_exflags l) DLM_LKF_ALTPR \<and> m = DLM_LOCK_PR \<or>
     has_flag (lkb_exflags l) DLM_LKF_ALTCW \<and> m = DLM_LOCK_CW"

lemma retuned_request_mode: "retuned l l' \<Longrightarrow> request_mode l (lkb_rqmode l')"
  using retuned_modes(2) by (auto simp: request_mode_def)

text \<open>What the four operations may return, and what became of the lock.\<close>

definition request_result :: "dlm_lkb \<Rightarrow> int \<Rightarrow> dlm_lkb \<Rightarrow> bool" where
  "request_result l e l' \<longleftrightarrow>
     e = 0 \<and> lkb_status l' = DLM_LKSTS_GRANTED \<and> request_mode l (lkb_grmode l') \<and>
       lkb_rqmode l' = DLM_LOCK_IV \<and> lkb_ref l' = lkb_ref l + 1 \<or>
     e = -EINPROGRESS \<and> can_be_queued l \<and> lkb_status l' = DLM_LKSTS_WAITING \<and>
       lkb_grmode l' = DLM_LOCK_IV \<and> lkb_rqmode l' = lkb_rqmode l \<and> lkb_ref l' = lkb_ref l + 1 \<or>
     e = -EAGAIN \<and> \<not> can_be_queued l \<and> lkb_status l' = 0 \<and> lkb_grmode l' = DLM_LOCK_IV \<and>
       lkb_ref l' = lkb_ref l"

lemma core_pred_request: "core_pred (request_result l e)"
  unfolding core_pred_def
proof (intro allI impI)
  fix l1 l2 assume c: "lkb_core l2 = lkb_core l1" and "request_result l e l1"
  then show "request_result l e l2" by (simp add: request_result_def lkb_coreD [OF c])
qed

lemma do_request_keeps:
  assumes ok: "master_ok s r" and x: "ls_rsbs s r = Some x" and m: "member s r k l"
    and st: "lkb_status l = 0" and rq: "lkb_rqmode l \<noteq> DLM_LOCK_IV"
  shows "\<exists>e s'. do_request env r k s = Some (e, s') \<and> outcome r {k} k l s s' (request_result l e)"
proof -
  have l: "ls_lkbidr s k = Some l" "lkb_resource l = Some r" "lkb_wf l" "1 \<le> lkb_ref l"
    "lkb_grmode l = DLM_LOCK_IV" using m st by (auto simp: member_def)
  have qs: "queues_ok s r x" using ok x by (auto simp: master_ok_def)
  have "asks_ok x k l True" by (simp add: asks_ok_def)
  from can_be_granted_decides [OF qs x l(1,3) this]
  obtain rv err s1 where d: "can_be_granted r k True False False s = Some (rv, err, s1)"
    "decided s x k l (rv, err, s1)" by fast
  obtain l1 where 1: "master_ok s1 r" "only r {k} s s1" "ls_rsbs s1 r = Some x" "member s1 r k l1"
    "retuned l l1" and yes: "rv \<longrightarrow> (\<forall>j\<in>holders x - {k}. compat (gr_mode s1 j) (lkb_rqmode l1))"
    using decided_keeps [OF ok x m d(2)] by fastforce
  note same1 = retunedD [OF 1(5)]
  have l1: "ls_lkbidr s1 k = Some l1" using 1(4) by (simp add: member_def)
  have gr1: "lkb_grmode l1 = DLM_LOCK_IV" using retuned_modes(1) [OF 1(5)] l(5) by auto
  show ?thesis
  proof (cases rv)
    case True
    have "lkb_rqmode l1 \<noteq> DLM_LOCK_IV" using retuned_modes(2) [OF 1(5)] rq by auto
    then obtain s2 where s2: "grant_lock env r k s1 = Some s2" "granted r k l1 x s1 s2"
      using grant_lock_grants [OF 1(1,3,4)] yes True by blast
    have "outcome r {k} k l s s2 (request_result l 0)"
      by (rule outcome_weaken [OF outcome_trans [OF 1(2) granted_outcome [OF s2(2)]]])
        (use st same1 retuned_request_mode [OF 1(5)] in \<open>auto simp: request_result_def\<close>)
    then obtain s3 where "queue_cast k 0 s2 = Some s3" "outcome r {k} k l s s3 (request_result l 0)"
      using outcome_cast [OF _ core_pred_request] by blast
    with True d(1) s2(1) show ?thesis by (auto simp: do_request_def)
  next
    case False
    then have rq1: "lkb_rqmode l1 = lkb_rqmode l" using d(2) 1 l1
      by (auto simp: decided_def)
    have cbq: "can_be_queued l1 = can_be_queued l" by (simp add: can_be_queued_def same1)
    show ?thesis
    proof (cases "can_be_queued l")
      case True
      have q1: "queues_ok s1 r x" using 1(1,3) by (auto simp: master_ok_def)
      have nq: "k \<notin> set (rsb_queues x)"
        using queue_status [OF q1 l1] same1 st by (auto simp: rsb_queues_def)
      have "lkb_status l1 = 0" "distinct (rsb_queues x)" "\<forall>j\<in>set (res_grantqueue x). ls_lkbidr s1 j \<noteq> None"
        using q1 st same1 by (auto simp: queues_ok_def on_queue_def)
      from add_lkb_spec [OF l1 this(1) 1(3) this(2) nq this(3), of DLM_LKSTS_WAITING env]
      obtain s2 x2 where s2: "add_lkb env r k DLM_LKSTS_WAITING s1 = Some s2"
        "ls_lkbidr s2 = (ls_lkbidr s1)(k \<mapsto> l1\<lparr>lkb_ref := lkb_ref l1 + 1, lkb_timestamp := ktime env,
           lkb_status := DLM_LKSTS_WAITING\<rparr>)"
        "ls_rsbs s2 = (ls_rsbs s1)(r \<mapsto> x2)" "placed k DLM_LKSTS_WAITING x x2"
        "tables s2 = tables s1" by auto
      let ?l2 = "l1\<lparr>lkb_ref := lkb_ref l1 + 1, lkb_timestamp := ktime env, lkb_status := DLM_LKSTS_WAITING\<rparr>"
      have wf: "lkb_wf ?l2"
        using 1(4) by (auto simp: member_def lkb_wf_def is_master_copy_def iflag_def)
      have q2: "queued_ok r DLM_LKSTS_WAITING ?l2"
        using wf same1 l gr1 rq rq1 by (simp add: queued_ok_def modes_ok_def)
      have "outcome r {k} k l1 s1 s2 (request_result l (-EINPROGRESS))"
        by (rule outcome_placed [OF 1(1,3) l1 _ s2(2,3,4)])
          (use same1 l q2 wf gr1 rq1 True s2(5) in \<open>simp_all add: request_result_def\<close>)
      then have "outcome r {k} k l s s2 (request_result l (-EINPROGRESS))"
        by (rule outcome_trans [OF 1(2)]) (simp add: same1)
      with False True d(1) l1 cbq s2(1) show ?thesis by (auto simp: do_request_def)
    next
      case nq: False
      have "outcome r {k} k l s s1 (request_result l (-EAGAIN))"
        using 1 l1 same1 st gr1 nq by (auto simp: outcome_def member_def request_result_def)
      then obtain s3 where "queue_cast k (-EAGAIN) s1 = Some s3"
        "outcome r {k} k l s s3 (request_result l (-EAGAIN))"
        using outcome_cast [OF _ core_pred_request] by blast
      with False nq d(1) l1 cbq show ?thesis by (auto simp: do_request_def)
    qed
  qed
qed

text \<open>When the request is granted: no alternate mode, not expedited.\<close>

lemma do_request_decision:
  assumes ok: "master_ok s r" and x: "ls_rsbs s r = Some x" and m: "member s r k l"
    and st: "lkb_status l = 0" and rq: "lkb_rqmode l \<noteq> DLM_LOCK_IV"
    and ex: "\<not> has_flag (lkb_exflags l) DLM_LKF_EXPEDITE"
    and alt: "\<not> has_flag (lkb_exflags l) DLM_LKF_ALTPR" "\<not> has_flag (lkb_exflags l) DLM_LKF_ALTCW"
    and d: "do_request env r k s = Some (e, s')"
  shows "e = 0 \<longleftrightarrow> (\<forall>j\<in>holders x. compat (gr_mode s j) (lkb_rqmode l)) \<and>
    (has_flag (lkb_exflags l) DLM_LKF_NOORDER \<or> res_convertqueue x = [] \<and> res_waitqueue x = [])"
proof -
  have l: "ls_lkbidr s k = Some l" "lkb_wf l" "lkb_grmode l = DLM_LOCK_IV"
    using m st by (auto simp: member_def)
  have qs: "queues_ok s r x" using ok x by (auto simp: master_ok_def)
  then have live: "\<forall>j\<in>set (rsb_queues x). live_mode s j" using queues_ok_live by blast
  let ?g = "grant_rule s x k l True False"
  have g: "us_can_be_granted r k True False s = Some ?g"
    by (rule us_can_be_granted_rule [OF live x l(1)]) (use l(2) in \<open>simp_all add: lkb_wf_def asks_ok_def\<close>)
  have "alt_mode l = 0" using alt by (simp add: alt_mode_def)
  then have "can_be_granted r k True False False s = Some (?g, 0, s)"
    using g l by (simp add: can_be_granted_def try_alt_mode_def)
  then have "e = 0 \<longleftrightarrow> ?g"
    using d l(1) by (auto simp: do_request_def Option.bind_eq_Some_conv split: if_splits)
  moreover have "k \<notin> holders x" using holders_member [OF ok x m] st by simp
  ultimately show ?thesis using ex l(3) by (simp add: grant_rule_def order_ok_def)
qed

section \<open>Unlock\<close>

lemma us_remove_lock_spec:
  assumes l: "ls_lkbidr s k = Some l" and ref: "3 \<le> lkb_ref l" and x: "ls_rsbs s r = Some x"
    and k: "k \<in> set (rsb_queues x)"
  shows "\<exists>s'. us_remove_lock r k s = Some s' \<and>
    ls_lkbidr s' = (ls_lkbidr s)(k \<mapsto> l\<lparr>lkb_status := 0, lkb_grmode := DLM_LOCK_IV, lkb_ref := lkb_ref l - 2\<rparr>) \<and>
    ls_rsbs s' = (ls_rsbs s)(r \<mapsto> unqueue k x) \<and> tables s' = tables s"
proof -
  obtain s1 where s1: "del_lkb r k s = Some s1"
    "ls_lkbidr s1 = (ls_lkbidr s)(k \<mapsto> l\<lparr>lkb_ref := lkb_ref l - 1, lkb_status := 0\<rparr>)"
    "ls_rsbs s1 = (ls_rsbs s)(r \<mapsto> unqueue k x)" "tables s1 = tables s"
    using del_lkb_spec [OF l _ x k] ref by auto
  have "lkb_ref l - 1 \<noteq> 1" "lkb_ref l - 1 \<noteq> 0" "lkb_ref l - 1 - 1 = lkb_ref l - 2" using ref by auto
  with s1 show ?thesis
    by (auto simp: us_remove_lock_def unhold_lkb_def kref_put_lkb_def)
qed

lemma us_remove_lock_removes:
  assumes ok: "master_ok s r" and x: "ls_rsbs s r = Some x" and m: "member s r k l"
    and st: "lkb_status l \<noteq> 0" and ref: "3 \<le> lkb_ref l"
  shows "\<exists>s'. us_remove_lock r k s = Some s' \<and> outcome r {k} k l s s'
    (\<lambda>l'. lkb_status l' = 0 \<and> lkb_grmode l' = DLM_LOCK_IV \<and> lkb_ref l' = lkb_ref l - 2)"
proof -
  have l: "ls_lkbidr s k = Some l" "lkb_resource l = Some r" "lkb_wf l"
    using m by (auto simp: member_def)
  have qs: "queues_ok s r x" using ok x by (auto simp: master_ok_def)
  then have dist: "distinct (rsb_queues x)" and k: "k \<in> set (rsb_queues x)"
    using l st by (auto simp: queues_ok_def)
  obtain s2 where s2: "us_remove_lock r k s = Some s2" "ls_lkbidr s2 = (ls_lkbidr s)(k \<mapsto>
      l\<lparr>lkb_status := 0, lkb_grmode := DLM_LOCK_IV, lkb_ref := lkb_ref l - 2\<rparr>)"
    "ls_rsbs s2 = (ls_rsbs s)(r \<mapsto> unqueue k x)" "tables s2 = tables s"
    using us_remove_lock_spec [OF l(1) ref x k] by blast
  have "outcome r {k} k l s s2
      (\<lambda>l'. lkb_status l' = 0 \<and> lkb_grmode l' = DLM_LOCK_IV \<and> lkb_ref l' = lkb_ref l - 2)"
    by (rule outcome_placed [OF ok x l(1,2) s2(2,3) placed_unqueue [OF dist]])
      (use l s2(4) in \<open>simp_all add: lkb_wf_def is_master_copy_def iflag_def\<close>)
  with s2(1) show ?thesis by blast
qed

lemma core_pred_gone:
  "core_pred (\<lambda>l'. lkb_status l' = 0 \<and> lkb_grmode l' = DLM_LOCK_IV \<and> lkb_ref l' = n)"
  unfolding core_pred_def
proof (intro allI impI)
  fix l1 l2 :: dlm_lkb
  assume c: "lkb_core l2 = lkb_core l1" and "lkb_status l1 = 0 \<and> lkb_grmode l1 = DLM_LOCK_IV \<and> lkb_ref l1 = n"
  then show "lkb_status l2 = 0 \<and> lkb_grmode l2 = DLM_LOCK_IV \<and> lkb_ref l2 = n"
    by (simp add: lkb_coreD [OF c])
qed

lemma do_unlock_keeps:
  assumes ok: "master_ok s r" and x: "ls_rsbs s r = Some x" and m: "member s r k l"
    and st: "lkb_status l \<noteq> 0" and ref: "3 \<le> lkb_ref l"
  shows "\<exists>s'. do_unlock env r k s = Some (-DLM_EUNLOCK, s') \<and> outcome r {k} k l s s'
    (\<lambda>l'. lkb_status l' = 0 \<and> lkb_grmode l' = DLM_LOCK_IV \<and> lkb_ref l' = lkb_ref l - 2)"
proof -
  have l: "ls_lkbidr s k = Some l" using m by (simp add: member_def)
  obtain s1 where s1: "set_lvb_unlock env r k s = Some s1" "same s s1"
    using set_lvb_unlock_keeps [OF x l] by (rule keepsE)
  obtain l1 where l1: "member s1 r k l1" "lkb_core l1 = lkb_core l" by (rule member_same [OF s1(2) m])
  obtain x1 where x1: "ls_rsbs s1 r = Some x1" using same_rsb [OF s1(2) x] by blast
  obtain s2 where s2: "us_remove_lock r k s1 = Some s2" "outcome r {k} k l1 s1 s2
      (\<lambda>l'. lkb_status l' = 0 \<and> lkb_grmode l' = DLM_LOCK_IV \<and> lkb_ref l' = lkb_ref l1 - 2)"
    using us_remove_lock_removes [OF master_ok_same [OF s1(2) ok] x1 l1(1)] st ref
    by (auto simp: lkb_coreD [OF l1(2)])
  have "outcome r {k} k l s s2
      (\<lambda>l'. lkb_status l' = 0 \<and> lkb_grmode l' = DLM_LOCK_IV \<and> lkb_ref l' = lkb_ref l - 2)"
    using outcome_trans [OF only_same [OF s1(2)] s2(2)] by (simp add: lkb_coreD [OF l1(2)])
  then obtain s3 where "queue_cast k (-DLM_EUNLOCK) s2 = Some s3" "outcome r {k} k l s s3
      (\<lambda>l'. lkb_status l' = 0 \<and> lkb_grmode l' = DLM_LOCK_IV \<and> lkb_ref l' = lkb_ref l - 2)"
    using outcome_cast [OF _ core_pred_gone] by blast
  with s1(1) s2(1) show ?thesis by (auto simp: do_unlock_def remove_lock_def)
qed

section \<open>Cancel\<close>

text \<open>A granted lock is left alone, a conversion falls back to the granted mode, a waiting
  request is removed.\<close>

definition cancel_result :: "dlm_lkb \<Rightarrow> int \<Rightarrow> dlm_lkb \<Rightarrow> bool" where
  "cancel_result l e l' \<longleftrightarrow> lkb_rqmode l' = DLM_LOCK_IV \<and> lkb_grmode l' = lkb_grmode l \<and>
     (lkb_status l = DLM_LKSTS_GRANTED \<and> e = 0 \<and> lkb_status l' = DLM_LKSTS_GRANTED \<and> lkb_ref l' = lkb_ref l \<or>
      lkb_status l = DLM_LKSTS_CONVERT \<and> e = -DLM_ECANCEL \<and> lkb_status l' = DLM_LKSTS_GRANTED \<and>
        lkb_ref l' = lkb_ref l \<or>
      lkb_status l = DLM_LKSTS_WAITING \<and> e = -DLM_ECANCEL \<and> lkb_status l' = 0 \<and> lkb_ref l' = lkb_ref l - 2)"

lemma core_pred_cancel: "core_pred (cancel_result l e)"
  unfolding core_pred_def
proof (intro allI impI)
  fix l1 l2 assume c: "lkb_core l2 = lkb_core l1" and "cancel_result l e l1"
  then show "cancel_result l e l2" by (simp add: cancel_result_def lkb_coreD [OF c])
qed

text \<open>Dropping the requested mode of a lock that is not converting or waiting.\<close>

lemma wf_drop_rq: "lkb_wf l \<Longrightarrow> lkb_wf (l\<lparr>lkb_rqmode := DLM_LOCK_IV\<rparr>)"
  by (simp add: lkb_wf_def is_master_copy_def iflag_def)

lemma revert_lock_keeps:
  assumes ok: "master_ok s r" and x: "ls_rsbs s r = Some x" and m: "member s r k l"
    and st: "lkb_status l \<noteq> 0" and ref: "lkb_status l = DLM_LKSTS_WAITING \<Longrightarrow> 3 \<le> lkb_ref l"
  shows "\<exists>e s'. revert_lock env r k s = Some (e, s') \<and>
    outcome r {k} k l s s' (cancel_result l (if e = 0 then 0 else -DLM_ECANCEL)) \<and>
    (e = 0 \<longleftrightarrow> lkb_status l = DLM_LKSTS_GRANTED)"
proof -
  have l: "ls_lkbidr s k = Some l" "lkb_resource l = Some r" "lkb_wf l"
    using m by (auto simp: member_def)
  have qs: "queues_ok s r x" using ok x by (auto simp: master_ok_def)
  have q: "queued_ok r (lkb_status l) l"
    and st3: "lkb_status l \<in> {DLM_LKSTS_WAITING, DLM_LKSTS_GRANTED, DLM_LKSTS_CONVERT}"
    using member_queued [OF ok m st] by auto
  have dist: "distinct (rsb_queues x)" and k: "k \<in> set (rsb_queues x)"
    and live: "\<forall>j\<in>set (res_grantqueue x). ls_lkbidr s j \<noteq> None"
    using qs l st by (auto simp: queues_ok_def on_queue_def)
  let ?l1 = "l\<lparr>lkb_rqmode := DLM_LOCK_IV\<rparr>"
  let ?s1 = "s\<lparr>ls_lkbidr := (ls_lkbidr s)(k \<mapsto> ?l1)\<rparr>"
  have own: "lkb_status l \<in> {DLM_LKSTS_GRANTED, DLM_LKSTS_CONVERT} \<Longrightarrow>
      \<forall>j\<in>holders x - {k}. compat (gr_mode s j) (lkb_grmode l)"
    using own_mode_compat [OF ok x l(1)] holders_member [OF ok x m] by auto
  consider "lkb_status l = DLM_LKSTS_GRANTED" | "lkb_status l = DLM_LKSTS_CONVERT"
    | "lkb_status l = DLM_LKSTS_WAITING" using st3 by auto
  then show ?thesis
  proof cases
    case 1
    have "outcome r {k} k l s ?s1 (cancel_result l 0)"
    proof (rule outcome_placed [OF ok x l(1,2), where l' = ?l1])
      show "placed k DLM_LKSTS_GRANTED x x" using placed_here [OF qs l(1,2)] 1 by simp
      show "ls_rsbs ?s1 = (ls_rsbs s)(r \<mapsto> x)" using x by (simp add: fun_upd_idem)
    qed (use 1 q own l wf_drop_rq in \<open>auto simp: queued_ok_def modes_ok_def cancel_result_def\<close>)
    with 1 l(1) show ?thesis by (auto simp: revert_lock_def)
  next
    case 2
    have live1: "\<forall>j\<in>set (res_grantqueue x). ls_lkbidr ?s1 j \<noteq> None" using live by simp
    obtain s2 x2 where s2: "move_lkb env r k DLM_LKSTS_GRANTED ?s1 = Some s2"
      "ls_lkbidr s2 = (ls_lkbidr s)(k \<mapsto> ?l1\<lparr>lkb_timestamp := ktime env, lkb_status := DLM_LKSTS_GRANTED\<rparr>)"
      "ls_rsbs s2 = (ls_rsbs s)(r \<mapsto> x2)" "placed k DLM_LKSTS_GRANTED x x2"
      "tables s2 = tables s"
      using move_lkb_spec [of ?s1 k ?l1 r x DLM_LKSTS_GRANTED env] x dist k live1 q
      by (auto simp: queued_ok_def)
    have wf: "lkb_wf (?l1\<lparr>lkb_timestamp := ktime env, lkb_status := DLM_LKSTS_GRANTED\<rparr>)"
      using l(3) by (simp add: lkb_wf_def is_master_copy_def iflag_def)
    have "outcome r {k} k l s s2 (cancel_result l (-DLM_ECANCEL))"
      by (rule outcome_placed [OF ok x l(1,2) s2(2,3,4)])
        (use 2 q own l wf s2(5) in \<open>auto simp: queued_ok_def modes_ok_def cancel_result_def\<close>)
    with 2 l(1) s2(1) show ?thesis by (auto simp: revert_lock_def)
  next
    case 3
    have q1: "queued_ok r DLM_LKSTS_WAITING l" using q 3 by simp
    obtain s3 where s3: "us_remove_lock r k ?s1 = Some s3" "ls_lkbidr s3 = (ls_lkbidr s)(k \<mapsto>
        ?l1\<lparr>lkb_status := 0, lkb_grmode := DLM_LOCK_IV, lkb_ref := lkb_ref l - 2\<rparr>)"
      "ls_rsbs s3 = (ls_rsbs s)(r \<mapsto> unqueue k x)" "tables s3 = tables s"
      using us_remove_lock_spec [of ?s1 k ?l1 r x] x k ref 3 by auto
    have "outcome r {k} k l s s3 (cancel_result l (-DLM_ECANCEL))"
      by (rule outcome_placed [OF ok x l(1,2) s3(2,3) placed_unqueue [OF dist]])
        (use 3 q1 l s3(4) in \<open>simp_all add: lkb_wf_def is_master_copy_def iflag_def cancel_result_def
           queued_ok_def modes_ok_def\<close>)
    with 3 l(1) s3(1) show ?thesis by (auto simp: revert_lock_def)
  qed
qed

lemma do_cancel_keeps:
  assumes ok: "master_ok s r" and x: "ls_rsbs s r = Some x" and m: "member s r k l"
    and st: "lkb_status l \<noteq> 0" and ref: "lkb_status l = DLM_LKSTS_WAITING \<Longrightarrow> 3 \<le> lkb_ref l"
  shows "\<exists>e s'. do_cancel env r k s = Some (e, s') \<and> outcome r {k} k l s s' (cancel_result l e)"
proof -
  obtain e s1 where e: "revert_lock env r k s = Some (e, s1)"
    "outcome r {k} k l s s1 (cancel_result l (if e = 0 then 0 else -DLM_ECANCEL))"
    using revert_lock_keeps [OF ok x m st ref] by blast
  show ?thesis
  proof (cases "e = 0")
    case True
    with e show ?thesis by (auto simp: do_cancel_def)
  next
    case False
    then obtain s2 where "queue_cast k (-DLM_ECANCEL) s1 = Some s2"
      "outcome r {k} k l s s2 (cancel_result l (-DLM_ECANCEL))"
      using outcome_cast [OF _ core_pred_cancel, of r "{k}" k l s s1 l "-DLM_ECANCEL"] e(2) by auto
    with False e(1) show ?thesis by (auto simp: do_cancel_def)
  qed
qed

section \<open>Convert\<close>

text \<open>What the callers of \<open>do_convert\<close> have checked: a requested mode, a queued conversion
  (\<open>QUECVT\<close>) of a kind the matrix allows, and no alternate mode that is the granted one.\<close>

definition convert_ok :: "dlm_lkb \<Rightarrow> bool" where
  "convert_ok l \<longleftrightarrow> DLM_LOCK_NL \<le> lkb_rqmode l \<and>
     (has_flag (lkb_exflags l) DLM_LKF_QUECVT \<longrightarrow>
        lkb_rqmode l \<noteq> lkb_grmode l \<and> lkb_rqmode l \<noteq> DLM_LOCK_NL) \<and> alt_safe l"

definition convert_result :: "dlm_lkb \<Rightarrow> int \<Rightarrow> dlm_lkb \<Rightarrow> bool" where
  "convert_result l e l' \<longleftrightarrow> lkb_ref l' = lkb_ref l \<and>
     (e = 0 \<and> lkb_status l' = DLM_LKSTS_GRANTED \<and> request_mode l (lkb_grmode l') \<and>
        lkb_rqmode l' = DLM_LOCK_IV \<or>
      e = -EDEADLK \<and> lkb_status l' = DLM_LKSTS_GRANTED \<and> lkb_grmode l' = lkb_grmode l \<and>
        lkb_rqmode l' = DLM_LOCK_IV \<or>
      e = -EINPROGRESS \<and> can_be_queued l \<and> lkb_status l' = DLM_LKSTS_CONVERT \<and>
        (lkb_grmode l' = lkb_grmode l \<or> lkb_grmode l' = DLM_LOCK_NL) \<and> lkb_rqmode l' = lkb_rqmode l \<or>
      e = -EAGAIN \<and> \<not> can_be_queued l \<and> lkb_status l' = DLM_LKSTS_GRANTED \<and>
        (lkb_grmode l' = lkb_grmode l \<or> lkb_grmode l' = DLM_LOCK_NL))"

lemma core_pred_convert: "core_pred (convert_result l e)"
  unfolding core_pred_def
proof (intro allI impI)
  fix l1 l2 assume c: "lkb_core l2 = lkb_core l1" and "convert_result l e l1"
  then show "convert_result l e l2" by (simp add: convert_result_def lkb_coreD [OF c])
qed

text \<open>A conversion that was refused asks for a mode above \<open>NL\<close> other than the granted one.\<close>

lemma refused_convert:
  assumes ok: "master_ok s r" and x: "ls_rsbs s r = Some x" and m: "member s r k l"
    and st: "lkb_status l = DLM_LKSTS_GRANTED" and c: "convert_ok l"
    and no: "\<not> grant_rule s x k l True False"
  shows "DLM_LOCK_NL < lkb_rqmode l" and "lkb_rqmode l \<noteq> lkb_grmode l"
    and "\<not> has_flag (lkb_exflags l) DLM_LKF_EXPEDITE"
proof -
  have l: "ls_lkbidr s k = Some l" using m by (simp add: member_def)
  have con: "modes.consistent (gr_mode s) (holders x)" using ok x by (auto simp: master_ok_def)
  have k: "k \<in> holders x" using holders_member [OF ok x m] st by simp
  have gr: "lkb_grmode l \<noteq> DLM_LOCK_IV"
    using member_queued [OF ok m] st by (auto simp: queued_ok_def modes_ok_def)
  have own: "\<forall>j\<in>holders x - {k}. compat (gr_mode s j) (lkb_grmode l)"
    by (rule own_mode_compat [OF ok x l k])
  have nl: "\<forall>j\<in>holders x - {k}. compat (gr_mode s j) DLM_LOCK_NL"
    using holders_valid [OF con] compat_null by blast
  have "\<not> (lkb_rqmode l = lkb_grmode l \<or> lkb_rqmode l = DLM_LOCK_NL)"
    using no gr own nl c by (auto simp: grant_rule_def order_ok_def convert_ok_def)
  then show "DLM_LOCK_NL < lkb_rqmode l" "lkb_rqmode l \<noteq> lkb_grmode l"
    using c by (auto simp: convert_ok_def)
  show "\<not> has_flag (lkb_exflags l) DLM_LKF_EXPEDITE" using no by (simp add: grant_rule_def)
qed

text \<open>The end of \<open>do_convert\<close>: the lock is granted after all, or goes to the convert queue, or
  the conversion fails.\<close>

definition convert_rest ::
  "dlm_env \<Rightarrow> rsbp \<Rightarrow> lkid \<Rightarrow> bool \<Rightarrow> dlm_ls \<Rightarrow> (int \<times> dlm_ls) option" where
  "convert_rest env r lkb again s = do {
     l \<leftarrow> ls_lkbidr s lkb;
     if again then do {
       s \<leftarrow> grant_lock env r lkb s;
       s \<leftarrow> queue_cast lkb 0 s;
       Some (0, s)
     }
     else if can_be_queued l then do {
       s \<leftarrow> del_lkb r lkb s;
       s \<leftarrow> add_lkb env r lkb DLM_LKSTS_CONVERT s;
       Some (-EINPROGRESS, s)
     }
     else do {
       s \<leftarrow> queue_cast lkb (-EAGAIN) s;
       Some (-EAGAIN, s)
     }
   }"

lemma convert_rest_keeps:
  assumes ok: "master_ok s r" and x: "ls_rsbs s r = Some x" and m: "member s r k l1"
    and st: "lkb_status l1 = DLM_LKSTS_GRANTED" and gr: "lkb_grmode l1 = lkb_grmode l \<or> lkb_grmode l1 = DLM_LOCK_NL"
    and rq: "lkb_rqmode l1 = lkb_rqmode l" "DLM_LOCK_NL < lkb_rqmode l1" "lkb_rqmode l1 \<noteq> lkb_grmode l1"
    and alt: "alt_safe l1" and ref: "lkb_ref l1 = lkb_ref l" and ex: "lkb_exflags l1 = lkb_exflags l"
    and yes: "again \<Longrightarrow> \<forall>j\<in>holders x - {k}. compat (gr_mode s j) (lkb_rqmode l1)"
  shows "\<exists>e s'. convert_rest env r k again s = Some (e, s') \<and> outcome r {k} k l s s' (convert_result l e)"
proof -
  have l1: "ls_lkbidr s k = Some l1" "lkb_resource l1 = Some r" "lkb_wf l1"
    using m by (auto simp: member_def)
  have qs: "queues_ok s r x" using ok x by (auto simp: master_ok_def)
  have q: "queued_ok r DLM_LKSTS_GRANTED l1" using member_queued [OF ok m] st by simp
  have cbq: "can_be_queued l1 = can_be_queued l" by (simp add: can_be_queued_def ex)
  consider "again" | "\<not> again" "can_be_queued l" | "\<not> again" "\<not> can_be_queued l" by blast
  then show ?thesis
  proof cases
    case 1
    obtain s2 where s2: "grant_lock env r k s = Some s2" "granted r k l1 x s s2"
      using grant_lock_grants [OF ok x m _ yes [OF 1]] rq(2) by auto
    have "outcome r {k} k l s s2 (convert_result l 0)"
      using outcome_weaken [OF granted_outcome [OF s2(2)], of "convert_result l 0"] st rq(1) ref
      by (auto simp: convert_result_def request_mode_def outcome_def ex)
    then obtain s3 where "queue_cast k 0 s2 = Some s3" "outcome r {k} k l s s3 (convert_result l 0)"
      using outcome_cast [OF _ core_pred_convert] by blast
    with 1 l1(1) s2(1) show ?thesis by (auto simp: convert_rest_def)
  next
    case 2
    have dist: "distinct (rsb_queues x)" and k: "k \<in> set (rsb_queues x)"
      and live: "\<forall>j\<in>set (res_grantqueue x). ls_lkbidr s j \<noteq> None"
      using qs l1 st by (auto simp: queues_ok_def on_queue_def)
    let ?l2 = "l1\<lparr>lkb_ref := lkb_ref l1 - 1, lkb_status := 0\<rparr>"
    obtain s2 where s2: "del_lkb r k s = Some s2" "ls_lkbidr s2 = (ls_lkbidr s)(k \<mapsto> ?l2)"
      "ls_rsbs s2 = (ls_rsbs s)(r \<mapsto> unqueue k x)" "tables s2 = tables s"
      using del_lkb_spec [OF l1(1) _ x k] q by (auto simp: queued_ok_def)
    have p0: "placed k 0 x (unqueue k x)" by (rule placed_unqueue [OF dist])
    have u: "distinct (rsb_queues (unqueue k x))" "k \<notin> set (rsb_queues (unqueue k x))"
      "\<forall>j\<in>set (res_grantqueue (unqueue k x)). ls_lkbidr s2 j \<noteq> None"
      using p0 live by (auto simp: placed_def rsb_queues_def s2(2))
    have k2: "ls_lkbidr s2 k = Some ?l2" "ls_rsbs s2 r = Some (unqueue k x)" by (simp_all add: s2)
    let ?l3 = "l1\<lparr>lkb_ref := lkb_ref l1, lkb_timestamp := ktime env, lkb_status := DLM_LKSTS_CONVERT\<rparr>"
    from add_lkb_spec [OF k2(1) _ k2(2) u, of DLM_LKSTS_CONVERT env] q
    obtain s3 x3 where s3: "add_lkb env r k DLM_LKSTS_CONVERT s2 = Some s3"
      "ls_lkbidr s3 = (ls_lkbidr s)(k \<mapsto> ?l3)" "ls_rsbs s3 = (ls_rsbs s)(r \<mapsto> x3)"
      "placed k DLM_LKSTS_CONVERT (unqueue k x) x3" "tables s3 = tables s"
      by (auto simp: s2(2,3,4) queued_ok_def)
    have wf: "lkb_wf ?l3" using l1(3) by (simp add: lkb_wf_def is_master_copy_def iflag_def)
    have q3: "queued_ok r DLM_LKSTS_CONVERT ?l3"
      using q wf rq alt by (simp add: queued_ok_def modes_ok_def alt_safe_def)
    have own: "\<forall>j\<in>holders x - {k}. compat (gr_mode s j) (lkb_grmode l1)"
      using own_mode_compat [OF ok x l1(1)] holders_member [OF ok x m] st by simp
    have "outcome r {k} k l1 s s3 (convert_result l (-EINPROGRESS))"
      by (rule outcome_placed [OF ok x l1(1,2) s3(2,3) placed_trans [OF p0 s3(4)]])
        (use q3 wf own l1 2 gr rq ref s3(5) in \<open>simp_all add: convert_result_def\<close>)
    then have "outcome r {k} k l s s3 (convert_result l (-EINPROGRESS))" by (simp add: outcome_def ex)
    with 2 cbq l1(1) s2(1) s3(1) show ?thesis by (auto simp: convert_rest_def)
  next
    case 3
    have "outcome r {k} k l s s (convert_result l (-EAGAIN))"
      using ok l1 3 gr rq st ref ex by (simp add: outcome_def convert_result_def)
    then obtain s3 where "queue_cast k (-EAGAIN) s = Some s3"
      "outcome r {k} k l s s3 (convert_result l (-EAGAIN))"
      using outcome_cast [OF _ core_pred_convert] by blast
    with 3 cbq l1(1) show ?thesis by (auto simp: convert_rest_def)
  qed
qed

lemma outcome_mono: "outcome r A k l s s' P \<Longrightarrow> A \<subseteq> B \<Longrightarrow> outcome r B k l s s' P"
  unfolding outcome_def using only_mono by blast

text \<open>\<open>do_convert\<close> up to its end: the pass over the converting locks that a demoted lock
  makes room for.\<close>

definition convert_pending ::
  "dlm_env \<Rightarrow> rsbp \<Rightarrow> lkid \<Rightarrow> bool \<Rightarrow> dlm_ls \<Rightarrow> (bool \<times> dlm_ls) option" where
  "convert_pending env r lkb demoted s =
     (if demoted then do {
        (_, _, _, s) \<leftarrow> grant_pending_convert env r DLM_LOCK_IV False 0 s;
        again \<leftarrow> us_can_be_granted r lkb True False s;
        Some (again, s)
      } else Some (False, s))"

lemma do_convert_alt:
  "do_convert env r lkb s = do {
     (rv, deadlk, s) \<leftarrow> can_be_granted r lkb True False True s;
     l \<leftarrow> ls_lkbidr s lkb;
     if rv then do {
       s \<leftarrow> grant_lock env r lkb s;
       s \<leftarrow> queue_cast lkb 0 s;
       Some (0, s)
     }
     else if deadlk \<noteq> 0 \<and> \<not> has_flag (lkb_exflags l) DLM_LKF_NODLCKWT then do {
       (_, s) \<leftarrow> revert_lock env r lkb s;
       s \<leftarrow> queue_cast lkb (-EDEADLK) s;
       Some (-EDEADLK, s)
     }
     else do {
       (again, s) \<leftarrow> convert_pending env r lkb (is_demoted l) s;
       convert_rest env r lkb again s
     }
   }"
  unfolding do_convert_def convert_pending_def convert_rest_def by (rule refl)

lemma convert_pending_keeps:
  assumes ok: "master_ok s r" and x: "ls_rsbs s r = Some x" and m: "member s r k l"
    and st: "lkb_status l = DLM_LKSTS_GRANTED" and ex: "\<not> has_flag (lkb_exflags l) DLM_LKF_EXPEDITE"
  shows "\<exists>again s' x' l'. convert_pending env r k dem s = Some (again, s') \<and> master_ok s' r \<and>
    only r (set (res_convertqueue x) \<union> set (res_waitqueue x)) s s' \<and> ls_rsbs s' r = Some x' \<and>
    member s' r k l' \<and> lkb_core l' = lkb_core l \<and>
    (again \<longrightarrow> (\<forall>j\<in>holders x' - {k}. compat (gr_mode s' j) (lkb_rqmode l')))"
proof (cases dem)
  case False
  then have "convert_pending env r k dem s = Some (False, s)" by (simp add: convert_pending_def)
  with ok x m only_refl show ?thesis by blast
next
  case True
  have l: "ls_lkbidr s k = Some l" using m by (simp add: member_def)
  have qs: "queues_ok s r x" using ok x by (auto simp: master_ok_def)
  have kq: "k \<notin> set (res_convertqueue x) \<union> set (res_waitqueue x)"
    using queue_status(2,3) [OF qs l] st by simp
  obtain h c n s1 where 1: "grant_pending_convert env r DLM_LOCK_IV False 0 s = Some (h, c, n, s1)"
    "pass_ok r x s s1 False"
    using grant_pending_convert_keeps [OF ok x, of env DLM_LOCK_IV False 0] by blast
  obtain x1 where p: "master_ok s1 r"
    "only r (set (res_convertqueue x) \<union> set (res_waitqueue x)) s s1" "ls_rsbs s1 r = Some x1"
    using 1(2) by (rule pass_okE)
  obtain l1 where l1: "ls_lkbidr s1 k = Some l1" "lkb_core l1 = lkb_core l"
    using p(2) l by (rule only_lkb) (use kq in blast)
  have m1: "member s1 r k l1" by (rule member_core [OF m l1])
  have q1: "queues_ok s1 r x1" using p(1,3) by (auto simp: master_ok_def)
  have "us_can_be_granted r k True False s1 = Some (grant_rule s1 x1 k l1 True False)"
    by (rule us_can_be_granted_rule [OF _ p(3) l1(1)])
      (use queues_ok_live [OF q1] m1 in \<open>auto simp: member_def lkb_wf_def asks_ok_def\<close>)
  then have "convert_pending env r k dem s = Some (grant_rule s1 x1 k l1 True False, s1)"
    using True 1(1) by (simp add: convert_pending_def)
  moreover have "grant_rule s1 x1 k l1 True False \<longrightarrow>
      (\<forall>j\<in>holders x1 - {k}. compat (gr_mode s1 j) (lkb_rqmode l1))"
    using ex by (simp add: grant_rule_def lkb_coreD [OF l1(2)])
  ultimately show ?thesis using p m1 l1(2) by blast
qed

lemma do_convert_keeps:
  assumes ok: "master_ok s r" and x: "ls_rsbs s r = Some x" and m: "member s r k l"
    and st: "lkb_status l = DLM_LKSTS_GRANTED" and c: "convert_ok l"
  shows "\<exists>e s'. do_convert env r k s = Some (e, s') \<and>
    outcome r ({k} \<union> set (res_convertqueue x) \<union> set (res_waitqueue x)) k l s s' (convert_result l e)"
proof -
  let ?A = "{k} \<union> set (res_convertqueue x) \<union> set (res_waitqueue x)"
  have l: "ls_lkbidr s k = Some l" "lkb_wf l" using m by (auto simp: member_def)
  have qs: "queues_ok s r x" using ok x by (auto simp: master_ok_def)
  have ask: "asks_ok x k l True" by (simp add: asks_ok_def)
  obtain rv err s1 where d: "can_be_granted r k True False True s = Some (rv, err, s1)"
    "decided s x k l (rv, err, s1)" using can_be_granted_decides [OF qs x l ask] by fast
  obtain l1 where 1: "master_ok s1 r" "only r {k} s s1" "ls_rsbs s1 r = Some x" "member s1 r k l1"
    "retuned l l1" and yes: "rv \<longrightarrow> (\<forall>j\<in>holders x - {k}. compat (gr_mode s1 j) (lkb_rqmode l1))"
    using decided_keeps [OF ok x m d(2)] by fastforce
  note same1 = retunedD [OF 1(5)]
  have A: "only r ?A s s1" by (rule only_mono [OF 1(2)]) blast
  have l1: "ls_lkbidr s1 k = Some l1" using 1(4) by (simp add: member_def)
  consider (now) rv
    | (dead) "\<not> rv" "err \<noteq> 0" "\<not> has_flag (lkb_exflags l) DLM_LKF_NODLCKWT"
    | (rest) "\<not> rv" "\<not> (err \<noteq> 0 \<and> \<not> has_flag (lkb_exflags l) DLM_LKF_NODLCKWT)" by blast
  then show ?thesis
  proof cases
    case now
    have "lkb_rqmode l1 \<noteq> DLM_LOCK_IV"
      using retuned_modes(2) [OF 1(5)] c by (auto simp: convert_ok_def)
    then obtain s2 where s2: "grant_lock env r k s1 = Some s2" "granted r k l1 x s1 s2"
      using grant_lock_grants [OF 1(1,3,4)] yes now by blast
    have "outcome r ?A k l s s2 (convert_result l 0)"
      by (rule outcome_weaken [OF outcome_trans [OF A outcome_mono [OF granted_outcome [OF s2(2)]]]])
        (use st same1 retuned_request_mode [OF 1(5)] in \<open>auto simp: convert_result_def\<close>)
    then obtain s3 where "queue_cast k 0 s2 = Some s3" "outcome r ?A k l s s3 (convert_result l 0)"
      using outcome_cast [OF _ core_pred_convert] by blast
    with now d(1) l1 s2(1) show ?thesis by (auto simp: do_convert_def)
  next
    case dead
    have gr1: "lkb_grmode l1 = lkb_grmode l" using d(2) dead l1 by (auto simp: decided_def)
    obtain e s2 where s2: "revert_lock env r k s1 = Some (e, s2)"
      "outcome r {k} k l1 s1 s2 (cancel_result l1 0)"
      using revert_lock_keeps [OF 1(1,3,4)] st same1 by fastforce
    have "outcome r ?A k l s s2 (convert_result l (-EDEADLK))"
      by (rule outcome_weaken [OF outcome_trans [OF A outcome_mono [OF s2(2)]]])
        (use st same1 gr1 in \<open>auto simp: convert_result_def cancel_result_def\<close>)
    then obtain s3 where "queue_cast k (-EDEADLK) s2 = Some s3"
      "outcome r ?A k l s s3 (convert_result l (-EDEADLK))"
      using outcome_cast [OF _ core_pred_convert] by blast
    with dead d(1) l1 s2(1) same1 show ?thesis by (auto simp: do_convert_def)
  next
    case rest
    have "\<not> grant_rule s x k l True False"
      by (rule can_be_granted_refused [OF qs x l ask]) (use d(1) rest in simp)
    from refused_convert [OF ok x m st c this] have ref: "DLM_LOCK_NL < lkb_rqmode l"
      "lkb_rqmode l \<noteq> lkb_grmode l" "\<not> has_flag (lkb_exflags l) DLM_LKF_EXPEDITE" .
    have rq1: "lkb_rqmode l1 = lkb_rqmode l" using d(2) rest l1 by (auto simp: decided_def)
    have gr1: "lkb_grmode l1 = lkb_grmode l \<or> lkb_grmode l1 = DLM_LOCK_NL"
      using retuned_modes(1) [OF 1(5)] by blast
    obtain again s2 x2 l2 where 2: "convert_pending env r k (is_demoted l1) s1 = Some (again, s2)"
      "master_ok s2 r" "only r (set (res_convertqueue x) \<union> set (res_waitqueue x)) s1 s2"
      "ls_rsbs s2 r = Some x2" "member s2 r k l2" "lkb_core l2 = lkb_core l1"
      "again \<longrightarrow> (\<forall>j\<in>holders x2 - {k}. compat (gr_mode s2 j) (lkb_rqmode l2))"
      using convert_pending_keeps [OF 1(1,3,4), of env "is_demoted l1"] st same1 ref(3) by metis
    have alt: "alt_safe l2"
      using c gr1 by (auto simp: convert_ok_def alt_safe_def lkb_coreD [OF 2(6)] same1)
    obtain e s3 where s3: "convert_rest env r k again s2 = Some (e, s3)"
      "outcome r {k} k l s2 s3 (convert_result l e)"
      using convert_rest_keeps [OF 2(2,4,5), of l again env] st same1 gr1 rq1 ref 2(7) alt
      by (auto simp: lkb_coreD [OF 2(6)])
    have "only r ?A s s2"
      by (rule only_trans [OF A only_mono [OF 2(3)]]) blast
    then have "outcome r ?A k l s s3 (convert_result l e)"
      by (rule outcome_trans [OF _ outcome_mono [OF s3(2)]]) auto
    then show ?thesis using rest d(1) l1 2(1) s3(1) same1 by (auto simp: do_convert_alt)
  qed
qed

end
