(* ===== verification/Entry.thy ===== *)
theory Entry
  imports Master
begin

text \<open>
  The stage-3 operations on a resource mastered here: the operation and then its effects, with
  the results of the operation. The effects send blocking callbacks, or grant locks that were
  waiting; the lock the call was about keeps its result. Then the same for the stage-2 calls,
  which validate the arguments first and hold the resource across the operation.
\<close>

section \<open>Effects\<close>

lemma outcome_live_mode:
  assumes "outcome r A k l s s' P"
  shows "live_mode s' k"
  using assms by (auto simp: outcome_def live_mode_def lkb_wf_def)

lemma outcome_rsb:
  assumes "outcome r A k l s s' P"
  shows "\<exists>x'. ls_rsbs s' r = Some x'"
  using assms by (auto simp: outcome_def master_ok_def)

lemma outcome_bast:
  assumes o: "outcome r A k l s s1 P" and P: "core_pred P"
  shows "\<exists>s2. send_blocking_asts env r k s1 = Some s2 \<and> outcome r A k l s s2 P"
proof -
  obtain x where x: "ls_rsbs s1 r = Some x" using outcome_rsb [OF o] by blast
  have ok: "master_ok s1 r" using o by (simp add: outcome_def)
  obtain s2 where "send_blocking_asts env r k s1 = Some s2" "same s1 s2"
    by (rule keepsE [OF send_blocking_asts_keeps [OF ok x outcome_live_mode [OF o]]])
  with outcome_same [OF o _ P] show ?thesis by blast
qed

lemma outcome_bast_all:
  assumes o: "outcome r A k l s s1 P" and P: "core_pred P"
  shows "\<exists>s2. send_blocking_asts_all env r k s1 = Some s2 \<and> outcome r A k l s s2 P"
proof -
  obtain x where x: "ls_rsbs s1 r = Some x" using outcome_rsb [OF o] by blast
  have ok: "master_ok s1 r" using o by (simp add: outcome_def)
  obtain s2 where "send_blocking_asts_all env r k s1 = Some s2" "same s1 s2"
    by (rule keepsE [OF send_blocking_asts_all_keeps [OF ok x outcome_live_mode [OF o]]])
  with outcome_same [OF o _ P] show ?thesis by blast
qed

text \<open>A pass over the waiting locks does not touch a lock that is granted or gone.\<close>

lemma outcome_pending:
  assumes o: "outcome r A k l s s1 P" and P: "core_pred P"
    and st: "\<And>l'. P l' \<Longrightarrow> lkb_status l' = 0 \<or> lkb_status l' = DLM_LKSTS_GRANTED"
  shows "\<exists>c s2. grant_pending_locks env r n s1 = Some (c, s2) \<and> outcome r UNIV k l s s2 P"
  using o
proof (rule outcomeE)
  fix l1
  assume l1: "master_ok s1 r" "only r A s s1" "ls_lkbidr s1 k = Some l1" "lkb_resource l1 = Some r"
    "lkb_wf l1" "lkb_exflags l1 = lkb_exflags l" "P l1"
  obtain x where x: "ls_rsbs s1 r = Some x" "queues_ok s1 r x"
    using l1(1) by (auto simp: master_ok_def)
  obtain c s2 where s2: "grant_pending_locks env r n s1 = Some (c, s2)" "pass_ok r x s1 s2 False"
    using grant_pending_locks_keeps [OF l1(1) x(1)] by blast
  obtain x2 where p: "master_ok s2 r" "ls_rsbs s2 r = Some x2"
    "only r (set (res_convertqueue x) \<union> set (res_waitqueue x)) s1 s2"
    using s2(2) by (rule pass_okE)
  have "k \<notin> set (res_convertqueue x) \<union> set (res_waitqueue x)"
    using queue_status(2,3) [OF x(2) l1(3)] st [OF l1(7)] by auto
  with only_lkb [OF p(3) l1(3)] obtain l2 where l2: "ls_lkbidr s2 k = Some l2" "lkb_core l2 = lkb_core l1"
    by blast
  have "only r UNIV s s2"
    by (rule only_trans [OF only_mono [OF l1(2)] only_mono [OF p(3)]]) simp_all
  moreover have "P l2" using P l1(7) l2(2) unfolding core_pred_def by blast
  ultimately have "outcome r UNIV k l s s2 P"
    using p(1) l1 l2(1) lkb_wf_core [OF l2(2)] by (simp add: outcome_def lkb_coreD [OF l2(2)])
  with s2(1) show ?thesis by blast
qed

section \<open>Stage 3\<close>

lemma request_effects_keep:
  assumes o: "outcome r A k l s s1 P" and P: "core_pred P"
  shows "\<exists>s2. do_request_effects env r k e s1 = Some s2 \<and> outcome r A k l s s2 P"
proof -
  obtain l1 where "ls_lkbidr s1 k = Some l1" using o by (rule outcomeE)
  then show ?thesis
    using o outcome_bast [OF o P] outcome_bast_all [OF o P] by (auto simp: do_request_effects_def)
qed

lemma convert_effects_keep:
  assumes o: "outcome r A k l s s1 (convert_result l e)"
  shows "\<exists>s2. do_convert_effects env r k e s1 = Some s2 \<and> outcome r UNIV k l s s2 (convert_result l e)"
proof -
  have P: "core_pred (convert_result l e)" by (rule core_pred_convert)
  have u: "outcome r UNIV k l s s1 (convert_result l e)" by (rule outcome_mono [OF o]) simp
  obtain l1 where l1: "ls_lkbidr s1 k = Some l1" using o by (rule outcomeE)
  consider "e = 0" | "e \<noteq> 0" by blast
  then show ?thesis
  proof cases
    case 1
    have "\<exists>c s2. grant_pending_locks env r 0 s1 = Some (c, s2) \<and> outcome r UNIV k l s s2 (convert_result l e)"
      by (rule outcome_pending [OF o P]) (use 1 in \<open>auto simp: convert_result_def\<close>)
    with 1 show ?thesis by (auto simp: do_convert_effects_def)
  next
    case 2
    with l1 u outcome_bast [OF u P] outcome_bast_all [OF u P] show ?thesis
      by (auto simp: do_convert_effects_def)
  qed
qed

lemma us_convert_lock_keeps:
  assumes ok: "master_ok s r" and x: "ls_rsbs s r = Some x" and local: "res_nodeid x = 0"
    and m: "member s r k l" and st: "lkb_status l = DLM_LKSTS_GRANTED" and c: "convert_ok l"
  shows "\<exists>e s'. us_convert_lock env r k s = Some (e, s') \<and> outcome r UNIV k l s s' (convert_result l e)"
proof -
  obtain e s1 where 1: "do_convert env r k s = Some (e, s1)"
    "outcome r ({k} \<union> set (res_convertqueue x) \<union> set (res_waitqueue x)) k l s s1 (convert_result l e)"
    using do_convert_keeps [OF ok x m st c] by blast
  obtain s2 where "do_convert_effects env r k e s1 = Some s2"
    "outcome r UNIV k l s s2 (convert_result l e)"
    using convert_effects_keep [OF 1(2)] by blast
  with 1(1) x local show ?thesis by (simp add: us_convert_lock_def is_remote_def)
qed

lemma us_unlock_lock_keeps:
  assumes ok: "master_ok s r" and x: "ls_rsbs s r = Some x" and local: "res_nodeid x = 0"
    and m: "member s r k l" and st: "lkb_status l \<noteq> 0" and ref: "3 \<le> lkb_ref l"
  shows "\<exists>s'. us_unlock_lock env r k s = Some (-DLM_EUNLOCK, s') \<and> outcome r UNIV k l s s'
    (\<lambda>l'. lkb_status l' = 0 \<and> lkb_grmode l' = DLM_LOCK_IV \<and> lkb_ref l' = lkb_ref l - 2)"
proof -
  obtain s1 where 1: "do_unlock env r k s = Some (-DLM_EUNLOCK, s1)" "outcome r {k} k l s s1
      (\<lambda>l'. lkb_status l' = 0 \<and> lkb_grmode l' = DLM_LOCK_IV \<and> lkb_ref l' = lkb_ref l - 2)"
    using do_unlock_keeps [OF ok x m st ref] by blast
  obtain c s2 where "grant_pending_locks env r 0 s1 = Some (c, s2)" "outcome r UNIV k l s s2
      (\<lambda>l'. lkb_status l' = 0 \<and> lkb_grmode l' = DLM_LOCK_IV \<and> lkb_ref l' = lkb_ref l - 2)"
    using outcome_pending [OF 1(2) core_pred_gone] by blast
  with 1(1) x local show ?thesis
    by (simp add: us_unlock_lock_def is_remote_def do_unlock_effects_def)
qed

lemma us_cancel_lock_keeps:
  assumes ok: "master_ok s r" and x: "ls_rsbs s r = Some x" and local: "res_nodeid x = 0"
    and m: "member s r k l" and st: "lkb_status l \<noteq> 0"
    and ref: "lkb_status l = DLM_LKSTS_WAITING \<Longrightarrow> 3 \<le> lkb_ref l"
  shows "\<exists>e s'. us_cancel_lock env r k s = Some (e, s') \<and> outcome r UNIV k l s s' (cancel_result l e)"
proof -
  obtain e s1 where 1: "do_cancel env r k s = Some (e, s1)" "outcome r {k} k l s s1 (cancel_result l e)"
    using do_cancel_keeps [OF ok x m st ref] by blast
  have "\<exists>s2. do_cancel_effects env r k e s1 = Some s2 \<and> outcome r UNIV k l s s2 (cancel_result l e)"
  proof (cases "e = 0")
    case True
    then show ?thesis using outcome_mono [OF 1(2)] by (auto simp: do_cancel_effects_def)
  next
    case False
    have "\<exists>c s2. grant_pending_locks env r 0 s1 = Some (c, s2) \<and> outcome r UNIV k l s s2 (cancel_result l e)"
      by (rule outcome_pending [OF 1(2) core_pred_cancel]) (auto simp: cancel_result_def)
    with False show ?thesis by (auto simp: do_cancel_effects_def)
  qed
  with 1(1) x local show ?thesis by (auto simp: us_cancel_lock_def is_remote_def)
qed

text \<open>A resource this node has mastered for good, with no lookup under way.\<close>

definition mastered :: "dlm_env \<Rightarrow> dlm_rsb \<Rightarrow> bool" where
  "mastered env x \<longleftrightarrow> res_nodeid x = 0 \<and> res_master_nodeid x = dlm_our_nodeid env \<and>
     res_first_lkid x = 0 \<and> \<not> rsb_flag x RSB_MASTER_UNCERTAIN"

lemma set_master_local:
  assumes ok: "master_ok s r" and x: "ls_rsbs s r = Some x" and local: "mastered env x"
    and m: "member s r k l" and st: "lkb_status l = 0"
  shows "\<exists>s'. set_master env r k s = Some (0, s') \<and> master_ok s' r \<and> only r {k} s s' \<and>
    ls_rsbs s' r = Some x \<and> member s' r k (l\<lparr>lkb_nodeid := 0\<rparr>)"
proof -
  have l: "ls_lkbidr s k = Some l" "lkb_resource l = Some r" "lkb_wf l"
    using m by (auto simp: member_def)
  have qs: "queues_ok s r x" using ok x by (auto simp: master_ok_def)
  let ?s1 = "s\<lparr>ls_lkbidr := (ls_lkbidr s)(k \<mapsto> l\<lparr>lkb_nodeid := 0\<rparr>)\<rparr>"
  have m1: "member ?s1 r k (l\<lparr>lkb_nodeid := 0\<rparr>)"
    using m by (simp add: member_def lkb_wf_def is_master_copy_def iflag_def)
  have rsbs: "ls_rsbs ?s1 = (ls_rsbs s)(r \<mapsto> x)" using x by (simp add: fun_upd_idem)
  have "outcome r {k} k l s ?s1 (\<lambda>l'. True)"
    by (rule outcome_placed [OF ok x l(1,2) _ rsbs, where st = 0 and l' = "l\<lparr>lkb_nodeid := 0\<rparr>"])
      (use placed_here [OF qs l(1,2)] st l(2) m1 in \<open>simp_all add: member_def\<close>)
  moreover have "set_master env r k s = Some (0, ?s1)"
    using x l(1) local by (simp add: set_master_def mastered_def upd_lkb_def)
  ultimately show ?thesis using m1 x by (auto simp: outcome_def)
qed

lemma us_request_lock_keeps:
  assumes ok: "master_ok s r" and x: "ls_rsbs s r = Some x" and local: "mastered env x"
    and m: "member s r k l" and st: "lkb_status l = 0" and rq: "lkb_rqmode l \<noteq> DLM_LOCK_IV"
  shows "\<exists>e s'. us_request_lock env r k s = Some (e, s') \<and> outcome r UNIV k l s s' (request_result l e)"
proof -
  let ?l0 = "l\<lparr>lkb_nodeid := 0\<rparr>"
  have same: "request_result ?l0 = request_result l"
    by (intro ext) (simp add: request_result_def request_mode_def can_be_queued_def)
  obtain s0 where s0: "set_master env r k s = Some (0, s0)" "master_ok s0 r" "only r {k} s s0"
    "ls_rsbs s0 r = Some x" "member s0 r k ?l0"
    using set_master_local [OF ok x local m st] by blast
  obtain e s1 where s1: "do_request env r k s0 = Some (e, s1)"
    "outcome r {k} k ?l0 s0 s1 (request_result l e)"
    using do_request_keeps [OF s0(2,4,5), of env] st rq unfolding same by auto
  have "outcome r {k} k l s s1 (request_result l e)"
    by (rule outcome_trans [OF s0(3) s1(2)]) simp
  then have "outcome r UNIV k l s s1 (request_result l e)" by (rule outcome_mono) simp
  then obtain s2 where "do_request_effects env r k e s1 = Some s2"
    "outcome r UNIV k l s s2 (request_result l e)"
    using request_effects_keep [OF _ core_pred_request] by blast
  with s0(1,4) s1(1) local show ?thesis
    by (auto simp: us_request_lock_def is_remote_def mastered_def)
qed

end
