(* ===== verification/Calm.thy ===== *)
theory Calm
  imports Entry
begin

text \<open>
  What an operation on one resource leaves alone: the invariants of the other resources, the
  pointers between locks and resources, the pool of new resources and the trees. The lemmas
  cover the reference counts of a resource, with its move to the toss tree, updates of a lock
  that keep every queue in order, and the release of a lock.
\<close>

section \<open>Changes that no resource notices\<close>

text \<open>The resources on the trees of a lockspace, and the pointers between its objects: no lock
  is attached anew, resources stay, the pool of new resources is untouched, and none of
  the pool gets on a tree.\<close>

definition tree_nodes :: "dlm_ls \<Rightarrow> rsbp set" where
  "tree_nodes s = (\<Union>b. set_tree (keep (ls_rsbtbl s b)) \<union> set_tree (toss (ls_rsbtbl s b)))"

definition wiring :: "dlm_ls \<Rightarrow> dlm_ls \<Rightarrow> bool" where
  "wiring s s' \<longleftrightarrow>
     (\<forall>k l r. ls_lkbidr s' k = Some l \<and> lkb_resource l = Some r \<longrightarrow>
        (\<exists>l0. ls_lkbidr s k = Some l0 \<and> lkb_resource l0 = Some r)) \<and>
     (\<forall>r. ls_rsbs s' r = None \<longleftrightarrow> ls_rsbs s r = None) \<and>
     ls_new_rsb s' = ls_new_rsb s \<and>
     (\<forall>r\<in>tree_nodes s'. r \<in> tree_nodes s \<or> ls_rsbs s r \<noteq> None \<and> r \<notin> set (ls_new_rsb s))"

lemma wiring_refl [simp]: "wiring s s"
  by (simp add: wiring_def)

lemma wiring_trans: "wiring s s1 \<Longrightarrow> wiring s1 s2 \<Longrightarrow> wiring s s2"
  unfolding wiring_def by (auto simp: subset_iff) metis

lemma tables_nodes: "tables s' = tables s \<Longrightarrow> tree_nodes s' = tree_nodes s \<and> ls_new_rsb s' = ls_new_rsb s"
  by (simp add: tables_def tree_nodes_def)

text \<open>\<open>calm r s s'\<close>: the resources other than \<open>r\<close> keep their invariant, every resource its
  master and every object its place.\<close>

definition calm :: "rsbp \<Rightarrow> dlm_ls \<Rightarrow> dlm_ls \<Rightarrow> bool" where
  "calm r s s' \<longleftrightarrow> wiring s s' \<and> (\<forall>r'. map_option res_nodeid (ls_rsbs s' r') = map_option res_nodeid (ls_rsbs s r')) \<and>
     (\<forall>r'. r' \<noteq> r \<longrightarrow> master_ok s r' \<longrightarrow> master_ok s' r')"

lemma calm_refl [simp]: "calm r s s"
  by (simp add: calm_def)

lemma calm_trans [trans]: "calm r s s1 \<Longrightarrow> calm r s1 s2 \<Longrightarrow> calm r s s2"
  by (auto simp: calm_def intro: wiring_trans)

lemma only_wiring:
  assumes o: "only r A s s'" and x: "ls_rsbs s r = Some x"
  shows "wiring s s'"
proof -
  have "\<exists>l0. ls_lkbidr s k = Some l0 \<and> lkb_resource l0 = Some r'"
    if l': "ls_lkbidr s' k = Some l'" "lkb_resource l' = Some r'" for k l' r'
  proof -
    have "ls_lkbidr s k \<noteq> None" using o l'(1) unfolding only_def by (metis option.distinct(1))
    then obtain l0 where l0: "ls_lkbidr s k = Some l0" by blast
    obtain l1 where "ls_lkbidr s' k = Some l1" "lkb_resource l1 = lkb_resource l0"
      using o l0 by (rule only_lkb)
    with l' l0 show ?thesis by simp
  qed
  moreover have "ls_rsbs s' r' = None \<longleftrightarrow> ls_rsbs s r' = None" for r'
  proof (cases "r' = r")
    case True
    obtain x' where "ls_rsbs s' r = Some x'" using o x by (rule only_rsb)
    with True x show ?thesis by simp
  next
    case False
    then have "rsbv.view s' r' = rsbv.view s r'" using o by (simp add: only_def)
    then show ?thesis by (cases "ls_rsbs s r'") (auto simp: rsbv.view_def)
  qed
  ultimately show ?thesis using tables_nodes [OF only_tables [OF o]] unfolding wiring_def by blast
qed

lemma only_calm:
  assumes "only r A s s'" and "ls_rsbs s r = Some x"
  shows "calm r s s'"
proof -
  have "map_option res_nodeid (ls_rsbs s' r') = map_option res_nodeid (ls_rsbs s r')" for r'
  proof (cases "r' = r")
    case True
    obtain x' where "ls_rsbs s' r = Some x'" "res_nodeid x' = res_nodeid x"
      using assms by (rule only_rsb)
    with True assms(2) show ?thesis by simp
  next
    case False
    then have v: "rsbv.view s' r' = rsbv.view s r'" using assms(1) by (simp add: only_def)
    show ?thesis using v
      by (cases "ls_rsbs s' r'"; cases "ls_rsbs s r'") (auto simp: rsbv.view_def dest: rsb_coreD(5))
  qed
  with master_ok_only [OF assms(1)] only_wiring [OF assms] show ?thesis by (simp add: calm_def)
qed

lemma outcome_calm: "outcome r A k l s s' P \<Longrightarrow> ls_rsbs s r = Some x \<Longrightarrow> calm r s s'"
  using only_calm by (auto simp: outcome_def)

text \<open>The same locks on the same queues, the resource \<open>r\<close> apart.\<close>

definition queues :: "dlm_rsb \<Rightarrow> lkid list \<times> lkid list \<times> lkid list" where
  "queues x = (res_grantqueue x, res_convertqueue x, res_waitqueue x)"

lemma queues_ok_cong:
  assumes "ls_lkbidr s' = ls_lkbidr s" and "queues x' = queues x"
  shows "queues_ok s' r x' = queues_ok s r x" and "holders x' = holders x"
  using assms by (simp_all add: queues_def queues_ok_def on_queue_def rsb_queues_def holders_def)

lemma master_ok_cong:
  assumes l: "ls_lkbidr s' = ls_lkbidr s"
    and q: "map_option queues (ls_rsbs s' r) = map_option queues (ls_rsbs s r)"
  shows "master_ok s' r = master_ok s r"
proof (cases "ls_rsbs s r")
  case None
  with q show ?thesis by (simp add: master_ok_def)
next
  case (Some x)
  with q obtain x' where x': "ls_rsbs s' r = Some x'" "queues x' = queues x" by auto
  have "gr_mode s' = gr_mode s" by (simp add: gr_mode_def fun_eq_iff l)
  with Some x' queues_ok_cong [OF l x'(2)] show ?thesis by (simp add: master_ok_def)
qed

lemma master_ok_upd_rsb:
  assumes "ls_rsbs s r0 = Some x" and "queues x' = queues x"
  shows "master_ok (s\<lparr>ls_rsbs := (ls_rsbs s)(r0 \<mapsto> x')\<rparr>) r = master_ok s r"
  by (rule master_ok_cong) (use assms in auto)

text \<open>What does not change any lock, nor the queues and the master of any resource, and puts
  no other resource than \<open>r\<close> on a tree.\<close>

definition quiet :: "rsbp \<Rightarrow> dlm_ls \<Rightarrow> dlm_ls \<Rightarrow> bool" where
  "quiet r s s' \<longleftrightarrow> ls_lkbidr s' = ls_lkbidr s \<and>
     (\<forall>r. map_option (\<lambda>x. (queues x, res_nodeid x)) (ls_rsbs s' r) =
          map_option (\<lambda>x. (queues x, res_nodeid x)) (ls_rsbs s r)) \<and>
     ls_new_rsb s' = ls_new_rsb s \<and> tree_nodes s' \<subseteq> insert r (tree_nodes s)"

lemma quiet_refl [simp]: "quiet r s s"
  by (auto simp: quiet_def)

lemma quiet_trans [trans]: "quiet r s s1 \<Longrightarrow> quiet r s1 s2 \<Longrightarrow> quiet r s s2"
  by (auto simp: quiet_def)

lemma quiet_master_ok:
  assumes "quiet r0 s s'"
  shows "master_ok s' r = master_ok s r"
proof (rule master_ok_cong)
  show "ls_lkbidr s' = ls_lkbidr s" using assms by (simp add: quiet_def)
  have "map_option (\<lambda>x. (queues x, res_nodeid x)) (ls_rsbs s' r) =
      map_option (\<lambda>x. (queues x, res_nodeid x)) (ls_rsbs s r)"
    using assms by (simp add: quiet_def)
  then show "map_option queues (ls_rsbs s' r) = map_option queues (ls_rsbs s r)"
    by (cases "ls_rsbs s' r"; cases "ls_rsbs s r") auto
qed

lemma quiet_calm:
  assumes q: "quiet r s s'" and new: "ls_rsbs s r \<noteq> None" "r \<notin> set (ls_new_rsb s)"
  shows "calm r s s'"
proof -
  have m: "map_option res_nodeid (ls_rsbs s' r') = map_option res_nodeid (ls_rsbs s r')"
    "ls_rsbs s' r' = None \<longleftrightarrow> ls_rsbs s r' = None" for r'
  proof -
    have "map_option (\<lambda>x. (queues x, res_nodeid x)) (ls_rsbs s' r') =
        map_option (\<lambda>x. (queues x, res_nodeid x)) (ls_rsbs s r')" using q by (simp add: quiet_def)
    then show "map_option res_nodeid (ls_rsbs s' r') = map_option res_nodeid (ls_rsbs s r')"
      "ls_rsbs s' r' = None \<longleftrightarrow> ls_rsbs s r' = None"
      by (cases "ls_rsbs s' r'"; cases "ls_rsbs s r'"; auto)+
  qed
  have "wiring s s'" using q new m(2) by (auto simp: wiring_def quiet_def subset_iff)
  with quiet_master_ok [OF q] m(1) show ?thesis by (simp add: calm_def)
qed

lemma quiet_upd_rsb:
  assumes "upd_rsb r' f s = Some s'" and "\<And>x. queues (f x) = queues x \<and> res_nodeid (f x) = res_nodeid x"
  shows "quiet r s s'"
  using assms by (auto simp: upd_rsb_eq_Some_iff quiet_def tree_nodes_def)

lemma quiet_tables:
  assumes "ls_lkbidr s' = ls_lkbidr s" "ls_rsbs s' = ls_rsbs s" "ls_new_rsb s' = ls_new_rsb s"
    and "tree_nodes s' \<subseteq> insert r (tree_nodes s)"
  shows "quiet r s s'"
  using assms by (simp add: quiet_def)

lemma hold_rsb_quiet: "hold_rsb r' s = Some s' \<Longrightarrow> quiet r s s'"
  unfolding hold_rsb_def kref_get_rsb_def by (erule quiet_upd_rsb) (simp add: queues_def)

lemma insert_tree_nodes: "insert_tree cmp r t = Some (Some t') \<Longrightarrow> set_tree t' = insert r (set_tree t)"
  by (induction t arbitrary: t') (auto split: Option.bind_splits if_splits option.splits)

lemma rsb_insert_nodes:
  assumes "tree_env_ok env" and "rsb_insert env s r t = Some (Some t')"
  shows "set_tree t' = insert r (set_tree t)"
proof -
  obtain t1 n m where "insert_tree (cmp_node s n m) r t = Some (Some t1)" "t' = rb_insert_color env t1"
    using assms(2) by (auto simp: rsb_insert_def Option.bind_eq_Some_conv)
  with assms(1) insert_tree_nodes show ?thesis by (metis set_inorder tree_env_ok_def)
qed

lemma insert_toss_quiet:
  assumes env: "tree_env_ok env" and i: "insert_toss env b r s = Some (e, s')"
  shows "quiet r s s'"
proof (rule quiet_tables)
  obtain t where t: "rsb_insert env s r (toss (ls_rsbtbl s b)) = Some t"
    using i by (auto simp: insert_toss_def Option.bind_eq_Some_conv)
  show "tree_nodes s' \<subseteq> insert r (tree_nodes s)"
  proof (cases t)
    case None
    with t i show ?thesis by (auto simp: insert_toss_def)
  next
    case (Some t1)
    then have "s' = upd_bucket b (\<lambda>x. x\<lparr>toss := t1\<rparr>) s" using t i by (auto simp: insert_toss_def)
    with rsb_insert_nodes [OF env] t Some show ?thesis
      by (fastforce simp: tree_nodes_def upd_bucket_def split: if_splits)
  qed
qed (use i in \<open>auto simp: insert_toss_def upd_bucket_def Option.bind_eq_Some_conv split: option.splits\<close>)

lemma erase_keep_quiet:
  assumes "tree_env_ok env"
  shows "quiet r s (erase_keep env b r' s)"
proof (rule quiet_tables)
  have "set_tree (rb_erase env r' t) \<subseteq> set_tree t" for t
    using assms set_remove1_subset unfolding tree_env_ok_def by (metis set_inorder)
  then show "tree_nodes (erase_keep env b r' s) \<subseteq> insert r (tree_nodes s)"
    by (fastforce simp: erase_keep_def tree_nodes_def upd_bucket_def split: if_splits)
qed (simp_all add: erase_keep_def upd_bucket_def)

lemma toss_rsb_quiet:
  assumes env: "tree_env_ok env" and t: "toss_rsb env r s = Some s'"
  shows "quiet r s s'"
proof -
  obtain x where x: "ls_rsbs s r = Some x"
    using t by (cases "ls_rsbs s r") (auto simp: toss_rsb_def)
  define s1 where "s1 = s\<lparr>ls_rsbs := (ls_rsbs s)(r \<mapsto> x\<lparr>res_ref := 1\<rparr>)\<rparr>"
  obtain e s2 s3 where
    s2: "insert_toss env (res_bucket x) r (erase_keep env (res_bucket x) r s1) = Some (e, s2)"
    and s3: "upd_rsb r (\<lambda>x. x\<lparr>res_toss_time := jiffies env\<rparr>) s2 = Some s3"
    and s': "upd_rsb r (\<lambda>x. x\<lparr>res_lvbptr := None\<rparr>) (upd_bucket (res_bucket x)
       (\<lambda>t. t\<lparr>rt_flags := set_bit DLM_RTF_SHRINK_BIT (rt_flags t)\<rparr>) s3) = Some s'"
    using t x by (auto simp: toss_rsb_def Let_def Option.bind_eq_Some_conv s1_def)
  have "quiet r s s1" using x by (auto simp: s1_def quiet_def queues_def tree_nodes_def)
  also have "quiet r s1 (erase_keep env (res_bucket x) r s1)" by (rule erase_keep_quiet [OF env])
  also have "quiet r \<dots> s2" using env s2 by (rule insert_toss_quiet)
  also have "quiet r s2 s3" using s3 by (rule quiet_upd_rsb) (simp add: queues_def)
  also have "quiet r s3 (upd_bucket (res_bucket x)
       (\<lambda>t. t\<lparr>rt_flags := set_bit DLM_RTF_SHRINK_BIT (rt_flags t)\<rparr>) s3)"
    by (rule quiet_tables) (auto simp: upd_bucket_def tree_nodes_def split: if_splits)
  also have "quiet r \<dots> s'" using s' by (rule quiet_upd_rsb) (simp add: queues_def)
  finally show ?thesis .
qed

lemma put_rsb_quiet:
  assumes env: "tree_env_ok env" and p: "put_rsb env r s = Some s'"
  shows "quiet r s s'"
proof -
  obtain x where x: "ls_rsbs s r = Some x"
    using p by (cases "ls_rsbs s r") (auto simp: put_rsb_def kref_put_rsb_def)
  let ?s1 = "s\<lparr>ls_rsbs := (ls_rsbs s)(r \<mapsto> x\<lparr>res_ref := res_ref x - 1\<rparr>)\<rparr>"
  have "quiet r s ?s1" using x by (auto simp: quiet_def queues_def tree_nodes_def)
  moreover have "quiet r ?s1 s'"
    using p x toss_rsb_quiet [OF env]
    by (auto simp: put_rsb_def kref_put_rsb_def split: Option.bind_splits if_splits)
  ultimately show ?thesis by (rule quiet_trans)
qed

text \<open>Updates of one lock that leave every queue in order.\<close>

lemma master_ok_upd_lkb:
  assumes ok: "master_ok s r" and l: "ls_lkbidr s k = Some l"
    and same: "lkb_resource l' = lkb_resource l" "lkb_status l' = lkb_status l" "lkb_grmode l' = lkb_grmode l"
    and q: "\<And>r. lkb_status l \<noteq> 0 \<Longrightarrow> queued_ok r (lkb_status l) l \<Longrightarrow> queued_ok r (lkb_status l) l'"
  shows "master_ok (s\<lparr>ls_lkbidr := (ls_lkbidr s)(k \<mapsto> l')\<rparr>) r"
proof -
  let ?s1 = "s\<lparr>ls_lkbidr := (ls_lkbidr s)(k \<mapsto> l')\<rparr>"
  obtain x where x: "ls_rsbs s r = Some x" "queues_ok s r x" "modes.consistent (gr_mode s) (holders x)"
    using ok by (auto simp: master_ok_def)
  have on: "on_queue ?s1 r st q" if h: "on_queue s r st q" "st \<noteq> 0" for st q
    unfolding on_queue_def
  proof
    fix j assume "j \<in> set q"
    then obtain i where i: "ls_lkbidr s j = Some i" "queued_ok r st i"
      using h(1) by (auto simp: on_queue_def)
    show "\<exists>l. ls_lkbidr ?s1 j = Some l \<and> queued_ok r st l"
    proof (cases "j = k")
      case True
      with i l have "queued_ok r st l" by simp
      moreover from this have "st = lkb_status l" by (simp add: queued_ok_def)
      ultimately show ?thesis using q True h(2) by simp
    next
      case False
      with i show ?thesis by simp
    qed
  qed
  have "queues_ok ?s1 r x"
    using x(2) on l same by (auto simp: queues_ok_def split: if_splits)
  moreover have "gr_mode ?s1 = gr_mode s" using l same(3) by (auto simp: gr_mode_def fun_eq_iff)
  ultimately show ?thesis using x by (simp add: master_ok_def)
qed

lemma upd_lkb_calm:
  assumes "ls_lkbidr s k = Some l"
    and "lkb_resource l' = lkb_resource l" "lkb_status l' = lkb_status l" "lkb_grmode l' = lkb_grmode l"
    and "\<And>r. lkb_status l \<noteq> 0 \<Longrightarrow> queued_ok r (lkb_status l) l \<Longrightarrow> queued_ok r (lkb_status l) l'"
  shows "calm r s (s\<lparr>ls_lkbidr := (ls_lkbidr s)(k \<mapsto> l')\<rparr>)"
proof -
  have "wiring s (s\<lparr>ls_lkbidr := (ls_lkbidr s)(k \<mapsto> l')\<rparr>)"
    using assms(1,2) by (auto simp: wiring_def tree_nodes_def)
  with master_ok_upd_lkb [OF _ assms] show ?thesis by (simp add: calm_def)
qed

text \<open>Releasing a lock that is on no queue.\<close>

lemma master_ok_free:
  assumes ok: "master_ok s r" and l: "ls_lkbidr s k = Some l" "lkb_status l = 0"
  shows "master_ok (s\<lparr>ls_lkbidr := (ls_lkbidr s)(k := None)\<rparr>) r"
proof -
  let ?s1 = "s\<lparr>ls_lkbidr := (ls_lkbidr s)(k := None)\<rparr>"
  obtain x where x: "ls_rsbs s r = Some x" "queues_ok s r x" "modes.consistent (gr_mode s) (holders x)"
    using ok by (auto simp: master_ok_def)
  have k: "k \<notin> set (rsb_queues x)"
    using queue_status [OF x(2) l(1)] l(2) by (auto simp: rsb_queues_def)
  then have on: "on_queue ?s1 r st q" if "on_queue s r st q" "set q \<subseteq> set (rsb_queues x)" for st q
    using that unfolding on_queue_def by (auto simp: subset_iff)
  have "queues_ok ?s1 r x"
    using x(2) on by (auto simp: queues_ok_def rsb_queues_def split: if_splits)
  moreover have "gr_mode ?s1 j = gr_mode s j" if "j \<in> holders x" for j
    using that k by (auto simp: gr_mode_def holders_def rsb_queues_def)
  then have "modes.consistent (gr_mode ?s1) (holders x)"
    using x(3) by (simp add: modes.consistent_def pairwise_on_def)
  ultimately show ?thesis using x(1) by (simp add: master_ok_def)
qed

lemma free_lkb_calm:
  assumes "ls_lkbidr s k = Some l" "lkb_status l = 0"
  shows "calm r s (s\<lparr>ls_lkbidr := (ls_lkbidr s)(k := None)\<rparr>)"
proof -
  have "wiring s (s\<lparr>ls_lkbidr := (ls_lkbidr s)(k := None)\<rparr>)"
    by (auto simp: wiring_def tree_nodes_def split: if_splits)
  with master_ok_free [OF _ assms] show ?thesis by (simp add: calm_def)
qed

section \<open>A resource mastered here\<close>

text \<open>What the calls rely on about the resource they work on: it is mastered by this node and
  satisfies the invariant, somebody holds a reference to it, and it is in use, not in the pool
  of new resources. The tree code of \<open>lib/rbtree.c\<close> keeps the nodes in order.\<close>

definition here :: "dlm_env \<Rightarrow> dlm_ls \<Rightarrow> rsbp \<Rightarrow> dlm_rsb \<Rightarrow> bool" where
  "here env s r x \<longleftrightarrow> master_ok s r \<and> ls_rsbs s r = Some x \<and> res_nodeid x = 0 \<and> 1 \<le> res_ref x \<and>
     r \<notin> set (ls_new_rsb s) \<and> tree_env_ok env"

lemma hereD:
  assumes "here env s r x"
  shows "master_ok s r" "ls_rsbs s r = Some x" "res_nodeid x = 0" "1 \<le> res_ref x"
    "r \<notin> set (ls_new_rsb s)" "tree_env_ok env"
  using assms by (simp_all add: here_def)

lemma calm_new: "calm r s s' \<Longrightarrow> ls_new_rsb s' = ls_new_rsb s"
  by (simp add: calm_def wiring_def)

lemma calm_here: "calm r s s' \<Longrightarrow> here env s r x \<Longrightarrow> master_ok s' r \<Longrightarrow> ls_rsbs s' r = Some x' \<Longrightarrow>
    1 \<le> res_ref x' \<Longrightarrow> here env s' r x'"
  unfolding here_def calm_def wiring_def by (metis option.inject option.simps(9))

text \<open>Giving back a reference that was taken.\<close>

lemma hold_rsb_live: "ls_rsbs s r = Some x \<Longrightarrow>
    hold_rsb r s = Some (s\<lparr>ls_rsbs := (ls_rsbs s)(r \<mapsto> x\<lparr>res_ref := res_ref x + 1\<rparr>)\<rparr>)"
  by (simp add: hold_rsb_def kref_get_rsb_def)

lemma put_rsb_held: "ls_rsbs s r = Some x \<Longrightarrow> 2 \<le> res_ref x \<Longrightarrow>
    put_rsb env r s = Some (s\<lparr>ls_rsbs := (ls_rsbs s)(r \<mapsto> x\<lparr>res_ref := res_ref x - 1\<rparr>)\<rparr>)"
  by (simp add: put_rsb_def kref_put_rsb_def)

lemma put_rsb_calm: "here env s r x \<Longrightarrow> put_rsb env r s = Some s' \<Longrightarrow> calm r s s'"
  using put_rsb_quiet [of env r s s'] quiet_calm [of r s s'] hereD(2,5,6) [of env s r x] by simp

lemma hold_put_rsb:
  assumes h: "here env s r x"
  shows "\<exists>s1. hold_rsb r s = Some s1 \<and> here env s1 r (x\<lparr>res_ref := res_ref x + 1\<rparr>) \<and>
    put_rsb env r s1 = Some s \<and> calm r s s1 \<and> ls_lkbidr s1 = ls_lkbidr s \<and> ls_lksbs s1 = ls_lksbs s"
proof -
  let ?x1 = "x\<lparr>res_ref := res_ref x + 1\<rparr>"
  let ?s1 = "s\<lparr>ls_rsbs := (ls_rsbs s)(r \<mapsto> ?x1)\<rparr>"
  have x: "ls_rsbs s r = Some x" "1 \<le> res_ref x" using hereD [OF h] by blast+
  have "s\<lparr>ls_rsbs := (ls_rsbs s)(r \<mapsto> x)\<rparr> = s" using x(1) by (simp add: fun_upd_idem)
  then have p: "put_rsb env r ?s1 = Some s" using x(2) by (simp add: put_rsb_held)
  have q: "quiet r s ?s1" by (rule hold_rsb_quiet [OF hold_rsb_live [OF x(1)]])
  have c: "calm r s ?s1" by (rule quiet_calm [OF q _ hereD(5) [OF h]]) (simp add: x)
  have "here env ?s1 r ?x1"
    by (rule calm_here [OF c h]) (use quiet_master_ok [OF q] hereD(1) [OF h] in simp_all)
  with p c show ?thesis using hold_rsb_live [OF x(1)] by auto
qed

end
