(* ===== verification/Api.thy ===== *)
theory Api
  imports Calm
begin

text \<open>
  The calls of the lock API on a resource mastered here: \<open>dlm_lock\<close> with \<open>DLM_LKF_CONVERT\<close> and
  \<open>dlm_unlock\<close>, with their argument checks and references.
\<close>

section \<open>Argument checks\<close>

text \<open>The arguments of a conversion that \<open>set_lock_args\<close> lets pass.\<close>

definition convert_args :: "dlm_args \<Rightarrow> bool" where
  "convert_args args \<longleftrightarrow> 0 \<le> arg_mode args \<and> arg_mode args \<le> DLM_LOCK_EX \<and> arg_lksb args \<noteq> None \<and>
     has_flag (arg_flags args) DLM_LKF_CONVERT \<and> \<not> has_flag (arg_flags args) DLM_LKF_EXPEDITE"

lemma set_lock_args_convert:
  assumes "set_lock_args mode lksb flags namelen ast astparam bast s = (0, args)"
    and "has_flag flags DLM_LKF_CONVERT"
  shows "convert_args args \<and> arg_flags args = flags \<and> arg_mode args = mode \<and> arg_lksb args = lksb"
  using assms
  by (auto simp: set_lock_args_def convert_args_def split: if_splits option.splits)

text \<open>The lock with the arguments copied in.\<close>

definition with_args :: "dlm_env \<Rightarrow> dlm_args \<Rightarrow> lksbp \<Rightarrow> dlm_ls \<Rightarrow> dlm_lkb \<Rightarrow> dlm_lkb" where
  "with_args env args p s l = (dlm_set_sbflags_val 0 (l\<lparr>lkb_exflags := arg_flags args\<rparr>))
     \<lparr>lkb_astfn := arg_astfn args, lkb_astparam := arg_astparam args,
      lkb_bastfn := arg_bastfn args, lkb_rqmode := arg_mode args,
      lkb_lksb := Some p, lkb_lvbptr := sb_lvbptr (ls_lksbs s p), lkb_ownpid := current_pid env\<rparr>"

lemma with_args_fields [simp]:
  "lkb_resource (with_args env args p s l) = lkb_resource l"
  "lkb_ref (with_args env args p s l) = lkb_ref l"
  "lkb_status (with_args env args p s l) = lkb_status l"
  "lkb_grmode (with_args env args p s l) = lkb_grmode l"
  "lkb_rqmode (with_args env args p s l) = arg_mode args"
  "lkb_exflags (with_args env args p s l) = arg_flags args"
  "lkb_lksb (with_args env args p s l) = Some p"
  by (simp_all add: with_args_def dlm_set_sbflags_val_def)

text \<open>A conversion that queues (\<open>QUECVT\<close>) must ask for a mode strictly above the granted one
  in the order of the code's matrix.\<close>

lemma quecvt_compat_moves:
  assumes "valid_mode gr" and "quecvt_compat gr m = Some True"
  shows "m \<noteq> gr \<and> m \<noteq> DLM_LOCK_NL"
proof -
  have "quecvt_compat gr gr \<noteq> Some True" "quecvt_compat gr DLM_LOCK_NL \<noteq> Some True"
    using assms(1) by (auto elim!: valid_modeE simp: quecvt_compat_def matrix_at_def quecvt_compat_matrix_def)
  with assms(2) show ?thesis by auto
qed

lemma quecvt_compat_defined:
  assumes "valid_mode gr" and "0 \<le> m" and "m \<le> DLM_LOCK_EX"
  shows "\<exists>b. quecvt_compat gr m = Some b"
  using assms by (auto simp: valid_mode_def quecvt_compat_def matrix_at_def)

text \<open>\<open>validate_lock_args\<close> for a conversion, of a lock with no reply outstanding: it refuses,
  and changes nothing, or copies the arguments to a granted lock.\<close>

lemma validate_convert:
  assumes l: "ls_lkbidr s k = Some l" and wf: "lkb_wf l" and a: "convert_args args"
    and w: "lkb_wait_type l \<noteq> DLM_MSG_NOTIFY"
  shows "(\<exists>e. e \<in> {-EBUSY, -EINVAL} \<and> validate_lock_args env k args s = Some (e, s)) \<or>
    (\<exists>p. lkb_status l = DLM_LKSTS_GRANTED \<and> validate_lock_args env k args s =
       Some (0, s\<lparr>ls_lkbidr := (ls_lkbidr s)(k \<mapsto> with_args env args p s l)\<rparr>) \<and>
       (has_flag (arg_flags args) DLM_LKF_QUECVT \<longrightarrow>
          arg_mode args \<noteq> lkb_grmode l \<and> arg_mode args \<noteq> DLM_LOCK_NL))"
proof -
  have gr: "valid_mode (lkb_grmode l)" using wf by (simp add: lkb_wf_def)
  obtain b where "quecvt_compat (lkb_grmode l) (arg_mode args) = Some b"
    using quecvt_compat_defined [OF gr] a unfolding convert_args_def by blast
  then obtain q where q: "(if has_flag (arg_flags args) DLM_LKF_QUECVT
      then quecvt_compat (lkb_grmode l) (arg_mode args) else Some True) = Some q"
    by (cases "has_flag (arg_flags args) DLM_LKF_QUECVT") simp_all
  obtain p where p: "arg_lksb args = Some p" using a by (auto simp: convert_args_def)
  have conv: "has_flag (arg_flags args) DLM_LKF_CONVERT" using a by (simp add: convert_args_def)
  show ?thesis
  proof (cases "lkb_status l = DLM_LKSTS_GRANTED \<and> lkb_wait_type l = 0 \<and> lkb_wait_count l = 0 \<and>
      \<not> is_overlap l \<and> \<not> iflag l DLM_IFL_MSTCPY_BIT \<and> q")
    case True
    have "validate_lock_args env k args s =
        Some (0, s\<lparr>ls_lkbidr := (ls_lkbidr s)(k \<mapsto> with_args env args p s l)\<rparr>)"
      using True l q p conv w by (simp add: validate_lock_args_def with_args_def Let_def)
    moreover have "has_flag (arg_flags args) DLM_LKF_QUECVT \<Longrightarrow>
        arg_mode args \<noteq> lkb_grmode l \<and> arg_mode args \<noteq> DLM_LOCK_NL"
      using quecvt_compat_moves [OF gr] q True by simp
    ultimately show ?thesis using True by blast
  next
    case False
    then have "\<exists>e. e \<in> {-EBUSY, -EINVAL} \<and> validate_lock_args env k args s = Some (e, s)"
      using l q conv w by (auto simp: validate_lock_args_def Let_def)
    then show ?thesis ..
  qed
qed

text \<open>Copying the arguments to a granted lock keeps the invariant.\<close>

lemma with_args_outcome:
  assumes ok: "master_ok s r" and x: "ls_rsbs s r = Some x" and m: "member s r k l"
    and st: "lkb_status l = DLM_LKSTS_GRANTED" and a: "convert_args args"
  shows "master_ok (s\<lparr>ls_lkbidr := (ls_lkbidr s)(k \<mapsto> with_args env args p s l)\<rparr>) r \<and>
    only r {k} s (s\<lparr>ls_lkbidr := (ls_lkbidr s)(k \<mapsto> with_args env args p s l)\<rparr>) \<and>
    member (s\<lparr>ls_lkbidr := (ls_lkbidr s)(k \<mapsto> with_args env args p s l)\<rparr>) r k (with_args env args p s l)"
proof -
  let ?l1 = "with_args env args p s l"
  let ?s1 = "s\<lparr>ls_lkbidr := (ls_lkbidr s)(k \<mapsto> ?l1)\<rparr>"
  have l: "ls_lkbidr s k = Some l" "lkb_resource l = Some r" "lkb_wf l" "1 \<le> lkb_ref l"
    using m by (auto simp: member_def)
  have qs: "queues_ok s r x" using ok x by (auto simp: master_ok_def)
  have q: "queued_ok r DLM_LKSTS_GRANTED l" using member_queued [OF ok m] st by simp
  have wf: "lkb_wf ?l1" using l(3) a by (simp add: lkb_wf_def convert_args_def valid_mode_def)
  have rsbs: "ls_rsbs ?s1 = (ls_rsbs s)(r \<mapsto> x)" using x by (simp add: fun_upd_idem)
  have "placed k DLM_LKSTS_GRANTED x x" using placed_here [OF qs l(1,2)] st by simp
  moreover have "queued_ok r DLM_LKSTS_GRANTED ?l1"
    using q wf by (simp add: queued_ok_def modes_ok_def)
  moreover have "\<forall>j\<in>holders x - {k}. compat (gr_mode s j) (lkb_grmode ?l1)"
    using own_mode_compat [OF ok x l(1)] holders_member [OF ok x m] st by simp
  ultimately have "master_ok ?s1 r \<and> only r {k} s ?s1"
    using master_ok_placed [OF ok x, of ?s1 k ?l1 x DLM_LKSTS_GRANTED]
      only_update [OF l(1,2) _ x, of "{k}" ?s1 ?l1 x DLM_LKSTS_GRANTED] rsbs x l(2) by simp
  then show ?thesis using l wf st by (simp add: member_def)
qed

section \<open>A conversion through the API\<close>

text \<open>No alternate mode of a conversion is the mode the lock holds.\<close>

definition alt_args_safe :: "dlm_args \<Rightarrow> dlm_lkb \<Rightarrow> bool" where
  "alt_args_safe args l \<longleftrightarrow>
     \<not> (has_flag (arg_flags args) DLM_LKF_ALTPR \<and> lkb_grmode l = DLM_LOCK_PR) \<and>
     \<not> (has_flag (arg_flags args) DLM_LKF_ALTCW \<and> lkb_grmode l = DLM_LOCK_CW)"

lemma convert_lock_keeps:
  assumes h: "here env s r x" and m: "member s r k l" and w: "lkb_wait_type l \<noteq> DLM_MSG_NOTIFY"
    and a: "convert_args args" "alt_args_safe args l"
  shows "(\<exists>e. e \<in> {-EBUSY, -EINVAL} \<and> convert_lock env k args s = Some (e, s)) \<or>
    (\<exists>e p s' l'. convert_lock env k args s = Some (e, s') \<and> lkb_status l = DLM_LKSTS_GRANTED \<and>
      master_ok s' r \<and> calm r s s' \<and> ls_lkbidr s' k = Some l' \<and> member s' r k l' \<and>
      convert_result (with_args env args p s l) e l')"
proof -
  have l: "ls_lkbidr s k = Some l" "lkb_resource l = Some r" "lkb_wf l"
    using m by (auto simp: member_def)
  let ?x1 = "x\<lparr>res_ref := res_ref x + 1\<rparr>"
  obtain s1 where s1: "hold_rsb r s = Some s1" "here env s1 r ?x1" "put_rsb env r s1 = Some s" "calm r s s1"
    "ls_lkbidr s1 = ls_lkbidr s" "ls_lksbs s1 = ls_lksbs s" using hold_put_rsb [OF h] by blast
  note h1 = hereD [OF s1(2)]
  note idr = s1(5,6)
  then have m1: "member s1 r k l" using m by (simp add: member_def)
  from validate_convert [of s1 k l args env] l idr w a(1)
  consider (bad) e where "e \<in> {-EBUSY, -EINVAL}" "validate_lock_args env k args s1 = Some (e, s1)"
    | (good) p where "lkb_status l = DLM_LKSTS_GRANTED" "validate_lock_args env k args s1 =
        Some (0, s1\<lparr>ls_lkbidr := (ls_lkbidr s1)(k \<mapsto> with_args env args p s1 l)\<rparr>)"
      "has_flag (arg_flags args) DLM_LKF_QUECVT \<longrightarrow>
         arg_mode args \<noteq> lkb_grmode l \<and> arg_mode args \<noteq> DLM_LOCK_NL" by auto
  then show ?thesis
  proof cases
    case bad
    with l s1 have "convert_lock env k args s = Some (e, s)" by (auto simp: convert_lock_def)
    with bad(1) show ?thesis by blast
  next
    case good
    let ?l2 = "with_args env args p s1 l"
    let ?s2 = "s1\<lparr>ls_lkbidr := (ls_lkbidr s1)(k \<mapsto> ?l2)\<rparr>"
    have 2: "master_ok ?s2 r" "only r {k} s1 ?s2" "member ?s2 r k ?l2"
      using with_args_outcome [OF h1(1,2) m1 good(1) a(1)] by auto
    have c: "convert_ok ?l2"
      using a good(3) by (auto simp: convert_ok_def convert_args_def alt_args_safe_def alt_safe_def)
    have x2: "ls_rsbs ?s2 r = Some ?x1" using h1(2) by simp
    have c12: "calm r s1 ?s2" by (rule only_calm [OF 2(2) h1(2)])
    obtain e s3 where 3: "us_convert_lock env r k ?s2 = Some (e, s3)"
      "outcome r UNIV k ?l2 ?s2 s3 (convert_result ?l2 e)"
      using us_convert_lock_keeps [OF 2(1) x2 _ 2(3) _ c, of env] h1(3) good(1) by auto
    obtain x3 where x3: "ls_rsbs s3 r = Some x3" "res_ref x3 = res_ref x + 1"
      using only_rsb [of r UNIV ?s2 s3 ?x1] 3(2) x2 by (auto simp: outcome_def)
    have c23: "calm r ?s2 s3" by (rule outcome_calm [OF 3(2) x2])
    have ok3: "master_ok s3 r" using 3(2) by (simp add: outcome_def)
    have h3: "here env s3 r x3"
      by (rule calm_here [OF calm_trans [OF c12 c23] s1(2) ok3 x3(1)]) (simp add: x3(2))
    obtain s4 where s4: "put_rsb env r s3 = Some s4"
      using put_rsb_held [OF x3(1)] x3(2) hereD(4) [OF h] by auto
    have q4: "quiet r s3 s4" by (rule put_rsb_quiet [OF hereD(6) [OF h] s4])
    have calm: "calm r s s4"
      using calm_trans [OF s1(4) calm_trans [OF c12 calm_trans [OF c23 put_rsb_calm [OF h3 s4]]]] .
    obtain l3 where l3: "master_ok s3 r" "ls_lkbidr s3 k = Some l3" "lkb_resource l3 = Some r"
      "lkb_wf l3" "convert_result ?l2 e l3" using 3(2) by (rule outcomeE)
    have "convert_lock env k args s = Some (e, s4)"
      using l(1,2) s1(1) good(2) 3(1) s4 by (simp add: convert_lock_def)
    moreover have "ls_lkbidr s4 k = Some l3" using q4 l3(2) by (simp add: quiet_def)
    moreover have "member s4 r k l3"
      using l3 m \<open>ls_lkbidr s4 k = Some l3\<close> by (auto simp: member_def convert_result_def)
    moreover have "with_args env args p s1 l = with_args env args p s l" by (simp add: with_args_def idr)
    ultimately show ?thesis
      using good(1) l3 calm quiet_master_ok [OF q4] by metis
  qed
qed

section \<open>An unlock through the API\<close>

text \<open>The flags an unlock may pass leave the flags the queues depend on alone.\<close>

lemma has_flag_or_other:
  assumes "f AND NOT w = 0" and "x AND w = 0"
  shows "has_flag (e OR f) x = has_flag e (x :: u32)"
proof -
  have "bit f n \<longrightarrow> bit w n" and "\<not> (bit x n \<and> bit w n)" if "n < 32" for n
    using arg_cong [OF assms(1), of "\<lambda>v. bit v n"] arg_cong [OF assms(2), of "\<lambda>v. bit v n"] that
    by (simp_all add: bit_and_iff bit_not_iff)
  then have "f AND x = 0" by (intro bit_word_eqI) (auto simp: bit_and_iff)
  then show ?thesis by (simp add: has_flag_def bit.conj_disj_distrib2)
qed

definition unlock_flags :: "u32 \<Rightarrow> bool" where
  "unlock_flags f \<longleftrightarrow> f AND NOT (DLM_LKF_CANCEL OR DLM_LKF_VALBLK OR DLM_LKF_IVVALBLK OR
     DLM_LKF_FORCEUNLOCK) = 0"

lemma unlock_flags_keep:
  assumes "unlock_flags f"
  shows "has_flag (e OR f) DLM_LKF_EXPEDITE = has_flag e DLM_LKF_EXPEDITE"
    and "has_flag (e OR f) DLM_LKF_ALTPR = has_flag e DLM_LKF_ALTPR"
    and "has_flag (e OR f) DLM_LKF_ALTCW = has_flag e DLM_LKF_ALTCW"
  using assms unfolding unlock_flags_def by (rule has_flag_or_other; simp)+

definition with_unlock_args :: "dlm_args \<Rightarrow> dlm_lkb \<Rightarrow> dlm_lkb" where
  "with_unlock_args args l = (dlm_set_sbflags_val 0 (l\<lparr>lkb_exflags := lkb_exflags l OR arg_flags args\<rparr>))
     \<lparr>lkb_astparam := arg_astparam args\<rparr>"

lemma with_unlock_args_fields [simp]:
  "lkb_resource (with_unlock_args args l) = lkb_resource l"
  "lkb_ref (with_unlock_args args l) = lkb_ref l"
  "lkb_status (with_unlock_args args l) = lkb_status l"
  "lkb_grmode (with_unlock_args args l) = lkb_grmode l"
  "lkb_rqmode (with_unlock_args args l) = lkb_rqmode l"
  "lkb_lksb (with_unlock_args args l) = lkb_lksb l"
  "lkb_exflags (with_unlock_args args l) = lkb_exflags l OR arg_flags args"
  "is_master_copy (with_unlock_args args l) = is_master_copy l"
  by (simp_all add: with_unlock_args_def dlm_set_sbflags_val_def is_master_copy_def iflag_def)

lemma with_unlock_args_wf:
  assumes "unlock_flags (arg_flags args)"
  shows "lkb_wf (with_unlock_args args l) = lkb_wf l"
    and "queued_ok r st (with_unlock_args args l) = queued_ok r st l"
  using unlock_flags_keep [OF assms, of "lkb_exflags l"]
  by (simp_all add: lkb_wf_def queued_ok_def modes_ok_def alt_safe_def)

text \<open>A lock of this node that no message and no other call is busy with.\<close>

definition idle :: "dlm_rsb \<Rightarrow> lkid \<Rightarrow> dlm_lkb \<Rightarrow> bool" where
  "idle x k l \<longleftrightarrow> lkb_wait_type l = 0 \<and> lkb_wait_count l = 0 \<and> k \<notin> set (res_lookup x) \<and>
     lkb_total_children l = 0 \<and> \<not> iflag l DLM_IFL_RESEND_BIT"

text \<open>A plain unlock of a lock this node owns.\<close>

definition plain :: "dlm_args \<Rightarrow> dlm_lkb \<Rightarrow> bool" where
  "plain args l \<longleftrightarrow> \<not> has_flag (arg_flags args) DLM_LKF_CANCEL \<and>
     \<not> has_flag (arg_flags args) DLM_LKF_FORCEUNLOCK \<and>
     \<not> iflag l DLM_IFL_MSTCPY_BIT \<and> \<not> iflag l DLM_IFL_ENDOFLIFE_BIT"

lemma validate_unlock:
  assumes l: "ls_lkbidr s k = Some l" "lkb_resource l = Some r" and x: "ls_rsbs s r = Some x"
    and i: "idle x k l"
  shows "(\<exists>e. e < 0 \<and> \<not> plain args l \<and> validate_unlock_args k args s = Some (e, s)) \<or>
    validate_unlock_args k args s =
      Some (0, s\<lparr>ls_lkbidr := (ls_lkbidr s)(k \<mapsto> with_unlock_args args l)\<rparr>)"
  using l x i
  by (simp add: validate_unlock_args_def unlock_args_ok_def with_unlock_args_def Let_def idle_def plain_def)

text \<open>Copying the arguments of an unlock or a cancel to a lock on a queue.\<close>

lemma with_unlock_args_keeps:
  assumes ok: "master_ok s r" and m: "member s r k l" and f: "unlock_flags (arg_flags args)"
  shows "master_ok (s\<lparr>ls_lkbidr := (ls_lkbidr s)(k \<mapsto> with_unlock_args args l)\<rparr>) r \<and>
    calm r s (s\<lparr>ls_lkbidr := (ls_lkbidr s)(k \<mapsto> with_unlock_args args l)\<rparr>) \<and>
    member (s\<lparr>ls_lkbidr := (ls_lkbidr s)(k \<mapsto> with_unlock_args args l)\<rparr>) r k (with_unlock_args args l)"
proof -
  have l: "ls_lkbidr s k = Some l" using m by (simp add: member_def)
  have q: "\<And>r. lkb_status l \<noteq> 0 \<Longrightarrow> queued_ok r (lkb_status l) l \<Longrightarrow> queued_ok r (lkb_status l) (with_unlock_args args l)"
    by (simp add: with_unlock_args_wf [OF f])
  show ?thesis
    using master_ok_upd_lkb [OF ok l _ _ _ q] upd_lkb_calm [OF l _ _ _ q] m
    by (simp add: member_def with_unlock_args_wf [OF f])
qed

text \<open>The two calls share their frame: hold the resource, check, work, put the resource.\<close>

definition unlock_call ::
  "(rsbp \<Rightarrow> lkid \<Rightarrow> dlm_ls \<Rightarrow> (int \<times> dlm_ls) option) \<Rightarrow> dlm_env \<Rightarrow> rsbp \<Rightarrow> lkid \<Rightarrow> dlm_args \<Rightarrow> dlm_ls \<Rightarrow>
   (int \<times> dlm_ls) option" where
  "unlock_call work env r lkb args s = do {
     s \<leftarrow> hold_rsb r s;
     (error, s) \<leftarrow> validate_unlock_args lkb args s;
     (error, s) \<leftarrow> (if error \<noteq> 0 then Some (error, s) else work r lkb s);
     s \<leftarrow> put_rsb env r s;
     Some (error, s)
   }"

lemma unlock_call_keeps:
  assumes h: "here env s r x" and m: "member s r k l" and i: "idle x k l"
    and f: "unlock_flags (arg_flags args)"
    and work: "\<And>s1 x1 l1. master_ok s1 r \<Longrightarrow> ls_rsbs s1 r = Some x1 \<Longrightarrow> res_nodeid x1 = 0 \<Longrightarrow>
      member s1 r k l1 \<Longrightarrow> lkb_status l1 = lkb_status l \<Longrightarrow> lkb_ref l1 = lkb_ref l \<Longrightarrow>
      lkb_grmode l1 = lkb_grmode l \<Longrightarrow>
      \<exists>e s2. work r k s1 = Some (e, s2) \<and> outcome r UNIV k l1 s1 s2 (P l1 e)"
  shows "(\<exists>e. e < 0 \<and> \<not> plain args l \<and> unlock_call work env r k args s = Some (e, s)) \<or>
    (\<exists>e s' l'. unlock_call work env r k args s = Some (e, s') \<and> master_ok s' r \<and> calm r s s' \<and>
      ls_lkbidr s' k = Some l' \<and> lkb_resource l' = Some r \<and> lkb_wf l' \<and>
      P (with_unlock_args args l) e l' \<and> (\<exists>x'. ls_rsbs s' r = Some x' \<and> res_ref x' = res_ref x))"
proof -
  have l: "ls_lkbidr s k = Some l" "lkb_resource l = Some r" "lkb_wf l"
    using m by (auto simp: member_def)
  let ?x1 = "x\<lparr>res_ref := res_ref x + 1\<rparr>"
  obtain s1 where s1: "hold_rsb r s = Some s1" "here env s1 r ?x1" "put_rsb env r s1 = Some s" "calm r s s1"
    "ls_lkbidr s1 = ls_lkbidr s" "ls_lksbs s1 = ls_lksbs s" using hold_put_rsb [OF h] by blast
  note h1 = hereD [OF s1(2)]
  note idr = s1(5)
  then have m1: "member s1 r k l" using m by (simp add: member_def)
  have i1: "idle ?x1 k l" using i by (simp add: idle_def)
  let ?l2 = "with_unlock_args args l"
  let ?s2 = "s1\<lparr>ls_lkbidr := (ls_lkbidr s1)(k \<mapsto> ?l2)\<rparr>"
  from validate_unlock [of s1 k l r ?x1 args] l idr h1(2) i1
  consider (bad) e where "e < 0" "\<not> plain args l" "validate_unlock_args k args s1 = Some (e, s1)"
    | (good) "validate_unlock_args k args s1 = Some (0, ?s2)" by auto
  then show ?thesis
  proof cases
    case bad
    with s1 have "unlock_call work env r k args s = Some (e, s)" by (simp add: unlock_call_def)
    with bad(1,2) show ?thesis by blast
  next
    case good
    have 2: "master_ok ?s2 r" "calm r s1 ?s2" "member ?s2 r k ?l2"
      using with_unlock_args_keeps [OF h1(1) m1 f] by auto
    have x2: "ls_rsbs ?s2 r = Some ?x1" using h1(2) by simp
    obtain e s3 where 3: "work r k ?s2 = Some (e, s3)" "outcome r UNIV k ?l2 ?s2 s3 (P ?l2 e)"
      using work [OF 2(1) x2 _ 2(3)] h1(3) by auto
    obtain x3 where x3: "ls_rsbs s3 r = Some x3" "res_ref x3 = res_ref x + 1"
      using only_rsb [of r UNIV ?s2 s3 ?x1] 3(2) x2 by (auto simp: outcome_def)
    let ?s4 = "s3\<lparr>ls_rsbs := (ls_rsbs s3)(r \<mapsto> x3\<lparr>res_ref := res_ref x\<rparr>)\<rparr>"
    have s4: "put_rsb env r s3 = Some ?s4"
      using put_rsb_held [OF x3(1)] x3(2) hereD(4) [OF h] by simp
    have q4: "quiet r s3 ?s4" by (rule put_rsb_quiet [OF hereD(6) [OF h] s4])
    have c23: "calm r ?s2 s3" by (rule outcome_calm [OF 3(2) x2])
    have ok3: "master_ok s3 r" using 3(2) by (simp add: outcome_def)
    have h3: "here env s3 r x3"
      by (rule calm_here [OF calm_trans [OF 2(2) c23] s1(2) ok3 x3(1)]) (simp add: x3(2))
    have calm: "calm r s ?s4"
      using calm_trans [OF s1(4) calm_trans [OF 2(2) calm_trans [OF c23 put_rsb_calm [OF h3 s4]]]] .
    obtain l3 where l3: "master_ok s3 r" "ls_lkbidr s3 k = Some l3" "lkb_resource l3 = Some r"
      "lkb_wf l3" "P ?l2 e l3" using 3(2) by (rule outcomeE)
    have "unlock_call work env r k args s = Some (e, ?s4)"
      using s1(1) good 3(1) s4 by (simp add: unlock_call_def)
    moreover have "ls_lkbidr ?s4 k = Some l3" using l3(2) by simp
    moreover have "master_ok ?s4 r" using quiet_master_ok [OF q4] l3(1) by simp
    moreover have "ls_rsbs ?s4 r = Some (x3\<lparr>res_ref := res_ref x\<rparr>)" by simp
    ultimately show ?thesis using calm l3(3-5) by fastforce
  qed
qed

definition gone :: "dlm_lkb \<Rightarrow> int \<Rightarrow> dlm_lkb \<Rightarrow> bool" where
  "gone l e l' \<longleftrightarrow> e = -DLM_EUNLOCK \<and> lkb_status l' = 0 \<and> lkb_grmode l' = DLM_LOCK_IV \<and>
     lkb_ref l' = lkb_ref l - 2"

lemma unlock_lock_keeps:
  assumes h: "here env s r x" and m: "member s r k l" and i: "idle x k l"
    and f: "unlock_flags (arg_flags args)" and st: "lkb_status l \<noteq> 0" and lref: "3 \<le> lkb_ref l"
  shows "(\<exists>e. e < 0 \<and> \<not> plain args l \<and> unlock_lock env k args s = Some (e, s)) \<or>
    (\<exists>e s' l'. unlock_lock env k args s = Some (e, s') \<and> master_ok s' r \<and> calm r s s' \<and>
      ls_lkbidr s' k = Some l' \<and> lkb_resource l' = Some r \<and> lkb_wf l' \<and>
      gone (with_unlock_args args l) e l' \<and> (\<exists>x'. ls_rsbs s' r = Some x' \<and> res_ref x' = res_ref x))"
proof -
  have l: "ls_lkbidr s k = Some l" "lkb_resource l = Some r" using m by (auto simp: member_def)
  have "unlock_lock env k args s = unlock_call (us_unlock_lock env) env r k args s"
    using l i by (simp add: unlock_lock_def unlock_call_def wait_children_def idle_def)
  moreover have "\<exists>e s2. us_unlock_lock env r k s1 = Some (e, s2) \<and> outcome r UNIV k l1 s1 s2 (gone l1 e)"
    if "master_ok s1 r" "ls_rsbs s1 r = Some x1" "res_nodeid x1 = 0" "member s1 r k l1"
      "lkb_status l1 = lkb_status l" "lkb_ref l1 = lkb_ref l" for s1 x1 l1
  proof -
    have "gone l1 (-DLM_EUNLOCK) =
        (\<lambda>l'. lkb_status l' = 0 \<and> lkb_grmode l' = DLM_LOCK_IV \<and> lkb_ref l' = lkb_ref l1 - 2)"
      by (rule ext) (simp add: gone_def)
    with us_unlock_lock_keeps [OF that(1-4), of env] that(5,6) st lref show ?thesis by auto
  qed
  ultimately show ?thesis
    using unlock_call_keeps [OF h m i f, of "us_unlock_lock env" gone] by simp
qed

lemma cancel_lock_keeps:
  assumes h: "here env s r x" and m: "member s r k l" and i: "idle x k l"
    and f: "unlock_flags (arg_flags args)" and st: "lkb_status l \<noteq> 0" and lref: "3 \<le> lkb_ref l"
  shows "(\<exists>e. e < 0 \<and> cancel_lock env k args s = Some (e, s)) \<or>
    (\<exists>e s' l'. cancel_lock env k args s = Some (e, s') \<and> master_ok s' r \<and> calm r s s' \<and>
      ls_lkbidr s' k = Some l' \<and> lkb_resource l' = Some r \<and> lkb_wf l' \<and>
      cancel_result (with_unlock_args args l) e l' \<and>
      (\<exists>x'. ls_rsbs s' r = Some x' \<and> res_ref x' = res_ref x))"
proof -
  have l: "ls_lkbidr s k = Some l" "lkb_resource l = Some r" using m by (auto simp: member_def)
  have "cancel_lock env k args s = unlock_call (us_cancel_lock env) env r k args s"
    using l by (simp add: cancel_lock_def unlock_call_def)
  moreover have "\<exists>e s2. us_cancel_lock env r k s1 = Some (e, s2) \<and>
      outcome r UNIV k l1 s1 s2 (cancel_result l1 e)"
    if "master_ok s1 r" "ls_rsbs s1 r = Some x1" "res_nodeid x1 = 0" "member s1 r k l1"
      "lkb_status l1 = lkb_status l" "lkb_ref l1 = lkb_ref l" for s1 x1 l1
    using us_cancel_lock_keeps [OF that(1-4), of env] that(5,6) st lref by simp
  ultimately show ?thesis
    using unlock_call_keeps [OF h m i f, of "us_cancel_lock env" cancel_result] by auto
qed

section \<open>References of the calls\<close>

lemma lkb_wf_ref [simp]: "lkb_wf (l\<lparr>lkb_ref := n\<rparr>) = lkb_wf l"
  by (simp add: lkb_wf_def is_master_copy_def iflag_def)

lemma find_lkb_keeps:
  assumes ok: "master_ok s r" and m: "member s r k l"
  shows "\<exists>s1. find_lkb k s = Some s1 \<and> s1 = s\<lparr>ls_lkbidr := (ls_lkbidr s)(k \<mapsto> l\<lparr>lkb_ref := lkb_ref l + 1\<rparr>)\<rparr> \<and>
    master_ok s1 r \<and> calm r s s1 \<and> member s1 r k (l\<lparr>lkb_ref := lkb_ref l + 1\<rparr>)"
proof -
  have l: "ls_lkbidr s k = Some l" using m by (simp add: member_def)
  have q: "\<And>r. lkb_status l \<noteq> 0 \<Longrightarrow> queued_ok r (lkb_status l) l \<Longrightarrow> queued_ok r (lkb_status l) (l\<lparr>lkb_ref := lkb_ref l + 1\<rparr>)"
    by (simp add: queued_ok_def modes_ok_def alt_safe_def)
  show ?thesis
    using master_ok_upd_lkb [OF ok l _ _ _ q] upd_lkb_calm [OF l _ _ _ q] m l
    by (simp add: find_lkb_def kref_get_lkb_def member_def)
qed

lemma us_put_lkb_keeps:
  assumes h: "here env s r x" and l: "ls_lkbidr s k = Some l" "lkb_resource l = Some r"
    and ref: "1 \<le> lkb_ref l" and st: "lkb_status l = 0 \<or> 3 \<le> lkb_ref l"
    and last: "2 \<le> res_ref x \<or> us_put_lkb env k s \<noteq> None"
  shows "\<exists>s'. us_put_lkb env k s = Some (lkb_ref l = 1, s') \<and> master_ok s' r \<and> calm r s s' \<and>
    (ls_lkbidr s' k = (if lkb_ref l = 1 then None else Some (l\<lparr>lkb_ref := lkb_ref l - 1\<rparr>)))"
proof -
  let ?l1 = "l\<lparr>lkb_ref := lkb_ref l - 1\<rparr>"
  let ?s1 = "s\<lparr>ls_lkbidr := (ls_lkbidr s)(k \<mapsto> ?l1)\<rparr>"
  have q: "\<And>r. lkb_status l \<noteq> 0 \<Longrightarrow> queued_ok r (lkb_status l) l \<Longrightarrow> queued_ok r (lkb_status l) ?l1"
    using st by (auto simp: queued_ok_def modes_ok_def alt_safe_def)
  show ?thesis
  proof (cases "lkb_ref l = 1")
    case True
    then have st0: "lkb_status l = 0" using st by simp
    let ?s2 = "s\<lparr>ls_lkbidr := (ls_lkbidr s)(k := None)\<rparr>"
    have u: "us_put_lkb env k s = map_option (Pair True) (put_rsb env r ?s2)"
      using True ref l st0
      by (simp add: us_put_lkb_def kref_put_lkb_def kill_lkb_def detach_lkb_def map_conv_bind_option comp_def)
    have "put_rsb env r ?s2 \<noteq> None"
    proof (cases "2 \<le> res_ref x")
      case True
      then show ?thesis using put_rsb_held [of ?s2 r x] hereD(2) [OF h] by simp
    next
      case False
      with last u show ?thesis by auto
    qed
    then obtain s3 where p: "put_rsb env r ?s2 = Some s3" by blast
    have q3: "quiet r ?s2 s3" by (rule put_rsb_quiet [OF hereD(6) [OF h] p])
    have "ls_lkbidr s3 k = None" using q3 by (simp add: quiet_def)
    moreover have "master_ok s3 r"
      using master_ok_free [OF hereD(1) [OF h] l(1) st0] quiet_master_ok [OF q3] by simp
    moreover have "calm r ?s2 s3" by (rule quiet_calm [OF q3]) (use hereD(2,5) [OF h] in simp_all)
    moreover have "calm r s ?s2" by (rule free_lkb_calm [OF l(1) st0])
    ultimately show ?thesis using True u p calm_trans by auto
  next
    case False
    then have "us_put_lkb env k s = Some (False, ?s1)"
      using ref l by (simp add: us_put_lkb_def kref_put_lkb_def)
    then show ?thesis
      using False master_ok_upd_lkb [OF hereD(1) [OF h] l(1) _ _ _ q] upd_lkb_calm [OF l(1) _ _ _ q]
      by simp
  qed
qed

text \<open>Taking a reference to a lock and giving it back changes nothing.\<close>

lemma find_put_lkb:
  assumes "ls_lkbidr s k = Some l" and "1 \<le> lkb_ref l"
  shows "us_put_lkb env k (s\<lparr>ls_lkbidr := (ls_lkbidr s)(k \<mapsto> l\<lparr>lkb_ref := lkb_ref l + 1\<rparr>)\<rparr>) = Some (False, s)"
proof -
  have "s\<lparr>ls_lkbidr := (ls_lkbidr s)(k \<mapsto> l)\<rparr> = s" using assms(1) by (simp add: fun_upd_idem)
  then show ?thesis using assms by (simp add: us_put_lkb_def kref_put_lkb_def)
qed

section \<open>\<open>dlm_unlock\<close>\<close>

lemma unlock_args:
  assumes "set_unlock_args flags astarg = (0, args)"
  shows "unlock_flags (arg_flags args)" and "arg_flags args = flags"
  using assms by (auto simp: set_unlock_args_def unlock_flags_def split: if_splits)

definition released :: "dlm_ls \<Rightarrow> lkid \<Rightarrow> bool" where
  "released s k \<longleftrightarrow> (case ls_lkbidr s k of None \<Rightarrow> True
     | Some l \<Rightarrow> lkb_status l = 0 \<and> lkb_grmode l = DLM_LOCK_IV)"

definition settled :: "dlm_ls \<Rightarrow> lkid \<Rightarrow> bool" where
  "settled s k \<longleftrightarrow> (case ls_lkbidr s k of None \<Rightarrow> True
     | Some l \<Rightarrow> lkb_status l = 0 \<or> lkb_status l = DLM_LKSTS_GRANTED)"

text \<open>A call that ends by giving back the reference \<open>find_lkb\<close> took.\<close>

lemma call_put:
  assumes h: "here env s r x0" and ok: "master_ok s1 r" and c: "calm r s s1" and l: "ls_lkbidr s1 k = Some l" "lkb_resource l = Some r"
    and ref: "1 \<le> lkb_ref l" and st: "lkb_status l = 0 \<or> 3 \<le> lkb_ref l"
    and x: "ls_rsbs s1 r = Some x" "res_ref x = res_ref x0"
    and last: "2 \<le> res_ref x \<or> dlm_put_lkb env k s1 \<noteq> None"
  shows "\<exists>last s'. us_put_lkb env k s1 = Some (last, s') \<and> dlm_put_lkb env k s1 = Some (last, s') \<and>
    master_ok s' r \<and> calm r s s' \<and>
    (ls_lkbidr s' k = None \<or> ls_lkbidr s' k = Some (l\<lparr>lkb_ref := lkb_ref l - 1\<rparr>))"
proof -
  have h1: "here env s1 r x" by (rule calm_here [OF c h ok x(1)]) (use x(2) hereD(4) [OF h] in simp)
  have d: "dlm_put_lkb env k s1 = us_put_lkb env k s1" using l by (simp add: dlm_put_lkb_def)
  show ?thesis
    using us_put_lkb_keeps [OF h1 l ref st] last calm_trans [OF c] unfolding d by auto
qed

lemma dlm_unlock_keeps:
  assumes h: "here env s r x" and m: "member s r k l" and i: "idle x k l" and st: "lkb_status l \<noteq> 0"
    and def: "2 \<le> res_ref x \<or> dlm_unlock env k flags astarg s \<noteq> None"
  shows "\<exists>e s'. dlm_unlock env k flags astarg s = Some (e, s') \<and> master_ok s' r \<and> calm r s s' \<and>
    (s' = s \<or> e = 0 \<and> (if has_flag flags DLM_LKF_CANCEL then settled s' k else released s' k)) \<and>
    (\<forall>args. set_unlock_args flags astarg = (0, args) \<and> plain args l \<longrightarrow> e = 0 \<and> released s' k)"
proof -
  note ok = hereD(1) [OF h] and x = hereD(2) [OF h]
  have l: "ls_lkbidr s k = Some l" "lkb_resource l = Some r" using m by (auto simp: member_def)
  have lref: "2 \<le> lkb_ref l" using member_queued [OF ok m st] by (simp add: queued_ok_def)
  let ?l1 = "l\<lparr>lkb_ref := lkb_ref l + 1\<rparr>"
  obtain s1 where s1: "find_lkb k s = Some s1" "s1 = s\<lparr>ls_lkbidr := (ls_lkbidr s)(k \<mapsto> ?l1)\<rparr>"
    "master_ok s1 r" "calm r s s1" "member s1 r k ?l1" using find_lkb_keeps [OF ok m] by blast
  have x1: "ls_rsbs s1 r = Some x" using x s1(2) by simp
  have h1: "here env s1 r x" by (rule calm_here [OF s1(4) h s1(3) x1 hereD(4) [OF h]])
  have rest: "dlm_put_lkb env k s1 = Some (False, s)"
    using find_put_lkb [OF l(1)] lref l s1(2) by (simp add: dlm_put_lkb_def)
  have i1: "idle x k ?l1" using i by (simp add: idle_def iflag_def)
  obtain err args where args: "set_unlock_args flags astarg = (err, args)" by (cases "set_unlock_args flags astarg")
  show ?thesis
  proof (cases "err = 0")
    case False
    then have "dlm_unlock env k flags astarg s = Some (err, s)"
      using s1(1) args rest by (simp add: dlm_unlock_def)
    with ok False args show ?thesis by auto
  next
    case True
    have f: "unlock_flags (arg_flags args)" "arg_flags args = flags"
      using unlock_args args True by auto
    have st1: "lkb_status ?l1 \<noteq> 0" and lr1: "3 \<le> lkb_ref ?l1"
      using st lref by auto
    have pl: "plain args ?l1 = plain args l" by (simp add: plain_def iflag_def)
    show ?thesis
    proof (cases "has_flag flags DLM_LKF_CANCEL")
      case cancel: True
      from cancel_lock_keeps [OF h1 s1(5) i1 f(1) st1 lr1]
      consider (bad) e where "e < 0" "cancel_lock env k args s1 = Some (e, s1)"
        | (good) e s2 l2 x2 where "cancel_lock env k args s1 = Some (e, s2)" "master_ok s2 r" "calm r s1 s2"
          "ls_lkbidr s2 k = Some l2" "lkb_resource l2 = Some r" "cancel_result (with_unlock_args args ?l1) e l2"
          "ls_rsbs s2 r = Some x2" "res_ref x2 = res_ref x" by blast
      then show ?thesis
      proof cases
        case bad
        then have "\<exists>e. dlm_unlock env k flags astarg s = Some (e, s)"
          using s1(1) args rest True cancel by (simp add: dlm_unlock_def)
        with ok cancel f(2) args show ?thesis by (auto simp: plain_def)
      next
        case good
        have stl: "lkb_status l2 = 0 \<or> lkb_status l2 = DLM_LKSTS_GRANTED" and e: "e = 0 \<or> e = -DLM_ECANCEL"
          using good(6) lref by (auto simp: cancel_result_def)
        have "1 \<le> lkb_ref l2" "lkb_status l2 = 0 \<or> 3 \<le> lkb_ref l2"
          using good(6) lref by (auto simp: cancel_result_def)
        moreover have "2 \<le> res_ref x2 \<or> dlm_put_lkb env k s2 \<noteq> None"
          using def good(1,8) s1(1) args True cancel
          by (cases "dlm_put_lkb env k s2") (simp_all add: dlm_unlock_def Let_def)
        ultimately obtain last s3 where s3: "dlm_put_lkb env k s2 = Some (last, s3)" "master_ok s3 r" "calm r s s3"
          "ls_lkbidr s3 k = None \<or> ls_lkbidr s3 k = Some (l2\<lparr>lkb_ref := lkb_ref l2 - 1\<rparr>)"
          using call_put [OF h good(2) calm_trans [OF s1(4) good(3)] good(4,5) _ _ good(7,8)] by blast
        have "dlm_unlock env k flags astarg s = Some (0, s3)"
          using s1(1) args True cancel good(1) s3(1) e by (auto simp: dlm_unlock_def)
        moreover have "settled s3 k" using s3(4) stl by (auto simp: settled_def)
        ultimately show ?thesis using s3(2,3) cancel f(2) args by (auto simp: plain_def)
      qed
    next
      case unlock: False
      from unlock_lock_keeps [OF h1 s1(5) i1 f(1) st1 lr1]
      consider (bad) e where "e < 0" "\<not> plain args l" "unlock_lock env k args s1 = Some (e, s1)"
        | (good) e s2 l2 x2 where "unlock_lock env k args s1 = Some (e, s2)" "master_ok s2 r" "calm r s1 s2"
          "ls_lkbidr s2 k = Some l2" "lkb_resource l2 = Some r" "gone (with_unlock_args args ?l1) e l2"
          "ls_rsbs s2 r = Some x2" "res_ref x2 = res_ref x" unfolding pl by blast
      then show ?thesis
      proof cases
        case bad
        then have "\<exists>e. dlm_unlock env k flags astarg s = Some (e, s)"
          using s1(1) args rest True unlock by (simp add: dlm_unlock_def)
        with ok bad(2) args unlock show ?thesis by auto
      next
        case good
        have e: "e = -DLM_EUNLOCK" using good(6) by (simp add: gone_def)
        have "1 \<le> lkb_ref l2" "lkb_status l2 = 0" using good(6) lref by (auto simp: gone_def)
        moreover have "2 \<le> res_ref x2 \<or> dlm_put_lkb env k s2 \<noteq> None"
          using def good(1,8) s1(1) args True unlock
          by (cases "dlm_put_lkb env k s2") (simp_all add: dlm_unlock_def Let_def)
        ultimately obtain last s3 where s3: "dlm_put_lkb env k s2 = Some (last, s3)" "master_ok s3 r" "calm r s s3"
          "ls_lkbidr s3 k = None \<or> ls_lkbidr s3 k = Some (l2\<lparr>lkb_ref := lkb_ref l2 - 1\<rparr>)"
          using call_put [OF h good(2) calm_trans [OF s1(4) good(3)] good(4,5) _ _ good(7,8)] by blast
        have "dlm_unlock env k flags astarg s = Some (0, s3)"
          using s1(1) args True unlock good(1) s3(1) e by (auto simp: dlm_unlock_def)
        moreover have "released s3 k" using s3(4) good(6) by (auto simp: released_def gone_def)
        ultimately show ?thesis using s3(2,3) unlock by auto
      qed
    qed
  qed
qed

section \<open>\<open>dlm_lock\<close> for a conversion\<close>

text \<open>The outcome of a conversion: refused, with nothing changed, or done, queued or failed as
  \<open>do_convert\<close> decided.\<close>

lemma dlm_lock_convert_keeps:
  assumes h: "here env s r x" and m: "member s r k l" and st: "lkb_status l \<noteq> 0"
    and w: "lkb_wait_type l \<noteq> DLM_MSG_NOTIFY" and conv: "has_flag flags DLM_LKF_CONVERT"
    and nn: "\<not> has_flag flags DLM_LKF_NOTIFY"
    and alt: "\<not> (has_flag flags DLM_LKF_ALTPR \<and> lkb_grmode l = DLM_LOCK_PR)"
      "\<not> (has_flag flags DLM_LKF_ALTCW \<and> lkb_grmode l = DLM_LOCK_CW)"
    and p: "sb_lkid (ls_lksbs s p) = k"
  shows "\<exists>e s'. dlm_lock env mode (Some p) flags name namelen parent ast astarg bast s = Some (e, s') \<and>
    (e < 0 \<and> s' = s \<or>
     e = 0 \<and> master_ok s' r \<and> calm r s s' \<and> lkb_status l = DLM_LKSTS_GRANTED \<and>
       (\<exists>l'. ls_lkbidr s' k = Some l' \<and> lkb_resource l' = Some r \<and> lkb_ref l' = lkb_ref l \<and>
          (lkb_status l' = DLM_LKSTS_GRANTED \<or> lkb_status l' = DLM_LKSTS_CONVERT \<and> lkb_rqmode l' = mode)))"
proof -
  note ok = hereD(1) [OF h] and x = hereD(2) [OF h]
  have l: "ls_lkbidr s k = Some l" "lkb_resource l = Some r" using m by (auto simp: member_def)
  have lref: "2 \<le> lkb_ref l" using member_queued [OF ok m st] by (simp add: queued_ok_def)
  let ?l1 = "l\<lparr>lkb_ref := lkb_ref l + 1\<rparr>"
  obtain s1 where s1: "find_lkb k s = Some s1" "s1 = s\<lparr>ls_lkbidr := (ls_lkbidr s)(k \<mapsto> ?l1)\<rparr>"
    "master_ok s1 r" "calm r s s1" "member s1 r k ?l1" using find_lkb_keeps [OF ok m] by blast
  have x1: "ls_rsbs s1 r = Some x" using x s1(2) by simp
  have h1: "here env s1 r x" by (rule calm_here [OF s1(4) h s1(3) x1 hereD(4) [OF h]])
  have rest: "us_put_lkb env k s1 = Some (False, s)"
    using find_put_lkb [OF l(1)] lref s1(2) by simp
  obtain err args where args: "set_lock_args mode (Some p) flags namelen ast astarg bast s1 = (err, args)"
    by (cases "set_lock_args mode (Some p) flags namelen ast astarg bast s1")
  show ?thesis
  proof (cases "err = 0")
    case False
    then have "err = -EINVAL" using args by (auto simp: set_lock_args_def split: if_splits option.splits)
    then have "dlm_lock env mode (Some p) flags name namelen parent ast astarg bast s = Some (-EINVAL, s)"
      using s1(1) args rest conv p by (simp add: dlm_lock_def)
    then show ?thesis by simp
  next
    case True
    have a: "convert_args args" "arg_flags args = flags" "arg_mode args = mode"
      using set_lock_args_convert args conv True by blast+
    have "alt_args_safe args ?l1" using alt a(2) by (simp add: alt_args_safe_def)
    moreover have "lkb_wait_type ?l1 \<noteq> DLM_MSG_NOTIFY" using w by simp
    ultimately consider (bad) e where "e \<in> {-EBUSY, -EINVAL}" "convert_lock env k args s1 = Some (e, s1)"
      | (good) e pb s2 l2 where "convert_lock env k args s1 = Some (e, s2)" "lkb_status ?l1 = DLM_LKSTS_GRANTED"
        "master_ok s2 r" "calm r s1 s2" "ls_lkbidr s2 k = Some l2" "member s2 r k l2"
        "convert_result (with_args env args pb s1 ?l1) e l2"
      using convert_lock_keeps [OF h1 s1(5) _ a(1)] by blast
    then show ?thesis
    proof cases
      case bad
      then show ?thesis
        using s1(1) args rest conv nn True p by (auto simp: dlm_lock_def)
    next
      case good
      let ?l3 = "l2\<lparr>lkb_ref := lkb_ref l2 - 1\<rparr>"
      let ?s3 = "s2\<lparr>ls_lkbidr := (ls_lkbidr s2)(k \<mapsto> ?l3)\<rparr>"
      have c: "lkb_ref l2 = lkb_ref l + 1" "lkb_status l2 = DLM_LKSTS_GRANTED \<or>
          lkb_status l2 = DLM_LKSTS_CONVERT \<and> lkb_rqmode l2 = mode"
        and e: "e \<in> {0, -EDEADLK, -EINPROGRESS, -EAGAIN}"
        using good(7) a(3) by (auto simp: convert_result_def)
      have q: "\<And>r. lkb_status l2 \<noteq> 0 \<Longrightarrow> queued_ok r (lkb_status l2) l2 \<Longrightarrow> queued_ok r (lkb_status l2) ?l3"
        using c(1) lref by (auto simp: queued_ok_def modes_ok_def alt_safe_def)
      have "us_put_lkb env k s2 = Some (False, ?s3)"
        using c(1) lref good(5) by (simp add: us_put_lkb_def kref_put_lkb_def)
      then have "dlm_lock env mode (Some p) flags name namelen parent ast astarg bast s = Some (0, ?s3)"
        using s1(1) args conv nn True good(1) e p by (auto simp: dlm_lock_def)
      moreover have "master_ok ?s3 r" by (rule master_ok_upd_lkb [OF good(3,5) _ _ _ q]) simp_all
      moreover have "calm r s ?s3"
        using calm_trans [OF s1(4) calm_trans [OF good(4) upd_lkb_calm [OF good(5) _ _ _ q]]] by simp
      ultimately show ?thesis using good(2,6) c lref by (auto simp: member_def)
    qed
  qed
qed

end
