(* ===== verification/Runs.thy ===== *)
theory Runs
  imports Api
begin

text \<open>
  The lockspace over time. \<open>lock_step\<close> is one call of the lock API, or one of the parts of
  \<open>dlm_lock\<close> for a new lock: creating the lock, finding or creating the resource, the request
  itself, dropping the lock that was not granted. \<open>ls_inv\<close> holds in every state such steps
  reach: every resource this node masters satisfies the invariant of its queues and modes, and
  no lock points at a freed or a pooled resource.
\<close>

section \<open>The invariant of a lockspace\<close>

definition loose :: "dlm_ls \<Rightarrow> rsbp \<Rightarrow> bool" where
  "loose s r \<longleftrightarrow> r \<notin> set (ls_new_rsb s) \<and> r \<notin> tree_nodes s \<and>
     (\<forall>k l. ls_lkbidr s k = Some l \<longrightarrow> lkb_resource l \<noteq> Some r)"

definition ls_inv :: "dlm_ls \<Rightarrow> bool" where
  "ls_inv s \<longleftrightarrow> (\<forall>r x. ls_rsbs s r = Some x \<and> res_nodeid x = 0 \<longrightarrow> master_ok s r) \<and>
     (\<forall>k l r. ls_lkbidr s k = Some l \<and> lkb_resource l = Some r \<longrightarrow>
        ls_rsbs s r \<noteq> None \<and> r \<notin> set (ls_new_rsb s)) \<and>
     distinct (ls_new_rsb s) \<and> (\<forall>r\<in>set (ls_new_rsb s). ls_rsbs s r \<noteq> None) \<and>
     set (ls_new_rsb s) \<inter> tree_nodes s = {} \<and> (\<forall>r\<in>tree_nodes s. ls_rsbs s r \<noteq> None)"

lemma ls_inv_master: "ls_inv s \<Longrightarrow> ls_rsbs s r = Some x \<Longrightarrow> res_nodeid x = 0 \<Longrightarrow> master_ok s r"
  by (simp add: ls_inv_def)

lemma ls_inv_attached:
  "ls_inv s \<Longrightarrow> ls_lkbidr s k = Some l \<Longrightarrow> lkb_resource l = Some r \<Longrightarrow>
   ls_rsbs s r \<noteq> None \<and> r \<notin> set (ls_new_rsb s)"
  unfolding ls_inv_def by blast

lemma calm_inv:
  assumes inv: "ls_inv s" and c: "calm r s s'"
    and ok: "\<And>x. ls_rsbs s' r = Some x \<Longrightarrow> res_nodeid x = 0 \<Longrightarrow> master_ok s' r"
  shows "ls_inv s'"
proof -
  have w: "wiring s s'" using c by (simp add: calm_def)
  have mast: "master_ok s' r'" if x': "ls_rsbs s' r' = Some x'" "res_nodeid x' = 0" for r' x'
  proof (cases "r' = r")
    case True
    with ok x' show ?thesis by simp
  next
    case False
    have "map_option res_nodeid (ls_rsbs s r') = map_option res_nodeid (ls_rsbs s' r')"
      using c by (simp add: calm_def)
    with x' obtain x where "ls_rsbs s r' = Some x" "res_nodeid x = 0" by auto
    with inv have "master_ok s r'" by (rule ls_inv_master)
    with c False show ?thesis by (simp add: calm_def)
  qed
  have att: "ls_rsbs s' r' \<noteq> None \<and> r' \<notin> set (ls_new_rsb s')"
    if "ls_lkbidr s' k = Some l'" "lkb_resource l' = Some r'" for k l' r'
    using w inv that unfolding wiring_def ls_inv_def by metis
  have new: "ls_new_rsb s' = ls_new_rsb s" and live: "ls_rsbs s' r' = None \<longleftrightarrow> ls_rsbs s r' = None"
    and nodes: "r' \<in> tree_nodes s' \<Longrightarrow> r' \<in> tree_nodes s \<or> ls_rsbs s r' \<noteq> None \<and> r' \<notin> set (ls_new_rsb s)"
    for r' using w by (simp_all add: wiring_def)
  have pool: "set (ls_new_rsb s) \<inter> tree_nodes s = {}" "\<forall>r\<in>tree_nodes s. ls_rsbs s r \<noteq> None"
    using inv unfolding ls_inv_def by simp_all
  have nodes': "r' \<notin> set (ls_new_rsb s) \<and> ls_rsbs s r' \<noteq> None" if "r' \<in> tree_nodes s'" for r'
    using nodes [OF that] pool by blast
  have d: "distinct (ls_new_rsb s)" "\<forall>r\<in>set (ls_new_rsb s). ls_rsbs s r \<noteq> None"
    using inv unfolding ls_inv_def by simp_all
  show ?thesis
    unfolding ls_inv_def new live using mast att [unfolded new live] nodes' d by blast
qed

lemma ls_inv_cong:
  assumes inv: "ls_inv s" and s': "ls_lkbidr s' = ls_lkbidr s" "ls_rsbs s' = ls_rsbs s"
    "ls_new_rsb s' = ls_new_rsb s" "tree_nodes s' = tree_nodes s"
  shows "ls_inv s'"
proof -
  have "master_ok s' r = master_ok s r" for r by (rule master_ok_cong) (simp_all add: s')
  with inv show ?thesis by (simp add: ls_inv_def s')
qed

lemma outcome_inv: "ls_inv s \<Longrightarrow> outcome r A k l s s' P \<Longrightarrow> ls_rsbs s r = Some x \<Longrightarrow> ls_inv s'"
  by (rule calm_inv [of s r]) (auto simp: outcome_calm, simp add: outcome_def)

text \<open>A lock that is on no queue may change as long as it stays off the queues.\<close>

lemma master_ok_off_queue:
  assumes ok: "master_ok s r" and k: "\<And>l. ls_lkbidr s k = Some l \<Longrightarrow> lkb_status l = 0"
    and l': "lkb_status l' = 0"
  shows "master_ok (s\<lparr>ls_lkbidr := (ls_lkbidr s)(k \<mapsto> l')\<rparr>) r"
proof -
  let ?s1 = "s\<lparr>ls_lkbidr := (ls_lkbidr s)(k \<mapsto> l')\<rparr>"
  obtain x where x: "ls_rsbs s r = Some x" "queues_ok s r x" "modes.consistent (gr_mode s) (holders x)"
    using ok by (auto simp: master_ok_def)
  have other: "j \<noteq> k" if j: "j \<in> set (rsb_queues x)" for j
  proof -
    obtain l where "ls_lkbidr s j = Some l" "lkb_status l \<noteq> 0"
      using x(2) j unfolding queues_ok_def on_queue_def rsb_queues_def queued_ok_def by fastforce
    with k show ?thesis by auto
  qed
  have on: "on_queue ?s1 r st q" if "on_queue s r st q" "set q \<subseteq> set (rsb_queues x)" for st q
    using that other unfolding on_queue_def by (auto simp: subset_iff)
  have "queues_ok ?s1 r x"
    using x(2) on l' by (auto simp: queues_ok_def rsb_queues_def split: if_splits)
  moreover have "gr_mode ?s1 j = gr_mode s j" if "j \<in> holders x" for j
    using that other by (auto simp: gr_mode_def holders_def rsb_queues_def)
  then have "modes.consistent (gr_mode ?s1) (holders x)"
    using x(3) by (simp add: modes.consistent_def pairwise_on_def)
  ultimately show ?thesis using x(1) by (simp add: master_ok_def)
qed

lemma off_queue_inv:
  assumes inv: "ls_inv s" and k: "\<And>l. ls_lkbidr s k = Some l \<Longrightarrow> lkb_status l = 0"
    and l': "lkb_status l' = 0"
      "\<And>r. lkb_resource l' = Some r \<Longrightarrow> ls_rsbs s r \<noteq> None \<and> r \<notin> set (ls_new_rsb s)"
  shows "ls_inv (s\<lparr>ls_lkbidr := (ls_lkbidr s)(k \<mapsto> l')\<rparr>)"
proof -
  let ?s1 = "s\<lparr>ls_lkbidr := (ls_lkbidr s)(k \<mapsto> l')\<rparr>"
  have "tree_nodes ?s1 = tree_nodes s" by (simp add: tree_nodes_def)
  moreover have "master_ok ?s1 r" if "ls_rsbs s r = Some x" "res_nodeid x = 0" for r x
    using master_ok_off_queue [OF ls_inv_master [OF inv that] k l'(1)] by simp
  ultimately show ?thesis using inv l'(2) by (auto simp: ls_inv_def)
qed

section \<open>Resources\<close>

text \<open>A resource nobody is attached to and with empty queues satisfies the invariant.\<close>

lemma master_ok_empty:
  assumes "ls_rsbs s r = Some x" and "queues x = ([], [], [])"
    and "\<And>k l. ls_lkbidr s k = Some l \<Longrightarrow> lkb_resource l \<noteq> Some r"
  shows "master_ok s r"
  using assms
  by (auto simp: master_ok_def queues_def queues_ok_def rsb_queues_def on_queue_def holders_def
      modes.consistent_def)

text \<open>Replacing the contents of a loose resource.\<close>

lemma loose_inv:
  assumes inv: "ls_inv s" and l: "loose s r"
    and s': "ls_lkbidr s' = ls_lkbidr s" "ls_rsbs s' = (ls_rsbs s)(r \<mapsto> x')" "queues x' = ([], [], [])"
      "ls_new_rsb s' = ls_new_rsb s" "tree_nodes s' = tree_nodes s"
  shows "ls_inv s' \<and> loose s' r"
proof -
  have "master_ok s' r'" if x: "ls_rsbs s' r' = Some x" "res_nodeid x = 0" for r' x
  proof (cases "r' = r")
    case True
    with s' l show ?thesis by (intro master_ok_empty [of s' r' x']) (auto simp: loose_def)
  next
    case False
    then have "master_ok s r'" using x s'(2) inv by (auto intro: ls_inv_master)
    with False s'(1,2) show ?thesis by (subst master_ok_cong [of s' s r']) simp_all
  qed
  moreover have "loose s' r" using l s' by (simp add: loose_def)
  ultimately show ?thesis using inv s' by (auto simp: ls_inv_def)
qed

definition alloc_fresh :: "dlm_env \<Rightarrow> bool" where
  "alloc_fresh env \<longleftrightarrow> (\<forall>used t r. allocate_rsb env used t = Some r \<longrightarrow> \<not> used r)"

lemma dead_loose: "ls_inv s \<Longrightarrow> ls_rsbs s r = None \<Longrightarrow> loose s r"
  unfolding ls_inv_def loose_def by blast

lemma allocate_inv:
  assumes inv: "ls_inv s" and fresh: "alloc_fresh env" and a: "dlm_allocate_rsb env s = (ro, s')"
  shows "ls_inv s' \<and> ls_lkbidr s' = ls_lkbidr s \<and>
    (\<forall>r. ro = Some r \<longrightarrow> loose s' r \<and> ls_rsbs s' r \<noteq> None \<and> ls_rsbs s r = None) \<and>
    (\<forall>r. loose s r \<longrightarrow> loose s' r) \<and> (\<forall>r. ls_rsbs s r \<noteq> None \<longrightarrow> ls_rsbs s' r \<noteq> None)"
proof (cases "allocate_rsb env (\<lambda>r. ls_rsbs s r \<noteq> None) (ls_tick s)")
  case None
  with a have "ro = None" "s' = s\<lparr>ls_tick := ls_tick s + 1\<rparr>" by (auto simp: dlm_allocate_rsb_def)
  moreover have "ls_inv (s\<lparr>ls_tick := ls_tick s + 1\<rparr>)"
    by (rule ls_inv_cong [OF inv]) (simp_all add: tree_nodes_def)
  ultimately show ?thesis by (simp add: loose_def tree_nodes_def)
next
  case (Some r)
  with a have s': "ro = Some r" "s' = s\<lparr>ls_rsbs := (ls_rsbs s)(r \<mapsto> zero_rsb), ls_tick := ls_tick s + 1\<rparr>"
    by (auto simp: dlm_allocate_rsb_def)
  have dead: "ls_rsbs s r = None"
    using fresh Some unfolding alloc_fresh_def by blast
  have "ls_inv s' \<and> loose s' r"
    by (rule loose_inv [OF inv dead_loose [OF inv dead], where x' = zero_rsb])
      (simp_all add: s'(2) zero_rsb_def queues_def tree_nodes_def)
  with dead s' show ?thesis by (auto simp: loose_def tree_nodes_def)
qed

lemma new_rsb_add_inv:
  assumes inv: "ls_inv s" and l: "\<And>r. ro = Some r \<Longrightarrow> loose s r \<and> ls_rsbs s r \<noteq> None"
  shows "ls_inv (new_rsb_add ro s) \<and> ls_lkbidr (new_rsb_add ro s) = ls_lkbidr s \<and>
    (\<forall>r. loose s r \<and> ro \<noteq> Some r \<longrightarrow> loose (new_rsb_add ro s) r)"
proof (cases ro)
  case None
  with inv show ?thesis by (simp add: new_rsb_add_def)
next
  case (Some r)
  then have r: "loose s r" "ls_rsbs s r \<noteq> None" using l by blast+
  let ?s1 = "new_rsb_add ro s"
  have f: "ls_lkbidr ?s1 = ls_lkbidr s" "ls_rsbs ?s1 = ls_rsbs s" "ls_new_rsb ?s1 = r # ls_new_rsb s"
    "tree_nodes ?s1 = tree_nodes s" by (simp_all add: Some new_rsb_add_def tree_nodes_def)
  have m: "master_ok ?s1 r' = master_ok s r'" for r' by (rule master_ok_cong) (simp_all add: f)
  have "ls_inv ?s1"
    using inv r unfolding ls_inv_def f m loose_def by auto
  with f Some show ?thesis by (simp add: loose_def)
qed

lemma pre_rsb_struct_inv:
  assumes inv: "ls_inv s" and fresh: "alloc_fresh env" and p: "pre_rsb_struct env s = (e, s')"
  shows "ls_inv s' \<and> ls_lkbidr s' = ls_lkbidr s"
proof (cases "ls_new_rsb_count s > ci_new_rsb_count env div 2")
  case True
  with p inv show ?thesis by (simp add: pre_rsb_struct_def)
next
  case False
  obtain r1 s1 where a1: "dlm_allocate_rsb env s = (r1, s1)" by fastforce
  obtain r2 s2 where a2: "dlm_allocate_rsb env s1 = (r2, s2)" by fastforce
  have s': "s' = new_rsb_add r2 (new_rsb_add r1 s2)"
    using p a1 a2 False by (auto simp: pre_rsb_struct_def Let_def split: if_splits)
  note i1 = allocate_inv [OF inv fresh a1]
  note i2 = allocate_inv [OF conjunct1 [OF i1] fresh a2]
  have l1: "loose s2 r \<and> ls_rsbs s2 r \<noteq> None" if "r1 = Some r" for r using i1 i2 that by blast
  note i3 = new_rsb_add_inv [OF conjunct1 [OF i2] l1]
  have l2: "loose (new_rsb_add r1 s2) r \<and> ls_rsbs (new_rsb_add r1 s2) r \<noteq> None" if r: "r2 = Some r" for r
  proof -
    have "loose s2 r" "ls_rsbs s2 r \<noteq> None" "r1 \<noteq> Some r" using i1 i2 r by auto
    then show ?thesis using i3 by (auto simp: new_rsb_add_def split: option.splits)
  qed
  note i4 = new_rsb_add_inv [OF conjunct1 [OF i3] l2]
  have "ls_lkbidr s2 = ls_lkbidr s" using i1 i2 by simp
  then show ?thesis using i3 i4 s' by simp
qed

lemma get_rsb_struct_inv:
  assumes inv: "ls_inv s" and g: "get_rsb_struct name len s = Some (e, ro, s')"
  shows "ls_inv s' \<and> ls_lkbidr s' = ls_lkbidr s \<and>
    (\<forall>r. ro = Some r \<longrightarrow> loose s' r \<and> (\<exists>x. ls_rsbs s' r = Some x \<and> queues x = ([], [], [])))"
proof (cases "ls_new_rsb s")
  case Nil
  with g inv show ?thesis by (simp add: get_rsb_struct_def)
next
  case (Cons r rs)
  let ?s1 = "s\<lparr>ls_new_rsb := rs, ls_new_rsb_count := ls_new_rsb_count s - 1\<rparr>"
  have pool: "r \<notin> set rs" "ls_rsbs s r \<noteq> None" "r \<notin> tree_nodes s"
    using inv Cons unfolding ls_inv_def by auto
  have free: "lkb_resource l \<noteq> Some r" if "ls_lkbidr s k = Some l" for k l
    using ls_inv_attached [OF inv that, of r] Cons by auto
  have t: "tree_nodes ?s1 = tree_nodes s" by (simp add: tree_nodes_def)
  have m: "master_ok ?s1 r' = master_ok s r'" for r' by (rule master_ok_cong) simp_all
  have i1: "ls_inv ?s1" using inv Cons unfolding ls_inv_def t m by auto
  have l1: "loose ?s1 r" using pool free t by (auto simp: loose_def)
  obtain x where x: "ls_rsbs s r = Some x" using pool(2) by blast
  let ?x = "x\<lparr>res_length := len, res_name := memcpy (res_name x) name len,
    res_lookup := [], res_grantqueue := [], res_convertqueue := [], res_waitqueue := []\<rparr>"
  have s': "ro = Some r" "s' = ?s1\<lparr>ls_rsbs := (ls_rsbs s)(r \<mapsto> ?x)\<rparr>"
    using g Cons x by (auto simp: get_rsb_struct_def)
  have "ls_inv s' \<and> loose s' r"
    by (rule loose_inv [OF i1 l1, where x' = ?x]) (simp_all add: s' queues_def tree_nodes_def)
  with s' show ?thesis by (simp add: queues_def)
qed

lemma insert_keep_inv:
  assumes inv: "ls_inv s" and env: "tree_env_ok env" and r: "r \<notin> set (ls_new_rsb s)" "ls_rsbs s r \<noteq> None"
    and i: "insert_keep env b r s = Some (e, s')"
  shows "ls_inv s' \<and> ls_lkbidr s' = ls_lkbidr s \<and> ls_rsbs s' = ls_rsbs s \<and> ls_new_rsb s' = ls_new_rsb s"
proof -
  obtain t where t: "rsb_insert env s r (keep (ls_rsbtbl s b)) = Some t"
    using i by (auto simp: insert_keep_def Option.bind_eq_Some_conv)
  show ?thesis
  proof (cases t)
    case None
    with t i inv show ?thesis by (auto simp: insert_keep_def)
  next
    case (Some t1)
    then have s': "s' = upd_bucket b (\<lambda>x. x\<lparr>keep := t1\<rparr>) s" using t i by (auto simp: insert_keep_def)
    have "set_tree t1 = insert r (set_tree (keep (ls_rsbtbl s b)))"
      using rsb_insert_nodes [OF env] t Some by blast
    then have n: "tree_nodes s' \<subseteq> insert r (tree_nodes s)"
      unfolding s' by (fastforce simp: tree_nodes_def upd_bucket_def split: if_splits)
    have f: "ls_lkbidr s' = ls_lkbidr s" "ls_rsbs s' = ls_rsbs s" "ls_new_rsb s' = ls_new_rsb s"
      by (simp_all add: s' upd_bucket_def)
    have "quiet r s s'" using n f by (simp add: quiet_def)
    then have "ls_inv s'"
      using calm_inv [OF inv quiet_calm [of r s s']] r quiet_master_ok ls_inv_master [OF inv] f(2) by metis
    with f show ?thesis by simp
  qed
qed

text \<open>Looking up or creating a resource for a request of this node, with a directory.\<close>

lemma search_tree_nodes: "search_tree cmp t = Some (Some r) \<Longrightarrow> r \<in> set_tree t"
  by (induction t) (auto split: Option.bind_splits if_splits)

lemma search_nodes:
  assumes "dlm_search_rsb_tree s (keep (ls_rsbtbl s b)) name len = Some (Some r) \<or>
    dlm_search_rsb_tree s (toss (ls_rsbtbl s b)) name len = Some (Some r)"
  shows "r \<in> tree_nodes s"
  using assms unfolding dlm_search_rsb_tree_def tree_nodes_def by (auto dest: search_tree_nodes)

lemma ls_inv_nodes: "ls_inv s \<Longrightarrow> r \<in> tree_nodes s \<Longrightarrow> ls_rsbs s r \<noteq> None \<and> r \<notin> set (ls_new_rsb s)"
  unfolding ls_inv_def by blast

lemma quiet_inv:
  assumes inv: "ls_inv s" and q: "quiet r s s'" and r: "ls_rsbs s r \<noteq> None" "r \<notin> set (ls_new_rsb s)"
  shows "ls_inv s'"
proof (rule calm_inv [OF inv quiet_calm [OF q r]])
  fix x assume x: "ls_rsbs s' r = Some x" "res_nodeid x = 0"
  have "map_option (\<lambda>x. (queues x, res_nodeid x)) (ls_rsbs s' r) =
      map_option (\<lambda>x. (queues x, res_nodeid x)) (ls_rsbs s r)" using q by (simp add: quiet_def)
  then have "\<exists>y. ls_rsbs s r = Some y \<and> res_nodeid y = 0" using x by (cases "ls_rsbs s r") auto
  then have "master_ok s r" using ls_inv_master [OF inv] by blast
  then show "master_ok s' r" using quiet_master_ok [OF q] by simp
qed

text \<open>What a lookup hands back: the invariant, the locks unchanged, and a live resource that
  is not in the pool.\<close>

definition found :: "dlm_ls \<Rightarrow> int \<times> rsbp option \<times> dlm_ls \<Rightarrow> bool" where
  "found s res \<longleftrightarrow> (case res of (e, ro, s') \<Rightarrow> ls_inv s' \<and> ls_lkbidr s' = ls_lkbidr s \<and>
     (\<forall>r. ro = Some r \<longrightarrow> ls_rsbs s' r \<noteq> None \<and> r \<notin> set (ls_new_rsb s')))"

lemma find_rsb_dir_toss_found:
  assumes inv: "ls_inv s" and env: "tree_env_ok env" and r: "r \<in> tree_nodes s"
    and f: "find_rsb_dir_toss env b from from_local False False r s = Some res"
  shows "found s res"
proof -
  have live: "ls_rsbs s r \<noteq> None" "r \<notin> set (ls_new_rsb s)" using ls_inv_nodes [OF inv r] by blast+
  then obtain x where x: "ls_rsbs s r = Some x" by blast
  let ?s1 = "if from_local \<and> res_master_nodeid x \<noteq> dlm_our_nodeid env
    then s\<lparr>ls_rsbs := (ls_rsbs s)(r \<mapsto> rsb_set_flag RSB_MASTER_UNCERTAIN (x\<lparr>res_first_lkid := 0\<rparr>))\<rparr> else s"
  have q1: "quiet r s ?s1"
    using x by (auto simp: quiet_def queues_def tree_nodes_def rsb_set_flag_def)
  have "set_tree (rb_erase env r t) \<subseteq> set_tree t" for t
    using env set_remove1_subset unfolding tree_env_ok_def by (metis set_inorder)
  then have q2: "quiet r ?s1 (erase_toss env b r ?s1)"
    by (intro quiet_tables)
      (simp_all add: erase_toss_def upd_bucket_def, fastforce simp: tree_nodes_def split: if_splits)
  let ?s2 = "erase_toss env b r ?s1"
  have q: "quiet r s ?s2" using q1 q2 by (rule quiet_trans)
  have i2: "ls_inv ?s2" by (rule quiet_inv [OF inv q live])
  have live2: "ls_rsbs ?s2 r \<noteq> None" "r \<notin> set (ls_new_rsb ?s2)" "ls_lkbidr ?s2 = ls_lkbidr s"
    using q live(2) x by (auto simp: quiet_def erase_toss_def upd_bucket_def)
  obtain e s3 where k: "insert_keep env b r ?s2 = Some (e, s3)" "res = (e, Some r, s3)"
    using f x by (auto simp: find_rsb_dir_toss_def Let_def Option.bind_eq_Some_conv split: if_splits)
  show ?thesis
    using insert_keep_inv [OF i2 env live2(2,1) k(1)] live2 k(2) by (simp add: found_def)
qed

lemma find_rsb_dir_new_found:
  assumes inv: "ls_inv s" and env: "tree_env_ok env" and l: "loose s r"
    and x: "ls_rsbs s r = Some x" "queues x = ([], [], [])"
    and f: "find_rsb_dir_new env hash b dir flags False False r s = Some res"
  shows "found s res"
proof -
  obtain x1 e s2 where x1: "insert_keep env b r (s\<lparr>ls_rsbs := (ls_rsbs s)(r \<mapsto> x1)\<rparr>) = Some (e, s2)"
    "res = (e, Some r, s2)" "queues x1 = ([], [], [])"
    using f x by (auto simp: find_rsb_dir_new_def Let_def Option.bind_eq_Some_conv queues_def split: if_splits)
  let ?s1 = "s\<lparr>ls_rsbs := (ls_rsbs s)(r \<mapsto> x1)\<rparr>"
  have 1: "ls_inv ?s1 \<and> loose ?s1 r"
    by (rule loose_inv [OF inv l, where x' = x1]) (simp_all add: x1(3) tree_nodes_def)
  then have "r \<notin> set (ls_new_rsb ?s1)" "ls_rsbs ?s1 r \<noteq> None" by (auto simp: loose_def)
  with insert_keep_inv [OF conjunct1 [OF 1] env this x1(1)] x1(2) show ?thesis by (simp add: found_def)
qed

lemma find_rsb_dir_pass_found:
  assumes inv: "ls_inv s" and env: "tree_env_ok env" "alloc_fresh env"
    and loc: "\<not> has_flag flags R_RECEIVE_REQUEST"
    and p: "find_rsb_dir_pass env name len hash b dir from flags s = Some p"
  shows "case p of Retry s' \<Rightarrow> ls_inv s' \<and> ls_lkbidr s' = ls_lkbidr s | Done res \<Rightarrow> found s res"
proof -
  let ?c = "has_flag flags R_REQUEST"
  obtain e0 s0 where s0: "(if ?c then pre_rsb_struct env s else (0, s)) = (e0, s0)" by fastforce
  have i0: "ls_inv s0 \<and> ls_lkbidr s0 = ls_lkbidr s"
    using s0 pre_rsb_struct_inv [OF inv env(2)] inv by (auto split: if_splits)
  then have f0: "found s res" if "found s0 res" for res using that by (auto simp: found_def)
  show ?thesis
  proof (cases "e0 < 0")
    case True
    then have "p = Done (e0, None, s0)"
      using p s0 loc by (simp add: find_rsb_dir_pass_def Let_def)
    with i0 show ?thesis by (simp add: found_def)
  next
    case False
    obtain ko where ko: "dlm_search_rsb_tree s0 (keep (ls_rsbtbl s0 b)) name len = Some ko"
      using p s0 loc False by (auto simp: find_rsb_dir_pass_def Let_def Option.bind_eq_Some_conv)
    show ?thesis
    proof (cases ko)
      case (Some r)
      then have r: "r \<in> tree_nodes s0" using ko search_nodes by blast
      then have live: "ls_rsbs s0 r \<noteq> None" "r \<notin> set (ls_new_rsb s0)"
        using ls_inv_nodes i0 by blast+
      obtain s1 where s1: "kref_get_rsb r s0 = Some s1" "p = Done (0, Some r, s1)"
        using p s0 loc False ko Some
        by (auto simp: find_rsb_dir_pass_def Let_def Option.bind_eq_Some_conv)
      have q: "quiet r s0 s1" using hold_rsb_quiet s1(1) by (simp add: hold_rsb_def)
      have "ls_rsbs s1 r \<noteq> None" using s1(1) by (auto simp: kref_get_rsb_def upd_rsb_eq_Some_iff)
      with q live quiet_inv [OF conjunct1 [OF i0] q live] i0 s1(2) show ?thesis
        by (simp add: found_def quiet_def)
    next
      case keep: None
      obtain t where t: "dlm_search_rsb_tree s0 (toss (ls_rsbtbl s0 b)) name len = Some t"
        using p s0 loc False ko keep by (auto simp: find_rsb_dir_pass_def Let_def Option.bind_eq_Some_conv)
      show ?thesis
      proof (cases t)
        case (Some r)
        then have r: "r \<in> tree_nodes s0" using t search_nodes by blast
        obtain res where "find_rsb_dir_toss env b from ?c False False r s0 = Some res" "p = Done res"
          using p s0 loc False ko keep t Some by (auto simp: find_rsb_dir_pass_def Let_def)
        with find_rsb_dir_toss_found [OF conjunct1 [OF i0] env(1) r] f0 show ?thesis by simp
      next
        case toss: None
        show ?thesis
        proof (cases ?c)
          case False
          then have "p = Done (-EBADR, None, s0)"
            using p s0 loc \<open>\<not> e0 < 0\<close> ko keep t toss by (auto simp: find_rsb_dir_pass_def Let_def)
          with i0 show ?thesis by (simp add: found_def)
        next
          case c: True
          obtain e ro s1 where g: "get_rsb_struct name len s0 = Some (e, ro, s1)"
            using p s0 loc False ko keep t toss c
            by (auto simp: find_rsb_dir_pass_def Let_def Option.bind_eq_Some_conv)
          note i1 = get_rsb_struct_inv [OF conjunct1 [OF i0] g]
          show ?thesis
          proof (cases ro)
            case None
            then show ?thesis
              using p s0 loc False ko keep t toss c g i0 i1
              by (auto simp: find_rsb_dir_pass_def Let_def found_def split: if_splits)
          next
            case (Some r)
            obtain res where res: "find_rsb_dir_new env hash b dir flags False False r s1 = Some res" "p = Done res"
              using p s0 loc False ko keep t toss c g Some by (auto simp: find_rsb_dir_pass_def Let_def)
            obtain x where x: "ls_rsbs s1 r = Some x" "queues x = ([], [], [])" using i1 Some by blast
            have "found s1 res"
              by (rule find_rsb_dir_new_found [OF _ env(1) _ x res(1)]) (use i1 Some in auto)
            with i0 i1 res(2) show ?thesis by (auto simp: found_def)
          qed
        qed
      qed
    qed
  qed
qed

lemma find_rsb_found:
  assumes inv: "ls_inv s" and env: "tree_env_ok env" "alloc_fresh env"
    and loc: "\<not> has_flag flags R_RECEIVE_REQUEST" and dir: "\<not> dlm_no_directory s"
    and f: "find_rsb env name len from flags s = Some res"
  shows "found s res"
proof (cases "len > DLM_RESNAME_MAXLEN")
  case True
  with f inv show ?thesis by (auto simp: find_rsb_def found_def)
next
  case False
  let ?hash = "jhash env (take len name)"
  let ?b = "bucket_of s ?hash" and ?dir = "dlm_hash2nodeid env ?hash"
  have "retry (find_rsb_dir_pass env name len ?hash ?b ?dir from flags) s = Some res"
    using f dir False by (simp add: find_rsb_def find_rsb_dir_def Let_def)
  then show ?thesis
  proof (rule retry_invariant [where I = "\<lambda>t. ls_inv t \<and> ls_lkbidr t = ls_lkbidr s" and Q = "found s", rotated 2])
    show "ls_inv s \<and> ls_lkbidr s = ls_lkbidr s" using inv by simp
  next
    fix t p
    assume t: "ls_inv t \<and> ls_lkbidr t = ls_lkbidr s"
      and p: "find_rsb_dir_pass env name len ?hash ?b ?dir from flags t = Some p"
    have "found s r" if "found t r" for r using that t by (simp add: found_def)
    with find_rsb_dir_pass_found [OF conjunct1 [OF t] env loc p] t
    show "case p of Retry s' \<Rightarrow> ls_inv s' \<and> ls_lkbidr s' = ls_lkbidr s | Done a \<Rightarrow> found s a"
      by (cases p) auto
  qed
qed

section \<open>Steps\<close>

text \<open>A new lock, as \<open>create_lkb\<close> leaves it.\<close>

definition unused_lkb :: "dlm_lkb \<Rightarrow> bool" where
  "unused_lkb l \<longleftrightarrow> lkb_resource l = None \<and> lkb_status l = 0 \<and> lkb_grmode l = DLM_LOCK_IV \<and>
     1 \<le> lkb_ref l \<and> lkb_wait_type l = 0"

inductive lock_step :: "dlm_env \<Rightarrow> dlm_ls \<Rightarrow> dlm_ls \<Rightarrow> bool" for env :: dlm_env where
  create: "create_lkb env s = (0, Some k, s') \<Longrightarrow> lock_step env s s'"
| lookup: "\<not> dlm_no_directory s \<Longrightarrow> \<not> has_flag flags R_RECEIVE_REQUEST \<Longrightarrow>
    find_rsb env name len 0 flags s = Some (e, ro, s') \<Longrightarrow> lock_step env s s'"
| request: "ls_lkbidr s k = Some l \<Longrightarrow> unused_lkb l \<Longrightarrow> \<not> has_flag flags DLM_LKF_CONVERT \<Longrightarrow>
    set_lock_args mode lksb flags namelen ast astarg bast s = (0, args) \<Longrightarrow>
    validate_lock_args env k args s = Some (0, s1) \<Longrightarrow>
    ls_rsbs s1 r = Some x \<Longrightarrow> r \<in> tree_nodes s1 \<Longrightarrow> mastered env x \<Longrightarrow>
    attach_lkb r k s1 = Some s2 \<Longrightarrow> us_request_lock env r k s2 = Some (e, s') \<Longrightarrow>
    lock_step env s s'"
| convert: "ls_rsbs s r = Some x \<Longrightarrow> res_nodeid x = 0 \<Longrightarrow> 1 \<le> res_ref x \<Longrightarrow>
    ls_lkbidr s (sb_lkid (ls_lksbs s p)) = Some l \<Longrightarrow> lkb_resource l = Some r \<Longrightarrow> lkb_status l \<noteq> 0 \<Longrightarrow>
    lkb_wait_type l \<noteq> DLM_MSG_NOTIFY \<Longrightarrow> has_flag flags DLM_LKF_CONVERT \<Longrightarrow> \<not> has_flag flags DLM_LKF_NOTIFY \<Longrightarrow>
    \<not> (has_flag flags DLM_LKF_ALTPR \<and> lkb_grmode l = DLM_LOCK_PR) \<Longrightarrow>
    \<not> (has_flag flags DLM_LKF_ALTCW \<and> lkb_grmode l = DLM_LOCK_CW) \<Longrightarrow>
    dlm_lock env mode (Some p) flags name namelen parent ast astarg bast s = Some (e, s') \<Longrightarrow>
    lock_step env s s'"
| unlock: "ls_rsbs s r = Some x \<Longrightarrow> res_nodeid x = 0 \<Longrightarrow> 1 \<le> res_ref x \<Longrightarrow>
    ls_lkbidr s k = Some l \<Longrightarrow> lkb_resource l = Some r \<Longrightarrow> lkb_status l \<noteq> 0 \<Longrightarrow> idle x k l \<Longrightarrow>
    dlm_unlock env k flags astarg s = Some (e, s') \<Longrightarrow> lock_step env s s'"
| drop_lkb: "ls_rsbs s r = Some x \<Longrightarrow> res_nodeid x = 0 \<Longrightarrow> 1 \<le> res_ref x \<Longrightarrow>
    ls_lkbidr s k = Some l \<Longrightarrow> lkb_resource l = Some r \<Longrightarrow> lkb_status l = 0 \<Longrightarrow> 1 \<le> lkb_ref l \<Longrightarrow>
    us_put_lkb env k s = Some (freed, s') \<Longrightarrow> lock_step env s s'"

inductive_cases lock_stepE: "lock_step env s s'"

definition idr_fresh :: "dlm_env \<Rightarrow> bool" where
  "idr_fresh env \<longleftrightarrow> (\<forall>used a b t. 0 \<le> idr_alloc env used a b t \<longrightarrow> \<not> used (to32 (idr_alloc env used a b t)))"

definition env_ok :: "dlm_env \<Rightarrow> bool" where
  "env_ok env \<longleftrightarrow> tree_env_ok env \<and> alloc_fresh env \<and> idr_fresh env"

lemma create_inv:
  assumes inv: "ls_inv s" and env: "env_ok env" and c: "create_lkb env s = (0, Some k, s')"
  shows "ls_inv s'"
proof -
  let ?rv = "idr_alloc env (\<lambda>k. ls_lkbidr s k \<noteq> None) 1 0 (ls_tick s)"
  let ?s1 = "s\<lparr>ls_tick := ls_tick s + 1\<rparr>"
  have k: "0 \<le> ?rv" "k = to32 ?rv" and s': "s' = ?s1\<lparr>ls_lkbidr := (ls_lkbidr ?s1)(k \<mapsto>
      zero_lkb\<lparr>lkb_nodeid := -1, lkb_grmode := DLM_LOCK_IV, lkb_ref := 1, lkb_id := k\<rparr>)\<rparr>"
    using c by (auto simp: create_lkb_def us_create_lkb_def Let_def split: if_splits)
  have "ls_lkbidr s k = None" using env k unfolding env_ok_def idr_fresh_def by blast
  moreover have "ls_inv ?s1" by (rule ls_inv_cong [OF inv]) (simp_all add: tree_nodes_def)
  ultimately show ?thesis unfolding s' by (intro off_queue_inv) (simp_all add: zero_lkb_def)
qed

lemma set_lock_args_request:
  assumes "set_lock_args mode lksb flags namelen ast astarg bast s = (0, args)"
  shows "0 \<le> arg_mode args \<and> arg_mode args \<le> DLM_LOCK_EX \<and> arg_flags args = flags \<and>
    (has_flag flags DLM_LKF_EXPEDITE \<longrightarrow> arg_mode args = DLM_LOCK_NL)"
proof -
  have m: "\<not> (mode < 0 \<or> mode > DLM_LOCK_EX)" "\<not> (has_flag flags DLM_LKF_EXPEDITE \<and> mode \<noteq> DLM_LOCK_NL)"
    using assms by (simp_all add: set_lock_args_def split: if_split_asm)
  have "arg_flags args = flags \<and> arg_mode args = mode"
    using assms unfolding set_lock_args_def by (clarsimp split: if_split_asm option.split_asm)
  with m show ?thesis by auto
qed

lemma validate_request:
  assumes l: "ls_lkbidr s k = Some l" "unused_lkb l" and nc: "\<not> has_flag (arg_flags args) DLM_LKF_CONVERT"
    and v: "validate_lock_args env k args s = Some (0, s1)"
  shows "\<exists>p. s1 = s\<lparr>ls_lkbidr := (ls_lkbidr s)(k \<mapsto> with_args env args p s l)\<rparr>"
proof (cases "arg_lksb args")
  case None
  with v l nc show ?thesis by (simp add: validate_lock_args_def unused_lkb_def Let_def)
next
  case (Some p)
  with v l nc have "s1 = s\<lparr>ls_lkbidr := (ls_lkbidr s)(k \<mapsto> with_args env args p s l)\<rparr>"
    by (simp add: validate_lock_args_def with_args_def unused_lkb_def Let_def)
  then show ?thesis by blast
qed

lemma request_inv:
  assumes inv: "ls_inv s" and l: "ls_lkbidr s k = Some l" "unused_lkb l"
    and nc: "\<not> has_flag flags DLM_LKF_CONVERT"
    and a: "set_lock_args mode lksb flags namelen ast astarg bast s = (0, args)"
    and v: "validate_lock_args env k args s = Some (0, s1)"
    and x: "ls_rsbs s1 r = Some x" "r \<in> tree_nodes s1" "mastered env x"
    and at: "attach_lkb r k s1 = Some s2" and q: "us_request_lock env r k s2 = Some (e, s')"
  shows "ls_inv s'"
proof -
  note args = set_lock_args_request [OF a]
  obtain p where s1: "s1 = s\<lparr>ls_lkbidr := (ls_lkbidr s)(k \<mapsto> with_args env args p s l)\<rparr>"
    using validate_request [OF l _ v] args nc by auto
  let ?l1 = "with_args env args p s l"
  have k: "\<And>l. ls_lkbidr s k = Some l \<Longrightarrow> lkb_status l = 0" using l by (simp add: unused_lkb_def)
  have i1: "ls_inv s1" unfolding s1
    by (rule off_queue_inv [OF inv k]) (use l in \<open>simp_all add: unused_lkb_def\<close>)
  let ?x = "x\<lparr>res_ref := res_ref x + 1\<rparr>" and ?l2 = "?l1\<lparr>lkb_resource := Some r\<rparr>"
  let ?h = "s1\<lparr>ls_rsbs := (ls_rsbs s1)(r \<mapsto> ?x)\<rparr>"
  have h: "hold_rsb r s1 = Some ?h" by (rule hold_rsb_live [OF x(1)])
  have ih: "ls_inv ?h"
    by (rule quiet_inv [OF i1 hold_rsb_quiet [OF h]]) (use ls_inv_nodes [OF i1 x(2)] in blast)+
  have s2: "s2 = ?h\<lparr>ls_lkbidr := (ls_lkbidr ?h)(k \<mapsto> ?l2)\<rparr>"
    using at h by (auto simp: attach_lkb_def s1)
  have i2: "ls_inv s2" unfolding s2
    by (rule off_queue_inv [OF ih]) (use l x ls_inv_nodes [OF i1 x(2)] s1 in \<open>auto simp: unused_lkb_def\<close>)
  have x2: "ls_rsbs s2 r = Some ?x" by (simp add: s2)
  have ok2: "master_ok s2 r" using ls_inv_master [OF i2 x2] x(3) by (simp add: mastered_def)
  have "lkb_wf ?l2" using args l by (simp add: lkb_wf_def unused_lkb_def valid_mode_def)
  then have m2: "member s2 r k ?l2" using l by (simp add: member_def s2 unused_lkb_def)
  have loc2: "mastered env ?x" using x(3) by (simp add: mastered_def rsb_flag_def)
  obtain e1 s3 where "us_request_lock env r k s2 = Some (e1, s3)"
    "outcome r UNIV k ?l2 s2 s3 (request_result ?l2 e1)"
    using us_request_lock_keeps [OF ok2 x2 loc2 m2] l args by (auto simp: unused_lkb_def)
  with q show ?thesis using outcome_inv [OF i2 _ x2] by simp
qed

lemma attached_here:
  assumes inv: "ls_inv s" and env: "env_ok env" and x: "ls_rsbs s r = Some x" "res_nodeid x = 0" "1 \<le> res_ref x"
    and l: "ls_lkbidr s k = Some l" "lkb_resource l = Some r"
  shows "here env s r x" and "lkb_status l \<noteq> 0 \<Longrightarrow> member s r k l"
proof -
  have ok: "master_ok s r" by (rule ls_inv_master [OF inv x(1,2)])
  show "here env s r x"
    using ok x env ls_inv_attached [OF inv l] by (simp add: here_def env_ok_def)
  assume st: "lkb_status l \<noteq> 0"
  have "queues_ok s r x" using ok x(1) by (simp add: master_ok_def)
  then have "queued_ok r (lkb_status l) l" using queued_lkb [OF _ l st] by blast
  then show "member s r k l" using l st by (simp add: member_def queued_ok_def)
qed

lemma lock_step_inv:
  assumes inv: "ls_inv s" and env: "env_ok env" and st: "lock_step env s s'"
  shows "ls_inv s'"
  using st
proof (cases rule: lock_step.cases)
  case (create k)
  then show ?thesis using create_inv [OF inv env] by blast
next
  case (lookup flags name len e ro)
  then have "found s (e, ro, s')"
    using find_rsb_found [OF inv] env unfolding env_ok_def by blast
  then show ?thesis by (simp add: found_def)
next
  case request
  then show ?thesis using request_inv [OF inv] by blast
next
  case (convert r x p l flags mode name namelen parent ast astarg bast e)
  note h = attached_here [OF inv env convert(1-5)]
  have "e < 0 \<and> s' = s \<or> master_ok s' r \<and> calm r s s'"
    using dlm_lock_convert_keeps [OF h(1) h(2) [OF convert(6)] convert(6-11) refl,
        of mode name namelen parent ast astarg bast] convert(12) by auto
  with inv show ?thesis by (auto intro: calm_inv)
next
  case (unlock r x k l flags astarg e)
  note h = attached_here [OF inv env unlock(1-5)]
  have "master_ok s' r \<and> calm r s s'"
    using dlm_unlock_keeps [OF h(1) h(2) [OF unlock(6)] unlock(7,6), of flags astarg] unlock(8) by auto
  with inv show ?thesis by (auto intro: calm_inv)
next
  case (drop_lkb r x k l freed)
  note h = attached_here(1) [OF inv env drop_lkb(1-5)]
  have "master_ok s' r \<and> calm r s s'"
    using us_put_lkb_keeps [OF h drop_lkb(4,5,7)] drop_lkb(6,8) by auto
  with inv show ?thesis by (auto intro: calm_inv)
qed

section \<open>Reachable lockspaces\<close>

locale step_invariant =
  fixes step :: "'s \<Rightarrow> 's \<Rightarrow> bool"
    and inv :: "'s \<Rightarrow> bool"
  assumes step_keeps: "inv s \<Longrightarrow> step s s' \<Longrightarrow> inv s'"
begin

lemma steps_keep: "step\<^sup>*\<^sup>* s s' \<Longrightarrow> inv s \<Longrightarrow> inv s'"
  by (induction rule: rtranclp_induct) (auto intro: step_keeps)

lemma steps_imply: "step\<^sup>*\<^sup>* s s' \<Longrightarrow> inv s \<Longrightarrow> (\<And>t. inv t \<Longrightarrow> P t) \<Longrightarrow> P s'"
  using steps_keep by blast

end

interpretation lock_run: step_invariant "lock_step env" "\<lambda>s. env_ok env \<and> ls_inv s" for env
  by unfold_locales (auto intro: lock_step_inv)

text \<open>A lockspace as \<open>dlm_new_lockspace\<close> makes it: no locks, no resources.\<close>

definition empty_ls :: "dlm_ls \<Rightarrow> bool" where
  "empty_ls s \<longleftrightarrow> ls_lkbidr s = (\<lambda>_. None) \<and> ls_rsbs s = (\<lambda>_. None) \<and> ls_new_rsb s = [] \<and> tree_nodes s = {}"

lemma empty_ls_inv: "empty_ls s \<Longrightarrow> ls_inv s"
  by (simp add: empty_ls_def ls_inv_def)

definition reachable_ls :: "dlm_env \<Rightarrow> dlm_ls \<Rightarrow> bool" where
  "reachable_ls env s \<longleftrightarrow> (\<exists>s0. empty_ls s0 \<and> (lock_step env)\<^sup>*\<^sup>* s0 s)"

lemma reachable_inv: "env_ok env \<Longrightarrow> reachable_ls env s \<Longrightarrow> ls_inv s"
  unfolding reachable_ls_def using lock_run.steps_keep empty_ls_inv by blast

text \<open>Two locks that hold a resource.\<close>

definition holds :: "dlm_ls \<Rightarrow> rsbp \<Rightarrow> lkid \<Rightarrow> int \<Rightarrow> bool" where
  "holds s r k m \<longleftrightarrow> (\<exists>l. ls_lkbidr s k = Some l \<and> lkb_resource l = Some r \<and> lkb_grmode l = m \<and>
     (lkb_status l = DLM_LKSTS_GRANTED \<or> lkb_status l = DLM_LKSTS_CONVERT))"

lemma master_ok_excludes:
  assumes ok: "master_ok s r" and h: "holds s r j mj" "holds s r k mk" "j \<noteq> k"
  shows "dlm_modes_compat mj mk = Some True"
proof -
  obtain x where x: "queues_ok s r x" "modes.consistent (gr_mode s) (holders x)"
    using ok by (auto simp: master_ok_def)
  have in_holders: "i \<in> holders x \<and> gr_mode s i = m" if "holds s r i m" for i m
    using that queue_status(1,2) [OF x(1), of i] by (auto simp: holds_def holders_def gr_mode_def)
  from in_holders h have i: "j \<in> holders x" "k \<in> holders x" "gr_mode s j = mj" "gr_mode s k = mk" by blast+
  then have "valid_mode mj" "valid_mode mk" using holders_valid [OF x(2)] by blast+
  moreover have "compat mj mk" using modes.consistentD [OF x(2)] i h(3) by blast
  ultimately show ?thesis by (simp add: compat_def)
qed

end
