(* ===== verification/Gfs2_Runs.thy ===== *)
theory Gfs2_Runs
  imports Gfs2_Life Runs
begin

text \<open>
  Creating glocks and holders, disposing of glocks; the runs of the glock layer, in which the
  processes of this node, the work queue, the lock manager and recovery take turns, and the
  invariant in every state they reach.
\<close>

section \<open>Creating glocks\<close>

text \<open>The allocator returns memory that is not in use.\<close>

definition glock_alloc_ok :: "gfs2_env \<Rightarrow> bool" where
  "glock_alloc_ok env \<longleftrightarrow> (\<forall>used t g. alloc_glock env used t = Some g \<longrightarrow> \<not> used g)"

lemma init_lksb_same: "init_lksb env glops p s = Some s' \<Longrightarrow> gsame s s'"
  by (auto simp: init_lksb_def Let_def gsame_def split: if_splits option.splits)

lemma new_glock_fresh:
  "gl_holders (new_glock env n o' p s) = []" "\<not> gl_dead (new_glock env n o' p s)"
  "lock_ok t (new_glock env n o' p s)" "glock_ok t g (new_glock env n o' p s)"
proof -
  show h: "gl_holders (new_glock env n o' p s) = []" and d: "\<not> gl_dead (new_glock env n o' p s)"
    by (simp_all add: new_glock_def)
  have "\<not> gl_test GLF_LOCK (new_glock env n o' p s)" "\<not> gl_test GLF_REPLY_PENDING (new_glock env n o' p s)"
    "\<not> gl_test GLF_FROZEN (new_glock env n o' p s)"
    by (simp_all add: new_glock_def gl_test_def)
  then show "lock_ok t (new_glock env n o' p s)" "glock_ok t g (new_glock env n o' p s)"
    using h d by (simp_all add: lock_ok_def glock_ok_def queue_ok_def)
qed

lemma nobody_of_free:
  "gfs2_inv s \<Longrightarrow> gs_glocks s g = None \<Longrightarrow> held s h \<Longrightarrow> gh_gl (holder s h) \<noteq> Some g"
  using inv_held by fastforce

lemma insert_inv:
  assumes inv: "gfs2_inv s" and n: "gs_glocks s g = None"
  shows "gfs2_inv (s\<lparr>sd_glock_disposal := k, gs_glocks := (gs_glocks s)(g \<mapsto> new_glock env m o' p t)\<rparr>)"
    (is "gfs2_inv ?s")
proof -
  have e: "held ?s h = held s h" "holder ?s h = holder s h" for h by (simp_all add: held_def holder_def)
  have "off g s ?s" by (simp add: off_def e)
  moreover have "loc g ?s" using nobody_of_free [OF inv n] by (auto simp: loc_def new_glock_fresh e)
  ultimately show ?thesis by (rule loc_inv [OF inv]) (simp add: new_glock_fresh(3))
qed

lemma dealloc_inv:
  assumes inv: "gfs2_inv s" and x: "gs_glocks s g = Some x" "gl_holders x = []"
  shows "gfs2_inv (gfs2_glock_dealloc g s)"
proof -
  have "let_go g s (gfs2_glock_dealloc g s)" by (simp add: let_go_def)
  then show ?thesis using emptied_inv [OF inv let_go_emptied [OF x]] inv_glock [OF inv x(1)] by blast
qed

lemma glock_get_inv:
  assumes ok: "glock_alloc_ok env" and inv: "gfs2_inv s" and c: "gfs2_glock_get env n glops create s = Some (e, gl, s')"
  shows "gfs2_inv s'"
proof -
  obtain e1 gl1 s1 where 1: "find_insert_glock env n (go_type glops) None s = Some (e1, gl1, s1)"
    using c by (auto simp: gfs2_glock_get_def bind_eq_Some_conv)
  have inv1: "gfs2_inv s1" by (rule same_inv [OF inv find_insert_same [OF 1]])
  have stop: "gfs2_inv s'" if "s' = s1" using inv1 that by simp
  show ?thesis
  proof (cases "gl1 = None \<and> create")
    case False
    with c 1 stop show ?thesis by (auto simp: gfs2_glock_get_def split: if_splits)
  next
    case True
    then have cc: "gl1 = None" create by simp_all
    show ?thesis
    proof (cases "alloc_glock env (\<lambda>g. gs_glocks s1 g \<noteq> None) (gs_tick s1)")
      case None
      with c 1 cc stop show ?thesis by (simp add: gfs2_glock_get_def)
    next
      case (Some g)
      have free: "gs_glocks s1 g = None" using ok Some unfolding glock_alloc_ok_def by blast
      show ?thesis
      proof (cases "init_lksb env glops (alloc_lksb env g) s1")
        case None
        with c 1 cc Some stop show ?thesis by (simp add: gfs2_glock_get_def)
      next
        case init: (Some s2)
        have inv2: "gfs2_inv s2" by (rule same_inv [OF inv1 init_lksb_same [OF init]])
        have "map_option gl_core (gs_glocks s2 g) = map_option gl_core (gs_glocks s1 g)"
          using init_lksb_same [OF init] unfolding gsame_def by blast
        then have n2: "gs_glocks s2 g = None" using free by simp
        define s3 where "s3 = s2\<lparr>sd_glock_disposal := sd_glock_disposal s2 + 1,
                gs_glocks := (gs_glocks s2)(g \<mapsto> new_glock env n glops (alloc_lksb env g) s2)\<rparr>"
        have inv3: "gfs2_inv s3" unfolding s3_def by (rule insert_inv [OF inv2 n2])
        obtain e2 tmp s4 where 4: "find_insert_glock env n (go_type glops) (Some g) s3 = Some (e2, tmp, s4)"
          and k: "s' = s4 \<or> s' = (gfs2_glock_dealloc g s4)\<lparr>sd_glock_disposal := sd_glock_disposal (gfs2_glock_dealloc g s4) - 1\<rparr>"
          using c 1 cc Some init unfolding gfs2_glock_get_def Let_def s3_def
          by (auto simp: bind_eq_Some_conv split: if_splits)
        have sm4: "gsame s3 s4" by (rule find_insert_same [OF 4])
        have inv4: "gfs2_inv s4" by (rule same_inv [OF inv3 sm4])
        have x3: "gs_glocks s3 g \<noteq> None" "\<And>x. gs_glocks s3 g = Some x \<Longrightarrow> gl_holders x = []"
          by (auto simp: s3_def new_glock_fresh)
        then obtain x4 where "gs_glocks s4 g = Some x4" "gl_holders x4 = []"
          using sameD [OF sm4] by (fastforce simp: gl_core_def)
        then have "gfs2_inv (gfs2_glock_dealloc g s4)" by (rule dealloc_inv [OF inv4])
        then have "gfs2_inv ((gfs2_glock_dealloc g s4)\<lparr>sd_glock_disposal := m\<rparr>)" for m
          by (rule same_inv) (simp add: gsame_def)
        with k inv4 show ?thesis by auto
      qed
    qed
  qed
qed

section \<open>Holders\<close>

text \<open>The holder is on no queue.\<close>

definition unqueued :: "gfs2 \<Rightarrow> ghp \<Rightarrow> bool" where
  "unqueued s h \<longleftrightarrow> (\<forall>g x. gs_glocks s g = Some x \<longrightarrow> h \<notin> set (gl_holders x))"

lemma unqueued_same: "gsame s s' \<Longrightarrow> unqueued s h \<Longrightarrow> unqueued s' h"
  using sameD [OF gsame_sym] unfolding unqueued_def gl_core_def by (metis prod.inject)

lemma unqueued_emptied:
  assumes "emptied g s s'" and "unqueued s h"
  shows "unqueued s' h"
  unfolding unqueued_def
proof (intro allI impI)
  fix g' x' assume x': "gs_glocks s' g' = Some x'"
  show "h \<notin> set (gl_holders x')"
  proof (cases "g' = g")
    case True
    then show ?thesis using assms(1) x' by (simp add: emptied_def)
  next
    case False
    then obtain x where "gs_glocks s g' = Some x" "gl_core x' = gl_core x"
      using off_other [OF _ False x'] assms(1) unfolding emptied_def by blast
    then show ?thesis using assms(2) by (auto simp: unqueued_def gl_core_def)
  qed
qed

lemma unqueued_free: "gfs2_inv s \<Longrightarrow> unqueued s h \<Longrightarrow> \<not> held s h"
  using inv_held unfolding unqueued_def by blast

text \<open>A holder on no queue may be changed at will, as long as it does not become granted.\<close>

lemma holder_inv:
  assumes inv: "gfs2_inv s" and u: "unqueued s h" and y: "\<not> gh_test HIF_HOLDER y"
    and s': "gs_glocks s' = gs_glocks s" "gs_holders s' = (gs_holders s)(h \<mapsto> y)"
  shows "gfs2_inv s'"
proof -
  have e: "held s' k = held s k" for k
    using unqueued_free [OF inv u] y s'(2) by (cases "k = h") (auto simp: held_def)
  have o: "holder s' k = holder s k" "(gs_holders s' k = None) = (gs_holders s k = None)" if "k \<noteq> h" for k
    using that s'(2) by (simp_all add: holder_def)
  have n: "k \<noteq> h" if "gs_glocks s g = Some x" "k \<in> set (gl_holders x)" for k g x
    using that u by (auto simp: unqueued_def)
  show ?thesis
    unfolding gfs2_inv_def
  proof (intro conjI allI impI)
    fix g x assume x': "gs_glocks s' g = Some x"
    then have x: "gs_glocks s g = Some x" using s' by simp
    note ok = inv_glock [OF inv x] and nn = n [OF x]
    show "glock_ok s' g x" using ok nn by (auto simp: glock_ok_def queue_ok_def e o)
    show "lock_ok s' x" using ok by (simp add: lock_ok_def e)
  next
    fix k assume k: "held s' k"
    then have "held s k" by (simp add: e)
    moreover have "k \<noteq> h" using calculation unqueued_free [OF inv u] by blast
    ultimately show "\<exists>g x. gs_glocks s' g = Some x \<and> gh_gl (holder s' k) = Some g \<and> k \<in> set (gl_holders x)"
      using inv_held [OF inv, of k] s' o(1) by simp
  qed
qed

lemma holder_init_inv:
  assumes inv: "gfs2_inv s" and u: "unqueued s h" and i: "us_us_gfs2_holder_init env g st fl h s = Some s'"
  shows "gfs2_inv s'"
proof -
  obtain s1 y where 1: "gfs2_glock_hold g s = Some s1" and s': "s' = s1\<lparr>gs_holders := (gs_holders s1)(h \<mapsto> y)\<rparr>"
    and y: "\<not> gh_test HIF_HOLDER y"
    using i by (auto simp: us_us_gfs2_holder_init_def bind_eq_Some_conv gh_test_def)
  note sm = gfs2_glock_hold_same [OF 1]
  show ?thesis
    by (rule holder_inv [OF same_inv [OF inv sm] unqueued_same [OF sm u] y]) (simp_all add: s')
qed

lemma holder_reinit_inv:
  assumes inv: "gfs2_inv s" and u: "unqueued s h" and i: "gfs2_holder_reinit env st fl h s = Some s'"
  shows "gfs2_inv s'"
proof -
  obtain y where s': "s' = s\<lparr>gs_holders := (gs_holders s)(h \<mapsto> y)\<rparr>" and y: "\<not> gh_test HIF_HOLDER y"
    using i by (auto simp: gfs2_holder_reinit_def upd_gh_eq_Some_iff gh_test_def)
  show ?thesis by (rule holder_inv [OF inv u y]) (simp_all add: s')
qed

lemma put_good:
  "gfs2_inv s \<Longrightarrow> gfs2_glock_put env g s = Some s' \<Longrightarrow> good g s"
  using good_inv by (auto simp: gfs2_glock_put_def bind_eq_Some_conv)

lemma glock_put_inv:
  "gfs2_env_ok env \<Longrightarrow> gfs2_inv s \<Longrightarrow> gfs2_glock_put env g s = Some s' \<Longrightarrow> gfs2_inv s'"
  using dropped_inv glock_put_dropped put_good by blast

lemma holder_uninit_inv:
  assumes env: "gfs2_env_ok env" and inv: "gfs2_inv s" and u: "unqueued s h"
    and i: "gfs2_holder_uninit env h s = Some s'"
  shows "gfs2_inv s'"
proof -
  obtain g s1 where 1: "gfs2_glock_put env g s = Some s1" "upd_gh h (\<lambda>y. y\<lparr>gh_gl := None\<rparr>) s1 = Some s'"
    using i by (auto simp: gfs2_holder_uninit_def bind_eq_Some_conv)
  have inv1: "gfs2_inv s1" by (rule glock_put_inv [OF env inv 1(1)])
  have "dropped g s s1" by (rule glock_put_dropped [OF env put_good [OF inv 1(1)] 1(1)])
  then have u1: "unqueued s1 h" using u unqueued_same unqueued_emptied unfolding dropped_def by blast
  obtain y where y: "gs_holders s1 h = Some y" "s' = s1\<lparr>gs_holders := (gs_holders s1)(h \<mapsto> y\<lparr>gh_gl := None\<rparr>)\<rparr>"
    using 1(2) by (auto simp: upd_gh_eq_Some_iff)
  have "\<not> gh_test HIF_HOLDER (y\<lparr>gh_gl := None\<rparr>)"
    using unqueued_free [OF inv1 u1] y(1) by (simp add: held_def gh_test_def)
  then show ?thesis by (rule holder_inv [OF inv1 u1]) (simp_all add: y(2))
qed

section \<open>Unused glocks\<close>

text \<open>A glock that is locked for a moment.\<close>

lemma lock_moment:
  assumes x: "gs_glocks s g = Some x" "\<not> gl_test GLF_LOCK x" and 1: "gl_set GLF_LOCK g s = Some s1"
    and sm: "gsame s1 s2" and 3: "gl_clear GLF_LOCK g s2 = Some s3"
  shows "gsame s s3"
proof -
  have s1: "s1 = s\<lparr>gs_glocks := (gs_glocks s)(g \<mapsto> x\<lparr>gl_flags := set_bit GLF_LOCK (gl_flags x)\<rparr>)\<rparr>"
    using 1 x(1) by (simp add: gl_set_def)
  obtain x2 where x2: "gs_glocks s2 g = Some x2"
    "gl_core x2 = gl_core (x\<lparr>gl_flags := set_bit GLF_LOCK (gl_flags x)\<rparr>)"
    using sameD [OF sm, of g] by (auto simp: s1)
  have s3: "s3 = s2\<lparr>gs_glocks := (gs_glocks s2)(g \<mapsto> x2\<lparr>gl_flags := unset_bit GLF_LOCK (gl_flags x2)\<rparr>)\<rparr>"
    using 3 x2(1) by (simp add: gl_clear_def)
  have "gl_core (x2\<lparr>gl_flags := unset_bit GLF_LOCK (gl_flags x2)\<rparr>) = gl_core x"
    using x2(2) x(2) by (auto simp: gl_core_def)
  then show ?thesis using sm x(1) by (auto simp: gsame_def s1 s3)
qed

lemma back_to_lru_same: "add_back_to_lru g s = Some s' \<Longrightarrow> gsame s s'"
  by (auto simp: add_back_to_lru_def gsame_def gl_set_def upd_gl_eq_Some_iff plain_flag_def)

lemma dispose_glock_same:
  assumes env: "gfs2_env_ok env" and d: "dispose_glock env g s = Some s'"
  shows "gsame s s'"
proof -
  obtain s0 where 0: "gl_clear GLF_LRU g s = Some s0" using d by (auto simp: dispose_glock_def bind_eq_Some_conv)
  define s1 where "s1 = s0\<lparr>gs_tick := gs_tick s0 + 1\<rparr>"
  have sm1: "gsame s s1" using gl_clear_same [OF 0] by (simp add: plain_flag_def s1_def)
  obtain x where x: "gs_glocks s1 g = Some x"
    and k: "add_back_to_lru g s1 = Some s' \<or> \<not> gl_test GLF_LOCK x \<and> (do {
       s \<leftarrow> gl_set GLF_LOCK g s1;
       s \<leftarrow> gl_ref_add 1 g s;
       s \<leftarrow> (if demote_ok x s then handle_callback env g LM_ST_UNLOCKED 0 False s else Some s);
       s \<leftarrow> gl_clear GLF_LOCK g s;
       us_us_gfs2_glock_queue_work g 0 s
     }) = Some s'"
    using d 0 unfolding dispose_glock_def Let_def s1_def by (auto simp: bind_eq_Some_conv split: if_splits)
  have "gsame s1 s'" if b: "\<not> gl_test GLF_LOCK x" "(do {
       s \<leftarrow> gl_set GLF_LOCK g s1;
       s \<leftarrow> gl_ref_add 1 g s;
       s \<leftarrow> (if demote_ok x s then handle_callback env g LM_ST_UNLOCKED 0 False s else Some s);
       s \<leftarrow> gl_clear GLF_LOCK g s;
       us_us_gfs2_glock_queue_work g 0 s
     }) = Some s'"
  proof -
    obtain s2 s3 s4 s5 where 2: "gl_set GLF_LOCK g s1 = Some s2" "gl_ref_add 1 g s2 = Some s3"
      "(if demote_ok x s3 then handle_callback env g LM_ST_UNLOCKED 0 False s3 else Some s3) = Some s4"
      "gl_clear GLF_LOCK g s4 = Some s5" "us_us_gfs2_glock_queue_work g 0 s5 = Some s'"
      using b(2) unfolding bind_eq_Some_conv by blast
    have "gsame s2 s4"
      using gl_ref_add_same [OF 2(2)] 2(3) by (auto split: if_splits dest: handle_callback_same [OF env] intro: gsame_trans)
    then have "gsame s1 s5" by (rule lock_moment [OF x b(1) 2(1) _ 2(4)])
    then show ?thesis using queue_work_same [OF 2(5)] by (rule gsame_trans)
  qed
  then show ?thesis using k back_to_lru_same gsame_trans [OF sm1] by blast
qed

lemma dispose_list_same:
  "gfs2_env_ok env \<Longrightarrow> dispose_list env gs s = Some s' \<Longrightarrow> gsame s s'"
proof (induction gs arbitrary: s)
  case (Cons g gs)
  from Cons.prems(2) obtain s1 where "dispose_glock env g s = Some s1" "dispose_list env gs s1 = Some s'"
    by (auto simp: bind_eq_Some_conv)
  then show ?case using Cons dispose_glock_same gsame_trans by blast
qed simp

lemma scan_lru_step:
  "scan_lru env nr (g # gs) d s = Some (d', s') \<Longrightarrow>
   s' = s \<or> (\<exists>nr1 d1 s1. gsame s s1 \<and> scan_lru env nr1 gs d1 s1 = Some (d', s'))"
  by (auto simp: bind_eq_Some_conv Let_def gsame_cong split: if_split_asm)

lemma scan_lru_same: "scan_lru env nr gs d s = Some (d', s') \<Longrightarrow> gsame s s'"
proof (induction gs arbitrary: nr d s)
  case (Cons g gs)
  from scan_lru_step [OF Cons.prems] show ?case using Cons.IH gsame_trans gsame_refl by blast
qed simp

lemma scan_glock_lru_same:
  "gfs2_env_ok env \<Longrightarrow> gfs2_scan_glock_lru env nr s = Some (n, s') \<Longrightarrow> gsame s s'"
  by (auto simp: gfs2_scan_glock_lru_def gfs2_dispose_glock_lru_def bind_eq_Some_conv
      dest!: scan_lru_same dispose_list_same intro: gsame_trans)

lemma clear_glock_same:
  assumes env: "gfs2_env_ok env" and c: "clear_glock env g s = Some s'"
  shows "gsame s s'"
proof -
  obtain s1 where 1: "gfs2_glock_remove_from_lru g s = Some s1"
    and k: "s' = s1 \<or> (\<exists>s2 s3. gl_ref_add 1 g s1 = Some s2 \<and>
      (s3 = s2 \<or> handle_callback env g LM_ST_UNLOCKED 0 False s2 = Some s3) \<and>
      us_us_gfs2_glock_queue_work g 0 s3 = Some s')"
    using c unfolding clear_glock_def by (auto simp: bind_eq_Some_conv split: if_split_asm)
  have "gsame s1 s'"
    using k by (auto dest!: gl_ref_add_same queue_work_same handle_callback_same [OF env] intro: gsame_trans)
  with remove_from_lru_same [OF 1] show ?thesis by (rule gsame_trans)
qed

lemma keeps_og:
  assumes "good g s" and "gkeeps g s s'" and "\<forall>k. held s' k = held s k"
  shows "og g s s'"
proof -
  obtain x x' where x: "gs_glocks s g = Some x" "gs_glocks s' g = Some x'" "gl_rest x' = gl_rest x"
    "set (gl_holders x') \<subseteq> set (gl_holders x)" using assms(2) by (auto simp: gkeeps_def)
  have "lock_ok s x" using assms(1) x(1) by (auto simp: good_def)
  then have "lock_ok s' x'" using x(3,4) assms(3) by (auto simp: lock_ok_def gl_rest_def)
  then show ?thesis using x(2) keepsD [OF assms(2)] by (auto simp: og_def good_def)
qed

lemma withdraw_dq_inv:
  assumes inv: "gfs2_inv s" and w: "withdraw_dq env g s = Some s'"
  shows "gfs2_inv s'"
proof -
  obtain x where x: "gs_glocks s g = Some x" using w by (auto simp: withdraw_dq_def bind_eq_Some_conv)
  note g = good_inv [OF inv x]
  have loc: "loc g s" using g by (simp add: good_def)
  have "gfs2_inv s'" if d: "do_error g LM_OUT_ERROR s = Some s'"
    using do_error_keeps [OF loc d] keeps_og [OF g] og_inv [OF inv] by blast
  moreover have "s' = s \<or> do_error g LM_OUT_ERROR s = Some s'" using w x by (auto simp: withdraw_dq_def split: if_splits)
  ultimately show ?thesis using inv by blast
qed

lemma gl_dq_holders_inv: "gfs2_inv s \<Longrightarrow> gfs2_gl_dq_holders env s = Some s' \<Longrightarrow> gfs2_inv s'"
  unfolding gfs2_gl_dq_holders_def by (rule hash_walk_inv) (rule withdraw_dq_inv)


section \<open>Runs\<close>

text \<open>One step of a run. A process enqueues a holder that is on no queue; it may change a holder,
  or let it go, only then; \<open>pid\<close> is the process that runs. The work of a glock runs when it is queued. The lock manager calls back
  as in \<open>answers\<close>. What the model leaves to the environment may change in \<open>outside\<close>: the lockspace,
  the flags of the superblock and of the lock module.\<close>

inductive glock_step :: "gfs2_env \<Rightarrow> gfs2 \<Rightarrow> gfs2 \<Rightarrow> bool" for env where
  get: "gfs2_glock_get env n glops create s = Some (e, gl, s') \<Longrightarrow> glock_step env s s'"
| put: "gfs2_glock_put env g s = Some s' \<Longrightarrow> glock_step env s s'"
| init: "unqueued s h \<Longrightarrow> us_us_gfs2_holder_init (env\<lparr>g_current := pid\<rparr>) g st fl h s = Some s' \<Longrightarrow> glock_step env s s'"
| reinit: "unqueued s h \<Longrightarrow> gfs2_holder_reinit (env\<lparr>g_current := pid\<rparr>) st fl h s = Some s' \<Longrightarrow> glock_step env s s'"
| uninit: "unqueued s h \<Longrightarrow> gfs2_holder_uninit env h s = Some s' \<Longrightarrow> glock_step env s s'"
| nq: "fits s h g \<Longrightarrow> gfs2_glock_nq env h s = Some (r, s') \<Longrightarrow> glock_step env s s'"
| wait: "gfs2_glock_wait env h t s = Some (e, s') \<Longrightarrow> glock_step env s s'"
| dq: "gfs2_glock_dq env h s = Some (b, s') \<Longrightarrow> glock_step env s s'"
| dq_resume: "gfs2_glock_dq_resume env h s = Some s' \<Longrightarrow> glock_step env s s'"
| work: "gs_work s g = Some d \<Longrightarrow> glock_work_func env g (s\<lparr>gs_work := (gs_work s)(g := None)\<rparr>) = Some s' \<Longrightarrow>
    glock_step env s s'"
| ast: "answers g s \<Longrightarrow> gdlm_ast env g s = Some s' \<Longrightarrow> glock_step env s s'"
| bast: "gdlm_bast env g m s = Some s' \<Longrightarrow> glock_step env s s'"
| thaw: "gfs2_glock_thaw s = Some s' \<Longrightarrow> glock_step env s s'"
| scan: "gfs2_scan_glock_lru env nr s = Some (n, s') \<Longrightarrow> glock_step env s s'"
| clear: "clear_glock env g s = Some s' \<Longrightarrow> glock_step env s s'"
| withdraw: "gfs2_gl_dq_holders env s = Some s' \<Longrightarrow> glock_step env s s'"
| outside: "glock_step env s (s\<lparr>gs_dlm := d, sd_flags := fl, sd_lockstruct := l, sd_log_error := e\<rparr>)"

text \<open>The operations on a holder that did not fault have reached its glock; only \<open>gfs2_glock_wait\<close> of a
  holder that has failed does not look at it.\<close>

lemma dq_good:
  assumes inv: "gfs2_inv s"
    and c: "gfs2_glock_dq env h s = Some (b, s') \<or> gfs2_glock_dq_resume env h s = Some s'"
  obtains g where "gh_gl (holder s h) = Some g" "good g s"
  using c that good_inv [OF inv]
  by (auto simp: gfs2_glock_dq_def gfs2_glock_dq_resume_def bind_eq_Some_conv holder_def)

lemma dq_inv:
  assumes "gfs2_env_ok env" and "gfs2_inv s"
    and "gfs2_glock_dq env h s = Some (b, s') \<or> gfs2_glock_dq_resume env h s = Some s'"
  shows "gfs2_inv s'"
  using dq_good [OF assms(2,3)] assms(3) og_inv [OF assms(2)] glock_dq_og [OF assms(1)] dq_resume_og [OF assms(1)]
  by metis

lemma wait_inv:
  assumes env: "gfs2_env_ok env" and inv: "gfs2_inv s" and w: "gfs2_glock_wait env h t s = Some (e, s')"
  shows "gfs2_inv s'"
proof -
  obtain y g where y: "gs_holders s h = Some y" "gh_gl y = Some g"
    using w by (auto simp: gfs2_glock_wait_def bind_eq_Some_conv)
  show ?thesis
  proof (cases "gs_glocks s g")
    case None
    have "s' = s"
    proof -
      obtain s1 where 1: "gfs2_glock_update_hold_time env g t s = Some s1" "gfs2_glock_holder_ready env h s1 = Some (e, s')"
        using w y by (auto simp: gfs2_glock_wait_def bind_eq_Some_conv)
      have "s1 = s" using 1(1) None by (auto simp: gfs2_glock_update_hold_time_def upd_gl_eq_Some_iff split: if_splits)
      then show ?thesis
        using 1(2) y None by (auto simp: gfs2_glock_holder_ready_def gfs2_instantiate_def split: if_splits)
    qed
    with inv show ?thesis by simp
  next
    case (Some x)
    then show ?thesis
      using wait_og [OF env good_inv [OF inv Some] _ w] og_inv [OF inv] y by (simp add: holder_def)
  qed
qed

lemma glock_step_inv:
  assumes env: "gfs2_env_ok env" "glock_alloc_ok env" and inv: "gfs2_inv s" and st: "glock_step env s s'"
  shows "gfs2_inv s'"
  using st
proof cases
  case (nq h g r)
  obtain x where "gs_glocks s g = Some x" using nq(1) by (auto simp: fits_def)
  then show ?thesis using nq_og [OF env(1) good_inv [OF inv] nq] og_inv [OF inv] by blast
next
  case (work g d)
  have "gfs2_inv (s\<lparr>gs_work := (gs_work s)(g := None)\<rparr>)" by (rule same_inv [OF inv gsame_cong]) simp_all
  then show ?thesis using work_inv [OF env(1)] work by blast
next
  case (outside d fl l e)
  then show ?thesis using same_inv [OF inv gsame_cong] by simp
next
  case (bast g m)
  then show ?thesis using bast_same [OF env(1)] same_inv [OF inv] by blast
next
  case (scan nr n)
  then show ?thesis using scan_glock_lru_same [OF env(1)] same_inv [OF inv] by blast
next
  case (clear g)
  then show ?thesis using clear_glock_same [OF env(1)] same_inv [OF inv] by blast
qed (use inv env in \<open>blast intro: glock_get_inv glock_put_inv holder_init_inv holder_reinit_inv holder_uninit_inv
      dq_inv wait_inv ast_inv thaw_inv gl_dq_holders_inv\<close>)+

interpretation glock_run: step_invariant "glock_step env" "\<lambda>s. gfs2_env_ok env \<and> glock_alloc_ok env \<and> gfs2_inv s" for env
  by unfold_locales (auto intro: glock_step_inv)

text \<open>A file system that has just been mounted: no glocks, and no holder is granted.\<close>

definition fresh_gfs2 :: "gfs2 \<Rightarrow> bool" where
  "fresh_gfs2 s \<longleftrightarrow> gs_glocks s = (\<lambda>_. None) \<and> gs_holders s = (\<lambda>_. None)"

definition reachable_gfs2 :: "gfs2_env \<Rightarrow> gfs2 \<Rightarrow> bool" where
  "reachable_gfs2 env s \<longleftrightarrow> (\<exists>s0. fresh_gfs2 s0 \<and> (glock_step env)\<^sup>*\<^sup>* s0 s)"

lemma fresh_inv: "fresh_gfs2 s \<Longrightarrow> gfs2_inv s"
  by (simp add: fresh_gfs2_def gfs2_inv_def held_def)

lemma reachable_gfs2_inv: "gfs2_env_ok env \<Longrightarrow> glock_alloc_ok env \<Longrightarrow> reachable_gfs2 env s \<Longrightarrow> gfs2_inv s"
  unfolding reachable_gfs2_def using glock_run.steps_keep fresh_inv by blast

end
