(* ===== verification/Sample.thy ===== *)
theory Sample
  imports Runs
begin

text \<open>
  A small concrete lockspace the properties are applied to: node 1 masters the resource at
  address 0; lock 1 holds it in \<open>PR\<close> and lock 2 in \<open>CR\<close>, lock 3 is attached to it and not yet
  requested. The environment is one in which every call of external code succeeds.
\<close>

section \<open>An environment\<close>

fun spine :: "rsbp list \<Rightarrow> rsbp tree" where
  "spine [] = Leaf"
| "spine (x # xs) = Node Leaf x (spine xs)"

lemma inorder_spine [simp]: "inorder (spine xs) = xs"
  by (induction xs) simp_all

definition env0 :: dlm_env where
  "env0 = \<lparr>dlm_our_nodeid = 1, jhash = (\<lambda>_. 0), dlm_hash2nodeid = (\<lambda>_. 1), dlm_dir_nodeid = (\<lambda>_. 1),
     is_master = (\<lambda>x. res_nodeid x = 0), dlm_is_removed = (\<lambda>_. False), dlm_is_member = (\<lambda>_. True),
     allocate_rsb = (\<lambda>used t. if used t then None else Some t), allocate_lkb = (\<lambda>_. True),
     allocate_lvb = (\<lambda>t. Some t),
     idr_alloc = (\<lambda>used _ _ t. if used (to32 (int t + 1)) then -1 else int t + 1),
     rb_insert_color = id, rb_erase = (\<lambda>r t. spine (remove1 r (inorder t))),
     get_mhandle = (\<lambda>_. True), to_dlm_errno = id, from_dlm_errno = id,
     ci_new_rsb_count = 0, ci_toss_secs = 10, hz = 250, jiffies = 0, ktime = 0, current_pid = 0,
     signal_pending = False, uninit_int = 0, fake_astfn = 0, fake_bastfn = 0,
     dlm_receive_rcom = (\<lambda>_ _ s. Some s), kmalloc = (\<lambda>t. Some t),
     dlm_send_rcom_lock = (\<lambda>_ _ _ s. Some s), dlm_recovered_lock = (\<lambda>_ s. Some s)\<rparr>"

lemma env0_ok: "env_ok env0"
  by (simp add: env_ok_def env0_def tree_env_ok_def alloc_fresh_def idr_fresh_def)

section \<open>Lockspaces\<close>

definition lkb_of :: "u32 \<Rightarrow> int \<Rightarrow> int \<Rightarrow> int \<Rightarrow> nat \<Rightarrow> dlm_lkb" where
  "lkb_of k st gr rq n = zero_lkb\<lparr>lkb_resource := Some 0, lkb_ref := n, lkb_id := k, lkb_status := st,
     lkb_grmode := gr, lkb_rqmode := rq, lkb_lksb := Some 0, lkb_astfn := Some 0\<rparr>"

definition rsb_of :: "lkid list \<Rightarrow> lkid list \<Rightarrow> lkid list \<Rightarrow> dlm_rsb" where
  "rsb_of g c w = zero_rsb\<lparr>res_ref := 3, res_master_nodeid := 1, res_grantqueue := g,
     res_convertqueue := c, res_waitqueue := w\<rparr>"

definition ls_of :: "(lkid \<Rightarrow> dlm_lkb option) \<Rightarrow> (rsbp \<Rightarrow> dlm_rsb option) \<Rightarrow> dlm_ls" where
  "ls_of lkbs rsbs = \<lparr>ls_global_id = 0, ls_generation = 0, ls_lvblen = 4, ls_flags = 4,
     ls_lkbidr = lkbs, ls_rsbs = rsbs, ls_rsbtbl = (\<lambda>_. \<lparr>keep = Leaf, toss = Leaf, rt_flags = 0\<rparr>),
     ls_rsbtbl_size = 1, ls_waiters = [], ls_orphans = [], ls_new_rsb_count = 0, ls_new_rsb = [],
     ls_root_list = [], ls_recover_list = [], ls_recover_seq = 0, ls_local_rsb = zero_rsb,
     ls_local_lkb = zero_lkb, ls_local_ms = zero_message 0, ls_lvbs = (\<lambda>_. [0, 0, 0, 0]),
     ls_lksbs = (\<lambda>_. \<lparr>sb_status = 0, sb_lkid = 1, sb_flags = 0, sb_lvbptr = None\<rparr>), ls_sent = [], ls_cbs = [],
     ls_requestqueue = [], ls_nodes_gone = [], ls_recover_locks_in = 0, ls_uas = (\<lambda>_. None),
     ls_procs = (\<lambda>_. None), ls_tick = 0\<rparr>"

definition lkb1 :: dlm_lkb where "lkb1 = lkb_of 1 DLM_LKSTS_GRANTED DLM_LOCK_PR DLM_LOCK_IV 2"
definition lkb2 :: dlm_lkb where "lkb2 = lkb_of 2 DLM_LKSTS_GRANTED DLM_LOCK_CR DLM_LOCK_IV 2"
definition lkb3 :: dlm_lkb where "lkb3 = lkb_of 3 0 DLM_LOCK_IV DLM_LOCK_EX 1"
definition rsb0 :: dlm_rsb where "rsb0 = rsb_of [1, 2] [] []"

definition ls0 :: dlm_ls where
  "ls0 = ls_of [1 \<mapsto> lkb1, 2 \<mapsto> lkb2, 3 \<mapsto> lkb3] [0 \<mapsto> rsb0]"

lemmas sample_defs = lkb1_def lkb2_def lkb3_def lkb_of_def rsb0_def rsb_of_def zero_lkb_def zero_rsb_def

lemma ls0_fields [simp]:
  "ls_lkbidr ls0 = [1 \<mapsto> lkb1, 2 \<mapsto> lkb2, 3 \<mapsto> lkb3]" "ls_rsbs ls0 = [0 \<mapsto> rsb0]"
  "ls_new_rsb ls0 = []" "tree_nodes ls0 = {}" "ls_waiters ls0 = []"
  by (simp_all add: ls0_def ls_of_def tree_nodes_def)

lemma ls0_queues: "queues_ok ls0 0 rsb0"
  by (auto simp: queues_ok_def rsb_queues_def on_queue_def queued_ok_def lkb_wf_def modes_ok_def
      sample_defs has_flag_def split: if_splits)

lemma ls0_ok: "master_ok ls0 0"
  using ls0_queues
  by (simp add: master_ok_def modes.consistent_def holders_def pairwise_on_def gr_mode_def matrix_simps)
    (simp add: sample_defs)

lemma ls0_member: "member ls0 0 1 lkb1" "member ls0 0 2 lkb2" "member ls0 0 3 lkb3"
  by (simp_all add: member_def lkb_wf_def sample_defs has_flag_def)

lemma ls0_here: "here env0 ls0 0 rsb0"
  using ls0_ok env0_ok by (simp add: here_def env_ok_def) (simp add: sample_defs)

lemma ls0_inv: "ls_inv ls0"
  using ls0_ok by (auto simp: ls_inv_def sample_defs split: if_splits)

lemma ls0_idle: "idle rsb0 1 lkb1"
  by (simp add: idle_def sample_defs iflag_def)

section \<open>A run\<close>

text \<open>From the empty lockspace: two locks are created, a resource is looked up, and the locks
  are requested in \<open>PR\<close> and in \<open>CR\<close>.\<close>

definition run_name :: "u8 list" where "run_name = replicate 64 7"

definition run_args :: "int \<Rightarrow> dlm_args" where
  "run_args m = \<lparr>arg_flags = 0, arg_astfn = Some 0, arg_astparam = 0, arg_bastfn = None, arg_mode = m,
     arg_lksb = Some 0\<rparr>"

definition run0 :: dlm_ls where "run0 = ls_of (\<lambda>_. None) (\<lambda>_. None)"
definition run1 :: dlm_ls where "run1 = snd (snd (create_lkb env0 run0))"
definition run2 :: dlm_ls where "run2 = snd (snd (create_lkb env0 run1))"

definition run_pass :: "(dlm_ls, int \<times> rsbp option \<times> dlm_ls) pass option" where
  "run_pass = find_rsb_dir_pass env0 run_name 5 0 0 1 0 R_REQUEST run2"

definition run3 :: dlm_ls where
  "run3 = (case run_pass of Some (Done (_, _, s)) \<Rightarrow> s | _ \<Rightarrow> run2)"

definition run_request :: "lkid \<Rightarrow> int \<Rightarrow> dlm_ls \<Rightarrow> (int \<times> dlm_ls \<times> dlm_ls \<times> int \<times> dlm_ls) option" where
  "run_request k m s = do {
     (e1, s1) \<leftarrow> validate_lock_args env0 k (run_args m) s;
     s2 \<leftarrow> attach_lkb 3 k s1;
     (e, s3) \<leftarrow> us_request_lock env0 3 k s2;
     Some (e1, s1, s2, e, s3)
   }"

definition run_state :: "lkid \<Rightarrow> int \<Rightarrow> dlm_ls \<Rightarrow> dlm_ls" where
  "run_state k m s = (case run_request k m s of None \<Rightarrow> s | Some (_, _, _, _, s') \<Rightarrow> s')"

definition run_ok :: "lkid \<Rightarrow> int \<Rightarrow> dlm_ls \<Rightarrow> bool" where
  "run_ok k m s \<longleftrightarrow> (case ls_lkbidr s k of None \<Rightarrow> False | Some l \<Rightarrow> unused_lkb l) \<and>
     set_lock_args m (Some 0) 0 5 (Some 0) 0 None s = (0, run_args m) \<and>
     (case run_request k m s of None \<Rightarrow> False
      | Some (e1, s1, _) \<Rightarrow> e1 = 0 \<and> 3 \<in> set (inorder (keep (ls_rsbtbl s1 0))) \<and>
          (case ls_rsbs s1 3 of None \<Rightarrow> False | Some x \<Rightarrow> mastered env0 x))"

lemma run_ok_step:
  assumes "run_ok k m s"
  shows "lock_step env0 s (run_state k m s)"
proof -
  obtain l s1 s2 e s3 x where l: "ls_lkbidr s k = Some l" "unused_lkb l"
    and a: "set_lock_args m (Some 0) 0 5 (Some 0) 0 None s = (0, run_args m)"
    and r: "run_request k m s = Some (0, s1, s2, e, s3)"
    and x: "3 \<in> set (inorder (keep (ls_rsbtbl s1 0)))" "ls_rsbs s1 3 = Some x" "mastered env0 x"
    using assms by (auto simp: run_ok_def split: option.splits)
  have "validate_lock_args env0 k (run_args m) s = Some (0, s1)" "attach_lkb 3 k s1 = Some s2"
    "us_request_lock env0 3 k s2 = Some (e, s3)"
    using r by (auto simp: run_request_def Option.bind_eq_Some_conv)
  moreover have "3 \<in> tree_nodes s1"
    using x(1) by (auto simp: tree_nodes_def simp flip: set_inorder)
  moreover have "\<not> has_flag 0 DLM_LKF_CONVERT" by (simp add: has_flag_def)
  ultimately have "lock_step env0 s s3" using l a x(2,3) lock_step.request by blast
  then show ?thesis by (simp add: run_state_def r)
qed

definition run4 :: dlm_ls where "run4 = run_state 1 DLM_LOCK_PR run3"
definition run5 :: dlm_ls where "run5 = run_state 2 DLM_LOCK_CR run4"

lemma run1_step: "lock_step env0 run0 run1"
proof (rule lock_step.create)
  have "fst (create_lkb env0 run0) = 0 \<and> fst (snd (create_lkb env0 run0)) = Some 1" by code_simp
  then show "create_lkb env0 run0 = (0, Some 1, run1)" by (simp add: run1_def prod_eq_iff)
qed

lemma run2_step: "lock_step env0 run1 run2"
proof (rule lock_step.create)
  have "fst (create_lkb env0 run1) = 0 \<and> fst (snd (create_lkb env0 run1)) = Some 2" by code_simp
  then show "create_lkb env0 run1 = (0, Some 2, run2)" by (simp add: run2_def prod_eq_iff)
qed

lemma run2_table: "\<not> dlm_no_directory run2" "bucket_of run2 0 = 0" "jhash env0 n = 0"
  "dlm_hash2nodeid env0 0 = 1"
  by (code_simp, code_simp, simp_all add: env0_def)

lemma run3_find: "find_rsb env0 run_name 5 0 R_REQUEST run2 = Some (0, Some 3, run3)"
proof -
  have "(case run_pass of Some (Done (e, r, s)) \<Rightarrow> e = 0 \<and> r = Some 3 | _ \<Rightarrow> False)" by code_simp
  then obtain s where p: "run_pass = Some (Done (0, Some 3, s))"
    by (auto split: option.splits pass.splits)
  then have "find_rsb env0 run_name 5 0 R_REQUEST run2 = Some (0, Some 3, s)"
    using run2_table by (simp add: find_rsb_def find_rsb_dir_def run_pass_def retry_Done Let_def)
  then show ?thesis by (simp add: run3_def p)
qed

lemma run3_step: "lock_step env0 run2 run3"
  by (rule lock_step.lookup [OF _ _ run3_find]) (use run2_table in \<open>simp_all add: has_flag_def\<close>)

lemma run4_step: "lock_step env0 run3 run4"
  unfolding run4_def by (rule run_ok_step) code_simp

lemma run5_step: "lock_step env0 run4 run5"
  unfolding run5_def by (rule run_ok_step) code_simp

lemma run0_empty: "empty_ls run0"
  by (simp add: empty_ls_def run0_def ls_of_def tree_nodes_def)

lemma run5_reachable: "reachable_ls env0 run5"
proof -
  have "(lock_step env0)\<^sup>*\<^sup>* run0 run5"
    using run1_step run2_step run3_step run4_step run5_step
    by (meson r_into_rtranclp rtranclp_trans)
  with run0_empty show ?thesis unfolding reachable_ls_def by blast
qed

lemma run5_holds: "holds run5 3 1 DLM_LOCK_PR" "holds run5 3 2 DLM_LOCK_CR"
proof -
  have "(case ls_lkbidr run5 1 of None \<Rightarrow> False | Some l \<Rightarrow> lkb_resource l = Some 3 \<and>
      lkb_grmode l = DLM_LOCK_PR \<and> lkb_status l = DLM_LKSTS_GRANTED)" by code_simp
  then show "holds run5 3 1 DLM_LOCK_PR" by (auto simp: holds_def split: option.splits)
  have "(case ls_lkbidr run5 2 of None \<Rightarrow> False | Some l \<Rightarrow> lkb_resource l = Some 3 \<and>
      lkb_grmode l = DLM_LOCK_CR \<and> lkb_status l = DLM_LKSTS_GRANTED)" by code_simp
  then show "holds run5 3 2 DLM_LOCK_CR" by (auto simp: holds_def split: option.splits)
qed

end
