(* ===== verification/Gfs2_Sample.thy ===== *)
theory Gfs2_Sample
  imports Gfs2_Runs Sample
begin

text \<open>
  A small run of the glock layer the properties are applied to: a file system mounted without a
  cluster, one glock, two holders that read, and a third that wants to write.
\<close>

section \<open>An environment\<close>

definition genv0 :: gfs2_env where
  "genv0 = \<lparr>g_dlm = env0, gfs2_withdrawn = (\<lambda>_. False), gdlm_ast_fn = 1, gdlm_bast_fn = 2,
     ktime_get_real = (\<lambda>t. of_nat t), g_jiffies = (\<lambda>t. of_nat t), msleep = (\<lambda>_ d. d),
     go_callback = (\<lambda>_ _ s. Some s), go_free = (\<lambda>_ s. Some s), g_current = 7,
     alloc_glock = (\<lambda>used t. if used t then None else Some t), alloc_lksb = id, alloc_gl_lvb = Some,
     rhashtable_insert = (\<lambda>_. 0), gfs2_withdraw_delayed = id,
     nolock_put_lock = (\<lambda>g s. Some (gfs2_glock_dealloc g s)), spin_trylock = (\<lambda>_. True),
     mounted_lock_num = 0, control_lock_num = 1, sync_wait_fn = 3, ls_arg = 0, wait_sync = (\<lambda>_ s. s),
     wait_recovery = (\<lambda>_ s. s), wait_msleep = (\<lambda>_ s. s), gfs2_recover_journal = (\<lambda>_. 0),
     alloc_mem = (\<lambda>_. True), join_lockspace = (\<lambda>_ _ s. (0, 0, s)), leave_lockspace = id\<rparr>"

lemma genv0_ok: "gfs2_env_ok genv0" "glock_alloc_ok genv0"
  by (auto simp: gfs2_env_ok_def glock_alloc_ok_def genv0_def split: if_splits)

definition gops0 :: gfs2_glock_operations where
  "gops0 = \<lparr>go_sync = None, go_xmote_bh = None, go_inval = False, go_demote_ok = None, go_instantiate = None,
     go_held = None, go_type = LM_TYPE_INODE, go_flags = GLOF_LRU\<rparr>"

definition lstruct0 :: lm_lockstruct where
  "lstruct0 = \<lparr>ls_jid = 0, ls_first = False, ls_ops_dlm = False, ls_dlm_set = False, ls_mounted_lksb = 1, ls_control_lksb = 2, ls_control_lvb = 0,
     ls_lvb_bits = None, ls_recover_flags = 0, ls_recover_mount = 0, ls_recover_start = 0,
     ls_recover_block = 0, ls_recover_submit = [], ls_recover_result = []\<rparr>"

section \<open>A run\<close>

definition grun0 :: gfs2 where
  "grun0 = \<lparr>gs_glocks = (\<lambda>_. None), gs_holders = (\<lambda>_. None), gs_work = (\<lambda>_. None), gs_delete_work = (\<lambda>_. False),
     gl_hash_table = [], lru_list = [], lru_count = 0, sd_flags = 0, sd_log_error = 0, sd_glock_disposal = 0,
     sd_glock_dqs_held = 0, sd_jdesc = None, sd_jinode_gl = None, sd_statfs_gl = None,
     sd_lkstats = (\<lambda>_. replicate 8 0), sd_lockstruct = lstruct0, sd_spectator = False, sd_jindex = [],
     gs_control_work = None, gs_recover_set = [], gs_dlm = ls0, gs_tick = 0\<rparr>"

definition get0 :: "(int \<times> glp option \<times> gfs2) option" where
  "get0 = gfs2_glock_get genv0 5 gops0 True grun0"

definition grun1 :: gfs2 where "grun1 = (case get0 of Some (_, _, s) \<Rightarrow> s | None \<Rightarrow> grun0)"

text \<open>Process \<open>pid\<close> initialises a holder of the glock and enqueues it.\<close>

definition made :: "ghp \<Rightarrow> lm_state \<Rightarrow> nat \<Rightarrow> gfs2 \<Rightarrow> gfs2 option" where
  "made h st pid s = us_us_gfs2_holder_init (genv0\<lparr>g_current := pid\<rparr>) 0 st 0 h s"

definition fits0 :: "gfs2 \<Rightarrow> ghp \<Rightarrow> bool" where
  "fits0 s h \<longleftrightarrow> (case (gs_holders s h, gs_glocks s 0) of
     (Some y, Some x) \<Rightarrow> gh_gl y = Some 0 \<and> \<not> has_flag (gh_flags y) LM_FLAG_ANY \<and> \<not> gl_dead x \<and> h \<notin> set (gl_holders x)
   | _ \<Rightarrow> False)"

lemma fits0: "fits0 s h \<Longrightarrow> fits s h 0"
  by (auto simp: fits0_def fits_def any_ok_def split: option.splits)

definition lone :: "gfs2 \<Rightarrow> bool" where
  "lone s \<longleftrightarrow> (\<forall>g. g \<noteq> 0 \<longrightarrow> gs_glocks s g = None)"

definition unq0 :: "gfs2 \<Rightarrow> ghp \<Rightarrow> bool" where
  "unq0 s h \<longleftrightarrow> (case gs_glocks s 0 of None \<Rightarrow> True | Some x \<Rightarrow> h \<notin> set (gl_holders x))"

lemma unq0: "lone s \<Longrightarrow> unq0 s h \<Longrightarrow> unqueued s h"
  unfolding lone_def unq0_def unqueued_def by (metis option.distinct(1) option.simps(5))

definition added :: "ghp \<Rightarrow> lm_state \<Rightarrow> nat \<Rightarrow> gfs2 \<Rightarrow> (gfs2 \<times> gfs2) option" where
  "added h st pid s = do {
     _ \<leftarrow> dlm_assert (unq0 s h);
     s1 \<leftarrow> made h st pid s;
     _ \<leftarrow> dlm_assert (fits0 s1 h);
     (r, s2) \<leftarrow> gfs2_glock_nq genv0 h s1;
     Some (s1, s2)
   }"

definition added_state :: "ghp \<Rightarrow> lm_state \<Rightarrow> nat \<Rightarrow> gfs2 \<Rightarrow> gfs2" where
  "added_state h st pid s = (case added h st pid s of Some (_, s2) \<Rightarrow> s2 | None \<Rightarrow> s)"

lemma lone_glocks: "lone s \<Longrightarrow> (\<And>g. g \<noteq> 0 \<Longrightarrow> map_option gl_core (gs_glocks s' g) = map_option gl_core (gs_glocks s g)) \<Longrightarrow> lone s'"
  unfolding lone_def by fastforce

text \<open>The state is one of a run, and the glock at address 0 the only one.\<close>

definition ran :: "gfs2 \<Rightarrow> bool" where
  "ran s \<longleftrightarrow> reachable_gfs2 genv0 s \<and> lone s"

lemma reachable_step: "reachable_gfs2 env s \<Longrightarrow> glock_step env s s' \<Longrightarrow> reachable_gfs2 env s'"
  unfolding reachable_gfs2_def by (blast intro: rtranclp.rtrancl_into_rtrancl)

lemma ran_added:
  assumes "ran s" and "added h st pid s \<noteq> None"
  shows "ran (added_state h st pid s)"
proof -
  obtain s1 s2 r where u: "unq0 s h" and 1: "us_us_gfs2_holder_init (genv0\<lparr>g_current := pid\<rparr>) 0 st 0 h s = Some s1"
    and f: "fits0 s1 h" and 2: "gfs2_glock_nq genv0 h s1 = Some (r, s2)" and e: "added h st pid s = Some (s1, s2)"
    using assms(2) by (auto simp: added_def made_def bind_eq_Some_conv)
  have lone: "lone s" and rs: "reachable_gfs2 genv0 s" using assms(1) by (auto simp: ran_def)
  have r1: "reachable_gfs2 genv0 s1"
    using reachable_step [OF rs glock_step.init [OF unq0 [OF lone u] 1]] .
  have l1: "lone s1"
    by (rule lone_glocks [OF lone]) (use 1 in \<open>auto simp: us_us_gfs2_holder_init_def gfs2_glock_hold_def bind_eq_Some_conv upd_gl_eq_Some_iff\<close>)
  obtain x where "gs_glocks s1 0 = Some x" using f by (auto simp: fits0_def split: option.splits)
  then have "og 0 s1 s2"
    using nq_og [OF genv0_ok(1) good_inv [OF reachable_gfs2_inv [OF genv0_ok r1]] fits0 [OF f] 2] by simp
  then have "lone s2" using lone_glocks [OF l1] unfolding og_def off_def by blast
  moreover have "reachable_gfs2 genv0 s2" using reachable_step [OF r1 glock_step.nq [OF fits0 [OF f] 2]] .
  moreover have "added_state h st pid s = s2" by (simp add: added_state_def e)
  ultimately show ?thesis by (simp add: ran_def)
qed

definition grun2 :: gfs2 where "grun2 = added_state 1 LM_ST_SHARED 11 grun1"
definition grun3 :: gfs2 where "grun3 = added_state 2 LM_ST_SHARED 12 grun2"
definition grun4 :: gfs2 where "grun4 = added_state 3 LM_ST_EXCLUSIVE 13 grun3"

text \<open>What the three states look like: both readers are granted, the writer waits.\<close>

definition look :: "gfs2 \<Rightarrow> (lm_state \<times> ghp list \<times> bool) option" where
  "look s = map_option (\<lambda>x. (gl_state x, gl_holders x, gl_test GLF_LOCK x)) (gs_glocks s 0)"

definition granted_in :: "gfs2 \<Rightarrow> ghp \<Rightarrow> bool" where
  "granted_in s h \<longleftrightarrow> (case gs_holders s h of Some y \<Rightarrow> gh_test HIF_HOLDER y | None \<Rightarrow> False)"

lemma granted_in_held: "granted_in s h \<longleftrightarrow> held s h"
  by (auto simp: granted_in_def held_def split: option.splits)

lemma grun_added:
  "added 1 LM_ST_SHARED 11 grun1 \<noteq> None" "added 2 LM_ST_SHARED 12 grun2 \<noteq> None"
  "added 3 LM_ST_EXCLUSIVE 13 grun3 \<noteq> None"
  by code_simp+

lemma grun1_ran: "ran grun1"
proof -
  have "(case get0 of Some (e, gl, _) \<Rightarrow> e = 0 \<and> gl = Some 0 | None \<Rightarrow> False)" by code_simp
  then have g: "gfs2_glock_get genv0 5 gops0 True grun0 = Some (0, Some 0, grun1)"
    by (auto simp: grun1_def get0_def split: option.splits)
  have "fresh_gfs2 grun0" by (simp add: fresh_gfs2_def grun0_def)
  then have "reachable_gfs2 genv0 grun0" by (auto simp: reachable_gfs2_def)
  then have "reachable_gfs2 genv0 grun1" using glock_step.get [OF g] by (rule reachable_step)
  moreover have "lone grun1"
    by (simp add: lone_def grun1_def get0_def gfs2_glock_get_def find_insert_glock_def find_glock_def
        grun0_def genv0_def init_lksb_def Let_def gops0_def has_flag_def)
  ultimately show ?thesis by (simp add: ran_def)
qed

lemma grun3_ran: "ran grun3"
  unfolding grun3_def grun2_def
  by (rule ran_added [OF ran_added [OF grun1_ran]])
    (use grun_added in \<open>simp_all add: grun2_def\<close>)

lemma grun4_ran: "ran grun4"
  unfolding grun4_def by (rule ran_added [OF grun3_ran grun_added(3)])

lemma grun4_look: "look grun4 = Some (LM_ST_SHARED, [1, 2, 3], False)"
  by code_simp

lemma grun4_granted: "granted_in grun4 1 \<and> granted_in grun4 2 \<and> \<not> granted_in grun4 3"
  by code_simp

end
