(* ===== verification/Gfs2_Depth.thy ===== *)
theory Gfs2_Depth
  imports Gfs2_Same
begin

text \<open>
  \<open>finish_xmote\<close> and \<open>do_xmote\<close> call each other when no lock manager replies later. Four nested
  calls are always enough: a call made with the wanted state ends at once, unless a demotion to
  \<open>LM_ST_UNLOCKED\<close> has come in between; a call made with \<open>LM_ST_UNLOCKED\<close> asks for the wanted
  state next.
\<close>

section \<open>What a nested call depends on\<close>

definition tgt :: "glp \<Rightarrow> gfs2 \<Rightarrow> (lm_state \<times> bool \<times> lm_state) option" where
  "tgt g s = map_option (\<lambda>x. (gl_target x, gl_test GLF_DEMOTE_IN_PROGRESS x, gl_demote_state x)) (gs_glocks s g)"

lemma tgt_Some: "gs_glocks s g = Some x \<Longrightarrow> tgt g s = Some (T, d, ds) \<Longrightarrow>
    gl_target x = T \<and> gl_test GLF_DEMOTE_IN_PROGRESS x = d \<and> gl_demote_state x = ds"
  by (simp add: tgt_def)

lemma tgt_cong: "gs_glocks s' = gs_glocks s \<Longrightarrow> tgt g s' = tgt g s"
  by (simp add: tgt_def)

lemma upd_gl_tgt:
  assumes "upd_gl g f s = Some s'" and "\<And>x. gl_target (f x) = gl_target x"
    and "\<And>x. gl_test GLF_DEMOTE_IN_PROGRESS (f x) = gl_test GLF_DEMOTE_IN_PROGRESS x"
    and "\<And>x. gl_demote_state (f x) = gl_demote_state x"
  shows "tgt g s' = tgt g s"
  using assms by (auto simp: upd_gl_eq_Some_iff tgt_def)

lemma upd_gh_tgt: "upd_gh h f s = Some s' \<Longrightarrow> tgt g s' = tgt g s"
  by (auto simp: upd_gh_eq_Some_iff tgt_def)

lemma gl_set_tgt: "gl_set n g s = Some s' \<Longrightarrow> n \<noteq> GLF_DEMOTE_IN_PROGRESS \<Longrightarrow> tgt g s' = tgt g s"
  unfolding gl_set_def by (erule upd_gl_tgt) simp_all

lemma gl_clear_tgt: "gl_clear n g s = Some s' \<Longrightarrow> n \<noteq> GLF_DEMOTE_IN_PROGRESS \<Longrightarrow> tgt g s' = tgt g s"
  unfolding gl_clear_def by (erule upd_gl_tgt) simp_all

lemma gl_ref_add_tgt: "gl_ref_add n g s = Some s' \<Longrightarrow> tgt g s' = tgt g s"
  unfolding gl_ref_add_def by (erule upd_gl_tgt) (simp_all add: gl_test_def)

lemma hold_tgt: "gfs2_glock_hold g s = Some s' \<Longrightarrow> tgt g s' = tgt g s"
  by (auto simp: gfs2_glock_hold_def bind_eq_Some_conv tgt_def upd_gl_eq_Some_iff gl_test_def)

lemma fail_waiter_tgt: "fail_waiter g ret h s = Some s' \<Longrightarrow> tgt g s' = tgt g s"
  by (auto simp: fail_waiter_def gfs2_holder_wake_def bind_eq_Some_conv tgt_def upd_gl_eq_Some_iff
      upd_gh_eq_Some_iff gl_test_def split: if_splits)

lemma do_error_list_tgt: "do_error_list g ret hs s = Some s' \<Longrightarrow> tgt g s' = tgt g s"
proof (induction hs arbitrary: s)
  case (Cons h hs)
  from Cons.prems obtain s1 where "fail_waiter g ret h s = Some s1" "do_error_list g ret hs s1 = Some s'"
    by (auto simp: bind_eq_Some_conv)
  with Cons.IH fail_waiter_tgt show ?case by metis
qed simp

lemma do_error_tgt: "do_error g ret s = Some s' \<Longrightarrow> tgt g s' = tgt g s"
  by (auto simp: do_error_def bind_eq_Some_conv do_error_list_tgt)

lemma stats_inc_tgt: "gfs2_stats_inc w g s = Some s' \<Longrightarrow> tgt g s' = tgt g s"
  by (auto simp: gfs2_stats_inc_def bind_eq_Some_conv tgt_def upd_gl_eq_Some_iff gl_test_def Let_def)

lemma update_both_tgt: "update_both i v g s = Some s' \<Longrightarrow> tgt g s' = tgt g s"
  by (auto simp: update_both_def bind_eq_Some_conv tgt_def upd_gl_eq_Some_iff gl_test_def)

lemma request_times_tgt:
  assumes "gfs2_update_request_times env g s = Some s'"
  shows "tgt g s' = tgt g s"
proof -
  obtain s1 v where 1: "upd_gl g (\<lambda>x. x\<lparr>gl_dstamp := ktime_get_real env (gs_tick s)\<rparr>) s = Some s1"
    and 2: "update_both GFS2_LKS_SIRT v g (s1\<lparr>gs_tick := gs_tick s1 + 1\<rparr>) = Some s'"
    using assms by (auto simp: gfs2_update_request_times_def bind_eq_Some_conv Let_def)
  have "tgt g s1 = tgt g s" by (rule upd_gl_tgt [OF 1]) (simp_all add: gl_test_def)
  moreover have "tgt g (s1\<lparr>gs_tick := gs_tick s1 + 1\<rparr>) = tgt g s1" by (rule tgt_cong) simp
  ultimately show ?thesis using update_both_tgt [OF 2] by simp
qed

lemma lock_name_tgt: "gdlm_lock_name env x g s = Some (nm, s') \<Longrightarrow> tgt g s' = tgt g s"
  by (auto simp: gdlm_lock_name_def bind_eq_Some_conv tgt_def upd_gl_eq_Some_iff gl_test_def split: if_splits
      dest!: request_times_tgt)

lemma lock_retry_tgt:
  assumes "retry (gdlm_lock_pass env x g req lkf nm) s = Some (e, s')"
  shows "tgt g s' = tgt g s"
proof -
  have "(\<lambda>(e, s'). tgt g s' = tgt g s) (e, s')"
  proof (rule retry_invariant [of "\<lambda>t. tgt g t = tgt g s" "gdlm_lock_pass env x g req lkf nm" "\<lambda>(e, s'). tgt g s' = tgt g s" s])
    fix t p assume "tgt g t = tgt g s" "gdlm_lock_pass env x g req lkf nm t = Some p"
    then show "case p of Retry s' \<Rightarrow> tgt g s' = tgt g s | Done a \<Rightarrow> (case a of (e, s') \<Rightarrow> tgt g s' = tgt g s)"
      by (auto simp: gdlm_lock_pass_def Let_def bind_eq_Some_conv tgt_def split: if_splits)
  qed (use assms in simp_all)
  then show ?thesis by simp
qed

lemma gdlm_lock_tgt: "gdlm_lock env g st fl s = Some (e, s') \<Longrightarrow> tgt g s' = tgt g s"
  unfolding gdlm_lock_def Let_def bind_eq_Some_conv
  by (auto dest!: stats_inc_tgt lock_name_tgt lock_retry_tgt)

lemma invalidate_tgt: "xmote_invalidate g s = Some s' \<Longrightarrow> tgt g s' = tgt g s"
  by (auto simp: xmote_invalidate_def note_log_error_def bind_eq_Some_conv split: if_splits dest!: gl_clear_tgt)
    (simp_all add: tgt_def)

lemma flush_tgt:
  assumes "xmote_flush g s = Some s'"
  shows "tgt g s' = tgt g s"
proof -
  obtain x where x: "gs_glocks s g = Some x" using assms by (auto simp: xmote_flush_def bind_eq_Some_conv)
  have t: "tgt g (note_log_error e u) = tgt g u" "tgt g (s\<lparr>gs_tick := n\<rparr>) = tgt g s" for e u n
    by (simp_all add: note_log_error_def tgt_def)
  show ?thesis
    using assms x t invalidate_tgt unfolding xmote_flush_def Let_def
    by (cases "go_sync (gl_ops x)") (auto split: if_splits dest!: invalidate_tgt)
qed

lemma prepare_tgt:
  assumes "xmote_prepare g target inval fl s = Some s'"
  shows "tgt g s' = tgt g s"
proof -
  obtain s1 s2 where 1: "xmote_announce g inval s = Some s1" "upd_gl g (note_request target fl) s1 = Some s2"
    "xmote_flush g s2 = Some s'" using assms by (auto simp: xmote_prepare_def bind_eq_Some_conv)
  have "tgt g s1 = tgt g s"
    using 1(1) by (auto simp: xmote_announce_def bind_eq_Some_conv split: if_splits dest!: gl_set_tgt do_error_tgt)
  moreover have "tgt g s2 = tgt g s1"
    by (rule upd_gl_tgt [OF 1(2)]) (auto simp: note_request_def Let_def gl_test_def bit_set_bit_iff bit_unset_bit_iff)
  ultimately show ?thesis using flush_tgt [OF 1(3)] by simp
qed

lemma sync_tgt: "xmote_sync env g y target s = Some (fl, s') \<Longrightarrow> tgt g s' = tgt g s"
  by (auto simp: xmote_sync_def bind_eq_Some_conv Let_def split: if_splits dest: prepare_tgt)

section \<open>Nested calls\<close>

lemma request_cong:
  assumes "\<And>s'. tgt g s' = tgt g s \<Longrightarrow> fin g (lm_code target) s' = fin' g (lm_code target) s'"
  shows "xmote_request fin env g target fl s = xmote_request fin' env g target fl s"
proof -
  have f: "fin g (lm_code target) t = fin' g (lm_code target) t" if "gdlm_lock env g target fl s = Some (e, t)" for e t
    by (rule assms) (rule gdlm_lock_tgt [OF that])
  have f0: "fin g (lm_code target) s = fin' g (lm_code target) s" by (rule assms) (rule refl)
  show ?thesis
    unfolding xmote_request_def f0
    by (intro if_cong Option.bind_cong refl) (use f in \<open>auto intro!: Option.bind_cong\<close>)
qed

lemma send_cong:
  assumes fin: "\<And>s'. tgt g s' = tgt g s \<Longrightarrow> fin g (lm_code target) s' = fin' g (lm_code target) s'"
  shows "xmote_send fin env g target fl s = xmote_send fin' env g target fl s"
proof -
  have r: "xmote_request fin env g target fl t = xmote_request fin' env g target fl t" if "tgt g t = tgt g s" for t
    by (rule request_cong) (use fin that in simp)
  show ?thesis
    unfolding xmote_send_def r [OF refl]
    by (intro if_cong Option.bind_cong refl r) (simp add: gl_clear_tgt)
qed

lemma xmote_cong:
  assumes fin: "\<And>s'. tgt g s' = tgt g s \<Longrightarrow> fin g (lm_code target) s' = fin' g (lm_code target) s'"
  shows "do_xmote_step fin env g gh target s = do_xmote_step fin' env g gh target s"
proof -
  have "xmote_send fin env g target fl (check_log_error env t) = xmote_send fin' env g target fl (check_log_error env t)"
    if "tgt g t = tgt g s" for fl t
    by (rule send_cong) (use fin that in \<open>simp add: check_log_error_def tgt_def split: if_splits\<close>)
  then show ?thesis
    unfolding do_xmote_step_def
    by (auto intro!: Option.bind_cong split: option.splits dest!: sync_tgt hold_tgt)
qed

lemma wake_tgt: "gfs2_holder_wake h s = Some s' \<Longrightarrow> tgt g s' = tgt g s"
  unfolding gfs2_holder_wake_def by (rule upd_gh_tgt)

lemma promote_list_tgt: "do_promote_list g cur hs s = Some (ok, s') \<Longrightarrow> tgt g s' = tgt g s"
proof (induction hs arbitrary: cur s)
  case (Cons h hs)
  obtain y where y: "gs_holders s h = Some y" using Cons.prems by (auto simp: bind_eq_Some_conv)
  have "s' = s \<or> do_promote_list g cur hs s = Some (ok, s') \<or> do_error g 0 s = Some s' \<or>
      (\<exists>s1 s2 c. upd_gh h (\<lambda>y. y\<lparr>gh_iflags := set_bit HIF_HOLDER (gh_iflags y)\<rparr>) s = Some s1 \<and>
        gfs2_holder_wake h s1 = Some s2 \<and> do_promote_list g c hs s2 = Some (ok, s'))"
    using Cons.prems y by (auto simp: bind_eq_Some_conv simp del: upd_gh_Some split: if_split_asm)
  then show ?case
    by (elim disjE exE conjE) (simp_all add: Cons.IH do_error_tgt upd_gh_tgt wake_tgt del: upd_gh_Some)
qed simp

lemma promote_tgt: "do_promote g s = Some (ok, s') \<Longrightarrow> tgt g s' = tgt g s"
  by (auto simp: do_promote_def bind_eq_Some_conv promote_list_tgt)

lemma again_cong:
  assumes "tgt g s = Some (T, d, ds)"
    and "st = LM_ST_UNLOCKED \<Longrightarrow> xm g gh T s = xm' g gh T s"
    and "st \<noteq> LM_ST_UNLOCKED \<Longrightarrow> xm g gh LM_ST_UNLOCKED s = xm' g gh LM_ST_UNLOCKED s"
  shows "xmote_again xm g gh st s = xmote_again xm' g gh st s"
  unfolding xmote_again_def
  by (rule Option.bind_cong [OF refl]) (use assms in \<open>auto dest: tgt_Some split: lm_state.split\<close>)

lemma cancelled_cong:
  assumes t: "tgt g s = Some (T, d, ds)"
    and xm: "\<And>k T2 s'. tgt g s' = Some (T2, d, ds) \<Longrightarrow> xm g (Some k) T2 s' = xm' g (Some k) T2 s'"
  shows "xmote_cancelled xm g h s = xmote_cancelled xm' g h s"
proof -
  have t2: "\<exists>T2. tgt g s2 = Some (T2, d, ds)"
    if "tgt g s1 = Some (T1, d, ds)" "upd_gl g (\<lambda>x. x\<lparr>gl_target := v\<rparr>) s1 = Some s2" for s1 s2 v T1
    using that by (auto simp: tgt_def upd_gl_eq_Some_iff gl_test_def)
  have t1: "tgt g s1 = Some (T, d, ds)" if "upd_gl g (\<lambda>x. x\<lparr>gl_holders := f x\<rparr>) s = Some s1" for s1 f
    using upd_gl_tgt [OF that] t by (simp add: gl_test_def)
  have x: "xm g (Some k) (gl_target x) u = xm' g (Some k) (gl_target x) u"
    if "tgt g s2 = Some (T2, d, ds)" "do_promote g s2 = Some (ok, u)" "gs_glocks u g = Some x" for s2 T2 ok u x k
    using xm [of u T2 k] promote_tgt [OF that(2)] that(1) tgt_Some [OF that(3)] by metis
  have p: "(do {
     (ok, s) \<leftarrow> do_promote g s2;
     if ok then gl_clear GLF_LOCK g s else do { x \<leftarrow> gs_glocks s g; xm g (Some k) (gl_target x) s }
   }) = (do {
     (ok, s) \<leftarrow> do_promote g s2;
     if ok then gl_clear GLF_LOCK g s else do { x \<leftarrow> gs_glocks s g; xm' g (Some k) (gl_target x) s }
   })" if "tgt g s2 = Some (T2, d, ds)" for s2 T2 k
    by (intro Option.bind_cong refl prod.case_cong if_cong) (use x [OF that] in simp)
  show ?thesis
    unfolding xmote_cancelled_def
  proof (rule Option.bind_cong [OF refl], rule Option.bind_cong [OF refl], rule Option.bind_cong [OF refl],
      rule Option.bind_cong [OF refl], rule Option.bind_cong [OF refl], rule Option.bind_cong [OF refl])
    fix s1 x gh k y s2 assume 1: "upd_gl g (\<lambda>x. x\<lparr>gl_holders := remove1 h (gl_holders x) @ [h]\<rparr>) s = Some s1"
      and 2: "upd_gl g (\<lambda>x. x\<lparr>gl_target := gh_state y\<rparr>) s1 = Some s2"
    obtain T2 where "tgt g s2 = Some (T2, d, ds)" using t2 [OF t1 [OF 1] 2] by blast
    then show "(do {
       (ok, s) \<leftarrow> do_promote g s2;
       if ok then gl_clear GLF_LOCK g s else do { x \<leftarrow> gs_glocks s g; xm g (Some k) (gl_target x) s }
     }) = (do {
       (ok, s) \<leftarrow> do_promote g s2;
       if ok then gl_clear GLF_LOCK g s else do { x \<leftarrow> gs_glocks s g; xm' g (Some k) (gl_target x) s }
     })" by (rule p)
  qed
qed

lemma unwanted_cong:
  assumes t: "tgt g s = Some (T, d, ds)"
    and a: "\<And>gh s'. tgt g s' = tgt g s \<Longrightarrow> st = LM_ST_UNLOCKED \<Longrightarrow> xm g gh T s' = xm' g gh T s'"
    and b: "\<And>gh s'. tgt g s' = tgt g s \<Longrightarrow> st \<noteq> LM_ST_UNLOCKED \<Longrightarrow> xm g gh LM_ST_UNLOCKED s' = xm' g gh LM_ST_UNLOCKED s'"
    and c: "\<And>k T2 s'. has_flag ret LM_OUT_CANCELED \<Longrightarrow> tgt g s' = Some (T2, False, ds) \<Longrightarrow>
      xm g (Some k) T2 s' = xm' g (Some k) T2 s'"
  shows "finish_unwanted xm g ret gh st s = finish_unwanted xm' g ret gh st s"
proof (cases gh)
  case None
  then show ?thesis using again_cong [of g s T d ds st xm None xm'] t a b by (simp add: finish_unwanted_def)
next
  case (Some h)
  have r: "(do {
         x \<leftarrow> gs_glocks s1 g;
         y \<leftarrow> gs_holders s1 h;
         if gl_test GLF_DEMOTE_IN_PROGRESS x then xmote_again xm g gh st s1
         else if has_flag ret LM_OUT_CANCELED then xmote_cancelled xm g h s1
         else if P y
         then do {
           s \<leftarrow> upd_gl g (\<lambda>x. x\<lparr>gl_target := gl_state x\<rparr>) s1;
           s \<leftarrow> do_error g ret s;
           gl_clear GLF_LOCK g s
         }
         else xmote_again xm g gh st s1
       }) = (do {
         x \<leftarrow> gs_glocks s1 g;
         y \<leftarrow> gs_holders s1 h;
         if gl_test GLF_DEMOTE_IN_PROGRESS x then xmote_again xm' g gh st s1
         else if has_flag ret LM_OUT_CANCELED then xmote_cancelled xm' g h s1
         else if P y
         then do {
           s \<leftarrow> upd_gl g (\<lambda>x. x\<lparr>gl_target := gl_state x\<rparr>) s1;
           s \<leftarrow> do_error g ret s;
           gl_clear GLF_LOCK g s
         }
         else xmote_again xm' g gh st s1
       })" if t1: "tgt g s1 = tgt g s" for s1 P
  proof -
    have ag: "xmote_again xm g gh st s1 = xmote_again xm' g gh st s1"
      by (rule again_cong) (use t1 t a b in auto)
    have ca: "xmote_cancelled xm g h s1 = xmote_cancelled xm' g h s1" if "has_flag ret LM_OUT_CANCELED" "\<not> d"
      by (rule cancelled_cong) (use t1 t c that in auto)
    show ?thesis
      by (intro Option.bind_cong refl) (use ag ca t1 t in \<open>auto dest: tgt_Some\<close>)
  qed
  show ?thesis
    unfolding finish_unwanted_def Some option.case
    by (rule Option.bind_cong [OF refl]) (rule r [unfolded Some], auto split: if_splits dest: wake_tgt)
qed

text \<open>The target of \<open>finish_xmote\<close>: that of the glock, or \<open>LM_ST_UNLOCKED\<close> for a demotion.\<close>

definition next_target :: "lm_state \<Rightarrow> lm_state \<Rightarrow> bool \<Rightarrow> lm_state \<Rightarrow> lm_state" where
  "next_target st T d ds = (if d \<and> st \<noteq> LM_ST_UNLOCKED \<and> ds = LM_ST_UNLOCKED then LM_ST_UNLOCKED else T)"

lemma state_change_tgt: "state_change env g st s = Some s' \<Longrightarrow> tgt g s' = tgt g s"
  by (auto simp: state_change_def bind_eq_Some_conv tgt_def upd_gl_eq_Some_iff gl_ref_add_def enter_state_def
      gl_test_def Let_def split: if_splits)

lemma step_cong:
  assumes t: "tgt g s = Some (T, d, ds)" and st: "st = lm_out_state ret" and n: "T' = next_target st T d ds"
    and u: "\<And>gh s'. st \<noteq> T' \<Longrightarrow> tgt g s' = Some (T', d, ds) \<Longrightarrow>
      finish_unwanted xm g ret gh st s' = finish_unwanted xm' g ret gh st s'"
  shows "finish_xmote_step xm env g ret s = finish_xmote_step xm' env g ret s"
proof -
  have k: "(do {
     s \<leftarrow> (if gl_test GLF_DEMOTE_IN_PROGRESS x \<and> st \<noteq> LM_ST_UNLOCKED \<and> gl_demote_state x = LM_ST_UNLOCKED
          then upd_gl g (\<lambda>x. x\<lparr>gl_target := LM_ST_UNLOCKED\<rparr>) s1 else Some s1);
     x \<leftarrow> gs_glocks s g;
     if st \<noteq> gl_target x then finish_unwanted xm g ret gh st s else finish_wanted g st s
   }) = (do {
     s \<leftarrow> (if gl_test GLF_DEMOTE_IN_PROGRESS x \<and> st \<noteq> LM_ST_UNLOCKED \<and> gl_demote_state x = LM_ST_UNLOCKED
          then upd_gl g (\<lambda>x. x\<lparr>gl_target := LM_ST_UNLOCKED\<rparr>) s1 else Some s1);
     x \<leftarrow> gs_glocks s g;
     if st \<noteq> gl_target x then finish_unwanted xm' g ret gh st s else finish_wanted g st s
   })" if s1: "tgt g s1 = Some (T, d, ds)" "gs_glocks s1 g = Some x" for s1 x gh
  proof (rule Option.bind_cong [OF refl], rule Option.bind_cong [OF refl])
    fix s2 x2 assume 2: "(if gl_test GLF_DEMOTE_IN_PROGRESS x \<and> st \<noteq> LM_ST_UNLOCKED \<and> gl_demote_state x = LM_ST_UNLOCKED
          then upd_gl g (\<lambda>x. x\<lparr>gl_target := LM_ST_UNLOCKED\<rparr>) s1 else Some s1) = Some s2"
      and x2: "gs_glocks s2 g = Some x2"
    have t2: "tgt g s2 = Some (T', d, ds)"
      using 2 s1 tgt_Some [OF s1(2,1)] by (auto simp: n next_target_def tgt_def upd_gl_eq_Some_iff gl_test_def split: if_splits)
    then show "(if st \<noteq> gl_target x2 then finish_unwanted xm g ret gh st s2 else finish_wanted g st s2) =
        (if st \<noteq> gl_target x2 then finish_unwanted xm' g ret gh st s2 else finish_wanted g st s2)"
      using u [OF _ t2] tgt_Some [OF x2 t2] by auto
  qed
  show ?thesis
    unfolding finish_xmote_step_def Let_def st [symmetric]
    by (intro Option.bind_cong refl k) (use t in \<open>auto dest: state_change_tgt\<close>)
qed

section \<open>Four calls are enough\<close>

definition xmote_n :: "nat \<Rightarrow> gfs2_env \<Rightarrow> glp \<Rightarrow> ghp option \<Rightarrow> lm_state \<Rightarrow> gfs2 \<Rightarrow> gfs2 option" where
  "xmote_n n env = do_xmote_step (finish_xmote_n n env) env"

lemma finish_Suc: "finish_xmote_n (Suc n) env g ret s = finish_xmote_step (xmote_n n env) env g ret s"
  by (simp add: xmote_n_def)

lemma no_cancel: "\<not> has_flag (lm_code T) LM_OUT_CANCELED"
  by (cases T) (simp_all add: lm_code_def has_flag_def)

lemma depth1:
  assumes "tgt g s = Some (T, d, ds)" and "lm_out_state ret = next_target (lm_out_state ret) T d ds"
  shows "finish_xmote_n (Suc n) env g ret s = finish_xmote_n (Suc m) env g ret s"
  unfolding finish_Suc by (rule step_cong [OF assms(1) refl refl]) (use assms(2) in simp)

lemma depth2:
  assumes t: "tgt g s = Some (T, d, ds)"
  shows "finish_xmote_n (Suc (Suc n)) env g (lm_code T) s = finish_xmote_n (Suc (Suc m)) env g (lm_code T) s"
  unfolding finish_Suc [of "Suc n"] finish_Suc [of "Suc m"]
proof (rule step_cong [OF t refl refl])
  fix gh s'
  define T' where "T' = next_target (lm_out_state (lm_code T)) T d ds"
  assume ne: "lm_out_state (lm_code T) \<noteq> next_target (lm_out_state (lm_code T)) T d ds"
    and t': "tgt g s' = Some (next_target (lm_out_state (lm_code T)) T d ds, d, ds)"
  have U: "next_target T T d ds = LM_ST_UNLOCKED" "T \<noteq> LM_ST_UNLOCKED"
    using ne by (auto simp: next_target_def split: if_splits)
  have x: "xmote_n (Suc n) env g gh LM_ST_UNLOCKED u = xmote_n (Suc m) env g gh LM_ST_UNLOCKED u"
    if "tgt g u = Some (LM_ST_UNLOCKED, d, ds)" for gh u
    unfolding xmote_n_def
    by (rule xmote_cong, rule depth1 [of _ _ LM_ST_UNLOCKED d ds]) (simp_all add: that next_target_def)
  show "finish_unwanted (xmote_n (Suc n) env) g (lm_code T) gh (lm_out_state (lm_code T)) s' =
      finish_unwanted (xmote_n (Suc m) env) g (lm_code T) gh (lm_out_state (lm_code T)) s'"
    by (rule unwanted_cong [OF t']) (use U x t' no_cancel in auto)
qed

lemma xmote2:
  "tgt g s = Some (T, d, ds) \<Longrightarrow> xmote_n (Suc (Suc n)) env g gh T s = xmote_n (Suc (Suc m)) env g gh T s"
  unfolding xmote_n_def by (rule xmote_cong, rule depth2) simp

lemma depth3:
  assumes t: "tgt g s = Some (T, d, ds)"
  shows "finish_xmote_n (Suc (Suc (Suc n))) env g (lm_code LM_ST_UNLOCKED) s =
     finish_xmote_n (Suc (Suc (Suc m))) env g (lm_code LM_ST_UNLOCKED) s"
  unfolding finish_Suc [of "Suc (Suc n)"] finish_Suc [of "Suc (Suc m)"]
  by (rule step_cong [OF t refl refl], rule unwanted_cong, assumption)
    (auto simp: no_cancel intro: xmote2)

lemma xmote3:
  "tgt g s = Some (T, d, ds) \<Longrightarrow>
   xmote_n (Suc (Suc (Suc n))) env g gh LM_ST_UNLOCKED s = xmote_n (Suc (Suc (Suc m))) env g gh LM_ST_UNLOCKED s"
  unfolding xmote_n_def by (rule xmote_cong, rule depth3) simp

lemma depth4: "finish_xmote_n (Suc (Suc (Suc (Suc n)))) env g ret s = finish_xmote_n (Suc (Suc (Suc (Suc m)))) env g ret s"
proof (cases "tgt g s")
  case None
  then have "gs_glocks s g = None" by (simp add: tgt_def)
  then show ?thesis by (simp add: finish_xmote_step_def state_change_def Let_def)
next
  case (Some p)
  obtain T d ds where t: "tgt g s = Some (T, d, ds)" using Some by (cases p) auto
  show ?thesis
    unfolding finish_Suc [of "Suc (Suc (Suc n))"] finish_Suc [of "Suc (Suc (Suc m))"]
    by (rule step_cong [OF t refl refl], rule unwanted_cong, assumption) (auto intro: xmote2 xmote3)
qed

end
