(* ===== verification/Locking_Properties.thy ===== *)
theory Locking_Properties
  imports Sample
begin

text \<open>
  The properties of the locking operations on the node that masters a resource: mutual
  exclusion, the grant rule, and what each operation returns and leaves behind. The statements
  are about the definitions of \<open>Grant\<close> and \<open>Requests\<close>; their proofs are the lemmas of \<open>Granting\<close>,
  \<open>Pending\<close>, \<open>Master\<close>, \<open>Entry\<close>, \<open>Api\<close> and \<open>Runs\<close>. Each is applied to a lockspace of \<open>Sample\<close>.
\<close>

section \<open>Mutual exclusion\<close>



text \<open>Every call keeps the invariant of the lockspace, whatever the call and its arguments.\<close>

theorem calls_keep_invariant:
  assumes "ls_inv s" and "env_ok env" and "lock_step env s s'"
  shows "ls_inv s'"
  by (rule lock_step_inv [OF assms])

theorem calls_keep_invariant_witness:
  "ls_inv run4 \<and> lock_step env0 run4 run5 \<and> ls_inv run5"
proof -
  have "reachable_ls env0 run4" unfolding reachable_ls_def
    using run0_empty run1_step run2_step run3_step run4_step by (meson r_into_rtranclp rtranclp_trans)
  then have "ls_inv run4" by (rule reachable_inv [OF env0_ok])
  with calls_keep_invariant [OF this env0_ok run5_step] run5_step show ?thesis by simp
qed

section \<open>The grant rule\<close>

text \<open>C2: \<open>_can_be_granted\<close>, with its scans of the two queues and its chain of early returns,
  decides the declarative rule: expedited, or compatible with every other holder and in turn.\<close>

theorem can_be_granted_is_grant_rule:
  assumes "master_ok s r" and "ls_rsbs s r = Some x" and "ls_lkbidr s k = Some l" and "lkb_wf l"
    and "asks_ok x k l now"
  shows "us_can_be_granted r k now recover s = Some
    (has_flag (lkb_exflags l) DLM_LKF_EXPEDITE \<or>
     (\<forall>j\<in>holders x - {k}. compat (gr_mode s j) (lkb_rqmode l)) \<and> order_ok x k l now recover)"
proof -
  have "\<forall>j\<in>set (rsb_queues x). live_mode s j"
    using assms(1,2) queues_ok_live by (auto simp: master_ok_def)
  from us_can_be_granted_rule [OF this assms(2,3) _ assms(5)] assms(4) show ?thesis
    by (simp add: grant_rule_def lkb_wf_def)
qed

theorem can_be_granted_is_grant_rule_witness:
  "us_can_be_granted 0 3 True False ls0 = Some
    (has_flag (lkb_exflags lkb3) DLM_LKF_EXPEDITE \<or>
     (\<forall>j\<in>holders rsb0 - {3}. compat (gr_mode ls0 j) (lkb_rqmode lkb3)) \<and> order_ok rsb0 3 lkb3 True False)"
  by (rule can_be_granted_is_grant_rule [OF ls0_ok])
    (use ls0_member(3) in \<open>simp_all add: member_def asks_ok_def\<close>)

text \<open>A new request is granted at once exactly when no holder conflicts with it and no lock
  is ahead of it; an alternate mode or an expedited request aside.\<close>

theorem do_request_grants_iff:
  assumes "master_ok s r" and "ls_rsbs s r = Some x" and "member s r k l"
    and "lkb_status l = 0" and "lkb_rqmode l \<noteq> DLM_LOCK_IV"
    and "\<not> has_flag (lkb_exflags l) DLM_LKF_EXPEDITE"
    and "\<not> has_flag (lkb_exflags l) DLM_LKF_ALTPR" and "\<not> has_flag (lkb_exflags l) DLM_LKF_ALTCW"
    and "do_request env r k s = Some (e, s')"
  shows "e = 0 \<longleftrightarrow> (\<forall>j\<in>holders x. compat (gr_mode s j) (lkb_rqmode l)) \<and>
    (has_flag (lkb_exflags l) DLM_LKF_NOORDER \<or> res_convertqueue x = [] \<and> res_waitqueue x = [])"
  by (rule do_request_decision [OF assms])

theorem do_request_grants_iff_witness:
  "\<exists>e s'. do_request env0 0 3 ls0 = Some (e, s') \<and> e \<noteq> 0 \<and>
    \<not> compat (gr_mode ls0 1) (lkb_rqmode lkb3)"
proof -
  have e: "(case do_request env0 0 3 ls0 of None \<Rightarrow> False | Some (e, _) \<Rightarrow> e \<noteq> 0)" by code_simp
  then obtain e s' where d: "do_request env0 0 3 ls0 = Some (e, s')" "e \<noteq> 0"
    by (auto split: option.splits)
  note iff = do_request_grants_iff [OF ls0_ok _ ls0_member(3) _ _ _ _ _ d(1), of rsb0]
  have "e = 0 \<longleftrightarrow> (\<forall>j\<in>holders rsb0. compat (gr_mode ls0 j) (lkb_rqmode lkb3)) \<and>
    (has_flag (lkb_exflags lkb3) DLM_LKF_NOORDER \<or> res_convertqueue rsb0 = [] \<and> res_waitqueue rsb0 = [])"
    by (rule iff) (simp_all add: sample_defs has_flag_def)
  moreover have "\<not> compat (gr_mode ls0 1) (lkb_rqmode lkb3)"
    by (simp add: gr_mode_def) (simp add: sample_defs matrix_simps)
  ultimately show ?thesis using d by blast
qed

section \<open>The operations of the master\<close>

text \<open>C11: \<open>do_request\<close> never crashes, keeps the resource's invariant, changes no other lock, and
  returns 0, \<open>-EINPROGRESS\<close> or \<open>-EAGAIN\<close>, according to which the lock is granted in its mode
  (or an alternate one), queued, or left off the queues.\<close>

theorem do_request_correct:
  assumes "master_ok s r" and "ls_rsbs s r = Some x" and "member s r k l"
    and "lkb_status l = 0" and "lkb_rqmode l \<noteq> DLM_LOCK_IV"
  shows "\<exists>e s'. do_request env r k s = Some (e, s') \<and> outcome r {k} k l s s' (request_result l e)"
  by (rule do_request_keeps [OF assms])

theorem do_request_correct_witness:
  "\<exists>e s'. do_request env0 0 3 ls0 = Some (e, s') \<and> outcome 0 {3} 3 lkb3 ls0 s' (request_result lkb3 e)"
  by (rule do_request_correct [OF ls0_ok _ ls0_member(3)]) (simp_all add: sample_defs)





text \<open>\<open>do_unlock\<close> of a queued lock takes it off its queue, clears its mode, drops the queue's
  and the operation's references, and keeps the invariant.\<close>

theorem do_unlock_correct:
  assumes "master_ok s r" and "ls_rsbs s r = Some x" and "member s r k l"
    and "lkb_status l \<noteq> 0" and "3 \<le> lkb_ref l"
  shows "\<exists>s'. do_unlock env r k s = Some (-DLM_EUNLOCK, s') \<and> outcome r {k} k l s s'
    (\<lambda>l'. lkb_status l' = 0 \<and> lkb_grmode l' = DLM_LOCK_IV \<and> lkb_ref l' = lkb_ref l - 2)"
  by (rule do_unlock_keeps [OF assms])

definition ls2 :: dlm_ls where
  "ls2 = ls0\<lparr>ls_lkbidr := (ls_lkbidr ls0)(1 \<mapsto> lkb1\<lparr>lkb_ref := 3\<rparr>)\<rparr>"

lemma ls2_held: "find_lkb 1 ls0 = Some ls2"
  by (simp add: find_lkb_def kref_get_lkb_def ls2_def) (simp add: sample_defs)

lemma ls2_ok: "master_ok ls2 0" and ls2_member: "member ls2 0 1 (lkb1\<lparr>lkb_ref := 3\<rparr>)"
  using find_lkb_keeps [OF ls0_ok ls0_member(1)] ls2_held by (auto simp: ls2_def) (auto simp: sample_defs)

theorem do_unlock_correct_witness:
  "\<exists>s'. do_unlock env0 0 1 ls2 = Some (-DLM_EUNLOCK, s') \<and> outcome 0 {1} 1 (lkb1\<lparr>lkb_ref := 3\<rparr>) ls2 s'
    (\<lambda>l'. lkb_status l' = 0 \<and> lkb_grmode l' = DLM_LOCK_IV \<and> lkb_ref l' = 1)"
  using do_unlock_correct [OF ls2_ok _ ls2_member, of rsb0 env0]
  by (simp add: ls2_def) (simp add: sample_defs)

text \<open>\<open>do_cancel\<close> gives a converting lock back its granted mode, takes a waiting lock off the
  queue, leaves a granted one alone, and says which in its result.\<close>

theorem do_cancel_correct:
  assumes "master_ok s r" and "ls_rsbs s r = Some x" and "member s r k l" and "lkb_status l \<noteq> 0"
    and "lkb_status l = DLM_LKSTS_WAITING \<Longrightarrow> 3 \<le> lkb_ref l"
  shows "\<exists>e s'. do_cancel env r k s = Some (e, s') \<and> outcome r {k} k l s s' (cancel_result l e)"
  by (rule do_cancel_keeps [OF assms])

theorem do_cancel_correct_witness:
  "\<exists>e s'. do_cancel env0 0 1 ls0 = Some (e, s') \<and> outcome 0 {1} 1 lkb1 ls0 s' (cancel_result lkb1 e)"
  by (rule do_cancel_correct [OF ls0_ok _ ls0_member(1)]) (simp_all add: sample_defs)

section \<open>Granting what waits\<close>

text \<open>C19: the \<open>goto restart\<close> loop of \<open>grant_pending_convert\<close> ends, after at most two passes for
  each converting lock and two more, with the invariant kept.\<close>

theorem grant_pending_convert_ends:
  assumes "master_ok s r" and "ls_rsbs s r = Some x"
  shows "\<exists>hi cw' count' s'. retry_n (2 * card (set (res_convertqueue x)) + 2)
    (grant_convert_restart env r recover) (False, cw, count, s) = Some (Done (hi, cw', count', s')) \<and>
    master_ok s' r"
proof -
  obtain hi cw' count' s' where "retry_n (restart_measure x False + 1) (grant_convert_restart env r recover)
      (False, cw, count, s) = Some (Done (hi, cw', count', s'))" "pass_ok r x s s' False"
    using grant_convert_restart_ends [OF assms] by blast
  then show ?thesis by (auto simp: restart_measure_def pass_ok_def)
qed

theorem grant_pending_convert_ends_witness:
  "\<exists>hi cw' count' s'. retry_n 2 (grant_convert_restart env0 0 False) (False, False, 0, ls0) =
    Some (Done (hi, cw', count', s')) \<and> master_ok s' 0"
proof -
  have "res_convertqueue rsb0 = []" by (simp add: sample_defs)
  with grant_pending_convert_ends [OF ls0_ok, of rsb0 env0 False False 0] show ?thesis
    by (simp add: numeral_2_eq_2)
qed

text \<open>C13: \<open>grant_pending_locks\<close> returns, keeps the invariant, changes only the resource and the
  locks that waited on it, and takes no lock off the granted queue.\<close>

theorem grant_pending_locks_correct:
  assumes "master_ok s r" and "ls_rsbs s r = Some x"
  shows "\<exists>count' s' x'. grant_pending_locks env r count s = Some (count', s') \<and> master_ok s' r \<and>
    only r (set (res_convertqueue x) \<union> set (res_waitqueue x)) s s' \<and> ls_rsbs s' r = Some x' \<and>
    set (res_convertqueue x') \<subseteq> set (res_convertqueue x) \<and>
    set (res_waitqueue x') \<subseteq> set (res_waitqueue x) \<and> set (res_grantqueue x) \<subseteq> set (res_grantqueue x')"
  using grant_pending_locks_keeps [OF assms, of env count] by (auto simp: pass_ok_def)

theorem grant_pending_locks_correct_witness:
  "\<exists>count' s' x'. grant_pending_locks env0 0 0 ls0 = Some (count', s') \<and> master_ok s' 0 \<and>
    ls_rsbs s' 0 = Some x' \<and> {1, 2} \<subseteq> set (res_grantqueue x')"
  using grant_pending_locks_correct [OF ls0_ok, of rsb0 env0 0] by (auto simp: rsb0_def rsb_of_def)

section \<open>The calls\<close>





end
