(* ===== verification/Receive.thy ===== *)
theory Receive
  imports Requests
begin

text \<open>
  Messages from other nodes: \<open>dlm_receive_buffer\<close>, the dispatch in \<open>_receive_message\<close>, and one
  handler per message type, with the early return and the error reply of each. A message
  shorter than a message header makes the code use a negative length as a size: \<open>None\<close>.
\<close>

section \<open>What a handler takes from the message\<close>

definition receive_flags :: "dlm_message \<Rightarrow> dlm_lkb \<Rightarrow> dlm_lkb" where
  "receive_flags ms lkb =
     dlm_set_dflags_val (m_flags ms)
       (dlm_set_sbflags_val (m_sbflags ms) (lkb\<lparr>lkb_exflags := m_exflags ms\<rparr>))"

text \<open>The lock's value block, allocated when it has none; still none is out of memory.\<close>

definition lkb_lvb :: "dlm_env \<Rightarrow> lkid \<Rightarrow> dlm_ls \<Rightarrow> (bufp option \<times> dlm_ls) option" where
  "lkb_lvb env lkb s = do {
     l \<leftarrow> ls_lkbidr s lkb;
     (case lkb_lvbptr l of
        Some p \<Rightarrow> Some (Some p, s)
      | None \<Rightarrow> do {
          let (p, s) = dlm_allocate_lvb env s;
          s \<leftarrow> upd_lkb lkb (\<lambda>l. l\<lparr>lkb_lvbptr := p\<rparr>) s;
          Some (p, s)
        })
   }"

definition receive_lvb :: "dlm_env \<Rightarrow> lkid \<Rightarrow> dlm_message \<Rightarrow> dlm_ls \<Rightarrow> (int \<times> dlm_ls) option" where
  "receive_lvb env lkb ms s = do {
     l \<leftarrow> ls_lkbidr s lkb;
     if \<not> has_flag (lkb_exflags l) DLM_LKF_VALBLK then Some (0, s)
     else do {
       (p, s) \<leftarrow> lkb_lvb env lkb s;
       (case p of
          None \<Rightarrow> Some (-ENOMEM, s)
        | Some p \<Rightarrow> do {
            let len = min (receive_extralen ms) (int (ls_lvblen s));
            _ \<leftarrow> dlm_assert (0 \<le> len);
            Some (0, copy_lvb p (m_extra ms) (nat len) s)
          })
     }
   }"

definition receive_request_args ::
  "dlm_env \<Rightarrow> lkid \<Rightarrow> dlm_message \<Rightarrow> dlm_ls \<Rightarrow> (int \<times> dlm_ls) option" where
  "receive_request_args env lkb ms s = do {
     s \<leftarrow> upd_lkb lkb (\<lambda>l. l\<lparr>lkb_nodeid := s32 (h_nodeid ms), lkb_ownpid := s32 (m_pid ms),
            lkb_remid := m_lkid ms, lkb_grmode := DLM_LOCK_IV, lkb_rqmode := s8 (m_rqmode ms),
            lkb_bastfn := (if has_flag (m_asts ms) DLM_CB_BAST then Some (fake_bastfn env) else None),
            lkb_astfn := (if has_flag (m_asts ms) DLM_CB_CAST then Some (fake_astfn env) else None)\<rparr>) s;
     l \<leftarrow> ls_lkbidr s lkb;
     if has_flag (lkb_exflags l) DLM_LKF_VALBLK then do {
       let (p, s) = dlm_allocate_lvb env s;
       s \<leftarrow> upd_lkb lkb (\<lambda>l. l\<lparr>lkb_lvbptr := p\<rparr>) s;
       Some (if p = None then -ENOMEM else 0, s)
     } else Some (0, s)
   }"

definition receive_convert_args ::
  "dlm_env \<Rightarrow> lkid \<Rightarrow> dlm_message \<Rightarrow> dlm_ls \<Rightarrow> (int \<times> dlm_ls) option" where
  "receive_convert_args env lkb ms s = do {
     l \<leftarrow> ls_lkbidr s lkb;
     if lkb_status l \<noteq> DLM_LKSTS_GRANTED then Some (-EBUSY, s)
     else do {
       (error, s) \<leftarrow> receive_lvb env lkb ms s;
       if error \<noteq> 0 then Some (-ENOMEM, s)
       else do {
         s \<leftarrow> upd_lkb lkb (\<lambda>l. l\<lparr>lkb_rqmode := s8 (m_rqmode ms), lkb_lvbseq := m_lvbseq ms\<rparr>) s;
         Some (0, s)
       }
     }
   }"

definition receive_unlock_args ::
  "dlm_env \<Rightarrow> lkid \<Rightarrow> dlm_message \<Rightarrow> dlm_ls \<Rightarrow> (int \<times> dlm_ls) option" where
  "receive_unlock_args env lkb ms s = do {
     (error, s) \<leftarrow> receive_lvb env lkb ms s;
     Some (if error \<noteq> 0 then -ENOMEM else 0, s)
   }"

definition setup_local_lkb :: "dlm_message \<Rightarrow> dlm_ls \<Rightarrow> dlm_ls" where
  "setup_local_lkb ms s = s\<lparr>ls_local_lkb := (ls_local_lkb s)
     \<lparr>lkb_nodeid := s32 (h_nodeid ms), lkb_remid := m_lkid ms\<rparr>\<rparr>"

definition validate_message :: "dlm_lkb \<Rightarrow> dlm_message \<Rightarrow> int" where
  "validate_message lkb ms =
     (let from_nodeid = s32 (h_nodeid ms) in
      if bit (m_flags ms) DLM_DFL_USER_BIT \<and> \<not> bit (lkb_dflags lkb) DLM_DFL_USER_BIT then -EINVAL
      else if m_type ms \<in> {DLM_MSG_CONVERT, DLM_MSG_UNLOCK, DLM_MSG_CANCEL} then
        (if \<not> is_master_copy lkb \<or> lkb_nodeid lkb \<noteq> from_nodeid then -EINVAL else 0)
      else if m_type ms \<in> {DLM_MSG_CONVERT_REPLY, DLM_MSG_UNLOCK_REPLY, DLM_MSG_CANCEL_REPLY,
                           DLM_MSG_GRANT, DLM_MSG_BAST} then
        (if \<not> is_process_copy lkb \<or> lkb_nodeid lkb \<noteq> from_nodeid then -EINVAL else 0)
      else if m_type ms = DLM_MSG_REQUEST_REPLY then
        (if \<not> is_process_copy lkb then -EINVAL
         else if lkb_nodeid lkb \<noteq> -1 \<and> lkb_nodeid lkb \<noteq> from_nodeid then -EINVAL else 0)
      else -EINVAL)"

section \<open>Requests, on the master\<close>

text \<open>The label \<open>fail\<close> of the request handlers.\<close>

definition receive_fail ::
  "dlm_env \<Rightarrow> dlm_message \<Rightarrow> int \<Rightarrow> int \<Rightarrow> dlm_ls \<Rightarrow> int \<times> dlm_ls" where
  "receive_fail env ms mstype error s = (
     let s = setup_local_lkb ms s
     in (error, snd (send_common_reply env (ls_local_rsb s) (ls_local_lkb s) mstype error s)))"

text \<open>The label \<open>out\<close>.\<close>

definition receive_out :: "dlm_env \<Rightarrow> rsbp \<Rightarrow> lkid \<Rightarrow> dlm_ls \<Rightarrow> (int \<times> dlm_ls) option" where
  "receive_out env r lkb s = do {
     s \<leftarrow> put_rsb env r s;
     (_, s) \<leftarrow> dlm_put_lkb env lkb s;
     Some (0, s)
   }"

definition receive_request :: "dlm_env \<Rightarrow> dlm_message \<Rightarrow> dlm_ls \<Rightarrow> (int \<times> dlm_ls) option" where
  "receive_request env ms s = do {
     let from_nodeid = s32 (h_nodeid ms);
     let (error, lkb, s) = create_lkb env s;
     if error \<noteq> 0 then Some (receive_fail env ms DLM_MSG_REQUEST_REPLY error s)
     else do {
       lkb \<leftarrow> lkb;
       s \<leftarrow> upd_lkb lkb (receive_flags ms) s;
       s \<leftarrow> upd_lkb lkb (set_iflag DLM_IFL_MSTCPY_BIT) s;
       (error, s) \<leftarrow> receive_request_args env lkb ms s;
       if error \<noteq> 0 then do {
         (_, s) \<leftarrow> us_put_lkb env lkb s;
         Some (receive_fail env ms DLM_MSG_REQUEST_REPLY error s)
       }
       else do {
         let namelen = receive_extralen ms;
         _ \<leftarrow> dlm_assert (0 \<le> namelen);
         (error, r, s) \<leftarrow> find_rsb env (m_extra ms) (nat namelen) from_nodeid R_RECEIVE_REQUEST s;
         if error \<noteq> 0 then do {
           (_, s) \<leftarrow> us_put_lkb env lkb s;
           Some (receive_fail env ms DLM_MSG_REQUEST_REPLY error s)
         }
         else do {
           r \<leftarrow> r;
           x \<leftarrow> ls_rsbs s r;
           (error, s) \<leftarrow> (if res_master_nodeid x \<noteq> dlm_our_nodeid env
                         then validate_master_nodeid env r from_nodeid s else Some (0, s));
           if error \<noteq> 0 then do {
             s \<leftarrow> put_rsb env r s;
             (_, s) \<leftarrow> us_put_lkb env lkb s;
             Some (receive_fail env ms DLM_MSG_REQUEST_REPLY error s)
           }
           else do {
             s \<leftarrow> attach_lkb r lkb s;
             (error, s) \<leftarrow> do_request env r lkb s;
             s \<leftarrow> send_request_reply env r lkb error s;
             s \<leftarrow> do_request_effects env r lkb error s;
             s \<leftarrow> put_rsb env r s;
             s \<leftarrow> (if error \<noteq> 0 \<and> error \<noteq> -EINPROGRESS
                  then map_option snd (dlm_put_lkb env lkb s) else Some s);
             Some (0, s)
           }
         }
       }
     }
   }"

definition receive_convert :: "dlm_env \<Rightarrow> dlm_message \<Rightarrow> dlm_ls \<Rightarrow> (int \<times> dlm_ls) option" where
  "receive_convert env ms s =
     (let lkb = m_remid ms in
      case find_lkb lkb s of
        None \<Rightarrow> Some (receive_fail env ms DLM_MSG_CONVERT_REPLY (-ENOENT) s)
      | Some s \<Rightarrow> do {
          l \<leftarrow> ls_lkbidr s lkb;
          if lkb_remid l \<noteq> m_lkid ms then do {
            (_, s) \<leftarrow> dlm_put_lkb env lkb s;
            Some (receive_fail env ms DLM_MSG_CONVERT_REPLY (-ENOENT) s)
          }
          else do {
            r \<leftarrow> lkb_resource l;
            s \<leftarrow> hold_rsb r s;
            if validate_message l ms \<noteq> 0 then receive_out env r lkb s
            else do {
              s \<leftarrow> upd_lkb lkb (receive_flags ms) s;
              (error, s) \<leftarrow> receive_convert_args env lkb ms s;
              if error \<noteq> 0 then do {
                s \<leftarrow> send_convert_reply env r lkb error s;
                receive_out env r lkb s
              }
              else do {
                l \<leftarrow> ls_lkbidr s lkb;
                let reply = (\<not> down_conversion l);
                (error, s) \<leftarrow> do_convert env r lkb s;
                s \<leftarrow> (if reply then send_convert_reply env r lkb error s else Some s);
                s \<leftarrow> do_convert_effects env r lkb error s;
                receive_out env r lkb s
              }
            }
          }
        })"

definition receive_unlock :: "dlm_env \<Rightarrow> dlm_message \<Rightarrow> dlm_ls \<Rightarrow> (int \<times> dlm_ls) option" where
  "receive_unlock env ms s =
     (let lkb = m_remid ms in
      case find_lkb lkb s of
        None \<Rightarrow> Some (receive_fail env ms DLM_MSG_UNLOCK_REPLY (-ENOENT) s)
      | Some s \<Rightarrow> do {
          l \<leftarrow> ls_lkbidr s lkb;
          if lkb_remid l \<noteq> m_lkid ms then do {
            (_, s) \<leftarrow> dlm_put_lkb env lkb s;
            Some (receive_fail env ms DLM_MSG_UNLOCK_REPLY (-ENOENT) s)
          }
          else do {
            r \<leftarrow> lkb_resource l;
            s \<leftarrow> hold_rsb r s;
            if validate_message l ms \<noteq> 0 then receive_out env r lkb s
            else do {
              s \<leftarrow> upd_lkb lkb (receive_flags ms) s;
              (error, s) \<leftarrow> receive_unlock_args env lkb ms s;
              if error \<noteq> 0 then do {
                s \<leftarrow> send_unlock_reply env r lkb error s;
                receive_out env r lkb s
              }
              else do {
                (error, s) \<leftarrow> do_unlock env r lkb s;
                s \<leftarrow> send_unlock_reply env r lkb error s;
                s \<leftarrow> do_unlock_effects env r lkb error s;
                receive_out env r lkb s
              }
            }
          }
        })"

definition receive_cancel :: "dlm_env \<Rightarrow> dlm_message \<Rightarrow> dlm_ls \<Rightarrow> (int \<times> dlm_ls) option" where
  "receive_cancel env ms s =
     (let lkb = m_remid ms in
      case find_lkb lkb s of
        None \<Rightarrow> Some (receive_fail env ms DLM_MSG_CANCEL_REPLY (-ENOENT) s)
      | Some s \<Rightarrow> do {
          s \<leftarrow> upd_lkb lkb (receive_flags ms) s;
          l \<leftarrow> ls_lkbidr s lkb;
          r \<leftarrow> lkb_resource l;
          s \<leftarrow> hold_rsb r s;
          if validate_message l ms \<noteq> 0 then receive_out env r lkb s
          else do {
            (error, s) \<leftarrow> do_cancel env r lkb s;
            s \<leftarrow> send_cancel_reply env r lkb error s;
            s \<leftarrow> do_cancel_effects env r lkb error s;
            receive_out env r lkb s
          }
        })"

section \<open>Grants and blocking callbacks, on the holder\<close>

text \<open>The frame of the handlers that only look a lock up: find it, hold its resource, check
  the message, act, release.\<close>

definition with_lkb ::
  "dlm_env \<Rightarrow> dlm_message \<Rightarrow> (rsbp \<Rightarrow> lkid \<Rightarrow> dlm_ls \<Rightarrow> dlm_ls option) \<Rightarrow> dlm_ls \<Rightarrow>
   (int \<times> dlm_ls) option"
where
  "with_lkb env ms body s =
     (let lkb = m_remid ms in
      case find_lkb lkb s of
        None \<Rightarrow> Some (-ENOENT, s)
      | Some s \<Rightarrow> do {
          l \<leftarrow> ls_lkbidr s lkb;
          r \<leftarrow> lkb_resource l;
          s \<leftarrow> hold_rsb r s;
          s \<leftarrow> (if validate_message l ms \<noteq> 0 then Some s else body r lkb s);
          receive_out env r lkb s
        })"

definition altmode_if :: "dlm_message \<Rightarrow> dlm_lkb \<Rightarrow> dlm_lkb" where
  "altmode_if ms l = (if is_altmode l then munge_altmode ms l else l)"

definition receive_grant :: "dlm_env \<Rightarrow> dlm_message \<Rightarrow> dlm_ls \<Rightarrow> (int \<times> dlm_ls) option" where
  "receive_grant env ms = with_lkb env ms (\<lambda>r lkb s. do {
     s \<leftarrow> upd_lkb lkb (receive_flags_reply ms False) s;
     s \<leftarrow> upd_lkb lkb (altmode_if ms) s;
     s \<leftarrow> grant_lock_pc env r lkb ms s;
     queue_cast lkb 0 s
   })"

definition receive_bast :: "dlm_env \<Rightarrow> dlm_message \<Rightarrow> dlm_ls \<Rightarrow> (int \<times> dlm_ls) option" where
  "receive_bast env ms = with_lkb env ms (\<lambda>r lkb s. do {
     s \<leftarrow> queue_bast env r lkb (s32 (m_bastmode ms)) s;
     upd_lkb lkb (\<lambda>l. l\<lparr>lkb_highbast := s8 (m_bastmode ms)\<rparr>) s
   })"

section \<open>Replies, on the requesting node\<close>

text \<open>The switch on the result in \<open>receive_request_reply\<close>.\<close>

definition request_reply_result ::
  "dlm_env \<Rightarrow> rsbp \<Rightarrow> lkid \<Rightarrow> dlm_message \<Rightarrow> int \<Rightarrow> dlm_ls \<Rightarrow> dlm_ls option" where
  "request_reply_result env r lkb ms result s =
     (if result = -EAGAIN then do {
        s \<leftarrow> queue_cast lkb (-EAGAIN) s;
        s \<leftarrow> confirm_master env r (-EAGAIN) s;
        unhold_lkb lkb s
      }
      else if result = -EINPROGRESS \<or> result = 0 then do {
        s \<leftarrow> upd_lkb lkb (\<lambda>l. (receive_flags_reply ms False l)\<lparr>lkb_remid := m_lkid ms\<rparr>) s;
        s \<leftarrow> upd_lkb lkb (altmode_if ms) s;
        s \<leftarrow> (if result \<noteq> 0 then add_lkb env r lkb DLM_LKSTS_WAITING s
             else do { s \<leftarrow> grant_lock_pc env r lkb ms s; queue_cast lkb 0 s });
        confirm_master env r result s
      }
      else if result = -EBADR \<or> result = -ENOTBLK then do {
        x \<leftarrow> ls_rsbs s r;
        s \<leftarrow> (if res_dir_nodeid x \<noteq> dlm_our_nodeid env \<and> res_master_nodeid x \<noteq> dlm_our_nodeid env
             then do {
               s \<leftarrow> upd_rsb r (\<lambda>x. x\<lparr>res_master_nodeid := 0, res_nodeid := -1\<rparr>) s;
               upd_lkb lkb (\<lambda>l. l\<lparr>lkb_nodeid := -1\<rparr>) s
             } else Some s);
        l \<leftarrow> ls_lkbidr s lkb;
        if is_overlap l then do {
          s \<leftarrow> queue_cast_overlap lkb s;
          s \<leftarrow> confirm_master env r result s;
          unhold_lkb lkb s
        }
        else do {
          (_, s) \<leftarrow> us_request_lock env r lkb s;
          x \<leftarrow> ls_rsbs s r;
          if res_master_nodeid x = dlm_our_nodeid env then confirm_master env r 0 s else Some s
        }
      }
      else Some s)"

text \<open>What \<open>receive_request_reply\<close> does about an unlock or cancel issued meanwhile.\<close>

definition request_reply_overlap ::
  "dlm_env \<Rightarrow> rsbp \<Rightarrow> lkid \<Rightarrow> int \<Rightarrow> dlm_ls \<Rightarrow> dlm_ls option" where
  "request_reply_overlap env r lkb result s = do {
     l \<leftarrow> ls_lkbidr s lkb;
     s \<leftarrow> upd_lkb lkb (\<lambda>l. clear_iflag DLM_IFL_OVERLAP_CANCEL_BIT
            (clear_iflag DLM_IFL_OVERLAP_UNLOCK_BIT l)) s;
     if (result = 0 \<or> result = -EINPROGRESS) \<and> is_overlap_unlock l
     then map_option snd (send_unlock env r lkb s)
     else if result = -EINPROGRESS \<and> is_overlap_cancel l
     then map_option snd (send_cancel env r lkb s)
     else Some s
   }"

definition receive_request_reply :: "dlm_env \<Rightarrow> dlm_message \<Rightarrow> dlm_ls \<Rightarrow> (int \<times> dlm_ls) option" where
  "receive_request_reply env ms = with_lkb env ms (\<lambda>r lkb s. do {
     let from_nodeid = s32 (h_nodeid ms);
     l \<leftarrow> ls_lkbidr s lkb;
     let mstype = lkb_wait_type l;
     (error, s) \<leftarrow> remove_from_waiters lkb DLM_MSG_REQUEST_REPLY s;
     if error \<noteq> 0 then Some s
     else do {
       s \<leftarrow> (if mstype = DLM_MSG_LOOKUP then do {
              s \<leftarrow> upd_rsb r (\<lambda>x. x\<lparr>res_master_nodeid := from_nodeid, res_nodeid := from_nodeid\<rparr>) s;
              upd_lkb lkb (\<lambda>l. l\<lparr>lkb_nodeid := from_nodeid\<rparr>) s
            } else Some s);
       let result = from_dlm_errno env (s32 (m_result ms));
       s \<leftarrow> request_reply_result env r lkb ms result s;
       request_reply_overlap env r lkb result s
     }
   })"

text \<open>The frame of \<open>_receive_convert_reply\<close>, \<open>_receive_unlock_reply\<close> and
  \<open>_receive_cancel_reply\<close>, also used with a reply that recovery fakes.\<close>

definition receive_reply ::
  "dlm_env \<Rightarrow> lkid \<Rightarrow> dlm_message \<Rightarrow> (rsbp \<Rightarrow> dlm_ls \<Rightarrow> dlm_ls option) \<Rightarrow> dlm_ls \<Rightarrow> dlm_ls option"
where
  "receive_reply env lkb ms body s = do {
     l \<leftarrow> ls_lkbidr s lkb;
     r \<leftarrow> lkb_resource l;
     s \<leftarrow> hold_rsb r s;
     s \<leftarrow> (if validate_message l ms \<noteq> 0 then Some s
          else do {
            (error, s) \<leftarrow> remove_from_waiters_ms lkb ms s;
            if error \<noteq> 0 then Some s else body r s
          });
     put_rsb env r s
   }"

definition us_receive_convert_reply ::
  "dlm_env \<Rightarrow> lkid \<Rightarrow> dlm_message \<Rightarrow> bool \<Rightarrow> dlm_ls \<Rightarrow> dlm_ls option" where
  "us_receive_convert_reply env lkb ms local =
     receive_reply env lkb ms (\<lambda>r. us_us_receive_convert_reply env r lkb ms local)"

definition us_receive_unlock_reply ::
  "dlm_env \<Rightarrow> lkid \<Rightarrow> dlm_message \<Rightarrow> bool \<Rightarrow> dlm_ls \<Rightarrow> dlm_ls option" where
  "us_receive_unlock_reply env lkb ms local = receive_reply env lkb ms (\<lambda>r s.
     if from_dlm_errno env (s32 (m_result ms)) = -DLM_EUNLOCK then do {
       s \<leftarrow> upd_lkb lkb (receive_flags_reply ms local) s;
       s \<leftarrow> remove_lock_pc r lkb s;
       queue_cast lkb (-DLM_EUNLOCK) s
     } else Some s)"

definition us_receive_cancel_reply ::
  "dlm_env \<Rightarrow> lkid \<Rightarrow> dlm_message \<Rightarrow> bool \<Rightarrow> dlm_ls \<Rightarrow> dlm_ls option" where
  "us_receive_cancel_reply env lkb ms local = receive_reply env lkb ms (\<lambda>r s.
     if from_dlm_errno env (s32 (m_result ms)) = -DLM_ECANCEL then do {
       s \<leftarrow> upd_lkb lkb (receive_flags_reply ms local) s;
       (_, s) \<leftarrow> revert_lock_pc env r lkb s;
       queue_cast lkb (-DLM_ECANCEL) s
     } else Some s)"

definition found_reply ::
  "dlm_env \<Rightarrow> dlm_message \<Rightarrow> (lkid \<Rightarrow> dlm_message \<Rightarrow> bool \<Rightarrow> dlm_ls \<Rightarrow> dlm_ls option) \<Rightarrow> dlm_ls \<Rightarrow>
   (int \<times> dlm_ls) option"
where
  "found_reply env ms handler s =
     (case find_lkb (m_remid ms) s of
        None \<Rightarrow> Some (-ENOENT, s)
      | Some s \<Rightarrow> do {
          s \<leftarrow> handler (m_remid ms) ms False s;
          (_, s) \<leftarrow> dlm_put_lkb env (m_remid ms) s;
          Some (0, s)
        })"

definition receive_convert_reply :: "dlm_env \<Rightarrow> dlm_message \<Rightarrow> dlm_ls \<Rightarrow> (int \<times> dlm_ls) option" where
  "receive_convert_reply env ms = found_reply env ms (us_receive_convert_reply env)"

definition receive_unlock_reply :: "dlm_env \<Rightarrow> dlm_message \<Rightarrow> dlm_ls \<Rightarrow> (int \<times> dlm_ls) option" where
  "receive_unlock_reply env ms = found_reply env ms (us_receive_unlock_reply env)"

definition receive_cancel_reply :: "dlm_env \<Rightarrow> dlm_message \<Rightarrow> dlm_ls \<Rightarrow> (int \<times> dlm_ls) option" where
  "receive_cancel_reply env ms = found_reply env ms (us_receive_cancel_reply env)"

section \<open>The directory\<close>

definition receive_lookup :: "dlm_env \<Rightarrow> dlm_message \<Rightarrow> dlm_ls \<Rightarrow> dlm_ls option" where
  "receive_lookup env ms s = do {
     let from_nodeid = s32 (h_nodeid ms);
     let len = receive_extralen ms;
     _ \<leftarrow> dlm_assert (0 \<le> len);
     (error, ret, _, s) \<leftarrow> dlm_master_lookup env from_nodeid (m_extra ms) (nat len) 0 s;
     let ret_nodeid = (case ret of Some n \<Rightarrow> n | None \<Rightarrow> uninit_int env);
     if error = 0 \<and> ret_nodeid = dlm_our_nodeid env
     then map_option snd (receive_request env ms s)
     else Some (snd (send_lookup_reply env ms ret_nodeid error s))
   }"

definition receive_remove :: "dlm_env \<Rightarrow> dlm_message \<Rightarrow> dlm_ls \<Rightarrow> dlm_ls option" where
  "receive_remove env ms s = (
     let from_nodeid = s32 (h_nodeid ms); len = receive_extralen ms
     in if len > int DLM_RESNAME_MAXLEN then Some s
        else if dlm_hash2nodeid env (m_hash ms) \<noteq> dlm_our_nodeid env then Some s
        else do {
          _ \<leftarrow> dlm_assert (0 \<le> len);
          let len = nat len;
          let name = memcpy (replicate 65 0) (m_extra ms) len;
          let b = bucket_of s (jhash env (take len name));
          t \<leftarrow> dlm_search_rsb_tree s (toss (ls_rsbtbl s b)) name len;
          (case t of
             None \<Rightarrow> do {
               _ \<leftarrow> dlm_search_rsb_tree s (keep (ls_rsbtbl s b)) name len;
               Some s
             }
           | Some r \<Rightarrow> do {
               x \<leftarrow> ls_rsbs s r;
               if res_master_nodeid x \<noteq> from_nodeid then Some s
               else do {
                 (last, s) \<leftarrow> kref_put_rsb r s;
                 if last then do {
                   _ \<leftarrow> kill_rsb r s;
                   Some (dlm_free_rsb r (erase_toss env b r s))
                 } else Some s
               }
             })
        })"

definition receive_lookup_reply :: "dlm_env \<Rightarrow> dlm_message \<Rightarrow> dlm_ls \<Rightarrow> dlm_ls option" where
  "receive_lookup_reply env ms s =
     (let lkb = m_lkid ms in
      case find_lkb lkb s of
        None \<Rightarrow> Some s
      | Some s \<Rightarrow> do {
          l \<leftarrow> ls_lkbidr s lkb;
          r \<leftarrow> lkb_resource l;
          s \<leftarrow> hold_rsb r s;
          (error, s) \<leftarrow> remove_from_waiters lkb DLM_MSG_LOOKUP_REPLY s;
          if error \<noteq> 0 then map_option snd (receive_out env r lkb s)
          else do {
            let ret_nodeid = s32 (m_nodeid ms);
            s \<leftarrow> (if ret_nodeid = dlm_our_nodeid env
                 then upd_rsb r (\<lambda>x. x\<lparr>res_master_nodeid := ret_nodeid, res_nodeid := 0,
                        res_first_lkid := 0\<rparr>) s
                 else if ret_nodeid = -1 then do {
                   s \<leftarrow> upd_rsb r (\<lambda>x. x\<lparr>res_master_nodeid := 0, res_nodeid := -1\<rparr>) s;
                   upd_lkb lkb (\<lambda>l. l\<lparr>lkb_nodeid := -1\<rparr>) s
                 }
                 else upd_rsb r (\<lambda>x. x\<lparr>res_master_nodeid := ret_nodeid,
                        res_nodeid := ret_nodeid\<rparr>) s);
            l \<leftarrow> ls_lkbidr s lkb;
            s \<leftarrow> (if is_overlap l then do {
                   s \<leftarrow> queue_cast_overlap lkb s;
                   unhold_lkb lkb s
                 } else map_option snd (us_request_lock env r lkb s));
            s \<leftarrow> (if ret_nodeid = dlm_our_nodeid env then process_lookup_list env r s else Some s);
            map_option snd (receive_out env r lkb s)
          }
        })"

section \<open>Self-owner notifications\<close>

definition receive_notify :: "dlm_env \<Rightarrow> dlm_message \<Rightarrow> dlm_ls \<Rightarrow> dlm_ls option" where
  "receive_notify env ms s = do {
     let len = receive_extralen ms;
     _ \<leftarrow> dlm_assert (0 \<le> len);
     (error, ret, s) \<leftarrow> dlm_master_notify env (s32 (h_nodeid ms)) (m_extra ms) (nat len) s;
     let ret_nodeid = (case ret of Some n \<Rightarrow> n | None \<Rightarrow> uninit_int env);
     Some (snd (send_notify_reply env ms ret_nodeid error s))
   }"

text \<open>\<open>list_del\<close> of an entry on no list leaves it poisoned; of a poisoned entry it faults.\<close>

definition receive_notify_reply :: "dlm_env \<Rightarrow> dlm_message \<Rightarrow> dlm_ls \<Rightarrow> dlm_ls option" where
  "receive_notify_reply env ms s =
     (let lkb = m_lkid ms in
      case find_lkb lkb s of
        None \<Rightarrow> Some s
      | Some s \<Rightarrow> do {
          l \<leftarrow> ls_lkbidr s lkb;
          let parent = lkb_parent_lkid l;
          if parent \<noteq> 0 \<and> ls_lkbidr s parent = None then Some s
          else do {
            s \<leftarrow> (if parent \<noteq> 0 then do {
                   s \<leftarrow> find_lkb parent s;
                   _ \<leftarrow> dlm_assert (lkb_parent_link l \<noteq> Poisoned);
                   s \<leftarrow> upd_lkb lkb (\<lambda>l. l\<lparr>lkb_parent_link := Poisoned\<rparr>) s;
                   s \<leftarrow> upd_lkb parent (\<lambda>p. p\<lparr>lkb_child_waiters := remove1 lkb (lkb_child_waiters p),
                          lkb_total_children := lkb_total_children p - 1\<rparr>) s;
                   (_, s) \<leftarrow> dlm_put_lkb env parent s;
                   Some s
                 } else Some s);
            (_, s) \<leftarrow> remove_from_waiters lkb DLM_MSG_NOTIFY_REPLY s;
            (_, s) \<leftarrow> dlm_put_lkb env lkb s;
            Some s
          }
        })"

section \<open>Purging orphans\<close>

definition unlock_proc_lock :: "dlm_env \<Rightarrow> lkid \<Rightarrow> dlm_ls \<Rightarrow> (int \<times> dlm_ls) option" where
  "unlock_proc_lock env lkb s = do {
     l \<leftarrow> ls_lkbidr s lkb;
     let args = snd (set_unlock_args (DLM_LKF_FORCEUNLOCK OR DLM_LKF_IVVALBLK) (lkb_astparam l));
     (error, s) \<leftarrow> unlock_lock env lkb args s;
     Some (if error = -DLM_EUNLOCK then 0 else error, s)
   }"

fun purge_orphans :: "dlm_env \<Rightarrow> int \<Rightarrow> lkid list \<Rightarrow> dlm_ls \<Rightarrow> dlm_ls option" where
  "purge_orphans env pid [] s = Some s"
| "purge_orphans env pid (lkb # q) s = do {
     l \<leftarrow> ls_lkbidr s lkb;
     if pid \<noteq> 0 \<and> lkb_ownpid l \<noteq> pid then purge_orphans env pid q s
     else do {
       (_, s) \<leftarrow> unlock_proc_lock env lkb s;
       (_, s) \<leftarrow> dlm_put_lkb env lkb (s\<lparr>ls_orphans := remove1 lkb (ls_orphans s)\<rparr>);
       purge_orphans env pid q s
     }
   }"

definition do_purge :: "dlm_env \<Rightarrow> int \<Rightarrow> int \<Rightarrow> dlm_ls \<Rightarrow> dlm_ls option" where
  "do_purge env nodeid pid s = purge_orphans env pid (ls_orphans s) s"

definition receive_purge :: "dlm_env \<Rightarrow> dlm_message \<Rightarrow> dlm_ls \<Rightarrow> dlm_ls option" where
  "receive_purge env ms s = do_purge env (s32 (m_nodeid ms)) (s32 (m_pid ms)) s"

section \<open>Dispatch\<close>

definition us_receive_message :: "dlm_env \<Rightarrow> dlm_message \<Rightarrow> dlm_ls \<Rightarrow> dlm_ls option" where
  "us_receive_message env ms s =
     (if \<not> dlm_is_member env (s32 (h_nodeid ms)) then Some s
      else if m_type ms = DLM_MSG_REQUEST then map_option snd (receive_request env ms s)
      else if m_type ms = DLM_MSG_CONVERT then map_option snd (receive_convert env ms s)
      else if m_type ms = DLM_MSG_UNLOCK then map_option snd (receive_unlock env ms s)
      else if m_type ms = DLM_MSG_CANCEL then map_option snd (receive_cancel env ms s)
      else if m_type ms = DLM_MSG_REQUEST_REPLY then map_option snd (receive_request_reply env ms s)
      else if m_type ms = DLM_MSG_CONVERT_REPLY then map_option snd (receive_convert_reply env ms s)
      else if m_type ms = DLM_MSG_UNLOCK_REPLY then map_option snd (receive_unlock_reply env ms s)
      else if m_type ms = DLM_MSG_CANCEL_REPLY then map_option snd (receive_cancel_reply env ms s)
      else if m_type ms = DLM_MSG_GRANT then map_option snd (receive_grant env ms s)
      else if m_type ms = DLM_MSG_BAST then map_option snd (receive_bast env ms s)
      else if m_type ms = DLM_MSG_LOOKUP then receive_lookup env ms s
      else if m_type ms = DLM_MSG_REMOVE then receive_remove env ms s
      else if m_type ms = DLM_MSG_LOOKUP_REPLY then receive_lookup_reply env ms s
      else if m_type ms = DLM_MSG_PURGE then receive_purge env ms s
      else if m_type ms = DLM_MSG_NOTIFY then receive_notify env ms s
      else if m_type ms = DLM_MSG_NOTIFY_REPLY then receive_notify_reply env ms s
      else Some s)"

text \<open>\<open>dlm_wait_requestqueue\<close> returns only when no saved message is left.\<close>

definition dlm_receive_message :: "dlm_env \<Rightarrow> dlm_message \<Rightarrow> int \<Rightarrow> dlm_ls \<Rightarrow> dlm_ls option" where
  "dlm_receive_message env ms nodeid s =
     (if dlm_locking_stopped s then
        (if ls_generation s = 0 then Some s
         else Some (s\<lparr>ls_requestqueue := ls_requestqueue s @ [(nodeid, ms)]\<rparr>))
      else do {
        _ \<leftarrow> dlm_assert (ls_requestqueue s = []);
        us_receive_message env ms s
      })"

definition dlm_receive_message_saved :: "dlm_env \<Rightarrow> dlm_message \<Rightarrow> dlm_ls \<Rightarrow> dlm_ls option" where
  "dlm_receive_message_saved env ms s = us_receive_message env ms s"

definition dlm_receive_buffer :: "dlm_env \<Rightarrow> dlm_message \<Rightarrow> int \<Rightarrow> dlm_ls \<Rightarrow> dlm_ls option" where
  "dlm_receive_buffer env p nodeid s =
     (if h_cmd p \<noteq> DLM_MSG_cmd \<and> h_cmd p \<noteq> DLM_RCOM_cmd then Some s
      else if s32 (h_nodeid p) \<noteq> nodeid then Some s
      else if h_lockspace p \<noteq> ls_global_id s then Some s
      else if h_cmd p = DLM_MSG_cmd then dlm_receive_message env p nodeid s
      else dlm_receive_rcom env p nodeid s)"

end
