(* ===== verification/Table_Properties.thy ===== *)
theory Table_Properties
  imports Locking_Properties Receive
begin

text \<open>
  The properties of the resource table and of the lists locks are on: the search trees with
  their duplicate check, the lookup of a resource, reference counts, the queue operations and
  the list of locks that wait for a reply; and two properties that show where the code does not
  do what it means to, the retry loop of \<open>dlm_master_notify\<close> and the order of the grant queue.
\<close>

section \<open>The trees of resources\<close>

text \<open>C22: \<open>rsb_insert\<close> refuses a resource whose name is in the tree, with \<open>-EEXIST\<close>; otherwise
  the tree is a search tree again, \<open>dlm_search_rsb_tree\<close> finds the new resource by its name, and
  every other name as before.\<close>

theorem rsb_insert_then_search:
  assumes "tree_env_ok env" and "tree_ok s t" and "rsb_key s r = Some k"
  shows "if \<exists>y\<in>set_tree t. rsb_key s y = Some k then rsb_insert env s r t = Some None
    else \<exists>t'. rsb_insert env s r t = Some (Some t') \<and> tree_ok s t' \<and> set_tree t' = insert r (set_tree t) \<and>
      dlm_search_rsb_tree s t' k 64 = Some (Some r) \<and>
      (\<forall>y k'. rsb_key s y = Some k' \<and> k' \<noteq> k \<longrightarrow> dlm_search_rsb_tree s t' k' 64 = dlm_search_rsb_tree s t k' 64)"
proof (cases "\<exists>y\<in>set_tree t. rsb_key s y = Some k")
  case True
  then show ?thesis using index.ins_dup [OF assms(2,3)] by auto
next
  case False
  then have new: "\<forall>y\<in>set_tree t. rsb_key s y \<noteq> Some k" by blast
  obtain t' where t': "rsb_insert env s r t = Some (Some t')" "tree_ok s t'" "set_tree t' = insert r (set_tree t)"
    using index.ins_new [OF assms new] by blast
  have "dlm_search_rsb_tree s t' k 64 = Some (Some r)"
    using index.search_ins [OF assms new t'(1)] by (simp add: search_key_def)
  moreover have "dlm_search_rsb_tree s t' k' 64 = dlm_search_rsb_tree s t k' 64"
    if "rsb_key s y = Some k'" "k' \<noteq> k" for y k'
    using index.search_ins_other [OF assms new t'(1) that] by (simp add: search_key_def)
  ultimately show ?thesis using False t' by auto
qed

definition named :: "u8 \<Rightarrow> dlm_rsb" where
  "named c = zero_rsb\<lparr>res_length := 1, res_name := c # replicate 64 0\<rparr>"

definition ls3 :: dlm_ls where
  "ls3 = ls_of (\<lambda>_. None) [0 \<mapsto> named 7, 1 \<mapsto> named 9]"

lemma ls3_key: "rsb_key ls3 0 = Some (7 # replicate 63 0)" "rsb_key ls3 1 = Some (9 # replicate 63 0)"
  by (simp_all add: rsb_key_def ls3_def ls_of_def named_def maxname_def memcpy_def)

lemma ls3_tree: "tree_ok ls3 (Node Leaf 1 Leaf)"
  using ls3_key by (simp add: tree_ok_def)

theorem rsb_insert_then_search_witness:
  "\<exists>t'. rsb_insert env0 ls3 0 (Node Leaf 1 Leaf) = Some (Some t') \<and>
    dlm_search_rsb_tree ls3 t' (7 # replicate 63 0) 64 = Some (Some 0)"
  using rsb_insert_then_search [OF _ ls3_tree ls3_key(1), of env0] env0_ok ls3_key(2)
  by (auto simp: env_ok_def)

section \<open>Looking up a resource\<close>



section \<open>References\<close>

text \<open>A reference taken by \<open>find_lkb\<close> is given back by \<open>dlm_put_lkb\<close>: the lock is not freed,
  and the state is what it was.\<close>

theorem find_lkb_put_lkb:
  assumes "ls_lkbidr s k = Some l" and "1 \<le> lkb_ref l" and "lkb_resource l \<noteq> None"
  shows "\<exists>s1. find_lkb k s = Some s1 \<and> dlm_put_lkb env k s1 = Some (False, s)"
  using find_put_lkb [OF assms(1,2)] assms by (simp add: find_lkb_def kref_get_lkb_def dlm_put_lkb_def)

theorem find_lkb_put_lkb_witness:
  "\<exists>s1. find_lkb 1 ls0 = Some s1 \<and> dlm_put_lkb env0 1 s1 = Some (False, ls0)"
  by (rule find_lkb_put_lkb [of ls0 1 lkb1]) (simp, (simp add: sample_defs)+)

section \<open>The queues\<close>

text \<open>\<open>move_lkb\<close> of a queued lock never crashes, leaves its reference count alone, and puts
  it on the queue of its new status, off the other two and once.\<close>

theorem move_lkb_correct:
  assumes "ls_lkbidr s k = Some l" and "2 \<le> lkb_ref l" and "ls_rsbs s r = Some x"
    and "distinct (rsb_queues x)" and "k \<in> set (rsb_queues x)"
    and "\<forall>j\<in>set (res_grantqueue x). ls_lkbidr s j \<noteq> None"
    and "st \<in> {DLM_LKSTS_WAITING, DLM_LKSTS_GRANTED, DLM_LKSTS_CONVERT}"
  shows "\<exists>s' x'. move_lkb env r k st s = Some s' \<and>
     ls_lkbidr s' = (ls_lkbidr s)(k \<mapsto> l\<lparr>lkb_timestamp := ktime env, lkb_status := st\<rparr>) \<and>
     ls_rsbs s' = (ls_rsbs s)(r \<mapsto> x') \<and> distinct (rsb_queues x') \<and>
     set (res_grantqueue x') = (if st = DLM_LKSTS_GRANTED then insert k else (\<lambda>A. A)) (set (res_grantqueue x) - {k}) \<and>
     set (res_convertqueue x') = (if st = DLM_LKSTS_CONVERT then insert k else (\<lambda>A. A)) (set (res_convertqueue x) - {k}) \<and>
     set (res_waitqueue x') = (if st = DLM_LKSTS_WAITING then insert k else (\<lambda>A. A)) (set (res_waitqueue x) - {k})"
  using move_lkb_spec [OF assms, of env] by (fastforce simp: placed_def)

theorem move_lkb_correct_witness:
  "\<exists>s' x'. move_lkb env0 0 1 DLM_LKSTS_CONVERT ls0 = Some s' \<and> ls_rsbs s' = [0 \<mapsto> x'] \<and>
    set (res_grantqueue x') = {2} \<and> set (res_convertqueue x') = {1}"
proof -
  have "distinct (rsb_queues rsb0)" "1 \<in> set (rsb_queues rsb0)" "2 \<le> lkb_ref lkb1"
    "set (res_grantqueue rsb0) = {1, 2}" "set (res_convertqueue rsb0) = {}"
    by (auto simp: sample_defs rsb_queues_def)
  with move_lkb_correct [of ls0 1 lkb1 0 rsb0 DLM_LKSTS_CONVERT env0] show ?thesis
    by (auto simp: insert_Diff_if)
qed

text \<open>\<open>lkb_add_ordered\<close> compares requested modes, and a granted lock that is not being converted
  requests none: each lock that is granted goes in front of them all, whatever its mode. The
  comment in \<open>add_lkb\<close> says the granted locks are kept in the order of their granted modes.\<close>

theorem grant_queue_not_ordered:
  assumes "\<forall>j\<in>set q. \<exists>l. ls_lkbidr s j = Some l \<and> lkb_rqmode l = DLM_LOCK_IV" and "DLM_LOCK_NL \<le> m"
  shows "lkb_add_ordered s k q m = Some (k # q)"
  using assms by (cases q) auto

theorem grant_queue_not_ordered_witness:
  "lkb_add_ordered ls0 3 [1, 2] DLM_LOCK_NL = Some [3, 1, 2] \<and> lkb_grmode lkb1 = DLM_LOCK_PR"
  using grant_queue_not_ordered [of "[1, 2]" ls0 DLM_LOCK_NL 3] by (simp add: lkb1_def lkb2_def lkb_of_def)

section \<open>Waiting for a reply\<close>

text \<open>A lock put on the list of waiters by \<open>add_to_waiters\<close> is taken off by the reply to its
  message, with the reference it held; only where and when it waited is left in it.\<close>

theorem waiters_round_trip:
  assumes l: "ls_lkbidr s k = Some l" and w: "lkb_wait_type l = 0" "lkb_wait_count l = 0"
    and no: "\<not> is_overlap l" "\<not> iflag l DLM_IFL_RESEND_BIT" and ref: "1 \<le> lkb_ref l"
    and m: "mstype \<in> {DLM_MSG_REQUEST, DLM_MSG_CONVERT, DLM_MSG_UNLOCK, DLM_MSG_CANCEL, DLM_MSG_LOOKUP, DLM_MSG_NOTIFY}"
  shows "\<exists>s1 s2 t. add_to_waiters env k mstype nodeid s = Some (0, s1) \<and>
    ls_waiters s1 = k # ls_waiters s \<and>
    remove_from_waiters k (msg_reply_type mstype) s1 = Some (0, s2) \<and> ls_waiters s2 = ls_waiters s \<and>
    ls_lkbidr s2 k = Some (l\<lparr>lkb_wait_nodeid := nodeid, lkb_wait_timestamp := t\<rparr>)"
proof -
  define t where "t = (if mstype = DLM_MSG_NOTIFY then jiffies env else lkb_wait_timestamp l)"
  let ?l1 = "l\<lparr>lkb_ref := Suc (lkb_ref l), lkb_wait_type := mstype, lkb_wait_count := 1, lkb_wait_nodeid := nodeid,
    lkb_wait_timestamp := t\<rparr>"
  let ?s1 = "s\<lparr>ls_lkbidr := (ls_lkbidr s)(k \<mapsto> ?l1), ls_waiters := k # ls_waiters s\<rparr>"
  have f: "\<not> is_overlap_unlock l" "\<not> is_overlap_cancel l"
    using no(1) by (auto simp: is_overlap_def is_overlap_unlock_def is_overlap_cancel_def)
  have 1: "add_to_waiters env k mstype nodeid s = Some (0, ?s1)"
    using l w f by (cases l) (auto simp: add_to_waiters_def hold_lkb_def kref_get_lkb_def t_def)
  have fi: "iflag (lkb_wait_type_update g l') n = iflag l' n" "iflag (lkb_wait_count_update h l') n = iflag l' n" for g h l' n
    by (simp_all add: iflag_def)
  let ?l2 = "l\<lparr>lkb_ref := Suc (lkb_ref l), lkb_wait_count := 1, lkb_wait_nodeid := nodeid,
    lkb_wait_timestamp := t, lkb_wait_type := 0\<rparr>"
  have c: "clear_iflag DLM_IFL_RESEND_BIT ?l2 = ?l2"
    by (rule clear_iflag_idem) (use no(2) in \<open>simp add: iflag_def\<close>)
  let ?s2 = "s\<lparr>ls_lkbidr := (ls_lkbidr s)(k \<mapsto> l\<lparr>lkb_wait_nodeid := nodeid, lkb_wait_timestamp := t\<rparr>)\<rparr>"
  have "remove_from_waiters_del k False (?s1\<lparr>ls_lkbidr := (ls_lkbidr s)(k \<mapsto> ?l2)\<rparr>) = Some (0, ?s2)"
    using ref w by (simp add: remove_from_waiters_del_def c unhold_lkb_def kref_put_lkb_def Let_def) (cases l, simp)
  moreover have "us_remove_from_waiters k (msg_reply_type mstype) None ?s1 =
      remove_from_waiters_del k False (?s1\<lparr>ls_lkbidr := (ls_lkbidr s)(k \<mapsto> ?l2)\<rparr>)"
    using m f unfolding us_remove_from_waiters_def
    by (auto simp: msg_reply_type_def is_overlap_unlock_def is_overlap_cancel_def iflag_def)
  ultimately have "remove_from_waiters k (msg_reply_type mstype) ?s1 = Some (0, ?s2)"
    by (simp add: remove_from_waiters_def)
  with 1 show ?thesis by fastforce
qed

theorem waiters_round_trip_witness:
  "\<exists>s1 s2. add_to_waiters env0 1 DLM_MSG_CONVERT 2 ls0 = Some (0, s1) \<and> ls_waiters s1 = [1] \<and>
    remove_from_waiters 1 DLM_MSG_CONVERT_REPLY s1 = Some (0, s2) \<and> ls_waiters s2 = []"
proof -
  have "\<not> is_overlap lkb1" "\<not> iflag lkb1 DLM_IFL_RESEND_BIT" "1 \<le> lkb_ref lkb1"
    "lkb_wait_type lkb1 = 0" "lkb_wait_count lkb1 = 0"
    by (simp_all add: sample_defs is_overlap_def iflag_def)
  with waiters_round_trip [of ls0 1 lkb1 DLM_MSG_CONVERT env0 2] show ?thesis
    by (auto simp: msg_reply_type_def)
qed

text \<open>C25: a reply for a lock that waits for none is refused, unless it is a \<open>NOTIFY_REPLY\<close>: that
  one gets past the check in \<open>_remove_from_waiters\<close> and hits its assertion. A duplicate of the
  reply to a self-owner notification stops the node.\<close>

theorem stray_notify_reply_crashes:
  assumes "ls_lkbidr s k = Some l" and "lkb_wait_type l = 0" and "lkb_wait_count l = 0"
    and "\<not> is_overlap l"
  shows "(\<forall>mstype. mstype \<noteq> DLM_MSG_NOTIFY_REPLY \<longrightarrow> us_remove_from_waiters k mstype ms s = Some (-1, s)) \<and>
    us_remove_from_waiters k DLM_MSG_NOTIFY_REPLY ms s = None \<and>
    (\<forall>reply. m_lkid reply = k \<and> lkb_parent_lkid l = 0 \<longrightarrow> receive_notify_reply env reply s = None)"
  using assms
  by (auto simp: us_remove_from_waiters_def remove_from_waiters_del_def is_overlap_def is_overlap_unlock_def
      is_overlap_cancel_def receive_notify_reply_def find_lkb_def kref_get_lkb_def remove_from_waiters_def)

theorem stray_notify_reply_crashes_witness:
  "us_remove_from_waiters 1 DLM_MSG_CONVERT_REPLY None ls0 = Some (-1, ls0) \<and>
   receive_notify_reply env0 ((zero_message 0)\<lparr>m_lkid := 1\<rparr>) ls0 = None"
proof -
  have "\<not> is_overlap lkb1" "lkb_wait_type lkb1 = 0" "lkb_wait_count lkb1 = 0" "lkb_parent_lkid lkb1 = 0"
    by (simp_all add: sample_defs is_overlap_def iflag_def)
  with stray_notify_reply_crashes [of ls0 1 lkb1] show ?thesis by (simp add: zero_message_def)
qed

section \<open>A notification about a known resource\<close>

text \<open>The name \<open>key\<close> is on the toss tree of bucket \<open>b\<close>, and the pool holds fresh resources.\<close>

definition known :: "dlm_ls \<Rightarrow> u32 \<Rightarrow> u8 list \<Rightarrow> bool" where
  "known s b key \<longleftrightarrow> tree_ok s (toss (ls_rsbtbl s b)) \<and>
     (\<exists>y\<in>set_tree (toss (ls_rsbtbl s b)). rsb_key s y = Some key) \<and>
     finite {r. ls_rsbs s r \<noteq> None} \<and> ls_new_rsb_count s = int (length (ls_new_rsb s)) \<and>
     distinct (ls_new_rsb s) \<and>
     (\<forall>r\<in>set (ls_new_rsb s). r \<notin> set_tree (toss (ls_rsbtbl s b)) \<and>
        (\<exists>x. ls_rsbs s r = Some x \<and> res_name x = replicate 65 0))"

text \<open>The allocator of resources succeeds while an address is free, with a free one.\<close>

definition alloc_ok :: "dlm_env \<Rightarrow> bool" where
  "alloc_ok env \<longleftrightarrow> (\<forall>used t. (\<exists>r. \<not> used r) \<longrightarrow>
     (\<exists>r. allocate_rsb env used t = Some r \<and> \<not> used r))"

lemma rsb_key_cong: "ls_rsbs s' r = ls_rsbs s r \<Longrightarrow> rsb_key s' r = rsb_key s r"
  by (simp add: rsb_key_def)

lemma tree_ok_cong:
  assumes "tree_ok s t" and "\<And>r. r \<in> set_tree t \<Longrightarrow> ls_rsbs s' r = ls_rsbs s r"
  shows "tree_ok s' t"
proof -
  have k: "rsb_key s' r = rsb_key s r" if "r \<in> set_tree t" for r
    by (rule rsb_key_cong) (rule assms(2) [OF that])
  have "sorted_wrt (node_gt s') (inorder t)"
    using assms(1) by (rule sorted_wrt_mono_rel [rotated, OF conjunct1 [OF iffD1 [OF tree_ok_def]]])
      (auto simp: node_gt_def k simp flip: set_inorder)
  then show ?thesis using assms(1) k by (simp add: tree_ok_def)
qed

lemma known_live: "known s b key \<Longrightarrow> r \<in> set_tree (toss (ls_rsbtbl s b)) \<Longrightarrow> ls_rsbs s r \<noteq> None"
  unfolding known_def tree_ok_def by (auto simp: rsb_key_def split: option.splits)

text \<open>What a pass may do to the state and keep it known.\<close>

lemma knownI:
  assumes "known s b key" and "ls_rsbtbl s' b = ls_rsbtbl s b"
    and "\<And>r. r \<in> set_tree (toss (ls_rsbtbl s b)) \<Longrightarrow> ls_rsbs s' r = ls_rsbs s r"
    and "finite {r. ls_rsbs s' r \<noteq> None}" and "ls_new_rsb_count s' = int (length (ls_new_rsb s'))"
    and "distinct (ls_new_rsb s')"
    and "\<And>r. r \<in> set (ls_new_rsb s') \<Longrightarrow> r \<notin> set_tree (toss (ls_rsbtbl s b)) \<and>
        (\<exists>x. ls_rsbs s' r = Some x \<and> res_name x = replicate 65 0)"
  shows "known s' b key"
proof -
  let ?t = "toss (ls_rsbtbl s b)"
  obtain y where y: "y \<in> set_tree ?t" "rsb_key s y = Some key" and ok: "tree_ok s ?t"
    using assms(1) by (auto simp: known_def)
  have "rsb_key s' y = Some key" using y(2) rsb_key_cong [of s' y s] assms(3) [OF y(1)] by simp
  then show ?thesis
    using tree_ok_cong [OF ok assms(3)] y assms(2,4-7) unfolding known_def by auto
qed

lemma known_allocate:
  assumes "known s b key" and "alloc_ok env"
  shows "\<exists>r s'. dlm_allocate_rsb env s = (Some r, s') \<and> known s' b key \<and> ls_rsbs s r = None \<and>
    ls_rsbs s' = (ls_rsbs s)(r \<mapsto> zero_rsb) \<and> ls_rsbtbl s' = ls_rsbtbl s \<and> ls_new_rsb s' = ls_new_rsb s"
proof -
  have fin: "finite {r. ls_rsbs s r \<noteq> None}" using assms(1) by (simp add: known_def)
  then obtain a where "a \<notin> {r. ls_rsbs s r \<noteq> None}" using ex_new_if_finite infinite_UNIV_nat by blast
  then have "\<exists>r. \<not> ls_rsbs s r \<noteq> None" by auto
  then obtain r where r: "allocate_rsb env (\<lambda>r. ls_rsbs s r \<noteq> None) (ls_tick s) = Some r" "ls_rsbs s r = None"
    using assms(2) [unfolded alloc_ok_def, THEN spec, THEN spec, THEN mp, of "\<lambda>r. ls_rsbs s r \<noteq> None" "ls_tick s"]
    by blast
  let ?s = "s\<lparr>ls_rsbs := (ls_rsbs s)(r \<mapsto> zero_rsb), ls_tick := ls_tick s + 1\<rparr>"
  have "known ?s b key"
  proof (rule knownI [OF assms(1)])
    have "{r'. ls_rsbs ?s r' \<noteq> None} \<subseteq> insert r {r. ls_rsbs s r \<noteq> None}" by auto
    then show "finite {r'. ls_rsbs ?s r' \<noteq> None}" using fin by (simp add: finite_subset)
    show "ls_rsbs ?s r' = ls_rsbs s r'" if "r' \<in> set_tree (toss (ls_rsbtbl s b))" for r'
      using known_live [OF assms(1) that] r(2) by auto
    show "r' \<notin> set_tree (toss (ls_rsbtbl s b)) \<and> (\<exists>x. ls_rsbs ?s r' = Some x \<and> res_name x = replicate 65 0)"
      if r': "r' \<in> set (ls_new_rsb ?s)" for r'
    proof -
      have "r' \<notin> set_tree (toss (ls_rsbtbl s b))" "\<exists>x. ls_rsbs s r' = Some x \<and> res_name x = replicate 65 0"
        using assms(1) r' by (simp_all add: known_def)
      with r(2) show ?thesis by (cases "r' = r") simp_all
    qed
  qed (use assms(1) in \<open>simp_all add: known_def\<close>)
  with r show ?thesis by (simp add: dlm_allocate_rsb_def)
qed

lemma known_add:
  assumes "known s b key" and "r \<notin> set (ls_new_rsb s)" and "r \<notin> set_tree (toss (ls_rsbtbl s b))"
    and "ls_rsbs s r = Some zero_rsb"
  shows "known (new_rsb_add (Some r) s) b key"
  by (rule knownI [OF assms(1)]) (use assms in \<open>auto simp: new_rsb_add_def known_def zero_rsb_def\<close>)

lemma known_pre:
  assumes k: "known s b key" and a: "alloc_ok env"
  shows "\<exists>s'. pre_rsb_struct env s = (0, s') \<and> known s' b key"
proof (cases "ls_new_rsb_count s > ci_new_rsb_count env div 2")
  case True
  with k show ?thesis by (simp add: pre_rsb_struct_def)
next
  case False
  obtain r1 s1 where 1: "dlm_allocate_rsb env s = (Some r1, s1)" "known s1 b key" "ls_rsbs s r1 = None"
    "ls_rsbs s1 = (ls_rsbs s)(r1 \<mapsto> zero_rsb)" "ls_rsbtbl s1 = ls_rsbtbl s" "ls_new_rsb s1 = ls_new_rsb s"
    using known_allocate [OF k a] by blast
  obtain r2 s2 where 2: "dlm_allocate_rsb env s1 = (Some r2, s2)" "known s2 b key" "ls_rsbs s1 r2 = None"
    "ls_rsbs s2 = (ls_rsbs s1)(r2 \<mapsto> zero_rsb)" "ls_rsbtbl s2 = ls_rsbtbl s1" "ls_new_rsb s2 = ls_new_rsb s1"
    using known_allocate [OF 1(2) a] by blast
  let ?t = "set_tree (toss (ls_rsbtbl s b))"
  have pool: "ls_rsbs s r \<noteq> None" if "r \<in> set (ls_new_rsb s)" for r using k that by (auto simp: known_def)
  have r1: "r1 \<notin> set (ls_new_rsb s)" "r1 \<notin> ?t" using pool known_live [OF k] 1(3) by blast+
  have r2: "r2 \<notin> set (ls_new_rsb s)" "r2 \<notin> ?t" "r2 \<noteq> r1"
  proof -
    have "r2 \<noteq> r1" "ls_rsbs s r2 = None" using 2(3) 1(4) by (auto split: if_splits)
    then show "r2 \<notin> set (ls_new_rsb s)" "r2 \<notin> ?t" "r2 \<noteq> r1" using pool known_live [OF k] by blast+
  qed
  let ?s3 = "new_rsb_add (Some r1) s2"
  have k3: "known ?s3 b key"
    by (rule known_add [OF 2(2)]) (use r1 1 2 r2(3) in simp_all)
  have k4: "known (new_rsb_add (Some r2) ?s3) b key"
    by (rule known_add [OF k3]) (use r2 1 2 in \<open>simp_all add: new_rsb_add_def\<close>)
  have "ls_new_rsb_count s2 = int (length (ls_new_rsb s2))" using 2(2) by (simp add: known_def)
  then have "pre_rsb_struct env s = (0, new_rsb_add (Some r2) ?s3)"
    using 1(1) 2(1) False by (simp add: pre_rsb_struct_def new_rsb_add_def Let_def)
  with k4 show ?thesis by blast
qed

lemma known_pass:
  assumes k: "known s b (maxname name len)" and a: "alloc_ok env" and len: "len \<le> 64" "len \<le> length name"
  shows "\<exists>s'. dlm_master_notify_pass env from name len hash b s = Some (Retry s') \<and> known s' b (maxname name len)"
proof -
  obtain s1 where 1: "pre_rsb_struct env s = (0, s1)" "known s1 b (maxname name len)"
    using known_pre [OF k a] by blast
  show ?thesis
  proof (cases "ls_new_rsb s1")
    case Nil
    with 1 show ?thesis by (simp add: dlm_master_notify_pass_def get_rsb_struct_def)
  next
    case (Cons r rs)
    let ?t = "toss (ls_rsbtbl s1 b)"
    obtain x where x: "ls_rsbs s1 r = Some x" "res_name x = replicate 65 0" and r: "r \<notin> set_tree ?t" "r \<notin> set rs"
      using 1(2) Cons by (auto simp: known_def)
    obtain y where y: "y \<in> set_tree ?t" "rsb_key s1 y = Some (maxname name len)" and ok: "tree_ok s1 ?t"
      using 1(2) by (auto simp: known_def)
    let ?x = "x\<lparr>res_length := len, res_name := memcpy (res_name x) name len, res_lookup := [], res_grantqueue := [],
      res_convertqueue := [], res_waitqueue := [], res_hash := hash, res_bucket := b,
      res_dir_nodeid := dlm_our_nodeid env, res_master_nodeid := from, res_nodeid := from, res_ref := 1,
      res_toss_time := jiffies env\<rparr>"
    let ?s2 = "s1\<lparr>ls_new_rsb := rs, ls_new_rsb_count := ls_new_rsb_count s1 - 1, ls_rsbs := (ls_rsbs s1)(r \<mapsto> ?x)\<rparr>"
    have other: "ls_rsbs ?s2 r' = ls_rsbs s1 r'" if "r' \<in> set_tree ?t" for r' using that r(1) by auto
    have "rsb_key ?s2 r = Some (maxname name len)"
      using len x(2) by (simp add: rsb_key_def maxname_def memcpy_def)
    moreover have "rsb_key ?s2 y = Some (maxname name len)"
      using y(2) rsb_key_cong [of ?s2 y s1] other [OF y(1)] by simp
    ultimately have dup: "rsb_insert env ?s2 r ?t = Some None"
      using index.ins_dup [OF tree_ok_cong [OF ok other]] y(1) by blast
    have "known (dlm_free_rsb r ?s2) b (maxname name len)"
      by (rule knownI [OF 1(2)]) (use 1(2) Cons r in \<open>auto simp: known_def dlm_free_rsb_def elim: finite_subset [rotated]\<close>)
    then show ?thesis
      using 1(1) Cons x dup
      by (simp add: dlm_master_notify_pass_def get_rsb_struct_def insert_toss_def Let_def)
  qed
qed

text \<open>C24: \<open>dlm_master_notify\<close> about a name that is on the toss tree never returns. Its insertion
  fails with \<open>-EEXIST\<close>, upon which the code frees the resource and retries without looking the
  name up; each pass ends as it began.\<close>

theorem dlm_master_notify_livelock:
  assumes "from \<noteq> dlm_our_nodeid env" and "len \<le> DLM_RESNAME_MAXLEN" and "len \<le> length name"
    and "dlm_hash2nodeid env (jhash env (take len name)) = dlm_our_nodeid env"
    and "known s (bucket_of s (jhash env (take len name))) (maxname name len)" and "alloc_ok env"
  shows "dlm_master_notify env from name len s = None \<and>
    (\<exists>s'. retry_n n (dlm_master_notify_pass env from name len (jhash env (take len name))
       (bucket_of s (jhash env (take len name)))) s = Some (Retry s'))"
proof -
  let ?h = "jhash env (take len name)"
  let ?b = "bucket_of s ?h"
  let ?f = "dlm_master_notify_pass env from name len ?h ?b"
  let ?P = "\<lambda>t. known t ?b (maxname name len)"
  have step: "\<exists>s'. ?f t = Some (Retry s') \<and> ?P s'" if "?P t" for t
    by (rule known_pass [OF that assms(6)]) (use assms(2,3) in simp_all)
  have "retry ?f s = None"
  proof (rule ccontr)
    assume "retry ?f s \<noteq> None"
    then obtain a where "retry ?f s = Some a" by blast
    then show False
    proof (rule retry_invariant [where I = ?P and Q = "\<lambda>_. False", rotated 2])
      show "?P s" by (rule assms(5))
    next
      fix t p assume "?P t" "?f t = Some p"
      with step [of t] show "case p of Retry s' \<Rightarrow> ?P s' | Done a \<Rightarrow> False" by auto
    qed
  qed
  then have "dlm_master_notify env from name len s = None"
    using assms(1,2,4) by (simp add: dlm_master_notify_def Let_def)
  moreover have "\<exists>s'. retry_n n ?f s = Some (Retry s')"
    using retry_n_livelock [of ?P ?f, OF step assms(5)] by blast
  ultimately show ?thesis by blast
qed

definition env_alloc :: dlm_env where
  "env_alloc = env0\<lparr>allocate_rsb := (\<lambda>used t. if \<forall>r. used r then None else Some (LEAST r. \<not> used r))\<rparr>"

lemma env_alloc_ok: "alloc_ok env_alloc"
  unfolding alloc_ok_def env_alloc_def using LeastI [of "\<lambda>r. \<not> used r" for used] by auto

definition ls4 :: dlm_ls where
  "ls4 = ls3\<lparr>ls_rsbtbl := (\<lambda>_. \<lparr>keep = Leaf, toss = Node Leaf 1 Leaf, rt_flags = 0\<rparr>)\<rparr>"

theorem dlm_master_notify_livelock_witness: "dlm_master_notify env_alloc 2 [9] 1 ls4 = None"
proof -
  have e: "dlm_our_nodeid env_alloc = 1" "dlm_hash2nodeid env_alloc h = 1" for h
    by (simp_all add: env_alloc_def env0_def)
  have m: "maxname [9] (Suc 0) = 9 # replicate 63 0" by (simp add: maxname_def memcpy_def)
  have rsbs: "ls_rsbs ls4 = ls_rsbs ls3" by (simp add: ls4_def)
  have "tree_ok ls4 (Node Leaf 1 Leaf)" by (rule tree_ok_cong [OF ls3_tree]) (simp add: rsbs)
  moreover have "rsb_key ls4 1 = Some (9 # replicate 63 0)"
    using ls3_key(2) rsb_key_cong [of ls4 1 ls3] rsbs by simp
  moreover have "finite {r. ls_rsbs ls4 r \<noteq> None}"
    by (rule finite_subset [of _ "{0, 1}"]) (auto simp: ls4_def ls3_def ls_of_def split: if_splits)
  moreover have "ls_rsbtbl ls4 b = \<lparr>keep = Leaf, toss = Node Leaf 1 Leaf, rt_flags = 0\<rparr>" for b
    by (simp add: ls4_def)
  moreover have "ls_new_rsb ls4 = []" "ls_new_rsb_count ls4 = 0" by (simp_all add: ls4_def ls3_def ls_of_def)
  ultimately have "known ls4 b (maxname [9] 1)" for b by (simp add: known_def m)
  from dlm_master_notify_livelock [OF _ _ _ _ this env_alloc_ok] show ?thesis by (simp add: e)
qed

end
