(* ===== verification/Message_Properties.thy ===== *)
theory Message_Properties
  imports Table_Properties
begin

text \<open>
  The properties of the messages between nodes: a flag word and the fields of a request survive
  the trip through a message, and the name of the resource is the one that was sent.
\<close>

section \<open>Flag words\<close>

text \<open>\<open>dlm_set_flags_val\<close> writes exactly the bits that \<open>dlm_flags_val\<close> reads: flags read from
  one lock and written to another read back the same, its other bits are untouched, and
  writing back what was read changes nothing.\<close>

theorem flags_round_trip:
  assumes "mx \<le> 31"
  shows "dlm_flags_val (dlm_set_flags_val b (dlm_flags_val a mn mx) mn mx) mn mx = dlm_flags_val a mn mx \<and>
    (\<forall>n. n < mn \<or> mx < n \<longrightarrow> bit (dlm_set_flags_val b v mn mx) n = bit b n) \<and>
    dlm_set_flags_val a (dlm_flags_val a mn mx) mn mx = a"
proof (intro conjI)
  show "dlm_flags_val (dlm_set_flags_val b (dlm_flags_val a mn mx) mn mx) mn mx = dlm_flags_val a mn mx"
    by (rule bit_word_eqI) (auto simp: bit_dlm_flags_val [OF assms] bit_dlm_set_flags_val [OF assms])
  show "\<forall>n. n < mn \<or> mx < n \<longrightarrow> bit (dlm_set_flags_val b v mn mx) n = bit b n"
    by (simp add: bit_dlm_set_flags_val [OF assms])
  show "dlm_set_flags_val a (dlm_flags_val a mn mx) mn mx = a"
    by (rule bit_word_eqI) (simp add: bit_dlm_flags_val [OF assms] bit_dlm_set_flags_val [OF assms])
qed

theorem flags_round_trip_witness:
  "dlm_flags_val (dlm_set_flags_val 0xF0 (dlm_flags_val 5 0 2) 0 2) 0 2 = dlm_flags_val 5 0 2 \<and>
   dlm_set_flags_val 5 (dlm_flags_val 5 0 2) 0 2 = 5"
  using flags_round_trip [of 2 "0xF0" 5 0] by simp

section \<open>Requests\<close>

lemma s32_to32: "- (2 ^ 31) \<le> i \<Longrightarrow> i < 2 ^ 31 \<Longrightarrow> s32 (to32 i) = i"
  by (simp add: s32_def to32_def int_word_sint)

lemma s8_to32: "- 128 \<le> i \<Longrightarrow> i < 128 \<Longrightarrow> s8 (to32 i) = i"
proof -
  assume i: "- 128 \<le> i" "i < 128"
  have "ucast (word_of_int i :: u32) = (word_of_int i :: u8)"
    by (rule bit_word_eqI) (auto simp: bit_simps)
  with i show "s8 (to32 i) = i" by (simp add: s8_def to32_def int_word_sint)
qed

lemma send_args_fields:
  assumes "m_type ms0 = DLM_MSG_REQUEST" and "m_asts ms0 = 0"
  shows "m_exflags (send_args s x l ms0) = lkb_exflags l" "m_flags (send_args s x l ms0) = dlm_dflags_val l"
    "m_sbflags (send_args s x l ms0) = dlm_sbflags_val l" "m_lkid (send_args s x l ms0) = lkb_id l"
    "m_pid (send_args s x l ms0) = to32 (lkb_ownpid l)" "m_rqmode (send_args s x l ms0) = to32 (lkb_rqmode l)"
    "h_nodeid (send_args s x l ms0) = h_nodeid ms0" "h_length (send_args s x l ms0) = h_length ms0"
    "has_flag (m_asts (send_args s x l ms0)) DLM_CB_CAST \<longleftrightarrow> lkb_astfn l \<noteq> None"
    "has_flag (m_asts (send_args s x l ms0)) DLM_CB_BAST \<longleftrightarrow> lkb_bastfn l \<noteq> None"
    "m_extra (send_args s x l ms0) = memcpy (m_extra ms0) (res_name x) (res_length x)"
  using assms by (auto simp: send_args_def Let_def has_flag_def)

text \<open>The lock block the master builds from a request message has the fields of the lock the
  request was sent for: flags, requested mode, owner, the callbacks it wants, and its id to
  answer to; its granted mode is none.\<close>

theorem request_message_round_trip:
  assumes "m_type ms0 = DLM_MSG_REQUEST" and "m_asts ms0 = 0" and "h_nodeid ms0 = to32 node"
    and "ms = send_args s x l ms0"
    and "valid_mode (lkb_rqmode l)" and "- (2 ^ 31) \<le> lkb_ownpid l" and "lkb_ownpid l < 2 ^ 31"
    and "- (2 ^ 31) \<le> node" and "node < 2 ^ 31" and "\<not> has_flag (lkb_exflags l) DLM_LKF_VALBLK"
    and "ls_lkbidr t k = Some (receive_flags ms l0)"
  shows "\<exists>t' l'. receive_request_args env k ms t = Some (0, t') \<and> ls_lkbidr t' k = Some l' \<and>
    lkb_exflags l' = lkb_exflags l \<and> lkb_rqmode l' = lkb_rqmode l \<and> lkb_grmode l' = DLM_LOCK_IV \<and>
    lkb_ownpid l' = lkb_ownpid l \<and> lkb_remid l' = lkb_id l \<and> lkb_nodeid l' = node \<and>
    dlm_dflags_val l' = dlm_dflags_val l \<and> dlm_sbflags_val l' = dlm_sbflags_val l \<and>
    (lkb_astfn l' \<noteq> None) = (lkb_astfn l \<noteq> None) \<and> (lkb_bastfn l' \<noteq> None) = (lkb_bastfn l \<noteq> None)"
proof -
  note f = send_args_fields [OF assms(1,2), of s x l, folded assms(4)]
  have rq: "s8 (m_rqmode ms) = lkb_rqmode l"
    unfolding f by (rule s8_to32) (use assms(5) in \<open>simp_all add: valid_mode_def\<close>)
  have pid: "s32 (m_pid ms) = lkb_ownpid l" unfolding f by (rule s32_to32 [OF assms(6,7)])
  have node: "s32 (h_nodeid ms) = node" unfolding f assms(3) by (rule s32_to32 [OF assms(8,9)])
  have rt: "dlm_flags_val (dlm_set_flags_val b (dlm_flags_val a mn mx) mn mx) mn mx = dlm_flags_val a mn mx"
    if "mx \<le> 31" for a b mn mx
    by (rule bit_word_eqI) (auto simp: bit_dlm_flags_val [OF that] bit_dlm_set_flags_val [OF that])
  have ex: "lkb_exflags (receive_flags ms l0) = lkb_exflags l"
    by (simp add: receive_flags_def dlm_set_dflags_val_def dlm_set_sbflags_val_def f)
  have d: "dlm_flags_val (lkb_dflags (receive_flags ms l0)) 0 1 = dlm_dflags_val l"
    "dlm_flags_val (lkb_sbflags (receive_flags ms l0)) 0 2 = dlm_sbflags_val l"
    by (simp_all add: receive_flags_def dlm_set_dflags_val_def dlm_set_sbflags_val_def f
        dlm_dflags_val_def dlm_sbflags_val_def rt)
  show ?thesis
    using assms(10,11) ex d
    by (simp add: receive_request_args_def rq [unfolded f] pid [unfolded f] node [unfolded f] f dlm_dflags_val_def
        dlm_sbflags_val_def)
qed

definition request_ms :: dlm_message where
  "request_ms = send_args ls0 rsb0 lkb3 ((zero_message 0)\<lparr>m_type := DLM_MSG_REQUEST, h_nodeid := to32 2\<rparr>)"

theorem request_message_round_trip_witness:
  "\<exists>t' l'. receive_request_args env0 3 request_ms
      (ls0\<lparr>ls_lkbidr := [3 \<mapsto> receive_flags request_ms zero_lkb]\<rparr>) = Some (0, t') \<and>
    ls_lkbidr t' 3 = Some l' \<and> lkb_rqmode l' = DLM_LOCK_EX \<and> lkb_remid l' = 3 \<and> lkb_nodeid l' = 2"
proof -
  have l: "valid_mode (lkb_rqmode lkb3)" "lkb_ownpid lkb3 = 0" "\<not> has_flag (lkb_exflags lkb3) DLM_LKF_VALBLK"
    "lkb_rqmode lkb3 = DLM_LOCK_EX" "lkb_id lkb3 = 3"
    by (simp_all add: sample_defs has_flag_def)
  have "ls_lkbidr (ls0\<lparr>ls_lkbidr := [3 \<mapsto> receive_flags request_ms zero_lkb]\<rparr>) 3 =
      Some (receive_flags request_ms zero_lkb)" by simp
  from request_message_round_trip [OF _ _ _ request_ms_def l(1) _ _ _ _ l(3) this, of 2 env0] l
  show ?thesis by (auto simp: zero_message_def)
qed

text \<open>A request message carries the name of the resource: what the receiver takes as the
  length is the resource's, and that many bytes of the payload are its name.\<close>

theorem request_message_name:
  assumes "create_message env x (Some l) DLM_MSG_REQUEST s = (Some ms0, s')"
    and "res_length x \<le> DLM_RESNAME_MAXLEN" and "res_length x \<le> length (res_name x)"
  shows "receive_extralen (send_args s' x l ms0) = int (res_length x) \<and>
    take (res_length x) (m_extra (send_args s' x l ms0)) = take (res_length x) (res_name x)"
proof -
  have ms0: "m_type ms0 = DLM_MSG_REQUEST" "m_asts ms0 = 0"
    "h_length ms0 = word_of_nat (sizeof_dlm_message + res_length x)" "length (m_extra ms0) = res_length x"
    using assms(1) by (auto simp: create_message_def us_create_message_def zero_message_def Let_def split: if_splits)
  have "uint (word_of_nat (sizeof_dlm_message + res_length x) :: u16) = int (sizeof_dlm_message + res_length x)"
  proof -
    have "unat (word_of_nat (sizeof_dlm_message + res_length x) :: u16) = sizeof_dlm_message + res_length x"
      by (rule of_nat_inverse [OF refl]) (use assms(2) in simp)
    then show ?thesis by (simp only: uint_nat)
  qed
  then show ?thesis
    using assms(3) ms0 by (simp add: send_args_fields [OF ms0(1,2)] receive_extralen_def memcpy_def)
qed

definition rsb_abc :: dlm_rsb where
  "rsb_abc = zero_rsb\<lparr>res_length := 3, res_name := [97, 98, 99] @ replicate 62 0\<rparr>"

theorem request_message_name_witness:
  "\<exists>ms0 s'. create_message env0 rsb_abc (Some lkb3) DLM_MSG_REQUEST ls0 = (Some ms0, s') \<and>
    take 3 (m_extra (send_args s' rsb_abc lkb3 ms0)) = [97, 98, 99]"
proof -
  obtain ms0 s' where "create_message env0 rsb_abc (Some lkb3) DLM_MSG_REQUEST ls0 = (Some ms0, s')"
    by (simp add: create_message_def us_create_message_def env0_def)
  from request_message_name [OF this] this show ?thesis by (simp add: rsb_abc_def)
qed

end
