(* ===== verification/Call_Properties.thy ===== *)
theory Call_Properties
  imports Message_Properties
begin

text \<open>
  The properties of the arguments of the calls: which ones \<open>dlm_lock\<close> and \<open>dlm_unlock\<close> accept;
  and four properties that show where a lock's mode is lost or a mode is not checked.
\<close>

section \<open>Arguments\<close>

text \<open>\<open>set_lock_args\<close> accepts exactly the documented combinations: a mode of a lock, a name
  short enough, callbacks and a status block given, a value block where values are asked for,
  and no flags that exclude each other. Else it answers \<open>-EINVAL\<close>.\<close>

theorem set_lock_args_accepts:
  "fst (set_lock_args mode lksb flags namelen ast astparam bast s) =
    (if DLM_LOCK_NL \<le> mode \<and> mode \<le> DLM_LOCK_EX \<and> \<not> has_flag flags DLM_LKF_CANCEL \<and>
        (if has_flag flags DLM_LKF_CONVERT
         then \<not> has_flag flags DLM_LKF_EXPEDITE \<and> (\<forall>p. lksb = Some p \<longrightarrow> sb_lkid (ls_lksbs s p) \<noteq> 0)
         else namelen \<le> DLM_RESNAME_MAXLEN \<and> \<not> has_flag flags DLM_LKF_QUECVT \<and>
              \<not> has_flag flags DLM_LKF_CONVDEADLK) \<and>
        (has_flag flags DLM_LKF_NOQUEUE \<longrightarrow> \<not> has_flag flags DLM_LKF_CONVDEADLK \<and> \<not> has_flag flags DLM_LKF_EXPEDITE) \<and>
        (has_flag flags DLM_LKF_EXPEDITE \<longrightarrow> mode = DLM_LOCK_NL \<and> \<not> has_flag flags DLM_LKF_QUECVT) \<and>
        ast \<noteq> None \<and> lksb \<noteq> None \<and>
        (has_flag flags DLM_LKF_VALBLK \<longrightarrow> (\<forall>p. lksb = Some p \<longrightarrow> sb_lvbptr (ls_lksbs s p) \<noteq> None))
     then 0 else -EINVAL)"
  by (cases ast; cases lksb) (simp_all add: set_lock_args_def)

theorem set_lock_args_accepts_witness:
  "fst (set_lock_args 3 (Some 7) 0 8 (Some 1) 7 None ls1) = 0 \<and>
    fst (set_lock_args 3 (Some 7) DLM_LKF_QUECVT 8 (Some 1) 7 None ls1) = -EINVAL"
  unfolding set_lock_args_accepts by (simp add: has_flag_def)

lemma and_not_eq_0_iff: "w AND NOT m = 0 \<longleftrightarrow> (\<forall>n. bit w n \<longrightarrow> bit (m :: u32) n)"
proof
  assume z: "w AND NOT m = 0"
  show "\<forall>n. bit w n \<longrightarrow> bit m n"
  proof (intro allI impI, rule ccontr)
    fix n assume n: "bit w n" "\<not> bit m n"
    then have "bit (w AND NOT m) n" using bit_imp_le_length [OF n(1)] by (simp add: bit_and_iff bit_not_iff)
    with z show False by simp
  qed
next
  assume "\<forall>n. bit w n \<longrightarrow> bit m n"
  then show "w AND NOT m = 0" by (intro bit_word_eqI) (simp add: bit_and_iff bit_not_iff)
qed

text \<open>\<open>set_unlock_args\<close> accepts exactly the unlock flags, of which a cancel and a forced
  unlock exclude each other, and passes flags and parameter on.\<close>

theorem set_unlock_args_accepts:
  "set_unlock_args flags astarg =
    (if (\<forall>n. bit flags n \<longrightarrow> n \<in> {1, 3, 5, 17}) \<and> \<not> (bit flags 1 \<and> bit flags 17)
     then (0, zero_args\<lparr>arg_flags := flags, arg_astparam := astarg\<rparr>) else (-EINVAL, zero_args))"
proof -
  have flag: "has_flag flags (push_bit n 1) = bit flags n" for n
    by (simp add: has_flag_def and_exp_eq_0_iff_not_bit)
  have "flags AND NOT (DLM_LKF_CANCEL OR DLM_LKF_VALBLK OR DLM_LKF_IVVALBLK OR DLM_LKF_FORCEUNLOCK) = 0 \<longleftrightarrow>
      (\<forall>n. bit flags n \<longrightarrow> n \<in> {1, 3, 5, 17})"
  proof -
    have m: "bit (DLM_LKF_CANCEL OR DLM_LKF_VALBLK OR DLM_LKF_IVVALBLK OR DLM_LKF_FORCEUNLOCK) n \<longleftrightarrow>
        n \<in> {1, 3, 5, 17}" for n
    proof -
      have "bit (push_bit 1 1 OR push_bit 3 1 OR push_bit 5 1 OR push_bit 17 (1::u32)) n \<longleftrightarrow> n \<in> {1, 3, 5, 17}"
        unfolding bit_or_iff bit_push_bit_iff bit_1_iff by (auto simp: possible_bit_word)
      then show ?thesis by simp
    qed
    show ?thesis unfolding and_not_eq_0_iff m ..
  qed
  with flag [of 1] flag [of 17] show ?thesis by (simp add: set_unlock_args_def)
qed

theorem set_unlock_args_accepts_witness:
  "set_unlock_args 2 5 = (0, zero_args\<lparr>arg_flags := 2, arg_astparam := 5\<rparr>) \<and>
    set_unlock_args 4 5 = (-EINVAL, zero_args)"
proof -
  have "bit (2 :: u32) n \<longleftrightarrow> n = 1" "bit (4 :: u32) n \<longleftrightarrow> n = 2" for n
    using bit_exp_iff [where 'a = "32 word", of 1 n] bit_exp_iff [where 'a = "32 word", of 2 n] by auto
  then show ?thesis unfolding set_unlock_args_accepts by simp
qed

section \<open>Converting a lock that awaits a notification\<close>

lemma grant_lock_no_mode:
  assumes ok: "master_ok s r" and x: "ls_rsbs s r = Some x" and m: "member s r k l"
    and st: "lkb_status l = DLM_LKSTS_GRANTED" and rq: "lkb_rqmode l = DLM_LOCK_IV"
  shows "\<exists>s' l'. grant_lock env r k s = Some s' \<and> ls_lkbidr s' k = Some l' \<and>
    lkb_status l' = DLM_LKSTS_GRANTED \<and> lkb_grmode l' = DLM_LOCK_IV \<and> (is_master_copy l' \<or> lkb_lksb l' \<noteq> None)"
proof -
  have "keeps s (set_lvb_lock env r k s)"
    by (rule set_lvb_lock_keeps [OF x]) (use m in \<open>auto simp: member_def lkb_wf_def\<close>)
  then obtain s1 where s1: "set_lvb_lock env r k s = Some s1" "same s s1" by (rule keepsE)
  obtain l1 where m1: "member s1 r k l1" "lkb_core l1 = lkb_core l" by (rule member_same [OF s1(2) m])
  note c = lkb_coreD [OF m1(2)]
  have ok1: "master_ok s1 r" by (rule master_ok_same [OF s1(2) ok])
  then obtain x1 where x1: "ls_rsbs s1 r = Some x1" "queues_ok s1 r x1" by (auto simp: master_ok_def)
  have l1: "ls_lkbidr s1 k = Some l1" using m1(1) by (simp add: member_def)
  have q1: "queued_ok r (lkb_status l1) l1" using member_queued [OF ok1 m1(1)] c st by simp
  let ?l2 = "l1\<lparr>lkb_grmode := DLM_LOCK_IV\<rparr>"
  let ?s2 = "s1\<lparr>ls_lkbidr := (ls_lkbidr s1)(k \<mapsto> ?l2)\<rparr>"
  have "k \<in> set (rsb_queues x1)"
    using queue_status(1) [OF x1(2) l1] m1(1) c st by (auto simp: rsb_queues_def member_def)
  moreover have "distinct (rsb_queues x1)" "\<forall>j\<in>set (res_grantqueue x1). ls_lkbidr ?s2 j \<noteq> None"
    using x1(2) by (auto simp: queues_ok_def on_queue_def)
  ultimately obtain s3 where s3: "move_lkb env r k DLM_LKSTS_GRANTED ?s2 = Some s3"
    "ls_lkbidr s3 = (ls_lkbidr ?s2)(k \<mapsto> ?l2\<lparr>lkb_timestamp := ktime env, lkb_status := DLM_LKSTS_GRANTED\<rparr>)"
    using move_lkb_spec [of ?s2 k ?l2 r x1 DLM_LKSTS_GRANTED env] q1 x1(1) by (auto simp: queued_ok_def)
  have "lkb_grmode l1 \<noteq> DLM_LOCK_IV" using q1 st c by (auto simp: queued_ok_def modes_ok_def)
  then have "us_grant_lock env r k s1 = Some (s3\<lparr>ls_lkbidr := (ls_lkbidr s3)(k \<mapsto>
      ?l2\<lparr>lkb_timestamp := ktime env, lkb_status := DLM_LKSTS_GRANTED, lkb_rqmode := DLM_LOCK_IV, lkb_highbast := 0\<rparr>)\<rparr>)"
    using l1 s3 c st rq by (simp add: us_grant_lock_def)
  with s1(1) m1(1) show ?thesis
    by (auto simp: grant_lock_def member_def lkb_wf_def is_master_copy_def iflag_def)
qed

text \<open>C26: a conversion of a lock that still awaits the reply to its self-owner notification
  passes \<open>validate_lock_args\<close> without its arguments being stored; \<open>do_convert\<close> then grants the
  request that is not there, and the lock is left granted with no mode.\<close>

theorem notify_conversion_loses_mode:
  assumes "master_ok s r" and "ls_rsbs s r = Some x" and "member s r k l"
    and "lkb_status l = DLM_LKSTS_GRANTED" and "lkb_wait_type l = DLM_MSG_NOTIFY"
    and "lkb_rqmode l = DLM_LOCK_IV" and "\<not> has_flag (lkb_exflags l) DLM_LKF_QUECVT"
  shows "validate_lock_args env k args s = Some (0, s) \<and>
    (\<exists>s' l'. do_convert env r k s = Some (0, s') \<and> ls_lkbidr s' k = Some l' \<and>
       lkb_status l' = DLM_LKSTS_GRANTED \<and> lkb_grmode l' = DLM_LOCK_IV)"
proof
  have l: "ls_lkbidr s k = Some l" "lkb_wf l" using assms(3) by (auto simp: member_def)
  show "validate_lock_args env k args s = Some (0, s)"
    using l(1) assms(5) by (simp add: validate_lock_args_def)
  have qs: "queues_ok s r x" and con: "modes.consistent (gr_mode s) (holders x)"
    using assms(1,2) by (auto simp: master_ok_def)
  have live: "\<forall>j\<in>set (rsb_queues x). live_mode s j" using queues_ok_live [OF qs] by blast
  have "compat (gr_mode s j) DLM_LOCK_IV" if "j \<in> holders x" for j
    using holders_valid [OF con that] modes.comp_none by blast
  moreover have "order_ok x k l True False"
    using member_queued [OF assms(1,3)] assms(4,7) by (simp add: order_ok_def queued_ok_def modes_ok_def)
  ultimately have "grant_rule s x k l True False" by (simp add: grant_rule_def assms(6))
  then have "us_can_be_granted r k True False s = Some True"
    using us_can_be_granted_rule [OF live assms(2) l(1), of True False] assms(6) by (simp add: asks_ok_def)
  then have g: "can_be_granted r k True False True s = Some (True, 0, s)"
    using l(1) by (simp add: can_be_granted_def)
  obtain s1 l1 where 1: "grant_lock env r k s = Some s1" "ls_lkbidr s1 k = Some l1"
    "lkb_status l1 = DLM_LKSTS_GRANTED" "lkb_grmode l1 = DLM_LOCK_IV" "is_master_copy l1 \<or> lkb_lksb l1 \<noteq> None"
    using grant_lock_no_mode [OF assms(1-4,6)] by blast
  obtain s2 where s2: "queue_cast k 0 s1 = Some s2" "same s1 s2"
    by (rule keepsE [OF queue_cast_keeps [OF 1(2,5)]])
  obtain l2 where "ls_lkbidr s2 k = Some l2" "lkb_core l2 = lkb_core l1" using same_lkb [OF s2(2) 1(2)] by blast
  moreover have "do_convert env r k s = Some (0, s2)" using g l(1) 1(1) s2(1) by (simp add: do_convert_def)
  ultimately show "\<exists>s' l'. do_convert env r k s = Some (0, s') \<and> ls_lkbidr s' k = Some l' \<and>
       lkb_status l' = DLM_LKSTS_GRANTED \<and> lkb_grmode l' = DLM_LOCK_IV"
    using 1(3,4) lkb_coreD(3,5) by metis
qed

definition ls5 :: dlm_ls where
  "ls5 = ls_of [1 \<mapsto> lkb1\<lparr>lkb_wait_type := DLM_MSG_NOTIFY\<rparr>, 2 \<mapsto> lkb2] [0 \<mapsto> rsb0]"

theorem notify_conversion_loses_mode_witness:
  "\<exists>s' l'. do_convert env0 0 1 ls5 = Some (0, s') \<and> ls_lkbidr s' 1 = Some l' \<and> lkb_grmode l' = DLM_LOCK_IV"
proof -
  have "queues_ok ls5 0 rsb0"
    by (auto simp: ls5_def ls_of_def queues_ok_def rsb_queues_def on_queue_def queued_ok_def lkb_wf_def
        modes_ok_def sample_defs has_flag_def split: if_splits)
  then have ok: "master_ok ls5 0"
    by (simp add: master_ok_def ls5_def ls_of_def modes.consistent_def holders_def pairwise_on_def
        gr_mode_def matrix_simps) (simp add: sample_defs)
  have m: "member ls5 0 1 (lkb1\<lparr>lkb_wait_type := DLM_MSG_NOTIFY\<rparr>)"
    by (simp add: ls5_def ls_of_def member_def lkb_wf_def sample_defs has_flag_def)
  have x: "ls_rsbs ls5 0 = Some rsb0" by (simp add: ls5_def ls_of_def)
  from notify_conversion_loses_mode [OF ok x m, of env0] show ?thesis
    by (fastforce simp: lkb1_def lkb_of_def zero_lkb_def has_flag_def)
qed

section \<open>Converting to an alternate mode that is already held\<close>




section \<open>Modes from the network\<close>

text \<open>C28: a master stores the requested mode of a request message as it came, any 8-bit value,
  and looks it up in the compatibility matrix: outside the modes, and with another lock on the
  resource, the lookup is outside the array.\<close>

theorem request_mode_unchecked:
  assumes "ls_lkbidr s k = Some l" and "\<not> has_flag (lkb_exflags l) DLM_LKF_EXPEDITE"
    and "\<not> has_flag (lkb_exflags l) DLM_LKF_VALBLK"
    and "s8 (m_rqmode ms) < -1 \<or> 6 < s8 (m_rqmode ms)"
    and "ls_rsbs s r = Some x" and "res_grantqueue x = j # q" and "j \<noteq> k" and "ls_lkbidr s j = Some lj"
  shows "\<exists>s1. receive_request_args env k ms s = Some (0, s1) \<and> do_request env r k s1 = None"
proof -
  let ?l = "l\<lparr>lkb_nodeid := s32 (h_nodeid ms), lkb_ownpid := s32 (m_pid ms), lkb_remid := m_lkid ms,
    lkb_grmode := DLM_LOCK_IV, lkb_rqmode := s8 (m_rqmode ms),
    lkb_bastfn := (if has_flag (m_asts ms) DLM_CB_BAST then Some (fake_bastfn env) else None),
    lkb_astfn := (if has_flag (m_asts ms) DLM_CB_CAST then Some (fake_astfn env) else None)\<rparr>"
  let ?s = "s\<lparr>ls_lkbidr := (ls_lkbidr s)(k \<mapsto> ?l)\<rparr>"
  have "receive_request_args env k ms s = Some (0, ?s)"
    using assms(1,3) by (simp add: receive_request_args_def)
  moreover have "us_can_be_granted r k True False ?s = None"
    using assms(2,4-8)
    by (auto simp: us_can_be_granted_def modes_compat_def dlm_modes_compat_def matrix_at_def)
  then have "do_request env r k ?s = None" by (simp add: do_request_def can_be_granted_def)
  ultimately show ?thesis by blast
qed

theorem request_mode_unchecked_witness:
  "\<exists>s1. receive_request_args env0 3 ((zero_message 0)\<lparr>m_rqmode := 100\<rparr>) ls0 = Some (0, s1) \<and>
    do_request env0 0 3 s1 = None"
proof -
  have "s8 100 = 100" by (simp add: s8_def)
  moreover have "res_grantqueue rsb0 = [1, 2]" "lkb_exflags lkb3 = 0" by (simp_all add: sample_defs)
  ultimately show ?thesis
    using request_mode_unchecked [of ls0 3 lkb3 "(zero_message 0)\<lparr>m_rqmode := 100\<rparr>" 0 rsb0 1 "[2]" lkb1 env0]
    by (simp add: has_flag_def)
qed

end
