(* ===== verification/Gfs2_Control.thy ===== *)
theory Gfs2_Control
  imports Gfs2_Queue
begin

text \<open>
  Recovery of journals (\<open>lock_dlm.c\<close> from line 340). The lock manager reports that it blocks locks
  (\<open>gdlm_recover_prep\<close>), which nodes have failed (\<open>gdlm_recover_slot\<close>) and that it is done, with a new
  generation (\<open>gdlm_recover_done\<close>). The control work then updates the value block of the control
  lock, which tells all nodes whose journals are to be recovered, and lets locks go on when none is
  left (\<open>gfs2_control_func\<close>). Mounting waits for the recoveries before it (\<open>control_mount\<close>). What
  happens while a caller waits is \<open>wait_sync\<close>, \<open>wait_recovery\<close> and \<open>wait_msleep\<close> of the environment.
  The lists of lockspaces that \<open>dlm_new_lockspace\<close> works on (\<open>Lockspace\<close>) are not part of the
  state here: joining and leaving are \<open>join_lockspace\<close> and \<open>leave_lockspace\<close>.
\<close>

section \<open>The value block of the control lock\<close>

definition le32_to_cpu :: "u8 list \<Rightarrow> u32" where
  "le32_to_cpu bs = ucast (bs ! 0) OR push_bit 8 (ucast (bs ! 1)) OR push_bit 16 (ucast (bs ! 2)) OR
     push_bit 24 (ucast (bs ! 3))"

definition cpu_to_le32 :: "u32 \<Rightarrow> u8 list" where
  "cpu_to_le32 w = [ucast w, ucast (drop_bit 8 w), ucast (drop_bit 16 w), ucast (drop_bit 24 w)]"

definition upd_lstruct :: "(lm_lockstruct \<Rightarrow> lm_lockstruct) \<Rightarrow> gfs2 \<Rightarrow> gfs2" where
  "upd_lstruct f s = s\<lparr>sd_lockstruct := f (sd_lockstruct s)\<rparr>"

definition control_lvb :: "gfs2 \<Rightarrow> u8 list" where
  "control_lvb s = ls_lvbs (gs_dlm s) (ls_control_lvb (sd_lockstruct s))"

definition set_control_lvb :: "u8 list \<Rightarrow> gfs2 \<Rightarrow> gfs2" where
  "set_control_lvb bs s = (let d = gs_dlm s in
     s\<lparr>gs_dlm := d\<lparr>ls_lvbs := (ls_lvbs d)(ls_control_lvb (sd_lockstruct s) := bs)\<rparr>\<rparr>)"

text \<open>Reading copies the block to \<open>ls_lvb_bits\<close>.\<close>

definition control_lvb_read :: "gfs2 \<Rightarrow> (u32 \<times> u8 list \<times> gfs2) option" where
  "control_lvb_read s = do {
     bits \<leftarrow> ls_lvb_bits (sd_lockstruct s);
     let bits = memcpy bits (control_lvb s) GDLM_LVB_SIZE;
     Some (le32_to_cpu bits, bits, upd_lstruct (\<lambda>l. l\<lparr>ls_lvb_bits := Some bits\<rparr>) s)
   }"

definition control_lvb_write :: "u32 \<Rightarrow> u8 list \<Rightarrow> gfs2 \<Rightarrow> gfs2" where
  "control_lvb_write lvb_gen bits s =
     set_control_lvb (memcpy (memcpy (control_lvb s) bits GDLM_LVB_SIZE) (cpu_to_le32 lvb_gen) 4) s"

abbreviation (input) JID_BITMAP_OFFSET :: nat where "JID_BITMAP_OFFSET \<equiv> 8"

definition all_jid_bits_clear :: "u8 list \<Rightarrow> bool" where
  "all_jid_bits_clear lvb = list_all (\<lambda>b. b = 0) (take (GDLM_LVB_SIZE - JID_BITMAP_OFFSET) (drop JID_BITMAP_OFFSET lvb))"

text \<open>\<open>test_bit_le\<close>, \<open>__set_bit_le\<close> and \<open>__clear_bit_le\<close> of the bit of a journal; outside the buffer they
  are a fault.\<close>

definition jid_byte :: "nat \<Rightarrow> nat" where
  "jid_byte i = JID_BITMAP_OFFSET + i div 8"

definition test_jid :: "nat \<Rightarrow> u8 list \<Rightarrow> bool option" where
  "test_jid i bits = (if jid_byte i < length bits then Some (bit (bits ! jid_byte i) (i mod 8)) else None)"

definition set_jid :: "nat \<Rightarrow> u8 list \<Rightarrow> u8 list option" where
  "set_jid i bits = (if jid_byte i < length bits
     then Some (bits[jid_byte i := set_bit (i mod 8) (bits ! jid_byte i)]) else None)"

definition clear_jid :: "nat \<Rightarrow> u8 list \<Rightarrow> u8 list option" where
  "clear_jid i bits = (if jid_byte i < length bits
     then Some (bits[jid_byte i := unset_bit (i mod 8) (bits ! jid_byte i)]) else None)"

section \<open>The mounted lock and the control lock\<close>

text \<open>\<open>snprintf(strname, GDLM_STRNAME_BYTES, "%8x%16x", LM_TYPE_NONDISK, num)\<close>.\<close>

fun hex_digits :: "nat \<Rightarrow> u8 list" where
  "hex_digits n = (if n < 16 then [hex_asc ! n] else hex_digits (n div 16) @ [hex_asc ! (n mod 16)])"

declare hex_digits.simps [simp del]

definition pad_left :: "nat \<Rightarrow> u8 list \<Rightarrow> u8 list" where
  "pad_left k cs = replicate (k - length cs) 32 @ cs"

definition sync_strname :: "u32 \<Rightarrow> u8 list" where
  "sync_strname num =
     (let cs = take (GDLM_STRNAME_BYTES - 1) (pad_left 8 (hex_digits (unat LM_TYPE_NONDISK)) @ pad_left 16 (hex_digits (unat num)))
      in cs @ replicate (GDLM_STRNAME_BYTES - length cs) 0)"

definition sb_of :: "lksbp \<Rightarrow> gfs2 \<Rightarrow> dlm_lksb" where
  "sb_of p s = ls_lksbs (gs_dlm s) p"

text \<open>\<open>wait_for_completion(&ls->ls_sync_wait)\<close>.\<close>

definition await_sync :: "gfs2_env \<Rightarrow> gfs2 \<Rightarrow> gfs2" where
  "await_sync env s = wait_sync env (gs_tick s) (s\<lparr>gs_tick := gs_tick s + 1\<rparr>)"

definition sync_unlock :: "gfs2_env \<Rightarrow> lksbp \<Rightarrow> gfs2 \<Rightarrow> (int \<times> gfs2) option" where
  "sync_unlock env lksb s = do {
     (error, d) \<leftarrow> dlm_unlock (g_dlm env) (sb_lkid (sb_of lksb s)) 0 (ls_arg env) (gs_dlm s);
     let s = s\<lparr>gs_dlm := d\<rparr>;
     if error \<noteq> 0 then Some (error, s)
     else (let s = await_sync env s in
       if sb_status (sb_of lksb s) \<noteq> -DLM_EUNLOCK then Some (-1, s) else Some (0, s))
   }"

definition sync_lock :: "gfs2_env \<Rightarrow> int \<Rightarrow> u32 \<Rightarrow> u32 \<Rightarrow> lksbp \<Rightarrow> gfs2 \<Rightarrow> (int \<times> gfs2) option" where
  "sync_lock env mode flags num lksb s = do {
     (error, d) \<leftarrow> dlm_lock (g_dlm env) mode (Some lksb) flags (sync_strname num) (GDLM_STRNAME_BYTES - 1) 0
        (Some (sync_wait_fn env)) (ls_arg env) None (gs_dlm s);
     let s = s\<lparr>gs_dlm := d\<rparr>;
     if error \<noteq> 0 then Some (error, s)
     else (let s = await_sync env s in Some (sb_status (sb_of lksb s), s))
   }"

definition mounted_unlock :: "gfs2_env \<Rightarrow> gfs2 \<Rightarrow> (int \<times> gfs2) option" where
  "mounted_unlock env s = sync_unlock env (ls_mounted_lksb (sd_lockstruct s)) s"

definition mounted_lock :: "gfs2_env \<Rightarrow> int \<Rightarrow> u32 \<Rightarrow> gfs2 \<Rightarrow> (int \<times> gfs2) option" where
  "mounted_lock env mode flags s =
     sync_lock env mode flags (mounted_lock_num env) (ls_mounted_lksb (sd_lockstruct s)) s"

definition control_unlock :: "gfs2_env \<Rightarrow> gfs2 \<Rightarrow> (int \<times> gfs2) option" where
  "control_unlock env s = sync_unlock env (ls_control_lksb (sd_lockstruct s)) s"

definition control_lock :: "gfs2_env \<Rightarrow> int \<Rightarrow> u32 \<Rightarrow> gfs2 \<Rightarrow> (int \<times> gfs2) option" where
  "control_lock env mode flags s =
     sync_lock env mode flags (control_lock_num env) (ls_control_lksb (sd_lockstruct s)) s"

section \<open>The control work\<close>

definition ls_flag :: "nat \<Rightarrow> gfs2 \<Rightarrow> bool" where
  "ls_flag n s = bit (ls_recover_flags (sd_lockstruct s)) n"

definition ls_set_flag :: "nat \<Rightarrow> gfs2 \<Rightarrow> gfs2" where
  "ls_set_flag n s = upd_lstruct (\<lambda>l. l\<lparr>ls_recover_flags := set_bit n (ls_recover_flags l)\<rparr>) s"

definition ls_clear_flag :: "nat \<Rightarrow> gfs2 \<Rightarrow> gfs2" where
  "ls_clear_flag n s = upd_lstruct (\<lambda>l. l\<lparr>ls_recover_flags := unset_bit n (ls_recover_flags l)\<rparr>) s"

text \<open>The journals of the other nodes are checked until one of them cannot be recovered.\<close>

fun remote_withdraw_list :: "gfs2_env \<Rightarrow> int list \<Rightarrow> gfs2 \<Rightarrow> gfs2" where
  "remote_withdraw_list env [] s = s"
| "remote_withdraw_list env (jid # js) s =
     (if jid = ls_jid (sd_lockstruct s) then remote_withdraw_list env js s
      else (let ret = gfs2_recover_journal env (gs_tick s); s = s\<lparr>gs_tick := gs_tick s + 1\<rparr> in
        if ret \<noteq> 0 then s else remote_withdraw_list env js s))"

definition remote_withdraw :: "gfs2_env \<Rightarrow> gfs2 \<Rightarrow> gfs2" where
  "remote_withdraw env s = remote_withdraw_list env (sd_jindex s) s"

text \<open>Whether there is anything to do: the generations \<open>block_gen\<close> and \<open>start_gen\<close> it is done for.\<close>

definition control_begin :: "gfs2 \<Rightarrow> (u32 \<times> u32) option" where
  "control_begin s =
     (if \<not> ls_flag DFL_MOUNT_DONE s \<or> ls_flag DFL_FIRST_MOUNT s then None
      else (let l = sd_lockstruct s in
        if ls_recover_block l = ls_recover_start l then None
        else Some (ls_recover_block l, ls_recover_start l)))"

text \<open>The loops over the journals. The state of the first one is the results, the bits and
  \<open>write_lvb\<close>.\<close>

fun clear_recovered :: "nat list \<Rightarrow> u32 list \<times> u8 list \<times> bool \<Rightarrow> (u32 list \<times> u8 list \<times> bool) option" where
  "clear_recovered [] st = Some st"
| "clear_recovered (i # is) (results, bits, w) =
     (if results ! i \<noteq> LM_RD_SUCCESS then clear_recovered is (results, bits, w)
      else do {
        let results = results[i := 0];
        b \<leftarrow> test_jid i bits;
        if \<not> b then clear_recovered is (results, bits, w)
        else do { bits \<leftarrow> clear_jid i bits; clear_recovered is (results, bits, True) }
      })"

definition drop_old_submits :: "u32 \<Rightarrow> u32 list \<Rightarrow> u32 list" where
  "drop_old_submits lvb_gen submit = map (\<lambda>g. if g \<noteq> 0 \<and> g < lvb_gen then 0 else g) submit"

fun set_submitted :: "u32 \<Rightarrow> nat list \<Rightarrow> u32 list \<times> u8 list \<Rightarrow> (u32 list \<times> u8 list) option" where
  "set_submitted start_gen [] st = Some st"
| "set_submitted start_gen (i # is) (submit, bits) =
     (if submit ! i = 0 then set_submitted start_gen is (submit, bits)
      else if submit ! i < start_gen
      then do { bits \<leftarrow> set_jid i bits; set_submitted start_gen is (submit[i := 0], bits) }
      else set_submitted start_gen is (submit, bits))"

text \<open>The new arrays, bits and \<open>write_lvb\<close>.\<close>

definition control_bits ::
  "u32 \<Rightarrow> u32 \<Rightarrow> u8 list \<Rightarrow> lm_lockstruct \<Rightarrow> (u32 list \<times> u32 list \<times> u8 list \<times> bool) option" where
  "control_bits lvb_gen start_gen bits l = do {
     let size = length (ls_recover_submit l);
     (results, bits, w) \<leftarrow> (if lvb_gen \<le> start_gen
        then clear_recovered [0..<size] (ls_recover_result l, bits, False)
        else Some (ls_recover_result l, bits, False));
     if lvb_gen = start_gen then Some (drop_old_submits lvb_gen (ls_recover_submit l), results, bits, w)
     else if lvb_gen < start_gen then do {
       (submit, bits) \<leftarrow> set_submitted start_gen [0..<size] (ls_recover_submit l, bits);
       Some (submit, results, bits, True)
     }
     else Some (ls_recover_submit l, results, bits, w)
   }"

text \<open>The update under \<open>ls_recover_spin\<close>, after the control lock has been taken: whether the value
  block has been written, or \<open>None\<close> when the generations have changed meanwhile.\<close>

definition control_update :: "u32 \<Rightarrow> u32 \<Rightarrow> gfs2 \<Rightarrow> (bool option \<times> gfs2) option" where
  "control_update block_gen start_gen s = do {
     (lvb_gen, bits, s) \<leftarrow> control_lvb_read s;
     let l = sd_lockstruct s;
     if block_gen \<noteq> ls_recover_block l \<or> start_gen \<noteq> ls_recover_start l then Some (None, s)
     else do {
       (submit, results, bits, w) \<leftarrow> control_bits lvb_gen start_gen bits l;
       let s = upd_lstruct (\<lambda>l. l\<lparr>ls_recover_submit := submit, ls_recover_result := results,
          ls_lvb_bits := Some bits\<rparr>) s;
       Some (Some w, if w then control_lvb_write start_gen bits s else s)
     }
   }"

text \<open>The recovery of the journals whose bit is set is asked for; the number of them.\<close>

fun recover_journals :: "nat list \<Rightarrow> gfs2 \<Rightarrow> (nat \<times> gfs2) option" where
  "recover_journals [] s = Some (0, s)"
| "recover_journals (i # is) s = do {
     bits \<leftarrow> ls_lvb_bits (sd_lockstruct s);
     b \<leftarrow> test_jid i bits;
     if b then do {
       (n, s) \<leftarrow> recover_journals is (s\<lparr>gs_recover_set := i # gs_recover_set s\<rparr>);
       Some (n + 1, s)
     } else recover_journals is s
   }"

definition control_unblock :: "u32 \<Rightarrow> u32 \<Rightarrow> gfs2 \<Rightarrow> gfs2 option" where
  "control_unblock block_gen start_gen s = (let l = sd_lockstruct s in
     if ls_recover_block l = block_gen \<and> ls_recover_start l = start_gen
     then gfs2_glock_thaw (ls_clear_flag DFL_BLOCK_LOCKS s) else Some s)"

text \<open>After the update: the control lock is released and the recoveries are started.\<close>

definition control_finish :: "gfs2_env \<Rightarrow> u32 \<Rightarrow> u32 \<Rightarrow> bool \<Rightarrow> gfs2 \<Rightarrow> gfs2 option" where
  "control_finish env block_gen start_gen write_lvb s = do {
     let recover_size = length (ls_recover_submit (sd_lockstruct s));
     (error, s) \<leftarrow> control_lock env DLM_LOCK_NL
        (if write_lvb then DLM_LKF_CONVERT OR DLM_LKF_VALBLK else DLM_LKF_CONVERT) s;
     if error \<noteq> 0 then Some s
     else do {
       (recover_set, s) \<leftarrow> recover_journals [0..<recover_size] s;
       if recover_set \<noteq> 0 then Some s else control_unblock block_gen start_gen s
     }
   }"

definition gfs2_control_func :: "gfs2_env \<Rightarrow> gfs2 \<Rightarrow> gfs2 option" where
  "gfs2_control_func env s =
     (if bit (sd_flags s) SDF_REMOTE_WITHDRAW
      then (let s = remote_withdraw env s in Some (s\<lparr>sd_flags := unset_bit SDF_REMOTE_WITHDRAW (sd_flags s)\<rparr>))
      else (case control_begin s of
        None \<Rightarrow> Some s
      | Some (block_gen, start_gen) \<Rightarrow> do {
          (error, s) \<leftarrow> control_lock env DLM_LOCK_EX (DLM_LKF_CONVERT OR DLM_LKF_VALBLK) s;
          if error \<noteq> 0 then Some s
          else do {
            (w, s) \<leftarrow> control_update block_gen start_gen s;
            (case w of
               None \<Rightarrow> map_option snd (control_lock env DLM_LOCK_NL DLM_LKF_CONVERT s)
             | Some write_lvb \<Rightarrow> control_finish env block_gen start_gen write_lvb s)
          }
        }))"

section \<open>Mounting\<close>

definition zero_arrays :: "gfs2 \<Rightarrow> gfs2" where
  "zero_arrays s = upd_lstruct (\<lambda>l. l\<lparr>ls_recover_submit := replicate (length (ls_recover_submit l)) 0,
     ls_recover_result := replicate (length (ls_recover_result l)) 0\<rparr>) s"

definition mount_fail :: "gfs2_env \<Rightarrow> int \<Rightarrow> gfs2 \<Rightarrow> ((int \<times> nat \<times> gfs2), int \<times> gfs2) pass option" where
  "mount_fail env error s = do {
     (_, s) \<leftarrow> mounted_unlock env s;
     (_, s) \<leftarrow> control_unlock env s;
     Some (Done (error, s))
   }"

text \<open>The mounted lock is taken in \<open>EX\<close> by the first mounter, in \<open>PR\<close> by the others; a spectator leaves
  it in \<open>NL\<close>. The error, and the mode.\<close>

definition mount_locks :: "gfs2_env \<Rightarrow> gfs2 \<Rightarrow> (int \<times> int \<times> gfs2) option" where
  "mount_locks env s =
     (if sd_spectator s then Some (0, DLM_LOCK_NL, s)
      else do {
        (error, s) \<leftarrow> mounted_lock env DLM_LOCK_EX (DLM_LKF_CONVERT OR DLM_LKF_NOQUEUE) s;
        if error = 0 then Some (0, DLM_LOCK_EX, s)
        else if error \<noteq> -EAGAIN then Some (error, DLM_LOCK_NL, s)
        else do {
          (error, s) \<leftarrow> mounted_lock env DLM_LOCK_PR (DLM_LKF_CONVERT OR DLM_LKF_NOQUEUE) s;
          Some (error, if error = 0 then DLM_LOCK_PR else DLM_LOCK_NL, s)
        }
      })"

text \<open>A mounter that is not the first waits until the value block has its generation and no bit is
  set.\<close>

definition mount_wait :: "gfs2_env \<Rightarrow> int \<Rightarrow> nat \<Rightarrow> u32 \<Rightarrow> u8 list \<Rightarrow> gfs2 \<Rightarrow>
  ((int \<times> nat \<times> gfs2), int \<times> gfs2) pass" where
  "mount_wait env mode retries lvb_gen bits s = (let l = sd_lockstruct s in
     if \<not> all_jid_bits_clear bits then Retry (mode, retries, s)
     else if lvb_gen < ls_recover_mount l
     then Retry (mode, retries, if sd_spectator s
            then wait_msleep env (gs_tick s) (s\<lparr>gs_tick := gs_tick s + 1\<rparr>) else s)
     else if lvb_gen \<noteq> ls_recover_start l then Retry (mode, retries, s)
     else if ls_recover_block l = ls_recover_start l then Retry (mode, retries, s)
     else Done (0, zero_arrays (ls_set_flag DFL_MOUNT_DONE (ls_clear_flag DFL_BLOCK_LOCKS s))))"

definition mount_decide :: "gfs2_env \<Rightarrow> int \<Rightarrow> nat \<Rightarrow> gfs2 \<Rightarrow> ((int \<times> nat \<times> gfs2), int \<times> gfs2) pass option" where
  "mount_decide env mode retries s = do {
     (lvb_gen, bits, s) \<leftarrow> control_lvb_read s;
     if lvb_gen = 0xFFFFFFFF then mount_fail env (-EINVAL) s
     else if mode = DLM_LOCK_EX
     then Some (Done (0, ls_set_flag DFL_FIRST_MOUNT (ls_set_flag DFL_MOUNT_DONE (ls_clear_flag DFL_BLOCK_LOCKS s))))
     else do {
       (error, s) \<leftarrow> control_lock env DLM_LOCK_NL DLM_LKF_CONVERT s;
       if error \<noteq> 0 then mount_fail env error s
       else do {
         bits \<leftarrow> ls_lvb_bits (sd_lockstruct s);
         Some (mount_wait env mode retries lvb_gen bits s)
       }
     }
   }"

text \<open>One turn of the loop around \<open>restart\<close>: the mode of the mounted lock, and the number of turns
  before this one.\<close>

definition mount_pass :: "gfs2_env \<Rightarrow> int \<times> nat \<times> gfs2 \<Rightarrow> ((int \<times> nat \<times> gfs2), int \<times> gfs2) pass option" where
  "mount_pass env st = (case st of (mode, retries, s) \<Rightarrow>
     (if retries \<noteq> 0 \<and> signal_pending (g_dlm env) then mount_fail env (-EINTR) s
      else do {
        (error, s) \<leftarrow> (if mode \<noteq> DLM_LOCK_NL then mounted_lock env DLM_LOCK_NL DLM_LKF_CONVERT s else Some (0, s));
        if error \<noteq> 0 then mount_fail env error s
        else do {
          let s = wait_msleep env (gs_tick s) (s\<lparr>gs_tick := gs_tick s + 1\<rparr>);
          (error, s) \<leftarrow> control_lock env DLM_LOCK_EX (DLM_LKF_CONVERT OR DLM_LKF_NOQUEUE OR DLM_LKF_VALBLK) s;
          if error = -EAGAIN then Some (Retry (DLM_LOCK_NL, retries + 1, s))
          else if error \<noteq> 0 then mount_fail env error s
          else do {
            (error, mode, s) \<leftarrow> mount_locks env s;
            if error \<noteq> 0 then mount_fail env error s
            else mount_decide env mode (retries + 1) s
          }
        }
      }))"

definition zero_lksb :: dlm_lksb where
  "zero_lksb = \<lparr>sb_status = 0, sb_lkid = 0, sb_flags = 0, sb_lvbptr = None\<rparr>"

definition mount_init :: "gfs2 \<Rightarrow> gfs2" where
  "mount_init s = (let l = sd_lockstruct s; d = gs_dlm s;
       s = s\<lparr>gs_dlm := d\<lparr>ls_lksbs := (ls_lksbs d)(ls_mounted_lksb l := zero_lksb,
          ls_control_lksb l := zero_lksb\<lparr>sb_lvbptr := Some (ls_control_lvb l)\<rparr>)\<rparr>\<rparr>
     in ls_set_flag DFL_BLOCK_LOCKS (set_control_lvb (replicate GDLM_LVB_SIZE 0) s))"

definition control_mount :: "gfs2_env \<Rightarrow> gfs2 \<Rightarrow> (int \<times> gfs2) option" where
  "control_mount env s = do {
     let s = mount_init s;
     (error, s) \<leftarrow> control_lock env DLM_LOCK_NL DLM_LKF_VALBLK s;
     if error \<noteq> 0 then Some (error, s)
     else do {
       (error, s) \<leftarrow> mounted_lock env DLM_LOCK_NL 0 s;
       if error \<noteq> 0 then do { (_, s) \<leftarrow> control_unlock env s; Some (error, s) }
       else retry (mount_pass env) (DLM_LOCK_NL, 0, s)
     }
   }"

text \<open>The end of the first mounter's recovery.\<close>

definition first_done_pass :: "gfs2_env \<Rightarrow> gfs2 \<Rightarrow> (gfs2, int \<times> gfs2) pass option" where
  "first_done_pass env s = (let l = sd_lockstruct s in
     if ls_flag DFL_BLOCK_LOCKS s \<or> \<not> ls_flag DFL_MOUNT_DONE s \<or> \<not> ls_flag DFL_FIRST_MOUNT s
     then do { (_, s) \<leftarrow> control_unlock env s; Some (Done (-1, s)) }
     else if ls_recover_start l = ls_recover_block l
     then Some (Retry (wait_recovery env (gs_tick s) (s\<lparr>gs_tick := gs_tick s + 1\<rparr>)))
     else do {
       let start_gen = ls_recover_start l;
       let s = zero_arrays (ls_set_flag DFL_FIRST_MOUNT_DONE (ls_clear_flag DFL_FIRST_MOUNT s));
       bits \<leftarrow> ls_lvb_bits l;
       let bits = memcpy bits (replicate GDLM_LVB_SIZE 0) GDLM_LVB_SIZE;
       let s = control_lvb_write start_gen bits (upd_lstruct (\<lambda>l. l\<lparr>ls_lvb_bits := Some bits\<rparr>) s);
       (_, s) \<leftarrow> mounted_lock env DLM_LOCK_PR DLM_LKF_CONVERT s;
       (error, s) \<leftarrow> control_lock env DLM_LOCK_NL (DLM_LKF_CONVERT OR DLM_LKF_VALBLK) s;
       Some (Done (error, s))
     })"

definition control_first_done :: "gfs2_env \<Rightarrow> gfs2 \<Rightarrow> (int \<times> gfs2) option" where
  "control_first_done env s = retry (first_done_pass env) s"

section \<open>Callbacks of recovery\<close>

text \<open>The new size of the arrays: the smallest multiple of 16 above the old size that has room for
  the largest id.\<close>

function grow_size :: "nat \<Rightarrow> nat \<Rightarrow> nat" where
  "grow_size max_jid n = (if n < max_jid + 1 then grow_size max_jid (n + 16) else n)"
  by pat_completeness auto
termination
  by (relation "measure (\<lambda>(m, n). m + 1 - n)") auto

declare grow_size.simps [simp del]

definition max_jid_of :: "int list \<Rightarrow> nat" where
  "max_jid_of slots = foldl (\<lambda>m slot. if int m < slot - 1 then nat (slot - 1) else m) 0 slots"

definition set_recover_size :: "gfs2_env \<Rightarrow> int list \<Rightarrow> gfs2 \<Rightarrow> int \<times> gfs2" where
  "set_recover_size env slots s = (let l = sd_lockstruct s; t = gs_tick s; s = s\<lparr>gs_tick := t + 3\<rparr> in
     if ls_lvb_bits l = None \<and> \<not> alloc_mem env t then (-ENOMEM, s)
     else (let s = (if ls_lvb_bits l = None
              then upd_lstruct (\<lambda>l. l\<lparr>ls_lvb_bits := Some (replicate GDLM_LVB_SIZE 0)\<rparr>) s else s);
            old_size = length (ls_recover_submit l);
            new_size = grow_size (max_jid_of slots) old_size
       in if new_size = old_size then (0, s)
          else if \<not> alloc_mem env (t + 1) \<or> \<not> alloc_mem env (t + 2) then (-ENOMEM, s)
          else (0, upd_lstruct (\<lambda>l. l\<lparr>
             ls_recover_submit := ls_recover_submit l @ replicate (new_size - old_size) 0,
             ls_recover_result := ls_recover_result l @ replicate (new_size - old_size) 0\<rparr>) s)))"

definition free_recover_size :: "gfs2 \<Rightarrow> gfs2" where
  "free_recover_size s = upd_lstruct (\<lambda>l. l\<lparr>ls_recover_submit := [], ls_recover_result := [],
     ls_lvb_bits := None\<rparr>) s"

definition withdrawn :: "gfs2_env \<Rightarrow> gfs2 \<Rightarrow> bool" where
  "withdrawn env s = gfs2_withdrawn env (sd_flags s)"

definition gdlm_recover_prep :: "gfs2_env \<Rightarrow> gfs2 \<Rightarrow> gfs2" where
  "gdlm_recover_prep env s =
     (if withdrawn env s then s
      else (let s = upd_lstruct (\<lambda>l. l\<lparr>ls_recover_block := ls_recover_start l\<rparr>) s;
                s = ls_set_flag DFL_DLM_RECOVERY s
        in if \<not> ls_flag DFL_MOUNT_DONE s \<or> ls_flag DFL_FIRST_MOUNT s then s
           else ls_set_flag DFL_BLOCK_LOCKS s))"

text \<open>The comparison with the size is one of \<open>unsigned\<close> numbers.\<close>

definition gdlm_recover_slot :: "gfs2_env \<Rightarrow> int \<Rightarrow> gfs2 \<Rightarrow> gfs2 option" where
  "gdlm_recover_slot env slot s = (let jid = slot - 1; l = sd_lockstruct s in
     if withdrawn env s then Some s
     else if (of_nat (length (ls_recover_submit l)) :: u32) < word_of_int (jid + 1) then Some s
     else if jid < 0 \<or> length (ls_recover_submit l) \<le> nat jid then None
     else Some (upd_lstruct (\<lambda>l. l\<lparr>ls_recover_submit := (ls_recover_submit l)[nat jid := ls_recover_block l]\<rparr>) s))"

definition queue_control_work :: "u64 \<Rightarrow> gfs2 \<Rightarrow> gfs2" where
  "queue_control_work delay s = (if gs_control_work s = None then s\<lparr>gs_control_work := Some delay\<rparr> else s)"

definition gdlm_recover_done :: "gfs2_env \<Rightarrow> int list \<Rightarrow> int \<Rightarrow> u32 \<Rightarrow> gfs2 \<Rightarrow> gfs2" where
  "gdlm_recover_done env slots our_slot generation s =
     (if withdrawn env s then s
      else (let s = snd (set_recover_size env slots s);
                s = upd_lstruct (\<lambda>l. l\<lparr>ls_recover_start := generation\<rparr>) s;
                s = (if ls_recover_mount (sd_lockstruct s) = 0
                     then upd_lstruct (\<lambda>l. l\<lparr>ls_recover_mount := generation, ls_jid := our_slot - 1\<rparr>) s else s);
                s = (if \<not> ls_flag DFL_UNMOUNT s then queue_control_work 0 s else s)
        in ls_clear_flag DFL_DLM_RECOVERY s))"

definition gdlm_recovery_result :: "gfs2_env \<Rightarrow> u32 \<Rightarrow> u32 \<Rightarrow> gfs2 \<Rightarrow> gfs2 option" where
  "gdlm_recovery_result env jid result s = (let l = sd_lockstruct s in
     if withdrawn env s then Some s
     else if ls_flag DFL_NO_DLM_OPS s then Some s
     else if jid = word_of_int (ls_jid l) then Some s
     else if ls_flag DFL_FIRST_MOUNT s then Some s
     else if (of_nat (length (ls_recover_result l)) :: u32) < jid + 1 then Some s
     else if length (ls_recover_result l) \<le> unat jid then None
     else (let s = upd_lstruct (\<lambda>l. l\<lparr>ls_recover_result := (ls_recover_result l)[unat jid := result]\<rparr>) s in
       Some (if \<not> ls_flag DFL_UNMOUNT s
             then queue_control_work (if result = LM_RD_GAVEUP then hz (g_dlm env) else 0) s else s)))"

section \<open>The operations of the lock module\<close>

definition reset_lockstruct :: "gfs2 \<Rightarrow> gfs2" where
  "reset_lockstruct s = upd_lstruct (\<lambda>l. l\<lparr>ls_recover_flags := 0, ls_recover_mount := 0, ls_recover_start := 0,
     ls_recover_block := 0, ls_recover_submit := [], ls_recover_result := [], ls_lvb_bits := None\<rparr>) s"

text \<open>After the lockspace has been joined; \<open>fail_release\<close> leaves it.\<close>

definition mount_joined :: "gfs2_env \<Rightarrow> int \<Rightarrow> gfs2 \<Rightarrow> (int \<times> gfs2) option" where
  "mount_joined env ops_result s =
     (if ops_result < 0 then Some (0, ls_set_flag DFL_NO_DLM_OPS (free_recover_size s))
      else if \<not> bit (sd_flags s) SDF_NOJOURNALID
      then Some (-EINVAL, free_recover_size (leave_lockspace env s))
      else do {
        (error, s) \<leftarrow> control_mount env s;
        if error \<noteq> 0 then Some (error, free_recover_size (leave_lockspace env s))
        else (let s = upd_lstruct (\<lambda>l. l\<lparr>ls_first := bit (ls_recover_flags l) DFL_FIRST_MOUNT\<rparr>) s in
          Some (0, s\<lparr>sd_flags := unset_bit SDF_NOJOURNALID (sd_flags s)\<rparr>))
      })"

text \<open>\<open>table\<close> is \<open>cluster:fsname\<close>.\<close>

definition gdlm_mount :: "gfs2_env \<Rightarrow> u8 list \<Rightarrow> gfs2 \<Rightarrow> (int \<times> gfs2) option" where
  "gdlm_mount env table s = do {
     let s = reset_lockstruct s;
     let (error, s) = set_recover_size env [] s;
     if error \<noteq> 0 then Some (error, s)
     else if 58 \<notin> set table then Some (-EINVAL, free_recover_size s)
     else do {
       let cluster = takeWhile (\<lambda>c. c \<noteq> 58) table;
       let fsname = drop (length cluster + 1) table;
       let (error, ops_result, s) = join_lockspace env fsname cluster s;
       if error \<noteq> 0 then Some (error, free_recover_size s)
       else mount_joined env ops_result (upd_lstruct (\<lambda>l. l\<lparr>ls_dlm_set := True\<rparr>) s)
     }
   }"

definition gdlm_first_done :: "gfs2_env \<Rightarrow> gfs2 \<Rightarrow> gfs2 option" where
  "gdlm_first_done env s =
     (if ls_flag DFL_NO_DLM_OPS s then Some s else map_option snd (control_first_done env s))"

text \<open>The queued control work runs before the lockspace is left (\<open>flush_delayed_work\<close>).\<close>

definition flush_control_work :: "gfs2_env \<Rightarrow> gfs2 \<Rightarrow> gfs2 option" where
  "flush_control_work env s =
     (if gs_control_work s = None then Some s else gfs2_control_func env (s\<lparr>gs_control_work := None\<rparr>))"

definition gdlm_unmount :: "gfs2_env \<Rightarrow> gfs2 \<Rightarrow> gfs2 option" where
  "gdlm_unmount env s = do {
     s \<leftarrow> (if ls_flag DFL_NO_DLM_OPS s then Some s
          else flush_control_work env (ls_set_flag DFL_UNMOUNT s));
     let s = (if ls_dlm_set (sd_lockstruct s)
          then upd_lstruct (\<lambda>l. l\<lparr>ls_dlm_set := False\<rparr>) (leave_lockspace env s) else s);
     Some (free_recover_size s)
   }"

end
