(* ===== verification/Gfs2_Recovery.thy ===== *)
theory Gfs2_Recovery
  imports Gfs2_Control Runs
begin

text \<open>
  While the lock manager recovers, the file system's locks stay blocked; what an update of the value
  block of the control lock does to the bits of the journals.
\<close>

section \<open>Runs\<close>

definition blocked_ok :: "gfs2 \<Rightarrow> bool" where
  "blocked_ok s \<longleftrightarrow> (ls_flag DFL_MOUNT_DONE s \<and> \<not> ls_flag DFL_FIRST_MOUNT s \<and>
     ls_recover_block (sd_lockstruct s) = ls_recover_start (sd_lockstruct s) \<longrightarrow> ls_flag DFL_BLOCK_LOCKS s)"

text \<open>What else may happen at any time: the callbacks of recovery, where each end of a recovery has a
  new generation, and anything that leaves \<open>sd_lockstruct\<close> alone.\<close>

inductive recovery_step :: "gfs2_env \<Rightarrow> gfs2 \<Rightarrow> gfs2 \<Rightarrow> bool" for env where
  prep: "recovery_step env s (gdlm_recover_prep env s)"
| slot: "gdlm_recover_slot env slot s = Some s' \<Longrightarrow> recovery_step env s s'"
| finish: "generation \<noteq> ls_recover_block (sd_lockstruct s) \<Longrightarrow>
    recovery_step env s (gdlm_recover_done env slots our_slot generation s)"
| result: "gdlm_recovery_result env jid r s = Some s' \<Longrightarrow> recovery_step env s s'"
| elsewhere: "sd_lockstruct s' = sd_lockstruct s \<Longrightarrow> recovery_step env s s'"

text \<open>While a caller waits, or joins or leaves the lockspace, nothing else happens.\<close>

definition waits_ok :: "gfs2_env \<Rightarrow> bool" where
  "waits_ok env \<longleftrightarrow> (\<forall>t s. (recovery_step env)\<^sup>*\<^sup>* s (wait_sync env t s) \<and>
       (recovery_step env)\<^sup>*\<^sup>* s (wait_recovery env t s) \<and> (recovery_step env)\<^sup>*\<^sup>* s (wait_msleep env t s)) \<and>
     (\<forall>f c s e r s'. join_lockspace env f c s = (e, r, s') \<longrightarrow> (recovery_step env)\<^sup>*\<^sup>* s s') \<and>
     (\<forall>s. (recovery_step env)\<^sup>*\<^sup>* s (leave_lockspace env s))"

inductive node_step :: "gfs2_env \<Rightarrow> gfs2 \<Rightarrow> gfs2 \<Rightarrow> bool" for env where
  callback: "recovery_step env s s' \<Longrightarrow> node_step env s s'"
| control: "gfs2_control_func env s = Some s' \<Longrightarrow> node_step env s s'"
| mount: "gdlm_mount env table s = Some (e, s') \<Longrightarrow> node_step env s s'"
| first_done: "gdlm_first_done env s = Some s' \<Longrightarrow> node_step env s s'"
| unmount: "gdlm_unmount env s = Some s' \<Longrightarrow> node_step env s s'"

section \<open>What the claim is about\<close>

definition ls_core :: "gfs2 \<Rightarrow> u64 \<times> u32 \<times> u32" where
  "ls_core s = (let l = sd_lockstruct s in (ls_recover_flags l, ls_recover_block l, ls_recover_start l))"

lemma blocked_core: "ls_core s' = ls_core s \<Longrightarrow> blocked_ok s' = blocked_ok s"
  by (simp add: ls_core_def blocked_ok_def ls_flag_def Let_def)

lemma same_ls_blocked: "sd_lockstruct s' = sd_lockstruct s \<Longrightarrow> blocked_ok s' = blocked_ok s"
  by (rule blocked_core) (simp add: ls_core_def)

lemma lstruct_upd [simp]: "sd_lockstruct (upd_lstruct f s) = f (sd_lockstruct s)"
  by (simp add: upd_lstruct_def)

lemma set_flag_ls [simp]:
  "n < 64 \<Longrightarrow> ls_flag m (ls_set_flag n s) \<longleftrightarrow> m = n \<or> ls_flag m s"
  "ls_recover_block (sd_lockstruct (ls_set_flag n s)) = ls_recover_block (sd_lockstruct s)"
  "ls_recover_start (sd_lockstruct (ls_set_flag n s)) = ls_recover_start (sd_lockstruct s)"
  by (auto simp: ls_flag_def ls_set_flag_def bit_set_bit_iff)

lemma clear_flag_ls [simp]:
  "ls_flag m (ls_clear_flag n s) \<longleftrightarrow> m \<noteq> n \<and> ls_flag m s"
  "ls_recover_block (sd_lockstruct (ls_clear_flag n s)) = ls_recover_block (sd_lockstruct s)"
  "ls_recover_start (sd_lockstruct (ls_clear_flag n s)) = ls_recover_start (sd_lockstruct s)"
  by (auto simp: ls_flag_def ls_clear_flag_def bit_unset_bit_iff)

lemma ls_flag_upd [simp]:
  "ls_recover_flags (f (sd_lockstruct s)) = ls_recover_flags (sd_lockstruct s) \<Longrightarrow> ls_flag m (upd_lstruct f s) = ls_flag m s"
  by (simp add: ls_flag_def)

text \<open>Operations that leave the flags and the generations alone.\<close>

lemma blocked_same [simp]:
  "blocked_ok (s\<lparr>gs_tick := t\<rparr>) = blocked_ok s" "blocked_ok (s\<lparr>gs_dlm := d\<rparr>) = blocked_ok s"
  "blocked_ok (s\<lparr>sd_flags := w\<rparr>) = blocked_ok s" "blocked_ok (s\<lparr>gs_control_work := c\<rparr>) = blocked_ok s"
  "blocked_ok (s\<lparr>gs_recover_set := r\<rparr>) = blocked_ok s" "blocked_ok (zero_arrays s) = blocked_ok s"
  "blocked_ok (free_recover_size s) = blocked_ok s" "blocked_ok (set_control_lvb bs s) = blocked_ok s"
  "blocked_ok (control_lvb_write gen bits s) = blocked_ok s" "blocked_ok (queue_control_work delay s) = blocked_ok s"
  "blocked_ok (upd_lstruct (\<lambda>l. l\<lparr>ls_dlm_set := b\<rparr>) s) = blocked_ok s"
  "blocked_ok (upd_lstruct (\<lambda>l. l\<lparr>ls_first := f l\<rparr>) s) = blocked_ok s"
  "blocked_ok (upd_lstruct (\<lambda>l. l\<lparr>ls_lvb_bits := lb\<rparr>) s) = blocked_ok s"
  "blocked_ok (upd_lstruct (\<lambda>l. l\<lparr>ls_recover_submit := sub, ls_recover_result := res, ls_lvb_bits := lb\<rparr>) s) = blocked_ok s"
  by (rule blocked_core, simp add: ls_core_def zero_arrays_def free_recover_size_def set_control_lvb_def
      control_lvb_write_def queue_control_work_def Let_def)+

lemma set_size_core: "set_recover_size env slots s = (e, s') \<Longrightarrow> ls_core s' = ls_core s"
  by (auto simp: set_recover_size_def Let_def ls_core_def split: if_splits)

section \<open>Results\<close>

text \<open>What holds of the result, if there is one.\<close>

definition post :: "'a option \<Rightarrow> ('a \<Rightarrow> bool) \<Rightarrow> bool" where
  "post m Q \<longleftrightarrow> (\<forall>x. m = Some x \<longrightarrow> Q x)"

lemma post_simps [simp]:
  "post (Some x) Q = Q x" "post None Q" "post (m \<bind> f) Q = post m (\<lambda>x. post (f x) Q)"
  "post (map_option h m) Q = post m (\<lambda>x. Q (h x))"
  by (auto simp: post_def bind_eq_Some_conv)

lemma post_mono: "post m P \<Longrightarrow> (\<And>x. P x \<Longrightarrow> Q x) \<Longrightarrow> post m Q"
  by (simp add: post_def)

lemma post_any: "(\<And>x. m = Some x \<Longrightarrow> Q x) \<Longrightarrow> post m Q"
  by (simp add: post_def)

lemma post_each: "(\<And>x. Q x) \<Longrightarrow> post m Q"
  by (simp add: post_def)

lemma post_D: "post m Q \<Longrightarrow> m = Some x \<Longrightarrow> Q x"
  by (simp add: post_def)

lemma post_retry:
  assumes "\<And>s. I s \<Longrightarrow> post (f s) (\<lambda>p. case p of Retry s' \<Rightarrow> I s' | Done a \<Rightarrow> Q a)" and "I s"
  shows "post (retry f s) Q"
  using retry_invariant [of I f Q s] assms unfolding post_def by blast

abbreviation (input) keeps_blocked :: "('a \<times> gfs2) option \<Rightarrow> bool" where
  "keeps_blocked m \<equiv> post m (\<lambda>(a, s). blocked_ok s)"

section \<open>Callbacks\<close>

lemma recover_done_blocked:
  assumes "blocked_ok s" and "generation \<noteq> ls_recover_block (sd_lockstruct s)"
  shows "blocked_ok (gdlm_recover_done env slots our_slot generation s)"
proof (cases "withdrawn env s")
  case False
  let ?t = "snd (set_recover_size env slots s)"
  have "ls_core ?t = ls_core s" by (rule set_size_core [of env slots s "fst (set_recover_size env slots s)"]) simp
  then have b: "ls_recover_block (sd_lockstruct ?t) = ls_recover_block (sd_lockstruct s)"
    by (simp add: ls_core_def Let_def)
  show ?thesis
    unfolding gdlm_recover_done_def Let_def if_not_P [OF False]
    by (simp add: blocked_ok_def queue_control_work_def b assms(2) [symmetric])
qed (simp add: gdlm_recover_done_def assms(1))

lemma recovery_step_blocked: "recovery_step env s s' \<Longrightarrow> blocked_ok s \<Longrightarrow> blocked_ok s'"
proof (induction rule: recovery_step.induct)
  case (prep s)
  then show ?case
    by (cases "withdrawn env s"; cases "ls_flag DFL_MOUNT_DONE s"; cases "ls_flag DFL_FIRST_MOUNT s")
      (simp_all add: gdlm_recover_prep_def Let_def blocked_ok_def)
next
  case (slot slot s s')
  then have "ls_core s' = ls_core s"
    by (auto simp: gdlm_recover_slot_def Let_def ls_core_def split: if_split_asm)
  from blocked_core [OF this] show ?case using slot.prems by simp
next
  case (finish generation s slots our_slot)
  show ?case by (rule recover_done_blocked [OF finish.prems finish.hyps])
next
  case (result jid r s s')
  then have "ls_core s' = ls_core s"
    by (auto simp: gdlm_recovery_result_def Let_def ls_core_def queue_control_work_def split: if_split_asm)
  from blocked_core [OF this] show ?case using result.prems by simp
next
  case (elsewhere s' s)
  then show ?case by (simp only: same_ls_blocked [OF elsewhere.hyps])
qed

lemma recovery_steps_blocked: "(recovery_step env)\<^sup>*\<^sup>* s s' \<Longrightarrow> blocked_ok s \<Longrightarrow> blocked_ok s'"
  by (induction rule: rtranclp_induct) (auto intro: recovery_step_blocked)

lemma waits_blocked:
  assumes "waits_ok env" and "blocked_ok s"
  shows "blocked_ok (wait_sync env t s)" "blocked_ok (wait_recovery env t s)" "blocked_ok (wait_msleep env t s)"
    "blocked_ok (leave_lockspace env s)" "join_lockspace env f c s = (e, r, s') \<Longrightarrow> blocked_ok s'"
  using assms recovery_steps_blocked unfolding waits_ok_def by blast+

section \<open>The two locks\<close>

lemma sync_blocked:
  assumes env: "waits_ok env" and ok: "blocked_ok s"
  shows "keeps_blocked (sync_lock env m fl n p s)" "keeps_blocked (sync_unlock env p s)"
  unfolding sync_lock_def sync_unlock_def await_sync_def post_simps
  by (rule post_each, simp add: Let_def ok waits_blocked(1) [OF env] split: prod.split)+

lemma lock_blocked:
  assumes "waits_ok env" and "blocked_ok s"
  shows "keeps_blocked (mounted_lock env m fl s)" "keeps_blocked (control_lock env m fl s)"
    "keeps_blocked (mounted_unlock env s)" "keeps_blocked (control_unlock env s)"
  unfolding mounted_lock_def control_lock_def mounted_unlock_def control_unlock_def
  by (rule sync_blocked [OF assms])+

lemmas lock_posts = lock_blocked [THEN post_mono]

lemma lvb_read_blocked: "blocked_ok s \<Longrightarrow> post (control_lvb_read s) (\<lambda>(gen, bits, s). blocked_ok s)"
  by (auto simp: control_lvb_read_def Let_def intro!: post_any)

section \<open>The control work\<close>

lemma hash_walk_ls:
  assumes "\<And>g s s'. f g s = Some s' \<Longrightarrow> sd_lockstruct s' = sd_lockstruct s"
  shows "glock_hash_walk f gs s = Some s' \<Longrightarrow> sd_lockstruct s' = sd_lockstruct s"
proof (induction gs arbitrary: s)
  case (Cons g gs)
  from Cons.prems obtain s1 where "f g s = Some s1" "glock_hash_walk f gs s1 = Some s'" by (auto simp: bind_eq_Some_conv)
  then show ?case using Cons.IH assms by metis
qed simp

lemma thaw_glock_ls: "thaw_glock g s = Some s' \<Longrightarrow> sd_lockstruct s' = sd_lockstruct s"
  by (auto simp: thaw_glock_def gl_clear_def gl_set_def upd_gl_eq_Some_iff lockref_get_not_dead_def
      gfs2_glock_queue_work_def us_us_gfs2_glock_queue_work_def queue_delayed_work_def gl_ref_add_def
      bind_eq_Some_conv split: if_splits option.splits)

lemma thaw_ls: "gfs2_glock_thaw s = Some s' \<Longrightarrow> sd_lockstruct s' = sd_lockstruct s"
  unfolding gfs2_glock_thaw_def by (rule hash_walk_ls) (rule thaw_glock_ls)

lemma recover_journals_ls: "recover_journals is s = Some (n, s') \<Longrightarrow> sd_lockstruct s' = sd_lockstruct s"
proof (induction "is" arbitrary: n s)
  case (Cons i "is")
  from Cons.prems show ?case
    by (auto simp: bind_eq_Some_conv split: if_split_asm dest: Cons.IH)
qed simp

lemma recover_journals_blocked: "blocked_ok s \<Longrightarrow> keeps_blocked (recover_journals is s)"
  by (rule post_any) (auto dest: recover_journals_ls same_ls_blocked)

lemma unblock_blocked:
  assumes "blocked_ok s" and "block_gen \<noteq> start_gen"
  shows "post (control_unblock block_gen start_gen s) blocked_ok"
proof (cases "ls_recover_block (sd_lockstruct s) = block_gen \<and> ls_recover_start (sd_lockstruct s) = start_gen")
  case True
  then have "blocked_ok (ls_clear_flag DFL_BLOCK_LOCKS s)" using assms(2) by (simp add: blocked_ok_def)
  then have "post (gfs2_glock_thaw (ls_clear_flag DFL_BLOCK_LOCKS s)) blocked_ok"
    by (intro post_any) (simp add: same_ls_blocked [OF thaw_ls])
  then show ?thesis using True by (simp add: control_unblock_def Let_def)
next
  case False
  then show ?thesis using assms(1) unfolding control_unblock_def Let_def by (simp only: if_False post_simps)
qed

lemma update_blocked:
  assumes "blocked_ok s"
  shows "keeps_blocked (control_update block_gen start_gen s)"
proof -
  have "keeps_blocked (do {
       (submit, results, bits, w) \<leftarrow> m;
       let s = upd_lstruct (\<lambda>l. l\<lparr>ls_recover_submit := submit, ls_recover_result := results, ls_lvb_bits := Some bits\<rparr>) t;
       Some (Some w, if w then control_lvb_write start_gen bits s else s)
     })" if "blocked_ok t" for m t
    unfolding post_simps by (rule post_each) (use that in \<open>simp add: Let_def split: prod.split\<close>)
  then show ?thesis
    unfolding control_update_def post_simps
    by (intro post_mono [OF lvb_read_blocked [OF assms]]) (clarsimp simp: Let_def)
qed

lemma finish_blocked:
  assumes env: "waits_ok env" and ok: "blocked_ok s" and ne: "block_gen \<noteq> start_gen"
  shows "post (control_finish env block_gen start_gen w s) blocked_ok"
  unfolding control_finish_def Let_def
  by (auto intro!: lock_posts(2) [OF env ok] post_mono [OF recover_journals_blocked] post_mono [OF unblock_blocked [OF _ ne]])

lemma remote_withdraw_ls [simp]: "sd_lockstruct (remote_withdraw_list env js s) = sd_lockstruct s"
  by (induction js arbitrary: s) (auto simp: Let_def)

lemma control_func_blocked:
  assumes env: "waits_ok env" and ok: "blocked_ok s"
  shows "post (gfs2_control_func env s) blocked_ok"
proof (cases "bit (sd_flags s) SDF_REMOTE_WITHDRAW")
  case True
  have "blocked_ok (remote_withdraw_list env (sd_jindex s) s)" using ok by (simp only: same_ls_blocked [OF remote_withdraw_ls])
  then show ?thesis
    unfolding gfs2_control_func_def if_P [OF True] remote_withdraw_def Let_def post_simps by simp
next
  case F: False
  show ?thesis
  proof (cases "control_begin s")
    case None
    show ?thesis unfolding gfs2_control_func_def if_not_P [OF F] None option.case post_simps by (rule ok)
  next
    case (Some p)
    obtain block_gen start_gen where p: "p = (block_gen, start_gen)" by (cases p)
    have ne: "block_gen \<noteq> start_gen" using Some p by (auto simp: control_begin_def Let_def split: if_splits)
    have w: "post (case w of None \<Rightarrow> map_option snd (control_lock env DLM_LOCK_NL DLM_LKF_CONVERT t)
        | Some write_lvb \<Rightarrow> control_finish env block_gen start_gen write_lvb t) blocked_ok" if t: "blocked_ok t" for w t
      using finish_blocked [OF env t ne] lock_blocked(2) [OF env t]
      by (cases w) (simp_all add: case_prod_unfold)
    have u: "post (do { (w, s) \<leftarrow> control_update block_gen start_gen t;
        (case w of None \<Rightarrow> map_option snd (control_lock env DLM_LOCK_NL DLM_LKF_CONVERT s)
         | Some write_lvb \<Rightarrow> control_finish env block_gen start_gen write_lvb s) }) blocked_ok" if t: "blocked_ok t" for t
      unfolding post_simps by (rule post_mono [OF update_blocked [OF t]]) (clarsimp simp only: prod.case w)
    show ?thesis
      unfolding gfs2_control_func_def if_not_P [OF F] Some p option.case prod.case post_simps(3)
      by (rule lock_posts(2) [OF env ok]) (clarsimp simp only: prod.case u post_simps(1) simp_thms split: if_split)
  qed
qed

section \<open>Mounting\<close>

definition pass_blocked :: "((int \<times> nat \<times> gfs2), int \<times> gfs2) pass \<Rightarrow> bool" where
  "pass_blocked p = (case p of Retry (m, n, s) \<Rightarrow> blocked_ok s | Done (e, s) \<Rightarrow> blocked_ok s)"

lemma pass_blocked_simps [simp]:
  "pass_blocked (Retry (m, n, s)) = blocked_ok s" "pass_blocked (Done (e, s)) = blocked_ok s"
  by (simp_all add: pass_blocked_def)

lemma mount_fail_blocked: "waits_ok env \<Longrightarrow> blocked_ok s \<Longrightarrow> post (mount_fail env error s) pass_blocked"
  by (auto simp: mount_fail_def intro!: lock_posts)

lemma mount_locks_blocked:
  "waits_ok env \<Longrightarrow> blocked_ok s \<Longrightarrow> post (mount_locks env s) (\<lambda>(e, m, s). blocked_ok s)"
  by (auto simp: mount_locks_def intro!: lock_posts)

lemma mount_wait_blocked:
  "waits_ok env \<Longrightarrow> blocked_ok s \<Longrightarrow> pass_blocked (mount_wait env mode retries gen bits s)"
  by (simp add: mount_wait_def Let_def waits_blocked) (simp add: blocked_ok_def)

lemma mount_decide_blocked:
  assumes env: "waits_ok env" and ok: "blocked_ok s"
  shows "post (mount_decide env mode retries s) pass_blocked"
proof -
  have "blocked_ok (ls_set_flag DFL_FIRST_MOUNT (ls_set_flag DFL_MOUNT_DONE (ls_clear_flag DFL_BLOCK_LOCKS t)))" for t
    by (simp add: blocked_ok_def)
  then show ?thesis
    unfolding mount_decide_def post_simps
    by (intro post_mono [OF lvb_read_blocked [OF ok]])
      (auto intro!: mount_fail_blocked [OF env] lock_posts(2) [OF env] post_each [of _ "ls_lvb_bits l" for l] mount_wait_blocked [OF env])
qed

lemma mount_pass_blocked:
  assumes env: "waits_ok env" and ok: "blocked_ok s"
  shows "post (mount_pass env (mode, retries, s)) pass_blocked"
proof -
  have first: "keeps_blocked (if mode \<noteq> DLM_LOCK_NL then mounted_lock env DLM_LOCK_NL DLM_LKF_CONVERT s else Some (0, s))"
    using ok lock_blocked(1) [OF env ok] by simp
  show ?thesis
  proof (cases "retries \<noteq> 0 \<and> signal_pending (g_dlm env)")
    case True
    then show ?thesis unfolding mount_pass_def prod.case if_P [OF True] by (intro mount_fail_blocked [OF env ok])
  next
    case False
    then show ?thesis
      unfolding mount_pass_def prod.case if_not_P [OF False] post_simps
      by (intro post_mono [OF first])
        (auto simp: Let_def intro!: mount_fail_blocked [OF env] lock_posts(2) [OF env] waits_blocked(3) [OF env]
          post_mono [OF mount_locks_blocked [OF env]] mount_decide_blocked [OF env])
  qed
qed

lemma control_mount_blocked:
  assumes env: "waits_ok env"
  shows "keeps_blocked (control_mount env s)"
proof -
  have ok: "blocked_ok (mount_init s)" by (simp add: mount_init_def Let_def blocked_ok_def)
  have r: "keeps_blocked (retry (mount_pass env) (DLM_LOCK_NL, 0, t))" if "blocked_ok t" for t
  proof (rule post_retry [where I = "\<lambda>(m, n, t). blocked_ok t"])
    fix st :: "int \<times> nat \<times> gfs2"
    assume st: "case st of (m, n, t) \<Rightarrow> blocked_ok t"
    then obtain m n u where u: "st = (m, n, u)" "blocked_ok u" by (cases st) auto
    show "post (mount_pass env st) (\<lambda>p. case p of Retry s' \<Rightarrow> (case s' of (m, n, t) \<Rightarrow> blocked_ok t)
        | Done a \<Rightarrow> (case a of (a, s) \<Rightarrow> blocked_ok s))"
      unfolding u(1) by (rule post_mono [OF mount_pass_blocked [OF env u(2)]]) (simp add: pass_blocked_def split: pass.splits)
  qed (use that in simp)
  show ?thesis
    unfolding control_mount_def Let_def post_simps
    by (rule lock_posts(2) [OF env ok]) (auto intro!: lock_posts(1,4) [OF env] r)
qed

lemma first_done_pass_blocked:
  assumes env: "waits_ok env" and ok: "blocked_ok s"
  shows "post (first_done_pass env s) (\<lambda>p. case p of Retry s' \<Rightarrow> blocked_ok s' | Done (e, s') \<Rightarrow> blocked_ok s')"
proof (cases "ls_flag DFL_BLOCK_LOCKS s \<or> \<not> ls_flag DFL_MOUNT_DONE s \<or> \<not> ls_flag DFL_FIRST_MOUNT s")
  case True
  then show ?thesis
    unfolding first_done_pass_def Let_def if_P [OF True] by (auto intro!: lock_posts(4) [OF env ok])
next
  case f: False
  show ?thesis
  proof (cases "ls_recover_start (sd_lockstruct s) = ls_recover_block (sd_lockstruct s)")
    case True
    then show ?thesis
      unfolding first_done_pass_def Let_def if_not_P [OF f] if_P [OF True] by (simp add: waits_blocked(2) [OF env] ok)
  next
    case False
    then have "blocked_ok (ls_set_flag DFL_FIRST_MOUNT_DONE (ls_clear_flag DFL_FIRST_MOUNT s))"
      by (simp add: blocked_ok_def)
    then show ?thesis
      unfolding first_done_pass_def Let_def if_not_P [OF f] if_not_P [OF False] post_simps
      by (intro post_each [of _ "ls_lvb_bits l" for l] lock_posts(1) [OF env]) (auto intro!: lock_posts(2) [OF env])
  qed
qed

lemma first_done_blocked: "waits_ok env \<Longrightarrow> blocked_ok s \<Longrightarrow> keeps_blocked (control_first_done env s)"
  unfolding control_first_done_def by (rule post_retry [where I = blocked_ok]) (auto intro: first_done_pass_blocked)

lemma mount_joined_blocked:
  assumes env: "waits_ok env" and ok: "blocked_ok s"
  shows "keeps_blocked (mount_joined env r s)"
proof -
  have "blocked_ok (free_recover_size s)" using ok by simp
  then have "blocked_ok (ls_set_flag DFL_NO_DLM_OPS (free_recover_size s))" unfolding blocked_ok_def by simp
  then show ?thesis
    unfolding mount_joined_def
    by (auto simp: ok waits_blocked(4) [OF env] Let_def intro!: post_mono [OF control_mount_blocked [OF env]])
qed

lemma gdlm_mount_blocked:
  assumes env: "waits_ok env"
  shows "keeps_blocked (gdlm_mount env table s)"
proof -
  have ok0: "blocked_ok (reset_lockstruct s)" by (simp add: blocked_ok_def reset_lockstruct_def ls_flag_def)
  obtain e1 s1 where 1: "set_recover_size env [] (reset_lockstruct s) = (e1, s1)"
    by (cases "set_recover_size env [] (reset_lockstruct s)")
  have ok1: "blocked_ok s1" using ok0 blocked_core set_size_core [OF 1] by metis
  obtain e2 r s2 where 2: "join_lockspace env (drop (length (takeWhile (\<lambda>c. c \<noteq> 58) table) + 1) table)
      (takeWhile (\<lambda>c. c \<noteq> 58) table) s1 = (e2, r, s2)"
    using prod_cases3 by blast
  have ok2: "blocked_ok s2" by (rule waits_blocked(5) [OF env ok1 2])
  then have "keeps_blocked (mount_joined env r (upd_lstruct (\<lambda>l. l\<lparr>ls_dlm_set := True\<rparr>) s2))"
    by (intro mount_joined_blocked [OF env]) simp
  then show ?thesis using ok1 ok2 by (simp add: gdlm_mount_def Let_def 1 2 [simplified])
qed

lemma unmount_blocked:
  assumes env: "waits_ok env" and ok: "blocked_ok s"
  shows "post (gdlm_unmount env s) blocked_ok"
proof -
  have "blocked_ok (ls_set_flag DFL_UNMOUNT s)" using ok by (simp add: blocked_ok_def)
  then have "post (if ls_flag DFL_NO_DLM_OPS s then Some s else flush_control_work env (ls_set_flag DFL_UNMOUNT s)) blocked_ok"
    using ok by (auto simp: flush_control_work_def intro!: control_func_blocked [OF env])
  then show ?thesis
    unfolding gdlm_unmount_def post_simps by (rule post_mono) (simp add: waits_blocked(4) [OF env])
qed

lemma node_step_blocked: "node_step env s s' \<Longrightarrow> waits_ok env \<Longrightarrow> blocked_ok s \<Longrightarrow> blocked_ok s'"
proof (induction rule: node_step.induct)
  case (mount table s e s')
  then show ?case using post_D [OF gdlm_mount_blocked mount.hyps] by simp
next
  case (first_done s s')
  have "post (gdlm_first_done env s) blocked_ok"
    using first_done.prems first_done_blocked [OF first_done.prems] by (simp add: gdlm_first_done_def case_prod_unfold)
  then show ?case using first_done.hyps by (rule post_D)
qed (auto intro: recovery_step_blocked post_D [OF control_func_blocked] post_D [OF unmount_blocked])

interpretation control_run: step_invariant "node_step env" "\<lambda>s. waits_ok env \<and> blocked_ok s" for env
  by unfold_locales (auto intro: node_step_blocked)

end
