(* ===== verification/Gfs2_Control_Properties.thy ===== *)
theory Gfs2_Control_Properties
  imports Gfs2_Recovery Gfs2_Sample
begin

text \<open>
  Journal recovery: locks stay blocked while the lock manager recovers, and what an update of the value
  block of the control lock announces to the other nodes.
\<close>

section \<open>Blocked locks\<close>







section \<open>The bits of the journals\<close>

lemma jid_byte_inj: "jid_byte i = jid_byte j \<Longrightarrow> i mod 8 = j mod 8 \<Longrightarrow> i = j"
  unfolding jid_byte_def by (metis add_left_cancel div_mult_mod_eq)

lemma test_set_jid:
  assumes "jid_byte i < length bits"
  shows "\<exists>bits'. set_jid i bits = Some bits' \<and> length bits' = length bits \<and>
    (\<forall>j. test_jid j bits' = (if j = i then Some True else test_jid j bits))"
  using assms by (auto simp: set_jid_def test_jid_def nth_list_update bit_set_bit_iff dest: jid_byte_inj)

lemma test_clear_jid:
  assumes "jid_byte i < length bits"
  shows "\<exists>bits'. clear_jid i bits = Some bits' \<and> length bits' = length bits \<and>
    (\<forall>j. test_jid j bits' = (if j = i then Some False else test_jid j bits))"
  using assms by (auto simp: clear_jid_def test_jid_def nth_list_update bit_unset_bit_iff dest: jid_byte_inj)

lemma test_jid_at: "jid_byte i < length bits \<Longrightarrow> \<exists>b. test_jid i bits = Some b"
  by (simp add: test_jid_def)

text \<open>What the two loops have done when they have been through the journals \<open>is\<close>.\<close>

definition cleared :: "nat set \<Rightarrow> u32 list \<times> u8 list \<times> bool \<Rightarrow> u32 list \<times> u8 list \<times> bool \<Rightarrow> bool" where
  "cleared I = (\<lambda>(results, bits, w) (results', bits', w').
     length bits' = length bits \<and> length results' = length results \<and>
     (\<forall>j. test_jid j bits' = (if j \<in> I \<and> results ! j = LM_RD_SUCCESS then map_option (\<lambda>_. False) (test_jid j bits)
        else test_jid j bits)) \<and>
     (\<forall>j. results' ! j = (if j \<in> I \<and> results ! j = LM_RD_SUCCESS then 0 else results ! j)) \<and>
     (w' \<or> \<not> w \<and> bits' = bits))"

definition submitted :: "u32 \<Rightarrow> nat set \<Rightarrow> u32 list \<times> u8 list \<Rightarrow> u32 list \<times> u8 list \<Rightarrow> bool" where
  "submitted start_gen I = (\<lambda>(submit, bits) (submit', bits').
     length bits' = length bits \<and> length submit' = length submit \<and>
     (\<forall>j. test_jid j bits' = (if j \<in> I \<and> submit ! j \<noteq> 0 \<and> submit ! j < start_gen then Some True else test_jid j bits)) \<and>
     (\<forall>j. submit' ! j = (if j \<in> I \<and> submit ! j < start_gen then 0 else submit ! j)))"

lemma cleared_skip: "results ! i \<noteq> LM_RD_SUCCESS \<Longrightarrow> cleared I (results, bits, w) t \<Longrightarrow> cleared (insert i I) (results, bits, w) t"
  by (auto simp: cleared_def split: prod.splits)

lemma cleared_cons:
  assumes "cleared I (results[i := 0], bits1, w1) t" and "results ! i = LM_RD_SUCCESS" and "i < length results" and "i \<notin> I"
    and "length bits1 = length bits"
    and "\<And>j. test_jid j bits1 = (if j = i then map_option (\<lambda>_. False) (test_jid j bits) else test_jid j bits)"
    and "w1 \<or> \<not> w \<and> bits1 = bits"
  shows "cleared (insert i I) (results, bits, w) t"
  using assms by (auto simp: cleared_def nth_list_update split: prod.splits)

lemma clear_recovered_bits:
  assumes "distinct is" and "\<forall>i\<in>set is. jid_byte i < length bits \<and> i < length results"
  shows "\<exists>t. clear_recovered is (results, bits, w) = Some t \<and> cleared (set is) (results, bits, w) t"
  using assms
proof (induction "is" arbitrary: results bits w)
  case (Cons i "is")
  have i: "i < length results" "jid_byte i < length bits" "i \<notin> set is" "distinct is" using Cons.prems by auto
  show ?case
  proof (cases "results ! i = LM_RD_SUCCESS")
    case False
    obtain t where "clear_recovered is (results, bits, w) = Some t" "cleared (set is) (results, bits, w) t"
      using Cons.IH [of bits results w] Cons.prems by auto
    then show ?thesis using False cleared_skip [OF False] by auto
  next
    case True
    obtain b where b: "test_jid i bits = Some b" using test_jid_at [OF i(2)] by blast
    obtain bits1 where c: "clear_jid i bits = Some bits1" "length bits1 = length bits"
        "\<And>j. test_jid j bits1 = (if j = i then Some False else test_jid j bits)"
      using test_clear_jid [OF i(2)] by blast
    let ?b = "if b then bits1 else bits" and ?w = "if b then True else w"
    have l: "length ?b = length bits" using c(2) by simp
    obtain t where t: "clear_recovered is (results[i := 0], ?b, ?w) = Some t" "cleared (set is) (results[i := 0], ?b, ?w) t"
      using Cons.IH [of ?b "results[i := 0]" ?w] Cons.prems l by auto
    have "clear_recovered (i # is) (results, bits, w) = Some t" using True b c(1) t(1) by (auto split: if_splits)
    moreover have "cleared (set (i # is)) (results, bits, w) t"
      unfolding list.set by (rule cleared_cons [OF t(2) True i(1,3) l]) (use b c(3) in auto)
    ultimately show ?thesis by blast
  qed
qed (simp add: cleared_def)

lemma set_submitted_bits:
  assumes "distinct is" and "\<forall>i\<in>set is. jid_byte i < length bits \<and> i < length submit"
  shows "\<exists>t. set_submitted start_gen is (submit, bits) = Some t \<and> submitted start_gen (set is) (submit, bits) t"
  using assms
proof (induction "is" arbitrary: submit bits)
  case (Cons i "is")
  have i: "i < length submit" "jid_byte i < length bits" "i \<notin> set is" "distinct is" using Cons.prems by auto
  show ?case
  proof (cases "submit ! i = 0 \<or> \<not> submit ! i < start_gen")
    case True
    obtain t where "set_submitted start_gen is (submit, bits) = Some t" "submitted start_gen (set is) (submit, bits) t"
      using Cons.IH [of bits submit] Cons.prems by auto
    then show ?thesis using True by (auto simp: submitted_def split: prod.splits)
  next
    case False
    obtain bits1 where c: "set_jid i bits = Some bits1" "length bits1 = length bits"
        "\<And>j. test_jid j bits1 = (if j = i then Some True else test_jid j bits)"
      using test_set_jid [OF i(2)] by blast
    obtain t where t: "set_submitted start_gen is (submit[i := 0], bits1) = Some t"
        "submitted start_gen (set is) (submit[i := 0], bits1) t"
      using Cons.IH [of bits1 "submit[i := 0]"] Cons.prems c(2) by auto
    have "set_submitted start_gen (i # is) (submit, bits) = Some t" using False c(1) t(1) by simp
    moreover have "submitted start_gen (set (i # is)) (submit, bits) t"
      using t(2) c(2,3) i False by (auto simp: submitted_def nth_list_update split: prod.splits)
    ultimately show ?thesis by blast
  qed
qed (simp add: submitted_def)

section \<open>The value block\<close>

lemma le32_round_trip: "le32_to_cpu (cpu_to_le32 w @ bs) = w"
proof (rule bit_word_eqI)
  fix n assume "n < LENGTH(32)"
  then show "bit (le32_to_cpu (cpu_to_le32 w @ bs)) n = bit w n"
    by (cases "n < 24"; cases "n < 16")
      (auto simp: le32_to_cpu_def cpu_to_le32_def bit_or_iff bit_push_bit_iff bit_ucast_iff bit_drop_bit_eq)
qed

lemma memcpy_le32: "le32_to_cpu (memcpy bs (cpu_to_le32 w) 4) = w"
proof -
  have "take 4 (cpu_to_le32 w) = cpu_to_le32 w" by (simp add: cpu_to_le32_def)
  then show ?thesis by (simp add: memcpy_def le32_round_trip)
qed

lemma test_jid_header: "length hdr = 4 \<Longrightarrow> 4 \<le> length bits \<Longrightarrow> test_jid i (memcpy bits hdr 4) = test_jid i bits"
  by (auto simp: test_jid_def memcpy_def jid_byte_def nth_append)

lemma memcpy_all: "length src = n \<Longrightarrow> length dst = n \<Longrightarrow> memcpy dst src n = src"
  by (simp add: memcpy_def)

lemma control_lvb_after [simp]:
  "control_lvb (control_lvb_write g bits s) = memcpy (memcpy (control_lvb s) bits GDLM_LVB_SIZE) (cpu_to_le32 g) 4"
  "sd_lockstruct (control_lvb_write g bits s) = sd_lockstruct s"
  by (simp_all add: control_lvb_def control_lvb_write_def set_control_lvb_def Let_def)

lemma control_lvb_upd [simp]:
  "ls_control_lvb (f (sd_lockstruct s)) = ls_control_lvb (sd_lockstruct s) \<Longrightarrow> control_lvb (upd_lstruct f s) = control_lvb s"
  by (simp add: control_lvb_def upd_lstruct_def)

text \<open>The bit of journal \<open>i\<close> after an update of a value block whose generation is \<open>gen\<close> and in which
  the bit was \<open>old\<close>.\<close>

definition announced :: "u32 \<Rightarrow> u32 \<Rightarrow> lm_lockstruct \<Rightarrow> nat \<Rightarrow> bool \<Rightarrow> bool" where
  "announced gen start_gen l i old \<longleftrightarrow>
     (if start_gen < gen then old
      else gen < start_gen \<and> ls_recover_submit l ! i \<noteq> 0 \<and> ls_recover_submit l ! i < start_gen \<or>
        old \<and> ls_recover_result l ! i \<noteq> LM_RD_SUCCESS)"

lemma control_bits_announced:
  assumes "length bits = GDLM_LVB_SIZE" and "length (ls_recover_submit l) \<le> 8 * (GDLM_LVB_SIZE - JID_BITMAP_OFFSET)"
    and "length (ls_recover_result l) = length (ls_recover_submit l)"
  shows "\<exists>submit results bits' w. control_bits gen start_gen bits l = Some (submit, results, bits', w) \<and>
    length bits' = length bits \<and> (gen < start_gen \<longrightarrow> w) \<and> (start_gen < gen \<longrightarrow> \<not> w) \<and> (w \<or> bits' = bits) \<and>
    (\<forall>i<length (ls_recover_submit l). test_jid i bits' = map_option (announced gen start_gen l i) (test_jid i bits))"
proof -
  let ?n = "length (ls_recover_submit l)"
  have at: "jid_byte i < length bits" if "i < ?n" for i using assms(1,2) that by (simp add: jid_byte_def)
  consider "start_gen < gen" | "gen \<le> start_gen" by fastforce
  then show ?thesis
  proof cases
    case 1
    then have "control_bits gen start_gen bits l = Some (ls_recover_submit l, ls_recover_result l, bits, False)"
      by (auto simp: control_bits_def Let_def)
    moreover have "announced gen start_gen l i = (\<lambda>b. b)" for i using 1 by (simp add: announced_def fun_eq_iff)
    ultimately show ?thesis using 1 by - (intro exI conjI, assumption, auto simp: option.map_ident)
  next
    case 2
    obtain r b w where c: "clear_recovered [0..<?n] (ls_recover_result l, bits, False) = Some (r, b, w)"
        "cleared (set [0..<?n]) (ls_recover_result l, bits, False) (r, b, w)"
      using clear_recovered_bits [of "[0..<?n]" bits "ls_recover_result l" False] at assms(3) by auto
    have len: "length b = length bits" using c(2) by (simp add: cleared_def)
    show ?thesis
    proof (cases "gen = start_gen")
      case True
      then have "control_bits gen start_gen bits l = Some (drop_old_submits gen (ls_recover_submit l), r, b, w)"
        using c(1) by (simp add: control_bits_def Let_def)
      moreover have "test_jid i b = map_option (announced gen start_gen l i) (test_jid i bits)" if "i < ?n" for i
        using c(2) that True test_jid_at [OF at [OF that]] by (auto simp: cleared_def announced_def)
      ultimately show ?thesis using len True c(2) by (auto simp: cleared_def)
    next
      case False
      with 2 have lt: "gen < start_gen" by simp
      obtain u b2 where d: "set_submitted start_gen [0..<?n] (ls_recover_submit l, b) = Some (u, b2)"
          "submitted start_gen (set [0..<?n]) (ls_recover_submit l, b) (u, b2)"
        using set_submitted_bits [of "[0..<?n]" b "ls_recover_submit l" start_gen] at len by auto
      have "control_bits gen start_gen bits l = Some (u, r, b2, True)"
        using c(1) d(1) lt False 2 by (simp add: control_bits_def Let_def)
      moreover have "test_jid i b2 = map_option (announced gen start_gen l i) (test_jid i bits)" if "i < ?n" for i
        using c(2) d(2) that lt test_jid_at [OF at [OF that]] by (auto simp: cleared_def submitted_def announced_def)
      ultimately show ?thesis using d(2) len lt by (auto simp: submitted_def)
    qed
  qed
qed

lemma update_announces:
  assumes "ls_recover_block (sd_lockstruct s) = block_gen" and "ls_recover_start (sd_lockstruct s) = start_gen"
    and "ls_lvb_bits (sd_lockstruct s) = Some copy" and "length copy = GDLM_LVB_SIZE" and "length (control_lvb s) = GDLM_LVB_SIZE"
    and "length (ls_recover_submit (sd_lockstruct s)) = n" and "length (ls_recover_result (sd_lockstruct s)) = n"
    and "n \<le> 8 * (GDLM_LVB_SIZE - JID_BITMAP_OFFSET)"
  shows "\<exists>w s' copy'. control_update block_gen start_gen s = Some (Some w, s') \<and>
    ls_lvb_bits (sd_lockstruct s') = Some copy' \<and>
    le32_to_cpu (control_lvb s') = max (le32_to_cpu (control_lvb s)) start_gen \<and>
    (\<forall>i<n. \<exists>old. test_jid i (control_lvb s) = Some old \<and>
       test_jid i (control_lvb s') = Some (announced (le32_to_cpu (control_lvb s)) start_gen (sd_lockstruct s) i old) \<and>
       test_jid i copy' = test_jid i (control_lvb s')) \<and>
    (\<not> w \<longrightarrow> control_lvb s' = control_lvb s)"
proof -
  let ?l = "sd_lockstruct s" and ?bits = "control_lvb s"
  let ?gen = "le32_to_cpu ?bits"
  have m: "memcpy copy ?bits GDLM_LVB_SIZE = ?bits" by (rule memcpy_all [OF assms(5,4)])
  let ?s1 = "upd_lstruct (\<lambda>l. l\<lparr>ls_lvb_bits := Some ?bits\<rparr>) s"
  have r: "control_lvb_read s = Some (?gen, ?bits, ?s1)" using assms(3) m by (simp add: control_lvb_read_def Let_def)
  let ?l1 = "sd_lockstruct ?s1"
  obtain submit results bits w where c: "control_bits ?gen start_gen ?bits ?l1 = Some (submit, results, bits, w)"
    and b: "length bits = length ?bits" "?gen < start_gen \<longrightarrow> w" "start_gen < ?gen \<longrightarrow> \<not> w" "w \<or> bits = ?bits"
      "\<And>i. i < n \<Longrightarrow> test_jid i bits = map_option (announced ?gen start_gen ?l1 i) (test_jid i ?bits)"
    using control_bits_announced [of ?bits ?l1 ?gen start_gen] assms by auto
  have a: "announced ?gen start_gen ?l1 i = announced ?gen start_gen ?l i" for i by (simp add: announced_def fun_eq_iff)
  let ?s2 = "upd_lstruct (\<lambda>l. l\<lparr>ls_recover_submit := submit, ls_recover_result := results, ls_lvb_bits := Some bits\<rparr>) ?s1"
  let ?s' = "if w then control_lvb_write start_gen bits ?s2 else ?s2"
  have u: "control_update block_gen start_gen s = Some (Some w, ?s')"
    using assms(1,2) c by (simp add: control_update_def r Let_def)
  have lvb: "control_lvb ?s' = (if w then memcpy bits (cpu_to_le32 start_gen) 4 else ?bits)"
    using b(1) assms(5) by (simp add: memcpy_all)
  have copy: "ls_lvb_bits (sd_lockstruct ?s') = Some bits" by simp
  have gen: "le32_to_cpu (control_lvb ?s') = max ?gen start_gen"
    using b(2,3) unfolding lvb by (auto simp: memcpy_le32 max_def)
  have bit: "test_jid i (control_lvb ?s') = test_jid i bits" for i
    using b(1,4) assms(5) unfolding lvb by (auto simp: test_jid_header cpu_to_le32_def)
  have all: "\<exists>old. test_jid i ?bits = Some old \<and>
      test_jid i (control_lvb ?s') = Some (announced ?gen start_gen ?l i old) \<and> test_jid i bits = test_jid i (control_lvb ?s')"
    if i: "i < n" for i
  proof -
    have "jid_byte i < length ?bits" using i assms(5,8) by (simp add: jid_byte_def)
    then obtain old where "test_jid i ?bits = Some old" using test_jid_at by blast
    then show ?thesis unfolding bit using b(5) [OF i] unfolding a by simp
  qed
  have kept: "\<not> w \<longrightarrow> control_lvb ?s' = ?bits" unfolding lvb by simp
  show ?thesis by (intro exI conjI, rule u, rule copy, rule gen) (use all kept in blast)+
qed

text \<open>C14: The update of the value block of the control lock: when the generations are still those the
  work began with, the block has the later of the two generations afterwards, and the bit of each
  journal is what the nodes are to know. A block of a later generation is left alone. Otherwise the bit
  goes when the journal has been recovered; and when the block is older, the bits of the nodes that
  failed before this generation come. The copy in memory has the same bits.\<close>

theorem control_update_announces:
  assumes "ls_recover_block (sd_lockstruct s) = block_gen" and "ls_recover_start (sd_lockstruct s) = start_gen"
    and "ls_lvb_bits (sd_lockstruct s) = Some copy" and "length copy = GDLM_LVB_SIZE" and "length (control_lvb s) = GDLM_LVB_SIZE"
    and "length (ls_recover_submit (sd_lockstruct s)) = n" and "length (ls_recover_result (sd_lockstruct s)) = n"
    and "n \<le> 8 * (GDLM_LVB_SIZE - JID_BITMAP_OFFSET)"
  shows "\<exists>w s' copy'. control_update block_gen start_gen s = Some (Some w, s') \<and>
    ls_lvb_bits (sd_lockstruct s') = Some copy' \<and>
    le32_to_cpu (control_lvb s') = max (le32_to_cpu (control_lvb s)) start_gen \<and>
    (\<forall>i<n. \<exists>old. test_jid i (control_lvb s) = Some old \<and>
       test_jid i (control_lvb s') = Some (announced (le32_to_cpu (control_lvb s)) start_gen (sd_lockstruct s) i old) \<and>
       test_jid i copy' = test_jid i (control_lvb s')) \<and>
    (\<not> w \<longrightarrow> control_lvb s' = control_lvb s)"
  by (rule update_announces [OF assms])

text \<open>The block has generation 1 and the bit of journal 2; its recovery has succeeded and the node of
  journal 3 has failed before generation 2.\<close>

definition update0 :: gfs2 where
  "update0 = set_control_lvb ([1, 0, 0, 0, 0, 0, 0, 0, 4] @ replicate 23 0)
     (upd_lstruct (\<lambda>l. l\<lparr>ls_recover_block := 1, ls_recover_start := 2, ls_lvb_bits := Some (replicate 32 0),
        ls_recover_submit := [0, 0, 0, 1], ls_recover_result := [0, 0, LM_RD_SUCCESS, 0]\<rparr>) grun0)"

theorem control_update_announces_witness:
  "\<exists>s'. control_update 1 2 update0 = Some (Some True, s') \<and> le32_to_cpu (control_lvb s') = 2 \<and>
     test_jid 2 (control_lvb s') = Some False \<and> test_jid 3 (control_lvb s') = Some True"
proof -
  have u: "ls_recover_block (sd_lockstruct update0) = 1" "ls_recover_start (sd_lockstruct update0) = 2"
      "ls_lvb_bits (sd_lockstruct update0) = Some (replicate 32 0)" "length (replicate 32 (0::u8)) = GDLM_LVB_SIZE"
      "length (control_lvb update0) = GDLM_LVB_SIZE" "length (ls_recover_submit (sd_lockstruct update0)) = 4"
      "length (ls_recover_result (sd_lockstruct update0)) = 4" "(4::nat) \<le> 8 * (GDLM_LVB_SIZE - JID_BITMAP_OFFSET)"
    by (code_simp, code_simp, code_simp, simp, code_simp, code_simp, code_simp, simp)
  have g: "le32_to_cpu (control_lvb update0) = 1" by code_simp
  have b: "test_jid 2 (control_lvb update0) = Some True" "test_jid 3 (control_lvb update0) = Some False" by code_simp+
  have a: "\<not> announced 1 2 (sd_lockstruct update0) 2 True" "announced 1 2 (sd_lockstruct update0) 3 False" by code_simp+
  have w: "map_option fst (control_update 1 2 update0) = Some (Some True)" by code_simp
  obtain w' s' copy' where s': "control_update 1 2 update0 = Some (Some w', s')"
      "le32_to_cpu (control_lvb s') = max 1 2"
      "\<forall>i<4. \<exists>old. test_jid i (control_lvb update0) = Some old \<and>
         test_jid i (control_lvb s') = Some (announced 1 2 (sd_lockstruct update0) i old) \<and>
         test_jid i copy' = test_jid i (control_lvb s')"
    using control_update_announces [OF u] unfolding g by blast
  have "test_jid 2 (control_lvb s') = Some False" "test_jid 3 (control_lvb s') = Some True"
    using s'(3) [rule_format, of 2] s'(3) [rule_format, of 3] a b by auto
  then show ?thesis using s'(1,2) w by (simp add: max_def)
qed

section \<open>Failed nodes\<close>

lemma recover_slot_submit:
  assumes "gdlm_recover_slot env slot s = Some s1" and "\<not> withdrawn env s" and "1 \<le> slot"
    and "nat (slot - 1) < length (ls_recover_submit (sd_lockstruct s))" and "length (ls_recover_submit (sd_lockstruct s)) < 2 ^ 32"
  shows "s1 = upd_lstruct (\<lambda>l. l\<lparr>ls_recover_submit := (ls_recover_submit l)[nat (slot - 1) := ls_recover_block l]\<rparr>) s"
proof -
  let ?n = "length (ls_recover_submit (sd_lockstruct s))"
  have "nat slot \<le> ?n" "nat slot < 2 ^ 32" using assms(3-5) by auto
  moreover have "word_of_int slot = (of_nat (nat slot) :: u32)" using assms(3) by simp
  ultimately have "\<not> (of_nat ?n :: u32) < word_of_int (slot - 1 + 1)"
    using assms(5) by (simp add: word_less_nat_alt unat_of_nat take_bit_nat_eq_self not_less)
  then show ?thesis using assms(1-4) by (auto simp: gdlm_recover_slot_def Let_def split: if_split_asm)
qed

text \<open>Growing the arrays keeps what they hold.\<close>

definition grown :: "gfs2 \<Rightarrow> gfs2 \<Rightarrow> bool" where
  "grown s s' \<longleftrightarrow> control_lvb s' = control_lvb s \<and>
     (let l = sd_lockstruct s; l' = sd_lockstruct s' in
       ls_recover_block l' = ls_recover_block l \<and> take (length (ls_recover_submit l)) (ls_recover_submit l') = ls_recover_submit l \<and>
       (length (ls_recover_result l) = length (ls_recover_submit l) \<longrightarrow> length (ls_recover_result l') = length (ls_recover_submit l')) \<and>
       (\<forall>b. ls_lvb_bits l = Some b \<longrightarrow> ls_lvb_bits l' = Some b))"

lemma set_size_grown: "grown s (snd (set_recover_size env slots s))"
  unfolding set_recover_size_def
  by (cases "ls_lvb_bits (sd_lockstruct s)") (simp_all add: grown_def control_lvb_def upd_lstruct_def Let_def)

lemma control_work_same [simp]:
  "control_lvb (queue_control_work delay s) = control_lvb s" "sd_lockstruct (queue_control_work delay s) = sd_lockstruct s"
  by (simp_all add: queue_control_work_def control_lvb_def)

lemma recover_done_grown:
  assumes "\<not> withdrawn env s"
  shows "grown s (gdlm_recover_done env slots our_slot generation s)"
    and "ls_recover_start (sd_lockstruct (gdlm_recover_done env slots our_slot generation s)) = generation"
proof -
  obtain t where t: "snd (set_recover_size env slots s) = t" "grown s t" using set_size_grown by blast
  show "ls_recover_start (sd_lockstruct (gdlm_recover_done env slots our_slot generation s)) = generation"
    using assms by (simp add: gdlm_recover_done_def Let_def t(1) ls_clear_flag_def)
  show "grown s (gdlm_recover_done env slots our_slot generation s)"
    using assms t(2) by (simp add: gdlm_recover_done_def Let_def t(1) ls_clear_flag_def grown_def)
qed

text \<open>C15: The journal of a node that failed is never forgotten: when the callbacks report the slot of a
  failed node and then a new generation, the next update of the value block, if the block is of an
  older generation, sets the bit of the journal.\<close>

theorem failed_journal_announced:
  assumes "\<not> withdrawn env s" and "\<not> withdrawn env s1"
    and slot: "gdlm_recover_slot env slot s = Some s1" "1 \<le> slot"
      "nat (slot - 1) < length (ls_recover_submit (sd_lockstruct s))" "length (ls_recover_submit (sd_lockstruct s)) < 2 ^ 32"
    and ends: "gdlm_recover_done env slots our_slot start_gen s1 = s2"
    and gens: "ls_recover_block (sd_lockstruct s) = block_gen" "0 < block_gen" "block_gen < start_gen"
      "le32_to_cpu (control_lvb s2) < start_gen"
    and bufs: "ls_lvb_bits (sd_lockstruct s) = Some copy" "length copy = GDLM_LVB_SIZE" "length (control_lvb s) = GDLM_LVB_SIZE"
      "length (ls_recover_result (sd_lockstruct s)) = length (ls_recover_submit (sd_lockstruct s))"
      "length (ls_recover_submit (sd_lockstruct s2)) \<le> 8 * (GDLM_LVB_SIZE - JID_BITMAP_OFFSET)"
  shows "\<exists>w s3. control_update block_gen start_gen s2 = Some (Some w, s3) \<and> test_jid (nat (slot - 1)) (control_lvb s3) = Some True"
proof -
  let ?j = "nat (slot - 1)" and ?n = "length (ls_recover_submit (sd_lockstruct s))"
  have s1: "s1 = upd_lstruct (\<lambda>l. l\<lparr>ls_recover_submit := (ls_recover_submit l)[nat (slot - 1) := ls_recover_block l]\<rparr>) s"
    by (rule recover_slot_submit [OF slot(1) assms(1) slot(2-4)])
  have g: "grown s1 s2" and start: "ls_recover_start (sd_lockstruct s2) = start_gen"
    using recover_done_grown [OF assms(2), of slots our_slot start_gen] ends by auto
  have t: "take ?n (ls_recover_submit (sd_lockstruct s2)) = (ls_recover_submit (sd_lockstruct s))[?j := block_gen]"
    and lvb: "control_lvb s2 = control_lvb s" "ls_lvb_bits (sd_lockstruct s2) = Some copy"
    and block: "ls_recover_block (sd_lockstruct s2) = block_gen"
    and len: "length (ls_recover_result (sd_lockstruct s2)) = length (ls_recover_submit (sd_lockstruct s2))"
    using g bufs gens(1) by (simp_all add: s1 grown_def Let_def)
  have sub: "ls_recover_submit (sd_lockstruct s2) ! ?j = block_gen"
    using arg_cong [OF t, of "\<lambda>xs. xs ! ?j"] slot(3) by simp
  have n: "?j < length (ls_recover_submit (sd_lockstruct s2))"
    using arg_cong [OF t, of length] slot(3) by simp
  obtain w s3 copy' where u: "control_update block_gen start_gen s2 = Some (Some w, s3)"
    and b: "\<forall>i<length (ls_recover_submit (sd_lockstruct s2)). \<exists>old. test_jid i (control_lvb s2) = Some old \<and>
       test_jid i (control_lvb s3) = Some (announced (le32_to_cpu (control_lvb s2)) start_gen (sd_lockstruct s2) i old) \<and>
       test_jid i copy' = test_jid i (control_lvb s3)"
    using update_announces [OF block start lvb(2) bufs(2) _ refl len bufs(5)] bufs(3) lvb(1) by auto
  have "announced (le32_to_cpu (control_lvb s2)) start_gen (sd_lockstruct s2) ?j old" for old
    using gens sub by (auto simp: announced_def)
  then have "test_jid ?j (control_lvb s3) = Some True" using b [rule_format, OF n] by auto
  with u show ?thesis by blast
qed

text \<open>The node of journal 3 fails while generation 1 is blocked; generation 2 follows.\<close>

definition fails0 :: gfs2 where
  "fails0 = set_control_lvb ([1] @ replicate 31 0)
     (upd_lstruct (\<lambda>l. l\<lparr>ls_recover_block := 1, ls_recover_start := 1, ls_lvb_bits := Some (replicate 32 0),
        ls_recover_submit := [0, 0, 0, 0], ls_recover_result := [0, 0, 0, 0]\<rparr>) grun0)"

definition fails1 :: gfs2 where
  "fails1 = (case gdlm_recover_slot genv0 4 fails0 of Some s \<Rightarrow> s | None \<Rightarrow> fails0)"

definition fails2 :: gfs2 where "fails2 = gdlm_recover_done genv0 [1, 2, 3] 1 2 fails1"

theorem failed_journal_announced_witness:
  "\<exists>w s3. control_update 1 2 fails2 = Some (Some w, s3) \<and> test_jid 3 (control_lvb s3) = Some True"
proof -
  have w: "\<not> withdrawn genv0 fails0" "\<not> withdrawn genv0 fails1" by (simp_all add: withdrawn_def genv0_def)
  have "gdlm_recover_slot genv0 4 fails0 \<noteq> None" by code_simp
  then have slot: "gdlm_recover_slot genv0 4 fails0 = Some fails1" by (auto simp: fails1_def)
  have n: "length (ls_recover_submit (sd_lockstruct fails0)) = 4" "length (ls_recover_result (sd_lockstruct fails0)) = 4"
      "length (ls_recover_submit (sd_lockstruct fails2)) = 4" by code_simp+
  have g: "ls_recover_block (sd_lockstruct fails0) = 1" "le32_to_cpu (control_lvb fails2) = 1"
      "ls_lvb_bits (sd_lockstruct fails0) = Some (replicate 32 0)" "length (control_lvb fails0) = GDLM_LVB_SIZE" by code_simp+
  show ?thesis
    using failed_journal_announced [OF w slot _ _ _ fails2_def [symmetric] g(1) _ _ _ g(3) _ g(4)] n g(2) by simp
qed

end
