(* ===== verification/No_Lost_Grant.thy ===== *)
theory No_Lost_Grant
  imports Pending Sample
begin

text \<open>
  Nothing that could be granted is left waiting: after \<open>grant_pending_locks\<close> no lock on the convert
  or the wait queue satisfies the grant rule. The last pass over the convert queue granted
  nothing, so it changed nothing and refused every lock; the pass over the wait queue adds holders
  only, and keeps the order of the locks it passed.
\<close>

section \<open>A pass that grants nothing changes nothing\<close>

text \<open>Without \<open>CONVDEADLK\<close> a refused lock is left as it was.\<close>

lemma can_be_granted_refused_same:
  assumes l: "ls_lkbidr s k = Some l" and no: "\<not> has_flag (lkb_exflags l) DLM_LKF_CONVDEADLK"
    and run: "can_be_granted r k now recover want_err s = Some (False, err, s')"
  shows "s' = s"
proof -
  have id: "s\<lparr>ls_lkbidr := (ls_lkbidr s)(k \<mapsto> l)\<rparr> = s" using l by (simp add: fun_upd_idem)
  have alt: "s' = s" if "try_alt_mode r k now s = Some (False, s')"
    using that l id by (auto simp: try_alt_mode_def Option.bind_eq_Some_conv split: if_splits)
  show ?thesis using run l no alt
    by (auto simp: can_be_granted_def Option.bind_eq_Some_conv split: if_splits)
qed

text \<open>Every lock stays and keeps its flags.\<close>

definition kept :: "dlm_ls \<Rightarrow> dlm_ls \<Rightarrow> bool" where
  "kept s s' \<longleftrightarrow> (\<forall>j l. ls_lkbidr s j = Some l \<longrightarrow>
     (\<exists>l'. ls_lkbidr s' j = Some l' \<and> lkb_exflags l' = lkb_exflags l))"

lemma kept_refl [simp]: "kept s s"
  by (simp add: kept_def)

lemma kept_trans: "kept s s1 \<Longrightarrow> kept s1 s2 \<Longrightarrow> kept s s2"
  unfolding kept_def by metis

lemma kept_same: "same s s' \<Longrightarrow> kept s s'"
  unfolding kept_def using same_lkb lkb_coreD(6) by metis

lemma kept_decided:
  assumes "decided s x k l (rv, err, s')" and "ls_lkbidr s k = Some l"
  shows "kept s s'"
proof -
  obtain l' where "s' = s\<lparr>ls_lkbidr := (ls_lkbidr s)(k \<mapsto> l')\<rparr>" "retuned l l'"
    using assms(1) by (auto simp: decided_def)
  then show ?thesis using assms(2) retunedD(4) [of l l'] by (simp add: kept_def)
qed

lemma kept_granted:
  assumes g: "granted r k l x s s'" and l: "ls_lkbidr s k = Some l"
  shows "kept s s'"
proof -
  obtain l' where o: "only r {k} s s'" and l': "ls_lkbidr s' k = Some l'" "lkb_exflags l' = lkb_exflags l"
    using g by (auto simp: granted_def member_def)
  have "\<exists>j'. ls_lkbidr s' j = Some j' \<and> lkb_exflags j' = lkb_exflags lj" if lj: "ls_lkbidr s j = Some lj" for j lj
  proof (cases "j = k")
    case True
    then show ?thesis using lj l l' by simp
  next
    case False
    obtain j' where "ls_lkbidr s' j = Some j'" "lkb_core j' = lkb_core lj \<or> j \<in> {k} \<and> lkb_resource lj = Some r"
      by (rule only_lkb [OF o lj])
    with False show ?thesis using lkb_coreD(6) by blast
  qed
  then show ?thesis by (simp add: kept_def)
qed

definition no_convdeadlk :: "dlm_ls \<Rightarrow> lkid set \<Rightarrow> bool" where
  "no_convdeadlk s K \<longleftrightarrow> (\<forall>k\<in>K. \<forall>l. ls_lkbidr s k = Some l \<longrightarrow> \<not> has_flag (lkb_exflags l) DLM_LKF_CONVDEADLK)"

lemma no_convdeadlk_kept:
  assumes "no_convdeadlk s K" and "kept s s'" and "\<forall>k\<in>K'. ls_lkbidr s k \<noteq> None" and "K' \<subseteq> K"
  shows "no_convdeadlk s' K'"
  using assms unfolding no_convdeadlk_def kept_def by (metis in_mono not_None_eq option.inject)

text \<open>The locks \<open>K\<close> that cannot be granted.\<close>

definition stuck :: "bool \<Rightarrow> dlm_ls \<Rightarrow> rsbp \<Rightarrow> lkid set \<Rightarrow> bool" where
  "stuck recover s r K \<longleftrightarrow> (\<forall>x k l. ls_rsbs s r = Some x \<and> k \<in> K \<and> ls_lkbidr s k = Some l \<longrightarrow>
     \<not> grant_rule s x k l False recover)"

lemma grant_rule_core:
  assumes "lkb_core l' = lkb_core l" and "rsb_core x' = rsb_core x" and "gr_mode s' = gr_mode s"
  shows "grant_rule s' x' k l' now recover = grant_rule s x k l now recover"
  using assms(3) by (simp add: grant_rule_def order_ok_def holders_def lkb_coreD [OF assms(1)] rsb_coreD [OF assms(2)])

lemma stuck_same:
  assumes "stuck recover s r K" and same: "same s s'"
  shows "stuck recover s' r K"
proof -
  have "\<not> grant_rule s' x' k l' False recover"
    if a: "ls_rsbs s' r = Some x'" "k \<in> K" "ls_lkbidr s' k = Some l'" for x' k l'
  proof -
    obtain l where l: "ls_lkbidr s k = Some l" "lkb_core l = lkb_core l'"
      using same_lkb [OF same_sym [OF same] a(3)] by blast
    obtain x where x: "ls_rsbs s r = Some x" "rsb_core x = rsb_core x'"
      using same_rsb [OF same_sym [OF same] a(1)] by blast
    have "\<not> grant_rule s x k l False recover" using assms(1) a(2) l x by (simp add: stuck_def)
    then show ?thesis using grant_rule_core [OF l(2) x(2) gr_mode_same [OF same, symmetric]] by simp
  qed
  then show ?thesis by (simp add: stuck_def)
qed

text \<open>One round of the pass: granted, or refused and unchanged but for a blocking callback.\<close>

lemma grant_convert_pass_grant:
  "grant_convert_pass env r recover q g s = Some (g', s') \<Longrightarrow> grant_restart g \<Longrightarrow> grant_restart g'"
proof (induction q arbitrary: g s)
  case Nil
  then show ?case by simp
next
  case (Cons k q)
  then show ?case by (auto simp: Option.bind_eq_Some_conv Let_def split: if_splits)
qed

lemma grant_convert_pass_facts:
  assumes "master_ok s r" and "ls_rsbs s r = Some x" and "set q \<subseteq> set (res_convertqueue x)"
    and "distinct q" and "no_convdeadlk s (set q)"
    and "grant_convert_pass env r recover q g s = Some (g', s')"
  shows "kept s s' \<and> demote_restart g' = demote_restart g \<and>
    (\<not> grant_restart g' \<longrightarrow> same s s' \<and> stuck recover s r (set q))"
  using assms
proof (induction q arbitrary: g s x)
  case Nil
  then show ?case by (simp add: stuck_def)
next
  case (Cons k q)
  note ok = Cons.prems(1) and x = Cons.prems(2)
  have kq: "k \<in> set (res_convertqueue x)" and q: "set q \<subseteq> set (res_convertqueue x) - {k}" "distinct q"
    using Cons.prems(3,4) by auto
  obtain l where m: "member s r k l" and qk: "queued_ok r DLM_LKSTS_CONVERT l"
    by (rule queue_member [OF ok x, of k DLM_LKSTS_CONVERT]) (use kq in auto)
  have l: "ls_lkbidr s k = Some l" "lkb_wf l" using m by (auto simp: member_def)
  have ask: "asks_ok x k l False" using kq qk by (simp add: asks_ok_def queued_ok_def modes_ok_def)
  have qs: "queues_ok s r x" using ok x by (auto simp: master_ok_def)
  obtain rv err s1 where d: "can_be_granted r k False recover True s = Some (rv, err, s1)"
    "decided s x k l (rv, err, s1)"
    using can_be_granted_decides [OF qs x l ask] by fast
  have nok: "\<not> has_flag (lkb_exflags l) DLM_LKF_CONVDEADLK" and noq: "no_convdeadlk s (set q)"
    using Cons.prems(5) l(1) by (simp_all add: no_convdeadlk_def)
  text \<open>The rest of the pass.\<close>
  have live: "\<forall>j\<in>set q. ls_lkbidr s j \<noteq> None"
    using qs q(1) by (auto simp: queues_ok_def on_queue_def)
  have rest: "kept s s' \<and> demote_restart g' = demote_restart g2 \<and>
      (\<not> grant_restart g' \<longrightarrow> same s2 s' \<and> stuck recover s2 r (set q))"
    if "master_ok s2 r" "ls_rsbs s2 r = Some x2" "set q \<subseteq> set (res_convertqueue x2)" "kept s s2"
      "grant_convert_pass env r recover q g2 s2 = Some (g', s')" for s2 x2 g2
    using Cons.IH [OF that(1-3) q(2) no_convdeadlk_kept [OF noq that(4) live subset_refl] that(5)]
      kept_trans [OF that(4)] by blast
  show ?case
  proof (cases rv)
    case True
    obtain l1 where k1: "master_ok s1 r" "ls_rsbs s1 r = Some x" "member s1 r k l1" "lkb_status l1 = lkb_status l"
      and yes: "\<forall>j\<in>holders x - {k}. compat (gr_mode s1 j) (lkb_rqmode l1)"
      using decided_keeps [OF ok x m d(2)] True by fastforce
    have l1: "ls_lkbidr s1 k = Some l1" using k1(3) by (simp add: member_def)
    have "lkb_rqmode l1 \<noteq> DLM_LOCK_IV"
      using member_queued [OF k1(1,3)] k1(4) qk by (auto simp: queued_ok_def modes_ok_def)
    then obtain s2 where s2: "grant_lock_pending env r k s1 = Some s2" "granted r k l1 x s1 s2"
      using grant_lock_pending_grants [OF k1(1,2,3)] yes by blast
    obtain x2 where x2: "master_ok s2 r" "ls_rsbs s2 r = Some x2"
      "set (res_convertqueue x2) = set (res_convertqueue x) - {k}"
      using s2(2) by (rule grantedE)
    let ?g = "g\<lparr>grant_restart := True, gp_count := gp_count g + 1\<rparr>"
    have run: "grant_convert_pass env r recover q ?g s2 = Some (g', s')"
      using Cons.prems(6) l(1) d(1) l1 True s2(1) by simp
    have "kept s s2" using kept_trans [OF kept_decided [OF d(2) l(1)] kept_granted [OF s2(2) l1]] .
    from rest [OF x2(1,2) _ this run] x2(3) q(1) grant_convert_pass_grant [OF run] show ?thesis by simp
  next
    case False
    have s1: "s1 = s" by (rule can_be_granted_refused_same [OF l(1) nok]) (use d(1) False in simp)
    have no: "\<not> grant_rule s x k l False recover"
      by (rule can_be_granted_refused [OF qs x l ask]) (use d(1) False in simp)
    have on: ?thesis
      if same: "same s s2" and run: "grant_convert_pass env r recover q g2 s2 = Some (g', s')"
        and g2: "demote_restart g2 = demote_restart g" for s2 g2
    proof -
      obtain x2 where x2: "ls_rsbs s2 r = Some x2" "rsb_core x2 = rsb_core x"
        using same_rsb [OF same x] by blast
      have "set q \<subseteq> set (res_convertqueue x2)" using q(1) by (auto simp: rsb_coreD [OF x2(2)])
      from rest [OF master_ok_same [OF same ok] x2(1) this kept_same [OF same] run] g2
      have "kept s s' \<and> demote_restart g' = demote_restart g \<and>
        (\<not> grant_restart g' \<longrightarrow> same s s' \<and> stuck recover s r (set q))"
        using same_trans [OF same] stuck_same [OF _ same_sym [OF same]] by auto
      moreover have "stuck recover s r (set q) \<Longrightarrow> stuck recover s r (set (k # q))"
        using no x l(1) by (auto simp: stuck_def)
      ultimately show ?thesis by blast
    qed
    show ?thesis
    proof (cases "err \<noteq> 0 \<and> has_flag (lkb_exflags l) DLM_LKF_NODLCKWT \<and> lkb_highbast l < lkb_rqmode l")
      case True
      obtain s2 where "(do {
          s \<leftarrow> queue_bast env r k (lkb_rqmode l) s;
          upd_lkb k (\<lambda>l. l\<lparr>lkb_highbast := lkb_rqmode l\<rparr>) s }) = Some s2" "same s s2"
      proof (rule keepsE)
        show "keeps s (do {
          s \<leftarrow> queue_bast env r k (lkb_rqmode l) s;
          upd_lkb k (\<lambda>l. l\<lparr>lkb_highbast := lkb_rqmode l\<rparr>) s })"
        proof (rule keeps_bind [OF queue_bast_keeps [OF x l(1)]])
          fix s2 assume "same s s2"
          then obtain l2 where "ls_lkbidr s2 k = Some l2" using same_lkb l(1) by blast
          then show "keeps s2 (upd_lkb k (\<lambda>l. l\<lparr>lkb_highbast := lkb_rqmode l\<rparr>) s2)"
            by (rule keeps_upd_lkb) simp
        qed
      qed
      moreover from this(1) have "grant_convert_pass env r recover q g s2 = Some (g', s')"
        using Cons.prems(6) l(1) d(1) s1 False True by simp
      ultimately show ?thesis by (intro on) auto
    next
      case nobast: False
      then obtain g2 where "grant_convert_pass env r recover q g2 s = Some (g', s')"
        "demote_restart g2 = demote_restart g"
        using Cons.prems(6) l(1) d(1) s1 False by (auto split: if_splits)
      then show ?thesis by (intro on [OF same_refl])
    qed
  qed
qed

lemma grant_convert_restart_stuck:
  assumes "retry_n n (grant_convert_restart env r recover) (quit, cw, count, s) = Some (Done (hi, cw', count', s'))"
    and "master_ok s r" and "ls_rsbs s r = Some x" and "no_convdeadlk s (set (res_convertqueue x))"
  shows "kept s s' \<and> (\<exists>x'. ls_rsbs s' r = Some x' \<and> stuck recover s' r (set (res_convertqueue x')))"
  using assms
proof (induction n arbitrary: quit cw count s x)
  case 0
  then show ?case by simp
next
  case (Suc n)
  note ok = Suc.prems(2) and x = Suc.prems(3)
  let ?g = "\<lparr>grant_restart = False, demote_restart = False, gp_hi = DLM_LOCK_IV, gp_cw = cw, gp_count = count\<rparr>"
  have dist: "distinct (res_convertqueue x)"
    using ok x by (auto simp: master_ok_def queues_ok_def rsb_queues_def)
  obtain g s1 where p: "grant_convert_pass env r recover (res_convertqueue x) ?g s = Some (g, s1)"
    "pass_ok r x s s1 (grant_restart g \<and> \<not> grant_restart ?g)"
    using grant_convert_pass_keeps [OF ok x subset_refl dist, of env recover ?g] by blast
  have f: "kept s s1" "demote_restart g = False"
    "\<not> grant_restart g \<longrightarrow> same s s1 \<and> stuck recover s r (set (res_convertqueue x))"
    using grant_convert_pass_facts [OF ok x subset_refl dist Suc.prems(4) p(1)] by auto
  obtain x1 where x1: "master_ok s1 r" "ls_rsbs s1 r = Some x1" "set (res_convertqueue x1) \<subseteq> set (res_convertqueue x)"
    using p(2) by (rule pass_okE)
  show ?case
  proof (cases "grant_restart g")
    case True
    have "\<forall>k\<in>set (res_convertqueue x1). ls_lkbidr s k \<noteq> None"
      using ok x x1(3) by (auto simp: master_ok_def queues_ok_def on_queue_def)
    then have nd: "no_convdeadlk s1 (set (res_convertqueue x1))"
      using no_convdeadlk_kept [OF Suc.prems(4) f(1) _ x1(3)] by simp
    have "retry_n n (grant_convert_restart env r recover) (quit, gp_cw g, gp_count g, s1) = Some (Done (hi, cw', count', s'))"
      using Suc.prems(1) x p(1) True by (simp add: grant_convert_restart_def)
    from Suc.IH [OF this x1(1,2) nd] kept_trans [OF f(1)] show ?thesis by blast
  next
    case False
    then have "s' = s1" using Suc.prems(1) x p(1) f(2) by (simp add: grant_convert_restart_def)
    moreover obtain x1 where "ls_rsbs s1 r = Some x1" "rsb_core x1 = rsb_core x"
      using same_rsb x f(3) False by blast
    moreover have "stuck recover s1 r (set (res_convertqueue x))" using stuck_same f(3) False by blast
    ultimately show ?thesis using f(1) rsb_coreD(2) by metis
  qed
qed

section \<open>The wait queue\<close>

text \<open>Taking a lock off its queue to grant it leaves the order of the others.\<close>

definition taken :: "lkid \<Rightarrow> lkid list \<Rightarrow> lkid list \<Rightarrow> bool" where
  "taken k q q' \<longleftrightarrow> q' = q \<or> q' = remove1 k q"

lemma us_grant_lock_order:
  assumes "us_grant_lock env r k s = Some s'" and "ls_rsbs s r = Some x"
  shows "\<exists>x'. ls_rsbs s' r = Some x' \<and> taken k (res_convertqueue x) (res_convertqueue x') \<and>
    taken k (res_waitqueue x) (res_waitqueue x')"
  using assms
  by (auto simp: us_grant_lock_def move_lkb_def del_lkb_def add_lkb_def hold_lkb_def unhold_lkb_def
      kref_get_lkb_def kref_put_lkb_def Option.bind_eq_Some_conv upd_lkb_eq_Some_iff upd_rsb_eq_Some_iff
      unqueue_def taken_def split: if_splits)

lemma grant_lock_pending_order:
  assumes ok: "master_ok s r" and x: "ls_rsbs s r = Some x" and m: "member s r k l"
    and rq: "lkb_rqmode l \<noteq> DLM_LOCK_IV"
    and compat: "\<forall>j\<in>holders x - {k}. compat (gr_mode s j) (lkb_rqmode l)"
    and g: "grant_lock_pending env r k s = Some s'"
  shows "\<exists>x'. ls_rsbs s' r = Some x' \<and> taken k (res_convertqueue x) (res_convertqueue x') \<and>
    taken k (res_waitqueue x) (res_waitqueue x')"
proof -
  have "keeps s (set_lvb_lock env r k s)"
    by (rule set_lvb_lock_keeps [OF x]) (use m in \<open>auto simp: member_def lkb_wf_def\<close>)
  then obtain s1 where s1: "set_lvb_lock env r k s = Some s1" "same s s1" by (rule keepsE)
  obtain x1 where x1: "ls_rsbs s1 r = Some x1" "rsb_core x1 = rsb_core x" using same_rsb [OF s1(2) x] by blast
  obtain s2 where s2: "grant_lock env r k s = Some s2" "granted r k l x s s2"
    using grant_lock_grants [OF ok x m rq compat] by blast
  have u: "us_grant_lock env r k s1 = Some s2" using s2(1) s1(1) by (simp add: grant_lock_def)
  obtain x2 where x2: "ls_rsbs s2 r = Some x2" "taken k (res_convertqueue x) (res_convertqueue x2)"
    "taken k (res_waitqueue x) (res_waitqueue x2)"
    using us_grant_lock_order [OF u x1(1)] by (auto simp: rsb_coreD [OF x1(2)])
  obtain l2 where l2: "member s2 r k l2" using s2(2) by (rule grantedE)
  then have l2': "ls_lkbidr s2 k = Some l2" by (simp add: member_def)
  let ?f = "if is_master_copy l2 then map_option snd (send_grant env r k s2) else queue_cast k 0 s2"
  have "keeps s2 ?f" using send_grant_keeps [OF x2(1) l2'] member_cast [OF l2] by simp
  then obtain s3 where s3: "?f = Some s3" "same s2 s3" by (rule keepsE)
  have "?f = Some s'" using g s2(1) l2' by (simp add: grant_lock_pending_def)
  then have "same s2 s'" using s3 by simp
  then obtain x' where x': "ls_rsbs s' r = Some x'" "rsb_core x' = rsb_core x2" using same_rsb x2(1) by blast
  show ?thesis using x2(2,3) x'(1) by (simp add: rsb_coreD [OF x'(2)])
qed

text \<open>A grant from the wait queue leaves stuck what it does not pass.\<close>

lemma granted_stuck:
  assumes st: "stuck recover s r K" and x: "ls_rsbs s r = Some x" and g: "granted r k l x s s'"
    and l: "ls_lkbidr s k = Some l" and kw: "k \<notin> holders x"
    and x': "ls_rsbs s' r = Some x'" "res_convertqueue x' = res_convertqueue x"
    and K: "k \<notin> K" "\<forall>j\<in>K. \<exists>l. ls_lkbidr s j = Some l \<and>
      (lkb_grmode l = DLM_LOCK_IV \<longrightarrow> hd (res_waitqueue x') = hd (res_waitqueue x))"
  shows "stuck recover s' r K"
proof -
  have o: "only r {k} s s'" using g by (simp add: granted_def)
  have h: "holders x' = insert k (holders x)" using g x'(1,2) by (auto simp: granted_def holders_def)
  have other: "\<exists>j'. ls_lkbidr s' j = Some j' \<and> lkb_core j' = lkb_core lj"
    if j: "ls_lkbidr s j = Some lj" "j \<noteq> k" for j lj
    by (rule only_lkb [OF o j(1)]) (use j(2) in auto)
  have gr: "gr_mode s' j = gr_mode s j" if "j \<in> holders x" for j
  proof (cases "ls_lkbidr s j")
    case None
    then have "ls_lkbidr s' j = None" using o by (simp add: only_def)
    with None show ?thesis by (simp add: gr_mode_def)
  next
    case (Some lj)
    have "j \<noteq> k" using that kw by blast
    then obtain j' where j': "ls_lkbidr s' j = Some j'" "lkb_core j' = lkb_core lj" using other Some by blast
    with Some show ?thesis by (simp add: gr_mode_def lkb_coreD(5) [OF j'(2)])
  qed
  have "\<not> grant_rule s' x' j lj' False recover" if j: "j \<in> K" "ls_lkbidr s' j = Some lj'" for j lj'
  proof -
    obtain lj where lj: "ls_lkbidr s j = Some lj" "j \<noteq> k"
      and hd: "lkb_grmode lj = DLM_LOCK_IV \<longrightarrow> hd (res_waitqueue x') = hd (res_waitqueue x)"
      using K j(1) by blast
    then have core: "lkb_core lj' = lkb_core lj" using other [OF lj] j(2) by auto
    have no: "\<not> grant_rule s x j lj False recover" using st x j(1) lj(1) by (simp add: stuck_def)
    have "order_ok x' j lj' False recover = order_ok x j lj False recover"
      using x'(2) hd by (simp add: order_ok_def lkb_coreD [OF core])
    moreover have "\<forall>i\<in>holders x' - {j}. compat (gr_mode s' i) (lkb_rqmode lj') \<Longrightarrow>
        \<forall>i\<in>holders x - {j}. compat (gr_mode s i) (lkb_rqmode lj)"
      by (metis DiffD1 DiffD2 DiffI gr h insertI2 lkb_coreD(4) [OF core])
    ultimately show ?thesis using no unfolding grant_rule_def lkb_coreD(6) [OF core] by blast
  qed
  then show ?thesis using x'(1) by (simp add: stuck_def)
qed

lemma stuck_cong:
  assumes "stuck recover s r K" and "ls_rsbs s r = Some x" and "ls_rsbs s' r = Some x"
    and "\<forall>j\<in>K. ls_lkbidr s' j = ls_lkbidr s j" and "\<forall>j\<in>holders x. gr_mode s' j = gr_mode s j"
  shows "stuck recover s' r K"
proof -
  have "\<not> grant_rule s' x k l False recover" if "k \<in> K" "ls_lkbidr s' k = Some l" for k l
  proof -
    have "\<not> grant_rule s x k l False recover" using assms(1,2,4) that by (simp add: stuck_def)
    then show ?thesis using assms(5) by (simp add: grant_rule_def)
  qed
  then show ?thesis using assms(3) by (simp add: stuck_def)
qed

lemma grant_wait_pass_stuck:
  assumes "master_ok s r" and "ls_rsbs s r = Some x" and "res_waitqueue x = p @ q"
    and "stuck recover s r (set p \<union> set (res_convertqueue x))"
    and "no_convdeadlk s (set q)"
    and "grant_wait_pass env r q high cw count s = Some (high', cw', count', s')"
  shows "master_ok s' r \<and> (\<exists>x'. ls_rsbs s' r = Some x' \<and>
    stuck recover s' r (set (res_waitqueue x') \<union> set (res_convertqueue x')))"
  using assms
proof (induction q arbitrary: high cw count s x p)
  case Nil
  then show ?case by simp
next
  case (Cons k q)
  note ok = Cons.prems(1) and x = Cons.prems(2) and w = Cons.prems(3)
  have qs: "queues_ok s r x" using ok x by (auto simp: master_ok_def)
  then have d': "distinct (rsb_queues x)" by (simp add: queues_ok_def)
  then have kp: "k \<notin> set p" "k \<notin> holders x" "k \<notin> set (res_convertqueue x)" "k \<notin> set q"
    using w by (auto simp: rsb_queues_def holders_def)
  obtain l where m: "member s r k l" and qk: "queued_ok r DLM_LKSTS_WAITING l"
    by (rule queue_member [OF ok x, of k DLM_LKSTS_WAITING]) (use w in auto)
  have l: "ls_lkbidr s k = Some l" "lkb_wf l" using m by (auto simp: member_def)
  have gr: "lkb_grmode l = DLM_LOCK_IV" using qk by (simp add: queued_ok_def modes_ok_def)
  have ask: "asks_ok x k l False" using w gr by (simp add: asks_ok_def)
  obtain rv err s1 where d: "can_be_granted r k False False False s = Some (rv, err, s1)"
    "decided s x k l (rv, err, s1)"
    using can_be_granted_decides [OF qs x l ask] by fast
  have nok: "\<not> has_flag (lkb_exflags l) DLM_LKF_CONVDEADLK" and noq: "no_convdeadlk s (set q)"
    using Cons.prems(5) l(1) by (simp_all add: no_convdeadlk_def)
  have on: "\<exists>lj. ls_lkbidr s j = Some lj" if "j \<in> set (rsb_queues x)" for j
    using qs that by (auto simp: queues_ok_def rsb_queues_def on_queue_def)
  show ?case
  proof (cases rv)
    case True
    obtain l1 where k1: "master_ok s1 r" "ls_rsbs s1 r = Some x" "member s1 r k l1" "lkb_status l1 = lkb_status l"
      and yes: "\<forall>j\<in>holders x - {k}. compat (gr_mode s1 j) (lkb_rqmode l1)"
      and oth: "\<forall>j. j \<noteq> k \<longrightarrow> gr_mode s1 j = gr_mode s j \<and> ls_lkbidr s1 j = ls_lkbidr s j"
      using decided_keeps [OF ok x m d(2)] True by fastforce
    have l1: "ls_lkbidr s1 k = Some l1" using k1(3) by (simp add: member_def)
    have rq: "lkb_rqmode l1 \<noteq> DLM_LOCK_IV"
      using member_queued [OF k1(1,3)] k1(4) qk by (auto simp: queued_ok_def modes_ok_def)
    obtain s2 where s2: "grant_lock_pending env r k s1 = Some s2" "granted r k l1 x s1 s2"
      using grant_lock_pending_grants [OF k1(1,2,3) rq yes] by blast
    obtain x2 where x2: "master_ok s2 r" "ls_rsbs s2 r = Some x2"
      "set (res_waitqueue x2) = set (res_waitqueue x) - {k}"
      using s2(2) by (rule grantedE)
    have tk: "taken k (res_convertqueue x) (res_convertqueue x2)" "taken k (res_waitqueue x) (res_waitqueue x2)"
      using grant_lock_pending_order [OF k1(1,2,3) rq yes s2(1)] x2(2) by auto
    have c2: "res_convertqueue x2 = res_convertqueue x" using tk(1) kp(3) by (auto simp: taken_def remove1_idem)
    have "k \<in> set (res_waitqueue x)" "k \<notin> set (res_waitqueue x2)" using w x2(3) by simp_all
    then have "res_waitqueue x2 \<noteq> res_waitqueue x" by auto
    with tk(2) have "res_waitqueue x2 = remove1 k (p @ k # q)" by (simp add: taken_def w)
    then have w2: "res_waitqueue x2 = p @ q" using kp(1) by (simp add: remove1_append)
    have j: "j \<noteq> k" if "j \<in> set p \<union> set (res_convertqueue x)" for j using that kp(1,3) by auto
    have st1: "stuck recover s1 r (set p \<union> set (res_convertqueue x))"
    proof (rule stuck_cong [OF Cons.prems(4) x k1(2)])
      show "\<forall>i\<in>set p \<union> set (res_convertqueue x). ls_lkbidr s1 i = ls_lkbidr s i" using oth j by blast
      show "\<forall>i\<in>holders x. gr_mode s1 i = gr_mode s i" using oth kp(2) by metis
    qed
    have cv: "\<exists>lj. ls_lkbidr s1 j = Some lj \<and> lkb_grmode lj \<noteq> DLM_LOCK_IV" if jc: "j \<in> set (res_convertqueue x)" for j
    proof -
      obtain lj where "member s1 r j lj" "queued_ok r DLM_LKSTS_CONVERT lj"
        by (rule queue_member [OF k1(1,2), of j DLM_LKSTS_CONVERT]) (use jc in simp_all)
      then show ?thesis by (simp add: member_def queued_ok_def modes_ok_def)
    qed
    have st2: "stuck recover s2 r (set p \<union> set (res_convertqueue x))"
    proof (rule granted_stuck [OF st1 k1(2) s2(2) l1 kp(2) x2(2) c2])
      show "k \<notin> set p \<union> set (res_convertqueue x)" using kp(1,3) by simp
      show "\<forall>j\<in>set p \<union> set (res_convertqueue x). \<exists>l. ls_lkbidr s1 j = Some l \<and>
          (lkb_grmode l = DLM_LOCK_IV \<longrightarrow> hd (res_waitqueue x2) = hd (res_waitqueue x))"
      proof
        fix i assume i: "i \<in> set p \<union> set (res_convertqueue x)"
        then have "i \<in> set (rsb_queues x)" using w by (auto simp: rsb_queues_def)
        then obtain li where "ls_lkbidr s1 i = Some li" using on oth j [OF i] by metis
        moreover have "hd (res_waitqueue x2) = hd (res_waitqueue x)" if "i \<in> set p"
          using that w w2 by (cases p) auto
        ultimately show "\<exists>l. ls_lkbidr s1 i = Some l \<and>
          (lkb_grmode l = DLM_LOCK_IV \<longrightarrow> hd (res_waitqueue x2) = hd (res_waitqueue x))"
          using i cv [of i] by auto
      qed
    qed
    have "kept s s2" using kept_trans [OF kept_decided [OF d(2) l(1)] kept_granted [OF s2(2) l1]] .
    moreover have "\<forall>j\<in>set q. ls_lkbidr s j \<noteq> None" using on w by (auto simp: rsb_queues_def)
    ultimately have nd: "no_convdeadlk s2 (set q)" using no_convdeadlk_kept [OF noq _ _ subset_refl] by blast
    have run: "grant_wait_pass env r q high cw (count + 1) s2 = Some (high', cw', count', s')"
      using Cons.prems(6) d(1) True s2(1) by simp
    show ?thesis by (rule Cons.IH [OF x2(1,2) w2 _ nd run]) (use st2 c2 in simp)
  next
    case False
    have s1: "s1 = s" by (rule can_be_granted_refused_same [OF l(1) nok]) (use d(1) False in simp)
    have no: "\<not> grant_rule s x k l False False"
      by (rule can_be_granted_refused [OF qs x l ask]) (use d(1) False in simp)
    then have "\<not> grant_rule s x k l False recover" using gr by (simp add: grant_rule_def order_ok_def)
    then have "stuck recover s r (set (p @ [k]) \<union> set (res_convertqueue x))"
      using Cons.prems(4) x l(1) by (auto simp: stuck_def)
    from Cons.IH [OF ok x _ this noq, of "max (lkb_rqmode l) high" "cw \<or> lkb_rqmode l = DLM_LOCK_CW" count]
    show ?thesis using w d(1) s1 False l(1) Cons.prems(6) by simp
  qed
qed

section \<open>Nothing that could be granted is left waiting\<close>

text \<open>C3: after \<open>grant_pending_locks\<close> on a resource mastered here, where no lock that waits has
  \<open>DLM_LKF_CONVDEADLK\<close>, no lock on the convert or the wait queue satisfies the grant rule: each
  conflicts with another holder, or has to wait its turn behind a lock that does.\<close>

theorem no_lost_grant:
  assumes ok: "master_ok s r" and x: "ls_rsbs s r = Some x" and "is_master env x"
    and nd: "no_convdeadlk s (set (res_convertqueue x) \<union> set (res_waitqueue x))"
  shows "\<exists>count' s' x'. grant_pending_locks env r count s = Some (count', s') \<and> ls_rsbs s' r = Some x' \<and>
    (\<forall>k\<in>set (res_convertqueue x') \<union> set (res_waitqueue x'). \<exists>l. ls_lkbidr s' k = Some l \<and>
       \<not> grant_rule s' x' k l False (rsb_flag x RSB_RECOVER_GRANT))"
proof -
  let ?rec = "rsb_flag x RSB_RECOVER_GRANT"
  have qs: "queues_ok s r x" using ok x by (auto simp: master_ok_def)
  obtain hi c1 n1 s1 where 1: "retry_n (restart_measure x False + 1) (grant_convert_restart env r ?rec)
      (False, False, count, s) = Some (Done (hi, c1, n1, s1))" "pass_ok r x s s1 False" and hi: "valid_mode hi"
    using grant_convert_restart_ends [OF ok x, where quit = False and recover = ?rec and cw = False
        and count = count and env = env] by blast
  have ndc: "no_convdeadlk s (set (res_convertqueue x))" using nd unfolding no_convdeadlk_def by blast
  obtain x1 where kept: "kept s s1" and x1: "ls_rsbs s1 r = Some x1"
    and st1: "stuck ?rec s1 r (set (res_convertqueue x1))"
    using grant_convert_restart_stuck [OF 1(1) ok x ndc] by blast
  have p1: "master_ok s1 r" "set (res_waitqueue x1) \<subseteq> set (res_waitqueue x)"
    using 1(2) x1 by (auto elim!: pass_okE)
  have "\<forall>k\<in>set (res_waitqueue x1). ls_lkbidr s k \<noteq> None"
    using qs p1(2) by (auto simp: queues_ok_def on_queue_def)
  then have ndw: "no_convdeadlk s1 (set (res_waitqueue x1))"
    using no_convdeadlk_kept [OF nd kept] p1(2) by blast
  have c: "grant_pending_convert env r DLM_LOCK_IV False count s = Some (max DLM_LOCK_IV hi, c1, n1, s1)"
    using retry_n_Done [OF 1(1)] x by (simp add: grant_pending_convert_def)
  obtain h2 c2 n2 s2 where 2: "grant_pending_wait env r (max DLM_LOCK_IV hi) c1 n1 s1 = Some (h2, c2, n2, s2)"
    and h2: "valid_mode (max DLM_LOCK_IV hi) \<longrightarrow> valid_mode h2"
    using grant_pending_wait_keeps [OF p1(1) x1] by blast
  obtain x2 where x2: "master_ok s2 r" "ls_rsbs s2 r = Some x2"
    and st2: "stuck ?rec s2 r (set (res_waitqueue x2) \<union> set (res_convertqueue x2))"
  proof -
    have "grant_wait_pass env r (res_waitqueue x1) (max DLM_LOCK_IV hi) c1 n1 s1 = Some (h2, c2, n2, s2)"
      using 2 x1 by (simp add: grant_pending_wait_def)
    moreover have "stuck ?rec s1 r (set [] \<union> set (res_convertqueue x1))" using st1 by simp
    moreover have "res_waitqueue x1 = [] @ res_waitqueue x1" by simp
    ultimately show ?thesis using grant_wait_pass_stuck [OF p1(1) x1] ndw that by blast
  qed
  obtain count' s' where g: "grant_pending_locks env r count s = Some (count', s')" "same s2 s'"
  proof (cases "h2 = DLM_LOCK_IV")
    case True
    then show ?thesis using that [of n2 s2] assms(3) x c 2 by (simp add: grant_pending_locks_def)
  next
    case False
    obtain n' s' where g: "grant_pending_locks env r count s = Some (n', s')"
      using grant_pending_locks_keeps [OF ok x] by blast
    then have b: "bast_granted env r (res_grantqueue x2) h2 c2 s2 = Some s'"
      using assms(3) x c 2 x2(2) False by (auto simp: grant_pending_locks_def Option.bind_eq_Some_conv)
    have "valid_mode h2" using h2 hi by (auto simp: max_def)
    then have "keeps s2 (bast_granted env r (res_grantqueue x2) h2 c2 s2)"
      by (intro bast_granted_keeps [OF x2(2)]) (use master_ok_live [OF x2] in \<open>auto simp: rsb_queues_def\<close>)
    with b g that show ?thesis by (auto elim!: keepsE)
  qed
  obtain x' where x': "ls_rsbs s' r = Some x'" "rsb_core x' = rsb_core x2" using same_rsb [OF g(2) x2(2)] by blast
  have ok': "queues_ok s' r x'" using master_ok_same [OF g(2) x2(1)] x'(1) by (simp add: master_ok_def)
  have "stuck ?rec s' r (set (res_convertqueue x') \<union> set (res_waitqueue x'))"
    using stuck_same [OF st2 g(2)] by (simp add: rsb_coreD [OF x'(2)] Un_commute)
  then have "\<forall>k\<in>set (res_convertqueue x') \<union> set (res_waitqueue x'). \<exists>l. ls_lkbidr s' k = Some l \<and>
      \<not> grant_rule s' x' k l False ?rec"
    using ok' x'(1) unfolding stuck_def queues_ok_def on_queue_def by blast
  with g(1) x'(1) show ?thesis by blast
qed

text \<open>Lock 1 holds the resource in \<open>PR\<close>; lock 3 waits for \<open>EX\<close>, lock 4, behind it, for \<open>PR\<close>.\<close>

definition wait_ls :: dlm_ls where
  "wait_ls = ls_of [1 \<mapsto> lkb1, 3 \<mapsto> lkb_of 3 DLM_LKSTS_WAITING DLM_LOCK_IV DLM_LOCK_EX 2,
      4 \<mapsto> lkb_of 4 DLM_LKSTS_WAITING DLM_LOCK_IV DLM_LOCK_PR 2] [0 \<mapsto> rsb_of [1] [] [3, 4]]"

lemma wait_ls_ok: "master_ok wait_ls 0"
proof -
  have "queues_ok wait_ls 0 (rsb_of [1] [] [3, 4])"
    by (auto simp: queues_ok_def rsb_queues_def on_queue_def queued_ok_def lkb_wf_def modes_ok_def
        wait_ls_def ls_of_def sample_defs has_flag_def split: if_splits)
  then show ?thesis
    by (simp add: master_ok_def wait_ls_def ls_of_def modes.consistent_def holders_def pairwise_on_def gr_mode_def)
      (simp add: sample_defs)
qed

theorem no_lost_grant_witness:
  "\<exists>count' s' x'. grant_pending_locks env0 0 0 wait_ls = Some (count', s') \<and> ls_rsbs s' 0 = Some x' \<and>
    stuck False s' 0 (set (res_convertqueue x') \<union> set (res_waitqueue x'))"
proof -
  let ?x = "rsb_of [1] [] [3, 4]"
  have x: "ls_rsbs wait_ls 0 = Some ?x" by (simp add: wait_ls_def ls_of_def)
  have m: "is_master env0 ?x" by (simp add: env0_def sample_defs)
  have f: "rsb_flag ?x RSB_RECOVER_GRANT = False" by (simp add: rsb_flag_def sample_defs)
  have n: "no_convdeadlk wait_ls (set (res_convertqueue ?x) \<union> set (res_waitqueue ?x))"
    by (auto simp: no_convdeadlk_def wait_ls_def ls_of_def sample_defs has_flag_def)
  show ?thesis using no_lost_grant [OF wait_ls_ok x m n, of 0] unfolding f stuck_def
    by (metis option.inject)
qed

end
