(* ===== verification/Recovery.thy ===== *)
theory Recovery
  imports Receive
begin

text \<open>
  The part of \<open>lock.c\<close> that the recovery daemon runs after nodes have left: the locks that wait
  for replies from nodes that are gone (\<open>dlm_recover_waiters_pre\<close>, \<open>dlm_recover_waiters_post\<close>),
  the locks such nodes held (\<open>dlm_recover_purge\<close>, \<open>dlm_purge_mstcpy_locks\<close>), the locks that may be
  granted since (\<open>dlm_recover_grant\<close>), and the locks a new master rebuilds
  (\<open>dlm_recover_master_copy\<close>, \<open>dlm_recover_process_copy\<close>).
\<close>

section \<open>Waiting locks, before the masters are known\<close>

text \<open>The zeroed \<open>ms_local\<close>, with the three fields recovery sets.\<close>

definition local_reply :: "dlm_env \<Rightarrow> dlm_lkb \<Rightarrow> int \<Rightarrow> int \<Rightarrow> dlm_message" where
  "local_reply env l mstype result =
     (zero_message 0)\<lparr>h_nodeid := to32 (lkb_nodeid l), m_type := mstype,
       m_result := to32 (to_dlm_errno env result)\<rparr>"

definition recover_convert_waiter :: "dlm_env \<Rightarrow> lkid \<Rightarrow> dlm_ls \<Rightarrow> dlm_ls option" where
  "recover_convert_waiter env lkb s = do {
     l \<leftarrow> ls_lkbidr s lkb;
     if middle_conversion l then do {
       s \<leftarrow> hold_lkb lkb s;
       s \<leftarrow> us_receive_convert_reply env lkb (local_reply env l DLM_MSG_CONVERT_REPLY (-EINPROGRESS)) True s;
       s \<leftarrow> upd_lkb lkb (\<lambda>l. l\<lparr>lkb_grmode := DLM_LOCK_IV\<rparr>) s;
       r \<leftarrow> lkb_resource l;
       s \<leftarrow> upd_rsb r (rsb_set_flag RSB_RECOVER_CONVERT) s;
       unhold_lkb lkb s
     }
     else if lkb_grmode l \<le> lkb_rqmode l then upd_lkb lkb (set_iflag DLM_IFL_RESEND_BIT) s
     else Some s
   }"

definition waiter_needs_recovery :: "dlm_env \<Rightarrow> dlm_ls \<Rightarrow> dlm_lkb \<Rightarrow> bool" where
  "waiter_needs_recovery env s l = (dlm_no_directory s \<or> dlm_is_removed env (lkb_wait_nodeid l))"

text \<open>The operation to recover, and the results of the faked unlock and cancel replies: the main
  reply may have come, leaving only an overlapping unlock or cancel.\<close>

definition overlap_results :: "dlm_lkb \<Rightarrow> int \<times> int \<times> int" where
  "overlap_results l = (
     let none = (lkb_grmode l = DLM_LOCK_IV)
     in if lkb_wait_type l \<noteq> 0 then (lkb_wait_type l, -DLM_EUNLOCK, -DLM_ECANCEL)
        else (if is_overlap_unlock l then DLM_MSG_UNLOCK
              else if is_overlap_cancel l then DLM_MSG_CANCEL else 0,
              if is_overlap_unlock l \<and> none then -ENOENT else -DLM_EUNLOCK,
              if is_overlap_cancel l \<and> none then 0 else -DLM_ECANCEL))"

text \<open>One round of the loop of \<open>dlm_recover_waiters_pre\<close>.\<close>

definition recover_waiter :: "dlm_env \<Rightarrow> lkid \<Rightarrow> dlm_ls \<Rightarrow> dlm_ls option" where
  "recover_waiter env lkb s = do {
     l \<leftarrow> ls_lkbidr s lkb;
     r \<leftarrow> lkb_resource l;
     _ \<leftarrow> ls_rsbs s r;
     if lkb_wait_type l = DLM_MSG_LOOKUP then upd_lkb lkb (set_iflag DLM_IFL_RESEND_BIT) s
     else if lkb_wait_type l = DLM_MSG_NOTIFY then upd_lkb lkb (set_iflag DLM_IFL_RESEND_BIT) s
     else if \<not> waiter_needs_recovery env s l then Some s
     else do {
       let (wait_type, unlock_result, cancel_result) = overlap_results l;
       if wait_type = DLM_MSG_REQUEST then upd_lkb lkb (set_iflag DLM_IFL_RESEND_BIT) s
       else if wait_type = DLM_MSG_CONVERT then recover_convert_waiter env lkb s
       else if wait_type = DLM_MSG_UNLOCK then do {
         s \<leftarrow> hold_lkb lkb s;
         s \<leftarrow> us_receive_unlock_reply env lkb (local_reply env l DLM_MSG_UNLOCK_REPLY unlock_result) True s;
         (_, s) \<leftarrow> dlm_put_lkb env lkb s;
         Some s
       }
       else if wait_type = DLM_MSG_CANCEL then do {
         s \<leftarrow> hold_lkb lkb s;
         s \<leftarrow> us_receive_cancel_reply env lkb (local_reply env l DLM_MSG_CANCEL_REPLY cancel_result) True s;
         (_, s) \<leftarrow> dlm_put_lkb env lkb s;
         Some s
       }
       else Some s
     }
   }"

text \<open>\<open>list_for_each_entry_safe\<close> over \<open>ls_waiters\<close>: a round takes at most its own lock off the list.\<close>

fun recover_waiters :: "dlm_env \<Rightarrow> lkid list \<Rightarrow> dlm_ls \<Rightarrow> dlm_ls option" where
  "recover_waiters env [] s = Some s"
| "recover_waiters env (lkb # q) s = do {
     s \<leftarrow> recover_waiter env lkb s;
     recover_waiters env q s
   }"

definition dlm_recover_waiters_pre :: "dlm_env \<Rightarrow> dlm_ls \<Rightarrow> dlm_ls option" where
  "dlm_recover_waiters_pre env s = (
     let ms_local = kmalloc env (ls_tick s); s = s\<lparr>ls_tick := ls_tick s + 1\<rparr>
     in if ms_local = None then Some s else recover_waiters env (ls_waiters s) s)"

section \<open>Waiting locks, once the masters are known\<close>

text \<open>The first lock of the waiters list to resend, with a reference taken.\<close>

fun find_resend_list :: "lkid list \<Rightarrow> dlm_ls \<Rightarrow> (lkid option \<times> dlm_ls) option" where
  "find_resend_list [] s = Some (None, s)"
| "find_resend_list (iter # q) s = do {
     i \<leftarrow> ls_lkbidr s iter;
     if iflag i DLM_IFL_RESEND_BIT then do { s \<leftarrow> hold_lkb iter s; Some (Some iter, s) }
     else find_resend_list q s
   }"

definition find_resend_waiter :: "dlm_ls \<Rightarrow> (lkid option \<times> dlm_ls) option" where
  "find_resend_waiter s = find_resend_list (ls_waiters s) s"

text \<open>\<open>while (!atomic_dec_and_test(&lkb->lkb_wait_count)) unhold_lkb(lkb)\<close>. Each round but the last
  gives up a reference, and \<open>unhold_lkb\<close> asserts that one is left: the number of references
  bounds the rounds.\<close>

fun drop_waits :: "nat \<Rightarrow> lkid \<Rightarrow> dlm_ls \<Rightarrow> dlm_ls option" where
  "drop_waits 0 lkb s = None"
| "drop_waits (Suc n) lkb s = do {
     s \<leftarrow> upd_lkb lkb (\<lambda>l. l\<lparr>lkb_wait_count := lkb_wait_count l - 1\<rparr>) s;
     l \<leftarrow> ls_lkbidr s lkb;
     if lkb_wait_count l = 0 then Some s
     else do { s \<leftarrow> unhold_lkb lkb s; drop_waits n lkb s }
   }"

text \<open>What becomes of the operation \<open>mstype\<close>, with an overlapping cancel (\<open>oc\<close>) or unlock (\<open>ou\<close>) or
  neither.\<close>

definition resend_waiter ::
  "dlm_env \<Rightarrow> rsbp \<Rightarrow> lkid \<Rightarrow> int \<Rightarrow> bool \<Rightarrow> bool \<Rightarrow> dlm_ls \<Rightarrow> dlm_ls option" where
  "resend_waiter env r lkb mstype oc ou s =
     (if mstype \<in> {DLM_MSG_LOOKUP, DLM_MSG_REQUEST, DLM_MSG_NOTIFY} then
        (if oc \<or> ou then do {
           s \<leftarrow> queue_cast lkb (if ou then -DLM_EUNLOCK else -DLM_ECANCEL) s;
           unhold_lkb lkb s
         }
         else do {
           (_, s) \<leftarrow> us_request_lock env r lkb s;
           x \<leftarrow> ls_rsbs s r;
           if is_master env x then confirm_master env r 0 s else Some s
         })
      else if mstype = DLM_MSG_CONVERT then
        (if oc then queue_cast lkb (-DLM_ECANCEL) s
         else if ou then do {
           s \<leftarrow> upd_lkb lkb (\<lambda>l. l\<lparr>lkb_exflags := lkb_exflags l OR DLM_LKF_FORCEUNLOCK\<rparr>) s;
           map_option snd (us_unlock_lock env r lkb s)
         }
         else map_option snd (us_convert_lock env r lkb s))
      else Some s)"

text \<open>One round of the loop, from the lock found to the references given back.\<close>

definition recover_resend :: "dlm_env \<Rightarrow> lkid \<Rightarrow> dlm_ls \<Rightarrow> dlm_ls option" where
  "recover_resend env lkb s = do {
     l \<leftarrow> ls_lkbidr s lkb;
     r \<leftarrow> lkb_resource l;
     s \<leftarrow> hold_rsb r s;
     s \<leftarrow> upd_lkb lkb (\<lambda>l. clear_iflag DLM_IFL_RESEND_BIT (clear_iflag DLM_IFL_OVERLAP_UNLOCK_BIT
            (clear_iflag DLM_IFL_OVERLAP_CANCEL_BIT l))) s;
     s \<leftarrow> upd_lkb lkb (\<lambda>l. l\<lparr>lkb_wait_type := 0\<rparr>) s;
     s \<leftarrow> drop_waits (lkb_ref l + 1) lkb s;
     let s = s\<lparr>ls_waiters := remove1 lkb (ls_waiters s)\<rparr>;
     s \<leftarrow> resend_waiter env r lkb (lkb_wait_type l) (is_overlap_cancel l) (is_overlap_unlock l) s;
     s \<leftarrow> put_rsb env r s;
     (_, s) \<leftarrow> dlm_put_lkb env lkb s;
     Some s
   }"

definition recover_waiters_step :: "dlm_env \<Rightarrow> dlm_ls \<Rightarrow> (dlm_ls, int \<times> dlm_ls) pass option" where
  "recover_waiters_step env s =
     (if dlm_locking_stopped s then Some (Done (-EINTR, s))
      else do {
        (found, s) \<leftarrow> find_resend_waiter s;
        (case found of
           None \<Rightarrow> Some (Done (0, s))
         | Some lkb \<Rightarrow> do { s \<leftarrow> recover_resend env lkb s; Some (Retry s) })
      })"

definition dlm_recover_waiters_post :: "dlm_env \<Rightarrow> dlm_ls \<Rightarrow> (int \<times> dlm_ls) option" where
  "dlm_recover_waiters_post env s = retry (recover_waiters_step env) s"

section \<open>Purging\<close>

text \<open>\<open>list_for_each_entry_safe\<close> over a queue of the resource: a round takes at most its own
  lock off.\<close>

fun purge_mstcpy_list :: "dlm_env \<Rightarrow> rsbp \<Rightarrow> lkid list \<Rightarrow> dlm_ls \<Rightarrow> dlm_ls option" where
  "purge_mstcpy_list env r [] s = Some s"
| "purge_mstcpy_list env r (lkb # q) s = do {
     l \<leftarrow> ls_lkbidr s lkb;
     if \<not> is_master_copy l then purge_mstcpy_list env r q s
     else if lkb_recover_seq l = ls_recover_seq s then purge_mstcpy_list env r q s
     else do {
       s \<leftarrow> del_lkb r lkb s;
       (_, s) \<leftarrow> dlm_put_lkb env lkb s;
       purge_mstcpy_list env r q s
     }
   }"

definition dlm_purge_mstcpy_locks :: "dlm_env \<Rightarrow> rsbp \<Rightarrow> dlm_ls \<Rightarrow> dlm_ls option" where
  "dlm_purge_mstcpy_locks env r s = do {
     x \<leftarrow> ls_rsbs s r;
     s \<leftarrow> purge_mstcpy_list env r (res_grantqueue x) s;
     x \<leftarrow> ls_rsbs s r;
     s \<leftarrow> purge_mstcpy_list env r (res_convertqueue x) s;
     x \<leftarrow> ls_rsbs s r;
     purge_mstcpy_list env r (res_waitqueue x) s
   }"

fun purge_dead_list ::
  "dlm_env \<Rightarrow> rsbp \<Rightarrow> lkid list \<Rightarrow> int \<Rightarrow> nat \<Rightarrow> dlm_ls \<Rightarrow> (nat \<times> dlm_ls) option" where
  "purge_dead_list env r [] nodeid_gone count s = Some (count, s)"
| "purge_dead_list env r (lkb # q) nodeid_gone count s = do {
     l \<leftarrow> ls_lkbidr s lkb;
     if \<not> is_master_copy l then purge_dead_list env r q nodeid_gone count s
     else if lkb_nodeid l = nodeid_gone \<or> dlm_is_removed env (lkb_nodeid l) then do {
       s \<leftarrow> (if has_flag (lkb_exflags l) DLM_LKF_VALBLK \<and> DLM_LOCK_PW \<le> lkb_grmode l
            then upd_rsb r (rsb_set_flag RSB_RECOVER_LVB_INVAL) s else Some s);
       s \<leftarrow> del_lkb r lkb s;
       (_, s) \<leftarrow> dlm_put_lkb env lkb s;
       s \<leftarrow> upd_rsb r (rsb_set_flag RSB_RECOVER_GRANT) s;
       purge_dead_list env r q nodeid_gone (count + 1) s
     }
     else purge_dead_list env r q nodeid_gone count s
   }"

text \<open>One round of the loop of \<open>dlm_recover_purge\<close>.\<close>

definition recover_purge_rsb ::
  "dlm_env \<Rightarrow> int \<Rightarrow> rsbp \<Rightarrow> nat \<Rightarrow> dlm_ls \<Rightarrow> (nat \<times> dlm_ls) option" where
  "recover_purge_rsb env nodeid_gone r count s = do {
     s \<leftarrow> hold_rsb r s;
     x \<leftarrow> ls_rsbs s r;
     (count, s) \<leftarrow> (if is_master env x then do {
          (count, s) \<leftarrow> purge_dead_list env r (res_grantqueue x) nodeid_gone count s;
          x \<leftarrow> ls_rsbs s r;
          (count, s) \<leftarrow> purge_dead_list env r (res_convertqueue x) nodeid_gone count s;
          x \<leftarrow> ls_rsbs s r;
          purge_dead_list env r (res_waitqueue x) nodeid_gone count s
        } else Some (count, s));
     s \<leftarrow> unhold_rsb env r s;
     Some (count, s)
   }"

fun recover_purge_list ::
  "dlm_env \<Rightarrow> int \<Rightarrow> rsbp list \<Rightarrow> nat \<Rightarrow> dlm_ls \<Rightarrow> (nat \<times> dlm_ls) option" where
  "recover_purge_list env nodeid_gone [] count s = Some (count, s)"
| "recover_purge_list env nodeid_gone (r # q) count s = do {
     (count, s) \<leftarrow> recover_purge_rsb env nodeid_gone r count s;
     recover_purge_list env nodeid_gone q count s
   }"

definition dlm_recover_purge :: "dlm_env \<Rightarrow> dlm_ls \<Rightarrow> dlm_ls option" where
  "dlm_recover_purge env s =
     (if ls_nodes_gone s = [] then Some s
      else map_option snd (recover_purge_list env (last (ls_nodes_gone s)) (ls_root_list s) 0 s))"

section \<open>Granting after a purge\<close>

text \<open>The walk over the keep tree of a bucket, in the order of the names.\<close>

fun find_grant_list :: "dlm_env \<Rightarrow> rsbp list \<Rightarrow> dlm_ls \<Rightarrow> (rsbp option \<times> dlm_ls) option" where
  "find_grant_list env [] s = Some (None, s)"
| "find_grant_list env (r # q) s = do {
     x \<leftarrow> ls_rsbs s r;
     if \<not> rsb_flag x RSB_RECOVER_GRANT then find_grant_list env q s
     else if \<not> is_master env x then do {
       s \<leftarrow> upd_rsb r (rsb_clear_flag RSB_RECOVER_GRANT) s;
       find_grant_list env q s
     }
     else do { s \<leftarrow> hold_rsb r s; Some (Some r, s) }
   }"

definition find_grant_rsb :: "dlm_env \<Rightarrow> u32 \<Rightarrow> dlm_ls \<Rightarrow> (rsbp option \<times> dlm_ls) option" where
  "find_grant_rsb env bucket s = find_grant_list env (inorder (keep (ls_rsbtbl s bucket))) s"

definition recover_grant_step ::
  "dlm_env \<Rightarrow> u32 \<times> nat \<times> dlm_ls \<Rightarrow> (u32 \<times> nat \<times> dlm_ls, nat \<times> dlm_ls) pass option" where
  "recover_grant_step env = (\<lambda>(bucket, lkb_count, s). do {
     (found, s) \<leftarrow> find_grant_rsb env bucket s;
     (case found of
        None \<Rightarrow> Some (if bucket = ls_rsbtbl_size s - 1 then Done (lkb_count, s)
                     else Retry (bucket + 1, lkb_count, s))
      | Some r \<Rightarrow> do {
          (count, s) \<leftarrow> grant_pending_locks env r 0 s;
          s \<leftarrow> upd_rsb r (rsb_clear_flag RSB_RECOVER_GRANT) s;
          s \<leftarrow> confirm_master env r 0 s;
          s \<leftarrow> put_rsb env r s;
          Some (Retry (bucket, lkb_count + count, s))
        })
   })"

definition dlm_recover_grant :: "dlm_env \<Rightarrow> dlm_ls \<Rightarrow> dlm_ls option" where
  "dlm_recover_grant env s = map_option snd (retry (recover_grant_step env) (0, 0, s))"

section \<open>Locks sent to a new master\<close>

fun search_remid_list :: "lkid list \<Rightarrow> int \<Rightarrow> u32 \<Rightarrow> dlm_ls \<Rightarrow> lkid option option" where
  "search_remid_list [] nodeid remid s = Some None"
| "search_remid_list (lkb # q) nodeid remid s = do {
     l \<leftarrow> ls_lkbidr s lkb;
     if lkb_nodeid l = nodeid \<and> lkb_remid l = remid then Some (Some lkb)
     else search_remid_list q nodeid remid s
   }"

definition search_remid :: "rsbp \<Rightarrow> int \<Rightarrow> u32 \<Rightarrow> dlm_ls \<Rightarrow> lkid option option" where
  "search_remid r nodeid remid s = do {
     x \<leftarrow> ls_rsbs s r;
     g \<leftarrow> search_remid_list (res_grantqueue x) nodeid remid s;
     if g \<noteq> None then Some g
     else do {
       c \<leftarrow> search_remid_list (res_convertqueue x) nodeid remid s;
       if c \<noteq> None then Some c
       else search_remid_list (res_waitqueue x) nodeid remid s
     }
   }"

text \<open>\<open>sizeof(struct dlm_rcom) + sizeof(struct rcom_lock)\<close>: a 48-byte header and 108 bytes.\<close>

abbreviation (input) sizeof_rcom_lock :: int where "sizeof_rcom_lock \<equiv> 156"

text \<open>The fields of the lock that come straight from the message.\<close>

definition rcom_fields :: "dlm_env \<Rightarrow> dlm_rcom \<Rightarrow> dlm_lkb \<Rightarrow> dlm_lkb" where
  "rcom_fields env rc l = (
     let rl = rc_buf rc;
         l = l\<lparr>lkb_nodeid := s32 (rc_h_nodeid rc), lkb_ownpid := s32 (rl_ownpid rl),
               lkb_remid := rl_lkid rl, lkb_exflags := rl_exflags rl\<rparr>;
         l = set_iflag DLM_IFL_MSTCPY_BIT (dlm_set_dflags_val (rl_flags rl) l)
     in l\<lparr>lkb_lvbseq := rl_lvbseq rl, lkb_rqmode := sint (rl_rqmode rl),
          lkb_grmode := sint (rl_grmode rl),
          lkb_bastfn := (if bit (rl_asts rl) 1 then Some (fake_bastfn env) else None),
          lkb_astfn := (if bit (rl_asts rl) 0 then Some (fake_astfn env) else None)\<rparr>)"

text \<open>The value block. A message shorter than its headers makes the code copy a negative
  length: \<open>None\<close>.\<close>

definition rcom_lvb :: "dlm_env \<Rightarrow> lkid \<Rightarrow> dlm_rcom \<Rightarrow> dlm_ls \<Rightarrow> (int \<times> dlm_ls) option" where
  "rcom_lvb env lkb rc s = (
     let rl = rc_buf rc; lvblen = uint (rc_h_length rc) - sizeof_rcom_lock
     in if \<not> has_flag (rl_exflags rl) DLM_LKF_VALBLK then Some (0, s)
        else if lvblen > int (ls_lvblen s) then Some (-EINVAL, s)
        else do {
          let (p, s) = dlm_allocate_lvb env s;
          s \<leftarrow> upd_lkb lkb (\<lambda>l. l\<lparr>lkb_lvbptr := p\<rparr>) s;
          (case p of
             None \<Rightarrow> Some (-ENOMEM, s)
           | Some p \<Rightarrow> do {
               _ \<leftarrow> dlm_assert (0 \<le> lvblen);
               Some (0, copy_lvb p (rl_lvb rl) (nat lvblen) s)
             })
        })"

text \<open>The error, the status left in the message, and the state.\<close>

definition receive_rcom_lock_args ::
  "dlm_env \<Rightarrow> lkid \<Rightarrow> rsbp \<Rightarrow> dlm_rcom \<Rightarrow> dlm_ls \<Rightarrow> (int \<times> u8 \<times> dlm_ls) option" where
  "receive_rcom_lock_args env lkb r rc s = do {
     let rl = rc_buf rc;
     s \<leftarrow> upd_lkb lkb (rcom_fields env rc) s;
     (error, s) \<leftarrow> rcom_lvb env lkb rc s;
     if error \<noteq> 0 then Some (error, rl_status rl, s)
     else do {
       l \<leftarrow> ls_lkbidr s lkb;
       if rl_wait_type rl = word_of_int DLM_MSG_CONVERT \<and> middle_conversion l then do {
         s \<leftarrow> upd_lkb lkb (\<lambda>l. l\<lparr>lkb_grmode := DLM_LOCK_IV\<rparr>) s;
         s \<leftarrow> upd_rsb r (rsb_set_flag RSB_RECOVER_CONVERT) s;
         Some (0, word_of_int DLM_LKSTS_CONVERT, s)
       } else Some (0, rl_status rl, s)
     }
   }"

text \<open>The label \<open>out_remid\<close>: the lock's id for the reply.\<close>

definition recover_remid :: "lkid \<Rightarrow> int \<Rightarrow> dlm_ls \<Rightarrow> (int \<times> u32 \<times> dlm_ls) option" where
  "recover_remid lkb error s = do {
     l \<leftarrow> ls_lkbidr s lkb;
     s \<leftarrow> upd_lkb lkb (\<lambda>l. l\<lparr>lkb_recover_seq := ls_recover_seq s\<rparr>) s;
     Some (error, lkb_id l, s)
   }"

text \<open>A lock that is not there yet: create it and queue it.\<close>

definition recover_new_copy ::
  "dlm_env \<Rightarrow> rsbp \<Rightarrow> dlm_rcom \<Rightarrow> dlm_ls \<Rightarrow> (int \<times> u32 \<times> dlm_ls) option" where
  "recover_new_copy env r rc s = (
     case create_lkb env s of (error, lkb, s) \<Rightarrow>
     if error \<noteq> 0 then Some (error, rl_remid (rc_buf rc), s)
     else do {
       lkb \<leftarrow> lkb;
       (error, status, s) \<leftarrow> receive_rcom_lock_args env lkb r rc s;
       if error \<noteq> 0 then do {
         (_, s) \<leftarrow> us_put_lkb env lkb s;
         Some (error, rl_remid (rc_buf rc), s)
       }
       else do {
         s \<leftarrow> attach_lkb r lkb s;
         s \<leftarrow> add_lkb env r lkb (sint status) s;
         let s = s\<lparr>ls_recover_locks_in := ls_recover_locks_in s + 1\<rparr>;
         x \<leftarrow> ls_rsbs s r;
         s \<leftarrow> (if res_waitqueue x \<noteq> [] \<or> res_convertqueue x \<noteq> []
              then upd_rsb r (rsb_set_flag RSB_RECOVER_GRANT) s else Some s);
         recover_remid lkb 0 s
       }
     })"

text \<open>The error, which is also \<open>*rl_result\<close>, \<open>*rl_remid\<close>, and the state.\<close>

definition dlm_recover_master_copy ::
  "dlm_env \<Rightarrow> dlm_rcom \<Rightarrow> dlm_ls \<Rightarrow> (int \<times> u32 \<times> dlm_ls) option" where
  "dlm_recover_master_copy env rc s = (
     let rl = rc_buf rc; from_nodeid = s32 (rc_h_nodeid rc)
     in if rl_parent_lkid rl \<noteq> 0 then Some (-EOPNOTSUPP, rl_remid rl, s)
        else do {
          (error, r, s) \<leftarrow> find_rsb env (rl_name rl) (unat (rl_namelen rl)) from_nodeid R_RECEIVE_RECOVER s;
          if error \<noteq> 0 then Some (error, rl_remid rl, s)
          else do {
            r \<leftarrow> r;
            x \<leftarrow> ls_rsbs s r;
            (error, remid, s) \<leftarrow> (
              if dlm_no_directory s \<and> dlm_dir_nodeid env x \<noteq> dlm_our_nodeid env
              then Some (-EBADR, rl_remid rl, s)
              else do {
                found \<leftarrow> search_remid r from_nodeid (rl_lkid rl) s;
                (case found of
                   Some lkb \<Rightarrow> recover_remid lkb (-EEXIST) s
                 | None \<Rightarrow> recover_new_copy env r rc s)
              });
            s \<leftarrow> put_rsb env r s;
            Some (error, remid, s)
          }
        })"

definition dlm_recover_process_copy ::
  "dlm_env \<Rightarrow> dlm_rcom \<Rightarrow> u64 \<Rightarrow> dlm_ls \<Rightarrow> (int \<times> dlm_ls) option" where
  "dlm_recover_process_copy env rc seq s = (
     let rl = rc_buf rc; lkb = rl_lkid rl; result = s32 (rl_result rl)
     in case find_lkb lkb s of
          None \<Rightarrow> Some (-ENOENT, s)
        | Some s \<Rightarrow> do {
            l \<leftarrow> ls_lkbidr s lkb;
            r \<leftarrow> lkb_resource l;
            s \<leftarrow> hold_rsb r s;
            (error, s) \<leftarrow> (
              if \<not> is_process_copy l then Some (-EINVAL, s)
              else if result = -EBADR then do { s \<leftarrow> dlm_send_rcom_lock env r lkb seq s; Some (0, s) }
              else do {
                s \<leftarrow> (if result = -EEXIST \<or> result = 0
                     then upd_lkb lkb (\<lambda>l. l\<lparr>lkb_remid := rl_remid rl\<rparr>) s else Some s);
                s \<leftarrow> dlm_recovered_lock env r s;
                Some (0, s)
              });
            s \<leftarrow> put_rsb env r s;
            (_, s) \<leftarrow> dlm_put_lkb env lkb s;
            Some (error, s)
          })"

end
