(* ===== verification/Lockspace.thy ===== *)
theory Lockspace
  imports Recovery
begin

text \<open>
  Lockspaces (\<open>lockspace.c\<close>): creating, finding and releasing them, the daemon that scans them
  and resends notifications, and the writable sysfs files. A \<open>lockspace\<close> is the part of
  \<open>struct dlm_ls\<close> that only this file uses, around the \<open>dlm_ls\<close> of the other theories; the module's
  static variables and its memory are a \<open>dlm_module\<close>.

  What the rest of the kernel does is asked of the environment: every call of another file that
  starts, stops or waits for something is logged in \<open>mod_log\<close>, and its error is
  \<open>le_error\<close>. A wait for something no other step of the model does is \<open>None\<close>.
\<close>

section \<open>State\<close>

type_synonym lsp = nat   \<comment> \<open>the address of a \<open>struct dlm_ls\<close>, also its local handle\<close>

abbreviation (input) DLM_LOCKSPACE_LEN :: nat where "DLM_LOCKSPACE_LEN \<equiv> 64"
abbreviation (input) LSFL_UEVENT_WAIT :: nat where "LSFL_UEVENT_WAIT \<equiv> 7"
abbreviation (input) EUNATCH :: int where "EUNATCH \<equiv> 49"

record lockspace =
  ls_name :: "u8 list"
  ls_exflags :: u32
  ls_count :: int
  ls_create_count :: int
  ls_scan_time :: u64
  ls_minor :: int
  ls_uevent_result :: int
  ls_recovery_result :: int
  ls_body :: dlm_ls

datatype chunk = Ls | Rsbtbl | Remove_name nat | Recover_buf

datatype ext =
    Midcomms_start | Midcomms_shutdown | Midcomms_stop | Version_wait
  | Scand_start | Scand_stop
  | Callback_start lsp | Callback_stop lsp | Recoverd_start lsp | Recoverd_stop lsp
  | Kobject_add lsp | Uevent lsp bool | Recovery_wait lsp
  | Clear_members lsp | Clear_members_gone lsp | Device_deregister lsp
  | Create_debug lsp | Delete_debug lsp

record dlm_module =
  mod_ls_count :: int
  mod_lslist :: "lsp list"
  mod_ls :: "lsp \<Rightarrow> lockspace option"
  mod_heap :: "(lsp \<times> chunk) list"
  mod_refs :: int
  mod_log :: "ext list"
  mod_tick :: nat

text \<open>The functions and settings of other files. \<open>le_alloc\<close> is told which addresses are in use;
  \<open>le_joined\<close> is what the cluster software and the recovery daemon do to a lockspace while it
  joins, \<open>le_stop\<close> and \<open>le_start\<close> are \<open>dlm_ls_stop\<close> and \<open>dlm_ls_start\<close>.\<close>

record ls_env =
  le_dlm :: dlm_env
  le_error :: "ext \<Rightarrow> nat \<Rightarrow> int"
  le_alloc :: "(lsp \<Rightarrow> bool) \<Rightarrow> nat \<Rightarrow> lsp option"
  le_chunk :: "chunk \<Rightarrow> nat \<Rightarrow> bool"
  le_module_get :: "nat \<Rightarrow> bool"
  le_daemon :: "nat \<Rightarrow> bool"
  le_recover_callbacks :: bool
  le_cluster_name :: "u8 list"
  le_rsbtbl_size :: int
  le_scan_secs :: u64
  le_newexcl :: u32
  le_fs :: u32
  le_random :: "nat \<Rightarrow> u64"
  le_uninit :: "nat \<Rightarrow> u64"
  le_memory :: dlm_ls
  le_joined :: "nat \<Rightarrow> dlm_ls \<Rightarrow> dlm_ls"
  le_stop :: "dlm_ls \<Rightarrow> dlm_ls"
  le_start :: "dlm_ls \<Rightarrow> dlm_ls"
  le_recovery_trylock :: "nat \<Rightarrow> bool"
  le_waiters_trylock :: "nat \<Rightarrow> bool"
  kstrtoint :: "u8 list \<Rightarrow> int + int"
  kstrtouint :: "u8 list \<Rightarrow> int + u32"

definition ext_call :: "ls_env \<Rightarrow> ext \<Rightarrow> dlm_module \<Rightarrow> int \<times> dlm_module" where
  "ext_call env c m =
     (le_error env c (mod_tick m), m\<lparr>mod_log := mod_log m @ [c], mod_tick := mod_tick m + 1\<rparr>)"

definition ext_do :: "ls_env \<Rightarrow> ext \<Rightarrow> dlm_module \<Rightarrow> dlm_module" where
  "ext_do env c m = snd (ext_call env c m)"

definition upd_ls :: "lsp \<Rightarrow> (lockspace \<Rightarrow> lockspace) \<Rightarrow> dlm_module \<Rightarrow> dlm_module option" where
  "upd_ls h f m = do {
     ls \<leftarrow> mod_ls m h;
     Some (m\<lparr>mod_ls := (mod_ls m)(h \<mapsto> f ls)\<rparr>)
   }"

section \<open>Finding a lockspace\<close>

text \<open>The first lockspace of the list that satisfies the condition.\<close>

fun find_in_list :: "(lsp \<Rightarrow> lockspace \<Rightarrow> bool) \<Rightarrow> lsp list \<Rightarrow> dlm_module \<Rightarrow> lsp option option" where
  "find_in_list P [] m = Some None"
| "find_in_list P (h # q) m = do {
     ls \<leftarrow> mod_ls m h;
     if P h ls then Some (Some h) else find_in_list P q m
   }"

definition find_and_hold ::
  "(lsp \<Rightarrow> lockspace \<Rightarrow> bool) \<Rightarrow> dlm_module \<Rightarrow> (lsp option \<times> dlm_module) option" where
  "find_and_hold P m = do {
     found \<leftarrow> find_in_list P (mod_lslist m) m;
     (case found of
        None \<Rightarrow> Some (None, m)
      | Some h \<Rightarrow> do {
          m \<leftarrow> upd_ls h (\<lambda>ls. ls\<lparr>ls_count := ls_count ls + 1\<rparr>) m;
          Some (Some h, m)
        })
   }"

definition dlm_find_lockspace_global :: "u32 \<Rightarrow> dlm_module \<Rightarrow> (lsp option \<times> dlm_module) option" where
  "dlm_find_lockspace_global gid = find_and_hold (\<lambda>_ ls. ls_global_id (ls_body ls) = gid)"

definition dlm_find_lockspace_local :: "lsp \<Rightarrow> dlm_module \<Rightarrow> (lsp option \<times> dlm_module) option" where
  "dlm_find_lockspace_local handle = find_and_hold (\<lambda>h _. h = handle)"

definition dlm_find_lockspace_device :: "int \<Rightarrow> dlm_module \<Rightarrow> (lsp option \<times> dlm_module) option" where
  "dlm_find_lockspace_device minor = find_and_hold (\<lambda>_ ls. ls_minor ls = minor)"

definition dlm_put_lockspace :: "lsp \<Rightarrow> dlm_module \<Rightarrow> dlm_module option" where
  "dlm_put_lockspace h = upd_ls h (\<lambda>ls. ls\<lparr>ls_count := ls_count ls - 1\<rparr>)"

text \<open>\<open>wait_event\<close> until no process uses the lockspace; no other step runs here.\<close>

definition remove_lockspace :: "lsp \<Rightarrow> dlm_module \<Rightarrow> dlm_module option" where
  "remove_lockspace h m = do {
     ls \<leftarrow> mod_ls m h;
     _ \<leftarrow> dlm_assert (ls_count ls = 0);
     Some (m\<lparr>mod_lslist := remove1 h (mod_lslist m)\<rparr>)
   }"

section \<open>The scanning daemon\<close>

definition find_ls_to_scan :: "ls_env \<Rightarrow> dlm_module \<Rightarrow> lsp option option" where
  "find_ls_to_scan env m = find_in_list (\<lambda>_ ls.
     time_after_eq (jiffies (le_dlm env)) (ls_scan_time ls + le_scan_secs env * hz (le_dlm env)))
     (mod_lslist m) m"

fun resend_notifies :: "dlm_env \<Rightarrow> lkid list \<Rightarrow> dlm_ls \<Rightarrow> dlm_ls option" where
  "resend_notifies env [] s = Some s"
| "resend_notifies env (lkb # q) s = do {
     l \<leftarrow> ls_lkbidr s lkb;
     s \<leftarrow> (if lkb_wait_type l = DLM_MSG_NOTIFY \<and>
              time_after (jiffies env) (lkb_wait_timestamp l + NOTIFY_TIMEOUT_SECS * hz env)
          then do {
            (_, s) \<leftarrow> resend_notify env lkb s;
            upd_lkb lkb (\<lambda>l. l\<lparr>lkb_wait_timestamp := jiffies env\<rparr>) s
          } else Some s);
     resend_notifies env q s
   }"

text \<open>One round of \<open>dlm_scand\<close>; \<open>False\<close> when no lockspace is due and the daemon sleeps.\<close>

definition dlm_scand :: "ls_env \<Rightarrow> dlm_module \<Rightarrow> (bool \<times> dlm_module) option" where
  "dlm_scand env m = do {
     found \<leftarrow> find_ls_to_scan env m;
     (case found of
        None \<Rightarrow> Some (False, m)
      | Some h \<Rightarrow> do {
          ls \<leftarrow> mod_ls m h;
          let t = mod_tick m;
          let m = m\<lparr>mod_tick := t + 1\<rparr>;
          m \<leftarrow> (if le_recovery_trylock env t then do {
                 s \<leftarrow> dlm_scan_rsbs (le_dlm env) (ls_body ls);
                 upd_ls h (\<lambda>ls. ls\<lparr>ls_scan_time := jiffies (le_dlm env), ls_body := s\<rparr>) m
               } else upd_ls h (\<lambda>ls. ls\<lparr>ls_scan_time := ls_scan_time ls + hz (le_dlm env)\<rparr>) m);
          if \<not> le_waiters_trylock env t then Some (True, m)
          else do {
            ls \<leftarrow> mod_ls m h;
            s \<leftarrow> resend_notifies (le_dlm env) (ls_waiters (ls_body ls)) (ls_body ls);
            m \<leftarrow> upd_ls h (\<lambda>ls. ls\<lparr>ls_body := s\<rparr>) m;
            Some (True, m)
          }
        })
   }"

section \<open>Creating a lockspace\<close>

definition do_uevent :: "ls_env \<Rightarrow> lsp \<Rightarrow> bool \<Rightarrow> dlm_module \<Rightarrow> int \<times> dlm_module" where
  "do_uevent env h in' m = ext_call env (Uevent h in') m"

definition threads_start :: "ls_env \<Rightarrow> dlm_module \<Rightarrow> int \<times> dlm_module" where
  "threads_start env m = (
     case ext_call env Midcomms_start m of (error, m) \<Rightarrow>
     if error \<noteq> 0 then (error, m)
     else case ext_call env Scand_start m of (error, m) \<Rightarrow>
       if error \<noteq> 0 then (error, ext_do env Midcomms_stop m) else (0, m))"

definition alloc_chunk :: "ls_env \<Rightarrow> lsp \<Rightarrow> chunk \<Rightarrow> dlm_module \<Rightarrow> bool \<times> dlm_module" where
  "alloc_chunk env h c m = (
     let ok = le_chunk env c (mod_tick m); m = m\<lparr>mod_tick := mod_tick m + 1\<rparr>
     in (ok, if ok then m\<lparr>mod_heap := (h, c) # mod_heap m\<rparr> else m))"

definition free_chunk :: "lsp \<Rightarrow> chunk \<Rightarrow> dlm_module \<Rightarrow> dlm_module" where
  "free_chunk h c m = m\<lparr>mod_heap := removeAll (h, c) (mod_heap m)\<rparr>"

definition remove_names :: "chunk list" where
  "remove_names = map Remove_name [0..<DLM_REMOVE_NAMES_MAX]"

fun alloc_chunks :: "ls_env \<Rightarrow> lsp \<Rightarrow> chunk list \<Rightarrow> dlm_module \<Rightarrow> bool \<times> dlm_module" where
  "alloc_chunks env h [] m = (True, m)"
| "alloc_chunks env h (c # q) m = (
     case alloc_chunk env h c m of (ok, m) \<Rightarrow>
     if ok then alloc_chunks env h q m else (False, m))"

text \<open>The bucket flags are not initialised: \<open>vmalloc\<close> leaves what was in memory. A negative
  \<open>lvblen\<close>, which the code does not refuse, is not modelled.\<close>

definition new_ls_body :: "ls_env \<Rightarrow> int \<Rightarrow> nat \<Rightarrow> dlm_ls" where
  "new_ls_body env lvblen tick = (le_memory env)\<lparr>
     ls_global_id := 0, ls_generation := 0, ls_lvblen := nat lvblen, ls_flags := 0,
     ls_lkbidr := (\<lambda>_. None), ls_rsbs := (\<lambda>_. None),
     ls_rsbtbl := (\<lambda>b. \<lparr>keep = Leaf, toss = Leaf, rt_flags = le_uninit env (unat b)\<rparr>),
     ls_rsbtbl_size := to32 (le_rsbtbl_size env), ls_waiters := [], ls_orphans := [],
     ls_new_rsb_count := 0, ls_new_rsb := [], ls_root_list := [], ls_recover_list := [],
     ls_recover_seq := le_random env tick, ls_local_rsb := zero_rsb, ls_local_lkb := zero_lkb,
     ls_local_ms := zero_message 0, ls_requestqueue := [], ls_nodes_gone := [],
     ls_recover_locks_in := 0\<rparr>"

definition new_ls :: "ls_env \<Rightarrow> u8 list \<Rightarrow> u32 \<Rightarrow> int \<Rightarrow> nat \<Rightarrow> lockspace" where
  "new_ls env name flags lvblen tick =
     \<lparr>ls_name = name, ls_exflags = flags AND NOT (le_fs env OR le_newexcl env), ls_count = 0,
      ls_create_count = 1, ls_scan_time = jiffies (le_dlm env), ls_minor = 0, ls_uevent_result = 0,
      ls_recovery_result = -1, ls_body = new_ls_body env lvblen tick\<rparr>"

text \<open>The labels of \<open>new_lockspace\<close>, from the last to the first.\<close>

definition out_put :: "int \<Rightarrow> dlm_module \<Rightarrow> int \<times> lsp option \<times> dlm_module" where
  "out_put error m = (error, None, m\<lparr>mod_refs := mod_refs m - 1\<rparr>)"

definition out_lsfree :: "lsp \<Rightarrow> int \<Rightarrow> dlm_module \<Rightarrow> int \<times> lsp option \<times> dlm_module" where
  "out_lsfree h error m =
     out_put error (free_chunk h Ls (m\<lparr>mod_ls := (mod_ls m)(h := None)\<rparr>))"

definition out_rsbtbl :: "lsp \<Rightarrow> int \<Rightarrow> dlm_module \<Rightarrow> int \<times> lsp option \<times> dlm_module" where
  "out_rsbtbl h error m = out_lsfree h error (free_chunk h Rsbtbl (fold (free_chunk h) remove_names m))"

definition out_delist :: "lsp \<Rightarrow> int \<Rightarrow> dlm_module \<Rightarrow> int \<times> lsp option \<times> dlm_module" where
  "out_delist h error m =
     out_rsbtbl h error (free_chunk h Recover_buf (m\<lparr>mod_lslist := remove1 h (mod_lslist m)\<rparr>))"

definition out_callback :: "ls_env \<Rightarrow> lsp \<Rightarrow> int \<Rightarrow> dlm_module \<Rightarrow> int \<times> lsp option \<times> dlm_module" where
  "out_callback env h error m = out_delist h error (ext_do env (Callback_stop h) m)"

definition out_recoverd :: "ls_env \<Rightarrow> lsp \<Rightarrow> int \<Rightarrow> dlm_module \<Rightarrow> int \<times> lsp option \<times> dlm_module" where
  "out_recoverd env h error m = out_callback env h error (ext_do env (Recoverd_stop h) m)"

definition out_members :: "ls_env \<Rightarrow> lsp \<Rightarrow> int \<Rightarrow> dlm_module \<Rightarrow> int \<times> lsp option \<times> dlm_module" where
  "out_members env h error m =
     out_recoverd env h error (ext_do env (Clear_members h) (snd (do_uevent env h False m)))"

text \<open>From the callback thread to the end of the recovery that joins the lockspace.\<close>

definition start_lockspace ::
  "ls_env \<Rightarrow> u32 \<Rightarrow> lsp \<Rightarrow> dlm_module \<Rightarrow> int \<times> lsp option \<times> dlm_module" where
  "start_lockspace env flags h m = (
     case (if has_flag flags (le_fs env) then ext_call env (Callback_start h) m else (0, m)) of (error, m) \<Rightarrow>
     if error \<noteq> 0 then out_delist h error m
     else case ext_call env (Recoverd_start h) m of (error, m) \<Rightarrow>
     if error \<noteq> 0 then out_callback env h error m
     else case ext_call env (Kobject_add h) m of (error, m) \<Rightarrow>
     if error \<noteq> 0 then out_recoverd env h error m
     else case do_uevent env h True m of (error, m) \<Rightarrow>
     if error \<noteq> 0 then out_recoverd env h error m
     else case ext_call env (Recovery_wait h) m of (error, m) \<Rightarrow>
     if error \<noteq> 0 then out_members env h error m
     else (0, Some h, ext_do env (Create_debug h)
            (m\<lparr>mod_ls := (mod_ls m)(h := map_option (\<lambda>ls. ls\<lparr>ls_recovery_result := 0,
                 ls_body := le_joined env (mod_tick m) (ls_body ls)\<rparr>) (mod_ls m h))\<rparr>)))"

text \<open>Allocating and filling in the structure.\<close>

definition alloc_lockspace ::
  "ls_env \<Rightarrow> u8 list \<Rightarrow> u32 \<Rightarrow> int \<Rightarrow> dlm_module \<Rightarrow> int \<times> lsp option \<times> dlm_module" where
  "alloc_lockspace env name flags lvblen m = (
     let t = mod_tick m; m = m\<lparr>mod_tick := t + 1\<rparr>
     in case le_alloc env (\<lambda>h. mod_ls m h \<noteq> None) t of
          None \<Rightarrow> out_put (-ENOMEM) m
        | Some h \<Rightarrow> (
            let m = m\<lparr>mod_ls := (mod_ls m)(h \<mapsto> new_ls env name flags lvblen t),
                      mod_heap := (h, Ls) # mod_heap m\<rparr>
            in case alloc_chunk env h Rsbtbl m of (ok, m) \<Rightarrow>
               if \<not> ok then out_lsfree h (-ENOMEM) m
               else case alloc_chunks env h remove_names m of (ok, m) \<Rightarrow>
               if \<not> ok then out_rsbtbl h (-ENOMEM) m
               else case alloc_chunk env h Recover_buf m of (ok, m) \<Rightarrow>
               if \<not> ok then out_rsbtbl h (-ENOMEM) m
               else start_lockspace env flags h (m\<lparr>mod_lslist := h # mod_lslist m\<rparr>)))"

text \<open>\<open>*ops_result\<close>, when the caller asks for it.\<close>

definition ops_answer :: "ls_env \<Rightarrow> int" where
  "ops_answer env = (if le_recover_callbacks env then 0 else -EOPNOTSUPP)"

text \<open>The error, where 1 means that the lockspace existed, \<open>*lockspace\<close>, and the state.\<close>

definition new_lockspace ::
  "ls_env \<Rightarrow> u8 list \<Rightarrow> u8 list option \<Rightarrow> u32 \<Rightarrow> int \<Rightarrow> dlm_module \<Rightarrow>
   (int \<times> lsp option \<times> dlm_module) option" where
  "new_lockspace env name cluster flags lvblen m =
     (if length name > DLM_LOCKSPACE_LEN \<or> length name = 0 then Some (-EINVAL, None, m)
      else if lvblen mod 8 \<noteq> 0 then Some (-EINVAL, None, m)
      else if \<not> le_module_get env (mod_tick m) then Some (-EINVAL, None, m)
      else (
        let m = m\<lparr>mod_refs := mod_refs m + 1\<rparr>
        in if \<not> le_daemon env (mod_tick m) then Some (out_put (-EUNATCH) m)
           else if le_recover_callbacks env \<and> cluster \<noteq> None \<and>
             take DLM_LOCKSPACE_LEN (the cluster) \<noteq> take DLM_LOCKSPACE_LEN (le_cluster_name env)
           then Some (out_put (-EBADR) m)
           else do {
             found \<leftarrow> find_in_list (\<lambda>_ ls. ls_name ls = name) (mod_lslist m) m;
             (case found of
                Some h \<Rightarrow>
                  if has_flag flags (le_newexcl env) then Some (out_put (-EEXIST) m)
                  else do {
                    m \<leftarrow> upd_ls h (\<lambda>ls. ls\<lparr>ls_create_count := ls_create_count ls + 1\<rparr>) m;
                    let (error, _, m) = out_put 1 m;
                    Some (error, Some h, m)
                  }
              | None \<Rightarrow> Some (alloc_lockspace env name flags lvblen m))
           }))"

definition us_us_dlm_new_lockspace ::
  "ls_env \<Rightarrow> u8 list \<Rightarrow> u8 list option \<Rightarrow> u32 \<Rightarrow> int \<Rightarrow> dlm_module \<Rightarrow>
   (int \<times> lsp option \<times> dlm_module) option" where
  "us_us_dlm_new_lockspace env name cluster flags lvblen m = (
     case (if mod_ls_count m = 0 then threads_start env m else (0, m)) of (error, m) \<Rightarrow>
     if error \<noteq> 0 then Some (error, None, m)
     else do {
       (error, h, m) \<leftarrow> new_lockspace env name cluster flags lvblen m;
       let m = (if error = 0 then m\<lparr>mod_ls_count := mod_ls_count m + 1\<rparr> else m);
       let error = (if error > 0 then 0 else error);
       let m = (if mod_ls_count m = 0
                then ext_do env Midcomms_stop (ext_do env Midcomms_shutdown (ext_do env Scand_stop m))
                else m);
       Some (error, h, m)
     })"

definition dlm_new_lockspace ::
  "ls_env \<Rightarrow> u8 list \<Rightarrow> u8 list option \<Rightarrow> u32 \<Rightarrow> int \<Rightarrow> dlm_module \<Rightarrow>
   (int \<times> lsp option \<times> dlm_module) option" where
  "dlm_new_lockspace env name cluster flags =
     us_us_dlm_new_lockspace env name cluster (flags OR le_fs env)"

definition dlm_new_user_lockspace ::
  "ls_env \<Rightarrow> u8 list \<Rightarrow> u8 list option \<Rightarrow> u32 \<Rightarrow> int \<Rightarrow> dlm_module \<Rightarrow>
   (int \<times> lsp option \<times> dlm_module) option" where
  "dlm_new_user_lockspace env name cluster flags = us_us_dlm_new_lockspace env name cluster flags"

section \<open>Releasing a lockspace\<close>

definition lkb_idr_is_local :: "dlm_lkb \<Rightarrow> bool" where
  "lkb_idr_is_local l = (lkb_nodeid l = 0 \<and> lkb_grmode l \<noteq> DLM_LOCK_IV)"

text \<open>\<open>idr_for_each\<close> stops at the first lock the function answers 1 for.\<close>

definition lockspace_busy :: "dlm_ls \<Rightarrow> int \<Rightarrow> bool" where
  "lockspace_busy s force =
     (if force = 0 then \<exists>k. ls_lkbidr s k \<noteq> None
      else if force = 1 then \<exists>k. \<exists>l \<in> set_option (ls_lkbidr s k). lkb_idr_is_local l
      else False)"

text \<open>\<open>while ((n = rb_first(root))) { rb_erase(n, root); dlm_free_rsb(...); }\<close>\<close>

definition free_tree_step ::
  "dlm_env \<Rightarrow> rsbp tree \<times> dlm_ls \<Rightarrow> (rsbp tree \<times> dlm_ls, dlm_ls) pass option" where
  "free_tree_step env = (\<lambda>(t, s). case inorder t of
     [] \<Rightarrow> Some (Done s)
   | r # _ \<Rightarrow> Some (Retry (rb_erase env r t, dlm_free_rsb r s)))"

fun free_buckets :: "dlm_env \<Rightarrow> u32 list \<Rightarrow> dlm_ls \<Rightarrow> dlm_ls option" where
  "free_buckets env [] s = Some s"
| "free_buckets env (b # q) s = do {
     s \<leftarrow> retry (free_tree_step env) (keep (ls_rsbtbl s b), s);
     s \<leftarrow> retry (free_tree_step env) (toss (ls_rsbtbl s b), s);
     free_buckets env q (s\<lparr>ls_rsbtbl := (ls_rsbtbl s)(b := (ls_rsbtbl s b)\<lparr>keep := Leaf, toss := Leaf\<rparr>)\<rparr>)
   }"

text \<open>The locks, the resources on the trees and those allocated ahead, and the saved messages.\<close>

definition free_body :: "dlm_env \<Rightarrow> dlm_ls \<Rightarrow> dlm_ls option" where
  "free_body env s = do {
     let s = s\<lparr>ls_lkbidr := (\<lambda>_. None)\<rparr>;
     s \<leftarrow> free_buckets env (map word_of_nat [0..<unat (ls_rsbtbl_size s)]) s;
     let s = (fold dlm_free_rsb (ls_new_rsb s) s)\<lparr>ls_new_rsb := []\<rparr>;
     Some (s\<lparr>ls_requestqueue := []\<rparr>)
   }"

text \<open>What becomes of \<open>ls_create_count\<close>, and the result when nothing is destroyed.\<close>

definition release_count :: "lockspace \<Rightarrow> int \<Rightarrow> int \<times> lockspace" where
  "release_count ls force =
     (if ls_create_count ls = 1 then
        (if lockspace_busy (ls_body ls) force then (-EBUSY, ls) else (0, ls\<lparr>ls_create_count := 0\<rparr>))
      else if ls_create_count ls > 1
      then (ls_create_count ls - 1, ls\<lparr>ls_create_count := ls_create_count ls - 1\<rparr>)
      else (-EINVAL, ls))"

definition release_lockspace :: "ls_env \<Rightarrow> lsp \<Rightarrow> int \<Rightarrow> dlm_module \<Rightarrow> (int \<times> dlm_module) option" where
  "release_lockspace env h force m = do {
     ls \<leftarrow> mod_ls m h;
     let (rv, ls) = release_count ls force;
     let m = m\<lparr>mod_ls := (mod_ls m)(h \<mapsto> ls)\<rparr>;
     if rv \<noteq> 0 then Some (rv, m)
     else do {
       let m = (if mod_ls_count m = 1 then ext_do env Version_wait m else m);
       let m = ext_do env (Device_deregister h) m;
       let m = (if force < 3 \<and> le_daemon env (mod_tick m) then snd (do_uevent env h False m) else m);
       let m = ext_do env (Recoverd_stop h) m;
       let m = (if mod_ls_count m = 1
                then ext_do env Midcomms_shutdown (ext_do env (Clear_members h) (ext_do env Scand_stop m))
                else m);
       let m = ext_do env (Callback_stop h) m;
       m \<leftarrow> remove_lockspace h m;
       let m = ext_do env (Delete_debug h) m;
       let m = free_chunk h Recover_buf m;
       _ \<leftarrow> free_body (le_dlm env) (ls_body ls);
       let m = fold (free_chunk h) remove_names (free_chunk h Rsbtbl m);
       let m = ext_do env (Clear_members_gone h) (ext_do env (Clear_members h) m);
       let m = free_chunk h Ls (m\<lparr>mod_ls := (mod_ls m)(h := None)\<rparr>);
       Some (0, m\<lparr>mod_refs := mod_refs m - 1\<rparr>)
     }
   }"

definition dlm_release_lockspace :: "ls_env \<Rightarrow> lsp \<Rightarrow> int \<Rightarrow> dlm_module \<Rightarrow> (int \<times> dlm_module) option" where
  "dlm_release_lockspace env handle force m = do {
     (found, m) \<leftarrow> dlm_find_lockspace_local handle m;
     (case found of
        None \<Rightarrow> Some (-EINVAL, m)
      | Some h \<Rightarrow> do {
          m \<leftarrow> dlm_put_lockspace h m;
          (error, m) \<leftarrow> release_lockspace env h force m;
          let m = (if error = 0 then m\<lparr>mod_ls_count := mod_ls_count m - 1\<rparr> else m);
          let m = (if mod_ls_count m = 0 then ext_do env Midcomms_stop m else m);
          Some (error, m)
        })
   }"

section \<open>Losing the control daemon\<close>

definition stop_lockspaces_step :: "ls_env \<Rightarrow> dlm_module \<Rightarrow> (dlm_module, dlm_module) pass option" where
  "stop_lockspaces_step env m = do {
     found \<leftarrow> find_in_list (\<lambda>_ ls. bit (ls_flags (ls_body ls)) LSFL_RUNNING) (mod_lslist m) m;
     (case found of
        None \<Rightarrow> Some (Done m)
      | Some h \<Rightarrow> do {
          m \<leftarrow> upd_ls h (\<lambda>ls. ls\<lparr>ls_body := le_stop env (ls_body ls)\<rparr>) m;
          Some (Retry m)
        })
   }"

definition dlm_stop_lockspaces :: "ls_env \<Rightarrow> dlm_module \<Rightarrow> dlm_module option" where
  "dlm_stop_lockspaces env m = retry (stop_lockspaces_step env) m"

section \<open>The sysfs files\<close>

text \<open>Each returns the number of bytes taken, or an error.\<close>

definition dlm_control_store :: "ls_env \<Rightarrow> lsp \<Rightarrow> u8 list \<Rightarrow> dlm_module \<Rightarrow> (int \<times> dlm_module) option" where
  "dlm_control_store env h buf m = (case kstrtoint env buf of
     Inl rc \<Rightarrow> Some (rc, m)
   | Inr n \<Rightarrow> do {
       (found, m) \<leftarrow> dlm_find_lockspace_local h m;
       (case found of
          None \<Rightarrow> Some (-EINVAL, m)
        | Some h \<Rightarrow> do {
            m \<leftarrow> (if n = 0 then upd_ls h (\<lambda>ls. ls\<lparr>ls_body := le_stop env (ls_body ls)\<rparr>) m
                 else if n = 1 then upd_ls h (\<lambda>ls. ls\<lparr>ls_body := le_start env (ls_body ls)\<rparr>) m
                 else Some m);
            m \<leftarrow> dlm_put_lockspace h m;
            Some (if n = 0 \<or> n = 1 then int (length buf) else -EINVAL, m)
          })
     })"

definition dlm_event_store :: "ls_env \<Rightarrow> u8 list \<Rightarrow> lockspace \<Rightarrow> int \<times> lockspace" where
  "dlm_event_store env buf ls = (case kstrtoint env buf of
     Inl rc \<Rightarrow> (rc, ls)
   | Inr n \<Rightarrow> (int (length buf), ls\<lparr>ls_uevent_result := n,
       ls_body := (ls_body ls)\<lparr>ls_flags := set_bit LSFL_UEVENT_WAIT (ls_flags (ls_body ls))\<rparr>\<rparr>))"

definition dlm_id_store :: "ls_env \<Rightarrow> u8 list \<Rightarrow> lockspace \<Rightarrow> int \<times> lockspace" where
  "dlm_id_store env buf ls = (case kstrtouint env buf of
     Inl rc \<Rightarrow> (rc, ls)
   | Inr n \<Rightarrow> (int (length buf), ls\<lparr>ls_body := (ls_body ls)\<lparr>ls_global_id := n\<rparr>\<rparr>))"

definition dlm_nodir_store :: "ls_env \<Rightarrow> u8 list \<Rightarrow> lockspace \<Rightarrow> int \<times> lockspace" where
  "dlm_nodir_store env buf ls = (case kstrtoint env buf of
     Inl rc \<Rightarrow> (rc, ls)
   | Inr n \<Rightarrow> (int (length buf), if n = 1
       then ls\<lparr>ls_body := (ls_body ls)\<lparr>ls_flags := set_bit LSFL_NODIR (ls_flags (ls_body ls))\<rparr>\<rparr> else ls))"

end
