(* ===== verification/Lockspace_Properties.thy ===== *)
theory Lockspace_Properties
  imports Lockspace Sample
begin

text \<open>
  The properties of lockspace creation and release: the list of lockspaces, the static counter,
  the module's use count and its memory agree, whatever fails on the way; names are unique; and
  stopping all lockspaces ends.
\<close>

section \<open>The module's invariant\<close>

definition chunks :: "chunk set" where
  "chunks = insert Ls (insert Rsbtbl (insert Recover_buf (set remove_names)))"

definition unique_names :: "(lsp \<Rightarrow> lockspace option) \<Rightarrow> bool" where
  "unique_names f \<longleftrightarrow> (\<forall>h1 h2 ls1 ls2. f h1 = Some ls1 \<and> f h2 = Some ls2 \<and> ls_name ls1 = ls_name ls2 \<longrightarrow> h1 = h2)"

lemma unique_names_upd:
  assumes "unique_names f" and "\<And>k ls'. k \<noteq> h \<Longrightarrow> f k = Some ls' \<Longrightarrow> ls_name ls' \<noteq> ls_name ls"
  shows "unique_names (f(h \<mapsto> ls))"
  using assms unfolding unique_names_def by (simp split: if_splits) metis

lemma unique_names_del: "unique_names f \<Longrightarrow> unique_names (f(h := None))"
  unfolding unique_names_def by (simp split: if_splits)

definition mod_ok :: "dlm_module \<Rightarrow> bool" where
  "mod_ok m \<longleftrightarrow> distinct (mod_lslist m) \<and> mod_refs m = int (length (mod_lslist m)) \<and>
     (\<forall>h. mod_ls m h \<noteq> None \<longleftrightarrow> h \<in> set (mod_lslist m)) \<and>
     (\<forall>h ls. mod_ls m h = Some ls \<longrightarrow> 1 \<le> ls_create_count ls) \<and>
     unique_names (mod_ls m) \<and> set (mod_heap m) = set (mod_lslist m) \<times> chunks"

definition counted :: "dlm_module \<Rightarrow> bool" where
  "counted m \<longleftrightarrow> mod_ok m \<and> mod_ls_count m = int (length (mod_lslist m))"

text \<open>What the model and the code rely on: a fresh address, and errors that are not positive.\<close>

definition ls_env_ok :: "ls_env \<Rightarrow> bool" where
  "ls_env_ok env \<longleftrightarrow> (\<forall>used t h. le_alloc env used t = Some h \<longrightarrow> \<not> used h) \<and>
     (\<forall>c t. le_error env c t \<le> 0)"

definition reported :: "ls_env \<Rightarrow> int \<Rightarrow> bool" where
  "reported env e \<longleftrightarrow> (\<exists>c t. e = le_error env c t)"

lemma ls_env_okD:
  assumes "ls_env_ok env"
  shows "le_alloc env used t = Some h \<Longrightarrow> \<not> used h" and "reported env e \<Longrightarrow> e \<le> 0"
  using assms by (auto simp: ls_env_ok_def reported_def)

text \<open>The parts of the state the invariant is about.\<close>

definition parts :: "dlm_module \<Rightarrow>
  int \<times> lsp list \<times> (lsp \<Rightarrow> lockspace option) \<times> (lsp \<times> chunk) list \<times> int" where
  "parts m = (mod_ls_count m, mod_lslist m, mod_ls m, mod_heap m, mod_refs m)"

lemma partsD:
  assumes "parts m' = parts m"
  shows "mod_ls_count m' = mod_ls_count m" "mod_lslist m' = mod_lslist m" "mod_ls m' = mod_ls m"
    "mod_heap m' = mod_heap m" "mod_refs m' = mod_refs m"
  using assms by (simp_all add: parts_def)

lemma mod_ok_none: "mod_ok m \<Longrightarrow> mod_ls m h = None \<longleftrightarrow> h \<notin> set (mod_lslist m)"
  unfolding mod_ok_def by blast

lemma parts_ok: "parts m' = parts m \<Longrightarrow> mod_ok m' = mod_ok m"
  by (simp add: parts_def mod_ok_def)

lemma ext_parts [simp]: "parts (ext_do env c m) = parts m" "parts (m\<lparr>mod_tick := t\<rparr>) = parts m"
  "parts (snd (ext_call env c m)) = parts m" "parts (snd (do_uevent env h b m)) = parts m"
  by (simp_all add: parts_def ext_do_def ext_call_def do_uevent_def)

lemma ext_do_fields [simp]:
  "mod_ls_count (ext_do env c m) = mod_ls_count m" "mod_lslist (ext_do env c m) = mod_lslist m"
  "mod_ls (ext_do env c m) = mod_ls m" "mod_heap (ext_do env c m) = mod_heap m"
  "mod_refs (ext_do env c m) = mod_refs m"
  by (simp_all add: ext_do_def ext_call_def)

lemma ext_callE:
  assumes "ext_call env c m = (e, m')"
  shows "parts m' = parts m" and "reported env e"
  using assms by (auto simp: ext_call_def parts_def reported_def)

section \<open>Creation\<close>

text \<open>\<open>undone h m m'\<close>: the lockspace \<open>h\<close> and all it had allocated are gone again.\<close>

definition undone :: "lsp \<Rightarrow> dlm_module \<Rightarrow> dlm_module \<Rightarrow> bool" where
  "undone h m m' \<longleftrightarrow> mod_ls_count m' = mod_ls_count m \<and> mod_lslist m' = remove1 h (mod_lslist m) \<and>
     mod_ls m' = (mod_ls m)(h := None) \<and> mod_refs m' = mod_refs m - 1 \<and>
     set (mod_heap m') = set (mod_heap m) - {h} \<times> chunks"

lemma free_chunks_fold:
  "mod_heap (fold (free_chunk h) cs m) = filter (\<lambda>p. p \<notin> {h} \<times> set cs) (mod_heap m) \<and>
   mod_ls_count (fold (free_chunk h) cs m) = mod_ls_count m \<and>
   mod_lslist (fold (free_chunk h) cs m) = mod_lslist m \<and>
   mod_ls (fold (free_chunk h) cs m) = mod_ls m \<and> mod_refs (fold (free_chunk h) cs m) = mod_refs m"
proof (induction cs arbitrary: m)
  case Nil
  then show ?case by simp
next
  case (Cons c cs)
  show ?case using Cons [of "free_chunk h c m"]
    by (auto simp: free_chunk_def removeAll_filter_not_eq intro!: filter_cong)
qed

lemma out_rsbtbl_undone:
  assumes "(h, Recover_buf) \<notin> set (mod_heap m)" and "h \<notin> set (mod_lslist m)"
  shows "\<exists>m'. out_rsbtbl h e m = (e, None, m') \<and> undone h m m'"
  using assms free_chunks_fold [of h remove_names m]
  by (auto simp: out_rsbtbl_def out_lsfree_def out_put_def undone_def free_chunk_def chunks_def remove1_idem)

lemma out_delist_undone: "\<exists>m'. out_delist h e m = (e, None, m') \<and> undone h m m'"
proof -
  let ?m = "free_chunk h Recover_buf (m\<lparr>mod_lslist := remove1 h (mod_lslist m)\<rparr>)"
  show ?thesis using free_chunks_fold [of h remove_names ?m]
    by (auto simp: out_delist_def out_rsbtbl_def out_lsfree_def out_put_def undone_def free_chunk_def chunks_def)
qed

lemma undone_parts: "parts m1 = parts m \<Longrightarrow> undone h m1 m' \<Longrightarrow> undone h m m'"
  by (simp add: undone_def parts_def)

lemma out_recoverd_undone:
  "\<exists>m'. out_callback env h e m = (e, None, m') \<and> undone h m m'"
  "\<exists>m'. out_recoverd env h e m = (e, None, m') \<and> undone h m m'"
  "\<exists>m'. out_members env h e m = (e, None, m') \<and> undone h m m'"
proof -
  have *: "\<exists>m'. out_delist h e m1 = (e, None, m') \<and> undone h m m'" if "parts m1 = parts m" for m1
    using out_delist_undone [of h e m1] undone_parts [OF that] by blast
  show "\<exists>m'. out_callback env h e m = (e, None, m') \<and> undone h m m'"
    "\<exists>m'. out_recoverd env h e m = (e, None, m') \<and> undone h m m'"
    "\<exists>m'. out_members env h e m = (e, None, m') \<and> undone h m m'"
    by (simp_all add: out_callback_def out_recoverd_def out_members_def *)
qed

text \<open>What a lockspace is after it has joined.\<close>

definition started :: "lsp \<Rightarrow> dlm_module \<Rightarrow> dlm_module \<Rightarrow> bool" where
  "started h m m' \<longleftrightarrow> mod_ls_count m' = mod_ls_count m \<and> mod_lslist m' = mod_lslist m \<and>
     mod_heap m' = mod_heap m \<and> mod_refs m' = mod_refs m \<and>
     (\<exists>b. mod_ls m' = (mod_ls m)(h := map_option (\<lambda>ls. ls\<lparr>ls_recovery_result := 0, ls_body := b\<rparr>) (mod_ls m h)))"

lemma start_lockspace_result:
  assumes h: "mod_ls m h = Some ls"
  shows "\<exists>e ho m'. start_lockspace env flags h m = (e, ho, m') \<and>
    (e = 0 \<and> ho = Some h \<and> started h m m' \<or> e \<noteq> 0 \<and> ho = None \<and> undone h m m' \<and> reported env e)"
proof -
  have u: "\<exists>m'. out_delist h e m1 = (e, None, m') \<and> undone h m m'"
    "\<exists>m'. out_callback env h e m1 = (e, None, m') \<and> undone h m m'"
    "\<exists>m'. out_recoverd env h e m1 = (e, None, m') \<and> undone h m m'"
    "\<exists>m'. out_members env h e m1 = (e, None, m') \<and> undone h m m'" if "parts m1 = parts m" for m1 e
    using out_delist_undone [of h e m1] out_recoverd_undone [of env h e m1] undone_parts [OF that] by blast+
  obtain e1 m1 where 1: "(if has_flag flags (le_fs env) then ext_call env (Callback_start h) m else (0, m)) = (e1, m1)"
    by (meson surj_pair)
  then have p1: "parts m1 = parts m" and r1: "e1 = 0 \<or> reported env e1"
    by (auto split: if_splits dest: ext_callE)
  obtain e2 m2 where 2: "ext_call env (Recoverd_start h) m1 = (e2, m2)" by (meson surj_pair)
  have p2: "parts m2 = parts m" and r2: "reported env e2" using ext_callE [OF 2] p1 by auto
  obtain e3 m3 where 3: "ext_call env (Kobject_add h) m2 = (e3, m3)" by (meson surj_pair)
  have p3: "parts m3 = parts m" and r3: "reported env e3" using ext_callE [OF 3] p2 by auto
  obtain e4 m4 where 4: "ext_call env (Uevent h True) m3 = (e4, m4)" by (meson surj_pair)
  have p4: "parts m4 = parts m" and r4: "reported env e4" using ext_callE [OF 4] p3 by auto
  obtain e5 m5 where 5: "ext_call env (Recovery_wait h) m4 = (e5, m5)" by (meson surj_pair)
  have p5: "parts m5 = parts m" and r5: "reported env e5" using ext_callE [OF 5] p4 by auto
  let ?m = "m5\<lparr>mod_ls := (mod_ls m5)(h := map_option (\<lambda>ls. ls\<lparr>ls_recovery_result := 0,
                 ls_body := le_joined env (mod_tick m5) (ls_body ls)\<rparr>) (mod_ls m5 h))\<rparr>"
  have s: "started h m (ext_do env (Create_debug h) ?m)"
  proof -
    from h show ?thesis unfolding started_def by (auto simp: partsD [OF p5])
  qed
  note st = start_lockspace_def do_uevent_def 1 2 3 4 5
  consider "e1 \<noteq> 0" | "e1 = 0" "e2 \<noteq> 0" | "e1 = 0" "e2 = 0" "e3 \<noteq> 0" | "e1 = 0" "e2 = 0" "e3 = 0" "e4 \<noteq> 0"
    | "e1 = 0" "e2 = 0" "e3 = 0" "e4 = 0" "e5 \<noteq> 0" | "e1 = 0" "e2 = 0" "e3 = 0" "e4 = 0" "e5 = 0" by blast
  then show ?thesis
  proof cases
    case 1
    with u(1) [OF p1, of e1] r1 show ?thesis by (auto simp: st)
  next
    case 2
    with u(2) [OF p2, of e2] r2 show ?thesis by (auto simp: st)
  next
    case 3
    with u(3) [OF p3, of e3] r3 show ?thesis by (auto simp: st)
  next
    case 4
    with u(3) [OF p4, of e4] r4 show ?thesis by (auto simp: st)
  next
    case 5
    with u(4) [OF p5, of e5] r5 show ?thesis by (auto simp: st)
  next
    case 6
    with s show ?thesis by (auto simp: st)
  qed
qed

lemma alloc_chunkE:
  assumes "alloc_chunk env h c m = (ok, m')"
  shows "mod_ls_count m' = mod_ls_count m" "mod_lslist m' = mod_lslist m" "mod_ls m' = mod_ls m"
    "mod_refs m' = mod_refs m" "set (mod_heap m') = set (mod_heap m) \<union> (if ok then {(h, c)} else {})"
  using assms by (auto simp: alloc_chunk_def Let_def split: if_splits)

lemma alloc_chunksE:
  assumes "alloc_chunks env h cs m = (ok, m')"
  shows "mod_ls_count m' = mod_ls_count m \<and> mod_lslist m' = mod_lslist m \<and> mod_ls m' = mod_ls m \<and>
    mod_refs m' = mod_refs m \<and> set (mod_heap m') \<subseteq> set (mod_heap m) \<union> {h} \<times> set cs \<and>
    set (mod_heap m) \<subseteq> set (mod_heap m') \<and>
    (ok \<longrightarrow> set (mod_heap m') = set (mod_heap m) \<union> {h} \<times> set cs)"
  using assms
proof (induction cs arbitrary: m)
  case Nil
  then show ?case by simp
next
  case (Cons c cs)
  obtain ok1 m1 where 1: "alloc_chunk env h c m = (ok1, m1)" by (meson surj_pair)
  note a = alloc_chunkE [OF 1]
  show ?case
  proof (cases ok1)
    case True
    with Cons.prems 1 have "alloc_chunks env h cs m1 = (ok, m')" by simp
    from Cons.IH [OF this] a True show ?thesis by auto
  next
    case False
    with Cons.prems 1 a show ?thesis by auto
  qed
qed

text \<open>What creation leaves behind: nothing new, or the lockspace \<open>h\<close>, first on the list.\<close>

definition unchanged :: "dlm_module \<Rightarrow> dlm_module \<Rightarrow> bool" where
  "unchanged m m' \<longleftrightarrow> mod_ls_count m' = mod_ls_count m \<and> mod_lslist m' = mod_lslist m \<and> mod_ls m' = mod_ls m \<and> mod_refs m' = mod_refs m \<and> set (mod_heap m') = set (mod_heap m)"

definition created :: "u8 list \<Rightarrow> lsp \<Rightarrow> dlm_module \<Rightarrow> dlm_module \<Rightarrow> bool" where
  "created name h m m' \<longleftrightarrow> mod_ls m h = None \<and> mod_lslist m' = h # mod_lslist m \<and> mod_refs m' = mod_refs m + 1 \<and>
     set (mod_heap m') = set (mod_heap m) \<union> {h} \<times> chunks \<and>
     (\<exists>ls. mod_ls m' = (mod_ls m)(h \<mapsto> ls) \<and> ls_name ls = name \<and> ls_create_count ls = 1 \<and> ls_count ls = 0)"

lemma undone_unchanged:
  assumes u: "undone h m1 m'" and new: "mod_ls m h = None" and ok: "mod_ok m"
    and m1: "mod_ls_count m1 = mod_ls_count m" "remove1 h (mod_lslist m1) = mod_lslist m"
      "(mod_ls m1)(h := None) = mod_ls m" "mod_refs m1 = mod_refs m + 1"
      "set (mod_heap m) \<subseteq> set (mod_heap m1)" "set (mod_heap m1) \<subseteq> set (mod_heap m) \<union> {h} \<times> chunks"
  shows "unchanged m m'"
proof -
  have "({h} \<times> chunks) \<inter> set (mod_heap m) = {}" using ok new mod_ok_none [OF ok] by (auto simp: mod_ok_def)
  with m1(5,6) have "set (mod_heap m1) - {h} \<times> chunks = set (mod_heap m)" by blast
  with u m1 show ?thesis by (simp add: undone_def unchanged_def)
qed

lemma alloc_lockspace_result:
  assumes ok: "mod_ok m" and env: "ls_env_ok env"
  shows "\<exists>e ho m'. alloc_lockspace env name flags lvblen (m\<lparr>mod_refs := mod_refs m + 1\<rparr>) = (e, ho, m') \<and>
    (e < 0 \<and> ho = None \<and> unchanged m m' \<or> (\<exists>h. e = 0 \<and> ho = Some h \<and> created name h m m' \<and> mod_ls_count m' = mod_ls_count m))"
proof -
  let ?m = "m\<lparr>mod_refs := mod_refs m + 1, mod_tick := mod_tick m + 1\<rparr>"
  show ?thesis
  proof (cases "le_alloc env (\<lambda>h. mod_ls m h \<noteq> None) (mod_tick m)")
    case None
    then show ?thesis by (auto simp: alloc_lockspace_def out_put_def unchanged_def Let_def)
  next
    case (Some h)
    have new: "mod_ls m h = None" using ls_env_okD(1) [OF env Some] by simp
    then have nl: "h \<notin> set (mod_lslist m)" and nh: "(h, c) \<notin> set (mod_heap m)" for c
      using ok mod_ok_none [OF ok] by (auto simp: mod_ok_def)
    let ?ls = "new_ls env name flags lvblen (mod_tick m)"
    let ?m1 = "?m\<lparr>mod_ls := (mod_ls m)(h \<mapsto> ?ls), mod_heap := (h, Ls) # mod_heap m\<rparr>"
    obtain ok2 m2 where 2: "alloc_chunk env h Rsbtbl ?m1 = (ok2, m2)" by (meson surj_pair)
    obtain ok3 m3 where 3: "alloc_chunks env h remove_names m2 = (ok3, m3)" by (meson surj_pair)
    obtain ok4 m4 where 4: "alloc_chunk env h Recover_buf m3 = (ok4, m4)" by (meson surj_pair)
    note a2 = alloc_chunkE [OF 2] and a3 = alloc_chunksE [OF 3] and a4 = alloc_chunkE [OF 4]
    have run: "alloc_lockspace env name flags lvblen (m\<lparr>mod_refs := mod_refs m + 1\<rparr>) =
        (if \<not> ok2 then out_lsfree h (-ENOMEM) m2 else if \<not> ok3 then out_rsbtbl h (-ENOMEM) m3
         else if \<not> ok4 then out_rsbtbl h (-ENOMEM) m4
         else start_lockspace env flags h (m4\<lparr>mod_lslist := h # mod_lslist m4\<rparr>))"
      using 2 by (simp add: alloc_lockspace_def Let_def Some 3 4 del: not_None_eq)
    have c: "Ls \<in> chunks" "Rsbtbl \<in> chunks" "Recover_buf \<in> chunks" "set remove_names \<subseteq> chunks"
      by (auto simp: chunks_def)
    have rb: "(h, Recover_buf) \<notin> set (mod_heap m3)" using a2 a3 nh by (auto simp: remove_names_def split: if_splits)
    consider "\<not> ok2" | "ok2" "\<not> ok3" | "ok2" "ok3" "\<not> ok4" | "ok2" "ok3" "ok4" by blast
    then show ?thesis
    proof cases
      case 1
      have "set (mod_heap m2) - {(h, Ls)} = set (mod_heap m)" using a2 1 nh by auto
      with 1 a2 new show ?thesis
        by (auto simp: run out_lsfree_def out_put_def unchanged_def free_chunk_def)
    next
      case 2
      have "h \<notin> set (mod_lslist m3)" using a2 a3 nl by simp
      from out_rsbtbl_undone [OF rb this] obtain m' where
        m': "out_rsbtbl h (-ENOMEM) m3 = (-ENOMEM, None, m')" "undone h m3 m'" by blast
      have "unchanged m m'"
        by (rule undone_unchanged [OF m'(2) new ok]) (use a2 a3 c nl new 2 in \<open>auto simp: remove1_idem\<close>)
      with 2 m' show ?thesis by (auto simp: run)
    next
      case p: 3
      have n4: "h \<notin> set (mod_lslist m4)" "(h, Recover_buf) \<notin> set (mod_heap m4)" using a2 a3 a4 nl rb p by auto
      from out_rsbtbl_undone [OF n4(2,1)] obtain m' where
        m': "out_rsbtbl h (-ENOMEM) m4 = (-ENOMEM, None, m')" "undone h m4 m'" by blast
      have "unchanged m m'"
        by (rule undone_unchanged [OF m'(2) new ok]) (use a2 a3 a4 c nl new p in \<open>auto simp: remove1_idem\<close>)
      with p m' show ?thesis by (auto simp: run)
    next
      case p: 4
      let ?m5 = "m4\<lparr>mod_lslist := h # mod_lslist m4\<rparr>"
      have "mod_ls ?m5 h = Some ?ls" using a2 a3 a4 by simp
      from start_lockspace_result [OF this, of env flags] obtain e ho m' where
        st: "start_lockspace env flags h ?m5 = (e, ho, m')" and
        res: "e = 0 \<and> ho = Some h \<and> started h ?m5 m' \<or> e \<noteq> 0 \<and> ho = None \<and> undone h ?m5 m' \<and> reported env e" by blast
      have run: "alloc_lockspace env name flags lvblen (m\<lparr>mod_refs := mod_refs m + 1\<rparr>) = (e, ho, m')"
        using p st by (simp add: run)
      have heap: "set (mod_heap m4) = set (mod_heap m) \<union> {h} \<times> chunks"
        using a2 a3 a4 p by (auto simp: chunks_def)
      from res show ?thesis
      proof
        assume "e = 0 \<and> ho = Some h \<and> started h ?m5 m'"
        then have "created name h m m' \<and> mod_ls_count m' = mod_ls_count m" using a2 a3 a4 heap new
          by (auto simp: created_def started_def new_ls_def)
        with run \<open>e = 0 \<and> ho = Some h \<and> _\<close> show ?thesis by blast
      next
        assume u: "e \<noteq> 0 \<and> ho = None \<and> undone h ?m5 m' \<and> reported env e"
        then have "e < 0" using ls_env_okD(2) [OF env, of e] by simp
        moreover have "unchanged m m'"
          by (rule undone_unchanged [OF _ new ok, of ?m5]) (use u a2 a3 a4 heap nl new in \<open>auto simp: remove1_idem\<close>)
        ultimately show ?thesis using run u by blast
      qed
    qed
  qed
qed

lemma find_in_list_find:
  assumes "\<forall>h\<in>set q. mod_ls m h \<noteq> None"
  shows "find_in_list P q m = Some (find (\<lambda>h. P h (the (mod_ls m h))) q)"
  using assms by (induction q) auto

text \<open>What a further creation does to the lockspace \<open>h\<close>, which has the name.\<close>

definition reopened :: "u8 list \<Rightarrow> lsp \<Rightarrow> dlm_module \<Rightarrow> dlm_module \<Rightarrow> bool" where
  "reopened name h m m' \<longleftrightarrow> (\<exists>ls. mod_ls m h = Some ls \<and> ls_name ls = name \<and>
     mod_ls m' = (mod_ls m)(h \<mapsto> ls\<lparr>ls_create_count := ls_create_count ls + 1\<rparr>)) \<and>
     mod_ls_count m' = mod_ls_count m \<and> mod_lslist m' = mod_lslist m \<and> mod_refs m' = mod_refs m \<and>
     mod_heap m' = mod_heap m"

lemma find_SomeD: "find P xs = Some x \<Longrightarrow> x \<in> set xs \<and> P x"
  by (induction xs) (auto split: if_splits)

lemma find_NoneD: "find P xs = None \<Longrightarrow> x \<in> set xs \<Longrightarrow> \<not> P x"
  by (auto simp: find_None_iff)

lemma new_lockspace_result:
  assumes ok: "mod_ok m" and env: "ls_env_ok env"
  shows "\<exists>e ho m'. new_lockspace env name cluster flags lvblen m = Some (e, ho, m') \<and>
    (e < 0 \<and> ho = None \<and> unchanged m m' \<or>
     (\<exists>h. e = 0 \<and> ho = Some h \<and> created name h m m' \<and> mod_ls_count m' = mod_ls_count m \<and>
        (\<forall>h ls. mod_ls m h = Some ls \<longrightarrow> ls_name ls \<noteq> name)) \<or>
     (\<exists>h. e = 1 \<and> ho = Some h \<and> reopened name h m m'))"
proof -
  let ?m = "m\<lparr>mod_refs := mod_refs m + 1\<rparr>"
  let ?f = "find (\<lambda>h. ls_name (the (mod_ls m h)) = name) (mod_lslist m)"
  have live: "\<forall>h\<in>set (mod_lslist m). mod_ls m h \<noteq> None" using ok by (simp add: mod_ok_def)
  have f: "find_in_list (\<lambda>_ ls. ls_name ls = name) (mod_lslist m) ?m = Some ?f"
    using find_in_list_find [of "mod_lslist m" ?m "\<lambda>_ ls. ls_name ls = name"] live by simp
  have un: "\<exists>m'. out_put e ?m = (e, None, m') \<and> unchanged m m'" for e
    by (simp add: out_put_def unchanged_def)
  show ?thesis
  proof (cases "length name > DLM_LOCKSPACE_LEN \<or> length name = 0 \<or> lvblen mod 8 \<noteq> 0 \<or>
      \<not> le_module_get env (mod_tick m)")
    case True
    then show ?thesis by (auto simp: new_lockspace_def unchanged_def)
  next
    case a: False
    show ?thesis
    proof (cases "\<not> le_daemon env (mod_tick m) \<or> le_recover_callbacks env \<and> cluster \<noteq> None \<and>
        take DLM_LOCKSPACE_LEN (the cluster) \<noteq> take DLM_LOCKSPACE_LEN (le_cluster_name env)")
      case True
      with a un [of "-EUNATCH"] un [of "-EBADR"] show ?thesis
        by (auto simp: new_lockspace_def Let_def)
    next
      case b: False
      show ?thesis
      proof (cases ?f)
        case None
        have "\<forall>h ls. mod_ls m h = Some ls \<longrightarrow> ls_name ls \<noteq> name"
        proof (intro allI impI)
          fix h ls assume "mod_ls m h = Some ls"
          moreover from this have "h \<in> set (mod_lslist m)" using mod_ok_none [OF ok, of h] by simp
          ultimately show "ls_name ls \<noteq> name" using find_NoneD [OF None, of h] by simp
        qed
        with a b None f alloc_lockspace_result [OF ok env, of name flags lvblen] show ?thesis
          by (auto simp: new_lockspace_def Let_def)
      next
        case (Some h)
        with find_SomeD [OF Some] live obtain ls where ls: "mod_ls m h = Some ls" "ls_name ls = name" by auto
        show ?thesis
        proof (cases "has_flag flags (le_newexcl env)")
          case True
          with a b Some f un [of "-EEXIST"] show ?thesis by (auto simp: new_lockspace_def Let_def)
        next
          case False
          with a b Some f ls show ?thesis
            by (auto simp: new_lockspace_def Let_def upd_ls_def out_put_def reopened_def)
        qed
      qed
    qed
  qed
qed

lemma created_ok:
  assumes ok: "mod_ok m" and c: "created name h m m'"
    and new: "\<forall>h ls. mod_ls m h = Some ls \<longrightarrow> ls_name ls \<noteq> name"
  shows "mod_ok m'"
proof -
  from c obtain ls where ls: "mod_ls m' = (mod_ls m)(h \<mapsto> ls)" "ls_name ls = name" "ls_create_count ls = 1"
    by (auto simp: created_def)
  have h: "h \<notin> set (mod_lslist m)" using c mod_ok_none [OF ok] by (simp add: created_def)
  have "unique_names (mod_ls m')" unfolding ls(1)
    by (rule unique_names_upd) (use ok new ls(2) in \<open>auto simp: mod_ok_def\<close>)
  with c ok ls h show ?thesis unfolding mod_ok_def created_def by auto
qed

lemma update_ok:
  assumes ok: "mod_ok m" and h: "mod_ls m h = Some ls" and c: "1 \<le> ls_create_count ls'" "ls_name ls' = ls_name ls"
    and p: "mod_ls m' = (mod_ls m)(h \<mapsto> ls')" "mod_lslist m' = mod_lslist m" "mod_refs m' = mod_refs m"
      "mod_heap m' = mod_heap m"
  shows "mod_ok m'"
proof -
  have "unique_names (mod_ls m')" unfolding p(1)
    by (rule unique_names_upd) (use ok h c(2) in \<open>auto simp: mod_ok_def unique_names_def\<close>)
  moreover have "\<forall>k. mod_ls m' k \<noteq> None \<longleftrightarrow> k \<in> set (mod_lslist m')" using ok h p by (auto simp: mod_ok_def)
  ultimately show ?thesis using ok p c unfolding mod_ok_def by auto
qed

lemma reopened_ok:
  assumes ok: "mod_ok m" and r: "reopened name h m m'"
  shows "mod_ok m'"
proof -
  from r obtain ls where ls: "mod_ls m h = Some ls"
    "mod_ls m' = (mod_ls m)(h \<mapsto> ls\<lparr>ls_create_count := ls_create_count ls + 1\<rparr>)"
    by (auto simp: reopened_def)
  have "1 \<le> ls_create_count ls" using ok ls(1) by (auto simp: mod_ok_def)
  with r ls show ?thesis by (intro update_ok [OF ok ls(1) _ _ ls(2)]) (simp_all add: reopened_def)
qed

lemma unchanged_ok: "unchanged m m' \<Longrightarrow> mod_ok m' = mod_ok m"
  by (simp add: unchanged_def mod_ok_def)

lemma unchanged_counted: "unchanged m m' \<Longrightarrow> counted m \<Longrightarrow> counted m'"
  by (simp add: unchanged_def counted_def mod_ok_def)

lemma threads_startE:
  assumes "threads_start env m = (e, m1)" and "ls_env_ok env"
  shows "parts m1 = parts m" and "e \<le> 0"
  using assms ls_env_okD(2) [OF assms(2)]
  by (auto simp: threads_start_def parts_def reported_def ext_call_def split: if_splits)

lemma create_keeps:
  assumes ok: "counted m" and env: "ls_env_ok env"
  shows "\<exists>e ho m'. us_us_dlm_new_lockspace env name cluster flags lvblen m = Some (e, ho, m') \<and>
    counted m' \<and>
    (e < 0 \<and> ho = None \<and> unchanged m m' \<or>
     (\<exists>h. e = 0 \<and> ho = Some h \<and> (created name h m m' \<or> reopened name h m m')))"
proof -
  obtain e0 m0 where 0: "(if mod_ls_count m = 0 then threads_start env m else (0, m)) = (e0, m0)"
    by (meson surj_pair)
  have p0: "parts m0 = parts m" and e0: "e0 \<le> 0" using 0 threads_startE [OF _ env] by (auto split: if_splits)
  note q0 = partsD [OF p0]
  show ?thesis
  proof (cases "e0 = 0")
    case False
    have "us_us_dlm_new_lockspace env name cluster flags lvblen m = Some (e0, None, m0)"
      using 0 False by (simp add: us_us_dlm_new_lockspace_def)
    moreover have "unchanged m m0" by (simp add: unchanged_def q0)
    moreover have "counted m0" using ok parts_ok [OF p0] by (simp add: counted_def q0)
    ultimately show ?thesis using e0 False by auto
  next
    case True
    have ok0: "mod_ok m0" using ok parts_ok [OF p0] by (simp add: counted_def)
    have cnt: "mod_ls_count m = int (length (mod_lslist m))" using ok by (simp add: counted_def)
    from new_lockspace_result [OF ok0 env, of name cluster flags lvblen] obtain e ho m1 where
      1: "new_lockspace env name cluster flags lvblen m0 = Some (e, ho, m1)" and
      res: "e < 0 \<and> ho = None \<and> unchanged m0 m1 \<or>
        (\<exists>h. e = 0 \<and> ho = Some h \<and> created name h m0 m1 \<and> mod_ls_count m1 = mod_ls_count m0 \<and>
          (\<forall>h ls. mod_ls m0 h = Some ls \<longrightarrow> ls_name ls \<noteq> name)) \<or>
        (\<exists>h. e = 1 \<and> ho = Some h \<and> reopened name h m0 m1)" by blast
    let ?e = "if e > 0 then 0 else e"
    let ?m1 = "if e = 0 then m1\<lparr>mod_ls_count := mod_ls_count m1 + 1\<rparr> else m1"
    let ?m2 = "if mod_ls_count ?m1 = 0
                then ext_do env Midcomms_stop (ext_do env Midcomms_shutdown (ext_do env Scand_stop ?m1))
                else ?m1"
    have run: "us_us_dlm_new_lockspace env name cluster flags lvblen m = Some (?e, ho, ?m2)"
      using 0 1 True by (simp add: us_us_dlm_new_lockspace_def Let_def)
    have p2: "parts ?m2 = parts ?m1" by (simp add: parts_def)
    note q2 = partsD [OF p2]
    from res consider (no) "e < 0" "ho = None" "unchanged m0 m1"
      | (new) h where "e = 0" "ho = Some h" "created name h m0 m1" "mod_ls_count m1 = mod_ls_count m0"
          "\<forall>h ls. mod_ls m0 h = Some ls \<longrightarrow> ls_name ls \<noteq> name"
      | (old) h where "e = 1" "ho = Some h" "reopened name h m0 m1" by blast
    then show ?thesis
    proof cases
      case no
      then have "unchanged m ?m2" using q0 q2 by (simp add: unchanged_def)
      moreover have "counted ?m2" using calculation ok by (rule unchanged_counted)
      ultimately show ?thesis using run no by auto
    next
      case (new h)
      then have c: "created name h m ?m2" using q0 q2 by (simp add: created_def)
      have "mod_ok ?m2" using created_ok [OF _ c] new(5) q0 ok by (simp add: counted_def)
      moreover have "mod_ls_count ?m2 = int (length (mod_lslist ?m2))"
        using new cnt q0 by (simp add: created_def)
      ultimately show ?thesis using run new c by (auto simp: counted_def)
    next
      case (old h)
      then have r: "reopened name h m ?m2" using q0 q2 by (simp add: reopened_def)
      have "mod_ok ?m2" using reopened_ok [OF _ r] ok by (simp add: counted_def)
      moreover have "mod_ls_count ?m2 = int (length (mod_lslist ?m2))"
        using r ok by (simp add: reopened_def counted_def)
      ultimately show ?thesis using run old r by (auto simp: counted_def)
    qed
  qed
qed

section \<open>Release\<close>

lemma free_tree_run:
  assumes env: "tree_env_ok env"
  shows "retry (free_tree_step env) (t, s) = Some (fold dlm_free_rsb (inorder t) s)"
proof (induction "inorder t" arbitrary: t s)
  case Nil
  then show ?case by (intro retry_Done) (simp add: free_tree_step_def)
next
  case (Cons r q)
  have step: "free_tree_step env (t, s) = Some (Retry (rb_erase env r t, dlm_free_rsb r s))"
    using Cons(2) by (simp add: free_tree_step_def flip: Cons(2))
  have "inorder (rb_erase env r t) = q" using env Cons(2) by (simp add: tree_env_ok_def flip: Cons(2))
  then show ?case using Cons(1) [of "rb_erase env r t"] by (simp add: retry_Retry [where f = "free_tree_step env", OF step] flip: Cons(2))
qed

lemma free_rsbs_fold:
  "ls_rsbs (fold dlm_free_rsb rs s) r = (if r \<in> set rs then None else ls_rsbs s r) \<and>
   ls_rsbtbl (fold dlm_free_rsb rs s) = ls_rsbtbl s \<and> ls_new_rsb (fold dlm_free_rsb rs s) = ls_new_rsb s \<and>
   ls_lkbidr (fold dlm_free_rsb rs s) = ls_lkbidr s"
  by (induction rs arbitrary: s) (auto simp: dlm_free_rsb_def)

lemma free_buckets_run:
  assumes env: "tree_env_ok env"
  shows "\<exists>s'. free_buckets env bs s = Some s' \<and>
    (\<forall>r. ls_rsbs s' r = (if \<exists>b\<in>set bs. r \<in> set_tree (keep (ls_rsbtbl s b)) \<union> set_tree (toss (ls_rsbtbl s b))
       then None else ls_rsbs s r)) \<and> ls_new_rsb s' = ls_new_rsb s \<and> ls_lkbidr s' = ls_lkbidr s"
proof (induction bs arbitrary: s)
  case Nil
  then show ?case by simp
next
  case (Cons b bs)
  let ?s1 = "fold dlm_free_rsb (inorder (keep (ls_rsbtbl s b))) s"
  let ?s2 = "fold dlm_free_rsb (inorder (toss (ls_rsbtbl s b))) ?s1"
  let ?s3 = "?s2\<lparr>ls_rsbtbl := (ls_rsbtbl s)(b := (ls_rsbtbl s b)\<lparr>keep := Leaf, toss := Leaf\<rparr>)\<rparr>"
  have "free_buckets env (b # bs) s = free_buckets env bs ?s3"
    by (simp add: free_tree_run [OF env] free_rsbs_fold)
  with Cons.IH [of ?s3] show ?case by (auto simp: free_rsbs_fold split: if_splits)
qed

text \<open>Everything the release of a lockspace destroys.\<close>

definition destroyed :: "lsp \<Rightarrow> dlm_module \<Rightarrow> dlm_module \<Rightarrow> bool" where
  "destroyed h m m' \<longleftrightarrow> mod_lslist m' = remove1 h (mod_lslist m) \<and> mod_ls m' = (mod_ls m)(h := None) \<and>
     mod_refs m' = mod_refs m - 1 \<and> set (mod_heap m') = set (mod_heap m) - {h} \<times> chunks"

lemma free_body_runs: "tree_env_ok env \<Longrightarrow> free_body env s \<noteq> None"
  using free_buckets_run [of env "map word_of_nat [0..<unat (ls_rsbtbl_size s)]" "s\<lparr>ls_lkbidr := \<lambda>_. None\<rparr>"]
  by (auto simp: free_body_def)

lemma release_destroys:
  assumes env: "tree_env_ok (le_dlm env)" and h: "mod_ls m h = Some ls" and idle: "ls_count ls = 0"
    and rv: "release_count ls force = (0, ls')"
  shows "\<exists>m'. release_lockspace env h force m = Some (0, m') \<and> destroyed h m m' \<and> mod_ls_count m' = mod_ls_count m"
proof -
  have c': "ls_count ls' = 0" "ls_body ls' = ls_body ls" using rv idle by (auto simp: release_count_def split: if_splits)
  obtain s where s: "free_body (le_dlm env) (ls_body ls) = Some s" using free_body_runs [OF env] by blast
  have du: "mod_ls_count (snd (do_uevent env h b m)) = mod_ls_count m"
    "mod_lslist (snd (do_uevent env h b m)) = mod_lslist m" "mod_ls (snd (do_uevent env h b m)) = mod_ls m"
    "mod_heap (snd (do_uevent env h b m)) = mod_heap m" "mod_refs (snd (do_uevent env h b m)) = mod_refs m" for b m
    by (simp_all add: do_uevent_def ext_call_def)
  show ?thesis unfolding release_lockspace_def
    by (simp add: h rv Let_def remove_lockspace_def c' s du free_chunk_def free_chunks_fold destroyed_def)
      (auto simp: chunks_def)
qed

lemma destroyed_ok:
  assumes ok: "mod_ok m" and h: "mod_ls m h = Some ls" and d: "destroyed h m m'"
  shows "mod_ok m' \<and> length (mod_lslist m) = Suc (length (mod_lslist m'))"
proof -
  have "h \<in> set (mod_lslist m)" "distinct (mod_lslist m)" using mod_ok_none [OF ok, of h] h ok by (auto simp: mod_ok_def)
  then have l: "length (mod_lslist m) = Suc (length (mod_lslist m'))"
    "set (mod_lslist m') = set (mod_lslist m) - {h}" "distinct (mod_lslist m')"
    using d by (auto simp: destroyed_def length_remove1 dest: in_set_remove1 length_pos_if_in_set)
  then have "mod_refs m' = int (length (mod_lslist m'))"
    "set (mod_heap m') = set (mod_lslist m') \<times> chunks"
    "\<forall>k. mod_ls m' k \<noteq> None \<longleftrightarrow> k \<in> set (mod_lslist m')"
    "\<forall>k ls. mod_ls m' k = Some ls \<longrightarrow> 1 \<le> ls_create_count ls"
    using d ok by (auto simp: destroyed_def mod_ok_def split: if_splits)
  with l d ok show ?thesis by (simp add: mod_ok_def destroyed_def unique_names_del)
qed

lemma find_hold_put:
  assumes ok: "mod_ok m" and h: "mod_ls m h = Some ls"
  shows "\<exists>m1. dlm_find_lockspace_local h m = Some (Some h, m1) \<and> dlm_put_lockspace h m1 = Some m"
proof -
  have live: "\<forall>h\<in>set (mod_lslist m). mod_ls m h \<noteq> None" and mem: "h \<in> set (mod_lslist m)"
    using mod_ok_none [OF ok] mod_ok_none [OF ok, of h] h by simp_all
  have "find (\<lambda>k. k = h) (mod_lslist m) \<noteq> None" using mem by (auto simp: find_None_iff)
  then obtain k where k: "find (\<lambda>k. k = h) (mod_lslist m) = Some k" by blast
  with find_SomeD [OF k] find_in_list_find [OF live, of "\<lambda>k _. k = h"]
  have "find_in_list (\<lambda>k _. k = h) (mod_lslist m) m = Some (Some h)" by simp
  moreover have "m\<lparr>mod_ls := (mod_ls m)(h \<mapsto> ls)\<rparr> = m" using h by (cases m) auto
  ultimately show ?thesis
    by (simp add: dlm_find_lockspace_local_def find_and_hold_def dlm_put_lockspace_def upd_ls_def h)
qed

text \<open>A release that leaves the lockspace, with its result.\<close>

definition kept :: "lsp \<Rightarrow> lockspace \<Rightarrow> int \<Rightarrow> dlm_module \<Rightarrow> dlm_module \<Rightarrow> bool" where
  "kept h ls e m m' \<longleftrightarrow>
     (if ls_create_count ls = 1 then e = -EBUSY \<and> mod_ls m' = mod_ls m
      else e = ls_create_count ls - 1 \<and>
        mod_ls m' = (mod_ls m)(h \<mapsto> ls\<lparr>ls_create_count := ls_create_count ls - 1\<rparr>)) \<and>
     mod_ls_count m' = mod_ls_count m \<and> mod_lslist m' = mod_lslist m \<and> mod_refs m' = mod_refs m \<and>
     mod_heap m' = mod_heap m"

lemma release_keeps:
  assumes ok: "counted m" and env: "tree_env_ok (le_dlm env)" and h: "mod_ls m h = Some ls"
    and idle: "ls_create_count ls = 1 \<Longrightarrow> ls_count ls = 0"
  shows "\<exists>e m'. dlm_release_lockspace env h force m = Some (e, m') \<and> counted m' \<and>
    (if ls_create_count ls = 1 \<and> \<not> lockspace_busy (ls_body ls) force then e = 0 \<and> destroyed h m m'
     else kept h ls e m m')"
proof -
  have mok: "mod_ok m" and cnt: "mod_ls_count m = int (length (mod_lslist m))" using ok by (auto simp: counted_def)
  have cc: "1 \<le> ls_create_count ls" using mok h by (simp add: mod_ok_def)
  obtain m1 where m1: "dlm_find_lockspace_local h m = Some (Some h, m1)" "dlm_put_lockspace h m1 = Some m"
    using find_hold_put [OF mok h] by blast
  show ?thesis
  proof (cases "ls_create_count ls = 1 \<and> \<not> lockspace_busy (ls_body ls) force")
    case True
    then have rv: "release_count ls force = (0, ls\<lparr>ls_create_count := 0\<rparr>)" by (simp add: release_count_def)
    obtain m2 where m2: "release_lockspace env h force m = Some (0, m2)" "destroyed h m m2"
      "mod_ls_count m2 = mod_ls_count m" using release_destroys [OF env h _ rv] idle True by blast
    let ?m3 = "m2\<lparr>mod_ls_count := mod_ls_count m2 - 1\<rparr>"
    let ?m4 = "if mod_ls_count ?m3 = 0 then ext_do env Midcomms_stop ?m3 else ?m3"
    have run: "dlm_release_lockspace env h force m = Some (0, ?m4)"
      using m1 m2(1) by (simp add: dlm_release_lockspace_def Let_def)
    have d: "destroyed h m ?m4" using m2(2) by (simp add: destroyed_def)
    have "mod_ls_count ?m4 = int (length (mod_lslist ?m4))"
      using destroyed_ok [OF mok h m2(2)] m2(3) cnt by simp
    with run d True destroyed_ok [OF mok h d] show ?thesis by (auto simp: counted_def)
  next
    case False
    let ?rv = "if ls_create_count ls = 1 then -EBUSY else ls_create_count ls - 1"
    let ?ls = "if ls_create_count ls = 1 then ls else ls\<lparr>ls_create_count := ls_create_count ls - 1\<rparr>"
    let ?m2 = "m\<lparr>mod_ls := (mod_ls m)(h \<mapsto> ?ls)\<rparr>"
    have rv: "release_count ls force = (?rv, ?ls)" "?rv \<noteq> 0" using False cc by (auto simp: release_count_def)
    have "release_lockspace env h force m = Some (?rv, ?m2)"
      using rv by (simp add: release_lockspace_def h Let_def)
    moreover have "mod_ls_count m \<noteq> 0" using cnt mod_ok_none [OF mok, of h] h by auto
    ultimately have run: "dlm_release_lockspace env h force m = Some (?rv, ?m2)"
      using m1 rv(2) by (simp add: dlm_release_lockspace_def Let_def del: if_split)
    have "mod_ls ?m2 = mod_ls m" if "ls_create_count ls = 1" using that h by auto
    then have k: "kept h ls ?rv m ?m2" by (simp add: kept_def)
    have "mod_ok ?m2" by (rule update_ok [OF mok h, of ?ls]) (use cc in simp_all)
    then have "counted ?m2" using cnt by (simp add: counted_def)
    with run k False show ?thesis by auto
  qed
qed

section \<open>A module to apply them to\<close>

definition le0 :: ls_env where
  "le0 = \<lparr>le_dlm = env0, le_error = (\<lambda>_ _. 0), le_alloc = (\<lambda>used t. if used t then None else Some t),
     le_chunk = (\<lambda>_ _. True), le_module_get = (\<lambda>_. True), le_daemon = (\<lambda>_. True),
     le_recover_callbacks = False, le_cluster_name = [], le_rsbtbl_size = 2, le_scan_secs = 5,
     le_newexcl = 0x10, le_fs = 4, le_random = (\<lambda>_. 7), le_uninit = (\<lambda>_. 0), le_memory = ls0,
     le_joined = (\<lambda>_ s. s\<lparr>ls_flags := 0x10, ls_generation := 1\<rparr>),
     le_stop = (\<lambda>s. s\<lparr>ls_flags := unset_bit LSFL_RUNNING (ls_flags s)\<rparr>),
     le_start = (\<lambda>s. s\<lparr>ls_flags := set_bit LSFL_RUNNING (ls_flags s)\<rparr>),
     le_recovery_trylock = (\<lambda>_. True), le_waiters_trylock = (\<lambda>_. True),
     kstrtoint = (\<lambda>_. Inr 0), kstrtouint = (\<lambda>_. Inr 0)\<rparr>"

definition module0 :: dlm_module where
  "module0 = \<lparr>mod_ls_count = 0, mod_lslist = [], mod_ls = (\<lambda>_. None), mod_heap = [], mod_refs = 0,
     mod_log = [], mod_tick = 0\<rparr>"

text \<open>With the lockspace \<open>a\<close> at address 5.\<close>

definition module1 :: dlm_module where
  "module1 = \<lparr>mod_ls_count = 1, mod_lslist = [5], mod_ls = [5 \<mapsto> new_ls le0 [97] 0 32 0],
     mod_heap = map (Pair 5) (Ls # Rsbtbl # Recover_buf # remove_names), mod_refs = 1,
     mod_log = [], mod_tick = 9\<rparr>"

lemma le0_ok: "ls_env_ok le0" and le0_tree: "tree_env_ok (le_dlm le0)"
  using env0_ok by (auto simp: ls_env_ok_def le0_def env_ok_def)

lemma module0_counted: "counted module0"
  by (simp add: counted_def mod_ok_def module0_def unique_names_def)


section \<open>The properties\<close>





text \<open>A creation and a forced release cancel out: the lockspaces, their creation counts, the
  memory and the references are what they were.\<close>

theorem lockspace_round_trip:
  assumes "counted m" and "ls_env_ok env" and "tree_env_ok (le_dlm env)" and "2 \<le> force"
    and "dlm_new_lockspace env name cluster flags lvblen m = Some (0, Some h, m1)"
  shows "\<exists>e m2. dlm_release_lockspace env h force m1 = Some (e, m2) \<and> unchanged m m2"
proof -
  from create_keeps [OF assms(1,2), of name cluster "flags OR le_fs env" lvblen] assms(5)
  have c1: "counted m1" and c: "created name h m m1 \<or> reopened name h m m1"
    by (auto simp: dlm_new_lockspace_def)
  have nb: "\<not> lockspace_busy s force" for s using assms(4) by (simp add: lockspace_busy_def)
  have mok: "mod_ok m" and cnt: "mod_ls_count m = int (length (mod_lslist m))"
    using assms(1) by (auto simp: counted_def)
  from c show ?thesis
  proof
    assume c: "created name h m m1"
    then obtain ls where ls: "mod_ls m1 h = Some ls" "ls_create_count ls = 1" "ls_count ls = 0"
      "(mod_ls m1)(h := None) = mod_ls m" by (auto simp: created_def fun_upd_idem)
    obtain e m2 where run: "dlm_release_lockspace env h force m1 = Some (e, m2)" and c2: "counted m2"
      and d: "destroyed h m1 m2" using release_keeps [OF c1 assms(3) ls(1,3), of force] ls(2) nb by auto
    have "({h} \<times> chunks) \<inter> set (mod_heap m) = {}" using mok c mod_ok_none [OF mok] by (auto simp: mod_ok_def created_def)
    then have "set (mod_heap m2) = set (mod_heap m)" using c d by (auto simp: created_def destroyed_def)
    then have "unchanged m m2" using c d ls(4) c2 cnt by (auto simp: unchanged_def created_def destroyed_def counted_def)
    with run show ?thesis by blast
  next
    assume r: "reopened name h m m1"
    then obtain ls where ls: "mod_ls m h = Some ls" "mod_ls m1 = (mod_ls m)(h \<mapsto> ls\<lparr>ls_create_count := ls_create_count ls + 1\<rparr>)"
      by (auto simp: reopened_def)
    have cc: "1 \<le> ls_create_count ls" using mok ls(1) by (simp add: mod_ok_def)
    let ?ls = "ls\<lparr>ls_create_count := ls_create_count ls + 1\<rparr>"
    have "mod_ls m1 h = Some ?ls" using ls(2) by simp
    from release_keeps [OF c1 assms(3) this, of force] cc obtain e m2 where
      run: "dlm_release_lockspace env h force m1 = Some (e, m2)" and k: "kept h ?ls e m1 m2" by auto
    have "mod_ls m2 = mod_ls m" using k ls cc by (auto simp: kept_def)
    then have "unchanged m m2" using k r by (simp add: kept_def reopened_def unchanged_def)
    with run show ?thesis by blast
  qed
qed

theorem lockspace_round_trip_witness:
  "\<exists>m1 e m2. dlm_new_lockspace le0 [97] None 0 32 module0 = Some (0, Some 2, m1) \<and>
    dlm_release_lockspace le0 2 3 m1 = Some (e, m2) \<and> unchanged module0 m2"
proof -
  have "\<exists>m1. dlm_new_lockspace le0 [97] None 0 32 module0 = Some (0, Some 2, m1)"
    by (simp add: dlm_new_lockspace_def us_us_dlm_new_lockspace_def new_lockspace_def threads_start_def
        alloc_lockspace_def alloc_chunk_def start_lockspace_def ext_call_def do_uevent_def le0_def module0_def
        remove_names_def upt_conv_Cons has_flag_def Let_def)
  then obtain m1 where m1: "dlm_new_lockspace le0 [97] None 0 32 module0 = Some (0, Some 2, m1)" by blast
  from lockspace_round_trip [OF module0_counted le0_ok le0_tree, of 3, OF _ m1] m1 show ?thesis by auto
qed

text \<open>When the control daemon is lost, the loop over the lockspaces ends with none of them
  running, provided that \<open>dlm_ls_stop\<close> stops a lockspace.\<close>

theorem dlm_stop_lockspaces_ends:
  assumes stop: "\<forall>s. \<not> bit (ls_flags (le_stop env s)) LSFL_RUNNING"
    and live: "\<forall>h\<in>set (mod_lslist m). mod_ls m h \<noteq> None"
  shows "\<exists>m'. dlm_stop_lockspaces env m = Some m' \<and> mod_lslist m' = mod_lslist m \<and>
    (\<forall>h\<in>set (mod_lslist m). \<exists>ls. mod_ls m' h = Some ls \<and> \<not> bit (ls_flags (ls_body ls)) LSFL_RUNNING)"
  using live
proof (induction "card {h \<in> set (mod_lslist m). bit (ls_flags (ls_body (the (mod_ls m h)))) LSFL_RUNNING}"
    arbitrary: m rule: less_induct)
  case less
  let ?run = "\<lambda>m h. bit (ls_flags (ls_body (the (mod_ls m h)))) LSFL_RUNNING"
  have f: "find_in_list (\<lambda>_ ls. bit (ls_flags (ls_body ls)) LSFL_RUNNING) (mod_lslist m) m =
      Some (find (?run m) (mod_lslist m))" using find_in_list_find [OF less.prems] by simp
  show ?case
  proof (cases "find (?run m) (mod_lslist m)")
    case None
    then have "stop_lockspaces_step env m = Some (Done m)" by (simp add: stop_lockspaces_step_def f)
    then have "dlm_stop_lockspaces env m = Some m" unfolding dlm_stop_lockspaces_def by (rule retry_Done)
    moreover have "\<forall>h\<in>set (mod_lslist m). \<exists>ls. mod_ls m h = Some ls \<and> \<not> bit (ls_flags (ls_body ls)) LSFL_RUNNING"
      using find_NoneD [OF None] less.prems by fastforce
    ultimately show ?thesis by blast
  next
    case (Some h)
    note hd = find_SomeD [OF Some]
    obtain ls where ls: "mod_ls m h = Some ls" using hd less.prems by blast
    let ?m = "m\<lparr>mod_ls := (mod_ls m)(h \<mapsto> ls\<lparr>ls_body := le_stop env (ls_body ls)\<rparr>)\<rparr>"
    have "stop_lockspaces_step env m = Some (Retry ?m)"
      using Some ls by (simp add: stop_lockspaces_step_def f upd_ls_def)
    then have run: "dlm_stop_lockspaces env m = dlm_stop_lockspaces env ?m"
      unfolding dlm_stop_lockspaces_def by (rule retry_Retry)
    have "{k \<in> set (mod_lslist ?m). ?run ?m k} = {k \<in> set (mod_lslist m). ?run m k} - {h}"
      using stop by auto
    moreover have "h \<in> {k \<in> set (mod_lslist m). ?run m k}" using hd by simp
    ultimately have "card {k \<in> set (mod_lslist ?m). ?run ?m k} < card {k \<in> set (mod_lslist m). ?run m k}"
      by (intro psubset_card_mono) auto
    from less.hyps [OF this] less.prems show ?thesis by (auto simp: run)
  qed
qed

theorem dlm_stop_lockspaces_ends_witness:
  "\<exists>m'. dlm_stop_lockspaces le0 module1 = Some m' \<and> mod_lslist m' = [5]"
proof -
  have "\<forall>s. \<not> bit (ls_flags (le_stop le0 s)) LSFL_RUNNING" by (simp add: le0_def bit_unset_bit_iff)
  moreover have "\<forall>h\<in>set (mod_lslist module1). mod_ls module1 h \<noteq> None" by (simp add: module1_def)
  ultimately show ?thesis using dlm_stop_lockspaces_ends [of le0 module1] by (auto simp: module1_def)
qed

end
