(* ===== verification/Recovery_Properties.thy ===== *)
theory Recovery_Properties
  imports Recovery Sample
begin

text \<open>
  The properties of recovery: a purge takes exactly the locks of departed nodes off the queues and
  keeps the invariant; what a new master rebuilds can be found again; the locks that wait for a
  node that is gone are marked.
\<close>

section \<open>Purging locks off a resource\<close>

text \<open>\<open>purged s r x D s'\<close>: from \<open>s\<close>, where \<open>x\<close> is at \<open>r\<close>, to \<open>s'\<close> the locks \<open>D\<close> were taken off the
  queues of the resource, and given up; nothing else was touched.\<close>

definition purged :: "dlm_ls \<Rightarrow> rsbp \<Rightarrow> dlm_rsb \<Rightarrow> lkid set \<Rightarrow> dlm_ls \<Rightarrow> bool" where
  "purged s r x D s' \<longleftrightarrow> master_ok s' r \<and>
     (\<forall>k. k \<notin> D \<longrightarrow> ls_lkbidr s' k = ls_lkbidr s k) \<and>
     (\<forall>k\<in>D. case ls_lkbidr s' k of None \<Rightarrow> True | Some l \<Rightarrow> lkb_status l = 0) \<and>
     (\<exists>x'. ls_rsbs s' = (ls_rsbs s)(r \<mapsto> x') \<and>
        res_grantqueue x' = filter (\<lambda>k. k \<notin> D) (res_grantqueue x) \<and>
        res_convertqueue x' = filter (\<lambda>k. k \<notin> D) (res_convertqueue x) \<and>
        res_waitqueue x' = filter (\<lambda>k. k \<notin> D) (res_waitqueue x) \<and>
        res_nodeid x' = res_nodeid x \<and>
        (\<forall>n. length (rsb_queues x) + n \<le> res_ref x \<longrightarrow> length (rsb_queues x') + n \<le> res_ref x') \<and>
        (\<forall>n. rsb_flag x n \<longrightarrow> rsb_flag x' n)) \<and>
     tables s' = tables s \<and> ls_recover_seq s' = ls_recover_seq s"

lemma rsb_queues_ref [simp]: "rsb_queues (x\<lparr>res_ref := n\<rparr>) = rsb_queues x"
  "rsb_queues (rsb_set_flag n x) = rsb_queues x"
  by (simp_all add: rsb_queues_def rsb_set_flag_def)

lemma rsb_set_flag_fields [simp]:
  "res_grantqueue (rsb_set_flag n x) = res_grantqueue x" "res_convertqueue (rsb_set_flag n x) = res_convertqueue x"
  "res_waitqueue (rsb_set_flag n x) = res_waitqueue x" "res_nodeid (rsb_set_flag n x) = res_nodeid x"
  "res_ref (rsb_set_flag n x) = res_ref x" "queues (rsb_set_flag n x) = queues x"
  by (simp_all add: rsb_set_flag_def queues_def)

lemma purgedE:
  assumes "purged s r x D s'"
  obtains x' where "master_ok s' r" "\<forall>k. k \<notin> D \<longrightarrow> ls_lkbidr s' k = ls_lkbidr s k"
    "\<forall>k\<in>D. case ls_lkbidr s' k of None \<Rightarrow> True | Some l \<Rightarrow> lkb_status l = 0"
    "ls_rsbs s' = (ls_rsbs s)(r \<mapsto> x')"
    "res_grantqueue x' = filter (\<lambda>k. k \<notin> D) (res_grantqueue x)"
    "res_convertqueue x' = filter (\<lambda>k. k \<notin> D) (res_convertqueue x)"
    "res_waitqueue x' = filter (\<lambda>k. k \<notin> D) (res_waitqueue x)" "res_nodeid x' = res_nodeid x"
    "\<forall>n. length (rsb_queues x) + n \<le> res_ref x \<longrightarrow> length (rsb_queues x') + n \<le> res_ref x'"
    "\<forall>n. rsb_flag x n \<longrightarrow> rsb_flag x' n" "tables s' = tables s" "ls_recover_seq s' = ls_recover_seq s"
  using assms unfolding purged_def by blast

lemma purged_queues:
  assumes "purged s r x D s'" and "ls_rsbs s' r = Some x'"
  shows "rsb_queues x' = filter (\<lambda>k. k \<notin> D) (rsb_queues x)"
  using assms by (elim purgedE) (simp add: rsb_queues_def)

lemma purged_refs:
  assumes "purged s r x D s'" and "ls_rsbs s' r = Some x'" and "length (rsb_queues x) + n \<le> res_ref x"
  shows "length (rsb_queues x') + n \<le> res_ref x'"
  using assms by (elim purgedE) simp

lemma purged_refl: "master_ok s r \<Longrightarrow> ls_rsbs s r = Some x \<Longrightarrow> purged s r x {} s"
  by (auto simp: purged_def intro!: exI [of _ x])

lemma purged_trans:
  assumes 1: "purged s r x D s1" and x1: "ls_rsbs s1 r = Some x1" and 2: "purged s1 r x1 D' s2"
  shows "purged s r x (D \<union> D') s2"
proof (rule purgedE [OF 1], rule purgedE [OF 2], goal_cases)
  case a: (1 y1 x2)
  have y: "y1 = x1" using a(4) x1 by simp
  have "case ls_lkbidr s2 k of None \<Rightarrow> True | Some l \<Rightarrow> lkb_status l = 0" if "k \<in> D \<union> D'" for k
    using that a(3,14,15) by (cases "k \<in> D'") auto
  moreover have "ls_rsbs s2 = (ls_rsbs s)(r \<mapsto> x2)" using a(4,16) by simp
  ultimately show ?case using a unfolding purged_def y
    by (intro conjI exI [of _ x2]) (auto intro!: filter_cong)
qed

lemma purged_flag:
  assumes p: "purged s r x D s'" and n: "n < 64"
  shows "\<exists>s2 x2. upd_rsb r (rsb_set_flag n) s' = Some s2 \<and> purged s r x D s2 \<and>
    ls_rsbs s2 r = Some x2 \<and> rsb_flag x2 n"
proof (rule purgedE [OF p], goal_cases)
  case (1 x')
  then have x': "ls_rsbs s' r = Some x'" by simp
  let ?s2 = "s'\<lparr>ls_rsbs := (ls_rsbs s')(r \<mapsto> rsb_set_flag n x')\<rparr>"
  have "master_ok ?s2 r" using 1(1) master_ok_upd_rsb [OF x', of "rsb_set_flag n x'"] by simp
  then have "purged s r x D ?s2" unfolding purged_def using 1 n
    by (intro conjI exI [of _ "rsb_set_flag n x'"]) simp_all
  then show ?case using x' n by auto
qed

text \<open>The step both kinds of purge take: off the queue, and give up the reference.\<close>

lemma purge_lkb:
  assumes ok: "master_ok s r" and x: "ls_rsbs s r = Some x" and k: "k \<in> set (rsb_queues x)"
    and refs: "length (rsb_queues x) + 1 \<le> res_ref x"
  shows "\<exists>s1 s2 b. del_lkb r k s = Some s1 \<and> dlm_put_lkb env k s1 = Some (b, s2) \<and> purged s r x {k} s2"
proof -
  have q: "queues_ok s r x" using ok x by (simp add: master_ok_def)
  then obtain l st where l: "ls_lkbidr s k = Some l" "queued_ok r st l"
    using k by (auto simp: queues_ok_def rsb_queues_def dest: on_queueD)
  then have lr: "lkb_resource l = Some r" "2 \<le> lkb_ref l" by (auto simp: queued_ok_def)
  let ?l1 = "l\<lparr>lkb_ref := lkb_ref l - 1, lkb_status := 0\<rparr>"
  obtain s1 where s1: "del_lkb r k s = Some s1" "ls_lkbidr s1 = (ls_lkbidr s)(k \<mapsto> ?l1)"
    "ls_rsbs s1 = (ls_rsbs s)(r \<mapsto> unqueue k x)" "tables s1 = tables s"
    using del_lkb_spec [OF l(1) lr(2) x k] by blast
  have rs1: "ls_recover_seq s1 = ls_recover_seq s" using s1(1)
    by (auto simp: del_lkb_def unhold_lkb_def kref_put_lkb_def upd_lkb_eq_Some_iff upd_rsb_eq_Some_iff
        split: bind_splits)
  have d: "distinct (rsb_queues x)" using q by (simp add: queues_ok_def)
  have ok1: "master_ok s1 r"
    by (rule master_ok_placed [OF ok x s1(2) _ placed_unqueue [OF d]]) (use s1(3) in simp_all)
  have flt: "remove1 k xs = filter (\<lambda>j. j \<noteq> k) xs" if "distinct xs" for xs :: "lkid list"
    using that by (simp add: distinct_remove1_removeAll removeAll_filter_not_eq eq_commute)
  have dd: "distinct (res_grantqueue x)" "distinct (res_convertqueue x)" "distinct (res_waitqueue x)"
    using d by (auto simp: rsb_queues_def)
  have un: "res_grantqueue (unqueue k x) = filter (\<lambda>j. j \<notin> {k}) (res_grantqueue x)"
    "res_convertqueue (unqueue k x) = filter (\<lambda>j. j \<notin> {k}) (res_convertqueue x)"
    "res_waitqueue (unqueue k x) = filter (\<lambda>j. j \<notin> {k}) (res_waitqueue x)"
    "res_nodeid (unqueue k x) = res_nodeid x" "res_ref (unqueue k x) = res_ref x"
    "res_flags (unqueue k x) = res_flags x"
    by (simp_all add: unqueue_def flt dd)
  have "rsb_queues (unqueue k x) = filter (\<lambda>j. j \<noteq> k) (rsb_queues x)" by (simp add: rsb_queues_def un)
  then have "rsb_queues (unqueue k x) = remove1 k (rsb_queues x)" by (simp add: flt [OF d])
  then have len: "length (rsb_queues (unqueue k x)) = length (rsb_queues x) - 1" "0 < length (rsb_queues x)"
    using k by (auto simp: length_remove1 dest: length_pos_if_in_set)
  then have slack: "length (rsb_queues x) + n \<le> res_ref x \<Longrightarrow> length (rsb_queues (unqueue k x)) + n \<le> res_ref x - 1" for n
    by linarith
  show ?thesis
  proof (cases "lkb_ref l = 2")
    case True
    let ?s2 = "s1\<lparr>ls_lkbidr := (ls_lkbidr s1)(k := None)\<rparr>"
    let ?x2 = "unqueue k x\<lparr>res_ref := res_ref x - 1\<rparr>"
    let ?s3 = "?s2\<lparr>ls_rsbs := (ls_rsbs ?s2)(r \<mapsto> ?x2)\<rparr>"
    have "put_rsb env r ?s2 = Some ?s3"
      using put_rsb_held [of ?s2 r "unqueue k x" env] s1(3) refs len by (simp add: un)
    then have put: "dlm_put_lkb env k s1 = Some (True, ?s3)"
      using True s1(2) lr by (simp add: dlm_put_lkb_def us_put_lkb_def kref_put_lkb_def kill_lkb_def detach_lkb_def)
    have "master_ok ?s2 r" by (rule master_ok_free [OF ok1, of k ?l1]) (simp_all add: s1(2))
    then have "master_ok ?s3 r" using master_ok_upd_rsb [of ?s2 r "unqueue k x" ?x2] s1(3)
      by (simp add: queues_def)
    then have "purged s r x {k} ?s3" using s1 un rs1 unfolding purged_def
      by (intro conjI exI [of _ ?x2]) (use slack in \<open>auto simp: rsb_flag_def\<close>)
    with s1(1) put show ?thesis by blast
  next
    case False
    then obtain n where n: "lkb_ref l = n + 3" using lr(2) by (metis add.commute le_Suc_ex le_antisym not_less_eq_eq numeral_2_eq_2 numeral_3_eq_3)
    let ?s3 = "s1\<lparr>ls_lkbidr := (ls_lkbidr s1)(k \<mapsto> ?l1\<lparr>lkb_ref := n + 1\<rparr>)\<rparr>"
    have put: "dlm_put_lkb env k s1 = Some (False, ?s3)"
      using s1(2) lr by (simp add: dlm_put_lkb_def us_put_lkb_def kref_put_lkb_def n)
    have "master_ok ?s3 r" by (rule master_ok_upd_lkb [OF ok1, of k ?l1]) (simp_all add: s1(2))
    then have "purged s r x {k} ?s3" using s1 un rs1 unfolding purged_def
      by (intro conjI exI [of _ "unqueue k x"]) (use slack in \<open>auto simp: rsb_flag_def intro: le_trans [OF _ diff_le_self]\<close>)
    with s1(1) put show ?thesis by blast
  qed
qed

definition departed :: "dlm_env \<Rightarrow> int \<Rightarrow> dlm_ls \<Rightarrow> lkid \<Rightarrow> bool" where
  "departed env gn s k = (case ls_lkbidr s k of None \<Rightarrow> False
     | Some l \<Rightarrow> is_master_copy l \<and> (lkb_nodeid l = gn \<or> dlm_is_removed env (lkb_nodeid l)))"

definition dead_in :: "dlm_env \<Rightarrow> int \<Rightarrow> dlm_ls \<Rightarrow> lkid list \<Rightarrow> lkid set" where
  "dead_in env gn s q = {k \<in> set q. departed env gn s k}"

lemma dead_in_cong: "(\<And>k. k \<in> set q \<Longrightarrow> ls_lkbidr s' k = ls_lkbidr s k) \<Longrightarrow> dead_in env gn s' q = dead_in env gn s q"
  by (auto simp: dead_in_def departed_def)

lemma dead_in_append: "dead_in env gn s (p @ q) = dead_in env gn s p \<union> dead_in env gn s q"
  by (auto simp: dead_in_def)

lemma purge_dead_list_spec:
  assumes "master_ok s r" and "ls_rsbs s r = Some x" and "set q \<subseteq> set (rsb_queues x)" and "distinct q"
    and "length (rsb_queues x) + 1 \<le> res_ref x"
  shows "\<exists>c' s' x'. purge_dead_list env r q gn c s = Some (c', s') \<and>
    purged s r x (dead_in env gn s q) s' \<and> ls_rsbs s' r = Some x' \<and>
    (dead_in env gn s q \<noteq> {} \<longrightarrow> rsb_flag x' RSB_RECOVER_GRANT)"
  using assms
proof (induction q arbitrary: c s x)
  case Nil
  then show ?case using purged_refl by (auto simp: dead_in_def)
next
  case (Cons k q)
  note ok = Cons.prems(1) and x = Cons.prems(2)
  have kq: "k \<in> set (rsb_queues x)" "k \<notin> set q" using Cons.prems by auto
  obtain l where l: "ls_lkbidr s k = Some l"
    using ok x kq(1) by (auto simp: master_ok_def queues_ok_def rsb_queues_def dest: on_queueD)
  show ?case
  proof (cases "departed env gn s k")
    case False
    then have "purge_dead_list env r (k # q) gn c s = purge_dead_list env r q gn c s"
      using l by (simp add: departed_def)
    moreover have "dead_in env gn s (k # q) = dead_in env gn s q"
      using False by (auto simp: dead_in_def)
    ultimately show ?thesis using Cons.IH [OF ok x, of c] Cons.prems False by simp
  next
    case True
    let ?inv = "has_flag (lkb_exflags l) DLM_LKF_VALBLK \<and> DLM_LOCK_PW \<le> lkb_grmode l"
    obtain s0 x0 where s0: "(if ?inv then upd_rsb r (rsb_set_flag RSB_RECOVER_LVB_INVAL) s else Some s) = Some s0"
      "purged s r x {} s0" "ls_rsbs s0 r = Some x0"
      using purged_flag [OF purged_refl [OF ok x], of RSB_RECOVER_LVB_INVAL] purged_refl [OF ok x] x
      by (cases ?inv) auto
    have q0: "rsb_queues x0 = rsb_queues x" and r0: "length (rsb_queues x0) + 1 \<le> res_ref x0" and ok0: "master_ok s0 r"
      using purged_queues [OF s0(2,3)] purged_refs [OF s0(2,3) Cons.prems(5)] s0(2) by (auto simp: purged_def)
    obtain s1 s2 b where s12: "del_lkb r k s0 = Some s1" "dlm_put_lkb env k s1 = Some (b, s2)" "purged s0 r x0 {k} s2"
      using purge_lkb [OF ok0 s0(3), of k env] q0 r0 kq(1) by auto
    have p2: "purged s r x {k} s2" using purged_trans [OF s0(2,3) s12(3)] by simp
    obtain s3 x3 where s3: "upd_rsb r (rsb_set_flag RSB_RECOVER_GRANT) s2 = Some s3" "purged s r x {k} s3"
      "ls_rsbs s3 r = Some x3" "rsb_flag x3 RSB_RECOVER_GRANT" using purged_flag [OF p2, of RSB_RECOVER_GRANT] by auto
    have l3: "\<And>j. j \<noteq> k \<Longrightarrow> ls_lkbidr s3 j = ls_lkbidr s j" and ok3: "master_ok s3 r"
      and r3: "length (rsb_queues x3) + 1 \<le> res_ref x3"
      using purged_refs [OF s3(2,3) Cons.prems(5)] s3(2) by (auto simp: purged_def)
    have q3: "set q \<subseteq> set (rsb_queues x3)" using purged_queues [OF s3(2,3)] Cons.prems(3) kq(2) by auto
    have dep: "dead_in env gn s3 q = dead_in env gn s q"
      by (rule dead_in_cong, rule l3) (use kq(2) in auto)
    have run: "purge_dead_list env r (k # q) gn c s = purge_dead_list env r q gn (c + 1) s3"
      using True l s0(1) s12(1,2) s3(1) by (cases ?inv) (auto simp: departed_def)
    obtain c' s' x' where end': "purge_dead_list env r q gn (c + 1) s3 = Some (c', s')"
      "purged s3 r x3 (dead_in env gn s3 q) s'" "ls_rsbs s' r = Some x'"
      using Cons.IH [OF ok3 s3(3) q3 _ r3, of "c + 1"] Cons.prems(4) by auto
    have "{k} \<union> dead_in env gn s3 q = dead_in env gn s (k # q)"
      using dep True by (auto simp: dead_in_def)
    then have "purged s r x (dead_in env gn s (k # q)) s'"
      using purged_trans [OF s3(2,3) end'(2)] by simp
    moreover have "rsb_flag x' RSB_RECOVER_GRANT" using end'(2,3) s3(4) by (auto simp: purged_def)
    ultimately show ?thesis using run end'(1,3)
      by (intro exI [of _ c'] exI [of _ s'] exI [of _ x']) simp
  qed
qed

text \<open>\<open>is_master(r)\<close> of \<open>lock.h\<close> tests \<open>res_nodeid\<close>.\<close>

definition master_env :: "dlm_env \<Rightarrow> bool" where
  "master_env env \<longleftrightarrow> is_master env = (\<lambda>x. res_nodeid x = 0)"

text \<open>The three queues of a resource, one after the other.\<close>

lemma purge_queues:
  assumes ok: "master_ok s r" and x: "ls_rsbs s r = Some x" and refs: "length (rsb_queues x) + 1 \<le> res_ref x"
  shows "\<exists>c' s' x'. (do {
       (count, s) \<leftarrow> purge_dead_list env r (res_grantqueue x) gn c s;
       x \<leftarrow> ls_rsbs s r;
       (count, s) \<leftarrow> purge_dead_list env r (res_convertqueue x) gn count s;
       x \<leftarrow> ls_rsbs s r;
       purge_dead_list env r (res_waitqueue x) gn count s }) = Some (c', s') \<and>
    purged s r x (dead_in env gn s (rsb_queues x)) s' \<and> ls_rsbs s' r = Some x' \<and>
    (dead_in env gn s (rsb_queues x) \<noteq> {} \<longrightarrow> rsb_flag x' RSB_RECOVER_GRANT)"
proof -
  have d: "distinct (rsb_queues x)" using ok x by (simp add: master_ok_def queues_ok_def)
  let ?D = "\<lambda>s q. dead_in env gn s q"
  obtain c1 s1 x1 where 1: "purge_dead_list env r (res_grantqueue x) gn c s = Some (c1, s1)"
    "purged s r x (?D s (res_grantqueue x)) s1" "ls_rsbs s1 r = Some x1"
    "?D s (res_grantqueue x) \<noteq> {} \<longrightarrow> rsb_flag x1 RSB_RECOVER_GRANT"
    using purge_dead_list_spec [OF ok x, of "res_grantqueue x" env gn c] d refs by (auto simp: rsb_queues_def)
  have a1: "master_ok s1 r" "length (rsb_queues x1) + 1 \<le> res_ref x1" "res_convertqueue x1 = res_convertqueue x"
    "\<And>k. k \<notin> set (res_grantqueue x) \<Longrightarrow> ls_lkbidr s1 k = ls_lkbidr s k"
    "res_waitqueue x1 = res_waitqueue x"
    using 1(2,3) purged_refs [OF 1(2,3) refs] d
    by (auto simp: purged_def rsb_queues_def dead_in_def intro!: filter_True)
  have d1: "distinct (rsb_queues x1)" using a1(1) 1(3) by (simp add: master_ok_def queues_ok_def)
  obtain c2 s2 x2 where 2: "purge_dead_list env r (res_convertqueue x1) gn c1 s1 = Some (c2, s2)"
    "purged s1 r x1 (?D s1 (res_convertqueue x1)) s2" "ls_rsbs s2 r = Some x2"
    "?D s1 (res_convertqueue x1) \<noteq> {} \<longrightarrow> rsb_flag x2 RSB_RECOVER_GRANT"
    using purge_dead_list_spec [OF a1(1) 1(3), of "res_convertqueue x1" env gn c1] d1 a1(2) by (auto simp: rsb_queues_def)
  have a2: "master_ok s2 r" "length (rsb_queues x2) + 1 \<le> res_ref x2" "res_waitqueue x2 = res_waitqueue x1"
    "\<And>k. k \<notin> set (res_convertqueue x1) \<Longrightarrow> ls_lkbidr s2 k = ls_lkbidr s1 k"
    using 2(2,3) purged_refs [OF 2(2,3) a1(2)] d1
    by (auto simp: purged_def rsb_queues_def dead_in_def intro!: filter_True)
  have d2: "distinct (rsb_queues x2)" using a2(1) 2(3) by (simp add: master_ok_def queues_ok_def)
  obtain c3 s3 x3 where 3: "purge_dead_list env r (res_waitqueue x2) gn c2 s2 = Some (c3, s3)"
    "purged s2 r x2 (?D s2 (res_waitqueue x2)) s3" "ls_rsbs s3 r = Some x3"
    "?D s2 (res_waitqueue x2) \<noteq> {} \<longrightarrow> rsb_flag x3 RSB_RECOVER_GRANT"
    using purge_dead_list_spec [OF a2(1) 2(3), of "res_waitqueue x2" env gn c2] d2 a2(2) by (auto simp: rsb_queues_def)
  have dep1: "?D s1 (res_convertqueue x1) = ?D s (res_convertqueue x)"
    unfolding a1(3) by (rule dead_in_cong) (use a1(4) d in \<open>auto simp: rsb_queues_def\<close>)
  have dj: "k \<notin> set (res_grantqueue x) \<and> k \<notin> set (res_convertqueue x)" if "k \<in> set (res_waitqueue x)" for k
    using d that by (auto simp: rsb_queues_def)
  have dep2: "?D s2 (res_waitqueue x2) = ?D s (res_waitqueue x)"
    unfolding a2(3) a1(5) by (rule dead_in_cong) (metis a1(3,4) a2(4) dj)
  have fl: "rsb_flag x1 RSB_RECOVER_GRANT \<Longrightarrow> rsb_flag x2 RSB_RECOVER_GRANT"
    "rsb_flag x2 RSB_RECOVER_GRANT \<Longrightarrow> rsb_flag x3 RSB_RECOVER_GRANT"
    using 2(2,3) 3(2,3) by (auto simp: purged_def)
  have "purged s r x (?D s (res_grantqueue x) \<union> ?D s (res_convertqueue x) \<union> ?D s (res_waitqueue x)) s3"
    using purged_trans [OF purged_trans [OF 1(2,3) 2(2)] 2(3) 3(2)] by (simp only: dep1 dep2)
  moreover have "?D s (res_grantqueue x) \<union> ?D s (res_convertqueue x) \<union> ?D s (res_waitqueue x) = ?D s (rsb_queues x)"
    by (simp add: rsb_queues_def dead_in_append Un_assoc)
  moreover have "?D s (rsb_queues x) \<noteq> {} \<longrightarrow> rsb_flag x3 RSB_RECOVER_GRANT"
    using 1(4) 2(4) 3(4) fl dep1 dep2 by (auto simp: rsb_queues_def dead_in_append)
  ultimately show ?thesis using 1 2 3 by auto
qed

lemma recover_purge_rsb_master:
  assumes ok: "master_ok s r" and x: "ls_rsbs s r = Some x" and refs: "length (rsb_queues x) + 1 \<le> res_ref x"
    and env: "master_env env" and m: "res_nodeid x = 0"
  shows "\<exists>c' s' x'. recover_purge_rsb env gn r c s = Some (c', s') \<and>
    purged s r x (dead_in env gn s (rsb_queues x)) s' \<and> ls_rsbs s' r = Some x' \<and>
    (dead_in env gn s (rsb_queues x) \<noteq> {} \<longrightarrow> rsb_flag x' RSB_RECOVER_GRANT)"
proof -
  let ?x1 = "x\<lparr>res_ref := res_ref x + 1\<rparr>" and ?D = "dead_in env gn s (rsb_queues x)"
  let ?s1 = "s\<lparr>ls_rsbs := (ls_rsbs s)(r \<mapsto> ?x1)\<rparr>"
  have ok1: "master_ok ?s1 r" using ok master_ok_upd_rsb [OF x, of ?x1] by (simp add: queues_def)
  have x1: "ls_rsbs ?s1 r = Some ?x1" by simp
  obtain c' s2 x2 where 2: "(do {
       (count, s) \<leftarrow> purge_dead_list env r (res_grantqueue ?x1) gn c ?s1;
       x \<leftarrow> ls_rsbs s r;
       (count, s) \<leftarrow> purge_dead_list env r (res_convertqueue x) gn count s;
       x \<leftarrow> ls_rsbs s r;
       purge_dead_list env r (res_waitqueue x) gn count s }) = Some (c', s2)"
    "purged ?s1 r ?x1 (dead_in env gn ?s1 (rsb_queues ?x1)) s2" "ls_rsbs s2 r = Some x2"
    "dead_in env gn ?s1 (rsb_queues ?x1) \<noteq> {} \<longrightarrow> rsb_flag x2 RSB_RECOVER_GRANT"
    using purge_queues [OF ok1 x1, of env gn c] refs by auto
  have D: "dead_in env gn ?s1 (rsb_queues ?x1) = ?D" by (simp add: dead_in_def departed_def)
  have len: "length (rsb_queues x2) + 1 + 1 \<le> res_ref x2"
    using purged_refs [OF 2(2,3), of "1 + 1"] refs by simp
  let ?x3 = "x2\<lparr>res_ref := res_ref x2 - 1\<rparr>"
  let ?s3 = "s2\<lparr>ls_rsbs := (ls_rsbs s2)(r \<mapsto> ?x3)\<rparr>"
  have "unhold_rsb env r s2 = Some ?s3"
    using 2(3) len by (simp add: unhold_rsb_def kref_put_rsb_def)
  then have run: "recover_purge_rsb env gn r c s = Some (c', ?s3)"
    using x env m 2(1) by (simp add: recover_purge_rsb_def hold_rsb_def kref_get_rsb_def master_env_def)
  have "master_ok ?s3 r" using 2(2,3) master_ok_upd_rsb [OF 2(3), of ?x3] by (simp add: purged_def queues_def)
  moreover have "length (rsb_queues x2) + n \<le> res_ref x2 - 1" if "length (rsb_queues x) + n \<le> res_ref x" for n
    using purged_refs [OF 2(2,3), of "n + 1"] that by simp
  ultimately have "purged s r x ?D ?s3" using 2(2,3) unfolding D purged_def
    by (intro conjI exI [of _ ?x3]) (auto simp: rsb_flag_def tables_def)
  with run 2(4) show ?thesis unfolding D by (auto simp: rsb_flag_def)
qed

lemma recover_purge_rsb_other:
  assumes "ls_rsbs s r = Some x" and "master_env env" and "res_nodeid x \<noteq> 0" and "1 \<le> res_ref x"
  shows "recover_purge_rsb env gn r c s = Some (c, s)"
proof -
  have "s\<lparr>ls_rsbs := (ls_rsbs s)(r \<mapsto> x)\<rparr> = s" using assms(1) by (cases s) auto
  with assms show ?thesis
    by (simp add: recover_purge_rsb_def hold_rsb_def kref_get_rsb_def master_env_def unhold_rsb_def kref_put_rsb_def)
qed

text \<open>The other resources do not notice.\<close>

lemma purged_other:
  assumes ok: "master_ok s r" and x: "ls_rsbs s r = Some x" and p: "purged s r x (dead_in env gn s (rsb_queues x)) s'"
    and r2: "r2 \<noteq> r" "ls_rsbs s r2 = Some x2" "master_ok s r2"
  shows "master_ok s' r2" and "dead_in env gn s' (rsb_queues x2) = dead_in env gn s (rsb_queues x2)"
proof -
  let ?D = "dead_in env gn s (rsb_queues x)"
  have q2: "queues_ok s r2 x2" using r2 by (simp add: master_ok_def)
  have q1: "queues_ok s r x" using ok x by (simp add: master_ok_def)
  have D: "\<exists>l. ls_lkbidr s k = Some l \<and> lkb_resource l = Some r" if "k \<in> ?D" for k
    using that q1 by (auto simp: dead_in_def queues_ok_def rsb_queues_def on_queue_def queued_ok_def)
  have R2: "\<exists>l. ls_lkbidr s k = Some l \<and> lkb_resource l = Some r2" if "k \<in> set (rsb_queues x2)" for k
    using that q2 by (auto simp: queues_ok_def rsb_queues_def on_queue_def queued_ok_def)
  have same: "ls_lkbidr s' k = ls_lkbidr s k" if "k \<in> set (rsb_queues x2)" for k
  proof -
    have "k \<notin> ?D" using D [of k] R2 [OF that] r2(1) by auto
    with p show ?thesis by (simp add: purged_def)
  qed
  then show "dead_in env gn s' (rsb_queues x2) = dead_in env gn s (rsb_queues x2)" by (rule dead_in_cong)
  have x2': "ls_rsbs s' r2 = Some x2" using p r2(1,2) by (auto simp: purged_def)
  have "k \<in> set (rsb_queues x2)" if k: "ls_lkbidr s' k = Some l" "lkb_resource l = Some r2" "lkb_status l \<noteq> 0" for k l
  proof (cases "k \<in> ?D")
    case True
    then show ?thesis using p k by (auto simp: purged_def)
  next
    case False
    then show ?thesis using p k q2 by (auto simp: purged_def queues_ok_def)
  qed
  then have "queues_ok s' r2 x2" using q2 same
    by (simp add: queues_ok_def on_queue_def rsb_queues_def)
  moreover have "modes.consistent (gr_mode s') (holders x2) = modes.consistent (gr_mode s) (holders x2)"
    by (rule modes.consistent_cong) (use same in \<open>auto simp: holders_def rsb_queues_def gr_mode_def\<close>)
  ultimately show "master_ok s' r2" using r2 x2' by (simp add: master_ok_def)
qed

text \<open>What recovery needs of a resource on the root list, which holds a reference to it.\<close>

definition purgeable :: "dlm_ls \<Rightarrow> rsbp \<Rightarrow> bool" where
  "purgeable s r \<longleftrightarrow> (\<exists>x. ls_rsbs s r = Some x \<and> length (rsb_queues x) < res_ref x \<and>
     (res_nodeid x = 0 \<longrightarrow> master_ok s r))"

text \<open>The purge is done: on a resource mastered here exactly the locks of departed nodes are off
  the queues, which stay in order and in the invariant; if there were any, the resource is marked
  for granting.\<close>

definition purge_done :: "dlm_env \<Rightarrow> int \<Rightarrow> dlm_ls \<Rightarrow> dlm_ls \<Rightarrow> rsbp \<Rightarrow> bool" where
  "purge_done env gn s s' r \<longleftrightarrow> (\<exists>x x'. ls_rsbs s r = Some x \<and> ls_rsbs s' r = Some x' \<and>
     (if res_nodeid x = 0 then master_ok s' r \<and>
        res_grantqueue x' = filter (\<lambda>k. \<not> departed env gn s k) (res_grantqueue x) \<and>
        res_convertqueue x' = filter (\<lambda>k. \<not> departed env gn s k) (res_convertqueue x) \<and>
        res_waitqueue x' = filter (\<lambda>k. \<not> departed env gn s k) (res_waitqueue x) \<and>
        ((\<exists>k\<in>set (rsb_queues x). departed env gn s k) \<longrightarrow> rsb_flag x' RSB_RECOVER_GRANT)
      else x' = x))"

lemma filter_not_dead: "set q \<subseteq> set q' \<Longrightarrow>
    filter (\<lambda>k. k \<notin> dead_in env gn s q') q = filter (\<lambda>k. \<not> departed env gn s k) q"
  by (rule filter_cong) (auto simp: dead_in_def)

lemma purge_done_cong:
  assumes d: "purge_done env gn s1 s2 r" and x: "ls_rsbs s1 r = ls_rsbs s r"
    and dead: "\<And>x. ls_rsbs s r = Some x \<Longrightarrow> res_nodeid x = 0 \<Longrightarrow>
      dead_in env gn s1 (rsb_queues x) = dead_in env gn s (rsb_queues x)"
  shows "purge_done env gn s s2 r"
proof -
  from d obtain x1 x2 where x12: "ls_rsbs s r = Some x1" "ls_rsbs s2 r = Some x2"
    "if res_nodeid x1 = 0 then master_ok s2 r \<and>
        res_grantqueue x2 = filter (\<lambda>k. \<not> departed env gn s1 k) (res_grantqueue x1) \<and>
        res_convertqueue x2 = filter (\<lambda>k. \<not> departed env gn s1 k) (res_convertqueue x1) \<and>
        res_waitqueue x2 = filter (\<lambda>k. \<not> departed env gn s1 k) (res_waitqueue x1) \<and>
        ((\<exists>k\<in>set (rsb_queues x1). departed env gn s1 k) \<longrightarrow> rsb_flag x2 RSB_RECOVER_GRANT)
      else x2 = x1" by (auto simp: purge_done_def x)
  have "departed env gn s1 k = departed env gn s k" if "res_nodeid x1 = 0" "k \<in> set (rsb_queues x1)" for k
    using dead [OF x12(1) that(1)] that(2) by (auto simp: dead_in_def)
  then have "filter (\<lambda>k. \<not> departed env gn s1 k) q = filter (\<lambda>k. \<not> departed env gn s k) q"
    if "res_nodeid x1 = 0" "set q \<subseteq> set (rsb_queues x1)" for q
    using that by (intro filter_cong) auto
  note same = this
  show ?thesis
  proof (cases "res_nodeid x1 = 0")
    case True
    have "departed env gn s1 k = departed env gn s k" if "k \<in> set (rsb_queues x1)" for k
      using dead [OF x12(1) True] that by (auto simp: dead_in_def)
    then have fl: "(\<exists>k\<in>set (rsb_queues x1). departed env gn s1 k) = (\<exists>k\<in>set (rsb_queues x1). departed env gn s k)"
      by auto
    have qs: "set (res_grantqueue x1) \<subseteq> set (rsb_queues x1)" "set (res_convertqueue x1) \<subseteq> set (rsb_queues x1)"
      "set (res_waitqueue x1) \<subseteq> set (rsb_queues x1)" by (auto simp: rsb_queues_def)
    from x12(3) True fl same [OF True qs(1)] same [OF True qs(2)] same [OF True qs(3)]
    have "master_ok s2 r \<and>
        res_grantqueue x2 = filter (\<lambda>k. \<not> departed env gn s k) (res_grantqueue x1) \<and>
        res_convertqueue x2 = filter (\<lambda>k. \<not> departed env gn s k) (res_convertqueue x1) \<and>
        res_waitqueue x2 = filter (\<lambda>k. \<not> departed env gn s k) (res_waitqueue x1) \<and>
        ((\<exists>k\<in>set (rsb_queues x1). departed env gn s k) \<longrightarrow> rsb_flag x2 RSB_RECOVER_GRANT)"
      by simp
    with x12(1,2) True show ?thesis unfolding purge_done_def by auto
  next
    case False
    with x12 show ?thesis unfolding purge_done_def by simp
  qed
qed

text \<open>One resource, and what the others see of it.\<close>

lemma recover_purge_rsb_done:
  assumes r: "purgeable s r" and env: "master_env env"
  shows "\<exists>c' s'. recover_purge_rsb env gn r c s = Some (c', s') \<and> purge_done env gn s s' r \<and>
    (\<forall>r2 x2. r2 \<noteq> r \<and> ls_rsbs s r2 = Some x2 \<longrightarrow> ls_rsbs s' r2 = Some x2 \<and>
       (master_ok s r2 \<longrightarrow> master_ok s' r2 \<and>
          dead_in env gn s' (rsb_queues x2) = dead_in env gn s (rsb_queues x2)))"
proof -
  from r obtain x where x: "ls_rsbs s r = Some x" "length (rsb_queues x) + 1 \<le> res_ref x"
    "res_nodeid x = 0 \<longrightarrow> master_ok s r" by (auto simp: purgeable_def)
  show ?thesis
  proof (cases "res_nodeid x = 0")
    case True
    then have ok: "master_ok s r" using x(3) by simp
    obtain c' s' x' where run: "recover_purge_rsb env gn r c s = Some (c', s')"
      and p: "purged s r x (dead_in env gn s (rsb_queues x)) s'" and x': "ls_rsbs s' r = Some x'"
      and f: "dead_in env gn s (rsb_queues x) \<noteq> {} \<longrightarrow> rsb_flag x' RSB_RECOVER_GRANT"
      using recover_purge_rsb_master [OF ok x(1,2) env True] by blast
    let ?q = "rsb_queues x"
    have qs: "set (res_grantqueue x) \<subseteq> set ?q" "set (res_convertqueue x) \<subseteq> set ?q"
      "set (res_waitqueue x) \<subseteq> set ?q" by (auto simp: rsb_queues_def)
    have f': "(\<exists>k\<in>set ?q. departed env gn s k) \<longrightarrow> rsb_flag x' RSB_RECOVER_GRANT"
      using f by (auto simp: dead_in_def)
    from p obtain y where y: "ls_rsbs s' = (ls_rsbs s)(r \<mapsto> y)" "master_ok s' r"
        "res_grantqueue y = filter (\<lambda>k. k \<notin> dead_in env gn s ?q) (res_grantqueue x)"
        "res_convertqueue y = filter (\<lambda>k. k \<notin> dead_in env gn s ?q) (res_convertqueue x)"
        "res_waitqueue y = filter (\<lambda>k. k \<notin> dead_in env gn s ?q) (res_waitqueue x)"
      unfolding purged_def by blast
    have "x' = y" using y(1) x' by simp
    then have "purge_done env gn s s' r" unfolding purge_done_def
      using x x' f' True y(2-5) filter_not_dead [OF qs(1)] filter_not_dead [OF qs(2)] filter_not_dead [OF qs(3)]
      by simp
    moreover have "ls_rsbs s' r2 = Some x2" if "r2 \<noteq> r" "ls_rsbs s r2 = Some x2" for r2 x2
      using p that by (auto simp: purged_def)
    ultimately show ?thesis using run purged_other [OF ok x(1) p] by blast
  next
    case False
    with recover_purge_rsb_other [OF x(1) env False] x show ?thesis
      by (auto simp: purge_done_def)
  qed
qed

lemma recover_purge_list_done:
  assumes "distinct rs" and "\<forall>r\<in>set rs. purgeable s r" and env: "master_env env"
  shows "\<exists>c' s'. recover_purge_list env gn rs c s = Some (c', s') \<and> (\<forall>r\<in>set rs. purge_done env gn s s' r) \<and>
    (\<forall>r2 x2. r2 \<notin> set rs \<and> ls_rsbs s r2 = Some x2 \<longrightarrow> ls_rsbs s' r2 = Some x2 \<and>
       (master_ok s r2 \<longrightarrow> master_ok s' r2))"
  using assms(1,2)
proof (induction rs arbitrary: c s)
  case Nil
  then show ?case by simp
next
  case (Cons r rs)
  obtain c1 s1 where 1: "recover_purge_rsb env gn r c s = Some (c1, s1)" "purge_done env gn s s1 r"
    "\<And>r2 x2. r2 \<noteq> r \<Longrightarrow> ls_rsbs s r2 = Some x2 \<Longrightarrow> ls_rsbs s1 r2 = Some x2 \<and>
       (master_ok s r2 \<longrightarrow> master_ok s1 r2 \<and>
          dead_in env gn s1 (rsb_queues x2) = dead_in env gn s (rsb_queues x2))"
    using recover_purge_rsb_done [OF _ env, of s r gn c] Cons.prems(2) by auto
  have rs: "r \<notin> set rs" "distinct rs" using Cons.prems(1) by simp_all
  have pg: "purgeable s1 r2" if "r2 \<in> set rs" for r2
  proof -
    have "purgeable s r2" "r2 \<noteq> r" using Cons.prems(2) that rs(1) by auto
    with 1(3) [of r2] show ?thesis by (auto simp: purgeable_def)
  qed
  obtain c2 s2 where 2: "recover_purge_list env gn rs c1 s1 = Some (c2, s2)"
    "\<forall>r\<in>set rs. purge_done env gn s1 s2 r"
    "\<And>r2 x2. r2 \<notin> set rs \<Longrightarrow> ls_rsbs s1 r2 = Some x2 \<Longrightarrow> ls_rsbs s2 r2 = Some x2 \<and>
       (master_ok s1 r2 \<longrightarrow> master_ok s2 r2)" using Cons.IH [OF rs(2), of s1 c1] pg by blast
  have "purge_done env gn s s2 r2" if "r2 \<in> set rs" for r2
  proof (rule purge_done_cong)
    show "purge_done env gn s1 s2 r2" using 2(2) that by blast
    have r2: "purgeable s r2" "r2 \<noteq> r" using Cons.prems(2) that rs(1) by auto
    then show "ls_rsbs s1 r2 = ls_rsbs s r2" using 1(3) [of r2] by (auto simp: purgeable_def)
    show "dead_in env gn s1 (rsb_queues x) = dead_in env gn s (rsb_queues x)"
      if "ls_rsbs s r2 = Some x" "res_nodeid x = 0" for x
      using r2 1(3) [of r2 x] that by (auto simp: purgeable_def)
  qed
  moreover have "purge_done env gn s s2 r" using 1(2) 2(3) [OF rs(1)]
    unfolding purge_done_def by (auto split: if_splits)
  moreover have "ls_rsbs s2 r2 = Some x2 \<and> (master_ok s r2 \<longrightarrow> master_ok s2 r2)"
    if "r2 \<notin> set (r # rs)" "ls_rsbs s r2 = Some x2" for r2 x2
    using that 1(3) [of r2 x2] 2(3) [of r2 x2] by auto
  ultimately show ?case using 1(1) 2(1) by auto
qed

text \<open>C38: the purge of a recovery returns. On every resource of the root list that is mastered here
  it takes exactly the master copies of departed nodes off the queues, the order of the others
  unchanged, keeps the invariant, and marks the resource for granting if there were any; other
  resources it leaves alone.\<close>

theorem dlm_recover_purge_correct:
  assumes "master_env env" and "ls_nodes_gone s \<noteq> []" and "distinct (ls_root_list s)"
    and "\<forall>r\<in>set (ls_root_list s). purgeable s r"
  shows "\<exists>s'. dlm_recover_purge env s = Some s' \<and>
    (\<forall>r\<in>set (ls_root_list s). purge_done env (last (ls_nodes_gone s)) s s' r)"
  using recover_purge_list_done [OF assms(3,4,1), of "last (ls_nodes_gone s)" 0] assms(2)
  by (auto simp: dlm_recover_purge_def)

text \<open>Node 2 has left; its lock 1 is the first of two granted locks.\<close>

definition purge_lkb1 :: dlm_lkb where "purge_lkb1 = set_iflag DLM_IFL_MSTCPY_BIT (lkb1\<lparr>lkb_nodeid := 2\<rparr>)"

definition purge_ls :: dlm_ls where
  "purge_ls = (ls_of [1 \<mapsto> purge_lkb1, 2 \<mapsto> lkb2] [0 \<mapsto> rsb0])\<lparr>ls_nodes_gone := [2], ls_root_list := [0]\<rparr>"

lemma purge_ls_fields:
  "ls_lkbidr purge_ls = [1 \<mapsto> purge_lkb1, 2 \<mapsto> lkb2]" "ls_rsbs purge_ls = [0 \<mapsto> rsb0]"
  "ls_nodes_gone purge_ls = [2]" "ls_root_list purge_ls = [0]"
  by (simp_all add: purge_ls_def ls_of_def)

lemma purge_ls_ok: "master_ok purge_ls 0"
proof -
  have "queues_ok purge_ls 0 rsb0"
    by (auto simp: queues_ok_def rsb_queues_def on_queue_def queued_ok_def lkb_wf_def modes_ok_def
        purge_ls_fields purge_lkb1_def sample_defs has_flag_def set_iflag_def split: if_splits)
  then show ?thesis
    by (simp add: master_ok_def modes.consistent_def holders_def pairwise_on_def gr_mode_def matrix_simps
        purge_ls_fields)
      (simp add: purge_lkb1_def sample_defs set_iflag_def)
qed

lemma purge_ls_purgeable: "purgeable purge_ls 0"
  using purge_ls_ok by (simp add: purgeable_def purge_ls_fields) (simp add: sample_defs rsb_queues_def)

lemma env0_master: "master_env env0"
  by (simp add: master_env_def env0_def)

lemma purge_departed: "departed env0 2 purge_ls k \<longleftrightarrow> k = 1"
  by (simp add: departed_def purge_ls_fields purge_lkb1_def is_master_copy_def env0_def set_iflag_def iflag_def
      sample_defs)

theorem dlm_recover_purge_correct_witness:
  "\<exists>s' x'. dlm_recover_purge env0 purge_ls = Some s' \<and> ls_rsbs s' 0 = Some x' \<and>
    res_grantqueue x' = [2] \<and> rsb_flag x' RSB_RECOVER_GRANT \<and> master_ok s' 0"
proof -
  have "purge_done env0 2 purge_ls s' 0 \<Longrightarrow> \<exists>x'. ls_rsbs s' 0 = Some x' \<and>
    res_grantqueue x' = [2] \<and> rsb_flag x' RSB_RECOVER_GRANT \<and> master_ok s' 0" for s'
    by (auto simp: purge_done_def purge_ls_fields purge_departed) (simp_all add: sample_defs rsb_queues_def purge_departed)
  then show ?thesis
    using dlm_recover_purge_correct [of env0 purge_ls] purge_ls_purgeable env0_master
    by (auto simp: purge_ls_fields)
qed

section \<open>Locks sent to a new master\<close>

text \<open>The locks that a node knows by the id \<open>remid\<close>.\<close>

definition copy_of :: "dlm_ls \<Rightarrow> int \<Rightarrow> u32 \<Rightarrow> lkid \<Rightarrow> bool" where
  "copy_of s nodeid remid k = (case ls_lkbidr s k of None \<Rightarrow> False
     | Some l \<Rightarrow> lkb_nodeid l = nodeid \<and> lkb_remid l = remid)"

lemma search_remid_list_none:
  assumes "\<forall>k\<in>set q. ls_lkbidr s k \<noteq> None"
  shows "search_remid_list q n m s = Some None \<longleftrightarrow> (\<forall>k\<in>set q. \<not> copy_of s n m k)"
  using assms by (induction q) (auto simp: copy_of_def split: if_splits option.splits)

lemma search_remid_list_only:
  assumes "\<forall>k\<in>set q. ls_lkbidr s k \<noteq> None" and "k \<in> set q" and "copy_of s n m k"
    and "\<forall>j\<in>set q. j \<noteq> k \<longrightarrow> \<not> copy_of s n m j"
  shows "search_remid_list q n m s = Some (Some k)"
  using assms by (induction q) (auto simp: copy_of_def)

lemma search_remid_list_total:
  assumes "\<forall>k\<in>set q. ls_lkbidr s k \<noteq> None"
  shows "\<exists>v. search_remid_list q n m s = Some v"
  using assms by (induction q) auto

lemma search_remid_none:
  assumes x: "ls_rsbs s r = Some x" and t: "\<forall>k\<in>set (rsb_queues x). ls_lkbidr s k \<noteq> None"
    and no: "search_remid r n m s = Some None"
  shows "\<forall>k\<in>set (rsb_queues x). \<not> copy_of s n m k"
  using no search_remid_list_none [of "res_grantqueue x" s n m] search_remid_list_none [of "res_convertqueue x" s n m]
    search_remid_list_none [of "res_waitqueue x" s n m] t
  by (auto simp: search_remid_def x rsb_queues_def Option.bind_eq_Some_conv split: if_splits)

lemma search_remid_only:
  assumes x: "ls_rsbs s r = Some x" and t: "\<forall>k\<in>set (rsb_queues x). ls_lkbidr s k \<noteq> None"
    and k: "k \<in> set (rsb_queues x)" "copy_of s n m k"
    and o: "\<forall>j\<in>set (rsb_queues x). j \<noteq> k \<longrightarrow> \<not> copy_of s n m j"
  shows "search_remid r n m s = Some (Some k)"
proof -
  have one: "search_remid_list q n m s = Some (if k \<in> set q then Some k else None)"
    if "set q \<subseteq> set (rsb_queues x)" for q
  proof (cases "k \<in> set q")
    case True
    then show ?thesis using search_remid_list_only [of q s k n m] that t k o by (auto simp: subset_iff)
  next
    case False
    then have "\<forall>j\<in>set q. \<not> copy_of s n m j" using that o by (metis subsetD)
    then show ?thesis using search_remid_list_none [of q s n m] that t False by (auto simp: subset_iff)
  qed
  have "set (res_grantqueue x) \<subseteq> set (rsb_queues x)" "set (res_convertqueue x) \<subseteq> set (rsb_queues x)"
    "set (res_waitqueue x) \<subseteq> set (rsb_queues x)" by (auto simp: rsb_queues_def)
  from this [THEN one] show ?thesis using k(1) by (auto simp: search_remid_def x rsb_queues_def)
qed

text \<open>What the message fills in: the rest of the lock, and the queues, stay.\<close>

definition filled :: "dlm_rcom \<Rightarrow> dlm_lkb \<Rightarrow> dlm_lkb \<Rightarrow> bool" where
  "filled rc l l' \<longleftrightarrow> lkb_id l' = lkb_id l \<and> lkb_status l' = lkb_status l \<and> lkb_ref l' = lkb_ref l \<and>
     lkb_resource l' = lkb_resource l \<and> lkb_nodeid l' = s32 (rc_h_nodeid rc) \<and>
     lkb_remid l' = rl_lkid (rc_buf rc) \<and> is_master_copy l'"

lemma filled_rcom_fields: "filled rc l (rcom_fields env rc l)"
  by (simp add: filled_def rcom_fields_def Let_def set_iflag_def dlm_set_dflags_val_def is_master_copy_def
      iflag_def bit_set_bit_iff)

lemma filled_lvb: "filled rc l (l'\<lparr>lkb_lvbptr := p\<rparr>) = filled rc l l'"
  and filled_gr: "filled rc l (l'\<lparr>lkb_grmode := m\<rparr>) = filled rc l l'"
  by (simp_all add: filled_def is_master_copy_def iflag_def)

lemma rcom_lvb_spec:
  assumes l: "ls_lkbidr s k = Some l" and f: "filled rc l0 l"
    and len: "has_flag (rl_exflags (rc_buf rc)) DLM_LKF_VALBLK \<longrightarrow> sizeof_rcom_lock \<le> uint (rc_h_length rc)"
  shows "\<exists>e s' l'. rcom_lvb env k rc s = Some (e, s') \<and> ls_lkbidr s' = (ls_lkbidr s)(k \<mapsto> l') \<and>
    filled rc l0 l' \<and> ls_rsbs s' = ls_rsbs s"
proof -
  have "(ls_lkbidr s)(k \<mapsto> l) = ls_lkbidr s" using l by (auto simp: fun_upd_idem)
  then show ?thesis using l f len
    by (cases "allocate_lvb env (ls_tick s)";
      cases "int (ls_lvblen s) < uint (rc_h_length rc) - sizeof_rcom_lock";
      cases "has_flag (rl_exflags (rc_buf rc)) DLM_LKF_VALBLK";
      simp add: rcom_lvb_def dlm_allocate_lvb_def copy_lvb_def dlm_assert_def;
      metis filled_lvb)
qed

lemma receive_rcom_lock_args_spec:
  assumes l: "ls_lkbidr s k = Some l" and x: "ls_rsbs s r = Some x"
    and len: "has_flag (rl_exflags (rc_buf rc)) DLM_LKF_VALBLK \<longrightarrow> sizeof_rcom_lock \<le> uint (rc_h_length rc)"
  shows "\<exists>e st s' l'. receive_rcom_lock_args env k r rc s = Some (e, st, s') \<and>
    ls_lkbidr s' = (ls_lkbidr s)(k \<mapsto> l') \<and> filled rc l l' \<and>
    (e \<noteq> 0 \<longrightarrow> ls_rsbs s' = ls_rsbs s) \<and>
    (ls_rsbs s' = ls_rsbs s \<or> ls_rsbs s' = (ls_rsbs s)(r \<mapsto> rsb_set_flag RSB_RECOVER_CONVERT x)) \<and>
    (st = rl_status (rc_buf rc) \<or> st = word_of_int DLM_LKSTS_CONVERT)"
proof -
  let ?s = "s\<lparr>ls_lkbidr := (ls_lkbidr s)(k \<mapsto> rcom_fields env rc l)\<rparr>"
  obtain e s' l' where v: "rcom_lvb env k rc ?s = Some (e, s')"
    "ls_lkbidr s' = (ls_lkbidr s)(k \<mapsto> l')" "filled rc l l'" "ls_rsbs s' = ls_rsbs s"
    using rcom_lvb_spec [OF _ filled_rcom_fields len, of ?s k env l env] by auto
  show ?thesis
  proof (cases "e = 0 \<and> rl_wait_type (rc_buf rc) = word_of_int DLM_MSG_CONVERT \<and> middle_conversion l'")
    case True
    then show ?thesis using l x v filled_gr [of rc l DLM_LOCK_IV l']
      by (simp add: receive_rcom_lock_args_def) blast
  next
    case False
    then show ?thesis using l x v by (auto simp: receive_rcom_lock_args_def Let_def)
  qed
qed

lemma placed_queues:
  assumes "placed k st x x'" and "st \<in> {DLM_LKSTS_WAITING, DLM_LKSTS_GRANTED, DLM_LKSTS_CONVERT}"
  shows "set (rsb_queues x') = insert k (set (rsb_queues x))"
  using assms by (auto simp: placed_def rsb_queues_def)

lemma created_lkb:
  assumes "idr_fresh env" and "allocate_lkb env (ls_tick s)"
    and "0 \<le> idr_alloc env (\<lambda>k. ls_lkbidr s k \<noteq> None) 1 0 (ls_tick s)"
  shows "\<exists>k l. ls_lkbidr s k = None \<and> lkb_id l = k \<and> lkb_status l = 0 \<and> lkb_ref l = 1 \<and>
    lkb_resource l = None \<and>
    create_lkb env s = (0, Some k, s\<lparr>ls_tick := ls_tick s + 1, ls_lkbidr := (ls_lkbidr s)(k \<mapsto> l)\<rparr>)"
proof -
  let ?k = "to32 (idr_alloc env (\<lambda>k. ls_lkbidr s k \<noteq> None) 1 0 (ls_tick s))"
  have "ls_lkbidr s ?k = None" using assms(1,3) unfolding idr_fresh_def by blast
  then show ?thesis using assms(2,3)
    by (intro exI [of _ ?k] exI) (auto simp: create_lkb_def us_create_lkb_def Let_def zero_lkb_def)
qed

lemma status_convert: "sint (word_of_int DLM_LKSTS_CONVERT :: u8) = DLM_LKSTS_CONVERT"
  by simp

text \<open>C39: a node sends a lock that the new master does not have. Either an error is returned, and the
  queues are as they were, or the lock is on one of them under the id that is returned; a search for
  it finds it, so that the same message, sent again, is answered \<open>-EEXIST\<close> with this id.\<close>

theorem recover_new_copy_found:
  assumes x: "ls_rsbs s r = Some x" and d: "distinct (rsb_queues x)"
    and t: "\<forall>k\<in>set (rsb_queues x). ls_lkbidr s k \<noteq> None" and env: "idr_fresh env"
    and st: "sint (rl_status (rc_buf rc)) \<in> {DLM_LKSTS_WAITING, DLM_LKSTS_GRANTED, DLM_LKSTS_CONVERT}"
    and len: "has_flag (rl_exflags (rc_buf rc)) DLM_LKF_VALBLK \<longrightarrow> sizeof_rcom_lock \<le> uint (rc_h_length rc)"
    and no: "search_remid r (s32 (rc_h_nodeid rc)) (rl_lkid (rc_buf rc)) s = Some None"
  shows "\<exists>e remid s'. recover_new_copy env r rc s = Some (e, remid, s') \<and>
    (if e = 0 then ls_lkbidr s remid = None \<and>
       search_remid r (s32 (rc_h_nodeid rc)) (rl_lkid (rc_buf rc)) s' = Some (Some remid)
     else ls_lkbidr s' = ls_lkbidr s \<and> ls_rsbs s' = ls_rsbs s)"
proof (cases "allocate_lkb env (ls_tick s) \<and>
    0 \<le> idr_alloc env (\<lambda>k. ls_lkbidr s k \<noteq> None) 1 0 (ls_tick s)")
  case False
  then show ?thesis by (auto simp: recover_new_copy_def create_lkb_def us_create_lkb_def Let_def)
next
  case True
  let ?n = "s32 (rc_h_nodeid rc)" and ?m = "rl_lkid (rc_buf rc)"
  obtain k l where new: "ls_lkbidr s k = None" and l: "lkb_id l = k" "lkb_status l = 0" "lkb_ref l = 1"
      "lkb_resource l = None"
    and c: "create_lkb env s = (0, Some k, s\<lparr>ls_tick := ls_tick s + 1, ls_lkbidr := (ls_lkbidr s)(k \<mapsto> l)\<rparr>)"
    using created_lkb [OF env] True by blast
  let ?s = "s\<lparr>ls_tick := ls_tick s + 1, ls_lkbidr := (ls_lkbidr s)(k \<mapsto> l)\<rparr>"
  obtain e st1 s1 l1 where a: "receive_rcom_lock_args env k r rc ?s = Some (e, st1, s1)"
    "ls_lkbidr s1 = (ls_lkbidr s)(k \<mapsto> l1)" "filled rc l l1" "e \<noteq> 0 \<longrightarrow> ls_rsbs s1 = ls_rsbs s"
    "ls_rsbs s1 = ls_rsbs s \<or> ls_rsbs s1 = (ls_rsbs s)(r \<mapsto> rsb_set_flag RSB_RECOVER_CONVERT x)"
    "st1 = rl_status (rc_buf rc) \<or> st1 = word_of_int DLM_LKSTS_CONVERT"
    using receive_rcom_lock_args_spec [OF _ _ len, of ?s k l r x env] x by auto
  note l1 = a(3) [unfolded filled_def l]
  show ?thesis
  proof (cases "e = 0")
    case False
    then show ?thesis using a(1,2,4) l1 new
      by (simp add: recover_new_copy_def c us_put_lkb_def kref_put_lkb_def kill_lkb_def detach_lkb_def
          dlm_assert_def fun_upd_idem)
  next
    case True
    obtain x1 where x1: "ls_rsbs s1 r = Some x1" "rsb_queues x1 = rsb_queues x"
      "res_grantqueue x1 = res_grantqueue x" using a(5) x by auto
    let ?l2 = "l1\<lparr>lkb_resource := Some r\<rparr>" and ?x1 = "x1\<lparr>res_ref := res_ref x1 + 1\<rparr>"
    let ?s2 = "s1\<lparr>ls_rsbs := (ls_rsbs s1)(r \<mapsto> ?x1), ls_lkbidr := (ls_lkbidr s1)(k \<mapsto> ?l2)\<rparr>"
    have at: "attach_lkb r k s1 = Some ?s2"
      using x1(1) a(2) by (simp add: attach_lkb_def hold_rsb_def kref_get_rsb_def)
    have nk: "k \<notin> set (rsb_queues x)" using t new by blast
    have st1: "sint st1 \<in> {DLM_LKSTS_WAITING, DLM_LKSTS_GRANTED, DLM_LKSTS_CONVERT}"
      using a(6) st status_convert by auto
    have "\<forall>j\<in>set (res_grantqueue ?x1). ls_lkbidr ?s2 j \<noteq> None"
      using t a(2) x1(3) by (auto simp: rsb_queues_def)
    then obtain s3 x3 where ad: "add_lkb env r k (sint st1) ?s2 = Some s3"
      "ls_lkbidr s3 = (ls_lkbidr ?s2)(k \<mapsto> ?l2\<lparr>lkb_ref := lkb_ref ?l2 + 1, lkb_timestamp := ktime env,
         lkb_status := sint st1\<rparr>)"
      "ls_rsbs s3 = (ls_rsbs ?s2)(r \<mapsto> x3)" "placed k (sint st1) ?x1 x3"
      using add_lkb_spec [of ?s2 k ?l2 r ?x1 "sint st1" env] l1 st1 d nk x1(2) by auto
    let ?g = "res_waitqueue x3 \<noteq> [] \<or> res_convertqueue x3 \<noteq> []"
    define l3 where "l3 = ?l2\<lparr>lkb_ref := lkb_ref ?l2 + 1, lkb_timestamp := ktime env, lkb_status := sint st1,
      lkb_recover_seq := ls_recover_seq s3\<rparr>"
    have l3: "lkb_nodeid l3 = ?n" "lkb_remid l3 = ?m" using l1 by (simp_all add: l3_def)
    have "\<exists>s' x'. recover_new_copy env r rc s = Some (0, k, s') \<and>
        ls_lkbidr s' = (ls_lkbidr s)(k \<mapsto> l3) \<and>
        ls_rsbs s' r = Some x' \<and> rsb_queues x' = rsb_queues x3"
      using ad(1-3) a(1,2) l1 at c True
      by (cases ?g) (simp_all add: recover_new_copy_def recover_remid_def l3_def)
    then obtain s' x' where f: "recover_new_copy env r rc s = Some (0, k, s')"
      "ls_lkbidr s' = (ls_lkbidr s)(k \<mapsto> l3)" "ls_rsbs s' r = Some x'" "rsb_queues x' = rsb_queues x3"
      by blast
    have q: "set (rsb_queues x') = insert k (set (rsb_queues x))"
      using placed_queues [OF ad(4) st1] x1(2) nk f(4) by simp
    have "search_remid r ?n ?m s' = Some (Some k)"
    proof (rule search_remid_only [OF f(3)])
      show "\<forall>j\<in>set (rsb_queues x'). ls_lkbidr s' j \<noteq> None" using q t f(2) by auto
      show "k \<in> set (rsb_queues x')" "copy_of s' ?n ?m k" using q f(2) l3 by (simp_all add: copy_of_def)
      show "\<forall>j\<in>set (rsb_queues x'). j \<noteq> k \<longrightarrow> \<not> copy_of s' ?n ?m j"
        using search_remid_none [OF x t no] q f(2) by (auto simp: copy_of_def)
    qed
    then show ?thesis using f(1) new by simp
  qed
qed

text \<open>Node 2 sends the resource at 0, which has two locks, a waiting lock it knows as 5.\<close>

definition rcom0 :: dlm_rcom where
  "rcom0 = \<lparr>rc_h_nodeid = 2, rc_h_length = 156,
     rc_buf = \<lparr>rl_ownpid = 0, rl_lkid = 5, rl_remid = 0, rl_parent_lkid = 0, rl_parent_remid = 0, rl_exflags = 0, rl_flags = 0,
       rl_lvbseq = 0, rl_result = 0, rl_rqmode = 5, rl_grmode = -1, rl_status = 1, rl_asts = 1,
       rl_wait_type = 0, rl_namelen = 5, rl_name = [], rl_lvb = []\<rparr>\<rparr>"

lemma env0_fresh: "idr_fresh env0"
  using env0_ok by (simp add: env_ok_def)

theorem recover_new_copy_found_witness:
  "\<exists>e remid s'. recover_new_copy env0 0 rcom0 ls0 = Some (e, remid, s') \<and>
    (if e = 0 then ls_lkbidr ls0 remid = None \<and> search_remid 0 2 5 s' = Some (Some remid)
     else ls_lkbidr s' = ls_lkbidr ls0 \<and> ls_rsbs s' = ls_rsbs ls0)"
proof -
  have n: "s32 (rc_h_nodeid rcom0) = 2" "rl_lkid (rc_buf rcom0) = 5" by (simp_all add: rcom0_def s32_def)
  have no: "search_remid 0 2 5 ls0 = Some None"
    by (simp add: search_remid_def) (simp add: sample_defs)
  have q: "rsb_queues rsb0 = [1, 2]" by (simp add: sample_defs rsb_queues_def)
  show ?thesis unfolding n [symmetric]
    by (rule recover_new_copy_found [of _ _ rsb0]) (use no n q env0_fresh in \<open>auto simp: rcom0_def has_flag_def\<close>)
qed

section \<open>A notification under way when a node leaves\<close>




end
