(* ===== verification/User.thy ===== *)
theory User
  imports Receive
begin

text \<open>
  The locks of user processes (\<open>dlm_user_request\<close> and its siblings), the locks left behind when a
  process ends (\<open>dlm_clear_proc_locks\<close>, \<open>dlm_user_adopt_orphan\<close>, \<open>dlm_user_purge\<close>), and the debugfs
  entry points. A lock's \<open>lkb_astparam\<close> is the address of its \<open>dlm_user_args\<close> (a union in the C
  code). \<open>dlm_free_lkb\<close> (\<open>memory.c\<close>) and \<open>dlm_purge_lkb_callbacks\<close> (\<open>ast.c\<close>) change no state of
  \<open>lock.c\<close>: they free the arguments and drop the callbacks that were queued.
\<close>

abbreviation (input) DLM_USER_LVB_LEN :: nat where "DLM_USER_LVB_LEN \<equiv> 32"

section \<open>Memory of processes\<close>

definition upd_ua :: "uap \<Rightarrow> (dlm_user_args \<Rightarrow> dlm_user_args) \<Rightarrow> dlm_ls \<Rightarrow> dlm_ls option" where
  "upd_ua u f s = do {
     a \<leftarrow> ls_uas s u;
     Some (s\<lparr>ls_uas := (ls_uas s)(u \<mapsto> f a)\<rparr>)
   }"

definition upd_proc :: "procp \<Rightarrow> (dlm_user_proc \<Rightarrow> dlm_user_proc) \<Rightarrow> dlm_ls \<Rightarrow> dlm_ls option" where
  "upd_proc p f s = do {
     a \<leftarrow> ls_procs s p;
     Some (s\<lparr>ls_procs := (ls_procs s)(p \<mapsto> f a)\<rparr>)
   }"

definition kfree_ua :: "uap \<Rightarrow> dlm_ls \<Rightarrow> dlm_ls" where
  "kfree_ua u s = s\<lparr>ls_uas := (ls_uas s)(u := None)\<rparr>"

definition set_lvbptr :: "lksbp \<Rightarrow> bufp option \<Rightarrow> dlm_ls \<Rightarrow> dlm_ls" where
  "set_lvbptr p b s = s\<lparr>ls_lksbs := (ls_lksbs s)(p := (ls_lksbs s p)\<lparr>sb_lvbptr := b\<rparr>)\<rparr>"

text \<open>\<open>ua->lksb.sb_lvbptr = kzalloc(DLM_USER_LVB_LEN)\<close>: whether it succeeded.\<close>

definition alloc_user_lvb :: "dlm_env \<Rightarrow> lksbp \<Rightarrow> dlm_ls \<Rightarrow> bool \<times> dlm_ls" where
  "alloc_user_lvb env p s = (
     let b = kmalloc env (ls_tick s); s = set_lvbptr p b (s\<lparr>ls_tick := ls_tick s + 1\<rparr>)
     in case b of None \<Rightarrow> (False, s)
        | Some b \<Rightarrow> (True, s\<lparr>ls_lvbs := (ls_lvbs s)(b := replicate DLM_USER_LVB_LEN 0)\<rparr>))"

text \<open>\<open>if (lvb_in && ua->lksb.sb_lvbptr) memcpy(...)\<close>.\<close>

definition copy_user_lvb :: "lksbp \<Rightarrow> u8 list option \<Rightarrow> dlm_ls \<Rightarrow> dlm_ls" where
  "copy_user_lvb p lvb_in s = (case (lvb_in, sb_lvbptr (ls_lksbs s p)) of
     (Some src, Some b) \<Rightarrow> copy_lvb b src DLM_USER_LVB_LEN s
   | _ \<Rightarrow> s)"

section \<open>The calls of a process\<close>

definition dlm_user_request ::
  "dlm_env \<Rightarrow> uap \<Rightarrow> int \<Rightarrow> u32 \<Rightarrow> u8 list \<Rightarrow> nat \<Rightarrow> dlm_ls \<Rightarrow> (int \<times> dlm_ls) option" where
  "dlm_user_request env ua mode flags name namelen s = (
     case create_lkb env s of (error, lkb, s) \<Rightarrow>
     if error \<noteq> 0 then Some (error, kfree_ua ua s)
     else do {
       lkb \<leftarrow> lkb;
       a \<leftarrow> ls_uas s ua;
       let (ok, s) = (if has_flag flags DLM_LKF_VALBLK then alloc_user_lvb env (ua_lksb a) s else (True, s));
       (error, queued, s) \<leftarrow> (
         if \<not> ok then Some (-ENOMEM, False, kfree_ua ua s)
         else do {
           let (error, args) = set_lock_args mode (Some (ua_lksb a)) flags namelen
                                 (Some (fake_astfn env)) ua (Some (fake_bastfn env)) s;
           if error \<noteq> 0 then Some (error, False, kfree_ua ua (set_lvbptr (ua_lksb a) None s))
           else do {
             s \<leftarrow> upd_lkb lkb (\<lambda>l. l\<lparr>lkb_dflags := set_bit DLM_DFL_USER_BIT (lkb_dflags l)\<rparr>) s;
             (error, s) \<leftarrow> request_lock env lkb name namelen args s;
             Some (if error = -EINPROGRESS \<or> error = -EAGAIN then 0 else error,
                   error = 0 \<or> error = -EINPROGRESS, s)
           }
         });
       s \<leftarrow> (if queued then do {
              s \<leftarrow> hold_lkb lkb s;
              upd_proc (ua_proc a) (\<lambda>p. p\<lparr>proc_locks := proc_locks p @ [lkb]\<rparr>) s
            }
            else map_option snd (us_put_lkb env lkb s));
       Some (error, s)
     })"

text \<open>What a process may change when it converts or adopts a lock.\<close>

definition copy_user_args :: "dlm_user_args \<Rightarrow> dlm_user_args \<Rightarrow> dlm_user_args" where
  "copy_user_args t a = a\<lparr>ua_user_lksb := ua_user_lksb t, ua_castparam := ua_castparam t,
     ua_castaddr := ua_castaddr t, ua_bastparam := ua_bastparam t, ua_bastaddr := ua_bastaddr t,
     ua_xid := ua_xid t\<rparr>"

definition dlm_user_convert ::
  "dlm_env \<Rightarrow> uap \<Rightarrow> int \<Rightarrow> u32 \<Rightarrow> lkid \<Rightarrow> u8 list option \<Rightarrow> dlm_ls \<Rightarrow> (int \<times> dlm_ls) option" where
  "dlm_user_convert env ua_tmp mode flags lkid lvb_in s = do {
     (error, s) \<leftarrow> (case find_lkb lkid s of
         None \<Rightarrow> Some (-ENOENT, s)
       | Some s \<Rightarrow> do {
           l \<leftarrow> ls_lkbidr s lkid;
           let ua = lkb_astparam l;
           a \<leftarrow> ls_uas s ua;
           let (ok, s) = (if has_flag flags DLM_LKF_VALBLK \<and> sb_lvbptr (ls_lksbs s (ua_lksb a)) = None
                          then alloc_user_lvb env (ua_lksb a) s else (True, s));
           (error, s) \<leftarrow> (
             if \<not> ok then Some (-ENOMEM, s)
             else do {
               let s = copy_user_lvb (ua_lksb a) lvb_in s;
               t \<leftarrow> ls_uas s ua_tmp;
               s \<leftarrow> upd_ua ua (copy_user_args t) s;
               let (error, args) = set_lock_args mode (Some (ua_lksb a)) flags 0
                                     (Some (fake_astfn env)) ua (Some (fake_bastfn env)) s;
               if error \<noteq> 0 then Some (error, s)
               else do {
                 (error, s) \<leftarrow> convert_lock env lkid args s;
                 Some (if error \<in> {-EINPROGRESS, -EAGAIN, -EDEADLK} then 0 else error, s)
               }
             });
           (_, s) \<leftarrow> dlm_put_lkb env lkid s;
           Some (error, s)
         });
     Some (error, kfree_ua ua_tmp s)
   }"

text \<open>The search of the orphans list: the lock found, and whether one has the name but another
  mode.\<close>

fun find_orphan ::
  "int \<Rightarrow> u8 list \<Rightarrow> nat \<Rightarrow> bool \<Rightarrow> lkid list \<Rightarrow> dlm_ls \<Rightarrow> (lkid option \<times> bool) option" where
  "find_orphan mode name namelen other [] s = Some (None, other)"
| "find_orphan mode name namelen other (iter # q) s = do {
     l \<leftarrow> ls_lkbidr s iter;
     r \<leftarrow> lkb_resource l;
     x \<leftarrow> ls_rsbs s r;
     if res_length x \<noteq> namelen then find_orphan mode name namelen other q s
     else if take namelen (res_name x) \<noteq> take namelen name then find_orphan mode name namelen other q s
     else if lkb_grmode l \<noteq> mode then find_orphan mode name namelen True q s
     else Some (Some iter, other)
   }"

text \<open>The error, \<open>*lkid\<close>, and the state.\<close>

definition dlm_user_adopt_orphan ::
  "dlm_env \<Rightarrow> uap \<Rightarrow> int \<Rightarrow> u32 \<Rightarrow> u8 list \<Rightarrow> nat \<Rightarrow> dlm_ls \<Rightarrow> (int \<times> u32 option \<times> dlm_ls) option" where
  "dlm_user_adopt_orphan env ua_tmp mode flags name namelen s = do {
     (lkb, other) \<leftarrow> find_orphan mode name namelen False (ls_orphans s) s;
     (case lkb of
        None \<Rightarrow> Some (if other then -EAGAIN else -ENOENT, None, kfree_ua ua_tmp s)
      | Some lkb \<Rightarrow> do {
          let s = s\<lparr>ls_orphans := remove1 lkb (ls_orphans s)\<rparr>;
          s \<leftarrow> upd_lkb lkb (\<lambda>l. l\<lparr>lkb_dflags := unset_bit DLM_DFL_ORPHAN_BIT (lkb_dflags l)\<rparr>) s;
          s \<leftarrow> upd_lkb lkb (\<lambda>l. l\<lparr>lkb_exflags := flags, lkb_ownpid := current_pid env\<rparr>) s;
          l \<leftarrow> ls_lkbidr s lkb;
          t \<leftarrow> ls_uas s ua_tmp;
          s \<leftarrow> upd_ua (lkb_astparam l) (\<lambda>a. copy_user_args t (a\<lparr>ua_proc := ua_proc t\<rparr>)) s;
          s \<leftarrow> upd_proc (ua_proc t) (\<lambda>p. p\<lparr>proc_locks := proc_locks p @ [lkb]\<rparr>) s;
          Some (0, Some (lkb_id l), kfree_ua ua_tmp s)
        })
   }"

text \<open>\<open>list_move(&lkb->lkb_ownqueue, &ua->proc->unlocking)\<close>, unless the lock is on no list. A lock is on
  the orphans list or on a list of its own process.\<close>

definition move_unlocking :: "procp \<Rightarrow> lkid \<Rightarrow> dlm_ls \<Rightarrow> dlm_ls option" where
  "move_unlocking p lkb s = do {
     a \<leftarrow> ls_procs s p;
     if lkb \<notin> set (proc_locks a) \<and> lkb \<notin> set (proc_unlocking a) \<and> lkb \<notin> set (ls_orphans s) then Some s
     else Some (s\<lparr>ls_orphans := remove1 lkb (ls_orphans s), ls_procs := (ls_procs s)(p \<mapsto>
            a\<lparr>proc_locks := remove1 lkb (proc_locks a),
              proc_unlocking := lkb # remove1 lkb (proc_unlocking a)\<rparr>)\<rparr>)
   }"

text \<open>The frame of \<open>dlm_user_unlock\<close> and \<open>dlm_user_cancel\<close>.\<close>

definition user_call ::
  "dlm_env \<Rightarrow> uap \<Rightarrow> u32 \<Rightarrow> lkid \<Rightarrow> (lksbp \<Rightarrow> dlm_ls \<Rightarrow> dlm_ls) \<Rightarrow>
   (uap \<Rightarrow> dlm_args \<Rightarrow> dlm_ls \<Rightarrow> (int \<times> dlm_ls) option) \<Rightarrow> dlm_ls \<Rightarrow> (int \<times> dlm_ls) option" where
  "user_call env ua_tmp flags lkid copy body s = do {
     (error, s) \<leftarrow> (case find_lkb lkid s of
         None \<Rightarrow> Some (-ENOENT, s)
       | Some s \<Rightarrow> do {
           l \<leftarrow> ls_lkbidr s lkid;
           let ua = lkb_astparam l;
           a \<leftarrow> ls_uas s ua;
           let s = copy (ua_lksb a) s;
           t \<leftarrow> ls_uas s ua_tmp;
           s \<leftarrow> upd_ua ua (\<lambda>a. a\<lparr>ua_user_lksb := ua_user_lksb t,
                  ua_castparam := (if ua_castparam t \<noteq> 0 then ua_castparam t else ua_castparam a)\<rparr>) s;
           let (error, args) = set_unlock_args flags ua;
           (error, s) \<leftarrow> (if error \<noteq> 0 then Some (error, s) else body ua args s);
           (_, s) \<leftarrow> dlm_put_lkb env lkid s;
           Some (error, s)
         });
     Some (error, kfree_ua ua_tmp s)
   }"

definition dlm_user_unlock ::
  "dlm_env \<Rightarrow> uap \<Rightarrow> u32 \<Rightarrow> lkid \<Rightarrow> u8 list option \<Rightarrow> dlm_ls \<Rightarrow> (int \<times> dlm_ls) option" where
  "dlm_user_unlock env ua_tmp flags lkid lvb_in =
     user_call env ua_tmp flags lkid (\<lambda>p. copy_user_lvb p lvb_in) (\<lambda>ua args s. do {
       (error, s) \<leftarrow> unlock_lock env lkid args s;
       let error = (if error = -DLM_EUNLOCK then 0 else error);
       let error = (if error = -EBUSY \<and> has_flag flags DLM_LKF_FORCEUNLOCK then 0 else error);
       if error \<noteq> 0 then Some (error, s)
       else do {
         a \<leftarrow> ls_uas s ua;
         s \<leftarrow> move_unlocking (ua_proc a) lkid s;
         Some (0, s)
       }
     })"

definition dlm_user_cancel ::
  "dlm_env \<Rightarrow> uap \<Rightarrow> u32 \<Rightarrow> lkid \<Rightarrow> dlm_ls \<Rightarrow> (int \<times> dlm_ls) option" where
  "dlm_user_cancel env ua_tmp flags lkid =
     user_call env ua_tmp flags lkid (\<lambda>_ s. s) (\<lambda>ua args s. do {
       (error, s) \<leftarrow> cancel_lock env lkid args s;
       Some (if error = -DLM_ECANCEL \<or> error = -EBUSY then 0 else error, s)
     })"

definition dlm_user_deadlock :: "dlm_env \<Rightarrow> u32 \<Rightarrow> lkid \<Rightarrow> dlm_ls \<Rightarrow> (int \<times> dlm_ls) option" where
  "dlm_user_deadlock env flags lkid s = (case find_lkb lkid s of
       None \<Rightarrow> Some (-ENOENT, s)
     | Some s \<Rightarrow> do {
         l \<leftarrow> ls_lkbidr s lkid;
         let (error, args) = set_unlock_args flags (lkb_astparam l);
         (error, s) \<leftarrow> (if error \<noteq> 0 then Some (error, s)
           else do {
             r \<leftarrow> lkb_resource l;
             s \<leftarrow> hold_rsb r s;
             (error, s) \<leftarrow> validate_unlock_args lkid args s;
             (error, s) \<leftarrow> (if error \<noteq> 0 then Some (error, s)
               else do {
                 s \<leftarrow> upd_lkb lkid (set_iflag DLM_IFL_DEADLOCK_CANCEL_BIT) s;
                 us_cancel_lock env r lkid s
               });
             s \<leftarrow> put_rsb env r s;
             Some (if error = -DLM_ECANCEL \<or> error = -EBUSY then 0 else error, s)
           });
         (_, s) \<leftarrow> dlm_put_lkb env lkid s;
         Some (error, s)
       })"

section \<open>The end of a process\<close>

definition orphan_proc_lock :: "dlm_env \<Rightarrow> lkid \<Rightarrow> dlm_ls \<Rightarrow> (int \<times> dlm_ls) option" where
  "orphan_proc_lock env lkb s = do {
     s \<leftarrow> hold_lkb lkb s;
     let s = s\<lparr>ls_orphans := ls_orphans s @ [lkb]\<rparr>;
     l \<leftarrow> ls_lkbidr s lkb;
     (error, s) \<leftarrow> cancel_lock env lkb (snd (set_unlock_args 0 (lkb_astparam l))) s;
     Some (if error = -DLM_ECANCEL then 0 else error, s)
   }"

definition set_orphan :: "dlm_lkb \<Rightarrow> dlm_lkb" where
  "set_orphan l = l\<lparr>lkb_dflags := set_bit DLM_DFL_ORPHAN_BIT (lkb_dflags l)\<rparr>"

definition del_proc_lock :: "procp \<Rightarrow> dlm_ls \<Rightarrow> (lkid option \<times> dlm_ls) option" where
  "del_proc_lock p s = do {
     a \<leftarrow> ls_procs s p;
     (case proc_locks a of
        [] \<Rightarrow> Some (None, s)
      | lkb # q \<Rightarrow> do {
          s \<leftarrow> upd_proc p (\<lambda>a. a\<lparr>proc_locks := q\<rparr>) s;
          s \<leftarrow> upd_lkb lkb (\<lambda>l. if has_flag (lkb_exflags l) DLM_LKF_PERSISTENT then set_orphan l
                 else set_iflag DLM_IFL_DEAD_BIT l) s;
          Some (Some lkb, s)
        })
   }"

definition clear_locks_step :: "dlm_env \<Rightarrow> procp \<Rightarrow> dlm_ls \<Rightarrow> (dlm_ls, dlm_ls) pass option" where
  "clear_locks_step env p s = do {
     (lkb, s) \<leftarrow> del_proc_lock p s;
     (case lkb of
        None \<Rightarrow> Some (Done s)
      | Some lkb \<Rightarrow> do {
          l \<leftarrow> ls_lkbidr s lkb;
          (_, s) \<leftarrow> (if has_flag (lkb_exflags l) DLM_LKF_PERSISTENT
                   then orphan_proc_lock env lkb s else unlock_proc_lock env lkb s);
          (_, s) \<leftarrow> dlm_put_lkb env lkb s;
          Some (Retry s)
        })
   }"

text \<open>The two \<open>list_for_each_entry_safe\<close> loops over \<open>proc->unlocking\<close> and \<open>proc->asts\<close>.\<close>

fun clear_unlocking :: "dlm_env \<Rightarrow> procp \<Rightarrow> lkid list \<Rightarrow> dlm_ls \<Rightarrow> dlm_ls option" where
  "clear_unlocking env p [] s = Some s"
| "clear_unlocking env p (lkb # q) s = do {
     s \<leftarrow> upd_proc p (\<lambda>a. a\<lparr>proc_unlocking := remove1 lkb (proc_unlocking a)\<rparr>) s;
     s \<leftarrow> upd_lkb lkb (set_iflag DLM_IFL_DEAD_BIT) s;
     (_, s) \<leftarrow> dlm_put_lkb env lkb s;
     clear_unlocking env p q s
   }"

fun clear_asts :: "dlm_env \<Rightarrow> procp \<Rightarrow> lkid list \<Rightarrow> dlm_ls \<Rightarrow> dlm_ls option" where
  "clear_asts env p [] s = Some s"
| "clear_asts env p (lkb # q) s = do {
     s \<leftarrow> upd_proc p (\<lambda>a. a\<lparr>proc_asts := remove1 lkb (proc_asts a)\<rparr>) s;
     (_, s) \<leftarrow> dlm_put_lkb env lkb s;
     clear_asts env p q s
   }"

definition clear_proc_lists :: "dlm_env \<Rightarrow> procp \<Rightarrow> dlm_ls \<Rightarrow> dlm_ls option" where
  "clear_proc_lists env p s = do {
     a \<leftarrow> ls_procs s p;
     s \<leftarrow> clear_unlocking env p (proc_unlocking a) s;
     a \<leftarrow> ls_procs s p;
     clear_asts env p (proc_asts a) s
   }"

definition dlm_clear_proc_locks :: "dlm_env \<Rightarrow> procp \<Rightarrow> dlm_ls \<Rightarrow> dlm_ls option" where
  "dlm_clear_proc_locks env p s = do {
     s \<leftarrow> retry (clear_locks_step env p) s;
     clear_proc_lists env p s
   }"

definition purge_locks_step :: "dlm_env \<Rightarrow> procp \<Rightarrow> dlm_ls \<Rightarrow> (dlm_ls, dlm_ls) pass option" where
  "purge_locks_step env p s = do {
     a \<leftarrow> ls_procs s p;
     (case proc_locks a of
        [] \<Rightarrow> Some (Done s)
      | lkb # q \<Rightarrow> do {
          s \<leftarrow> upd_proc p (\<lambda>a. a\<lparr>proc_locks := q\<rparr>) s;
          s \<leftarrow> upd_lkb lkb (set_iflag DLM_IFL_DEAD_BIT) s;
          (_, s) \<leftarrow> unlock_proc_lock env lkb s;
          (_, s) \<leftarrow> dlm_put_lkb env lkb s;
          Some (Retry s)
        })
   }"

definition purge_proc_locks :: "dlm_env \<Rightarrow> procp \<Rightarrow> dlm_ls \<Rightarrow> dlm_ls option" where
  "purge_proc_locks env p s = do {
     s \<leftarrow> retry (purge_locks_step env p) s;
     clear_proc_lists env p s
   }"

definition send_purge :: "dlm_env \<Rightarrow> int \<Rightarrow> int \<Rightarrow> dlm_ls \<Rightarrow> int \<times> dlm_ls" where
  "send_purge env nodeid pid s = (
     case us_create_message env sizeof_dlm_message DLM_MSG_PURGE s of
       (None, s) \<Rightarrow> (-ENOBUFS, s)
     | (Some ms, s) \<Rightarrow> (0, send_message nodeid (ms\<lparr>m_nodeid := to32 nodeid, m_pid := to32 pid\<rparr>) s))"

definition dlm_user_purge ::
  "dlm_env \<Rightarrow> procp \<Rightarrow> int \<Rightarrow> int \<Rightarrow> dlm_ls \<Rightarrow> (int \<times> dlm_ls) option" where
  "dlm_user_purge env p nodeid pid s =
     (if nodeid \<noteq> 0 \<and> nodeid \<noteq> dlm_our_nodeid env then Some (send_purge env nodeid pid s)
      else map_option (\<lambda>s. (0, s))
        (if pid = current_pid env then purge_proc_locks env p s else do_purge env nodeid pid s))"

section \<open>Debugging entry points\<close>

definition dlm_debug_add_lkb ::
  "dlm_env \<Rightarrow> u32 \<Rightarrow> u8 list \<Rightarrow> nat \<Rightarrow> int \<Rightarrow> u32 \<Rightarrow> int \<Rightarrow> dlm_ls \<Rightarrow> (int \<times> dlm_ls) option" where
  "dlm_debug_add_lkb env id0 name len nodeid dflags status s = (
     if bit dflags DLM_DFL_USER_BIT then Some (-EOPNOTSUPP, s)
     else let lksb = kmalloc env (ls_tick s); s = s\<lparr>ls_tick := ls_tick s + 1\<rparr>
     in case lksb of
          None \<Rightarrow> Some (-ENOMEM, s)
        | Some p \<Rightarrow> (
            let s = s\<lparr>ls_lksbs := (ls_lksbs s)(p := \<lparr>sb_status = 0, sb_lkid = 0, sb_flags = 0, sb_lvbptr = None\<rparr>)\<rparr>
            in case us_create_lkb env (s32 id0) (s32 (id0 + 1)) s of (error, lkb, s) \<Rightarrow>
               if error \<noteq> 0 then Some (error, s)
               else do {
                 lkb \<leftarrow> lkb;
                 s \<leftarrow> upd_lkb lkb (\<lambda>l. (dlm_set_dflags_val dflags l)
                        \<lparr>lkb_nodeid := nodeid, lkb_lksb := Some p, lkb_astparam := 0xDEADBEEF\<rparr>) s;
                 (error, r, s) \<leftarrow> find_rsb env name len 0 R_REQUEST s;
                 if error \<noteq> 0 then do {
                   (_, s) \<leftarrow> us_put_lkb env lkb s;
                   Some (error, s)
                 }
                 else do {
                   r \<leftarrow> r;
                   s \<leftarrow> attach_lkb r lkb s;
                   s \<leftarrow> add_lkb env r lkb status s;
                   s \<leftarrow> put_rsb env r s;
                   Some (0, s)
                 }
               }))"

definition dlm_debug_add_lkb_to_waiters ::
  "dlm_env \<Rightarrow> u32 \<Rightarrow> int \<Rightarrow> int \<Rightarrow> dlm_ls \<Rightarrow> (int \<times> dlm_ls) option" where
  "dlm_debug_add_lkb_to_waiters env id0 mstype to_nodeid s = (case find_lkb id0 s of
       None \<Rightarrow> Some (-ENOENT, s)
     | Some s \<Rightarrow> do {
         (error, s) \<leftarrow> add_to_waiters env id0 mstype to_nodeid s;
         (_, s) \<leftarrow> dlm_put_lkb env id0 s;
         Some (error, s)
       })"

end
