(* ===== verification/User_Properties.thy ===== *)
theory User_Properties
  imports User Sample
begin

text \<open>
  The properties of the locks of user processes: adopting an orphaned lock.
\<close>

section \<open>Adopting an orphan\<close>

text \<open>Lock \<open>k\<close> is on the resource of this name.\<close>

definition orphan_of :: "dlm_ls \<Rightarrow> u8 list \<Rightarrow> nat \<Rightarrow> lkid \<Rightarrow> bool" where
  "orphan_of s name len k \<longleftrightarrow> (\<exists>l r x. ls_lkbidr s k = Some l \<and> lkb_resource l = Some r \<and>
     ls_rsbs s r = Some x \<and> res_length x = len \<and> take len (res_name x) = take len name)"

definition orphan_held :: "dlm_ls \<Rightarrow> int \<Rightarrow> lkid \<Rightarrow> bool" where
  "orphan_held s mode k \<longleftrightarrow> (\<exists>l. ls_lkbidr s k = Some l \<and> lkb_grmode l = mode)"

text \<open>The orphans are locks attached to resources.\<close>

definition orphans_ok :: "dlm_ls \<Rightarrow> bool" where
  "orphans_ok s \<longleftrightarrow> (\<forall>k\<in>set (ls_orphans s). \<exists>l r x. ls_lkbidr s k = Some l \<and> lkb_resource l = Some r \<and>
     ls_rsbs s r = Some x)"

lemma find_orphan_spec:
  assumes "\<forall>k\<in>set q. \<exists>l r x. ls_lkbidr s k = Some l \<and> lkb_resource l = Some r \<and> ls_rsbs s r = Some x"
  shows "find_orphan mode name len other q s =
    Some (find (\<lambda>k. orphan_of s name len k \<and> orphan_held s mode k) q,
      other \<or> (\<exists>k\<in>set (takeWhile (\<lambda>k. \<not> (orphan_of s name len k \<and> orphan_held s mode k)) q). orphan_of s name len k))"
  using assms
proof (induction q arbitrary: other)
  case Nil
  then show ?case by simp
next
  case (Cons k q)
  obtain l r x where k: "ls_lkbidr s k = Some l" "lkb_resource l = Some r" "ls_rsbs s r = Some x"
    using Cons.prems by auto
  let ?A = "orphan_of s name len k" and ?H = "orphan_held s mode k"
  have "?A \<longleftrightarrow> res_length x = len \<and> take len (res_name x) = take len name" "?H \<longleftrightarrow> lkb_grmode l = mode"
    using k by (simp_all add: orphan_of_def orphan_held_def)
  then have step: "find_orphan mode name len other (k # q) s =
      (if \<not> ?A then find_orphan mode name len other q s
       else if \<not> ?H then find_orphan mode name len True q s else Some (Some k, other))"
    using k by simp
  have IH: "find_orphan mode name len o' q s =
    Some (find (\<lambda>k. orphan_of s name len k \<and> orphan_held s mode k) q,
      o' \<or> (\<exists>k\<in>set (takeWhile (\<lambda>k. \<not> (orphan_of s name len k \<and> orphan_held s mode k)) q). orphan_of s name len k))"
    for o' using Cons.IH Cons.prems by simp
  show ?case unfolding step IH by (cases ?A; cases ?H; simp)
qed

text \<open>The first orphan of the name in the requested mode is taken off the orphans list and put
  at the end of the caller's locks, with the caller's flags and owner, its id returned; an orphan
  of the name in other modes only is answered \<open>-EAGAIN\<close>, none \<open>-ENOENT\<close>, with the list as it was.\<close>

theorem dlm_user_adopt_orphan_correct:
  assumes ok: "orphans_ok s" and t: "ls_uas s ua_tmp = Some t" and p: "ls_procs s (ua_proc t) = Some proc"
    and ua: "\<forall>k\<in>set (ls_orphans s). \<forall>l. ls_lkbidr s k = Some l \<longrightarrow> ls_uas s (lkb_astparam l) \<noteq> None"
  shows "\<exists>e lkid s'. dlm_user_adopt_orphan env ua_tmp mode flags name len s = Some (e, lkid, s') \<and>
    (case find (\<lambda>k. orphan_of s name len k \<and> orphan_held s mode k) (ls_orphans s) of
       Some k \<Rightarrow> e = 0 \<and> lkid = map_option lkb_id (ls_lkbidr s k) \<and> ls_orphans s' = remove1 k (ls_orphans s) \<and>
         map_option proc_locks (ls_procs s' (ua_proc t)) = Some (proc_locks proc @ [k]) \<and>
         map_option lkb_exflags (ls_lkbidr s' k) = Some flags \<and>
         map_option lkb_ownpid (ls_lkbidr s' k) = Some (current_pid env)
     | None \<Rightarrow> ls_orphans s' = ls_orphans s \<and> lkid = None \<and>
         e = (if \<exists>k\<in>set (ls_orphans s). orphan_of s name len k then -EAGAIN else -ENOENT))"
proof (cases "find (\<lambda>k. orphan_of s name len k \<and> orphan_held s mode k) (ls_orphans s)")
  case None
  have "takeWhile (\<lambda>k. \<not> (orphan_of s name len k \<and> orphan_held s mode k)) (ls_orphans s) = ls_orphans s"
    using None by (simp add: find_None_iff)
  then have "find_orphan mode name len False (ls_orphans s) s =
      Some (None, \<exists>k\<in>set (ls_orphans s). orphan_of s name len k)"
    using find_orphan_spec [of "ls_orphans s" s mode name len False] ok None by (simp only: orphans_ok_def) simp
  with None show ?thesis by (simp add: dlm_user_adopt_orphan_def kfree_ua_def)
next
  case (Some k)
  then have k: "k \<in> set (ls_orphans s)" by (auto simp: find_Some_iff)
  obtain l where l: "ls_lkbidr s k = Some l" using ok k by (auto simp: orphans_ok_def)
  obtain a where a: "ls_uas s (lkb_astparam l) = Some a" using ua k l by blast
  show ?thesis using find_orphan_spec [of "ls_orphans s" s mode name len False] ok Some l a t p
    by (simp add: orphans_ok_def dlm_user_adopt_orphan_def kfree_ua_def upd_ua_def upd_proc_def)
qed

text \<open>Lock 1 of a process that has ended; process 1 asks for it.\<close>

definition ua0 :: dlm_user_args where
  "ua0 = \<lparr>ua_proc = 0, ua_lksb = 0, ua_user_lksb = 0, ua_castparam = 0, ua_castaddr = 0, ua_bastparam = 0,
     ua_bastaddr = 0, ua_xid = 0\<rparr>"

definition orphan_ls :: dlm_ls where
  "orphan_ls = (ls_of [1 \<mapsto> lkb1\<lparr>lkb_astparam := 7\<rparr>] [0 \<mapsto> rsb0])\<lparr>ls_orphans := [1],
     ls_uas := [7 \<mapsto> ua0, 8 \<mapsto> ua0\<lparr>ua_proc := 1\<rparr>],
     ls_procs := [1 \<mapsto> \<lparr>proc_asts = [], proc_locks = [], proc_unlocking = []\<rparr>]\<rparr>"

theorem dlm_user_adopt_orphan_correct_witness:
  "\<exists>s'. dlm_user_adopt_orphan env0 8 DLM_LOCK_PR 0 [] 0 orphan_ls = Some (0, Some 1, s') \<and> ls_orphans s' = [] \<and>
    map_option proc_locks (ls_procs s' 1) = Some [1]"
proof -
  have f: "ls_orphans orphan_ls = [1]" "ls_lkbidr orphan_ls = [1 \<mapsto> lkb1\<lparr>lkb_astparam := 7\<rparr>]"
    "ls_uas orphan_ls = [7 \<mapsto> ua0, 8 \<mapsto> ua0\<lparr>ua_proc := 1\<rparr>]"
    "ls_procs orphan_ls = [1 \<mapsto> \<lparr>proc_asts = [], proc_locks = [], proc_unlocking = []\<rparr>]"
    "ls_rsbs orphan_ls = [0 \<mapsto> rsb0]"
    by (simp_all add: orphan_ls_def ls_of_def)
  have ok: "orphans_ok orphan_ls" by (simp add: orphans_ok_def f) (simp add: sample_defs)
  have o: "orphan_of orphan_ls [] 0 1 \<and> orphan_held orphan_ls DLM_LOCK_PR 1"
    by (simp add: orphan_of_def orphan_held_def f) (simp add: sample_defs)
  have i: "lkb_id lkb1 = 1" by (simp add: sample_defs)
  have t: "ls_uas orphan_ls 8 = Some (ua0\<lparr>ua_proc := 1\<rparr>)" by (simp add: f)
  have p: "ls_procs orphan_ls (ua_proc (ua0\<lparr>ua_proc := 1\<rparr>)) =
      Some \<lparr>proc_asts = [], proc_locks = [], proc_unlocking = []\<rparr>" by (simp add: f)
  show ?thesis
    using dlm_user_adopt_orphan_correct [OF ok t p, where name = "[]" and len = 0 and mode = DLM_LOCK_PR
      and env = env0 and flags = 0] o
    by (simp add: f i) blast
qed

end
