(* ===== verification/Ocfs2_Types.thy ===== *)
theory Ocfs2_Types
  imports Objects
begin

text \<open>
  The data of the lock layer of OCFS2 (\<open>fs/ocfs2/dlmglue.c\<close>), the other client of the lock manager: lock
  resources, which cache a lock of the lock manager for the processes of this node, the processes
  that sleep on the flags of a lock resource, and the part of the superblock the downconvert thread
  works on. The header \<open>ocfs2.h\<close> is not in the repository: flags, actions and lock types are known by
  their names only, so a word of flags is the set of the flags that are set. Statistics, lockdep and
  debugging are left out.
\<close>

type_synonym rp = nat
type_synonym mwp = nat

section \<open>Names\<close>

datatype lock_flag =
    OCFS2_LOCK_INITIALIZED | OCFS2_LOCK_ATTACHED | OCFS2_LOCK_BUSY | OCFS2_LOCK_BLOCKED | OCFS2_LOCK_LOCAL
  | OCFS2_LOCK_NEEDS_REFRESH | OCFS2_LOCK_REFRESHING | OCFS2_LOCK_FREEING | OCFS2_LOCK_QUEUED
  | OCFS2_LOCK_NOCACHE | OCFS2_LOCK_PENDING | OCFS2_LOCK_UPCONVERT_FINISHING | OCFS2_LOCK_NONBLOCK_FINISHED

datatype ast_action =
  OCFS2_AST_INVALID | OCFS2_AST_ATTACH | OCFS2_AST_CONVERT | OCFS2_AST_DOWNCONVERT

datatype unlock_action =
  OCFS2_UNLOCK_INVALID | OCFS2_UNLOCK_CANCEL_CONVERT | OCFS2_UNLOCK_DROP_LOCK

datatype unblock_action = UNBLOCK_CONTINUE | UNBLOCK_CONTINUE_POST | UNBLOCK_STOP_POST

datatype ocfs2_lock_type =
    OCFS2_LOCK_TYPE_META | OCFS2_LOCK_TYPE_SUPER | OCFS2_LOCK_TYPE_RENAME | OCFS2_LOCK_TYPE_RW
  | OCFS2_LOCK_TYPE_DENTRY | OCFS2_LOCK_TYPE_OPEN | OCFS2_LOCK_TYPE_FLOCK | OCFS2_LOCK_TYPE_QINFO
  | OCFS2_LOCK_TYPE_NFS_SYNC | OCFS2_LOCK_TYPE_ORPHAN_SCAN | OCFS2_LOCK_TYPE_REFCOUNT
  | OCFS2_LOCK_TYPE_TRIM_FS

abbreviation (input) LOCK_TYPE_REQUIRES_REFRESH :: u32 where "LOCK_TYPE_REQUIRES_REFRESH \<equiv> 0x1"
abbreviation (input) LOCK_TYPE_USES_LVB :: u32 where "LOCK_TYPE_USES_LVB \<equiv> 0x2"
abbreviation (input) DLM_SBF_VALNOTVALID :: u32 where "DLM_SBF_VALNOTVALID \<equiv> 0x2"
abbreviation (input) OCFS2_META_LOCK_RECOVERY :: u32 where "OCFS2_META_LOCK_RECOVERY \<equiv> 0x01"
abbreviation (input) OCFS2_META_LOCK_GETBH :: u32 where "OCFS2_META_LOCK_GETBH \<equiv> 0x08"
abbreviation (input) OCFS2_META_LOCK_NOQUEUE :: u32 where "OCFS2_META_LOCK_NOQUEUE \<equiv> 0x02"
abbreviation (input) OCFS2_LOCK_NONBLOCK :: u32 where "OCFS2_LOCK_NONBLOCK \<equiv> 0x04"

section \<open>Lock resources\<close>

text \<open>Of the operations of a lock type: its flags, and which of the callbacks it has. What the
  callbacks answer is an argument of the code that calls them.\<close>

record ocfs2_lock_res_ops =
  ops_flags :: u32
  has_post_unlock :: bool
  has_check_downconvert :: bool
  has_downconvert_worker :: bool

definition ocfs2_inode_rw_lops :: ocfs2_lock_res_ops where
  "ocfs2_inode_rw_lops = \<lparr>ops_flags = 0, has_post_unlock = False, has_check_downconvert = False,
     has_downconvert_worker = False\<rparr>"

definition ocfs2_inode_inode_lops :: ocfs2_lock_res_ops where
  "ocfs2_inode_inode_lops = \<lparr>ops_flags = LOCK_TYPE_REQUIRES_REFRESH OR LOCK_TYPE_USES_LVB,
     has_post_unlock = False, has_check_downconvert = True, has_downconvert_worker = True\<rparr>"

definition ocfs2_super_lops :: ocfs2_lock_res_ops where
  "ocfs2_super_lops = \<lparr>ops_flags = LOCK_TYPE_REQUIRES_REFRESH, has_post_unlock = False,
     has_check_downconvert = False, has_downconvert_worker = False\<rparr>"

definition ocfs2_rename_lops :: ocfs2_lock_res_ops where
  "ocfs2_rename_lops = \<lparr>ops_flags = 0, has_post_unlock = False, has_check_downconvert = False,
     has_downconvert_worker = False\<rparr>"

definition ocfs2_nfs_sync_lops :: ocfs2_lock_res_ops where
  "ocfs2_nfs_sync_lops = \<lparr>ops_flags = 0, has_post_unlock = False, has_check_downconvert = False,
     has_downconvert_worker = False\<rparr>"

definition ocfs2_trim_fs_lops :: ocfs2_lock_res_ops where
  "ocfs2_trim_fs_lops = \<lparr>ops_flags = LOCK_TYPE_REQUIRES_REFRESH OR LOCK_TYPE_USES_LVB,
     has_post_unlock = False, has_check_downconvert = False, has_downconvert_worker = False\<rparr>"

definition ocfs2_orphan_scan_lops :: ocfs2_lock_res_ops where
  "ocfs2_orphan_scan_lops = \<lparr>ops_flags = LOCK_TYPE_REQUIRES_REFRESH OR LOCK_TYPE_USES_LVB,
     has_post_unlock = False, has_check_downconvert = False, has_downconvert_worker = False\<rparr>"

definition ocfs2_dentry_lops :: ocfs2_lock_res_ops where
  "ocfs2_dentry_lops = \<lparr>ops_flags = 0, has_post_unlock = True, has_check_downconvert = False,
     has_downconvert_worker = True\<rparr>"

definition ocfs2_inode_open_lops :: ocfs2_lock_res_ops where
  "ocfs2_inode_open_lops = \<lparr>ops_flags = 0, has_post_unlock = False, has_check_downconvert = False,
     has_downconvert_worker = False\<rparr>"

definition ocfs2_flock_lops :: ocfs2_lock_res_ops where
  "ocfs2_flock_lops = \<lparr>ops_flags = 0, has_post_unlock = False, has_check_downconvert = False,
     has_downconvert_worker = False\<rparr>"

definition ocfs2_qinfo_lops :: ocfs2_lock_res_ops where
  "ocfs2_qinfo_lops = \<lparr>ops_flags = LOCK_TYPE_REQUIRES_REFRESH OR LOCK_TYPE_USES_LVB,
     has_post_unlock = False, has_check_downconvert = False, has_downconvert_worker = False\<rparr>"

definition ocfs2_refcount_block_lops :: ocfs2_lock_res_ops where
  "ocfs2_refcount_block_lops = \<lparr>ops_flags = 0, has_post_unlock = False, has_check_downconvert = True,
     has_downconvert_worker = True\<rparr>"

record ocfs2_lock_holder =
  oh_owner_pid :: nat
  oh_ex :: bool

record ocfs2_lock_res =
  l_type :: ocfs2_lock_type
  l_ops :: ocfs2_lock_res_ops
  l_name :: "u8 list"
  l_flags :: "lock_flag set"
  l_level :: int
  l_requested :: int
  l_blocking :: int
  l_action :: ast_action
  l_unlock_action :: unlock_action
  l_ro_holders :: u32
  l_ex_holders :: u32
  l_pending_gen :: u32
  l_lksb :: dlm_lksb
  l_mask_waiters :: "mwp list"
  l_holders :: "ocfs2_lock_holder list"

text \<open>A sleeping process. \<open>mw_item\<close>: it is on the list of its lock resource. The completion is the
  number of times it has been completed and not waited for.\<close>

record ocfs2_mask_waiter =
  mw_item :: bool
  mw_status :: int
  mw_complete :: nat
  mw_mask :: "lock_flag set"
  mw_goal :: "lock_flag set"

section \<open>The superblock\<close>

record ocfs2_super =
  os_res :: "rp \<Rightarrow> ocfs2_lock_res option"
  os_mws :: "mwp \<Rightarrow> ocfs2_mask_waiter"
  blocked_lock_list :: "rp list"
  blocked_lock_count :: u64
  dc_wake_sequence :: u64
  dc_work_sequence :: u64

definition upd_res :: "rp \<Rightarrow> (ocfs2_lock_res \<Rightarrow> ocfs2_lock_res) \<Rightarrow> ocfs2_super \<Rightarrow> ocfs2_super option" where
  "upd_res r f s = (case os_res s r of
       None \<Rightarrow> None
     | Some x \<Rightarrow> Some (s\<lparr>os_res := (os_res s)(r \<mapsto> f x)\<rparr>))"

lemma upd_res_Some [simp]: "os_res s r = Some x \<Longrightarrow> upd_res r f s = Some (s\<lparr>os_res := (os_res s)(r \<mapsto> f x)\<rparr>)"
  by (simp add: upd_res_def)

lemma upd_res_eq_Some_iff:
  "upd_res r f s = Some s' \<longleftrightarrow> (\<exists>x. os_res s r = Some x \<and> s' = s\<lparr>os_res := (os_res s)(r \<mapsto> f x)\<rparr>)"
  by (auto simp: upd_res_def split: option.splits)

definition upd_mw :: "mwp \<Rightarrow> (ocfs2_mask_waiter \<Rightarrow> ocfs2_mask_waiter) \<Rightarrow> ocfs2_super \<Rightarrow> ocfs2_super" where
  "upd_mw w f s = s\<lparr>os_mws := (os_mws s)(w := f (os_mws s w))\<rparr>"

definition res_flag :: "lock_flag \<Rightarrow> ocfs2_lock_res \<Rightarrow> bool" where
  "res_flag n x \<longleftrightarrow> n \<in> l_flags x"

definition ops_flag :: "u32 \<Rightarrow> ocfs2_lock_res \<Rightarrow> bool" where
  "ops_flag n x \<longleftrightarrow> has_flag (ops_flags (l_ops x)) n"

end
