(* ===== verification/Ocfs2_Lock.thy ===== *)
theory Ocfs2_Lock
  imports Ocfs2_Types
begin

text \<open>
  Lock resources of OCFS2 (\<open>dlmglue.c\<close>): their flags, the callbacks of the lock manager, and taking and
  releasing a cluster lock. What the code does under \<open>l_lock\<close> is one function here. Where a function
  of the code gives the spin lock up and takes it again, there is one function for each of the parts,
  and its result says what comes next (\<open>lock_turn\<close>); \<open>Ocfs2_Run\<close> puts the parts together.
\<close>

section \<open>Flags and the processes that sleep on them\<close>

definition ocfs2_wake_downconvert_thread :: "ocfs2_super \<Rightarrow> ocfs2_super" where
  "ocfs2_wake_downconvert_thread s = s\<lparr>dc_wake_sequence := dc_wake_sequence s + 1\<rparr>"

definition ocfs2_highest_compat_lock_level :: "int \<Rightarrow> int" where
  "ocfs2_highest_compat_lock_level level =
     (if level = DLM_LOCK_EX then DLM_LOCK_NL else if level = DLM_LOCK_PR then DLM_LOCK_PR else DLM_LOCK_EX)"

text \<open>The process is taken off the list and its completion completed.\<close>

definition complete_mw :: "ocfs2_mask_waiter \<Rightarrow> ocfs2_mask_waiter" where
  "complete_mw m = m\<lparr>mw_item := False, mw_status := 0, mw_complete := mw_complete m + 1\<rparr>"

definition mw_reached :: "lock_flag set \<Rightarrow> ocfs2_mask_waiter \<Rightarrow> bool" where
  "mw_reached flags m \<longleftrightarrow> flags \<inter> mw_mask m = mw_goal m"

fun wake_mask_waiters :: "lock_flag set \<Rightarrow> mwp list \<Rightarrow> (mwp \<Rightarrow> ocfs2_mask_waiter) \<Rightarrow>
  mwp list \<times> (mwp \<Rightarrow> ocfs2_mask_waiter)" where
  "wake_mask_waiters flags [] mws = ([], mws)"
| "wake_mask_waiters flags (w # ws) mws =
     (if \<not> mw_reached flags (mws w)
      then (let (ws, mws) = wake_mask_waiters flags ws mws in (w # ws, mws))
      else wake_mask_waiters flags ws (mws(w := complete_mw (mws w))))"

definition lockres_set_flags :: "rp \<Rightarrow> lock_flag set \<Rightarrow> ocfs2_super \<Rightarrow> ocfs2_super option" where
  "lockres_set_flags r newflags s = do {
     x \<leftarrow> os_res s r;
     let (ws, mws) = wake_mask_waiters newflags (l_mask_waiters x) (os_mws s);
     upd_res r (\<lambda>x. x\<lparr>l_flags := newflags, l_mask_waiters := ws\<rparr>) (s\<lparr>os_mws := mws\<rparr>)
   }"

definition lockres_or_flags :: "rp \<Rightarrow> lock_flag set \<Rightarrow> ocfs2_super \<Rightarrow> ocfs2_super option" where
  "lockres_or_flags r fl s = do { x \<leftarrow> os_res s r; lockres_set_flags r (l_flags x \<union> fl) s }"

definition lockres_clear_flags :: "rp \<Rightarrow> lock_flag set \<Rightarrow> ocfs2_super \<Rightarrow> ocfs2_super option" where
  "lockres_clear_flags r fl s = do { x \<leftarrow> os_res s r; lockres_set_flags r (l_flags x - fl) s }"

definition ocfs2_init_mask_waiter :: "mwp \<Rightarrow> ocfs2_super \<Rightarrow> ocfs2_super" where
  "ocfs2_init_mask_waiter w s = upd_mw w (\<lambda>m. m\<lparr>mw_item := False, mw_complete := 0\<rparr>) s"

definition lockres_add_mask_waiter ::
  "rp \<Rightarrow> mwp \<Rightarrow> lock_flag set \<Rightarrow> lock_flag set \<Rightarrow> ocfs2_super \<Rightarrow> ocfs2_super option" where
  "lockres_add_mask_waiter r w fl goal s = do {
     _ \<leftarrow> dlm_assert (\<not> mw_item (os_mws s w));
     s \<leftarrow> upd_res r (\<lambda>x. x\<lparr>l_mask_waiters := l_mask_waiters x @ [w]\<rparr>) s;
     Some (upd_mw w (\<lambda>m. m\<lparr>mw_item := True, mw_mask := fl, mw_goal := goal\<rparr>) s)
   }"

definition us_us_lockres_remove_mask_waiter :: "rp \<Rightarrow> mwp \<Rightarrow> ocfs2_super \<Rightarrow> (int \<times> ocfs2_super) option" where
  "us_us_lockres_remove_mask_waiter r w s = do {
     x \<leftarrow> os_res s r;
     let m = os_mws s w;
     if \<not> mw_item m then Some (0, s)
     else do {
       s \<leftarrow> upd_res r (\<lambda>x. x\<lparr>l_mask_waiters := remove1 w (l_mask_waiters x)\<rparr>) s;
       Some (if \<not> mw_reached (l_flags x) m then -EBUSY else 0, upd_mw w (\<lambda>m. m\<lparr>mw_item := False, mw_complete := 0\<rparr>) s)
     }
   }"

text \<open>\<open>ocfs2_wait_for_mask\<close>; while the process sleeps the result is \<open>None\<close>.\<close>

definition ocfs2_wait_for_mask :: "mwp \<Rightarrow> ocfs2_super \<Rightarrow> (int \<times> ocfs2_super) option" where
  "ocfs2_wait_for_mask w s =
     (if mw_complete (os_mws s w) = 0 then None
      else Some (mw_status (os_mws s w), upd_mw w (\<lambda>m. m\<lparr>mw_complete := 0\<rparr>) s))"

definition lockres_remove_mask_waiter :: "rp \<Rightarrow> mwp \<Rightarrow> ocfs2_super \<Rightarrow> (int \<times> ocfs2_super) option" where
  "lockres_remove_mask_waiter r w s = us_us_lockres_remove_mask_waiter r w s"

text \<open>\<open>signal\<close> is the answer of \<open>wait_for_completion_interruptible\<close>: 0 if the process was completed.\<close>

definition ocfs2_wait_for_mask_interruptible ::
  "int \<Rightarrow> mwp \<Rightarrow> rp \<Rightarrow> ocfs2_super \<Rightarrow> (int \<times> ocfs2_super) option" where
  "ocfs2_wait_for_mask_interruptible signal w r s = do {
     (ret, s) \<leftarrow> (if signal \<noteq> 0 then do { (_, s) \<leftarrow> lockres_remove_mask_waiter r w s; Some (signal, s) }
       else if mw_complete (os_mws s w) = 0 then None
       else Some (mw_status (os_mws s w), s));
     Some (ret, upd_mw w (\<lambda>m. m\<lparr>mw_complete := 0\<rparr>) s)
   }"

definition ocfs2_check_wait_flag :: "rp \<Rightarrow> lock_flag \<Rightarrow> ocfs2_super \<Rightarrow> bool option" where
  "ocfs2_check_wait_flag r fl s = do { x \<leftarrow> os_res s r; Some (res_flag fl x) }"

section \<open>Refreshing what a lock covers\<close>

text \<open>While the process waits for another one that refreshes, \<open>None\<close>.\<close>

definition ocfs2_should_refresh_lock_res :: "rp \<Rightarrow> ocfs2_super \<Rightarrow> (int \<times> ocfs2_super) option" where
  "ocfs2_should_refresh_lock_res r s = do {
     x \<leftarrow> os_res s r;
     if \<not> res_flag OCFS2_LOCK_NEEDS_REFRESH x then Some (0, s)
     else if res_flag OCFS2_LOCK_REFRESHING x then None
     else do { s \<leftarrow> lockres_or_flags r {OCFS2_LOCK_REFRESHING} s; Some (1, s) }
   }"

definition ocfs2_complete_lock_res_refresh :: "rp \<Rightarrow> int \<Rightarrow> ocfs2_super \<Rightarrow> ocfs2_super option" where
  "ocfs2_complete_lock_res_refresh r status s = do {
     s \<leftarrow> lockres_clear_flags r {OCFS2_LOCK_REFRESHING} s;
     if status = 0 then lockres_clear_flags r {OCFS2_LOCK_NEEDS_REFRESH} s else Some s
   }"

section \<open>Holders\<close>

definition ocfs2_add_holder :: "rp \<Rightarrow> ocfs2_lock_holder \<Rightarrow> ocfs2_super \<Rightarrow> ocfs2_super option" where
  "ocfs2_add_holder r oh s = upd_res r (\<lambda>x. x\<lparr>l_holders := l_holders x @ [oh]\<rparr>) s"

definition ocfs2_pid_holder :: "rp \<Rightarrow> nat \<Rightarrow> ocfs2_super \<Rightarrow> ocfs2_lock_holder option option" where
  "ocfs2_pid_holder r pid s = do { x \<leftarrow> os_res s r; Some (find (\<lambda>oh. oh_owner_pid oh = pid) (l_holders x)) }"

definition ocfs2_remove_holder :: "rp \<Rightarrow> ocfs2_lock_holder \<Rightarrow> ocfs2_super \<Rightarrow> ocfs2_super option" where
  "ocfs2_remove_holder r oh s = upd_res r (\<lambda>x. x\<lparr>l_holders := remove1 oh (l_holders x)\<rparr>) s"

definition ocfs2_inc_holders :: "rp \<Rightarrow> int \<Rightarrow> ocfs2_super \<Rightarrow> ocfs2_super option" where
  "ocfs2_inc_holders r level s =
     (if level = DLM_LOCK_EX then upd_res r (\<lambda>x. x\<lparr>l_ex_holders := l_ex_holders x + 1\<rparr>) s
      else if level = DLM_LOCK_PR then upd_res r (\<lambda>x. x\<lparr>l_ro_holders := l_ro_holders x + 1\<rparr>) s
      else None)"

definition ocfs2_dec_holders :: "rp \<Rightarrow> int \<Rightarrow> ocfs2_super \<Rightarrow> ocfs2_super option" where
  "ocfs2_dec_holders r level s = do {
     x \<leftarrow> os_res s r;
     if level = DLM_LOCK_EX then do {
       _ \<leftarrow> dlm_assert (l_ex_holders x \<noteq> 0);
       upd_res r (\<lambda>x. x\<lparr>l_ex_holders := l_ex_holders x - 1\<rparr>) s
     }
     else if level = DLM_LOCK_PR then do {
       _ \<leftarrow> dlm_assert (l_ro_holders x \<noteq> 0);
       upd_res r (\<lambda>x. x\<lparr>l_ro_holders := l_ro_holders x - 1\<rparr>) s
     }
     else None
   }"

section \<open>Pending requests\<close>

definition us_us_lockres_clear_pending :: "rp \<Rightarrow> u32 \<Rightarrow> ocfs2_super \<Rightarrow> ocfs2_super option" where
  "us_us_lockres_clear_pending r generation s = do {
     x \<leftarrow> os_res s r;
     if \<not> res_flag OCFS2_LOCK_PENDING x \<or> l_pending_gen x \<noteq> generation then Some s
     else do {
       s \<leftarrow> lockres_clear_flags r {OCFS2_LOCK_PENDING} s;
       s \<leftarrow> upd_res r (\<lambda>x. x\<lparr>l_pending_gen := l_pending_gen x + 1\<rparr>) s;
       Some (if res_flag OCFS2_LOCK_BLOCKED x then ocfs2_wake_downconvert_thread s else s)
     }
   }"

definition lockres_set_pending :: "rp \<Rightarrow> ocfs2_super \<Rightarrow> (u32 \<times> ocfs2_super) option" where
  "lockres_set_pending r s = do {
     x \<leftarrow> os_res s r;
     _ \<leftarrow> dlm_assert (res_flag OCFS2_LOCK_BUSY x);
     s \<leftarrow> lockres_or_flags r {OCFS2_LOCK_PENDING} s;
     Some (l_pending_gen x, s)
   }"

section \<open>The callbacks of the lock manager\<close>

definition ocfs2_generic_handle_downconvert_action :: "rp \<Rightarrow> ocfs2_super \<Rightarrow> ocfs2_super option" where
  "ocfs2_generic_handle_downconvert_action r s = do {
     x \<leftarrow> os_res s r;
     _ \<leftarrow> dlm_assert (res_flag OCFS2_LOCK_BUSY x);
     _ \<leftarrow> dlm_assert (res_flag OCFS2_LOCK_ATTACHED x);
     _ \<leftarrow> dlm_assert (res_flag OCFS2_LOCK_BLOCKED x);
     _ \<leftarrow> dlm_assert (DLM_LOCK_NL < l_blocking x);
     s \<leftarrow> upd_res r (\<lambda>x. x\<lparr>l_level := l_requested x\<rparr>) s;
     s \<leftarrow> (if l_requested x \<le> ocfs2_highest_compat_lock_level (l_blocking x)
          then do {
            s \<leftarrow> upd_res r (\<lambda>x. x\<lparr>l_blocking := DLM_LOCK_NL\<rparr>) s;
            lockres_clear_flags r {OCFS2_LOCK_BLOCKED} s
          }
          else Some s);
     lockres_clear_flags r {OCFS2_LOCK_BUSY} s
   }"

definition ocfs2_generic_handle_convert_action :: "rp \<Rightarrow> ocfs2_super \<Rightarrow> ocfs2_super option" where
  "ocfs2_generic_handle_convert_action r s = do {
     x \<leftarrow> os_res s r;
     _ \<leftarrow> dlm_assert (res_flag OCFS2_LOCK_BUSY x);
     _ \<leftarrow> dlm_assert (res_flag OCFS2_LOCK_ATTACHED x);
     s \<leftarrow> (if l_level x = DLM_LOCK_NL \<and> ops_flag LOCK_TYPE_REQUIRES_REFRESH x
          then lockres_or_flags r {OCFS2_LOCK_NEEDS_REFRESH} s else Some s);
     s \<leftarrow> upd_res r (\<lambda>x. x\<lparr>l_level := l_requested x\<rparr>) s;
     s \<leftarrow> (if \<not> res_flag OCFS2_LOCK_NONBLOCK_FINISHED x
          then lockres_or_flags r {OCFS2_LOCK_UPCONVERT_FINISHING} s
          else lockres_clear_flags r {OCFS2_LOCK_NONBLOCK_FINISHED} s);
     lockres_clear_flags r {OCFS2_LOCK_BUSY} s
   }"

definition ocfs2_generic_handle_attach_action :: "rp \<Rightarrow> ocfs2_super \<Rightarrow> ocfs2_super option" where
  "ocfs2_generic_handle_attach_action r s = do {
     x \<leftarrow> os_res s r;
     _ \<leftarrow> dlm_assert (res_flag OCFS2_LOCK_BUSY x);
     _ \<leftarrow> dlm_assert (\<not> res_flag OCFS2_LOCK_ATTACHED x);
     s \<leftarrow> (if DLM_LOCK_NL < l_requested x \<and> \<not> res_flag OCFS2_LOCK_LOCAL x \<and> ops_flag LOCK_TYPE_REQUIRES_REFRESH x
          then lockres_or_flags r {OCFS2_LOCK_NEEDS_REFRESH} s else Some s);
     s \<leftarrow> upd_res r (\<lambda>x. x\<lparr>l_level := l_requested x\<rparr>) s;
     s \<leftarrow> lockres_or_flags r {OCFS2_LOCK_ATTACHED} s;
     lockres_clear_flags r {OCFS2_LOCK_BUSY} s
   }"

text \<open>Whether the lock is to be downconverted for a node that wants \<open>level\<close>.\<close>

definition ocfs2_generic_handle_bast :: "rp \<Rightarrow> int \<Rightarrow> ocfs2_super \<Rightarrow> (bool \<times> ocfs2_super) option" where
  "ocfs2_generic_handle_bast r level s = do {
     x \<leftarrow> os_res s r;
     if level \<le> l_blocking x then Some (False, s)
     else do {
       let needs_downconvert = ocfs2_highest_compat_lock_level level < ocfs2_highest_compat_lock_level (l_blocking x);
       s \<leftarrow> upd_res r (\<lambda>x. x\<lparr>l_blocking := level\<rparr>) s;
       s \<leftarrow> (if needs_downconvert then lockres_or_flags r {OCFS2_LOCK_BLOCKED} s else Some s);
       Some (needs_downconvert, s)
     }
   }"

definition ocfs2_schedule_blocked_lock :: "rp \<Rightarrow> ocfs2_super \<Rightarrow> ocfs2_super option" where
  "ocfs2_schedule_blocked_lock r s = do {
     x \<leftarrow> os_res s r;
     if res_flag OCFS2_LOCK_FREEING x then Some s
     else do {
       s \<leftarrow> lockres_or_flags r {OCFS2_LOCK_QUEUED} s;
       Some (if r \<in> set (blocked_lock_list s) then s
             else s\<lparr>blocked_lock_list := blocked_lock_list s @ [r], blocked_lock_count := blocked_lock_count s + 1\<rparr>)
     }
   }"

definition ocfs2_blocking_ast :: "rp \<Rightarrow> int \<Rightarrow> ocfs2_super \<Rightarrow> ocfs2_super option" where
  "ocfs2_blocking_ast r level s = do {
     _ \<leftarrow> dlm_assert (DLM_LOCK_NL < level);
     x \<leftarrow> os_res s r;
     if res_flag OCFS2_LOCK_NOCACHE x then Some s
     else do {
       (needs_downconvert, s) \<leftarrow> ocfs2_generic_handle_bast r level s;
       s \<leftarrow> (if needs_downconvert then ocfs2_schedule_blocked_lock r s else Some s);
       Some (ocfs2_wake_downconvert_thread s)
     }
   }"

text \<open>The part of \<open>ocfs2_locking_ast\<close> from \<open>out\<close>.\<close>

definition locking_ast_out :: "rp \<Rightarrow> ocfs2_super \<Rightarrow> ocfs2_super option" where
  "locking_ast_out r s = do {
     s \<leftarrow> upd_res r (\<lambda>x. x\<lparr>l_action := OCFS2_AST_INVALID,
       l_unlock_action := (if l_unlock_action x = OCFS2_UNLOCK_CANCEL_CONVERT then OCFS2_UNLOCK_INVALID
         else l_unlock_action x)\<rparr>) s;
     x \<leftarrow> os_res s r;
     us_us_lockres_clear_pending r (l_pending_gen x) s
   }"

definition ocfs2_locking_ast :: "rp \<Rightarrow> ocfs2_super \<Rightarrow> ocfs2_super option" where
  "ocfs2_locking_ast r s = do {
     x \<leftarrow> os_res s r;
     let status = sb_status (l_lksb x);
     if status = -EAGAIN then do {
       s \<leftarrow> lockres_clear_flags r {OCFS2_LOCK_BUSY} s;
       locking_ast_out r s
     }
     else if status \<noteq> 0 then Some s
     else do {
       s \<leftarrow> (case l_action x of
            OCFS2_AST_ATTACH \<Rightarrow> do {
              s \<leftarrow> ocfs2_generic_handle_attach_action r s;
              lockres_clear_flags r {OCFS2_LOCK_LOCAL} s
            }
          | OCFS2_AST_CONVERT \<Rightarrow> ocfs2_generic_handle_convert_action r s
          | OCFS2_AST_DOWNCONVERT \<Rightarrow> ocfs2_generic_handle_downconvert_action r s
          | OCFS2_AST_INVALID \<Rightarrow> None);
       locking_ast_out r s
     }
   }"

definition ocfs2_unlock_ast :: "rp \<Rightarrow> int \<Rightarrow> ocfs2_super \<Rightarrow> ocfs2_super option" where
  "ocfs2_unlock_ast r error s =
     (if error \<noteq> 0 then Some s
      else do {
        x \<leftarrow> os_res s r;
        s \<leftarrow> (case l_unlock_action x of
             OCFS2_UNLOCK_CANCEL_CONVERT \<Rightarrow> do {
               s \<leftarrow> upd_res r (\<lambda>x. x\<lparr>l_action := OCFS2_AST_INVALID\<rparr>) s;
               Some (if res_flag OCFS2_LOCK_BLOCKED x then ocfs2_wake_downconvert_thread s else s)
             }
           | OCFS2_UNLOCK_DROP_LOCK \<Rightarrow> upd_res r (\<lambda>x. x\<lparr>l_level := DLM_LOCK_IV\<rparr>) s
           | OCFS2_UNLOCK_INVALID \<Rightarrow> None);
        s \<leftarrow> lockres_clear_flags r {OCFS2_LOCK_BUSY} s;
        upd_res r (\<lambda>x. x\<lparr>l_unlock_action := OCFS2_UNLOCK_INVALID\<rparr>) s
      })"

text \<open>The callback given to \<open>dlm_lock\<close> (\<open>stack_user.c\<close>).\<close>

definition fsdlm_lock_ast_wrapper :: "rp \<Rightarrow> ocfs2_super \<Rightarrow> ocfs2_super option" where
  "fsdlm_lock_ast_wrapper r s = do {
     x \<leftarrow> os_res s r;
     let status = sb_status (l_lksb x);
     if status = -DLM_EUNLOCK \<or> status = -DLM_ECANCEL then ocfs2_unlock_ast r 0 s else ocfs2_locking_ast r s
   }"

definition ocfs2_recover_from_dlm_error :: "rp \<Rightarrow> bool \<Rightarrow> ocfs2_super \<Rightarrow> ocfs2_super option" where
  "ocfs2_recover_from_dlm_error r convert s = do {
     s \<leftarrow> lockres_clear_flags r {OCFS2_LOCK_BUSY} s;
     s \<leftarrow> lockres_clear_flags r {OCFS2_LOCK_UPCONVERT_FINISHING} s;
     upd_res r (\<lambda>x. if convert then x\<lparr>l_action := OCFS2_AST_INVALID\<rparr>
       else x\<lparr>l_unlock_action := OCFS2_UNLOCK_INVALID\<rparr>) s
   }"

section \<open>Taking a lock\<close>

text \<open>The local variables of \<open>__ocfs2_cluster_lock\<close> and \<open>ocfs2_cluster_lock_notify\<close>, which differ in the
  lock manager call only: \<open>lc_parent\<close> is the id of the parent lock of the latter.\<close>

record lock_call =
  lc_res :: rp
  lc_level :: int
  lc_lkm_flags :: u32
  lc_arg_flags :: u32
  lc_catch_signals :: bool
  lc_noqueue_attempted :: bool
  lc_dlm_locked :: bool
  lc_parent :: "u32 option"
  lc_ret :: int

text \<open>What comes after a part: the call is over, the process sleeps unless it was told not to
  (\<open>out\<close> with \<open>wait\<close> set), or the lock manager is called, to be told the generation afterwards.\<close>

datatype lock_turn = Turn_return int | Turn_wait lock_call | Turn_call lock_call u32 | Turn_again lock_call

definition ocfs2_may_continue_on_blocked_lock :: "ocfs2_lock_res \<Rightarrow> int \<Rightarrow> bool option" where
  "ocfs2_may_continue_on_blocked_lock x wanted = do {
     _ \<leftarrow> dlm_assert (res_flag OCFS2_LOCK_BLOCKED x);
     Some (wanted \<le> ocfs2_highest_compat_lock_level (l_blocking x))
   }"

definition cluster_lock_begin ::
  "bool \<Rightarrow> mwp \<Rightarrow> rp \<Rightarrow> int \<Rightarrow> u32 \<Rightarrow> u32 \<Rightarrow> u32 option \<Rightarrow> ocfs2_super \<Rightarrow> (lock_turn \<times> ocfs2_super) option" where
  "cluster_lock_begin nointr w r level lkm_flags af parent s = do {
     x \<leftarrow> os_res s r;
     if \<not> res_flag OCFS2_LOCK_INITIALIZED x then Some (Turn_return (-EINVAL), s)
     else Some (Turn_again \<lparr>lc_res = r, lc_level = level,
         lc_lkm_flags = (if ops_flag LOCK_TYPE_USES_LVB x then lkm_flags OR DLM_LKF_VALBLK else lkm_flags),
         lc_arg_flags = af, lc_catch_signals = \<not> nointr, lc_noqueue_attempted = False,
         lc_dlm_locked = False, lc_parent = parent, lc_ret = 0\<rparr>, ocfs2_init_mask_waiter w s)
   }"

text \<open>The end of a part at the label \<open>unlock\<close>.\<close>

definition cluster_lock_unlock :: "rp \<Rightarrow> ocfs2_super \<Rightarrow> ocfs2_super option" where
  "cluster_lock_unlock r s = do {
     s \<leftarrow> lockres_clear_flags r {OCFS2_LOCK_UPCONVERT_FINISHING} s;
     x \<leftarrow> os_res s r;
     Some (if res_flag OCFS2_LOCK_BLOCKED x then ocfs2_wake_downconvert_thread s else s)
   }"

definition cluster_lock_wait :: "mwp \<Rightarrow> lock_flag \<Rightarrow> lock_call \<Rightarrow> ocfs2_super \<Rightarrow> (lock_turn \<times> ocfs2_super) option" where
  "cluster_lock_wait w fl c s = do {
     s \<leftarrow> lockres_add_mask_waiter (lc_res c) w {fl} {} s;
     s \<leftarrow> cluster_lock_unlock (lc_res c) s;
     Some (Turn_wait c, s)
   }"

definition cluster_lock_return :: "int \<Rightarrow> lock_call \<Rightarrow> ocfs2_super \<Rightarrow> (lock_turn \<times> ocfs2_super) option" where
  "cluster_lock_return ret c s = do { s \<leftarrow> cluster_lock_unlock (lc_res c) s; Some (Turn_return ret, s) }"

text \<open>\<open>update_holders\<close>.\<close>

definition cluster_lock_hold :: "lock_call \<Rightarrow> ocfs2_super \<Rightarrow> (lock_turn \<times> ocfs2_super) option" where
  "cluster_lock_hold c s = do {
     s \<leftarrow> ocfs2_inc_holders (lc_res c) (lc_level c) s;
     cluster_lock_return 0 c s
   }"

text \<open>The lock manager has to be asked.\<close>

definition cluster_lock_ask :: "lock_call \<Rightarrow> ocfs2_super \<Rightarrow> (lock_turn \<times> ocfs2_super) option" where
  "cluster_lock_ask c s = do {
     let r = lc_res c;
     x \<leftarrow> os_res s r;
     let attached = res_flag OCFS2_LOCK_ATTACHED x;
     s \<leftarrow> upd_res r (\<lambda>x. x\<lparr>l_action := (if attached then OCFS2_AST_CONVERT else OCFS2_AST_ATTACH), l_requested := lc_level c\<rparr>) s;
     s \<leftarrow> lockres_or_flags r {OCFS2_LOCK_BUSY} s;
     (gen, s) \<leftarrow> lockres_set_pending r s;
     _ \<leftarrow> dlm_assert (lc_level c \<noteq> DLM_LOCK_IV);
     _ \<leftarrow> dlm_assert (lc_level c \<noteq> DLM_LOCK_NL);
     Some (Turn_call (c\<lparr>lc_noqueue_attempted := has_flag (lc_lkm_flags c) DLM_LKF_NOQUEUE,
         lc_lkm_flags := (if attached then lc_lkm_flags c OR DLM_LKF_CONVERT else lc_lkm_flags c AND NOT DLM_LKF_CONVERT)\<rparr>) gen, s)
   }"

text \<open>From \<open>again\<close> to the point where the spin lock is given up.\<close>

definition cluster_lock_again :: "bool \<Rightarrow> mwp \<Rightarrow> lock_call \<Rightarrow> ocfs2_super \<Rightarrow> (lock_turn \<times> ocfs2_super) option" where
  "cluster_lock_again signal w c s = do {
     let level = lc_level c;
     x \<leftarrow> os_res s (lc_res c);
     if lc_catch_signals c \<and> signal then cluster_lock_return (-ERESTARTSYS) c s
     else do {
       _ \<leftarrow> dlm_assert (\<not> res_flag OCFS2_LOCK_FREEING x);
       if res_flag OCFS2_LOCK_BUSY x \<and> l_level x < level then cluster_lock_wait w OCFS2_LOCK_BUSY c s
       else if res_flag OCFS2_LOCK_UPCONVERT_FINISHING x \<and> level \<le> l_level x then cluster_lock_hold c s
       else do {
         continue \<leftarrow> (if res_flag OCFS2_LOCK_BLOCKED x then ocfs2_may_continue_on_blocked_lock x level else Some True);
         if \<not> continue then cluster_lock_wait w OCFS2_LOCK_BLOCKED c s
         else if level \<le> l_level x then cluster_lock_hold c s
         else if lc_noqueue_attempted c then cluster_lock_return (-EAGAIN) c s
         else cluster_lock_ask c s
       }
     }
   }"

text \<open>After the call of the lock manager: \<open>lockres_clear_pending\<close>, and then the error or another turn.\<close>

definition cluster_lock_called :: "lock_call \<Rightarrow> u32 \<Rightarrow> ocfs2_super \<Rightarrow> ocfs2_super option" where
  "cluster_lock_called c gen s = us_us_lockres_clear_pending (lc_res c) gen s"

definition cluster_lock_failed :: "lock_call \<Rightarrow> int \<Rightarrow> ocfs2_super \<Rightarrow> (lock_turn \<times> ocfs2_super) option" where
  "cluster_lock_failed c ret s = do {
     s \<leftarrow> ocfs2_recover_from_dlm_error (lc_res c) True s;
     Some (Turn_return ret, s)
   }"

definition cluster_lock_asked :: "lock_call \<Rightarrow> lock_call" where
  "cluster_lock_asked c = c\<lparr>lc_dlm_locked := True, lc_catch_signals := False, lc_ret := 0\<rparr>"

text \<open>At \<open>out\<close>, for a process that must not sleep.\<close>

definition cluster_lock_nonblock :: "mwp \<Rightarrow> lock_call \<Rightarrow> ocfs2_super \<Rightarrow> (lock_turn \<times> ocfs2_super) option" where
  "cluster_lock_nonblock w c s = do {
     (busy, s) \<leftarrow> us_us_lockres_remove_mask_waiter (lc_res c) w s;
     if busy \<noteq> 0 then do {
       s \<leftarrow> (if lc_dlm_locked c then lockres_or_flags (lc_res c) {OCFS2_LOCK_NONBLOCK_FINISHED} s else Some s);
       Some (Turn_return (-EAGAIN), s)
     }
     else Some (Turn_again c, s)
   }"

text \<open>A process that sleeps goes on when it has been woken.\<close>

definition cluster_lock_sleep :: "mwp \<Rightarrow> lock_call \<Rightarrow> ocfs2_super \<Rightarrow> (lock_turn \<times> ocfs2_super) option" where
  "cluster_lock_sleep w c s = do {
     (ret, s) \<leftarrow> ocfs2_wait_for_mask w s;
     Some (if ret = 0 then Turn_again c else Turn_return ret, s)
   }"

definition cluster_lock_out :: "mwp \<Rightarrow> lock_call \<Rightarrow> ocfs2_super \<Rightarrow> (lock_turn \<times> ocfs2_super) option" where
  "cluster_lock_out w c s =
     (if has_flag (lc_arg_flags c) OCFS2_LOCK_NONBLOCK then cluster_lock_nonblock w c s else cluster_lock_sleep w c s)"

section \<open>Releasing a lock\<close>

definition ocfs2_downconvert_on_unlock :: "rp \<Rightarrow> ocfs2_super \<Rightarrow> ocfs2_super option" where
  "ocfs2_downconvert_on_unlock r s = do {
     x \<leftarrow> os_res s r;
     kick \<leftarrow> (if \<not> res_flag OCFS2_LOCK_BLOCKED x then Some False
        else if l_blocking x = DLM_LOCK_EX then Some (l_ex_holders x = 0 \<and> l_ro_holders x = 0)
        else if l_blocking x = DLM_LOCK_PR then Some (l_ex_holders x = 0)
        else None);
     Some (if kick then ocfs2_wake_downconvert_thread s else s)
   }"

definition us_us_ocfs2_cluster_unlock :: "rp \<Rightarrow> int \<Rightarrow> ocfs2_super \<Rightarrow> ocfs2_super option" where
  "us_us_ocfs2_cluster_unlock r level s = do {
     s \<leftarrow> ocfs2_dec_holders r level s;
     ocfs2_downconvert_on_unlock r s
   }"

section \<open>Locks of new inodes\<close>

text \<open>\<open>ocfs2_create_new_lock\<close> to its call of \<open>ocfs2_lock_create\<close>, and the first part of that: the generation
  for the call of the lock manager, or \<open>None\<close> if somebody else is working on the lock.\<close>

definition ocfs2_create_new_lock :: "rp \<Rightarrow> ocfs2_super \<Rightarrow> ocfs2_super option" where
  "ocfs2_create_new_lock r s = do {
     x \<leftarrow> os_res s r;
     _ \<leftarrow> dlm_assert (\<not> res_flag OCFS2_LOCK_ATTACHED x);
     lockres_or_flags r {OCFS2_LOCK_LOCAL} s
   }"

definition ocfs2_lock_create :: "rp \<Rightarrow> int \<Rightarrow> ocfs2_super \<Rightarrow> (u32 option \<times> ocfs2_super) option" where
  "ocfs2_lock_create r level s = do {
     x \<leftarrow> os_res s r;
     if res_flag OCFS2_LOCK_ATTACHED x \<or> res_flag OCFS2_LOCK_BUSY x then Some (None, s)
     else do {
       s \<leftarrow> upd_res r (\<lambda>x. x\<lparr>l_action := OCFS2_AST_ATTACH, l_requested := level\<rparr>) s;
       s \<leftarrow> lockres_or_flags r {OCFS2_LOCK_BUSY} s;
       (gen, s) \<leftarrow> lockres_set_pending r s;
       Some (Some gen, s)
     }
   }"

end
