(* ===== verification/Ocfs2_Down.thy ===== *)
theory Ocfs2_Down
  imports Ocfs2_Lock
begin

text \<open>
  The downconvert thread of OCFS2 (\<open>dlmglue.c\<close>), which gives locks up that other nodes wait for, and the
  end of a lock resource. As in \<open>Ocfs2_Lock\<close> a function that gives the spin lock up is cut into parts.
  What the operations of a lock type answer (\<open>check_downconvert\<close>, \<open>downconvert_worker\<close>) is an argument;
  \<open>set_lvb\<close>, which fills the value block, and \<open>post_unlock\<close> do not change what is modelled.
\<close>

section \<open>Preparing a downconvert or a cancel\<close>

definition ocfs2_prepare_downconvert :: "rp \<Rightarrow> int \<Rightarrow> ocfs2_super \<Rightarrow> (u32 \<times> ocfs2_super) option" where
  "ocfs2_prepare_downconvert r new_level s = do {
     x \<leftarrow> os_res s r;
     _ \<leftarrow> dlm_assert (DLM_LOCK_NL < l_blocking x);
     _ \<leftarrow> dlm_assert (new_level < l_level x);
     s \<leftarrow> upd_res r (\<lambda>x. x\<lparr>l_action := OCFS2_AST_DOWNCONVERT, l_requested := new_level\<rparr>) s;
     s \<leftarrow> lockres_or_flags r {OCFS2_LOCK_BUSY} s;
     lockres_set_pending r s
   }"

text \<open>Whether the caller is to call \<open>ocfs2_cancel_convert\<close>.\<close>

definition ocfs2_prepare_cancel_convert :: "rp \<Rightarrow> ocfs2_super \<Rightarrow> (bool \<times> ocfs2_super) option" where
  "ocfs2_prepare_cancel_convert r s = do {
     x \<leftarrow> os_res s r;
     if l_unlock_action x = OCFS2_UNLOCK_CANCEL_CONVERT then Some (False, s)
     else do {
       _ \<leftarrow> dlm_assert (l_action x = OCFS2_AST_CONVERT \<or> l_action x = OCFS2_AST_DOWNCONVERT);
       s \<leftarrow> upd_res r (\<lambda>x. x\<lparr>l_unlock_action := OCFS2_UNLOCK_CANCEL_CONVERT\<rparr>) s;
       _ \<leftarrow> dlm_assert (res_flag OCFS2_LOCK_BUSY x);
       Some (True, s)
     }
   }"

text \<open>What \<open>ocfs2_downconvert_lock\<close> asks the lock manager for, and \<open>ocfs2_cancel_convert\<close> after its call.\<close>

definition ocfs2_downconvert_flags :: "bool \<Rightarrow> bool \<Rightarrow> ocfs2_lock_res \<Rightarrow> u32" where
  "ocfs2_downconvert_flags userspace_stack lvb x =
     (if userspace_stack \<and> ops_flag LOCK_TYPE_USES_LVB x \<or> lvb then DLM_LKF_CONVERT OR DLM_LKF_VALBLK else DLM_LKF_CONVERT)"

definition ocfs2_cancel_convert :: "rp \<Rightarrow> int \<Rightarrow> ocfs2_super \<Rightarrow> ocfs2_super option" where
  "ocfs2_cancel_convert r ret s = (if ret \<noteq> 0 then ocfs2_recover_from_dlm_error r False s else Some s)"

section \<open>Unblocking\<close>

record unblock_ctl =
  requeue :: bool
  ctl_action :: unblock_action

text \<open>What comes after a part of \<open>ocfs2_unblock_lock\<close>: it is over, \<open>ocfs2_cancel_convert\<close> is called, the
  worker runs for this \<open>blocking\<close> and \<open>level\<close>, or the lock manager is called for the new level.\<close>

datatype unblock_turn =
    Unblock_leave unblock_ctl
  | Unblock_cancel unblock_ctl
  | Unblock_worker unblock_ctl int int
  | Unblock_call unblock_ctl int bool u32

definition leave_requeue :: "unblock_ctl \<Rightarrow> ocfs2_super \<Rightarrow> (unblock_turn \<times> ocfs2_super) option" where
  "leave_requeue ctl s = Some (Unblock_leave (ctl\<lparr>requeue := True\<rparr>), s)"

text \<open>The label \<open>downconvert\<close>.\<close>

definition unblock_downconvert :: "rp \<Rightarrow> int \<Rightarrow> unblock_ctl \<Rightarrow> ocfs2_super \<Rightarrow> (unblock_turn \<times> ocfs2_super) option" where
  "unblock_downconvert r new_level ctl s = do {
     x \<leftarrow> os_res s r;
     (gen, s) \<leftarrow> ocfs2_prepare_downconvert r new_level s;
     Some (Unblock_call (ctl\<lparr>requeue := False\<rparr>) new_level (ops_flag LOCK_TYPE_USES_LVB x \<and> l_level x = DLM_LOCK_EX) gen, s)
   }"

text \<open>A request of this node is in the way.\<close>

definition unblock_busy :: "rp \<Rightarrow> unblock_ctl \<Rightarrow> ocfs2_super \<Rightarrow> (unblock_turn \<times> ocfs2_super) option" where
  "unblock_busy r ctl s = do {
     x \<leftarrow> os_res s r;
     if res_flag OCFS2_LOCK_PENDING x then leave_requeue ctl s
     else do {
       let ctl = ctl\<lparr>requeue := True\<rparr>;
       (ret, s) \<leftarrow> ocfs2_prepare_cancel_convert r s;
       Some (if ret then Unblock_cancel ctl else Unblock_leave ctl, s)
     }
   }"

text \<open>From \<open>recheck\<close> to the worker; \<open>check\<close> is the answer of \<open>check_downconvert\<close>.\<close>

definition unblock_recheck :: "bool \<Rightarrow> rp \<Rightarrow> unblock_ctl \<Rightarrow> ocfs2_super \<Rightarrow> (unblock_turn \<times> ocfs2_super) option" where
  "unblock_recheck check r ctl s = do {
     x \<leftarrow> os_res s r;
     if \<not> res_flag OCFS2_LOCK_BLOCKED x then do {
       _ \<leftarrow> dlm_assert (l_blocking x = DLM_LOCK_NL);
       Some (Unblock_leave ctl, s)
     }
     else if res_flag OCFS2_LOCK_BUSY x then unblock_busy r ctl s
     else if res_flag OCFS2_LOCK_UPCONVERT_FINISHING x then leave_requeue ctl s
     else if l_level x = DLM_LOCK_NL then do {
       _ \<leftarrow> dlm_assert (l_ex_holders x = 0 \<and> l_ro_holders x = 0);
       s \<leftarrow> upd_res r (\<lambda>x. x\<lparr>l_blocking := DLM_LOCK_NL\<rparr>) s;
       s \<leftarrow> lockres_clear_flags r {OCFS2_LOCK_BLOCKED} s;
       Some (Unblock_leave ctl, s)
     }
     else if l_blocking x = DLM_LOCK_EX \<and> (l_ex_holders x \<noteq> 0 \<or> l_ro_holders x \<noteq> 0) then leave_requeue ctl s
     else if l_blocking x = DLM_LOCK_PR \<and> l_ex_holders x \<noteq> 0 then leave_requeue ctl s
     else if ops_flag LOCK_TYPE_REQUIRES_REFRESH x \<and> res_flag OCFS2_LOCK_REFRESHING x then leave_requeue ctl s
     else if has_check_downconvert (l_ops x) \<and> \<not> check then leave_requeue ctl s
     else if \<not> has_downconvert_worker (l_ops x)
     then unblock_downconvert r (ocfs2_highest_compat_lock_level (l_blocking x)) ctl s
     else Some (Unblock_worker ctl (l_blocking x) (l_level x), s)
   }"

text \<open>After the worker: \<open>blocking\<close> and \<open>level\<close> are what they were before it.\<close>

definition unblock_worked ::
  "bool \<Rightarrow> rp \<Rightarrow> int \<Rightarrow> int \<Rightarrow> unblock_action \<Rightarrow> unblock_ctl \<Rightarrow> ocfs2_super \<Rightarrow> (unblock_turn \<times> ocfs2_super) option" where
  "unblock_worked check r blocking level act ctl s = do {
     let ctl = ctl\<lparr>ctl_action := act\<rparr>;
     if act = UNBLOCK_STOP_POST then Some (Unblock_leave ctl, s)
     else do {
       x \<leftarrow> os_res s r;
       if blocking \<noteq> l_blocking x \<or> level \<noteq> l_level x then unblock_recheck check r ctl s
       else unblock_downconvert r (ocfs2_highest_compat_lock_level blocking) ctl s
     }
   }"

text \<open>After \<open>ocfs2_downconvert_lock\<close> has returned \<open>ret\<close>.\<close>

definition unblock_called :: "int \<Rightarrow> unblock_ctl \<Rightarrow> unblock_ctl" where
  "unblock_called ret ctl = (if ret = -EBUSY then ctl\<lparr>requeue := True\<rparr> else ctl)"

section \<open>The thread\<close>

text \<open>\<open>ocfs2_process_blocked_lock\<close>: whether \<open>ocfs2_unblock_lock\<close> is called, and its end, from \<open>unqueue\<close>; the
  result there is whether \<open>post_unlock\<close> is called.\<close>

definition process_blocked_begin :: "rp \<Rightarrow> ocfs2_super \<Rightarrow> bool option" where
  "process_blocked_begin r s = do { x \<leftarrow> os_res s r; Some (\<not> res_flag OCFS2_LOCK_FREEING x) }"

definition process_blocked_end :: "rp \<Rightarrow> unblock_ctl \<Rightarrow> ocfs2_super \<Rightarrow> (bool \<times> ocfs2_super) option" where
  "process_blocked_end r ctl s = do {
     x \<leftarrow> os_res s r;
     s \<leftarrow> (if res_flag OCFS2_LOCK_FREEING x \<or> \<not> requeue ctl
          then lockres_clear_flags r {OCFS2_LOCK_QUEUED} s
          else ocfs2_schedule_blocked_lock r s);
     Some (ctl_action ctl \<noteq> UNBLOCK_CONTINUE \<and> has_post_unlock (l_ops x), s)
   }"

definition ctl0 :: unblock_ctl where
  "ctl0 = \<lparr>requeue = False, ctl_action = UNBLOCK_CONTINUE\<rparr>"

text \<open>\<open>ocfs2_downconvert_thread_do_work\<close>: its start, with the number of locks to be processed, and the
  next lock, if any.\<close>

definition do_work_begin :: "ocfs2_super \<Rightarrow> u64 \<times> ocfs2_super" where
  "do_work_begin s = (blocked_lock_count s, s\<lparr>dc_work_sequence := dc_wake_sequence s\<rparr>)"

definition do_work_next :: "u64 \<Rightarrow> ocfs2_super \<Rightarrow> (rp \<times> u64 \<times> ocfs2_super) option" where
  "do_work_next processed s =
     (case blocked_lock_list s of
        [] \<Rightarrow> None
      | r # rs \<Rightarrow> if processed = 0 then None
          else Some (r, processed - 1, s\<lparr>blocked_lock_list := rs, blocked_lock_count := blocked_lock_count s - 1\<rparr>))"

definition ocfs2_downconvert_thread_lists_empty :: "ocfs2_super \<Rightarrow> bool" where
  "ocfs2_downconvert_thread_lists_empty s \<longleftrightarrow> blocked_lock_list s = []"

definition ocfs2_downconvert_thread_should_wake :: "ocfs2_super \<Rightarrow> bool" where
  "ocfs2_downconvert_thread_should_wake s \<longleftrightarrow> dc_work_sequence s \<noteq> dc_wake_sequence s"

section \<open>The end of a lock resource\<close>

text \<open>\<open>ocfs2_mark_lockres_freeing\<close>, called by another process than the thread: whether it has to wait for
  the thread, and the next look after each wait. The thread itself takes the resource off the list.\<close>

definition freeing_wait :: "mwp \<Rightarrow> rp \<Rightarrow> ocfs2_super \<Rightarrow> (bool \<times> ocfs2_super) option" where
  "freeing_wait w r s = do {
     x \<leftarrow> os_res s r;
     if res_flag OCFS2_LOCK_QUEUED x
     then do { s \<leftarrow> lockres_add_mask_waiter r w {OCFS2_LOCK_QUEUED} {} s; Some (True, s) }
     else Some (False, s)
   }"

definition ocfs2_mark_lockres_freeing :: "bool \<Rightarrow> mwp \<Rightarrow> rp \<Rightarrow> ocfs2_super \<Rightarrow> (bool \<times> ocfs2_super) option" where
  "ocfs2_mark_lockres_freeing thread w r s = do {
     let s = ocfs2_init_mask_waiter w s;
     s \<leftarrow> upd_res r (\<lambda>x. x\<lparr>l_flags := insert OCFS2_LOCK_FREEING (l_flags x)\<rparr>) s;
     x \<leftarrow> os_res s r;
     if res_flag OCFS2_LOCK_QUEUED x \<and> thread then do {
       let s = s\<lparr>blocked_lock_list := remove1 r (blocked_lock_list s), blocked_lock_count := blocked_lock_count s - 1\<rparr>;
       (_, s) \<leftarrow> process_blocked_end r ctl0 s;
       Some (False, s)
     }
     else freeing_wait w r s
   }"

text \<open>\<open>ocfs2_drop_lock\<close> when the lock is not busy any more: whether the lock manager has to be told, with
  these flags; \<open>None\<close> while it is busy.\<close>

definition ocfs2_drop_lock :: "rp \<Rightarrow> ocfs2_super \<Rightarrow> (u32 option \<times> ocfs2_super) option" where
  "ocfs2_drop_lock r s = do {
     x \<leftarrow> os_res s r;
     if \<not> res_flag OCFS2_LOCK_INITIALIZED x then Some (None, s)
     else do {
       _ \<leftarrow> dlm_assert (res_flag OCFS2_LOCK_FREEING x);
       _ \<leftarrow> dlm_assert (\<not> res_flag OCFS2_LOCK_BUSY x);
       if \<not> res_flag OCFS2_LOCK_ATTACHED x then Some (None, s)
       else do {
         s \<leftarrow> lockres_clear_flags r {OCFS2_LOCK_ATTACHED} s;
         _ \<leftarrow> dlm_assert (l_action x = OCFS2_AST_INVALID);
         s \<leftarrow> lockres_or_flags r {OCFS2_LOCK_BUSY} s;
         s \<leftarrow> upd_res r (\<lambda>x. x\<lparr>l_unlock_action := OCFS2_UNLOCK_DROP_LOCK\<rparr>) s;
         Some (Some (if ops_flag LOCK_TYPE_USES_LVB x then DLM_LKF_VALBLK else 0), s)
       }
     }
   }"

definition ocfs2_lock_res_free :: "rp \<Rightarrow> ocfs2_super \<Rightarrow> ocfs2_super option" where
  "ocfs2_lock_res_free r s = do {
     x \<leftarrow> os_res s r;
     if \<not> res_flag OCFS2_LOCK_INITIALIZED x then Some s
     else do {
       _ \<leftarrow> dlm_assert (r \<notin> set (blocked_lock_list s));
       _ \<leftarrow> dlm_assert (l_mask_waiters x = []);
       _ \<leftarrow> dlm_assert (l_ro_holders x = 0);
       _ \<leftarrow> dlm_assert (l_ex_holders x = 0);
       upd_res r (\<lambda>x. x\<lparr>l_lksb := \<lparr>sb_status = 0, sb_lkid = 0, sb_flags = 0, sb_lvbptr = None\<rparr>, l_flags := {}\<rparr>) s
     }
   }"

end
