(* ===== verification/Ocfs2_Run.thy ===== *)
theory Ocfs2_Run
  imports Ocfs2_Down
begin

text \<open>
  The processes of a node that use OCFS2 locks, its downconvert thread and the lock manager, interleaved.
  Every process is at a place in the code between two sections of \<open>l_lock\<close> (\<open>pc\<close>, with its local
  variables); an event lets one process run its next section, or the lock manager answer a request or
  send a callback. Process 0 is the downconvert thread. A mask waiter lives on the stack of its
  process, so its address is the number of the process.

  The lock manager has, for each lock resource, the mode it has granted and at most one request. What is
  assumed of it stands in \<open>possible\<close>: it answers what it was asked, a process that told it not to queue
  may get \<open>EAGAIN\<close>, a downconvert is granted when it is made, a cancel ends an upconvert only, and a
  blocking callback names a mode that conflicts with what has been granted.
\<close>

section \<open>Places\<close>

text \<open>Who calls \<open>ocfs2_dlm_lock\<close>: \<open>__ocfs2_cluster_lock\<close> or \<open>ocfs2_cluster_lock_notify\<close>,
  \<open>ocfs2_lock_create\<close>, and \<open>ocfs2_downconvert_lock\<close>.\<close>

datatype asker =
    By_lock lock_call
  | By_create rp int
  | By_down u64 rp unblock_ctl int

datatype pc =
    Idle
  | Again lock_call
  | Out lock_call
  | Create rp int
  | Dlm_call asker u32
  | Dlm_called asker u32 int
  | Dlm_failed asker int
  | Dc_next u64
  | Dc_process u64 rp
  | Dc_unblock u64 rp unblock_ctl
  | Dc_cancel u64 rp unblock_ctl
  | Dc_worker u64 rp unblock_ctl int int
  | Dc_end u64 rp unblock_ctl

fun asker_res :: "asker \<Rightarrow> rp" where
  "asker_res (By_lock c) = lc_res c"
| "asker_res (By_create r l) = r"
| "asker_res (By_down n r ctl l) = r"

fun asker_level :: "asker \<Rightarrow> int" where
  "asker_level (By_lock c) = lc_level c"
| "asker_level (By_create r l) = l"
| "asker_level (By_down n r ctl l) = l"

fun asker_noqueue :: "asker \<Rightarrow> bool" where
  "asker_noqueue (By_lock c) = has_flag (lc_lkm_flags c) DLM_LKF_NOQUEUE"
| "asker_noqueue (By_create r l) = False"
| "asker_noqueue (By_down n r ctl l) = False"

text \<open>Where a process goes on once \<open>lockres_clear_pending\<close> is done, with the answer of the lock manager.\<close>

fun after_call :: "asker \<Rightarrow> int \<Rightarrow> pc" where
  "after_call (By_lock c) ret = (if ret \<noteq> 0 then Dlm_failed (By_lock c) ret else Again (cluster_lock_asked c))"
| "after_call (By_create r l) ret = (if ret \<noteq> 0 then Dlm_failed (By_create r l) ret else Idle)"
| "after_call (By_down n r ctl l) ret =
     (if ret \<noteq> 0 then Dlm_failed (By_down n r ctl l) ret else Dc_end n r (unblock_called ret ctl))"

fun after_failure :: "asker \<Rightarrow> int \<Rightarrow> pc" where
  "after_failure (By_lock c) ret = Idle"
| "after_failure (By_create r l) ret = Idle"
| "after_failure (By_down n r ctl l) ret = Dc_end n r (unblock_called ret ctl)"

fun after_turn :: "lock_turn \<Rightarrow> pc" where
  "after_turn (Turn_return ret) = Idle"
| "after_turn (Turn_wait c) = Out c"
| "after_turn (Turn_call c gen) = Dlm_call (By_lock c) gen"
| "after_turn (Turn_again c) = Again c"

fun after_unblock :: "u64 \<Rightarrow> rp \<Rightarrow> unblock_turn \<Rightarrow> pc" where
  "after_unblock n r (Unblock_leave ctl) = Dc_end n r ctl"
| "after_unblock n r (Unblock_cancel ctl) = Dc_cancel n r ctl"
| "after_unblock n r (Unblock_worker ctl blocking level) = Dc_worker n r ctl blocking level"
| "after_unblock n r (Unblock_call ctl level lvb gen) = Dlm_call (By_down n r ctl level) gen"

section \<open>The lock manager\<close>

record dlm_request =
  rq_mode :: int
  rq_noqueue :: bool
  rq_cancelled :: bool

record dlm_side =
  given :: int
  request :: "dlm_request option"

record node =
  osb :: ocfs2_super
  pcs :: "nat \<Rightarrow> pc"
  dlm :: "rp \<Rightarrow> dlm_side"

text \<open>A request is taken; a downconvert is granted at once, only its callback is still to come.\<close>

definition dlm_take :: "asker \<Rightarrow> dlm_side \<Rightarrow> dlm_side" where
  "dlm_take a q = q\<lparr>given := min (given q) (asker_level a),
     request := Some \<lparr>rq_mode = asker_level a, rq_noqueue = asker_noqueue a, rq_cancelled = False\<rparr>\<rparr>"

text \<open>\<open>dlm_unlock\<close> with \<open>DLM_LKF_CANCEL\<close>, whose result is 0 also if there is nothing to cancel: no request, one
  that is being cancelled, or a downconvert.\<close>

definition to_cancel :: "dlm_side \<Rightarrow> bool" where
  "to_cancel q \<longleftrightarrow> (case request q of None \<Rightarrow> False | Some rq \<Rightarrow> \<not> rq_cancelled rq \<and> given q < rq_mode rq)"

definition dlm_cancel :: "dlm_side \<Rightarrow> int \<times> dlm_side" where
  "dlm_cancel q = (0, if to_cancel q then q\<lparr>request := map_option (\<lambda>rq. rq\<lparr>rq_cancelled := True\<rparr>) (request q)\<rparr> else q)"

definition dlm_answer :: "int \<Rightarrow> dlm_side \<Rightarrow> dlm_side" where
  "dlm_answer status q = (case request q of
       None \<Rightarrow> q
     | Some rq \<Rightarrow> q\<lparr>given := (if status = 0 then rq_mode rq else given q), request := None\<rparr>)"

section \<open>Events\<close>

datatype event =
    Ev_lock nat bool rp int u32 u32 "u32 option"
  | Ev_again nat bool
  | Ev_out nat
  | Ev_create nat rp int
  | Ev_create_lock nat
  | Ev_call nat int
  | Ev_called nat
  | Ev_failed nat
  | Ev_unlock nat rp int
  | Ev_refresh nat rp
  | Ev_refreshed nat rp int
  | Ev_ast rp int
  | Ev_cancel_ast rp
  | Ev_bast rp int
  | Ev_dc_work
  | Ev_dc_take
  | Ev_dc_begin
  | Ev_dc_unblock bool
  | Ev_dc_worked bool unblock_action
  | Ev_dc_cancel
  | Ev_dc_end

definition goes :: "nat \<Rightarrow> pc \<Rightarrow> ocfs2_super \<Rightarrow> node \<Rightarrow> node" where
  "goes t p s n = n\<lparr>osb := s, pcs := (pcs n)(t := p)\<rparr>"

definition turns :: "nat \<Rightarrow> node \<Rightarrow> (lock_turn \<times> ocfs2_super) option \<Rightarrow> node option" where
  "turns t n m = do { (turn, s) \<leftarrow> m; Some (goes t (after_turn turn) s n) }"

definition unblocks :: "u64 \<Rightarrow> rp \<Rightarrow> node \<Rightarrow> (unblock_turn \<times> ocfs2_super) option \<Rightarrow> node option" where
  "unblocks k r n m = do { (turn, s) \<leftarrow> m; Some (goes 0 (after_unblock k r turn) s n) }"

definition set_status :: "int \<Rightarrow> ocfs2_lock_res \<Rightarrow> ocfs2_lock_res" where
  "set_status status x = x\<lparr>l_lksb := (l_lksb x)\<lparr>sb_status := status\<rparr>\<rparr>"

definition call_dlm :: "nat \<Rightarrow> asker \<Rightarrow> u32 \<Rightarrow> int \<Rightarrow> node \<Rightarrow> node" where
  "call_dlm t a gen ret n =
     (let r = asker_res a; q = dlm n r in
      n\<lparr>pcs := (pcs n)(t := Dlm_called a gen ret),
        dlm := (dlm n)(r := if ret \<noteq> 0 then q else dlm_take a q)\<rparr>)"

definition run_cancel :: "u64 \<Rightarrow> rp \<Rightarrow> unblock_ctl \<Rightarrow> node \<Rightarrow> node option" where
  "run_cancel k r ctl n = do {
     let (ret, q) = dlm_cancel (dlm n r);
     s \<leftarrow> ocfs2_cancel_convert r ret (osb n);
     Some (goes 0 (Dc_end k r ctl) s (n\<lparr>dlm := (dlm n)(r := q)\<rparr>))
   }"

fun run_event :: "event \<Rightarrow> node \<Rightarrow> node option" where
  "run_event (Ev_lock t nointr r level fl af parent) n =
     turns t n (cluster_lock_begin nointr t r level fl af parent (osb n))"
| "run_event (Ev_again t signal) n = (case pcs n t of
       Again c \<Rightarrow> turns t n (cluster_lock_again signal t c (osb n))
     | _ \<Rightarrow> None)"
| "run_event (Ev_out t) n = (case pcs n t of
       Out c \<Rightarrow> turns t n (cluster_lock_out t c (osb n))
     | _ \<Rightarrow> None)"
| "run_event (Ev_create t r level) n = do { s \<leftarrow> ocfs2_create_new_lock r (osb n); Some (goes t (Create r level) s n) }"
| "run_event (Ev_create_lock t) n = (case pcs n t of
       Create r level \<Rightarrow> do {
         (gen, s) \<leftarrow> ocfs2_lock_create r level (osb n);
         Some (goes t (case gen of None \<Rightarrow> Idle | Some g \<Rightarrow> Dlm_call (By_create r level) g) s n)
       }
     | _ \<Rightarrow> None)"
| "run_event (Ev_call t ret) n = (case pcs n t of
       Dlm_call a gen \<Rightarrow> Some (call_dlm t a gen ret n)
     | _ \<Rightarrow> None)"
| "run_event (Ev_called t) n = (case pcs n t of
       Dlm_called a gen ret \<Rightarrow> do {
         s \<leftarrow> us_us_lockres_clear_pending (asker_res a) gen (osb n);
         Some (goes t (after_call a ret) s n)
       }
     | _ \<Rightarrow> None)"
| "run_event (Ev_failed t) n = (case pcs n t of
       Dlm_failed a ret \<Rightarrow> do {
         s \<leftarrow> ocfs2_recover_from_dlm_error (asker_res a) True (osb n);
         Some (goes t (after_failure a ret) s n)
       }
     | _ \<Rightarrow> None)"
| "run_event (Ev_unlock t r level) n = do { s \<leftarrow> us_us_ocfs2_cluster_unlock r level (osb n); Some (n\<lparr>osb := s\<rparr>) }"
| "run_event (Ev_refresh t r) n = do { (_, s) \<leftarrow> ocfs2_should_refresh_lock_res r (osb n); Some (n\<lparr>osb := s\<rparr>) }"
| "run_event (Ev_refreshed t r status) n = do { s \<leftarrow> ocfs2_complete_lock_res_refresh r status (osb n); Some (n\<lparr>osb := s\<rparr>) }"
| "run_event (Ev_ast r status) n = do {
     s \<leftarrow> upd_res r (set_status status) (osb n);
     s \<leftarrow> fsdlm_lock_ast_wrapper r s;
     Some (n\<lparr>osb := s, dlm := (dlm n)(r := dlm_answer status (dlm n r))\<rparr>)
   }"
| "run_event (Ev_cancel_ast r) n = do {
     s \<leftarrow> upd_res r (set_status (- DLM_ECANCEL)) (osb n);
     s \<leftarrow> fsdlm_lock_ast_wrapper r s;
     Some (n\<lparr>osb := s, dlm := (dlm n)(r := dlm_answer (- DLM_ECANCEL) (dlm n r))\<rparr>)
   }"
| "run_event (Ev_bast r level) n = do { s \<leftarrow> ocfs2_blocking_ast r level (osb n); Some (n\<lparr>osb := s\<rparr>) }"
| "run_event Ev_dc_work n = (let (k, s) = do_work_begin (osb n) in Some (goes 0 (Dc_next k) s n))"
| "run_event Ev_dc_take n = (case pcs n 0 of
       Dc_next k \<Rightarrow> Some (case do_work_next k (osb n) of
           None \<Rightarrow> goes 0 Idle (osb n) n
         | Some (r, k, s) \<Rightarrow> goes 0 (Dc_process k r) s n)
     | _ \<Rightarrow> None)"
| "run_event Ev_dc_begin n = (case pcs n 0 of
       Dc_process k r \<Rightarrow> do {
         go \<leftarrow> process_blocked_begin r (osb n);
         Some (goes 0 (if go then Dc_unblock k r ctl0 else Dc_end k r ctl0) (osb n) n)
       }
     | _ \<Rightarrow> None)"
| "run_event (Ev_dc_unblock check) n = (case pcs n 0 of
       Dc_unblock k r ctl \<Rightarrow> unblocks k r n (unblock_recheck check r ctl (osb n))
     | _ \<Rightarrow> None)"
| "run_event (Ev_dc_worked check act) n = (case pcs n 0 of
       Dc_worker k r ctl blocking level \<Rightarrow> unblocks k r n (unblock_worked check r blocking level act ctl (osb n))
     | _ \<Rightarrow> None)"
| "run_event Ev_dc_cancel n = (case pcs n 0 of
       Dc_cancel k r ctl \<Rightarrow> run_cancel k r ctl n
     | _ \<Rightarrow> None)"
| "run_event Ev_dc_end n = (case pcs n 0 of
       Dc_end k r ctl \<Rightarrow> do {
         (_, s) \<leftarrow> process_blocked_end r ctl (osb n);
         Some (goes 0 (Dc_next k) s n)
       }
     | _ \<Rightarrow> None)"

text \<open>Whether an event can happen.\<close>

definition res_sat :: "(ocfs2_lock_res \<Rightarrow> bool) \<Rightarrow> rp \<Rightarrow> node \<Rightarrow> bool" where
  "res_sat P r n \<longleftrightarrow> (case os_res (osb n) r of None \<Rightarrow> False | Some x \<Rightarrow> P x)"

definition rq_sat :: "(dlm_request \<Rightarrow> bool) \<Rightarrow> rp \<Rightarrow> node \<Rightarrow> bool" where
  "rq_sat P r n \<longleftrightarrow> (case request (dlm n r) of None \<Rightarrow> False | Some rq \<Rightarrow> P rq)"

fun by_down :: "asker \<Rightarrow> bool" where
  "by_down (By_down n r ctl l) = True"
| "by_down a = False"

definition lock_level :: "int \<Rightarrow> bool" where
  "lock_level l \<longleftrightarrow> l = DLM_LOCK_PR \<or> l = DLM_LOCK_EX"

fun possible :: "event \<Rightarrow> node \<Rightarrow> bool" where
  "possible (Ev_lock t nointr r level fl af parent) n \<longleftrightarrow>
     t \<noteq> 0 \<and> pcs n t = Idle \<and> res_sat (\<lambda>x. True) r n \<and> lock_level level"
| "possible (Ev_again t signal) n \<longleftrightarrow> (case pcs n t of Again c \<Rightarrow> True | _ \<Rightarrow> False)"
| "possible (Ev_out t) n \<longleftrightarrow> (case pcs n t of
       Out c \<Rightarrow> has_flag (lc_arg_flags c) OCFS2_LOCK_NONBLOCK \<or> mw_complete (os_mws (osb n) t) \<noteq> 0
     | _ \<Rightarrow> False)"
| "possible (Ev_create t r level) n \<longleftrightarrow>
     t \<noteq> 0 \<and> pcs n t = Idle \<and> res_sat (\<lambda>x. \<not> res_flag OCFS2_LOCK_ATTACHED x) r n \<and> lock_level level"
| "possible (Ev_create_lock t) n \<longleftrightarrow> (case pcs n t of Create r level \<Rightarrow> True | _ \<Rightarrow> False)"
| "possible (Ev_call t ret) n \<longleftrightarrow> (case pcs n t of
       Dlm_call a gen \<Rightarrow> by_down a \<longrightarrow> ret = 0 \<or> ret = -EBUSY
     | _ \<Rightarrow> False)"
| "possible (Ev_called t) n \<longleftrightarrow> (case pcs n t of Dlm_called a gen ret \<Rightarrow> True | _ \<Rightarrow> False)"
| "possible (Ev_failed t) n \<longleftrightarrow> (case pcs n t of Dlm_failed a ret \<Rightarrow> True | _ \<Rightarrow> False)"
| "possible (Ev_unlock t r level) n \<longleftrightarrow> pcs n t = Idle \<and>
     res_sat (\<lambda>x. level = DLM_LOCK_EX \<and> l_ex_holders x \<noteq> 0 \<or> level = DLM_LOCK_PR \<and> l_ro_holders x \<noteq> 0) r n"
| "possible (Ev_refresh t r) n \<longleftrightarrow> pcs n t = Idle \<and>
     res_sat (\<lambda>x. \<not> (res_flag OCFS2_LOCK_NEEDS_REFRESH x \<and> res_flag OCFS2_LOCK_REFRESHING x)) r n"
| "possible (Ev_refreshed t r status) n \<longleftrightarrow> pcs n t = Idle \<and> res_sat (\<lambda>x. True) r n"
| "possible (Ev_ast r status) n \<longleftrightarrow> res_sat (\<lambda>x. True) r n \<and>
     rq_sat (\<lambda>rq. status = 0 \<or> status = -EAGAIN \<and> rq_noqueue rq \<and> given (dlm n r) < rq_mode rq) r n"
| "possible (Ev_cancel_ast r) n \<longleftrightarrow> res_sat (\<lambda>x. True) r n \<and>
     rq_sat (\<lambda>rq. rq_cancelled rq \<and> given (dlm n r) < rq_mode rq) r n"
| "possible (Ev_bast r level) n \<longleftrightarrow> lock_level level \<and>
     res_sat (\<lambda>x. ocfs2_highest_compat_lock_level level < l_level x) r n"
| "possible Ev_dc_work n \<longleftrightarrow> pcs n 0 = Idle"
| "possible Ev_dc_take n \<longleftrightarrow> (case pcs n 0 of Dc_next k \<Rightarrow> True | _ \<Rightarrow> False)"
| "possible Ev_dc_begin n \<longleftrightarrow> (case pcs n 0 of Dc_process k r \<Rightarrow> True | _ \<Rightarrow> False)"
| "possible (Ev_dc_unblock check) n \<longleftrightarrow> (case pcs n 0 of Dc_unblock k r ctl \<Rightarrow> True | _ \<Rightarrow> False)"
| "possible (Ev_dc_worked check act) n \<longleftrightarrow> act \<noteq> UNBLOCK_STOP_POST \<and>
     (case pcs n 0 of Dc_worker k r ctl blocking level \<Rightarrow> True | _ \<Rightarrow> False)"
| "possible Ev_dc_cancel n \<longleftrightarrow> (case pcs n 0 of Dc_cancel k r ctl \<Rightarrow> True | _ \<Rightarrow> False)"
| "possible Ev_dc_end n \<longleftrightarrow> (case pcs n 0 of Dc_end k r ctl \<Rightarrow> True | _ \<Rightarrow> False)"

text \<open>
  What the code does not ensure, and what its invariant needs. \<open>ocfs2_unblock_lock\<close> decides to cancel a
  request under \<open>l_lock\<close>, and \<open>ocfs2_cancel_convert\<close> calls the lock manager after it has given that lock
  up. The cancel is in time if it meets the request it was meant for, or nothing that it can cancel. Also,
  the generations of a lock resource do not wrap around.
\<close>

definition cancel_in_time :: "rp \<Rightarrow> node \<Rightarrow> bool" where
  "cancel_in_time r n \<longleftrightarrow> \<not> to_cancel (dlm n r) \<or>
     res_sat (\<lambda>x. l_unlock_action x = OCFS2_UNLOCK_CANCEL_CONVERT \<and> \<not> res_flag OCFS2_LOCK_PENDING x) r n"

definition gen_room :: "rp \<Rightarrow> node \<Rightarrow> bool" where
  "gen_room r n \<longleftrightarrow> res_sat (\<lambda>x. l_pending_gen x + 1 \<noteq> 0) r n"

fun timely :: "event \<Rightarrow> node \<Rightarrow> bool" where
  "timely (Ev_again t signal) n \<longleftrightarrow> (case pcs n t of Again c \<Rightarrow> gen_room (lc_res c) n | _ \<Rightarrow> True)"
| "timely (Ev_create_lock t) n \<longleftrightarrow> (case pcs n t of Create r level \<Rightarrow> gen_room r n | _ \<Rightarrow> True)"
| "timely (Ev_dc_unblock check) n \<longleftrightarrow> (case pcs n 0 of Dc_unblock k r ctl \<Rightarrow> gen_room r n | _ \<Rightarrow> True)"
| "timely (Ev_dc_worked check act) n \<longleftrightarrow> (case pcs n 0 of Dc_worker k r ctl blocking level \<Rightarrow> gen_room r n | _ \<Rightarrow> True)"
| "timely Ev_dc_cancel n \<longleftrightarrow> (case pcs n 0 of Dc_cancel k r ctl \<Rightarrow> cancel_in_time r n | _ \<Rightarrow> True)"
| "timely e n \<longleftrightarrow> True"

section \<open>Runs\<close>

definition fresh_res :: "ocfs2_lock_res \<Rightarrow> bool" where
  "fresh_res x \<longleftrightarrow> l_flags x = {OCFS2_LOCK_INITIALIZED} \<and> l_level x = DLM_LOCK_IV \<and> l_blocking x = DLM_LOCK_IV \<and>
     l_action x = OCFS2_AST_INVALID \<and> l_unlock_action x = OCFS2_UNLOCK_INVALID \<and> l_ro_holders x = 0 \<and>
     l_ex_holders x = 0 \<and> l_mask_waiters x = []"

definition start_node :: "node \<Rightarrow> bool" where
  "start_node n \<longleftrightarrow> (\<forall>r x. os_res (osb n) r = Some x \<longrightarrow> fresh_res x) \<and> blocked_lock_list (osb n) = [] \<and>
     (\<forall>t. pcs n t = Idle) \<and> (\<forall>r. dlm n r = \<lparr>given = DLM_LOCK_IV, request = None\<rparr>)"

text \<open>\<open>late\<close>: cancels may come too late.\<close>

definition ocfs2_step :: "bool \<Rightarrow> node \<Rightarrow> node \<Rightarrow> bool" where
  "ocfs2_step late n n' \<longleftrightarrow> (\<exists>e. possible e n \<and> (late \<or> timely e n) \<and> run_event e n = Some n')"

end
