(* ===== verification/Ocfs2_Section.thy ===== *)
theory Ocfs2_Section
  imports Ocfs2_Run
begin

text \<open>
  What the sections of \<open>dlmglue.c\<close> do, each as one function on the lock resource it works on. The mask
  waiters are kept apart: a section takes some of them off the list and completes them, namely those
  that wait for flags it reached. \<open>like r y s s'\<close> says that \<open>s'\<close> is \<open>s\<close> with \<open>y\<close> for the resource \<open>r\<close> but for
  the waiters that have been woken; the lemmas \<open>*_like\<close> show that each section ends well, and how.
\<close>

section \<open>Results\<close>

definition yields :: "'a option \<Rightarrow> ('a \<Rightarrow> bool) \<Rightarrow> bool" where
  "yields m Q \<longleftrightarrow> (\<exists>v. m = Some v \<and> Q v)"

lemma yields_Some [simp]: "yields (Some v) Q = Q v"
  by (simp add: yields_def)

lemma yields_bind: "yields m (\<lambda>v. yields (f v) Q) \<Longrightarrow> yields (m \<bind> f) Q"
  by (auto simp: yields_def)

lemma yields_mono: "yields m Q \<Longrightarrow> (\<And>v. Q v \<Longrightarrow> R v) \<Longrightarrow> yields m R"
  by (auto simp: yields_def)

lemma yields_next: "yields m P \<Longrightarrow> (\<And>v. P v \<Longrightarrow> yields (f v) Q) \<Longrightarrow> yields (m \<bind> f) Q"
  by (auto simp: yields_def)

lemma yields_assert [simp]: "yields (dlm_assert b \<bind> f) Q \<longleftrightarrow> b \<and> yields (f ()) Q"
  by (auto simp: yields_def dlm_assert_def)

lemma yields_post: "yields m Q \<Longrightarrow> m = Some v \<Longrightarrow> Q v"
  by (simp add: yields_def)

section \<open>Waking\<close>

definition unreached :: "ocfs2_super \<Rightarrow> ocfs2_lock_res \<Rightarrow> mwp set" where
  "unreached s x = {w. \<not> mw_reached (l_flags x) (os_mws s w)}"

text \<open>Waiters that are woken leave the list of \<open>r\<close>; the others still wait if they did.\<close>

definition woken :: "rp \<Rightarrow> ocfs2_super \<Rightarrow> ocfs2_super \<Rightarrow> bool" where
  "woken r s s' \<longleftrightarrow> (\<exists>x x'. os_res s r = Some x \<and> os_res s' r = Some x' \<and>
     (distinct (l_mask_waiters x) \<longrightarrow> (\<exists>W. W \<subseteq> set (l_mask_waiters x) \<and>
        l_mask_waiters x' = filter (\<lambda>w. w \<notin> W) (l_mask_waiters x) \<and>
        os_mws s' = (\<lambda>w. if w \<in> W then complete_mw (os_mws s w) else os_mws s w) \<and>
        (set (l_mask_waiters x) \<subseteq> unreached s x \<longrightarrow> set (l_mask_waiters x') \<subseteq> unreached s' x'))))"

lemma woken_trans:
  assumes "woken r s s1" "woken r s1 s2" shows "woken r s s2"
proof -
  obtain x x1 where x: "os_res s r = Some x" "os_res s1 r = Some x1"
    and h: "distinct (l_mask_waiters x) \<longrightarrow> (\<exists>W. W \<subseteq> set (l_mask_waiters x) \<and>
        l_mask_waiters x1 = filter (\<lambda>w. w \<notin> W) (l_mask_waiters x) \<and>
        os_mws s1 = (\<lambda>w. if w \<in> W then complete_mw (os_mws s w) else os_mws s w) \<and>
        (set (l_mask_waiters x) \<subseteq> unreached s x \<longrightarrow> set (l_mask_waiters x1) \<subseteq> unreached s1 x1))"
    using assms(1) by (auto simp: woken_def)
  obtain x2 where x2: "os_res s2 r = Some x2"
    and h2: "distinct (l_mask_waiters x1) \<longrightarrow> (\<exists>W. W \<subseteq> set (l_mask_waiters x1) \<and>
        l_mask_waiters x2 = filter (\<lambda>w. w \<notin> W) (l_mask_waiters x1) \<and>
        os_mws s2 = (\<lambda>w. if w \<in> W then complete_mw (os_mws s1 w) else os_mws s1 w) \<and>
        (set (l_mask_waiters x1) \<subseteq> unreached s1 x1 \<longrightarrow> set (l_mask_waiters x2) \<subseteq> unreached s2 x2))"
    using assms(2) x(2) by (auto simp: woken_def)
  have "\<exists>W. W \<subseteq> set (l_mask_waiters x) \<and>
        l_mask_waiters x2 = filter (\<lambda>w. w \<notin> W) (l_mask_waiters x) \<and>
        os_mws s2 = (\<lambda>w. if w \<in> W then complete_mw (os_mws s w) else os_mws s w) \<and>
        (set (l_mask_waiters x) \<subseteq> unreached s x \<longrightarrow> set (l_mask_waiters x2) \<subseteq> unreached s2 x2)"
    if d: "distinct (l_mask_waiters x)"
  proof -
    obtain W where W: "W \<subseteq> set (l_mask_waiters x)" "l_mask_waiters x1 = filter (\<lambda>w. w \<notin> W) (l_mask_waiters x)"
        "os_mws s1 = (\<lambda>w. if w \<in> W then complete_mw (os_mws s w) else os_mws s w)"
        "set (l_mask_waiters x) \<subseteq> unreached s x \<longrightarrow> set (l_mask_waiters x1) \<subseteq> unreached s1 x1"
      using h d by blast
    have d1: "distinct (l_mask_waiters x1)" using W(2) d by simp
    obtain V where V: "V \<subseteq> set (l_mask_waiters x1)" "l_mask_waiters x2 = filter (\<lambda>w. w \<notin> V) (l_mask_waiters x1)"
        "os_mws s2 = (\<lambda>w. if w \<in> V then complete_mw (os_mws s1 w) else os_mws s1 w)"
        "set (l_mask_waiters x1) \<subseteq> unreached s1 x1 \<longrightarrow> set (l_mask_waiters x2) \<subseteq> unreached s2 x2"
      using h2 d1 by blast
    have VW: "V \<inter> W = {}" "V \<subseteq> set (l_mask_waiters x)" using V(1) W(2) by auto
    have "os_mws s2 = (\<lambda>w. if w \<in> V \<union> W then complete_mw (os_mws s w) else os_mws s w)"
      using V(3) W(3) VW by (auto simp: fun_eq_iff)
    moreover have "l_mask_waiters x2 = filter (\<lambda>w. w \<notin> V \<union> W) (l_mask_waiters x)"
      using V(2) W(2) by (auto simp: filter_filter intro: filter_cong)
    ultimately show ?thesis using W(1,4) VW(2) V(4) by (intro exI[of _ "V \<union> W"]) blast
  qed
  then show ?thesis using x(1) x2 by (auto simp: woken_def)
qed

lemma wake_mask_waiters_filter:
  "distinct ws \<Longrightarrow> wake_mask_waiters fl ws m =
     (filter (\<lambda>w. \<not> mw_reached fl (m w)) ws,
      \<lambda>w. if w \<in> set ws \<and> mw_reached fl (m w) then complete_mw (m w) else m w)"
proof (induction ws arbitrary: m)
  case (Cons w ws)
  have e: "filter (\<lambda>v. \<not> mw_reached fl ((m(w := complete_mw (m w))) v)) ws = filter (\<lambda>v. \<not> mw_reached fl (m v)) ws"
    using Cons.prems by (auto intro!: filter_cong)
  show ?case
  proof (cases "mw_reached fl (m w)")
    case True
    then show ?thesis using Cons e by (auto simp: fun_eq_iff)
  next
    case False
    then show ?thesis using Cons by (auto simp: fun_eq_iff)
  qed
qed simp

section \<open>The relation\<close>

definition like :: "rp \<Rightarrow> ocfs2_lock_res \<Rightarrow> ocfs2_super \<Rightarrow> ocfs2_super \<Rightarrow> bool" where
  "like r y s s' \<longleftrightarrow> (\<exists>ws. os_res s' = (os_res s)(r \<mapsto> y\<lparr>l_mask_waiters := ws\<rparr>)) \<and>
     blocked_lock_list s' = blocked_lock_list s \<and> blocked_lock_count s' = blocked_lock_count s \<and> woken r s s'"

lemma like_refl: "os_res s r = Some x \<Longrightarrow> like r x s s"
  unfolding like_def woken_def
  by (auto intro!: exI[of _ "l_mask_waiters x"] exI[of _ "{}"])

lemma like_read: "like r y s s' \<Longrightarrow> \<exists>ws. os_res s' r = Some (y\<lparr>l_mask_waiters := ws\<rparr>)"
  by (auto simp: like_def)

lemma like_other: "like r y s s' \<Longrightarrow> r' \<noteq> r \<Longrightarrow> os_res s' r' = os_res s r'"
  by (auto simp: like_def)

lemma like_list: "like r y s s' \<Longrightarrow> blocked_lock_list s' = blocked_lock_list s"
  by (simp add: like_def)

lemma like_trans: "like r y s s1 \<Longrightarrow> like r z s1 s2 \<Longrightarrow> like r z s s2"
  unfolding like_def by (auto intro: woken_trans)

lemma like_waiters [simp]: "like r (y\<lparr>l_mask_waiters := ws\<rparr>) s s' = like r y s s'"
  by (simp add: like_def)

lemma like_wake [simp]: "like r y s (ocfs2_wake_downconvert_thread s') = like r y s s'"
  by (simp add: like_def woken_def unreached_def ocfs2_wake_downconvert_thread_def)

lemma like_set_flags:
  assumes "os_res s r = Some x"
  shows "yields (lockres_set_flags r fl s) (like r (x\<lparr>l_flags := fl\<rparr>) s)"
proof -
  obtain ws m where w: "wake_mask_waiters fl (l_mask_waiters x) (os_mws s) = (ws, m)" by fastforce
  have "distinct (l_mask_waiters x) \<longrightarrow> (\<exists>W. W \<subseteq> set (l_mask_waiters x) \<and>
        ws = filter (\<lambda>w. w \<notin> W) (l_mask_waiters x) \<and>
        m = (\<lambda>w. if w \<in> W then complete_mw (os_mws s w) else os_mws s w) \<and>
        (\<forall>w\<in>set ws. \<not> mw_reached fl (m w)))"
  proof
    assume "distinct (l_mask_waiters x)"
    then have "ws = filter (\<lambda>w. \<not> mw_reached fl (os_mws s w)) (l_mask_waiters x)"
      "m = (\<lambda>w. if w \<in> set (l_mask_waiters x) \<and> mw_reached fl (os_mws s w) then complete_mw (os_mws s w) else os_mws s w)"
      using w by (auto simp: wake_mask_waiters_filter)
    then show "\<exists>W. W \<subseteq> set (l_mask_waiters x) \<and> ws = filter (\<lambda>w. w \<notin> W) (l_mask_waiters x) \<and>
        m = (\<lambda>w. if w \<in> W then complete_mw (os_mws s w) else os_mws s w) \<and> (\<forall>w\<in>set ws. \<not> mw_reached fl (m w))"
      by (intro exI[of _ "{w \<in> set (l_mask_waiters x). mw_reached fl (os_mws s w)}"]) (auto intro!: filter_cong)
  qed
  then show ?thesis using assms w
    by (auto simp: lockres_set_flags_def yields_def like_def woken_def unreached_def)
qed

text \<open>The steps a section is made of, from a state that is like \<open>y\<close> so far.\<close>

lemma like_reads:
  assumes "like r y s0 s" "\<And>ws. yields (f (y\<lparr>l_mask_waiters := ws\<rparr>)) Q"
  shows "yields (os_res s r \<bind> f) Q"
  using like_read[OF assms(1)] assms(2) by auto

lemma like_sets:
  assumes "like r y s0 s" shows "yields (lockres_set_flags r fl s) (like r (y\<lparr>l_flags := fl\<rparr>) s0)"
proof -
  obtain ws where "os_res s r = Some (y\<lparr>l_mask_waiters := ws\<rparr>)" using like_read[OF assms] by blast
  from like_set_flags[OF this, of fl] show ?thesis
    by (rule yields_mono) (rule like_trans[OF assms], simp add: like_def)
qed

lemma like_or: "like r y s0 s \<Longrightarrow> yields (lockres_or_flags r fl s) (like r (y\<lparr>l_flags := l_flags y \<union> fl\<rparr>) s0)"
  unfolding lockres_or_flags_def by (rule like_reads, assumption) (simp, rule like_sets)

lemma like_or1: "like r y s0 s \<Longrightarrow> yields (lockres_or_flags r {fl} s) (like r (y\<lparr>l_flags := insert fl (l_flags y)\<rparr>) s0)"
  using like_or[of r y s0 s "{fl}"] by simp

lemma like_clear: "like r y s0 s \<Longrightarrow> yields (lockres_clear_flags r fl s) (like r (y\<lparr>l_flags := l_flags y - fl\<rparr>) s0)"
  unfolding lockres_clear_flags_def by (rule like_reads, assumption) (simp, rule like_sets)

lemma like_upd:
  assumes "like r y s0 s"
    and f: "\<And>ws. f (y\<lparr>l_mask_waiters := ws\<rparr>) = (f y)\<lparr>l_mask_waiters := ws\<rparr>" "l_flags (f y) = l_flags y"
  shows "yields (upd_res r f s) (like r (f y) s0)"
proof -
  obtain ws where ws: "os_res s r = Some (y\<lparr>l_mask_waiters := ws\<rparr>)" using like_read[OF assms(1)] by blast
  have "woken r s (s\<lparr>os_res := (os_res s)(r \<mapsto> (f y)\<lparr>l_mask_waiters := ws\<rparr>)\<rparr>)"
    using ws f(2) by (auto simp: woken_def unreached_def intro!: exI[of _ "{}"])
  then have "like r (f y) s (s\<lparr>os_res := (os_res s)(r \<mapsto> (f y)\<lparr>l_mask_waiters := ws\<rparr>)\<rparr>)" by (auto simp: like_def)
  then show ?thesis using ws f like_trans[OF assms(1)] by simp
qed

lemma read_step: "like r y s0 s \<Longrightarrow> (\<And>ws. yields (f (y\<lparr>l_mask_waiters := ws\<rparr>)) Q) \<Longrightarrow> yields (os_res s r \<bind> f) Q"
  by (rule like_reads)

lemma or_step:
  "like r y s0 s \<Longrightarrow> (\<And>s'. like r (y\<lparr>l_flags := insert fl (l_flags y)\<rparr>) s0 s' \<Longrightarrow> yields (f s') Q) \<Longrightarrow>
   yields (lockres_or_flags r {fl} s \<bind> f) Q"
  by (blast intro: yields_next like_or1)

lemma clear_step:
  "like r y s0 s \<Longrightarrow> (\<And>s'. like r (y\<lparr>l_flags := l_flags y - fl\<rparr>) s0 s' \<Longrightarrow> yields (f s') Q) \<Longrightarrow>
   yields (lockres_clear_flags r fl s \<bind> f) Q"
  by (blast intro: yields_next like_clear)

lemma upd_step:
  "like r y s0 s \<Longrightarrow> (\<And>s'. like r (g y) s0 s' \<Longrightarrow> yields (f s') Q) \<Longrightarrow>
   (\<And>ws. g (y\<lparr>l_mask_waiters := ws\<rparr>) = (g y)\<lparr>l_mask_waiters := ws\<rparr>) \<Longrightarrow> l_flags (g y) = l_flags y \<Longrightarrow>
   yields (upd_res r g s \<bind> f) Q"
  by (blast intro: yields_next like_upd)

lemma or_end:
  "like r y s0 s \<Longrightarrow> (\<And>s'. like r (y\<lparr>l_flags := insert fl (l_flags y)\<rparr>) s0 s' \<Longrightarrow> Q s') \<Longrightarrow> yields (lockres_or_flags r {fl} s) Q"
  by (blast intro: yields_mono like_or1)

lemma clear_end:
  "like r y s0 s \<Longrightarrow> (\<And>s'. like r (y\<lparr>l_flags := l_flags y - fl\<rparr>) s0 s' \<Longrightarrow> Q s') \<Longrightarrow> yields (lockres_clear_flags r fl s) Q"
  by (blast intro: yields_mono like_clear)

lemma upd_end:
  "like r y s0 s \<Longrightarrow> (\<And>s'. like r (g y) s0 s' \<Longrightarrow> Q s') \<Longrightarrow>
   (\<And>ws. g (y\<lparr>l_mask_waiters := ws\<rparr>) = (g y)\<lparr>l_mask_waiters := ws\<rparr>) \<Longrightarrow> l_flags (g y) = l_flags y \<Longrightarrow>
   yields (upd_res r g s) Q"
  by (blast intro: yields_mono like_upd)

lemma like_cong: "like r y s0 s \<Longrightarrow> y = z \<Longrightarrow> like r z s0 s"
  by simp

lemmas flag_steps = or_step clear_step or_end clear_end

lemma res_flag_waiters [simp]: "res_flag fl (y\<lparr>l_mask_waiters := ws\<rparr>) = res_flag fl y"
  by (simp add: res_flag_def)

lemma ops_flag_waiters [simp]: "ops_flag fl (y\<lparr>l_mask_waiters := ws\<rparr>) = ops_flag fl y"
  by (simp add: ops_flag_def)

section \<open>The callbacks of the lock manager\<close>

definition pending_cleared :: "u32 \<Rightarrow> ocfs2_lock_res \<Rightarrow> ocfs2_lock_res" where
  "pending_cleared g y = (if res_flag OCFS2_LOCK_PENDING y \<and> l_pending_gen y = g
     then y\<lparr>l_flags := l_flags y - {OCFS2_LOCK_PENDING}, l_pending_gen := l_pending_gen y + 1\<rparr> else y)"

lemma pending_cleared_like:
  assumes "like r y s0 s" shows "yields (us_us_lockres_clear_pending r g s) (like r (pending_cleared g y) s0)"
  unfolding us_us_lockres_clear_pending_def
  apply (rule read_step[OF assms])
  apply (cases "res_flag OCFS2_LOCK_PENDING y \<and> l_pending_gen y = g")
   apply simp
   apply ((rule flag_steps, rule assms) | (rule upd_step, assumption))+
    apply (simp_all add: pending_cleared_def assms)
  apply (auto simp: assms)
  done

lemma set_pending_like:
  assumes "like r y s0 s" "res_flag OCFS2_LOCK_BUSY y"
  shows "yields (lockres_set_pending r s)
    (\<lambda>(g, s'). g = l_pending_gen y \<and> like r (y\<lparr>l_flags := insert OCFS2_LOCK_PENDING (l_flags y)\<rparr>) s0 s')"
  unfolding lockres_set_pending_def
  apply (rule read_step[OF assms(1)])
  apply (simp add: assms(2))
  apply (rule or_step[OF assms(1)])
  apply simp
  done

text \<open>What the callbacks make of a lock resource.\<close>

definition attached :: "ocfs2_lock_res \<Rightarrow> ocfs2_lock_res" where
  "attached y = y\<lparr>l_flags :=
     insert OCFS2_LOCK_ATTACHED
       (if DLM_LOCK_NL < l_requested y \<and> \<not> res_flag OCFS2_LOCK_LOCAL y \<and> ops_flag LOCK_TYPE_REQUIRES_REFRESH y
        then insert OCFS2_LOCK_NEEDS_REFRESH (l_flags y) else l_flags y) - {OCFS2_LOCK_BUSY} - {OCFS2_LOCK_LOCAL},
     l_level := l_requested y\<rparr>"

definition converted :: "ocfs2_lock_res \<Rightarrow> ocfs2_lock_res" where
  "converted y = (let fl = (if l_level y = DLM_LOCK_NL \<and> ops_flag LOCK_TYPE_REQUIRES_REFRESH y
        then insert OCFS2_LOCK_NEEDS_REFRESH (l_flags y) else l_flags y)
     in y\<lparr>l_flags := (if \<not> res_flag OCFS2_LOCK_NONBLOCK_FINISHED y then insert OCFS2_LOCK_UPCONVERT_FINISHING fl
        else fl - {OCFS2_LOCK_NONBLOCK_FINISHED}) - {OCFS2_LOCK_BUSY}, l_level := l_requested y\<rparr>)"

definition downconverted :: "ocfs2_lock_res \<Rightarrow> ocfs2_lock_res" where
  "downconverted y = (if l_requested y \<le> ocfs2_highest_compat_lock_level (l_blocking y)
     then y\<lparr>l_flags := l_flags y - {OCFS2_LOCK_BLOCKED} - {OCFS2_LOCK_BUSY}, l_level := l_requested y, l_blocking := DLM_LOCK_NL\<rparr>
     else y\<lparr>l_flags := l_flags y - {OCFS2_LOCK_BUSY}, l_level := l_requested y\<rparr>)"

definition answered :: "ocfs2_lock_res \<Rightarrow> ocfs2_lock_res" where
  "answered y = pending_cleared (l_pending_gen y) (y\<lparr>l_action := OCFS2_AST_INVALID,
     l_unlock_action := (if l_unlock_action y = OCFS2_UNLOCK_CANCEL_CONVERT then OCFS2_UNLOCK_INVALID else l_unlock_action y)\<rparr>)"

definition refused :: "ocfs2_lock_res \<Rightarrow> ocfs2_lock_res" where
  "refused y = answered (y\<lparr>l_flags := l_flags y - {OCFS2_LOCK_BUSY}\<rparr>)"

fun acted :: "ast_action \<Rightarrow> ocfs2_lock_res \<Rightarrow> ocfs2_lock_res" where
  "acted OCFS2_AST_ATTACH y = attached y"
| "acted OCFS2_AST_CONVERT y = converted y"
| "acted OCFS2_AST_DOWNCONVERT y = downconverted y"
| "acted OCFS2_AST_INVALID y = y"

definition may_act :: "ocfs2_lock_res \<Rightarrow> bool" where
  "may_act y \<longleftrightarrow> res_flag OCFS2_LOCK_BUSY y \<and> (case l_action y of
       OCFS2_AST_ATTACH \<Rightarrow> \<not> res_flag OCFS2_LOCK_ATTACHED y
     | OCFS2_AST_CONVERT \<Rightarrow> res_flag OCFS2_LOCK_ATTACHED y
     | OCFS2_AST_DOWNCONVERT \<Rightarrow> res_flag OCFS2_LOCK_ATTACHED y \<and> res_flag OCFS2_LOCK_BLOCKED y \<and> DLM_LOCK_NL < l_blocking y
     | OCFS2_AST_INVALID \<Rightarrow> False)"

lemma attached_like:
  assumes y: "like r y s0 s" and m: "res_flag OCFS2_LOCK_BUSY y" "\<not> res_flag OCFS2_LOCK_ATTACHED y"
  shows "yields (do { s \<leftarrow> ocfs2_generic_handle_attach_action r s; lockres_clear_flags r {OCFS2_LOCK_LOCAL} s })
    (like r (attached y) s0)"
  unfolding ocfs2_generic_handle_attach_action_def bind_assoc
  apply (rule read_step[OF y])
  apply (cases "DLM_LOCK_NL < l_requested y \<and> \<not> res_flag OCFS2_LOCK_LOCAL y \<and> ops_flag LOCK_TYPE_REQUIRES_REFRESH y")
   apply (simp add: m)
   apply ((rule flag_steps, rule y) | (rule flag_steps, assumption) | (rule upd_step, assumption))+
     apply (erule like_cong)
     apply (simp_all add: attached_def m)[3]
  apply (simp add: m del: de_Morgan_conj)
  apply (rule upd_step, rule y)
    apply (rule flag_steps, assumption)+
    apply (erule like_cong)
    apply (auto simp: attached_def m)
  done

lemma converted_like:
  assumes y: "like r y s0 s" and m: "res_flag OCFS2_LOCK_BUSY y" "res_flag OCFS2_LOCK_ATTACHED y"
  shows "yields (ocfs2_generic_handle_convert_action r s) (like r (converted y) s0)"
proof -
  let ?b = "l_level y = DLM_LOCK_NL \<and> ops_flag LOCK_TYPE_REQUIRES_REFRESH y"
  let ?y = "if ?b then y\<lparr>l_flags := insert OCFS2_LOCK_NEEDS_REFRESH (l_flags y)\<rparr> else y"
  have 1: "yields (if ?b then lockres_or_flags r {OCFS2_LOCK_NEEDS_REFRESH} s else Some s) (like r ?y s0)"
    using y by (auto simp: like_or1)
  have 2: "yields (do {
       s \<leftarrow> upd_res r (\<lambda>x. x\<lparr>l_level := l_requested x\<rparr>) s1;
       s \<leftarrow> (if \<not> res_flag OCFS2_LOCK_NONBLOCK_FINISHED y
          then lockres_or_flags r {OCFS2_LOCK_UPCONVERT_FINISHING} s
          else lockres_clear_flags r {OCFS2_LOCK_NONBLOCK_FINISHED} s);
       lockres_clear_flags r {OCFS2_LOCK_BUSY} s
     }) (like r (converted y) s0)" if s1: "like r ?y s0 s1" for s1
    apply (cases "res_flag OCFS2_LOCK_NONBLOCK_FINISHED y")
     apply (simp only: if_P if_not_P not_True_eq_False not_False_eq_True if_True if_False)
     apply (rule upd_step, rule s1)
       apply (rule flag_steps, assumption)+
       apply (erule like_cong, simp add: converted_def Let_def)
      apply simp_all[2]
    apply (simp only: if_P if_not_P not_True_eq_False not_False_eq_True if_True if_False)
    apply (rule upd_step, rule s1)
      apply (rule flag_steps, assumption)+
      apply (erule like_cong, simp add: converted_def Let_def)
     apply simp_all
    done
  show ?thesis
    unfolding ocfs2_generic_handle_convert_action_def
    apply (rule read_step[OF y])
    apply (simp add: m split del: if_split)
    apply (rule yields_next, rule 1[simplified], rule 2[simplified], assumption)
    done
qed

lemma downconverted_like:
  assumes y: "like r y s0 s" and m: "res_flag OCFS2_LOCK_BUSY y" "res_flag OCFS2_LOCK_ATTACHED y"
    "res_flag OCFS2_LOCK_BLOCKED y" "DLM_LOCK_NL < l_blocking y"
  shows "yields (ocfs2_generic_handle_downconvert_action r s) (like r (downconverted y) s0)"
  unfolding ocfs2_generic_handle_downconvert_action_def
  apply (rule read_step[OF y])
  apply (simp add: m)
  apply (cases "l_requested y \<le> ocfs2_highest_compat_lock_level (l_blocking y)")
   apply (simp add: m)
   apply (rule upd_step, rule y)
     apply (rule upd_step, assumption)
       apply (rule flag_steps, assumption)+
       apply (erule like_cong, simp add: downconverted_def)
      apply simp_all[4]
  apply (simp add: m del: not_le)
  apply (rule upd_step, rule y)
    apply (rule flag_steps, assumption)+
    apply (erule like_cong, simp add: downconverted_def)
   apply simp_all
  done

lemma answered_like:
  assumes y: "like r y s0 s" shows "yields (locking_ast_out r s) (like r (answered y) s0)"
  unfolding locking_ast_out_def
  apply (rule upd_step, rule y)
    apply (rule read_step, assumption)
    apply (rule yields_mono, rule pending_cleared_like, assumption)
    apply (simp_all add: answered_def)
  done

lemma locking_ast_like:
  assumes y: "like r y s0 s" and m: "sb_status (l_lksb y) = 0" "may_act y"
  shows "yields (ocfs2_locking_ast r s) (like r (answered (acted (l_action y) y)) s0)"
  unfolding ocfs2_locking_ast_def
  apply (rule read_step[OF y])
  apply (simp add: m)
  apply (rule yields_next[where P = "like r (acted (l_action y) y) s0"])
   apply (cases "l_action y")
      apply (use m y in \<open>auto simp: may_act_def intro: attached_like converted_like downconverted_like\<close>)[4]
  apply (erule answered_like)
  done

lemma refused_like:
  assumes y: "like r y s0 s" and m: "sb_status (l_lksb y) = -EAGAIN"
  shows "yields (ocfs2_locking_ast r s) (like r (refused y) s0)"
  unfolding ocfs2_locking_ast_def
  apply (rule read_step[OF y])
  apply (simp add: m)
  apply (rule flag_steps, rule y)
  apply (unfold refused_def)
  apply (rule answered_like, assumption)
  done

text \<open>With the list of blocked locks: \<open>l\<close> afterwards.\<close>

definition liked :: "rp \<Rightarrow> ocfs2_lock_res \<Rightarrow> rp list \<Rightarrow> ocfs2_super \<Rightarrow> ocfs2_super \<Rightarrow> bool" where
  "liked r y l s s' \<longleftrightarrow> (\<exists>s1. like r y s s1 \<and> os_res s' = os_res s1 \<and> os_mws s' = os_mws s1 \<and> blocked_lock_list s' = l)"

definition enlist :: "rp \<Rightarrow> rp list \<Rightarrow> rp list" where
  "enlist r l = (if r \<in> set l then l else l @ [r])"

lemma set_enlist [simp]: "set (enlist r l) = insert r (set l)"
  by (auto simp: enlist_def)

lemma like_liked: "like r y s s' \<Longrightarrow> liked r y (blocked_lock_list s) s s'"
  by (auto simp: liked_def dest: like_list)

lemma liked_wake [simp]: "liked r y l s (ocfs2_wake_downconvert_thread s') = liked r y l s s'"
  by (simp add: liked_def ocfs2_wake_downconvert_thread_def)

lemma schedule_like:
  assumes y: "like r y s0 s" and m: "\<not> res_flag OCFS2_LOCK_FREEING y"
  shows "yields (ocfs2_schedule_blocked_lock r s)
    (liked r (y\<lparr>l_flags := insert OCFS2_LOCK_QUEUED (l_flags y)\<rparr>) (enlist r (blocked_lock_list s0)) s0)"
  unfolding ocfs2_schedule_blocked_lock_def
  apply (rule read_step[OF y])
  apply (simp add: m)
  apply (rule flag_steps, rule y)
  apply (auto simp: liked_def enlist_def dest: like_list)
  done

definition bast_matters :: "int \<Rightarrow> ocfs2_lock_res \<Rightarrow> bool" where
  "bast_matters level y \<longleftrightarrow> l_blocking y < level \<and>
     ocfs2_highest_compat_lock_level level < ocfs2_highest_compat_lock_level (l_blocking y)"

definition blocked_by :: "int \<Rightarrow> ocfs2_lock_res \<Rightarrow> ocfs2_lock_res" where
  "blocked_by level y = (if bast_matters level y
     then y\<lparr>l_blocking := level, l_flags := insert OCFS2_LOCK_QUEUED (insert OCFS2_LOCK_BLOCKED (l_flags y))\<rparr>
     else y\<lparr>l_blocking := max level (l_blocking y)\<rparr>)"

lemma generic_bast_like:
  assumes y: "like r y s0 s"
  shows "yields (ocfs2_generic_handle_bast r level s) (\<lambda>(b, s'). b = bast_matters level y \<and>
    like r (if b then y\<lparr>l_blocking := level, l_flags := insert OCFS2_LOCK_BLOCKED (l_flags y)\<rparr>
      else y\<lparr>l_blocking := max level (l_blocking y)\<rparr>) s0 s')"
  unfolding ocfs2_generic_handle_bast_def
  apply (rule read_step[OF y])
  apply (cases "level \<le> l_blocking y")
   apply (simp add: bast_matters_def y max_def)
  apply (cases "ocfs2_highest_compat_lock_level level < ocfs2_highest_compat_lock_level (l_blocking y)")
   apply (simp add: Let_def)
   apply (rule upd_step, rule y)
     apply (rule flag_steps, assumption)
     apply (simp_all add: bast_matters_def)[3]
  apply (simp add: Let_def)
  apply (rule upd_step, rule y)
    apply (simp_all add: bast_matters_def max_def)
  done

lemma blocking_ast_like:
  assumes y: "like r y s0 s" and m: "\<not> res_flag OCFS2_LOCK_FREEING y" "\<not> res_flag OCFS2_LOCK_NOCACHE y" "DLM_LOCK_NL < level"
  shows "yields (ocfs2_blocking_ast r level s) (liked r (blocked_by level y)
    (if bast_matters level y then enlist r (blocked_lock_list s0) else blocked_lock_list s0) s0)"
proof -
  have 1: "yields (if b then ocfs2_schedule_blocked_lock r s1 else Some s1) (liked r (blocked_by level y)
      (if bast_matters level y then enlist r (blocked_lock_list s0) else blocked_lock_list s0) s0)"
    if b: "b = bast_matters level y"
      and s1: "like r (if b then y\<lparr>l_blocking := level, l_flags := insert OCFS2_LOCK_BLOCKED (l_flags y)\<rparr>
        else y\<lparr>l_blocking := max level (l_blocking y)\<rparr>) s0 s1" for b s1
  proof (cases b)
    case True
    then have s1': "like r (y\<lparr>l_blocking := level, l_flags := insert OCFS2_LOCK_BLOCKED (l_flags y)\<rparr>) s0 s1" using s1 by simp
    have "yields (ocfs2_schedule_blocked_lock r s1) (liked r (blocked_by level y) (enlist r (blocked_lock_list s0)) s0)"
      using schedule_like[OF s1'] True m(1) b by (simp add: res_flag_def blocked_by_def)
    then show ?thesis using True b by simp
  next
    case False
    then show ?thesis using s1 b like_liked[of r _ s0 s1] by (simp add: blocked_by_def)
  qed
  show ?thesis
    unfolding ocfs2_blocking_ast_def
    apply (simp only: yields_assert m(3) simp_thms)
    apply (rule read_step[OF y])
    apply (simp only: res_flag_waiters m if_False)
    apply (rule yields_next, rule generic_bast_like, rule y)
    apply (simp only: split_paired_all prod.case)
    apply (erule conjE, hypsubst)
    apply (rule yields_next, rule 1[OF refl], assumption)
    apply (simp only: yields_Some liked_wake)
    done
qed

definition cancelled :: "ocfs2_lock_res \<Rightarrow> ocfs2_lock_res" where
  "cancelled y = y\<lparr>l_flags := l_flags y - {OCFS2_LOCK_BUSY}, l_action := OCFS2_AST_INVALID,
     l_unlock_action := OCFS2_UNLOCK_INVALID\<rparr>"

lemma unlock_ast_like:
  assumes y: "like r y s0 s" and m: "l_unlock_action y = OCFS2_UNLOCK_CANCEL_CONVERT"
  shows "yields (ocfs2_unlock_ast r 0 s) (like r (cancelled y) s0)"
  unfolding ocfs2_unlock_ast_def
  apply simp
  apply (rule read_step[OF y])
  apply (simp add: m)
  apply (rule upd_step, rule y)
    apply (rule yields_next, rule like_clear[of r "y\<lparr>l_action := OCFS2_AST_INVALID\<rparr>" s0])
     apply simp
    apply (rule upd_end, assumption)
      apply (erule like_cong)
      apply (simp_all add: cancelled_def)
  done

definition recovered :: "bool \<Rightarrow> ocfs2_lock_res \<Rightarrow> ocfs2_lock_res" where
  "recovered convert y = (let y = y\<lparr>l_flags := l_flags y - {OCFS2_LOCK_BUSY} - {OCFS2_LOCK_UPCONVERT_FINISHING}\<rparr>
     in if convert then y\<lparr>l_action := OCFS2_AST_INVALID\<rparr> else y\<lparr>l_unlock_action := OCFS2_UNLOCK_INVALID\<rparr>)"

lemma recover_like:
  assumes y: "like r y s0 s" shows "yields (ocfs2_recover_from_dlm_error r convert s) (like r (recovered convert y) s0)"
  unfolding ocfs2_recover_from_dlm_error_def
  apply (rule flag_steps, rule y)
  apply (rule flag_steps, assumption)
  apply (cases convert)
   apply simp
   apply (rule upd_end, assumption)
     apply (simp_all add: recovered_def Let_def)[3]
  apply simp
  apply (rule upd_end, assumption)
    apply (simp_all add: recovered_def Let_def)
  done

section \<open>Taking and releasing\<close>

definition finished :: "ocfs2_lock_res \<Rightarrow> ocfs2_lock_res" where
  "finished y = y\<lparr>l_flags := l_flags y - {OCFS2_LOCK_UPCONVERT_FINISHING}\<rparr>"

lemma unlock_like:
  assumes y: "like r y s0 s" shows "yields (cluster_lock_unlock r s) (like r (finished y) s0)"
  unfolding cluster_lock_unlock_def
  apply (rule flag_steps, rule y)
  apply (rule read_step, assumption)
  apply (simp add: finished_def)
  done

definition now_held :: "int \<Rightarrow> ocfs2_lock_res \<Rightarrow> ocfs2_lock_res" where
  "now_held level y = (if level = DLM_LOCK_EX then y\<lparr>l_ex_holders := l_ex_holders y + 1\<rparr>
     else y\<lparr>l_ro_holders := l_ro_holders y + 1\<rparr>)"

lemma hold_like:
  assumes y: "like (lc_res c) y s0 s" and l: "lock_level (lc_level c)"
  shows "yields (cluster_lock_hold c s) (\<lambda>(turn, s'). turn = Turn_return 0 \<and> like (lc_res c) (finished (now_held (lc_level c) y)) s0 s')"
proof -
  have "yields (ocfs2_inc_holders (lc_res c) (lc_level c) s) (like (lc_res c) (now_held (lc_level c) y) s0)"
    using l unfolding ocfs2_inc_holders_def now_held_def lock_level_def
    by (auto intro!: upd_end[OF y])
  then show ?thesis unfolding cluster_lock_hold_def cluster_lock_return_def
    apply (rule yields_next)
    apply (rule yields_next, rule unlock_like, assumption)
    apply simp
    done
qed

definition now_released :: "int \<Rightarrow> ocfs2_lock_res \<Rightarrow> ocfs2_lock_res" where
  "now_released level y = (if level = DLM_LOCK_EX then y\<lparr>l_ex_holders := l_ex_holders y - 1\<rparr>
     else y\<lparr>l_ro_holders := l_ro_holders y - 1\<rparr>)"

lemma release_like:
  assumes y: "like r y s0 s"
    and l: "level = DLM_LOCK_EX \<and> l_ex_holders y \<noteq> 0 \<or> level = DLM_LOCK_PR \<and> l_ro_holders y \<noteq> 0"
    and b: "res_flag OCFS2_LOCK_BLOCKED y \<longrightarrow> lock_level (l_blocking y)"
  shows "yields (us_us_ocfs2_cluster_unlock r level s) (like r (now_released level y) s0)"
proof -
  have "yields (ocfs2_dec_holders r level s) (like r (now_released level y) s0)"
    unfolding ocfs2_dec_holders_def
    apply (rule read_step[OF y])
    apply (use l in \<open>auto simp: now_released_def intro!: upd_end[OF y]\<close>)
    done
  then show ?thesis unfolding us_us_ocfs2_cluster_unlock_def ocfs2_downconvert_on_unlock_def
    apply (rule yields_next)
    apply (rule read_step, assumption)
    apply (use b in \<open>auto simp: now_released_def lock_level_def res_flag_def\<close>)
    done
qed

definition asked :: "int \<Rightarrow> ocfs2_lock_res \<Rightarrow> ocfs2_lock_res" where
  "asked level y = y\<lparr>l_action := (if res_flag OCFS2_LOCK_ATTACHED y then OCFS2_AST_CONVERT else OCFS2_AST_ATTACH),
     l_requested := level, l_flags := insert OCFS2_LOCK_PENDING (insert OCFS2_LOCK_BUSY (l_flags y))\<rparr>"

lemma ask_like:
  assumes y: "like (lc_res c) y s0 s" and l: "lock_level (lc_level c)"
  shows "yields (cluster_lock_ask c s) (\<lambda>(turn, s'). (\<exists>c'. turn = Turn_call c' (l_pending_gen y) \<and>
    lc_res c' = lc_res c \<and> lc_level c' = lc_level c \<and> lc_arg_flags c' = lc_arg_flags c) \<and> like (lc_res c) (asked (lc_level c) y) s0 s')"
  unfolding cluster_lock_ask_def Let_def
  apply (rule read_step, rule y)
  apply (rule upd_step, rule y)
    apply (rule flag_steps, assumption)
    apply (rule yields_next, rule set_pending_like, assumption)
     apply (simp add: res_flag_def)
    apply (use l in \<open>auto simp: lock_level_def asked_def\<close>)
  done

text \<open>The process \<open>w\<close> is put on the list, waiting for a flag to be cleared.\<close>

definition parked :: "rp \<Rightarrow> mwp \<Rightarrow> lock_flag \<Rightarrow> ocfs2_lock_res \<Rightarrow> ocfs2_super \<Rightarrow> ocfs2_super" where
  "parked r w fl x s = upd_mw w (\<lambda>m. m\<lparr>mw_item := True, mw_mask := {fl}, mw_goal := {}\<rparr>)
     (s\<lparr>os_res := (os_res s)(r \<mapsto> x\<lparr>l_mask_waiters := l_mask_waiters x @ [w]\<rparr>)\<rparr>)"

lemma os_res_upd_mw [simp]: "os_res (upd_mw w f s) = os_res s"
  by (simp add: upd_mw_def)

lemma wait_like:
  assumes x: "os_res s (lc_res c) = Some x" and m: "\<not> mw_item (os_mws s w)"
  shows "yields (cluster_lock_wait w fl c s)
    (\<lambda>(turn, s'). turn = Turn_wait c \<and> like (lc_res c) (finished x) (parked (lc_res c) w fl x s) s')"
proof -
  have "like (lc_res c) x (parked (lc_res c) w fl x s) (parked (lc_res c) w fl x s)"
    using like_refl[of "parked (lc_res c) w fl x s" "lc_res c" "x\<lparr>l_mask_waiters := l_mask_waiters x @ [w]\<rparr>"]
    by (simp add: parked_def)
  from unlock_like[OF this] show ?thesis
    by (auto simp: cluster_lock_wait_def lockres_add_mask_waiter_def m x parked_def yields_def)
qed

definition may_hold :: "int \<Rightarrow> ocfs2_lock_res \<Rightarrow> bool" where
  "may_hold level y \<longleftrightarrow> level \<le> l_level y \<and> (res_flag OCFS2_LOCK_UPCONVERT_FINISHING y \<or>
     (res_flag OCFS2_LOCK_BLOCKED y \<longrightarrow> level \<le> ocfs2_highest_compat_lock_level (l_blocking y)))"

definition may_ask :: "int \<Rightarrow> ocfs2_lock_res \<Rightarrow> bool" where
  "may_ask level y \<longleftrightarrow> l_level y < level \<and> \<not> res_flag OCFS2_LOCK_BUSY y \<and>
     (res_flag OCFS2_LOCK_BLOCKED y \<longrightarrow> level \<le> ocfs2_highest_compat_lock_level (l_blocking y))"

fun again_result :: "rp \<Rightarrow> mwp \<Rightarrow> lock_call \<Rightarrow> ocfs2_lock_res \<Rightarrow> ocfs2_super \<Rightarrow> lock_turn \<Rightarrow> ocfs2_super \<Rightarrow> bool" where
  "again_result r w c x s (Turn_return ret) s' \<longleftrightarrow> like r (finished x) s s' \<or>
     ret = 0 \<and> may_hold (lc_level c) x \<and> like r (finished (now_held (lc_level c) x)) s s'"
| "again_result r w c x s (Turn_wait c') s' \<longleftrightarrow> c' = c \<and>
     (\<exists>fl \<in> {OCFS2_LOCK_BUSY, OCFS2_LOCK_BLOCKED}. res_flag fl x \<and> like r (finished x) (parked r w fl x s) s')"
| "again_result r w c x s (Turn_call c' gen) s' \<longleftrightarrow> gen = l_pending_gen x \<and> lc_res c' = lc_res c \<and>
     lc_level c' = lc_level c \<and> lc_arg_flags c' = lc_arg_flags c \<and> may_ask (lc_level c) x \<and> like r (asked (lc_level c) x) s s'"
| "again_result r w c x s (Turn_again c') s' \<longleftrightarrow> False"

lemma again_like:
  assumes x: "os_res s (lc_res c) = Some x" and l: "lock_level (lc_level c)"
    and m: "\<not> res_flag OCFS2_LOCK_FREEING x" "\<not> mw_item (os_mws s w)"
  shows "yields (cluster_lock_again signal w c s) (\<lambda>(turn, s'). again_result (lc_res c) w c x s turn s')"
proof -
  let ?r = "lc_res c" and ?l = "lc_level c"
  have y: "like ?r x s s" using x by (rule like_refl)
  have ret: "yields (cluster_lock_return e c s) (\<lambda>(turn, s'). again_result ?r w c x s turn s')" for e
    unfolding cluster_lock_return_def by (rule yields_next, rule unlock_like, rule y) simp
  have hold: "yields (cluster_lock_hold c s) (\<lambda>(turn, s'). again_result ?r w c x s turn s')" if "may_hold ?l x"
    by (rule yields_mono, rule hold_like[OF y l]) (use that in auto)
  have wait: "yields (cluster_lock_wait w fl c s) (\<lambda>(turn, s'). again_result ?r w c x s turn s')"
    if "res_flag fl x" "fl \<in> {OCFS2_LOCK_BUSY, OCFS2_LOCK_BLOCKED}" for fl
    by (rule yields_mono, rule wait_like[OF x m(2)]) (use that in auto)
  have ask: "yields (cluster_lock_ask c s) (\<lambda>(turn, s'). again_result ?r w c x s turn s')" if "may_ask ?l x"
    by (rule yields_mono, rule ask_like[OF y l]) (use that in auto)
  show ?thesis
    unfolding cluster_lock_again_def Let_def
    by (auto simp: x m(1) ret may_hold_def may_ask_def ocfs2_may_continue_on_blocked_lock_def intro!: hold wait ask)
qed

lemma create_new_like:
  assumes y: "like r y s0 s" and m: "\<not> res_flag OCFS2_LOCK_ATTACHED y"
  shows "yields (ocfs2_create_new_lock r s) (like r (y\<lparr>l_flags := insert OCFS2_LOCK_LOCAL (l_flags y)\<rparr>) s0)"
  unfolding ocfs2_create_new_lock_def
  by (rule read_step[OF y]) (simp add: m like_or1[OF y])

lemma create_like:
  assumes y: "like r y s0 s"
  shows "yields (ocfs2_lock_create r level s) (\<lambda>(gen, s').
    if res_flag OCFS2_LOCK_ATTACHED y \<or> res_flag OCFS2_LOCK_BUSY y then gen = None \<and> like r y s0 s'
    else gen = Some (l_pending_gen y) \<and> like r (asked level y) s0 s')"
  unfolding ocfs2_lock_create_def
  apply (rule read_step[OF y])
  apply (cases "res_flag OCFS2_LOCK_ATTACHED y \<or> res_flag OCFS2_LOCK_BUSY y")
   apply (auto simp: y)[1]
  apply (simp add: y)
  apply (rule upd_step, rule y)
    apply (rule flag_steps, assumption)
    apply (rule yields_next, rule set_pending_like, assumption)
     apply (simp add: res_flag_def)
    apply (auto simp: asked_def)
  done

section \<open>The downconvert thread\<close>

definition down_asked :: "int \<Rightarrow> ocfs2_lock_res \<Rightarrow> ocfs2_lock_res" where
  "down_asked level y = y\<lparr>l_action := OCFS2_AST_DOWNCONVERT, l_requested := level,
     l_flags := insert OCFS2_LOCK_PENDING (insert OCFS2_LOCK_BUSY (l_flags y))\<rparr>"

lemma downconvert_like:
  assumes y: "like r y s0 s" and m: "DLM_LOCK_NL < l_blocking y" "level < l_level y"
  shows "yields (unblock_downconvert r level ctl s) (\<lambda>(turn, s').
    (\<exists>lvb. turn = Unblock_call (ctl\<lparr>requeue := False\<rparr>) level lvb (l_pending_gen y)) \<and> like r (down_asked level y) s0 s')"
proof -
  have "yields (ocfs2_prepare_downconvert r level s) (\<lambda>(g, s'). g = l_pending_gen y \<and> like r (down_asked level y) s0 s')"
    unfolding ocfs2_prepare_downconvert_def
    apply (rule read_step[OF y])
    apply (simp add: m)
    apply (rule upd_step, rule y)
      apply (rule flag_steps, assumption)
      apply (rule yields_mono, rule set_pending_like, assumption)
       apply (simp_all add: res_flag_def)[4]
    apply (auto simp: down_asked_def)
    done
  then show ?thesis
    unfolding unblock_downconvert_def
    apply (rule_tac read_step[OF y])
    apply (rule yields_next, assumption)
    apply auto
    done
qed

definition blocks :: "int \<Rightarrow> ocfs2_lock_res \<Rightarrow> bool" where
  "blocks b y \<longleftrightarrow> l_ex_holders y \<noteq> 0 \<or> b = DLM_LOCK_EX \<and> l_ro_holders y \<noteq> 0"

definition ready :: "ocfs2_lock_res \<Rightarrow> bool" where
  "ready y \<longleftrightarrow> res_flag OCFS2_LOCK_BLOCKED y \<and> \<not> res_flag OCFS2_LOCK_BUSY y \<and>
     \<not> res_flag OCFS2_LOCK_UPCONVERT_FINISHING y \<and> \<not> blocks (l_blocking y) y"

definition unblock_ok :: "ocfs2_lock_res \<Rightarrow> bool" where
  "unblock_ok y \<longleftrightarrow> (if res_flag OCFS2_LOCK_BLOCKED y
     then lock_level (l_blocking y) \<and> ocfs2_highest_compat_lock_level (l_blocking y) < l_level y \<and>
       (res_flag OCFS2_LOCK_BUSY y \<longrightarrow> l_action y = OCFS2_AST_CONVERT \<or> l_action y = OCFS2_AST_DOWNCONVERT)
     else l_blocking y = DLM_LOCK_NL)"

fun unblock_result ::
  "rp \<Rightarrow> unblock_ctl \<Rightarrow> ocfs2_lock_res \<Rightarrow> ocfs2_super \<Rightarrow> unblock_turn \<Rightarrow> ocfs2_super \<Rightarrow> bool" where
  "unblock_result r ctl x s (Unblock_leave ctl') s' \<longleftrightarrow> like r x s s' \<and>
     (requeue ctl' \<or> \<not> res_flag OCFS2_LOCK_BLOCKED x)"
| "unblock_result r ctl x s (Unblock_cancel ctl') s' \<longleftrightarrow> requeue ctl' \<and>
     res_flag OCFS2_LOCK_BLOCKED x \<and> res_flag OCFS2_LOCK_BUSY x \<and> \<not> res_flag OCFS2_LOCK_PENDING x \<and>
     like r (x\<lparr>l_unlock_action := OCFS2_UNLOCK_CANCEL_CONVERT\<rparr>) s s'"
| "unblock_result r ctl x s (Unblock_worker ctl' b l) s' \<longleftrightarrow> b = l_blocking x \<and> l = l_level x \<and> ready x \<and> like r x s s'"
| "unblock_result r ctl x s (Unblock_call ctl' l lvb gen) s' \<longleftrightarrow>
     l = ocfs2_highest_compat_lock_level (l_blocking x) \<and> gen = l_pending_gen x \<and> ready x \<and> like r (down_asked l x) s s'"

lemma unblock_like:
  assumes x: "os_res s r = Some x" and ok: "unblock_ok x"
  shows "yields (unblock_recheck check r ctl s) (\<lambda>(turn, s'). unblock_result r ctl x s turn s')"
proof -
  have y: "like r x s s" using x by (rule like_refl)
  have leave: "yields (leave_requeue ctl s) (\<lambda>(turn, s'). unblock_result r ctl x s turn s')"
    by (simp add: leave_requeue_def y)
  have busy: "yields (unblock_busy r ctl s) (\<lambda>(turn, s'). unblock_result r ctl x s turn s')"
    if b: "res_flag OCFS2_LOCK_BLOCKED x" "res_flag OCFS2_LOCK_BUSY x"
  proof -
    have cancel: "yields (ocfs2_prepare_cancel_convert r s) (\<lambda>(ret, s'). if ret
        then like r (x\<lparr>l_unlock_action := OCFS2_UNLOCK_CANCEL_CONVERT\<rparr>) s s' else like r x s s')"
      unfolding ocfs2_prepare_cancel_convert_def
      apply (rule read_step[OF y])
      apply (use b ok in \<open>auto simp: unblock_ok_def y intro!: upd_step[OF y]\<close>)
      done
    show ?thesis
      unfolding unblock_busy_def Let_def
      apply (rule read_step[OF y])
      apply (cases "res_flag OCFS2_LOCK_PENDING x")
       apply (simp add: leave)
      apply simp
      apply (rule yields_next, rule cancel)
      apply (use b in \<open>auto split: if_splits\<close>)
      done
  qed
  have down: "yields (unblock_downconvert r (ocfs2_highest_compat_lock_level (l_blocking x)) ctl s)
      (\<lambda>(turn, s'). unblock_result r ctl x s turn s')" if "ready x"
    apply (rule yields_mono, rule downconvert_like[OF y])
    using that ok by (auto simp: ready_def unblock_ok_def lock_level_def)
  have go: "yields (if res_flag OCFS2_LOCK_UPCONVERT_FINISHING x then leave_requeue ctl s
     else if l_level x = DLM_LOCK_NL then do {
       _ \<leftarrow> dlm_assert (l_ex_holders x = 0 \<and> l_ro_holders x = 0);
       s \<leftarrow> upd_res r (\<lambda>x. x\<lparr>l_blocking := DLM_LOCK_NL\<rparr>) s;
       s \<leftarrow> lockres_clear_flags r {OCFS2_LOCK_BLOCKED} s;
       Some (Unblock_leave ctl, s)
     }
     else if l_blocking x = DLM_LOCK_EX \<and> (l_ex_holders x \<noteq> 0 \<or> l_ro_holders x \<noteq> 0) then leave_requeue ctl s
     else if l_blocking x = DLM_LOCK_PR \<and> l_ex_holders x \<noteq> 0 then leave_requeue ctl s
     else if ops_flag LOCK_TYPE_REQUIRES_REFRESH x \<and> res_flag OCFS2_LOCK_REFRESHING x then leave_requeue ctl s
     else if has_check_downconvert (l_ops x) \<and> \<not> check then leave_requeue ctl s
     else if \<not> has_downconvert_worker (l_ops x)
     then unblock_downconvert r (ocfs2_highest_compat_lock_level (l_blocking x)) ctl s
     else Some (Unblock_worker ctl (l_blocking x) (l_level x), s)) (\<lambda>(turn, s'). unblock_result r ctl x s turn s')"
    if b: "res_flag OCFS2_LOCK_BLOCKED x" "\<not> res_flag OCFS2_LOCK_BUSY x"
  proof -
    have bl: "l_blocking x = DLM_LOCK_PR \<or> l_blocking x = DLM_LOCK_EX" "l_level x \<noteq> DLM_LOCK_NL"
      using ok b by (auto simp: unblock_ok_def lock_level_def ocfs2_highest_compat_lock_level_def split: if_splits)
    have rd: "ready x" if "\<not> res_flag OCFS2_LOCK_UPCONVERT_FINISHING x"
        "\<not> (l_blocking x = DLM_LOCK_EX \<and> (l_ex_holders x \<noteq> 0 \<or> l_ro_holders x \<noteq> 0))"
        "\<not> (l_blocking x = DLM_LOCK_PR \<and> l_ex_holders x \<noteq> 0)"
      using that b bl(1) by (auto simp: ready_def blocks_def)
    show ?thesis
      using bl(2) down rd by (simp add: leave y)
  qed
  show ?thesis
    unfolding unblock_recheck_def x bind.bind_lunit
    apply (cases "res_flag OCFS2_LOCK_BLOCKED x")
     apply (cases "res_flag OCFS2_LOCK_BUSY x")
      apply (simp add: busy)
     apply (simp only: simp_thms if_True if_False not_False_eq_True, rule go, assumption, assumption)
    apply (use ok in \<open>simp add: y unblock_ok_def\<close>)
    done
qed

lemma worked_like:
  assumes x: "os_res s r = Some x" and ok: "unblock_ok x" and a: "act \<noteq> UNBLOCK_STOP_POST"
    and w: "blocking = l_blocking x \<and> level = l_level x \<Longrightarrow> ready x"
  shows "yields (unblock_worked check r blocking level act ctl s) (\<lambda>(turn, s'). \<exists>ctl. unblock_result r ctl x s turn s')"
proof -
  have y: "like r x s s" using x by (rule like_refl)
  show ?thesis
  proof (cases "blocking \<noteq> l_blocking x \<or> level \<noteq> l_level x")
    case True
    have "yields (unblock_recheck check r ctl s) (\<lambda>(turn, s'). \<exists>ctl. unblock_result r ctl x s turn s')" for ctl
      by (rule yields_mono, rule unblock_like[OF x ok]) auto
    then show ?thesis using True a by (simp add: unblock_worked_def x)
  next
    case False
    then have rd: "ready x" using w by simp
    have "yields (unblock_downconvert r (ocfs2_highest_compat_lock_level (l_blocking x)) ctl s)
        (\<lambda>(turn, s'). \<exists>ctl. unblock_result r ctl x s turn s')" for ctl
      apply (rule yields_mono, rule downconvert_like[OF y])
      using rd ok by (auto simp: ready_def unblock_ok_def lock_level_def)
    then show ?thesis using False a by (simp add: unblock_worked_def x)
  qed
qed

lemma process_end_like:
  assumes x: "os_res s r = Some x" and m: "\<not> res_flag OCFS2_LOCK_FREEING x"
  shows "yields (process_blocked_end r ctl s) (\<lambda>(b, s').
    if requeue ctl then liked r (x\<lparr>l_flags := insert OCFS2_LOCK_QUEUED (l_flags x)\<rparr>) (enlist r (blocked_lock_list s)) s s'
    else like r (x\<lparr>l_flags := l_flags x - {OCFS2_LOCK_QUEUED}\<rparr>) s s')"
proof -
  have y: "like r x s s" using x by (rule like_refl)
  show ?thesis
    unfolding process_blocked_end_def
    apply (rule read_step[OF y])
    apply (cases "requeue ctl")
     apply (simp add: m)
     apply (rule yields_next, rule schedule_like[OF y m])
     apply simp
    apply (simp add: m)
    apply (rule clear_step, rule y)
    apply simp
    done
qed

section \<open>Refreshing\<close>

lemma should_refresh_like:
  assumes y: "like r y s0 s" and m: "\<not> (res_flag OCFS2_LOCK_NEEDS_REFRESH y \<and> res_flag OCFS2_LOCK_REFRESHING y)"
  shows "yields (ocfs2_should_refresh_lock_res r s) (\<lambda>(ret, s'). like r (if ret = 0 then y
    else y\<lparr>l_flags := insert OCFS2_LOCK_REFRESHING (l_flags y)\<rparr>) s0 s')"
  unfolding ocfs2_should_refresh_lock_res_def
  apply (rule read_step[OF y])
  apply (use m y in \<open>auto intro!: or_step[OF y]\<close>)
  done

lemma complete_refresh_like:
  assumes y: "like r y s0 s"
  shows "yields (ocfs2_complete_lock_res_refresh r status s) (like r (y\<lparr>l_flags := l_flags y - {OCFS2_LOCK_REFRESHING} -
    (if status = 0 then {OCFS2_LOCK_NEEDS_REFRESH} else {})\<rparr>) s0)"
  unfolding ocfs2_complete_lock_res_refresh_def
  apply (rule clear_step, rule y)
  apply (auto dest: like_clear)
  done

end
