(* ===== verification/Ocfs2_Inv.thy ===== *)
theory Ocfs2_Inv
  imports Ocfs2_Section
begin

text \<open>
  The invariant of the lock layer of OCFS2, for one lock resource: its record, what the lock manager has
  granted and been asked, and where the processes are (\<open>res_ok\<close>), and the functions of \<open>Ocfs2_Section\<close>
  keep it.
\<close>

section \<open>The record\<close>

text \<open>The level that holders can rely on: that of a downconvert that has been asked for.\<close>

definition cover :: "ocfs2_lock_res \<Rightarrow> int" where
  "cover x = (if res_flag OCFS2_LOCK_BUSY x \<and> l_action x = OCFS2_AST_DOWNCONVERT then l_requested x else l_level x)"

definition covered :: "ocfs2_lock_res \<Rightarrow> bool" where
  "covered x \<longleftrightarrow> (l_ex_holders x \<noteq> 0 \<longrightarrow> DLM_LOCK_EX \<le> cover x) \<and> (l_ro_holders x \<noteq> 0 \<longrightarrow> DLM_LOCK_PR \<le> cover x)"

definition busy_ok :: "ocfs2_lock_res \<Rightarrow> bool" where
  "busy_ok x \<longleftrightarrow> l_action x \<noteq> OCFS2_AST_INVALID \<and> l_requested x \<le> DLM_LOCK_EX \<and> DLM_LOCK_NL \<le> l_requested x \<and>
     (l_action x = OCFS2_AST_ATTACH \<longrightarrow> \<not> res_flag OCFS2_LOCK_ATTACHED x) \<and>
     (l_action x = OCFS2_AST_CONVERT \<longrightarrow> res_flag OCFS2_LOCK_ATTACHED x \<and> l_level x < l_requested x) \<and>
     (l_action x = OCFS2_AST_DOWNCONVERT \<longrightarrow> res_flag OCFS2_LOCK_ATTACHED x \<and> res_flag OCFS2_LOCK_BLOCKED x \<and>
        \<not> res_flag OCFS2_LOCK_UPCONVERT_FINISHING x \<and> l_requested x < l_level x \<and>
        ocfs2_highest_compat_lock_level (l_blocking x) \<le> l_requested x)"

definition level_ok :: "ocfs2_lock_res \<Rightarrow> bool" where
  "level_ok x \<longleftrightarrow> l_level x \<le> DLM_LOCK_EX \<and>
     (if res_flag OCFS2_LOCK_ATTACHED x then DLM_LOCK_NL \<le> l_level x else l_level x = DLM_LOCK_IV)"

definition block_ok :: "ocfs2_lock_res \<Rightarrow> bool" where
  "block_ok x \<longleftrightarrow> (if res_flag OCFS2_LOCK_BLOCKED x
     then lock_level (l_blocking x) \<and> ocfs2_highest_compat_lock_level (l_blocking x) < l_level x
     else l_blocking x = DLM_LOCK_IV \<or> l_blocking x = DLM_LOCK_NL)"

definition plain_res :: "ocfs2_lock_res \<Rightarrow> bool" where
  "plain_res x \<longleftrightarrow> res_flag OCFS2_LOCK_INITIALIZED x \<and> \<not> res_flag OCFS2_LOCK_FREEING x \<and>
     \<not> res_flag OCFS2_LOCK_NOCACHE x \<and> l_unlock_action x \<noteq> OCFS2_UNLOCK_DROP_LOCK"

definition rec_ok :: "ocfs2_lock_res \<Rightarrow> bool" where
  "rec_ok x \<longleftrightarrow> plain_res x \<and> level_ok x \<and> block_ok x \<and> (res_flag OCFS2_LOCK_BUSY x \<longrightarrow> busy_ok x) \<and> covered x"

lemmas rec_ok_defs = rec_ok_def plain_res_def level_ok_def block_ok_def busy_ok_def covered_def cover_def

lemma rec_ok_waiters [simp]: "rec_ok (x\<lparr>l_mask_waiters := ws\<rparr>) = rec_ok x"
  by (simp add: rec_ok_defs cong: conj_cong)

lemma rec_ok_fresh: "fresh_res x \<Longrightarrow> rec_ok x"
  by (simp add: fresh_res_def rec_ok_defs res_flag_def)

lemma compat_nonneg: "0 \<le> ocfs2_highest_compat_lock_level b"
  by (simp add: ocfs2_highest_compat_lock_level_def)

lemma compat_lock_level:
  "lock_level b \<Longrightarrow> ocfs2_highest_compat_lock_level b = (if b = DLM_LOCK_EX then DLM_LOCK_NL else DLM_LOCK_PR)"
  by (auto simp: ocfs2_highest_compat_lock_level_def lock_level_def)

lemma compat_low: "b = DLM_LOCK_IV \<or> b = DLM_LOCK_NL \<Longrightarrow> ocfs2_highest_compat_lock_level b = DLM_LOCK_EX"
  by (auto simp: ocfs2_highest_compat_lock_level_def)

lemma blocked_attached:
  assumes "rec_ok x" "res_flag OCFS2_LOCK_BLOCKED x" shows "res_flag OCFS2_LOCK_ATTACHED x \<and> 0 < l_level x"
  using assms compat_nonneg[of "l_blocking x"] by (simp add: rec_ok_def block_ok_def level_ok_def split: if_splits)

lemma rec_okD:
  assumes "rec_ok x"
  shows "plain_res x" "level_ok x" "block_ok x" "res_flag OCFS2_LOCK_BUSY x \<Longrightarrow> busy_ok x" "covered x"
  using assms by (simp_all add: rec_ok_def)

lemma rec_ok_unblock_ok:
  assumes x: "rec_ok x" and b: "l_blocking x \<noteq> DLM_LOCK_IV" shows "unblock_ok x"
proof -
  have "l_action x = OCFS2_AST_CONVERT \<or> l_action x = OCFS2_AST_DOWNCONVERT"
    if "res_flag OCFS2_LOCK_BUSY x" "res_flag OCFS2_LOCK_BLOCKED x"
    using rec_okD(4)[OF x that(1)] blocked_attached[OF x that(2)] by (cases "l_action x") (simp_all add: busy_ok_def)
  then show ?thesis using rec_okD(3)[OF x] b by (simp add: block_ok_def unblock_ok_def split: if_splits)
qed

subsection \<open>The functions keep it\<close>

lemma may_act_ok:
  assumes x: "rec_ok x" and b: "res_flag OCFS2_LOCK_BUSY x" shows "may_act x"
proof -
  have "0 < l_blocking x" if "res_flag OCFS2_LOCK_BLOCKED x"
    using rec_okD(3)[OF x] that by (auto simp: block_ok_def lock_level_def)
  then show ?thesis using rec_okD(4)[OF x b] b by (cases "l_action x") (simp_all add: busy_ok_def may_act_def)
qed

text \<open>A function that leaves alone what the invariant is about.\<close>

definition same_core :: "ocfs2_lock_res \<Rightarrow> ocfs2_lock_res \<Rightarrow> bool" where
  "same_core x y \<longleftrightarrow> l_level y = l_level x \<and> l_requested y = l_requested x \<and> l_blocking y = l_blocking x \<and>
     l_action y = l_action x \<and> l_ro_holders y = l_ro_holders x \<and> l_ex_holders y = l_ex_holders x \<and>
     (\<forall>fl\<in>{OCFS2_LOCK_INITIALIZED, OCFS2_LOCK_FREEING, OCFS2_LOCK_NOCACHE, OCFS2_LOCK_ATTACHED, OCFS2_LOCK_BLOCKED,
        OCFS2_LOCK_BUSY}. res_flag fl y = res_flag fl x) \<and>
     (res_flag OCFS2_LOCK_UPCONVERT_FINISHING y \<longrightarrow> res_flag OCFS2_LOCK_UPCONVERT_FINISHING x) \<and>
     (l_unlock_action y = OCFS2_UNLOCK_DROP_LOCK \<longrightarrow> l_unlock_action x = OCFS2_UNLOCK_DROP_LOCK)"

lemma same_core_ok: "same_core x y \<Longrightarrow> rec_ok x \<Longrightarrow> rec_ok y"
proof -
  assume s: "same_core x y" and x: "rec_ok x"
  have "level_ok y = level_ok x" "block_ok y = block_ok x" "cover y = cover x"
    using s by (simp_all add: same_core_def level_ok_def block_ok_def cover_def)
  moreover have "covered y = covered x" using s calculation(3) by (simp add: same_core_def covered_def)
  moreover have "plain_res x \<Longrightarrow> plain_res y" using s by (auto simp: same_core_def plain_res_def)
  moreover have "busy_ok x \<Longrightarrow> busy_ok y" using s by (auto simp: same_core_def busy_ok_def)
  moreover have "res_flag OCFS2_LOCK_BUSY y = res_flag OCFS2_LOCK_BUSY x" using s by (simp add: same_core_def)
  ultimately show "rec_ok y" using x by (simp add: rec_ok_def)
qed

lemma pending_cleared_same: "same_core x (pending_cleared g x)"
  by (auto simp: same_core_def pending_cleared_def res_flag_def)

lemma finished_same: "same_core x (finished x)"
  by (auto simp: same_core_def finished_def res_flag_def)

lemma flags_same: "fl \<inter> {OCFS2_LOCK_INITIALIZED, OCFS2_LOCK_FREEING, OCFS2_LOCK_NOCACHE, OCFS2_LOCK_ATTACHED,
    OCFS2_LOCK_BLOCKED, OCFS2_LOCK_BUSY, OCFS2_LOCK_UPCONVERT_FINISHING} = {} \<Longrightarrow>
  same_core x (x\<lparr>l_flags := l_flags x - fl\<rparr>) \<and> same_core x (x\<lparr>l_flags := l_flags x \<union> fl\<rparr>)"
  by (auto simp: same_core_def res_flag_def)

text \<open>A function may be looked at component by component.\<close>

lemma rec_okI:
  assumes "plain_res y" "level_ok y" "block_ok y" "res_flag OCFS2_LOCK_BUSY y \<Longrightarrow> busy_ok y" "covered y" shows "rec_ok y"
  using assms by (simp add: rec_ok_def)

lemma coveredI: "covered x \<Longrightarrow> l_ex_holders y = l_ex_holders x \<Longrightarrow> l_ro_holders y = l_ro_holders x \<Longrightarrow>
  cover x \<le> cover y \<Longrightarrow> covered y"
  by (auto simp: covered_def)

lemma asked_ok:
  assumes x: "rec_ok x" and m: "may_ask level x" "lock_level level" shows "rec_ok (asked level x)"
proof (rule rec_okI)
  show "covered (asked level x)"
    by (rule coveredI[of x]) (use x m(1) in \<open>simp_all add: rec_ok_def cover_def asked_def may_ask_def res_flag_def\<close>)
  show "busy_ok (asked level x)" using x m
    by (auto simp: rec_ok_def busy_ok_def may_ask_def asked_def res_flag_def lock_level_def)
qed (use x in \<open>simp_all add: rec_ok_def plain_res_def level_ok_def block_ok_def asked_def res_flag_def\<close>)

lemma attached_ok:
  assumes x: "rec_ok x" and m: "res_flag OCFS2_LOCK_BUSY x" "l_action x = OCFS2_AST_ATTACH" shows "rec_ok (attached x)"
proof (rule rec_okI)
  have b: "busy_ok x" "l_level x = DLM_LOCK_IV" "\<not> res_flag OCFS2_LOCK_BLOCKED x"
    using rec_okD(2)[OF x] rec_okD(4)[OF x m(1)] m(2) blocked_attached[OF x] by (auto simp: busy_ok_def level_ok_def)
  show "covered (attached x)"
    by (rule coveredI[of x]) (use x m b in \<open>auto simp: rec_ok_def cover_def attached_def busy_ok_def res_flag_def\<close>)
  show "level_ok (attached x)" "block_ok (attached x)"
    using x b by (simp_all add: rec_ok_def level_ok_def block_ok_def attached_def busy_ok_def res_flag_def)
  show "plain_res (attached x)" using x by (auto simp: rec_ok_def plain_res_def attached_def res_flag_def)
qed (simp add: attached_def res_flag_def)

lemma converted_ok:
  assumes x: "rec_ok x" and m: "res_flag OCFS2_LOCK_BUSY x" "l_action x = OCFS2_AST_CONVERT" shows "rec_ok (converted x)"
proof (rule rec_okI)
  have b: "busy_ok x" using x m by (simp add: rec_ok_def)
  show "covered (converted x)"
    by (rule coveredI[of x]) (use x m b in \<open>auto simp: rec_ok_def cover_def converted_def Let_def busy_ok_def res_flag_def\<close>)
  show "level_ok (converted x)"
    using x m b by (auto simp: rec_ok_def level_ok_def converted_def Let_def busy_ok_def res_flag_def)
  show "block_ok (converted x)"
    using x m b by (auto simp: rec_ok_def block_ok_def converted_def Let_def busy_ok_def res_flag_def split: if_splits)
  show "plain_res (converted x)" using x by (auto simp: rec_ok_def plain_res_def converted_def Let_def res_flag_def)
qed (simp add: converted_def Let_def res_flag_def)

lemma downconverted_ok:
  assumes x: "rec_ok x" and m: "res_flag OCFS2_LOCK_BUSY x" "l_action x = OCFS2_AST_DOWNCONVERT" shows "rec_ok (downconverted x)"
proof (rule rec_okI)
  have b: "busy_ok x" using x m by (simp add: rec_ok_def)
  show "covered (downconverted x)"
    by (rule coveredI[of x]) (use x m b in \<open>auto simp: rec_ok_def cover_def downconverted_def busy_ok_def res_flag_def\<close>)
  show "level_ok (downconverted x)"
    using x m b by (auto simp: rec_ok_def level_ok_def downconverted_def busy_ok_def res_flag_def)
  show "block_ok (downconverted x)"
    using x m b by (auto simp: rec_ok_def block_ok_def downconverted_def busy_ok_def res_flag_def)
  show "plain_res (downconverted x)" using x by (auto simp: rec_ok_def plain_res_def downconverted_def res_flag_def)
qed (auto simp: downconverted_def res_flag_def split: if_splits)

lemma answered_ok:
  assumes "rec_ok x" "\<not> res_flag OCFS2_LOCK_BUSY x" shows "rec_ok (answered x)"
proof -
  have "rec_ok (x\<lparr>l_action := OCFS2_AST_INVALID, l_unlock_action := (if l_unlock_action x = OCFS2_UNLOCK_CANCEL_CONVERT
      then OCFS2_UNLOCK_INVALID else l_unlock_action x)\<rparr>)"
    using assms by (simp add: rec_ok_def plain_res_def level_ok_def block_ok_def covered_def cover_def res_flag_def)
  from same_core_ok[OF pending_cleared_same this] show ?thesis by (simp add: answered_def)
qed

lemma acted_ok:
  assumes "rec_ok x" "res_flag OCFS2_LOCK_BUSY x" shows "rec_ok (answered (acted (l_action x) x))"
proof (rule answered_ok)
  show "rec_ok (acted (l_action x) x)"
    using assms attached_ok converted_ok downconverted_ok
    by (cases "l_action x") (auto simp: rec_ok_def busy_ok_def)
  show "\<not> res_flag OCFS2_LOCK_BUSY (acted (l_action x) x)"
    using assms by (cases "l_action x")
      (auto simp: attached_def converted_def downconverted_def Let_def res_flag_def rec_ok_def busy_ok_def)
qed

text \<open>Giving a request up leaves the lock at its level.\<close>

lemma unbusied_ok:
  assumes "rec_ok x" "\<not> res_flag OCFS2_LOCK_BUSY y" "l_level y = l_level x" "l_blocking y = l_blocking x"
    "l_ro_holders y = l_ro_holders x" "l_ex_holders y = l_ex_holders x" "l_unlock_action y \<noteq> OCFS2_UNLOCK_DROP_LOCK"
    "\<forall>fl\<in>{OCFS2_LOCK_INITIALIZED, OCFS2_LOCK_FREEING, OCFS2_LOCK_NOCACHE, OCFS2_LOCK_ATTACHED, OCFS2_LOCK_BLOCKED}.
       res_flag fl y = res_flag fl x"
  shows "rec_ok y"
proof (rule rec_okI)
  have "cover x \<le> l_level x"
  proof (cases "res_flag OCFS2_LOCK_BUSY x \<and> l_action x = OCFS2_AST_DOWNCONVERT")
    case True
    then show ?thesis using rec_okD(4)[OF assms(1)] by (simp add: cover_def busy_ok_def)
  qed (auto simp: cover_def)
  then have "cover x \<le> cover y" using assms(2,3) by (simp add: cover_def)
  then show "covered y" by (rule coveredI[OF rec_okD(5)[OF assms(1)] assms(6,5)])
qed (use assms in \<open>simp_all add: rec_ok_def plain_res_def level_ok_def block_ok_def\<close>)

lemma refused_ok: "rec_ok x \<Longrightarrow> rec_ok (refused x)"
  unfolding refused_def
  by (rule answered_ok, rule unbusied_ok[of x]) (auto simp: rec_ok_def plain_res_def res_flag_def)

lemma cancelled_ok: "rec_ok x \<Longrightarrow> rec_ok (cancelled x)"
  by (rule unbusied_ok[of x]) (auto simp: cancelled_def res_flag_def)

lemma recovered_ok: "rec_ok x \<Longrightarrow> rec_ok (recovered convert x)"
  by (rule unbusied_ok[of x]) (auto simp: recovered_def Let_def res_flag_def rec_ok_def plain_res_def)

lemma blocked_by_ok:
  assumes x: "rec_ok x" and m: "lock_level level" "ocfs2_highest_compat_lock_level level < l_level x"
  shows "rec_ok (blocked_by level x)"
proof -
  have hl: "l_blocking x < level" "l_blocking x \<noteq> DLM_LOCK_EX" if "bast_matters level x"
    using that m by (auto simp: bast_matters_def lock_level_def)
  show ?thesis
  proof (cases "bast_matters level x")
    case True
    have "busy_ok (blocked_by level x)" if "res_flag OCFS2_LOCK_BUSY x"
    proof -
      have "ocfs2_highest_compat_lock_level level \<le> ocfs2_highest_compat_lock_level (l_blocking x)"
        using True by (simp add: bast_matters_def)
      then show ?thesis using x that True by (auto simp: rec_ok_def busy_ok_def blocked_by_def res_flag_def)
    qed
    moreover have "covered (blocked_by level x)"
      by (rule coveredI[of x]) (use x True in \<open>auto simp: rec_ok_def cover_def blocked_by_def res_flag_def\<close>)
    ultimately show ?thesis using x True m
      by (intro rec_okI) (auto simp: rec_ok_def plain_res_def level_ok_def block_ok_def blocked_by_def res_flag_def)
  next
    case False
    have "max level (l_blocking x) = l_blocking x"
      using False m x unfolding bast_matters_def rec_ok_def block_ok_def lock_level_def ocfs2_highest_compat_lock_level_def
      by (auto split: if_splits)
    then show ?thesis using False x by (simp add: blocked_by_def)
  qed
qed

lemma now_held_ok:
  assumes x: "rec_ok x" and m: "may_hold level x" "lock_level level" shows "rec_ok (now_held level x)"
proof (rule rec_okI)
  have "level \<le> cover x"
  proof (cases "res_flag OCFS2_LOCK_BUSY x \<and> l_action x = OCFS2_AST_DOWNCONVERT")
    case True
    then show ?thesis using x m(1) by (auto simp: rec_ok_def busy_ok_def may_hold_def cover_def)
  qed (use m(1) in \<open>auto simp: may_hold_def cover_def\<close>)
  then show "covered (now_held level x)" using x m(2)
    by (auto simp: rec_ok_def covered_def cover_def now_held_def lock_level_def res_flag_def split: if_splits)
qed (cases "level = DLM_LOCK_EX"; use x in \<open>simp add: rec_ok_def plain_res_def level_ok_def block_ok_def busy_ok_def now_held_def res_flag_def\<close>)+

lemma now_released_ok: "rec_ok x \<Longrightarrow> level = DLM_LOCK_EX \<and> l_ex_holders x \<noteq> 0 \<or> level = DLM_LOCK_PR \<and> l_ro_holders x \<noteq> 0 \<Longrightarrow>
  rec_ok (now_released level x)"
  by (rule rec_okI)
    (auto simp: rec_ok_def plain_res_def level_ok_def block_ok_def busy_ok_def now_released_def res_flag_def covered_def cover_def)

lemma down_asked_ok:
  assumes x: "rec_ok x" and m: "ready x" shows "rec_ok (down_asked (ocfs2_highest_compat_lock_level (l_blocking x)) x)"
proof (rule rec_okI)
  let ?l = "ocfs2_highest_compat_lock_level (l_blocking x)"
  have b: "lock_level (l_blocking x)" "?l < l_level x" "res_flag OCFS2_LOCK_ATTACHED x"
    using x m blocked_attached[of x] by (auto simp: rec_ok_def block_ok_def ready_def)
  show "busy_ok (down_asked ?l x)" using x m b
    by (auto simp: busy_ok_def down_asked_def ready_def res_flag_def compat_lock_level)
  show "covered (down_asked ?l x)" using x m b
    by (auto simp: covered_def cover_def down_asked_def ready_def blocks_def res_flag_def compat_lock_level rec_ok_def)
qed (use x in \<open>simp_all add: rec_ok_def plain_res_def level_ok_def block_ok_def down_asked_def res_flag_def\<close>)

end
