(* ===== verification/Ocfs2_Tasks.thy ===== *)
theory Ocfs2_Tasks
  imports Ocfs2_Inv
begin

text \<open>
  The invariant of a lock resource, continued: who is responsible for a busy lock (one process, or the
  lock manager), what the processes in front of and behind a call of the lock manager know, and that a
  blocked lock is not forgotten (\<open>res_ok\<close>). Each lemma here is a step: the resource, the lock manager's
  side, the place of one process and the list of blocked locks change, and \<open>res_ok\<close> holds again.
\<close>

section \<open>The invariant\<close>

fun pc_res :: "pc \<Rightarrow> rp option" where
  "pc_res Idle = None"
| "pc_res (Again c) = Some (lc_res c)"
| "pc_res (Out c) = Some (lc_res c)"
| "pc_res (Create r level) = Some r"
| "pc_res (Dlm_call a gen) = Some (asker_res a)"
| "pc_res (Dlm_called a gen ret) = Some (asker_res a)"
| "pc_res (Dlm_failed a ret) = Some (asker_res a)"
| "pc_res (Dc_next k) = None"
| "pc_res (Dc_process k r) = Some r"
| "pc_res (Dc_unblock k r ctl) = Some r"
| "pc_res (Dc_cancel k r ctl) = Some r"
| "pc_res (Dc_worker k r ctl b l) = Some r"
| "pc_res (Dc_end k r ctl) = Some r"

text \<open>The process has made the lock busy and has no answer of the lock manager, or a refusal.\<close>

fun owns :: "rp \<Rightarrow> pc \<Rightarrow> bool" where
  "owns r (Dlm_call a gen) \<longleftrightarrow> asker_res a = r"
| "owns r (Dlm_called a gen ret) \<longleftrightarrow> asker_res a = r \<and> ret \<noteq> 0"
| "owns r (Dlm_failed a ret) \<longleftrightarrow> asker_res a = r"
| "owns r p \<longleftrightarrow> False"

fun gen_of :: "rp \<Rightarrow> pc \<Rightarrow> u32 option" where
  "gen_of r (Dlm_call a gen) = (if asker_res a = r then Some gen else None)"
| "gen_of r (Dlm_called a gen ret) = (if asker_res a = r then Some gen else None)"
| "gen_of r p = None"

fun gave_up :: "rp \<Rightarrow> pc \<Rightarrow> bool" where
  "gave_up r (Dlm_failed a ret) \<longleftrightarrow> asker_res a = r"
| "gave_up r p \<longleftrightarrow> False"

text \<open>The lock manager is about to be called for what the resource says.\<close>

fun asks_right :: "rp \<Rightarrow> ocfs2_lock_res \<Rightarrow> pc \<Rightarrow> bool" where
  "asks_right r x (Dlm_call a gen) \<longleftrightarrow> asker_res a = r \<longrightarrow>
     asker_level a = l_requested x \<and> (by_down a \<longrightarrow> l_action x = OCFS2_AST_DOWNCONVERT)"
| "asks_right r x p \<longleftrightarrow> True"

text \<open>While the worker of a lock type runs, nothing gets in the way of the downconvert.\<close>

fun works :: "rp \<Rightarrow> ocfs2_lock_res \<Rightarrow> pc \<Rightarrow> bool" where
  "works r x (Dc_worker k r' ctl b l) \<longleftrightarrow> r' = r \<longrightarrow> res_flag OCFS2_LOCK_BLOCKED x \<and> \<not> res_flag OCFS2_LOCK_BUSY x \<and>
     \<not> res_flag OCFS2_LOCK_UPCONVERT_FINISHING x \<and> l = l_level x \<and> b \<le> l_blocking x \<and> lock_level b \<and> \<not> blocks b x"
| "works r x p \<longleftrightarrow> True"

text \<open>The downconvert thread has the lock in hand, and will not drop it without having looked again.\<close>

fun in_hand :: "rp \<Rightarrow> pc \<Rightarrow> bool" where
  "in_hand r (Dc_process k r') \<longleftrightarrow> r' = r"
| "in_hand r (Dc_unblock k r' ctl) \<longleftrightarrow> r' = r"
| "in_hand r (Dc_worker k r' ctl b l) \<longleftrightarrow> r' = r"
| "in_hand r (Dc_cancel k r' ctl) \<longleftrightarrow> r' = r \<and> requeue ctl"
| "in_hand r (Dc_end k r' ctl) \<longleftrightarrow> r' = r \<and> requeue ctl"
| "in_hand r p \<longleftrightarrow> False"

fun in_call :: "rp \<Rightarrow> pc \<Rightarrow> bool" where
  "in_call r (Dlm_call a gen) \<longleftrightarrow> asker_res a = r \<and> by_down a"
| "in_call r (Dlm_called a gen ret) \<longleftrightarrow> asker_res a = r \<and> by_down a \<and> ret = -EBUSY"
| "in_call r (Dlm_failed a ret) \<longleftrightarrow> asker_res a = r \<and> by_down a \<and> ret = -EBUSY"
| "in_call r p \<longleftrightarrow> False"

fun by_thread :: "pc \<Rightarrow> bool" where
  "by_thread (Dlm_call a gen) = by_down a"
| "by_thread (Dlm_called a gen ret) = by_down a"
| "by_thread (Dlm_failed a ret) = by_down a"
| "by_thread (Dc_next k) = True"
| "by_thread (Dc_process k r) = True"
| "by_thread (Dc_unblock k r ctl) = True"
| "by_thread (Dc_worker k r ctl b l) = True"
| "by_thread (Dc_cancel k r ctl) = True"
| "by_thread (Dc_end k r ctl) = True"
| "by_thread p = False"

definition side_ok :: "ocfs2_lock_res \<Rightarrow> dlm_side \<Rightarrow> bool" where
  "side_ok x q \<longleftrightarrow> (request q = None \<longrightarrow> given q = l_level x) \<and>
     (\<forall>rq. request q = Some rq \<longrightarrow> res_flag OCFS2_LOCK_BUSY x \<and> rq_mode rq = l_requested x \<and>
         given q = min (l_level x) (l_requested x) \<and>
         (rq_cancelled rq \<longrightarrow> \<not> res_flag OCFS2_LOCK_PENDING x \<and> l_unlock_action x = OCFS2_UNLOCK_CANCEL_CONVERT))"

definition pend_ok :: "ocfs2_lock_res \<Rightarrow> bool" where
  "pend_ok x \<longleftrightarrow> (res_flag OCFS2_LOCK_PENDING x \<longrightarrow> res_flag OCFS2_LOCK_BUSY x \<and> l_pending_gen x + 1 \<noteq> 0)"

definition task_ok :: "rp \<Rightarrow> ocfs2_lock_res \<Rightarrow> dlm_side \<Rightarrow> pc \<Rightarrow> bool" where
  "task_ok r x q p \<longleftrightarrow> (owns r p \<longrightarrow> res_flag OCFS2_LOCK_BUSY x \<and> request q = None) \<and>
     (\<forall>g. gen_of r p = Some g \<longrightarrow> g \<le> l_pending_gen x \<and> (g = l_pending_gen x \<longrightarrow> res_flag OCFS2_LOCK_PENDING x) \<and>
        (owns r p \<longrightarrow> g = l_pending_gen x)) \<and>
     (gave_up r p \<longrightarrow> \<not> res_flag OCFS2_LOCK_PENDING x) \<and> asks_right r x p \<and> works r x p"

definition owners_ok :: "rp \<Rightarrow> ocfs2_lock_res \<Rightarrow> dlm_side \<Rightarrow> (nat \<Rightarrow> pc) \<Rightarrow> bool" where
  "owners_ok r x q P \<longleftrightarrow> (\<forall>t t'. owns r (P t) \<and> owns r (P t') \<longrightarrow> t = t') \<and>
     (\<forall>t t'. gen_of r (P t) = Some (l_pending_gen x) \<and> gen_of r (P t') = Some (l_pending_gen x) \<longrightarrow> t = t') \<and>
     (res_flag OCFS2_LOCK_BUSY x \<longrightarrow> request q \<noteq> None \<or> (\<exists>t. owns r (P t)))"

definition kept_ok :: "rp \<Rightarrow> ocfs2_lock_res \<Rightarrow> dlm_side \<Rightarrow> pc \<Rightarrow> bool \<Rightarrow> bool" where
  "kept_ok r x q p listed \<longleftrightarrow>
     (l_blocking x = DLM_LOCK_IV \<longrightarrow> \<not> listed \<and> \<not> (by_thread p \<and> pc_res p = Some r)) \<and>
     (res_flag OCFS2_LOCK_BLOCKED x \<longrightarrow> listed \<or> in_hand r p \<or> in_call r p \<or>
        request q \<noteq> None \<and> l_action x = OCFS2_AST_DOWNCONVERT \<and> l_requested x \<le> ocfs2_highest_compat_lock_level (l_blocking x)) \<and>
     (res_flag OCFS2_LOCK_BUSY x \<and> l_action x = OCFS2_AST_DOWNCONVERT \<longrightarrow>
        l_requested x \<le> ocfs2_highest_compat_lock_level (l_blocking x) \<or> listed \<or> in_hand r p)"

definition res_ok :: "rp \<Rightarrow> ocfs2_lock_res \<Rightarrow> dlm_side \<Rightarrow> (nat \<Rightarrow> pc) \<Rightarrow> bool \<Rightarrow> bool" where
  "res_ok r x q P listed \<longleftrightarrow> rec_ok x \<and> side_ok x q \<and> pend_ok x \<and> (\<forall>t. task_ok r x q (P t)) \<and> owners_ok r x q P \<and>
     kept_ok r x q (P 0) listed"

lemma res_okD:
  assumes "res_ok r x q P listed"
  shows "rec_ok x" "side_ok x q" "pend_ok x" "task_ok r x q (P t)" "owners_ok r x q P" "kept_ok r x q (P 0) listed"
  using assms by (simp_all add: res_ok_def)

subsection \<open>Waiters and other resources do not matter\<close>

lemma blocks_waiters [simp]: "blocks b (x\<lparr>l_mask_waiters := ws\<rparr>) = blocks b x"
  by (simp add: blocks_def)

lemma res_ok_waiters [simp]: "res_ok r (x\<lparr>l_mask_waiters := ws\<rparr>) q P listed = res_ok r x q P listed"
proof -
  have "asks_right r (x\<lparr>l_mask_waiters := ws\<rparr>) p = asks_right r x p" "works r (x\<lparr>l_mask_waiters := ws\<rparr>) p = works r x p" for p
    by (cases p; simp)+
  then have "task_ok r (x\<lparr>l_mask_waiters := ws\<rparr>) q p = task_ok r x q p" for p by (simp add: task_ok_def)
  then show ?thesis by (simp add: res_ok_def side_ok_def pend_ok_def owners_ok_def kept_ok_def)
qed

lemma elsewhere:
  assumes "pc_res p \<noteq> Some r"
  shows "\<not> owns r p" "gen_of r p = None" "\<not> gave_up r p" "asks_right r x p" "works r x p" "\<not> in_hand r p" "\<not> in_call r p"
  using assms by (cases p; auto)+

lemma task_ok_elsewhere: "pc_res p \<noteq> Some r \<Longrightarrow> task_ok r x q p"
  by (simp add: task_ok_def elsewhere)

lemma res_ok_frame:
  assumes P: "res_ok r x q P listed" and p: "pc_res (P t) \<noteq> Some r" "pc_res p' \<noteq> Some r"
  shows "res_ok r x q (P(t := p')) listed"
proof -
  have "owners_ok r x q (P(t := p'))"
    using res_okD(5)[OF P] elsewhere(1,2)[OF p(1)] elsewhere(1,2)[OF p(2)] unfolding owners_ok_def
    by (auto simp: fun_upd_def split: if_splits)
  moreover have "kept_ok r x q ((P(t := p')) 0) listed"
    using res_okD(6)[OF P] elsewhere(6,7)[OF p(1)] elsewhere(6,7)[OF p(2)] p by (auto simp: kept_ok_def)
  ultimately show ?thesis using P p by (auto simp: res_ok_def task_ok_elsewhere)
qed

lemma res_ok_fresh:
  assumes "fresh_res x" "\<And>t. P t = Idle"
  shows "res_ok r x \<lparr>given = DLM_LOCK_IV, request = None\<rparr> P False"
  using assms rec_ok_fresh[OF assms(1)]
  by (simp add: res_ok_def side_ok_def pend_ok_def task_ok_def owners_ok_def kept_ok_def fresh_res_def res_flag_def)

section \<open>Steps\<close>

text \<open>What a step has to show if the place of the process \<open>t\<close> becomes \<open>p'\<close>.\<close>

lemma res_ok_step:
  assumes x: "res_ok r x q P listed"
    and y: "rec_ok y" "side_ok y q'" "pend_ok y" "task_ok r y q' p'"
    and others: "\<And>t'. t' \<noteq> t \<Longrightarrow> task_ok r y q' (P t')"
    and one: "\<And>t'. t' \<noteq> t \<Longrightarrow> owns r p' \<Longrightarrow> \<not> owns r (P t')"
      "\<And>t'. t' \<noteq> t \<Longrightarrow> gen_of r p' = Some (l_pending_gen y) \<Longrightarrow> gen_of r (P t') \<noteq> Some (l_pending_gen y)"
      "l_pending_gen y = l_pending_gen x \<or> l_pending_gen y = l_pending_gen x + 1 \<and> l_pending_gen x + 1 \<noteq> 0"
    and busy: "res_flag OCFS2_LOCK_BUSY y \<Longrightarrow> request q' \<noteq> None \<or> owns r p' \<or> (\<exists>t'. t' \<noteq> t \<and> owns r (P t'))"
    and kept: "kept_ok r y q' ((P(t := p')) 0) listed'"
  shows "res_ok r y q' (P(t := p')) listed'"
proof -
  have o: "owns r (P t1) \<and> owns r (P t2) \<longrightarrow> t1 = t2"
    and g: "gen_of r (P t1) = Some (l_pending_gen x) \<and> gen_of r (P t2) = Some (l_pending_gen x) \<longrightarrow> t1 = t2" for t1 t2
    using res_okD(5)[OF x] by (auto simp: owners_ok_def)
  have le: "gen_of r (P t1) = Some g1 \<Longrightarrow> g1 \<le> l_pending_gen x" for t1 g1
    using res_okD(4)[OF x] by (auto simp: task_ok_def)
  have g': "gen_of r (P t1) \<noteq> Some (l_pending_gen y)" if "l_pending_gen y \<noteq> l_pending_gen x" for t1
    using le[of t1 "l_pending_gen y"] that one(3) unatSuc[of "l_pending_gen x"]
    by (auto simp: word_le_nat_alt add.commute[of _ 1])
  have "owners_ok r y q' (P(t := p'))"
    unfolding owners_ok_def
  proof (intro conjI allI impI)
    fix t1 t2 assume "owns r ((P(t := p')) t1) \<and> owns r ((P(t := p')) t2)"
    then show "t1 = t2" using o[of t1 t2] one(1)[of t1] one(1)[of t2] by (auto split: if_splits)
  next
    fix t1 t2 assume a: "gen_of r ((P(t := p')) t1) = Some (l_pending_gen y) \<and> gen_of r ((P(t := p')) t2) = Some (l_pending_gen y)"
    show "t1 = t2"
    proof (cases "l_pending_gen y = l_pending_gen x")
      case True
      then show ?thesis using a g[of t1 t2] one(2)[of t1] one(2)[of t2] by (auto split: if_splits)
    next
      case False
      then show ?thesis using a g'[of t1] g'[of t2] by (auto split: if_splits)
    qed
  next
    assume "res_flag OCFS2_LOCK_BUSY y"
    from busy[OF this] show "request q' \<noteq> None \<or> (\<exists>t1. owns r ((P(t := p')) t1))" by auto
  qed
  then show ?thesis using y others kept by (auto simp: res_ok_def)
qed

text \<open>Places at which a process has nothing to do with the lock manager.\<close>

fun plain_pc :: "pc \<Rightarrow> bool" where
  "plain_pc Idle = True"
| "plain_pc (Again c) = True"
| "plain_pc (Out c) = True"
| "plain_pc (Create r level) = True"
| "plain_pc p = False"

lemma plain_pcD:
  assumes "plain_pc p"
  shows "\<not> owns r p" "gen_of r p = None" "\<not> gave_up r p" "asks_right r x p" "works r x p" "\<not> in_hand r p" "\<not> in_call r p"
    "\<not> by_thread p"
  using assms by (cases p; auto)+

lemma task_ok_plain: "plain_pc p \<Longrightarrow> task_ok r x q p"
  by (simp add: task_ok_def plain_pcD)

text \<open>What another process relies on stays as it is.\<close>

definition steady :: "ocfs2_lock_res \<Rightarrow> ocfs2_lock_res \<Rightarrow> bool" where
  "steady x y \<longleftrightarrow> l_level y = l_level x \<and> l_requested y = l_requested x \<and> l_action y = l_action x \<and>
     l_pending_gen y = l_pending_gen x \<and> l_blocking x \<le> l_blocking y \<and>
     (\<forall>fl\<in>{OCFS2_LOCK_BUSY, OCFS2_LOCK_PENDING}. res_flag fl y = res_flag fl x) \<and>
     (res_flag OCFS2_LOCK_BLOCKED x \<longrightarrow> res_flag OCFS2_LOCK_BLOCKED y) \<and>
     (res_flag OCFS2_LOCK_UPCONVERT_FINISHING y \<longrightarrow> res_flag OCFS2_LOCK_UPCONVERT_FINISHING x) \<and>
     (\<forall>b. lock_level b \<and> b \<le> l_blocking x \<and> res_flag OCFS2_LOCK_BLOCKED x \<and> \<not> res_flag OCFS2_LOCK_UPCONVERT_FINISHING x \<longrightarrow>
        blocks b y \<longrightarrow> blocks b x)"

lemma steady_task:
  assumes "task_ok r x q p" "steady x y" shows "task_ok r y q p"
proof -
  have "asks_right r y p" using assms by (cases p) (auto simp: task_ok_def steady_def)
  moreover have "works r y p" using assms by (cases p) (auto simp: task_ok_def steady_def)
  ultimately show ?thesis using assms by (simp add: task_ok_def steady_def)
qed

lemma steady_pend: "pend_ok x \<Longrightarrow> steady x y \<Longrightarrow> pend_ok y"
  by (simp add: pend_ok_def steady_def)

lemma steady_side: "side_ok x q \<Longrightarrow> steady x y \<Longrightarrow> l_unlock_action y = l_unlock_action x \<Longrightarrow> side_ok y q"
  by (simp add: side_ok_def steady_def)

lemma steady_busy:
  "owners_ok r x q P \<Longrightarrow> steady x y \<Longrightarrow> \<not> owns r (P t) \<Longrightarrow> res_flag OCFS2_LOCK_BUSY y \<Longrightarrow>
   request q \<noteq> None \<or> owns r p' \<or> (\<exists>t'. t' \<noteq> t \<and> owns r (P t'))"
  by (auto simp: owners_ok_def steady_def)

text \<open>A process moves between such places, and the resource changes in this way.\<close>

lemma step_steady:
  assumes x: "res_ok r x q P listed" and p: "plain_pc (P t)" "plain_pc p'"
    and y: "rec_ok y" "steady x y" "l_blocking y = l_blocking x" "l_unlock_action y = l_unlock_action x"
      "res_flag OCFS2_LOCK_BLOCKED y = res_flag OCFS2_LOCK_BLOCKED x"
  shows "res_ok r y q (P(t := p')) listed"
proof (rule res_ok_step[OF x y(1)])
  show "side_ok y q" "pend_ok y" using steady_side steady_pend x y unfolding res_ok_def by blast+
  show "task_ok r y q p'" using p(2) by (rule task_ok_plain)
  show "\<And>t'. task_ok r y q (P t')" using steady_task[OF res_okD(4)[OF x] y(2)] .
  show "request q \<noteq> None \<or> owns r p' \<or> (\<exists>t'. t' \<noteq> t \<and> owns r (P t'))" if "res_flag OCFS2_LOCK_BUSY y"
    using steady_busy[OF res_okD(5)[OF x] y(2)] plain_pcD(1)[OF p(1)] that .
  show "kept_ok r y q ((P(t := p')) 0) listed"
  proof -
    have "kept_ok r y q (P 0) listed" using res_okD(6)[OF x] y by (simp add: kept_ok_def steady_def)
    then show ?thesis using plain_pcD(6-8)[OF p(1)] plain_pcD(6-8)[OF p(2)] by (cases "t = 0") (auto simp: kept_ok_def)
  qed
qed (use plain_pcD[OF p(2)] y(2) in \<open>auto simp: steady_def\<close>)

lemma step_hold:
  assumes x: "res_ok r x q P listed" and p: "plain_pc (P t)" "plain_pc p'" and m: "may_hold level x" "lock_level level"
  shows "res_ok r (finished (now_held level x)) q (P(t := p')) listed"
proof (rule step_steady[OF x p])
  show "rec_ok (finished (now_held level x))"
    using same_core_ok[OF finished_same now_held_ok[OF res_okD(1)[OF x] m]] .
  have "blocks b (finished (now_held level x)) \<longrightarrow> blocks b x"
    if "lock_level b" "b \<le> l_blocking x" "res_flag OCFS2_LOCK_BLOCKED x" "\<not> res_flag OCFS2_LOCK_UPCONVERT_FINISHING x" for b
  proof -
    have "level \<le> ocfs2_highest_compat_lock_level (l_blocking x)" using m(1) that by (simp add: may_hold_def)
    moreover have "ocfs2_highest_compat_lock_level (l_blocking x) \<le> ocfs2_highest_compat_lock_level b"
      using that rec_okD(3)[OF res_okD(1)[OF x]]
      by (auto simp: block_ok_def lock_level_def ocfs2_highest_compat_lock_level_def split: if_splits)
    ultimately show ?thesis using m(2) that(1)
      by (auto simp: blocks_def finished_def now_held_def lock_level_def ocfs2_highest_compat_lock_level_def split: if_splits)
  qed
  then show "steady x (finished (now_held level x))"
    by (auto simp: steady_def finished_def now_held_def res_flag_def)
qed (simp_all add: finished_def now_held_def res_flag_def)

lemma step_release:
  assumes x: "res_ok r x q P listed" and p: "plain_pc (P t)"
    and m: "level = DLM_LOCK_EX \<and> l_ex_holders x \<noteq> 0 \<or> level = DLM_LOCK_PR \<and> l_ro_holders x \<noteq> 0"
  shows "res_ok r (now_released level x) q P listed"
proof -
  have "res_ok r (now_released level x) q (P(t := P t)) listed"
  proof (rule step_steady[OF x p p])
    show "rec_ok (now_released level x)" by (rule now_released_ok[OF res_okD(1)[OF x] m])
    show "steady x (now_released level x)" using m by (auto simp: steady_def now_released_def res_flag_def blocks_def)
  qed (simp_all add: now_released_def res_flag_def)
  then show ?thesis by simp
qed

text \<open>A process asks for the lock and is now the one that is responsible for it.\<close>

lemma step_ask:
  assumes x: "res_ok r x q P listed" and p: "plain_pc (P t)" and a: "asker_res a = r" "asker_level a = level" "\<not> by_down a"
    and m: "may_ask level x" "lock_level level" and g: "l_pending_gen x + 1 \<noteq> 0"
  shows "res_ok r (asked level x) q (P(t := Dlm_call a (l_pending_gen x))) listed"
proof (rule res_ok_step[OF x])
  have nb: "\<not> res_flag OCFS2_LOCK_BUSY x" "\<not> res_flag OCFS2_LOCK_PENDING x"
    using m(1) res_okD(3)[OF x] by (auto simp: may_ask_def pend_ok_def)
  have rq: "request q = None" using res_okD(2)[OF x] nb by (cases "request q") (auto simp: side_ok_def)
  have others: "\<not> owns r (P t')" "gen_of r (P t') \<noteq> Some (l_pending_gen x)" for t'
    using res_okD(4)[OF x, of t'] nb by (auto simp: task_ok_def)
  show "rec_ok (asked level x)" by (rule asked_ok[OF res_okD(1)[OF x] m])
  show "side_ok (asked level x) q" using rq res_okD(2)[OF x] by (simp add: side_ok_def asked_def)
  show "pend_ok (asked level x)" using g by (simp add: pend_ok_def asked_def res_flag_def)
  show "task_ok r (asked level x) q (Dlm_call a (l_pending_gen x))"
    using rq a by (simp add: task_ok_def asked_def res_flag_def)
  show "task_ok r (asked level x) q (P t')" for t'
  proof -
    have "\<not> res_flag OCFS2_LOCK_BLOCKED x"
      using m(1) rec_okD(3)[OF res_okD(1)[OF x]] by (auto simp: may_ask_def block_ok_def)
    then have "works r (asked level x) (P t')"
      using res_okD(4)[OF x, of t'] by (cases "P t'") (auto simp: task_ok_def)
    moreover have "asks_right r (asked level x) (P t')"
      using others(1)[of t'] by (cases "P t'") auto
    moreover have "\<not> gave_up r (P t')" using others(1)[of t'] by (cases "P t'") auto
    ultimately show ?thesis
      using others res_okD(4)[OF x, of t'] by (simp add: task_ok_def asked_def res_flag_def)
  qed
  show "owns r (Dlm_call a (l_pending_gen x)) \<Longrightarrow> \<not> owns r (P t')" for t' by (rule others)
  show "gen_of r (P t') \<noteq> Some (l_pending_gen (asked level x))" for t' using others(2) by (simp add: asked_def)
  show "request q \<noteq> None \<or> owns r (Dlm_call a (l_pending_gen x)) \<or> (\<exists>t'. t' \<noteq> t \<and> owns r (P t'))" using a by simp
  show "kept_ok r (asked level x) q ((P(t := Dlm_call a (l_pending_gen x))) 0) listed"
    using res_okD(6)[OF x] plain_pcD[OF p] rq a nb by (auto simp: kept_ok_def asked_def res_flag_def)
qed (simp_all add: asked_def)

text \<open>The lock manager is called. It takes the request, or refuses it.\<close>

lemma step_call:
  assumes x: "res_ok r x q P listed" and p: "P t = Dlm_call a g" "asker_res a = r" and d: "by_down a \<Longrightarrow> ret = 0 \<or> ret = -EBUSY"
    and t: "by_down a \<longleftrightarrow> t = 0"
  shows "res_ok r x (if ret \<noteq> 0 then q else dlm_take a q) (P(t := Dlm_called a g ret)) listed"
proof (rule res_ok_step[OF x res_okD(1)[OF x]])
  let ?q = "if ret \<noteq> 0 then q else dlm_take a q"
  have me: "owns r (P t)" "gen_of r (P t) = Some g" using p by auto
  have tk: "res_flag OCFS2_LOCK_BUSY x" "request q = None" "g = l_pending_gen x" "res_flag OCFS2_LOCK_PENDING x"
      "asker_level a = l_requested x" "by_down a \<Longrightarrow> l_action x = OCFS2_AST_DOWNCONVERT"
    using res_okD(4)[OF x, of t] p by (auto simp: task_ok_def)
  have o: "\<not> owns r (P t')" "gen_of r (P t') \<noteq> Some (l_pending_gen x)" if "t' \<noteq> t" for t'
    using res_okD(5)[OF x] me tk(3) that unfolding owners_ok_def by blast+
  show "side_ok x ?q" using res_okD(2)[OF x] tk by (auto simp: side_ok_def dlm_take_def)
  show "pend_ok x" by (rule res_okD(3)[OF x])
  show "task_ok r x ?q (Dlm_called a g ret)" using tk by (auto simp: task_ok_def)
  show "task_ok r x ?q (P t')" if "t' \<noteq> t" for t' using res_okD(4)[OF x, of t'] o(1)[OF that] by (simp add: task_ok_def)
  show "\<not> owns r (P t')" if "t' \<noteq> t" for t' by (rule o(1)[OF that])
  show "gen_of r (P t') \<noteq> Some (l_pending_gen x)" if "t' \<noteq> t" for t' by (rule o(2)[OF that])
  show "request ?q \<noteq> None \<or> owns r (Dlm_called a g ret) \<or> (\<exists>t'. t' \<noteq> t \<and> owns r (P t'))"
    using p by (auto simp: dlm_take_def)
  show "kept_ok r x ?q ((P(t := Dlm_called a g ret)) 0) listed"
    using res_okD(6)[OF x] tk t d p by (cases "t = 0") (auto simp: kept_ok_def dlm_take_def)
qed simp

text \<open>The process is back from the call.\<close>

lemma pending_cleared_simps [simp]:
  "l_level (pending_cleared g x) = l_level x" "l_requested (pending_cleared g x) = l_requested x"
  "l_action (pending_cleared g x) = l_action x" "l_blocking (pending_cleared g x) = l_blocking x"
  "l_unlock_action (pending_cleared g x) = l_unlock_action x"
  "fl \<noteq> OCFS2_LOCK_PENDING \<Longrightarrow> res_flag fl (pending_cleared g x) = res_flag fl x"
  "blocks b (pending_cleared g x) = blocks b x"
  by (auto simp: pending_cleared_def res_flag_def blocks_def)

lemma pending_cleared_tasks:
  "asks_right r (pending_cleared g x) p = asks_right r x p" "works r (pending_cleared g x) p = works r x p"
  by (cases p; simp)+

lemma step_called:
  assumes x: "res_ok r x q P listed" and p: "P t = Dlm_called a g ret" "asker_res a = r"
    and t: "by_down a \<longleftrightarrow> t = 0" "by_down a \<Longrightarrow> ret = 0 \<or> ret = -EBUSY"
  shows "res_ok r (pending_cleared g x) q (P(t := after_call a ret)) listed"
proof (rule res_ok_step[OF x])
  let ?y = "pending_cleared g x"
  have me: "gen_of r (P t) = Some g" using p by auto
  have tk: "g \<le> l_pending_gen x" "ret \<noteq> 0 \<Longrightarrow> res_flag OCFS2_LOCK_BUSY x \<and> request q = None \<and> g = l_pending_gen x"
    using res_okD(4)[OF x, of t] p by (auto simp: task_ok_def)
  have g1: "l_pending_gen x + 1 \<noteq> 0" if "res_flag OCFS2_LOCK_PENDING x" using res_okD(3)[OF x] that by (simp add: pend_ok_def)
  have lt: "l_pending_gen x < l_pending_gen x + 1" if "res_flag OCFS2_LOCK_PENDING x"
    using unatSuc[of "l_pending_gen x"] g1[OF that] by (simp add: word_less_nat_alt add.commute)
  have o: "owns r (P t') \<longrightarrow> ret = 0" "g = l_pending_gen x \<longrightarrow> gen_of r (P t') \<noteq> Some (l_pending_gen x)" if "t' \<noteq> t" for t'
    using res_okD(5)[OF x] me that p unfolding owners_ok_def by fastforce+
  show "rec_ok ?y" by (rule same_core_ok[OF pending_cleared_same res_okD(1)[OF x]])
  show "side_ok ?y q" using res_okD(2)[OF x] by (auto simp: side_ok_def pending_cleared_def res_flag_def)
  show "pend_ok ?y" using res_okD(3)[OF x] by (auto simp: pend_ok_def pending_cleared_def res_flag_def)
  have np: "\<not> res_flag OCFS2_LOCK_PENDING ?y" if "g = l_pending_gen x"
    using that by (auto simp: pending_cleared_def res_flag_def)
  show "task_ok r ?y q (after_call a ret)"
    using tk(2) np by (cases a) (auto simp: task_ok_def)
  show "task_ok r ?y q (P t')" if "t' \<noteq> t" for t'
  proof (cases "res_flag OCFS2_LOCK_PENDING x \<and> l_pending_gen x = g")
    case True
    have "\<not> owns r (P t')"
      using res_okD(4)[OF x, of t'] o(2)[OF that] True by (cases "P t'") (auto simp: task_ok_def)
    moreover have "g' < l_pending_gen ?y" if "gen_of r (P t') = Some g'" for g'
      using res_okD(4)[OF x, of t'] lt True that by (auto simp: task_ok_def pending_cleared_def)
    moreover have "\<not> res_flag OCFS2_LOCK_PENDING ?y" using np True by simp
    moreover have "asks_right r x (P t')" "works r x (P t')" using res_okD(4)[OF x, of t'] by (simp_all add: task_ok_def)
    ultimately show ?thesis
      by (auto simp: task_ok_def pending_cleared_tasks simp del: pending_cleared_simps)
  next
    case False
    then have "?y = x" by (auto simp: pending_cleared_def)
    then show ?thesis using res_okD(4)[OF x, of t'] by simp
  qed
  show "owns r (after_call a ret) \<Longrightarrow> \<not> owns r (P t')" if "t' \<noteq> t" for t'
    using o(1)[OF that] by (cases a) (auto split: if_splits)
  show "gen_of r (after_call a ret) = Some (l_pending_gen ?y) \<Longrightarrow> gen_of r (P t') \<noteq> Some (l_pending_gen ?y)" for t'
    by (cases a) (auto split: if_splits)
  show "l_pending_gen ?y = l_pending_gen x \<or> l_pending_gen ?y = l_pending_gen x + 1 \<and> l_pending_gen x + 1 \<noteq> 0"
    using g1 by (auto simp: pending_cleared_def)
  show "request q \<noteq> None \<or> owns r (after_call a ret) \<or> (\<exists>t'. t' \<noteq> t \<and> owns r (P t'))" if busy: "res_flag OCFS2_LOCK_BUSY ?y"
  proof -
    obtain t' where "request q \<noteq> None \<or> owns r (P t')" using res_okD(5)[OF x] busy by (auto simp: owners_ok_def)
    then show ?thesis using p by (cases "t' = t"; cases a) auto
  qed
  show "kept_ok r ?y q ((P(t := after_call a ret)) 0) listed"
    using res_okD(6)[OF x] t p by (cases "t = 0"; cases a) (auto simp: kept_ok_def)
qed

text \<open>After a refusal.\<close>

lemma recovered_simps [simp]:
  "l_level (recovered b x) = l_level x" "l_requested (recovered b x) = l_requested x"
  "l_blocking (recovered b x) = l_blocking x" "l_pending_gen (recovered b x) = l_pending_gen x"
  "\<not> res_flag OCFS2_LOCK_BUSY (recovered b x)" "\<not> res_flag OCFS2_LOCK_UPCONVERT_FINISHING (recovered b x)"
  "res_flag OCFS2_LOCK_PENDING (recovered b x) = res_flag OCFS2_LOCK_PENDING x"
  "res_flag OCFS2_LOCK_BLOCKED (recovered b x) = res_flag OCFS2_LOCK_BLOCKED x" "blocks l (recovered b x) = blocks l x"
  by (auto simp: recovered_def Let_def res_flag_def blocks_def)

lemma step_failed:
  assumes x: "res_ok r x q P listed" and p: "P t = Dlm_failed a ret" "asker_res a = r"
    and t: "by_down a \<longleftrightarrow> t = 0" "by_down a \<Longrightarrow> ret = -EBUSY"
  shows "res_ok r (recovered True x) q (P(t := after_failure a ret)) listed"
proof (rule res_ok_step[OF x])
  let ?y = "recovered True x"
  have tk: "res_flag OCFS2_LOCK_BUSY x" "request q = None" "\<not> res_flag OCFS2_LOCK_PENDING x"
    using res_okD(4)[OF x, of t] p by (auto simp: task_ok_def)
  have o: "\<not> owns r (P t')" if "t' \<noteq> t" for t'
    using res_okD(5)[OF x] p that unfolding owners_ok_def by fastforce
  show "rec_ok ?y" by (rule recovered_ok[OF res_okD(1)[OF x]])
  show "side_ok ?y q" using res_okD(2)[OF x] tk by (simp add: side_ok_def)
  show "pend_ok ?y" using tk by (simp add: pend_ok_def)
  show "task_ok r ?y q (after_failure a ret)" by (cases a) (auto simp: task_ok_def)
  show "task_ok r ?y q (P t')" if "t' \<noteq> t" for t'
  proof -
    have "asks_right r ?y (P t')" "works r ?y (P t')" "\<not> gave_up r (P t')"
      using o[OF that] res_okD(4)[OF x, of t'] tk(1) by (cases "P t'"; auto simp: task_ok_def)+
    then show ?thesis using res_okD(4)[OF x, of t'] o[OF that] by (simp add: task_ok_def)
  qed
  show "kept_ok r ?y q ((P(t := after_failure a ret)) 0) listed"
    using res_okD(6)[OF x] t tk p by (cases "t = 0"; cases a) (auto simp: kept_ok_def unblock_called_def)
  show "owns r (after_failure a ret) \<Longrightarrow> \<not> owns r (P t')" "gen_of r (after_failure a ret) = Some (l_pending_gen ?y) \<Longrightarrow>
      gen_of r (P t') \<noteq> Some (l_pending_gen ?y)" for t'
    by (cases a; simp)+
qed simp_all

section \<open>Callbacks\<close>

text \<open>The lock manager answers: nobody owns the lock then.\<close>

lemma answered_simps [simp]:
  "l_level (answered x) = l_level x" "l_requested (answered x) = l_requested x" "l_blocking (answered x) = l_blocking x"
  "l_action (answered x) = OCFS2_AST_INVALID" "fl \<noteq> OCFS2_LOCK_PENDING \<Longrightarrow> res_flag fl (answered x) = res_flag fl x"
  "\<not> res_flag OCFS2_LOCK_PENDING (answered x)" "blocks b (answered x) = blocks b x"
  by (auto simp: answered_def pending_cleared_def res_flag_def blocks_def)

lemma answered_gen: "l_pending_gen (answered x) = (if res_flag OCFS2_LOCK_PENDING x then l_pending_gen x + 1 else l_pending_gen x)"
  by (auto simp: answered_def pending_cleared_def res_flag_def)

lemma step_unbusied:
  assumes x: "res_ok r x q P listed" and rq: "request q \<noteq> None" and q': "request q' = None" "given q' = l_level y"
    and y: "rec_ok y" "\<not> res_flag OCFS2_LOCK_BUSY y" "\<not> res_flag OCFS2_LOCK_PENDING y"
      "l_pending_gen y = (if res_flag OCFS2_LOCK_PENDING x then l_pending_gen x + 1 else l_pending_gen x)"
      "l_blocking y = DLM_LOCK_IV \<Longrightarrow> l_blocking x = DLM_LOCK_IV"
    and kept: "res_flag OCFS2_LOCK_BLOCKED y \<Longrightarrow> listed \<or> in_hand r (P 0) \<or> in_call r (P 0)"
  shows "res_ok r y q' P listed"
proof -
  obtain rr where rr: "request q = Some rr" using rq by blast
  have b: "res_flag OCFS2_LOCK_BUSY x" using res_okD(2)[OF x] rr by (simp add: side_ok_def)
  have g1: "l_pending_gen x + 1 \<noteq> 0" if "res_flag OCFS2_LOCK_PENDING x" using res_okD(3)[OF x] that by (simp add: pend_ok_def)
  have lt: "l_pending_gen x < l_pending_gen x + 1" if "res_flag OCFS2_LOCK_PENDING x"
    using unatSuc[of "l_pending_gen x"] g1[OF that] by (simp add: word_less_nat_alt add.commute)
  have o: "\<not> owns r (P t)" for t using res_okD(4)[OF x, of t] rr by (auto simp: task_ok_def)
  have gl: "g < l_pending_gen y" if "gen_of r (P t) = Some g" for t g
    using res_okD(4)[OF x, of t] that lt y(4) by (auto simp: task_ok_def)
  have tasks: "task_ok r y q' (P t)" for t
  proof -
    have "asks_right r y (P t)" "\<not> gave_up r (P t)" using o[of t] by (cases "P t"; auto)+
    moreover have "works r y (P t)" using res_okD(4)[OF x, of t] b by (cases "P t") (auto simp: task_ok_def)
    ultimately show ?thesis using o[of t] gl[of t] by (auto simp: task_ok_def)
  qed
  have "res_ok r y q' (P(0 := P 0)) listed"
  proof (rule res_ok_step[OF x y(1)])
    show "side_ok y q'" using q' by (simp add: side_ok_def)
    show "pend_ok y" using y(3) by (simp add: pend_ok_def)
    show "l_pending_gen y = l_pending_gen x \<or> l_pending_gen y = l_pending_gen x + 1 \<and> l_pending_gen x + 1 \<noteq> 0"
      using g1 y(4) by auto
    show "gen_of r (P 0) = Some (l_pending_gen y) \<Longrightarrow> gen_of r (P t') \<noteq> Some (l_pending_gen y)" for t'
      using gl[of t'] by auto
    show "kept_ok r y q' ((P(0 := P 0)) 0) listed"
      using res_okD(6)[OF x] kept y(2,5) by (auto simp: kept_ok_def)
    show "task_ok r y q' (P t)" "task_ok r y q' (P 0)" for t by (rule tasks)+
    show "\<not> owns r (P t')" for t' by (rule o)
  qed (use y(2) in simp)
  then show ?thesis by simp
qed

lemma step_ast:
  assumes x: "res_ok r x q P listed" and rq: "request q = Some rq"
  shows "res_ok r (answered (acted (l_action x) x)) (dlm_answer 0 q) P listed"
proof (rule step_unbusied[OF x])
  have s: "res_flag OCFS2_LOCK_BUSY x" "rq_mode rq = l_requested x" using res_okD(2)[OF x] rq by (auto simp: side_ok_def)
  have ok: "busy_ok x" using rec_okD(4)[OF res_okD(1)[OF x] s(1)] .
  show "rec_ok (answered (acted (l_action x) x))" by (rule acted_ok[OF res_okD(1)[OF x] s(1)])
  show "given (dlm_answer 0 q) = l_level (answered (acted (l_action x) x))"
    using ok rq s(2) by (cases "l_action x") (auto simp: dlm_answer_def busy_ok_def attached_def converted_def downconverted_def Let_def)
  have "\<not> res_flag OCFS2_LOCK_BUSY (acted (l_action x) x)" "l_pending_gen (acted (l_action x) x) = l_pending_gen x"
    "res_flag OCFS2_LOCK_PENDING (acted (l_action x) x) = res_flag OCFS2_LOCK_PENDING x"
    using ok by (cases "l_action x"; auto simp: busy_ok_def attached_def converted_def downconverted_def Let_def res_flag_def)+
  then show "\<not> res_flag OCFS2_LOCK_BUSY (answered (acted (l_action x) x))"
    "l_pending_gen (answered (acted (l_action x) x)) = (if res_flag OCFS2_LOCK_PENDING x then l_pending_gen x + 1 else l_pending_gen x)"
    by (simp_all add: answered_gen)
  show "l_blocking (answered (acted (l_action x) x)) = DLM_LOCK_IV \<Longrightarrow> l_blocking x = DLM_LOCK_IV"
    by (cases "l_action x") (auto simp: attached_def converted_def downconverted_def Let_def split: if_splits)
  show "listed \<or> in_hand r (P 0) \<or> in_call r (P 0)" if b': "res_flag OCFS2_LOCK_BLOCKED (answered (acted (l_action x) x))"
  proof -
    have b: "res_flag OCFS2_LOCK_BLOCKED (acted (l_action x) x)" using b' by simp
    show ?thesis
    proof (cases "l_action x = OCFS2_AST_DOWNCONVERT")
      case True
      then show ?thesis using b s(1) res_okD(6)[OF x] by (auto simp: kept_ok_def downconverted_def res_flag_def split: if_splits)
    next
      case False
      have "res_flag OCFS2_LOCK_BLOCKED x" using b False
        by (cases "l_action x") (auto simp: attached_def converted_def Let_def res_flag_def split: if_splits)
      then show ?thesis using False res_okD(6)[OF x] by (simp add: kept_ok_def)
    qed
  qed
qed (use rq in \<open>simp_all add: dlm_answer_def\<close>)

text \<open>An upconvert is not granted.\<close>

lemma up_kept:
  assumes x: "res_ok r x q P listed" and rq: "request q = Some rq" and up: "given q < rq_mode rq"
    and b: "res_flag OCFS2_LOCK_BLOCKED x"
  shows "given q = l_level x \<and> (listed \<or> in_hand r (P 0) \<or> in_call r (P 0))"
proof -
  have s: "res_flag OCFS2_LOCK_BUSY x" "rq_mode rq = l_requested x" "given q = min (l_level x) (l_requested x)"
    using res_okD(2)[OF x] rq by (auto simp: side_ok_def)
  have "l_action x \<noteq> OCFS2_AST_DOWNCONVERT"
    using rec_okD(4)[OF res_okD(1)[OF x] s(1)] s up by (auto simp: busy_ok_def)
  then show ?thesis using res_okD(6)[OF x] b s up by (auto simp: kept_ok_def)
qed

lemma up_given: "res_ok r x q P listed \<Longrightarrow> request q = Some rq \<Longrightarrow> given q < rq_mode rq \<Longrightarrow> given q = l_level x"
  using res_okD(2)[of r x q P listed] by (auto simp: side_ok_def)

lemma step_refused:
  assumes x: "res_ok r x q P listed" and rq: "request q = Some rq" "given q < rq_mode rq"
  shows "res_ok r (refused x) (dlm_answer (-EAGAIN) q) P listed"
proof (rule step_unbusied[OF x])
  show "rec_ok (refused x)" by (rule refused_ok[OF res_okD(1)[OF x]])
  show "listed \<or> in_hand r (P 0) \<or> in_call r (P 0)" if "res_flag OCFS2_LOCK_BLOCKED (refused x)"
    using up_kept[OF x rq] that by (simp add: refused_def res_flag_def[of _ "_\<lparr>l_flags := _\<rparr>"]) (simp add: res_flag_def)
qed (use rq up_given[OF x rq] in \<open>simp_all add: dlm_answer_def refused_def answered_gen\<close>, simp_all add: res_flag_def)

lemma step_cancel_ast:
  assumes x: "res_ok r x q P listed" and rq: "request q = Some rq" "given q < rq_mode rq" "rq_cancelled rq"
  shows "l_unlock_action x = OCFS2_UNLOCK_CANCEL_CONVERT" "res_ok r (cancelled x) (dlm_answer (- DLM_ECANCEL) q) P listed"
proof -
  have s: "\<not> res_flag OCFS2_LOCK_PENDING x" "l_unlock_action x = OCFS2_UNLOCK_CANCEL_CONVERT"
    using res_okD(2)[OF x] rq by (auto simp: side_ok_def)
  show "l_unlock_action x = OCFS2_UNLOCK_CANCEL_CONVERT" by (rule s(2))
  show "res_ok r (cancelled x) (dlm_answer (- DLM_ECANCEL) q) P listed"
  proof (rule step_unbusied[OF x])
    show "rec_ok (cancelled x)" by (rule cancelled_ok[OF res_okD(1)[OF x]])
    show "listed \<or> in_hand r (P 0) \<or> in_call r (P 0)" if "res_flag OCFS2_LOCK_BLOCKED (cancelled x)"
      using up_kept[OF x rq(1,2)] that by (simp add: cancelled_def res_flag_def)
  qed (use rq up_given[OF x rq(1,2)] s in \<open>simp_all add: dlm_answer_def cancelled_def res_flag_def\<close>)
qed

lemma blocked_by_same:
  assumes "rec_ok x" "lock_level level" "\<not> bast_matters level x" shows "blocked_by level x = x"
proof -
  have "max level (l_blocking x) = l_blocking x"
    using assms unfolding bast_matters_def rec_ok_def block_ok_def lock_level_def ocfs2_highest_compat_lock_level_def
    by (auto split: if_splits)
  then show ?thesis using assms(3) by (simp add: blocked_by_def)
qed

lemma step_bast:
  assumes x: "res_ok r x q P listed" and m: "lock_level level" "ocfs2_highest_compat_lock_level level < l_level x"
  shows "res_ok r (blocked_by level x) q P (bast_matters level x \<or> listed)"
proof (cases "bast_matters level x")
  case False
  then show ?thesis using blocked_by_same[OF res_okD(1)[OF x] m(1) False] x by simp
next
  case True
  let ?y = "blocked_by level x"
  have qu: "steady x ?y" using True by (auto simp: steady_def blocked_by_def res_flag_def bast_matters_def blocks_def)
  have "res_ok r ?y q (P(0 := P 0)) True"
  proof (rule res_ok_step[OF x blocked_by_ok[OF res_okD(1)[OF x] m]])
    show "side_ok ?y q" by (rule steady_side[OF res_okD(2)[OF x] qu]) (simp add: blocked_by_def)
    show "pend_ok ?y" by (rule steady_pend[OF res_okD(3)[OF x] qu])
    show "task_ok r ?y q (P 0)" "task_ok r ?y q (P t')" for t' by (rule steady_task[OF res_okD(4)[OF x] qu])+
    show "owns r (P 0) \<Longrightarrow> \<not> owns r (P t')" if "t' \<noteq> 0" for t' using res_okD(5)[OF x] that by (auto simp: owners_ok_def)
    show "gen_of r (P 0) = Some (l_pending_gen ?y) \<Longrightarrow> gen_of r (P t') \<noteq> Some (l_pending_gen ?y)" if "t' \<noteq> 0" for t'
      using res_okD(5)[OF x] that qu by (auto simp: owners_ok_def steady_def)
    show "l_pending_gen ?y = l_pending_gen x \<or> l_pending_gen ?y = l_pending_gen x + 1 \<and> l_pending_gen x + 1 \<noteq> 0"
      using qu by (simp add: steady_def)
    show "request q \<noteq> None \<or> owns r (P 0) \<or> (\<exists>t'. t' \<noteq> 0 \<and> owns r (P t'))" if busy: "res_flag OCFS2_LOCK_BUSY ?y"
    proof -
      obtain t' where "request q \<noteq> None \<or> owns r (P t')" using res_okD(5)[OF x] busy qu by (auto simp: owners_ok_def steady_def)
      then show ?thesis by (cases "t' = 0") auto
    qed
    have "l_blocking ?y \<noteq> DLM_LOCK_IV" using True m(1) by (auto simp: blocked_by_def lock_level_def)
    then show "kept_ok r ?y q ((P(0 := P 0)) 0) True" by (simp add: kept_ok_def)
  qed
  then show ?thesis using True by simp
qed

section \<open>The downconvert thread\<close>

text \<open>Places of the thread outside the call of the lock manager.\<close>

fun dc_pc :: "pc \<Rightarrow> bool" where
  "dc_pc Idle = True"
| "dc_pc (Dc_next k) = True"
| "dc_pc (Dc_process k r) = True"
| "dc_pc (Dc_unblock k r ctl) = True"
| "dc_pc (Dc_worker k r ctl b l) = True"
| "dc_pc (Dc_cancel k r ctl) = True"
| "dc_pc (Dc_end k r ctl) = True"
| "dc_pc p = False"

lemma dc_pcD:
  assumes "dc_pc p" shows "\<not> owns r p" "gen_of r p = None" "\<not> gave_up r p" "asks_right r x p" "\<not> in_call r p"
  using assms by (cases p; auto)+

lemma step_thread:
  assumes x: "res_ok r x q P listed" and p: "dc_pc (P 0)" "dc_pc p'"
    and y: "rec_ok y" "steady x y" "side_ok y q'" "request q' = None \<longleftrightarrow> request q = None"
    and w: "works r y p'" and k: "kept_ok r y q' p' listed'"
  shows "res_ok r y q' (P(0 := p')) listed'"
proof (rule res_ok_step[OF x y(1,3)])
  show "pend_ok y" by (rule steady_pend[OF res_okD(3)[OF x] y(2)])
  show "task_ok r y q' p'" using dc_pcD[OF p(2)] w by (simp add: task_ok_def)
  show "task_ok r y q' (P t')" for t' using steady_task[OF res_okD(4)[OF x] y(2), of t'] y(4) by (simp add: task_ok_def)
  show "l_pending_gen y = l_pending_gen x \<or> l_pending_gen y = l_pending_gen x + 1 \<and> l_pending_gen x + 1 \<noteq> 0"
    using y(2) by (simp add: steady_def)
  show "request q' \<noteq> None \<or> owns r p' \<or> (\<exists>t'. t' \<noteq> 0 \<and> owns r (P t'))" if busy: "res_flag OCFS2_LOCK_BUSY y"
    using steady_busy[OF res_okD(5)[OF x] y(2) _ busy] dc_pcD(1)[OF p(1)] y(4) by blast
  show "kept_ok r y q' ((P(0 := p')) 0) listed'" using k by simp
qed (use dc_pcD[OF p(2)] in auto)

lemma steady_refl: "steady x x"
  by (simp add: steady_def)

text \<open>The thread takes the lock from the list.\<close>

lemma step_take:
  assumes x: "res_ok r x q P True" and p: "dc_pc (P 0)" shows "res_ok r x q (P(0 := Dc_process k r)) listed'"
  by (rule step_thread[OF x p _ res_okD(1)[OF x] steady_refl res_okD(2)[OF x]])
    (use res_okD(6)[OF x] in \<open>auto simp: kept_ok_def\<close>)

text \<open>It goes on with the lock in hand.\<close>

lemma step_thread_on:
  assumes x: "res_ok r x q P listed" and p: "dc_pc (P 0)" "in_hand r (P 0)" "dc_pc p'" "in_hand r p'" "works r x p'"
  shows "res_ok r x q (P(0 := p')) listed"
proof -
  have "by_thread (P 0)" "pc_res (P 0) = Some r" using p(1,2) by (cases "P 0"; simp)+
  then show ?thesis
    by (intro step_thread[OF x p(1,3) res_okD(1)[OF x] steady_refl res_okD(2)[OF x]])
      (use res_okD(6)[OF x] p in \<open>auto simp: kept_ok_def\<close>)
qed

lemma in_hand_marked:
  assumes "res_ok r x q P listed" "in_hand r (P 0)" shows "l_blocking x \<noteq> DLM_LOCK_IV" "unblock_ok x"
proof -
  have "by_thread (P 0)" "pc_res (P 0) = Some r" using assms(2) by (cases "P 0"; simp)+
  then show "l_blocking x \<noteq> DLM_LOCK_IV" using res_okD(6)[OF assms(1)] by (auto simp: kept_ok_def)
  then show "unblock_ok x" by (rule rec_ok_unblock_ok[OF res_okD(1)[OF assms(1)]])
qed

text \<open>It leaves the lock: blocked no more, or to look again.\<close>

lemma step_leave:
  assumes x: "res_ok r x q P listed" and p: "dc_pc (P 0)" "in_hand r (P 0)"
    and c: "requeue ctl \<or> \<not> res_flag OCFS2_LOCK_BLOCKED x"
  shows "res_ok r x q (P(0 := Dc_end k r ctl)) listed"
proof (cases "requeue ctl")
  case True
  then show ?thesis by (intro step_thread_on[OF x p]) auto
next
  case False
  then have nb: "\<not> res_flag OCFS2_LOCK_BLOCKED x" using c by simp
  have "\<not> (res_flag OCFS2_LOCK_BUSY x \<and> l_action x = OCFS2_AST_DOWNCONVERT)"
    using rec_okD(4)[OF res_okD(1)[OF x]] nb by (auto simp: busy_ok_def)
  then have "kept_ok r x q (Dc_end k r ctl) listed"
    using in_hand_marked(1)[OF x p(2)] nb by (auto simp: kept_ok_def)
  then show ?thesis
    by (intro step_thread[OF x p(1) _ res_okD(1)[OF x] steady_refl res_okD(2)[OF x]]) simp_all
qed

text \<open>It prepares a cancel.\<close>

lemma step_prepare_cancel:
  assumes x: "res_ok r x q P listed" and p: "dc_pc (P 0)" "in_hand r (P 0)" and c: "requeue ctl"
  shows "res_ok r (x\<lparr>l_unlock_action := OCFS2_UNLOCK_CANCEL_CONVERT\<rparr>) q (P(0 := Dc_cancel k r ctl)) listed"
proof (rule step_thread[OF x p(1)])
  let ?y = "x\<lparr>l_unlock_action := OCFS2_UNLOCK_CANCEL_CONVERT\<rparr>"
  show "rec_ok ?y" by (rule same_core_ok[OF _ res_okD(1)[OF x]]) (simp add: same_core_def res_flag_def)
  show "steady x ?y" by (simp add: steady_def res_flag_def blocks_def)
  show "side_ok ?y q" using res_okD(2)[OF x] by (simp add: side_ok_def res_flag_def)
  show "kept_ok r ?y q (Dc_cancel k r ctl) listed"
    using in_hand_marked(1)[OF x p(2)] c by (simp add: kept_ok_def)
qed simp_all

text \<open>It cancels, in time.\<close>

lemma step_cancel:
  assumes x: "res_ok r x q P listed" and p: "P 0 = Dc_cancel k r ctl" "requeue ctl"
    and m: "request q = Some rq \<and> \<not> rq_cancelled rq \<Longrightarrow>
        l_unlock_action x = OCFS2_UNLOCK_CANCEL_CONVERT \<and> \<not> res_flag OCFS2_LOCK_PENDING x"
  shows "request q = Some rq \<Longrightarrow> \<not> rq_cancelled rq \<Longrightarrow>
    res_ok r x (q\<lparr>request := Some (rq\<lparr>rq_cancelled := True\<rparr>)\<rparr>) (P(0 := Dc_end k r ctl)) listed"
proof -
  assume rq: "request q = Some rq" "\<not> rq_cancelled rq"
  let ?q = "q\<lparr>request := Some (rq\<lparr>rq_cancelled := True\<rparr>)\<rparr>"
  have hand: "dc_pc (P 0)" "in_hand r (P 0)" using p by auto
  show "res_ok r x ?q (P(0 := Dc_end k r ctl)) listed"
  proof (rule step_thread[OF x hand(1) _ res_okD(1)[OF x] steady_refl])
    show "side_ok x ?q" using res_okD(2)[OF x] rq m by (auto simp: side_ok_def)
    show "kept_ok r x ?q (Dc_end k r ctl) listed" using in_hand_marked(1)[OF x hand(2)] p by (simp add: kept_ok_def)
  qed (use rq in simp_all)
qed

lemma step_cancel_nothing:
  assumes x: "res_ok r x q P listed" and p: "P 0 = Dc_cancel k r ctl" "requeue ctl"
  shows "res_ok r x q (P(0 := Dc_end k r ctl)) listed"
  by (rule step_thread_on[OF x]) (use p in simp_all)

text \<open>It asks for a lower level.\<close>

lemma step_down:
  assumes x: "res_ok r x q P listed" and p: "dc_pc (P 0)" "in_hand r (P 0)" and m: "ready x" and g: "l_pending_gen x + 1 \<noteq> 0"
    and l: "level = ocfs2_highest_compat_lock_level (l_blocking x)" and one: "\<And>t. t \<noteq> 0 \<Longrightarrow> \<not> by_thread (P t)"
  shows "res_ok r (down_asked level x) q (P(0 := Dlm_call (By_down k r ctl level) (l_pending_gen x))) listed"
proof (rule res_ok_step[OF x])
  let ?y = "down_asked level x" and ?p = "Dlm_call (By_down k r ctl level) (l_pending_gen x)"
  have nb: "\<not> res_flag OCFS2_LOCK_BUSY x" "\<not> res_flag OCFS2_LOCK_PENDING x"
    using m res_okD(3)[OF x] by (auto simp: ready_def pend_ok_def)
  have rq: "request q = None" using res_okD(2)[OF x] nb by (cases "request q") (auto simp: side_ok_def)
  have others: "\<not> owns r (P t')" "gen_of r (P t') \<noteq> Some (l_pending_gen x)" for t'
    using res_okD(4)[OF x, of t'] nb by (auto simp: task_ok_def)
  show "rec_ok ?y" unfolding l by (rule down_asked_ok[OF res_okD(1)[OF x] m])
  show "side_ok ?y q" using rq res_okD(2)[OF x] by (simp add: side_ok_def down_asked_def)
  show "pend_ok ?y" using g by (simp add: pend_ok_def down_asked_def res_flag_def)
  show "task_ok r ?y q ?p" using rq by (simp add: task_ok_def down_asked_def res_flag_def)
  show "task_ok r ?y q (P t')" if "t' \<noteq> 0" for t'
  proof -
    have "works r ?y (P t')" using one[OF that] by (cases "P t'") auto
    moreover have "asks_right r ?y (P t')" using others(1)[of t'] by (cases "P t'") auto
    moreover have "\<not> gave_up r (P t')" using others(1)[of t'] by (cases "P t'") auto
    ultimately show ?thesis
      using others res_okD(4)[OF x, of t'] by (simp add: task_ok_def down_asked_def res_flag_def)
  qed
  show "\<not> owns r (P t')" for t' by (rule others)
  show "gen_of r (P t') \<noteq> Some (l_pending_gen ?y)" for t' using others(2) by (simp add: down_asked_def)
  show "kept_ok r ?y q ((P(0 := ?p)) 0) listed"
    using in_hand_marked(1)[OF x p(2)] l by (simp add: kept_ok_def down_asked_def)
qed (simp_all add: down_asked_def)

text \<open>It is done with the lock.\<close>

lemma step_end:
  assumes x: "res_ok r x q P listed" and p: "P 0 = Dc_end k r ctl"
    and y: "y = x\<lparr>l_flags := (if requeue ctl then insert OCFS2_LOCK_QUEUED (l_flags x) else l_flags x - {OCFS2_LOCK_QUEUED})\<rparr>"
  shows "res_ok r y q (P(0 := Dc_next k)) (requeue ctl \<or> listed)"
proof (rule step_thread[OF x])
  show "rec_ok y" by (rule same_core_ok[OF _ res_okD(1)[OF x]]) (auto simp: same_core_def y res_flag_def)
  show "steady x y" by (auto simp: steady_def y res_flag_def blocks_def)
  show "side_ok y q" using res_okD(2)[OF x] by (auto simp: side_ok_def y res_flag_def)
  show "kept_ok r y q (Dc_next k) (requeue ctl \<or> listed)"
    using res_okD(6)[OF x] p by (auto simp: kept_ok_def y res_flag_def)
qed (simp_all add: p)

end
