(* ===== verification/Ocfs2_Wait.thy ===== *)
theory Ocfs2_Wait
  imports Ocfs2_Tasks
begin

text \<open>
  The processes that sleep in \<open>__ocfs2_cluster_lock\<close>: a process at the label \<open>out\<close> is on the list of its
  lock resource and waits for a flag that is set, or it has been completed (\<open>sleeps_ok\<close>). Every section
  keeps this, since it wakes the waiters of the flags it clears (\<open>woken\<close>).
\<close>

fun lock_of :: "pc \<Rightarrow> lock_call option" where
  "lock_of (Again c) = Some c"
| "lock_of (Dlm_call a gen) = (case a of By_lock c \<Rightarrow> Some c | _ \<Rightarrow> None)"
| "lock_of (Dlm_called a gen ret) = (case a of By_lock c \<Rightarrow> Some c | _ \<Rightarrow> None)"
| "lock_of (Dlm_failed a ret) = (case a of By_lock c \<Rightarrow> Some c | _ \<Rightarrow> None)"
| "lock_of p = None"

fun out_of :: "pc \<Rightarrow> lock_call option" where
  "out_of (Out c) = Some c"
| "out_of p = None"

definition nonblock :: "lock_call \<Rightarrow> bool" where
  "nonblock c \<longleftrightarrow> has_flag (lc_arg_flags c) OCFS2_LOCK_NONBLOCK"

definition clear_mw :: "lock_call \<Rightarrow> ocfs2_mask_waiter \<Rightarrow> bool" where
  "clear_mw c m \<longleftrightarrow> \<not> mw_item m \<and> (\<not> nonblock c \<longrightarrow> mw_complete m = 0)"

definition out_mw :: "lock_call \<Rightarrow> ocfs2_mask_waiter \<Rightarrow> bool" where
  "out_mw c m \<longleftrightarrow> (if mw_item m
     then (\<exists>fl\<in>{OCFS2_LOCK_BUSY, OCFS2_LOCK_BLOCKED}. mw_mask m = {fl}) \<and> mw_goal m = {} \<and>
       (\<not> nonblock c \<longrightarrow> mw_complete m = 0)
     else mw_complete m \<noteq> 0 \<and> mw_complete m = (if nonblock c then mw_complete m else 1) \<and> mw_status m = 0)"

definition task_waits :: "ocfs2_super \<Rightarrow> nat \<Rightarrow> pc \<Rightarrow> bool" where
  "task_waits s t p \<longleftrightarrow> (\<forall>c. lock_of p = Some c \<longrightarrow> clear_mw c (os_mws s t)) \<and>
     (\<forall>c. out_of p = Some c \<longrightarrow> out_mw c (os_mws s t) \<and>
        (mw_item (os_mws s t) \<longrightarrow> (\<exists>x. os_res s (lc_res c) = Some x \<and> t \<in> set (l_mask_waiters x))))"

definition list_waits :: "ocfs2_super \<Rightarrow> (nat \<Rightarrow> pc) \<Rightarrow> rp \<Rightarrow> ocfs2_lock_res \<Rightarrow> bool" where
  "list_waits s P r x \<longleftrightarrow> distinct (l_mask_waiters x) \<and> set (l_mask_waiters x) \<subseteq> unreached s x \<and>
     (\<forall>w\<in>set (l_mask_waiters x). mw_item (os_mws s w) \<and> (\<exists>c. out_of (P w) = Some c \<and> lc_res c = r))"

definition sleeps_ok :: "ocfs2_super \<Rightarrow> (nat \<Rightarrow> pc) \<Rightarrow> bool" where
  "sleeps_ok s P \<longleftrightarrow> (\<forall>t. task_waits s t (P t)) \<and> (\<forall>r x. os_res s r = Some x \<longrightarrow> list_waits s P r x)"

lemma sleeps_ok_same:
  "sleeps_ok s P \<Longrightarrow> os_res s' = os_res s \<Longrightarrow> os_mws s' = os_mws s \<Longrightarrow> sleeps_ok s' P"
  by (simp add: sleeps_ok_def task_waits_def list_waits_def unreached_def)

text \<open>A process that is not at \<open>out\<close> moves to a place that is not \<open>out\<close> either.\<close>

lemma sleeps_ok_move:
  assumes "sleeps_ok s P" "out_of (P t) = None" "out_of p' = None" "\<And>c. lock_of p' = Some c \<Longrightarrow> clear_mw c (os_mws s t)"
  shows "sleeps_ok s (P(t := p'))"
  using assms by (auto simp: sleeps_ok_def task_waits_def list_waits_def split: if_splits) fastforce+

text \<open>Waking keeps it.\<close>

lemma sleeps_ok_like:
  assumes w: "sleeps_ok s P" and l: "like r y s s'" shows "sleeps_ok s' P"
proof -
  obtain x x' where x: "os_res s r = Some x" and x': "os_res s' r = Some x'"
    and wk: "distinct (l_mask_waiters x) \<longrightarrow> (\<exists>W. W \<subseteq> set (l_mask_waiters x) \<and>
        l_mask_waiters x' = filter (\<lambda>w. w \<notin> W) (l_mask_waiters x) \<and>
        os_mws s' = (\<lambda>w. if w \<in> W then complete_mw (os_mws s w) else os_mws s w) \<and>
        (set (l_mask_waiters x) \<subseteq> unreached s x \<longrightarrow> set (l_mask_waiters x') \<subseteq> unreached s' x'))"
    using l by (auto simp: like_def woken_def)
  have lx: "list_waits s P r x" using w x by (simp add: sleeps_ok_def)
  then obtain W where W: "W \<subseteq> set (l_mask_waiters x)" "l_mask_waiters x' = filter (\<lambda>w. w \<notin> W) (l_mask_waiters x)"
      "os_mws s' = (\<lambda>w. if w \<in> W then complete_mw (os_mws s w) else os_mws s w)"
      "set (l_mask_waiters x') \<subseteq> unreached s' x'"
    using wk by (auto simp: list_waits_def)
  have out: "\<exists>c. out_of (P t) = Some c \<and> lc_res c = r \<and> mw_item (os_mws s t)" if "t \<in> W" for t
    using lx W(1) that by (auto simp: list_waits_def)
  have tasks: "task_waits s' t (P t)" for t
  proof (cases "t \<in> W")
    case True
    from out[OF True] obtain c where c: "out_of (P t) = Some c" "mw_item (os_mws s t)" by blast
    have "out_mw c (os_mws s t)" using w c(1) by (simp add: sleeps_ok_def task_waits_def)
    moreover have "lock_of (P t) = None" using c(1) by (cases "P t") auto
    ultimately show ?thesis using True c W(3) by (auto simp: task_waits_def out_mw_def complete_mw_def)
  next
    case False
    have tw: "task_waits s t (P t)" using w by (simp add: sleeps_ok_def)
    have "\<exists>z. os_res s' r' = Some z \<and> t \<in> set (l_mask_waiters z)"
      if "os_res s r' = Some z'" "t \<in> set (l_mask_waiters z')" for r' z'
      using that x x' W(2) False like_other[OF l, of r'] by (cases "r' = r") auto
    then show ?thesis using tw False W(3) unfolding task_waits_def by auto
  qed
  have lists: "list_waits s' P r' z" if z: "os_res s' r' = Some z" for r' z
  proof (cases "r' = r")
    case True
    then show ?thesis using lx W x' z by (auto simp: list_waits_def)
  next
    case False
    have z': "os_res s r' = Some z" using like_other[OF l False] z by simp
    then have lz: "list_waits s P r' z" using w by (simp add: sleeps_ok_def)
    have "w \<notin> W" if "w \<in> set (l_mask_waiters z)" for w
      using lz that out[of w] False by (auto simp: list_waits_def)
    then show ?thesis using lz W(3) by (auto simp: list_waits_def unreached_def)
  qed
  show ?thesis using tasks lists by (simp add: sleeps_ok_def)
qed

lemma sleeps_ok_liked: "sleeps_ok s P \<Longrightarrow> liked r y l s s' \<Longrightarrow> sleeps_ok s' P"
  by (auto simp: liked_def intro: sleeps_ok_same sleeps_ok_like)

text \<open>A process goes to sleep.\<close>

lemma sleeps_ok_park:
  assumes w: "sleeps_ok s P" and p: "P t = Again c" and x: "os_res s (lc_res c) = Some x"
    and f: "fl \<in> {OCFS2_LOCK_BUSY, OCFS2_LOCK_BLOCKED}" "res_flag fl x"
  shows "sleeps_ok (parked (lc_res c) t fl x s) (P(t := Out c))"
proof -
  let ?s = "parked (lc_res c) t fl x s"
  have cl: "clear_mw c (os_mws s t)" using w p unfolding sleeps_ok_def task_waits_def by (metis lock_of.simps(1))
  have nt: "t \<notin> set (l_mask_waiters z)" if "os_res s r = Some z" for r z
    using w cl that by (auto simp: sleeps_ok_def list_waits_def clear_mw_def)
  have mw: "os_mws ?s = (os_mws s)(t := (os_mws s t)\<lparr>mw_item := True, mw_mask := {fl}, mw_goal := {}\<rparr>)"
    by (simp add: parked_def upd_mw_def)
  have rs: "os_res ?s = (os_res s)(lc_res c \<mapsto> x\<lparr>l_mask_waiters := l_mask_waiters x @ [t]\<rparr>)" by (simp add: parked_def)
  have tasks: "task_waits ?s t' ((P(t := Out c)) t')" for t'
  proof (cases "t' = t")
    case True
    then show ?thesis using cl f by (auto simp: task_waits_def mw rs out_mw_def clear_mw_def)
  next
    case False
    have "task_waits s t' (P t')" using w by (simp add: sleeps_ok_def)
    then show ?thesis using False x by (auto simp: task_waits_def mw rs)
  qed
  have lists: "list_waits ?s (P(t := Out c)) r z" if z: "os_res ?s r = Some z" for r z
  proof (cases "r = lc_res c")
    case True
    have "list_waits s P r x" using w x True by (simp add: sleeps_ok_def)
    then show ?thesis using z True nt[OF x] f(2)
      by (auto simp: list_waits_def rs mw unreached_def mw_reached_def res_flag_def)
  next
    case False
    then have zs: "os_res s r = Some z" using z by (simp add: rs)
    then have "list_waits s P r z" using w by (simp add: sleeps_ok_def)
    then show ?thesis using nt[OF zs] by (auto simp: list_waits_def mw unreached_def)
  qed
  show ?thesis using tasks lists by (simp add: sleeps_ok_def)
qed

text \<open>A process enters the code.\<close>

lemma sleeps_ok_init:
  assumes w: "sleeps_ok s P" and p: "out_of (P t) = None" and p': "out_of p' = None"
  shows "sleeps_ok (ocfs2_init_mask_waiter t s) (P(t := p'))"
proof -
  have nt: "t \<notin> set (l_mask_waiters z)" if "os_res s r = Some z" for r z
  proof -
    have "list_waits s P r z" using w that by (simp add: sleeps_ok_def)
    then show ?thesis using p by (auto simp: list_waits_def)
  qed
  let ?s = "ocfs2_init_mask_waiter t s"
  have mw: "os_mws ?s t' = os_mws s t'" if "t' \<noteq> t" for t' using that by (simp add: ocfs2_init_mask_waiter_def upd_mw_def)
  have rs: "os_res ?s = os_res s" by (simp add: ocfs2_init_mask_waiter_def upd_mw_def)
  have "task_waits ?s t' ((P(t := p')) t')" for t'
  proof (cases "t' = t")
    case True
    then show ?thesis using p' by (simp add: task_waits_def ocfs2_init_mask_waiter_def upd_mw_def clear_mw_def)
  next
    case False
    have "task_waits s t' (P t')" using w by (simp add: sleeps_ok_def)
    then show ?thesis using False by (simp add: task_waits_def mw rs)
  qed
  moreover have "list_waits ?s (P(t := p')) r z" if z: "os_res ?s r = Some z" for r z
  proof -
    have lz: "list_waits s P r z" using w z by (simp add: sleeps_ok_def rs)
    have "os_mws ?s v = os_mws s v" "(P(t := p')) v = P v" if "v \<in> set (l_mask_waiters z)" for v
      using nt[of r z] z that mw[of v] by (auto simp: rs)
    then show ?thesis using lz by (auto simp: list_waits_def unreached_def)
  qed
  ultimately show ?thesis by (simp add: sleeps_ok_def)
qed

text \<open>A process at \<open>out\<close> goes on: it has been completed, or it was told not to sleep. Only the list of
  waiters and its own mask waiter change.\<close>

definition unparked :: "rp \<Rightarrow> mwp \<Rightarrow> ocfs2_super \<Rightarrow> ocfs2_super \<Rightarrow> bool" where
  "unparked r w s s' \<longleftrightarrow> (\<exists>x. os_res s r = Some x \<and>
     os_res s' = (os_res s)(r \<mapsto> x\<lparr>l_mask_waiters := remove1 w (l_mask_waiters x)\<rparr>)) \<and>
     (\<forall>t. t \<noteq> w \<longrightarrow> os_mws s' t = os_mws s t) \<and> blocked_lock_list s' = blocked_lock_list s"

lemma sleeps_ok_unpark:
  assumes w: "sleeps_ok s P" and p: "P t = Out c" and u: "unparked (lc_res c) t s s'" and p': "out_of p' = None"
    and m: "\<And>c'. lock_of p' = Some c' \<Longrightarrow> clear_mw c' (os_mws s' t)"
  shows "sleeps_ok s' (P(t := p'))"
proof -
  obtain x where x: "os_res s (lc_res c) = Some x"
      "os_res s' = (os_res s)(lc_res c \<mapsto> x\<lparr>l_mask_waiters := remove1 t (l_mask_waiters x)\<rparr>)"
    and mw: "\<And>t'. t' \<noteq> t \<Longrightarrow> os_mws s' t' = os_mws s t'"
    using u by (auto simp: unparked_def)
  have lx: "list_waits s P (lc_res c) x" using w x(1) by (simp add: sleeps_ok_def)
  have tasks: "task_waits s' t' ((P(t := p')) t')" for t'
  proof (cases "t' = t")
    case True
    then show ?thesis using p' m by (simp add: task_waits_def)
  next
    case False
    have "task_waits s t' (P t')" using w by (simp add: sleeps_ok_def)
    then show ?thesis using False x mw[OF False] by (auto simp: task_waits_def)
  qed
  have lists: "list_waits s' (P(t := p')) r z" if z: "os_res s' r = Some z" for r z
  proof (cases "r = lc_res c")
    case True
    have d: "distinct (l_mask_waiters x)" using lx by (simp add: list_waits_def)
    have z': "z = x\<lparr>l_mask_waiters := remove1 t (l_mask_waiters x)\<rparr>" using z True x(2) by simp
    have "list_waits s' (P(t := p')) (lc_res c) z"
      unfolding list_waits_def
    proof (intro conjI ballI subsetI)
      show "distinct (l_mask_waiters z)" using d z' by simp
      fix v assume "v \<in> set (l_mask_waiters z)"
      then have v: "v \<in> set (l_mask_waiters x)" "v \<noteq> t" using d z' by auto
      show "v \<in> unreached s' z" using lx v mw[OF v(2)] z' by (auto simp: list_waits_def unreached_def)
      show "mw_item (os_mws s' v)" "\<exists>c'. out_of ((P(t := p')) v) = Some c' \<and> lc_res c' = lc_res c"
        using lx v mw[OF v(2)] by (auto simp: list_waits_def)
    qed
    then show ?thesis using True by simp
  next
    case False
    then have zs: "os_res s r = Some z" using z x(2) by simp
    then have lz: "list_waits s P r z" using w by (simp add: sleeps_ok_def)
    have nt: "t \<notin> set (l_mask_waiters z)" using lz p False by (auto simp: list_waits_def)
    have "os_mws s' v = os_mws s v" "(P(t := p')) v = P v" if "v \<in> set (l_mask_waiters z)" for v
      using nt that mw[of v] by auto
    then show ?thesis using lz by (auto simp: list_waits_def unreached_def)
  qed
  show ?thesis using tasks lists by (simp add: sleeps_ok_def)
qed

end
