(* ===== verification/Ocfs2_Node.thy ===== *)
theory Ocfs2_Node
  imports Ocfs2_Wait Runs
begin

text \<open>
  The invariant of a node that uses OCFS2 locks (\<open>node_ok\<close>), and that every event keeps it
  (\<open>event_ok\<close>): the section of the code that the event runs does not hit a \<open>BUG\<close>.
\<close>

section \<open>The invariant\<close>

definition asker_ok :: "nat \<Rightarrow> asker \<Rightarrow> bool" where
  "asker_ok t a \<longleftrightarrow> (by_down a \<longleftrightarrow> t = 0) \<and> (\<forall>c. a = By_lock c \<longrightarrow> lock_level (lc_level c))"

fun pc_ok :: "nat \<Rightarrow> pc \<Rightarrow> bool" where
  "pc_ok t Idle \<longleftrightarrow> True"
| "pc_ok t (Again c) \<longleftrightarrow> t \<noteq> 0 \<and> lock_level (lc_level c)"
| "pc_ok t (Out c) \<longleftrightarrow> t \<noteq> 0 \<and> lock_level (lc_level c)"
| "pc_ok t (Create r level) \<longleftrightarrow> t \<noteq> 0 \<and> lock_level level"
| "pc_ok t (Dlm_call a gen) \<longleftrightarrow> asker_ok t a"
| "pc_ok t (Dlm_called a gen ret) \<longleftrightarrow> asker_ok t a \<and> (by_down a \<longrightarrow> ret = 0 \<or> ret = -EBUSY)"
| "pc_ok t (Dlm_failed a ret) \<longleftrightarrow> asker_ok t a \<and> (by_down a \<longrightarrow> ret = -EBUSY)"
| "pc_ok t (Dc_cancel k r ctl) \<longleftrightarrow> t = 0 \<and> requeue ctl"
| "pc_ok t p \<longleftrightarrow> t = 0"

definition res_known :: "ocfs2_super \<Rightarrow> pc \<Rightarrow> bool" where
  "res_known s p \<longleftrightarrow> (\<forall>r. pc_res p = Some r \<longrightarrow> os_res s r \<noteq> None)"

definition node_ok :: "node \<Rightarrow> bool" where
  "node_ok n \<longleftrightarrow> (\<forall>t. pc_ok t (pcs n t) \<and> res_known (osb n) (pcs n t)) \<and>
     (\<forall>r\<in>set (blocked_lock_list (osb n)). os_res (osb n) r \<noteq> None) \<and> sleeps_ok (osb n) (pcs n) \<and>
     (\<forall>r x. os_res (osb n) r = Some x \<longrightarrow> res_ok r x (dlm n r) (pcs n) (r \<in> set (blocked_lock_list (osb n))))"

lemma node_okD:
  assumes "node_ok n"
  shows "pc_ok t (pcs n t)" "pc_res (pcs n t) = Some r \<Longrightarrow> \<exists>x. os_res (osb n) r = Some x"
    "r \<in> set (blocked_lock_list (osb n)) \<Longrightarrow> \<exists>x. os_res (osb n) r = Some x" "sleeps_ok (osb n) (pcs n)"
    "os_res (osb n) r = Some x \<Longrightarrow> res_ok r x (dlm n r) (pcs n) (r \<in> set (blocked_lock_list (osb n)))"
  using assms by (auto simp: node_ok_def res_known_def)

lemma others_not_thread: "node_ok n \<Longrightarrow> t \<noteq> 0 \<Longrightarrow> \<not> by_thread (pcs n t)"
  using node_okD(1)[of n t] by (cases "pcs n t") (auto simp: asker_ok_def)

lemma start_node_ok: "start_node n \<Longrightarrow> node_ok n"
  unfolding node_ok_def start_node_def
  by (auto simp: res_known_def sleeps_ok_def task_waits_def list_waits_def fresh_res_def intro: res_ok_fresh[unfolded fresh_res_def])

section \<open>One resource changes\<close>

definition only_res :: "rp \<Rightarrow> ocfs2_lock_res \<Rightarrow> rp list \<Rightarrow> ocfs2_super \<Rightarrow> ocfs2_super \<Rightarrow> bool" where
  "only_res r y l s s' \<longleftrightarrow> (\<exists>ws. os_res s' = (os_res s)(r \<mapsto> y\<lparr>l_mask_waiters := ws\<rparr>)) \<and> blocked_lock_list s' = l"

lemma liked_only: "liked r y l s s' \<Longrightarrow> only_res r y l s s'"
  by (auto simp: liked_def like_def only_res_def)

lemma like_only: "like r y s s' \<Longrightarrow> only_res r y (blocked_lock_list s) s s'"
  by (auto simp: like_def only_res_def)

lemma node_okI:
  assumes n: "node_ok n" and o: "only_res r y l (osb n) (osb n')" and x: "os_res (osb n) r = Some x"
    and p: "pcs n' = (pcs n)(t := p')" "pc_ok t p'"
      "p' = pcs n t \<or> pc_res (pcs n t) \<in> {None, Some r} \<and> pc_res p' \<in> {None, Some r}"
    and q: "\<And>r'. r' \<noteq> r \<Longrightarrow> dlm n' r' = dlm n r'"
    and l: "set l - {r} = set (blocked_lock_list (osb n)) - {r}"
    and w: "sleeps_ok (osb n') (pcs n')"
    and ok: "res_ok r y (dlm n' r) (pcs n') (r \<in> set l)"
  shows "node_ok n'"
proof -
  obtain ws where ws: "os_res (osb n') = (os_res (osb n))(r \<mapsto> y\<lparr>l_mask_waiters := ws\<rparr>)" "blocked_lock_list (osb n') = l"
    using o by (auto simp: only_res_def)
  have dom: "os_res (osb n') r' = None \<longleftrightarrow> os_res (osb n) r' = None" for r' using ws(1) x by simp
  have "pc_ok t' (pcs n' t')" for t' using node_okD(1)[OF n, of t'] p(1,2) by simp
  moreover have "res_known (osb n') (pcs n' t')" for t'
    using node_okD(2)[OF n, of t'] node_okD(2)[OF n, of t] p(1,3) x by (cases "t' = t") (auto simp: res_known_def dom)
  moreover have "os_res (osb n') r' \<noteq> None" if "r' \<in> set l" for r'
    using node_okD(3)[OF n, of r'] l that x unfolding dom by (cases "r' = r") auto
  moreover have "res_ok r' z (dlm n' r') (pcs n') (r' \<in> set l)" if z: "os_res (osb n') r' = Some z" for r' z
  proof (cases "r' = r")
    case True
    then show ?thesis using ok z ws(1) by auto
  next
    case False
    have "res_ok r' z (dlm n r') (pcs n) (r' \<in> set (blocked_lock_list (osb n)))" using node_okD(5)[OF n] z ws(1) False by simp
    moreover have "r' \<in> set (blocked_lock_list (osb n)) \<longleftrightarrow> r' \<in> set l" using l False by auto
    ultimately have "res_ok r' z (dlm n' r') (pcs n) (r' \<in> set l)" using q[OF False] by simp
    then show ?thesis unfolding p(1)
      using p(3) False by (metis fun_upd_triv insertE option.distinct(1) option.inject res_ok_frame singletonD)
  qed
  ultimately show ?thesis using w ws(2) by (simp add: node_ok_def)
qed

text \<open>No resource changes, and the process is not at one.\<close>

lemma node_ok_away:
  assumes n: "node_ok n" and s: "os_res (osb n') = os_res (osb n)" "os_mws (osb n') = os_mws (osb n)"
      "blocked_lock_list (osb n') = blocked_lock_list (osb n)" "dlm n' = dlm n"
    and p: "pcs n' = (pcs n)(t := p')" "pc_ok t p'" "pc_res (pcs n t) = None" "pc_res p' = None"
  shows "node_ok n'"
proof -
  have o: "out_of (pcs n t) = None" "out_of p' = None" "lock_of p' = None" using p(3,4) by (cases "pcs n t"; cases p'; simp)+
  have "sleeps_ok (osb n') (pcs n)" using node_okD(4)[OF n] s by (simp add: sleeps_ok_same)
  then have "sleeps_ok (osb n') (pcs n')" unfolding p(1) using o by (intro sleeps_ok_move) auto
  moreover have "pc_ok t' (pcs n' t') \<and> res_known (osb n') (pcs n' t')" for t'
    using node_okD(1,2)[OF n, of t'] p s by (cases "t' = t") (auto simp: res_known_def)
  moreover have "res_ok r x (dlm n' r) (pcs n') (r \<in> set (blocked_lock_list (osb n')))" if "os_res (osb n') r = Some x" for r x
    unfolding p(1) using node_okD(5)[OF n, of r x] that s p(3,4) by (intro res_ok_frame) auto
  ultimately show ?thesis using node_okD(3)[OF n] s by (auto simp: node_ok_def)
qed

text \<open>A process that is not at \<open>out\<close> moves on, for the same call.\<close>

lemma sleeps_ok_go:
  assumes w: "sleeps_ok s P" and p: "out_of (P t) = None" "out_of p' = None"
    and c: "\<And>c'. lock_of p' = Some c' \<Longrightarrow> \<exists>c. lock_of (P t) = Some c \<and> nonblock c' = nonblock c"
  shows "sleeps_ok s (P(t := p'))"
proof (rule sleeps_ok_move[OF w p])
  fix c' assume "lock_of p' = Some c'"
  from c[OF this] obtain c where c: "lock_of (P t) = Some c" "nonblock c' = nonblock c" by blast
  have "task_waits s t (P t)" using w by (simp add: sleeps_ok_def)
  then show "clear_mw c' (os_mws s t)" using c by (simp add: task_waits_def clear_mw_def)
qed

text \<open>The common step: a section that only touches \<open>r\<close>, and one process moves on.\<close>

lemma node_ok_step:
  assumes n: "node_ok n" and y: "liked r y l (osb n) (osb n')" and x: "os_res (osb n) r = Some x"
    and p: "pcs n' = (pcs n)(t := p')" "pc_ok t p'" "pc_res (pcs n t) \<in> {None, Some r}" "pc_res p' \<in> {None, Some r}"
      "out_of (pcs n t) = None" "out_of p' = None"
      "\<And>c'. lock_of p' = Some c' \<Longrightarrow> \<exists>c. lock_of (pcs n t) = Some c \<and> nonblock c' = nonblock c"
    and q: "\<And>r'. r' \<noteq> r \<Longrightarrow> dlm n' r' = dlm n r'"
    and l: "set l - {r} = set (blocked_lock_list (osb n)) - {r}"
    and ok: "res_ok r y (dlm n' r) ((pcs n)(t := p')) (r \<in> set l)"
  shows "node_ok n'"
proof (rule node_okI[OF n liked_only[OF y] x p(1,2)])
  show "p' = pcs n t \<or> pc_res (pcs n t) \<in> {None, Some r} \<and> pc_res p' \<in> {None, Some r}" using p by simp
  show "sleeps_ok (osb n') (pcs n')" unfolding p(1)
    by (rule sleeps_ok_go[OF sleeps_ok_liked[OF node_okD(4)[OF n] y] p(5,6,7)])
  show "res_ok r y (dlm n' r) (pcs n') (r \<in> set l)" using ok p(1) by simp
qed (rule q, assumption, rule l)

text \<open>No process moves on.\<close>

lemma node_ok_here:
  assumes n: "node_ok n" and y: "liked r y l (osb n) (osb n')" and x: "os_res (osb n) r = Some x"
    and p: "pcs n' = pcs n" and q: "\<And>r'. r' \<noteq> r \<Longrightarrow> dlm n' r' = dlm n r'"
    and l: "set l - {r} = set (blocked_lock_list (osb n)) - {r}"
    and ok: "res_ok r y (dlm n' r) (pcs n) (r \<in> set l)"
  shows "node_ok n'"
proof (rule node_okI[OF n liked_only[OF y] x, where t = 0 and p' = "pcs n 0"])
  show "sleeps_ok (osb n') (pcs n')" unfolding p by (rule sleeps_ok_liked[OF node_okD(4)[OF n] y])
qed (use p q l ok node_okD(1)[OF n] in simp_all)

section \<open>What processes do\<close>

lemma goes_simps [simp]:
  "osb (goes t p s n) = s" "pcs (goes t p s n) = (pcs n)(t := p)" "dlm (goes t p s n) = dlm n"
  by (simp_all add: goes_def)

lemma res_satD: "res_sat Q r n \<Longrightarrow> \<exists>x. os_res (osb n) r = Some x \<and> Q x"
  by (auto simp: res_sat_def split: option.splits)

lemma rq_satD: "rq_sat Q r n \<Longrightarrow> \<exists>rq. request (dlm n r) = Some rq \<and> Q rq"
  by (auto simp: rq_sat_def split: option.splits)

lemma step_plain:
  assumes "res_ok r x q P listed" "plain_pc (P t)" "plain_pc p'" shows "res_ok r x q (P(t := p')) listed"
  by (rule step_steady[OF assms res_okD(1)[OF assms(1)] steady_refl]) simp_all

text \<open>Flags that nobody relies on.\<close>

lemma step_flags:
  assumes x: "res_ok r x q P listed" and p: "plain_pc (P t)" "plain_pc p'"
    and f: "\<And>fl. fl \<notin> {OCFS2_LOCK_LOCAL, OCFS2_LOCK_NEEDS_REFRESH, OCFS2_LOCK_REFRESHING, OCFS2_LOCK_NONBLOCK_FINISHED} \<Longrightarrow>
      fl \<in> F \<longleftrightarrow> res_flag fl x"
  shows "res_ok r (x\<lparr>l_flags := F\<rparr>) q (P(t := p')) listed"
proof (rule step_steady[OF x p])
  have f': "res_flag fl (x\<lparr>l_flags := F\<rparr>) = res_flag fl x"
    if "fl \<notin> {OCFS2_LOCK_LOCAL, OCFS2_LOCK_NEEDS_REFRESH, OCFS2_LOCK_REFRESHING, OCFS2_LOCK_NONBLOCK_FINISHED}" for fl
    using f[OF that] by (simp add: res_flag_def)
  show "rec_ok (x\<lparr>l_flags := F\<rparr>)" by (rule same_core_ok[OF _ res_okD(1)[OF x]]) (simp add: same_core_def f')
  show "steady x (x\<lparr>l_flags := F\<rparr>)" by (simp add: steady_def f' blocks_def)
  show "res_flag OCFS2_LOCK_BLOCKED (x\<lparr>l_flags := F\<rparr>) = res_flag OCFS2_LOCK_BLOCKED x" by (rule f') simp
qed simp_all

lemma same_list: "set (blocked_lock_list s) - {r} = set (blocked_lock_list s) - {r}"
  by simp

text \<open>Entering and leaving the code.\<close>

lemma lock_event:
  assumes n: "node_ok n" and p: "possible (Ev_lock t nointr r level fl af parent) n"
  shows "yields (run_event (Ev_lock t nointr r level fl af parent) n) node_ok"
proof -
  have t: "t \<noteq> 0" "pcs n t = Idle" "lock_level level" "res_sat (\<lambda>x. True) r n" using p by auto
  obtain x where x: "os_res (osb n) r = Some x" using res_satD[OF t(4)] by blast
  let ?s = "ocfs2_init_mask_waiter t (osb n)"
  have ok: "node_ok (goes t p' ?s n)" if p': "p' = Again c" "lc_res c = r" "lc_level c = level" for p' c
  proof (rule node_okI[OF n _ x, where t = t and p' = p'])
    show "only_res r x (blocked_lock_list (osb n)) (osb n) (osb (goes t p' ?s n))"
      using x by (auto simp: only_res_def ocfs2_init_mask_waiter_def upd_mw_def intro!: exI[of _ "l_mask_waiters x"])
    show "sleeps_ok (osb (goes t p' ?s n)) (pcs (goes t p' ?s n))"
      using sleeps_ok_init[OF node_okD(4)[OF n], of t p'] t p' by simp
    show "res_ok r x (dlm (goes t p' ?s n) r) (pcs (goes t p' ?s n)) (r \<in> set (blocked_lock_list (osb n)))"
      using step_plain[OF node_okD(5)[OF n x], of t p'] t p' by simp
  qed (use t p' in simp_all)
  have ret: "node_ok (goes t Idle (osb n) n)" by (rule node_ok_away[OF n, where t = t and p' = Idle]) (simp_all add: t)
  show ?thesis
    by (cases "res_flag OCFS2_LOCK_INITIALIZED x") (simp_all add: cluster_lock_begin_def turns_def x ok ret)
qed

lemma again_event:
  assumes n: "node_ok n" and c: "pcs n t = Again c" and g: "gen_room (lc_res c) n"
  shows "yields (turns t n (cluster_lock_again signal t c (osb n))) node_ok"
proof -
  let ?r = "lc_res c"
  obtain x where x: "os_res (osb n) ?r = Some x" using node_okD(2)[OF n, of t ?r] c by auto
  have ok: "res_ok ?r x (dlm n ?r) (pcs n) (?r \<in> set (blocked_lock_list (osb n)))" by (rule node_okD(5)[OF n x])
  have t: "t \<noteq> 0" "lock_level (lc_level c)" using node_okD(1)[OF n, of t] c by auto
  have pl: "plain_pc (pcs n t)" using c by simp
  have mw: "\<not> mw_item (os_mws (osb n) t)"
    using node_okD(4)[OF n] c unfolding sleeps_ok_def task_waits_def clear_mw_def by (metis lock_of.simps(1))
  have nf: "\<not> res_flag OCFS2_LOCK_FREEING x" using rec_okD(1)[OF res_okD(1)[OF ok]] by (simp add: plain_res_def)
  have fin: "res_ok ?r (finished x) (dlm n ?r) ((pcs n)(t := p')) (?r \<in> set (blocked_lock_list (osb n)))" if "plain_pc p'" for p'
    by (rule step_steady[OF ok pl that same_core_ok[OF finished_same res_okD(1)[OF ok]]])
      (auto simp: steady_def finished_def res_flag_def blocks_def)
  have "node_ok (goes t (after_turn turn) s' n)" if r: "again_result ?r t c x (osb n) turn s'" for turn s'
  proof (cases turn)
    case (Turn_return ret)
    then consider "like ?r (finished x) (osb n) s'"
      | "may_hold (lc_level c) x" "like ?r (finished (now_held (lc_level c) x)) (osb n) s'" using r by auto
    then show ?thesis
    proof cases
      case 1
      show ?thesis by (rule node_ok_step[OF n _ x, where t = t and p' = Idle]) (use like_liked[OF 1] fin[of Idle] Turn_return c in simp_all)
    next
      case 2
      show ?thesis
        by (rule node_ok_step[OF n _ x, where t = t and p' = Idle])
          (use like_liked[OF 2(2)] step_hold[OF ok pl _ 2(1) t(2), of Idle] Turn_return c in simp_all)
    qed
  next
    case (Turn_wait c')
    then obtain fl where fl: "c' = c" "fl \<in> {OCFS2_LOCK_BUSY, OCFS2_LOCK_BLOCKED}" "res_flag fl x"
        "like ?r (finished x) (parked ?r t fl x (osb n)) s'" using r by auto
    show ?thesis
    proof (rule node_okI[OF n _ x, where t = t and p' = "Out c"])
      show "only_res ?r (finished x) (blocked_lock_list (osb n)) (osb n) (osb (goes t (after_turn turn) s' n))"
        using fl(4) by (auto simp: like_def only_res_def parked_def upd_mw_def)
      show "sleeps_ok (osb (goes t (after_turn turn) s' n)) (pcs (goes t (after_turn turn) s' n))"
        using sleeps_ok_like[OF sleeps_ok_park[OF node_okD(4)[OF n] c x fl(2,3)] fl(4)] Turn_wait fl(1) by simp
    qed (use Turn_wait fl(1) c t fin[of "Out c"] in simp_all)
  next
    case (Turn_call c' gen)
    then have m: "gen = l_pending_gen x" "lc_res c' = ?r" "lc_level c' = lc_level c" "lc_arg_flags c' = lc_arg_flags c"
        "may_ask (lc_level c) x" "like ?r (asked (lc_level c) x) (osb n) s'" using r by auto
    have "l_pending_gen x + 1 \<noteq> 0" using g x by (simp add: gen_room_def res_sat_def)
    then show ?thesis
      by (intro node_ok_step[OF n like_liked x, where t = t and p' = "Dlm_call (By_lock c') gen"])
        (use m step_ask[OF ok pl, of "By_lock c'" "lc_level c"] t Turn_call c in \<open>simp_all add: nonblock_def asker_ok_def\<close>)
  next
    case (Turn_again c')
    then show ?thesis using r by simp
  qed
  then show ?thesis unfolding turns_def
    by (intro yields_next[OF again_like[OF x t(2) nf mw]]) auto
qed

text \<open>At \<open>out\<close>.\<close>

lemma out_result:
  assumes n: "node_ok n" and c: "pcs n t = Out c" and x: "os_res (osb n) (lc_res c) = Some x"
    and m: "nonblock c \<or> mw_complete (os_mws (osb n) t) \<noteq> 0"
  shows "yields (cluster_lock_out t c (osb n)) (\<lambda>(turn, s'). \<exists>s1. unparked (lc_res c) t (osb n) s1 \<and>
    (turn = Turn_again c \<and> s' = s1 \<and> clear_mw c (os_mws s1 t) \<or>
     (\<exists>e F. turn = Turn_return e \<and> liked (lc_res c) (x\<lparr>l_flags := F\<rparr>) (blocked_lock_list s1) s1 s' \<and>
        (F = l_flags x \<or> F = insert OCFS2_LOCK_NONBLOCK_FINISHED (l_flags x)))))"
proof -
  let ?r = "lc_res c" and ?s = "osb n"
  let ?m = "os_mws ?s t"
  have tw: "out_mw c ?m" "mw_item ?m \<Longrightarrow> t \<in> set (l_mask_waiters x)"
    using node_okD(4)[OF n] c x unfolding sleeps_ok_def task_waits_def by force+
  have lw: "list_waits ?s (pcs n) ?r x" using node_okD(4)[OF n] x by (simp add: sleeps_ok_def)
  have nt: "t \<notin> set (l_mask_waiters x)" if "\<not> mw_item ?m" using lw that by (auto simp: list_waits_def)
  show ?thesis
  proof (cases "nonblock c")
    case True
    show ?thesis
    proof (cases "mw_item ?m")
      case False
      have "unparked ?r t ?s ?s" using x nt[OF False] by (auto simp: unparked_def remove1_idem)
      then show ?thesis using True False x
        by (auto simp: cluster_lock_out_def nonblock_def cluster_lock_nonblock_def us_us_lockres_remove_mask_waiter_def clear_mw_def)
    next
      case it: True
      let ?x = "x\<lparr>l_mask_waiters := remove1 t (l_mask_waiters x)\<rparr>"
      let ?s1 = "upd_mw t (\<lambda>m. m\<lparr>mw_item := False, mw_complete := 0\<rparr>) (?s\<lparr>os_res := (os_res ?s)(?r \<mapsto> ?x)\<rparr>)"
      have un: "unparked ?r t ?s ?s1" using x by (auto simp: unparked_def upd_mw_def)
      have "t \<in> unreached ?s x" using lw tw(2)[OF it] by (auto simp: list_waits_def)
      then have busy: "\<not> mw_reached (l_flags x) ?m" by (simp add: unreached_def)
      have x1: "os_res ?s1 ?r = Some ?x" by (simp add: upd_mw_def)
      have lk: "like ?r x ?s1 ?s1" using like_refl[OF x1] by simp
      have fl: "yields (if lc_dlm_locked c then lockres_or_flags ?r {OCFS2_LOCK_NONBLOCK_FINISHED} ?s1 else Some ?s1)
          (\<lambda>s'. \<exists>F. liked ?r (x\<lparr>l_flags := F\<rparr>) (blocked_lock_list ?s1) ?s1 s' \<and>
             (F = l_flags x \<or> F = insert OCFS2_LOCK_NONBLOCK_FINISHED (l_flags x)))"
      proof (cases "lc_dlm_locked c")
        case True
        then show ?thesis
          by simp (rule or_end[OF lk], rule exI[of _ "insert OCFS2_LOCK_NONBLOCK_FINISHED (l_flags x)"], simp add: like_liked)
      next
        case False
        then show ?thesis using like_liked[OF lk] by (auto intro!: exI[of _ "l_flags x"])
      qed
      have eq: "cluster_lock_out t c ?s = do {
          s \<leftarrow> (if lc_dlm_locked c then lockres_or_flags ?r {OCFS2_LOCK_NONBLOCK_FINISHED} ?s1 else Some ?s1);
          Some (Turn_return (-EAGAIN), s) }"
        using True it x busy
        by (simp add: cluster_lock_out_def nonblock_def cluster_lock_nonblock_def us_us_lockres_remove_mask_waiter_def)
      show ?thesis unfolding eq by (rule yields_next[OF fl]) (use un in auto)
    qed
  next
    case False
    then have it: "\<not> mw_item ?m" "mw_complete ?m = 1" "mw_status ?m = 0"
      using tw(1) m by (auto simp: out_mw_def split: if_splits)
    let ?s1 = "upd_mw t (\<lambda>m. m\<lparr>mw_complete := 0\<rparr>) ?s"
    have "unparked ?r t ?s ?s1" using x nt[OF it(1)] by (auto simp: unparked_def upd_mw_def remove1_idem)
    then show ?thesis using False it m
      by (auto simp: cluster_lock_out_def nonblock_def cluster_lock_sleep_def ocfs2_wait_for_mask_def clear_mw_def upd_mw_def)
  qed
qed

lemma out_event:
  assumes n: "node_ok n" and c: "pcs n t = Out c" and m: "nonblock c \<or> mw_complete (os_mws (osb n) t) \<noteq> 0"
  shows "yields (turns t n (cluster_lock_out t c (osb n))) node_ok"
proof -
  let ?r = "lc_res c"
  obtain x where x: "os_res (osb n) ?r = Some x" using node_okD(2)[OF n, of t ?r] c by auto
  have ok: "res_ok ?r x (dlm n ?r) (pcs n) (?r \<in> set (blocked_lock_list (osb n)))" by (rule node_okD(5)[OF n x])
  have t: "t \<noteq> 0" "lock_level (lc_level c)" using node_okD(1)[OF n, of t] c by auto
  have "node_ok (goes t (after_turn turn) s' n)"
    if u: "unparked ?r t (osb n) s1" and r: "turn = Turn_again c \<and> s' = s1 \<and> clear_mw c (os_mws s1 t) \<or>
     (\<exists>e F. turn = Turn_return e \<and> liked ?r (x\<lparr>l_flags := F\<rparr>) (blocked_lock_list s1) s1 s' \<and>
        (F = l_flags x \<or> F = insert OCFS2_LOCK_NONBLOCK_FINISHED (l_flags x)))" for turn s' s1
  proof -
    have s1: "os_res s1 = (os_res (osb n))(?r \<mapsto> x\<lparr>l_mask_waiters := remove1 t (l_mask_waiters x)\<rparr>)"
        "blocked_lock_list s1 = blocked_lock_list (osb n)" using u x by (auto simp: unparked_def)
    consider (again) "turn = Turn_again c" "s' = s1" "clear_mw c (os_mws s1 t)"
      | (return) e F where "turn = Turn_return e" "liked ?r (x\<lparr>l_flags := F\<rparr>) (blocked_lock_list s1) s1 s'"
          "F = l_flags x \<or> F = insert OCFS2_LOCK_NONBLOCK_FINISHED (l_flags x)" using r by blast
    then show ?thesis
    proof cases
      case a: again
      have "sleeps_ok s1 ((pcs n)(t := Again c))" by (rule sleeps_ok_unpark[OF node_okD(4)[OF n] c u]) (use a in simp_all)
      moreover have "only_res ?r x (blocked_lock_list (osb n)) (osb n) s1" using s1 by (auto simp: only_res_def)
      ultimately show ?thesis
        by (intro node_okI[OF n _ x, where t = t and p' = "Again c" and y = x and l = "blocked_lock_list (osb n)"])
          (use a c t step_plain[OF ok, of t "Again c"] in simp_all)
    next
      case a: return
      note F = a(3)
      have "sleeps_ok s1 ((pcs n)(t := Idle))" by (rule sleeps_ok_unpark[OF node_okD(4)[OF n] c u]) simp_all
      then have "sleeps_ok s' ((pcs n)(t := Idle))" using a(2) by (rule sleeps_ok_liked)
      moreover have "only_res ?r (x\<lparr>l_flags := F\<rparr>) (blocked_lock_list (osb n)) (osb n) s'"
        using liked_only[OF a(2)] s1 by (auto simp: only_res_def)
      moreover have "res_ok ?r (x\<lparr>l_flags := F\<rparr>) (dlm n ?r) ((pcs n)(t := Idle)) (?r \<in> set (blocked_lock_list (osb n)))"
        by (rule step_flags[OF ok]) (use F c in \<open>auto simp: res_flag_def\<close>)
      ultimately show ?thesis
        by (intro node_okI[OF n _ x, where t = t and p' = Idle and y = "x\<lparr>l_flags := F\<rparr>" and l = "blocked_lock_list (osb n)"])
          (use a c t in simp_all)
    qed
  qed
  note ok' = this
  show ?thesis unfolding turns_def
  proof (rule yields_next[OF out_result[OF n c x m]], clarify)
    fix turn s' s1 assume "unparked ?r t (osb n) s1" "turn = Turn_again c \<and> s' = s1 \<and> clear_mw c (os_mws s1 t) \<or>
     (\<exists>e F. turn = Turn_return e \<and> liked ?r (x\<lparr>l_flags := F\<rparr>) (blocked_lock_list s1) s1 s' \<and>
        (F = l_flags x \<or> F = insert OCFS2_LOCK_NONBLOCK_FINISHED (l_flags x)))"
    from ok'[OF this] show "yields (Some (goes t (after_turn turn) s' n)) node_ok" by simp
  qed
qed

text \<open>The locks of a new inode.\<close>

lemma create_event:
  assumes n: "node_ok n" and p: "possible (Ev_create t r level) n"
  shows "yields (run_event (Ev_create t r level) n) node_ok"
proof -
  have t: "t \<noteq> 0" "pcs n t = Idle" "lock_level level" "res_sat (\<lambda>x. \<not> res_flag OCFS2_LOCK_ATTACHED x) r n" using p by auto
  obtain x where x: "os_res (osb n) r = Some x" "\<not> res_flag OCFS2_LOCK_ATTACHED x" using res_satD[OF t(4)] by blast
  let ?y = "x\<lparr>l_flags := insert OCFS2_LOCK_LOCAL (l_flags x)\<rparr>"
  have "res_ok r ?y (dlm n r) ((pcs n)(t := Create r level)) (r \<in> set (blocked_lock_list (osb n)))"
    by (rule step_flags[OF node_okD(5)[OF n x(1)]]) (use t in \<open>auto simp: res_flag_def\<close>)
  note res = this
  have "node_ok (goes t (Create r level) s' n)" if lk: "like r ?y (osb n) s'" for s'
    by (rule node_ok_step[OF n _ x(1), where t = t and p' = "Create r level" and y = ?y and l = "blocked_lock_list (osb n)"])
      (use like_liked[OF lk] res t in simp_all)
  then show ?thesis by (auto intro!: yields_next[OF create_new_like[OF like_refl[OF x(1)] x(2)]])
qed

lemma create_lock_event:
  assumes n: "node_ok n" and c: "pcs n t = Create r level" and g: "gen_room r n"
  shows "yields (run_event (Ev_create_lock t) n) node_ok"
proof -
  obtain x where x: "os_res (osb n) r = Some x" using node_okD(2)[OF n, of t r] c by auto
  have ok: "res_ok r x (dlm n r) (pcs n) (r \<in> set (blocked_lock_list (osb n)))" by (rule node_okD(5)[OF n x])
  have t: "t \<noteq> 0" "lock_level level" using node_okD(1)[OF n, of t] c by auto
  have g1: "l_pending_gen x + 1 \<noteq> 0" using g x by (simp add: gen_room_def res_sat_def)
  have 1: "node_ok (goes t Idle s' n)" if "like r x (osb n) s'" for s'
    by (rule node_ok_step[OF n _ x, where t = t and p' = Idle])
      (use like_liked[OF that] c step_plain[OF ok, of t Idle] in simp_all)
  have 2: "node_ok (goes t (Dlm_call (By_create r level) (l_pending_gen x)) s' n)"
    if m: "\<not> (res_flag OCFS2_LOCK_ATTACHED x \<or> res_flag OCFS2_LOCK_BUSY x)" "like r (asked level x) (osb n) s'" for s'
  proof -
    have "\<not> res_flag OCFS2_LOCK_BLOCKED x" "l_level x = DLM_LOCK_IV"
      using blocked_attached[OF res_okD(1)[OF ok]] rec_okD(2)[OF res_okD(1)[OF ok]] m(1) by (auto simp: level_ok_def)
    then have "may_ask level x" using m(1) t(2) by (auto simp: may_ask_def lock_level_def)
    then show ?thesis
      by (intro node_ok_step[OF n like_liked x, where t = t and p' = "Dlm_call (By_create r level) (l_pending_gen x)"])
        (use m(2) step_ask[OF ok, of t "By_create r level" level] t g1 c in \<open>simp_all add: asker_ok_def\<close>)
  qed
  show ?thesis using c
    by (auto intro!: yields_next[OF create_like[OF like_refl[OF x]]] 1 2 split: if_splits)
qed

section \<open>The calls of the lock manager\<close>

lemma call_event:
  assumes n: "node_ok n" and c: "pcs n t = Dlm_call a gen" and d: "by_down a \<Longrightarrow> ret = 0 \<or> ret = -EBUSY"
  shows "node_ok (call_dlm t a gen ret n)"
proof -
  let ?r = "asker_res a" and ?n = "call_dlm t a gen ret n"
  obtain x where x: "os_res (osb n) ?r = Some x" using node_okD(2)[OF n, of t ?r] c by auto
  have a: "asker_ok t a" using node_okD(1)[OF n, of t] c by simp
  have "res_ok ?r x (dlm ?n ?r) ((pcs n)(t := Dlm_called a gen ret)) (?r \<in> set (blocked_lock_list (osb n)))"
    using step_call[OF node_okD(5)[OF n x] c refl d] a by (auto simp: call_dlm_def Let_def asker_ok_def)
  then show ?thesis
    by (intro node_ok_step[OF n _ x, where t = t and p' = "Dlm_called a gen ret" and y = x and l = "blocked_lock_list (osb n)"])
      (use like_liked[OF like_refl[OF x]] c a d in \<open>auto simp: call_dlm_def Let_def split: asker.splits\<close>)
qed

lemma after_call_ok: "asker_ok t a \<Longrightarrow> (by_down a \<Longrightarrow> ret = 0 \<or> ret = -EBUSY) \<Longrightarrow> pc_ok t (after_call a ret)"
  by (cases a) (auto simp: asker_ok_def cluster_lock_asked_def)

lemma after_call_simps:
  "pc_res (after_call a ret) \<in> {None, Some (asker_res a)}" "out_of (after_call a ret) = None"
  "lock_of (after_call a ret) = Some c' \<Longrightarrow>
    \<exists>c. lock_of (Dlm_called a gen ret) = Some c \<and> nonblock c' = nonblock c"
  "pc_res (after_failure a ret) \<in> {None, Some (asker_res a)}" "out_of (after_failure a ret) = None"
  "lock_of (after_failure a ret) = None"
  by (cases a; auto simp: cluster_lock_asked_def nonblock_def split: if_splits)+

lemma called_event:
  assumes n: "node_ok n" and c: "pcs n t = Dlm_called a gen ret"
  shows "yields (run_event (Ev_called t) n) node_ok"
proof -
  let ?r = "asker_res a"
  obtain x where x: "os_res (osb n) ?r = Some x" using node_okD(2)[OF n, of t ?r] c by auto
  have a: "asker_ok t a" "by_down a \<Longrightarrow> ret = 0 \<or> ret = -EBUSY" using node_okD(1)[OF n, of t] c by auto
  have ok: "res_ok ?r (pending_cleared gen x) (dlm n ?r) ((pcs n)(t := after_call a ret)) (?r \<in> set (blocked_lock_list (osb n)))"
    by (rule step_called[OF node_okD(5)[OF n x] c refl]) (use a in \<open>auto simp: asker_ok_def\<close>)
  have "node_ok (goes t (after_call a ret) s' n)" if lk: "like ?r (pending_cleared gen x) (osb n) s'" for s'
    by (rule node_ok_step[OF n _ x, where t = t and p' = "after_call a ret"])
      (use like_liked[OF lk] ok after_call_ok[OF a] after_call_simps[of a ret] c in simp_all)
  then show ?thesis using c by (auto intro!: yields_next[OF pending_cleared_like[OF like_refl[OF x]]])
qed

lemma failed_event:
  assumes n: "node_ok n" and c: "pcs n t = Dlm_failed a ret"
  shows "yields (run_event (Ev_failed t) n) node_ok"
proof -
  let ?r = "asker_res a"
  obtain x where x: "os_res (osb n) ?r = Some x" using node_okD(2)[OF n, of t ?r] c by auto
  have a: "asker_ok t a" "by_down a \<Longrightarrow> ret = -EBUSY" using node_okD(1)[OF n, of t] c by auto
  have ok: "res_ok ?r (recovered True x) (dlm n ?r) ((pcs n)(t := after_failure a ret)) (?r \<in> set (blocked_lock_list (osb n)))"
    by (rule step_failed[OF node_okD(5)[OF n x] c refl]) (use a in \<open>auto simp: asker_ok_def\<close>)
  have "pc_ok t (after_failure a ret)" using a by (cases a) (auto simp: asker_ok_def)
  then have "node_ok (goes t (after_failure a ret) s' n)" if lk: "like ?r (recovered True x) (osb n) s'" for s'
    by (intro node_ok_step[OF n _ x, where t = t and p' = "after_failure a ret" and y = "recovered True x" and
        l = "blocked_lock_list (osb n)"])
      (use like_liked[OF lk] ok after_call_simps[of a ret] c in simp_all)
  then show ?thesis using c by (auto intro!: yields_next[OF recover_like[OF like_refl[OF x]]])
qed

section \<open>Releasing and refreshing\<close>

lemma node_ok_like:
  assumes "node_ok n" "os_res (osb n) r = Some x" "like r y (osb n) s'"
    "res_ok r y (dlm n r) (pcs n) (r \<in> set (blocked_lock_list (osb n)))"
  shows "node_ok (n\<lparr>osb := s'\<rparr>)"
  by (rule node_ok_here[OF assms(1) _ assms(2), where y = y and l = "blocked_lock_list (osb n)"])
    (use assms like_liked[OF assms(3)] in simp_all)

lemma unlock_event:
  assumes n: "node_ok n" and p: "possible (Ev_unlock t r level) n"
  shows "yields (run_event (Ev_unlock t r level) n) node_ok"
proof -
  obtain x where x: "os_res (osb n) r = Some x" and m: "level = DLM_LOCK_EX \<and> l_ex_holders x \<noteq> 0 \<or> level = DLM_LOCK_PR \<and> l_ro_holders x \<noteq> 0"
    using p unfolding possible.simps by (blast dest: res_satD)
  have t: "plain_pc (pcs n t)" using p by simp
  have ok: "res_ok r x (dlm n r) (pcs n) (r \<in> set (blocked_lock_list (osb n)))" by (rule node_okD(5)[OF n x])
  have b: "res_flag OCFS2_LOCK_BLOCKED x \<longrightarrow> lock_level (l_blocking x)"
    using rec_okD(3)[OF res_okD(1)[OF ok]] by (simp add: block_ok_def)
  show ?thesis
    using node_ok_like[OF n x _ step_release[OF ok t m]]
    by (auto intro!: yields_next[OF release_like[OF like_refl[OF x] m b]])
qed

lemma refresh_event:
  assumes n: "node_ok n" and p: "possible (Ev_refresh t r) n"
  shows "yields (run_event (Ev_refresh t r) n) node_ok"
proof -
  obtain x where x: "os_res (osb n) r = Some x" and m: "\<not> (res_flag OCFS2_LOCK_NEEDS_REFRESH x \<and> res_flag OCFS2_LOCK_REFRESHING x)"
    using p unfolding possible.simps by (blast dest: res_satD)
  have t: "plain_pc (pcs n t)" using p by simp
  have ok: "res_ok r x (dlm n r) (pcs n) (r \<in> set (blocked_lock_list (osb n)))" by (rule node_okD(5)[OF n x])
  have "res_ok r (x\<lparr>l_flags := insert OCFS2_LOCK_REFRESHING (l_flags x)\<rparr>) (dlm n r) ((pcs n)(t := pcs n t))
      (r \<in> set (blocked_lock_list (osb n)))"
    by (rule step_flags[OF ok t t]) (auto simp: res_flag_def)
  then have 1: "node_ok (n\<lparr>osb := s'\<rparr>)"
    if "like r (if ret = 0 then x else x\<lparr>l_flags := insert OCFS2_LOCK_REFRESHING (l_flags x)\<rparr>) (osb n) s'" for ret :: int and s'
    using node_ok_like[OF n x that] ok by (cases "ret = 0") simp_all
  show ?thesis by (auto intro!: yields_next[OF should_refresh_like[OF like_refl[OF x] m]] 1)
qed

lemma refreshed_event:
  assumes n: "node_ok n" and p: "possible (Ev_refreshed t r status) n"
  shows "yields (run_event (Ev_refreshed t r status) n) node_ok"
proof -
  obtain x where x: "os_res (osb n) r = Some x" using p unfolding possible.simps by (blast dest: res_satD)
  have t: "plain_pc (pcs n t)" using p by simp
  let ?y = "x\<lparr>l_flags := l_flags x - {OCFS2_LOCK_REFRESHING} - (if status = 0 then {OCFS2_LOCK_NEEDS_REFRESH} else {})\<rparr>"
  have "res_ok r ?y (dlm n r) ((pcs n)(t := pcs n t)) (r \<in> set (blocked_lock_list (osb n)))"
    by (rule step_flags[OF node_okD(5)[OF n x] t t]) (auto simp: res_flag_def split: if_splits)
  then have "node_ok (n\<lparr>osb := s'\<rparr>)" if "like r ?y (osb n) s'" for s'
    using node_ok_like[OF n x that] by simp
  then show ?thesis by (auto intro!: yields_next[OF complete_refresh_like[OF like_refl[OF x]]])
qed

section \<open>The callbacks\<close>

lemma res_ok_status: "res_ok r (set_status st x) q P listed = res_ok r x q P listed"
proof -
  have b: "blocks b (set_status st x) = blocks b x" "res_flag fl (set_status st x) = res_flag fl x" for b fl
    by (simp_all add: blocks_def set_status_def res_flag_def)
  have s: "l_level (set_status st x) = l_level x" "l_requested (set_status st x) = l_requested x"
    "l_blocking (set_status st x) = l_blocking x" "l_action (set_status st x) = l_action x"
    "l_unlock_action (set_status st x) = l_unlock_action x" "l_pending_gen (set_status st x) = l_pending_gen x"
    "l_ex_holders (set_status st x) = l_ex_holders x" "l_ro_holders (set_status st x) = l_ro_holders x"
    by (simp_all add: set_status_def)
  have "rec_ok (set_status st x) = rec_ok x" by (simp add: rec_ok_defs b s)
  moreover have "asks_right r (set_status st x) p = asks_right r x p" "works r (set_status st x) p = works r x p" for p
    by (cases p; simp add: b s)+
  ultimately show ?thesis
    by (simp add: res_ok_def side_ok_def pend_ok_def owners_ok_def kept_ok_def task_ok_def b s)
qed

lemma status_like:
  assumes "os_res s r = Some x" shows "yields (upd_res r (set_status st) s) (like r (set_status st x) s)"
  by (rule like_upd[OF like_refl[OF assms]]) (simp_all add: set_status_def)

text \<open>Which of the callbacks of OCFS2 is called.\<close>

lemma wrapper_like:
  assumes "like r y s0 s"
  shows "\<not> (sb_status (l_lksb y) = -DLM_EUNLOCK \<or> sb_status (l_lksb y) = -DLM_ECANCEL) \<Longrightarrow>
      fsdlm_lock_ast_wrapper r s = ocfs2_locking_ast r s"
    "sb_status (l_lksb y) = -DLM_ECANCEL \<Longrightarrow> fsdlm_lock_ast_wrapper r s = ocfs2_unlock_ast r 0 s"
  using like_read[OF assms] by (auto simp: fsdlm_lock_ast_wrapper_def)

text \<open>A callback that answers the request.\<close>

lemma answer_event:
  assumes n: "node_ok n" and x: "os_res (osb n) r = Some x"
    and f: "\<And>s. like r (set_status st x) (osb n) s \<Longrightarrow> yields (f s) (like r y (osb n))"
    and ok: "res_ok r y (dlm_answer st (dlm n r)) (pcs n) (r \<in> set (blocked_lock_list (osb n)))"
  shows "yields (do { s \<leftarrow> upd_res r (set_status st) (osb n); s \<leftarrow> f s;
    Some (n\<lparr>osb := s, dlm := (dlm n)(r := dlm_answer st (dlm n r))\<rparr>) }) node_ok"
proof -
  have "node_ok (n\<lparr>osb := s', dlm := (dlm n)(r := dlm_answer st (dlm n r))\<rparr>)" if lk: "like r y (osb n) s'" for s'
    by (rule node_ok_here[OF n _ x, where y = y and l = "blocked_lock_list (osb n)"])
      (use like_liked[OF lk] ok in simp_all)
  then show ?thesis by (intro yields_next[OF status_like[OF x]] yields_next[OF f]) auto
qed

lemma ast_event:
  assumes n: "node_ok n" and p: "possible (Ev_ast r status) n"
  shows "yields (run_event (Ev_ast r status) n) node_ok"
proof -
  obtain x rq where x: "os_res (osb n) r = Some x" and rq: "request (dlm n r) = Some rq"
      "status = 0 \<or> status = -EAGAIN \<and> rq_noqueue rq \<and> given (dlm n r) < rq_mode rq"
    using p unfolding possible.simps by (blast dest: res_satD rq_satD)
  let ?x = "set_status status x"
  have ok: "res_ok r ?x (dlm n r) (pcs n) (r \<in> set (blocked_lock_list (osb n)))"
    using node_okD(5)[OF n x] by (simp add: res_ok_status)
  have sb: "sb_status (l_lksb ?x) = status" by (simp add: set_status_def)
  show ?thesis
  proof (cases "status = 0")
    case True
    have "res_flag OCFS2_LOCK_BUSY ?x" using res_okD(2)[OF ok] rq by (simp add: side_ok_def)
    then have m: "may_act ?x" by (rule may_act_ok[OF res_okD(1)[OF ok]])
    show ?thesis unfolding run_event.simps
      by (rule answer_event[OF n x]) (use locking_ast_like wrapper_like(1) sb m True step_ast[OF ok rq(1)] in simp_all)
  next
    case False
    then have m: "status = -EAGAIN" "given (dlm n r) < rq_mode rq" using rq(2) by simp_all
    show ?thesis unfolding run_event.simps
      by (rule answer_event[OF n x]) (use refused_like wrapper_like(1) sb step_refused[OF ok rq(1) m(2)] m(1) in simp_all)
  qed
qed

lemma cancel_ast_event:
  assumes n: "node_ok n" and p: "possible (Ev_cancel_ast r) n"
  shows "yields (run_event (Ev_cancel_ast r) n) node_ok"
proof -
  obtain x rq where x: "os_res (osb n) r = Some x" and rq: "request (dlm n r) = Some rq" "rq_cancelled rq" "given (dlm n r) < rq_mode rq"
    using p unfolding possible.simps by (blast dest: res_satD rq_satD)
  let ?x = "set_status (- DLM_ECANCEL) x"
  have ok: "res_ok r ?x (dlm n r) (pcs n) (r \<in> set (blocked_lock_list (osb n)))"
    using node_okD(5)[OF n x] by (simp add: res_ok_status)
  note s = step_cancel_ast[OF ok rq(1,3,2)]
  show ?thesis unfolding run_event.simps
    by (rule answer_event[OF n x _ s(2)])
      (use unlock_ast_like[OF _ s(1)] wrapper_like(2) in \<open>simp add: set_status_def\<close>)
qed

lemma bast_event:
  assumes n: "node_ok n" and p: "possible (Ev_bast r level) n"
  shows "yields (run_event (Ev_bast r level) n) node_ok"
proof -
  obtain x where x: "os_res (osb n) r = Some x" and m: "lock_level level" "ocfs2_highest_compat_lock_level level < l_level x"
    using p unfolding possible.simps by (blast dest: res_satD)
  have ok: "res_ok r x (dlm n r) (pcs n) (r \<in> set (blocked_lock_list (osb n)))" by (rule node_okD(5)[OF n x])
  have pl: "\<not> res_flag OCFS2_LOCK_FREEING x" "\<not> res_flag OCFS2_LOCK_NOCACHE x"
    using rec_okD(1)[OF res_okD(1)[OF ok]] by (simp_all add: plain_res_def)
  have nl: "DLM_LOCK_NL < level" using m(1) by (auto simp: lock_level_def)
  let ?l = "if bast_matters level x then enlist r (blocked_lock_list (osb n)) else blocked_lock_list (osb n)"
  have "node_ok (n\<lparr>osb := s'\<rparr>)" if lk: "liked r (blocked_by level x) ?l (osb n) s'" for s'
    by (rule node_ok_here[OF n _ x, where y = "blocked_by level x" and l = ?l])
      (use lk step_bast[OF ok m] in \<open>auto split: if_splits\<close>)
  then show ?thesis by (auto intro!: yields_next[OF blocking_ast_like[OF like_refl[OF x] pl nl]])
qed

section \<open>The downconvert thread\<close>

lemma dc_work_event:
  assumes n: "node_ok n" and p: "pcs n 0 = Idle" shows "yields (run_event Ev_dc_work n) node_ok"
proof -
  have "node_ok (goes 0 (Dc_next k) s n)" if "do_work_begin (osb n) = (k, s)" for k s
    by (rule node_ok_away[OF n, where t = 0 and p' = "Dc_next k"]) (use that p in \<open>auto simp: do_work_begin_def\<close>)
  then show ?thesis by (auto simp: Let_def split: prod.splits)
qed

lemma dc_take_event:
  assumes n: "node_ok n" and p: "pcs n 0 = Dc_next k" shows "yields (run_event Ev_dc_take n) node_ok"
proof (cases "do_work_next k (osb n)")
  case None
  have "node_ok (goes 0 Idle (osb n) n)" by (rule node_ok_away[OF n, where t = 0 and p' = Idle]) (use p in simp_all)
  then show ?thesis using None p by simp
next
  case (Some a)
  obtain r k' s where v: "a = (r, k', s)" by (cases a)
  then have a: "a = (r, k', s)" "blocked_lock_list (osb n) = r # blocked_lock_list s"
      "os_res s = os_res (osb n)" "os_mws s = os_mws (osb n)"
    using Some by (auto simp: do_work_next_def split: list.splits if_splits)
  obtain x where x: "os_res (osb n) r = Some x" using node_okD(3)[OF n, of r] a(2) by auto
  have "liked r x (blocked_lock_list s) (osb n) s"
    using like_refl[OF x] a by (auto simp: liked_def)
  moreover have "res_ok r x (dlm n r) ((pcs n)(0 := Dc_process k' r)) (r \<in> set (blocked_lock_list s))"
    by (rule step_take) (use node_okD(5)[OF n x] a(2) p in simp_all)
  ultimately have "node_ok (goes 0 (Dc_process k' r) s n)"
    by (intro node_ok_step[OF n _ x, where t = 0 and p' = "Dc_process k' r" and y = x and l = "blocked_lock_list s"])
      (use p a(2) in auto)
  then show ?thesis using Some a p by simp
qed

text \<open>The thread is at \<open>r\<close>, and goes on there.\<close>

lemma thread_ok:
  assumes n: "node_ok n" and x: "os_res (osb n) r = Some x" and lk: "liked r y l (osb n) (osb n')"
    and p: "by_thread (pcs n 0)" "pc_res (pcs n 0) = Some r" "pcs n' = (pcs n)(0 := p')" "pc_ok 0 p'"
      "pc_res p' = Some r \<or> pc_res p' = None" "by_thread p'"
    and q: "\<And>r'. r' \<noteq> r \<Longrightarrow> dlm n' r' = dlm n r'" and l: "set l - {r} = set (blocked_lock_list (osb n)) - {r}"
    and ok: "res_ok r y (dlm n' r) ((pcs n)(0 := p')) (r \<in> set l)"
  shows "node_ok n'"
proof -
  have "out_of (pcs n 0) = None" "out_of p' = None" using p(1,6) by (cases "pcs n 0"; cases p'; simp)+
  moreover have "lock_of p' = None" using p(6) by (cases p') (auto split: asker.splits)
  ultimately show ?thesis
    by (intro node_ok_step[OF n lk x p(3,4)]) (use p q l ok in auto)
qed

lemma dc_begin_event:
  assumes n: "node_ok n" and p: "pcs n 0 = Dc_process k r" shows "yields (run_event Ev_dc_begin n) node_ok"
proof -
  obtain x where x: "os_res (osb n) r = Some x" using node_okD(2)[OF n, of 0 r] p by auto
  have ok: "res_ok r x (dlm n r) (pcs n) (r \<in> set (blocked_lock_list (osb n)))" by (rule node_okD(5)[OF n x])
  have nf: "\<not> res_flag OCFS2_LOCK_FREEING x" using rec_okD(1)[OF res_okD(1)[OF ok]] by (simp add: plain_res_def)
  have "node_ok (goes 0 (Dc_unblock k r ctl0) (osb n) n)"
    by (rule thread_ok[OF n x, where y = x and l = "blocked_lock_list (osb n)" and p' = "Dc_unblock k r ctl0"])
      (use like_liked[OF like_refl[OF x]] p step_thread_on[OF ok, of "Dc_unblock k r ctl0"] in simp_all)
  then show ?thesis using p x nf by (simp add: process_blocked_begin_def)
qed

lemma unblock_turn_ok:
  assumes n: "node_ok n" and x: "os_res (osb n) r = Some x" and p: "dc_pc (pcs n 0)" "in_hand r (pcs n 0)"
    and g: "gen_room r n" and u: "unblock_result r ctl x (osb n) turn s'"
  shows "node_ok (goes 0 (after_unblock k r turn) s' n)"
proof -
  have ok: "res_ok r x (dlm n r) (pcs n) (r \<in> set (blocked_lock_list (osb n)))" by (rule node_okD(5)[OF n x])
  have th: "by_thread (pcs n 0)" "pc_res (pcs n 0) = Some r" using p by (cases "pcs n 0"; simp)+
  have g1: "l_pending_gen x + 1 \<noteq> 0" using g x by (simp add: gen_room_def res_sat_def)
  have on: "node_ok (goes 0 p' s' n)"
    if "like r y (osb n) s'" "pc_ok 0 p'" "pc_res p' = Some r" "by_thread p'"
      "res_ok r y (dlm n r) ((pcs n)(0 := p')) (r \<in> set (blocked_lock_list (osb n)))" for y p'
    by (rule thread_ok[OF n x, where y = y and l = "blocked_lock_list (osb n)" and p' = p'])
      (use like_liked[OF that(1)] that th in simp_all)
  show ?thesis
  proof (cases turn)
    case (Unblock_leave c)
    then show ?thesis using on[of x "Dc_end k r c"] step_leave[OF ok p] u by simp
  next
    case (Unblock_cancel c)
    then show ?thesis using on[OF _ _ _ _ step_prepare_cancel[OF ok p]] u by simp
  next
    case (Unblock_worker c b l)
    have "lock_level (l_blocking x)" if "res_flag OCFS2_LOCK_BLOCKED x"
      using rec_okD(3)[OF res_okD(1)[OF ok]] that by (simp add: block_ok_def)
    then have "works r x (Dc_worker k r c b l)" using u Unblock_worker by (simp add: ready_def)
    then show ?thesis using on[of x] step_thread_on[OF ok p, of "Dc_worker k r c b l"] u Unblock_worker by simp
  next
    case (Unblock_call c l lvb gen)
    let ?a = "By_down k r c l"
    have u': "l = ocfs2_highest_compat_lock_level (l_blocking x)" "gen = l_pending_gen x" "ready x"
        "like r (down_asked l x) (osb n) s'" using u unfolding Unblock_call unblock_result.simps by blast+
    show ?thesis
      using on[OF u'(4), of "Dlm_call ?a gen"] step_down[OF ok p u'(3) g1 u'(1) others_not_thread[OF n]] u'(2) Unblock_call
      by (simp add: asker_ok_def del: like_waiters)
  qed
qed

lemma dc_unblock_event:
  assumes n: "node_ok n" and p: "pcs n 0 = Dc_unblock k r ctl" and g: "gen_room r n"
  shows "yields (unblocks k r n (unblock_recheck check r ctl (osb n))) node_ok"
proof -
  obtain x where x: "os_res (osb n) r = Some x" using node_okD(2)[OF n, of 0 r] p by auto
  have h: "dc_pc (pcs n 0)" "in_hand r (pcs n 0)" using p by simp_all
  show ?thesis unfolding unblocks_def
    by (rule yields_next[OF unblock_like[OF x in_hand_marked(2)[OF node_okD(5)[OF n x] h(2)]]])
      (use unblock_turn_ok[OF n x h g] in auto)
qed

lemma dc_worked_event:
  assumes n: "node_ok n" and p: "pcs n 0 = Dc_worker k r ctl blocking level" and a: "act \<noteq> UNBLOCK_STOP_POST" and g: "gen_room r n"
  shows "yields (unblocks k r n (unblock_worked check r blocking level act ctl (osb n))) node_ok"
proof -
  obtain x where x: "os_res (osb n) r = Some x" using node_okD(2)[OF n, of 0 r] p by auto
  have ok: "res_ok r x (dlm n r) (pcs n) (r \<in> set (blocked_lock_list (osb n)))" by (rule node_okD(5)[OF n x])
  have h: "dc_pc (pcs n 0)" "in_hand r (pcs n 0)" using p by simp_all
  have w: "ready x" if "blocking = l_blocking x \<and> level = l_level x"
    using res_okD(4)[OF ok, of 0] p that by (simp add: task_ok_def ready_def)
  show ?thesis unfolding unblocks_def
    by (rule yields_next[OF worked_like[OF x in_hand_marked(2)[OF ok h(2)] a w]])
      (use unblock_turn_ok[OF n x h g] in auto)
qed

lemma dc_cancel_event:
  assumes n: "node_ok n" and p: "pcs n 0 = Dc_cancel k r ctl" and m: "cancel_in_time r n"
  shows "yields (run_cancel k r ctl n) node_ok"
proof -
  obtain x where x: "os_res (osb n) r = Some x" using node_okD(2)[OF n, of 0 r] p by auto
  have ok: "res_ok r x (dlm n r) (pcs n) (r \<in> set (blocked_lock_list (osb n)))" by (rule node_okD(5)[OF n x])
  have rq: "requeue ctl" using node_okD(1)[OF n, of 0] p by simp
  let ?q = "snd (dlm_cancel (dlm n r))"
  have "res_ok r x ?q ((pcs n)(0 := Dc_end k r ctl)) (r \<in> set (blocked_lock_list (osb n)))"
  proof (cases "to_cancel (dlm n r)")
    case True
    then obtain rr where rr: "request (dlm n r) = Some rr" "\<not> rq_cancelled rr" by (auto simp: to_cancel_def split: option.splits)
    have "res_ok r x ((dlm n r)\<lparr>request := Some (rr\<lparr>rq_cancelled := True\<rparr>)\<rparr>) ((pcs n)(0 := Dc_end k r ctl))
        (r \<in> set (blocked_lock_list (osb n)))"
      by (rule step_cancel[OF ok p rq _ rr]) (use m True x in \<open>simp add: cancel_in_time_def res_sat_def\<close>)
    then show ?thesis using True rr by (simp add: dlm_cancel_def)
  next
    case False
    then show ?thesis using step_cancel_nothing[OF ok p rq] by (simp add: dlm_cancel_def)
  qed
  then have "node_ok (goes 0 (Dc_end k r ctl) (osb n) (n\<lparr>dlm := (dlm n)(r := ?q)\<rparr>))"
    by (intro thread_ok[OF n x, where y = x and l = "blocked_lock_list (osb n)" and p' = "Dc_end k r ctl"])
      (use like_liked[OF like_refl[OF x]] p in \<open>simp_all add: goes_def\<close>)
  then show ?thesis by (simp add: run_cancel_def dlm_cancel_def ocfs2_cancel_convert_def)
qed

lemma dc_end_event:
  assumes n: "node_ok n" and p: "pcs n 0 = Dc_end k r ctl"
  shows "yields (run_event Ev_dc_end n) node_ok"
proof -
  obtain x where x: "os_res (osb n) r = Some x" using node_okD(2)[OF n, of 0 r] p by auto
  have ok: "res_ok r x (dlm n r) (pcs n) (r \<in> set (blocked_lock_list (osb n)))" by (rule node_okD(5)[OF n x])
  have nf: "\<not> res_flag OCFS2_LOCK_FREEING x" using rec_okD(1)[OF res_okD(1)[OF ok]] by (simp add: plain_res_def)
  let ?y = "x\<lparr>l_flags := (if requeue ctl then insert OCFS2_LOCK_QUEUED (l_flags x) else l_flags x - {OCFS2_LOCK_QUEUED})\<rparr>"
  let ?l = "if requeue ctl then enlist r (blocked_lock_list (osb n)) else blocked_lock_list (osb n)"
  have "node_ok (goes 0 (Dc_next k) s' n)" if lk: "liked r ?y ?l (osb n) s'" for s'
    by (rule thread_ok[OF n x, where y = ?y and l = ?l and p' = "Dc_next k"])
      (use lk p step_end[OF ok p refl] in \<open>auto split: if_splits\<close>)
  note done_ok = this
  show ?thesis unfolding run_event.simps p pc.case
    by (rule yields_next[OF process_end_like[OF x nf]])
      (use done_ok like_liked[of r _ "osb n"] in \<open>auto split: if_splits\<close>)
qed

section \<open>Runs\<close>

theorem event_ok:
  assumes n: "node_ok n" and p: "possible e n" and t: "timely e n"
  shows "yields (run_event e n) node_ok"
proof (cases e)
  case (Ev_lock t nointr r level fl af parent)
  then show ?thesis using lock_event[OF n] p by blast
next
  case (Ev_again t signal)
  then obtain c where "pcs n t = Again c" using p by (cases "pcs n t") auto
  then show ?thesis using again_event[OF n, of t c signal] Ev_again assms(3) by simp
next
  case (Ev_out t)
  then obtain c where "pcs n t = Out c" using p by (cases "pcs n t") auto
  then show ?thesis using out_event[OF n, of t c] Ev_out p by (simp add: nonblock_def)
next
  case (Ev_create t r level)
  then show ?thesis using create_event[OF n] p by blast
next
  case (Ev_create_lock t)
  then obtain r level where "pcs n t = Create r level" using p by (cases "pcs n t") auto
  then show ?thesis using create_lock_event[OF n, of t r level] Ev_create_lock assms(3) by simp
next
  case (Ev_call t ret)
  then obtain a gen where "pcs n t = Dlm_call a gen" using p by (cases "pcs n t") auto
  then show ?thesis using call_event[OF n, of t a gen ret] Ev_call p by simp
next
  case (Ev_called t)
  then obtain a gen ret where "pcs n t = Dlm_called a gen ret" using p by (cases "pcs n t") auto
  then show ?thesis using called_event[OF n] Ev_called by blast
next
  case (Ev_failed t)
  then obtain a ret where "pcs n t = Dlm_failed a ret" using p by (cases "pcs n t") auto
  then show ?thesis using failed_event[OF n] Ev_failed by blast
next
  case (Ev_unlock t r level)
  then show ?thesis using unlock_event[OF n] p by blast
next
  case (Ev_refresh t r)
  then show ?thesis using refresh_event[OF n] p by blast
next
  case (Ev_refreshed t r status)
  then show ?thesis using refreshed_event[OF n] p by blast
next
  case (Ev_ast r status)
  then show ?thesis using ast_event[OF n] p by blast
next
  case (Ev_cancel_ast r)
  then show ?thesis using cancel_ast_event[OF n] p by blast
next
  case (Ev_bast r level)
  then show ?thesis using bast_event[OF n] p by blast
next
  case Ev_dc_work
  then show ?thesis using dc_work_event[OF n] p by simp
next
  case Ev_dc_take
  then obtain k where "pcs n 0 = Dc_next k" using p by (cases "pcs n 0") auto
  then show ?thesis using dc_take_event[OF n] Ev_dc_take by blast
next
  case Ev_dc_begin
  then obtain k r where "pcs n 0 = Dc_process k r" using p by (cases "pcs n 0") auto
  then show ?thesis using dc_begin_event[OF n] Ev_dc_begin by blast
next
  case (Ev_dc_unblock check)
  then obtain k r ctl where "pcs n 0 = Dc_unblock k r ctl" using p by (cases "pcs n 0") auto
  then show ?thesis using dc_unblock_event[OF n, of k r ctl check] Ev_dc_unblock t by simp
next
  case (Ev_dc_worked check act)
  then obtain k r ctl b l where "pcs n 0 = Dc_worker k r ctl b l" using p by (cases "pcs n 0") auto
  then show ?thesis using dc_worked_event[OF n, of k r ctl b l act check] Ev_dc_worked p t by simp
next
  case Ev_dc_cancel
  then obtain k r ctl where "pcs n 0 = Dc_cancel k r ctl" using p by (cases "pcs n 0") auto
  then show ?thesis using dc_cancel_event[OF n, of k r ctl] Ev_dc_cancel t by simp
next
  case Ev_dc_end
  then obtain k r ctl where "pcs n 0 = Dc_end k r ctl" using p by (cases "pcs n 0") auto
  then show ?thesis using dc_end_event[OF n] Ev_dc_end by blast
qed

interpretation ocfs2_run: step_invariant "ocfs2_step False" node_ok
proof unfold_locales
  fix n n' assume n: "node_ok n" and "ocfs2_step False n n'"
  then obtain e where e: "possible e n" "timely e n" "run_event e n = Some n'" by (auto simp: ocfs2_step_def)
  show "node_ok n'" using yields_post[OF event_ok[OF n e(1,2)] e(3)] .
qed

lemma run_node_ok: "start_node n0 \<Longrightarrow> (ocfs2_step False)\<^sup>*\<^sup>* n0 n \<Longrightarrow> node_ok n"
  using ocfs2_run.steps_keep start_node_ok by blast

end
