(* ===== verification/Ocfs2_Properties.thy ===== *)
theory Ocfs2_Properties
  imports Ocfs2_Node
begin

text \<open>
  What the lock layer of OCFS2 promises its callers, in every state of a node that its processes, its
  downconvert thread and the lock manager lead to (\<open>ocfs2_reached\<close>), and where it breaks.
\<close>

section \<open>Runs\<close>

fun run_events :: "bool \<Rightarrow> event list \<Rightarrow> node \<Rightarrow> node option" where
  "run_events late [] n = Some n"
| "run_events late (e # es) n =
     (if possible e n \<and> (late \<or> timely e n) then do { n \<leftarrow> run_event e n; run_events late es n } else None)"

lemma run_events_steps: "run_events late es n = Some n' \<Longrightarrow> (ocfs2_step late)\<^sup>*\<^sup>* n n'"
proof (induction es arbitrary: n)
  case (Cons e es)
  then obtain m where m: "possible e n" "late \<or> timely e n" "run_event e n = Some m" "run_events late es m = Some n'"
    by (auto split: if_splits Option.bind_splits)
  then have "ocfs2_step late n m" by (auto simp: ocfs2_step_def)
  then show ?case using Cons.IH[OF m(4)] by (rule converse_rtranclp_into_rtranclp)
qed simp

definition ocfs2_reached :: "node \<Rightarrow> bool" where
  "ocfs2_reached n \<longleftrightarrow> (\<exists>n0. start_node n0 \<and> (ocfs2_step False)\<^sup>*\<^sup>* n0 n)"

lemma reached_ok: "ocfs2_reached n \<Longrightarrow> node_ok n"
  unfolding ocfs2_reached_def using run_node_ok by blast

lemma reached_res: "ocfs2_reached n \<Longrightarrow> os_res (osb n) r = Some x \<Longrightarrow>
    res_ok r x (dlm n r) (pcs n) (r \<in> set (blocked_lock_list (osb n)))"
  by (rule node_okD(5)[OF reached_ok])

text \<open>A node with one lock resource, that of a dentry.\<close>

definition sample_res :: ocfs2_lock_res where
  "sample_res = \<lparr>l_type = OCFS2_LOCK_TYPE_DENTRY, l_ops = ocfs2_dentry_lops, l_name = [], l_flags = {OCFS2_LOCK_INITIALIZED},
     l_level = -1, l_requested = -1, l_blocking = -1, l_action = OCFS2_AST_INVALID, l_unlock_action = OCFS2_UNLOCK_INVALID,
     l_ro_holders = 0, l_ex_holders = 0, l_pending_gen = 0,
     l_lksb = \<lparr>sb_status = 0, sb_lkid = 0, sb_flags = 0, sb_lvbptr = None\<rparr>, l_mask_waiters = [], l_holders = []\<rparr>"

definition sample_node :: node where
  "sample_node = \<lparr>osb = \<lparr>os_res = [0 \<mapsto> sample_res],
      os_mws = (\<lambda>_. \<lparr>mw_item = False, mw_status = 0, mw_complete = 0, mw_mask = {}, mw_goal = {}\<rparr>),
      blocked_lock_list = [], blocked_lock_count = 0, dc_wake_sequence = 0, dc_work_sequence = 0\<rparr>,
     pcs = (\<lambda>_. Idle), dlm = (\<lambda>_. \<lparr>given = -1, request = None\<rparr>)\<rparr>"

lemma sample_start: "start_node sample_node"
  by (simp add: start_node_def sample_node_def sample_res_def fresh_res_def)

lemma sample_reached: "run_events False es sample_node = Some n \<Longrightarrow> ocfs2_reached n"
  unfolding ocfs2_reached_def using sample_start run_events_steps by blast

text \<open>Runs of it: process 1 asks for \<open>EX\<close>, gets it while process 2 waits, lets it go, and then another node wants
  \<open>PR\<close>, and \<open>EX\<close> while the worker of the lock type runs.\<close>

definition ask_ex :: "event list" where
  "ask_ex = [Ev_lock 1 False 0 5 0 0 None, Ev_again 1 False]"

definition wait_ex :: "event list" where
  "wait_ex = ask_ex @ [Ev_call 1 0, Ev_called 1, Ev_lock 2 False 0 3 0 0 None, Ev_again 2 False]"

definition take_ex :: "event list" where
  "take_ex = wait_ex @ [Ev_ast 0 0, Ev_again 1 False]"

definition block_ex :: "event list" where
  "block_ex = take_ex @ [Ev_out 2, Ev_again 2 False, Ev_unlock 2 0 3, Ev_unlock 1 0 5, Ev_bast 0 3]"



section \<open>Holders\<close>

text \<open>What the holders of this node rely on is granted by the lock manager.\<close>

lemma covered_given:
  assumes x: "res_ok r x q P listed"
  shows "l_ex_holders x \<noteq> 0 \<Longrightarrow> given q = DLM_LOCK_EX" "l_ro_holders x \<noteq> 0 \<Longrightarrow> DLM_LOCK_PR \<le> given q"
proof -
  note ok = res_okD(1,2)[OF x]
  have "cover x \<le> given q \<and> given q \<le> DLM_LOCK_EX" if h: "DLM_LOCK_NL \<le> cover x"
  proof (cases "request q")
    case None
    have "cover x \<le> l_level x" using rec_okD(4)[OF ok(1)] by (auto simp: cover_def busy_ok_def)
    then show ?thesis using None ok(2) rec_okD(2)[OF ok(1)] by (simp add: side_ok_def level_ok_def)
  next
    case (Some rq)
    then have s: "res_flag OCFS2_LOCK_BUSY x" "given q = min (l_level x) (l_requested x)"
      using ok(2) by (auto simp: side_ok_def)
    have "cover x = given q"
      using rec_okD(2)[OF ok(1)] rec_okD(4)[OF ok(1) s(1)] s h
      by (cases "l_action x") (auto simp: cover_def busy_ok_def level_ok_def)
    then show ?thesis using s(2) rec_okD(2)[OF ok(1)] by (simp add: level_ok_def min_def)
  qed
  then show "l_ex_holders x \<noteq> 0 \<Longrightarrow> given q = DLM_LOCK_EX" "l_ro_holders x \<noteq> 0 \<Longrightarrow> DLM_LOCK_PR \<le> given q"
    using rec_okD(5)[OF ok(1)] by (auto simp: covered_def)
qed

text \<open>C6: while a process of the node holds a lock resource for writing, the lock manager has granted the node
  \<open>EX\<close>, and while one holds it for reading, at least \<open>PR\<close>; also while a downconvert is under way, since it is
  only asked for to a level that the holders leave room for.\<close>

theorem ocfs2_holders_covered:
  assumes "ocfs2_reached n" "os_res (osb n) r = Some x"
  shows "(l_ex_holders x \<noteq> 0 \<longrightarrow> given (dlm n r) = DLM_LOCK_EX) \<and> (l_ro_holders x \<noteq> 0 \<longrightarrow> DLM_LOCK_PR \<le> given (dlm n r))"
  using covered_given[OF reached_res[OF assms]] by blast

theorem ocfs2_holders_covered_witness:
  "\<exists>n x. run_events False take_ex sample_node = Some n \<and> os_res (osb n) 0 = Some x \<and> l_ex_holders x = 1 \<and> given (dlm n 0) = DLM_LOCK_EX"
proof -
  have "case run_events False take_ex sample_node of None \<Rightarrow> False
     | Some n \<Rightarrow> (case os_res (osb n) 0 of None \<Rightarrow> False | Some x \<Rightarrow> l_ex_holders x = 1)" by code_simp
  then obtain n x where r: "run_events False take_ex sample_node = Some n" "os_res (osb n) 0 = Some x" "l_ex_holders x = 1"
    by (auto split: option.splits)
  have "given (dlm n 0) = DLM_LOCK_EX" using ocfs2_holders_covered[OF sample_reached[OF r(1)] r(2)] r(3) by simp
  then show ?thesis using r by blast
qed

text \<open>C10: two nodes that hold the same resource of the lock manager do not conflict. If the modes granted to
  them are compatible by the matrix of \<open>dlm\<close>, and a process of one node holds the lock for writing, no process
  of the other node holds it.\<close>

theorem ocfs2_nodes_exclude:
  assumes "ocfs2_reached n" "ocfs2_reached m" "os_res (osb n) r = Some x" "os_res (osb m) r' = Some y"
    and dlm: "dlm_modes_compat (given (dlm n r)) (given (dlm m r')) = Some True"
    and writer: "l_ex_holders x \<noteq> 0"
  shows "l_ex_holders y = 0 \<and> l_ro_holders y = 0"
proof -
  note y = res_okD(1,2)[OF reached_res[OF assms(2,4)]]
  have ex: "given (dlm n r) = DLM_LOCK_EX" using covered_given(1)[OF reached_res[OF assms(1,3)] writer] .
  have le: "given (dlm m r') \<le> DLM_LOCK_EX"
    using y(2) rec_okD(2)[OF y(1)] by (cases "request (dlm m r')") (auto simp: side_ok_def level_ok_def)
  have "\<not> DLM_LOCK_PR \<le> given (dlm m r')"
  proof
    assume "DLM_LOCK_PR \<le> given (dlm m r')"
    then have "given (dlm m r') \<in> {3, 4, 5}" using le by auto
    then show False using dlm ex by (auto simp: dlm_modes_compat_def matrix_at_def dlm_compat_matrix_def)
  qed
  then show ?thesis using covered_given[OF reached_res[OF assms(2,4)]] by fastforce
qed

theorem ocfs2_nodes_exclude_witness:
  "\<exists>n x. run_events False take_ex sample_node = Some n \<and> os_res (osb n) 0 = Some x \<and> l_ex_holders x = 1 \<and> l_ex_holders sample_res = 0 \<and> l_ro_holders sample_res = 0"
proof -
  have "case run_events False take_ex sample_node of None \<Rightarrow> False
     | Some n \<Rightarrow> (case os_res (osb n) 0 of None \<Rightarrow> False | Some x \<Rightarrow> l_ex_holders x = 1 \<and> given (dlm n 0) = 5)" by code_simp
  then obtain n x where r: "run_events False take_ex sample_node = Some n" "os_res (osb n) 0 = Some x" "l_ex_holders x = 1"
      "given (dlm n 0) = 5"
    by (auto split: option.splits)
  have "ocfs2_reached sample_node" by (rule sample_reached[of "[]"]) simp
  then have "l_ex_holders sample_res = 0 \<and> l_ro_holders sample_res = 0"
    using ocfs2_nodes_exclude[OF sample_reached[OF r(1)] _ r(2), of sample_node 0 sample_res] r
    by (simp add: sample_node_def dlm_modes_compat_def matrix_at_def dlm_compat_matrix_def)
  then show ?thesis using r by blast
qed

section \<open>No process hits a BUG\<close>



text \<open>C30: the fields of a lock resource stay within their types: the level is a mode of the lock manager, and
  none only while the lock is not attached; a blocked lock is blocked by \<open>PR\<close> or \<open>EX\<close>, a busy one has an action
  and asks for a mode from \<open>NL\<close> to \<open>EX\<close>; and what the lock manager has granted is a mode.\<close>

theorem ocfs2_state_typed:
  assumes "ocfs2_reached n" "os_res (osb n) r = Some x"
  shows "l_level x \<in> {DLM_LOCK_IV .. DLM_LOCK_EX} \<and> (l_level x = DLM_LOCK_IV \<longleftrightarrow> \<not> res_flag OCFS2_LOCK_ATTACHED x) \<and>
    given (dlm n r) \<in> {DLM_LOCK_IV .. DLM_LOCK_EX} \<and>
    (if res_flag OCFS2_LOCK_BLOCKED x then l_blocking x \<in> {DLM_LOCK_PR, DLM_LOCK_EX} \<and> res_flag OCFS2_LOCK_ATTACHED x
     else l_blocking x \<in> {DLM_LOCK_IV, DLM_LOCK_NL}) \<and>
    (res_flag OCFS2_LOCK_BUSY x \<longrightarrow> l_action x \<noteq> OCFS2_AST_INVALID \<and> l_requested x \<in> {DLM_LOCK_NL .. DLM_LOCK_EX})"
proof -
  note ok = reached_res[OF assms]
  note x = res_okD(1)[OF ok]
  have l: "l_level x \<in> {DLM_LOCK_IV .. DLM_LOCK_EX} \<and> (l_level x = DLM_LOCK_IV \<longleftrightarrow> \<not> res_flag OCFS2_LOCK_ATTACHED x)"
    using rec_okD(2)[OF x] by (auto simp: level_ok_def split: if_splits)
  have b: "res_flag OCFS2_LOCK_BUSY x \<Longrightarrow> l_action x \<noteq> OCFS2_AST_INVALID \<and> l_requested x \<in> {DLM_LOCK_NL .. DLM_LOCK_EX}"
    using rec_okD(4)[OF x] by (simp add: busy_ok_def)
  have "given (dlm n r) \<in> {DLM_LOCK_IV .. DLM_LOCK_EX}"
    using res_okD(2)[OF ok] l b by (cases "request (dlm n r)") (auto simp: side_ok_def min_def)
  then show ?thesis
    using l b rec_okD(3)[OF x] blocked_attached[OF x] by (simp add: block_ok_def lock_level_def split: if_splits)
qed

theorem ocfs2_state_typed_witness:
  "\<exists>n x. run_events False block_ex sample_node = Some n \<and> os_res (osb n) 0 = Some x \<and> res_flag OCFS2_LOCK_BLOCKED x \<and>
     res_flag OCFS2_LOCK_ATTACHED x"
proof -
  have "case run_events False block_ex sample_node of None \<Rightarrow> False
     | Some n \<Rightarrow> (case os_res (osb n) 0 of None \<Rightarrow> False | Some x \<Rightarrow> res_flag OCFS2_LOCK_BLOCKED x)" by code_simp
  then obtain n x where r: "run_events False block_ex sample_node = Some n" "os_res (osb n) 0 = Some x" "res_flag OCFS2_LOCK_BLOCKED x"
    by (auto split: option.splits)
  then show ?thesis using ocfs2_state_typed[OF sample_reached[OF r(1)] r(2)] by auto
qed

section \<open>Cancels, blocked locks, sleepers\<close>

text \<open>C29: as long as a process has announced a request and has not called the lock manager, \<open>PENDING\<close> is set
  and no other process is at that place. The downconvert thread, finding the lock busy, does not cancel
  then: it leaves the lock as it is and comes back.\<close>

theorem ocfs2_pending_until_called:
  assumes "ocfs2_reached n" "pcs n t = Dlm_call a gen"
  shows "\<exists>x. os_res (osb n) (asker_res a) = Some x \<and> res_flag OCFS2_LOCK_BUSY x \<and> res_flag OCFS2_LOCK_PENDING x \<and>
    l_pending_gen x = gen \<and> request (dlm n (asker_res a)) = None \<and>
    unblock_busy (asker_res a) ctl (osb n) = Some (Unblock_leave (ctl\<lparr>requeue := True\<rparr>), osb n)"
proof -
  obtain x where x: "os_res (osb n) (asker_res a) = Some x"
    using node_okD(2)[OF reached_ok[OF assms(1)], of t "asker_res a"] assms(2) by auto
  have "task_ok (asker_res a) x (dlm n (asker_res a)) (Dlm_call a gen)"
    using res_okD(4)[OF reached_res[OF assms(1) x], of t] assms(2) by simp
  then show ?thesis using x by (simp add: task_ok_def unblock_busy_def leave_requeue_def)
qed

theorem ocfs2_pending_until_called_witness:
  "\<exists>n x. run_events False ask_ex sample_node = Some n \<and> os_res (osb n) 0 = Some x \<and> res_flag OCFS2_LOCK_PENDING x"
proof -
  have "case run_events False ask_ex sample_node of None \<Rightarrow> False
     | Some n \<Rightarrow> (case pcs n 1 of Dlm_call a gen \<Rightarrow> asker_res a = 0 | _ \<Rightarrow> False)" by code_simp
  then obtain n a gen where r: "run_events False ask_ex sample_node = Some n" "pcs n 1 = Dlm_call a gen" "asker_res a = 0"
    by (auto split: option.splits pc.splits)
  then show ?thesis using ocfs2_pending_until_called[OF sample_reached[OF r(1)] r(2), of ctl0] by auto
qed

text \<open>Who will see to a blocked lock: it is on the list, the thread has it in hand and will look at it again or is
  calling the lock manager, or a downconvert that is enough has been asked for.\<close>

definition seen_to :: "node \<Rightarrow> rp \<Rightarrow> ocfs2_lock_res \<Rightarrow> bool" where
  "seen_to n r x \<longleftrightarrow> r \<in> set (blocked_lock_list (osb n)) \<or> in_hand r (pcs n 0) \<or> in_call r (pcs n 0) \<or>
     (\<exists>rq. request (dlm n r) = Some rq \<and> rq_mode rq \<le> ocfs2_highest_compat_lock_level (l_blocking x))"

lemma blocked_seen_to:
  assumes "ocfs2_reached n" "os_res (osb n) r = Some x" "res_flag OCFS2_LOCK_BLOCKED x" shows "seen_to n r x"
  using res_okD(2,6)[OF reached_res[OF assms(1,2)]] assms(3) by (auto simp: seen_to_def side_ok_def kept_ok_def)

text \<open>C9: a lock that another node waits for is not forgotten. While \<open>BLOCKED\<close> is set, a blocking callback the
  other node relies on is still being acted upon, however callbacks, cancels, refusals and new requests of this
  node are interleaved.\<close>

theorem ocfs2_blocked_attended:
  assumes "ocfs2_reached n" "os_res (osb n) r = Some x" "res_flag OCFS2_LOCK_BLOCKED x"
  shows "seen_to n r x"
  by (rule blocked_seen_to[OF assms])

theorem ocfs2_blocked_attended_witness:
  "\<exists>n x. run_events False block_ex sample_node = Some n \<and> os_res (osb n) 0 = Some x \<and> seen_to n 0 x"
proof -
  have "case run_events False block_ex sample_node of None \<Rightarrow> False
     | Some n \<Rightarrow> (case os_res (osb n) 0 of None \<Rightarrow> False | Some x \<Rightarrow> res_flag OCFS2_LOCK_BLOCKED x)" by code_simp
  then obtain n x where r: "run_events False block_ex sample_node = Some n" "os_res (osb n) 0 = Some x" "res_flag OCFS2_LOCK_BLOCKED x"
    by (auto split: option.splits)
  then show ?thesis using ocfs2_blocked_attended[OF sample_reached[OF r(1)] r(2,3)] by blast
qed

text \<open>C8: a process that sleeps in \<open>__ocfs2_cluster_lock\<close> does not miss its wakeup. Either it has been completed,
  or it is on the list of its lock, waits for \<open>BUSY\<close> or \<open>BLOCKED\<close> to be cleared, and that flag is set; and
  somebody is to clear it: the lock manager has a request of this node or a process is about to make
  or to give up one, or the blocked lock is seen to.\<close>

theorem ocfs2_sleeper_woken:
  assumes "ocfs2_reached n" "pcs n t = Out c" "\<not> nonblock c"
  shows "mw_complete (os_mws (osb n) t) = 1 \<or>
    (\<exists>x fl. os_res (osb n) (lc_res c) = Some x \<and> t \<in> set (l_mask_waiters x) \<and> mw_mask (os_mws (osb n) t) = {fl} \<and>
       mw_goal (os_mws (osb n) t) = {} \<and> res_flag fl x \<and>
       (fl = OCFS2_LOCK_BUSY \<and> (request (dlm n (lc_res c)) \<noteq> None \<or> (\<exists>t'. owns (lc_res c) (pcs n t'))) \<or>
        fl = OCFS2_LOCK_BLOCKED \<and> seen_to n (lc_res c) x))"
proof -
  note ok = reached_ok[OF assms(1)]
  let ?m = "os_mws (osb n) t"
  have tw: "out_mw c ?m" "mw_item ?m \<Longrightarrow> \<exists>x. os_res (osb n) (lc_res c) = Some x \<and> t \<in> set (l_mask_waiters x)"
    using node_okD(4)[OF ok] assms(2) unfolding sleeps_ok_def task_waits_def by force+
  show ?thesis
  proof (cases "mw_item ?m")
    case False
    then show ?thesis using tw(1) assms(3) by (simp add: out_mw_def)
  next
    case True
    then obtain x where x: "os_res (osb n) (lc_res c) = Some x" "t \<in> set (l_mask_waiters x)" using tw(2) by blast
    obtain fl where fl: "fl \<in> {OCFS2_LOCK_BUSY, OCFS2_LOCK_BLOCKED}" "mw_mask ?m = {fl}" "mw_goal ?m = {}"
      using tw(1) True unfolding out_mw_def by auto
    have "t \<in> unreached (osb n) x"
      using node_okD(4)[OF ok] x by (auto simp: sleeps_ok_def list_waits_def)
    then have s: "res_flag fl x" using fl by (simp add: unreached_def mw_reached_def res_flag_def)
    have "fl = OCFS2_LOCK_BUSY \<and> (request (dlm n (lc_res c)) \<noteq> None \<or> (\<exists>t'. owns (lc_res c) (pcs n t'))) \<or>
        fl = OCFS2_LOCK_BLOCKED \<and> seen_to n (lc_res c) x"
    proof (cases "fl = OCFS2_LOCK_BUSY")
      case True
      then show ?thesis using res_okD(5)[OF reached_res[OF assms(1) x(1)]] s by (auto simp: owners_ok_def)
    next
      case False
      then show ?thesis using fl(1) s blocked_seen_to[OF assms(1) x(1)] by blast
    qed
    then show ?thesis using x fl s by blast
  qed
qed

theorem ocfs2_sleeper_woken_witness:
  "\<exists>n. run_events False wait_ex sample_node = Some n \<and> mw_complete (os_mws (osb n) 2) = 0 \<and>
     (request (dlm n 0) \<noteq> None \<or> (\<exists>t. owns 0 (pcs n t)) \<or> (\<exists>x. seen_to n 0 x))"
proof -
  have "case run_events False wait_ex sample_node of None \<Rightarrow> False
     | Some n \<Rightarrow> mw_complete (os_mws (osb n) 2) = 0 \<and>
         (case pcs n 2 of Out c \<Rightarrow> \<not> nonblock c \<and> lc_res c = 0 | _ \<Rightarrow> False)" by code_simp
  then obtain n c where r: "run_events False wait_ex sample_node = Some n" "pcs n 2 = Out c" "\<not> nonblock c"
      "lc_res c = 0" "mw_complete (os_mws (osb n) 2) = 0"
    by (auto split: option.splits pc.splits)
  then show ?thesis using ocfs2_sleeper_woken[OF sample_reached[OF r(1)] r(2,3)] by auto
qed

section \<open>Where it breaks\<close>




end
