(* ===== verification/Ocfs2_Stack.thy ===== *)
theory Ocfs2_Stack
  imports Ocfs2_Lock Master
begin

text \<open>
  The way from OCFS2 to the lock manager: the stack glue (\<open>stackglue.c\<close>), which calls the operations of the
  cluster stack in use, and the two stacks. \<open>stack_user.c\<close> calls \<open>dlm_lock\<close> and \<open>dlm_unlock\<close> of this
  repository. \<open>stack_o2cb.c\<close> calls the lock manager of OCFS2 itself, whose sources are not here: its calls
  are parameters, and its flags and results are known by their names.
\<close>

abbreviation (input) DLM_LKF_TIMEOUT :: u32 where "DLM_LKF_TIMEOUT \<equiv> 0x40000"
abbreviation (input) DLM_LKF_LOCAL :: u32 where "DLM_LKF_LOCAL \<equiv> 0x100000"

section \<open>The glue\<close>

text \<open>Of the operations of a stack: those that reach the lock manager. What a call does is a value of type
  \<open>'a\<close>, \<open>None\<close> for an operation the stack does not have.\<close>

type_synonym connp = nat

record 'a ocfs2_stack_operations =
  sp_dlm_lock :: "(connp \<Rightarrow> int \<Rightarrow> lksbp \<Rightarrow> u32 \<Rightarrow> u8 list \<Rightarrow> nat \<Rightarrow> 'a) option"
  sp_dlm_lock_notify :: "(connp \<Rightarrow> int \<Rightarrow> lksbp \<Rightarrow> u32 \<Rightarrow> u8 list \<Rightarrow> nat \<Rightarrow> u32 \<Rightarrow> 'a) option"
  sp_dlm_unlock :: "(connp \<Rightarrow> lksbp \<Rightarrow> u32 \<Rightarrow> 'a) option"

text \<open>\<open>lksb_conn\<close> of the lock status blocks.\<close>

type_synonym conns = "lksbp \<Rightarrow> connp option"

definition set_conn :: "connp \<Rightarrow> lksbp \<Rightarrow> conns \<Rightarrow> conns option" where
  "set_conn conn p cs = (case cs p of None \<Rightarrow> Some (cs(p \<mapsto> conn)) | Some c \<Rightarrow> if c \<noteq> conn then None else Some cs)"

definition ocfs2_dlm_lock ::
  "'a ocfs2_stack_operations \<Rightarrow> connp \<Rightarrow> int \<Rightarrow> lksbp \<Rightarrow> u32 \<Rightarrow> u8 list \<Rightarrow> nat \<Rightarrow> conns \<Rightarrow> ('a \<times> conns) option" where
  "ocfs2_dlm_lock sp_ops conn mode p flags name namelen cs = do {
     cs \<leftarrow> set_conn conn p cs;
     f \<leftarrow> sp_dlm_lock sp_ops;
     Some (f conn mode p flags name namelen, cs)
   }"

definition ocfs2_dlm_lock_notify ::
  "'a ocfs2_stack_operations \<Rightarrow> connp \<Rightarrow> int \<Rightarrow> lksbp \<Rightarrow> u32 \<Rightarrow> u8 list \<Rightarrow> nat \<Rightarrow> u32 \<Rightarrow> conns \<Rightarrow> ('a \<times> conns) option" where
  "ocfs2_dlm_lock_notify sp_ops conn mode p flags name namelen parent_lkid cs = do {
     cs \<leftarrow> set_conn conn p cs;
     f \<leftarrow> sp_dlm_lock_notify sp_ops;
     Some (f conn mode p flags name namelen parent_lkid, cs)
   }"

definition ocfs2_dlm_unlock ::
  "'a ocfs2_stack_operations \<Rightarrow> connp \<Rightarrow> lksbp \<Rightarrow> u32 \<Rightarrow> conns \<Rightarrow> ('a \<times> conns) option" where
  "ocfs2_dlm_unlock sp_ops conn p flags cs = do {
     _ \<leftarrow> dlm_assert (cs p \<noteq> None);
     f \<leftarrow> sp_dlm_unlock sp_ops;
     Some (f conn p flags, cs)
   }"

section \<open>The user stack\<close>

text \<open>\<open>lvb_of p\<close>: the address behind the \<open>struct dlm_lksb\<close> at \<open>p\<close>, where the value block of the union
  \<open>ocfs2_dlm_lksb\<close> is. \<open>ast\<close> and \<open>bast\<close>: the addresses of the two wrappers.\<close>

definition set_lvbptr_of :: "(lksbp \<Rightarrow> bufp) \<Rightarrow> lksbp \<Rightarrow> dlm_ls \<Rightarrow> dlm_ls" where
  "set_lvbptr_of lvb_of p s = (if sb_lvbptr (ls_lksbs s p) = None
     then s\<lparr>ls_lksbs := (ls_lksbs s)(p := (ls_lksbs s p)\<lparr>sb_lvbptr := Some (lvb_of p)\<rparr>)\<rparr> else s)"

definition user_dlm_lock ::
  "dlm_env \<Rightarrow> (lksbp \<Rightarrow> bufp) \<Rightarrow> fnptr \<Rightarrow> fnptr \<Rightarrow> int \<Rightarrow> lksbp \<Rightarrow> u32 \<Rightarrow> u8 list \<Rightarrow> nat \<Rightarrow> dlm_ls \<Rightarrow> (int \<times> dlm_ls) option"
where
  "user_dlm_lock env lvb_of ast bast mode p flags name namelen s =
     dlm_lock env mode (Some p) (flags OR DLM_LKF_NODLCKWT) name namelen 0 (Some ast) p (Some bast) (set_lvbptr_of lvb_of p s)"

definition user_dlm_lock_notify ::
  "dlm_env \<Rightarrow> (lksbp \<Rightarrow> bufp) \<Rightarrow> fnptr \<Rightarrow> fnptr \<Rightarrow> int \<Rightarrow> lksbp \<Rightarrow> u32 \<Rightarrow> u8 list \<Rightarrow> nat \<Rightarrow> u32 \<Rightarrow> dlm_ls \<Rightarrow> (int \<times> dlm_ls) option"
where
  "user_dlm_lock_notify env lvb_of ast bast mode p flags name namelen parent_lkid s =
     dlm_lock env mode (Some p) (flags OR DLM_LKF_NODLCKWT) name namelen parent_lkid (Some ast) p (Some bast) (set_lvbptr_of lvb_of p s)"

definition user_dlm_unlock :: "dlm_env \<Rightarrow> lksbp \<Rightarrow> u32 \<Rightarrow> dlm_ls \<Rightarrow> (int \<times> dlm_ls) option" where
  "user_dlm_unlock env p flags s = dlm_unlock env (sb_lkid (ls_lksbs s p)) flags p s"

definition user_dlm_lock_status :: "lksbp \<Rightarrow> dlm_ls \<Rightarrow> int" where
  "user_dlm_lock_status p s = sb_status (ls_lksbs s p)"

definition user_dlm_lvb_valid :: "lksbp \<Rightarrow> dlm_ls \<Rightarrow> bool" where
  "user_dlm_lvb_valid p s \<longleftrightarrow> \<not> has_flag (sb_flags (ls_lksbs s p)) DLM_SBF_VALNOTVALID"

definition user_dlm_lvb :: "(lksbp \<Rightarrow> bufp) \<Rightarrow> lksbp \<Rightarrow> dlm_ls \<Rightarrow> bufp option \<times> dlm_ls" where
  "user_dlm_lvb lvb_of p s = (let s = set_lvbptr_of lvb_of p s in (sb_lvbptr (ls_lksbs s p), s))"

definition ocfs2_user_plugin_ops ::
  "dlm_env \<Rightarrow> (lksbp \<Rightarrow> bufp) \<Rightarrow> fnptr \<Rightarrow> fnptr \<Rightarrow> (dlm_ls \<Rightarrow> (int \<times> dlm_ls) option) ocfs2_stack_operations" where
  "ocfs2_user_plugin_ops env lvb_of ast bast =
     \<lparr>sp_dlm_lock = Some (\<lambda>conn. user_dlm_lock env lvb_of ast bast),
      sp_dlm_lock_notify = Some (\<lambda>conn. user_dlm_lock_notify env lvb_of ast bast),
      sp_dlm_unlock = Some (\<lambda>conn. user_dlm_unlock env)\<rparr>"

section \<open>The o2cb stack\<close>

datatype lkm_flag =
    LKM_NOQUEUE | LKM_CANCEL | LKM_CONVERT | LKM_VALBLK | LKM_INVVALBLK | LKM_ORPHAN | LKM_FORCE | LKM_TIMEOUT | LKM_LOCAL

datatype dlm_status =
    DLM_NORMAL | DLM_GRANTED | DLM_DENIED | DLM_DENIED_NOLOCKS | DLM_WORKING | DLM_BLOCKED | DLM_BLOCKED_ORPHAN
  | DLM_DENIED_GRACE_PERIOD | DLM_SYSERR | DLM_NOSUPPORT | DLM_CANCELGRANT | DLM_IVLOCKID | DLM_SYNC | DLM_BADTYPE
  | DLM_BADRESOURCE | DLM_MAXHANDLES | DLM_NOCLINFO | DLM_NOLOCKMGR | DLM_NOPURGED | DLM_BADARGS | DLM_VOID
  | DLM_NOTQUEUED | DLM_IVBUFLEN | DLM_CVTUNGRANT | DLM_BADPARAM | DLM_VALNOTVALID | DLM_REJECTED | DLM_ABORT
  | DLM_CANCEL | DLM_IVRESHANDLE | DLM_DEADLOCK | DLM_DENIED_NOASTS | DLM_FORWARD | DLM_TIMEOUT | DLM_IVGROUPID
  | DLM_VERS_CONFLICT | DLM_BAD_DEVICE_PATH | DLM_NO_DEVICE_PERMISSION | DLM_NO_CONTROL_DEVICE | DLM_RECOVERING
  | DLM_MIGRATING | DLM_MAXSTATS

definition mode_to_o2dlm :: "int \<Rightarrow> int \<Rightarrow> int option" where
  "mode_to_o2dlm LKM_MAXMODE mode = (if mode > LKM_MAXMODE then None else Some mode)"

definition flags_to_o2dlm :: "u32 \<Rightarrow> lkm_flag set" where
  "flags_to_o2dlm flags =
     (if has_flag flags DLM_LKF_NOQUEUE then {LKM_NOQUEUE} else {}) \<union>
     (if has_flag flags DLM_LKF_CANCEL then {LKM_CANCEL} else {}) \<union>
     (if has_flag flags DLM_LKF_CONVERT then {LKM_CONVERT} else {}) \<union>
     (if has_flag flags DLM_LKF_VALBLK then {LKM_VALBLK} else {}) \<union>
     (if has_flag flags DLM_LKF_IVVALBLK then {LKM_INVVALBLK} else {}) \<union>
     (if has_flag flags DLM_LKF_ORPHAN then {LKM_ORPHAN} else {}) \<union>
     (if has_flag flags DLM_LKF_FORCEUNLOCK then {LKM_FORCE} else {}) \<union>
     (if has_flag flags DLM_LKF_TIMEOUT then {LKM_TIMEOUT} else {}) \<union>
     (if has_flag flags DLM_LKF_LOCAL then {LKM_LOCAL} else {})"

fun dlm_status_to_errno :: "dlm_status \<Rightarrow> int" where
  "dlm_status_to_errno DLM_NORMAL = 0"
| "dlm_status_to_errno DLM_DENIED = -EACCES"
| "dlm_status_to_errno DLM_DENIED_NOLOCKS = -EACCES"
| "dlm_status_to_errno DLM_WORKING = -EACCES"
| "dlm_status_to_errno DLM_DENIED_GRACE_PERIOD = -EACCES"
| "dlm_status_to_errno DLM_SYSERR = -ENOMEM"
| "dlm_status_to_errno DLM_NOSUPPORT = -EPROTO"
| "dlm_status_to_errno DLM_CANCELGRANT = -EBUSY"
| "dlm_status_to_errno DLM_MAXHANDLES = -ENOMEM"
| "dlm_status_to_errno DLM_NOTQUEUED = -EAGAIN"
| "dlm_status_to_errno DLM_CVTUNGRANT = -EPERM"
| "dlm_status_to_errno DLM_REJECTED = -EPERM"
| "dlm_status_to_errno DLM_CANCEL = -DLM_ECANCEL"
| "dlm_status_to_errno DLM_DEADLOCK = -EDEADLK"
| "dlm_status_to_errno DLM_TIMEOUT = -ETIMEDOUT"
| "dlm_status_to_errno DLM_VERS_CONFLICT = -EOPNOTSUPP"
| "dlm_status_to_errno DLM_BAD_DEVICE_PATH = -ENOENT"
| "dlm_status_to_errno DLM_NO_DEVICE_PERMISSION = -EPERM"
| "dlm_status_to_errno DLM_NO_CONTROL_DEVICE = -ENOENT"
| "dlm_status_to_errno DLM_RECOVERING = -ENOTCONN"
| "dlm_status_to_errno DLM_MIGRATING = -ERESTART"
| "dlm_status_to_errno _ = -EINVAL"

text \<open>The calls of the lock manager, \<open>dlmlock\<close> and \<open>dlmunlock\<close>, and its highest mode \<open>LKM_MAXMODE\<close> are
  parameters.\<close>

definition o2cb_dlm_lock ::
  "int \<Rightarrow> (connp \<Rightarrow> int \<Rightarrow> lksbp \<Rightarrow> lkm_flag set \<Rightarrow> u8 list \<Rightarrow> nat \<Rightarrow> dlm_status) \<Rightarrow>
   connp \<Rightarrow> int \<Rightarrow> lksbp \<Rightarrow> u32 \<Rightarrow> u8 list \<Rightarrow> nat \<Rightarrow> int option" where
  "o2cb_dlm_lock LKM_MAXMODE dlmlock conn mode p flags name namelen = do {
     mode \<leftarrow> mode_to_o2dlm LKM_MAXMODE mode;
     Some (dlm_status_to_errno (dlmlock conn mode p (flags_to_o2dlm flags) name namelen))
   }"

definition o2cb_dlm_unlock ::
  "(connp \<Rightarrow> lksbp \<Rightarrow> lkm_flag set \<Rightarrow> dlm_status) \<Rightarrow> connp \<Rightarrow> lksbp \<Rightarrow> u32 \<Rightarrow> int option" where
  "o2cb_dlm_unlock dlmunlock conn p flags = Some (dlm_status_to_errno (dlmunlock conn p (flags_to_o2dlm flags)))"

text \<open>The callbacks: for a cancel, the error \<open>ocfs2_unlock_ast\<close> is called with, if it is.\<close>

definition o2dlm_unlock_ast_wrapper :: "dlm_status \<Rightarrow> rp \<Rightarrow> ocfs2_super \<Rightarrow> ocfs2_super option" where
  "o2dlm_unlock_ast_wrapper status r s =
     (if status = DLM_CANCELGRANT then Some s else ocfs2_unlock_ast r (dlm_status_to_errno status) s)"

definition o2cb_stack_ops ::
  "int \<Rightarrow> (connp \<Rightarrow> int \<Rightarrow> lksbp \<Rightarrow> lkm_flag set \<Rightarrow> u8 list \<Rightarrow> nat \<Rightarrow> dlm_status) \<Rightarrow>
   (connp \<Rightarrow> lksbp \<Rightarrow> lkm_flag set \<Rightarrow> dlm_status) \<Rightarrow> int option ocfs2_stack_operations" where
  "o2cb_stack_ops LKM_MAXMODE dlmlock dlmunlock =
     \<lparr>sp_dlm_lock = Some (o2cb_dlm_lock LKM_MAXMODE dlmlock), sp_dlm_lock_notify = None, sp_dlm_unlock = Some (o2cb_dlm_unlock dlmunlock)\<rparr>"

section \<open>What the lock manager makes of it\<close>

text \<open>A conversion that would be a deadlock leaves the state as it is.\<close>

lemma deadlock_unchanged: "can_be_granted r k now recover True s = Some (rv, e, s') \<Longrightarrow> e \<noteq> 0 \<Longrightarrow> s' = s \<and> \<not> rv"
  by (auto simp: can_be_granted_def split: if_splits Option.bind_splits)

lemma do_convert_no_deadlock:
  assumes l: "ls_lkbidr s k = Some l" "has_flag (lkb_exflags l) DLM_LKF_NODLCKWT" and e: "do_convert env r k s = Some (e, s')"
  shows "e = 0 \<or> e = -EINPROGRESS \<or> e = -EAGAIN"
proof -
  obtain rv d s1 where c: "can_be_granted r k True False True s = Some (rv, d, s1)"
    using e unfolding do_convert_def by (auto split: Option.bind_splits)
  have d: "s1 = s" if "d \<noteq> 0" using deadlock_unchanged[OF c] that by blast
  show ?thesis
  proof (cases "d = 0")
    case True
    then show ?thesis using e c by (auto simp: do_convert_def split: if_splits Option.bind_splits)
  next
    case False
    then show ?thesis using e c l d[OF False] by (auto simp: do_convert_def split: if_splits Option.bind_splits)
  qed
qed

end
