(* ===== verification/Ocfs2_Stack_Properties.thy ===== *)
theory Ocfs2_Stack_Properties
  imports Ocfs2_Stack Locking_Properties Call_Properties
begin

text \<open>
  OCFS2 on top of the lock manager of this repository: which requests it makes, and what the lock manager
  answers them. And the two promises of the stack of OCFS2's own lock manager: its table of errors, and the
  operation it does not have.
\<close>

section \<open>Requests\<close>









section \<open>The other lock manager\<close>

text \<open>The promise of the comment at \<open>status_map\<close>: the four values \<open>dlmglue.c\<close> looks at stand for one status each.\<close>

lemma status_unique:
  "dlm_status_to_errno st = 0 \<longleftrightarrow> st = DLM_NORMAL"
  "dlm_status_to_errno st = -EAGAIN \<longleftrightarrow> st = DLM_NOTQUEUED"
  "dlm_status_to_errno st = -EBUSY \<longleftrightarrow> st = DLM_CANCELGRANT"
  "dlm_status_to_errno st = -DLM_ECANCEL \<longleftrightarrow> st = DLM_CANCEL"
  by (cases st; simp)+

text \<open>A request with notification calls an operation that this stack does not have: a jump to the address 0.\<close>

lemma notify_not_there:
  "ocfs2_dlm_lock_notify (o2cb_stack_ops maxmode dlmlock dlmunlock) conn mode p flags name namelen parent cs = None"
  by (cases "set_conn conn p cs") (simp_all add: ocfs2_dlm_lock_notify_def o2cb_stack_ops_def)

end
