(* ===== verification/Ocfs2_Lvb.thy ===== *)
theory Ocfs2_Lvb
  imports Ocfs2_Types
begin

text \<open>
  What OCFS2 keeps in the value blocks of its locks (\<open>dlmglue.c\<close>, \<open>dlmglue.h\<close>): the attributes of an inode, the
  quota of a group of users, the sequence number of the orphan scan and the result of the last trimming. A value
  block is a list of bytes, a field of its structures a range of them, numbers are stored with the highest byte first.
\<close>

section \<open>Fields\<close>

definition cpu_to_be :: "nat \<Rightarrow> 'a::len word \<Rightarrow> u8 list" where
  "cpu_to_be n w = map (\<lambda>i. ucast (drop_bit (8 * i) w)) (rev [0..<n])"

definition be_to_cpu :: "u8 list \<Rightarrow> 'a::len word" where
  "be_to_cpu bs = foldl (\<lambda>w b. push_bit 8 w OR ucast b) 0 bs"

definition put :: "nat \<Rightarrow> u8 list \<Rightarrow> u8 list \<Rightarrow> u8 list" where
  "put off bs lvb = map (\<lambda>i. if off \<le> i \<and> i < off + length bs then bs ! (i - off) else lvb ! i) [0..<length lvb]"

definition field :: "nat \<Rightarrow> nat \<Rightarrow> u8 list \<Rightarrow> u8 list" where
  "field off n lvb = take n (drop off lvb)"

lemma length_cpu_to_be [simp]: "length (cpu_to_be n w) = n"
  by (simp add: cpu_to_be_def)

lemma length_put [simp]: "length (put off bs lvb) = length lvb"
  by (simp add: put_def)

lemma length_field: "length (field off n lvb) = min n (length lvb - off)"
  by (simp add: field_def)

lemma field_put: "off + length bs \<le> length lvb \<Longrightarrow> n = length bs \<Longrightarrow> field off n (put off bs lvb) = bs"
  by (rule nth_equalityI) (auto simp: length_field put_def field_def)

lemma field_put_other: "o' + n \<le> off \<or> off + length bs \<le> o' \<Longrightarrow> field o' n (put off bs lvb) = field o' n lvb"
  by (rule nth_equalityI) (auto simp: length_field put_def field_def)

lemma be_to_cpu_snoc: "be_to_cpu (bs @ [b]) = push_bit 8 (be_to_cpu bs) OR ucast b"
  by (simp add: be_to_cpu_def)

lemma cpu_to_be_Suc: "cpu_to_be (Suc n) w = cpu_to_be n (drop_bit 8 w) @ [ucast w]"
  by (simp add: cpu_to_be_def upt_conv_Cons map_Suc_upt[symmetric] rev_map ac_simps del: upt_Suc)

lemma be_take: "be_to_cpu (cpu_to_be n w) = (take_bit (8 * n) w :: 'a::len word)"
proof (induction n arbitrary: w)
  case 0
  show ?case by (simp add: cpu_to_be_def be_to_cpu_def)
next
  case (Suc n)
  have "push_bit 8 (take_bit (8 * n) (drop_bit 8 w)) OR ucast (ucast w :: u8) = take_bit (8 * Suc n) w"
    by (rule bit_word_eqI)
      (auto simp: bit_or_iff bit_push_bit_iff bit_take_bit_iff bit_drop_bit_eq bit_unsigned_iff possible_bit_word)
  then show ?case unfolding cpu_to_be_Suc be_to_cpu_snoc Suc.IH .
qed

lemma be_round_trip [simp]:
  "be_to_cpu (cpu_to_be 1 (x :: u8)) = x" "be_to_cpu (cpu_to_be 2 (h :: u16)) = h"
  "be_to_cpu (cpu_to_be 4 (w :: u32)) = w" "be_to_cpu (cpu_to_be 8 (d :: u64)) = d"
  unfolding be_take by (simp_all add: take_bit_word_eq_self)

text \<open>Writing and reading fields one after the other.\<close>

lemmas fields = field_put field_put_other

section \<open>The attributes of an inode\<close>

text \<open>\<open>struct ocfs2_meta_lvb\<close>, 64 bytes. The two reserved fields are left as they are.\<close>

definition lvb_version :: "u8 list \<Rightarrow> u8" where "lvb_version lvb = be_to_cpu (field 0 1 lvb)"
definition lvb_idynfeatures :: "u8 list \<Rightarrow> u16" where "lvb_idynfeatures lvb = be_to_cpu (field 2 2 lvb)"
definition lvb_iclusters :: "u8 list \<Rightarrow> u32" where "lvb_iclusters lvb = be_to_cpu (field 4 4 lvb)"
definition lvb_iuid :: "u8 list \<Rightarrow> u32" where "lvb_iuid lvb = be_to_cpu (field 8 4 lvb)"
definition lvb_igid :: "u8 list \<Rightarrow> u32" where "lvb_igid lvb = be_to_cpu (field 12 4 lvb)"
definition lvb_iatime_packed :: "u8 list \<Rightarrow> u64" where "lvb_iatime_packed lvb = be_to_cpu (field 16 8 lvb)"
definition lvb_ictime_packed :: "u8 list \<Rightarrow> u64" where "lvb_ictime_packed lvb = be_to_cpu (field 24 8 lvb)"
definition lvb_imtime_packed :: "u8 list \<Rightarrow> u64" where "lvb_imtime_packed lvb = be_to_cpu (field 32 8 lvb)"
definition lvb_isize :: "u8 list \<Rightarrow> u64" where "lvb_isize lvb = be_to_cpu (field 40 8 lvb)"
definition lvb_imode :: "u8 list \<Rightarrow> u16" where "lvb_imode lvb = be_to_cpu (field 48 2 lvb)"
definition lvb_inlink :: "u8 list \<Rightarrow> u16" where "lvb_inlink lvb = be_to_cpu (field 50 2 lvb)"
definition lvb_iattr :: "u8 list \<Rightarrow> u32" where "lvb_iattr lvb = be_to_cpu (field 52 4 lvb)"
definition lvb_igeneration :: "u8 list \<Rightarrow> u32" where "lvb_igeneration lvb = be_to_cpu (field 56 4 lvb)"

lemmas meta_lvb_defs =
  lvb_version_def lvb_idynfeatures_def lvb_iclusters_def lvb_iuid_def lvb_igid_def lvb_iatime_packed_def lvb_ictime_packed_def lvb_imtime_packed_def lvb_isize_def lvb_imode_def lvb_inlink_def lvb_iattr_def lvb_igeneration_def

abbreviation (input) OCFS2_LVB_VERSION :: u8 where "OCFS2_LVB_VERSION \<equiv> 5"
abbreviation (input) OCFS2_SEC_SHIFT :: nat where "OCFS2_SEC_SHIFT \<equiv> 30"
abbreviation (input) OCFS2_NSEC_MASK :: u64 where "OCFS2_NSEC_MASK \<equiv> 0x3fffffff"

datatype inode_flag = OCFS2_INODE_DELETED | OCFS2_INODE_MAYBE_ORPHANED

text \<open>A time: seconds, a signed number, and nanoseconds. Of an inode: its lock resources, whether it is being
  set up (\<open>I_NEW\<close>), what its value block holds, and what is refreshed with it.\<close>

record timespec64 =
  tv_sec :: u64
  tv_nsec :: u64

record ocfs2_inode =
  ip_inode_lockres :: rp
  ip_rw_lockres :: rp
  ip_open_lockres :: rp
  i_new :: bool
  ip_flags :: "inode_flag set"
  ip_clusters :: u32
  ip_attr :: u32
  ip_dyn_features :: u16
  i_size :: u64
  i_uid :: u32
  i_gid :: u32
  i_mode :: u16
  i_nlink :: u32
  i_atime :: timespec64
  i_ctime :: timespec64
  i_mtime :: timespec64
  i_generation :: u32
  i_flags :: u32
  i_blocks :: u64

text \<open>What the code calls elsewhere: \<open>inode_wrong_type\<close> and \<open>S_ISLNK\<close> of the modes, \<open>ocfs2_set_inode_flags\<close>
  (the flags from the attributes), \<open>ocfs2_inode_sector_count\<close>.\<close>

record inode_env =
  inode_wrong_type :: "u16 \<Rightarrow> u16 \<Rightarrow> bool"
  S_ISLNK :: "u16 \<Rightarrow> bool"
  ocfs2_set_inode_flags :: "u32 \<Rightarrow> u32 \<Rightarrow> u32"
  ocfs2_inode_sector_count :: "u32 \<Rightarrow> u64"

definition ocfs2_pack_timespec :: "timespec64 \<Rightarrow> u64" where
  "ocfs2_pack_timespec spec = (
     let sec = if sint (tv_sec spec) < 0 then 0 else if 0x3ffffffff < sint (tv_sec spec) then 0x3ffffffff else tv_sec spec;
         nsec = ucast (tv_nsec spec) :: u32 in
     push_bit OCFS2_SEC_SHIFT sec OR (ucast nsec AND OCFS2_NSEC_MASK))"

definition us_us_ocfs2_stuff_meta_lvb :: "ocfs2_inode \<Rightarrow> u8 list \<Rightarrow> u8 list" where
  "us_us_ocfs2_stuff_meta_lvb inode lvb =
     (if OCFS2_INODE_DELETED \<in> ip_flags inode then put 0 [0] lvb
      else let
        lvb = put 0 [OCFS2_LVB_VERSION] lvb;
        lvb = put 40 (cpu_to_be 8 (i_size inode)) lvb;
        lvb = put 4 (cpu_to_be 4 (ip_clusters inode)) lvb;
        lvb = put 8 (cpu_to_be 4 (i_uid inode)) lvb;
        lvb = put 12 (cpu_to_be 4 (i_gid inode)) lvb;
        lvb = put 48 (cpu_to_be 2 (i_mode inode)) lvb;
        lvb = put 50 (cpu_to_be 2 (ucast (i_nlink inode) :: u16)) lvb;
        lvb = put 16 (cpu_to_be 8 (ocfs2_pack_timespec (i_atime inode))) lvb;
        lvb = put 24 (cpu_to_be 8 (ocfs2_pack_timespec (i_ctime inode))) lvb;
        lvb = put 32 (cpu_to_be 8 (ocfs2_pack_timespec (i_mtime inode))) lvb;
        lvb = put 52 (cpu_to_be 4 (ip_attr inode)) lvb;
        lvb = put 2 (cpu_to_be 2 (ip_dyn_features inode)) lvb
      in put 56 (cpu_to_be 4 (i_generation inode)) lvb)"

definition ocfs2_unpack_timespec :: "u64 \<Rightarrow> timespec64" where
  "ocfs2_unpack_timespec packed_time =
     \<lparr>tv_sec = drop_bit OCFS2_SEC_SHIFT packed_time, tv_nsec = packed_time AND OCFS2_NSEC_MASK\<rparr>"

definition ocfs2_refresh_inode_from_lvb :: "inode_env \<Rightarrow> u8 list \<Rightarrow> ocfs2_inode \<Rightarrow> int \<times> ocfs2_inode" where
  "ocfs2_refresh_inode_from_lvb env lvb inode =
     (if inode_wrong_type env (i_mode inode) (lvb_imode lvb) then (-ESTALE, inode)
      else let
        inode = inode\<lparr>ip_clusters := lvb_iclusters lvb, i_size := lvb_isize lvb\<rparr>;
        inode = inode\<lparr>ip_attr := lvb_iattr lvb, ip_dyn_features := lvb_idynfeatures lvb\<rparr>;
        inode = inode\<lparr>i_flags := ocfs2_set_inode_flags env (ip_attr inode) (i_flags inode)\<rparr>;
        inode = inode\<lparr>i_blocks := (if S_ISLNK env (i_mode inode) \<and> ip_clusters inode = 0 then 0
          else ocfs2_inode_sector_count env (ip_clusters inode))\<rparr>;
        inode = inode\<lparr>i_uid := lvb_iuid lvb, i_gid := lvb_igid lvb, i_mode := lvb_imode lvb, i_nlink := ucast (lvb_inlink lvb)\<rparr>
      in (0, inode\<lparr>i_atime := ocfs2_unpack_timespec (lvb_iatime_packed lvb),
        i_mtime := ocfs2_unpack_timespec (lvb_imtime_packed lvb),
        i_ctime := ocfs2_unpack_timespec (lvb_ictime_packed lvb)\<rparr>))"

text \<open>\<open>valid\<close>: the answer of \<open>ocfs2_dlm_lvb_valid\<close>.\<close>

definition ocfs2_meta_lvb_is_trustable :: "bool \<Rightarrow> u8 list \<Rightarrow> ocfs2_inode \<Rightarrow> bool" where
  "ocfs2_meta_lvb_is_trustable valid lvb inode \<longleftrightarrow>
     valid \<and> lvb_version lvb = OCFS2_LVB_VERSION \<and> lvb_igeneration lvb = i_generation inode"

subsection \<open>What comes back\<close>

lemma field_byte: "be_to_cpu [x :: u8] = (x :: u8)"
  using be_round_trip(1)[of x] by (simp add: cpu_to_be_def)

lemma stuffed_fields:
  assumes "64 \<le> length lvb" and "OCFS2_INODE_DELETED \<notin> ip_flags inode" and "l = us_us_ocfs2_stuff_meta_lvb inode lvb"
  shows "lvb_version l = OCFS2_LVB_VERSION" "lvb_isize l = i_size inode" "lvb_iclusters l = ip_clusters inode"
    "lvb_iuid l = i_uid inode" "lvb_igid l = i_gid inode" "lvb_imode l = i_mode inode"
    "lvb_inlink l = ucast (i_nlink inode)" "lvb_iatime_packed l = ocfs2_pack_timespec (i_atime inode)"
    "lvb_ictime_packed l = ocfs2_pack_timespec (i_ctime inode)" "lvb_imtime_packed l = ocfs2_pack_timespec (i_mtime inode)"
    "lvb_iattr l = ip_attr inode" "lvb_idynfeatures l = ip_dyn_features inode" "lvb_igeneration l = i_generation inode"
  using assms(1,2) unfolding assms(3) us_us_ocfs2_stuff_meta_lvb_def
  by (simp_all add: Let_def meta_lvb_defs fields field_byte)

text \<open>A time comes back with its seconds brought between 0 and \<open>2 ^ 34 - 1\<close>, the nanoseconds modulo \<open>2 ^ 30\<close>.\<close>

definition clamped_time :: "timespec64 \<Rightarrow> timespec64" where
  "clamped_time t = \<lparr>tv_sec = word_of_int (max 0 (min (2 ^ 34 - 1) (sint (tv_sec t)))), tv_nsec = tv_nsec t AND OCFS2_NSEC_MASK\<rparr>"

lemma nsec_mask: "OCFS2_NSEC_MASK = mask 30"
  by (simp add: mask_eq_exp_minus_1)

lemma packed_parts:
  fixes sec n :: u64
  assumes "take_bit 34 sec = sec"
  shows "drop_bit 30 (push_bit 30 sec OR (n AND mask 30)) = sec"
    and "(push_bit 30 sec OR (n AND mask 30)) AND mask 30 = n AND mask 30"
proof -
  have b: "bit sec i \<Longrightarrow> i < 34" for i using assms by (metis bit_take_bit_iff)
  show "drop_bit 30 (push_bit 30 sec OR (n AND mask 30)) = sec"
    by (rule bit_word_eqI) (use b in \<open>auto simp: bit_drop_bit_eq bit_or_iff bit_push_bit_iff bit_and_iff bit_mask_iff\<close>)
  show "(push_bit 30 sec OR (n AND mask 30)) AND mask 30 = n AND mask 30"
    by (rule bit_word_eqI) (auto simp: bit_or_iff bit_push_bit_iff bit_and_iff bit_mask_iff)
qed

lemma timespec_round_trip: "ocfs2_unpack_timespec (ocfs2_pack_timespec t) = clamped_time t"
proof -
  define sec :: u64 where
    "sec = (if sint (tv_sec t) < 0 then 0 else if 0x3ffffffff < sint (tv_sec t) then 0x3ffffffff else tv_sec t)"
  have w: "sec = word_of_int (max 0 (min (2 ^ 34 - 1) (sint (tv_sec t))))" by (simp add: sec_def)
  have "uint sec = max 0 (min (2 ^ 34 - 1) (sint (tv_sec t)))" unfolding w
    by (simp add: uint_word_of_int max_def min_def)
  then have "uint sec < 2 ^ 34" by simp
  then have t: "take_bit 34 sec = sec" 
    by (intro word_uint_eqI) (simp add: unsigned_take_bit_eq take_bit_int_eq_self)
  have n: "ucast (ucast (tv_nsec t) :: u32) AND mask 30 = tv_nsec t AND mask 30"
    by (rule bit_word_eqI) (auto simp: bit_and_iff bit_mask_iff bit_unsigned_iff)
  show ?thesis
    unfolding ocfs2_unpack_timespec_def ocfs2_pack_timespec_def clamped_time_def Let_def sec_def[symmetric] nsec_mask
      packed_parts[OF t] n w[symmetric] ..
qed

text \<open>What a node knows of an inode once it has read the value block another one has written.\<close>

definition informed :: "inode_env \<Rightarrow> ocfs2_inode \<Rightarrow> ocfs2_inode \<Rightarrow> ocfs2_inode" where
  "informed env i j = j\<lparr>ip_clusters := ip_clusters i, ip_attr := ip_attr i, ip_dyn_features := ip_dyn_features i,
     i_size := i_size i, i_uid := i_uid i, i_gid := i_gid i, i_mode := i_mode i,
     i_nlink := i_nlink i AND 0xffff, i_atime := clamped_time (i_atime i), i_ctime := clamped_time (i_ctime i),
     i_mtime := clamped_time (i_mtime i), i_flags := ocfs2_set_inode_flags env (ip_attr i) (i_flags j),
     i_blocks := (if S_ISLNK env (i_mode j) \<and> ip_clusters i = 0 then 0 else ocfs2_inode_sector_count env (ip_clusters i))\<rparr>"

lemma low_half: "ucast (ucast (w :: u32) :: u16) = w AND 0xffff"
proof -
  have "ucast (ucast w :: u16) = w AND mask 16"
    by (rule bit_word_eqI) (auto simp: bit_and_iff bit_mask_iff bit_unsigned_iff)
  then show ?thesis by (simp add: mask_eq_exp_minus_1)
qed

lemma refreshed:
  assumes "64 \<le> length lvb" and "OCFS2_INODE_DELETED \<notin> ip_flags i" and "\<not> inode_wrong_type env (i_mode j) (i_mode i)"
  shows "ocfs2_refresh_inode_from_lvb env (us_us_ocfs2_stuff_meta_lvb i lvb) j = (0, informed env i j)"
  unfolding ocfs2_refresh_inode_from_lvb_def Let_def stuffed_fields[OF assms(1,2) refl] timespec_round_trip low_half
  using assms(3) by (simp add: informed_def)

lemma trustable:
  assumes "64 \<le> length lvb"
  shows "ocfs2_meta_lvb_is_trustable valid (us_us_ocfs2_stuff_meta_lvb i lvb) j \<longleftrightarrow>
    valid \<and> OCFS2_INODE_DELETED \<notin> ip_flags i \<and> i_generation i = i_generation j"
proof (cases "OCFS2_INODE_DELETED \<in> ip_flags i")
  case True
  then have "lvb_version (us_us_ocfs2_stuff_meta_lvb i lvb) = 0" using assms
    by (simp add: us_us_ocfs2_stuff_meta_lvb_def lvb_version_def fields field_byte)
  then show ?thesis using True by (simp add: ocfs2_meta_lvb_is_trustable_def)
next
  case False
  show ?thesis unfolding ocfs2_meta_lvb_is_trustable_def stuffed_fields[OF assms False refl] using False by simp
qed

text \<open>C35: What the inode lock's value block carries. A node that is given the lock trusts the block exactly if the
  lock manager says it is valid, the inode had not been deleted and it is of the same generation; it then has
  size, owner, mode and attributes as the other node had them, the times with their seconds brought into 34
  bits, but only the low 16 bits of the number of links.\<close>

theorem meta_lvb_round_trip:
  assumes "64 \<le> length lvb" and "\<not> inode_wrong_type env (i_mode j) (i_mode i)"
  shows "(ocfs2_meta_lvb_is_trustable valid (us_us_ocfs2_stuff_meta_lvb i lvb) j \<longleftrightarrow>
      valid \<and> OCFS2_INODE_DELETED \<notin> ip_flags i \<and> i_generation i = i_generation j) \<and>
    (OCFS2_INODE_DELETED \<in> ip_flags i \<or>
     ocfs2_refresh_inode_from_lvb env (us_us_ocfs2_stuff_meta_lvb i lvb) j = (0, informed env i j))"
  using trustable[OF assms(1)] refreshed[OF assms(1) _ assms(2)] by blast

definition sample_time :: timespec64 where "sample_time = \<lparr>tv_sec = 1700000000, tv_nsec = 999999999\<rparr>"

definition sample_inode :: ocfs2_inode where
  "sample_inode = \<lparr>ip_inode_lockres = 0, ip_rw_lockres = 1, ip_open_lockres = 2, i_new = False, ip_flags = {},
     ip_clusters = 9, ip_attr = 0, ip_dyn_features = 1, i_size = 4096, i_uid = 1000, i_gid = 100, i_mode = 0x41ed,
     i_nlink = 70000, i_atime = sample_time, i_ctime = sample_time, i_mtime = sample_time, i_generation = 17,
     i_flags = 0, i_blocks = 72\<rparr>"

definition sample_inode_env :: inode_env where
  "sample_inode_env = \<lparr>inode_wrong_type = (\<lambda>a b. a AND 0xf000 \<noteq> b AND 0xf000), S_ISLNK = (\<lambda>m. m AND 0xf000 = 0xa000),
     ocfs2_set_inode_flags = (\<lambda>_ fl. fl), ocfs2_inode_sector_count = (\<lambda>c. 8 * ucast c)\<rparr>"

theorem meta_lvb_round_trip_witness:
  "\<exists>j. ocfs2_refresh_inode_from_lvb sample_inode_env (us_us_ocfs2_stuff_meta_lvb sample_inode (replicate 64 0))
      (sample_inode\<lparr>i_nlink := 2, i_size := 0\<rparr>) = (0, j) \<and> i_size j = 4096 \<and> i_nlink j = 4464 \<and> tv_sec (i_atime j) = 1700000000"
proof -
  have "\<not> inode_wrong_type sample_inode_env (i_mode (sample_inode\<lparr>i_nlink := 2, i_size := 0\<rparr>)) (i_mode sample_inode)"
    by (simp add: sample_inode_env_def sample_inode_def)
  from meta_lvb_round_trip[OF _ this, of "replicate 64 0" True] show ?thesis
    by (simp add: informed_def clamped_time_def sample_inode_def sample_time_def)
qed

section \<open>The other value blocks\<close>

text \<open>\<open>struct ocfs2_qinfo_lvb\<close>: quota of a file system, \<open>dqi_bgrace\<close> and \<open>dqi_igrace\<close> of the \<open>mem_dqinfo\<close>.\<close>

definition qinfo_version :: "u8 list \<Rightarrow> u8" where "qinfo_version lvb = be_to_cpu (field 0 1 lvb)"
definition qinfo_bgrace :: "u8 list \<Rightarrow> u32" where "qinfo_bgrace lvb = be_to_cpu (field 4 4 lvb)"
definition qinfo_igrace :: "u8 list \<Rightarrow> u32" where "qinfo_igrace lvb = be_to_cpu (field 8 4 lvb)"
definition qinfo_syncms :: "u8 list \<Rightarrow> u32" where "qinfo_syncms lvb = be_to_cpu (field 12 4 lvb)"
definition qinfo_blocks :: "u8 list \<Rightarrow> u32" where "qinfo_blocks lvb = be_to_cpu (field 16 4 lvb)"
definition qinfo_free_blk :: "u8 list \<Rightarrow> u32" where "qinfo_free_blk lvb = be_to_cpu (field 20 4 lvb)"
definition qinfo_free_entry :: "u8 list \<Rightarrow> u32" where "qinfo_free_entry lvb = be_to_cpu (field 24 4 lvb)"

lemmas qinfo_lvb_defs = qinfo_version_def qinfo_bgrace_def qinfo_igrace_def qinfo_syncms_def qinfo_blocks_def qinfo_free_blk_def qinfo_free_entry_def

abbreviation (input) OCFS2_QINFO_LVB_VERSION :: u8 where "OCFS2_QINFO_LVB_VERSION \<equiv> 1"

record ocfs2_mem_dqinfo =
  dqi_bgrace :: u32
  dqi_igrace :: u32
  dqi_syncms :: u32
  dqi_blocks :: u32
  dqi_free_blk :: u32
  dqi_free_entry :: u32

definition ocfs2_set_qinfo_lvb :: "ocfs2_mem_dqinfo \<Rightarrow> u8 list \<Rightarrow> u8 list" where
  "ocfs2_set_qinfo_lvb oinfo lvb = (let
     lvb = put 0 [OCFS2_QINFO_LVB_VERSION] lvb;
     lvb = put 4 (cpu_to_be 4 (dqi_bgrace oinfo)) lvb;
     lvb = put 8 (cpu_to_be 4 (dqi_igrace oinfo)) lvb;
     lvb = put 12 (cpu_to_be 4 (dqi_syncms oinfo)) lvb;
     lvb = put 16 (cpu_to_be 4 (dqi_blocks oinfo)) lvb;
     lvb = put 20 (cpu_to_be 4 (dqi_free_blk oinfo)) lvb
   in put 24 (cpu_to_be 4 (dqi_free_entry oinfo)) lvb)"

text \<open>\<open>disk\<close>: what \<open>ocfs2_read_quota_phys_block\<close> answers, and the quota of the block.\<close>

definition ocfs2_refresh_qinfo ::
  "int \<times> ocfs2_mem_dqinfo \<Rightarrow> bool \<Rightarrow> u8 list \<Rightarrow> ocfs2_mem_dqinfo \<Rightarrow> int \<times> ocfs2_mem_dqinfo" where
  "ocfs2_refresh_qinfo disk valid lvb oinfo =
     (if valid \<and> qinfo_version lvb = OCFS2_QINFO_LVB_VERSION
      then (0, oinfo\<lparr>dqi_bgrace := qinfo_bgrace lvb, dqi_igrace := qinfo_igrace lvb, dqi_syncms := qinfo_syncms lvb,
        dqi_blocks := qinfo_blocks lvb, dqi_free_blk := qinfo_free_blk lvb, dqi_free_entry := qinfo_free_entry lvb\<rparr>)
      else case disk of (status, gdinfo) \<Rightarrow>
        if status \<noteq> 0 then (status, oinfo) else (0, gdinfo))"

lemma qinfo_round_trip:
  "28 \<le> length lvb \<Longrightarrow> ocfs2_refresh_qinfo disk True (ocfs2_set_qinfo_lvb i lvb) j = (0, i)"
  by (simp add: ocfs2_refresh_qinfo_def ocfs2_set_qinfo_lvb_def Let_def qinfo_lvb_defs fields field_byte)

text \<open>\<open>struct ocfs2_orphan_scan_lvb\<close> and \<open>struct ocfs2_trim_fs_lvb\<close>.\<close>

abbreviation (input) OCFS2_ORPHAN_LVB_VERSION :: u8 where "OCFS2_ORPHAN_LVB_VERSION \<equiv> 1"
abbreviation (input) OCFS2_TRIMFS_LVB_VERSION :: u8 where "OCFS2_TRIMFS_LVB_VERSION \<equiv> 1"

text \<open>The number \<open>ocfs2_orphan_scan_lock\<close> gives out, \<open>os_seqno\<close> the one of this node, and the value block that
  \<open>ocfs2_orphan_scan_unlock\<close> leaves.\<close>

definition orphan_scan_seqno :: "bool \<Rightarrow> u8 list \<Rightarrow> u32 \<Rightarrow> u32" where
  "orphan_scan_seqno valid lvb os_seqno =
     (if valid \<and> be_to_cpu (field 0 1 lvb) = OCFS2_ORPHAN_LVB_VERSION then be_to_cpu (field 4 4 lvb) else os_seqno + 1)"

definition orphan_scan_lvb :: "u32 \<Rightarrow> u8 list \<Rightarrow> u8 list" where
  "orphan_scan_lvb seqno lvb = put 4 (cpu_to_be 4 seqno) (put 0 [OCFS2_ORPHAN_LVB_VERSION] lvb)"

lemma orphan_scan_round_trip: "8 \<le> length lvb \<Longrightarrow> orphan_scan_seqno True (orphan_scan_lvb q lvb) n = q"
  by (simp add: orphan_scan_seqno_def orphan_scan_lvb_def fields field_byte)

record ocfs2_trim_fs_info =
  tf_valid :: u8
  tf_success :: u8
  tf_nodenum :: u32
  tf_start :: u64
  tf_len :: u64
  tf_minlen :: u64
  tf_trimlen :: u64

definition trim_fs_lvb :: "ocfs2_trim_fs_info \<Rightarrow> u8 list \<Rightarrow> u8 list" where
  "trim_fs_lvb info lvb = (let
     lvb = put 0 [OCFS2_TRIMFS_LVB_VERSION] lvb;
     lvb = put 1 [tf_success info] lvb;
     lvb = put 4 (cpu_to_be 4 (tf_nodenum info)) lvb;
     lvb = put 8 (cpu_to_be 8 (tf_start info)) lvb;
     lvb = put 16 (cpu_to_be 8 (tf_len info)) lvb;
     lvb = put 24 (cpu_to_be 8 (tf_minlen info)) lvb
   in put 32 (cpu_to_be 8 (tf_trimlen info)) lvb)"

definition trim_fs_read :: "bool \<Rightarrow> u8 list \<Rightarrow> ocfs2_trim_fs_info \<Rightarrow> ocfs2_trim_fs_info" where
  "trim_fs_read valid lvb info =
     (if valid \<and> be_to_cpu (field 0 1 lvb) = OCFS2_TRIMFS_LVB_VERSION
      then info\<lparr>tf_valid := 1, tf_success := be_to_cpu (field 1 1 lvb), tf_nodenum := be_to_cpu (field 4 4 lvb),
        tf_start := be_to_cpu (field 8 8 lvb), tf_len := be_to_cpu (field 16 8 lvb),
        tf_minlen := be_to_cpu (field 24 8 lvb), tf_trimlen := be_to_cpu (field 32 8 lvb)\<rparr>
      else info)"

lemma trim_fs_round_trip: "40 \<le> length lvb \<Longrightarrow> trim_fs_read True (trim_fs_lvb i lvb) j = i\<lparr>tf_valid := 1\<rparr>"
  by (simp add: trim_fs_read_def trim_fs_lvb_def Let_def fields field_byte)

end
