(* ===== verification/Ocfs2_Calls.thy ===== *)
theory Ocfs2_Calls
  imports Ocfs2_Lock Ocfs2_Lvb
begin

text \<open>
  The calls of \<open>dlmglue.c\<close> for the locks of each kind, from the point of view of one process. A call is a
  sequence of sections under \<open>l_lock\<close>; what the lock manager, the downconvert thread and other processes
  do from one section to the next is an argument (\<open>others\<close>), as are the answers of the lock manager's calls
  and of the file system. A call that sleeps and is not woken has no result.
\<close>

section \<open>The process and its surroundings\<close>

text \<open>The mount (\<open>struct ocfs2_super\<close>): its state, and the lock resources that exist once in it.\<close>

record ocfs2_mount =
  ocfs2_is_hard_readonly :: bool
  ocfs2_mount_local :: bool
  mount_nointr :: bool
  osb_super_lockres :: rp
  osb_rename_lockres :: rp
  osb_nfs_sync_lockres :: rp
  osb_trim_fs_lockres :: rp
  os_lockres :: rp
  os_seqno :: u32

text \<open>The state: the lock layer, the number of the section, the value blocks, the inode and the quota at hand,
  the references to buffers of the inode, the lock of the page at hand and the semaphore \<open>nfs_sync_rwlock\<close>.\<close>

record ocfs2_fs =
  fs_super :: ocfs2_super
  fs_now :: nat
  fs_lvb :: "rp \<Rightarrow> u8 list"
  fs_inode :: ocfs2_inode
  fs_qinfo :: ocfs2_mem_dqinfo
  fs_bhs :: int
  fs_page_locked :: bool
  nfs_readers :: nat
  nfs_writer :: bool

text \<open>A block of an inode on disk, and everything the calls depend on. Answers are numbered by the section.\<close>

record ocfs2_dinode =
  di_mode :: u16
  di_generation :: u32
  di_dtime :: u64
  di_valid :: bool

record ocfs2_world =
  others :: "nat \<Rightarrow> ocfs2_fs \<Rightarrow> ocfs2_fs"
  signal_pending :: "nat \<Rightarrow> bool"
  dlm_lock_answer :: "nat \<Rightarrow> int"
  ocfs2_read_inode_block :: "nat \<Rightarrow> int \<times> ocfs2_dinode"
  ocfs2_refresh_inode :: "ocfs2_dinode \<Rightarrow> ocfs2_inode \<Rightarrow> ocfs2_inode"
  ocfs2_refresh_slot_info :: "nat \<Rightarrow> int"
  ocfs2_read_quota_phys_block :: "nat \<Rightarrow> int \<times> ocfs2_mem_dqinfo"
  ocfs2_should_update_atime :: "nat \<Rightarrow> bool"
  ocfs2_inode_is_new :: "ocfs2_inode \<Rightarrow> bool"
  ocfs2_update_inode_atime :: "ocfs2_inode \<Rightarrow> ocfs2_inode"
  inode_calls :: inode_env
  my_mw :: mwp
  my_pid :: nat

definition step_over :: "ocfs2_world \<Rightarrow> ocfs2_fs \<Rightarrow> ocfs2_fs" where
  "step_over W f = (others W (fs_now f) f)\<lparr>fs_now := fs_now f + 1\<rparr>"

definition on_super :: "(ocfs2_super \<Rightarrow> ('a \<times> ocfs2_super) option) \<Rightarrow> ocfs2_fs \<Rightarrow> ('a \<times> ocfs2_fs) option" where
  "on_super m f = do { (a, s) \<leftarrow> m (fs_super f); Some (a, f\<lparr>fs_super := s\<rparr>) }"

definition in_super :: "(ocfs2_super \<Rightarrow> ocfs2_super option) \<Rightarrow> ocfs2_fs \<Rightarrow> ocfs2_fs option" where
  "in_super m f = do { s \<leftarrow> m (fs_super f); Some (f\<lparr>fs_super := s\<rparr>) }"

section \<open>The cluster lock\<close>

text \<open>The sections of \<open>__ocfs2_cluster_lock\<close>, one after the other.\<close>

fun cluster_lock_turn :: "ocfs2_world \<Rightarrow> lock_turn \<times> ocfs2_fs \<Rightarrow> (lock_turn \<times> ocfs2_fs, int \<times> ocfs2_fs) pass option" where
  "cluster_lock_turn W (Turn_return ret, f) = Some (Done (ret, f))"
| "cluster_lock_turn W (Turn_again c, f) = do {
     (t, f) \<leftarrow> on_super (cluster_lock_again (signal_pending W (fs_now f)) (my_mw W) c) f;
     Some (Retry (t, step_over W f))
   }"
| "cluster_lock_turn W (Turn_wait c, f) = do {
     (t, f) \<leftarrow> on_super (cluster_lock_out (my_mw W) c) f;
     Some (Retry (t, step_over W f))
   }"
| "cluster_lock_turn W (Turn_call c gen, f) = do {
     let ret = dlm_lock_answer W (fs_now f);
     f \<leftarrow> in_super (cluster_lock_called c gen) f;
     if ret \<noteq> 0 then do {
       (t, f) \<leftarrow> on_super (cluster_lock_failed c ret) (step_over W f);
       Some (Retry (t, step_over W f))
     }
     else Some (Retry (Turn_again (cluster_lock_asked c), step_over W f))
   }"

definition us_us_ocfs2_cluster_lock ::
  "ocfs2_world \<Rightarrow> ocfs2_mount \<Rightarrow> rp \<Rightarrow> int \<Rightarrow> u32 \<Rightarrow> u32 \<Rightarrow> u32 option \<Rightarrow> ocfs2_fs \<Rightarrow> (int \<times> ocfs2_fs) option" where
  "us_us_ocfs2_cluster_lock W M r level lkm_flags af parent f = do {
     (t, f) \<leftarrow> on_super (cluster_lock_begin (mount_nointr M) (my_mw W) r level lkm_flags af parent) f;
     retry (cluster_lock_turn W) (t, f)
   }"

definition ocfs2_cluster_lock ::
  "ocfs2_world \<Rightarrow> ocfs2_mount \<Rightarrow> rp \<Rightarrow> int \<Rightarrow> u32 \<Rightarrow> u32 \<Rightarrow> ocfs2_fs \<Rightarrow> (int \<times> ocfs2_fs) option" where
  "ocfs2_cluster_lock W M r level lkm_flags af f = us_us_ocfs2_cluster_lock W M r level lkm_flags af None f"

definition ocfs2_cluster_lock_notify ::
  "ocfs2_world \<Rightarrow> ocfs2_mount \<Rightarrow> rp \<Rightarrow> int \<Rightarrow> u32 \<Rightarrow> u32 \<Rightarrow> u32 \<Rightarrow> ocfs2_fs \<Rightarrow> (int \<times> ocfs2_fs) option" where
  "ocfs2_cluster_lock_notify W M r level lkm_flags af parent f =
     us_us_ocfs2_cluster_lock W M r level lkm_flags af (Some parent) f"

definition ocfs2_cluster_unlock :: "rp \<Rightarrow> int \<Rightarrow> ocfs2_fs \<Rightarrow> ocfs2_fs option" where
  "ocfs2_cluster_unlock r level f = in_super (us_us_ocfs2_cluster_unlock r level) f"

definition ex_level :: "bool \<Rightarrow> int" where "ex_level ex = (if ex then DLM_LOCK_EX else DLM_LOCK_PR)"

section \<open>Locks of an inode\<close>

definition ocfs2_rw_lock :: "ocfs2_world \<Rightarrow> ocfs2_mount \<Rightarrow> bool \<Rightarrow> ocfs2_fs \<Rightarrow> (int \<times> ocfs2_fs) option" where
  "ocfs2_rw_lock W M write f =
     (if ocfs2_mount_local M then Some (0, f)
      else ocfs2_cluster_lock W M (ip_rw_lockres (fs_inode f)) (ex_level write) 0 0 f)"

definition ocfs2_try_rw_lock :: "ocfs2_world \<Rightarrow> ocfs2_mount \<Rightarrow> bool \<Rightarrow> ocfs2_fs \<Rightarrow> (int \<times> ocfs2_fs) option" where
  "ocfs2_try_rw_lock W M write f =
     (if ocfs2_mount_local M then Some (0, f)
      else ocfs2_cluster_lock W M (ip_rw_lockres (fs_inode f)) (ex_level write) DLM_LKF_NOQUEUE 0 f)"

definition ocfs2_rw_unlock :: "ocfs2_mount \<Rightarrow> bool \<Rightarrow> ocfs2_fs \<Rightarrow> ocfs2_fs option" where
  "ocfs2_rw_unlock M write f =
     (if \<not> ocfs2_mount_local M then ocfs2_cluster_unlock (ip_rw_lockres (fs_inode f)) (ex_level write) f else Some f)"

definition ocfs2_open_lock :: "ocfs2_world \<Rightarrow> ocfs2_mount \<Rightarrow> ocfs2_fs \<Rightarrow> (int \<times> ocfs2_fs) option" where
  "ocfs2_open_lock W M f =
     (if ocfs2_is_hard_readonly M \<or> ocfs2_mount_local M then Some (0, f)
      else ocfs2_cluster_lock W M (ip_open_lockres (fs_inode f)) DLM_LOCK_PR 0 0 f)"

definition ocfs2_try_open_lock :: "ocfs2_world \<Rightarrow> ocfs2_mount \<Rightarrow> bool \<Rightarrow> ocfs2_fs \<Rightarrow> (int \<times> ocfs2_fs) option" where
  "ocfs2_try_open_lock W M write f =
     (if ocfs2_is_hard_readonly M then Some (if write then -EROFS else 0, f)
      else if ocfs2_mount_local M then Some (0, f)
      else ocfs2_cluster_lock W M (ip_open_lockres (fs_inode f)) (ex_level write) DLM_LKF_NOQUEUE 0 f)"

text \<open>Both counts are read anew.\<close>

definition ocfs2_open_unlock :: "ocfs2_mount \<Rightarrow> ocfs2_fs \<Rightarrow> ocfs2_fs option" where
  "ocfs2_open_unlock M f = (let r = ip_open_lockres (fs_inode f) in
     if ocfs2_mount_local M then Some f
     else do {
       x \<leftarrow> os_res (fs_super f) r;
       f \<leftarrow> (if l_ro_holders x \<noteq> 0 then ocfs2_cluster_unlock r DLM_LOCK_PR f else Some f);
       x \<leftarrow> os_res (fs_super f) r;
       if l_ex_holders x \<noteq> 0 then ocfs2_cluster_unlock r DLM_LOCK_EX f else Some f
     })"

section \<open>The metadata lock of an inode\<close>

definition ocfs2_dlm_lvb_valid :: "ocfs2_lock_res \<Rightarrow> bool" where
  "ocfs2_dlm_lvb_valid x \<longleftrightarrow> \<not> has_flag (sb_flags (l_lksb x)) DLM_SBF_VALNOTVALID"

text \<open>The loop of \<open>ocfs2_should_refresh_lock_res\<close>: while another process refreshes, this one waits.\<close>

definition refresh_check :: "ocfs2_world \<Rightarrow> rp \<Rightarrow> ocfs2_fs \<Rightarrow> (ocfs2_fs, int \<times> ocfs2_fs) pass option" where
  "refresh_check W r f = do {
     x \<leftarrow> os_res (fs_super f) r;
     if res_flag OCFS2_LOCK_NEEDS_REFRESH x \<and> res_flag OCFS2_LOCK_REFRESHING x then Some (Retry (step_over W f))
     else do { (status, f) \<leftarrow> on_super (ocfs2_should_refresh_lock_res r) f; Some (Done (status, f)) }
   }"

definition should_refresh :: "ocfs2_world \<Rightarrow> rp \<Rightarrow> ocfs2_fs \<Rightarrow> (int \<times> ocfs2_fs) option" where
  "should_refresh W r f = retry (refresh_check W r) f"

definition read_inode_block :: "ocfs2_world \<Rightarrow> ocfs2_fs \<Rightarrow> int \<times> ocfs2_dinode \<times> ocfs2_fs" where
  "read_inode_block W f = (let (status, fe) = ocfs2_read_inode_block W (fs_now f);
     f = step_over W f in (status, fe, if status < 0 then f else f\<lparr>fs_bhs := fs_bhs f + 1\<rparr>))"

text \<open>The refresh itself: the status, whether a buffer was read.\<close>

definition inode_refresh :: "ocfs2_world \<Rightarrow> ocfs2_fs \<Rightarrow> (int \<times> bool \<times> ocfs2_fs) option" where
  "inode_refresh W f = do {
     let r = ip_inode_lockres (fs_inode f);
     x \<leftarrow> os_res (fs_super f) r;
     if ocfs2_meta_lvb_is_trustable (ocfs2_dlm_lvb_valid x) (fs_lvb f r) (fs_inode f)
     then (let (status, i) = ocfs2_refresh_inode_from_lvb (inode_calls W) (fs_lvb f r) (fs_inode f) in
       Some (status, False, f\<lparr>fs_inode := i\<rparr>))
     else (let (status, fe, f) = read_inode_block W f in
       if status < 0 then Some (status, False, f)
       else if inode_wrong_type (inode_calls W) (i_mode (fs_inode f)) (di_mode fe) then Some (-ESTALE, True, f)
       else do {
         _ \<leftarrow> dlm_assert (i_generation (fs_inode f) = di_generation fe);
         _ \<leftarrow> dlm_assert (di_dtime fe = 0 \<and> di_valid fe);
         Some (0, True, f\<lparr>fs_inode := ocfs2_refresh_inode W fe (fs_inode f)\<rparr>)
       })
   }"

definition ocfs2_inode_lock_update :: "ocfs2_world \<Rightarrow> ocfs2_mount \<Rightarrow> ocfs2_fs \<Rightarrow> (int \<times> bool \<times> ocfs2_fs) option" where
  "ocfs2_inode_lock_update W M f = do {
     let r = ip_inode_lockres (fs_inode f);
     if ocfs2_mount_local M then Some (0, False, f)
     else if OCFS2_INODE_DELETED \<in> ip_flags (fs_inode f) then Some (-ENOENT, False, f)
     else do {
       (refresh, f) \<leftarrow> should_refresh W r f;
       if refresh = 0 then Some (0, False, f)
       else do {
         (status, bh, f) \<leftarrow> inode_refresh W f;
         f \<leftarrow> in_super (ocfs2_complete_lock_res_refresh r status) f;
         Some (status, bh, f)
       }
     }
   }"

definition ocfs2_assign_bh :: "ocfs2_world \<Rightarrow> bool \<Rightarrow> ocfs2_fs \<Rightarrow> int \<times> ocfs2_fs" where
  "ocfs2_assign_bh W passed_bh f =
     (if passed_bh then (0, f\<lparr>fs_bhs := fs_bhs f + 1\<rparr>)
      else let (status, _, f) = read_inode_block W f in (status, f))"

definition ocfs2_inode_unlock :: "ocfs2_mount \<Rightarrow> bool \<Rightarrow> ocfs2_fs \<Rightarrow> ocfs2_fs option" where
  "ocfs2_inode_unlock M ex f =
     (if \<not> ocfs2_is_hard_readonly M \<and> \<not> ocfs2_mount_local M
      then ocfs2_cluster_unlock (ip_inode_lockres (fs_inode f)) (ex_level ex) f else Some f)"

text \<open>The end of \<open>ocfs2_inode_lock_full_nested\<close>, at \<open>bail\<close>: \<open>bh\<close>, the caller's buffer was set; \<open>local_bh\<close>, there
  is a buffer of the refresh. The result is the status and whether the caller has a buffer; callers start with none.\<close>

definition inode_lock_bail ::
  "ocfs2_mount \<Rightarrow> bool \<Rightarrow> bool \<Rightarrow> int \<Rightarrow> bool \<Rightarrow> bool \<Rightarrow> ocfs2_fs \<Rightarrow> (int \<times> bool \<times> ocfs2_fs) option" where
  "inode_lock_bail M ex acquired status bh local_bh f = do {
     let f' = (if status < 0 \<and> bh then f\<lparr>fs_bhs := fs_bhs f - 1\<rparr> else f);
     f' \<leftarrow> (if status < 0 \<and> acquired then ocfs2_inode_unlock M ex f' else Some f');
     Some (status, 0 \<le> status \<and> bh, if local_bh then f'\<lparr>fs_bhs := fs_bhs f' - 1\<rparr> else f')
   }"

text \<open>From \<open>getbh\<close>, with the status so far.\<close>

definition inode_lock_getbh ::
  "ocfs2_world \<Rightarrow> ocfs2_mount \<Rightarrow> bool \<Rightarrow> bool \<Rightarrow> bool \<Rightarrow> int \<Rightarrow> bool \<Rightarrow> ocfs2_fs \<Rightarrow> (int \<times> bool \<times> ocfs2_fs) option" where
  "inode_lock_getbh W M ret_bh ex acquired status local_bh f =
     (if ret_bh then let (status, f) = ocfs2_assign_bh W local_bh f in
        inode_lock_bail M ex acquired status (0 \<le> status) local_bh f
      else inode_lock_bail M ex acquired status False local_bh f)"

text \<open>From \<open>update\<close>. \<open>locked\<close>: \<open>lockres\<close> is set.\<close>

definition inode_lock_have ::
  "ocfs2_world \<Rightarrow> ocfs2_mount \<Rightarrow> bool \<Rightarrow> bool \<Rightarrow> bool \<Rightarrow> ocfs2_fs \<Rightarrow> (int \<times> bool \<times> ocfs2_fs) option" where
  "inode_lock_have W M ret_bh ex locked f =
     (if i_new (fs_inode f) then do {
        f \<leftarrow> (if locked then in_super (ocfs2_complete_lock_res_refresh (ip_inode_lockres (fs_inode f)) 0) f else Some f);
        inode_lock_bail M ex locked 0 False False f
      }
      else do {
        (status, local_bh, f) \<leftarrow> ocfs2_inode_lock_update W M f;
        if status < 0 then inode_lock_bail M ex locked status False local_bh f
        else inode_lock_getbh W M ret_bh ex locked status local_bh f
      })"

definition ocfs2_inode_lock_full_nested ::
  "ocfs2_world \<Rightarrow> ocfs2_mount \<Rightarrow> bool \<Rightarrow> bool \<Rightarrow> u32 \<Rightarrow> ocfs2_fs \<Rightarrow> (int \<times> bool \<times> ocfs2_fs) option" where
  "ocfs2_inode_lock_full_nested W M ret_bh ex af f =
     (if ocfs2_is_hard_readonly M then inode_lock_getbh W M ret_bh ex False (if ex then -EROFS else 0) False f
      else if has_flag af OCFS2_META_LOCK_GETBH \<or> ocfs2_mount_local M then inode_lock_have W M ret_bh ex False f
      else do {
        let f = (if \<not> has_flag af OCFS2_META_LOCK_RECOVERY then step_over W f else f);
        (status, f) \<leftarrow> ocfs2_cluster_lock W M (ip_inode_lockres (fs_inode f)) (ex_level ex)
          (if has_flag af OCFS2_META_LOCK_NOQUEUE then DLM_LKF_NOQUEUE else 0) af f;
        if status < 0 then inode_lock_bail M ex False status False False f
        else let f = (if \<not> has_flag af OCFS2_META_LOCK_RECOVERY then step_over W f else f) in
          inode_lock_have W M ret_bh ex True f
      })"

definition ocfs2_inode_lock_full ::
  "ocfs2_world \<Rightarrow> ocfs2_mount \<Rightarrow> bool \<Rightarrow> bool \<Rightarrow> u32 \<Rightarrow> ocfs2_fs \<Rightarrow> (int \<times> bool \<times> ocfs2_fs) option" where
  "ocfs2_inode_lock_full W M ret_bh ex af f = ocfs2_inode_lock_full_nested W M ret_bh ex af f"

definition ocfs2_inode_lock :: "ocfs2_world \<Rightarrow> ocfs2_mount \<Rightarrow> bool \<Rightarrow> bool \<Rightarrow> ocfs2_fs \<Rightarrow> (int \<times> bool \<times> ocfs2_fs) option" where
  "ocfs2_inode_lock W M ret_bh ex f = ocfs2_inode_lock_full W M ret_bh ex 0 f"

definition ocfs2_try_inode_lock :: "ocfs2_world \<Rightarrow> ocfs2_mount \<Rightarrow> bool \<Rightarrow> bool \<Rightarrow> ocfs2_fs \<Rightarrow> (int \<times> bool \<times> ocfs2_fs) option" where
  "ocfs2_try_inode_lock W M ret_bh ex f = ocfs2_inode_lock_full W M ret_bh ex OCFS2_META_LOCK_NOQUEUE f"

abbreviation (input) AOP_TRUNCATED_PAGE :: int where "AOP_TRUNCATED_PAGE \<equiv> 0x80001"

definition ocfs2_inode_lock_with_page ::
  "ocfs2_world \<Rightarrow> ocfs2_mount \<Rightarrow> bool \<Rightarrow> bool \<Rightarrow> ocfs2_fs \<Rightarrow> (int \<times> bool \<times> ocfs2_fs) option" where
  "ocfs2_inode_lock_with_page W M ret_bh ex f = do {
     (ret, bh, f) \<leftarrow> ocfs2_inode_lock_full W M ret_bh ex OCFS2_LOCK_NONBLOCK f;
     if ret = -EAGAIN then do {
       let f = f\<lparr>fs_page_locked := False\<rparr>;
       (ret, bh, f) \<leftarrow> ocfs2_inode_lock W M ret_bh ex f;
       f \<leftarrow> (if ret = 0 then ocfs2_inode_unlock M ex f else Some f);
       Some (AOP_TRUNCATED_PAGE, bh, f)
     }
     else Some (ret, bh, f)
   }"

text \<open>The result is the status and what is written to \<open>level\<close>, if anything.\<close>

definition ocfs2_inode_lock_atime ::
  "ocfs2_world \<Rightarrow> ocfs2_mount \<Rightarrow> bool \<Rightarrow> ocfs2_fs \<Rightarrow> (int \<times> int option \<times> ocfs2_fs) option" where
  "ocfs2_inode_lock_atime W M wait f = (
     let lock = (\<lambda>ret_bh ex f. if wait then ocfs2_inode_lock W M ret_bh ex f else ocfs2_try_inode_lock W M ret_bh ex f) in
     do {
       (ret, _, f) \<leftarrow> lock False False f;
       if ret < 0 then Some (ret, None, f)
       else if ocfs2_should_update_atime W (fs_now f) then do {
         f \<leftarrow> ocfs2_inode_unlock M False f;
         (ret, bh, f) \<leftarrow> lock True True (step_over W f);
         if ret < 0 then Some (ret, None, f)
         else (let f = (if ocfs2_should_update_atime W (fs_now f)
             then f\<lparr>fs_inode := ocfs2_update_inode_atime W (fs_inode f)\<rparr> else f) in
           Some (ret, Some 1, if bh then f\<lparr>fs_bhs := fs_bhs f - 1\<rparr> else f))
       }
       else Some (ret, Some 0, f)
     })"

section \<open>Recursive locking\<close>

text \<open>The result is the return value, whether the caller has a buffer, and the holder if one was put on the list.\<close>

definition ocfs2_inode_lock_tracker ::
  "ocfs2_world \<Rightarrow> ocfs2_mount \<Rightarrow> bool \<Rightarrow> bool \<Rightarrow> ocfs2_fs \<Rightarrow> (int \<times> bool \<times> ocfs2_lock_holder option \<times> ocfs2_fs) option" where
  "ocfs2_inode_lock_tracker W M ret_bh ex f = do {
     let r = ip_inode_lockres (fs_inode f);
     tmp_oh \<leftarrow> ocfs2_pid_holder r (my_pid W) (fs_super f);
     case tmp_oh of
       None \<Rightarrow> do {
         (status, bh, f) \<leftarrow> ocfs2_inode_lock_full W M ret_bh ex 0 f;
         if status < 0 then Some (status, bh, None, f)
         else do {
           let oh = \<lparr>oh_owner_pid = my_pid W, oh_ex = ex\<rparr>;
           f \<leftarrow> in_super (ocfs2_add_holder r oh) f;
           Some (0, bh, Some oh, f)
         }
       }
     | Some tmp_oh \<Rightarrow>
         if ex \<and> \<not> oh_ex tmp_oh then Some (-EINVAL, False, None, f)
         else if ret_bh then do {
           (status, bh, f) \<leftarrow> ocfs2_inode_lock_full W M ret_bh ex OCFS2_META_LOCK_GETBH f;
           Some (if status < 0 then status else 1, bh, None, f)
         }
         else Some (1, False, None, f)
   }"

definition ocfs2_inode_unlock_tracker :: "ocfs2_mount \<Rightarrow> ocfs2_lock_holder \<Rightarrow> bool \<Rightarrow> ocfs2_fs \<Rightarrow> ocfs2_fs option" where
  "ocfs2_inode_unlock_tracker M oh had_lock f =
     (if \<not> had_lock then do {
        f \<leftarrow> ocfs2_inode_unlock M (oh_ex oh) f;
        in_super (ocfs2_remove_holder (ip_inode_lockres (fs_inode f)) oh) f
      }
      else Some f)"

section \<open>Locks of the file system\<close>

definition ocfs2_orphan_scan_lock :: "ocfs2_world \<Rightarrow> ocfs2_mount \<Rightarrow> ocfs2_fs \<Rightarrow> (int \<times> u32 option \<times> ocfs2_fs) option" where
  "ocfs2_orphan_scan_lock W M f =
     (if ocfs2_is_hard_readonly M then Some (-EROFS, None, f)
      else if ocfs2_mount_local M then Some (0, None, f)
      else do {
        (status, f) \<leftarrow> ocfs2_cluster_lock W M (os_lockres M) DLM_LOCK_EX 0 0 f;
        if status < 0 then Some (status, None, f)
        else do {
          x \<leftarrow> os_res (fs_super f) (os_lockres M);
          Some (status, Some (orphan_scan_seqno (ocfs2_dlm_lvb_valid x) (fs_lvb f (os_lockres M)) (os_seqno M)), f)
        }
      })"

definition ocfs2_orphan_scan_unlock :: "ocfs2_mount \<Rightarrow> u32 \<Rightarrow> ocfs2_fs \<Rightarrow> ocfs2_fs option" where
  "ocfs2_orphan_scan_unlock M seqno f =
     (if \<not> ocfs2_is_hard_readonly M \<and> \<not> ocfs2_mount_local M
      then ocfs2_cluster_unlock (os_lockres M) DLM_LOCK_EX
        (f\<lparr>fs_lvb := (fs_lvb f)(os_lockres M := orphan_scan_lvb seqno (fs_lvb f (os_lockres M)))\<rparr>)
      else Some f)"

definition ocfs2_super_lock :: "ocfs2_world \<Rightarrow> ocfs2_mount \<Rightarrow> bool \<Rightarrow> ocfs2_fs \<Rightarrow> (int \<times> ocfs2_fs) option" where
  "ocfs2_super_lock W M ex f = (let r = osb_super_lockres M in
     if ocfs2_is_hard_readonly M then Some (-EROFS, f)
     else if ocfs2_mount_local M then Some (0, f)
     else do {
       (status, f) \<leftarrow> ocfs2_cluster_lock W M r (ex_level ex) 0 0 f;
       if status < 0 then Some (status, f)
       else do {
         (refresh, f) \<leftarrow> should_refresh W r f;
         if refresh \<noteq> 0 then do {
           let status = ocfs2_refresh_slot_info W (fs_now f);
           f \<leftarrow> in_super (ocfs2_complete_lock_res_refresh r status) (step_over W f);
           f \<leftarrow> (if status < 0 then ocfs2_cluster_unlock r (ex_level ex) f else Some f);
           Some (status, f)
         }
         else Some (refresh, f)
       }
     })"

definition ocfs2_super_unlock :: "ocfs2_mount \<Rightarrow> bool \<Rightarrow> ocfs2_fs \<Rightarrow> ocfs2_fs option" where
  "ocfs2_super_unlock M ex f =
     (if \<not> ocfs2_mount_local M then ocfs2_cluster_unlock (osb_super_lockres M) (ex_level ex) f else Some f)"

definition ocfs2_rename_lock :: "ocfs2_world \<Rightarrow> ocfs2_mount \<Rightarrow> ocfs2_fs \<Rightarrow> (int \<times> ocfs2_fs) option" where
  "ocfs2_rename_lock W M f =
     (if ocfs2_is_hard_readonly M then Some (-EROFS, f)
      else if ocfs2_mount_local M then Some (0, f)
      else ocfs2_cluster_lock W M (osb_rename_lockres M) DLM_LOCK_EX 0 0 f)"

definition ocfs2_rename_unlock :: "ocfs2_mount \<Rightarrow> ocfs2_fs \<Rightarrow> ocfs2_fs option" where
  "ocfs2_rename_unlock M f =
     (if \<not> ocfs2_mount_local M then ocfs2_cluster_unlock (osb_rename_lockres M) DLM_LOCK_EX f else Some f)"

text \<open>The semaphore: \<open>None\<close> while the process waits for it.\<close>

definition nfs_down :: "bool \<Rightarrow> ocfs2_fs \<Rightarrow> ocfs2_fs option" where
  "nfs_down ex f =
     (if nfs_writer f \<or> ex \<and> nfs_readers f \<noteq> 0 then None
      else Some (if ex then f\<lparr>nfs_writer := True\<rparr> else f\<lparr>nfs_readers := nfs_readers f + 1\<rparr>))"

definition nfs_up :: "bool \<Rightarrow> ocfs2_fs \<Rightarrow> ocfs2_fs" where
  "nfs_up ex f = (if ex then f\<lparr>nfs_writer := False\<rparr> else f\<lparr>nfs_readers := nfs_readers f - 1\<rparr>)"

definition ocfs2_nfs_sync_lock :: "ocfs2_world \<Rightarrow> ocfs2_mount \<Rightarrow> bool \<Rightarrow> ocfs2_fs \<Rightarrow> (int \<times> ocfs2_fs) option" where
  "ocfs2_nfs_sync_lock W M ex f =
     (if ocfs2_is_hard_readonly M then Some (-EROFS, f)
      else do {
        f \<leftarrow> nfs_down ex f;
        if ocfs2_mount_local M then Some (0, f)
        else do {
          (status, f) \<leftarrow> ocfs2_cluster_lock W M (osb_nfs_sync_lockres M) (ex_level ex) 0 0 f;
          Some (status, if status < 0 then nfs_up ex f else f)
        }
      })"

definition ocfs2_nfs_sync_unlock :: "ocfs2_mount \<Rightarrow> bool \<Rightarrow> ocfs2_fs \<Rightarrow> ocfs2_fs option" where
  "ocfs2_nfs_sync_unlock M ex f = do {
     f \<leftarrow> (if \<not> ocfs2_mount_local M then ocfs2_cluster_unlock (osb_nfs_sync_lockres M) (ex_level ex) f else Some f);
     Some (nfs_up ex f)
   }"

definition ocfs2_trim_fs_lock ::
  "ocfs2_world \<Rightarrow> ocfs2_mount \<Rightarrow> ocfs2_trim_fs_info option \<Rightarrow> bool \<Rightarrow> ocfs2_fs \<Rightarrow> (int \<times> ocfs2_trim_fs_info option \<times> ocfs2_fs) option" where
  "ocfs2_trim_fs_lock W M info trylock f = (
     let info = map_option (\<lambda>i. i\<lparr>tf_valid := 0\<rparr>) info; r = osb_trim_fs_lockres M in
     if ocfs2_is_hard_readonly M then Some (-EROFS, info, f)
     else if ocfs2_mount_local M then Some (0, info, f)
     else do {
       (status, f) \<leftarrow> ocfs2_cluster_lock W M r DLM_LOCK_EX (if trylock then DLM_LKF_NOQUEUE else 0) 0 f;
       if status < 0 then Some (status, info, f)
       else do {
         x \<leftarrow> os_res (fs_super f) r;
         Some (status, map_option (trim_fs_read (ocfs2_dlm_lvb_valid x) (fs_lvb f r)) info, f)
       }
     })"

definition ocfs2_trim_fs_unlock :: "ocfs2_mount \<Rightarrow> ocfs2_trim_fs_info option \<Rightarrow> ocfs2_fs \<Rightarrow> ocfs2_fs option" where
  "ocfs2_trim_fs_unlock M info f = (let r = osb_trim_fs_lockres M in
     if ocfs2_mount_local M then Some f
     else ocfs2_cluster_unlock r DLM_LOCK_EX (case info of
         None \<Rightarrow> f
       | Some i \<Rightarrow> f\<lparr>fs_lvb := (fs_lvb f)(r := trim_fs_lvb i (fs_lvb f r))\<rparr>))"

section \<open>Locks of dentries, quota and reference counts\<close>

text \<open>The lock resource \<open>r\<close> of the object is an argument.\<close>

definition ocfs2_dentry_lock :: "ocfs2_world \<Rightarrow> ocfs2_mount \<Rightarrow> rp \<Rightarrow> bool \<Rightarrow> ocfs2_fs \<Rightarrow> (int \<times> ocfs2_fs) option" where
  "ocfs2_dentry_lock W M r ex f =
     (if ocfs2_is_hard_readonly M then Some (if ex then -EROFS else 0, f)
      else if ocfs2_mount_local M then Some (0, f)
      else ocfs2_cluster_lock W M r (ex_level ex) 0 0 f)"

definition ocfs2_dentry_lock_notify ::
  "ocfs2_world \<Rightarrow> ocfs2_mount \<Rightarrow> rp \<Rightarrow> bool \<Rightarrow> u32 \<Rightarrow> ocfs2_fs \<Rightarrow> (int \<times> ocfs2_fs) option" where
  "ocfs2_dentry_lock_notify W M r ex parent_lkid f =
     (if ocfs2_is_hard_readonly M then Some (if ex then -EROFS else 0, f)
      else if ocfs2_mount_local M then Some (0, f)
      else ocfs2_cluster_lock_notify W M r (ex_level ex) DLM_LKF_NOTIFY 0 parent_lkid f)"

definition ocfs2_dentry_unlock :: "ocfs2_mount \<Rightarrow> rp \<Rightarrow> bool \<Rightarrow> ocfs2_fs \<Rightarrow> ocfs2_fs option" where
  "ocfs2_dentry_unlock M r ex f =
     (if \<not> ocfs2_is_hard_readonly M \<and> \<not> ocfs2_mount_local M then ocfs2_cluster_unlock r (ex_level ex) f else Some f)"

definition ocfs2_qinfo_unlock :: "ocfs2_mount \<Rightarrow> rp \<Rightarrow> bool \<Rightarrow> ocfs2_fs \<Rightarrow> ocfs2_fs option" where
  "ocfs2_qinfo_unlock M r ex f =
     (if \<not> ocfs2_is_hard_readonly M \<and> \<not> ocfs2_mount_local M then ocfs2_cluster_unlock r (ex_level ex) f else Some f)"

definition ocfs2_qinfo_lock :: "ocfs2_world \<Rightarrow> ocfs2_mount \<Rightarrow> rp \<Rightarrow> bool \<Rightarrow> ocfs2_fs \<Rightarrow> (int \<times> ocfs2_fs) option" where
  "ocfs2_qinfo_lock W M r ex f =
     (if ocfs2_is_hard_readonly M then Some (if ex then -EROFS else 0, f)
      else if ocfs2_mount_local M then Some (0, f)
      else do {
        (status, f) \<leftarrow> ocfs2_cluster_lock W M r (ex_level ex) 0 0 f;
        if status < 0 then Some (status, f)
        else do {
          (refresh, f) \<leftarrow> should_refresh W r f;
          if refresh = 0 then Some (status, f)
          else do {
            x \<leftarrow> os_res (fs_super f) r;
            let (status, q) = ocfs2_refresh_qinfo (ocfs2_read_quota_phys_block W (fs_now f)) (ocfs2_dlm_lvb_valid x)
              (fs_lvb f r) (fs_qinfo f);
            let f = step_over W (f\<lparr>fs_qinfo := q\<rparr>);
            f \<leftarrow> (if status \<noteq> 0 then ocfs2_qinfo_unlock M r ex f else Some f);
            f \<leftarrow> in_super (ocfs2_complete_lock_res_refresh r status) f;
            Some (status, f)
          }
        }
      })"

definition ocfs2_refcount_lock :: "ocfs2_world \<Rightarrow> ocfs2_mount \<Rightarrow> rp \<Rightarrow> bool \<Rightarrow> ocfs2_fs \<Rightarrow> (int \<times> ocfs2_fs) option" where
  "ocfs2_refcount_lock W M r ex f =
     (if ocfs2_is_hard_readonly M then Some (-EROFS, f)
      else if ocfs2_mount_local M then Some (0, f)
      else ocfs2_cluster_lock W M r (ex_level ex) 0 0 f)"

definition ocfs2_refcount_unlock :: "ocfs2_mount \<Rightarrow> rp \<Rightarrow> bool \<Rightarrow> ocfs2_fs \<Rightarrow> ocfs2_fs option" where
  "ocfs2_refcount_unlock M r ex f =
     (if \<not> ocfs2_mount_local M then ocfs2_cluster_unlock r (ex_level ex) f else Some f)"

section \<open>Locks of a new inode\<close>

definition create_new_lock :: "ocfs2_world \<Rightarrow> rp \<Rightarrow> bool \<Rightarrow> ocfs2_fs \<Rightarrow> (int \<times> ocfs2_fs) option" where
  "create_new_lock W r ex f = do {
     f \<leftarrow> in_super (ocfs2_create_new_lock r) f;
     (gen, f) \<leftarrow> on_super (ocfs2_lock_create r (ex_level ex)) (step_over W f);
     case gen of
       None \<Rightarrow> Some (0, f)
     | Some gen \<Rightarrow> do {
         let ret = dlm_lock_answer W (fs_now f);
         f \<leftarrow> in_super (us_us_lockres_clear_pending r gen) (step_over W f);
         f \<leftarrow> (if ret \<noteq> 0 then in_super (ocfs2_recover_from_dlm_error r True) (step_over W f) else Some f);
         Some (ret, f)
       }
   }"

definition ocfs2_create_new_inode_locks :: "ocfs2_world \<Rightarrow> ocfs2_fs \<Rightarrow> (int \<times> ocfs2_fs) option" where
  "ocfs2_create_new_inode_locks W f = do {
     _ \<leftarrow> dlm_assert (ocfs2_inode_is_new W (fs_inode f));
     (ret, f) \<leftarrow> create_new_lock W (ip_rw_lockres (fs_inode f)) True f;
     if ret \<noteq> 0 then Some (ret, f)
     else do {
       (ret, f) \<leftarrow> create_new_lock W (ip_inode_lockres (fs_inode f)) True f;
       if ret \<noteq> 0 then Some (ret, f) else create_new_lock W (ip_open_lockres (fs_inode f)) False f
     }
   }"

end
