(* ===== verification/Ocfs2_Call_Properties.thy ===== *)
theory Ocfs2_Call_Properties
  imports Ocfs2_Calls
begin

text \<open>
  What the calls of one process do to the holder counts of lock resources and to the buffers it refers to,
  whatever the lock manager answers and however often the process sleeps.
\<close>

section \<open>Sections and holder counts\<close>

definition holders_of :: "rp \<Rightarrow> ocfs2_super \<Rightarrow> (u32 \<times> u32) option" where
  "holders_of r s = map_option (\<lambda>x. (l_ro_holders x, l_ex_holders x)) (os_res s r)"

text \<open>A process that has been completed has been told the status 0.\<close>

definition told :: "ocfs2_mask_waiter \<Rightarrow> bool" where
  "told m \<longleftrightarrow> mw_complete m = 0 \<or> mw_status m = 0"

definition told_all :: "ocfs2_super \<Rightarrow> ocfs2_super \<Rightarrow> bool" where
  "told_all s s' \<longleftrightarrow> (\<forall>w. told (os_mws s w) \<longrightarrow> told (os_mws s' w))"

definition same_holders :: "ocfs2_super \<Rightarrow> ocfs2_super \<Rightarrow> bool" where
  "same_holders s s' \<longleftrightarrow> (\<forall>r. holders_of r s' = holders_of r s) \<and> told_all s s'"

definition one_up :: "int \<Rightarrow> u32 \<times> u32 \<Rightarrow> u32 \<times> u32" where
  "one_up level c = (if level = DLM_LOCK_EX then (fst c, snd c + 1) else (fst c + 1, snd c))"

definition one_more :: "rp \<Rightarrow> int \<Rightarrow> ocfs2_super \<Rightarrow> ocfs2_super \<Rightarrow> bool" where
  "one_more r level s s' \<longleftrightarrow> told_all s s' \<and>
     (\<forall>r'. holders_of r' s' = (if r' = r then map_option (one_up level) (holders_of r s) else holders_of r' s))"

lemma holders_refl [simp]: "same_holders s s"
  by (simp add: same_holders_def told_all_def)

lemma holders_trans [trans]: "same_holders s s1 \<Longrightarrow> same_holders s1 s2 \<Longrightarrow> same_holders s s2"
  by (simp add: same_holders_def told_all_def)

lemma same_more: "same_holders s s1 \<Longrightarrow> one_more r l s1 s2 \<Longrightarrow> one_more r l s s2"
  by (simp add: same_holders_def one_more_def told_all_def)

lemma more_same: "one_more r l s s1 \<Longrightarrow> same_holders s1 s2 \<Longrightarrow> one_more r l s s2"
  by (simp add: same_holders_def one_more_def told_all_def)

lemma same_put [simp]:
  "os_res s r = Some y \<Longrightarrow> l_ro_holders y' = l_ro_holders y \<Longrightarrow> l_ex_holders y' = l_ex_holders y \<Longrightarrow>
   same_holders s (s\<lparr>os_res := (os_res s)(r \<mapsto> y')\<rparr>)"
  by (simp add: same_holders_def holders_of_def told_all_def)

lemma same_upd:
  "upd_res r f s = Some s' \<Longrightarrow> (\<And>x. l_ro_holders (f x) = l_ro_holders x) \<Longrightarrow> (\<And>x. l_ex_holders (f x) = l_ex_holders x) \<Longrightarrow>
   same_holders s s'"
  by (auto simp: upd_res_eq_Some_iff)

lemma same_mw [simp]:
  "(\<And>m. told m \<Longrightarrow> told (f m)) \<Longrightarrow> same_holders s s' \<Longrightarrow> same_holders s (upd_mw w f s')"
  by (simp add: same_holders_def holders_of_def upd_mw_def told_all_def)

lemma told_update [simp]:
  "told (m\<lparr>mw_complete := 0\<rparr>)" "told (m\<lparr>mw_item := b\<rparr>) = told m" "told (m\<lparr>mw_mask := fl\<rparr>) = told m"
  "told (m\<lparr>mw_goal := fl\<rparr>) = told m" "told (complete_mw m)"
  by (simp_all add: told_def complete_mw_def)

lemma same_wake [simp]: "same_holders s (ocfs2_wake_downconvert_thread s') = same_holders s s'"
  by (simp add: same_holders_def holders_of_def told_all_def ocfs2_wake_downconvert_thread_def)

lemma wake_told: "wake_mask_waiters fl ws m = (ws', m') \<Longrightarrow> told (m w) \<Longrightarrow> told (m' w)"
proof (induction ws arbitrary: m ws')
  case (Cons v ws)
  show ?case
  proof (cases "mw_reached fl (m v)")
    case True
    have "told ((m(v := complete_mw (m v))) w)" using Cons.prems by simp
    moreover have "wake_mask_waiters fl ws (m(v := complete_mw (m v))) = (ws', m')" using True Cons.prems by simp
    ultimately show ?thesis using Cons.IH by blast
  next
    case False
    then show ?thesis using Cons by (auto split: prod.splits)
  qed
qed simp

lemma same_set_flags: "lockres_set_flags r fl s = Some s' \<Longrightarrow> same_holders s s'"
  by (cases "os_res s r"; cases "wake_mask_waiters fl (l_mask_waiters (the (os_res s r))) (os_mws s)")
    (auto simp: lockres_set_flags_def same_holders_def holders_of_def told_all_def dest: wake_told)

lemma same_or: "lockres_or_flags r fl s = Some s' \<Longrightarrow> same_holders s s'"
  by (auto simp: lockres_or_flags_def bind_eq_Some_conv intro: same_set_flags)

lemma same_clear: "lockres_clear_flags r fl s = Some s' \<Longrightarrow> same_holders s s'"
  by (auto simp: lockres_clear_flags_def bind_eq_Some_conv intro: same_set_flags)

lemmas holders_flags = same_or same_clear

lemma same_add: "lockres_add_mask_waiter r w fl goal s = Some s' \<Longrightarrow> same_holders s s'"
  by (auto simp: lockres_add_mask_waiter_def bind_eq_Some_conv upd_res_eq_Some_iff)

lemma same_remove: "us_us_lockres_remove_mask_waiter r w s = Some (b, s') \<Longrightarrow> same_holders s s'"
  by (auto simp: us_us_lockres_remove_mask_waiter_def bind_eq_Some_conv Let_def split: if_splits)

lemma same_unlock: "cluster_lock_unlock r s = Some s' \<Longrightarrow> same_holders s s'"
  by (auto simp: cluster_lock_unlock_def bind_eq_Some_conv split: if_splits dest!: same_clear)

lemma same_clear_pending: "us_us_lockres_clear_pending r gen s = Some s' \<Longrightarrow> same_holders s s'"
  by (auto simp: us_us_lockres_clear_pending_def bind_eq_Some_conv split: if_splits
      dest!: same_clear same_upd intro: holders_trans)

lemma same_set_pending: "lockres_set_pending r s = Some (g, s') \<Longrightarrow> same_holders s s'"
  by (auto simp: lockres_set_pending_def bind_eq_Some_conv intro: same_or)

lemma same_recover: "ocfs2_recover_from_dlm_error r c s = Some s' \<Longrightarrow> same_holders s s'"
  by (auto simp: ocfs2_recover_from_dlm_error_def bind_eq_Some_conv dest!: same_clear same_upd split: if_splits intro: holders_trans)

lemma same_sleep: "ocfs2_wait_for_mask w s = Some (ret, s') \<Longrightarrow> same_holders s s'"
  by (auto simp: ocfs2_wait_for_mask_def split: if_splits)

lemma same_complete: "ocfs2_complete_lock_res_refresh r status s = Some s' \<Longrightarrow> same_holders s s'"
  by (auto simp: ocfs2_complete_lock_res_refresh_def bind_eq_Some_conv split: if_splits dest!: same_clear intro: holders_trans)

lemma same_should: "ocfs2_should_refresh_lock_res r s = Some (b, s') \<Longrightarrow> same_holders s s'"
  by (auto simp: ocfs2_should_refresh_lock_res_def bind_eq_Some_conv split: if_splits dest!: same_or)

lemma one_more_hold:
  assumes "cluster_lock_hold c s = Some (t, s')"
  shows "t = Turn_return 0 \<and> one_more (lc_res c) (lc_level c) s s'"
proof -
  obtain s1 where 1: "ocfs2_inc_holders (lc_res c) (lc_level c) s = Some s1" "cluster_lock_unlock (lc_res c) s1 = Some s'"
    and t: "t = Turn_return 0"
    using assms by (auto simp: cluster_lock_hold_def cluster_lock_return_def bind_eq_Some_conv)
  have "one_more (lc_res c) (lc_level c) s s1"
    using 1(1) by (auto simp: ocfs2_inc_holders_def upd_res_eq_Some_iff one_more_def told_all_def holders_of_def one_up_def split: if_splits)
  then show ?thesis using t more_same same_unlock 1(2) by blast
qed

section \<open>The cluster lock\<close>

fun turn_counts :: "rp \<Rightarrow> int \<Rightarrow> ocfs2_super \<Rightarrow> lock_turn \<Rightarrow> ocfs2_super \<Rightarrow> bool" where
  "turn_counts r l s (Turn_return ret) s' \<longleftrightarrow> (if ret = 0 then one_more r l s s' else ret < 0 \<and> same_holders s s')"
| "turn_counts r l s (Turn_wait c) s' \<longleftrightarrow> lc_res c = r \<and> lc_level c = l \<and> same_holders s s'"
| "turn_counts r l s (Turn_call c g) s' \<longleftrightarrow> lc_res c = r \<and> lc_level c = l \<and> same_holders s s'"
| "turn_counts r l s (Turn_again c) s' \<longleftrightarrow> lc_res c = r \<and> lc_level c = l \<and> same_holders s s'"

lemma counts_trans: "same_holders s s1 \<Longrightarrow> turn_counts r l s1 t s2 \<Longrightarrow> turn_counts r l s t s2"
  by (cases t) (auto intro: holders_trans same_more split: if_splits)

lemma counts_same: "turn_counts r l s t s1 \<Longrightarrow> same_holders s1 s2 \<Longrightarrow> turn_counts r l s t s2"
  by (cases t) (auto intro: holders_trans more_same split: if_splits)

lemma return_counts: "cluster_lock_return ret c s = Some (t, s') \<Longrightarrow> ret < 0 \<Longrightarrow> turn_counts r l s t s'"
  by (auto simp: cluster_lock_return_def bind_eq_Some_conv dest!: same_unlock)

lemma wait_counts: "cluster_lock_wait w fl c s = Some (t, s') \<Longrightarrow> turn_counts (lc_res c) (lc_level c) s t s'"
  by (auto simp: cluster_lock_wait_def bind_eq_Some_conv dest!: same_unlock same_add intro: holders_trans)

lemma hold_counts: "cluster_lock_hold c s = Some (t, s') \<Longrightarrow> turn_counts (lc_res c) (lc_level c) s t s'"
  by (auto dest!: one_more_hold)

lemma ask_counts:
  assumes "cluster_lock_ask c s = Some (t, s')" shows "turn_counts (lc_res c) (lc_level c) s t s'"
proof -
  obtain f s1 s2 g where 1: "upd_res (lc_res c) f s = Some s1" "\<And>x. l_ro_holders (f x) = l_ro_holders x"
      "\<And>x. l_ex_holders (f x) = l_ex_holders x"
    and 2: "lockres_or_flags (lc_res c) {OCFS2_LOCK_BUSY} s1 = Some s2" and 3: "lockres_set_pending (lc_res c) s2 = Some (g, s')"
    and t: "\<exists>c'. t = Turn_call c' g \<and> lc_res c' = lc_res c \<and> lc_level c' = lc_level c"
    using assms unfolding cluster_lock_ask_def Let_def by (auto simp: bind_eq_Some_conv)
  have "same_holders s s'" using same_upd[OF 1] same_or[OF 2] same_set_pending[OF 3] by (blast intro: holders_trans)
  then show ?thesis using t by auto
qed

lemma again_counts:
  assumes "cluster_lock_again signal w c s = Some (t, s')" shows "turn_counts (lc_res c) (lc_level c) s t s'"
  using assms unfolding cluster_lock_again_def Let_def
  by (auto simp: bind_eq_Some_conv split: if_splits intro: hold_counts wait_counts ask_counts elim!: return_counts)

lemma out_counts:
  assumes "cluster_lock_out w c s = Some (t, s')" and told: "told (os_mws s w)"
  shows "turn_counts (lc_res c) (lc_level c) s t s'"
proof (cases "has_flag (lc_arg_flags c) OCFS2_LOCK_NONBLOCK")
  case True
  then show ?thesis using assms(1)
    by (auto simp: cluster_lock_out_def cluster_lock_nonblock_def bind_eq_Some_conv split: if_splits
        dest!: same_remove same_or intro: holders_trans)
next
  case False
  then have "cluster_lock_sleep w c s = Some (t, s')" using assms(1) by (simp add: cluster_lock_out_def)
  then show ?thesis using told
    by (auto simp: cluster_lock_sleep_def ocfs2_wait_for_mask_def told_def bind_eq_Some_conv split: if_splits)
qed

section \<open>Calls\<close>

text \<open>From \<open>f\<close> to \<open>f'\<close>: one holder more or the holders there were, \<open>k\<close> references to buffers more.\<close>

definition moved :: "bool \<Rightarrow> rp \<Rightarrow> int \<Rightarrow> int \<Rightarrow> ocfs2_fs \<Rightarrow> ocfs2_fs \<Rightarrow> bool" where
  "moved taken r level k f f' \<longleftrightarrow>
     (if taken then one_more r level (fs_super f) (fs_super f') else same_holders (fs_super f) (fs_super f')) \<and>
     fs_bhs f' = fs_bhs f + k \<and> ip_inode_lockres (fs_inode f') = ip_inode_lockres (fs_inode f)"

abbreviation (input) stays :: "ocfs2_fs \<Rightarrow> ocfs2_fs \<Rightarrow> bool" where "stays \<equiv> moved False 0 0 0"

text \<open>No other process of the node takes or releases a lock while the call runs; the lock manager and the thread
  do what they like. Their calls answer 0 or an error.\<close>

definition undisturbed :: "ocfs2_world \<Rightarrow> bool" where
  "undisturbed W \<longleftrightarrow> (\<forall>n f. stays f (others W n f)) \<and>
     (\<forall>fe i. ip_inode_lockres (ocfs2_refresh_inode W fe i) = ip_inode_lockres i) \<and>
     (\<forall>n. dlm_lock_answer W n \<le> 0) \<and> (\<forall>n. fst (ocfs2_read_inode_block W n) \<le> 0)"

lemma moved_trans: "moved False r0 l0 j f f1 \<Longrightarrow> moved b r l k f1 f2 \<Longrightarrow> moved b r l (j + k) f f2"
  by (auto simp: moved_def intro: holders_trans same_more)

lemma moved_then: "moved b r l j f f1 \<Longrightarrow> moved False r0 l0 k f1 f2 \<Longrightarrow> moved b r l (j + k) f f2"
  by (auto simp: moved_def intro: holders_trans more_same)

lemma stays_refl [simp]: "moved False r l 0 f f"
  by (simp add: moved_def)

lemma moved_any: "moved False r l k f f' \<Longrightarrow> moved False r' l' k f f'"
  by (simp add: moved_def)

lemma stays_step: "undisturbed W \<Longrightarrow> stays f (step_over W f)"
  unfolding undisturbed_def step_over_def by (auto simp: moved_def)

lemma stays_super: "in_super m f = Some f' \<Longrightarrow> (\<And>s s'. m s = Some s' \<Longrightarrow> same_holders s s') \<Longrightarrow> stays f f'"
  by (auto simp: in_super_def moved_def bind_eq_Some_conv)

lemma told_step: "stays f f' \<Longrightarrow> told (os_mws (fs_super f) w) \<Longrightarrow> told (os_mws (fs_super f') w)"
  by (simp add: moved_def same_holders_def told_all_def)

fun turn_moves :: "rp \<Rightarrow> int \<Rightarrow> ocfs2_fs \<Rightarrow> lock_turn \<Rightarrow> ocfs2_fs \<Rightarrow> bool" where
  "turn_moves r l f t f' \<longleftrightarrow> turn_counts r l (fs_super f) t (fs_super f') \<and> fs_bhs f' = fs_bhs f \<and>
     ip_inode_lockres (fs_inode f') = ip_inode_lockres (fs_inode f)"

lemma moves_step: "undisturbed W \<Longrightarrow> turn_moves r l f t f1 \<Longrightarrow> turn_moves r l f t (step_over W f1)"
  using stays_step[of W f1] by (auto simp: moved_def intro: counts_same)

lemma moves_on:
  assumes "turn_moves r l f t0 f1" and "on_super m f1 = Some (t, f2)"
    and "\<And>s'. m (fs_super f1) = Some (t, s') \<Longrightarrow> turn_counts r l (fs_super f1) t s'"
    and "same_holders (fs_super f) (fs_super f1)"
  shows "turn_moves r l f t f2"
  using assms by (auto simp: on_super_def bind_eq_Some_conv intro: counts_trans)

lemma failed_counts:
  "cluster_lock_failed c ret s = Some (t, s') \<Longrightarrow> ret < 0 \<Longrightarrow> turn_counts r l s t s'"
  by (auto simp: cluster_lock_failed_def bind_eq_Some_conv dest!: same_recover)

lemma turn_keeps:
  assumes W: "undisturbed W" and i: "turn_moves r l f t f1" "told (os_mws (fs_super f1) (my_mw W))"
    and p: "cluster_lock_turn W (t, f1) = Some p"
  shows "case p of Retry (t', f2) \<Rightarrow> turn_moves r l f t' f2 \<and> told (os_mws (fs_super f2) (my_mw W))
    | Done (ret, f2) \<Rightarrow> ret \<le> 0 \<and> moved (ret = 0) r l 0 f f2"
proof -
  have tell: "told (os_mws s' (my_mw W))" if "turn_counts r l (fs_super f1) t' s'" for t' s'
    using that i(2) by (cases t') (auto simp: same_holders_def one_more_def told_all_def split: if_splits)
  have step: "turn_moves r l f t' (step_over W f2) \<and> told (os_mws (fs_super (step_over W f2)) (my_mw W))"
    if "turn_moves r l f t' f2" "told (os_mws (fs_super f2) (my_mw W))" for t' f2
    using moves_step[OF W that(1)] told_step[OF stays_step[OF W] that(2)] by blast
  show ?thesis
  proof (cases t)
    case (Turn_return ret)
    then show ?thesis using i p by (auto simp: moved_def split: if_splits)
  next
    case (Turn_again c)
    then have c: "lc_res c = r" "lc_level c = l" "same_holders (fs_super f) (fs_super f1)" using i by auto
    obtain t' f2 where 2: "on_super (cluster_lock_again (signal_pending W (fs_now f1)) (my_mw W) c) f1 = Some (t', f2)"
      "p = Retry (t', step_over W f2)" using p Turn_again by (auto simp: bind_eq_Some_conv)
    have n: "turn_counts r l (fs_super f1) t' s'"
      if "cluster_lock_again (signal_pending W (fs_now f1)) (my_mw W) c (fs_super f1) = Some (t', s')" for s'
      using again_counts[OF that] c by simp
    have "turn_moves r l f t' f2" by (rule moves_on[OF i(1) 2(1) n c(3)])
    moreover have "told (os_mws (fs_super f2) (my_mw W))" using 2(1) n tell by (auto simp: on_super_def bind_eq_Some_conv)
    ultimately show ?thesis using step 2(2) by auto
  next
    case (Turn_wait c)
    then have c: "lc_res c = r" "lc_level c = l" "same_holders (fs_super f) (fs_super f1)" using i by auto
    obtain t' f2 where 2: "on_super (cluster_lock_out (my_mw W) c) f1 = Some (t', f2)"
      "p = Retry (t', step_over W f2)" using p Turn_wait by (auto simp: bind_eq_Some_conv)
    have n: "turn_counts r l (fs_super f1) t' s'" if "cluster_lock_out (my_mw W) c (fs_super f1) = Some (t', s')" for s'
      using out_counts[OF that i(2)] c by simp
    have "turn_moves r l f t' f2" by (rule moves_on[OF i(1) 2(1) n c(3)])
    moreover have "told (os_mws (fs_super f2) (my_mw W))" using 2(1) n tell by (auto simp: on_super_def bind_eq_Some_conv)
    ultimately show ?thesis using step 2(2) by auto
  next
    case (Turn_call c g)
    then have c: "lc_res c = r" "lc_level c = l" "same_holders (fs_super f) (fs_super f1)" using i by auto
    obtain f2 where 2: "in_super (cluster_lock_called c g) f1 = Some f2"
      using p Turn_call by (auto simp: Let_def bind_eq_Some_conv split: if_splits)
    have s: "stays f1 f2" by (rule stays_super[OF 2]) (simp add: cluster_lock_called_def same_clear_pending)
    then have m: "turn_moves r l f (Turn_again c) f2" using i c by (auto simp: moved_def intro: holders_trans)
    have t2: "told (os_mws (fs_super f2) (my_mw W))" using told_step[OF s i(2)] .
    show ?thesis
    proof (cases "dlm_lock_answer W (fs_now f1) = 0")
      case True
      then have "p = Retry (Turn_again (cluster_lock_asked c), step_over W f2)"
        using p Turn_call 2 by (simp add: Let_def)
      moreover have "turn_moves r l f (Turn_again (cluster_lock_asked c)) f2" using m by (simp add: cluster_lock_asked_def)
      then have "turn_moves r l f (Turn_again (cluster_lock_asked c)) (step_over W f2) \<and>
          told (os_mws (fs_super (step_over W f2)) (my_mw W))" using step t2 by blast
      ultimately show ?thesis by (simp del: turn_moves.simps)
    next
      case False
      then have neg: "dlm_lock_answer W (fs_now f1) < 0" using W unfolding undisturbed_def by (metis order_le_less)
      obtain t' f3 where 3: "on_super (cluster_lock_failed c (dlm_lock_answer W (fs_now f1))) (step_over W f2) = Some (t', f3)"
        "p = Retry (t', step_over W f3)" using p Turn_call 2 False by (auto simp: Let_def bind_eq_Some_conv)
      have m3: "turn_moves r l f (Turn_again c) (step_over W f2)" "told (os_mws (fs_super (step_over W f2)) (my_mw W))"
        using step[OF m t2] by auto
      have n: "turn_counts r l (fs_super (step_over W f2)) t' s'"
        if "cluster_lock_failed c (dlm_lock_answer W (fs_now f1)) (fs_super (step_over W f2)) = Some (t', s')" for s'
        by (rule failed_counts[OF that neg])
      have "same_holders (fs_super f) (fs_super (step_over W f2))" using m3(1) by simp
      then have "turn_moves r l f t' f3" using moves_on[OF m3(1) 3(1) n] by blast
      moreover have "told (os_mws (fs_super f3) (my_mw W))" using 3(1) n m3(2)
        by (cases t') (auto simp: on_super_def bind_eq_Some_conv same_holders_def one_more_def told_all_def split: if_splits)
      ultimately show ?thesis using step 3(2) by auto
    qed
  qed
qed

lemma cluster_lock_moves:
  assumes W: "undisturbed W" and c: "us_us_ocfs2_cluster_lock W M r l fl af parent f = Some (ret, f')"
  shows "ret \<le> 0 \<and> moved (ret = 0) r l 0 f f'"
proof -
  obtain t f1 where 1: "on_super (cluster_lock_begin (mount_nointr M) (my_mw W) r l fl af parent) f = Some (t, f1)"
    and 2: "retry (cluster_lock_turn W) (t, f1) = Some (ret, f')"
    using c by (auto simp: us_us_ocfs2_cluster_lock_def bind_eq_Some_conv)
  have b: "turn_moves r l f t f1 \<and> (told (os_mws (fs_super f1) (my_mw W)) \<or> (\<exists>e. t = Turn_return e \<and> e < 0 \<and> stays f f1))"
    using 1 by (auto simp: on_super_def cluster_lock_begin_def ocfs2_init_mask_waiter_def upd_mw_def told_def moved_def
        same_holders_def holders_of_def told_all_def bind_eq_Some_conv split: if_splits)
  show ?thesis
  proof (cases "told (os_mws (fs_super f1) (my_mw W))")
    case True
    let ?I = "\<lambda>(t, f1). turn_moves r l f t f1 \<and> told (os_mws (fs_super f1) (my_mw W))"
    let ?Q = "\<lambda>(ret, f2). ret \<le> 0 \<and> moved (ret = 0) r l 0 f f2"
    have "?Q (ret, f')"
    proof (rule retry_invariant[where I = ?I and Q = ?Q, OF _ _ 2])
      show "?I (t, f1)" using b True by simp
      fix x p assume x: "?I x" and p: "cluster_lock_turn W x = Some p"
      obtain t1 f2 where [simp]: "x = (t1, f2)" by (cases x)
      from turn_keeps[OF W _ _ p[simplified]] x show "case p of Retry y \<Rightarrow> ?I y | Done y \<Rightarrow> ?Q y"
        by (auto split: pass.splits)
    qed
    then show ?thesis by simp
  next
    case False
    then obtain e where "t = Turn_return e" "e < 0" "stays f f1" using b by blast
    then show ?thesis using 2 by (auto simp: retry_Done moved_def)
  qed
qed

section \<open>The metadata lock\<close>

definition one_down :: "int \<Rightarrow> u32 \<times> u32 \<Rightarrow> u32 \<times> u32" where
  "one_down level c = (if level = DLM_LOCK_EX then (fst c, snd c - 1) else (fst c - 1, snd c))"

lemma down_up: "one_down l \<circ> one_up l = id"
  by (auto simp: one_down_def one_up_def)

lemma one_less:
  assumes "one_more r l s s1" "same_holders s1 s2" "us_us_ocfs2_cluster_unlock r l s2 = Some s3"
  shows "same_holders s s3"
proof -
  obtain s4 where 4: "ocfs2_dec_holders r l s2 = Some s4" "ocfs2_downconvert_on_unlock r s4 = Some s3"
    using assms(3) by (auto simp: us_us_ocfs2_cluster_unlock_def bind_eq_Some_conv)
  have "same_holders s4 s3" using 4(2)
    by (auto simp: ocfs2_downconvert_on_unlock_def bind_eq_Some_conv split: if_splits)
  moreover have "told_all s2 s4 \<and> (\<forall>r'. holders_of r' s4 = (if r' = r then map_option (one_down l) (holders_of r s2) else holders_of r' s2))"
    using 4(1) by (auto simp: ocfs2_dec_holders_def upd_res_eq_Some_iff holders_of_def one_down_def told_all_def bind_eq_Some_conv
        split: if_splits)
  then have "same_holders s s4" using assms(1,2)
    unfolding one_more_def same_holders_def told_all_def by (simp add: option.map_comp down_up option.map_id)
  ultimately show ?thesis by (blast intro: holders_trans)
qed

lemma unlock_moves:
  assumes "moved True (ip_inode_lockres (fs_inode f')) (ex_level ex) k f f'" and "ocfs2_inode_unlock M ex f' = Some f2"
    and "\<not> ocfs2_is_hard_readonly M" "\<not> ocfs2_mount_local M"
  shows "moved False r l k f f2"
  using assms one_less[OF _ holders_refl, of "ip_inode_lockres (fs_inode f')" "ex_level ex"]
  by (auto simp: ocfs2_inode_unlock_def ocfs2_cluster_unlock_def in_super_def moved_def bind_eq_Some_conv)

lemma should_refresh_stays:
  assumes W: "undisturbed W" and r: "should_refresh W r f = Some (b, f')"
  shows "stays f f'"
proof -
  have "(\<lambda>(b, f'). stays f f') (b, f')"
  proof (rule retry_invariant[where I = "stays f", OF _ _ r[unfolded should_refresh_def]])
    fix f1 p assume i: "stays f f1" and p: "refresh_check W r f1 = Some p"
    have "stays f (step_over W f1)" using moved_trans[OF i stays_step[OF W]] by simp
    moreover have "stays f f2" if "on_super (ocfs2_should_refresh_lock_res r) f1 = Some (b, f2)" for b f2
      using i that by (auto simp: on_super_def moved_def bind_eq_Some_conv dest!: same_should intro: holders_trans)
    ultimately show "case p of Retry f' \<Rightarrow> stays f f' | Done a \<Rightarrow> (\<lambda>(b, f'). stays f f') a"
      using p by (auto simp: refresh_check_def bind_eq_Some_conv split: if_splits)
  qed simp
  then show ?thesis by simp
qed

lemma read_moves:
  assumes W: "undisturbed W" and r: "read_inode_block W f = (status, fe, f')"
  shows "status \<le> 0 \<and> moved False r l (if status < 0 then 0 else 1) f f'"
proof -
  obtain st fe1 where 1: "ocfs2_read_inode_block W (fs_now f) = (st, fe1)" by fastforce
  have "fst (ocfs2_read_inode_block W (fs_now f)) \<le> 0" using W by (simp add: undisturbed_def)
  then have "st \<le> 0" using 1 by simp
  moreover have "status = st" "f' = (if st < 0 then step_over W f else (step_over W f)\<lparr>fs_bhs := fs_bhs (step_over W f) + 1\<rparr>)"
    using r 1 by (auto simp: read_inode_block_def Let_def)
  ultimately show ?thesis using stays_step[OF W, of f] by (simp add: moved_def)
qed

lemma refresh_moves:
  assumes W: "undisturbed W" and r: "inode_refresh W f = Some (status, bh, f')"
  shows "status \<le> 0 \<and> moved False 0 0 (if bh then 1 else 0) f f'"
proof -
  obtain x where x: "os_res (fs_super f) (ip_inode_lockres (fs_inode f)) = Some x"
    using r by (auto simp: inode_refresh_def Let_def bind_eq_Some_conv)
  show ?thesis
  proof (cases "ocfs2_meta_lvb_is_trustable (ocfs2_dlm_lvb_valid x) (fs_lvb f (ip_inode_lockres (fs_inode f))) (fs_inode f)")
    case True
    then show ?thesis using r x
      by (auto simp: inode_refresh_def Let_def ocfs2_refresh_inode_from_lvb_def moved_def split: if_splits)
  next
    case False
    obtain st fe f1 where 1: "read_inode_block W f = (st, fe, f1)" by (metis prod_cases3)
    from read_moves[OF W 1] have m: "st \<le> 0" "moved False 0 0 (if st < 0 then 0 else 1) f f1" by auto
    have p: "ip_inode_lockres (ocfs2_refresh_inode W fe i) = ip_inode_lockres i" for fe i using W by (simp add: undisturbed_def)
    show ?thesis using r x False 1 m
      by (auto simp: inode_refresh_def Let_def moved_def p bind_eq_Some_conv split: if_splits)
  qed
qed

lemma update_moves:
  assumes W: "undisturbed W" and u: "ocfs2_inode_lock_update W M f = Some (status, bh, f')"
  shows "status \<le> 0 \<and> moved False 0 0 (if bh then 1 else 0) f f'"
proof -
  consider "status \<le> 0" "\<not> bh" "f' = f" | b f1 where "should_refresh W (ip_inode_lockres (fs_inode f)) f = Some (b, f1)"
      "status = 0" "\<not> bh" "f' = f1"
    | b f1 f2 where "should_refresh W (ip_inode_lockres (fs_inode f)) f = Some (b, f1)"
      "inode_refresh W f1 = Some (status, bh, f2)"
      "in_super (ocfs2_complete_lock_res_refresh (ip_inode_lockres (fs_inode f)) status) f2 = Some f'"
    using u by (auto simp: ocfs2_inode_lock_update_def Let_def bind_eq_Some_conv split: if_splits)
  then show ?thesis
  proof cases
    case 1 then show ?thesis by simp
  next
    case 2 then show ?thesis using should_refresh_stays[OF W 2(1)] by simp
  next
    case 3
    have "stays f2 f'" by (rule stays_super[OF 3(3)]) (rule same_complete)
    then show ?thesis
      using moved_trans[OF should_refresh_stays[OF W 3(1)]] refresh_moves[OF W 3(2)] moved_then by fastforce
  qed
qed

text \<open>The end of a call, with the holder it has taken or without.\<close>

lemma bail_moves:
  assumes b: "inode_lock_bail M ex acquired status bh local_bh f = Some (ret, got, f')"
    and m: "moved acquired (ip_inode_lockres (fs_inode f)) (ex_level ex)
      ((if bh then 1 else 0) + (if local_bh then 1 else 0)) f0 f"
    and a: "acquired \<longrightarrow> \<not> ocfs2_is_hard_readonly M \<and> \<not> ocfs2_mount_local M"
  shows "ret = status \<and> got = (bh \<and> 0 \<le> status) \<and>
    moved (0 \<le> status \<and> acquired) (ip_inode_lockres (fs_inode f)) (ex_level ex) (if got then 1 else 0) f0 f'"
proof -
  let ?r = "ip_inode_lockres (fs_inode f)"
  define f1 where "f1 = (if status < 0 \<and> bh then f\<lparr>fs_bhs := fs_bhs f - 1\<rparr> else f)"
  obtain f2 where 2: "(if status < 0 \<and> acquired then ocfs2_inode_unlock M ex f1 else Some f1) = Some f2"
    and r: "ret = status" "got = (0 \<le> status \<and> bh)" "f' = (if local_bh then f2\<lparr>fs_bhs := fs_bhs f2 - 1\<rparr> else f2)"
    using b unfolding inode_lock_bail_def Let_def f1_def[symmetric] by (auto simp: bind_eq_Some_conv)
  let ?k = "(if bh \<and> 0 \<le> status then 1 else 0) + (if local_bh then 1 else 0)"
  have m1: "moved acquired ?r (ex_level ex) ?k f0 f1" and i1: "ip_inode_lockres (fs_inode f1) = ?r"
    using m by (auto simp: f1_def moved_def)
  have "moved (0 \<le> status \<and> acquired) ?r (ex_level ex) ?k f0 f2"
  proof (cases "status < 0 \<and> acquired")
    case True
    then have "moved True (ip_inode_lockres (fs_inode f1)) (ex_level ex) ?k f0 f1" "ocfs2_inode_unlock M ex f1 = Some f2"
      using m1 i1 2 by auto
    from unlock_moves[OF this] a True show ?thesis by auto
  next
    case False
    then show ?thesis using m1 2 by (auto simp: moved_def split: if_splits)
  qed
  then show ?thesis using r by (auto simp: moved_def)
qed

lemma getbh_moves:
  assumes W: "undisturbed W" and g: "inode_lock_getbh W M ret_bh ex acquired status local_bh f = Some (ret, got, f')"
    and s: "status \<le> 0" "acquired \<longrightarrow> status = 0"
    and m: "moved acquired (ip_inode_lockres (fs_inode f)) (ex_level ex) (if local_bh then 1 else 0) f0 f"
    and a: "acquired \<longrightarrow> \<not> ocfs2_is_hard_readonly M \<and> \<not> ocfs2_mount_local M"
  shows "ret \<le> 0 \<and> (got \<longrightarrow> ret_bh \<and> 0 \<le> ret) \<and>
    moved (0 \<le> ret \<and> acquired) (ip_inode_lockres (fs_inode f)) (ex_level ex) (if got then 1 else 0) f0 f'"
proof (cases ret_bh)
  case True
  obtain st f1 where 1: "ocfs2_assign_bh W local_bh f = (st, f1)" by fastforce
  have m1: "st \<le> 0 \<and> moved False 0 0 (if 0 \<le> st then 1 else 0) f f1"
  proof (cases local_bh)
    case False
    then obtain fe where "read_inode_block W f = (st, fe, f1)" using 1 by (auto simp: ocfs2_assign_bh_def split: prod.splits)
    from read_moves[OF W this] show ?thesis by (auto simp: moved_def)
  qed (use 1 in \<open>auto simp: ocfs2_assign_bh_def moved_def\<close>)
  have "inode_lock_bail M ex acquired st (0 \<le> st) local_bh f1 = Some (ret, got, f')"
    using g True 1 by (simp add: inode_lock_getbh_def)
  moreover have i: "ip_inode_lockres (fs_inode f1) = ip_inode_lockres (fs_inode f)" using m1 by (simp add: moved_def)
  moreover have "moved acquired (ip_inode_lockres (fs_inode f)) (ex_level ex)
      ((if 0 \<le> st then 1 else 0) + (if local_bh then 1 else 0)) f0 f1"
    using moved_then[OF m conjunct2[OF m1]] by (simp add: add.commute)
  ultimately show ?thesis using bail_moves[of M ex acquired st "0 \<le> st" local_bh f1 ret got f' f0] a m1 True by auto
next
  case False
  then have "inode_lock_bail M ex acquired status False local_bh f = Some (ret, got, f')"
    using g by (simp add: inode_lock_getbh_def)
  from bail_moves[OF this, of f0] show ?thesis using s m a by auto
qed

lemma have_moves:
  assumes W: "undisturbed W" and h: "inode_lock_have W M ret_bh ex acquired f = Some (ret, got, f')"
    and m: "moved acquired (ip_inode_lockres (fs_inode f)) (ex_level ex) 0 f0 f"
    and a: "acquired \<longrightarrow> \<not> ocfs2_is_hard_readonly M \<and> \<not> ocfs2_mount_local M"
  shows "ret \<le> 0 \<and> (got \<longrightarrow> ret_bh \<and> 0 \<le> ret) \<and>
    moved (0 \<le> ret \<and> acquired) (ip_inode_lockres (fs_inode f)) (ex_level ex) (if got then 1 else 0) f0 f'"
proof (cases "i_new (fs_inode f)")
  case True
  then obtain f1 where
    1: "(if acquired then in_super (ocfs2_complete_lock_res_refresh (ip_inode_lockres (fs_inode f)) 0) f else Some f) = Some f1"
      "inode_lock_bail M ex acquired 0 False False f1 = Some (ret, got, f')"
    using h by (auto simp: inode_lock_have_def bind_eq_Some_conv)
  have s: "stays f f1" using 1(1) by (auto split: if_splits intro: stays_super same_complete)
  then have i: "ip_inode_lockres (fs_inode f1) = ip_inode_lockres (fs_inode f)" by (simp add: moved_def)
  show ?thesis using bail_moves[OF 1(2), of f0] moved_then[OF m s] a i by auto
next
  case False
  then obtain st bh f1 where 1: "ocfs2_inode_lock_update W M f = Some (st, bh, f1)"
    and 2: "(if st < 0 then inode_lock_bail M ex acquired st False bh f1 else inode_lock_getbh W M ret_bh ex acquired st bh f1) = Some (ret, got, f')"
    using h by (auto simp: inode_lock_have_def bind_eq_Some_conv)
  note u = update_moves[OF W 1]
  have i: "ip_inode_lockres (fs_inode f1) = ip_inode_lockres (fs_inode f)" using u by (simp add: moved_def)
  have m1: "moved acquired (ip_inode_lockres (fs_inode f1)) (ex_level ex) (if bh then 1 else 0) f0 f1"
    using moved_then[OF m, of 0 0 _ f1] u i by auto
  show ?thesis
  proof (cases "st < 0")
    case True
    then have "inode_lock_bail M ex acquired st False bh f1 = Some (ret, got, f')" using 2 by simp
    from bail_moves[OF this, of f0] show ?thesis using m1 a i u True by auto
  next
    case False
    then have "inode_lock_getbh W M ret_bh ex acquired st bh f1 = Some (ret, got, f')" using 2 by simp
    from getbh_moves[OF W this _ _ m1 a] show ?thesis using u False i by auto
  qed
qed

text \<open>Whether a call takes the cluster lock: not on a read-only device or a local mount, nor if it only asks for
  the buffer under a lock already held.\<close>

definition takes_lock :: "ocfs2_mount \<Rightarrow> u32 \<Rightarrow> bool" where
  "takes_lock M af \<longleftrightarrow> \<not> ocfs2_is_hard_readonly M \<and> \<not> ocfs2_mount_local M \<and> \<not> has_flag af OCFS2_META_LOCK_GETBH"

text \<open>C33: \<open>ocfs2_inode_lock_full_nested\<close> keeps its books on every path, however often it sleeps and whatever the lock
  manager, recovery and the disk answer: if it returns 0 the process is one more holder of the inode's lock in
  the level it asked for (where a cluster lock is taken at all), and has one buffer more exactly if it got one;
  if it returns an error, the holders of every lock and the references to buffers are what they were.\<close>

theorem inode_lock_balanced:
  assumes "undisturbed W" and "ocfs2_inode_lock_full_nested W M ret_bh ex af f = Some (status, bh, f')"
  shows "status \<le> 0 \<and> (bh \<longrightarrow> ret_bh \<and> status = 0) \<and>
    moved (status = 0 \<and> takes_lock M af) (ip_inode_lockres (fs_inode f)) (ex_level ex) (if bh then 1 else 0) f f'"
proof -
  let ?r = "ip_inode_lockres (fs_inode f)"
  consider "ocfs2_is_hard_readonly M" | "\<not> ocfs2_is_hard_readonly M" "has_flag af OCFS2_META_LOCK_GETBH \<or> ocfs2_mount_local M"
    | "takes_lock M af" by (auto simp: takes_lock_def)
  then show ?thesis
  proof cases
    case 1
    then have "inode_lock_getbh W M ret_bh ex False (if ex then -EROFS else 0) False f = Some (status, bh, f')"
      using assms(2) by (simp add: ocfs2_inode_lock_full_nested_def)
    from getbh_moves[OF assms(1) this, of f] have "status \<le> 0 \<and> (bh \<longrightarrow> ret_bh \<and> 0 \<le> status) \<and>
        moved False ?r (ex_level ex) (if bh then 1 else 0) f f'" by simp
    then show ?thesis using 1 by (auto simp: takes_lock_def)
  next
    case 2
    then have "inode_lock_have W M ret_bh ex False f = Some (status, bh, f')"
      using assms(2) by (simp add: ocfs2_inode_lock_full_nested_def)
    from have_moves[OF assms(1) this, of f] 2 show ?thesis by (auto simp: takes_lock_def)
  next
    case 3
    define f1 where "f1 = (if \<not> has_flag af OCFS2_META_LOCK_RECOVERY then step_over W f else f)"
    obtain st f2 where 2: "ocfs2_cluster_lock W M (ip_inode_lockres (fs_inode f1)) (ex_level ex)
        (if has_flag af OCFS2_META_LOCK_NOQUEUE then DLM_LKF_NOQUEUE else 0) af f1 = Some (st, f2)"
      and rest: "(if st < 0 then inode_lock_bail M ex False st False False f2
        else inode_lock_have W M ret_bh ex True (if \<not> has_flag af OCFS2_META_LOCK_RECOVERY then step_over W f2 else f2))
        = Some (status, bh, f')"
      using 3 assms(2) unfolding ocfs2_inode_lock_full_nested_def takes_lock_def Let_def f1_def[symmetric]
      by (auto simp: bind_eq_Some_conv)
    have s1: "stays f f1" using stays_step[OF assms(1)] by (simp add: f1_def)
    have i1: "ip_inode_lockres (fs_inode f1) = ?r" using s1 by (simp add: moved_def)
    have m2: "st \<le> 0" "moved (st = 0) ?r (ex_level ex) 0 f f2"
      using cluster_lock_moves[OF assms(1) 2[unfolded ocfs2_cluster_lock_def]] moved_trans[OF s1] i1 by fastforce+
    have i2: "ip_inode_lockres (fs_inode f2) = ?r" using m2(2) by (simp add: moved_def)
    show ?thesis
    proof (cases "st < 0")
      case True
      then have "inode_lock_bail M ex False st False False f2 = Some (status, bh, f')" using rest by simp
      from bail_moves[OF this, of f] show ?thesis using m2 True i2 by auto
    next
      case False
      define f3 where "f3 = (if \<not> has_flag af OCFS2_META_LOCK_RECOVERY then step_over W f2 else f2)"
      have s3: "stays f2 f3" using stays_step[OF assms(1)] by (simp add: f3_def)
      have i3: "ip_inode_lockres (fs_inode f3) = ?r" using s3 i2 by (simp add: moved_def)
      have "moved True (ip_inode_lockres (fs_inode f3)) (ex_level ex) 0 f f3"
        using moved_then[OF _ s3, of True ?r "ex_level ex" 0 f] m2 False i3 by auto
      moreover have "inode_lock_have W M ret_bh ex True f3 = Some (status, bh, f')" using rest False by (simp add: f3_def)
      ultimately show ?thesis using have_moves[OF assms(1), of M ret_bh ex True f3 status bh f' f] 3 i3
        by (auto simp: takes_lock_def)
    qed
  qed
qed

subsection \<open>A call\<close>

text \<open>The callbacks of the lock manager do not touch the holders.\<close>

definition kept_by :: "(ocfs2_super \<Rightarrow> ocfs2_super option) \<Rightarrow> bool" where
  "kept_by m \<longleftrightarrow> (\<forall>s s'. m s = Some s' \<longrightarrow> same_holders s s')"

lemma kept_bind: "kept_by m \<Longrightarrow> kept_by n \<Longrightarrow> kept_by (\<lambda>s. m s \<bind> n)"
  unfolding kept_by_def bind_eq_Some_conv by (blast intro: holders_trans)

lemma kept_read: "(\<And>x. kept_by (f x)) \<Longrightarrow> kept_by (\<lambda>s. os_res s r \<bind> (\<lambda>x. f x s))"
  unfolding kept_by_def by (auto simp: bind_eq_Some_conv)

lemma kept_assert: "kept_by n \<Longrightarrow> kept_by (\<lambda>s. dlm_assert b \<bind> (\<lambda>_. n s))"
  unfolding kept_by_def by (auto simp: bind_eq_Some_conv)

lemma kept_if: "kept_by m \<Longrightarrow> kept_by n \<Longrightarrow> kept_by (\<lambda>s. if b then m s else n s)"
  by (simp add: kept_by_def)

lemma kept_flags: "kept_by (lockres_or_flags r fl)" "kept_by (lockres_clear_flags r fl)" "kept_by Some"
  unfolding kept_by_def using same_or same_clear by auto

lemma kept_upd: "(\<And>x. l_ro_holders (f x) = l_ro_holders x) \<Longrightarrow> (\<And>x. l_ex_holders (f x) = l_ex_holders x) \<Longrightarrow> kept_by (upd_res r f)"
  unfolding kept_by_def using same_upd by blast

lemma kept_pending: "kept_by (us_us_lockres_clear_pending r g)"
  unfolding kept_by_def using same_clear_pending by blast

lemma kept_attach: "kept_by (ocfs2_generic_handle_attach_action r)"
  unfolding ocfs2_generic_handle_attach_action_def
  by (intro kept_read kept_assert kept_bind kept_if kept_flags kept_upd) simp_all

lemma kept_out: "kept_by (locking_ast_out r)"
  unfolding locking_ast_out_def by (intro kept_bind kept_read kept_upd kept_pending) simp_all

subsection \<open>A call\<close>

text \<open>In the sample the callback comes while the process is in \<open>__ocfs2_cluster_lock\<close>; the inode is then read
  from disk.\<close>

definition granted_meanwhile :: "ocfs2_fs \<Rightarrow> ocfs2_fs" where
  "granted_meanwhile f = (case ocfs2_generic_handle_attach_action 0 (fs_super f) \<bind> locking_ast_out 0 of
     None \<Rightarrow> f | Some s \<Rightarrow> f\<lparr>fs_super := s\<rparr>)"

definition sample_world :: ocfs2_world where
  "sample_world = \<lparr>others = (\<lambda>n f. if n = 2 then granted_meanwhile f else f), signal_pending = (\<lambda>_. False),
     dlm_lock_answer = (\<lambda>_. 0),
     ocfs2_read_inode_block = (\<lambda>_. (0, \<lparr>di_mode = 0x81a4, di_generation = 17, di_dtime = 0, di_valid = True\<rparr>)),
     ocfs2_refresh_inode = (\<lambda>_ i. i), ocfs2_refresh_slot_info = (\<lambda>_. 0),
     ocfs2_read_quota_phys_block = (\<lambda>_. (0, \<lparr>dqi_bgrace = 0, dqi_igrace = 0, dqi_syncms = 0, dqi_blocks = 0, dqi_free_blk = 0,
       dqi_free_entry = 0\<rparr>)),
     ocfs2_should_update_atime = (\<lambda>_. False), ocfs2_inode_is_new = (\<lambda>_. False), ocfs2_update_inode_atime = (\<lambda>i. i),
     inode_calls = sample_inode_env, my_mw = 0, my_pid = 1\<rparr>"

definition sample_mount :: ocfs2_mount where
  "sample_mount = \<lparr>ocfs2_is_hard_readonly = False, ocfs2_mount_local = False, mount_nointr = True, osb_super_lockres = 3,
     osb_rename_lockres = 4, osb_nfs_sync_lockres = 5, osb_trim_fs_lockres = 6, os_lockres = 7, os_seqno = 0\<rparr>"

definition sample_fs :: ocfs2_fs where
  "sample_fs = \<lparr>fs_super = \<lparr>os_res = [0 \<mapsto> \<lparr>l_type = OCFS2_LOCK_TYPE_META, l_ops = ocfs2_inode_inode_lops, l_name = [],
       l_flags = {OCFS2_LOCK_INITIALIZED}, l_level = DLM_LOCK_IV, l_requested = DLM_LOCK_IV, l_blocking = DLM_LOCK_IV,
       l_action = OCFS2_AST_INVALID, l_unlock_action = OCFS2_UNLOCK_INVALID, l_ro_holders = 0, l_ex_holders = 0,
       l_pending_gen = 0, l_lksb = \<lparr>sb_status = 0, sb_lkid = 0, sb_flags = 0, sb_lvbptr = None\<rparr>, l_mask_waiters = [],
       l_holders = []\<rparr>],
     os_mws = (\<lambda>_. \<lparr>mw_item = False, mw_status = 0, mw_complete = 0, mw_mask = {}, mw_goal = {}\<rparr>),
     blocked_lock_list = [], blocked_lock_count = 0, dc_wake_sequence = 0, dc_work_sequence = 0\<rparr>,
     fs_now = 0, fs_lvb = (\<lambda>_. replicate 64 0), fs_inode = sample_inode\<lparr>i_mode := 0x81a4\<rparr>,
     fs_qinfo = \<lparr>dqi_bgrace = 0, dqi_igrace = 0, dqi_syncms = 0, dqi_blocks = 0, dqi_free_blk = 0, dqi_free_entry = 0\<rparr>,
     fs_bhs = 0, fs_page_locked = True, nfs_readers = 0, nfs_writer = False\<rparr>"

lemma sample_undisturbed: "undisturbed sample_world"
proof -
  have "stays f (granted_meanwhile f)" for f
    using kept_bind[OF kept_attach kept_out, of 0 0] unfolding kept_by_def granted_meanwhile_def
    by (auto simp: moved_def split: option.splits)
  then show ?thesis by (simp add: undisturbed_def sample_world_def)
qed

lemma sample_call:
  "map_option (\<lambda>(status, bh, f). (status, bh)) (ocfs2_inode_lock_full_nested sample_world sample_mount True True 0 sample_fs) = Some (0, True)"
  by code_simp

theorem inode_lock_balanced_witness:
  "\<exists>f'. ocfs2_inode_lock_full_nested sample_world sample_mount True True 0 sample_fs = Some (0, True, f') \<and>
    holders_of 0 (fs_super f') = Some (0, 1) \<and> fs_bhs f' = 1"
proof -
  obtain f' where f: "ocfs2_inode_lock_full_nested sample_world sample_mount True True 0 sample_fs = Some (0, True, f')"
    using sample_call by auto
  have start: "ip_inode_lockres (fs_inode sample_fs) = 0" "holders_of 0 (fs_super sample_fs) = Some (0, 0)" "fs_bhs sample_fs = 0"
    "takes_lock sample_mount 0"
    by (simp_all add: sample_fs_def sample_inode_def holders_of_def takes_lock_def sample_mount_def has_flag_def)
  from inode_lock_balanced[OF sample_undisturbed f] have "moved True 0 (ex_level True) 1 sample_fs f'"
    by (simp add: start)
  then have "one_more 0 (ex_level True) (fs_super sample_fs) (fs_super f')" "fs_bhs f' = 1"
    by (simp_all add: moved_def start)
  then show ?thesis using f by (simp add: one_more_def start one_up_def ex_level_def)
qed

section \<open>A read-only device\<close>

text \<open>\<open>getbh\<close> overwrites the error of an exclusive lock on a read-only device: a caller that also wants the
  buffer of the inode is told that it has the lock.\<close>

lemma readonly_ex_succeeds:
  assumes "ocfs2_is_hard_readonly M" and "ocfs2_read_inode_block W (fs_now f) = (0, fe)"
  shows "\<exists>f'. ocfs2_inode_lock_full_nested W M True True af f = Some (0, True, f')"
    and "ocfs2_inode_lock_full_nested W M False True af f = Some (-EROFS, False, f)"
  using assms by (simp_all add: ocfs2_inode_lock_full_nested_def inode_lock_getbh_def ocfs2_assign_bh_def read_inode_block_def
      inode_lock_bail_def Let_def)

end
